(* ===== verification/Prelude.thy ===== *)
theory Prelude
  imports Main "HOL-Library.Word" "HOL-Library.Monad_Syntax"
begin

text \<open>
  Shared vocabulary of the development: the fixed-width integer types of the i386 kernel, the
  facts that read word arithmetic as arithmetic on natural numbers, the page rounding used by
  the memory managers, and the doubly linked list predicate behind every intrusive queue of the
  kernel (run queues, wait queues, the sleep queue and the heap's block list).
\<close>

unbundle bit_operations_syntax

section \<open>Integer types of the target\<close>

text \<open>
  The kernel is compiled for i386: \<open>size_t\<close>, \<open>uintptr_t\<close> and \<open>unsigned\<close> are 32 bits wide.
\<close>

type_synonym u8 = "8 word"
type_synonym u16 = "16 word"
type_synonym u32 = "32 word"
type_synonym u64 = "64 word"

named_theorems machine_consts
  \<open>the macros and integer constants of the C headers\<close>

named_theorems word_arith
  \<open>rules that read word operations through unat, with their no-overflow side conditions\<close>

definition SIZE_MAX :: u32 where [machine_consts]: "SIZE_MAX = 0xFFFFFFFF"
definition PAGE_SIZE :: u32 where [machine_consts]: "PAGE_SIZE = 4096"

lemma unat_u32_bound [simp]: "unat (x :: u32) < 4294967296"
  using unsigned_less [of x, where ?'a = nat] by simp

lemma unat_u64_bound [simp]: "unat (x :: u64) < 18446744073709551616"
  using unsigned_less [of x, where ?'a = nat] by simp

lemma unat_u32_le [simp]: "unat (x :: u32) \<le> 4294967295"
  using unat_u32_bound [of x] by linarith

lemma unat_add_u32 [word_arith]:
  "unat (a :: u32) + unat b < 4294967296 \<Longrightarrow> unat (a + b) = unat a + unat b"
  by (simp add: unat_word_ariths)

lemma unat_sub_u32 [word_arith]:
  "unat b \<le> unat (a :: u32) \<Longrightarrow> unat (a - b) = unat a - unat b"
  by (simp add: unat_sub word_le_nat_alt)

lemma unat_mult_u32 [word_arith]:
  "unat (a :: u32) * unat b < 4294967296 \<Longrightarrow> unat (a * b) = unat a * unat b"
  by (simp add: unat_word_ariths)

lemma unat_add_u64:
  "unat (a :: u64) + unat b < 18446744073709551616 \<Longrightarrow> unat (a + b) = unat a + unat b"
  by (simp add: unat_word_ariths)

lemma unat_sub_u64:
  "unat b \<le> unat (a :: u64) \<Longrightarrow> unat (a - b) = unat a - unat b"
  by (simp add: unat_sub word_le_nat_alt)

lemma unat_mult_u64:
  "unat (a :: u64) * unat b < 18446744073709551616 \<Longrightarrow> unat (a * b) = unat a * unat b"
  by (simp add: unat_word_ariths)

lemma u32_div_unat [word_arith]: "unat ((a :: u32) div b) = unat a div unat b"
  by (simp add: unat_div)

lemma u32_mod_unat [word_arith]: "unat ((a :: u32) mod b) = unat a mod unat b"
  by (simp add: unat_mod)

lemma u32_eq_iff: "(a :: u32) = b \<longleftrightarrow> unat a = unat b"
  by (simp add: word_unat_eq_iff)

lemma u32_of_nat_unat [word_arith]: "n < 4294967296 \<Longrightarrow> unat (of_nat n :: u32) = n"
  by (simp add: unat_of_nat)

lemma unat_inc_u32 [word_arith]: "unat (i :: u32) < unat (n :: u32) \<Longrightarrow> unat (i + 1) = Suc (unat i)"
proof -
  assume "unat i < unat n"
  then have "unat i + unat (1 :: u32) < 4294967296" using unat_u32_bound [of n] by (simp only: unat_1)
  then show ?thesis by (simp add: unat_add_u32)
qed

lemma unat_ucast_u64 [word_arith]: "unat (ucast (x :: u32) :: u64) = unat x"
proof -
  have "unat x < 18446744073709551616" using unat_u32_bound [of x] by linarith
  then show ?thesis by (simp add: unsigned_ucast_eq take_bit_nat_eq_self)
qed

lemma unat_ucast_u32 [word_arith]: "unat (x :: u64) < 4294967296 \<Longrightarrow> unat (ucast x :: u32) = unat x"
  by (simp add: unsigned_ucast_eq unsigned_take_bit_eq take_bit_nat_eq_self)


lemma unat_inc_not_max: "(x :: u32) \<noteq> SIZE_MAX \<Longrightarrow> unat (x + 1) = Suc (unat x)"
proof -
  assume "x \<noteq> SIZE_MAX"
  moreover have "SIZE_MAX = - 1" by (simp add: SIZE_MAX_def minus_1_eq_mask mask_eq_exp_minus_1)
  ultimately have "1 + x \<noteq> 0" by (simp add: add_eq_0_iff)
  then show ?thesis by (simp add: unatSuc add.commute)
qed

lemma unat_dec_u32: "(x :: u32) \<noteq> 0 \<Longrightarrow> unat x = Suc (unat (x - 1))"
proof -
  assume "x \<noteq> 0"
  then have "unat (1 + (x - 1)) = Suc (unat (x - 1))" by (intro unatSuc) simp
  then show ?thesis by simp
qed

lemma word_zero_bits: "(x :: 'a :: len word) = 0 \<longleftrightarrow> (\<forall>n. \<not> bit x n)"
proof
  assume none: "\<forall>n. \<not> bit x n"
  show "x = 0" by (rule bit_word_eqI) (simp add: none)
qed simp

section \<open>Page rounding\<close>

text \<open>
  \<open>address & ~(PAGE_SIZE - 1)\<close> clears the low twelve bits; \<open>address & (PAGE_SIZE - 1)\<close> keeps them.
\<close>

lemma and_low_mask: "(a :: u32) AND 4095 = a mod 4096"
  using take_bit_eq_mask [of 12 a] by (simp add: mask_eq_decr_exp take_bit_eq_mod)

lemma and_low_mask_unat [word_arith]: "unat ((a :: u32) AND 4095) = unat a mod 4096"
  by (simp add: and_low_mask u32_mod_unat)

lemma and_not_mask_sub: "(a :: u32) AND - 4096 = a - a mod 4096"
proof -
  have "(a AND NOT 4095) + (a AND 4095) = (a AND NOT 4095) OR (a AND 4095)"
    by (rule disjunctive_add_eq_or) (simp add: and.assoc and.left_commute)
  also have "\<dots> = a"
    by (simp only: bit.conj_disj_distrib [symmetric]) simp
  finally have "(a AND NOT 4095) = a - (a AND 4095)" by (simp only: eq_diff_eq)
  then show ?thesis by (simp add: and_low_mask)
qed

lemma and_not_mask_unat [word_arith]: "unat ((a :: u32) AND - 4096) = unat a - unat a mod 4096"
  by (simp add: and_not_mask_sub unat_sub_u32 u32_mod_unat)

section \<open>Doubly linked lists\<close>

text \<open>
  Every queue of the kernel is an intrusive list: the elements carry a previous and a next pointer
  and the queue holds the head and the tail. \<open>dls p n pr xs nx\<close> says that the links \<open>p\<close> and \<open>n\<close>
  thread the elements \<open>xs\<close> in this order, entered from \<open>pr\<close> and left towards \<open>nx\<close>; \<open>dll\<close> is the
  whole list with its head and tail pointers.
\<close>

definition first_or :: "'a option \<Rightarrow> 'a list \<Rightarrow> 'a option" where
  "first_or d xs = (case xs of [] \<Rightarrow> d | x # _ \<Rightarrow> Some x)"

definition last_or :: "'a option \<Rightarrow> 'a list \<Rightarrow> 'a option" where
  "last_or d xs = (if xs = [] then d else Some (last xs))"

lemma first_or_simps [simp]:
  "first_or d [] = d" "first_or d (x # xs) = Some x"
  by (simp_all add: first_or_def)

lemma last_or_simps [simp]:
  "last_or d [] = d" "last_or d (x # xs) = last_or (Some x) xs" "last_or d (xs @ [x]) = Some x"
  by (simp_all add: last_or_def)

lemma first_or_append [simp]: "first_or d (xs @ ys) = first_or (first_or d ys) xs"
  by (cases xs) simp_all

lemma last_or_append [simp]: "last_or d (xs @ ys) = last_or (last_or d xs) ys"
  by (simp add: last_or_def)

lemma first_or_Some_in: "first_or None xs = Some x \<Longrightarrow> x \<in> set xs"
  by (cases xs) auto

lemma last_or_Some_in: "last_or None xs = Some x \<Longrightarrow> x \<in> set xs"
  by (auto simp: last_or_def split: if_splits)

lemma first_or_None_iff [simp]: "first_or None xs = None \<longleftrightarrow> xs = []"
  by (cases xs) simp_all

lemma last_or_None_iff [simp]: "last_or None xs = None \<longleftrightarrow> xs = []"
  by (simp add: last_or_def)

lemma last_or_Some_ne [simp]: "last_or (Some x) xs \<noteq> None"
  by (simp add: last_or_def)

fun dls :: "('a \<Rightarrow> 'a option) \<Rightarrow> ('a \<Rightarrow> 'a option) \<Rightarrow> 'a option \<Rightarrow> 'a list \<Rightarrow> 'a option \<Rightarrow> bool" where
  "dls p n pr [] nx = True"
| "dls p n pr (x # xs) nx = (p x = pr \<and> n x = first_or nx xs \<and> dls p n (Some x) xs nx)"

definition dll :: "('a \<Rightarrow> 'a option) \<Rightarrow> ('a \<Rightarrow> 'a option) \<Rightarrow> 'a option \<Rightarrow> 'a option \<Rightarrow> 'a list \<Rightarrow> bool" where
  "dll p n h t xs \<longleftrightarrow> distinct xs \<and> h = first_or None xs \<and> t = last_or None xs \<and> dls p n None xs None"

lemma dls_append [simp]:
  "dls p n pr (xs @ ys) nx \<longleftrightarrow> dls p n pr xs (first_or nx ys) \<and> dls p n (last_or pr xs) ys nx"
  by (induction xs arbitrary: pr) auto

lemma dls_cong:
  "(\<And>x. x \<in> set xs \<Longrightarrow> p' x = p x \<and> n' x = n x) \<Longrightarrow> dls p' n' pr xs nx = dls p n pr xs nx"
  by (induction xs arbitrary: pr) auto

lemma dll_cong:
  "(\<And>x. x \<in> set xs \<Longrightarrow> p' x = p x \<and> n' x = n x) \<Longrightarrow> dll p' n' h t xs = dll p n h t xs"
  using dls_cong [of xs p' p n' n None None] by (simp add: dll_def)

lemma dls_upd [simp]:
  "x \<notin> set xs \<Longrightarrow> dls (p(x := v)) n pr xs nx = dls p n pr xs nx"
  "x \<notin> set xs \<Longrightarrow> dls p (n(x := v)) pr xs nx = dls p n pr xs nx"
  by (rule dls_cong; auto)+

lemma dls_set_next:
  "dls p n pr (xs @ [x]) nx \<Longrightarrow> x \<notin> set xs \<Longrightarrow> dls p (n(x := nx')) pr (xs @ [x]) nx'"
  by simp

lemma dls_set_prev:
  "dls p n pr (x # xs) nx \<Longrightarrow> x \<notin> set xs \<Longrightarrow> dls (p(x := pr')) n pr' (x # xs) nx"
  by simp

lemma dll_links:
  "dll p n h t (xs @ x # ys) \<Longrightarrow> p x = last_or None xs \<and> n x = first_or None ys"
  by (simp add: dll_def)

lemma dll_Nil [simp]: "dll p n h t [] \<longleftrightarrow> h = None \<and> t = None"
  by (simp add: dll_def)

lemma dll_head_tail: "dll p n h t xs \<Longrightarrow> h = first_or None xs \<and> t = last_or None xs"
  by (simp add: dll_def)

lemma dll_distinct: "dll p n h t xs \<Longrightarrow> distinct xs"
  by (simp add: dll_def)

text \<open>The pointer surgery of appending, unlinking and inserting, once for all the queues.\<close>

definition set_link :: "'a option \<Rightarrow> 'a option \<Rightarrow> ('a \<Rightarrow> 'a option) \<Rightarrow> 'a \<Rightarrow> 'a option" where
  "set_link at v f = (case at of None \<Rightarrow> f | Some a \<Rightarrow> f(a := v))"

lemma set_link_simps [simp]: "set_link None v f = f" "set_link (Some a) v f = f(a := v)"
  by (simp_all add: set_link_def)

lemma dls_set_link [simp]:
  "at = None \<or> the at \<notin> set xs \<Longrightarrow> dls (set_link at v p) n pr xs nx = dls p n pr xs nx"
  "at = None \<or> the at \<notin> set xs \<Longrightarrow> dls p (set_link at v n) pr xs nx = dls p n pr xs nx"
  by (cases at; auto)+

lemma set_link_other [simp]: "at \<noteq> Some a \<Longrightarrow> set_link at v f a = f a"
  by (cases at) auto

lemma set_link_twist:
  "at \<noteq> Some x \<Longrightarrow> set_link at v (f(x := w)) = (set_link at v f)(x := w)"
  by (cases at) (auto simp: fun_upd_twist)

lemma first_or_the_notin [simp]:
  "set xs \<inter> set ys = {} \<Longrightarrow> ys = [] \<or> the (first_or None ys) \<notin> set xs"
  by (cases ys) auto

lemma last_or_the_notin [simp]:
  "set xs \<inter> set ys = {} \<Longrightarrow> xs = [] \<or> the (last_or None xs) \<notin> set ys"
  using last_in_set [of xs] by (auto simp: last_or_def simp del: last_in_set)

lemma first_or_neq [simp]: "x \<notin> set xs \<Longrightarrow> first_or None xs \<noteq> Some x"
  by (cases xs) auto

lemma last_or_neq [simp]: "x \<notin> set xs \<Longrightarrow> last_or None xs \<noteq> Some x"
  by (auto simp: last_or_def)

lemma dls_set_last:
  assumes "dls p n pr xs nx" "distinct xs" "xs \<noteq> []"
  shows "dls p (set_link (last_or None xs) v n) pr xs v"
proof -
  obtain ys y where "xs = ys @ [y]" using assms(3) by (metis rev_exhaust)
  with assms show ?thesis using dls_set_next [of p n pr ys y nx v] by simp
qed

lemma dls_set_first:
  assumes "dls p n pr xs nx" "distinct xs"
  shows "dls (set_link (first_or None xs) v p) n v xs nx"
proof (cases xs)
  case (Cons y ys)
  with assms show ?thesis using dls_set_prev [of p n pr y ys nx v] by simp
qed simp

lemma dll_push_back:
  assumes "dll p n h t xs" "x \<notin> set xs"
  shows "dll (p(x := t)) (set_link t (Some x) (n(x := None))) (if t = None then Some x else h) (Some x) (xs @ [x])"
proof (cases "xs = []")
  case True
  with assms show ?thesis by (simp add: dll_def)
next
  case False
  from assms have d: "distinct xs" "t = last_or None xs" "h = first_or None xs" "dls p n None xs None"
    by (auto simp: dll_def)
  have "dls p (set_link t (Some x) n) None xs (Some x)"
    using dls_set_last [OF d(4,1) False] d(2) by simp
  moreover have "set_link t (Some x) (n(x := None)) = (set_link t (Some x) n)(x := None)"
    using d(2) assms(2) by (simp add: set_link_twist)
  moreover have "first_or (Some x) xs = h" using False d(3) by (cases xs) auto
  ultimately show ?thesis using d assms(2) False by (auto simp: dll_def last_or_def)
qed

lemma dll_unlink:
  assumes "dll p n h t (xs @ x # ys)"
  shows "dll ((set_link (n x) (p x) p)(x := None)) ((set_link (p x) (n x) n)(x := None))
           (if p x = None then n x else h) (if n x = None then p x else t) (xs @ ys)"
proof -
  from assms have d: "distinct xs" "distinct ys" "x \<notin> set xs" "x \<notin> set ys" "set xs \<inter> set ys = {}"
      "t = last_or None (xs @ x # ys)" "h = first_or None (xs @ x # ys)"
      "dls p n None xs (Some x)" "dls p n (Some x) ys None"
    and l: "p x = last_or None xs" "n x = first_or None ys"
    by (auto simp: dll_def)
  have "dls p (set_link (p x) (n x) n) None xs (n x)"
    using dls_set_last [OF d(8), of "n x"] d(1) l by (cases "xs = []") simp_all
  then have xs: "dls ((set_link (n x) (p x) p)(x := None)) ((set_link (p x) (n x) n)(x := None)) None xs (n x)"
    using d(3,5) l by simp
  have "dls (set_link (n x) (p x) p) n (p x) ys None"
    using dls_set_first [OF d(9), of "p x"] d(2) l by simp
  then have ys: "dls ((set_link (n x) (p x) p)(x := None)) ((set_link (p x) (n x) n)(x := None)) (p x) ys None"
    using d(4,5) l by simp
  show ?thesis
    using xs ys d l by (auto simp: dll_def last_or_def first_or_def split: list.splits)
qed

lemma dll_insert_before:
  assumes "dll p n h t (xs @ y # ys)" "x \<notin> set (xs @ y # ys)"
  shows "dll (p(x := p y, y := Some x)) (set_link (p y) (Some x) (n(x := Some y)))
           (if p y = None then Some x else h) t (xs @ x # y # ys)"
proof -
  from assms have d: "distinct xs" "distinct ys" "y \<notin> set xs" "y \<notin> set ys" "set xs \<inter> set ys = {}"
      "x \<notin> set xs" "x \<notin> set ys" "x \<noteq> y"
      "t = last_or None (xs @ y # ys)" "h = first_or None (xs @ y # ys)"
      "dls p n None xs (Some y)" "dls p n (Some y) ys None"
    and l: "p y = last_or None xs" "n y = first_or None ys"
    by (auto simp: dll_def)
  have "dls p (set_link (p y) (Some x) n) None xs (Some x)"
    using dls_set_last [OF d(11), of "Some x"] d(1) l by (cases "xs = []") simp_all
  moreover have "set_link (p y) (Some x) (n(x := Some y)) = (set_link (p y) (Some x) n)(x := Some y)"
    using d(6) l by (simp add: set_link_twist)
  ultimately have "dls (p(x := p y, y := Some x)) (set_link (p y) (Some x) (n(x := Some y))) None xs (Some x)"
    using d(3,6) by simp
  moreover have "dls (p(x := p y, y := Some x)) (set_link (p y) (Some x) (n(x := Some y))) (Some y) ys None"
    using d(2,4,5,7,12) l by simp
  moreover have "(if p y = None then Some x else h) = first_or None (xs @ x # y # ys)"
    using d(10) l by (cases xs) simp_all
  ultimately show ?thesis
    using d l by (simp add: dll_def)
qed

text \<open>Inserting behind the elements that are not greater keeps a list sorted.\<close>

lemma sorted_insert_after:
  fixes f :: "'a \<Rightarrow> 'b :: linorder"
  assumes "sorted (map f xs)"
  shows "sorted (map f (takeWhile (\<lambda>x. f x \<le> f t) xs @ t # dropWhile (\<lambda>x. f x \<le> f t) xs))"
  using assms
proof (induction xs)
  case (Cons x xs)
  let ?ys = "takeWhile (\<lambda>x. f x \<le> f t) xs @ t # dropWhile (\<lambda>x. f x \<le> f t) xs"
  have "set (takeWhile (\<lambda>x. f x \<le> f t) xs) \<union> set (dropWhile (\<lambda>x. f x \<le> f t) xs) = set xs"
    by (metis set_append takeWhile_dropWhile_id)
  then have "set ?ys = insert t (set xs)" by auto
  moreover have "sorted (map f ?ys)" using Cons by simp
  ultimately have "f x \<le> f t \<Longrightarrow> sorted (map f (x # ?ys))"
    using Cons.prems by (simp del: map_append set_append)
  then show ?case using Cons.prems by force
qed simp

end
