(* ===== verification/Pmm.thy ===== *)
theory Pmm
  imports Prelude
begin

text \<open>
  The physical memory manager, \<open>kernel/kernel/memory/pmm.c\<close>: one bit per 4 KiB frame of the first
  GiB, set while the frame is reserved or allocated. Every public operation runs under
  \<open>pmm_lock\<close> with interrupts off, so each is one atomic step of the model. The boot loader's data
  (the Multiboot record and the memory map entries) and the linker symbols of the kernel image are
  arguments of \<open>pmm_initialize\<close>.
\<close>

section \<open>Frame bitmap\<close>

definition MAX_PHYSICAL_MEMORY :: u32 where [machine_consts]: "MAX_PHYSICAL_MEMORY = 1024 * 1024 * 1024"
definition FRAME_COUNT :: u32 where "FRAME_COUNT = MAX_PHYSICAL_MEMORY div PAGE_SIZE"
definition BITMAP_SIZE :: u32 where "BITMAP_SIZE = FRAME_COUNT div 8"

lemma frame_consts [machine_consts]: "FRAME_COUNT = 262144" "BITMAP_SIZE = 32768"
  by (simp_all add: FRAME_COUNT_def BITMAP_SIZE_def machine_consts)

text \<open>\<open>frame_bitmap\<close> is the array of \<open>BITMAP_SIZE\<close> bytes, indexed by byte number.\<close>

record pmm =
  frame_bitmap :: "nat \<Rightarrow> u8"
  total_usable_memory :: u64

definition align_down :: "u32 \<Rightarrow> u32" where
  "align_down value = value AND NOT (PAGE_SIZE - 1)"

definition align_up :: "u32 \<Rightarrow> u32" where
  "align_up value = (value + PAGE_SIZE - 1) AND NOT (PAGE_SIZE - 1)"

definition frame_bit :: "u32 \<Rightarrow> u32" where
  "frame_bit frame = push_bit (unat (frame mod 8)) 1"

definition frame_mark_used :: "u32 \<Rightarrow> pmm \<Rightarrow> pmm" where
  "frame_mark_used frame s = s\<lparr>frame_bitmap := (frame_bitmap s)(unat (frame div 8) :=
     frame_bitmap s (unat (frame div 8)) OR ucast (frame_bit frame))\<rparr>"

definition frame_mark_free :: "u32 \<Rightarrow> pmm \<Rightarrow> pmm" where
  "frame_mark_free frame s = s\<lparr>frame_bitmap := (frame_bitmap s)(unat (frame div 8) :=
     frame_bitmap s (unat (frame div 8)) AND ucast (NOT (frame_bit frame)))\<rparr>"

definition frame_is_used :: "u32 \<Rightarrow> pmm \<Rightarrow> bool" where
  "frame_is_used frame s \<longleftrightarrow>
     frame_bitmap s (unat (frame div 8)) AND ucast (frame_bit frame) \<noteq> 0"

section \<open>Ranges\<close>

text \<open>
  The two loops \<open>for (address = start; address < stop; address += PAGE_SIZE)\<close> differ in what they do
  to the frame; \<open>address\<close> is a 32-bit value, so the loop is a partial function until its bound is
  known to stay below the wrap-around.
\<close>

partial_function (option) frames_loop :: "(u32 \<Rightarrow> pmm \<Rightarrow> pmm) \<Rightarrow> u32 \<Rightarrow> u32 \<Rightarrow> pmm \<Rightarrow> pmm option" where
  "frames_loop mark address stop s =
     (if address < stop then frames_loop mark (address + PAGE_SIZE) stop (mark (address div PAGE_SIZE) s)
      else Some s)"

definition pmm_reserve_range_unlocked :: "u32 \<Rightarrow> u32 \<Rightarrow> pmm \<Rightarrow> pmm option" where
  "pmm_reserve_range_unlocked base len s =
     (if len = 0 then Some s
      else if base \<ge> MAX_PHYSICAL_MEMORY then Some s
      else
        let start = align_down base;
            stop = (if len > MAX_PHYSICAL_MEMORY \<or> base > MAX_PHYSICAL_MEMORY - len
                   then MAX_PHYSICAL_MEMORY
                   else let stop = align_up (base + len)
                        in if stop > MAX_PHYSICAL_MEMORY then MAX_PHYSICAL_MEMORY else stop)
        in frames_loop frame_mark_used start stop s)"

definition pmm_release_range_unlocked :: "u32 \<Rightarrow> u32 \<Rightarrow> pmm \<Rightarrow> pmm option" where
  "pmm_release_range_unlocked base len s =
     (if len = 0 then Some s
      else if base \<ge> MAX_PHYSICAL_MEMORY then Some s
      else
        let start = align_up base;
            stop = (if len > MAX_PHYSICAL_MEMORY \<or> base > MAX_PHYSICAL_MEMORY - len
                   then MAX_PHYSICAL_MEMORY
                   else let stop = align_down (base + len)
                        in if stop > MAX_PHYSICAL_MEMORY then MAX_PHYSICAL_MEMORY else stop)
        in if start \<ge> stop then Some s else frames_loop frame_mark_free start stop s)"

definition pmm_reserve_range :: "u32 \<Rightarrow> u32 \<Rightarrow> pmm \<Rightarrow> pmm option" where
  "pmm_reserve_range base len s = pmm_reserve_range_unlocked base len s"

definition pmm_release_range :: "u32 \<Rightarrow> u32 \<Rightarrow> pmm \<Rightarrow> pmm option" where
  "pmm_release_range base len s = pmm_release_range_unlocked base len s"

section \<open>Initialisation from the Multiboot memory map\<close>

definition MULTIBOOT_INFO_MEMORY_MAP :: u32 where [machine_consts]: "MULTIBOOT_INFO_MEMORY_MAP = 0x40"
definition MULTIBOOT_MEMORY_AVAILABLE :: u32 where [machine_consts]: "MULTIBOOT_MEMORY_AVAILABLE = 1"
definition sizeof_multiboot_info :: u32 where [machine_consts]: "sizeof_multiboot_info = 118"

record multiboot_info =
  mbi_flags :: u32
  mmap_addr :: u32
  mmap_lengh :: u32

record multiboot_mmap_entry =
  entry_size :: u32
  entry_address :: u64
  entry_length :: u64
  entry_type :: u32

text \<open>What one memory map entry contributes.\<close>

definition pmm_add_region :: "multiboot_mmap_entry \<Rightarrow> pmm \<Rightarrow> pmm option" where
  "pmm_add_region entry s =
     (if entry_type entry = MULTIBOOT_MEMORY_AVAILABLE then
        let region_base = entry_address entry;
            region_end = entry_address entry + entry_length entry
        in if region_base < ucast MAX_PHYSICAL_MEMORY then
             let region_end = (if region_end > ucast MAX_PHYSICAL_MEMORY
                               then ucast MAX_PHYSICAL_MEMORY else region_end)
             in if region_end > region_base then
                  pmm_release_range_unlocked (ucast region_base) (ucast (region_end - region_base))
                    (s\<lparr>total_usable_memory := total_usable_memory s + (region_end - region_base)\<rparr>)
                else Some s
           else Some s
      else Some s)"

text \<open>
  The walk over the map: \<open>current += entry->size + sizeof(entry->size)\<close>. A boot loader that supplies a
  size of -4 makes it spin, so the walk is partial.
\<close>

partial_function (option) mmap_loop ::
  "(u32 \<Rightarrow> multiboot_mmap_entry) \<Rightarrow> u32 \<Rightarrow> u32 \<Rightarrow> pmm \<Rightarrow> pmm option" where
  "mmap_loop entry_at current stop s =
     (if current < stop then
        Option.bind (pmm_add_region (entry_at current) s)
          (mmap_loop entry_at (current + (entry_size (entry_at current) + 4)) stop)
      else Some s)"

definition pmm_initialize ::
  "multiboot_info \<Rightarrow> (u32 \<Rightarrow> multiboot_mmap_entry) \<Rightarrow> u32 \<Rightarrow> u32 \<Rightarrow> u32 \<Rightarrow> pmm \<Rightarrow> pmm option" where
  "pmm_initialize mbi entry_at kernel_start kernel_end multiboot_info_address s =
     (let s = s\<lparr>frame_bitmap := (\<lambda>i. if i < unat BITMAP_SIZE then 0xFF else frame_bitmap s i),
                total_usable_memory := 0\<rparr>
      in if mbi_flags mbi AND MULTIBOOT_INFO_MEMORY_MAP = 0 then Some s
         else do {
           s \<leftarrow> mmap_loop entry_at (mmap_addr mbi) (mmap_addr mbi + mmap_lengh mbi) s;
           s \<leftarrow> pmm_reserve_range_unlocked 0 0x100000 s;
           s \<leftarrow> pmm_reserve_range_unlocked kernel_start (kernel_end - kernel_start) s;
           s \<leftarrow> pmm_reserve_range_unlocked multiboot_info_address sizeof_multiboot_info s;
           pmm_reserve_range_unlocked (mmap_addr mbi) (mmap_lengh mbi) s
         })"

section \<open>Allocation\<close>

function allocate_loop :: "u32 \<Rightarrow> pmm \<Rightarrow> u32 \<times> pmm" where
  "allocate_loop frame s =
     (if frame < FRAME_COUNT then
        if \<not> frame_is_used frame s then (frame * PAGE_SIZE, frame_mark_used frame s)
        else allocate_loop (frame + 1) s
      else (0, s))"
  by pat_completeness auto
termination
  by (relation "measure (\<lambda>(frame, s). unat FRAME_COUNT - unat frame)")
     (auto simp: machine_consts word_less_nat_alt unat_add_u32)

definition pmm_allocate_frame :: "pmm \<Rightarrow> u32 \<times> pmm" where
  "pmm_allocate_frame s = allocate_loop 1 s"

definition pmm_free_frame :: "u32 \<Rightarrow> pmm \<Rightarrow> pmm" where
  "pmm_free_frame address s =
     (if address AND (PAGE_SIZE - 1) \<noteq> 0 then s
      else if address = 0 \<or> address \<ge> MAX_PHYSICAL_MEMORY then s
      else frame_mark_free (address div PAGE_SIZE) s)"

function count_loop :: "u32 \<Rightarrow> u32 \<Rightarrow> pmm \<Rightarrow> u32" where
  "count_loop frame free_frames s =
     (if frame < FRAME_COUNT then
        count_loop (frame + 1) (if \<not> frame_is_used frame s then free_frames + 1 else free_frames) s
      else free_frames)"
  by pat_completeness auto
termination
  by (relation "measure (\<lambda>(frame, n, s). unat FRAME_COUNT - unat frame)")
     (auto simp: machine_consts word_less_nat_alt unat_add_u32)

definition pmm_get_free_frame_count :: "pmm \<Rightarrow> u32" where
  "pmm_get_free_frame_count s = count_loop 0 0 s"

definition pmm_get_free_memory :: "pmm \<Rightarrow> u64" where
  "pmm_get_free_memory s = ucast (pmm_get_free_frame_count s) * ucast PAGE_SIZE"

definition pmm_get_usable_memory :: "pmm \<Rightarrow> u64" where
  "pmm_get_usable_memory s = total_usable_memory s"

declare allocate_loop.simps [simp del] count_loop.simps [simp del]

section \<open>The bitmap as a set of frames\<close>

definition pmm_used :: "pmm \<Rightarrow> nat \<Rightarrow> bool" where
  "pmm_used s f \<longleftrightarrow> bit (frame_bitmap s (f div 8)) (f mod 8)"

lemma bit_frame_bit: "bit (frame_bit f) n \<longleftrightarrow> n = unat f mod 8"
proof -
  have "unat f mod 8 < 8" by simp
  then show ?thesis
    by (auto simp: frame_bit_def bit_simps u32_mod_unat bit_1_iff)
qed

lemma pmm_used_mark_used: "pmm_used (frame_mark_used f s) g \<longleftrightarrow> g = unat f \<or> pmm_used s g"
proof -
  have "g div 8 = unat f div 8 \<Longrightarrow> g mod 8 = unat f mod 8 \<Longrightarrow> g = unat f"
    by (metis div_mult_mod_eq)
  then show ?thesis
    by (auto simp: pmm_used_def frame_mark_used_def bit_simps bit_frame_bit u32_div_unat)
qed

lemma pmm_used_mark_free: "pmm_used (frame_mark_free f s) g \<longleftrightarrow> g \<noteq> unat f \<and> pmm_used s g"
proof -
  have "g div 8 = unat f div 8 \<Longrightarrow> g mod 8 = unat f mod 8 \<Longrightarrow> g = unat f"
    by (metis div_mult_mod_eq)
  then show ?thesis
    by (auto simp: pmm_used_def frame_mark_free_def bit_simps bit_frame_bit u32_div_unat)
qed

lemma frame_is_used_iff: "frame_is_used f s \<longleftrightarrow> pmm_used s (unat f)"
proof -
  have "(x :: u8) AND ucast (frame_bit f) \<noteq> 0 \<longleftrightarrow> bit x (unat f mod 8)" for x
    by (simp add: word_zero_bits bit_simps bit_frame_bit)
  then show ?thesis by (simp add: frame_is_used_def pmm_used_def u32_div_unat)
qed

lemmas pmm_used_simps [simp] = pmm_used_mark_used pmm_used_mark_free frame_is_used_iff


text \<open>Cells beyond the array are never written: no operation indexes \<open>frame_bitmap\<close> out of bounds.\<close>

definition bitmap_tail_same :: "pmm \<Rightarrow> pmm \<Rightarrow> bool" where
  "bitmap_tail_same s s' \<longleftrightarrow> (\<forall>i \<ge> unat BITMAP_SIZE. frame_bitmap s' i = frame_bitmap s i)"

lemma bitmap_tail_refl [simp]: "bitmap_tail_same s s"
  by (simp add: bitmap_tail_same_def)

lemma bitmap_tail_trans [trans]:
  "bitmap_tail_same s t \<Longrightarrow> bitmap_tail_same t u \<Longrightarrow> bitmap_tail_same s u"
  by (simp add: bitmap_tail_same_def)

lemma bitmap_tail_mark:
  assumes "unat f < 262144"
  shows "bitmap_tail_same s (frame_mark_used f s)" "bitmap_tail_same s (frame_mark_free f s)"
proof -
  have "unat f div 8 < 32768" using assms by simp
  then show "bitmap_tail_same s (frame_mark_used f s)" "bitmap_tail_same s (frame_mark_free f s)"
    by (auto simp: bitmap_tail_same_def frame_mark_used_def frame_mark_free_def machine_consts u32_div_unat)
qed

section \<open>Ranges, read as sets of frames\<close>

lemma align_down_unat: "unat (align_down a) = unat a - unat a mod 4096"
  by (simp add: align_down_def PAGE_SIZE_def and_not_mask_unat)

lemma align_up_unat:
  assumes "unat a \<le> 1073741824"
  shows "unat (align_up a) = (unat a + 4095) - (unat a + 4095) mod 4096"
proof -
  have "unat (a + 4095) = unat a + 4095" using assms by (simp add: unat_add_u32)
  then show ?thesis
    by (simp add: align_up_def PAGE_SIZE_def and_not_mask_unat add.commute)
qed

text \<open>
  The loop touches the frames from \<open>start\<close> up to \<open>stop\<close>; with \<open>stop\<close> at most \<open>MAX_PHYSICAL_MEMORY\<close> the
  address never wraps, so it returns.
\<close>

lemma frames_loop_result:
  assumes mark: "\<And>f s g. pmm_used (mark f s) g \<longleftrightarrow> (if g = unat f then v else pmm_used s g)"
    and tail: "\<And>f s. unat f < 262144 \<Longrightarrow> bitmap_tail_same s (mark f s)"
    and usable: "\<And>f s. total_usable_memory (mark f s) = total_usable_memory s"
  shows "unat start mod 4096 = 0 \<Longrightarrow> unat stop \<le> 1073741824 \<Longrightarrow>
    \<exists>s'. frames_loop mark start stop s = Some s' \<and> bitmap_tail_same s s' \<and>
      total_usable_memory s' = total_usable_memory s \<and>
      (\<forall>g. pmm_used s' g \<longleftrightarrow> (if unat start \<le> g * 4096 \<and> g * 4096 < unat stop then v else pmm_used s g))"
proof (induction "unat stop - unat start" arbitrary: start s rule: less_induct)
  case less
  show ?case
  proof (cases "start < stop")
    case False
    then show ?thesis by (subst frames_loop.simps) (auto simp: word_less_nat_alt)
  next
    case True
    then have lt: "unat start < unat stop" by (simp add: word_less_nat_alt)
    let ?f = "start div PAGE_SIZE" and ?next = "start + PAGE_SIZE"
    have f: "unat ?f = unat start div 4096" by (simp add: PAGE_SIZE_def u32_div_unat)
    have n: "unat ?next = unat start + 4096"
      using lt less.prems(2) by (simp add: PAGE_SIZE_def unat_add_u32)
    obtain k where k: "unat start = 4096 * k" using less.prems(1) mod_0_imp_dvd by (metis dvdE)
    have nm: "unat ?next mod 4096 = 0" using n k by simp
    have "unat stop - unat ?next < unat stop - unat start" using lt n by simp
    from less.hyps [OF this nm less.prems(2), of "mark ?f s"] obtain s' where s':
      "frames_loop mark ?next stop (mark ?f s) = Some s'" "bitmap_tail_same (mark ?f s) s'"
      "total_usable_memory s' = total_usable_memory s"
      "\<And>g. pmm_used s' g \<longleftrightarrow>
         (if unat ?next \<le> g * 4096 \<and> g * 4096 < unat stop then v else pmm_used (mark ?f s) g)"
      using usable by auto
    have "unat ?f < 262144" using f lt less.prems(2) by simp
    then have "bitmap_tail_same s s'" using s'(2) tail bitmap_tail_trans by blast
    moreover have "pmm_used s' g \<longleftrightarrow> (if unat start \<le> g * 4096 \<and> g * 4096 < unat stop then v else pmm_used s g)" for g
      unfolding s'(4) mark f n using k lt by auto
    ultimately show ?thesis using True s'(1,3) by (subst frames_loop.simps) simp
  qed
qed

lemma mark_usable [simp]:
  "total_usable_memory (frame_mark_used f s) = total_usable_memory s"
  "total_usable_memory (frame_mark_free f s) = total_usable_memory s"
  by (simp_all add: frame_mark_used_def frame_mark_free_def)

lemma frames_loop_used:
  assumes "unat start mod 4096 = 0" "unat stop \<le> 1073741824"
  shows "\<exists>s'. frames_loop frame_mark_used start stop s = Some s' \<and> bitmap_tail_same s s' \<and>
    total_usable_memory s' = total_usable_memory s \<and>
    (\<forall>g. pmm_used s' g \<longleftrightarrow> pmm_used s g \<or> unat start \<le> g * 4096 \<and> g * 4096 < unat stop)"
proof -
  have "\<exists>s'. frames_loop frame_mark_used start stop s = Some s' \<and> bitmap_tail_same s s' \<and>
    total_usable_memory s' = total_usable_memory s \<and>
    (\<forall>g. pmm_used s' g \<longleftrightarrow> (if unat start \<le> g * 4096 \<and> g * 4096 < unat stop then True else pmm_used s g))"
    by (rule frames_loop_result) (use assms bitmap_tail_mark in auto)
  then show ?thesis by auto
qed

lemma frames_loop_free:
  assumes "unat start mod 4096 = 0" "unat stop \<le> 1073741824"
  shows "\<exists>s'. frames_loop frame_mark_free start stop s = Some s' \<and> bitmap_tail_same s s' \<and>
    total_usable_memory s' = total_usable_memory s \<and>
    (\<forall>g. pmm_used s' g \<longleftrightarrow> pmm_used s g \<and> \<not> (unat start \<le> g * 4096 \<and> g * 4096 < unat stop))"
proof -
  have "\<exists>s'. frames_loop frame_mark_free start stop s = Some s' \<and> bitmap_tail_same s s' \<and>
    total_usable_memory s' = total_usable_memory s \<and>
    (\<forall>g. pmm_used s' g \<longleftrightarrow> (if unat start \<le> g * 4096 \<and> g * 4096 < unat stop then False else pmm_used s g))"
    by (rule frames_loop_result) (use assms bitmap_tail_mark in auto)
  then show ?thesis by auto
qed

text \<open>A frame overlaps \<open>[base, base + len)\<close>, or lies inside it.\<close>

definition frame_overlaps :: "nat \<Rightarrow> nat \<Rightarrow> nat \<Rightarrow> bool" where
  "frame_overlaps base len g \<longleftrightarrow> 0 < len \<and> g * 4096 < base + len \<and> base < (g + 1) * 4096"

definition frame_inside :: "nat \<Rightarrow> nat \<Rightarrow> nat \<Rightarrow> bool" where
  "frame_inside base len g \<longleftrightarrow> base \<le> g * 4096 \<and> (g + 1) * 4096 \<le> base + len"

lemma lt_down_iff: "g * 4096 < (m :: nat) - m mod 4096 \<longleftrightarrow> (g + 1) * 4096 \<le> m"
  using less_eq_div_iff_mult_less_eq [of 4096 "Suc g" m]
  by (simp add: minus_mod_eq_mult_div Suc_le_eq mult.commute)

lemma down_lt_iff: "(m :: nat) - m mod 4096 \<le> g * 4096 \<longleftrightarrow> m < (g + 1) * 4096"
  using lt_down_iff [of g m] by linarith

lemma lt_up_iff: "g * 4096 < (m + 4095 :: nat) - (m + 4095) mod 4096 \<longleftrightarrow> g * 4096 < m"
  unfolding lt_down_iff by arith

lemma up_le_iff: "(m + 4095 :: nat) - (m + 4095) mod 4096 \<le> g * 4096 \<longleftrightarrow> m \<le> g * 4096"
  using lt_up_iff [of g m] by linarith

lemma range_overflow_iff:
  assumes "base < MAX_PHYSICAL_MEMORY"
  shows "len > MAX_PHYSICAL_MEMORY \<or> base > MAX_PHYSICAL_MEMORY - len \<longleftrightarrow>
    1073741824 < unat base + unat len"
proof (cases "unat len \<le> 1073741824")
  case True
  then have "unat (1073741824 - len) = 1073741824 - unat len" by (simp add: unat_sub_u32)
  with True show ?thesis by (auto simp: machine_consts word_less_nat_alt)
qed (simp add: machine_consts word_less_nat_alt)

lemma reserve_unlocked_result:
  "\<exists>s'. pmm_reserve_range_unlocked base len s = Some s' \<and> bitmap_tail_same s s' \<and>
     total_usable_memory s' = total_usable_memory s \<and>
     (\<forall>g. pmm_used s' g \<longleftrightarrow> pmm_used s g \<or> g < 262144 \<and> frame_overlaps (unat base) (unat len) g)"
proof (cases "len = 0 \<or> base \<ge> MAX_PHYSICAL_MEMORY")
  case True
  have "\<not> (g < 262144 \<and> frame_overlaps (unat base) (unat len) g)" for g
    using True by (auto simp: frame_overlaps_def machine_consts word_le_nat_alt)
  with True show ?thesis by (auto simp: pmm_reserve_range_unlocked_def)
next
  case False
  then have b: "unat base < 1073741824" and l: "0 < unat len"
    by (simp_all add: machine_consts word_le_nat_alt unat_gt_0)
  define e where "e = (if len > MAX_PHYSICAL_MEMORY \<or> base > MAX_PHYSICAL_MEMORY - len
     then MAX_PHYSICAL_MEMORY
     else let stop = align_up (base + len) in if stop > MAX_PHYSICAL_MEMORY then MAX_PHYSICAL_MEMORY else stop)"
  have e: "unat e \<le> 1073741824 \<and>
     (\<forall>g < 262144. g * 4096 < unat e \<longleftrightarrow> g * 4096 < unat base + unat len)"
  proof (cases "unat base + unat len \<le> 1073741824")
    case True
    then have "unat (base + len) = unat base + unat len" by (simp add: unat_add_u32)
    moreover have "\<not> (len > MAX_PHYSICAL_MEMORY \<or> base > MAX_PHYSICAL_MEMORY - len)"
      using True False range_overflow_iff [of base len] by (simp add: not_le)
    ultimately have "unat e = min 1073741824
        (unat base + unat len + 4095 - (unat base + unat len + 4095) mod 4096)"
      using True
      by (simp add: e_def Let_def align_up_unat word_less_nat_alt MAX_PHYSICAL_MEMORY_def min_def)
    then show ?thesis by (auto simp: lt_up_iff)
  next
    case over: False
    then have "len > MAX_PHYSICAL_MEMORY \<or> base > MAX_PHYSICAL_MEMORY - len"
      using False range_overflow_iff [of base len] by (simp add: not_le)
    then have "e = MAX_PHYSICAL_MEMORY" by (simp add: e_def)
    then show ?thesis using over by (auto simp: machine_consts)
  qed
  have start: "unat (align_down base) mod 4096 = 0"
    by (simp add: align_down_unat minus_mod_eq_mult_div)
  have eq: "pmm_reserve_range_unlocked base len s = frames_loop frame_mark_used (align_down base) e s"
    using False by (simp add: pmm_reserve_range_unlocked_def e_def Let_def)
  have rng: "unat (align_down base) \<le> g * 4096 \<and> g * 4096 < unat e
      \<longleftrightarrow> g < 262144 \<and> frame_overlaps (unat base) (unat len) g" for g
  proof (cases "g < 262144")
    case True
    then show ?thesis using e l by (auto simp: frame_overlaps_def align_down_unat down_lt_iff)
  next
    case False
    then have "\<not> g * 4096 < unat e" using e by linarith
    with False show ?thesis by simp
  qed
  show ?thesis
    unfolding eq using frames_loop_used [OF start conjunct1 [OF e], of s] by (simp add: rng)
qed

lemma release_unlocked_result:
  "\<exists>s'. pmm_release_range_unlocked base len s = Some s' \<and> bitmap_tail_same s s' \<and>
     total_usable_memory s' = total_usable_memory s \<and>
     (\<forall>g. pmm_used s' g \<longleftrightarrow> pmm_used s g \<and> \<not> (g < 262144 \<and> frame_inside (unat base) (unat len) g))"
proof (cases "len = 0 \<or> base \<ge> MAX_PHYSICAL_MEMORY")
  case True
  have "\<not> (g < 262144 \<and> frame_inside (unat base) (unat len) g)" for g
    using True by (auto simp: frame_inside_def machine_consts word_le_nat_alt)
  with True show ?thesis by (auto simp: pmm_release_range_unlocked_def)
next
  case False
  then have b: "unat base < 1073741824"
    by (simp_all add: machine_consts word_le_nat_alt)
  define e where "e = (if len > MAX_PHYSICAL_MEMORY \<or> base > MAX_PHYSICAL_MEMORY - len
     then MAX_PHYSICAL_MEMORY
     else let stop = align_down (base + len) in if stop > MAX_PHYSICAL_MEMORY then MAX_PHYSICAL_MEMORY else stop)"
  have e: "unat e \<le> 1073741824 \<and>
     (\<forall>g < 262144. g * 4096 < unat e \<longleftrightarrow> (g + 1) * 4096 \<le> unat base + unat len)"
  proof (cases "unat base + unat len \<le> 1073741824")
    case True
    then have "unat (base + len) = unat base + unat len" by (simp add: unat_add_u32)
    moreover have "\<not> (len > MAX_PHYSICAL_MEMORY \<or> base > MAX_PHYSICAL_MEMORY - len)"
      using True False range_overflow_iff [of base len] by (simp add: not_le)
    ultimately have "unat e = min 1073741824 (unat base + unat len - (unat base + unat len) mod 4096)"
      by (simp add: e_def Let_def align_down_unat word_less_nat_alt MAX_PHYSICAL_MEMORY_def min_def)
    then show ?thesis by (auto simp: lt_down_iff)
  next
    case over: False
    then have "len > MAX_PHYSICAL_MEMORY \<or> base > MAX_PHYSICAL_MEMORY - len"
      using False range_overflow_iff [of base len] by (simp add: not_le)
    then have "e = MAX_PHYSICAL_MEMORY" by (simp add: e_def)
    then show ?thesis using over by (auto simp: machine_consts)
  qed
  have up: "unat (align_up base) = unat base + 4095 - (unat base + 4095) mod 4096"
    using b by (simp add: align_up_unat)
  have start: "unat (align_up base) mod 4096 = 0"
    unfolding up by (simp add: minus_mod_eq_mult_div)
  have eq: "pmm_release_range_unlocked base len s =
      (if align_up base \<ge> e then Some s else frames_loop frame_mark_free (align_up base) e s)"
    using False by (simp add: pmm_release_range_unlocked_def e_def Let_def)
  have rng: "unat (align_up base) \<le> g * 4096 \<and> g * 4096 < unat e
      \<longleftrightarrow> g < 262144 \<and> frame_inside (unat base) (unat len) g" for g
  proof (cases "g < 262144")
    case True
    then show ?thesis using e by (auto simp: frame_inside_def up up_le_iff)
  next
    case False
    then have "\<not> g * 4096 < unat e" using e by linarith
    with False show ?thesis by simp
  qed
  have none: "align_up base \<ge> e \<Longrightarrow> \<not> (g < 262144 \<and> frame_inside (unat base) (unat len) g)" for g
    unfolding rng [of g, symmetric] by (simp add: word_le_nat_alt)
  show ?thesis
    unfolding eq using frames_loop_free [OF start conjunct1 [OF e], of s] none by (auto simp: rng)
qed


section \<open>The frame allocator interface\<close>

text \<open>
  What the heap, the paging code and the address spaces rely on: a frame handed out was free, is not
  handed out again before it is released, and releasing it makes exactly it available.
\<close>

primrec alloc_many :: "('s \<Rightarrow> u32 \<times> 's) \<Rightarrow> nat \<Rightarrow> 's \<Rightarrow> u32 list \<times> 's" where
  "alloc_many alloc 0 s = ([], s)"
| "alloc_many alloc (Suc n) s =
     (let (a, s) = alloc s; (as, s) = alloc_many alloc n s in (a # as, s))"

locale frame_allocator =
  fixes alloc :: "'s \<Rightarrow> u32 \<times> 's"
    and release :: "u32 \<Rightarrow> 's \<Rightarrow> 's"
    and free_frames :: "'s \<Rightarrow> u32 set"
  assumes frame_valid: "a \<in> free_frames s \<Longrightarrow> a \<noteq> 0 \<and> unat a mod 4096 = 0 \<and> a < MAX_PHYSICAL_MEMORY"
    and alloc_zero: "alloc s = (0, s') \<Longrightarrow> s' = s \<and> free_frames s = {}"
    and alloc_frame: "alloc s = (a, s') \<Longrightarrow> a \<noteq> 0 \<Longrightarrow>
      a \<in> free_frames s \<and> free_frames s' = free_frames s - {a}"
    and release_frame: "a \<noteq> 0 \<Longrightarrow> unat a mod 4096 = 0 \<Longrightarrow> a < MAX_PHYSICAL_MEMORY \<Longrightarrow>
      free_frames (release a s) = insert a (free_frames s)"
begin

lemma alloc_valid: "alloc s = (a, s') \<Longrightarrow> a \<noteq> 0 \<Longrightarrow> unat a mod 4096 = 0 \<and> a < MAX_PHYSICAL_MEMORY"
  using alloc_frame frame_valid by blast

lemma alloc_release: "alloc s = (a, s') \<Longrightarrow> a \<noteq> 0 \<Longrightarrow> free_frames (release a s') = free_frames s"
  using alloc_frame [of s a s'] alloc_valid [of s a s'] release_frame [of a s'] by auto

lemma alloc_many_frames:
  "alloc_many alloc n s = (as, s') \<Longrightarrow> 0 \<notin> set as \<Longrightarrow>
    distinct as \<and> length as = n \<and> set as \<subseteq> free_frames s \<and> free_frames s' = free_frames s - set as"
proof (induction n arbitrary: s as)
  case (Suc n)
  then obtain a t bs where step: "alloc s = (a, t)" "alloc_many alloc n t = (bs, s')" "as = a # bs"
    by (auto simp: Let_def split: prod.splits)
  with Suc have "a \<in> free_frames s" "free_frames t = free_frames s - {a}"
    using alloc_frame [OF step(1)] by auto
  moreover have "distinct bs \<and> length bs = n \<and> set bs \<subseteq> free_frames t \<and> free_frames s' = free_frames t - set bs"
    using Suc.IH [OF step(2)] Suc.prems step(3) by simp
  ultimately show ?case using step(3) by auto
qed simp

end

definition frame_address :: "nat \<Rightarrow> u32" where
  "frame_address g = of_nat (g * 4096)"

definition pmm_free_frames :: "pmm \<Rightarrow> u32 set" where
  "pmm_free_frames s = frame_address ` {g. 0 < g \<and> g < 262144 \<and> \<not> pmm_used s g}"

lemma frame_address_unat [simp]: "g < 262144 \<Longrightarrow> unat (frame_address g) = g * 4096"
  unfolding frame_address_def by (intro u32_of_nat_unat) simp

lemma frame_address_eq: "g < 262144 \<Longrightarrow> h < 262144 \<Longrightarrow> frame_address g = frame_address h \<longleftrightarrow> g = h"
  by (simp add: u32_eq_iff)

lemma frame_address_of: "unat a mod 4096 = 0 \<Longrightarrow> a < MAX_PHYSICAL_MEMORY \<Longrightarrow>
    unat a div 4096 < 262144 \<and> a = frame_address (unat a div 4096)"
  by (auto simp: machine_consts word_less_nat_alt u32_eq_iff)

lemma pmm_free_frames_iff:
  "g < 262144 \<Longrightarrow> frame_address g \<in> pmm_free_frames s \<longleftrightarrow> 0 < g \<and> \<not> pmm_used s g"
  by (auto simp: pmm_free_frames_def frame_address_eq)

lemma allocate_loop_cases:
  "\<exists>g. unat f \<le> g \<and> g < 262144 \<and> \<not> pmm_used s g \<and> (\<forall>h. unat f \<le> h \<and> h < g \<longrightarrow> pmm_used s h) \<and>
       allocate_loop f s = (frame_address g, frame_mark_used (of_nat g) s)
   \<or> allocate_loop f s = (0, s) \<and> (\<forall>h. unat f \<le> h \<and> h < 262144 \<longrightarrow> pmm_used s h)"
proof (induction f s rule: allocate_loop.induct)
  case (1 f s)
  have lt: "f < FRAME_COUNT \<longleftrightarrow> unat f < 262144" by (simp add: machine_consts word_less_nat_alt)
  show ?case
  proof (cases "unat f < 262144 \<and> pmm_used s (unat f)")
    case True
    then have n: "unat (f + 1) = Suc (unat f)" by (simp add: unat_add_u32)
    have eq: "allocate_loop f s = allocate_loop (f + 1) s"
      using True lt by (simp add: allocate_loop.simps [of f s])
    have le: "unat f \<le> h \<longleftrightarrow> h = unat f \<or> unat (f + 1) \<le> h" for h using n by auto
    show ?thesis
      using "1.IH" True lt unfolding eq by (auto simp: le n Suc_le_eq)
  next
    case False
    then show ?thesis
      using lt by (auto simp: allocate_loop.simps [of f s] PAGE_SIZE_def frame_address_def)
  qed
qed

lemma pmm_alloc_cases:
  obtains (frame) g where "0 < g" "g < 262144" "\<not> pmm_used s g"
      "\<And>h. 0 < h \<Longrightarrow> h < g \<Longrightarrow> pmm_used s h"
      "pmm_allocate_frame s = (frame_address g, frame_mark_used (of_nat g) s)"
  | (full) "pmm_allocate_frame s = (0, s)" "\<And>h. 0 < h \<Longrightarrow> h < 262144 \<Longrightarrow> pmm_used s h"
proof -
  from allocate_loop_cases [of 1 s] have
    "(\<exists>g. 0 < g \<and> g < 262144 \<and> \<not> pmm_used s g \<and> (\<forall>h. 0 < h \<and> h < g \<longrightarrow> pmm_used s h) \<and>
        pmm_allocate_frame s = (frame_address g, frame_mark_used (of_nat g) s))
     \<or> pmm_allocate_frame s = (0, s) \<and> (\<forall>h. 0 < h \<and> h < 262144 \<longrightarrow> pmm_used s h)"
    by (simp add: pmm_allocate_frame_def Suc_le_eq)
  then show thesis using that by blast
qed

interpretation pmm: frame_allocator pmm_allocate_frame pmm_free_frame pmm_free_frames
proof
  fix a s s'
  assume al: "pmm_allocate_frame s = (0, s')"
  show "s' = s \<and> pmm_free_frames s = {}"
  proof (cases s rule: pmm_alloc_cases)
    case (frame g)
    with al have "unat (frame_address g) = 0" by simp
    with frame show ?thesis by simp
  next
    case full
    then show ?thesis using al by (auto simp: pmm_free_frames_def)
  qed
next
  fix a s s'
  assume al: "pmm_allocate_frame s = (a, s')" "a \<noteq> 0"
  show "a \<in> pmm_free_frames s \<and> pmm_free_frames s' = pmm_free_frames s - {a}"
  proof (cases s rule: pmm_alloc_cases)
    case (frame g)
    then have "unat (of_nat g :: u32) = g" by (intro u32_of_nat_unat) simp
    then show ?thesis using frame al by (auto simp: pmm_free_frames_def frame_address_eq)
  next
    case full
    then show ?thesis using al by simp
  qed
next
  fix a s
  assume a: "a \<noteq> 0" "unat a mod 4096 = 0" "a < MAX_PHYSICAL_MEMORY"
  have nz: "0 < unat a div 4096" using a(1,2) by (auto simp: u32_eq_iff)
  have "a AND 4095 = 0" using a(2) by (simp add: u32_eq_iff and_low_mask_unat)
  then have "\<not> pmm_used (pmm_free_frame a s) g \<longleftrightarrow> g = unat a div 4096 \<or> \<not> pmm_used s g" for g
    using a by (auto simp: pmm_free_frame_def PAGE_SIZE_def u32_div_unat not_le)
  then show "pmm_free_frames (pmm_free_frame a s) = insert a (pmm_free_frames s)"
    using frame_address_of [OF a(2,3)] nz by (auto simp: pmm_free_frames_def)
next
  fix a s
  assume "a \<in> pmm_free_frames s"
  then show "a \<noteq> 0 \<and> unat a mod 4096 = 0 \<and> a < MAX_PHYSICAL_MEMORY"
    by (auto simp: pmm_free_frames_def u32_eq_iff machine_consts word_less_nat_alt)
qed


lemma count_loop_card:
  "unat f \<le> 262144 \<Longrightarrow> unat n \<le> unat f \<Longrightarrow>
    unat (count_loop f n s) = unat n + card {g. unat f \<le> g \<and> g < 262144 \<and> \<not> pmm_used s g}"
proof (induction f n s rule: count_loop.induct)
  case (1 f n s)
  have lt: "f < FRAME_COUNT \<longleftrightarrow> unat f < 262144" by (simp add: machine_consts word_less_nat_alt)
  show ?case
  proof (cases "unat f < 262144")
    case True
    let ?n = "if \<not> frame_is_used f s then n + 1 else n"
    have f: "unat (f + 1) = Suc (unat f)" using True by (simp add: unat_add_u32)
    have n: "unat (n + 1) = Suc (unat n)" using True "1.prems" by (simp add: unat_add_u32)
    have "{g. unat f \<le> g \<and> g < 262144 \<and> \<not> pmm_used s g} =
        (if pmm_used s (unat f) then {} else {unat f}) \<union> {g. Suc (unat f) \<le> g \<and> g < 262144 \<and> \<not> pmm_used s g}"
      using True by (auto simp: Suc_le_eq order_less_le)
    moreover have "finite {g. Suc (unat f) \<le> g \<and> g < 262144 \<and> \<not> pmm_used s g}"
      by (rule finite_subset [of _ "{..<262144}"]) auto
    ultimately have "card {g. unat f \<le> g \<and> g < 262144 \<and> \<not> pmm_used s g} =
        (if pmm_used s (unat f) then 0 else 1) + card {g. Suc (unat f) \<le> g \<and> g < 262144 \<and> \<not> pmm_used s g}"
      by simp
    moreover have "unat (count_loop (f + 1) ?n s) =
        unat ?n + card {g. Suc (unat f) \<le> g \<and> g < 262144 \<and> \<not> pmm_used s g}"
      using "1.IH" True lt "1.prems" f n by simp
    ultimately show ?thesis
      using True lt n by (simp add: count_loop.simps [of f n s])
  next
    case False
    then have "{g. unat f \<le> g \<and> g < 262144 \<and> \<not> pmm_used s g} = {}" by auto
    then show ?thesis using False lt by (simp add: count_loop.simps [of f n s])
  qed
qed

section \<open>The memory map walk\<close>

text \<open>
  \<open>mmap_reaches entry_at stop c e\<close>: the walk that stands at \<open>c\<close> visits the entry at \<open>e\<close>.
\<close>

inductive mmap_reaches :: "(u32 \<Rightarrow> multiboot_mmap_entry) \<Rightarrow> u32 \<Rightarrow> u32 \<Rightarrow> u32 \<Rightarrow> bool"
  for entry_at :: "u32 \<Rightarrow> multiboot_mmap_entry" and stop :: u32 where
  here: "c < stop \<Longrightarrow> mmap_reaches entry_at stop c c"
| there: "c < stop \<Longrightarrow> mmap_reaches entry_at stop (c + (entry_size (entry_at c) + 4)) e \<Longrightarrow>
    mmap_reaches entry_at stop c e"

inductive_simps mmap_reaches_unfold: "mmap_reaches entry_at stop c e"

text \<open>
  The map a boot loader may hand over: no entry's size makes the cursor wrap, and no available
  region wraps the 64-bit address space.
\<close>

definition mmap_sane :: "(u32 \<Rightarrow> multiboot_mmap_entry) \<Rightarrow> u32 \<Rightarrow> bool" where
  "mmap_sane entry_at stop \<longleftrightarrow> (\<forall>c < stop. unat c + unat (entry_size (entry_at c)) + 4 < 4294967296 \<and>
     unat (entry_address (entry_at c)) + unat (entry_length (entry_at c)) < 18446744073709551616)"

definition region_covers :: "multiboot_mmap_entry \<Rightarrow> nat \<Rightarrow> bool" where
  "region_covers e g \<longleftrightarrow> entry_type e = MULTIBOOT_MEMORY_AVAILABLE \<and>
     frame_inside (unat (entry_address e)) (unat (entry_length e)) g"

lemma pmm_add_region_result:
  assumes sane: "unat (entry_address e) + unat (entry_length e) < 18446744073709551616"
  shows "\<exists>s'. pmm_add_region e s = Some s' \<and> bitmap_tail_same s s' \<and>
    (\<forall>g. pmm_used s' g \<longleftrightarrow> pmm_used s g \<and> \<not> (g < 262144 \<and> region_covers e g))"
proof -
  let ?b = "entry_address e" and ?l = "entry_length e"
  have max: "unat (ucast MAX_PHYSICAL_MEMORY :: u64) = 1073741824"
    by (simp add: machine_consts)
  have re: "unat (?b + ?l) = unat ?b + unat ?l" using sane by (simp add: unat_add_u64)
  define r where "r = (if ?b + ?l > ucast MAX_PHYSICAL_MEMORY then ucast MAX_PHYSICAL_MEMORY else ?b + ?l)"
  have r: "unat r = min 1073741824 (unat ?b + unat ?l)"
    by (auto simp: r_def word_less_nat_alt max re)
  show ?thesis
  proof (cases "entry_type e = MULTIBOOT_MEMORY_AVAILABLE \<and> ?b < ucast MAX_PHYSICAL_MEMORY \<and> r > ?b")
    case True
    then have b: "unat ?b < 1073741824" "unat ?b < unat r" by (simp_all add: word_less_nat_alt max)
    then have ub: "unat (ucast ?b :: u32) = unat ?b" by (intro unat_ucast_u32) simp
    have ul: "unat (ucast (r - ?b) :: u32) = unat r - unat ?b"
      using b r by (simp add: unat_ucast_u32 unat_sub_u64)
    let ?s = "s\<lparr>total_usable_memory := total_usable_memory s + (r - ?b)\<rparr>"
    have eq: "pmm_add_region e s = pmm_release_range_unlocked (ucast ?b) (ucast (r - ?b)) ?s"
      using True by (simp add: pmm_add_region_def Let_def r_def)
    have cov: "g < 262144 \<Longrightarrow> frame_inside (unat ?b) (unat r - unat ?b) g \<longleftrightarrow> region_covers e g" for g
      using True b r by (auto simp: frame_inside_def region_covers_def)
    have "pmm_used ?s g = pmm_used s g" "bitmap_tail_same ?s s' = bitmap_tail_same s s'" for g s'
      by (simp_all add: pmm_used_def bitmap_tail_same_def)
    with release_unlocked_result [of "ucast ?b" "ucast (r - ?b)" ?s] show ?thesis
      unfolding eq ub ul using cov by auto
  next
    case False
    then have "pmm_add_region e s = Some s" by (auto simp: pmm_add_region_def Let_def r_def)
    moreover have "\<not> (g < 262144 \<and> region_covers e g)" for g
      using False r by (auto simp: region_covers_def frame_inside_def word_less_nat_alt max)
    ultimately show ?thesis by auto
  qed
qed

lemma mmap_loop_result:
  assumes "mmap_sane entry_at stop"
  shows "\<exists>s'. mmap_loop entry_at c stop s = Some s' \<and> bitmap_tail_same s s' \<and>
    (\<forall>g. pmm_used s' g \<longleftrightarrow> pmm_used s g \<and>
       \<not> (g < 262144 \<and> (\<exists>e. mmap_reaches entry_at stop c e \<and> region_covers (entry_at e) g)))"
proof (induction "unat stop - unat c" arbitrary: c s rule: less_induct)
  case less
  show ?case
  proof (cases "c < stop")
    case False
    then show ?thesis by (simp add: mmap_loop.simps [of _ c] mmap_reaches_unfold [of _ _ c])
  next
    case True
    let ?e = "entry_at c" and ?c = "c + (entry_size (entry_at c) + 4)"
    have sane: "unat c + unat (entry_size ?e) + 4 < 4294967296"
        "unat (entry_address ?e) + unat (entry_length ?e) < 18446744073709551616"
      using assms True by (auto simp: mmap_sane_def)
    then have "unat ?c = unat c + (unat (entry_size ?e) + 4)" by (simp add: unat_add_u32)
    then have dec: "unat stop - unat ?c < unat stop - unat c" using True by (simp add: word_less_nat_alt)
    obtain t where t: "pmm_add_region ?e s = Some t" "bitmap_tail_same s t"
        "\<And>g. pmm_used t g \<longleftrightarrow> pmm_used s g \<and> \<not> (g < 262144 \<and> region_covers ?e g)"
      using pmm_add_region_result [OF sane(2), of s] by auto
    from less [OF dec, of t] obtain s' where s': "mmap_loop entry_at ?c stop t = Some s'"
        "bitmap_tail_same t s'"
        "\<And>g. pmm_used s' g \<longleftrightarrow> pmm_used t g \<and>
           \<not> (g < 262144 \<and> (\<exists>e. mmap_reaches entry_at stop ?c e \<and> region_covers (entry_at e) g))"
      by auto
    have "mmap_loop entry_at c stop s = Some s'"
      using True t(1) s'(1) by (simp add: mmap_loop.simps [of _ c])
    moreover have "bitmap_tail_same s s'" using t(2) s'(2) bitmap_tail_trans by blast
    moreover have "pmm_used s' g \<longleftrightarrow> pmm_used s g \<and>
       \<not> (g < 262144 \<and> (\<exists>e. mmap_reaches entry_at stop c e \<and> region_covers (entry_at e) g))" for g
      unfolding s'(3) t(3) using True by (auto simp: mmap_reaches_unfold [of _ _ c])
    ultimately show ?thesis by blast
  qed
qed

lemma pmm_used_initial: "g < 262144 \<Longrightarrow>
  pmm_used (s\<lparr>frame_bitmap := (\<lambda>i. if i < unat BITMAP_SIZE then 0xFF else frame_bitmap s i), total_usable_memory := n\<rparr>) g"
proof -
  assume "g < 262144"
  moreover have "(0xFF :: u8) = - 1" by simp
  then have "bit (0xFF :: u8) (g mod 8)" by (simp only: bit_minus_1_iff) simp
  moreover have "g div 8 < 32768" using \<open>g < 262144\<close> by simp
  ultimately show ?thesis by (simp add: pmm_used_def machine_consts)
qed


section \<open>Properties\<close>

text \<open>Claim C21. \<open>pmm_allocate_frame\<close> is first fit over the frames 1 to 262143: it returns the address
  of the lowest free one and marks exactly that frame used; it returns 0, and changes nothing,
  exactly when none of them is free.\<close>

theorem pmm_allocate_first_fit:
  assumes "pmm_allocate_frame s = (a, s')"
  shows "(a = 0 \<and> s' = s \<and> (\<forall>h. 0 < h \<and> h < 262144 \<longrightarrow> pmm_used s h)) \<or>
    (\<exists>g. 0 < g \<and> g < 262144 \<and> unat a = g * 4096 \<and> \<not> pmm_used s g \<and>
       (\<forall>h. 0 < h \<and> h < g \<longrightarrow> pmm_used s h) \<and> (\<forall>h. pmm_used s' h \<longleftrightarrow> h = g \<or> pmm_used s h))"
proof (cases s rule: pmm_alloc_cases)
  case (frame g)
  then have "unat (of_nat g :: u32) = g" by (intro u32_of_nat_unat) simp
  with frame assms show ?thesis by auto
qed (use assms in auto)

definition pmm_all_free :: pmm where
  "pmm_all_free = \<lparr>frame_bitmap = (\<lambda>_. 0), total_usable_memory = 0\<rparr>"

lemma pmm_all_free_alloc: "pmm_allocate_frame pmm_all_free = (4096, frame_mark_used 1 pmm_all_free)"
  by (simp add: pmm_allocate_frame_def allocate_loop.simps [of 1] frame_is_used_iff pmm_used_def
      pmm_all_free_def machine_consts)

theorem pmm_allocate_first_fit_witness:
  "\<exists>g. 0 < g \<and> g * 4096 = 4096 \<and> \<not> pmm_used pmm_all_free g \<and> pmm_used (frame_mark_used 1 pmm_all_free) g"
  using pmm_allocate_first_fit [OF pmm_all_free_alloc] by auto

text \<open>Successive successful allocations never hand out the same frame twice: the addresses
  are distinct, page aligned frames that were free, and exactly these stop being free.\<close>

theorem pmm_allocations_distinct:
  assumes "alloc_many pmm_allocate_frame n s = (as, s')" and "0 \<notin> set as"
  shows "distinct as \<and> length as = n \<and> set as \<subseteq> pmm_free_frames s \<and>
    pmm_free_frames s' = pmm_free_frames s - set as"
  using assms by (rule pmm.alloc_many_frames)

theorem pmm_allocations_distinct_witness:
  "distinct [4096 :: u32] \<and> set [4096] \<subseteq> pmm_free_frames pmm_all_free"
proof -
  have "alloc_many pmm_allocate_frame 1 pmm_all_free = ([4096], frame_mark_used 1 pmm_all_free)"
    by (simp add: pmm_all_free_alloc)
  from pmm_allocations_distinct [OF this] show ?thesis by simp
qed

text \<open>The free frame count is the number of clear bits of the bitmap, frame 0 included, and
  the free memory is that many pages: neither the 32-bit counter nor the 64-bit product wraps.\<close>

theorem pmm_free_count_exact:
  "unat (pmm_get_free_frame_count s) = card {g. g < 262144 \<and> \<not> pmm_used s g} \<and>
   unat (pmm_get_free_memory s) = 4096 * card {g. g < 262144 \<and> \<not> pmm_used s g}"
proof -
  let ?F = "{g. g < 262144 \<and> \<not> pmm_used s g}"
  have n: "unat (pmm_get_free_frame_count s) = card ?F"
    using count_loop_card [of 0 0 s] by (simp add: pmm_get_free_frame_count_def)
  have "card ?F \<le> card {..<262144 :: nat}" by (rule card_mono) auto
  then have "unat (ucast (pmm_get_free_frame_count s) :: u64) * unat (ucast PAGE_SIZE :: u64) < 18446744073709551616"
    by (simp add: unat_ucast_u64 n PAGE_SIZE_def)
  then have "unat (pmm_get_free_memory s) = card ?F * 4096"
    by (simp add: pmm_get_free_memory_def unat_word_ariths unat_ucast_u64 n PAGE_SIZE_def)
  with n show ?thesis by simp
qed

text \<open>Reserving rounds outwards and releasing rounds inwards: \<open>pmm_reserve_range\<close> marks
  exactly the frames that overlap the byte range, \<open>pmm_release_range\<close> frees exactly those that lie
  inside it, for every base and length (also where base + length leaves the 32-bit range), and both
  loops return without writing outside the bitmap.\<close>

theorem pmm_ranges_round:
  "(\<exists>s'. pmm_reserve_range base len s = Some s' \<and> bitmap_tail_same s s' \<and>
      (\<forall>g. pmm_used s' g \<longleftrightarrow> pmm_used s g \<or> g < 262144 \<and> frame_overlaps (unat base) (unat len) g)) \<and>
   (\<exists>s'. pmm_release_range base len s = Some s' \<and> bitmap_tail_same s s' \<and>
      (\<forall>g. pmm_used s' g \<longleftrightarrow> pmm_used s g \<and> \<not> (g < 262144 \<and> frame_inside (unat base) (unat len) g)))"
  using reserve_unlocked_result [of base len s] release_unlocked_result [of base len s]
  unfolding pmm_reserve_range_def pmm_release_range_def by metis

text \<open>Claim C26. After \<open>pmm_initialize\<close> on a sane Multiboot memory map a frame of the first GiB is free
  exactly when an available region visited by the walk contains it and it lies outside the first
  MiB, the kernel image, the Multiboot record and the map itself; the walk returns.\<close>

theorem pmm_initialize_free_frames:
  assumes flags: "mbi_flags mbi AND MULTIBOOT_INFO_MEMORY_MAP \<noteq> 0"
    and sane: "mmap_sane entry_at (mmap_addr mbi + mmap_lengh mbi)"
  shows "\<exists>s'. pmm_initialize mbi entry_at ks ke info s = Some s' \<and>
    (\<forall>g. g < 262144 \<longrightarrow> (\<not> pmm_used s' g \<longleftrightarrow>
      (\<exists>e. mmap_reaches entry_at (mmap_addr mbi + mmap_lengh mbi) (mmap_addr mbi) e \<and> region_covers (entry_at e) g) \<and>
      256 \<le> g \<and>
      \<not> frame_overlaps (unat ks) (unat (ke - ks)) g \<and>
      \<not> frame_overlaps (unat info) 118 g \<and>
      \<not> frame_overlaps (unat (mmap_addr mbi)) (unat (mmap_lengh mbi)) g))"
proof -
  let ?s0 = "s\<lparr>frame_bitmap := (\<lambda>i. if i < unat BITMAP_SIZE then 0xFF else frame_bitmap s i),
      total_usable_memory := 0\<rparr>"
  let ?stop = "mmap_addr mbi + mmap_lengh mbi"
  obtain s1 where s1: "mmap_loop entry_at (mmap_addr mbi) ?stop ?s0 = Some s1"
      "\<And>g. pmm_used s1 g \<longleftrightarrow> pmm_used ?s0 g \<and> \<not> (g < 262144 \<and>
         (\<exists>e. mmap_reaches entry_at ?stop (mmap_addr mbi) e \<and> region_covers (entry_at e) g))"
    using mmap_loop_result [OF sane, of "mmap_addr mbi" ?s0] by auto
  obtain s2 where s2: "pmm_reserve_range_unlocked 0 0x100000 s1 = Some s2"
      "\<And>g. pmm_used s2 g \<longleftrightarrow> pmm_used s1 g \<or> g < 262144 \<and> frame_overlaps 0 0x100000 g"
    using reserve_unlocked_result [of 0 "0x100000" s1] by auto
  obtain s3 where s3: "pmm_reserve_range_unlocked ks (ke - ks) s2 = Some s3"
      "\<And>g. pmm_used s3 g \<longleftrightarrow> pmm_used s2 g \<or> g < 262144 \<and> frame_overlaps (unat ks) (unat (ke - ks)) g"
    using reserve_unlocked_result [of ks "ke - ks" s2] by auto
  obtain s4 where s4: "pmm_reserve_range_unlocked info sizeof_multiboot_info s3 = Some s4"
      "\<And>g. pmm_used s4 g \<longleftrightarrow> pmm_used s3 g \<or> g < 262144 \<and> frame_overlaps (unat info) 118 g"
    using reserve_unlocked_result [of info sizeof_multiboot_info s3] by (auto simp: sizeof_multiboot_info_def)
  obtain s5 where s5: "pmm_reserve_range_unlocked (mmap_addr mbi) (mmap_lengh mbi) s4 = Some s5"
      "\<And>g. pmm_used s5 g \<longleftrightarrow> pmm_used s4 g \<or>
         g < 262144 \<and> frame_overlaps (unat (mmap_addr mbi)) (unat (mmap_lengh mbi)) g"
    using reserve_unlocked_result [of "mmap_addr mbi" "mmap_lengh mbi" s4] by auto
  have "pmm_initialize mbi entry_at ks ke info s = Some s5"
    using flags s1(1) s2(1) s3(1) s4(1) s5(1) by (simp add: pmm_initialize_def Let_def)
  moreover have "frame_overlaps 0 0x100000 g \<longleftrightarrow> \<not> 256 \<le> g" for g
    by (auto simp: frame_overlaps_def)
  then have "g < 262144 \<Longrightarrow> \<not> pmm_used s5 g \<longleftrightarrow>
      (\<exists>e. mmap_reaches entry_at ?stop (mmap_addr mbi) e \<and> region_covers (entry_at e) g) \<and> 256 \<le> g \<and>
      \<not> frame_overlaps (unat ks) (unat (ke - ks)) g \<and> \<not> frame_overlaps (unat info) 118 g \<and>
      \<not> frame_overlaps (unat (mmap_addr mbi)) (unat (mmap_lengh mbi)) g" for g
    using pmm_used_initial [of g, where s = s and n = 0] unfolding s5(2) s4(2) s3(2) s2(2) s1(2) by auto
  ultimately show ?thesis by blast
qed

theorem pmm_initialize_free_frames_witness:
  "let mbi = \<lparr>mbi_flags = 0x40, mmap_addr = 0x9000, mmap_lengh = 24\<rparr>;
       entry = \<lparr>entry_size = 20, entry_address = 0, entry_length = 0x1000000, entry_type = 1\<rparr>
   in \<exists>s'. pmm_initialize mbi (\<lambda>_. entry) 0x100000 0x200000 0x8000 pmm_all_free = Some s' \<and>
        \<not> pmm_used s' 512 \<and> pmm_used s' 300 \<and> pmm_used s' 4096"
proof -
  let ?mbi = "\<lparr>mbi_flags = 0x40, mmap_addr = 0x9000, mmap_lengh = 24\<rparr> :: multiboot_info"
  let ?e = "\<lparr>entry_size = 20, entry_address = 0, entry_length = 0x1000000, entry_type = 1\<rparr> :: multiboot_mmap_entry"
  have flags: "mbi_flags ?mbi AND MULTIBOOT_INFO_MEMORY_MAP \<noteq> 0" by (simp add: machine_consts)
  have sane: "mmap_sane (\<lambda>_. ?e) (mmap_addr ?mbi + mmap_lengh ?mbi)"
    by (simp add: mmap_sane_def word_less_nat_alt)
  have "mmap_reaches (\<lambda>_. ?e) 0x9018 0x9000 0x9000"
    by (simp add: mmap_reaches_unfold [of _ _ "0x9000"])
  then have r: "Ex (mmap_reaches (\<lambda>_. ?e) 0x9018 0x9000)" ..
  from pmm_initialize_free_frames [OF flags sane, of "0x100000" "0x200000" "0x8000" pmm_all_free]
  obtain s' where "pmm_initialize ?mbi (\<lambda>_. ?e) 0x100000 0x200000 0x8000 pmm_all_free = Some s'"
    and all: "\<And>g. g < 262144 \<Longrightarrow> \<not> pmm_used s' g \<longleftrightarrow> g \<le> 4095 \<and> 256 \<le> g \<and>
      \<not> frame_overlaps 0x100000 0x100000 g \<and> \<not> frame_overlaps 0x8000 118 g \<and> \<not> frame_overlaps 0x9000 24 g"
    using r by (auto simp: region_covers_def frame_inside_def machine_consts)
  moreover have "\<not> pmm_used s' 512 \<and> pmm_used s' 300 \<and> pmm_used s' 4096"
    using all [of 512] all [of 300] all [of 4096] by (simp add: frame_overlaps_def)
  ultimately show ?thesis by (auto simp: Let_def)
qed

end
