(* ===== verification/Block.thy ===== *)
theory Block
  imports Prelude
begin

text \<open>
  Block devices and partitions, \<open>kernel/kernel/fs/block_device.c\<close> and \<open>kernel/kernel/fs/partition.c\<close>:
  the bounds-checked access to a device's driver, the window a partition opens on its parent disk,
  the MBR and GPT partition tables with their CRC-32 checks. The drivers themselves (ATA, AHCI) are
  the \<open>bd_read\<close> and \<open>bd_write\<close> functions a device carries, over an arbitrary hardware state \<open>'s\<close>.
  A pointer that the code compares with NULL is an option; the caller's array of a scan is a list, so
  the test of its pointer against NULL has no counterpart.
\<close>

section \<open>Devices\<close>

type_synonym 's block_read_fn = "u64 \<Rightarrow> u32 \<Rightarrow> u8 list \<Rightarrow> 's \<Rightarrow> int \<times> u8 list \<times> 's"
type_synonym 's block_write_fn = "u64 \<Rightarrow> u32 \<Rightarrow> u8 list \<Rightarrow> 's \<Rightarrow> int \<times> 's"

text \<open>
  The driver functions take the device itself in C, to reach its \<open>private_data\<close>; here they are
  closures over it. A read returns the status and the new content of the caller's buffer.
\<close>

record 's block_device =
  bd_name :: string
  bd_sector_size :: u32
  bd_sector_count :: u64
  bd_read :: "'s block_read_fn option"
  bd_write :: "'s block_write_fn option"

definition block_device_valid :: "'s block_device option \<Rightarrow> bool" where
  "block_device_valid device =
     (case device of
        None \<Rightarrow> False
      | Some d \<Rightarrow>
          if bd_sector_size d = 0 then False
          else if bd_sector_count d = 0 then False
          else if bd_read d = None then False
          else True)"

definition block_read ::
  "'s block_device option \<Rightarrow> u64 \<Rightarrow> u32 \<Rightarrow> u8 list option \<Rightarrow> 's \<Rightarrow> int \<times> u8 list option \<times> 's" where
  "block_read device lba count buffer s =
     (case (device, buffer) of
        (Some d, Some b) \<Rightarrow>
          if count = 0 then (-1, buffer, s)
          else if \<not> block_device_valid device then (-1, buffer, s)
          else if lba \<ge> bd_sector_count d then (-1, buffer, s)
          else if ucast count > bd_sector_count d - lba then (-1, buffer, s)
          else (case bd_read d of
                  None \<Rightarrow> (-1, buffer, s)
                | Some read \<Rightarrow> (let (r, b, s) = read lba count b s in (r, Some b, s)))
      | _ \<Rightarrow> (-1, buffer, s))"

definition block_write ::
  "'s block_device option \<Rightarrow> u64 \<Rightarrow> u32 \<Rightarrow> u8 list option \<Rightarrow> 's \<Rightarrow> int \<times> 's" where
  "block_write device lba count buffer s =
     (case (device, buffer) of
        (Some d, Some b) \<Rightarrow>
          if count = 0 then (-1, s)
          else if \<not> block_device_valid device then (-1, s)
          else (case bd_write d of
                  None \<Rightarrow> (-1, s)
                | Some write \<Rightarrow>
                    if lba \<ge> bd_sector_count d then (-1, s)
                    else if ucast count > bd_sector_count d - lba then (-1, s)
                    else write lba count b s)
      | _ \<Rightarrow> (-1, s))"

section \<open>Partitions as windows on their parent\<close>

record 's partition_device =
  block :: "'s block_device"
  parent :: "'s block_device option"
  start_lba :: u64
  sector_count :: u64

definition partition_read ::
  "'s partition_device option \<Rightarrow> u64 \<Rightarrow> u32 \<Rightarrow> u8 list option \<Rightarrow> 's \<Rightarrow> int \<times> u8 list option \<times> 's" where
  "partition_read private_data lba count buffer s =
     (if buffer = None \<or> count = 0 then (-1, buffer, s)
      else case private_data of
        None \<Rightarrow> (-1, buffer, s)
      | Some part \<Rightarrow>
          (case parent part of
             None \<Rightarrow> (-1, buffer, s)
           | Some d \<Rightarrow>
               if bd_read d = None then (-1, buffer, s)
               else if lba \<ge> sector_count part then (-1, buffer, s)
               else if ucast count > sector_count part - lba then (-1, buffer, s)
               else block_read (parent part) (start_lba part + lba) count buffer s))"

definition partition_write ::
  "'s partition_device option \<Rightarrow> u64 \<Rightarrow> u32 \<Rightarrow> u8 list option \<Rightarrow> 's \<Rightarrow> int \<times> 's" where
  "partition_write private_data lba count buffer s =
     (if buffer = None \<or> count = 0 then (-1, s)
      else case private_data of
        None \<Rightarrow> (-1, s)
      | Some part \<Rightarrow>
          (case parent part of
             None \<Rightarrow> (-1, s)
           | Some d \<Rightarrow>
               if bd_write d = None then (-1, s)
               else if lba \<ge> sector_count part then (-1, s)
               else if ucast count > sector_count part - lba then (-1, s)
               else block_write (parent part) (start_lba part + lba) count buffer s))"

definition partition_initialize ::
  "'s partition_device \<Rightarrow> 's block_device \<Rightarrow> u64 \<Rightarrow> u64 \<Rightarrow> string \<Rightarrow> 's partition_device" where
  "partition_initialize part parent_device start count name =
     (let part = part\<lparr>parent := Some parent_device, start_lba := start, sector_count := count\<rparr>
      in part\<lparr>block :=
           \<lparr>bd_name = name,
            bd_sector_size = bd_sector_size parent_device,
            bd_sector_count = count,
            bd_read = Some (\<lambda>lba n buffer s.
              let (r, b, s) = partition_read (Some part) lba n (Some buffer) s in (r, the b, s)),
            bd_write = Some (\<lambda>lba n buffer s.
              partition_write (Some part) lba n (Some buffer) s)\<rparr>\<rparr>)"

section \<open>CRC-32\<close>

definition crc32_bit :: "u32 \<Rightarrow> u32" where
  "crc32_bit crc = (if crc AND 1 \<noteq> 0 then drop_bit 1 crc XOR 0xEDB88320 else drop_bit 1 crc)"

definition crc32_byte :: "u32 \<Rightarrow> u8 \<Rightarrow> u32" where
  "crc32_byte crc b = (crc32_bit ^^ 8) (crc XOR ucast b)"

definition crc32_update :: "u32 \<Rightarrow> u8 list \<Rightarrow> u32" where
  "crc32_update crc bytes = fold (\<lambda>b crc. crc32_byte crc b) bytes crc"

definition crc32_finish :: "u32 \<Rightarrow> u32" where
  "crc32_finish crc = NOT crc"

definition crc32_compute :: "u8 list \<Rightarrow> u32" where
  "crc32_compute bytes = NOT (fold (\<lambda>b crc. crc32_byte crc b) bytes 0xFFFFFFFF)"

section \<open>On-disk structures\<close>

text \<open>Little-endian fields of the packed structs, at byte offset \<open>off\<close> of a sector buffer.\<close>

definition byte_at :: "u8 list \<Rightarrow> nat \<Rightarrow> u8" where
  "byte_at bs off = (if off < length bs then bs ! off else 0)"

definition le32 :: "u8 list \<Rightarrow> nat \<Rightarrow> u32" where
  "le32 bs off = ucast (byte_at bs off) OR push_bit 8 (ucast (byte_at bs (off + 1)))
     OR push_bit 16 (ucast (byte_at bs (off + 2))) OR push_bit 24 (ucast (byte_at bs (off + 3)))"

definition le64 :: "u8 list \<Rightarrow> nat \<Rightarrow> u64" where
  "le64 bs off = ucast (le32 bs off) OR push_bit 32 (ucast (le32 bs (off + 4)))"

record mbr_partition_entry =
  mbr_type :: u8
  mbr_start_lba :: u32
  mbr_sector_count :: u32

definition mbr_entry :: "u8 list \<Rightarrow> nat \<Rightarrow> mbr_partition_entry" where
  "mbr_entry sector index =
     (let off = 446 + 16 * index
      in \<lparr>mbr_type = byte_at sector (off + 4), mbr_start_lba = le32 sector (off + 8),
          mbr_sector_count = le32 sector (off + 12)\<rparr>)"

record gpt_header =
  signature :: u64
  header_size :: u32
  header_crc32 :: u32
  first_usable_lba :: u64
  last_usable_lba :: u64
  partition_entries_lba :: u64
  partition_entry_count :: u32
  partition_entry_size :: u32
  partition_entries_crc32 :: u32

definition gpt_header_of :: "u8 list \<Rightarrow> gpt_header" where
  "gpt_header_of sector =
     \<lparr>signature = le64 sector 0, header_size = le32 sector 12, header_crc32 = le32 sector 16,
      first_usable_lba = le64 sector 40, last_usable_lba = le64 sector 48,
      partition_entries_lba = le64 sector 72, partition_entry_count = le32 sector 80,
      partition_entry_size = le32 sector 84, partition_entries_crc32 = le32 sector 88\<rparr>"

record gpt_partition_entry =
  type_guid :: "u8 list"
  first_lba :: u64
  last_lba :: u64

definition gpt_entry_of :: "u8 list \<Rightarrow> nat \<Rightarrow> gpt_partition_entry" where
  "gpt_entry_of sector off =
     \<lparr>type_guid = map (\<lambda>i. byte_at sector (off + i)) [0..<16],
      first_lba = le64 sector (off + 32), last_lba = le64 sector (off + 40)\<rparr>"

definition MBR_PARTITION_COUNT :: u32 where [machine_consts]: "MBR_PARTITION_COUNT = 4"
definition GPT_HEADER_SIGNATURE :: u64 where [machine_consts]: "GPT_HEADER_SIGNATURE = 0x5452415020494645"
definition sizeof_gpt_partition_entry :: u32 where [machine_consts]: "sizeof_gpt_partition_entry = 128"


section \<open>Reading the partition tables\<close>

text \<open>
  \<open>sector_buffer\<close> is a local \<open>uint8_t sector[512]\<close> before the read that fills it. Console output is not
  modelled.
\<close>

definition sector_buffer :: "u8 list" where
  "sector_buffer = replicate 512 0"

definition read_sector :: "'s block_device \<Rightarrow> u64 \<Rightarrow> 's \<Rightarrow> u8 list option \<times> 's" where
  "read_sector disk lba s =
     (let (r, buffer, s) = block_read (Some disk) lba 1 (Some sector_buffer) s
      in (if r \<noteq> 0 then None else buffer, s))"

definition mbr_signature_ok :: "u8 list \<Rightarrow> bool" where
  "mbr_signature_ok sector \<longleftrightarrow> \<not> (byte_at sector 510 \<noteq> 0x55 \<or> byte_at sector 511 \<noteq> 0xAA)"

definition partition_from_mbr ::
  "'s block_device option \<Rightarrow> u32 \<Rightarrow> 's partition_device option \<Rightarrow> 's \<Rightarrow> bool \<times> 's partition_device option \<times> 's" where
  "partition_from_mbr disk index partition_out s =
     (case (disk, partition_out) of
        (Some d, Some p) \<Rightarrow>
          if index \<ge> MBR_PARTITION_COUNT then (False, partition_out, s)
          else if bd_sector_size d \<noteq> 512 then (False, partition_out, s)
          else (case read_sector d 0 s of
              (None, s) \<Rightarrow> (False, partition_out, s)
            | (Some sector, s) \<Rightarrow>
                if \<not> mbr_signature_ok sector then (False, partition_out, s)
                else
                  let entry = mbr_entry sector (unat index)
                  in if mbr_type entry = 0 \<or> mbr_sector_count entry = 0 then (False, partition_out, s)
                     else if ucast (mbr_start_lba entry) \<ge> bd_sector_count d then (False, partition_out, s)
                     else if ucast (mbr_sector_count entry) > bd_sector_count d - ucast (mbr_start_lba entry)
                       then (False, partition_out, s)
                     else (True, Some (partition_initialize p d (ucast (mbr_start_lba entry))
                             (ucast (mbr_sector_count entry)) ''mbr-partition''), s))
      | _ \<Rightarrow> (False, partition_out, s))"

definition mbr_is_protective_gpt :: "'s block_device option \<Rightarrow> 's \<Rightarrow> bool \<times> 's" where
  "mbr_is_protective_gpt disk s =
     (let (r, buffer, s) = block_read disk 0 1 (Some sector_buffer) s
      in if r \<noteq> 0 then (False, s)
         else (case buffer of
             None \<Rightarrow> (False, s)
           | Some sector \<Rightarrow>
               if \<not> mbr_signature_ok sector then (False, s)
               else (list_ex (\<lambda>i. mbr_type (mbr_entry sector i) = 0xEE) [0..<unat MBR_PARTITION_COUNT], s)))"

text \<open>The header checksum is taken over the header with its own checksum field set to zero.\<close>

definition clear_header_crc :: "u8 list \<Rightarrow> u8 list" where
  "clear_header_crc header_copy = header_copy[16 := 0, 17 := 0, 18 := 0, 19 := 0]"

definition header_crc_ok :: "u8 list \<Rightarrow> bool" where
  "header_crc_ok header_sector =
     (let header = gpt_header_of header_sector;
          header_copy = take (unat (header_size header)) header_sector
      in crc32_compute (clear_header_crc header_copy) = header_crc32 header)"

text \<open>The loop over the sectors of the entry table, 512 bytes at a time.\<close>

function gpt_table_crc ::
  "'s block_device \<Rightarrow> u64 \<Rightarrow> u64 \<Rightarrow> u32 \<Rightarrow> 's \<Rightarrow> u32 option \<times> 's" where
  "gpt_table_crc disk table_lba remaining crc s =
     (if remaining > 0 then
        case read_sector disk table_lba s of
          (None, s) \<Rightarrow> (None, s)
        | (Some sector, s) \<Rightarrow>
            let chunk = (if remaining < 512 then remaining else 512)
            in gpt_table_crc disk (table_lba + 1) (remaining - chunk)
                 (crc32_update crc (take (unat chunk) sector)) s
      else (Some (crc32_finish crc), s))"
  by pat_completeness auto
termination
  by (relation "measure (\<lambda>(disk, lba, remaining, crc, s). unat remaining)")
     (auto simp: word_less_nat_alt unat_sub_u64 split: if_splits)

declare gpt_table_crc.simps [simp del]

definition guid_is_zero :: "gpt_partition_entry \<Rightarrow> bool" where
  "guid_is_zero entry \<longleftrightarrow> list_all (\<lambda>b. b = 0) (type_guid entry)"

definition partition_from_gpt ::
  "'s block_device option \<Rightarrow> u32 \<Rightarrow> 's partition_device option \<Rightarrow> 's \<Rightarrow> bool \<times> 's partition_device option \<times> 's" where
  "partition_from_gpt disk index partition_out s =
     (case (disk, partition_out) of
        (Some d, Some p) \<Rightarrow>
          if bd_sector_size d \<noteq> 512 then (False, partition_out, s)
          else (case read_sector d 1 s of
              (None, s) \<Rightarrow> (False, partition_out, s)
            | (Some header_sector, s) \<Rightarrow>
                let header = gpt_header_of header_sector
                in if signature header \<noteq> GPT_HEADER_SIGNATURE then (False, partition_out, s)
                   else if header_size header < 92 \<or> header_size header > bd_sector_size d then (False, partition_out, s)
                   else if \<not> header_crc_ok header_sector then (False, partition_out, s)
                   else if partition_entry_size header < sizeof_gpt_partition_entry then (False, partition_out, s)
                   else if index \<ge> partition_entry_count header then (False, partition_out, s)
                   else if partition_entries_lba header \<ge> bd_sector_count d then (False, partition_out, s)
                   else
                     let table_bytes = ucast (partition_entry_count header) * ucast (partition_entry_size header);
                         table_sectors = (table_bytes + ucast (bd_sector_size d) - 1) div ucast (bd_sector_size d)
                     in if table_sectors > bd_sector_count d - partition_entries_lba header then (False, partition_out, s)
                        else (case gpt_table_crc d (partition_entries_lba header) table_bytes 0xFFFFFFFF s of
                            (None, s) \<Rightarrow> (False, partition_out, s)
                          | (Some crc, s) \<Rightarrow>
                              if crc \<noteq> partition_entries_crc32 header then (False, partition_out, s)
                              else
                                let entry_offset = ucast index * ucast (partition_entry_size header);
                                    entry_lba = partition_entries_lba header + entry_offset div ucast (bd_sector_size d);
                                    offset_in_sector = ucast (entry_offset mod ucast (bd_sector_size d)) :: u32
                                in if entry_lba \<ge> bd_sector_count d then (False, partition_out, s)
                                   else if ucast offset_in_sector + ucast (partition_entry_size header)
                                             > (ucast (bd_sector_size d) :: u64) then (False, partition_out, s)
                                   else (case read_sector d entry_lba s of
                                       (None, s) \<Rightarrow> (False, partition_out, s)
                                     | (Some entry_sector, s) \<Rightarrow>
                                         let entry = gpt_entry_of entry_sector (unat offset_in_sector)
                                         in if guid_is_zero entry then (False, partition_out, s)
                                            else if first_lba entry > last_lba entry then (False, partition_out, s)
                                            else if first_lba entry \<ge> bd_sector_count d then (False, partition_out, s)
                                            else if last_lba entry \<ge> bd_sector_count d then (False, partition_out, s)
                                            else if first_lba entry < first_usable_lba header \<or>
                                                    last_lba entry > last_usable_lba header then (False, partition_out, s)
                                            else (True, Some (partition_initialize p d (first_lba entry)
                                                    (last_lba entry - first_lba entry + 1) ''gpt-partition''), s))))
      | _ \<Rightarrow> (False, partition_out, s))"

section \<open>Scanning\<close>

text \<open>
  \<open>partitions\<close> is the caller's array; \<open>found\<close> counts the slots filled so far. A slot is written only by
  a successful parse, and the scan stops when the array is full.
\<close>

fun scan_mbr_loop ::
  "'s block_device \<Rightarrow> nat \<Rightarrow> u32 list \<Rightarrow> 's partition_device list \<Rightarrow> nat \<Rightarrow> 's
     \<Rightarrow> nat \<times> 's partition_device list \<times> 's" where
  "scan_mbr_loop disk max_partitions [] partitions found s = (found, partitions, s)"
| "scan_mbr_loop disk max_partitions (i # is) partitions found s =
     (if found < max_partitions then
        case partition_from_mbr (Some disk) i (Some (partitions ! found)) s of
          (True, Some p, s) \<Rightarrow> scan_mbr_loop disk max_partitions is (partitions[found := p]) (found + 1) s
        | (_, _, s) \<Rightarrow> scan_mbr_loop disk max_partitions is partitions found s
      else (found, partitions, s))"

definition partition_scan_mbr ::
  "'s block_device option \<Rightarrow> 's partition_device list \<Rightarrow> nat \<Rightarrow> 's \<Rightarrow> nat \<times> 's partition_device list \<times> 's" where
  "partition_scan_mbr disk partitions max_partitions s =
     (case disk of
        None \<Rightarrow> (0, partitions, s)
      | Some d \<Rightarrow>
          if max_partitions = 0 then (0, partitions, s)
          else scan_mbr_loop d max_partitions (map of_nat [0..<unat MBR_PARTITION_COUNT]) partitions 0 s)"

text \<open>One entry of the GPT table as the scan treats it: \<open>None\<close> is \<open>continue\<close>.\<close>

definition scan_gpt_entry ::
  "'s block_device \<Rightarrow> gpt_header \<Rightarrow> u32 \<Rightarrow> 's \<Rightarrow> (u64 \<times> u64) option \<times> 's" where
  "scan_gpt_entry disk header index s =
     (let byte_offset = ucast index * ucast (partition_entry_size header);
          entry_lba = partition_entries_lba header + byte_offset div ucast (bd_sector_size disk);
          offset = ucast (byte_offset mod ucast (bd_sector_size disk)) :: u32
      in if ucast offset + ucast (partition_entry_size header) > (ucast (bd_sector_size disk) :: u64) then (None, s)
         else (case read_sector disk entry_lba s of
             (None, s) \<Rightarrow> (None, s)
           | (Some entry_sector, s) \<Rightarrow>
               let entry = gpt_entry_of entry_sector (unat offset)
               in if guid_is_zero entry then (None, s)
                  else if first_lba entry > last_lba entry then (None, s)
                  else if first_lba entry < first_usable_lba header then (None, s)
                  else if last_lba entry > last_usable_lba header then (None, s)
                  else if last_lba entry \<ge> bd_sector_count disk then (None, s)
                  else (Some (first_lba entry, last_lba entry - first_lba entry + 1), s)))"

function scan_gpt_loop ::
  "'s block_device \<Rightarrow> gpt_header \<Rightarrow> nat \<Rightarrow> u32 \<Rightarrow> 's partition_device list \<Rightarrow> nat \<Rightarrow> 's
     \<Rightarrow> nat \<times> 's partition_device list \<times> 's" where
  "scan_gpt_loop disk header max_partitions index partitions found s =
     (if index < partition_entry_count header \<and> found < max_partitions then
        case scan_gpt_entry disk header index s of
          (None, s) \<Rightarrow> scan_gpt_loop disk header max_partitions (index + 1) partitions found s
        | (Some (start, count), s) \<Rightarrow>
            scan_gpt_loop disk header max_partitions (index + 1)
              (partitions[found := partition_initialize (partitions ! found) disk start count ''gpt-partition''])
              (found + 1) s
      else (found, partitions, s))"
  by pat_completeness auto
termination
  by (relation "measure (\<lambda>(disk, header, m, index, ps, f, s). unat (partition_entry_count header) - unat index)")
     (auto simp: word_less_nat_alt unat_inc_u32)

declare scan_gpt_loop.simps [simp del]

definition partition_scan_gpt ::
  "'s block_device option \<Rightarrow> 's partition_device list \<Rightarrow> nat \<Rightarrow> 's \<Rightarrow> nat \<times> 's partition_device list \<times> 's" where
  "partition_scan_gpt disk partitions max_partitions s =
     (case disk of
        None \<Rightarrow> (0, partitions, s)
      | Some d \<Rightarrow>
          if max_partitions = 0 then (0, partitions, s)
          else if bd_sector_size d \<noteq> 512 then (0, partitions, s)
          else (case read_sector d 1 s of
              (None, s) \<Rightarrow> (0, partitions, s)
            | (Some header_sector, s) \<Rightarrow>
                let header = gpt_header_of header_sector
                in if signature header \<noteq> GPT_HEADER_SIGNATURE then (0, partitions, s)
                   else if header_size header < 92 \<or> header_size header > bd_sector_size d then (0, partitions, s)
                   else if partition_entry_size header < sizeof_gpt_partition_entry then (0, partitions, s)
                   else if \<not> header_crc_ok header_sector then (0, partitions, s)
                   else
                     let table_bytes = ucast (partition_entry_count header) * ucast (partition_entry_size header)
                     in (case gpt_table_crc d (partition_entries_lba header) table_bytes 0xFFFFFFFF s of
                            (None, s) \<Rightarrow> (0, partitions, s)
                          | (Some crc, s) \<Rightarrow>
                              if crc \<noteq> partition_entries_crc32 header then (0, partitions, s)
                              else scan_gpt_loop d header max_partitions 0 partitions 0 s)))"

definition partition_scan ::
  "'s block_device option \<Rightarrow> 's partition_device list \<Rightarrow> nat \<Rightarrow> 's \<Rightarrow> nat \<times> 's partition_device list \<times> 's" where
  "partition_scan disk partitions max_partitions s =
     (case disk of
        None \<Rightarrow> (0, partitions, s)
      | Some d \<Rightarrow>
          if max_partitions = 0 then (0, partitions, s)
          else (case mbr_is_protective_gpt disk s of
              (True, s) \<Rightarrow> partition_scan_gpt disk partitions max_partitions s
            | (False, s) \<Rightarrow> partition_scan_mbr disk partitions max_partitions s))"


section \<open>Bounds\<close>

lemma u64_range_iff:
  "\<not> (lba :: u64) \<ge> n \<and> \<not> ucast (count :: u32) > n - lba \<longleftrightarrow>
     unat lba < unat n \<and> unat lba + unat count \<le> unat n"
  by (auto simp: word_le_nat_alt word_less_nat_alt unat_sub_u64 unat_ucast_u64)

lemma block_read_eq:
  "block_read (Some d) lba count (Some b) s =
     (case bd_read d of
        None \<Rightarrow> (-1, Some b, s)
      | Some read \<Rightarrow>
          if count \<noteq> 0 \<and> bd_sector_size d \<noteq> 0 \<and> unat lba + unat count \<le> unat (bd_sector_count d)
          then (let (r, b, s) = read lba count b s in (r, Some b, s))
          else (-1, Some b, s))"
proof -
  have "unat lba < unat (bd_sector_count d) \<and> unat lba + unat count \<le> unat (bd_sector_count d) \<longleftrightarrow>
      unat lba + unat count \<le> unat (bd_sector_count d)" if "count \<noteq> 0"
    using that unat_gt_0 [of count] by linarith
  moreover have "bd_sector_count d \<noteq> 0" if "count \<noteq> 0" "unat lba + unat count \<le> unat (bd_sector_count d)"
    using that unat_gt_0 [of count] by auto
  ultimately show ?thesis
    using u64_range_iff [of "bd_sector_count d" lba count]
    by (auto simp: block_read_def block_device_valid_def not_le not_less split: option.splits)
qed

lemma block_write_eq:
  "block_write (Some d) lba count (Some b) s =
     (case (bd_read d, bd_write d) of
        (Some _, Some write) \<Rightarrow>
          if count \<noteq> 0 \<and> bd_sector_size d \<noteq> 0 \<and> unat lba + unat count \<le> unat (bd_sector_count d)
          then write lba count b s else (-1, s)
      | _ \<Rightarrow> (-1, s))"
proof -
  have "unat lba < unat (bd_sector_count d) \<and> unat lba + unat count \<le> unat (bd_sector_count d) \<longleftrightarrow>
      unat lba + unat count \<le> unat (bd_sector_count d)" if "count \<noteq> 0"
    using that unat_gt_0 [of count] by linarith
  moreover have "bd_sector_count d \<noteq> 0" if "count \<noteq> 0" "unat lba + unat count \<le> unat (bd_sector_count d)"
    using that unat_gt_0 [of count] by auto
  ultimately show ?thesis
    using u64_range_iff [of "bd_sector_count d" lba count]
    by (auto simp: block_write_def block_device_valid_def not_le not_less split: option.splits)
qed

text \<open>A partition that lies inside its parent.\<close>

definition partition_within :: "'s partition_device \<Rightarrow> 's block_device \<Rightarrow> bool" where
  "partition_within p d \<longleftrightarrow> parent p = Some d \<and>
     unat (start_lba p) + unat (sector_count p) \<le> unat (bd_sector_count d)"

lemma partition_offset:
  assumes "partition_within p d" "unat lba + unat count \<le> unat (sector_count p)"
  shows "unat (start_lba p + lba) = unat (start_lba p) + unat lba"
proof (rule unat_add_u64)
  show "unat (start_lba p) + unat lba < 18446744073709551616"
    using assms unat_u64_bound [of "bd_sector_count d"] unfolding partition_within_def by linarith
qed

lemma partition_read_eq:
  assumes "partition_within p d"
  shows "partition_read (Some p) lba count (Some b) s =
     (if unat lba + unat count \<le> unat (sector_count p)
      then block_read (Some d) (start_lba p + lba) count (Some b) s else (-1, Some b, s))"
proof (cases "count = 0")
  case True
  then show ?thesis by (auto simp: partition_read_def block_read_eq split: option.splits)
next
  case False
  then have "0 < unat count" by (simp add: unat_gt_0)
  then show ?thesis
    using False assms u64_range_iff [of "sector_count p" lba count]
    by (auto simp: partition_read_def partition_within_def block_read_eq not_le not_less split: option.splits)
qed

lemma partition_write_eq:
  assumes "partition_within p d"
  shows "partition_write (Some p) lba count (Some b) s =
     (if unat lba + unat count \<le> unat (sector_count p)
      then block_write (Some d) (start_lba p + lba) count (Some b) s else (-1, s))"
proof (cases "count = 0")
  case True
  then show ?thesis by (auto simp: partition_write_def block_write_eq split: option.splits)
next
  case False
  then have "0 < unat count" by (simp add: unat_gt_0)
  then show ?thesis
    using False assms u64_range_iff [of "sector_count p" lba count]
    by (auto simp: partition_write_def partition_within_def block_write_eq not_le not_less split: option.splits)
qed

lemma partition_initialize_fields [simp]:
  "parent (partition_initialize p d a n name) = Some d"
  "start_lba (partition_initialize p d a n name) = a"
  "sector_count (partition_initialize p d a n name) = n"
  "bd_sector_count (block (partition_initialize p d a n name)) = n"
  "bd_sector_size (block (partition_initialize p d a n name)) = bd_sector_size d"
  by (simp_all add: partition_initialize_def Let_def)


section \<open>Scans yield partitions inside the disk\<close>

text \<open>A partition a scan may put into the caller's array.\<close>

definition partition_sound :: "'s block_device \<Rightarrow> 's partition_device \<Rightarrow> bool" where
  "partition_sound d p \<longleftrightarrow> partition_within p d \<and> sector_count p \<noteq> 0 \<and>
     bd_sector_count (block p) = sector_count p \<and> bd_sector_size (block p) = bd_sector_size d"

lemma partition_sound_initialize:
  "count \<noteq> 0 \<Longrightarrow> unat start + unat count \<le> unat (bd_sector_count d) \<Longrightarrow>
    partition_sound d (partition_initialize p d start count name)"
  by (simp add: partition_sound_def partition_within_def)

lemma partition_from_mbr_sound:
  assumes "partition_from_mbr (Some d) i (Some p) s = (True, q, s')"
  shows "\<exists>p'. q = Some p' \<and> partition_sound d p'"
proof -
  from assms obtain sector where sector: "mbr_sector_count (mbr_entry sector (unat i)) \<noteq> 0"
      "\<not> ucast (mbr_start_lba (mbr_entry sector (unat i))) \<ge> bd_sector_count d"
      "\<not> ucast (mbr_sector_count (mbr_entry sector (unat i)))
          > bd_sector_count d - ucast (mbr_start_lba (mbr_entry sector (unat i)))"
      "q = Some (partition_initialize p d (ucast (mbr_start_lba (mbr_entry sector (unat i))))
             (ucast (mbr_sector_count (mbr_entry sector (unat i)))) ''mbr-partition'')"
    by (auto simp: partition_from_mbr_def Let_def split: if_splits option.splits prod.splits)
  define e where "e = mbr_entry sector (unat i)"
  note e = sector [folded e_def]
  have "unat (ucast (mbr_start_lba e) :: u64) + unat (ucast (mbr_sector_count e) :: u64) \<le> unat (bd_sector_count d)"
    using e(2,3) u64_range_iff [of "bd_sector_count d" "ucast (mbr_start_lba e)" "mbr_sector_count e"]
    by (simp add: unat_ucast_u64)
  moreover have "(ucast (mbr_sector_count e) :: u64) \<noteq> 0"
    using e(1) unat_ucast_u64 [of "mbr_sector_count e"] by (metis unat_0 unat_eq_zero)
  ultimately show ?thesis using e(4) partition_sound_initialize by blast
qed

text \<open>First and last LBA of a GPT entry, turned into a start and a count.\<close>

lemma gpt_range_sound:
  assumes "\<not> lo > (hi :: u64)" "\<not> hi \<ge> n"
  shows "hi - lo + 1 \<noteq> 0 \<and> unat lo + unat (hi - lo + 1) \<le> unat n"
proof -
  have le: "unat lo \<le> unat hi" "unat hi < unat n"
    using assms by (simp_all add: word_le_nat_alt word_less_nat_alt)
  then have "unat (hi - lo) = unat hi - unat lo" by (simp add: unat_sub_u64)
  moreover have "unat (hi - lo) + unat (1 :: u64) < 18446744073709551616"
    using le unat_u64_bound [of n] calculation by (simp only: unat_1)
  ultimately have u: "unat (hi - lo + 1) = unat hi - unat lo + 1"
    by (simp add: unat_add_u64)
  then have "hi - lo + 1 \<noteq> 0" by (metis add_is_0 one_neq_zero unat_0)
  with u le show ?thesis by simp
qed

lemma scan_gpt_entry_sound:
  assumes "scan_gpt_entry d h i s = (Some (start, count), s')"
  shows "count \<noteq> 0 \<and> unat start + unat count \<le> unat (bd_sector_count d)"
proof -
  let ?off = "unat (ucast (ucast i * ucast (partition_entry_size h) mod ucast (bd_sector_size d) :: u64) :: u32)"
  from assms obtain sector where sector:
      "\<not> first_lba (gpt_entry_of sector ?off) > last_lba (gpt_entry_of sector ?off)"
      "\<not> last_lba (gpt_entry_of sector ?off) \<ge> bd_sector_count d"
      "start = first_lba (gpt_entry_of sector ?off)"
      "count = last_lba (gpt_entry_of sector ?off) - first_lba (gpt_entry_of sector ?off) + 1"
    by (auto simp: scan_gpt_entry_def Let_def split: if_splits option.splits prod.splits)
  then show ?thesis using gpt_range_sound [OF sector(1,2)] by simp
qed

lemma partition_sound_gpt:
  "\<not> lo > hi \<Longrightarrow> \<not> hi \<ge> bd_sector_count d \<Longrightarrow>
    partition_sound d (partition_initialize p d lo (hi - lo + 1) name)"
  using gpt_range_sound partition_sound_initialize by blast

lemma partition_from_gpt_sound:
  assumes "partition_from_gpt (Some d) i (Some p) s = (True, q, s')"
  shows "\<exists>p'. q = Some p' \<and> partition_sound d p'"
  using assms
  by (auto simp: partition_from_gpt_def Let_def partition_sound_gpt split: if_splits option.splits prod.splits)

definition scan_ok :: "'s block_device \<Rightarrow> nat \<Rightarrow> 's partition_device list \<Rightarrow> nat \<times> 's partition_device list \<times> 's \<Rightarrow> bool" where
  "scan_ok d m ps r \<longleftrightarrow> (case r of (n, qs, s) \<Rightarrow> n \<le> m \<and> length qs = length ps \<and>
     (\<forall>i < n. partition_sound d (qs ! i)) \<and> (\<forall>i \<ge> n. qs ! i = ps ! i))"

lemma scan_ok_0 [simp]: "scan_ok d m ps (0, ps, s)"
  by (simp add: scan_ok_def)

text \<open>The loop invariant: the first \<open>found\<close> slots are filled, the others untouched.\<close>

definition scan_inv :: "'s block_device \<Rightarrow> nat \<Rightarrow> 's partition_device list \<Rightarrow> 's partition_device list \<Rightarrow> nat \<Rightarrow> bool" where
  "scan_inv d m ps qs n \<longleftrightarrow> n \<le> m \<and> length qs = length ps \<and>
     (\<forall>i < n. partition_sound d (qs ! i)) \<and> (\<forall>i \<ge> n. qs ! i = ps ! i)"

lemma scan_inv_result: "scan_inv d m ps qs n \<Longrightarrow> scan_ok d m ps (n, qs, s)"
  by (simp add: scan_inv_def scan_ok_def)

lemma scan_inv_step:
  "scan_inv d m ps qs n \<Longrightarrow> n < m \<Longrightarrow> m \<le> length ps \<Longrightarrow> partition_sound d p \<Longrightarrow>
    scan_inv d m ps (qs[n := p]) (n + 1)"
  by (auto simp: scan_inv_def nth_list_update less_Suc_eq)

lemma scan_mbr_loop_ok:
  "scan_inv d m ps qs n \<Longrightarrow> m \<le> length ps \<Longrightarrow> scan_ok d m ps (scan_mbr_loop d m is qs n s)"
proof (induction "is" arbitrary: qs n s)
  case (Cons i "is")
  show ?case
  proof (cases "n < m")
    case True
    obtain b q s1 where r: "partition_from_mbr (Some d) i (Some (qs ! n)) s = (b, q, s1)"
      by (metis prod_cases3)
    show ?thesis
    proof (cases b)
      case True
      then obtain p where "q = Some p" "partition_sound d p"
        using partition_from_mbr_sound [of d i "qs ! n" s q s1] r by auto
      then show ?thesis
        using Cons.IH [OF scan_inv_step [OF Cons.prems(1) \<open>n < m\<close> Cons.prems(2)]] Cons.prems(2) r True \<open>n < m\<close>
        by simp
    next
      case False
      then show ?thesis using Cons.IH [OF Cons.prems] r \<open>n < m\<close> by simp
    qed
  qed (use Cons.prems scan_inv_result in simp)
qed (use scan_inv_result in simp)

lemma scan_gpt_loop_ok:
  "scan_inv d m ps qs n \<Longrightarrow> m \<le> length ps \<Longrightarrow> scan_ok d m ps (scan_gpt_loop d h m i qs n s)"
proof (induction d h m i qs n s rule: scan_gpt_loop.induct)
  case (1 d h m i qs n s)
  show ?case
  proof (cases "i < partition_entry_count h \<and> n < m")
    case True
    obtain r s1 where r: "scan_gpt_entry d h i s = (r, s1)" by (metis surj_pair)
    show ?thesis
    proof (cases r)
      case None
      then show ?thesis
        using "1.IH"(1) [OF True r [symmetric] None "1.prems"] True r
        by (simp add: scan_gpt_loop.simps [of d h m i qs n s])
    next
      case (Some x)
      obtain a c where x: "x = (a, c)" by (cases x)
      have "partition_sound d (partition_initialize (qs ! n) d a c ''gpt-partition'')"
        using scan_gpt_entry_sound [of d h i s a c s1] r Some x by (simp add: partition_sound_initialize)
      from scan_inv_step [OF "1.prems"(1) _ "1.prems"(2) this] True
      show ?thesis
        using "1.IH"(2) [OF True r [symmetric] Some x [symmetric]] "1.prems"(2) r Some x
        by (simp add: scan_gpt_loop.simps [of d h m i qs n s])
    qed
  next
    case False
    then show ?thesis
      using "1.prems"(1) scan_inv_result by (auto simp: scan_gpt_loop.simps [of d h m i qs n s])
  qed
qed


section \<open>Checksums over sectors\<close>

lemma crc32_update_append: "crc32_update crc (xs @ ys) = crc32_update (crc32_update crc xs) ys"
  by (simp add: crc32_update_def)

lemma crc32_compute_update: "crc32_compute bs = crc32_finish (crc32_update 0xFFFFFFFF bs)"
  by (simp add: crc32_compute_def crc32_finish_def crc32_update_def)

text \<open>
  A driver that serves a fixed content: every in-range read succeeds and delivers the sectors. This is
  what the callers expect of a disk driver.
\<close>

definition disk_serves :: "'s block_device \<Rightarrow> (nat \<Rightarrow> u8 list) \<Rightarrow> bool" where
  "disk_serves d content \<longleftrightarrow> bd_sector_size d = 512 \<and> (\<forall>i. length (content i) = 512) \<and>
     (\<exists>rd. bd_read d = Some rd \<and>
       (\<forall>lba count b s. unat lba + unat count \<le> unat (bd_sector_count d) \<longrightarrow>
          rd lba count b s = (0, concat (map content [unat lba..<unat lba + unat count]), s)))"

lemma read_sector_serves:
  assumes "disk_serves d content" "unat lba < unat (bd_sector_count d)"
  shows "read_sector d lba s = (Some (content (unat lba)), s)"
proof -
  obtain rd where rd: "bd_read d = Some rd"
      "\<And>b. rd lba 1 b s = (0, concat (map content [unat lba..<unat lba + unat (1 :: u32)]), s)"
    using assms unfolding disk_serves_def by (metis Suc_leI add.commute plus_1_eq_Suc unat_1)
  then show ?thesis
    using assms by (simp add: read_sector_def block_read_eq disk_serves_def Suc_le_eq)
qed

lemma gpt_table_crc_serves:
  assumes "disk_serves d content"
  shows "unat lba + (unat remaining + 511) div 512 \<le> unat (bd_sector_count d) \<Longrightarrow>
    gpt_table_crc d lba remaining crc s =
      (Some (crc32_finish (crc32_update crc (take (unat remaining)
         (concat (map content [unat lba..<unat lba + (unat remaining + 511) div 512]))))), s)"
proof (induction "unat remaining" arbitrary: lba remaining crc rule: less_induct)
  case less
  show ?case
  proof (cases "remaining > 0")
    case False
    then have "remaining = 0" by (simp add: word_gt_0)
    then show ?thesis by (simp add: gpt_table_crc.simps [of d lba] crc32_update_def)
  next
    case True
    then have pos: "0 < unat remaining" by (simp add: word_less_nat_alt)
    then have lt: "unat lba < unat (bd_sector_count d)" using less.prems by linarith
    let ?c = "if remaining < 512 then remaining else 512"
    have c: "unat ?c = min (unat remaining) 512" by (auto simp: word_less_nat_alt)
    have rest: "unat (remaining - ?c) = unat remaining - min (unat remaining) 512"
      using c by (subst unat_sub_u64) auto
    have "unat lba + unat (1 :: u64) < 18446744073709551616"
      using lt unat_u64_bound [of "bd_sector_count d"] by (simp only: unat_1)
    then have next_lba: "unat (lba + 1) = Suc (unat lba)" by (simp add: unat_add_u64)
    have len: "length (content i) = 512" for i using assms by (simp add: disk_serves_def)
    have up: "(unat remaining + 511) div 512 = Suc ((unat (remaining - ?c) + 511) div 512)"
      using pos unfolding rest by (cases "unat remaining \<le> 512") (auto simp: le_div_geq)
    have "unat (lba + 1) + (unat (remaining - ?c) + 511) div 512 \<le> unat (bd_sector_count d)"
      using less.prems unfolding up next_lba by simp
    then have "gpt_table_crc d (lba + 1) (remaining - ?c) (crc32_update crc (take (unat ?c) (content (unat lba)))) s =
        (Some (crc32_finish (crc32_update (crc32_update crc (take (unat ?c) (content (unat lba))))
           (take (unat (remaining - ?c))
             (concat (map content [Suc (unat lba)..<Suc (unat lba) + (unat (remaining - ?c) + 511) div 512]))))), s)"
      using less.hyps [of "remaining - ?c" "lba + 1"] rest pos next_lba by simp
    moreover have "[unat lba..<unat lba + (unat remaining + 511) div 512] =
        unat lba # [Suc (unat lba)..<Suc (unat lba) + (unat (remaining - ?c) + 511) div 512]"
      unfolding up by (simp add: upt_conv_Cons)
    moreover have "take (unat remaining) (content (unat lba) @ xs) =
        take (unat ?c) (content (unat lba)) @ take (unat (remaining - ?c)) xs" for xs
      using c rest len by (cases "unat remaining \<le> 512") auto
    ultimately show ?thesis
      using True read_sector_serves [OF assms lt, of s]
      by (simp add: gpt_table_crc.simps [of d lba remaining] Let_def crc32_update_append)
  qed
qed

section \<open>Properties\<close>

text \<open>\<open>block_read\<close> and \<open>block_write\<close> reach the driver exactly for a non-empty request on a valid
  device (and, for a write, a writable one) whose sectors \<open>lba .. lba + count - 1\<close> all exist, computed
  without 64-bit overflow; every other call returns -1 and leaves buffer and device untouched.\<close>

theorem block_access_bounds:
  "block_read (Some d) lba count (Some b) s =
     (case bd_read d of
        None \<Rightarrow> (-1, Some b, s)
      | Some read \<Rightarrow>
          if count \<noteq> 0 \<and> bd_sector_size d \<noteq> 0 \<and> unat lba + unat count \<le> unat (bd_sector_count d)
          then (let (r, b, s) = read lba count b s in (r, Some b, s))
          else (-1, Some b, s)) \<and>
   block_write (Some d) lba count (Some b) s =
     (case (bd_read d, bd_write d) of
        (Some _, Some write) \<Rightarrow>
          if count \<noteq> 0 \<and> bd_sector_size d \<noteq> 0 \<and> unat lba + unat count \<le> unat (bd_sector_count d)
          then write lba count b s else (-1, s)
      | _ \<Rightarrow> (-1, s))"
  by (intro conjI block_read_eq block_write_eq)

text \<open>A RAM disk of eight zero sectors and its second half as a partition, for the witnesses.\<close>

definition zero_disk :: "unit block_device" where
  "zero_disk = \<lparr>bd_name = ''zero'', bd_sector_size = 512, bd_sector_count = 8,
     bd_read = Some (\<lambda>lba count b s. (0, concat (map (\<lambda>_. replicate 512 0) [unat lba..<unat lba + unat count]), s)),
     bd_write = Some (\<lambda>lba count b s. (0, s))\<rparr>"

definition zero_partition :: "unit partition_device" where
  "zero_partition = partition_initialize \<lparr>block = zero_disk, parent = None, start_lba = 0, sector_count = 0\<rparr>
     zero_disk 4 4 ''half''"

text \<open>A partition is a window on its parent: a request inside \<open>0 .. sector_count\<close> becomes the
  parent's request at the offset \<open>start_lba\<close>, which never wraps and never leaves the partition's range
  of the parent; any other request fails without touching the parent.\<close>

theorem partition_window:
  assumes "partition_within p d"
  shows "if unat lba + unat count \<le> unat (sector_count p)
    then unat (start_lba p + lba) = unat (start_lba p) + unat lba \<and>
      unat (start_lba p + lba) + unat count \<le> unat (start_lba p) + unat (sector_count p) \<and>
      partition_read (Some p) lba count (Some b) s = block_read (Some d) (start_lba p + lba) count (Some b) s \<and>
      partition_write (Some p) lba count (Some b) s = block_write (Some d) (start_lba p + lba) count (Some b) s
    else partition_read (Some p) lba count (Some b) s = (-1, Some b, s) \<and>
      partition_write (Some p) lba count (Some b) s = (-1, s)"
  using partition_offset [OF assms, of lba count]
  by (simp add: partition_read_eq [OF assms] partition_write_eq [OF assms])

theorem partition_window_witness:
  "partition_read (Some zero_partition) 2 2 (Some []) () = block_read (Some zero_disk) 6 2 (Some []) () \<and>
   partition_read (Some zero_partition) 3 2 (Some []) () = (-1, Some [], ())"
proof -
  have w: "partition_within zero_partition zero_disk"
    by (simp add: partition_within_def zero_partition_def zero_disk_def)
  show ?thesis
    using partition_window [OF w, of 2 2 "[]" "()"] partition_window [OF w, of 3 2 "[]" "()"]
    by (simp add: zero_partition_def)
qed

text \<open>Claim C17. Whatever the disk contains, \<open>partition_scan\<close> returns, fills at most the slots it was given,
  leaves the others as they were, and every partition it reports is non-empty, lies inside the disk
  and carries its own size and the disk's sector size.\<close>

theorem partition_scan_sound:
  assumes "max_partitions \<le> length partitions"
  shows "scan_ok d max_partitions partitions (partition_scan (Some d) partitions max_partitions s)"
proof -
  have inv: "scan_inv d max_partitions partitions partitions 0" by (simp add: scan_inv_def)
  show ?thesis
    using scan_mbr_loop_ok [OF inv assms] scan_gpt_loop_ok [OF inv assms]
    by (auto simp: partition_scan_def partition_scan_mbr_def partition_scan_gpt_def Let_def
        split: prod.splits bool.splits option.splits)
qed

theorem partition_scan_sound_witness:
  "scan_ok zero_disk 1 [zero_partition] (partition_scan (Some zero_disk) [zero_partition] 1 ())"
  by (rule partition_scan_sound) simp

text \<open>Claim C25. On a disk that serves its sectors the sector-wise checksum of the GPT entry table is the
  CRC-32 that \<open>crc32_compute\<close> gives for the table's bytes in one piece, however the table ends inside
  its last sector; the loop returns and leaves the device as it was.\<close>

theorem gpt_table_crc_whole:
  assumes "disk_serves d content"
    and "unat lba + (unat table_bytes + 511) div 512 \<le> unat (bd_sector_count d)"
  shows "gpt_table_crc d lba table_bytes 0xFFFFFFFF s =
    (Some (crc32_compute (take (unat table_bytes)
       (concat (map content [unat lba..<unat lba + (unat table_bytes + 511) div 512])))), s)"
  using gpt_table_crc_serves [OF assms] by (simp add: crc32_compute_update)

theorem gpt_table_crc_whole_witness:
  "gpt_table_crc zero_disk 2 600 0xFFFFFFFF () = (Some (crc32_compute (replicate 600 0)), ())"
proof -
  have d: "disk_serves zero_disk (\<lambda>_. replicate 512 0)"
    by (simp add: disk_serves_def zero_disk_def)
  have "concat (map (\<lambda>_. replicate 512 (0 :: u8)) [2..<4]) = replicate 1024 0"
    by (simp add: upt_rec flip: replicate_add)
  then show ?thesis
    using gpt_table_crc_whole [OF d, of 2 600 "()"] by (simp add: zero_disk_def)
qed

end
