(* ===== verification/Tasks.thy ===== *)
theory Tasks
  imports Prelude
begin

text \<open>
  The data of the tasking subsystem: \<open>task_t\<close>, its states and scheduling policies
  (\<open>include/kernel/task.h\<close>), the per-CPU record \<open>cpu_local_t\<close> (\<open>include/kernel/cpu.h\<close>) and the
  registers the scheduler touches. A \<open>task_t *\<close> is a \<open>tid option\<close>, the memory holding the tasks a
  function from \<open>tid\<close>, so that two pointers to one task are two equal ids. \<open>priority\<close>, which
  nothing reads, is left out; code and argument pointers are opaque numbers.
\<close>

section \<open>Tasks\<close>

type_synonym tid = nat
type_synonym cpu_id = nat

datatype task_state = TASK_NEW | TASK_READY | TASK_RUNNING | TASK_BLOCKED | TASK_SLEEPING | TASK_ZOMBIE

text \<open>\<open>SCHED_POLICY_COUNT\<close> stands for every value outside the enumeration.\<close>

datatype sched_policy =
    SCHED_POLICY_REALTIME
  | SCHED_POLICY_INTERACTIVE
  | SCHED_POLICY_NORMAL
  | SCHED_POLICY_BACKGROUND
  | SCHED_POLICY_COUNT

fun policy_index :: "sched_policy \<Rightarrow> nat" where
  "policy_index SCHED_POLICY_REALTIME = 0"
| "policy_index SCHED_POLICY_INTERACTIVE = 1"
| "policy_index SCHED_POLICY_NORMAL = 2"
| "policy_index SCHED_POLICY_BACKGROUND = 3"
| "policy_index SCHED_POLICY_COUNT = 4"

lemma policy_index_inject [simp]: "policy_index p = policy_index q \<longleftrightarrow> p = q"
  by (cases p; cases q) simp_all

text \<open>The bands are ordered by their position in the enumeration, the most urgent one first.\<close>

instantiation sched_policy :: linorder
begin

definition less_eq_sched_policy :: "sched_policy \<Rightarrow> sched_policy \<Rightarrow> bool" where
  "p \<le> q \<longleftrightarrow> policy_index p \<le> policy_index q"

definition less_sched_policy :: "sched_policy \<Rightarrow> sched_policy \<Rightarrow> bool" where
  "p < q \<longleftrightarrow> policy_index p < policy_index q"

instance
  by (standard; simp add: less_eq_sched_policy_def less_sched_policy_def; linarith)

end

record task =
  task_id :: u32
  state :: task_state
  policy :: sched_policy
  stack_pointer :: u32
  stack_base :: u32
  stack_size :: u32
  address_space :: "nat option"
  process :: "nat option"
  runtime_ticks :: u64
  entry :: "nat option"
  argument :: "nat option"
  sched_previous :: "tid option"
  sched_next :: "tid option"
  wait_previous :: "tid option"
  wait_next :: "tid option"
  sleep_previous :: "tid option"
  sleep_next :: "tid option"
  wake_tick :: u64
  waiting_on :: "nat option"
  cleanup_next :: "tid option"

type_synonym task_memory = "tid \<Rightarrow> task"

definition upd_task :: "tid \<Rightarrow> (task \<Rightarrow> task) \<Rightarrow> task_memory \<Rightarrow> task_memory" where
  "upd_task t f ts = ts(t := f (ts t))"

lemma upd_task_same [simp]: "upd_task t f ts t = f (ts t)"
  by (simp add: upd_task_def)

lemma upd_task_other [simp]: "x \<noteq> t \<Longrightarrow> upd_task t f ts x = ts x"
  by (simp add: upd_task_def)

lemma upd_task_apply: "upd_task t f ts x = (if x = t then f (ts x) else ts x)"
  by (simp add: upd_task_def)

lemma comp_upd_task: "(g \<circ> upd_task t f ts) = (g \<circ> ts)(t := g (f (ts t)))"
  by (simp add: upd_task_def fun_upd_comp)

lemma comp_upd_sched [simp]:
  "sched_previous \<circ> upd_task t (sched_next_update f) ts = sched_previous \<circ> ts"
  "sched_next \<circ> upd_task t (sched_previous_update f) ts = sched_next \<circ> ts"
  "sched_previous \<circ> upd_task t (sched_previous_update f) ts = (sched_previous \<circ> ts)(t := f (sched_previous (ts t)))"
  "sched_next \<circ> upd_task t (sched_next_update f) ts = (sched_next \<circ> ts)(t := f (sched_next (ts t)))"
  by (auto simp: upd_task_apply)

lemma comp_upd_wait [simp]:
  "wait_previous \<circ> upd_task t (wait_next_update f) ts = wait_previous \<circ> ts"
  "wait_next \<circ> upd_task t (wait_previous_update f) ts = wait_next \<circ> ts"
  "wait_previous \<circ> upd_task t (waiting_on_update g) ts = wait_previous \<circ> ts"
  "wait_next \<circ> upd_task t (waiting_on_update g) ts = wait_next \<circ> ts"
  "wait_previous \<circ> upd_task t (wait_previous_update f) ts = (wait_previous \<circ> ts)(t := f (wait_previous (ts t)))"
  "wait_next \<circ> upd_task t (wait_next_update f) ts = (wait_next \<circ> ts)(t := f (wait_next (ts t)))"
  by (auto simp: upd_task_apply)

lemma comp_upd_sleep [simp]:
  "sleep_previous \<circ> upd_task t (sleep_next_update f) ts = sleep_previous \<circ> ts"
  "sleep_next \<circ> upd_task t (sleep_previous_update f) ts = sleep_next \<circ> ts"
  "sleep_previous \<circ> upd_task t (wake_tick_update g) ts = sleep_previous \<circ> ts"
  "sleep_next \<circ> upd_task t (wake_tick_update g) ts = sleep_next \<circ> ts"
  "sleep_previous \<circ> upd_task t (sleep_previous_update f) ts = (sleep_previous \<circ> ts)(t := f (sleep_previous (ts t)))"
  "sleep_next \<circ> upd_task t (sleep_next_update f) ts = (sleep_next \<circ> ts)(t := f (sleep_next (ts t)))"
  by (auto simp: upd_task_apply)

lemma comp_upd_triv [simp]: "(g \<circ> ts)(t := g (ts t)) = g \<circ> ts"
  by auto

text \<open>
  What a run queue may do to the task memory: rewrite the scheduler links of the tasks in \<open>A\<close>.
\<close>

definition links_only :: "tid set \<Rightarrow> task_memory \<Rightarrow> task_memory \<Rightarrow> bool" where
  "links_only A ts ts' \<longleftrightarrow>
     (\<forall>x. \<exists>p n. ts' x = (ts x)\<lparr>sched_previous := p, sched_next := n\<rparr>) \<and> (\<forall>x. x \<notin> A \<longrightarrow> ts' x = ts x)"

lemma links_only_refl [simp]: "links_only A ts ts"
proof -
  have "ts x = (ts x)\<lparr>sched_previous := sched_previous (ts x), sched_next := sched_next (ts x)\<rparr>" for x
    by simp
  then show ?thesis unfolding links_only_def by blast
qed

lemma links_only_outside: "links_only A ts ts' \<Longrightarrow> x \<notin> A \<Longrightarrow> ts' x = ts x"
  by (simp add: links_only_def)

lemma links_only_fields:
  assumes "links_only A ts ts'"
  shows "state (ts' x) = state (ts x)" "policy (ts' x) = policy (ts x)"
    "stack_base (ts' x) = stack_base (ts x)" "stack_size (ts' x) = stack_size (ts x)"
    "stack_pointer (ts' x) = stack_pointer (ts x)" "address_space (ts' x) = address_space (ts x)"
    "wait_previous (ts' x) = wait_previous (ts x)" "wait_next (ts' x) = wait_next (ts x)"
    "sleep_previous (ts' x) = sleep_previous (ts x)" "sleep_next (ts' x) = sleep_next (ts x)"
    "wake_tick (ts' x) = wake_tick (ts x)" "waiting_on (ts' x) = waiting_on (ts x)"
    "cleanup_next (ts' x) = cleanup_next (ts x)" "runtime_ticks (ts' x) = runtime_ticks (ts x)"
proof -
  obtain p n where "ts' x = (ts x)\<lparr>sched_previous := p, sched_next := n\<rparr>"
    using assms unfolding links_only_def by blast
  then show "state (ts' x) = state (ts x)" "policy (ts' x) = policy (ts x)"
    "stack_base (ts' x) = stack_base (ts x)" "stack_size (ts' x) = stack_size (ts x)"
    "stack_pointer (ts' x) = stack_pointer (ts x)" "address_space (ts' x) = address_space (ts x)"
    "wait_previous (ts' x) = wait_previous (ts x)" "wait_next (ts' x) = wait_next (ts x)"
    "sleep_previous (ts' x) = sleep_previous (ts x)" "sleep_next (ts' x) = sleep_next (ts x)"
    "wake_tick (ts' x) = wake_tick (ts x)" "waiting_on (ts' x) = waiting_on (ts x)"
    "cleanup_next (ts' x) = cleanup_next (ts x)" "runtime_ticks (ts' x) = runtime_ticks (ts x)"
    by simp_all
qed

lemma links_only_mono: "links_only A ts ts' \<Longrightarrow> A \<subseteq> B \<Longrightarrow> links_only B ts ts'"
  by (auto simp: links_only_def)

lemma links_only_trans:
  assumes "links_only A ts ts'" "links_only A ts' ts''"
  shows "links_only A ts ts''"
  unfolding links_only_def
proof (intro conjI allI impI)
  fix x
  obtain p n p' n' where "ts' x = (ts x)\<lparr>sched_previous := p, sched_next := n\<rparr>"
      "ts'' x = (ts' x)\<lparr>sched_previous := p', sched_next := n'\<rparr>"
    using assms unfolding links_only_def by meson
  then show "\<exists>p n. ts'' x = (ts x)\<lparr>sched_previous := p, sched_next := n\<rparr>" by auto
qed (use assms in \<open>auto simp: links_only_def\<close>)

lemma links_only_set_previous:
  "t \<in> A \<Longrightarrow> links_only A ts (upd_task t (sched_previous_update (\<lambda>_. p)) ts)"
proof -
  assume t: "t \<in> A"
  have "ts x = (ts x)\<lparr>sched_previous := sched_previous (ts x), sched_next := sched_next (ts x)\<rparr>"
    "(ts x)\<lparr>sched_previous := p\<rparr> = (ts x)\<lparr>sched_previous := p, sched_next := sched_next (ts x)\<rparr>" for x
    by simp_all
  with t show ?thesis unfolding links_only_def upd_task_apply by (metis (full_types))
qed

lemma links_only_set_next:
  "t \<in> A \<Longrightarrow> links_only A ts (upd_task t (sched_next_update (\<lambda>_. n)) ts)"
proof -
  assume t: "t \<in> A"
  have "ts x = (ts x)\<lparr>sched_previous := sched_previous (ts x), sched_next := sched_next (ts x)\<rparr>"
    "(ts x)\<lparr>sched_next := n\<rparr> = (ts x)\<lparr>sched_previous := sched_previous (ts x), sched_next := n\<rparr>" for x
    by simp_all
  with t show ?thesis unfolding links_only_def upd_task_apply by (metis (full_types))
qed

section \<open>CPUs\<close>

record cpu_local =
  apic_id :: u8
  online :: bool
  current_task :: "tid option"
  idle_task :: "tid option"
  previous_task :: "tid option"
  reschedule_pending :: bool
  preemption_enabled :: bool
  scheduler_switch_flags :: u32
  scheduler_switch_lock_held :: bool
  scheduler_ticks :: u32
  idle_ticks :: u32
  scheduler_preempt_restore_flags :: u32

text \<open>The registers of one processor that the scheduler reads or loads: EFLAGS, ESP, CR3 and the
  kernel stack of its task state segment.\<close>

record hw_cpu =
  eflags :: u32
  esp :: u32
  cr3 :: u32
  esp0 :: u32

definition IF_FLAG :: u32 where [machine_consts]: "IF_FLAG = 0x200"
definition SMP_MAX_CPUS :: nat where [machine_consts]: "SMP_MAX_CPUS = 64"

record address_space_obj =
  page_directory :: u32
  reference_count :: u32
  user_stack_slot_bitmap :: u32
  kernel_space :: bool

definition address_space_page_directory :: "(nat \<Rightarrow> address_space_obj) \<Rightarrow> nat option \<Rightarrow> u32" where
  "address_space_page_directory spaces space =
     (case space of None \<Rightarrow> 0 | Some a \<Rightarrow> page_directory (spaces a))"

text \<open>The top of a task's kernel stack, 16-byte aligned; 0 for a bootstrap context.\<close>

definition task_kernel_stack_top :: "task_memory \<Rightarrow> tid option \<Rightarrow> u32" where
  "task_kernel_stack_top ts t =
     (case t of
        None \<Rightarrow> 0
      | Some i \<Rightarrow>
          if stack_base (ts i) = 0 \<or> stack_size (ts i) = 0 then 0
          else (stack_base (ts i) + stack_size (ts i)) AND NOT 0xF)"

end
