(* ===== verification/RunQueue.thy ===== *)
theory RunQueue
  imports Tasks "HOL-Library.Multiset"
begin

text \<open>
  Run queues: the \<open>scheduler_algorithm_t\<close> table of \<open>include/kernel/algorithm.h\<close>, the contract the
  scheduler relies on (the locale \<open>run_queue\<close>, and \<open>fifo_run_queue\<close> for the algorithms that keep
  arrival order) and the round-robin algorithm \<open>kernel/scheduler/round_robin.c\<close>, which satisfies both.
  The opaque state of an algorithm is a value of type \<open>'q\<close>; its pointer is an option.
\<close>

section \<open>The algorithm table\<close>

text \<open>
  \<open>create\<close> takes the address that \<open>kmalloc\<close> returned for the state block, 0 for NULL; \<open>destroy\<close> tells
  whether the block is given back to \<open>kfree\<close>. Function pointers the code compares with NULL are
  options.
\<close>

record 'q scheduler_algorithm =
  name :: string
  create :: "(u32 \<Rightarrow> 'q option) option"
  destroy :: "('q option \<Rightarrow> bool) option"
  enqueue :: "('q option \<Rightarrow> tid option \<Rightarrow> task_memory \<Rightarrow> 'q option \<times> task_memory) option"
  dequeue :: "('q option \<Rightarrow> tid option \<Rightarrow> task_memory \<Rightarrow> 'q option \<times> task_memory) option"
  pick_next :: "('q option \<Rightarrow> task_memory \<Rightarrow> tid option \<times> 'q option \<times> task_memory) option"
  on_switch_in :: "('q option \<Rightarrow> tid option \<Rightarrow> 'q option) option"
  tick :: "('q option \<Rightarrow> tid option \<Rightarrow> bool \<times> 'q option) option"

section \<open>The contract of an algorithm\<close>

text \<open>
  \<open>holds q ts xs\<close>: in state \<open>q\<close>, with the links of \<open>ts\<close>, the queue contains the tasks \<open>xs\<close>. An algorithm
  owns the scheduler links of its members and nothing else; it neither loses nor invents tasks.
\<close>

locale run_queue =
  fixes alg :: "'q scheduler_algorithm"
    and holds :: "'q \<Rightarrow> task_memory \<Rightarrow> tid list \<Rightarrow> bool"
  assumes complete: "create alg \<noteq> None" "enqueue alg \<noteq> None" "dequeue alg \<noteq> None" "pick_next alg \<noteq> None"
    and members_distinct: "holds q ts xs \<Longrightarrow> distinct xs"
    and frame: "holds q ts xs \<Longrightarrow>
      (\<And>x. x \<in> set xs \<Longrightarrow> sched_previous (ts' x) = sched_previous (ts x) \<and> sched_next (ts' x) = sched_next (ts x)) \<Longrightarrow>
      holds q ts' xs"
    and created: "the (create alg) block = Some q \<Longrightarrow> holds q ts []"
    and enqueued: "holds q ts xs \<Longrightarrow> t \<notin> set xs \<Longrightarrow>
      \<exists>q' ts' ys. the (enqueue alg) (Some q) (Some t) ts = (Some q', ts') \<and> holds q' ts' ys \<and>
        mset ys = add_mset t (mset xs) \<and> links_only (insert t (set xs)) ts ts'"
    and dequeued: "holds q ts xs \<Longrightarrow> t \<in> set xs \<Longrightarrow>
      \<exists>q' ts' ys. the (dequeue alg) (Some q) (Some t) ts = (Some q', ts') \<and> holds q' ts' ys \<and>
        mset ys = mset xs - {#t#} \<and> links_only (set xs) ts ts'"
    and picked_none: "holds q ts [] \<Longrightarrow>
      \<exists>q'. the (pick_next alg) (Some q) ts = (None, Some q', ts) \<and> holds q' ts []"
    and picked: "holds q ts xs \<Longrightarrow> xs \<noteq> [] \<Longrightarrow>
      \<exists>q' ts' ys t. the (pick_next alg) (Some q) ts = (Some t, Some q', ts') \<and> t \<in> set xs \<and> holds q' ts' ys \<and>
        mset ys = mset xs - {#t#} \<and> links_only (set xs) ts ts'"
    and switched_in: "on_switch_in alg = Some f \<Longrightarrow> holds q ts xs \<Longrightarrow> \<exists>q'. f (Some q) (Some t) = Some q' \<and> holds q' ts xs"
    and ticked: "tick alg = Some g \<Longrightarrow> holds q ts xs \<Longrightarrow> \<exists>b q'. g (Some q) (Some t) = (b, Some q') \<and> holds q' ts xs"

text \<open>Algorithms that hand tasks out in the order of their arrival.\<close>

locale fifo_run_queue = run_queue +
  assumes enqueued_last: "holds q ts xs \<Longrightarrow> t \<notin> set xs \<Longrightarrow>
      the (enqueue alg) (Some q) (Some t) ts = (Some q', ts') \<Longrightarrow> holds q' ts' (xs @ [t])"
    and picked_first: "holds q ts (x # xs) \<Longrightarrow>
      the (pick_next alg) (Some q) ts = (Some t, Some q', ts') \<Longrightarrow> t = x \<and> holds q' ts' xs"

section \<open>Round robin\<close>

record round_robin_state =
  head :: "tid option"
  tail :: "tid option"
  quantum_ticks :: u32
  elapsed_ticks :: u32

definition RR_DEFAULT_QUANTUM_TICKS :: u32 where [machine_consts]: "RR_DEFAULT_QUANTUM_TICKS = 5"

definition rr_create :: "u32 \<Rightarrow> round_robin_state option" where
  "rr_create block =
     (if block = 0 then None
      else Some \<lparr>head = None, tail = None, quantum_ticks = RR_DEFAULT_QUANTUM_TICKS, elapsed_ticks = 0\<rparr>)"

definition rr_destroy :: "round_robin_state option \<Rightarrow> bool" where
  "rr_destroy opaque \<longleftrightarrow> opaque \<noteq> None"

definition rr_enqueue ::
  "round_robin_state option \<Rightarrow> tid option \<Rightarrow> task_memory \<Rightarrow> round_robin_state option \<times> task_memory" where
  "rr_enqueue opaque task ts =
     (case (opaque, task) of
        (Some st, Some t) \<Rightarrow>
          let ts = upd_task t (sched_previous_update (\<lambda>_. tail st)) ts;
              ts = upd_task t (sched_next_update (\<lambda>_. None)) ts;
              (st, ts) = (case tail st of
                  Some u \<Rightarrow> (st, upd_task u (sched_next_update (\<lambda>_. Some t)) ts)
                | None \<Rightarrow> (st\<lparr>head := Some t\<rparr>, ts))
          in (Some (st\<lparr>tail := Some t\<rparr>), ts)
      | _ \<Rightarrow> (opaque, ts))"

definition rr_dequeue ::
  "round_robin_state option \<Rightarrow> tid option \<Rightarrow> task_memory \<Rightarrow> round_robin_state option \<times> task_memory" where
  "rr_dequeue opaque task ts =
     (case (opaque, task) of
        (Some st, Some t) \<Rightarrow>
          let (st, ts) = (case sched_previous (ts t) of
                  Some p \<Rightarrow> (st, upd_task p (sched_next_update (\<lambda>_. sched_next (ts t))) ts)
                | None \<Rightarrow> (st\<lparr>head := sched_next (ts t)\<rparr>, ts));
              (st, ts) = (case sched_next (ts t) of
                  Some n \<Rightarrow> (st, upd_task n (sched_previous_update (\<lambda>_. sched_previous (ts t))) ts)
                | None \<Rightarrow> (st\<lparr>tail := sched_previous (ts t)\<rparr>, ts));
              ts = upd_task t (sched_previous_update (\<lambda>_. None)) ts;
              ts = upd_task t (sched_next_update (\<lambda>_. None)) ts
          in (Some st, ts)
      | _ \<Rightarrow> (opaque, ts))"

definition rr_pick_next ::
  "round_robin_state option \<Rightarrow> task_memory \<Rightarrow> tid option \<times> round_robin_state option \<times> task_memory" where
  "rr_pick_next opaque ts =
     (case opaque of
        None \<Rightarrow> (None, opaque, ts)
      | Some st \<Rightarrow>
          (case head st of
             None \<Rightarrow> (None, opaque, ts)
           | Some t \<Rightarrow> let (opaque, ts) = rr_dequeue opaque (Some t) ts in (Some t, opaque, ts)))"

definition rr_on_switch_in :: "round_robin_state option \<Rightarrow> tid option \<Rightarrow> round_robin_state option" where
  "rr_on_switch_in opaque task =
     (case opaque of None \<Rightarrow> opaque | Some st \<Rightarrow> Some (st\<lparr>elapsed_ticks := 0\<rparr>))"

definition rr_tick :: "round_robin_state option \<Rightarrow> tid option \<Rightarrow> bool \<times> round_robin_state option" where
  "rr_tick opaque current =
     (case opaque of
        None \<Rightarrow> (False, opaque)
      | Some st \<Rightarrow>
          let st = st\<lparr>elapsed_ticks := elapsed_ticks st + 1\<rparr>
          in if elapsed_ticks st \<ge> quantum_ticks st then (True, Some (st\<lparr>elapsed_ticks := 0\<rparr>))
             else (False, Some st))"

definition scheduler_round_robin_algorithm :: "round_robin_state scheduler_algorithm" where
  "scheduler_round_robin_algorithm =
     \<lparr>name = ''round-robin'', create = Some rr_create, destroy = Some rr_destroy,
      enqueue = Some rr_enqueue, dequeue = Some rr_dequeue, pick_next = Some rr_pick_next,
      on_switch_in = Some rr_on_switch_in, tick = Some rr_tick\<rparr>"

section \<open>Round robin keeps a list\<close>

definition rr_holds :: "round_robin_state \<Rightarrow> task_memory \<Rightarrow> tid list \<Rightarrow> bool" where
  "rr_holds q ts xs \<longleftrightarrow> dll (sched_previous \<circ> ts) (sched_next \<circ> ts) (head q) (tail q) xs"

lemma rr_enqueue_holds:
  assumes "rr_holds q ts xs" "t \<notin> set xs"
  shows "\<exists>q' ts'. rr_enqueue (Some q) (Some t) ts = (Some q', ts') \<and> rr_holds q' ts' (xs @ [t]) \<and>
    links_only (insert t (set xs)) ts ts' \<and> quantum_ticks q' = quantum_ticks q \<and> elapsed_ticks q' = elapsed_ticks q"
proof -
  let ?ts = "upd_task t (sched_next_update (\<lambda>_. None)) (upd_task t (sched_previous_update (\<lambda>_. tail q)) ts)"
  have lo: "links_only (insert t (set xs)) ts ?ts"
    by (blast intro: links_only_trans links_only_set_next links_only_set_previous)
  from dll_push_back [OF assms [unfolded rr_holds_def]]
  have new: "dll ((sched_previous \<circ> ts)(t := tail q)) (set_link (tail q) (Some t) ((sched_next \<circ> ts)(t := None)))
      (if tail q = None then Some t else head q) (Some t) (xs @ [t])" .
  show ?thesis
  proof (cases "tail q")
    case None
    with new lo show ?thesis by (simp add: rr_enqueue_def rr_holds_def)
  next
    case (Some u)
    then have "u \<in> set xs"
      using assms(1) last_or_Some_in [of xs u] by (simp add: rr_holds_def dll_def)
    then have "links_only (insert t (set xs)) ts (upd_task u (sched_next_update (\<lambda>_. Some t)) ?ts)"
      using links_only_trans [OF lo links_only_set_next] by simp
    with Some new show ?thesis
      by (simp add: rr_enqueue_def rr_holds_def)
  qed
qed

lemma rr_dequeue_holds:
  assumes "rr_holds q ts (xs @ t # ys)"
  shows "\<exists>q' ts'. rr_dequeue (Some q) (Some t) ts = (Some q', ts') \<and> rr_holds q' ts' (xs @ ys) \<and>
    links_only (set (xs @ t # ys)) ts ts' \<and> quantum_ticks q' = quantum_ticks q \<and> elapsed_ticks q' = elapsed_ticks q"
proof -
  let ?A = "set (xs @ t # ys)"
  let ?p = "sched_previous (ts t)" and ?n = "sched_next (ts t)"
  have links: "?p = last_or None xs" "?n = first_or None ys" and d: "distinct (xs @ t # ys)"
    using dll_links [OF assms [unfolded rr_holds_def]] dll_distinct [OF assms [unfolded rr_holds_def]] by simp_all
  have p: "u \<in> ?A \<and> u \<noteq> t" if "?p = Some u" for u
    using that links last_or_Some_in [of xs u] d by auto
  have n: "u \<in> ?A \<and> u \<noteq> t" if "?n = Some u" for u
    using that links first_or_Some_in [of ys u] d by auto
  define ts1 where "ts1 = (case ?p of Some u \<Rightarrow> upd_task u (sched_next_update (\<lambda>_. ?n)) ts | None \<Rightarrow> ts)"
  define ts2 where "ts2 = (case ?n of Some u \<Rightarrow> upd_task u (sched_previous_update (\<lambda>_. ?p)) ts1 | None \<Rightarrow> ts1)"
  define ts3 where "ts3 = upd_task t (sched_next_update (\<lambda>_. None)) (upd_task t (sched_previous_update (\<lambda>_. None)) ts2)"
  have same: "sched_next (ts1 t) = ?n" "sched_previous (ts1 t) = ?p"
    using p by (auto simp: ts1_def upd_task_apply split: option.split)
  have eq: "rr_dequeue (Some q) (Some t) ts =
      (Some (q\<lparr>head := (if ?p = None then ?n else head q), tail := (if ?n = None then ?p else tail q)\<rparr>), ts3)"
    using same unfolding ts3_def ts2_def
    by (cases ?p; cases ?n) (simp_all add: rr_dequeue_def ts1_def)
  have "links_only ?A ts ts1"
    using p by (auto simp: ts1_def intro: links_only_set_next split: option.split)
  moreover have "links_only ?A ts1 ts2"
    using n by (auto simp: ts2_def intro: links_only_set_previous split: option.split)
  moreover have "links_only ?A ts2 ts3"
    unfolding ts3_def by (intro links_only_trans [OF links_only_set_previous links_only_set_next]) simp_all
  ultimately have lo: "links_only ?A ts ts3" by (blast intro: links_only_trans)
  have fields: "sched_next \<circ> ts3 = (set_link ?p ?n (sched_next \<circ> ts))(t := None)"
    "sched_previous \<circ> ts3 = (set_link ?n ?p (sched_previous \<circ> ts))(t := None)"
    unfolding ts3_def ts2_def ts1_def by (auto split: option.split)
  have "rr_holds (q\<lparr>head := (if ?p = None then ?n else head q), tail := (if ?n = None then ?p else tail q)\<rparr>) ts3 (xs @ ys)"
    using dll_unlink [OF assms [unfolded rr_holds_def], unfolded comp_def] unfolding rr_holds_def fields unfolding comp_def
    by (simp split del: if_split)
  with eq lo show ?thesis by simp
qed

lemma rr_holds_head: "rr_holds q ts xs \<Longrightarrow> head q = first_or None xs"
  by (simp add: rr_holds_def dll_def)

lemma rr_pick_holds:
  assumes "rr_holds q ts (x # xs)"
  shows "\<exists>q' ts'. rr_pick_next (Some q) ts = (Some x, Some q', ts') \<and> rr_holds q' ts' xs \<and>
    links_only (set (x # xs)) ts ts' \<and> quantum_ticks q' = quantum_ticks q \<and> elapsed_ticks q' = elapsed_ticks q"
  using rr_dequeue_holds [of q ts "[]" x xs] assms rr_holds_head [OF assms]
  by (auto simp: rr_pick_next_def)

lemma rr_holds_frame:
  assumes "rr_holds q ts xs"
    and "\<And>x. x \<in> set xs \<Longrightarrow> sched_previous (ts' x) = sched_previous (ts x) \<and> sched_next (ts' x) = sched_next (ts x)"
  shows "rr_holds q ts' xs"
  using assms dll_cong [of xs "sched_previous \<circ> ts'" "sched_previous \<circ> ts" "sched_next \<circ> ts'" "sched_next \<circ> ts"]
  by (simp add: rr_holds_def)

lemma rr_holds_ticks [simp]: "rr_holds (q\<lparr>elapsed_ticks := e\<rparr>) ts xs = rr_holds q ts xs"
  by (simp add: rr_holds_def)

lemmas rr_table = scheduler_round_robin_algorithm_def

interpretation rr: fifo_run_queue scheduler_round_robin_algorithm rr_holds
proof
  show "create scheduler_round_robin_algorithm \<noteq> None" "enqueue scheduler_round_robin_algorithm \<noteq> None"
    "dequeue scheduler_round_robin_algorithm \<noteq> None" "pick_next scheduler_round_robin_algorithm \<noteq> None"
    by (simp_all add: rr_table)
next
  fix q ts xs assume "rr_holds q ts xs"
  then show "distinct xs" by (simp add: rr_holds_def dll_def)
next
  fix q ts xs and ts' :: task_memory
  assume "rr_holds q ts xs"
    and "\<And>x. x \<in> set xs \<Longrightarrow> sched_previous (ts' x) = sched_previous (ts x) \<and> sched_next (ts' x) = sched_next (ts x)"
  then show "rr_holds q ts' xs" by (rule rr_holds_frame)
next
  fix block q ts assume "the (create scheduler_round_robin_algorithm) block = Some q"
  then show "rr_holds q ts []" by (auto simp: rr_table rr_create_def rr_holds_def split: if_splits)
next
  fix q ts xs and t :: tid assume "rr_holds q ts xs" "t \<notin> set xs"
  from rr_enqueue_holds [OF this] obtain q' ts' where
      "rr_enqueue (Some q) (Some t) ts = (Some q', ts')" "rr_holds q' ts' (xs @ [t])"
      "links_only (insert t (set xs)) ts ts'" by blast
  moreover have "mset (xs @ [t]) = add_mset t (mset xs)" by simp
  ultimately show "\<exists>q' ts' ys. the (enqueue scheduler_round_robin_algorithm) (Some q) (Some t) ts = (Some q', ts') \<and>
      rr_holds q' ts' ys \<and> mset ys = add_mset t (mset xs) \<and> links_only (insert t (set xs)) ts ts'"
    by (metis rr_table scheduler_algorithm.select_convs(4) option.sel)
next
  fix q ts xs and t :: tid assume h: "rr_holds q ts xs" and "t \<in> set xs"
  then obtain as bs where xs: "xs = as @ t # bs" by (meson split_list)
  from rr_dequeue_holds [OF h [unfolded xs]] obtain q' ts' where
      "rr_dequeue (Some q) (Some t) ts = (Some q', ts')" "rr_holds q' ts' (as @ bs)" "links_only (set xs) ts ts'"
    unfolding xs by blast
  moreover have "mset (as @ bs) = mset xs - {#t#}" by (simp add: xs)
  ultimately show "\<exists>q' ts' ys. the (dequeue scheduler_round_robin_algorithm) (Some q) (Some t) ts = (Some q', ts') \<and>
      rr_holds q' ts' ys \<and> mset ys = mset xs - {#t#} \<and> links_only (set xs) ts ts'"
    by (metis rr_table scheduler_algorithm.select_convs(5) option.sel)
next
  fix q ts assume "rr_holds q ts []"
  then show "\<exists>q'. the (pick_next scheduler_round_robin_algorithm) (Some q) ts = (None, Some q', ts) \<and> rr_holds q' ts []"
    by (auto simp: rr_table rr_pick_next_def rr_holds_def)
next
  fix q ts and xs :: "tid list" assume h: "rr_holds q ts xs" and "xs \<noteq> []"
  then obtain x ys where xs: "xs = x # ys" by (cases xs) auto
  from rr_pick_holds [OF h [unfolded xs]] show "\<exists>q' ts' ys t. the (pick_next scheduler_round_robin_algorithm) (Some q) ts = (Some t, Some q', ts') \<and>
      t \<in> set xs \<and> rr_holds q' ts' ys \<and> mset ys = mset xs - {#t#} \<and> links_only (set xs) ts ts'"
    by (auto simp: rr_table xs intro!: exI [of _ ys])
next
  fix f q ts xs t assume "on_switch_in scheduler_round_robin_algorithm = Some f" "rr_holds q ts xs"
  then show "\<exists>q'. f (Some q) (Some t) = Some q' \<and> rr_holds q' ts xs"
    by (auto simp: rr_table rr_on_switch_in_def)
next
  fix g q ts xs t assume "tick scheduler_round_robin_algorithm = Some g" "rr_holds q ts xs"
  then show "\<exists>b q'. g (Some q) (Some t) = (b, Some q') \<and> rr_holds q' ts xs"
    by (auto simp: rr_table rr_tick_def Let_def)
next
  fix q ts xs and t :: tid and q' ts' assume "rr_holds q ts xs" "t \<notin> set xs"
    "the (enqueue scheduler_round_robin_algorithm) (Some q) (Some t) ts = (Some q', ts')"
  then show "rr_holds q' ts' (xs @ [t])" using rr_enqueue_holds [of q ts xs t] by (auto simp: rr_table)
next
  fix q ts x xs and t :: tid and q' ts' assume "rr_holds q ts (x # xs)"
    "the (pick_next scheduler_round_robin_algorithm) (Some q) ts = (Some t, Some q', ts')"
  then show "t = x \<and> rr_holds q' ts' xs" using rr_pick_holds [of q ts x xs] by (auto simp: rr_table)
qed

section \<open>Order of service\<close>

text \<open>\<open>n\<close> turns of a queue whose tasks yield right after being picked.\<close>

fun serve :: "'q scheduler_algorithm \<Rightarrow> nat \<Rightarrow> 'q option \<Rightarrow> task_memory \<Rightarrow> tid option list \<times> 'q option \<times> task_memory" where
  "serve alg 0 q ts = ([], q, ts)"
| "serve alg (Suc n) q ts =
     (let (t, q, ts) = the (pick_next alg) q ts;
          (q, ts) = the (enqueue alg) q t ts;
          (us, q, ts) = serve alg n q ts
      in (t # us, q, ts))"

context fifo_run_queue
begin

lemma pick_first:
  assumes "holds q ts (x # xs)"
  shows "\<exists>q' ts'. the (pick_next alg) (Some q) ts = (Some x, Some q', ts') \<and> holds q' ts' xs \<and> links_only (set (x # xs)) ts ts'"
  using picked [OF assms] picked_first [OF assms] by blast

lemma enqueue_last:
  assumes "holds q ts xs" "t \<notin> set xs"
  shows "\<exists>q' ts'. the (enqueue alg) (Some q) (Some t) ts = (Some q', ts') \<and> holds q' ts' (xs @ [t]) \<and> links_only (insert t (set xs)) ts ts'"
  using enqueued [OF assms] enqueued_last [OF assms] by blast

lemma serve_rotates:
  "holds q ts xs \<Longrightarrow> xs \<noteq> [] \<Longrightarrow>
    \<exists>q' ts'. serve alg n (Some q) ts = (map (\<lambda>i. Some (xs ! (i mod length xs))) [0..<n], Some q', ts') \<and>
      holds q' ts' (rotate n xs)"
proof (induction n arbitrary: q ts xs)
  case (Suc n)
  obtain x ys where xs: "xs = x # ys" using Suc.prems(2) by (cases xs) auto
  obtain q1 ts1 where p: "the (pick_next alg) (Some q) ts = (Some x, Some q1, ts1)" "holds q1 ts1 ys"
    using pick_first Suc.prems(1) xs by blast
  have "x \<notin> set ys" using members_distinct [OF Suc.prems(1)] xs by simp
  then obtain q2 ts2 where e: "the (enqueue alg) (Some q1) (Some x) ts1 = (Some q2, ts2)" "holds q2 ts2 (ys @ [x])"
    using enqueue_last [OF p(2)] by blast
  obtain q3 ts3 where r: "serve alg n (Some q2) ts2 =
      (map (\<lambda>i. Some ((ys @ [x]) ! (i mod length (ys @ [x])))) [0..<n], Some q3, ts3)"
      "holds q3 ts3 (rotate n (ys @ [x]))"
    using Suc.IH [OF e(2)] by auto
  have "(ys @ [x]) ! (i mod length (ys @ [x])) = xs ! (Suc i mod length xs)" for i
    using nth_rotate1 [of "i mod length xs" xs] by (simp add: xs mod_Suc_eq)
  then have "serve alg (Suc n) (Some q) ts = (map (\<lambda>i. Some (xs ! (i mod length xs))) [0..<Suc n], Some q3, ts3)"
    using p(1) e(1) r(1) by (simp add: upt_conv_Cons map_Suc_upt [symmetric] xs comp_def del: upt_Suc)
  moreover have "rotate n (ys @ [x]) = rotate (Suc n) xs"
    by (simp add: xs rotate1_rotate_swap)
  ultimately show ?case using r(2) by auto
qed simp

end

text \<open>The answers of \<open>n\<close> consecutive timer ticks.\<close>

fun rr_ticks :: "nat \<Rightarrow> round_robin_state option \<Rightarrow> bool list" where
  "rr_ticks 0 q = []"
| "rr_ticks (Suc n) q = (let (b, q) = rr_tick q None in b # rr_ticks n q)"

lemma rr_ticks_quantum:
  assumes "0 < unat (quantum_ticks q)"
  shows "unat (elapsed_ticks q) < unat (quantum_ticks q) \<Longrightarrow>
    rr_ticks n (Some q) = map (\<lambda>i. (unat (elapsed_ticks q) + Suc i) mod unat (quantum_ticks q) = 0) [0..<n]"
  using assms
proof (induction n arbitrary: q)
  case (Suc n)
  let ?e = "unat (elapsed_ticks q)" and ?m = "unat (quantum_ticks q)"
  have inc: "unat (elapsed_ticks q + 1) = Suc ?e" using Suc.prems(1) by (rule unat_inc_u32)
  have ups: "map f [0..<Suc n] = f 0 # map (\<lambda>i. f (Suc i)) [0..<n]" for f :: "nat \<Rightarrow> bool"
    by (simp add: upt_conv_Cons map_Suc_upt [symmetric] comp_def del: upt_Suc)
  show ?case
  proof (cases "Suc ?e = ?m")
    case True
    then have "rr_tick (Some q) None = (True, Some (q\<lparr>elapsed_ticks := 0\<rparr>))"
      using inc by (simp add: rr_tick_def word_le_nat_alt)
    moreover have "(?e + Suc (Suc i)) mod ?m = Suc i mod ?m" for i
      using True by (metis add_Suc_right add_Suc_shift mod_add_self1)
    ultimately show ?thesis
      using Suc.IH [of "q\<lparr>elapsed_ticks := 0\<rparr>"] Suc.prems True unfolding ups by simp
  next
    case False
    then have less: "Suc ?e < ?m" using Suc.prems(1) by simp
    then have "rr_tick (Some q) None = (False, Some (q\<lparr>elapsed_ticks := elapsed_ticks q + 1\<rparr>))"
      using inc by (simp add: rr_tick_def word_le_nat_alt)
    then show ?thesis
      using Suc.IH [of "q\<lparr>elapsed_ticks := elapsed_ticks q + 1\<rparr>"] Suc.prems less inc unfolding ups by simp
  qed
qed simp

section \<open>Properties\<close>

text \<open>Round robin is fair: with \<open>k\<close> tasks queued, turn \<open>i\<close> goes to the task at position
  \<open>i mod k\<close> of the queue when every task re-enters the queue after its turn, and after \<open>n\<close> turns the
  queue is the initial one rotated by \<open>n\<close>.\<close>

theorem rr_rotation:
  assumes "rr_holds q ts xs" and "xs \<noteq> []"
  shows "\<exists>q' ts'. serve scheduler_round_robin_algorithm n (Some q) ts =
      (map (\<lambda>i. Some (xs ! (i mod length xs))) [0..<n], Some q', ts') \<and> rr_holds q' ts' (rotate n xs)"
  using assms by (rule rr.serve_rotates)

definition blank_task :: task where
  "blank_task = \<lparr>task_id = 0, state = TASK_NEW, policy = SCHED_POLICY_NORMAL, stack_pointer = 0, stack_base = 0x10000,
     stack_size = 0x10000, address_space = Some 0, process = None, runtime_ticks = 0, entry = None, argument = None, sched_previous = None, sched_next = None,
     wait_previous = None, wait_next = None, sleep_previous = None, sleep_next = None, wake_tick = 0,
     waiting_on = None, cleanup_next = None\<rparr>"

theorem rr_rotation_witness:
  "fst (serve scheduler_round_robin_algorithm 5
      (Some \<lparr>head = Some 7, tail = Some 9, quantum_ticks = 5, elapsed_ticks = 0\<rparr>)
      ((\<lambda>_. blank_task)(7 := blank_task\<lparr>sched_next := Some 8\<rparr>,
         8 := blank_task\<lparr>sched_previous := Some 7, sched_next := Some 9\<rparr>,
         9 := blank_task\<lparr>sched_previous := Some 8\<rparr>))) = [Some 7, Some 8, Some 9, Some 7, Some 8]"
proof -
  let ?q = "\<lparr>head = Some 7, tail = Some 9, quantum_ticks = 5, elapsed_ticks = 0\<rparr> :: round_robin_state"
  let ?ts = "(\<lambda>_. blank_task)(7 := blank_task\<lparr>sched_next := Some 8\<rparr>,
         8 := blank_task\<lparr>sched_previous := Some 7, sched_next := Some 9\<rparr>,
         9 := blank_task\<lparr>sched_previous := Some 8\<rparr>)"
  have "rr_holds ?q ?ts [7, 8, 9]" by (simp add: rr_holds_def dll_def blank_task_def)
  from rr_rotation [OF this, of 5] show ?thesis by (auto simp: upt_rec)
qed

text \<open>The time slice is exact: counted from a switch-in, tick number \<open>i + 1\<close> asks for a
  reschedule exactly when it completes a multiple of the quantum, for every quantum above 0.\<close>

theorem rr_quantum_exact:
  assumes "0 < unat (quantum_ticks q)"
  shows "rr_ticks n (rr_on_switch_in (Some q) t) = map (\<lambda>i. (Suc i) mod unat (quantum_ticks q) = 0) [0..<n]"
  using rr_ticks_quantum [of "q\<lparr>elapsed_ticks := 0\<rparr>" n] assms by (simp add: rr_on_switch_in_def)

theorem rr_quantum_exact_witness:
  "rr_ticks 10 (rr_on_switch_in (rr_create 0xD0000020) None) =
     [False, False, False, False, True, False, False, False, False, True]"
  using rr_quantum_exact [of "the (rr_create 0xD0000020)" 10 None]
  by (simp add: rr_create_def machine_consts upt_rec)

end
