(* ===== verification/Scheduler.thy ===== *)
theory Scheduler
  imports RunQueue
begin

text \<open>
  The scheduler core, \<open>kernel/scheduler/scheduler.c\<close>, as far as it does not switch contexts: the policy
  slots, making tasks ready, waking, removing and re-banding them, picking the next one, the timer
  tick; with \<open>kernel/multitasking/cpu.c\<close> and the state record of the whole tasking subsystem.
  A section under \<open>scheduler_lock\<close> with interrupts off is one atomic step; the argument \<open>c\<close> of an
  operation is the processor that executes it. Log output is not modelled.
\<close>

section \<open>State\<close>

record 'q policy_slot =
  algorithm :: "'q scheduler_algorithm option"
  algorithm_state :: "'q option"

text \<open>
  A wait queue is identified by the address of the object that embeds it, a mutex or a semaphore by
  its own address; distinct objects have distinct addresses.
\<close>

record wait_queue =
  wq_head :: "tid option"
  wq_tail :: "tid option"
  wq_count :: u32

record mutex_obj =
  locked :: bool
  owner :: "tid option"

record 'q kernel =
  tasks :: task_memory
  policy_slots :: "sched_policy \<Rightarrow> 'q policy_slot"
  scheduler_initialized :: bool
  released_states :: "'q list"
  cpu_count :: nat
  cpus :: "cpu_id \<Rightarrow> cpu_local"
  hw :: "cpu_id \<Rightarrow> hw_cpu"
  saved_eflags :: "tid \<Rightarrow> u32"
  lapic_present :: bool
  ipi_pending :: "cpu_id \<Rightarrow> bool"
  kernel_directory_physical :: u32
  address_space_initialized :: bool
  address_spaces :: "nat \<Rightarrow> address_space_obj"
  destroyed_directories :: "u32 list"
  kfree_log :: "nat list"
  wait_queues :: "nat \<Rightarrow> wait_queue"
  semaphore_count :: "nat \<Rightarrow> u32"
  mutexes :: "nat \<Rightarrow> mutex_obj"
  sleep_head :: "tid option"
  sleep_tail :: "tid option"
  system_ticks :: u64
  system_timer_frequency :: u32
  cleanup_head :: "tid option"
  cleanup_tail :: "tid option"
  cleanup_pending :: u32
  cleanup_total_reaped :: u64
  next_task_id :: u32
  live_task_count :: u32
  reaper_task :: "tid option"

definition cpu_get :: "nat \<Rightarrow> 'q kernel \<Rightarrow> cpu_local option" where
  "cpu_get index s = (if index \<ge> cpu_count s then None else Some (cpus s index))"

text \<open>\<open>cpu_current\<close> finds the record whose APIC id is the executing processor's; the ids are unique.\<close>

definition cpu_current :: "cpu_id \<Rightarrow> 'q kernel \<Rightarrow> cpu_local option" where
  "cpu_current c s = (if c < cpu_count s then Some (cpus s c) else None)"

definition set_cpu :: "cpu_id \<Rightarrow> (cpu_local \<Rightarrow> cpu_local) \<Rightarrow> 'q kernel \<Rightarrow> 'q kernel" where
  "set_cpu c f s = s\<lparr>cpus := (cpus s)(c := f (cpus s c))\<rparr>"

definition set_task :: "tid \<Rightarrow> (task \<Rightarrow> task) \<Rightarrow> 'q kernel \<Rightarrow> 'q kernel" where
  "set_task t f s = s\<lparr>tasks := upd_task t f (tasks s)\<rparr>"

definition set_hw :: "cpu_id \<Rightarrow> (hw_cpu \<Rightarrow> hw_cpu) \<Rightarrow> 'q kernel \<Rightarrow> 'q kernel" where
  "set_hw c f s = s\<lparr>hw := (hw s)(c := f (hw s c))\<rparr>"

definition task_current :: "cpu_id \<Rightarrow> 'q kernel \<Rightarrow> tid option" where
  "task_current c s = (case cpu_current c s of None \<Rightarrow> None | Some cpu \<Rightarrow> current_task cpu)"

definition task_internal_set_current :: "cpu_id \<Rightarrow> tid option \<Rightarrow> 'q kernel \<Rightarrow> 'q kernel" where
  "task_internal_set_current c t s =
     (case cpu_current c s of None \<Rightarrow> s | Some cpu \<Rightarrow> set_cpu c (current_task_update (\<lambda>_. t)) s)"

section \<open>Interrupt flags and locks\<close>

definition interrupt_save_disable :: "cpu_id \<Rightarrow> 'q kernel \<Rightarrow> u32 \<times> 'q kernel" where
  "interrupt_save_disable c s = (eflags (hw s c), set_hw c (eflags_update (\<lambda>f. f AND NOT IF_FLAG)) s)"

definition interrupt_restore :: "cpu_id \<Rightarrow> u32 \<Rightarrow> 'q kernel \<Rightarrow> 'q kernel" where
  "interrupt_restore c flags s =
     (if flags AND IF_FLAG \<noteq> 0 then set_hw c (eflags_update (\<lambda>f. f OR IF_FLAG)) s
      else set_hw c (eflags_update (\<lambda>f. f AND NOT IF_FLAG)) s)"

text \<open>The spinning itself is not modelled: in an atomic step the lock is free.\<close>

definition spin_lock_irqsave :: "cpu_id \<Rightarrow> 'q kernel \<Rightarrow> u32 \<times> 'q kernel" where
  "spin_lock_irqsave c s = interrupt_save_disable c s"

definition spin_unlock_irqrestore :: "cpu_id \<Rightarrow> u32 \<Rightarrow> 'q kernel \<Rightarrow> 'q kernel" where
  "spin_unlock_irqrestore c flags s = interrupt_restore c flags s"

section \<open>Inter-processor interrupts and accounting\<close>

definition smp_online_cpu_count :: "'q kernel \<Rightarrow> nat" where
  "smp_online_cpu_count s = length (filter (\<lambda>i. online (cpus s i)) [0..<cpu_count s])"

text \<open>The interrupt command register is taken to become idle before its timeout.\<close>

definition smp_request_reschedule :: "cpu_id \<Rightarrow> 'q kernel \<Rightarrow> 'q kernel" where
  "smp_request_reschedule c s =
     (if \<not> lapic_present s \<or> smp_online_cpu_count s < 2 then s
      else s\<lparr>ipi_pending := (\<lambda>i. ipi_pending s i \<or> (i < cpu_count s \<and>
             \<not> (\<not> online (cpus s i) \<or> (c < cpu_count s \<and> apic_id (cpus s i) = apic_id (cpus s c)))))\<rparr>)"

definition lapic_reschedule_handler :: "cpu_id \<Rightarrow> 'q kernel \<Rightarrow> 'q kernel" where
  "lapic_reschedule_handler c s =
     (let s = s\<lparr>ipi_pending := (ipi_pending s)(c := False)\<rparr>
      in case cpu_current c s of None \<Rightarrow> s | Some cpu \<Rightarrow> set_cpu c (reschedule_pending_update (\<lambda>_. True)) s)"

definition cpu_account_scheduler_tick :: "cpu_id \<Rightarrow> bool \<Rightarrow> 'q kernel \<Rightarrow> 'q kernel" where
  "cpu_account_scheduler_tick c idle s =
     (case cpu_current c s of
        None \<Rightarrow> s
      | Some cpu \<Rightarrow>
          let s = set_cpu c (scheduler_ticks_update (\<lambda>n. n + 1)) s
          in if idle then set_cpu c (idle_ticks_update (\<lambda>n. n + 1)) s else s)"

definition cpu_utilization_percent :: "nat \<Rightarrow> 'q kernel \<Rightarrow> u32" where
  "cpu_utilization_percent index s =
     (case cpu_get index s of
        None \<Rightarrow> 0
      | Some cpu \<Rightarrow>
          if scheduler_ticks cpu = 0 then 0
          else
            let total = scheduler_ticks cpu;
                idle = idle_ticks cpu;
                idle = (if idle > total then total else idle)
            in ((total - idle) * 100) div total)"

definition cpu_average_utilization_percent :: "'q kernel \<Rightarrow> u32" where
  "cpu_average_utilization_percent s =
     (let (online_count, total) = fold (\<lambda>i (online_count, total).
              case cpu_get i s of
                None \<Rightarrow> (online_count, total)
              | Some cpu \<Rightarrow>
                  if \<not> online cpu then (online_count, total)
                  else (online_count + 1, total + cpu_utilization_percent i s))
            [0..<cpu_count s] (0 :: u32, 0)
      in if online_count = 0 then 0 else total div online_count)"

section \<open>Policy slots\<close>

definition policy_order :: "sched_policy list" where
  "policy_order =
     [SCHED_POLICY_REALTIME, SCHED_POLICY_INTERACTIVE, SCHED_POLICY_NORMAL, SCHED_POLICY_BACKGROUND]"

definition policy_valid :: "sched_policy \<Rightarrow> bool" where
  "policy_valid p \<longleftrightarrow> policy_index p \<ge> 0 \<and> policy_index p < policy_index SCHED_POLICY_COUNT"

definition get_slot :: "sched_policy \<Rightarrow> 'q kernel \<Rightarrow> 'q policy_slot option" where
  "get_slot p s = (if \<not> policy_valid p then None else Some (policy_slots s p))"

text \<open>The algorithm behind a slot: \<open>None\<close> is \<open>slot == NULL || slot->algorithm == NULL\<close>.\<close>

definition slot_algorithm :: "sched_policy \<Rightarrow> 'q kernel \<Rightarrow> 'q scheduler_algorithm option" where
  "slot_algorithm p s = (case get_slot p s of None \<Rightarrow> None | Some slot \<Rightarrow> algorithm slot)"

definition set_slot_state :: "sched_policy \<Rightarrow> 'q option \<Rightarrow> 'q kernel \<Rightarrow> 'q kernel" where
  "set_slot_state p q s = s\<lparr>policy_slots := (policy_slots s)(p := (policy_slots s p)\<lparr>algorithm_state := q\<rparr>)\<rparr>"

definition call_enqueue :: "'q scheduler_algorithm \<Rightarrow> sched_policy \<Rightarrow> tid \<Rightarrow> 'q kernel \<Rightarrow> 'q kernel" where
  "call_enqueue a p t s =
     (let (q, ts) = the (enqueue a) (algorithm_state (policy_slots s p)) (Some t) (tasks s)
      in set_slot_state p q (s\<lparr>tasks := ts\<rparr>))"

definition call_dequeue :: "'q scheduler_algorithm \<Rightarrow> sched_policy \<Rightarrow> tid \<Rightarrow> 'q kernel \<Rightarrow> 'q kernel" where
  "call_dequeue a p t s =
     (let (q, ts) = the (dequeue a) (algorithm_state (policy_slots s p)) (Some t) (tasks s)
      in set_slot_state p q (s\<lparr>tasks := ts\<rparr>))"

definition call_pick_next :: "'q scheduler_algorithm \<Rightarrow> sched_policy \<Rightarrow> 'q kernel \<Rightarrow> tid option \<times> 'q kernel" where
  "call_pick_next a p s =
     (let (t, q, ts) = the (pick_next a) (algorithm_state (policy_slots s p)) (tasks s)
      in (t, set_slot_state p q (s\<lparr>tasks := ts\<rparr>)))"

text \<open>\<open>block\<close> is the address the new algorithm's \<open>kmalloc\<close> returns.\<close>

definition scheduler_bind_algorithm ::
  "sched_policy \<Rightarrow> 'q scheduler_algorithm option \<Rightarrow> u32 \<Rightarrow> 'q kernel \<Rightarrow> bool \<times> 'q kernel" where
  "scheduler_bind_algorithm p alg block s =
     (if \<not> scheduler_initialized s then (False, s)
      else if \<not> policy_valid p then (False, s)
      else case alg of
        None \<Rightarrow> (False, s)
      | Some a \<Rightarrow>
          if create a = None \<or> enqueue a = None \<or> dequeue a = None \<or> pick_next a = None then (False, s)
          else
            let slot = policy_slots s p;
                s = (case algorithm slot of
                       None \<Rightarrow> s
                     | Some old \<Rightarrow>
                         let s = (case (destroy old, algorithm_state slot) of
                               (Some d, Some q) \<Rightarrow>
                                 if d (Some q) then s\<lparr>released_states := q # released_states s\<rparr> else s
                             | _ \<Rightarrow> s)
                         in s\<lparr>policy_slots := (policy_slots s)(p := \<lparr>algorithm = None, algorithm_state = None\<rparr>)\<rparr>)
            in case the (create a) block of
                 None \<Rightarrow> (False, s)
               | Some q \<Rightarrow>
                   (True, s\<lparr>policy_slots := (policy_slots s)(p := \<lparr>algorithm = Some a, algorithm_state = Some q\<rparr>)\<rparr>))"

text \<open>\<open>block i\<close> is the address of the state block for band \<open>i\<close>.\<close>

definition scheduler_initialize :: "(nat \<Rightarrow> u32) \<Rightarrow> round_robin_state kernel \<Rightarrow> round_robin_state kernel" where
  "scheduler_initialize block s =
     (let s = s\<lparr>policy_slots := (\<lambda>p. if policy_index p < policy_index SCHED_POLICY_COUNT
                                 then \<lparr>algorithm = None, algorithm_state = None\<rparr> else policy_slots s p),
               scheduler_initialized := True\<rparr>;
          s = snd (scheduler_bind_algorithm SCHED_POLICY_REALTIME (Some scheduler_round_robin_algorithm) (block 0) s);
          s = snd (scheduler_bind_algorithm SCHED_POLICY_INTERACTIVE (Some scheduler_round_robin_algorithm) (block 1) s);
          s = snd (scheduler_bind_algorithm SCHED_POLICY_NORMAL (Some scheduler_round_robin_algorithm) (block 2) s)
      in snd (scheduler_bind_algorithm SCHED_POLICY_BACKGROUND (Some scheduler_round_robin_algorithm) (block 3) s))"

section \<open>Runnable tasks\<close>

text \<open>Mark READY, clear the links and enqueue: the three assignments and the call that make ready, wake,
  the policy change and the scheduler itself share.\<close>

definition ready_and_enqueue :: "'q scheduler_algorithm \<Rightarrow> sched_policy \<Rightarrow> tid \<Rightarrow> 'q kernel \<Rightarrow> 'q kernel" where
  "ready_and_enqueue a p t s =
     (let s = set_task t (state_update (\<lambda>_. TASK_READY)) s;
          s = set_task t (sched_previous_update (\<lambda>_. None)) s;
          s = set_task t (sched_next_update (\<lambda>_. None)) s
      in call_enqueue a p t s)"

definition scheduler_make_ready :: "cpu_id \<Rightarrow> tid option \<Rightarrow> 'q kernel \<Rightarrow> 'q kernel" where
  "scheduler_make_ready c task s =
     (case task of
        None \<Rightarrow> s
      | Some t \<Rightarrow>
          let (flags, s) = spin_lock_irqsave c s;
              p = policy (tasks s t)
          in if \<not> policy_valid p then spin_unlock_irqrestore c flags s
             else if state (tasks s t) = TASK_READY then spin_unlock_irqrestore c flags s
             else case slot_algorithm p s of
               None \<Rightarrow> spin_unlock_irqrestore c flags s
             | Some a \<Rightarrow>
                 let s = ready_and_enqueue a p t s;
                     s = spin_unlock_irqrestore c flags s
                 in smp_request_reschedule c s)"

definition scheduler_remove :: "cpu_id \<Rightarrow> tid option \<Rightarrow> 'q kernel \<Rightarrow> 'q kernel" where
  "scheduler_remove c task s =
     (case task of
        None \<Rightarrow> s
      | Some t \<Rightarrow>
          let (flags, s) = spin_lock_irqsave c s;
              p = policy (tasks s t)
          in if state (tasks s t) \<noteq> TASK_READY then spin_unlock_irqrestore c flags s
             else case slot_algorithm p s of
               None \<Rightarrow> spin_unlock_irqrestore c flags s
             | Some a \<Rightarrow>
                 let s = call_dequeue a p t s;
                     s = set_task t (state_update (\<lambda>_. TASK_NEW)) s
                 in spin_unlock_irqrestore c flags s)"

definition scheduler_idle_task :: "cpu_id \<Rightarrow> 'q kernel \<Rightarrow> tid option" where
  "scheduler_idle_task c s = (case cpu_current c s of None \<Rightarrow> None | Some cpu \<Rightarrow> idle_task cpu)"

fun pick_next_loop :: "sched_policy list \<Rightarrow> 'q kernel \<Rightarrow> tid option \<times> 'q kernel" where
  "pick_next_loop [] s = (None, s)"
| "pick_next_loop (p # ps) s =
     (case slot_algorithm p s of
        None \<Rightarrow> pick_next_loop ps s
      | Some a \<Rightarrow>
          (case call_pick_next a p s of
             (Some t, s) \<Rightarrow> (Some t, s)
           | (None, s) \<Rightarrow> pick_next_loop ps s))"

definition scheduler_pick_next :: "cpu_id \<Rightarrow> 'q kernel \<Rightarrow> tid option \<times> 'q kernel" where
  "scheduler_pick_next c s =
     (case pick_next_loop policy_order s of
        (Some t, s) \<Rightarrow> (Some t, s)
      | (None, s) \<Rightarrow> (scheduler_idle_task c s, s))"

definition scheduler_notify_switch_in :: "cpu_id \<Rightarrow> tid option \<Rightarrow> 'q kernel \<Rightarrow> 'q kernel" where
  "scheduler_notify_switch_in c task s =
     (case task of
        None \<Rightarrow> s
      | Some t \<Rightarrow>
          if task = scheduler_idle_task c s then s
          else case slot_algorithm (policy (tasks s t)) s of
            None \<Rightarrow> s
          | Some a \<Rightarrow>
              (case on_switch_in a of
                 None \<Rightarrow> s
               | Some f \<Rightarrow>
                   let p = policy (tasks s t)
                   in set_slot_state p (f (algorithm_state (policy_slots s p)) (Some t)) s))"

definition request_local_reschedule :: "cpu_id \<Rightarrow> 'q kernel \<Rightarrow> 'q kernel" where
  "request_local_reschedule c s =
     (case cpu_current c s of None \<Rightarrow> s | Some cpu \<Rightarrow> set_cpu c (reschedule_pending_update (\<lambda>_. True)) s)"

definition scheduler_wake :: "cpu_id \<Rightarrow> tid option \<Rightarrow> 'q kernel \<Rightarrow> 'q kernel" where
  "scheduler_wake c task s =
     (case task of
        None \<Rightarrow> s
      | Some t \<Rightarrow>
          let (flags, s) = spin_lock_irqsave c s;
              p = policy (tasks s t)
          in if state (tasks s t) \<noteq> TASK_BLOCKED \<and> state (tasks s t) \<noteq> TASK_SLEEPING
             then spin_unlock_irqrestore c flags s
             else case slot_algorithm p s of
               None \<Rightarrow> spin_unlock_irqrestore c flags s
             | Some a \<Rightarrow>
                 let s = ready_and_enqueue a p t s;
                     s = spin_unlock_irqrestore c flags s;
                     s = request_local_reschedule c s
                 in smp_request_reschedule c s)"

definition scheduler_set_policy :: "cpu_id \<Rightarrow> tid option \<Rightarrow> sched_policy \<Rightarrow> 'q kernel \<Rightarrow> bool \<times> 'q kernel" where
  "scheduler_set_policy c task new_policy s =
     (case task of
        None \<Rightarrow> (False, s)
      | Some t \<Rightarrow>
          if \<not> policy_valid new_policy then (False, s)
          else
            let (flags, s) = spin_lock_irqsave c s
            in if policy (tasks s t) = new_policy then (True, spin_unlock_irqrestore c flags s)
               else case slot_algorithm new_policy s of
                 None \<Rightarrow> (False, spin_unlock_irqrestore c flags s)
               | Some new_alg \<Rightarrow>
                   if state (tasks s t) = TASK_READY then
                     (case slot_algorithm (policy (tasks s t)) s of
                        None \<Rightarrow> (False, spin_unlock_irqrestore c flags s)
                      | Some old_alg \<Rightarrow>
                          let s = call_dequeue old_alg (policy (tasks s t)) t s;
                              s = set_task t (state_update (\<lambda>_. TASK_NEW)) s;
                              s = set_task t (sched_previous_update (\<lambda>_. None)) s;
                              s = set_task t (sched_next_update (\<lambda>_. None)) s;
                              s = set_task t (policy_update (\<lambda>_. new_policy)) s;
                              s = ready_and_enqueue new_alg new_policy t s;
                              s = spin_unlock_irqrestore c flags s
                          in (True, request_local_reschedule c s))
                   else
                     let s = set_task t (policy_update (\<lambda>_. new_policy)) s;
                         s = spin_unlock_irqrestore c flags s
                     in (True, request_local_reschedule c s))"

definition scheduler_tick :: "cpu_id \<Rightarrow> 'q kernel \<Rightarrow> 'q kernel" where
  "scheduler_tick c s =
     (case task_current c s of
        None \<Rightarrow> s
      | Some t \<Rightarrow>
          let is_idle = (cpu_current c s \<noteq> None \<and> Some t = scheduler_idle_task c s);
              s = cpu_account_scheduler_tick c is_idle s
          in if is_idle then s
             else
               let (flags, s) = spin_lock_irqsave c s
               in if state (tasks s t) \<noteq> TASK_RUNNING then spin_unlock_irqrestore c flags s
                  else
                    let s = set_task t (runtime_ticks_update (\<lambda>n. n + 1)) s;
                        p = policy (tasks s t);
                        (request_reschedule, s) =
                          (case slot_algorithm p s of
                             None \<Rightarrow> (False, s)
                           | Some a \<Rightarrow>
                               (case tick a of
                                  None \<Rightarrow> (False, s)
                                | Some g \<Rightarrow>
                                    let (b, q) = g (algorithm_state (policy_slots s p)) (Some t)
                                    in (b, set_slot_state p q s)));
                        s = spin_unlock_irqrestore c flags s
                    in if request_reschedule then request_local_reschedule c s else s)"

section \<open>Preemption requests\<close>

definition scheduler_preemption_pending :: "cpu_id \<Rightarrow> 'q kernel \<Rightarrow> bool" where
  "scheduler_preemption_pending c s =
     (case cpu_current c s of None \<Rightarrow> False | Some cpu \<Rightarrow> reschedule_pending cpu)"

definition scheduler_enable_preemption :: "cpu_id \<Rightarrow> 'q kernel \<Rightarrow> 'q kernel" where
  "scheduler_enable_preemption c s =
     (case cpu_current c s of None \<Rightarrow> s | Some cpu \<Rightarrow> set_cpu c (preemption_enabled_update (\<lambda>_. True)) s)"

definition scheduler_disable_preemption :: "cpu_id \<Rightarrow> 'q kernel \<Rightarrow> 'q kernel" where
  "scheduler_disable_preemption c s =
     (case cpu_current c s of None \<Rightarrow> s | Some cpu \<Rightarrow> set_cpu c (preemption_enabled_update (\<lambda>_. False)) s)"

definition scheduler_preemption_enabled :: "cpu_id \<Rightarrow> 'q kernel \<Rightarrow> bool" where
  "scheduler_preemption_enabled c s =
     (case cpu_current c s of None \<Rightarrow> False | Some cpu \<Rightarrow> preemption_enabled cpu)"

definition scheduler_set_idle_task :: "cpu_id \<Rightarrow> tid option \<Rightarrow> 'q kernel \<Rightarrow> 'q kernel" where
  "scheduler_set_idle_task c t s =
     (case cpu_current c s of None \<Rightarrow> s | Some cpu \<Rightarrow> set_cpu c (idle_task_update (\<lambda>_. t)) s)"

end
