(* ===== verification/WaitQueue.thy ===== *)
theory WaitQueue
  imports Scheduler
begin

text \<open>
  Wait queues and the non-blocking operations of the objects built on them:
  \<open>kernel/task/wait_queue.c\<close>, \<open>kernel/task/semaphore.c\<close> and \<open>kernel/task/mutex.c\<close>. A queue pointer is
  \<open>nat option\<close>; the queue's own lock makes each section an atomic step. The blocking operations are in
  the theory of the context switch.
\<close>

section \<open>Queue operations\<close>

definition set_wq :: "nat \<Rightarrow> (wait_queue \<Rightarrow> wait_queue) \<Rightarrow> 'q kernel \<Rightarrow> 'q kernel" where
  "set_wq q f s = s\<lparr>wait_queues := (wait_queues s)(q := f (wait_queues s q))\<rparr>"

definition wait_queue_initialize :: "nat option \<Rightarrow> 'q kernel \<Rightarrow> 'q kernel" where
  "wait_queue_initialize queue s =
     (case queue of
        None \<Rightarrow> s
      | Some q \<Rightarrow> set_wq q (\<lambda>_. \<lparr>wq_head = None, wq_tail = None, wq_count = 0\<rparr>) s)"

definition wait_queue_push_back :: "nat \<Rightarrow> tid \<Rightarrow> 'q kernel \<Rightarrow> 'q kernel" where
  "wait_queue_push_back q t s =
     (let s = set_task t (wait_previous_update (\<lambda>_. wq_tail (wait_queues s q))) s;
          s = set_task t (wait_next_update (\<lambda>_. None)) s;
          s = (case wq_tail (wait_queues s q) of
                 Some u \<Rightarrow> set_task u (wait_next_update (\<lambda>_. Some t)) s
               | None \<Rightarrow> set_wq q (wq_head_update (\<lambda>_. Some t)) s);
          s = set_wq q (wq_tail_update (\<lambda>_. Some t)) s
      in set_wq q (wq_count_update (\<lambda>n. n + 1)) s)"

definition wait_queue_pop_front :: "nat \<Rightarrow> 'q kernel \<Rightarrow> tid option \<times> 'q kernel" where
  "wait_queue_pop_front q s =
     (case wq_head (wait_queues s q) of
        None \<Rightarrow> (None, s)
      | Some t \<Rightarrow>
          let s = set_wq q (wq_head_update (\<lambda>_. wait_next (tasks s t))) s;
              s = (case wq_head (wait_queues s q) of
                     Some u \<Rightarrow> set_task u (wait_previous_update (\<lambda>_. None)) s
                   | None \<Rightarrow> set_wq q (wq_tail_update (\<lambda>_. None)) s);
              s = set_task t (wait_previous_update (\<lambda>_. None)) s;
              s = set_task t (wait_next_update (\<lambda>_. None)) s;
              s = set_task t (waiting_on_update (\<lambda>_. None)) s;
              s = set_wq q (wq_count_update (\<lambda>n. n - 1)) s
          in (Some t, s))"

definition wait_queue_pop_locked :: "nat option \<Rightarrow> 'q kernel \<Rightarrow> tid option \<times> 'q kernel" where
  "wait_queue_pop_locked queue s =
     (case queue of None \<Rightarrow> (None, s) | Some q \<Rightarrow> wait_queue_pop_front q s)"

text \<open>Take the oldest waiter off under the queue's lock.\<close>

definition wait_queue_take :: "cpu_id \<Rightarrow> nat \<Rightarrow> 'q kernel \<Rightarrow> tid option \<times> 'q kernel" where
  "wait_queue_take c q s =
     (let (flags, s) = spin_lock_irqsave c s;
          (task, s) = wait_queue_pop_front q s
      in (task, spin_unlock_irqrestore c flags s))"

definition wait_queue_wake_one :: "cpu_id \<Rightarrow> nat option \<Rightarrow> 'q kernel \<Rightarrow> tid option \<times> 'q kernel" where
  "wait_queue_wake_one c queue s =
     (case queue of
        None \<Rightarrow> (None, s)
      | Some q \<Rightarrow>
          let (task, s) = wait_queue_take c q s
          in (task, if task \<noteq> None then scheduler_wake c task s else s))"

text \<open>The endless loop of \<open>wait_queue_wake_all\<close>, left when the queue is empty.\<close>

partial_function (option) wake_all_loop :: "cpu_id \<Rightarrow> nat \<Rightarrow> u32 \<Rightarrow> 'q kernel \<Rightarrow> (u32 \<times> 'q kernel) option" where
  "wake_all_loop c q awakened s =
     (let (task, s) = wait_queue_take c q s
      in case task of
           None \<Rightarrow> Some (awakened, s)
         | Some t \<Rightarrow> wake_all_loop c q (awakened + 1) (scheduler_wake c task s))"

definition wait_queue_wake_all :: "cpu_id \<Rightarrow> nat option \<Rightarrow> 'q kernel \<Rightarrow> (u32 \<times> 'q kernel) option" where
  "wait_queue_wake_all c queue s =
     (case queue of None \<Rightarrow> Some (0, s) | Some q \<Rightarrow> wake_all_loop c q 0 s)"

definition wait_queue_count :: "nat option \<Rightarrow> 'q kernel \<Rightarrow> u32" where
  "wait_queue_count queue s = (case queue of None \<Rightarrow> 0 | Some q \<Rightarrow> wq_count (wait_queues s q))"

section \<open>Semaphores\<close>

definition set_sem :: "nat \<Rightarrow> u32 \<Rightarrow> 'q kernel \<Rightarrow> 'q kernel" where
  "set_sem a n s = s\<lparr>semaphore_count := (semaphore_count s)(a := n)\<rparr>"

definition semaphore_initialize :: "nat option \<Rightarrow> u32 \<Rightarrow> 'q kernel \<Rightarrow> 'q kernel" where
  "semaphore_initialize semaphore initial_count s =
     (case semaphore of
        None \<Rightarrow> s
      | Some a \<Rightarrow> wait_queue_initialize (Some a) (set_sem a initial_count s))"

definition semaphore_try_wait :: "cpu_id \<Rightarrow> nat option \<Rightarrow> 'q kernel \<Rightarrow> bool \<times> 'q kernel" where
  "semaphore_try_wait c semaphore s =
     (case semaphore of
        None \<Rightarrow> (False, s)
      | Some a \<Rightarrow>
          let (flags, s) = spin_lock_irqsave c s
          in if semaphore_count s a = 0 then (False, spin_unlock_irqrestore c flags s)
             else let s = set_sem a (semaphore_count s a - 1) s
                  in (True, spin_unlock_irqrestore c flags s))"

text \<open>\<open>semaphore_signal\<close> under the semaphore's lock; the second component is the local variable \<open>task\<close>.\<close>

definition semaphore_release :: "cpu_id \<Rightarrow> nat \<Rightarrow> 'q kernel \<Rightarrow> bool \<times> tid option \<times> 'q kernel" where
  "semaphore_release c a s =
     (let (flags, s) = spin_lock_irqsave c s
      in if semaphore_count s a = SIZE_MAX then (False, None, spin_unlock_irqrestore c flags s)
         else
           let s = set_sem a (semaphore_count s a + 1) s;
               (task, s) = wait_queue_pop_locked (Some a) s
           in (True, task, spin_unlock_irqrestore c flags s))"

definition semaphore_signal :: "cpu_id \<Rightarrow> nat option \<Rightarrow> 'q kernel \<Rightarrow> bool \<times> 'q kernel" where
  "semaphore_signal c semaphore s =
     (case semaphore of
        None \<Rightarrow> (False, s)
      | Some a \<Rightarrow>
          let (ok, task, s) = semaphore_release c a s
          in (ok, if task \<noteq> None then scheduler_wake c task s else s))"

definition semaphore_get_count :: "nat option \<Rightarrow> 'q kernel \<Rightarrow> u32" where
  "semaphore_get_count semaphore s = (case semaphore of None \<Rightarrow> 0 | Some a \<Rightarrow> semaphore_count s a)"

section \<open>Mutexes\<close>

definition set_mutex :: "nat \<Rightarrow> mutex_obj \<Rightarrow> 'q kernel \<Rightarrow> 'q kernel" where
  "set_mutex a m s = s\<lparr>mutexes := (mutexes s)(a := m)\<rparr>"

definition mutex_initialize :: "nat option \<Rightarrow> 'q kernel \<Rightarrow> 'q kernel" where
  "mutex_initialize mutex s =
     (case mutex of
        None \<Rightarrow> s
      | Some a \<Rightarrow> wait_queue_initialize (Some a) (set_mutex a \<lparr>locked = False, owner = None\<rparr> s))"

definition mutex_try_lock :: "cpu_id \<Rightarrow> nat option \<Rightarrow> 'q kernel \<Rightarrow> bool \<times> 'q kernel" where
  "mutex_try_lock c mutex s =
     (case mutex of
        None \<Rightarrow> (False, s)
      | Some a \<Rightarrow>
          (case task_current c s of
             None \<Rightarrow> (False, s)
           | Some current \<Rightarrow>
               let (flags, s) = spin_lock_irqsave c s
               in if locked (mutexes s a) then (False, spin_unlock_irqrestore c flags s)
                  else let s = set_mutex a \<lparr>locked = True, owner = Some current\<rparr> s
                       in (True, spin_unlock_irqrestore c flags s)))"

text \<open>\<open>mutex_unlock\<close> under the mutex's lock, with the waiter it takes off the queue.\<close>

definition mutex_release :: "cpu_id \<Rightarrow> nat \<Rightarrow> tid \<Rightarrow> 'q kernel \<Rightarrow> bool \<times> tid option \<times> 'q kernel" where
  "mutex_release c a current s =
     (let (flags, s) = spin_lock_irqsave c s
      in if \<not> locked (mutexes s a) then (False, None, spin_unlock_irqrestore c flags s)
         else if owner (mutexes s a) \<noteq> Some current then (False, None, spin_unlock_irqrestore c flags s)
         else
           let s = set_mutex a \<lparr>locked = False, owner = None\<rparr> s;
               (task, s) = wait_queue_pop_locked (Some a) s
           in (True, task, spin_unlock_irqrestore c flags s))"

definition mutex_unlock :: "cpu_id \<Rightarrow> nat option \<Rightarrow> 'q kernel \<Rightarrow> bool \<times> 'q kernel" where
  "mutex_unlock c mutex s =
     (case mutex of
        None \<Rightarrow> (False, s)
      | Some a \<Rightarrow>
          (case task_current c s of
             None \<Rightarrow> (False, s)
           | Some current \<Rightarrow>
               let (ok, task, s) = mutex_release c a current s
               in (ok, if task \<noteq> None then scheduler_wake c task s else s)))"

definition mutex_is_locked :: "nat option \<Rightarrow> 'q kernel \<Rightarrow> bool" where
  "mutex_is_locked mutex s = (case mutex of None \<Rightarrow> False | Some a \<Rightarrow> locked (mutexes s a))"

end
