(* ===== verification/Dispatch.thy ===== *)
theory Dispatch
  imports WaitQueue
begin

text \<open>
  The context switch and everything that gives up the processor: \<open>scheduler_schedule\<close>,
  \<open>scheduler_block_current\<close>, \<open>scheduler_block_current_wait\<close> and \<open>scheduler_finish_switch\<close> of
  \<open>kernel/scheduler/scheduler.c\<close>; the zombie queue, the exit path and the reaper of
  \<open>kernel/task/task.c\<close>; the blocking half of the wait queues. \<open>None\<close> as a result is the \<open>cli; hlt\<close> loop:
  the processor stops for ever.

  \<open>scheduler_lock\<close> stays held from the selection of the next task until that task, now on its own stack,
  runs \<open>scheduler_finish_switch\<close>; all of that is one atomic step of the processor. What
  \<open>scheduler_finish_switch\<close> does after releasing the lock, \<open>task_internal_finish_switch\<close>, is a step of
  its own.
\<close>

section \<open>Zombies\<close>

definition cleanup_queue_push :: "tid \<Rightarrow> 'q kernel \<Rightarrow> 'q kernel" where
  "cleanup_queue_push t s =
     (let s = set_task t (cleanup_next_update (\<lambda>_. None)) s;
          s = (case cleanup_tail s of
                 Some u \<Rightarrow> set_task u (cleanup_next_update (\<lambda>_. Some t)) s
               | None \<Rightarrow> s\<lparr>cleanup_head := Some t\<rparr>)
      in s\<lparr>cleanup_tail := Some t, cleanup_pending := cleanup_pending s + 1\<rparr>)"

definition cleanup_queue_pop :: "'q kernel \<Rightarrow> tid option \<times> 'q kernel" where
  "cleanup_queue_pop s =
     (case cleanup_head s of
        None \<Rightarrow> (None, s)
      | Some t \<Rightarrow>
          let s = s\<lparr>cleanup_head := cleanup_next (tasks s t)\<rparr>;
              s = (if cleanup_head s = None then s\<lparr>cleanup_tail := None\<rparr> else s);
              s = set_task t (cleanup_next_update (\<lambda>_. None)) s
          in (Some t, s))"

text \<open>The static \<open>cleanup_semaphore\<close> is the object at address 0.\<close>

definition cleanup_semaphore :: nat where "cleanup_semaphore = 0"

definition finish_switch_zombie :: "cpu_id \<Rightarrow> tid \<Rightarrow> 'q kernel \<Rightarrow> 'q kernel" where
  "finish_switch_zombie c t s =
     (let (flags, s) = spin_lock_irqsave c s;
          s = cleanup_queue_push t s
      in spin_unlock_irqrestore c flags s)"

definition task_internal_finish_switch :: "cpu_id \<Rightarrow> tid option \<Rightarrow> 'q kernel \<Rightarrow> 'q kernel" where
  "task_internal_finish_switch c previous s =
     (case previous of
        None \<Rightarrow> s
      | Some t \<Rightarrow>
          if state (tasks s t) \<noteq> TASK_ZOMBIE then s
          else snd (semaphore_signal c (Some cleanup_semaphore) (finish_switch_zombie c t s)))"

section \<open>Finishing a switch\<close>

text \<open>The part of \<open>scheduler_finish_switch\<close> up to the release of the lock; its result is the local
  variable \<open>previous\<close>.\<close>

definition finish_switch_handoff :: "cpu_id \<Rightarrow> 'q kernel \<Rightarrow> tid option \<times> 'q kernel" where
  "finish_switch_handoff c s =
     (case cpu_current c s of
        None \<Rightarrow> (None, s)
      | Some cpu \<Rightarrow>
          let previous = previous_task cpu;
              s = set_cpu c (previous_task_update (\<lambda>_. None)) s
          in if scheduler_switch_lock_held cpu then
               let flags = scheduler_switch_flags cpu;
                   s = set_cpu c (scheduler_switch_flags_update (\<lambda>_. 0)) s;
                   s = set_cpu c (scheduler_switch_lock_held_update (\<lambda>_. False)) s
               in (previous, spin_unlock_irqrestore c flags s)
             else (previous, s))"

definition scheduler_finish_switch :: "cpu_id \<Rightarrow> 'q kernel \<Rightarrow> 'q kernel" where
  "scheduler_finish_switch c s =
     (let (previous, s) = finish_switch_handoff c s in task_internal_finish_switch c previous s)"

section \<open>Architectural state\<close>

definition gdt_set_kernel_stack :: "nat \<Rightarrow> u32 \<Rightarrow> 'q kernel \<Rightarrow> bool \<times> 'q kernel" where
  "gdt_set_kernel_stack cpu_index sp s =
     (if cpu_index \<ge> SMP_MAX_CPUS then (False, s)
      else (True, set_hw cpu_index (esp0_update (\<lambda>_. sp)) s))"

definition gdt_set_current_kernel_stack :: "cpu_id \<Rightarrow> u32 \<Rightarrow> 'q kernel \<Rightarrow> bool \<times> 'q kernel" where
  "gdt_set_current_kernel_stack c sp s =
     (case cpu_current c s of None \<Rightarrow> (False, s) | Some cpu \<Rightarrow> gdt_set_kernel_stack c sp s)"

definition scheduler_update_kernel_entry_stack :: "cpu_id \<Rightarrow> tid option \<Rightarrow> 'q kernel \<Rightarrow> 'q kernel option" where
  "scheduler_update_kernel_entry_stack c task s =
     (let stack_top = task_kernel_stack_top (tasks s) task
      in if stack_top = 0 then Some s
         else (case gdt_set_current_kernel_stack c stack_top s of
             (True, s) \<Rightarrow> Some s
           | (False, s) \<Rightarrow> None))"

definition paging_current_directory :: "cpu_id \<Rightarrow> 'q kernel \<Rightarrow> u32" where
  "paging_current_directory c s = cr3 (hw s c) AND 0xFFFFF000"

definition paging_switch_directory :: "cpu_id \<Rightarrow> u32 \<Rightarrow> 'q kernel \<Rightarrow> bool \<times> 'q kernel" where
  "paging_switch_directory c directory s =
     (if directory AND (PAGE_SIZE - 1) \<noteq> 0 then (False, s)
      else if directory = 0 then (False, s)
      else (True, set_hw c (cr3_update (\<lambda>_. directory)) s))"

definition scheduler_update_address_space :: "cpu_id \<Rightarrow> tid option \<Rightarrow> 'q kernel \<Rightarrow> 'q kernel option" where
  "scheduler_update_address_space c task s =
     (case task of
        None \<Rightarrow> None
      | Some t \<Rightarrow>
          if address_space (tasks s t) = None then None
          else
            let next_directory = address_space_page_directory (address_spaces s) (address_space (tasks s t))
            in if next_directory = 0 then None
               else if paging_current_directory c s = next_directory then Some s
               else (case paging_switch_directory c next_directory s of
                   (True, s) \<Rightarrow> Some s
                 | (False, s) \<Rightarrow> None))"

text \<open>
  \<open>arch_context_switch\<close> pushes EFLAGS and four registers, stores ESP in the old task, loads it from the
  new one and pops the same five words and the return address. \<open>saved_eflags\<close> is the EFLAGS word on a
  suspended task's stack.
\<close>

definition arch_context_switch :: "cpu_id \<Rightarrow> tid \<Rightarrow> tid \<Rightarrow> 'q kernel \<Rightarrow> 'q kernel" where
  "arch_context_switch c old new s =
     (let s = s\<lparr>saved_eflags := (saved_eflags s)(old := eflags (hw s c))\<rparr>;
          s = set_task old (stack_pointer_update (\<lambda>_. esp (hw s c) - 20)) s;
          s = set_hw c (esp_update (\<lambda>_. stack_pointer (tasks s new) + 24)) s
      in set_hw c (eflags_update (\<lambda>_. saved_eflags s new)) s)"

section \<open>Scheduling\<close>

definition task_managed :: "task_memory \<Rightarrow> tid \<Rightarrow> bool" where
  "task_managed ts t \<longleftrightarrow> stack_base (ts t) \<noteq> 0 \<and> stack_size (ts t) \<noteq> 0"

text \<open>Put the running task back into its queue.\<close>

definition requeue_current :: "cpu_id \<Rightarrow> cpu_local \<Rightarrow> tid option \<Rightarrow> 'q kernel \<Rightarrow> 'q kernel" where
  "requeue_current c cpu current s =
     (case current of
        None \<Rightarrow> s
      | Some t \<Rightarrow>
          if task_managed (tasks s) t \<and> current \<noteq> idle_task cpu \<and> state (tasks s t) = TASK_RUNNING then
            (case slot_algorithm (policy (tasks s t)) s of
               None \<Rightarrow> s
             | Some a \<Rightarrow> ready_and_enqueue a (policy (tasks s t)) t s)
          else s)"

text \<open>The interrupt flags that the incoming task restores, from the outgoing context.\<close>

definition schedule_switch_flags :: "cpu_id \<Rightarrow> u32 \<Rightarrow> 'q kernel \<Rightarrow> 'q kernel" where
  "schedule_switch_flags c flags s =
     (let cpu = cpus s c
      in if \<not> scheduler_switch_lock_held cpu \<and> scheduler_switch_flags cpu \<noteq> 0 then s
         else if scheduler_preempt_restore_flags cpu \<noteq> 0 then
           set_cpu c (scheduler_preempt_restore_flags_update (\<lambda>_. 0))
             (set_cpu c (scheduler_switch_flags_update (\<lambda>_. scheduler_preempt_restore_flags cpu)) s)
         else set_cpu c (scheduler_switch_flags_update (\<lambda>_. flags)) s)"

text \<open>Install the incoming task, switch stacks and, on the new stack, take over the lock.\<close>

definition switch_to :: "cpu_id \<Rightarrow> tid \<Rightarrow> tid \<Rightarrow> 'q kernel \<Rightarrow> (tid option \<times> 'q kernel) option" where
  "switch_to c current next s =
     (let s = set_cpu c (scheduler_switch_lock_held_update (\<lambda>_. True)) s;
          s = task_internal_set_current c (Some next) s
      in case scheduler_update_kernel_entry_stack c (Some next) s of
           None \<Rightarrow> None
         | Some s \<Rightarrow>
             (case scheduler_update_address_space c (Some next) s of
                None \<Rightarrow> None
              | Some s \<Rightarrow>
                  let s = set_cpu c (reschedule_pending_update (\<lambda>_. False)) s;
                      s = arch_context_switch c current next s
                  in Some (finish_switch_handoff c s)))"

text \<open>
  \<open>scheduler_schedule\<close> up to the release of \<open>scheduler_lock\<close>; the first component is the task left to
  \<open>task_internal_finish_switch\<close>.
\<close>

definition schedule_locked :: "cpu_id \<Rightarrow> 'q kernel \<Rightarrow> (tid option \<times> 'q kernel) option" where
  "schedule_locked c s =
     (case cpu_current c s of
        None \<Rightarrow> Some (None, s)
      | Some cpu \<Rightarrow>
          let current = task_current c s;
              (flags, s) = spin_lock_irqsave c s;
              s = requeue_current c cpu current s;
              (next, s) = scheduler_pick_next c s;
              next = (if next = None then idle_task cpu else next)
          in case next of
               None \<Rightarrow> None
             | Some n \<Rightarrow>
                 let s = set_task n (state_update (\<lambda>_. TASK_RUNNING)) s;
                     s = scheduler_notify_switch_in c (Some n) s
                 in if next = current then
                      (case scheduler_update_kernel_entry_stack c next s of
                         None \<Rightarrow> None
                       | Some s \<Rightarrow>
                           (case scheduler_update_address_space c next s of
                              None \<Rightarrow> None
                            | Some s \<Rightarrow>
                                let s = set_cpu c (reschedule_pending_update (\<lambda>_. False)) s
                                in Some (None, spin_unlock_irqrestore c flags s)))
                    else (case current of
                        None \<Rightarrow> None
                      | Some t \<Rightarrow>
                          let s = set_cpu c (previous_task_update (\<lambda>_. Some t)) s;
                              s = schedule_switch_flags c flags s
                          in switch_to c t n s))"

definition scheduler_schedule :: "cpu_id \<Rightarrow> 'q kernel \<Rightarrow> 'q kernel option" where
  "scheduler_schedule c s =
     (case schedule_locked c s of
        None \<Rightarrow> None
      | Some (previous, s) \<Rightarrow> Some (task_internal_finish_switch c previous s))"

definition scheduler_yield :: "cpu_id \<Rightarrow> 'q kernel \<Rightarrow> 'q kernel option" where
  "scheduler_yield c s =
     (case cpu_current c s of
        None \<Rightarrow> Some s
      | Some cpu \<Rightarrow> scheduler_schedule c (set_cpu c (reschedule_pending_update (\<lambda>_. False)) s))"

definition task_yield :: "cpu_id \<Rightarrow> 'q kernel \<Rightarrow> 'q kernel option" where
  "task_yield c s = scheduler_yield c s"

definition scheduler_handle_safe_preemption_point :: "cpu_id \<Rightarrow> u32 \<Rightarrow> 'q kernel \<Rightarrow> 'q kernel option" where
  "scheduler_handle_safe_preemption_point c restore_flags s =
     (case cpu_current c s of
        None \<Rightarrow> Some s
      | Some cpu \<Rightarrow>
          if \<not> preemption_enabled cpu then Some s
          else if \<not> reschedule_pending cpu then Some s
          else scheduler_schedule c (set_cpu c (scheduler_preempt_restore_flags_update (\<lambda>_. restore_flags)) s))"

section \<open>Blocking\<close>

text \<open>The section of \<open>scheduler_block_current\<close> under the lock; \<open>True\<close> when it goes on to schedule.\<close>

definition block_current_mark :: "cpu_id \<Rightarrow> task_state \<Rightarrow> 'q kernel \<Rightarrow> bool \<times> 'q kernel" where
  "block_current_mark c block_state s =
     (if block_state \<noteq> TASK_BLOCKED \<and> block_state \<noteq> TASK_SLEEPING then (False, s)
      else case task_current c s of
        None \<Rightarrow> (False, s)
      | Some t \<Rightarrow>
          let (flags, s) = spin_lock_irqsave c s
          in if state (tasks s t) \<noteq> TASK_RUNNING then (False, spin_unlock_irqrestore c flags s)
             else (True, spin_unlock_irqrestore c flags (set_task t (state_update (\<lambda>_. block_state)) s)))"

definition scheduler_block_current :: "cpu_id \<Rightarrow> task_state \<Rightarrow> 'q kernel \<Rightarrow> 'q kernel option" where
  "scheduler_block_current c block_state s =
     (case block_current_mark c block_state s of
        (False, s) \<Rightarrow> Some s
      | (True, s) \<Rightarrow> scheduler_schedule c s)"

text \<open>
  \<open>scheduler_block_current_wait\<close> up to the release of \<open>scheduler_lock\<close>. The caller holds the lock of the
  wait or sleep queue, which is released inside; \<open>wait_flags\<close> are the flags it saved.
\<close>

definition block_wait_locked :: "cpu_id \<Rightarrow> task_state \<Rightarrow> u32 \<Rightarrow> 'q kernel \<Rightarrow> (tid option \<times> 'q kernel) option" where
  "block_wait_locked c block_state wait_flags s =
     (if block_state \<noteq> TASK_BLOCKED \<and> block_state \<noteq> TASK_SLEEPING
      then Some (None, spin_unlock_irqrestore c wait_flags s)
      else case (cpu_current c s, task_current c s) of
        (Some cpu, Some t) \<Rightarrow>
          let (scheduler_flags, s) = spin_lock_irqsave c s
          in if state (tasks s t) \<noteq> TASK_RUNNING then
               let s = spin_unlock_irqrestore c scheduler_flags s
               in Some (None, spin_unlock_irqrestore c wait_flags s)
             else
               let s = set_task t (state_update (\<lambda>_. block_state)) s;
                   (next, s) = scheduler_pick_next c s;
                   next = (if next = None then idle_task cpu else next)
               in (case next of
                     None \<Rightarrow> None
                   | Some n \<Rightarrow>
                       if n = t then None
                       else
                         let s = set_task n (state_update (\<lambda>_. TASK_RUNNING)) s;
                             s = scheduler_notify_switch_in c (Some n) s;
                             s = set_cpu c (previous_task_update (\<lambda>_. Some t)) s;
                             s = set_cpu c (scheduler_switch_flags_update (\<lambda>_. wait_flags)) s
                         in switch_to c t n s)
      | _ \<Rightarrow> Some (None, spin_unlock_irqrestore c wait_flags s))"

definition scheduler_block_current_wait :: "cpu_id \<Rightarrow> task_state \<Rightarrow> u32 \<Rightarrow> 'q kernel \<Rightarrow> 'q kernel option" where
  "scheduler_block_current_wait c block_state wait_flags s =
     (case block_wait_locked c block_state wait_flags s of
        None \<Rightarrow> None
      | Some (previous, s) \<Rightarrow> Some (task_internal_finish_switch c previous s))"

definition wait_queue_block_locked :: "cpu_id \<Rightarrow> nat option \<Rightarrow> u32 \<Rightarrow> 'q kernel \<Rightarrow> (tid option \<times> 'q kernel) option" where
  "wait_queue_block_locked c queue lock_flags s =
     (case queue of
        None \<Rightarrow> Some (None, s)
      | Some q \<Rightarrow>
          (case task_current c s of
             None \<Rightarrow> Some (None, spin_unlock_irqrestore c lock_flags s)
           | Some t \<Rightarrow>
               if waiting_on (tasks s t) \<noteq> None then Some (None, spin_unlock_irqrestore c lock_flags s)
               else
                 let s = set_task t (waiting_on_update (\<lambda>_. Some q)) s;
                     s = wait_queue_push_back q t s
                 in block_wait_locked c TASK_BLOCKED lock_flags s))"

definition wait_queue_block :: "cpu_id \<Rightarrow> nat option \<Rightarrow> 'q kernel \<Rightarrow> (tid option \<times> 'q kernel) option" where
  "wait_queue_block c queue s =
     (case queue of
        None \<Rightarrow> Some (None, s)
      | Some q \<Rightarrow>
          let (flags, s) = spin_lock_irqsave c s
          in wait_queue_block_locked c (Some q) flags s)"

section \<open>Waiting for a permit and for a mutex\<close>

text \<open>
  One round of the endless loops of \<open>semaphore_wait\<close> and \<open>mutex_lock\<close>: the loop returns, or the task
  blocks and starts the next round when it runs again. The two components of a blocking round are
  those of \<open>wait_queue_block_locked\<close>.
\<close>

datatype round_result = Returns bool | Again

definition semaphore_wait_round :: "cpu_id \<Rightarrow> nat \<Rightarrow> 'q kernel \<Rightarrow> (round_result \<times> tid option \<times> 'q kernel) option" where
  "semaphore_wait_round c a s =
     (let (flags, s) = spin_lock_irqsave c s
      in if semaphore_count s a \<noteq> 0 then
           let s = set_sem a (semaphore_count s a - 1) s
           in Some (Returns True, None, spin_unlock_irqrestore c flags s)
         else (case wait_queue_block_locked c (Some a) flags s of
             None \<Rightarrow> None
           | Some (previous, s) \<Rightarrow> Some (Again, previous, s)))"

definition mutex_lock_round :: "cpu_id \<Rightarrow> nat \<Rightarrow> tid \<Rightarrow> 'q kernel \<Rightarrow> (round_result \<times> tid option \<times> 'q kernel) option" where
  "mutex_lock_round c a current s =
     (let (flags, s) = spin_lock_irqsave c s
      in if locked (mutexes s a) \<and> owner (mutexes s a) = Some current then
           Some (Returns False, None, spin_unlock_irqrestore c flags s)
         else if \<not> locked (mutexes s a) then
           let s = set_mutex a \<lparr>locked = True, owner = Some current\<rparr> s
           in Some (Returns True, None, spin_unlock_irqrestore c flags s)
         else (case wait_queue_block_locked c (Some a) flags s of
             None \<Rightarrow> None
           | Some (previous, s) \<Rightarrow> Some (Again, previous, s)))"

text \<open>The calls: the tests before the loop, and its first round.\<close>

definition semaphore_wait :: "cpu_id \<Rightarrow> nat option \<Rightarrow> 'q kernel \<Rightarrow> (round_result \<times> tid option \<times> 'q kernel) option" where
  "semaphore_wait c semaphore s =
     (case semaphore of
        None \<Rightarrow> Some (Returns False, None, s)
      | Some a \<Rightarrow>
          if task_current c s = None then Some (Returns False, None, s) else semaphore_wait_round c a s)"

definition mutex_lock :: "cpu_id \<Rightarrow> nat option \<Rightarrow> 'q kernel \<Rightarrow> (round_result \<times> tid option \<times> 'q kernel) option" where
  "mutex_lock c mutex s =
     (case mutex of
        None \<Rightarrow> Some (Returns False, None, s)
      | Some a \<Rightarrow>
          (case task_current c s of
             None \<Rightarrow> Some (Returns False, None, s)
           | Some current \<Rightarrow> mutex_lock_round c a current s))"

section \<open>Exit and publication\<close>

definition task_is_idle_task :: "tid option \<Rightarrow> 'q kernel \<Rightarrow> bool" where
  "task_is_idle_task task s =
     (case task of None \<Rightarrow> False | Some t \<Rightarrow> list_ex (\<lambda>i. idle_task (cpus s i) = Some t) [0..<cpu_count s])"

text \<open>The static \<open>bootstrap_tasks[i]\<close> are the tasks \<open>0 .. SMP_MAX_CPUS - 1\<close>.\<close>

definition task_bootstrap_for_cpu :: "nat \<Rightarrow> tid option" where
  "task_bootstrap_for_cpu cpu_index = (if cpu_index \<ge> SMP_MAX_CPUS then None else Some cpu_index)"

definition task_is_bootstrap_task :: "tid option \<Rightarrow> 'q kernel \<Rightarrow> bool" where
  "task_is_bootstrap_task task s =
     (case task of None \<Rightarrow> False | Some t \<Rightarrow> list_ex (\<lambda>i. i = t) [0..<cpu_count s])"

text \<open>\<open>task_exit\<close> before its call of \<open>scheduler_schedule\<close>.\<close>

definition task_exit_mark :: "cpu_id \<Rightarrow> 'q kernel \<Rightarrow> 'q kernel option" where
  "task_exit_mark c s =
     (case task_current c s of
        None \<Rightarrow> None
      | Some t \<Rightarrow>
          if task_is_bootstrap_task (Some t) s \<or> task_is_idle_task (Some t) s \<or> Some t = reaper_task s then None
          else let (flags, s) = interrupt_save_disable c s
               in Some (set_task t (state_update (\<lambda>_. TASK_ZOMBIE)) s))"

definition task_exit :: "cpu_id \<Rightarrow> 'q kernel \<Rightarrow> 'q kernel option" where
  "task_exit c s = (case task_exit_mark c s of None \<Rightarrow> None | Some s \<Rightarrow> scheduler_schedule c s)"

definition task_publish :: "cpu_id \<Rightarrow> tid option \<Rightarrow> 'q kernel \<Rightarrow> 'q kernel" where
  "task_publish c task s =
     (case task of
        None \<Rightarrow> s
      | Some t \<Rightarrow> if state (tasks s t) \<noteq> TASK_NEW then s else scheduler_make_ready c (Some t) s)"

definition task_cleanup_pending_count :: "'q kernel \<Rightarrow> u32" where
  "task_cleanup_pending_count s = cleanup_pending s"

definition task_cleanup_total_reaped :: "'q kernel \<Rightarrow> u64" where
  "task_cleanup_total_reaped s = cleanup_total_reaped s"

definition task_live_count :: "'q kernel \<Rightarrow> u32" where
  "task_live_count s = live_task_count s"

end
