(* ===== verification/SchedInv.thy ===== *)
theory SchedInv
  imports Dispatch
begin

text \<open>
  The invariant of the scheduler and its preservation, for every algorithm that satisfies the
  contract \<open>run_queue\<close>: the run queues hold exactly the READY tasks of their bands, each once, and no
  task runs on two processors.
\<close>

named_theorems kernel_frame
  \<open>parts of the kernel state that an operation leaves alone\<close>

section \<open>Frames\<close>

lemma set_hw_frame [simp, kernel_frame]:
  "tasks (set_hw c f s) = tasks s" "policy_slots (set_hw c f s) = policy_slots s"
  "cpus (set_hw c f s) = cpus s" "cpu_count (set_hw c f s) = cpu_count s"
  "wait_queues (set_hw c f s) = wait_queues s" "address_spaces (set_hw c f s) = address_spaces s"
  "semaphore_count (set_hw c f s) = semaphore_count s" "mutexes (set_hw c f s) = mutexes s"
  "reaper_task (set_hw c f s) = reaper_task s"
  "sleep_head (set_hw c f s) = sleep_head s" "sleep_tail (set_hw c f s) = sleep_tail s"
  "cleanup_head (set_hw c f s) = cleanup_head s" "cleanup_tail (set_hw c f s) = cleanup_tail s"
  "saved_eflags (set_hw c f s) = saved_eflags s"
  by (simp_all add: set_hw_def)

lemma set_cpu_frame [simp, kernel_frame]:
  "tasks (set_cpu c g s) = tasks s" "policy_slots (set_cpu c g s) = policy_slots s"
  "cpu_count (set_cpu c g s) = cpu_count s" "hw (set_cpu c g s) = hw s"
  "wait_queues (set_cpu c g s) = wait_queues s" "address_spaces (set_cpu c g s) = address_spaces s"
  "semaphore_count (set_cpu c g s) = semaphore_count s" "mutexes (set_cpu c g s) = mutexes s"
  "reaper_task (set_cpu c g s) = reaper_task s"
  "sleep_head (set_cpu c g s) = sleep_head s" "sleep_tail (set_cpu c g s) = sleep_tail s"
  "cleanup_head (set_cpu c g s) = cleanup_head s" "cleanup_tail (set_cpu c g s) = cleanup_tail s"
  "saved_eflags (set_cpu c g s) = saved_eflags s"
  by (simp_all add: set_cpu_def)

lemma set_task_frame [simp, kernel_frame]:
  "cpus (set_task t f s) = cpus s" "policy_slots (set_task t f s) = policy_slots s"
  "cpu_count (set_task t f s) = cpu_count s" "hw (set_task t f s) = hw s"
  "wait_queues (set_task t f s) = wait_queues s" "address_spaces (set_task t f s) = address_spaces s"
  "semaphore_count (set_task t f s) = semaphore_count s" "mutexes (set_task t f s) = mutexes s"
  "reaper_task (set_task t f s) = reaper_task s"
  "sleep_head (set_task t f s) = sleep_head s" "sleep_tail (set_task t f s) = sleep_tail s"
  "cleanup_head (set_task t f s) = cleanup_head s" "cleanup_tail (set_task t f s) = cleanup_tail s"
  "saved_eflags (set_task t f s) = saved_eflags s"
  by (simp_all add: set_task_def)

lemma tasks_set_task [simp]: "tasks (set_task t f s) = upd_task t f (tasks s)"
  by (simp add: set_task_def)

lemma cpus_set_cpu [simp]: "cpus (set_cpu c g s) = (cpus s)(c := g (cpus s c))"
  by (simp add: set_cpu_def)

lemma hw_set_hw [simp]: "hw (set_hw c f s) = (hw s)(c := f (hw s c))"
  by (simp add: set_hw_def)

text \<open>A state that differs in the tasks and the slots only.\<close>

definition same_rest :: "'q kernel \<Rightarrow> 'q kernel \<Rightarrow> bool" where
  "same_rest s s' \<longleftrightarrow> (\<exists>ts sl. s' = s\<lparr>tasks := ts, policy_slots := sl\<rparr>)"

lemma same_rest_refl [simp]: "same_rest s s"
proof -
  have "s = s\<lparr>tasks := tasks s, policy_slots := policy_slots s\<rparr>" by simp
  then show ?thesis unfolding same_rest_def by blast
qed

lemma same_rest_trans [trans]: "same_rest s s' \<Longrightarrow> same_rest s' s'' \<Longrightarrow> same_rest s s''"
  unfolding same_rest_def by fastforce

lemma same_rest_set_task [simp]: "same_rest s (set_task t f s)"
proof -
  have "set_task t f s = s\<lparr>tasks := upd_task t f (tasks s), policy_slots := policy_slots s\<rparr>"
    by (simp add: set_task_def)
  then show ?thesis unfolding same_rest_def by blast
qed

lemma same_rest_slot [simp]: "same_rest s (set_slot_state p q (s\<lparr>tasks := ts\<rparr>))"
  unfolding same_rest_def set_slot_state_def by (intro exI) simp

lemma same_rest_slot' [simp]: "same_rest s (set_slot_state p q s)"
  using same_rest_slot [of s p q "tasks s"] by simp

lemma same_rest_fields:
  assumes "same_rest s s'"
  shows "cpus s' = cpus s" "cpu_count s' = cpu_count s" "hw s' = hw s" "wait_queues s' = wait_queues s"
    "address_spaces s' = address_spaces s" "semaphore_count s' = semaphore_count s" "mutexes s' = mutexes s"
    "reaper_task s' = reaper_task s" "sleep_head s' = sleep_head s" "sleep_tail s' = sleep_tail s"
    "cleanup_head s' = cleanup_head s" "cleanup_tail s' = cleanup_tail s" "saved_eflags s' = saved_eflags s"
  using assms by (auto simp: same_rest_def)

section \<open>The invariant\<close>

definition idle_of :: "'q kernel \<Rightarrow> tid \<Rightarrow> bool" where
  "idle_of s t \<longleftrightarrow> (\<exists>c < cpu_count s. idle_task (cpus s c) = Some t)"

definition slots_hold ::
  "'q scheduler_algorithm \<Rightarrow> ('q \<Rightarrow> task_memory \<Rightarrow> tid list \<Rightarrow> bool) \<Rightarrow> 'q kernel \<Rightarrow> (sched_policy \<Rightarrow> tid list) \<Rightarrow> bool" where
  "slots_hold alg holds s qs \<longleftrightarrow>
     (\<forall>p. policy_valid p \<longrightarrow> algorithm (policy_slots s p) = Some alg \<and>
        (\<exists>q. algorithm_state (policy_slots s p) = Some q \<and> holds q (tasks s) (qs p))) \<and>
     (\<forall>p p'. policy_valid p \<and> policy_valid p' \<and> p \<noteq> p' \<longrightarrow> set (qs p) \<inter> set (qs p') = {})"

text \<open>The queue of a band holds exactly its READY tasks; the idle tasks are in no queue.\<close>

definition ready_queues :: "'q kernel \<Rightarrow> (sched_policy \<Rightarrow> tid list) \<Rightarrow> bool" where
  "ready_queues s qs \<longleftrightarrow> (\<forall>p. policy_valid p \<longrightarrow>
     set (qs p) = {t. state (tasks s t) = TASK_READY \<and> policy (tasks s t) = p \<and> \<not> idle_of s t})"

definition queued ::
  "'q scheduler_algorithm \<Rightarrow> ('q \<Rightarrow> task_memory \<Rightarrow> tid list \<Rightarrow> bool) \<Rightarrow> 'q kernel \<Rightarrow> (sched_policy \<Rightarrow> tid list) \<Rightarrow> bool" where
  "queued alg holds s qs \<longleftrightarrow> slots_hold alg holds s qs \<and> ready_queues s qs"

definition runs :: "'q kernel \<Rightarrow> cpu_id \<Rightarrow> tid \<Rightarrow> bool" where
  "runs s c t \<longleftrightarrow> c < cpu_count s \<and> current_task (cpus s c) = Some t"

definition cpus_ok :: "'q kernel \<Rightarrow> bool" where
  "cpus_ok s \<longleftrightarrow>
     (\<forall>c < cpu_count s. \<exists>t. runs s c t \<and> state (tasks s t) \<in> {TASK_RUNNING, TASK_ZOMBIE}) \<and>
     (\<forall>c c' t. runs s c t \<and> runs s c' t \<longrightarrow> c = c') \<and>
     (\<forall>c < cpu_count s. \<exists>t. idle_task (cpus s c) = Some t \<and> task_managed (tasks s) t \<and>
        state (tasks s t) \<in> {TASK_READY, TASK_RUNNING} \<and> (\<forall>c'. runs s c' t \<longrightarrow> c' = c)) \<and>
     (\<forall>c < cpu_count s. \<forall>c' < cpu_count s. idle_task (cpus s c) = idle_task (cpus s c') \<longrightarrow> c = c') \<and>
     (\<forall>t. state (tasks s t) = TASK_RUNNING \<and> task_managed (tasks s) t \<and> \<not> idle_of s t \<longrightarrow> (\<exists>c. runs s c t)) \<and>
     (\<forall>t. policy_valid (policy (tasks s t)))"

definition sched_inv ::
  "'q scheduler_algorithm \<Rightarrow> ('q \<Rightarrow> task_memory \<Rightarrow> tid list \<Rightarrow> bool) \<Rightarrow> 'q kernel \<Rightarrow> bool" where
  "sched_inv alg holds s \<longleftrightarrow> (\<exists>qs. queued alg holds s qs) \<and> cpus_ok s"

text \<open>What the invariant reads of the state.\<close>

definition sched_same :: "'q kernel \<Rightarrow> 'q kernel \<Rightarrow> bool" where
  "sched_same s s' \<longleftrightarrow> policy_slots s' = policy_slots s \<and> cpu_count s' = cpu_count s \<and>
     (\<forall>c. current_task (cpus s' c) = current_task (cpus s c) \<and> idle_task (cpus s' c) = idle_task (cpus s c)) \<and>
     (\<forall>t. state (tasks s' t) = state (tasks s t) \<and> policy (tasks s' t) = policy (tasks s t) \<and>
        stack_base (tasks s' t) = stack_base (tasks s t) \<and> stack_size (tasks s' t) = stack_size (tasks s t) \<and>
        sched_previous (tasks s' t) = sched_previous (tasks s t) \<and> sched_next (tasks s' t) = sched_next (tasks s t))"

lemma sched_same_trans [trans]: "sched_same s s' \<Longrightarrow> sched_same s' s'' \<Longrightarrow> sched_same s s''"
  by (simp add: sched_same_def)

lemma sched_same_cpus_ok: "sched_same s s' \<Longrightarrow> cpus_ok s' = cpus_ok s"
  by (simp add: sched_same_def cpus_ok_def runs_def idle_of_def task_managed_def)

lemma sched_same_refl [simp]: "sched_same s s"
  by (simp add: sched_same_def)

lemma sched_same_set_hw [simp]: "sched_same s (set_hw c f s)"
  by (simp add: sched_same_def)

lemma slot_algorithm_eq: "policy_valid p \<Longrightarrow> slot_algorithm p s = algorithm (policy_slots s p)"
  by (simp add: slot_algorithm_def get_slot_def)

lemma slots_hold_slot:
  "slots_hold alg holds s qs \<Longrightarrow> policy_valid p \<Longrightarrow> slot_algorithm p s = Some alg"
  by (simp add: slots_hold_def slot_algorithm_eq)

lemma queued_slot: "queued alg holds s qs \<Longrightarrow> policy_valid p \<Longrightarrow> slot_algorithm p s = Some alg"
  using slots_hold_slot unfolding queued_def by blast

lemma slots_hold_disjoint:
  "slots_hold alg holds s qs \<Longrightarrow> policy_valid p' \<Longrightarrow> policy_valid p \<Longrightarrow> p' \<noteq> p \<Longrightarrow> set (qs p') \<inter> set (qs p) = {}"
  by (simp add: slots_hold_def)

lemma tasks_set_slot_state [simp]: "tasks (set_slot_state p q s) = tasks s"
  by (simp add: set_slot_state_def)

lemma policy_order_valid: "policy_valid p \<longleftrightarrow> p \<in> set policy_order"
  by (cases p) (simp_all add: policy_valid_def policy_order_def)

lemma mset_remove_set:
  assumes "mset ys = mset xs - {#t#}" "distinct xs"
  shows "set ys = set xs - {t}"
proof -
  have "mset ys = mset (remove1 t xs)" using assms(1) by simp
  then have "set ys = set (remove1 t xs)" by (rule mset_eq_setD)
  then show ?thesis using assms(2) by simp
qed

section \<open>Preservation, for every algorithm\<close>

context run_queue
begin

lemma slots_hold_frame:
  assumes "slots_hold alg holds s qs" "policy_slots s' = policy_slots s"
    and "\<And>p x. policy_valid p \<Longrightarrow> x \<in> set (qs p) \<Longrightarrow>
      sched_previous (tasks s' x) = sched_previous (tasks s x) \<and> sched_next (tasks s' x) = sched_next (tasks s x)"
  shows "slots_hold alg holds s' qs"
  unfolding slots_hold_def
proof (intro conjI allI impI)
  fix p assume p: "policy_valid p"
  with assms(1) obtain q where q: "algorithm (policy_slots s p) = Some alg"
      "algorithm_state (policy_slots s p) = Some q" "holds q (tasks s) (qs p)"
    by (auto simp: slots_hold_def)
  then show "algorithm (policy_slots s' p) = Some alg" using assms(2) by simp
  have "holds q (tasks s') (qs p)" by (rule frame [OF q(3)]) (rule assms(3) [OF p])
  then show "\<exists>q. algorithm_state (policy_slots s' p) = Some q \<and> holds q (tasks s') (qs p)"
    using assms(2) q by auto
qed (use assms(1) in \<open>auto simp: slots_hold_def\<close>)

lemma sched_same_queued:
  assumes "sched_same s s'" "queued alg holds s qs"
  shows "queued alg holds s' qs"
  using assms slots_hold_frame [of s qs s']
  by (simp add: queued_def ready_queues_def idle_of_def sched_same_def)

lemma sched_same_inv: "sched_same s s' \<Longrightarrow> sched_inv alg holds s \<Longrightarrow> sched_inv alg holds s'"
  using sched_same_queued sched_same_cpus_ok unfolding sched_inv_def by blast

text \<open>Replacing the state of one slot and the links of its members.\<close>

lemma slots_hold_update:
  assumes "slots_hold alg holds s qs" "policy_valid p"
    and "holds q ts ys" and "links_only A (tasks s) ts"
    and "\<And>p'. policy_valid p' \<Longrightarrow> p' \<noteq> p \<Longrightarrow> set (qs p') \<inter> (A \<union> set ys) = {}"
  shows "slots_hold alg holds (set_slot_state p (Some q) (s\<lparr>tasks := ts\<rparr>)) (qs(p := ys))"
proof -
  have "holds q' ts (qs p')" if "policy_valid p'" "p' \<noteq> p" "holds q' (tasks s) (qs p')" for p' q'
  proof (rule frame [OF that(3)])
    fix x assume "x \<in> set (qs p')"
    then have "x \<notin> A" using assms(5) [OF that(1,2)] by auto
    then show "sched_previous (ts x) = sched_previous (tasks s x) \<and> sched_next (ts x) = sched_next (tasks s x)"
      using links_only_outside [OF assms(4)] by simp
  qed
  with assms show ?thesis
    unfolding slots_hold_def set_slot_state_def by auto
qed

lemma call_enqueue_hold:
  assumes "slots_hold alg holds s qs" "policy_valid p"
    and out: "\<And>p'. policy_valid p' \<Longrightarrow> t \<notin> set (qs p')"
  shows "\<exists>ys. slots_hold alg holds (call_enqueue alg p t s) (qs(p := ys)) \<and> mset ys = add_mset t (mset (qs p)) \<and>
    same_rest s (call_enqueue alg p t s) \<and>
    links_only (insert t (set (qs p))) (tasks s) (tasks (call_enqueue alg p t s))"
proof -
  obtain q where q: "algorithm_state (policy_slots s p) = Some q" "holds q (tasks s) (qs p)"
    using assms(1,2) by (auto simp: slots_hold_def)
  from enqueued [OF q(2) out [OF assms(2)]] obtain q' ts' ys where e:
      "the (enqueue alg) (Some q) (Some t) (tasks s) = (Some q', ts')" "holds q' ts' ys"
      "mset ys = add_mset t (mset (qs p))" "links_only (insert t (set (qs p))) (tasks s) ts'" by blast
  have ys: "set ys = insert t (set (qs p))" using arg_cong [OF e(3), of set_mset] by simp
  have "slots_hold alg holds (set_slot_state p (Some q') (s\<lparr>tasks := ts'\<rparr>)) (qs(p := ys))"
  proof (rule slots_hold_update [OF assms(1,2) e(2,4)])
    fix p' assume p': "policy_valid p'" "p' \<noteq> p"
    show "set (qs p') \<inter> (insert t (set (qs p)) \<union> set ys) = {}"
      using slots_hold_disjoint [OF assms(1) p'(1) assms(2) p'(2)] out [OF p'(1)] by (auto simp: ys)
  qed
  moreover have "call_enqueue alg p t s = set_slot_state p (Some q') (s\<lparr>tasks := ts'\<rparr>)"
    using q(1) e(1) by (simp add: call_enqueue_def)
  moreover have "tasks (set_slot_state p (Some q') (s\<lparr>tasks := ts'\<rparr>)) = ts'" by simp
  ultimately show ?thesis
    using e(3,4) same_rest_slot [of s p "Some q'" ts'] by (intro exI [of _ ys]) simp
qed

lemma call_dequeue_hold:
  assumes "slots_hold alg holds s qs" "policy_valid p" "t \<in> set (qs p)"
  shows "\<exists>ys. slots_hold alg holds (call_dequeue alg p t s) (qs(p := ys)) \<and> mset ys = mset (qs p) - {#t#} \<and>
    same_rest s (call_dequeue alg p t s) \<and>
    links_only (set (qs p)) (tasks s) (tasks (call_dequeue alg p t s))"
proof -
  obtain q where q: "algorithm_state (policy_slots s p) = Some q" "holds q (tasks s) (qs p)"
    using assms(1,2) by (auto simp: slots_hold_def)
  from dequeued [OF q(2) assms(3)] obtain q' ts' ys where e:
      "the (dequeue alg) (Some q) (Some t) (tasks s) = (Some q', ts')" "holds q' ts' ys"
      "mset ys = mset (qs p) - {#t#}" "links_only (set (qs p)) (tasks s) ts'" by blast
  have ys: "set ys \<subseteq> set (qs p)" using e(3) by (metis diff_subset_eq_self mset_subset_eqD set_mset_mset subsetI)
  have "slots_hold alg holds (set_slot_state p (Some q') (s\<lparr>tasks := ts'\<rparr>)) (qs(p := ys))"
    by (rule slots_hold_update [OF assms(1,2) e(2,4)]) (use slots_hold_disjoint [OF assms(1) _ assms(2)] ys in blast)
  moreover have "call_dequeue alg p t s = set_slot_state p (Some q') (s\<lparr>tasks := ts'\<rparr>)"
    using q(1) e(1) by (simp add: call_dequeue_def)
  moreover have "tasks (set_slot_state p (Some q') (s\<lparr>tasks := ts'\<rparr>)) = ts'" by simp
  ultimately show ?thesis
    using e(3,4) same_rest_slot [of s p "Some q'" ts'] by (intro exI [of _ ys]) simp
qed

lemma call_pick_hold:
  assumes "slots_hold alg holds s qs" "policy_valid p"
  shows "\<exists>r s' ys. call_pick_next alg p s = (r, s') \<and> slots_hold alg holds s' (qs(p := ys)) \<and> same_rest s s' \<and>
    links_only (set (qs p)) (tasks s) (tasks s') \<and>
    (case r of None \<Rightarrow> qs p = [] \<and> ys = [] | Some t \<Rightarrow> t \<in> set (qs p) \<and> mset ys = mset (qs p) - {#t#})"
proof -
  obtain q where q: "algorithm_state (policy_slots s p) = Some q" "holds q (tasks s) (qs p)"
    using assms by (auto simp: slots_hold_def)
  show ?thesis
  proof (cases "qs p = []")
    case True
    then obtain q' where e: "the (pick_next alg) (Some q) (tasks s) = (None, Some q', tasks s)" "holds q' (tasks s) []"
      using picked_none [of q "tasks s"] q(2) by auto
    have "slots_hold alg holds (set_slot_state p (Some q') (s\<lparr>tasks := tasks s\<rparr>)) (qs(p := []))"
      by (rule slots_hold_update [OF assms e(2) links_only_refl, of "{}"]) simp
    moreover have "call_pick_next alg p s = (None, set_slot_state p (Some q') (s\<lparr>tasks := tasks s\<rparr>))"
      using q(1) e(1) by (simp add: call_pick_next_def)
    moreover have "links_only (set (qs p)) (tasks s) (tasks (set_slot_state p (Some q') (s\<lparr>tasks := tasks s\<rparr>)))"
      by simp
    ultimately show ?thesis using True same_rest_slot [of s p "Some q'" "tasks s"] by fastforce
  next
    case False
    from picked [OF q(2) False] obtain q' ts' ys t where e:
        "the (pick_next alg) (Some q) (tasks s) = (Some t, Some q', ts')" "t \<in> set (qs p)" "holds q' ts' ys"
        "mset ys = mset (qs p) - {#t#}" "links_only (set (qs p)) (tasks s) ts'" by blast
    have ys: "set ys \<subseteq> set (qs p)" using e(4) by (metis diff_subset_eq_self mset_subset_eqD set_mset_mset subsetI)
    have "slots_hold alg holds (set_slot_state p (Some q') (s\<lparr>tasks := ts'\<rparr>)) (qs(p := ys))"
      by (rule slots_hold_update [OF assms e(3,5)]) (use slots_hold_disjoint [OF assms(1) _ assms(2)] ys in blast)
    moreover have "call_pick_next alg p s = (Some t, set_slot_state p (Some q') (s\<lparr>tasks := ts'\<rparr>))"
      using q(1) e(1) by (simp add: call_pick_next_def)
    moreover have "links_only (set (qs p)) (tasks s) (tasks (set_slot_state p (Some q') (s\<lparr>tasks := ts'\<rparr>)))"
      using e(5) by simp
    ultimately show ?thesis using e(2,4) same_rest_slot [of s p "Some q'" ts'] by fastforce
  qed
qed

lemma slots_hold_distinct: "slots_hold alg holds s qs \<Longrightarrow> policy_valid p \<Longrightarrow> distinct (qs p)"
  using members_distinct by (auto simp: slots_hold_def)

text \<open>Marking a task READY and enqueueing it.\<close>

lemma ready_and_enqueue_queued:
  assumes q: "queued alg holds s qs" and t: "state (tasks s t) \<noteq> TASK_READY" "\<not> idle_of s t"
    and p: "policy_valid p" "policy (tasks s t) = p"
  shows "\<exists>ys. queued alg holds (ready_and_enqueue alg p t s) (qs(p := ys)) \<and> mset ys = add_mset t (mset (qs p)) \<and>
    same_rest s (ready_and_enqueue alg p t s) \<and>
    links_only UNIV (upd_task t (state_update (\<lambda>_. TASK_READY)) (tasks s)) (tasks (ready_and_enqueue alg p t s))"
proof -
  let ?ts = "upd_task t (state_update (\<lambda>_. TASK_READY)) (tasks s)"
  let ?s = "set_task t (sched_next_update (\<lambda>_. None))
      (set_task t (sched_previous_update (\<lambda>_. None)) (set_task t (state_update (\<lambda>_. TASK_READY)) s))"
  have out: "t \<notin> set (qs p')" if "policy_valid p'" for p'
    using q t that by (auto simp: queued_def ready_queues_def)
  have "slots_hold alg holds ?s qs"
  proof (rule slots_hold_frame [of s])
    show "slots_hold alg holds s qs" using q by (simp add: queued_def)
    fix p' x assume "policy_valid p'" "x \<in> set (qs p')"
    then have "x \<noteq> t" using out by auto
    then show "sched_previous (tasks ?s x) = sched_previous (tasks s x) \<and> sched_next (tasks ?s x) = sched_next (tasks s x)"
      by simp
  qed simp
  from call_enqueue_hold [OF this p(1) out] obtain ys where ys:
      "slots_hold alg holds (call_enqueue alg p t ?s) (qs(p := ys))" "mset ys = add_mset t (mset (qs p))"
      "same_rest ?s (call_enqueue alg p t ?s)"
      "links_only (insert t (set (qs p))) (tasks ?s) (tasks (call_enqueue alg p t ?s))" by blast
  have eq: "ready_and_enqueue alg p t s = call_enqueue alg p t ?s"
    by (simp add: ready_and_enqueue_def)
  have rest: "same_rest s (call_enqueue alg p t ?s)"
    by (rule same_rest_trans [OF _ ys(3)]) (blast intro: same_rest_trans same_rest_set_task)
  have "links_only UNIV ?ts (tasks ?s)"
    by (simp add: links_only_trans [OF links_only_set_previous links_only_set_next])
  then have lo: "links_only UNIV ?ts (tasks (call_enqueue alg p t ?s))"
    by (rule links_only_trans) (rule links_only_mono [OF ys(4)], simp)
  have "set ys = insert t (set (qs p))" using arg_cong [OF ys(2), of set_mset] by simp
  then have "ready_queues (call_enqueue alg p t ?s) (qs(p := ys))"
    using q t p by (auto simp: queued_def ready_queues_def idle_of_def links_only_fields [OF lo] upd_task_apply
        same_rest_fields [OF rest])
  with ys lo rest eq show ?thesis by (auto simp: queued_def)
qed

text \<open>Taking a task out of its queue and moving it to another state.\<close>

lemma call_dequeue_queued:
  assumes q: "queued alg holds s qs" and t: "state (tasks s t) = TASK_READY" "\<not> idle_of s t"
    and p: "policy_valid p" "policy (tasks s t) = p" and st: "st \<noteq> TASK_READY"
  shows "\<exists>ys s'. set_task t (state_update (\<lambda>_. st)) (call_dequeue alg p t s) = s' \<and>
    queued alg holds s' (qs(p := ys)) \<and> mset ys = mset (qs p) - {#t#} \<and> same_rest s s' \<and>
    links_only UNIV (upd_task t (state_update (\<lambda>_. st)) (tasks s)) (tasks s')"
proof -
  have tin: "t \<in> set (qs p)" using q t p by (auto simp: queued_def ready_queues_def)
  have sh: "slots_hold alg holds s qs" using q by (simp add: queued_def)
  from call_dequeue_hold [OF sh p(1) tin] obtain ys where ys:
      "slots_hold alg holds (call_dequeue alg p t s) (qs(p := ys))" "mset ys = mset (qs p) - {#t#}"
      "same_rest s (call_dequeue alg p t s)" "links_only (set (qs p)) (tasks s) (tasks (call_dequeue alg p t s))" by blast
  define s' where "s' = set_task t (state_update (\<lambda>_. st)) (call_dequeue alg p t s)"
  have "set ys = set (qs p) - {t}" by (rule mset_remove_set [OF ys(2) slots_hold_distinct [OF sh p(1)]])
  moreover have lo0: "links_only UNIV (tasks s) (tasks (call_dequeue alg p t s))"
    by (rule links_only_mono [OF ys(4)]) simp
  have lo: "links_only UNIV (upd_task t (state_update (\<lambda>_. st)) (tasks s)) (tasks s')"
    unfolding links_only_def
  proof (intro conjI allI impI)
    fix x
    obtain a b where "tasks (call_dequeue alg p t s) x = (tasks s x)\<lparr>sched_previous := a, sched_next := b\<rparr>"
      using lo0 unfolding links_only_def by blast
    then show "\<exists>a b. tasks s' x = (upd_task t (state_update (\<lambda>_. st)) (tasks s) x)\<lparr>sched_previous := a, sched_next := b\<rparr>"
      by (intro exI [of _ a] exI [of _ b], cases "tasks s x") (auto simp: s'_def upd_task_apply)
  qed simp
  moreover have rest: "same_rest s s'" unfolding s'_def by (rule same_rest_trans [OF ys(3)]) simp
  moreover have "slots_hold alg holds s' (qs(p := ys))"
    by (rule slots_hold_frame [OF ys(1)]) (simp_all add: s'_def upd_task_apply)
  ultimately have "queued alg holds s' (qs(p := ys))"
    using q t p st by (auto simp: queued_def ready_queues_def idle_of_def links_only_fields [OF lo] upd_task_apply
        same_rest_fields [OF rest])
  then show ?thesis using ys(2) rest lo s'_def by blast
qed

text \<open>The scan over the bands.\<close>

lemma pick_next_loop_hold:
  assumes "slots_hold alg holds s qs" "\<forall>p \<in> set ps. policy_valid p"
  shows "\<exists>r s'. pick_next_loop ps s = (r, s') \<and> same_rest s s' \<and> links_only UNIV (tasks s) (tasks s') \<and>
    (case r of
       None \<Rightarrow> slots_hold alg holds s' qs \<and> (\<forall>p \<in> set ps. qs p = [])
     | Some t \<Rightarrow> \<exists>as p bs ys. ps = as @ p # bs \<and> (\<forall>p' \<in> set as. qs p' = []) \<and> t \<in> set (qs p) \<and>
         slots_hold alg holds s' (qs(p := ys)) \<and> mset ys = mset (qs p) - {#t#})"
  using assms
proof (induction ps arbitrary: s)
  case (Cons p ps)
  have p: "policy_valid p" and ps: "\<forall>p \<in> set ps. policy_valid p" using Cons.prems(2) by simp_all
  have sl: "slot_algorithm p s = Some alg" by (rule slots_hold_slot [OF Cons.prems(1) p])
  obtain r s1 ys where c: "call_pick_next alg p s = (r, s1)" "slots_hold alg holds s1 (qs(p := ys))" "same_rest s s1"
      "links_only (set (qs p)) (tasks s) (tasks s1)"
      "case r of None \<Rightarrow> qs p = [] \<and> ys = [] | Some t \<Rightarrow> t \<in> set (qs p) \<and> mset ys = mset (qs p) - {#t#}"
    using call_pick_hold [OF Cons.prems(1) p] by blast
  have lo: "links_only UNIV (tasks s) (tasks s1)" by (rule links_only_mono [OF c(4)]) simp
  show ?case
  proof (cases r)
    case None
    with c(5) have e: "qs p = []" "qs(p := ys) = qs" by auto
    with c(2) have "slots_hold alg holds s1 qs" by simp
    from Cons.IH [OF this ps] obtain r2 s2 where i: "pick_next_loop ps s1 = (r2, s2)" "same_rest s1 s2"
        "links_only UNIV (tasks s1) (tasks s2)"
        "case r2 of None \<Rightarrow> slots_hold alg holds s2 qs \<and> (\<forall>p \<in> set ps. qs p = [])
         | Some t \<Rightarrow> \<exists>as p bs ys. ps = as @ p # bs \<and> (\<forall>p' \<in> set as. qs p' = []) \<and> t \<in> set (qs p) \<and>
           slots_hold alg holds s2 (qs(p := ys)) \<and> mset ys = mset (qs p) - {#t#}" by blast
    have run: "pick_next_loop (p # ps) s = (r2, s2)" using sl c(1) None i(1) by simp
    have "same_rest s s2" "links_only UNIV (tasks s) (tasks s2)"
      using same_rest_trans [OF c(3) i(2)] links_only_trans [OF lo i(3)] by simp_all
    moreover have "case r2 of None \<Rightarrow> slots_hold alg holds s2 qs \<and> (\<forall>p' \<in> set (p # ps). qs p' = [])
         | Some t \<Rightarrow> \<exists>as p' bs ys. p # ps = as @ p' # bs \<and> (\<forall>p' \<in> set as. qs p' = []) \<and> t \<in> set (qs p') \<and>
           slots_hold alg holds s2 (qs(p' := ys)) \<and> mset ys = mset (qs p') - {#t#}"
    proof (cases r2)
      case (Some t)
      with i(4) obtain as p' bs ys where "ps = as @ p' # bs" "\<forall>p' \<in> set as. qs p' = []" "t \<in> set (qs p')"
          "slots_hold alg holds s2 (qs(p' := ys))" "mset ys = mset (qs p') - {#t#}" by auto
      moreover from this have "p # ps = (p # as) @ p' # bs" "\<forall>p' \<in> set (p # as). qs p' = []" using e by simp_all
      ultimately show ?thesis unfolding Some option.case by blast
    qed (use i(4) e in simp)
    ultimately show ?thesis using run by blast
  next
    case (Some t)
    have run: "pick_next_loop (p # ps) s = (Some t, s1)" using sl c(1) Some by simp
    have "p # ps = [] @ p # ps \<and> (\<forall>p' \<in> set []. qs p' = []) \<and> t \<in> set (qs p) \<and>
        slots_hold alg holds s1 (qs(p := ys)) \<and> mset ys = mset (qs p) - {#t#}" using c(2,5) Some by simp
    then have "\<exists>as p' bs ys. p # ps = as @ p' # bs \<and> (\<forall>p' \<in> set as. qs p' = []) \<and> t \<in> set (qs p') \<and>
        slots_hold alg holds s1 (qs(p' := ys)) \<and> mset ys = mset (qs p') - {#t#}" by blast
    with run c(3) lo show ?thesis by (intro exI [of _ "Some t"] exI [of _ s1]) simp
  qed
qed simp

end

section \<open>Operations outside the run queues\<close>

text \<open>The queues a parked task waits in, and the objects around them.\<close>

definition park_same :: "'q kernel \<Rightarrow> 'q kernel \<Rightarrow> bool" where
  "park_same s s' \<longleftrightarrow> wait_queues s' = wait_queues s \<and> semaphore_count s' = semaphore_count s \<and>
     mutexes s' = mutexes s \<and> sleep_head s' = sleep_head s \<and> sleep_tail s' = sleep_tail s \<and>
     (\<forall>x. wait_previous (tasks s' x) = wait_previous (tasks s x) \<and> wait_next (tasks s' x) = wait_next (tasks s x) \<and>
        waiting_on (tasks s' x) = waiting_on (tasks s x) \<and> sleep_previous (tasks s' x) = sleep_previous (tasks s x) \<and>
        sleep_next (tasks s' x) = sleep_next (tasks s x) \<and> wake_tick (tasks s' x) = wake_tick (tasks s x))"

definition parked :: "task_state \<Rightarrow> bool" where
  "parked u \<longleftrightarrow> u = TASK_BLOCKED \<or> u = TASK_SLEEPING"

lemma parked_simps [simp]:
  "parked TASK_BLOCKED" "parked TASK_SLEEPING" "\<not> parked TASK_RUNNING" "\<not> parked TASK_READY"
  "\<not> parked TASK_NEW" "\<not> parked TASK_ZOMBIE"
  by (simp_all add: parked_def)

text \<open>No task is parked or released, apart from those in \<open>A\<close>.\<close>

definition parks_same :: "tid set \<Rightarrow> 'q kernel \<Rightarrow> 'q kernel \<Rightarrow> bool" where
  "parks_same A s s' \<longleftrightarrow> (\<forall>x. x \<notin> A \<longrightarrow> parked (state (tasks s x)) \<or> parked (state (tasks s' x)) \<longrightarrow>
     state (tasks s' x) = state (tasks s x))"

lemma parks_same_eq: "(\<And>x. state (tasks s' x) = state (tasks s x)) \<Longrightarrow> parks_same A s s'"
  by (simp add: parks_same_def)

lemma park_same_trans [trans]: "park_same s s' \<Longrightarrow> park_same s' s'' \<Longrightarrow> park_same s s''"
  by (simp add: park_same_def)

lemma park_same_refl [simp]: "park_same s s"
  by (simp add: park_same_def)

lemma park_same_links:
  assumes "same_rest s s'" "links_only UNIV (upd_task t (state_update (\<lambda>_. u)) (tasks s)) (tasks s')"
  shows "park_same s s'"
  using same_rest_fields [OF assms(1)] links_only_fields [OF assms(2)] by (simp add: park_same_def upd_task_apply)

lemma park_same_set_hw [simp]: "park_same s (set_hw c f s)"
  by (simp add: park_same_def)

lemma park_same_set_cpu [simp]: "park_same s (set_cpu c g s)"
  by (simp add: park_same_def)

lemma park_same_unlock [simp]: "park_same s (spin_unlock_irqrestore c flags s)"
  by (simp add: spin_unlock_irqrestore_def interrupt_restore_def)

lemma spin_lock_eq: "spin_lock_irqsave c s = (eflags (hw s c), set_hw c (eflags_update (\<lambda>f. f AND NOT IF_FLAG)) s)"
  by (simp add: spin_lock_irqsave_def interrupt_save_disable_def)

lemma sched_same_unlock [simp]: "sched_same s (spin_unlock_irqrestore c flags s)"
  by (simp add: spin_unlock_irqrestore_def interrupt_restore_def)

lemma unlock_frame [simp, kernel_frame]:
  "tasks (spin_unlock_irqrestore c flags s) = tasks s" "cpus (spin_unlock_irqrestore c flags s) = cpus s"
  "cpu_count (spin_unlock_irqrestore c flags s) = cpu_count s"
  "policy_slots (spin_unlock_irqrestore c flags s) = policy_slots s"
  "wait_queues (spin_unlock_irqrestore c flags s) = wait_queues s"
  "semaphore_count (spin_unlock_irqrestore c flags s) = semaphore_count s"
  "mutexes (spin_unlock_irqrestore c flags s) = mutexes s"
  "address_spaces (spin_unlock_irqrestore c flags s) = address_spaces s"
  "cleanup_head (spin_unlock_irqrestore c flags s) = cleanup_head s"
  "cleanup_tail (spin_unlock_irqrestore c flags s) = cleanup_tail s"
  "reaper_task (spin_unlock_irqrestore c flags s) = reaper_task s"
  by (simp_all add: spin_unlock_irqrestore_def interrupt_restore_def)

lemma request_frame [simp, kernel_frame]:
  "tasks (request_local_reschedule c s) = tasks s" "tasks (smp_request_reschedule c s) = tasks s"
  "cpu_count (request_local_reschedule c s) = cpu_count s" "cpu_count (smp_request_reschedule c s) = cpu_count s"
  "wait_queues (request_local_reschedule c s) = wait_queues s" "wait_queues (smp_request_reschedule c s) = wait_queues s"
  "semaphore_count (request_local_reschedule c s) = semaphore_count s"
  "semaphore_count (smp_request_reschedule c s) = semaphore_count s"
  "mutexes (request_local_reschedule c s) = mutexes s" "mutexes (smp_request_reschedule c s) = mutexes s"
  "sleep_head (request_local_reschedule c s) = sleep_head s" "sleep_head (smp_request_reschedule c s) = sleep_head s"
  "sleep_tail (request_local_reschedule c s) = sleep_tail s" "sleep_tail (smp_request_reschedule c s) = sleep_tail s"
  "cleanup_head (request_local_reschedule c s) = cleanup_head s" "cleanup_head (smp_request_reschedule c s) = cleanup_head s"
  "cleanup_tail (request_local_reschedule c s) = cleanup_tail s" "cleanup_tail (smp_request_reschedule c s) = cleanup_tail s"
  "reaper_task (request_local_reschedule c s) = reaper_task s" "reaper_task (smp_request_reschedule c s) = reaper_task s"
  by (simp_all add: request_local_reschedule_def smp_request_reschedule_def split: option.split)

lemma unlock_sleep_frame [simp, kernel_frame]:
  "sleep_head (spin_unlock_irqrestore c flags s) = sleep_head s" "sleep_tail (spin_unlock_irqrestore c flags s) = sleep_tail s"
  by (simp_all add: spin_unlock_irqrestore_def interrupt_restore_def)

lemma request_local_current [simp]:
  "current_task (cpus (request_local_reschedule c s) c') = current_task (cpus s c')"
  "idle_task (cpus (request_local_reschedule c s) c') = idle_task (cpus s c')"
  "current_task (cpus (smp_request_reschedule c s) c') = current_task (cpus s c')"
  "idle_task (cpus (smp_request_reschedule c s) c') = idle_task (cpus s c')"
  by (simp_all add: request_local_reschedule_def smp_request_reschedule_def split: option.split)

lemma sched_same_set_cpu:
  "(\<And>x. current_task (g x) = current_task x) \<Longrightarrow> (\<And>x. idle_task (g x) = idle_task x) \<Longrightarrow> sched_same s (set_cpu c g s)"
  by (simp add: sched_same_def)

lemma sched_same_request_local [simp]: "sched_same s (request_local_reschedule c s)"
  by (auto simp: request_local_reschedule_def intro!: sched_same_set_cpu split: option.split)

lemma sched_same_smp_request [simp]: "sched_same s (smp_request_reschedule c s)"
  by (simp add: sched_same_def smp_request_reschedule_def)

lemma sched_same_ipi [simp]: "sched_same s (lapic_reschedule_handler c s)"
  by (auto simp: sched_same_def lapic_reschedule_handler_def Let_def split: option.split)

lemma sched_same_account [simp]: "sched_same s (cpu_account_scheduler_tick c b s)"
  by (auto simp: sched_same_def cpu_account_scheduler_tick_def Let_def split: option.split)

lemma sched_same_set_task:
  "(\<And>x. state (f x) = state x \<and> policy (f x) = policy x \<and> stack_base (f x) = stack_base x \<and>
      stack_size (f x) = stack_size x \<and> sched_previous (f x) = sched_previous x \<and> sched_next (f x) = sched_next x) \<Longrightarrow>
    sched_same s (set_task t f s)"
  by (simp add: sched_same_def upd_task_apply)

lemma cpus_ok_current:
  "cpus_ok s \<Longrightarrow> c < cpu_count s \<Longrightarrow> \<exists>t. runs s c t \<and> state (tasks s t) \<in> {TASK_RUNNING, TASK_ZOMBIE}"
  unfolding cpus_ok_def by blast

lemma cpus_ok_idle_inj:
  "cpus_ok s \<Longrightarrow> \<forall>c < cpu_count s. \<forall>c' < cpu_count s. idle_task (cpus s c) = idle_task (cpus s c') \<longrightarrow> c = c'"
  unfolding cpus_ok_def by blast

lemma idle_unique:
  assumes "cpus_ok s" "c < cpu_count s" "c' < cpu_count s" "idle_task (cpus s c) = Some x" "idle_task (cpus s c') = Some x"
  shows "c = c'"
  using cpus_ok_idle_inj [OF assms(1)] assms(2-5) by simp

lemma cpus_ok_fields:
  assumes "cpus_ok s" "cpus s' = cpus s" "cpu_count s' = cpu_count s"
    and "\<And>x. state (tasks s' x) = state (tasks s x)"
    and "\<And>x. stack_base (tasks s' x) = stack_base (tasks s x)" "\<And>x. stack_size (tasks s' x) = stack_size (tasks s x)"
    and "\<And>x. policy_valid (policy (tasks s' x))"
  shows "cpus_ok s'"
  using assms by (simp add: cpus_ok_def runs_def idle_of_def task_managed_def)

text \<open>A task that runs nowhere changes its state.\<close>

lemma cpus_ok_restate:
  assumes "cpus_ok s" "cpus s' = cpus s" "cpu_count s' = cpu_count s"
    and "\<And>x. stack_base (tasks s' x) = stack_base (tasks s x) \<and> stack_size (tasks s' x) = stack_size (tasks s x)"
    and "\<And>x. policy_valid (policy (tasks s' x))"
    and "\<And>x. x \<noteq> t \<Longrightarrow> state (tasks s' x) = state (tasks s x)"
    and "\<not> idle_of s t" "state (tasks s' t) = TASK_ZOMBIE \<or> (\<forall>c. \<not> runs s c t)" "state (tasks s' t) \<noteq> TASK_RUNNING"
  shows "cpus_ok s'"
proof -
  have runs: "runs s' = runs s" and idle: "idle_of s' = idle_of s" and man: "task_managed (tasks s') = task_managed (tasks s)"
    using assms(2-4) by (auto simp: runs_def idle_of_def task_managed_def fun_eq_iff)
  have "\<exists>x. runs s' c x \<and> state (tasks s' x) \<in> {TASK_RUNNING, TASK_ZOMBIE}" if c: "c < cpu_count s'" for c
  proof -
    obtain x where "runs s c x" "state (tasks s x) \<in> {TASK_RUNNING, TASK_ZOMBIE}"
      using cpus_ok_current [OF assms(1), of c] c unfolding assms(3) by blast
    then show ?thesis using assms(6) [of x] assms(8) runs by (cases "x = t") auto
  qed
  moreover have "\<exists>x. idle_task (cpus s' c) = Some x \<and> task_managed (tasks s') x \<and>
      state (tasks s' x) \<in> {TASK_READY, TASK_RUNNING} \<and> (\<forall>c'. runs s' c' x \<longrightarrow> c' = c)" if c: "c < cpu_count s'" for c
  proof -
    obtain x where x: "idle_task (cpus s c) = Some x" "task_managed (tasks s) x" "state (tasks s x) \<in> {TASK_READY, TASK_RUNNING}"
        "\<forall>c'. runs s c' x \<longrightarrow> c' = c"
      using assms(1) c unfolding cpus_ok_def assms(3) by blast
    moreover have "x \<noteq> t" using x(1) c assms(3,7) by (auto simp: idle_of_def)
    ultimately show ?thesis using assms(2) assms(6) [of x] runs man by auto
  qed
  moreover have "\<exists>c. runs s' c x" if "state (tasks s' x) = TASK_RUNNING" "task_managed (tasks s') x" "\<not> idle_of s' x" for x
  proof -
    have "x \<noteq> t" using that(1) assms(9) by auto
    with that assms(1) assms(6) [of x] man idle runs show ?thesis unfolding cpus_ok_def by auto
  qed
  moreover have "\<forall>c < cpu_count s'. \<forall>c' < cpu_count s'. idle_task (cpus s' c) = idle_task (cpus s' c') \<longrightarrow> c = c'"
    using cpus_ok_idle_inj [OF assms(1)] assms(2,3) by simp
  moreover have "\<forall>c c' t. runs s c t \<and> runs s c' t \<longrightarrow> c = c'" using assms(1) unfolding cpus_ok_def by blast
  ultimately show ?thesis using assms(5) unfolding cpus_ok_def runs by blast
qed

lemma cpus_ok_state:
  assumes "cpus_ok s" "cpus s' = cpus s" "cpu_count s' = cpu_count s"
    and "\<And>x. stack_base (tasks s' x) = stack_base (tasks s x) \<and> stack_size (tasks s' x) = stack_size (tasks s x)"
    and "\<And>x. policy_valid (policy (tasks s' x))"
    and "\<And>x. x \<noteq> t \<Longrightarrow> state (tasks s' x) = state (tasks s x)"
    and "\<not> idle_of s t" "\<And>c. \<not> runs s c t" "state (tasks s' t) \<noteq> TASK_RUNNING"
  shows "cpus_ok s'"
  by (rule cpus_ok_restate [OF assms(1-7)]) (use assms(8,9) in auto)

lemma cpus_ok_policy: "cpus_ok s \<Longrightarrow> policy_valid (policy (tasks s t))"
  by (simp add: cpus_ok_def)

lemma cpus_ok_running: "cpus_ok s \<Longrightarrow> runs s c t \<Longrightarrow> state (tasks s t) \<in> {TASK_RUNNING, TASK_ZOMBIE}"
  unfolding cpus_ok_def runs_def by fastforce

lemma cpus_ok_idle: "cpus_ok s \<Longrightarrow> idle_of s t \<Longrightarrow> state (tasks s t) \<in> {TASK_READY, TASK_RUNNING}"
  unfolding cpus_ok_def idle_of_def by (metis option.sel)

context run_queue
begin

lemma ready_inv:
  assumes inv: "sched_inv alg holds s" and t: "state (tasks s t) \<notin> {TASK_READY, TASK_RUNNING, TASK_ZOMBIE}" "\<not> idle_of s t"
  shows "sched_inv alg holds (ready_and_enqueue alg (policy (tasks s t)) t s)"
proof -
  let ?p = "policy (tasks s t)"
  let ?s = "ready_and_enqueue alg ?p t s"
  obtain qs where q: "queued alg holds s qs" and ok: "cpus_ok s" using inv by (auto simp: sched_inv_def)
  have "state (tasks s t) \<noteq> TASK_READY" using t by auto
  from ready_and_enqueue_queued [OF q this t(2) cpus_ok_policy [OF ok] refl] obtain ys where ys:
      "queued alg holds ?s (qs(?p := ys))" "same_rest s ?s"
      "links_only UNIV (upd_task t (state_update (\<lambda>_. TASK_READY)) (tasks s)) (tasks ?s)" by blast
  note f = links_only_fields [OF ys(3)]
  have "cpus_ok ?s"
  proof (rule cpus_ok_state [OF ok, of _ t])
    show "policy_valid (policy (tasks ?s x))" for x
      using cpus_ok_policy [OF ok, of x] by (cases "x = t") (simp_all add: f upd_task_apply)
    show "\<not> runs s c t" for c using cpus_ok_running [OF ok, of c t] t(1) by auto
  qed (use t in \<open>simp_all add: same_rest_fields [OF ys(2)] f upd_task_apply\<close>)
  with ys(1) show ?thesis by (auto simp: sched_inv_def)
qed

lemma inv_set_hw [simp]: "sched_inv alg holds (set_hw c f s) \<longleftrightarrow> sched_inv alg holds s"
proof -
  have "sched_same (set_hw c f s) s" by (simp add: sched_same_def)
  then show ?thesis using sched_same_inv sched_same_set_hw by blast
qed

lemma inv_unlock [simp]: "sched_inv alg holds (spin_unlock_irqrestore c flags s) \<longleftrightarrow> sched_inv alg holds s"
  by (simp add: spin_unlock_irqrestore_def interrupt_restore_def)

lemma inv_slot: "sched_inv alg holds s \<Longrightarrow> slot_algorithm (policy (tasks s t)) s = Some alg"
  unfolding sched_inv_def using queued_slot cpus_ok_policy by blast

lemma inv_idle: "sched_inv alg holds s \<Longrightarrow> idle_of s t \<Longrightarrow> state (tasks s t) \<in> {TASK_READY, TASK_RUNNING}"
  unfolding sched_inv_def using cpus_ok_idle by blast

lemma idle_of_set_hw [simp]: "idle_of (set_hw c f s) = idle_of s"
  by (simp add: idle_of_def fun_eq_iff)

lemma slot_algorithm_set_hw [simp]: "slot_algorithm p (set_hw c f s) = slot_algorithm p s"
  by (simp add: slot_algorithm_def get_slot_def)

theorem scheduler_wake_inv:
  assumes "sched_inv alg holds s"
  shows "sched_inv alg holds (scheduler_wake c task s)"
proof (cases task)
  case (Some t)
  let ?s = "set_hw c (eflags_update (\<lambda>f. f AND NOT IF_FLAG)) s"
  show ?thesis
  proof (cases "state (tasks s t) = TASK_BLOCKED \<or> state (tasks s t) = TASK_SLEEPING")
    case True
    then have "sched_inv alg holds (ready_and_enqueue alg (policy (tasks ?s t)) t ?s)"
      using assms inv_idle [OF assms, of t] by (intro ready_inv) auto
    then show ?thesis
      using True Some inv_slot [OF assms, of t]
      by (auto simp: scheduler_wake_def spin_lock_eq Let_def
          intro!: sched_same_inv [OF sched_same_smp_request] sched_same_inv [OF sched_same_request_local])
  qed (use assms Some in \<open>simp add: scheduler_wake_def spin_lock_eq Let_def\<close>)
qed (use assms in \<open>simp add: scheduler_wake_def\<close>)

theorem scheduler_make_ready_inv:
  assumes "sched_inv alg holds s"
    and "\<And>t. task = Some t \<Longrightarrow> state (tasks s t) \<notin> {TASK_RUNNING, TASK_ZOMBIE} \<and> \<not> idle_of s t"
  shows "sched_inv alg holds (scheduler_make_ready c task s)"
proof (cases task)
  case (Some t)
  let ?s = "set_hw c (eflags_update (\<lambda>f. f AND NOT IF_FLAG)) s"
  have "sched_inv alg holds (ready_and_enqueue alg (policy (tasks ?s t)) t ?s)" if "state (tasks s t) \<noteq> TASK_READY"
    using assms that Some by (intro ready_inv) auto
  then show ?thesis
    using assms(1) Some inv_slot [OF assms(1), of t]
    by (auto simp: scheduler_make_ready_def spin_lock_eq Let_def intro!: sched_same_inv [OF sched_same_smp_request])
qed (use assms in \<open>simp add: scheduler_make_ready_def\<close>)

theorem task_publish_inv:
  assumes "sched_inv alg holds s" and "\<And>t. task = Some t \<Longrightarrow> \<not> idle_of s t"
  shows "sched_inv alg holds (task_publish c task s)"
  using assms by (auto simp: task_publish_def intro!: scheduler_make_ready_inv split: option.split)

end

section \<open>The switch\<close>

text \<open>Processor \<open>c\<close> leaves \<open>t\<close>, which goes to state \<open>u\<close>, and runs \<open>n\<close>.\<close>

lemma cpus_ok_switch:
  assumes ok: "cpus_ok s" and t: "runs s c t"
    and cpus: "cpu_count s' = cpu_count s" "\<And>c'. idle_task (cpus s' c') = idle_task (cpus s c')"
      "\<And>c'. current_task (cpus s' c') = (if c' = c then Some n else current_task (cpus s c'))"
    and stack: "\<And>x. stack_base (tasks s' x) = stack_base (tasks s x) \<and> stack_size (tasks s' x) = stack_size (tasks s x)"
    and pol: "\<And>x. policy (tasks s' x) = policy (tasks s x)"
    and st: "\<And>x. state (tasks s' x) = (if x = n then TASK_RUNNING else if x = t then u else state (tasks s x))"
    and n: "n = t \<or> state (tasks s n) = TASK_READY \<or> idle_task (cpus s c) = Some n"
    and n_idle: "idle_of s n \<Longrightarrow> idle_task (cpus s c) = Some n"
    and u: "u = TASK_RUNNING \<Longrightarrow> \<not> task_managed (tasks s) t \<or> idle_of s t"
      "idle_of s t \<Longrightarrow> u \<in> {TASK_READY, TASK_RUNNING}"
  shows "cpus_ok s'"
proof -
  have man: "task_managed (tasks s') = task_managed (tasks s)" and idle: "idle_of s' = idle_of s"
    using stack cpus(1,2) by (auto simp: task_managed_def idle_of_def fun_eq_iff)
  have c: "c < cpu_count s" using t by (simp add: runs_def)
  have runs: "runs s' c' x \<longleftrightarrow> (if c' = c then x = n else runs s c' x)" for c' x
    using cpus c by (auto simp: runs_def)
  have uniq: "c' = c" if "runs s c' n" for c'
    using n
  proof (elim disjE)
    assume "n = t" then show ?thesis using ok t that unfolding cpus_ok_def by blast
  next
    assume "state (tasks s n) = TASK_READY" then show ?thesis using cpus_ok_running [OF ok that] by simp
  next
    assume "idle_task (cpus s c) = Some n" then show ?thesis using ok c that unfolding cpus_ok_def by fastforce
  qed
  have tuniq: "c' = c" if "runs s c' t" for c' using ok t that unfolding cpus_ok_def by blast
  have "\<exists>x. runs s' c' x \<and> state (tasks s' x) \<in> {TASK_RUNNING, TASK_ZOMBIE}" if c': "c' < cpu_count s'" for c'
  proof (cases "c' = c")
    case True
    then show ?thesis using runs [of c n] st [of n] by auto
  next
    case False
    obtain x where "runs s c' x" "state (tasks s x) \<in> {TASK_RUNNING, TASK_ZOMBIE}"
      using cpus_ok_current [OF ok, of c'] c' unfolding cpus(1) by blast
    moreover from this have "x \<noteq> t" using tuniq False by auto
    ultimately show ?thesis using runs [of c' x] st [of x] False by (intro exI [of _ x]) auto
  qed
  moreover have "c1 = c2" if "runs s' c1 x" "runs s' c2 x" for c1 c2 x
    using that ok uniq unfolding runs cpus_ok_def by (metis (full_types))
  moreover have "\<exists>x. idle_task (cpus s' c') = Some x \<and> task_managed (tasks s') x \<and>
      state (tasks s' x) \<in> {TASK_READY, TASK_RUNNING} \<and> (\<forall>c''. runs s' c'' x \<longrightarrow> c'' = c')" if c': "c' < cpu_count s'" for c'
  proof -
    obtain x where x: "idle_task (cpus s c') = Some x" "task_managed (tasks s) x" "state (tasks s x) \<in> {TASK_READY, TASK_RUNNING}"
        "\<forall>c''. runs s c'' x \<longrightarrow> c'' = c'"
      using ok c' unfolding cpus_ok_def cpus(1) by blast
    have i: "idle_of s x" using x(1) c' cpus(1) by (auto simp: idle_of_def)
    have "state (tasks s' x) \<in> {TASK_READY, TASK_RUNNING}" using x(3) st [of x] u(2) i by auto
    moreover have "c'' = c'" if r: "runs s' c'' x" for c''
    proof (cases "c'' = c")
      case True
      then have "x = n" using r runs by simp
      then have "idle_task (cpus s c) = Some x" using n_idle i by simp
      then show ?thesis using True x ok c c' cpus(1) uniq \<open>x = n\<close> idle_unique [OF ok, of c c' x] by simp
    qed (use r runs x(4) in auto)
    ultimately show ?thesis using x cpus(2) man by auto
  qed
  moreover have "\<exists>c'. runs s' c' x" if x: "state (tasks s' x) = TASK_RUNNING" "task_managed (tasks s') x" "\<not> idle_of s' x" for x
  proof (cases "x = n")
    case True
    then show ?thesis using runs [of c n] by auto
  next
    case False
    then have "x \<noteq> t" using x u(1) st [of x] man idle by auto
    then obtain c' where "runs s c' x" using x st [of x] False ok man idle unfolding cpus_ok_def by auto
    moreover from this have "c' \<noteq> c" using t \<open>x \<noteq> t\<close> by (auto simp: runs_def)
    ultimately show ?thesis using runs [of c' x] by auto
  qed
  moreover have "\<forall>c < cpu_count s'. \<forall>c' < cpu_count s'. idle_task (cpus s' c) = idle_task (cpus s' c') \<longrightarrow> c = c'"
    using cpus_ok_idle_inj [OF ok] cpus(1,2) by simp
  moreover have "policy_valid (policy (tasks s' x))" for x using cpus_ok_policy [OF ok] pol by simp
  ultimately show ?thesis unfolding cpus_ok_def by blast
qed

context run_queue
begin

text \<open>The next task: the head of a queue, or the idle task when all are empty.\<close>

lemma pick_queued:
  assumes q: "queued alg holds s qs" and c: "c < cpu_count s" "idle_task (cpus s c) = Some i"
  shows "\<exists>n s'. scheduler_pick_next c s = (Some n, s') \<and> same_rest s s' \<and> links_only UNIV (tasks s) (tasks s') \<and>
    (\<exists>qs'. queued alg holds (set_task n (state_update (\<lambda>_. TASK_RUNNING)) s') qs') \<and>
    (n = i \<and> (\<forall>p. policy_valid p \<longrightarrow> qs p = []) \<or>
     \<not> idle_of s n \<and> state (tasks s n) = TASK_READY \<and>
       (\<forall>p. policy_valid p \<and> p < policy (tasks s n) \<longrightarrow> qs p = []))"
proof -
  have sh: "slots_hold alg holds s qs" and rq: "ready_queues s qs" using q by (auto simp: queued_def)
  have order: "\<forall>p \<in> set policy_order. policy_valid p" using policy_order_valid by simp
  from pick_next_loop_hold [OF sh order] obtain r s' where l: "pick_next_loop policy_order s = (r, s')" "same_rest s s'"
      "links_only UNIV (tasks s) (tasks s')"
    and r: "case r of None \<Rightarrow> slots_hold alg holds s' qs \<and> (\<forall>p \<in> set policy_order. qs p = [])
      | Some t \<Rightarrow> \<exists>as p bs ys. policy_order = as @ p # bs \<and> (\<forall>p' \<in> set as. qs p' = []) \<and> t \<in> set (qs p) \<and>
         slots_hold alg holds s' (qs(p := ys)) \<and> mset ys = mset (qs p) - {#t#}" by blast
  note f = links_only_fields [OF l(3)] and rest = same_rest_fields [OF l(2)]
  have idle: "idle_of (set_task n g s') = idle_of s" for n g
    using rest by (simp add: idle_of_def fun_eq_iff)
  show ?thesis
  proof (cases r)
    case None
    let ?s = "set_task i (state_update (\<lambda>_. TASK_RUNNING)) s'"
    have "slots_hold alg holds ?s qs"
      by (rule slots_hold_frame [of s']) (use r None in \<open>simp_all add: upd_task_apply\<close>)
    moreover have "idle_of s i" using c by (auto simp: idle_of_def)
    then have "ready_queues ?s qs" using rq by (auto simp: ready_queues_def idle upd_task_apply f)
    ultimately have "queued alg holds ?s qs" by (simp add: queued_def)
    moreover have "scheduler_pick_next c s = (Some i, s')"
      using l(1) None c rest by (simp add: scheduler_pick_next_def scheduler_idle_task_def cpu_current_def)
    ultimately show ?thesis using l(2,3) r None policy_order_valid by auto
  next
    case (Some n)
    then obtain as p bs ys where a: "policy_order = as @ p # bs" "\<forall>p' \<in> set as. qs p' = []" "n \<in> set (qs p)"
        "slots_hold alg holds s' (qs(p := ys))" "mset ys = mset (qs p) - {#n#}" using r by auto
    let ?s = "set_task n (state_update (\<lambda>_. TASK_RUNNING)) s'"
    have p: "policy_valid p" using order unfolding a(1) by simp
    have nq: "state (tasks s n) = TASK_READY" "policy (tasks s n) = p" "\<not> idle_of s n"
      using rq p a(3) by (auto simp: ready_queues_def)
    have ys: "set ys = set (qs p) - {n}" by (rule mset_remove_set [OF a(5) slots_hold_distinct [OF sh p]])
    have "slots_hold alg holds ?s (qs(p := ys))"
      by (rule slots_hold_frame [OF a(4)]) (simp_all add: upd_task_apply)
    moreover have "ready_queues ?s (qs(p := ys))"
      using rq ys nq p by (auto simp: ready_queues_def idle upd_task_apply f)
    ultimately have "queued alg holds ?s (qs(p := ys))" by (simp add: queued_def)
    moreover have "scheduler_pick_next c s = (Some n, s')" using l(1) Some by (simp add: scheduler_pick_next_def)
    moreover have "qs p' = []" if "policy_valid p'" "p' < p" for p'
    proof -
      have "p' \<in> set as" using that a(1) unfolding policy_order_def less_sched_policy_def
        by (cases p'; cases p) (auto simp: Cons_eq_append_conv policy_valid_def)
      then show ?thesis using a(2) by simp
    qed
    ultimately show ?thesis using l(2,3) nq by blast
  qed
qed

end

text \<open>What the switch code itself changes.\<close>

lemma sched_same_entry_stack:
  "scheduler_update_kernel_entry_stack c t s = Some s' \<Longrightarrow> sched_same s s'"
  by (auto simp: scheduler_update_kernel_entry_stack_def gdt_set_current_kernel_stack_def gdt_set_kernel_stack_def Let_def
      split: if_splits option.splits prod.splits bool.splits)

lemma sched_same_address_space:
  "scheduler_update_address_space c t s = Some s' \<Longrightarrow> sched_same s s'"
  by (auto simp: scheduler_update_address_space_def paging_switch_directory_def Let_def
      split: if_splits option.splits prod.splits bool.splits)

lemma park_same_entry_stack:
  "scheduler_update_kernel_entry_stack c t s = Some s' \<Longrightarrow> park_same s s'"
  by (auto simp: scheduler_update_kernel_entry_stack_def gdt_set_current_kernel_stack_def gdt_set_kernel_stack_def Let_def
      split: if_splits option.splits prod.splits bool.splits)

lemma park_same_address_space:
  "scheduler_update_address_space c t s = Some s' \<Longrightarrow> park_same s s'"
  by (auto simp: scheduler_update_address_space_def paging_switch_directory_def Let_def
      split: if_splits option.splits prod.splits bool.splits)

lemma park_same_context_switch [simp]: "park_same s (arch_context_switch c old new s)"
  by (simp add: park_same_def arch_context_switch_def Let_def upd_task_apply)

lemma park_same_handoff: "finish_switch_handoff c s = (p, s') \<Longrightarrow> park_same s s'"
  by (auto simp: finish_switch_handoff_def Let_def park_same_def split: option.splits if_splits)

lemma entry_stack_cpus: "scheduler_update_kernel_entry_stack c t s = Some s' \<Longrightarrow> cpus s' = cpus s"
  by (auto simp: scheduler_update_kernel_entry_stack_def gdt_set_current_kernel_stack_def gdt_set_kernel_stack_def Let_def
      split: if_splits option.splits prod.splits bool.splits)

lemma address_space_cpus: "scheduler_update_address_space c t s = Some s' \<Longrightarrow> cpus s' = cpus s"
  by (auto simp: scheduler_update_address_space_def paging_switch_directory_def Let_def
      split: if_splits option.splits prod.splits bool.splits)

lemma sched_same_context_switch [simp]: "sched_same s (arch_context_switch c old new s)"
  by (simp add: sched_same_def arch_context_switch_def Let_def upd_task_apply)

lemma context_switch_cpus [simp]: "cpus (arch_context_switch c old new s) = cpus s"
  by (simp add: arch_context_switch_def Let_def)

lemma sched_same_handoff: "finish_switch_handoff c s = (p, s') \<Longrightarrow> sched_same s s'"
  by (auto simp: finish_switch_handoff_def Let_def sched_same_def split: option.splits if_splits)

lemma switch_to_effect:
  assumes "switch_to c t n s = Some (prev, s')" "c < cpu_count s"
  shows "sched_same (set_cpu c (current_task_update (\<lambda>_. Some n)) s) s' \<and> park_same s s' \<and> prev = previous_task (cpus s c)"
proof -
  let ?s1 = "set_cpu c (scheduler_switch_lock_held_update (\<lambda>_. True)) s"
  let ?s2 = "set_cpu c (current_task_update (\<lambda>_. Some n)) ?s1"
  have cur: "task_internal_set_current c (Some n) ?s1 = ?s2"
    using assms(2) by (simp add: task_internal_set_current_def cpu_current_def)
  obtain s3 where s3: "scheduler_update_kernel_entry_stack c (Some n) ?s2 = Some s3"
    using assms(1) by (auto simp: switch_to_def cur Let_def split: option.splits)
  obtain s4 where s4: "scheduler_update_address_space c (Some n) s3 = Some s4"
    using assms(1) s3 by (auto simp: switch_to_def cur Let_def split: option.splits)
  let ?s5 = "arch_context_switch c t n (set_cpu c (reschedule_pending_update (\<lambda>_. False)) s4)"
  have fin: "finish_switch_handoff c ?s5 = (prev, s')"
    using assms(1) s3 s4 by (simp add: switch_to_def cur Let_def)
  have "sched_same (set_cpu c (current_task_update (\<lambda>_. Some n)) s) ?s2" by (simp add: sched_same_def)
  also note sched_same_entry_stack [OF s3]
  also note sched_same_address_space [OF s4]
  also have "sched_same s4 (set_cpu c (reschedule_pending_update (\<lambda>_. False)) s4)" by (simp add: sched_same_def)
  also have "sched_same (set_cpu c (reschedule_pending_update (\<lambda>_. False)) s4) ?s5" by simp
  also note sched_same_handoff [OF fin]
  finally have same: "sched_same (set_cpu c (current_task_update (\<lambda>_. Some n)) s) s'" .
  have "park_same s ?s2" by (simp add: park_same_def)
  also note park_same_entry_stack [OF s3]
  also note park_same_address_space [OF s4]
  also have "park_same s4 (set_cpu c (reschedule_pending_update (\<lambda>_. False)) s4)" by simp
  also have "park_same (set_cpu c (reschedule_pending_update (\<lambda>_. False)) s4) ?s5" by simp
  also note park_same_handoff [OF fin]
  finally have park: "park_same s s'" .
  have "cpu_count s4 = cpu_count s"
    using sched_same_entry_stack [OF s3] sched_same_address_space [OF s4] by (simp add: sched_same_def)
  then have "cpu_current c ?s5 = Some (cpus ?s5 c)"
    using assms(2) by (simp add: cpu_current_def arch_context_switch_def Let_def)
  then have "prev = previous_task (cpus ?s5 c)"
    using fin by (auto simp: finish_switch_handoff_def Let_def split: if_splits)
  then have "prev = previous_task (cpus s c)"
    using entry_stack_cpus [OF s3] address_space_cpus [OF s4] by simp
  with same park show ?thesis by blast
qed

context run_queue
begin

lemma queued_set_current [simp]:
  "queued alg holds (set_cpu c (current_task_update f) s) qs \<longleftrightarrow> queued alg holds s qs"
proof -
  have "slots_hold alg holds (set_cpu c (current_task_update f) s) qs \<longleftrightarrow> slots_hold alg holds s qs"
    by (simp add: slots_hold_def)
  moreover have "idle_of (set_cpu c (current_task_update f) s) = idle_of s" by (auto simp: idle_of_def fun_eq_iff)
  then have "ready_queues (set_cpu c (current_task_update f) s) qs \<longleftrightarrow> ready_queues s qs"
    by (simp add: ready_queues_def)
  ultimately show ?thesis by (simp add: queued_def)
qed

lemma notify_queued:
  assumes "queued alg holds s qs" "policy_valid (policy (tasks s n))"
  shows "queued alg holds (scheduler_notify_switch_in c (Some n) s) qs \<and>
    same_rest s (scheduler_notify_switch_in c (Some n) s) \<and>
    tasks (scheduler_notify_switch_in c (Some n) s) = tasks s"
proof (cases "Some n = scheduler_idle_task c s \<or> on_switch_in alg = None")
  case True
  then show ?thesis using assms queued_slot [OF assms] by (auto simp: scheduler_notify_switch_in_def)
next
  case False
  then obtain f where f: "on_switch_in alg = Some f" by auto
  let ?p = "policy (tasks s n)"
  have sh: "slots_hold alg holds s qs" using assms(1) by (simp add: queued_def)
  obtain q where q: "algorithm_state (policy_slots s ?p) = Some q" "holds q (tasks s) (qs ?p)"
    using sh assms(2) by (auto simp: slots_hold_def)
  obtain q' where q': "f (Some q) (Some n) = Some q'" "holds q' (tasks s) (qs ?p)"
    using switched_in [OF f q(2)] by blast
  have "scheduler_notify_switch_in c (Some n) s = set_slot_state ?p (Some q') s"
    using False f q(1) q'(1) queued_slot [OF assms] by (simp add: scheduler_notify_switch_in_def)
  moreover have "slots_hold alg holds (set_slot_state ?p (Some q') (s\<lparr>tasks := tasks s\<rparr>)) (qs(?p := qs ?p))"
    by (rule slots_hold_update [OF sh assms(2) q'(2), where A = "{}"])
       (use slots_hold_disjoint [OF sh _ assms(2)] in simp_all)
  moreover have "ready_queues (set_slot_state ?p (Some q') s) qs"
    using assms(1) by (simp add: queued_def ready_queues_def idle_of_def set_slot_state_def)
  ultimately show ?thesis by (simp add: queued_def)
qed

lemma requeue_queued:
  assumes q: "queued alg holds s qs" and pol: "policy_valid (policy (tasks s t))" and c: "c < cpu_count s"
    and idle: "idle_of s t \<Longrightarrow> idle_task (cpus s c) = Some t"
  shows "\<exists>qs' u. queued alg holds (requeue_current c (cpus s c) (Some t) s) qs' \<and>
    same_rest s (requeue_current c (cpus s c) (Some t) s) \<and>
    links_only UNIV (upd_task t (state_update (\<lambda>_. u)) (tasks s)) (tasks (requeue_current c (cpus s c) (Some t) s)) \<and>
    u = (if task_managed (tasks s) t \<and> \<not> idle_of s t \<and> state (tasks s t) = TASK_RUNNING then TASK_READY else state (tasks s t))"
proof -
  have i: "Some t = idle_task (cpus s c) \<longleftrightarrow> idle_of s t" using idle c unfolding idle_of_def by metis
  show ?thesis
  proof (cases "task_managed (tasks s) t \<and> \<not> idle_of s t \<and> state (tasks s t) = TASK_RUNNING")
    case True
    then have "requeue_current c (cpus s c) (Some t) s = ready_and_enqueue alg (policy (tasks s t)) t s"
      using i queued_slot [OF q pol] by (simp add: requeue_current_def)
    moreover have "state (tasks s t) \<noteq> TASK_READY" using True by simp
    ultimately show ?thesis using ready_and_enqueue_queued [OF q _ _ pol refl] True by auto
  next
    case False
    then have "requeue_current c (cpus s c) (Some t) s = s" using i by (auto simp: requeue_current_def)
    moreover have "upd_task t (state_update (\<lambda>_. state (tasks s t))) (tasks s) = tasks s"
      by (simp add: upd_task_def)
    ultimately show ?thesis using q False by auto
  qed
qed

text \<open>From the task to leave, in its new state \<open>u\<close>, over the choice of the next one to the switch.\<close>

lemma pick_and_install:
  assumes ok: "cpus_ok s" and t: "runs s c t" and q: "queued alg holds s1 qs1" and rest: "same_rest s s1"
    and eff: "links_only UNIV (upd_task t (state_update (\<lambda>_. u)) (tasks s)) (tasks s1)"
    and u: "u = TASK_RUNNING \<Longrightarrow> \<not> task_managed (tasks s) t \<or> idle_of s t"
      "idle_of s t \<Longrightarrow> u \<in> {TASK_READY, TASK_RUNNING}"
    and pick: "scheduler_pick_next c s1 = (next, s2)"
  shows "\<exists>n. next = Some n \<and>
    (let s3 = scheduler_notify_switch_in c (Some n) (set_task n (state_update (\<lambda>_. TASK_RUNNING)) s2)
     in (\<exists>qs'. queued alg holds s3 qs') \<and> same_rest s s3 \<and> park_same s s3 \<and>
        (\<forall>x. state (tasks s3 x) = (if x = n then TASK_RUNNING else if x = t then u else state (tasks s x))) \<and>
        (n = t \<or> \<not> parked (state (tasks s n))) \<and>
        (\<forall>s'. sched_same (set_cpu c (current_task_update (\<lambda>_. Some n)) s3) s' \<longrightarrow> sched_inv alg holds s'))"
proof -
  note r1 = same_rest_fields [OF rest] and f1 = links_only_fields [OF eff]
  have c: "c < cpu_count s" using t by (simp add: runs_def)
  obtain i where i: "idle_task (cpus s c) = Some i" using ok c unfolding cpus_ok_def by blast
  have c1: "c < cpu_count s1" "idle_task (cpus s1 c) = Some i" using c i by (simp_all add: r1)
  from pick_queued [OF q c1] obtain n s2' qs2 where p: "scheduler_pick_next c s1 = (Some n, s2')" "same_rest s1 s2'"
      "links_only UNIV (tasks s1) (tasks s2')" "queued alg holds (set_task n (state_update (\<lambda>_. TASK_RUNNING)) s2') qs2"
      "n = i \<or> \<not> idle_of s1 n \<and> state (tasks s1 n) = TASK_READY" by blast
  have eq: "next = Some n" "s2' = s2" using p(1) pick by simp_all
  let ?s2 = "set_task n (state_update (\<lambda>_. TASK_RUNNING)) s2"
  let ?s3 = "scheduler_notify_switch_in c (Some n) ?s2"
  note f2 = links_only_fields [OF p(3) [unfolded eq]]
  have pol: "policy (tasks ?s2 x) = policy (tasks s x)" for x by (simp add: upd_task_apply f1 f2)
  have nv: "policy_valid (policy (tasks ?s2 n))" unfolding pol by (rule cpus_ok_policy [OF ok])
  from notify_queued [OF p(4) [unfolded eq] nv, of c]
  have q3: "queued alg holds ?s3 qs2" and r3: "same_rest ?s2 ?s3" and t3: "tasks ?s3 = tasks ?s2" by auto
  have rest3: "same_rest s ?s3"
    using same_rest_trans [OF same_rest_trans [OF rest p(2) [unfolded eq]] same_rest_trans [OF same_rest_set_task r3]] .
  note r = same_rest_fields [OF rest3]
  have inv: "sched_inv alg holds s'" if same: "sched_same (set_cpu c (current_task_update (\<lambda>_. Some n)) ?s3) s'" for s'
  proof -
    let ?s4 = "set_cpu c (current_task_update (\<lambda>_. Some n)) ?s3"
    have idle1: "idle_of s1 = idle_of s" by (simp add: idle_of_def fun_eq_iff r1)
    have "cpus_ok ?s4"
    proof (rule cpus_ok_switch [OF ok t, of _ n _])
      show "n = t \<or> state (tasks s n) = TASK_READY \<or> idle_task (cpus s c) = Some n"
        using p(5) i f1(1) [of n] by (auto simp: upd_task_apply split: if_splits)
      show "idle_of s n \<Longrightarrow> idle_task (cpus s c) = Some n" using p(5) i idle1 by auto
      show "state (tasks ?s4 x) = (if x = n then TASK_RUNNING else if x = t then u else state (tasks s x))" for x
        by (simp add: t3 upd_task_apply f1 f2)
    qed (use u in \<open>simp_all add: r t3 upd_task_apply f1 f2\<close>)
    then have "sched_inv alg holds ?s4" using q3 by (auto simp: sched_inv_def)
    then show ?thesis by (rule sched_same_inv [OF same])
  qed
  have st: "state (tasks ?s3 x) = (if x = n then TASK_RUNNING else if x = t then u else state (tasks s x))" for x
    by (simp add: t3 upd_task_apply f1 f2)
  have np: "n = t \<or> \<not> parked (state (tasks s n))"
  proof (cases "n = i")
    case True
    then have "idle_of s n" using i c by (auto simp: idle_of_def)
    then show ?thesis using cpus_ok_idle [OF ok, of n] by (auto simp: parked_def)
  next
    case False
    then have "state (tasks s1 n) = TASK_READY" using p(5) by simp
    then show ?thesis by (auto simp: f1 upd_task_apply parked_def split: if_splits)
  qed
  have park: "park_same s ?s3"
    using f1 f2 same_rest_fields [OF rest3] by (simp add: park_same_def t3 upd_task_apply)
  show ?thesis unfolding Let_def using eq(1) q3 rest3 inv st np park by blast
qed

theorem schedule_locked_inv:
  assumes inv: "sched_inv alg holds s" and run: "schedule_locked c s = Some (prev, s')"
  shows "sched_inv alg holds s' \<and> (\<forall>t. prev = Some t \<longrightarrow> runs s c t) \<and> park_same s s' \<and> parks_same {} s s'"
proof (cases "c < cpu_count s")
  case False
  then show ?thesis using inv run by (simp add: schedule_locked_def cpu_current_def parks_same_def)
next
  case c: True
  obtain qs where q: "queued alg holds s qs" and ok: "cpus_ok s" using inv by (auto simp: sched_inv_def)
  obtain t where t: "runs s c t" using cpus_ok_current [OF ok c] by blast
  let ?fl = "eflags (hw s c)" and ?s0 = "set_hw c (eflags_update (\<lambda>f. f AND NOT IF_FLAG)) s"
  have q0: "queued alg holds ?s0 qs" by (rule sched_same_queued [OF sched_same_set_hw q])
  have ok0: "cpus_ok ?s0" and t0: "runs ?s0 c t"
    using ok t by (simp_all add: runs_def sched_same_cpus_ok [OF sched_same_set_hw])
  have idle: "idle_task (cpus ?s0 c) = Some t" if "idle_of ?s0 t"
    using that ok0 t0 unfolding idle_of_def cpus_ok_def by (metis option.inject)
  let ?s1 = "requeue_current c (cpus s c) (Some t) ?s0"
  obtain qs1 u where r: "queued alg holds ?s1 qs1" "same_rest ?s0 ?s1"
      "links_only UNIV (upd_task t (state_update (\<lambda>_. u)) (tasks ?s0)) (tasks ?s1)"
      "u = (if task_managed (tasks ?s0) t \<and> \<not> idle_of ?s0 t \<and> state (tasks ?s0 t) = TASK_RUNNING then TASK_READY else state (tasks ?s0 t))"
    using requeue_queued [OF q0 cpus_ok_policy [OF ok0] _ idle] c by auto
  obtain nx s2 where pick: "scheduler_pick_next c ?s1 = (nx, s2)" by fastforce
  have u: "u = TASK_RUNNING \<Longrightarrow> \<not> task_managed (tasks ?s0) t \<or> idle_of ?s0 t" "idle_of ?s0 t \<Longrightarrow> u \<in> {TASK_READY, TASK_RUNNING}"
    using r(4) cpus_ok_idle [OF ok0, of t] by (auto split: if_splits)
  from pick_and_install [OF ok0 t0 r(1-3) u pick]
  obtain n where n: "nx = Some n" and
      rest: "same_rest ?s0 (scheduler_notify_switch_in c (Some n) (set_task n (state_update (\<lambda>_. TASK_RUNNING)) s2))" and
      park0: "park_same ?s0 (scheduler_notify_switch_in c (Some n) (set_task n (state_update (\<lambda>_. TASK_RUNNING)) s2))" and
      st: "\<And>x. state (tasks (scheduler_notify_switch_in c (Some n) (set_task n (state_update (\<lambda>_. TASK_RUNNING)) s2)) x) =
        (if x = n then TASK_RUNNING else if x = t then u else state (tasks ?s0 x))" and
      np: "n = t \<or> \<not> parked (state (tasks ?s0 n))" and
      all: "\<And>s'. sched_same (set_cpu c (current_task_update (\<lambda>_. Some n))
          (scheduler_notify_switch_in c (Some n) (set_task n (state_update (\<lambda>_. TASK_RUNNING)) s2))) s' \<Longrightarrow> sched_inv alg holds s'"
    unfolding Let_def by blast
  let ?s3 = "scheduler_notify_switch_in c (Some n) (set_task n (state_update (\<lambda>_. TASK_RUNNING)) s2)"
  note f3 = same_rest_fields [OF rest]
  have park3: "park_same s ?s3" by (rule park_same_trans [OF park_same_set_hw park0])
  have parks: "parks_same {} s s''" if "\<And>x. state (tasks s'' x) = state (tasks ?s3 x)" for s''
  proof -
    have "\<not> parked (state (tasks s t))" "\<not> parked u" using cpus_ok_running [OF ok t] r(4) by auto
    then show ?thesis using np by (auto simp: parks_same_def that st)
  qed
  have cur: "cpu_current c s = Some (cpus s c)" "task_current c s = Some t"
    using c t by (simp_all add: cpu_current_def task_current_def runs_def)
  show ?thesis
  proof (cases "n = t")
    case True
    then obtain s4 s5 where s4: "scheduler_update_kernel_entry_stack c (Some n) ?s3 = Some s4"
      and s5: "scheduler_update_address_space c (Some n) s4 = Some s5"
      and s': "prev = None" "s' = spin_unlock_irqrestore c ?fl (set_cpu c (reschedule_pending_update (\<lambda>_. False)) s5)"
      using run by (auto simp: schedule_locked_def cur spin_lock_eq pick n Let_def split: option.splits)
    have park: "park_same s s'"
      unfolding s' by (rule park_same_trans [OF park3])
        (intro park_same_trans [OF park_same_entry_stack [OF s4]] park_same_trans [OF park_same_address_space [OF s5]]
          park_same_trans [OF park_same_set_cpu park_same_unlock])
    have "sched_same (set_cpu c (current_task_update (\<lambda>_. Some n)) ?s3) ?s3"
      using True t by (simp add: sched_same_def f3 [unfolded True] runs_def)
    also note sched_same_entry_stack [OF s4]
    also note sched_same_address_space [OF s5]
    also have "sched_same s5 (set_cpu c (reschedule_pending_update (\<lambda>_. False)) s5)" by (simp add: sched_same_def)
    also have "sched_same \<dots> s'" unfolding s' by simp
    finally have fin: "sched_same (set_cpu c (current_task_update (\<lambda>_. Some n)) ?s3) s'" .
    then have "parks_same {} s s'" by (intro parks) (simp add: sched_same_def)
    then show ?thesis using all [OF fin] s'(1) park by blast
  next
    case False
    let ?s4 = "schedule_switch_flags c ?fl (set_cpu c (previous_task_update (\<lambda>_. Some t)) ?s3)"
    have sw: "switch_to c t n ?s4 = Some (prev, s')"
      using run False by (simp add: schedule_locked_def cur spin_lock_eq pick n Let_def)
    have s4: "sched_same (set_cpu c (current_task_update (\<lambda>_. Some n)) ?s3) (set_cpu c (current_task_update (\<lambda>_. Some n)) ?s4)"
      and p4: "previous_task (cpus ?s4 c) = Some t" "cpu_count ?s4 = cpu_count s"
      by (auto simp: sched_same_def schedule_switch_flags_def Let_def f3)
    from switch_to_effect [OF sw] p4 c
    have e: "sched_same (set_cpu c (current_task_update (\<lambda>_. Some n)) ?s4) s'" "park_same ?s4 s'" "prev = Some t" by auto
    have "park_same ?s3 ?s4" by (simp add: park_same_def schedule_switch_flags_def Let_def)
    then have "park_same s s'" using park3 e(2) park_same_trans by blast
    moreover have "tasks ?s4 = tasks ?s3" by (simp add: schedule_switch_flags_def Let_def)
    then have "parks_same {} s s'" using e(1) by (intro parks) (simp add: sched_same_def)
    ultimately show ?thesis using all [OF sched_same_trans [OF s4 e(1)]] e(3) t by auto
  qed
qed

lemma inv_task_current:
  assumes "sched_inv alg holds s" "c < cpu_count s"
  obtains t where "runs s c t" "task_current c s = Some t" "cpu_current c s = Some (cpus s c)"
proof -
  obtain t where "runs s c t" using assms cpus_ok_current unfolding sched_inv_def by blast
  then show thesis using that by (simp add: runs_def task_current_def cpu_current_def)
qed

lemma task_current_outside [simp]: "\<not> c < cpu_count s \<Longrightarrow> task_current c s = None"
  by (simp add: task_current_def cpu_current_def)

theorem block_wait_locked_inv:
  assumes inv: "sched_inv alg holds s" and run: "block_wait_locked c bs wait_flags s = Some (prev, s')"
    and busy: "\<And>t. runs s c t \<Longrightarrow> \<not> idle_of s t"
  shows "sched_inv alg holds s' \<and> (\<forall>t. prev = Some t \<longrightarrow> runs s c t) \<and> park_same s s' \<and>
    (\<forall>t. runs s c t \<and> state (tasks s t) = TASK_RUNNING \<and> parked bs \<longrightarrow> parks_same {t} s s' \<and> state (tasks s' t) = bs)"
proof (cases "c < cpu_count s \<and> (bs = TASK_BLOCKED \<or> bs = TASK_SLEEPING)")
  case False
  have "prev = None \<and> s' = spin_unlock_irqrestore c wait_flags s"
  proof (cases "bs \<noteq> TASK_BLOCKED \<and> bs \<noteq> TASK_SLEEPING")
    case True
    then show ?thesis using run unfolding block_wait_locked_def by simp
  next
    case valid: False
    then have "cpu_current c s = None" using False by (auto simp: cpu_current_def)
    then show ?thesis using run unfolding block_wait_locked_def if_not_P [OF valid] by simp
  qed
  then show ?thesis using inv False by (auto simp: parked_def runs_def)
next
  case True
  then have c: "c < cpu_count s" and bs: "bs = TASK_BLOCKED \<or> bs = TASK_SLEEPING" by simp_all
  then have valid: "(bs \<noteq> TASK_BLOCKED \<and> bs \<noteq> TASK_SLEEPING) = False" by blast
  obtain qs where q: "queued alg holds s qs" and ok: "cpus_ok s" using inv by (auto simp: sched_inv_def)
  obtain t where t: "runs s c t" and cur: "task_current c s = Some t" "cpu_current c s = Some (cpus s c)"
    using inv_task_current [OF inv c] by blast
  let ?s0 = "set_hw c (eflags_update (\<lambda>f. f AND NOT IF_FLAG)) s"
  show ?thesis
  proof (cases "state (tasks s t) = TASK_RUNNING")
    case False
    then have e: "prev = None" "s' = spin_unlock_irqrestore c wait_flags (spin_unlock_irqrestore c (eflags (hw s c)) ?s0)"
      using run unfolding block_wait_locked_def valid by (simp_all add: spin_lock_eq Let_def cur)
    have "park_same s s'"
      unfolding e(2) by (rule park_same_trans [OF park_same_set_hw park_same_trans [OF park_same_unlock park_same_unlock]])
    moreover have "x = t" if "runs s c x" for x using that t by (simp add: runs_def)
    moreover have "sched_inv alg holds s'" using inv unfolding e by simp
    ultimately show ?thesis using False e(1) by blast
  next
    case st: True
    let ?s1 = "set_task t (state_update (\<lambda>_. bs)) ?s0"
    have q0: "queued alg holds ?s0 qs" by (rule sched_same_queued [OF sched_same_set_hw q])
    have ok0: "cpus_ok ?s0" and t0: "runs ?s0 c t"
      using ok t by (simp_all add: runs_def sched_same_cpus_ok [OF sched_same_set_hw])
    have "slots_hold alg holds ?s1 qs"
      by (rule slots_hold_frame [of ?s0]) (use q0 in \<open>simp_all add: queued_def upd_task_apply\<close>)
    moreover have "ready_queues ?s1 qs"
      using q0 st bs by (auto simp: queued_def ready_queues_def idle_of_def upd_task_apply)
    ultimately have q1: "queued alg holds ?s1 qs" by (simp add: queued_def)
    obtain nx s2 where pick: "scheduler_pick_next c ?s1 = (nx, s2)" by fastforce
    have u: "bs = TASK_RUNNING \<Longrightarrow> \<not> task_managed (tasks ?s0) t \<or> idle_of ?s0 t" "idle_of ?s0 t \<Longrightarrow> bs \<in> {TASK_READY, TASK_RUNNING}"
      using bs busy [OF t] by auto
    have rest1: "same_rest ?s0 ?s1" by simp
    have eff1: "links_only UNIV (upd_task t (state_update (\<lambda>_. bs)) (tasks ?s0)) (tasks ?s1)" by simp
    from pick_and_install [OF ok0 t0 q1 rest1 eff1 u pick]
    obtain n where n: "nx = Some n" and
        rest: "same_rest ?s0 (scheduler_notify_switch_in c (Some n) (set_task n (state_update (\<lambda>_. TASK_RUNNING)) s2))" and
        park0: "park_same ?s0 (scheduler_notify_switch_in c (Some n) (set_task n (state_update (\<lambda>_. TASK_RUNNING)) s2))" and
        stx: "\<And>x. state (tasks (scheduler_notify_switch_in c (Some n) (set_task n (state_update (\<lambda>_. TASK_RUNNING)) s2)) x) =
          (if x = n then TASK_RUNNING else if x = t then bs else state (tasks ?s0 x))" and
        np: "n = t \<or> \<not> parked (state (tasks ?s0 n))" and
        all: "\<And>s'. sched_same (set_cpu c (current_task_update (\<lambda>_. Some n))
            (scheduler_notify_switch_in c (Some n) (set_task n (state_update (\<lambda>_. TASK_RUNNING)) s2))) s' \<Longrightarrow> sched_inv alg holds s'"
      unfolding Let_def by blast
    let ?s3 = "scheduler_notify_switch_in c (Some n) (set_task n (state_update (\<lambda>_. TASK_RUNNING)) s2)"
    note f3 = same_rest_fields [OF rest]
    let ?s4 = "set_cpu c (scheduler_switch_flags_update (\<lambda>_. wait_flags)) (set_cpu c (previous_task_update (\<lambda>_. Some t)) ?s3)"
    have "n \<noteq> t" and sw: "switch_to c t n ?s4 = Some (prev, s')"
      using run st unfolding block_wait_locked_def valid
      by (simp_all add: cur spin_lock_eq pick n Let_def split: if_splits)
    have s4: "sched_same (set_cpu c (current_task_update (\<lambda>_. Some n)) ?s3) (set_cpu c (current_task_update (\<lambda>_. Some n)) ?s4)"
      and p4: "previous_task (cpus ?s4 c) = Some t" "cpu_count ?s4 = cpu_count s"
      by (auto simp: sched_same_def f3)
    from switch_to_effect [OF sw] p4 c
    have e: "sched_same (set_cpu c (current_task_update (\<lambda>_. Some n)) ?s4) s'" "park_same ?s4 s'" "prev = Some t" by auto
    have "park_same ?s3 ?s4" by (simp add: park_same_def)
    then have park: "park_same s s'"
      by (rule park_same_trans [OF park_same_trans [OF park_same_set_hw park0] park_same_trans [OF _ e(2)]])
    have "state (tasks s' x) = (if x = n then TASK_RUNNING else if x = t then bs else state (tasks s x))" for x
      using e(1) stx [of x] by (simp add: sched_same_def)
    then have "parks_same {t} s s' \<and> state (tasks s' t) = bs"
      using np \<open>n \<noteq> t\<close> by (simp add: parks_same_def)
    moreover have uniq: "x = t" if "runs s c x" for x using that t by (simp add: runs_def)
    moreover have "sched_inv alg holds s'" by (rule all [OF sched_same_trans [OF s4 e(1)]])
    ultimately show ?thesis using e(3) t park by blast
  qed
qed

text \<open>Taking a READY task out, and moving it to another band.\<close>

lemma dequeue_inv:
  assumes inv: "sched_inv alg holds s" and t: "state (tasks s t) = TASK_READY" "\<not> idle_of s t"
  shows "\<exists>s'. set_task t (state_update (\<lambda>_. TASK_NEW)) (call_dequeue alg (policy (tasks s t)) t s) = s' \<and>
    sched_inv alg holds s' \<and> same_rest s s' \<and>
    links_only UNIV (upd_task t (state_update (\<lambda>_. TASK_NEW)) (tasks s)) (tasks s')"
proof -
  obtain qs where q: "queued alg holds s qs" and ok: "cpus_ok s" using inv by (auto simp: sched_inv_def)
  from call_dequeue_queued [OF q t cpus_ok_policy [OF ok] refl, of TASK_NEW] obtain qs' s' where
      s': "set_task t (state_update (\<lambda>_. TASK_NEW)) (call_dequeue alg (policy (tasks s t)) t s) = s'"
      "queued alg holds s' qs'" "same_rest s s'"
      "links_only UNIV (upd_task t (state_update (\<lambda>_. TASK_NEW)) (tasks s)) (tasks s')" by blast
  note f = links_only_fields [OF s'(4)]
  have "cpus_ok s'"
  proof (rule cpus_ok_state [OF ok, of _ t])
    show "policy_valid (policy (tasks s' x))" for x
      using cpus_ok_policy [OF ok, of x] by (cases "x = t") (simp_all add: f upd_task_apply)
    show "\<not> runs s c t" for c using cpus_ok_running [OF ok, of c t] t(1) by auto
  qed (use t in \<open>simp_all add: same_rest_fields [OF s'(3)] f upd_task_apply\<close>)
  with s' show ?thesis by (auto simp: sched_inv_def)
qed

theorem scheduler_remove_inv:
  assumes inv: "sched_inv alg holds s" and "\<And>t. task = Some t \<Longrightarrow> \<not> idle_of s t"
  shows "sched_inv alg holds (scheduler_remove c task s)"
proof (cases task)
  case (Some t)
  let ?s = "set_hw c (eflags_update (\<lambda>f. f AND NOT IF_FLAG)) s"
  have "sched_inv alg holds (set_task t (state_update (\<lambda>_. TASK_NEW)) (call_dequeue alg (policy (tasks ?s t)) t ?s))"
    if "state (tasks s t) = TASK_READY"
    using dequeue_inv [of ?s t] assms that Some by auto
  then show ?thesis
    using inv Some inv_slot [OF inv, of t] by (auto simp: scheduler_remove_def spin_lock_eq Let_def)
qed (use assms in \<open>simp add: scheduler_remove_def\<close>)

lemma set_policy_field_inv:
  assumes inv: "sched_inv alg holds s" and p: "policy_valid p" and t: "state (tasks s t) \<noteq> TASK_READY"
  shows "sched_inv alg holds (set_task t (policy_update (\<lambda>_. p)) s)"
proof -
  let ?s = "set_task t (policy_update (\<lambda>_. p)) s"
  obtain qs where q: "queued alg holds s qs" and ok: "cpus_ok s" using inv by (auto simp: sched_inv_def)
  have "slots_hold alg holds ?s qs"
    by (rule slots_hold_frame [of s]) (use q in \<open>simp_all add: queued_def upd_task_apply\<close>)
  moreover have "ready_queues ?s qs"
    using q t by (auto simp: queued_def ready_queues_def idle_of_def upd_task_apply)
  moreover have "cpus_ok ?s"
    by (rule cpus_ok_fields [OF ok]) (use p cpus_ok_policy [OF ok] in \<open>simp_all add: upd_task_apply\<close>)
  ultimately show ?thesis by (auto simp: sched_inv_def queued_def)
qed

theorem scheduler_set_policy_inv:
  assumes inv: "sched_inv alg holds s" and "\<And>t. task = Some t \<Longrightarrow> \<not> idle_of s t"
  shows "sched_inv alg holds (snd (scheduler_set_policy c task p s))"
proof (cases task)
  case (Some t)
  let ?s0 = "set_hw c (eflags_update (\<lambda>f. f AND NOT IF_FLAG)) s"
  have inv0: "sched_inv alg holds ?s0" using inv by simp
  have idle: "\<not> idle_of s t" using assms(2) Some by simp
  have slot: "slot_algorithm p s = Some alg" if "policy_valid p"
    using that inv queued_slot unfolding sched_inv_def by blast
  consider "\<not> policy_valid p" | "policy (tasks s t) = p" | "policy_valid p" "policy (tasks s t) \<noteq> p" "state (tasks s t) \<noteq> TASK_READY"
    | "policy_valid p" "policy (tasks s t) \<noteq> p" "state (tasks s t) = TASK_READY" by blast
  then show ?thesis
  proof cases
    case 3
    then have "sched_inv alg holds (set_task t (policy_update (\<lambda>_. p)) ?s0)"
      by (intro set_policy_field_inv [OF inv0]) simp_all
    then show ?thesis using 3 Some slot
      by (simp add: scheduler_set_policy_def spin_lock_eq Let_def sched_same_inv [OF sched_same_request_local])
  next
    case 4
    from dequeue_inv [OF inv0, of t] 4(3) idle obtain s1 where s1:
        "set_task t (state_update (\<lambda>_. TASK_NEW)) (call_dequeue alg (policy (tasks s t)) t ?s0) = s1"
        "sched_inv alg holds s1" "same_rest ?s0 s1"
        "links_only UNIV (upd_task t (state_update (\<lambda>_. TASK_NEW)) (tasks ?s0)) (tasks s1)" by auto
    have st1: "state (tasks s1 t) = TASK_NEW" using links_only_fields(1) [OF s1(4), of t] by simp
    have idle1: "\<not> idle_of s1 t" using idle by (simp add: idle_of_def same_rest_fields [OF s1(3)])
    let ?s2 = "set_task t (sched_next_update (\<lambda>_. None)) (set_task t (sched_previous_update (\<lambda>_. None)) s1)"
    obtain qs where q1: "queued alg holds s1 qs" and ok1: "cpus_ok s1" using s1(2) by (auto simp: sched_inv_def)
    have out: "t \<notin> set (qs p')" if "policy_valid p'" for p'
      using q1 that st1 by (auto simp: queued_def ready_queues_def)
    have "slots_hold alg holds ?s2 qs"
    proof (rule slots_hold_frame [of s1])
      fix p' x assume "policy_valid p'" "x \<in> set (qs p')"
      then have "x \<noteq> t" using out by auto
      then show "sched_previous (tasks ?s2 x) = sched_previous (tasks s1 x) \<and> sched_next (tasks ?s2 x) = sched_next (tasks s1 x)"
        by simp
    qed (use q1 in \<open>simp_all add: queued_def\<close>)
    moreover have "ready_queues ?s2 qs"
      using q1 by (auto simp: queued_def ready_queues_def idle_of_def upd_task_apply)
    moreover have "cpus_ok ?s2"
      by (rule cpus_ok_fields [OF ok1]) (use cpus_ok_policy [OF ok1] in \<open>simp_all add: upd_task_apply\<close>)
    ultimately have inv2: "sched_inv alg holds ?s2" by (auto simp: sched_inv_def queued_def)
    let ?s3 = "set_task t (policy_update (\<lambda>_. p)) ?s2"
    have inv3: "sched_inv alg holds ?s3"
      by (rule set_policy_field_inv [OF inv2 4(1)]) (simp add: st1)
    have "sched_inv alg holds (ready_and_enqueue alg (policy (tasks ?s3 t)) t ?s3)"
      by (rule ready_inv [OF inv3]) (use idle1 in \<open>simp_all add: st1 idle_of_def\<close>)
    then show ?thesis using 4 Some slot inv_slot [OF inv, of t] s1(1)
      by (simp add: scheduler_set_policy_def spin_lock_eq Let_def sched_same_inv [OF sched_same_request_local])
  qed (use inv Some in \<open>simp_all add: scheduler_set_policy_def spin_lock_eq Let_def\<close>)
qed (use assms in \<open>simp add: scheduler_set_policy_def\<close>)

text \<open>What waking a task changes besides the run queues: the state of a blocked or sleeping task.\<close>

lemma wake_effect:
  assumes inv: "sched_inv alg holds s"
  shows "links_only UNIV
      (if state (tasks s t) = TASK_BLOCKED \<or> state (tasks s t) = TASK_SLEEPING
       then upd_task t (state_update (\<lambda>_. TASK_READY)) (tasks s) else tasks s)
      (tasks (scheduler_wake c (Some t) s)) \<and>
    wait_queues (scheduler_wake c (Some t) s) = wait_queues s \<and>
    semaphore_count (scheduler_wake c (Some t) s) = semaphore_count s \<and>
    mutexes (scheduler_wake c (Some t) s) = mutexes s \<and>
    sleep_head (scheduler_wake c (Some t) s) = sleep_head s \<and>
    sleep_tail (scheduler_wake c (Some t) s) = sleep_tail s \<and>
    cleanup_head (scheduler_wake c (Some t) s) = cleanup_head s \<and>
    cleanup_tail (scheduler_wake c (Some t) s) = cleanup_tail s \<and>
    cpu_count (scheduler_wake c (Some t) s) = cpu_count s \<and>
    (\<forall>c'. current_task (cpus (scheduler_wake c (Some t) s) c') = current_task (cpus s c'))"
proof (cases "state (tasks s t) = TASK_BLOCKED \<or> state (tasks s t) = TASK_SLEEPING")
  case True
  let ?s = "set_hw c (eflags_update (\<lambda>f. f AND NOT IF_FLAG)) s"
  obtain qs where q: "queued alg holds ?s qs" and ok: "cpus_ok ?s" using inv inv_set_hw unfolding sched_inv_def by metis
  have "state (tasks ?s t) \<noteq> TASK_READY" "\<not> idle_of ?s t" using True inv_idle [OF inv, of t] by auto
  from ready_and_enqueue_queued [OF q this cpus_ok_policy [OF ok] refl]
  have "same_rest ?s (ready_and_enqueue alg (policy (tasks s t)) t ?s)"
    "links_only UNIV (upd_task t (state_update (\<lambda>_. TASK_READY)) (tasks s)) (tasks (ready_and_enqueue alg (policy (tasks s t)) t ?s))"
    by auto
  then show ?thesis
    using True inv_slot [OF inv, of t] same_rest_fields [of ?s "ready_and_enqueue alg (policy (tasks s t)) t ?s"]
    by (auto simp: scheduler_wake_def spin_lock_eq Let_def)
qed (simp add: scheduler_wake_def spin_lock_eq Let_def)

text \<open>The remaining operations.\<close>

lemma slot_update_inv:
  assumes inv: "sched_inv alg holds s" and p: "policy_valid p"
    and f: "\<And>q xs. algorithm_state (policy_slots s p) = Some q \<Longrightarrow> holds q (tasks s) xs \<Longrightarrow> holds q' (tasks s) xs"
  shows "sched_inv alg holds (set_slot_state p (Some q') s)"
proof -
  obtain qs where q: "queued alg holds s qs" and ok: "cpus_ok s" using inv by (auto simp: sched_inv_def)
  have sh: "slots_hold alg holds s qs" using q by (simp add: queued_def)
  obtain q0 where "algorithm_state (policy_slots s p) = Some q0" "holds q0 (tasks s) (qs p)"
    using sh p by (auto simp: slots_hold_def)
  then have "holds q' (tasks s) (qs p)" by (rule f)
  from slots_hold_update [OF sh p this links_only_refl, of "{}"] slots_hold_disjoint [OF sh _ p]
  have "slots_hold alg holds (set_slot_state p (Some q') (s\<lparr>tasks := tasks s\<rparr>)) (qs(p := qs p))" by simp
  moreover have "ready_queues (set_slot_state p (Some q') s) qs"
    using q by (simp add: queued_def ready_queues_def idle_of_def set_slot_state_def)
  moreover have "cpus_ok (set_slot_state p (Some q') s)"
    by (rule cpus_ok_fields [OF ok]) (use cpus_ok_policy [OF ok] in \<open>simp_all add: set_slot_state_def\<close>)
  ultimately show ?thesis by (auto simp: sched_inv_def queued_def)
qed

theorem scheduler_tick_inv:
  assumes inv: "sched_inv alg holds s"
  shows "sched_inv alg holds (scheduler_tick c s)"
proof (cases "task_current c s = None \<or> cpu_current c s \<noteq> None \<and> task_current c s = scheduler_idle_task c s")
  case True
  then show ?thesis
  proof (cases "task_current c s")
    case (Some a)
    with True have "(cpu_current c s \<noteq> None \<and> Some a = scheduler_idle_task c s) = True" by auto
    then show ?thesis
      using sched_same_inv [OF sched_same_account inv] unfolding scheduler_tick_def Some option.case Let_def by simp
  qed (use inv in \<open>simp add: scheduler_tick_def\<close>)
next
  case False
  then obtain t where t: "task_current c s = Some t" "\<not> (cpu_current c s \<noteq> None \<and> Some t = scheduler_idle_task c s)"
    by auto
  then have i: "(cpu_current c s \<noteq> None \<and> Some t = scheduler_idle_task c s) = False" by blast
  let ?s0 = "set_hw c (eflags_update (\<lambda>f. f AND NOT IF_FLAG)) (cpu_account_scheduler_tick c False s)"
  let ?s1 = "set_task t (runtime_ticks_update (\<lambda>n. n + 1)) ?s0"
  let ?p = "policy (tasks ?s1 t)"
  have inv0: "sched_inv alg holds ?s0" using sched_same_inv [OF sched_same_account inv] by simp
  have inv1: "sched_inv alg holds ?s1"
    by (rule sched_same_inv [OF sched_same_set_task inv0]) simp
  obtain qs where q: "queued alg holds ?s1 qs" and ok: "cpus_ok ?s1" using inv1 by (auto simp: sched_inv_def)
  have p: "policy_valid ?p" by (rule cpus_ok_policy [OF ok])
  have slot: "slot_algorithm ?p ?s1 = Some alg" by (rule queued_slot [OF q p])
  obtain q0 where q0: "algorithm_state (policy_slots ?s1 ?p) = Some q0" "holds q0 (tasks ?s1) (qs ?p)"
    using q p by (auto simp: queued_def slots_hold_def)
  have after: "sched_inv alg holds (set_slot_state ?p (snd (g (Some q0) (Some t))) ?s1)" if g: "tick alg = Some g" for g
  proof -
    obtain b q' where gq: "g (Some q0) (Some t) = (b, Some q')" using ticked [OF g q0(2)] by blast
    have "sched_inv alg holds (set_slot_state ?p (Some q') ?s1)"
    proof (rule slot_update_inv [OF inv1 p])
      fix q xs assume "algorithm_state (policy_slots ?s1 ?p) = Some q" "holds q (tasks ?s1) xs"
      then show "holds q' (tasks ?s1) xs" using ticked [OF g, of q0 "tasks ?s1" xs t] q0(1) gq by auto
    qed
    then show ?thesis using gq by simp
  qed
  show ?thesis
  proof (cases "tick alg")
    case None
    then show ?thesis
      using inv0 inv1 slot unfolding scheduler_tick_def t(1) option.case i Let_def spin_lock_eq
      by (simp add: sched_same_inv [OF sched_same_request_local])
  next
    case (Some g)
    then show ?thesis
      using inv0 after [OF Some] slot q0(1) unfolding scheduler_tick_def t(1) option.case i Let_def spin_lock_eq
      by (cases "g (Some q0) (Some t)") (auto intro: sched_same_inv [OF sched_same_request_local])
  qed
qed

theorem task_exit_mark_inv:
  assumes inv: "sched_inv alg holds s" and run: "task_exit_mark c s = Some s'"
  shows "sched_inv alg holds s'"
proof -
  obtain qs where q: "queued alg holds s qs" and ok: "cpus_ok s" using inv by (auto simp: sched_inv_def)
  from run obtain t where t: "task_current c s = Some t" "\<not> task_is_idle_task (Some t) s"
      "s' = set_task t (state_update (\<lambda>_. TASK_ZOMBIE)) (set_hw c (eflags_update (\<lambda>f. f AND NOT IF_FLAG)) s)"
    by (auto simp: task_exit_mark_def interrupt_save_disable_def split: option.splits if_splits)
  have c: "c < cpu_count s" using t(1) by (auto simp: task_current_def cpu_current_def split: if_splits)
  have run_t: "runs s c t" using t(1) c by (simp add: runs_def task_current_def cpu_current_def)
  have idle: "\<not> idle_of s t" using t(2) by (auto simp: task_is_idle_task_def idle_of_def list_ex_iff)
  have "state (tasks s t) \<noteq> TASK_READY" using cpus_ok_running [OF ok run_t] by auto
  then have "ready_queues s' qs"
    using q by (auto simp: t(3) queued_def ready_queues_def idle_of_def upd_task_apply)
  moreover have "slots_hold alg holds s' qs"
    by (rule slots_hold_frame [of s]) (use q in \<open>simp_all add: queued_def t(3) upd_task_apply\<close>)
  moreover have "cpus_ok s'"
    by (rule cpus_ok_restate [OF ok, of _ t])
       (use idle cpus_ok_policy [OF ok] in \<open>simp_all add: t(3) upd_task_apply\<close>)
  ultimately show ?thesis by (auto simp: sched_inv_def queued_def)
qed

end

end
