(* ===== verification/Sleep.thy ===== *)
theory Sleep
  imports SchedInv
begin

text \<open>
  The timer and the sleep queue: \<open>kernel/timer/timer.c\<close> and \<open>kernel/task/sleep_queue.c\<close>. The queue is a
  doubly linked list through the tasks, sorted by \<open>wake_tick\<close>; the timer interrupt takes the expired
  tasks off its head. Loops over the links are partial functions: \<open>None\<close> is a loop that does not end,
  or a processor that halts.
\<close>

section \<open>Timer\<close>

definition timer_initialize :: "cpu_id \<Rightarrow> u32 \<Rightarrow> 'q kernel \<Rightarrow> 'q kernel" where
  "timer_initialize c frequency_hz s =
     (let (flags, s) = interrupt_save_disable c s;
          s = s\<lparr>system_ticks := 0, system_timer_frequency := frequency_hz\<rparr>
      in interrupt_restore c flags s)"

definition timer_ticks :: "'q kernel \<Rightarrow> u64" where
  "timer_ticks s = system_ticks s"

definition timer_frequency :: "'q kernel \<Rightarrow> u32" where
  "timer_frequency s = system_timer_frequency s"

definition timer_uptime_ms :: "'q kernel \<Rightarrow> u64" where
  "timer_uptime_ms s =
     (let frequency = timer_frequency s
      in if frequency = 0 then 0
         else
           let ticks = timer_ticks s;
               seconds = ticks div ucast frequency;
               remainder = ticks mod ucast frequency
           in seconds * 1000 + (remainder * 1000) div ucast frequency)"

definition timer_ms_to_ticks :: "u64 \<Rightarrow> 'q kernel \<Rightarrow> u64" where
  "timer_ms_to_ticks milliseconds s =
     (let frequency = timer_frequency s
      in if frequency = 0 then 0
         else
           let seconds = milliseconds div 1000;
               remainder_ms = milliseconds mod 1000;
               ticks = seconds * ucast frequency
           in ticks + (remainder_ms * ucast frequency + 999) div 1000)"

section \<open>Sleep queue\<close>

text \<open>The search for the first sleeper with a later deadline.\<close>

partial_function (option) sleep_search :: "task_memory \<Rightarrow> u64 \<Rightarrow> tid option \<Rightarrow> tid option option" where
  "sleep_search ts deadline current =
     (case current of
        None \<Rightarrow> Some None
      | Some x \<Rightarrow> if wake_tick (ts x) \<le> deadline then sleep_search ts deadline (sleep_next (ts x)) else Some (Some x))"

definition sleep_queue_insert :: "tid \<Rightarrow> 'q kernel \<Rightarrow> 'q kernel option" where
  "sleep_queue_insert t s =
     (let s = set_task t (sleep_previous_update (\<lambda>_. None)) s;
          s = set_task t (sleep_next_update (\<lambda>_. None)) s
      in case sleep_head s of
           None \<Rightarrow> Some (s\<lparr>sleep_head := Some t, sleep_tail := Some t\<rparr>)
         | Some h \<Rightarrow>
             (case sleep_search (tasks s) (wake_tick (tasks s t)) (sleep_head s) of
                None \<Rightarrow> None
              | Some None \<Rightarrow>
                  let s = set_task t (sleep_previous_update (\<lambda>_. sleep_tail s)) s;
                      s = set_task (the (sleep_tail s)) (sleep_next_update (\<lambda>_. Some t)) s
                  in Some (s\<lparr>sleep_tail := Some t\<rparr>)
              | Some (Some current) \<Rightarrow>
                  let s = set_task t (sleep_next_update (\<lambda>_. Some current)) s;
                      s = set_task t (sleep_previous_update (\<lambda>_. sleep_previous (tasks s current))) s;
                      s = (case sleep_previous (tasks s current) of
                             Some p \<Rightarrow> set_task p (sleep_next_update (\<lambda>_. Some t)) s
                           | None \<Rightarrow> s\<lparr>sleep_head := Some t\<rparr>)
                  in Some (set_task current (sleep_previous_update (\<lambda>_. Some t)) s)))"

definition sleep_queue_remove_head :: "'q kernel \<Rightarrow> tid option \<times> 'q kernel" where
  "sleep_queue_remove_head s =
     (case sleep_head s of
        None \<Rightarrow> (None, s)
      | Some t \<Rightarrow>
          let s = s\<lparr>sleep_head := sleep_next (tasks s t)\<rparr>;
              s = (case sleep_head s of
                     Some u \<Rightarrow> set_task u (sleep_previous_update (\<lambda>_. None)) s
                   | None \<Rightarrow> s\<lparr>sleep_tail := None\<rparr>);
              s = set_task t (sleep_previous_update (\<lambda>_. None)) s;
              s = set_task t (sleep_next_update (\<lambda>_. None)) s
          in (Some t, s))"

definition sleep_queue_initialize :: "'q kernel \<Rightarrow> 'q kernel" where
  "sleep_queue_initialize s = s\<lparr>sleep_head := None, sleep_tail := None\<rparr>"

text \<open>The deadline of \<open>task_sleep\<close>, saturated at the largest tick.\<close>

definition sleep_deadline :: "u64 \<Rightarrow> 'q kernel \<Rightarrow> u64" where
  "sleep_deadline milliseconds s =
     (let now = timer_ticks s;
          delay_ticks = timer_ms_to_ticks milliseconds s;
          delay_ticks = (if delay_ticks = 0 then 1 else delay_ticks)
      in if - 1 - now < delay_ticks then - 1 else now + delay_ticks)"

text \<open>\<open>task_sleep\<close> until the processor has left the sleeping task, for a non-zero duration.\<close>

definition task_sleep_locked :: "cpu_id \<Rightarrow> u64 \<Rightarrow> 'q kernel \<Rightarrow> (tid option \<times> 'q kernel) option" where
  "task_sleep_locked c milliseconds s =
     (let (flags, s) = spin_lock_irqsave c s
      in case task_current c s of
           None \<Rightarrow> Some (None, spin_unlock_irqrestore c flags s)
         | Some current \<Rightarrow>
             let s = set_task current (wake_tick_update (\<lambda>_. sleep_deadline milliseconds s)) s
             in (case sleep_queue_insert current s of
                   None \<Rightarrow> None
                 | Some s \<Rightarrow> block_wait_locked c TASK_SLEEPING flags s))"

definition task_sleep :: "cpu_id \<Rightarrow> u64 \<Rightarrow> 'q kernel \<Rightarrow> 'q kernel option" where
  "task_sleep c milliseconds s =
     (if milliseconds = 0 then task_yield c s
      else case task_sleep_locked c milliseconds s of
        None \<Rightarrow> None
      | Some (previous, s) \<Rightarrow> Some (task_internal_finish_switch c previous s))"

text \<open>What the sleeper does when it runs again.\<close>

definition task_sleep_resume :: "tid \<Rightarrow> 'q kernel \<Rightarrow> 'q kernel" where
  "task_sleep_resume current s = set_task current (wake_tick_update (\<lambda>_. 0)) s"

text \<open>One round of the loop of \<open>sleep_queue_tick\<close> under the lock: the expired sleeper it takes off.\<close>

definition sleep_queue_take :: "cpu_id \<Rightarrow> u64 \<Rightarrow> 'q kernel \<Rightarrow> tid option \<times> 'q kernel" where
  "sleep_queue_take c current_tick s =
     (let (flags, s) = spin_lock_irqsave c s
      in case sleep_head s of
           None \<Rightarrow> (None, spin_unlock_irqrestore c flags s)
         | Some h \<Rightarrow>
             if wake_tick (tasks s h) > current_tick then (None, spin_unlock_irqrestore c flags s)
             else let (task, s) = sleep_queue_remove_head s in (task, spin_unlock_irqrestore c flags s))"

partial_function (option) sleep_queue_tick :: "cpu_id \<Rightarrow> u64 \<Rightarrow> 'q kernel \<Rightarrow> 'q kernel option" where
  "sleep_queue_tick c current_tick s =
     (let (task, s) = sleep_queue_take c current_tick s
      in case task of
           None \<Rightarrow> Some s
         | Some t \<Rightarrow> sleep_queue_tick c current_tick (scheduler_wake c task s))"

definition timer_handle_tick :: "cpu_id \<Rightarrow> 'q kernel \<Rightarrow> 'q kernel option" where
  "timer_handle_tick c s =
     (let s = s\<lparr>system_ticks := system_ticks s + 1\<rparr>
      in case sleep_queue_tick c (system_ticks s) s of
           None \<Rightarrow> None
         | Some s \<Rightarrow> Some (scheduler_tick c s))"

section \<open>The queue is a sorted list\<close>

definition sleep_list :: "'q kernel \<Rightarrow> tid list \<Rightarrow> bool" where
  "sleep_list s xs \<longleftrightarrow>
     dll (sleep_previous \<circ> tasks s) (sleep_next \<circ> tasks s) (sleep_head s) (sleep_tail s) xs \<and>
     sorted (map (\<lambda>x. wake_tick (tasks s x)) xs)"

text \<open>The sleepers whose deadline is not after \<open>d\<close>.\<close>

definition due :: "task_memory \<Rightarrow> u64 \<Rightarrow> tid \<Rightarrow> bool" where
  "due ts d x \<longleftrightarrow> wake_tick (ts x) \<le> d"

lemma sleep_search_list:
  "dls p (sleep_next \<circ> ts) pr xs None \<Longrightarrow>
    sleep_search ts d (first_or None xs) = Some (first_or None (dropWhile (due ts d) xs))"
proof (induction xs arbitrary: pr)
  case (Cons x xs)
  have "sleep_search ts d (first_or None xs) = Some (first_or None (dropWhile (due ts d) xs))"
    by (rule Cons.IH [of "Some x"]) (use Cons.prems in simp)
  then show ?case using Cons.prems by (simp add: sleep_search.simps [of ts d "Some x"] due_def [abs_def])
qed (simp add: sleep_search.simps)

lemma sleep_list_frame:
  assumes "sleep_list s xs" "sleep_head s' = sleep_head s" "sleep_tail s' = sleep_tail s"
    and "\<And>x. x \<in> set xs \<Longrightarrow> sleep_previous (tasks s' x) = sleep_previous (tasks s x) \<and>
      sleep_next (tasks s' x) = sleep_next (tasks s x) \<and> wake_tick (tasks s' x) = wake_tick (tasks s x)"
  shows "sleep_list s' xs"
proof -
  have "map (\<lambda>x. wake_tick (tasks s' x)) xs = map (\<lambda>x. wake_tick (tasks s x)) xs" using assms(4) by simp
  then have "sorted (map (\<lambda>x. wake_tick (tasks s' x)) xs)" using assms(1) unfolding sleep_list_def by metis
  moreover have "dll (sleep_previous \<circ> tasks s') (sleep_next \<circ> tasks s') h t xs =
      dll (sleep_previous \<circ> tasks s) (sleep_next \<circ> tasks s) h t xs" for h t
    by (rule dll_cong) (use assms(4) in simp)
  ultimately show ?thesis using assms(1-3) by (simp add: sleep_list_def)
qed

lemma takeWhile_due_sorted:
  assumes "sorted (map (\<lambda>x. wake_tick (ts x)) xs)"
  shows "sorted (map (\<lambda>x. wake_tick (ts x)) (takeWhile (due ts (wake_tick (ts t))) xs @ t # dropWhile (due ts (wake_tick (ts t))) xs))"
  using sorted_insert_after [OF assms, of t] by (simp add: due_def [abs_def])

lemma sleep_queue_insert_list:
  assumes l: "sleep_list s xs" and t: "t \<notin> set xs"
  shows "\<exists>s'. sleep_queue_insert t s = Some s' \<and>
    sleep_list s' (takeWhile (due (tasks s) (wake_tick (tasks s t))) xs @ t # dropWhile (due (tasks s) (wake_tick (tasks s t))) xs) \<and>
    sched_same s s' \<and> (\<forall>x. wake_tick (tasks s' x) = wake_tick (tasks s x)) \<and> cpu_count s' = cpu_count s"
proof -
  let ?d = "wake_tick (tasks s t)"
  let ?s0 = "set_task t (sleep_next_update (\<lambda>_. None)) (set_task t (sleep_previous_update (\<lambda>_. None)) s)"
  let ?P = "sleep_previous \<circ> tasks ?s0" and ?N = "sleep_next \<circ> tasks ?s0"
  have d0: "due (tasks ?s0) ?d = due (tasks s) ?d" by (simp add: due_def upd_task_apply fun_eq_iff)
  have l0: "sleep_list ?s0 xs"
    by (rule sleep_list_frame [OF l]) (use t in \<open>auto simp: upd_task_apply\<close>)
  have dll0: "dll ?P ?N (sleep_head s) (sleep_tail s) xs" and srt: "sorted (map (\<lambda>x. wake_tick (tasks s x)) xs)"
    using l0 l by (simp_all add: sleep_list_def)
  have order: "sorted (map (\<lambda>x. wake_tick (tasks s' x)) (takeWhile (due (tasks s) ?d) xs @ t # dropWhile (due (tasks s) ?d) xs))"
    if "\<And>x. wake_tick (tasks s' x) = wake_tick (tasks s x)" for s' :: "'a kernel"
    using takeWhile_due_sorted [OF srt, of t] that by simp
  show ?thesis
  proof (cases "xs = []")
    case True
    then have h: "sleep_head s = None" using l by (simp add: sleep_list_def)
    let ?s' = "?s0\<lparr>sleep_head := Some t, sleep_tail := Some t\<rparr>"
    have "sleep_queue_insert t s = Some ?s'" using h by (simp add: sleep_queue_insert_def)
    moreover have "sleep_list ?s' [t]" by (simp add: sleep_list_def dll_def)
    moreover have "sched_same s ?s'" by (simp add: sched_same_def upd_task_apply)
    ultimately show ?thesis using True by (intro exI [of _ ?s']) (simp add: upd_task_apply)
  next
    case False
    then obtain h where h: "sleep_head s = Some h" "first_or None xs = Some h"
      using dll_head_tail [OF dll0] by (cases xs) auto
    have sch: "sleep_search (tasks ?s0) ?d (Some h) = Some (first_or None (dropWhile (due (tasks s) ?d) xs))"
      using sleep_search_list [of ?P "tasks ?s0" None xs ?d] dll0 h(2) unfolding d0 by (simp add: dll_def)
    show ?thesis
    proof (cases "dropWhile (due (tasks s) ?d) xs")
      case Nil
      then have tw: "takeWhile (due (tasks s) ?d) xs = xs" by (metis append_Nil2 takeWhile_dropWhile_id)
      define u where "u = last xs"
      have u: "sleep_tail s = Some u" "u \<in> set xs"
        using dll_head_tail [OF dll0] False by (simp_all add: last_or_def u_def)
      let ?s' = "set_task u (sleep_next_update (\<lambda>_. Some t)) (set_task t (sleep_previous_update (\<lambda>_. Some u)) ?s0)\<lparr>sleep_tail := Some t\<rparr>"
      have run: "sleep_queue_insert t s = Some ?s'" using h sch Nil u by (simp add: sleep_queue_insert_def upd_task_apply)
      have wt: "wake_tick (tasks ?s' x) = wake_tick (tasks s x)" for x by (simp add: upd_task_apply)
      have "sorted (map (\<lambda>x. wake_tick (tasks ?s' x)) (xs @ [t]))" using order [of ?s', OF wt] Nil tw by simp
      then have l1: "sleep_list ?s' (xs @ [t])"
        using dll_push_back [OF dll0 t] u h unfolding sleep_list_def by simp
      have same: "sched_same s ?s'" by (simp add: sched_same_def upd_task_apply)
      show ?thesis unfolding Nil tw
        by (intro exI [of _ ?s'] conjI allI, rule run, rule l1, rule same, rule wt) simp
    next
      case (Cons y ys)
      obtain as where tw: "takeWhile (due (tasks s) ?d) xs = as" by blast
      have xs: "xs = as @ y # ys" using Cons tw takeWhile_dropWhile_id by metis
      have yt: "y \<noteq> t" and tas: "t \<notin> set (as @ y # ys)" using t unfolding xs by auto
      have dll1: "dll ?P ?N (sleep_head s) (sleep_tail s) (as @ y # ys)" using dll0 unfolding xs .
      let ?p = "sleep_previous (tasks s y)"
      have p0: "?P y = ?p" using yt by (simp add: upd_task_apply)
      note ins = dll_insert_before [OF dll1 tas, unfolded p0]
      have p: "?p \<noteq> Some t" using dll_links [OF dll1] tas last_or_Some_in p0 by (metis Un_iff set_append)
      define s1 where "s1 = (case ?p of
          Some p \<Rightarrow> set_task p (sleep_next_update (\<lambda>_. Some t)) (set_task t (sleep_previous_update (\<lambda>_. ?p)) (set_task t (sleep_next_update (\<lambda>_. Some y)) ?s0))
        | None \<Rightarrow> (set_task t (sleep_previous_update (\<lambda>_. ?p)) (set_task t (sleep_next_update (\<lambda>_. Some y)) ?s0))\<lparr>sleep_head := Some t\<rparr>)"
      let ?s' = "set_task y (sleep_previous_update (\<lambda>_. Some t)) s1"
      have run: "sleep_queue_insert t s = Some ?s'"
        using h(1) sch yt unfolding Cons by (cases ?p) (simp_all add: sleep_queue_insert_def upd_task_apply s1_def)
      have wt: "wake_tick (tasks ?s' x) = wake_tick (tasks s x)" for x
        by (cases ?p) (simp_all add: s1_def upd_task_apply)
      have f: "sleep_previous \<circ> tasks ?s' = ?P(t := ?p, y := Some t)"
        "sleep_next \<circ> tasks ?s' = set_link ?p (Some t) (?N(t := Some y))"
        "sleep_head ?s' = (if ?p = None then Some t else sleep_head s)" "sleep_tail ?s' = sleep_tail s"
        by (cases ?p; simp add: s1_def)+
      have l1: "sleep_list ?s' (as @ t # y # ys)"
        using ins order [of ?s', OF wt] unfolding sleep_list_def f tw Cons by blast
      have same: "sched_same s ?s'" by (cases ?p) (simp_all add: sched_same_def upd_task_apply s1_def)
      have cc: "cpu_count ?s' = cpu_count s" by (cases ?p) (simp_all add: s1_def)
      show ?thesis unfolding Cons tw
        by (intro exI [of _ ?s'] conjI allI, rule run, rule l1, rule same, rule wt, rule cc)
    qed
  qed
qed

lemma sleep_queue_remove_head_list:
  assumes l: "sleep_list s (x # xs)"
  shows "\<exists>s'. sleep_queue_remove_head s = (Some x, s') \<and> sleep_list s' xs \<and> sched_same s s' \<and>
    (\<forall>y. wake_tick (tasks s' y) = wake_tick (tasks s y)) \<and> hw s' = hw s"
proof -
  have d: "dll (sleep_previous \<circ> tasks s) (sleep_next \<circ> tasks s) (sleep_head s) (sleep_tail s) ([] @ x # xs)"
    and srt: "sorted (map (\<lambda>x. wake_tick (tasks s x)) xs)"
    using l by (simp_all add: sleep_list_def)
  have h: "sleep_head s = Some x" and pn: "sleep_previous (tasks s x) = None" "sleep_next (tasks s x) = first_or None xs"
    using dll_head_tail [OF d] dll_links [OF d] by simp_all
  let ?n = "sleep_next (tasks s x)"
  have nx: "?n \<noteq> Some x" using dll_distinct [OF d] pn(2) first_or_Some_in [of xs x] by auto
  define s1 where "s1 = (case ?n of
      Some u \<Rightarrow> set_task u (sleep_previous_update (\<lambda>_. None)) (s\<lparr>sleep_head := ?n\<rparr>)
    | None \<Rightarrow> s\<lparr>sleep_head := ?n, sleep_tail := None\<rparr>)"
  let ?s' = "set_task x (sleep_next_update (\<lambda>_. None)) (set_task x (sleep_previous_update (\<lambda>_. None)) s1)"
  have run: "sleep_queue_remove_head s = (Some x, ?s')"
    by (simp add: sleep_queue_remove_head_def h s1_def split: option.split)
  have wt: "wake_tick (tasks ?s' y) = wake_tick (tasks s y)" for y
    by (simp add: s1_def upd_task_apply split: option.split)
  have p0: "(sleep_previous \<circ> tasks s) x = None" "(sleep_next \<circ> tasks s) x = ?n" using pn(1) by simp_all
  have "sleep_previous \<circ> tasks ?s' = (set_link ?n None (sleep_previous \<circ> tasks s))(x := None)"
    "sleep_next \<circ> tasks ?s' = (sleep_next \<circ> tasks s)(x := None)"
    "sleep_head ?s' = ?n" "sleep_tail ?s' = (if ?n = None then None else sleep_tail s)"
    by (cases ?n; simp add: s1_def)+
  then have "dll (sleep_previous \<circ> tasks ?s') (sleep_next \<circ> tasks ?s') (sleep_head ?s') (sleep_tail ?s') xs"
    using dll_unlink [OF d, unfolded p0] by simp
  then have "sleep_list ?s' xs" using srt wt by (simp add: sleep_list_def)
  moreover have "sched_same s ?s'" by (simp add: sched_same_def upd_task_apply s1_def split: option.split)
  moreover have "hw ?s' = hw s" by (simp add: s1_def split: option.split)
  ultimately show ?thesis using run wt by (intro exI [of _ ?s']) simp
qed

section \<open>Time arithmetic\<close>

lemma add_mult_div: "0 < k \<Longrightarrow> (a + q * k) div k = a div k + (q :: nat)"
  by simp

lemma ceiling_split: "(m div 1000) * f + ((m mod 1000) * f + 999) div 1000 = (m * f + 999) div (1000 :: nat)"
proof -
  have "q * f + (r * f + 999) div 1000 = ((q * 1000 + r) * f + 999) div 1000" for q r :: nat
  proof -
    have "(q * 1000 + r) * f + 999 = (r * f + 999) + (q * f) * 1000" by (simp add: algebra_simps)
    then show ?thesis using add_mult_div [of 1000 "r * f + 999" "q * f"] by simp
  qed
  from this [of "m div 1000" "m mod 1000"] show ?thesis by (simp only: div_mult_mod_eq)
qed

lemma floor_split:
  assumes "0 < (f :: nat)"
  shows "(t div f) * 1000 + ((t mod f) * 1000) div f = (t * 1000) div f"
proof -
  have "q * 1000 + (r * 1000) div f = ((q * f + r) * 1000) div f" for q r :: nat
  proof -
    have "(q * f + r) * 1000 = r * 1000 + (q * 1000) * f" by (simp add: algebra_simps)
    then show ?thesis using add_mult_div [OF assms, of "r * 1000" "q * 1000"] by (simp only: add.commute)
  qed
  from this [of "t div f" "t mod f"] show ?thesis by (simp only: div_mult_mod_eq)
qed

lemma partial_ceiling_le: "((m mod 1000) * f + 999) div 1000 \<le> (f :: nat)"
proof -
  have "(r * f + 999) div 1000 \<le> f" if "r \<le> 999" for r
  proof -
    have "r * f \<le> 999 * f" using that by (rule mult_le_mono1)
    then have "r * f + 999 < 999 * f + 1000" by (rule add_le_less_mono) simp
    also have "\<dots> \<le> (f + 1) * 1000" by simp
    finally have "r * f + 999 < (f + 1) * 1000" .
    then have "(r * f + 999) div 1000 < f + 1" by (rule less_mult_imp_div_less)
    then show ?thesis by simp
  qed
  moreover have "m mod 1000 \<le> 999" using mod_less_divisor [of 1000 m] by linarith
  ultimately show ?thesis by blast
qed

lemma timer_ms_to_ticks_unat:
  assumes "0 < unat (system_timer_frequency s)"
    and "(unat ms div 1000) * unat (system_timer_frequency s) + unat (system_timer_frequency s) < 18446744073709551616"
  shows "unat (timer_ms_to_ticks ms s) = (unat ms * unat (system_timer_frequency s) + 999) div 1000"
proof -
  let ?f = "unat (system_timer_frequency s)" and ?F = "ucast (system_timer_frequency s) :: u64"
  have f: "unat ?F = ?f" "?f < 4294967296" by (simp_all add: unat_ucast_u64)
  have r: "(unat ms mod 1000) * ?f \<le> 999 * 4294967295" using f(2) by (intro mult_le_mono) auto
  have div: "unat (ms div 1000) = unat ms div 1000" "unat (ms mod 1000) = unat ms mod 1000"
    by (simp_all add: unat_div unat_mod)
  have 1: "unat ((ms div 1000) * ?F) = (unat ms div 1000) * ?f"
    using assms(2) by (subst unat_mult_u64) (simp_all only: div f)
  have 2: "unat ((ms mod 1000) * ?F) = (unat ms mod 1000) * ?f"
    using r by (subst unat_mult_u64) (simp_all only: div f)
  have "unat ((ms mod 1000) * ?F + 999) = (unat ms mod 1000) * ?f + 999"
    using r by (subst unat_add_u64) (simp_all add: 2)
  then have 3: "unat (((ms mod 1000) * ?F + 999) div 1000) = ((unat ms mod 1000) * ?f + 999) div 1000"
    by (simp add: unat_div)
  have "((unat ms mod 1000) * ?f + 999) div 1000 \<le> ?f" by (rule partial_ceiling_le)
  then have "unat ((ms div 1000) * ?F + ((ms mod 1000) * ?F + 999) div 1000) =
      (unat ms div 1000) * ?f + ((unat ms mod 1000) * ?f + 999) div 1000"
    using assms(2) by (subst unat_add_u64) (simp_all only: 1 3)
  moreover have "system_timer_frequency s \<noteq> 0" using assms(1) by (auto simp: unat_gt_0)
  ultimately show ?thesis
    by (simp add: timer_ms_to_ticks_def timer_frequency_def Let_def ceiling_split)
qed

lemma timer_uptime_unat:
  assumes "0 < unat (system_timer_frequency s)"
    and "(unat (system_ticks s) div unat (system_timer_frequency s)) * 1000 + 1000 < 18446744073709551616"
  shows "unat (timer_uptime_ms s) = unat (system_ticks s) * 1000 div unat (system_timer_frequency s)"
proof -
  let ?f = "unat (system_timer_frequency s)" and ?F = "ucast (system_timer_frequency s) :: u64"
  let ?t = "unat (system_ticks s)"
  have f: "unat ?F = ?f" "?f < 4294967296" by (simp_all add: unat_ucast_u64)
  have div: "unat (system_ticks s div ?F) = ?t div ?f" "unat (system_ticks s mod ?F) = ?t mod ?f"
    by (simp_all add: unat_div unat_mod f(1))
  have m: "?t mod ?f < ?f" using assms(1) by simp
  have "unat (system_ticks s div ?F) * unat (1000 :: u64) < 18446744073709551616"
    using assms(2) by (simp add: div)
  then have 1: "unat ((system_ticks s div ?F) * 1000) = (?t div ?f) * 1000"
    by (simp add: unat_mult_u64 div)
  have k: "unat (1000 :: u64) = 1000" by simp
  have "unat (system_ticks s mod ?F) * unat (1000 :: u64) < 18446744073709551616"
    using m f(2) unfolding div k by linarith
  then have 2: "unat ((system_ticks s mod ?F) * 1000) = (?t mod ?f) * 1000"
    by (simp only: unat_mult_u64 div k)
  have 3: "unat ((system_ticks s mod ?F) * 1000 div ?F) = (?t mod ?f) * 1000 div ?f"
    by (simp only: unat_div 2 f(1))
  have "(?t mod ?f) * 1000 div ?f < 1000"
    using m assms(1) by (simp add: div_less_iff_less_mult)
  then have "unat ((system_ticks s div ?F) * 1000 + (system_ticks s mod ?F) * 1000 div ?F) =
      (?t div ?f) * 1000 + (?t mod ?f) * 1000 div ?f"
    using assms(2) by (subst unat_add_u64) (simp_all only: 1 3)
  moreover have "system_timer_frequency s \<noteq> 0" using assms(1) by (auto simp: unat_gt_0)
  ultimately show ?thesis
    using floor_split [OF assms(1)] by (simp add: timer_uptime_ms_def timer_frequency_def timer_ticks_def Let_def)
qed

end
