(* ===== verification/System.thy ===== *)
theory System
  imports SchedInv Sleep
begin

text \<open>
  The tasking subsystem as a whole: every operation of the scheduler, the wait queues, the semaphores,
  the mutexes, the sleep queue and the exit path as steps of processors that interleave, and the
  invariant of the reachable states. A step is one section under a lock. What an operation does after
  releasing its lock with a local variable is a later step of some processor: waking a task taken off
  a queue, and \<open>task_internal_finish_switch\<close> on the task left behind.
\<close>

section \<open>What the operations leave alone\<close>

lemma set_slot_frame [simp, kernel_frame]:
  "wait_queues (set_slot_state p q s) = wait_queues s" "semaphore_count (set_slot_state p q s) = semaphore_count s"
  "mutexes (set_slot_state p q s) = mutexes s" "sleep_head (set_slot_state p q s) = sleep_head s"
  "sleep_tail (set_slot_state p q s) = sleep_tail s"
  by (simp_all add: set_slot_state_def)

lemma tick_park: "park_same s (scheduler_tick c s) \<and> parks_same {} s (scheduler_tick c s)"
proof -
  have acc: "park_same s (cpu_account_scheduler_tick c b s)" "tasks (cpu_account_scheduler_tick c b s) = tasks s" for b
    by (auto simp: cpu_account_scheduler_tick_def park_same_def Let_def split: option.split)
  show ?thesis
    using acc unfolding scheduler_tick_def spin_lock_eq Let_def
    by (auto simp: park_same_def parks_same_def upd_task_apply split: option.split prod.split)
qed

lemma parks_same_tasks: "parks_same A s s' \<Longrightarrow> tasks s'' = tasks s' \<Longrightarrow> parks_same A s s''"
  by (simp only: parks_same_def)

context run_queue
begin

lemma ready_park:
  assumes inv: "sched_inv alg holds s" and t: "state (tasks s t) \<notin> {TASK_READY, TASK_RUNNING, TASK_ZOMBIE}" "\<not> idle_of s t"
  shows "park_same s (ready_and_enqueue alg (policy (tasks s t)) t s) \<and>
    (\<forall>x. state (tasks (ready_and_enqueue alg (policy (tasks s t)) t s) x) = (if x = t then TASK_READY else state (tasks s x)))"
proof -
  obtain qs where q: "queued alg holds s qs" and ok: "cpus_ok s" using inv by (auto simp: sched_inv_def)
  have "state (tasks s t) \<noteq> TASK_READY" using t by auto
  from ready_and_enqueue_queued [OF q this t(2) cpus_ok_policy [OF ok] refl]
  have e: "same_rest s (ready_and_enqueue alg (policy (tasks s t)) t s)"
    "links_only UNIV (upd_task t (state_update (\<lambda>_. TASK_READY)) (tasks s)) (tasks (ready_and_enqueue alg (policy (tasks s t)) t s))"
    by blast+
  show ?thesis using park_same_links [OF e] links_only_fields(1) [OF e(2)] by (simp add: upd_task_apply)
qed

lemma request_park [simp]:
  "park_same s (request_local_reschedule c s)" "park_same s (smp_request_reschedule c s)"
  by (simp_all add: park_same_def)

lemma publish_park:
  assumes inv: "sched_inv alg holds s" and idle: "\<not> idle_of s t"
  shows "park_same s (task_publish c (Some t) s) \<and> parks_same {} s (task_publish c (Some t) s)"
proof (cases "state (tasks s t) = TASK_NEW")
  case True
  let ?s = "set_hw c (eflags_update (\<lambda>f. f AND NOT IF_FLAG)) s"
  let ?r = "ready_and_enqueue alg (policy (tasks s t)) t ?s"
  have r: "park_same ?s ?r" "\<And>x. state (tasks ?r x) = (if x = t then TASK_READY else state (tasks s x))"
    using ready_park [of ?s t] inv True idle by auto
  have eq: "task_publish c (Some t) s = smp_request_reschedule c (spin_unlock_irqrestore c (eflags (hw s c)) ?r)"
    using True inv_slot [OF inv, of t] cpus_ok_policy [of s t] inv
    by (simp add: task_publish_def scheduler_make_ready_def spin_lock_eq Let_def sched_inv_def)
  show ?thesis unfolding eq
  proof
    show "park_same s (smp_request_reschedule c (spin_unlock_irqrestore c (eflags (hw s c)) ?r))"
      by (rule park_same_trans [OF park_same_trans [OF park_same_set_hw r(1)] park_same_trans [OF park_same_unlock request_park(2)]])
    show "parks_same {} s (smp_request_reschedule c (spin_unlock_irqrestore c (eflags (hw s c)) ?r))"
      using True by (simp add: parks_same_def r(2))
  qed
qed (simp add: task_publish_def parks_same_def)

lemma exit_park:
  assumes "sched_inv alg holds s" "task_exit_mark c s = Some s'"
  shows "park_same s s' \<and> parks_same {} s s'"
proof -
  from assms(2) obtain t where t: "task_current c s = Some t"
      "s' = set_task t (state_update (\<lambda>_. TASK_ZOMBIE)) (set_hw c (eflags_update (\<lambda>f. f AND NOT IF_FLAG)) s)"
    by (auto simp: task_exit_mark_def interrupt_save_disable_def split: option.splits if_splits)
  then have r: "runs s c t" by (auto simp: task_current_def cpu_current_def runs_def split: if_splits)
  have "cpus_ok s" using assms(1) by (simp add: sched_inv_def)
  from cpus_ok_running [OF this r] have "\<not> parked (state (tasks s t))" by auto
  then show ?thesis by (auto simp: t(2) park_same_def parks_same_def upd_task_apply)
qed

lemma remove_park:
  assumes inv: "sched_inv alg holds s" and idle: "\<not> idle_of s t"
  shows "park_same s (scheduler_remove c (Some t) s) \<and> parks_same {} s (scheduler_remove c (Some t) s)"
proof (cases "state (tasks s t) = TASK_READY")
  case True
  let ?s = "set_hw c (eflags_update (\<lambda>f. f AND NOT IF_FLAG)) s"
  have pre: "sched_inv alg holds ?s" "state (tasks ?s t) = TASK_READY" "\<not> idle_of ?s t" using inv True idle by simp_all
  from dequeue_inv [OF pre] obtain r where
      r: "set_task t (state_update (\<lambda>_. TASK_NEW)) (call_dequeue alg (policy (tasks s t)) t ?s) = r"
      "same_rest ?s r" "links_only UNIV (upd_task t (state_update (\<lambda>_. TASK_NEW)) (tasks ?s)) (tasks r)"
    by auto
  have eq: "scheduler_remove c (Some t) s = spin_unlock_irqrestore c (eflags (hw s c)) r"
    using True inv_slot [OF inv, of t] r(1) by (simp add: scheduler_remove_def spin_lock_eq Let_def)
  have park: "park_same s r" using park_same_trans [OF park_same_set_hw park_same_links [OF r(2,3)]] .
  moreover have "parks_same {} s r"
    using True links_only_fields(1) [OF r(3)] by (simp add: parks_same_def upd_task_apply)
  moreover have "park_same s (spin_unlock_irqrestore c (eflags (hw s c)) r)"
    by (rule park_same_trans [OF park park_same_unlock])
  ultimately show ?thesis unfolding eq using parks_same_tasks [OF _ unlock_frame(1)] by blast
next
  case False
  have "scheduler_remove c (Some t) s =
      spin_unlock_irqrestore c (eflags (hw s c)) (set_hw c (eflags_update (\<lambda>f. f AND NOT IF_FLAG)) s)"
    using False by (simp add: scheduler_remove_def spin_lock_eq Let_def)
  moreover have "park_same s (spin_unlock_irqrestore c (eflags (hw s c)) (set_hw c (eflags_update (\<lambda>f. f AND NOT IF_FLAG)) s))"
    by (rule park_same_trans [OF park_same_set_hw park_same_unlock])
  ultimately show ?thesis by (simp add: parks_same_def)
qed

end

section \<open>Wait queues as lists\<close>

definition wait_list :: "'q kernel \<Rightarrow> nat \<Rightarrow> tid list \<Rightarrow> bool" where
  "wait_list s q xs \<longleftrightarrow>
     dll (wait_previous \<circ> tasks s) (wait_next \<circ> tasks s) (wq_head (wait_queues s q)) (wq_tail (wait_queues s q)) xs \<and>
     wq_count (wait_queues s q) = of_nat (length xs)"

lemma wait_list_frame:
  assumes "wait_list s q xs" "wait_queues s' q = wait_queues s q"
    and "\<And>x. x \<in> set xs \<Longrightarrow> wait_previous (tasks s' x) = wait_previous (tasks s x) \<and> wait_next (tasks s' x) = wait_next (tasks s x)"
  shows "wait_list s' q xs"
proof -
  have "dll (wait_previous \<circ> tasks s') (wait_next \<circ> tasks s') h t xs = dll (wait_previous \<circ> tasks s) (wait_next \<circ> tasks s) h t xs" for h t
    by (rule dll_cong) (use assms(3) in simp)
  then show ?thesis using assms(1,2) by (simp add: wait_list_def)
qed

lemma set_wq_frame [simp, kernel_frame]:
  "tasks (set_wq q f s) = tasks s" "cpus (set_wq q f s) = cpus s" "cpu_count (set_wq q f s) = cpu_count s"
  "policy_slots (set_wq q f s) = policy_slots s" "hw (set_wq q f s) = hw s"
  "semaphore_count (set_wq q f s) = semaphore_count s" "mutexes (set_wq q f s) = mutexes s"
  "sleep_head (set_wq q f s) = sleep_head s" "sleep_tail (set_wq q f s) = sleep_tail s"
  "wait_queues (set_wq q f s) = (wait_queues s)(q := f (wait_queues s q))"
  by (simp_all add: set_wq_def)

text \<open>Both queue operations touch the links of their queue only.\<close>

definition wait_change :: "nat \<Rightarrow> 'q kernel \<Rightarrow> 'q kernel \<Rightarrow> bool" where
  "wait_change q s s' \<longleftrightarrow> sched_same s s' \<and> semaphore_count s' = semaphore_count s \<and> mutexes s' = mutexes s \<and>
     sleep_head s' = sleep_head s \<and> sleep_tail s' = sleep_tail s \<and>
     (\<forall>p. p \<noteq> q \<longrightarrow> wait_queues s' p = wait_queues s p) \<and>
     (\<forall>x. sleep_previous (tasks s' x) = sleep_previous (tasks s x) \<and> sleep_next (tasks s' x) = sleep_next (tasks s x) \<and>
        wake_tick (tasks s' x) = wake_tick (tasks s x))"

lemma wait_queue_push_back_list:
  assumes l: "wait_list s q xs" and t: "t \<notin> set xs"
  shows "wait_list (wait_queue_push_back q t s) q (xs @ [t]) \<and> wait_change q s (wait_queue_push_back q t s) \<and>
    (\<forall>x. x \<notin> insert t (set xs) \<longrightarrow> tasks (wait_queue_push_back q t s) x = tasks s x) \<and>
    (\<forall>x. waiting_on (tasks (wait_queue_push_back q t s) x) = waiting_on (tasks s x))"
proof -
  let ?s' = "wait_queue_push_back q t s"
  have d: "dll (wait_previous \<circ> tasks s) (wait_next \<circ> tasks s) (wq_head (wait_queues s q)) (wq_tail (wait_queues s q)) xs"
    using l by (simp add: wait_list_def)
  note new = dll_push_back [OF d t]
  have "dll (wait_previous \<circ> tasks ?s') (wait_next \<circ> tasks ?s') (wq_head (wait_queues ?s' q)) (wq_tail (wait_queues ?s' q)) (xs @ [t])"
    using new by (cases "wq_tail (wait_queues s q)") (simp_all add: wait_queue_push_back_def Let_def)
  moreover have "wq_count (wait_queues ?s' q) = of_nat (length (xs @ [t]))"
    using l by (cases "wq_tail (wait_queues s q)") (simp_all add: wait_queue_push_back_def Let_def wait_list_def)
  moreover have "wait_change q s ?s'"
    by (cases "wq_tail (wait_queues s q)")
       (simp_all add: wait_queue_push_back_def Let_def wait_change_def sched_same_def upd_task_apply)
  moreover have "tasks ?s' x = tasks s x" if "x \<notin> insert t (set xs)" for x
  proof (cases "wq_tail (wait_queues s q)")
    case (Some u)
    then have "u \<in> set xs" using dll_head_tail [OF d] last_or_Some_in [of xs u] by simp
    then have "x \<noteq> u" using that by auto
    then show ?thesis using that Some by (simp add: wait_queue_push_back_def Let_def)
  qed (use that in \<open>simp add: wait_queue_push_back_def Let_def\<close>)
  moreover have "waiting_on (tasks ?s' x) = waiting_on (tasks s x)" for x
    by (cases "wq_tail (wait_queues s q)") (simp_all add: wait_queue_push_back_def Let_def upd_task_apply)
  ultimately show ?thesis by (simp add: wait_list_def)
qed

lemma wait_queue_pop_front_empty: "wait_list s q [] \<Longrightarrow> wait_queue_pop_front q s = (None, s)"
  by (simp add: wait_queue_pop_front_def wait_list_def)

lemma wait_queue_pop_front_list:
  assumes l: "wait_list s q (t # xs)"
  shows "\<exists>s'. wait_queue_pop_front q s = (Some t, s') \<and> wait_list s' q xs \<and> wait_change q s s' \<and>
    (\<forall>x. x \<notin> set (t # xs) \<longrightarrow> tasks s' x = tasks s x) \<and>
    (\<forall>x. waiting_on (tasks s' x) = (if x = t then None else waiting_on (tasks s x)))"
proof -
  have d: "dll (wait_previous \<circ> tasks s) (wait_next \<circ> tasks s) (wq_head (wait_queues s q)) (wq_tail (wait_queues s q)) ([] @ t # xs)"
    using l by (simp add: wait_list_def)
  have h: "wq_head (wait_queues s q) = Some t" using dll_head_tail [OF d] by simp
  let ?n = "wait_next (tasks s t)"
  have n: "?n = first_or None xs" using dll_links [OF d] by simp
  have p0: "(wait_previous \<circ> tasks s) t = None" "(wait_next \<circ> tasks s) t = ?n" using dll_links [OF d] by simp_all
  have nt: "?n \<noteq> Some t" using dll_distinct [OF d] n first_or_Some_in [of xs t] by auto
  obtain s' where s': "wait_queue_pop_front q s = (Some t, s')"
    by (simp add: wait_queue_pop_front_def h Let_def)
  have f: "wait_previous \<circ> tasks s' = (set_link ?n None (wait_previous \<circ> tasks s))(t := None)"
    "wait_next \<circ> tasks s' = (wait_next \<circ> tasks s)(t := None)"
    "wq_head (wait_queues s' q) = ?n" "wq_tail (wait_queues s' q) = (if ?n = None then None else wq_tail (wait_queues s q))"
    "wq_count (wait_queues s' q) = wq_count (wait_queues s q) - 1"
    using s' by (cases ?n; simp add: wait_queue_pop_front_def h Let_def; auto)+
  have "dll (wait_previous \<circ> tasks s') (wait_next \<circ> tasks s') (wq_head (wait_queues s' q)) (wq_tail (wait_queues s' q)) xs"
    using dll_unlink [OF d, unfolded p0] unfolding f by simp
  then have "wait_list s' q xs" using l f(5) by (simp add: wait_list_def)
  moreover have "wait_change q s s'"
    using s' by (cases ?n) (auto simp: wait_queue_pop_front_def h Let_def wait_change_def sched_same_def upd_task_apply)
  moreover have "tasks s' x = tasks s x" if "x \<notin> set (t # xs)" for x
  proof (cases ?n)
    case (Some u)
    then have "x \<noteq> u" using that n first_or_Some_in [of xs u] by auto
    then show ?thesis using that Some s' by (auto simp: wait_queue_pop_front_def h Let_def)
  qed (use that s' in \<open>auto simp: wait_queue_pop_front_def h Let_def\<close>)
  moreover have "waiting_on (tasks s' x) = (if x = t then None else waiting_on (tasks s x))" for x
    using s' by (cases ?n) (auto simp: wait_queue_pop_front_def h Let_def upd_task_apply)
  ultimately show ?thesis using s' by blast
qed

section \<open>The steps\<close>

text \<open>
  \<open>(s, W, F)\<close>: the kernel state, the tasks taken off a queue and not yet passed to \<open>scheduler_wake\<close>, and
  the tasks left behind by a switch and not yet passed to \<open>task_internal_finish_switch\<close>.
\<close>

type_synonym 'q system = "'q kernel \<times> tid set \<times> tid multiset"

text \<open>Processor \<open>c\<close> executes code of the task \<open>t\<close>; the idle tasks only halt and yield.\<close>

definition busy :: "'q kernel \<Rightarrow> cpu_id \<Rightarrow> tid \<Rightarrow> bool" where
  "busy s c t \<longleftrightarrow> runs s c t \<and> state (tasks s t) = TASK_RUNNING \<and> \<not> idle_of s t"

definition left :: "tid option \<Rightarrow> tid multiset" where
  "left previous = (case previous of None \<Rightarrow> {#} | Some t \<Rightarrow> {#t#})"

inductive sys_step :: "'q system \<Rightarrow> 'q system \<Rightarrow> bool" where
  schedule: "schedule_locked c s = Some (previous, s') \<Longrightarrow> sys_step (s, W, F) (s', W, F + left previous)"
| yield: "schedule_locked c (set_cpu c (reschedule_pending_update (\<lambda>_. False)) s) = Some (previous, s') \<Longrightarrow>
    sys_step (s, W, F) (s', W, F + left previous)"
| preempt: "preemption_enabled (cpus s c) \<Longrightarrow> reschedule_pending (cpus s c) \<Longrightarrow>
    schedule_locked c (set_cpu c (scheduler_preempt_restore_flags_update (\<lambda>_. flags)) s) = Some (previous, s') \<Longrightarrow>
    sys_step (s, W, F) (s', W, F + left previous)"
| finish: "t \<in># F \<Longrightarrow> state (tasks s t) \<noteq> TASK_ZOMBIE \<Longrightarrow> sys_step (s, W, F) (s, W, F - {#t#})"
| finish_zombie: "t \<in># F \<Longrightarrow> state (tasks s t) = TASK_ZOMBIE \<Longrightarrow>
    sys_step (s, W, F) (finish_switch_zombie c t s, W, F - {#t#})"
| wake: "t \<in> W \<Longrightarrow> sys_step (s, W, F) (scheduler_wake c (Some t) s, W - {t}, F)"
| publish: "\<not> idle_of s t \<Longrightarrow> sys_step (s, W, F) (task_publish c (Some t) s, W, F)"
| remove: "\<not> idle_of s t \<Longrightarrow> sys_step (s, W, F) (scheduler_remove c (Some t) s, W, F)"
| tick: "sys_step (s, W, F) (scheduler_tick c s, W, F)"
| ipi: "sys_step (s, W, F) (lapic_reschedule_handler c s, W, F)"
| exit: "task_exit_mark c s = Some s' \<Longrightarrow> sys_step (s, W, F) (s', W, F)"
| wait: "busy s c t \<Longrightarrow> wait_queue_block c (Some q) s = Some (previous, s') \<Longrightarrow>
    sys_step (s, W, F) (s', W, F + left previous)"
| take: "wait_queue_take c q s = (r, s') \<Longrightarrow> sys_step (s, W, F) (s', W \<union> set_option r, F)"
| sem_wait: "busy s c t \<Longrightarrow> semaphore_wait_round c a s = Some (r, previous, s') \<Longrightarrow>
    sys_step (s, W, F) (s', W, F + left previous)"
| sem_try: "semaphore_try_wait c (Some a) s = (b, s') \<Longrightarrow> sys_step (s, W, F) (s', W, F)"
| sem_release: "semaphore_release c a s = (b, r, s') \<Longrightarrow> sys_step (s, W, F) (s', W \<union> set_option r, F)"
| mutex_lock: "busy s c t \<Longrightarrow> mutex_lock_round c a t s = Some (r, previous, s') \<Longrightarrow>
    sys_step (s, W, F) (s', W, F + left previous)"
| mutex_try: "mutex_try_lock c (Some a) s = (b, s') \<Longrightarrow> sys_step (s, W, F) (s', W, F)"
| mutex_release: "busy s c t \<Longrightarrow> mutex_release c a t s = (b, r, s') \<Longrightarrow> sys_step (s, W, F) (s', W \<union> set_option r, F)"
| sleep: "busy s c t \<Longrightarrow> task_sleep_locked c ms s = Some (previous, s') \<Longrightarrow>
    sys_step (s, W, F) (s', W, F + left previous)"
| expire: "sleep_queue_take c now s = (r, s') \<Longrightarrow> sys_step (s, W, F) (s', W \<union> set_option r, F)"

inductive_cases sys_stepE: "sys_step (s, W, F) (s', W', F')"

lemmas sys_step_split = sys_stepE [consumes 1, case_names schedule yield preempt finish finish_zombie wake publish
  remove tick ipi exit wait take sem_wait sem_try sem_release mutex_lock mutex_try mutex_release sleep expire]

section \<open>The invariant of the system\<close>

text \<open>A parked task stands in exactly one place: in the wait queue it names, in the sleep queue, or
  with a processor that is about to wake it.\<close>

definition parked_ok :: "'q kernel \<Rightarrow> tid set \<Rightarrow> tid list \<Rightarrow> bool" where
  "parked_ok s W zs \<longleftrightarrow>
     (\<forall>x. waiting_on (tasks s x) \<noteq> None \<longrightarrow> state (tasks s x) = TASK_BLOCKED \<and> x \<notin> W) \<and>
     (\<forall>x \<in> set zs. state (tasks s x) = TASK_SLEEPING \<and> x \<notin> W) \<and>
     (\<forall>x. parked (state (tasks s x)) \<longleftrightarrow> waiting_on (tasks s x) \<noteq> None \<or> x \<in> set zs \<or> x \<in> W)"

definition waits_ok :: "'q kernel \<Rightarrow> (nat \<Rightarrow> tid list) \<Rightarrow> bool" where
  "waits_ok s ws \<longleftrightarrow> (\<forall>q. wait_list s q (ws q) \<and> (\<forall>x. x \<in> set (ws q) \<longleftrightarrow> waiting_on (tasks s x) = Some q))"

definition sys_inv ::
  "'q scheduler_algorithm \<Rightarrow> ('q \<Rightarrow> task_memory \<Rightarrow> tid list \<Rightarrow> bool) \<Rightarrow> 'q system \<Rightarrow> bool" where
  "sys_inv alg holds = (\<lambda>(s, W, F). sched_inv alg holds s \<and>
     (\<exists>ws zs. waits_ok s ws \<and> sleep_list s zs \<and> parked_ok s W zs))"

text \<open>Steps outside the wait and sleep queues.\<close>

definition waits_same :: "'q kernel \<Rightarrow> 'q kernel \<Rightarrow> bool" where
  "waits_same s s' \<longleftrightarrow> wait_queues s' = wait_queues s \<and> sleep_head s' = sleep_head s \<and> sleep_tail s' = sleep_tail s \<and>
     (\<forall>x. wait_previous (tasks s' x) = wait_previous (tasks s x) \<and> wait_next (tasks s' x) = wait_next (tasks s x) \<and>
        waiting_on (tasks s' x) = waiting_on (tasks s x) \<and> sleep_previous (tasks s' x) = sleep_previous (tasks s x) \<and>
        sleep_next (tasks s' x) = sleep_next (tasks s x) \<and> wake_tick (tasks s' x) = wake_tick (tasks s x))"

lemma park_waits_same: "park_same s s' \<Longrightarrow> waits_same s s'"
  by (simp add: park_same_def waits_same_def)

lemma waits_same_waits_ok:
  assumes "waits_same s s'" "waits_ok s ws"
  shows "waits_ok s' ws"
  unfolding waits_ok_def
proof (intro allI conjI)
  fix q
  have "wait_list s q (ws q)" using assms(2) by (simp add: waits_ok_def)
  then show "wait_list s' q (ws q)"
    by (rule wait_list_frame) (use assms(1) in \<open>simp_all add: waits_same_def\<close>)
  fix x
  show "x \<in> set (ws q) \<longleftrightarrow> waiting_on (tasks s' x) = Some q"
    using assms by (simp add: waits_same_def waits_ok_def)
qed

lemma waits_same_sleep_list: "waits_same s s' \<Longrightarrow> sleep_list s zs \<Longrightarrow> sleep_list s' zs"
  by (rule sleep_list_frame) (simp_all add: waits_same_def)

lemma parks_same_parked:
  assumes "parks_same {} s s'"
  shows "parked (state (tasks s' x)) = parked (state (tasks s x))"
    "state (tasks s' x) = TASK_BLOCKED \<longleftrightarrow> state (tasks s x) = TASK_BLOCKED"
    "state (tasks s' x) = TASK_SLEEPING \<longleftrightarrow> state (tasks s x) = TASK_SLEEPING"
proof -
  have *: "parked (state (tasks s x)) \<or> parked (state (tasks s' x)) \<Longrightarrow> state (tasks s' x) = state (tasks s x)"
    using assms unfolding parks_same_def by blast
  show "parked (state (tasks s' x)) = parked (state (tasks s x))"
    "state (tasks s' x) = TASK_BLOCKED \<longleftrightarrow> state (tasks s x) = TASK_BLOCKED"
    "state (tasks s' x) = TASK_SLEEPING \<longleftrightarrow> state (tasks s x) = TASK_SLEEPING"
    using * by (metis parked_simps(1,2))+
qed

lemma parks_same_parked_ok:
  assumes "waits_same s s'" "parks_same {} s s'" "parked_ok s W zs"
  shows "parked_ok s' W zs"
  using assms(1,3) unfolding parked_ok_def waits_same_def parks_same_parked [OF assms(2)] by simp

lemma sys_frame:
  assumes "sys_inv alg holds (s, W, F)" "sched_inv alg holds s'" "waits_same s s'" "parks_same {} s s'"
  shows "sys_inv alg holds (s', W, F')"
  using assms waits_same_waits_ok [OF assms(3)] waits_same_sleep_list [OF assms(3)] parks_same_parked_ok [OF assms(3,4)]
  unfolding sys_inv_def by blast

lemma sys_inv_F: "sys_inv alg holds (s, W, F) \<Longrightarrow> sys_inv alg holds (s, W, F')"
  by (simp add: sys_inv_def)

lemma sys_inv_sched: "sys_inv alg holds (s, W, F) \<Longrightarrow> sched_inv alg holds s"
  by (simp add: sys_inv_def)

end
