(* ===== verification/Reachable.thy ===== *)
theory Reachable
  imports System
begin

text \<open>
  Every step of the system keeps its invariant, and with it every reachable state: the queues hold the
  READY tasks of their bands, no task runs twice, and a parked task stands in exactly one place.
\<close>

section \<open>Frames of the remaining operations\<close>

lemma waits_same_refl [simp]: "waits_same s s"
  by (simp add: waits_same_def)

lemma waits_same_trans: "waits_same s s' \<Longrightarrow> waits_same s' s'' \<Longrightarrow> waits_same s s''"
  by (simp add: waits_same_def)

lemma waits_same_set_hw [simp]: "waits_same s (set_hw c f s)"
  by (simp add: waits_same_def)

lemma waits_same_unlock [simp]: "waits_same s (spin_unlock_irqrestore c flags s)"
  by (simp add: waits_same_def)

lemma sched_same_parks: "sched_same s s' \<Longrightarrow> parks_same {} s s'"
  by (simp add: sched_same_def parks_same_def)

lemma set_sem_frame [simp, kernel_frame]:
  "tasks (set_sem a n s) = tasks s" "cpus (set_sem a n s) = cpus s" "cpu_count (set_sem a n s) = cpu_count s"
  "hw (set_sem a n s) = hw s" "wait_queues (set_sem a n s) = wait_queues s" "mutexes (set_sem a n s) = mutexes s"
  "semaphore_count (set_sem a n s) = (semaphore_count s)(a := n)"
  "sched_same s (set_sem a n s)" "waits_same s (set_sem a n s)"
  "policy_slots (set_sem a n s) = policy_slots s"
  "sleep_head (set_sem a n s) = sleep_head s" "sleep_tail (set_sem a n s) = sleep_tail s"
  by (simp_all add: set_sem_def sched_same_def waits_same_def)

lemma set_mutex_frame [simp, kernel_frame]:
  "tasks (set_mutex a m s) = tasks s" "cpus (set_mutex a m s) = cpus s" "cpu_count (set_mutex a m s) = cpu_count s"
  "hw (set_mutex a m s) = hw s" "wait_queues (set_mutex a m s) = wait_queues s" "mutexes (set_mutex a m s) = (mutexes s)(a := m)"
  "semaphore_count (set_mutex a m s) = semaphore_count s"
  "sched_same s (set_mutex a m s)" "waits_same s (set_mutex a m s)"
  "policy_slots (set_mutex a m s) = policy_slots s"
  "sleep_head (set_mutex a m s) = sleep_head s" "sleep_tail (set_mutex a m s) = sleep_tail s"
  by (simp_all add: set_mutex_def sched_same_def waits_same_def)

lemma cleanup_push_frame:
  "sched_same s (finish_switch_zombie c t s)" "waits_same s (finish_switch_zombie c t s)"
  "semaphore_count (finish_switch_zombie c t s) = semaphore_count s" "mutexes (finish_switch_zombie c t s) = mutexes s"
  by (auto simp: finish_switch_zombie_def cleanup_queue_push_def spin_lock_eq Let_def sched_same_def waits_same_def
      upd_task_apply split: option.split)

lemma ipi_frame:
  "waits_same s (lapic_reschedule_handler c s)" "semaphore_count (lapic_reschedule_handler c s) = semaphore_count s"
  "mutexes (lapic_reschedule_handler c s) = mutexes s"
  by (auto simp: waits_same_def lapic_reschedule_handler_def Let_def split: option.split)

lemma sleep_insert_frame:
  assumes "sleep_queue_insert t s = Some s'"
  shows "wait_queues s' = wait_queues s \<and> semaphore_count s' = semaphore_count s \<and> mutexes s' = mutexes s \<and> cpus s' = cpus s \<and>
    (\<forall>x. wait_previous (tasks s' x) = wait_previous (tasks s x) \<and> wait_next (tasks s' x) = wait_next (tasks s x) \<and>
      waiting_on (tasks s' x) = waiting_on (tasks s x))"
  using assms unfolding sleep_queue_insert_def Let_def
  by (auto simp: upd_task_apply split: option.splits)

lemma sleep_remove_frame:
  assumes "sleep_queue_remove_head s = (r, s')"
  shows "wait_queues s' = wait_queues s \<and> semaphore_count s' = semaphore_count s \<and> mutexes s' = mutexes s \<and>
    (\<forall>x. wait_previous (tasks s' x) = wait_previous (tasks s x) \<and> wait_next (tasks s' x) = wait_next (tasks s x) \<and>
      waiting_on (tasks s' x) = waiting_on (tasks s x))"
  using assms unfolding sleep_queue_remove_head_def Let_def
  by (auto simp: upd_task_apply split: option.splits)

section \<open>Wait queues of the system\<close>

lemma waits_ok_update:
  assumes ok: "waits_ok s ws" and l: "wait_list s' q ys" and q: "\<And>p. p \<noteq> q \<Longrightarrow> wait_queues s' p = wait_queues s p"
    and links: "\<And>p x. p \<noteq> q \<Longrightarrow> x \<in> set (ws p) \<Longrightarrow>
      wait_previous (tasks s' x) = wait_previous (tasks s x) \<and> wait_next (tasks s' x) = wait_next (tasks s x)"
    and mem: "\<And>x. x \<in> set ys \<longleftrightarrow> waiting_on (tasks s' x) = Some q"
    and other: "\<And>x p. p \<noteq> q \<Longrightarrow> waiting_on (tasks s' x) = Some p \<longleftrightarrow> waiting_on (tasks s x) = Some p"
  shows "waits_ok s' (ws(q := ys))"
  unfolding waits_ok_def
proof (intro allI)
  fix p
  show "wait_list s' p ((ws(q := ys)) p) \<and> (\<forall>x. (x \<in> set ((ws(q := ys)) p)) = (waiting_on (tasks s' x) = Some p))"
  proof (cases "p = q")
    case False
    have "wait_list s p (ws p)" using ok by (simp add: waits_ok_def)
    then have "wait_list s' p (ws p)" by (rule wait_list_frame) (use False q links in simp_all)
    then show ?thesis using False other ok by (simp add: waits_ok_def)
  qed (use l mem in simp)
qed

lemma waits_ok_disjoint:
  "waits_ok s ws \<Longrightarrow> p \<noteq> q \<Longrightarrow> x \<in> set (ws p) \<Longrightarrow> x \<notin> set (ws q)"
  by (simp add: waits_ok_def)

lemma waits_ok_list: "waits_ok s ws \<Longrightarrow> wait_list s q (ws q)"
  by (simp add: waits_ok_def)

lemma waits_ok_member: "waits_ok s ws \<Longrightarrow> x \<in> set (ws q) \<longleftrightarrow> waiting_on (tasks s x) = Some q"
  by (simp add: waits_ok_def)

text \<open>A task that waits nowhere joins a queue.\<close>

lemma waits_ok_join:
  assumes ok: "waits_ok s ws" and t: "waiting_on (tasks s t) = None"
    and s': "s' = wait_queue_push_back q t (set_task t (waiting_on_update (\<lambda>_. Some q)) s)"
  shows "waits_ok s' (ws(q := ws q @ [t])) \<and> wait_change q s s' \<and>
    (\<forall>x. waiting_on (tasks s' x) = (if x = t then Some q else waiting_on (tasks s x)))"
proof -
  let ?s1 = "set_task t (waiting_on_update (\<lambda>_. Some q)) s"
  have out: "t \<notin> set (ws p)" for p using waits_ok_member [OF ok] t by simp
  have l1: "wait_list ?s1 q (ws q)"
    by (rule wait_list_frame [OF waits_ok_list [OF ok]]) (simp_all add: upd_task_apply)
  note push = wait_queue_push_back_list [OF l1 out, folded s']
  have w: "waiting_on (tasks s' x) = (if x = t then Some q else waiting_on (tasks s x))" for x
    using push by (simp add: upd_task_apply)
  have c: "wait_change q s s'"
    using push unfolding wait_change_def sched_same_def by (simp add: upd_task_apply)
  have "waits_ok s' (ws(q := ws q @ [t]))"
  proof (rule waits_ok_update [OF ok])
    show "wait_list s' q (ws q @ [t])" using push by blast
    show "wait_queues s' p = wait_queues s p" if "p \<noteq> q" for p using c that by (simp add: wait_change_def)
    show "wait_previous (tasks s' x) = wait_previous (tasks s x) \<and> wait_next (tasks s' x) = wait_next (tasks s x)"
      if "p \<noteq> q" "x \<in> set (ws p)" for p x
    proof -
      have "x \<notin> insert t (set (ws q))" using waits_ok_disjoint [OF ok that] out that(2) by auto
      then have "tasks s' x = tasks ?s1 x" using push by blast
      then show ?thesis by (simp add: upd_task_apply)
    qed
    show "x \<in> set (ws q @ [t]) \<longleftrightarrow> waiting_on (tasks s' x) = Some q" for x
      using waits_ok_member [OF ok] w by auto
    show "waiting_on (tasks s' x) = Some p \<longleftrightarrow> waiting_on (tasks s x) = Some p" if "p \<noteq> q" for x p
      using w that t by auto
  qed
  with c w show ?thesis by blast
qed

text \<open>The oldest waiter leaves.\<close>

lemma waits_ok_leave:
  assumes ok: "waits_ok s ws" and pop: "wait_queue_pop_front q s = (r, s')"
  shows "r = first_or None (ws q) \<and> waits_ok s' (ws(q := tl (ws q))) \<and> wait_change q s s' \<and>
    (\<forall>x. waiting_on (tasks s' x) = (if r = Some x then None else waiting_on (tasks s x)))"
proof (cases "ws q")
  case Nil
  then have "wait_list s q []" using waits_ok_list [OF ok, of q] by simp
  from wait_queue_pop_front_empty [OF this] have "r = None" "s' = s" using pop by simp_all
  moreover have "ws(q := tl (ws q)) = ws" using Nil by (simp add: fun_eq_iff)
  ultimately show ?thesis using ok Nil by (simp add: wait_change_def)
next
  case (Cons t xs)
  then have l: "wait_list s q (t # xs)" using waits_ok_list [OF ok, of q] by simp
  from wait_queue_pop_front_list [OF l] pop have e: "r = Some t" "wait_list s' q xs" "wait_change q s s'"
      "\<And>x. x \<notin> set (t # xs) \<Longrightarrow> tasks s' x = tasks s x"
      "\<And>x. waiting_on (tasks s' x) = (if x = t then None else waiting_on (tasks s x))" by auto
  have d: "t \<notin> set xs" using l unfolding wait_list_def dll_def by simp
  have "waits_ok s' (ws(q := xs))"
  proof (rule waits_ok_update [OF ok e(2)])
    show "wait_queues s' p = wait_queues s p" if "p \<noteq> q" for p using e(3) that by (simp add: wait_change_def)
    show "wait_previous (tasks s' x) = wait_previous (tasks s x) \<and> wait_next (tasks s' x) = wait_next (tasks s x)"
      if "p \<noteq> q" "x \<in> set (ws p)" for p x
    proof -
      have "x \<notin> set (t # xs)" using waits_ok_disjoint [OF ok that] Cons by simp
      then show ?thesis by (simp add: e(4))
    qed
    show "x \<in> set xs \<longleftrightarrow> waiting_on (tasks s' x) = Some q" for x
      using waits_ok_member [OF ok, of x q] e(5) d unfolding Cons by auto
    show "waiting_on (tasks s' x) = Some p \<longleftrightarrow> waiting_on (tasks s x) = Some p" if "p \<noteq> q" for x p
      using waits_ok_member [OF ok, of t q] e(5) that unfolding Cons by auto
  qed
  then show ?thesis using e Cons by auto
qed

section \<open>Preservation\<close>

lemma parked_ok_busy:
  assumes "parked_ok s W zs" "busy s c t"
  shows "waiting_on (tasks s t) = None \<and> t \<notin> W \<and> t \<notin> set zs"
proof -
  have "\<not> parked (state (tasks s t))" using assms(2) by (simp add: busy_def)
  then show ?thesis using assms(1) unfolding parked_ok_def by blast
qed

context run_queue
begin

lemma sys_same:
  assumes "sys_inv alg holds (s, W, F)" "sched_same s s'" "waits_same s s'"
  shows "sys_inv alg holds (s', W, F')"
  using sys_frame [OF assms(1) sched_same_inv [OF assms(2) sys_inv_sched [OF assms(1)]] assms(3) sched_same_parks [OF assms(2)]] .

lemma sys_set_hw: "sys_inv alg holds (s, W, F) \<Longrightarrow> sys_inv alg holds (set_hw c f s, W, F')"
  by (rule sys_same [OF _ sched_same_set_hw waits_same_set_hw])

lemma sys_unlock: "sys_inv alg holds (s, W, F) \<Longrightarrow> sys_inv alg holds (spin_unlock_irqrestore c flags s, W, F')"
  by (rule sys_same [OF _ sched_same_unlock waits_same_unlock])

lemma sys_schedule:
  assumes inv: "sys_inv alg holds (s, W, F)" and pre: "sched_same s s0" "waits_same s s0"
    and run: "schedule_locked c s0 = Some (prev, s')"
  shows "sys_inv alg holds (s', W, F')"
proof -
  have i0: "sched_inv alg holds s0" by (rule sched_same_inv [OF pre(1) sys_inv_sched [OF inv]])
  from schedule_locked_inv [OF i0 run] have "sched_inv alg holds s'" "park_same s0 s'" "parks_same {} s0 s'" by blast+
  with sys_same [OF inv pre] show ?thesis using sys_frame park_waits_same by blast
qed

text \<open>The step that parks the running task, for both kinds of queue.\<close>

lemma sys_park:
  assumes inv: "sched_inv alg holds s1" and busy: "busy s1 c t" and bs: "parked bs"
    and run: "block_wait_locked c bs flags s1 = Some (prev, s')"
  shows "sched_inv alg holds s' \<and> waits_same s1 s' \<and> (\<forall>p. prev = Some p \<longrightarrow> p = t) \<and> state (tasks s' t) = bs \<and>
    semaphore_count s' = semaphore_count s1 \<and> mutexes s' = mutexes s1 \<and>
    (\<forall>x. x \<noteq> t \<longrightarrow> parked (state (tasks s' x)) = parked (state (tasks s1 x)) \<and>
      (state (tasks s' x) = TASK_BLOCKED) = (state (tasks s1 x) = TASK_BLOCKED) \<and>
      (state (tasks s' x) = TASK_SLEEPING) = (state (tasks s1 x) = TASK_SLEEPING))"
proof -
  have t: "runs s1 c t" "state (tasks s1 t) = TASK_RUNNING" "\<not> idle_of s1 t" using busy by (auto simp: busy_def)
  have uniq: "x = t" if "runs s1 c x" for x using that t(1) by (simp add: runs_def)
  from block_wait_locked_inv [OF inv run] have e: "sched_inv alg holds s'" "park_same s1 s'"
      "\<And>p. prev = Some p \<Longrightarrow> p = t" "parks_same {t} s1 s'" "state (tasks s' t) = bs"
    using uniq t bs by blast+
  have "parked (state (tasks s' x)) = parked (state (tasks s1 x)) \<and>
      (state (tasks s' x) = TASK_BLOCKED) = (state (tasks s1 x) = TASK_BLOCKED) \<and>
      (state (tasks s' x) = TASK_SLEEPING) = (state (tasks s1 x) = TASK_SLEEPING)" if "x \<noteq> t" for x
  proof -
    have "parked (state (tasks s1 x)) \<or> parked (state (tasks s' x)) \<longrightarrow> state (tasks s' x) = state (tasks s1 x)"
      using e(4) that unfolding parks_same_def by blast
    then show ?thesis by (metis parked_simps(1,2))
  qed
  then show ?thesis using e park_waits_same [OF e(2)] by (auto simp: park_same_def)
qed

lemma sys_wait:
  assumes inv: "sys_inv alg holds (s, W, F)" and busy: "busy s c t"
    and run: "wait_queue_block_locked c (Some q) flags s = Some (prev, s')"
  shows "sys_inv alg holds (s', W, F') \<and> semaphore_count s' = semaphore_count s \<and> mutexes s' = mutexes s \<and>
    (\<forall>p. prev = Some p \<longrightarrow> p = t) \<and>
    (\<forall>ws. waits_ok s ws \<longrightarrow> waits_ok s' (ws(q := ws q @ [t])))"
proof -
  obtain ws zs where w: "waits_ok s ws" "sleep_list s zs" "parked_ok s W zs" and si: "sched_inv alg holds s"
    using inv by (auto simp: sys_inv_def)
  have out: "waiting_on (tasks s t) = None" "t \<notin> W" "t \<notin> set zs" using parked_ok_busy [OF w(3) busy] by auto
  have cur: "task_current c s = Some t" using busy by (auto simp: busy_def runs_def task_current_def cpu_current_def)
  let ?s1 = "wait_queue_push_back q t (set_task t (waiting_on_update (\<lambda>_. Some q)) s)"
  note join = waits_ok_join [OF _ out(1) refl]
  have run1: "block_wait_locked c TASK_BLOCKED flags ?s1 = Some (prev, s')"
    using run cur out(1) by (simp add: wait_queue_block_locked_def)
  have same: "sched_same s ?s1" using join [OF w(1)] unfolding wait_change_def by blast
  have b1: "busy ?s1 c t" using busy same by (simp add: busy_def sched_same_def runs_def idle_of_def)
  from sys_park [OF sched_same_inv [OF same si] b1 _ run1] have e: "sched_inv alg holds s'" "waits_same ?s1 s'"
      "\<forall>p. prev = Some p \<longrightarrow> p = t" "state (tasks s' t) = TASK_BLOCKED"
      "semaphore_count s' = semaphore_count ?s1" "mutexes s' = mutexes ?s1"
      "\<And>x. x \<noteq> t \<Longrightarrow> parked (state (tasks s' x)) = parked (state (tasks ?s1 x)) \<and>
        (state (tasks s' x) = TASK_BLOCKED) = (state (tasks ?s1 x) = TASK_BLOCKED) \<and>
        (state (tasks s' x) = TASK_SLEEPING) = (state (tasks ?s1 x) = TASK_SLEEPING)" by auto
  have ws': "waits_ok s' (ws'(q := ws' q @ [t]))" if "waits_ok s ws'" for ws'
    using waits_same_waits_ok [OF e(2)] join [OF that] by blast
  have ch: "wait_change q s ?s1" using join [OF w(1)] by blast
  have "sleep_list ?s1 zs"
    by (rule sleep_list_frame [OF w(2)]) (use ch in \<open>simp_all add: wait_change_def\<close>)
  then have zs': "sleep_list s' zs" by (rule waits_same_sleep_list [OF e(2)])
  have st1: "state (tasks ?s1 x) = state (tasks s x)" for x using same by (simp add: sched_same_def)
  have wo: "waiting_on (tasks s' x) = (if x = t then Some q else waiting_on (tasks s x))" for x
    using e(2) join [OF w(1)] by (simp add: waits_same_def)
  have "parked_ok s' W zs"
    unfolding parked_ok_def
  proof (intro conjI allI ballI impI)
    fix x
    show "state (tasks s' x) = TASK_BLOCKED" "x \<notin> W" if "waiting_on (tasks s' x) \<noteq> None"
      using w(3) that e(4) e(7) [of x] st1 [of x] out(2) wo [of x] unfolding parked_ok_def by (cases "x = t"; simp)+
    show "state (tasks s' x) = TASK_SLEEPING" "x \<notin> W" if "x \<in> set zs"
      using w(3) that e(7) [of x] st1 [of x] out(3) unfolding parked_ok_def by (cases "x = t"; simp)+
    show "parked (state (tasks s' x)) \<longleftrightarrow> waiting_on (tasks s' x) \<noteq> None \<or> x \<in> set zs \<or> x \<in> W"
      using w(3) e(4) e(7) [of x] st1 [of x] wo [of x] unfolding parked_ok_def by (cases "x = t"; simp)
  qed
  then have "sys_inv alg holds (s', W, F')" using e(1) ws' [OF w(1)] zs' unfolding sys_inv_def by blast
  moreover have "semaphore_count s' = semaphore_count s" "mutexes s' = mutexes s"
    using e(5,6) ch by (simp_all add: wait_change_def)
  ultimately show ?thesis using ws' e(3) by blast
qed

text \<open>The step that takes the oldest waiter off a queue.\<close>

lemma sys_pop:
  assumes inv: "sys_inv alg holds (s, W, F)" and pop: "wait_queue_pop_front q s = (r, s')"
  shows "sys_inv alg holds (s', W \<union> set_option r, F') \<and> semaphore_count s' = semaphore_count s \<and> mutexes s' = mutexes s \<and>
    (\<forall>ws. waits_ok s ws \<longrightarrow> r = first_or None (ws q) \<and> waits_ok s' (ws(q := tl (ws q))))"
proof -
  obtain ws zs where w: "waits_ok s ws" "sleep_list s zs" "parked_ok s W zs" and si: "sched_inv alg holds s"
    using inv by (auto simp: sys_inv_def)
  note leave = waits_ok_leave [OF _ pop]
  have ch: "wait_change q s s'" and same: "sched_same s s'" using leave [OF w(1)] by (auto simp: wait_change_def)
  have zs': "sleep_list s' zs"
    by (rule sleep_list_frame [OF w(2)]) (use ch in \<open>simp_all add: wait_change_def\<close>)
  have wo: "waiting_on (tasks s' x) = (if r = Some x then None else waiting_on (tasks s x))" for x
    using leave [OF w(1)] by simp
  have st: "state (tasks s' x) = state (tasks s x)" for x using same by (simp add: sched_same_def)
  have r: "waiting_on (tasks s x) \<noteq> None" if "r = Some x" for x
  proof -
    have "x \<in> set (ws q)" using that leave [OF w(1)] first_or_Some_in [of "ws q" x] by auto
    then show ?thesis using waits_ok_member [OF w(1), of x q] by simp
  qed
  have "parked_ok s' (W \<union> set_option r) zs"
    unfolding parked_ok_def
  proof (intro conjI allI ballI impI)
    fix x
    show "state (tasks s' x) = TASK_BLOCKED" "x \<notin> W \<union> set_option r" if "waiting_on (tasks s' x) \<noteq> None"
      using w(3) that st wo [of x] unfolding parked_ok_def by (auto split: if_splits)
    show "state (tasks s' x) = TASK_SLEEPING" if "x \<in> set zs"
      using w(3) that st unfolding parked_ok_def by simp
    show "x \<notin> W \<union> set_option r" if "x \<in> set zs"
    proof -
      have "state (tasks s x) = TASK_SLEEPING" "x \<notin> W" using w(3) that unfolding parked_ok_def by simp_all
      moreover have "r \<noteq> Some x" using r w(3) calculation(1) unfolding parked_ok_def by force
      ultimately show ?thesis by auto
    qed
    show "parked (state (tasks s' x)) \<longleftrightarrow> waiting_on (tasks s' x) \<noteq> None \<or> x \<in> set zs \<or> x \<in> W \<union> set_option r"
      using w(3) st wo [of x] r unfolding parked_ok_def by auto
  qed
  then have "sys_inv alg holds (s', W \<union> set_option r, F')"
    using sched_same_inv [OF same si] leave [OF w(1)] zs' unfolding sys_inv_def by blast
  then show ?thesis using ch leave by (simp add: wait_change_def)
qed

lemma sys_wake:
  assumes inv: "sys_inv alg holds (s, W, F)" and t: "t \<in> W"
  shows "sys_inv alg holds (scheduler_wake c (Some t) s, W - {t}, F)"
proof -
  let ?s' = "scheduler_wake c (Some t) s"
  obtain ws zs where w: "waits_ok s ws" "sleep_list s zs" "parked_ok s W zs" and si: "sched_inv alg holds s"
    using inv by (auto simp: sys_inv_def)
  have pk: "state (tasks s t) = TASK_BLOCKED \<or> state (tasks s t) = TASK_SLEEPING" and out: "waiting_on (tasks s t) = None" "t \<notin> set zs"
    using w(3) t unfolding parked_ok_def parked_def by blast+
  note e = wake_effect [OF si, of t c]
  have lo: "links_only UNIV (upd_task t (state_update (\<lambda>_. TASK_READY)) (tasks s)) (tasks ?s')" using e pk by simp
  note f = links_only_fields [OF lo]
  have same: "waits_same s ?s'" using e by (simp add: waits_same_def f upd_task_apply)
  have wo: "waiting_on (tasks ?s' x) = waiting_on (tasks s x)" for x using same by (simp add: waits_same_def)
  have st: "state (tasks ?s' x) = (if x = t then TASK_READY else state (tasks s x))" for x by (simp add: f upd_task_apply)
  have "parked_ok ?s' (W - {t}) zs"
    unfolding parked_ok_def
  proof (intro conjI allI ballI impI)
    fix x
    show "state (tasks ?s' x) = TASK_BLOCKED" "x \<notin> W - {t}" if "waiting_on (tasks ?s' x) \<noteq> None"
      using w(3) that st [of x] wo [of x] out(1) unfolding parked_ok_def by auto
    show "state (tasks ?s' x) = TASK_SLEEPING" "x \<notin> W - {t}" if "x \<in> set zs"
      using w(3) that st [of x] out(2) unfolding parked_ok_def by auto
    show "parked (state (tasks ?s' x)) \<longleftrightarrow> waiting_on (tasks ?s' x) \<noteq> None \<or> x \<in> set zs \<or> x \<in> W - {t}"
      using w(3) st [of x] wo [of x] out unfolding parked_ok_def by auto
  qed
  then show ?thesis
    using scheduler_wake_inv [OF si] waits_same_waits_ok [OF same w(1)] waits_same_sleep_list [OF same w(2)]
    unfolding sys_inv_def by blast
qed

lemma sys_sleep:
  assumes inv: "sys_inv alg holds (s, W, F)" and busy: "busy s c t" and run: "task_sleep_locked c ms s = Some (prev, s')"
  shows "sys_inv alg holds (s', W, F') \<and> semaphore_count s' = semaphore_count s \<and> mutexes s' = mutexes s \<and> wait_queues s' = wait_queues s"
proof -
  let ?s0 = "set_hw c (eflags_update (\<lambda>f. f AND NOT IF_FLAG)) s"
  let ?s1 = "set_task t (wake_tick_update (\<lambda>_. sleep_deadline ms ?s0)) ?s0"
  obtain ws zs where w: "waits_ok s ws" "sleep_list s zs" "parked_ok s W zs" and si: "sched_inv alg holds s"
    using inv by (auto simp: sys_inv_def)
  have out: "waiting_on (tasks s t) = None" "t \<notin> W" "t \<notin> set zs" using parked_ok_busy [OF w(3) busy] by auto
  have cur: "task_current c ?s0 = Some t" using busy by (auto simp: busy_def runs_def task_current_def cpu_current_def)
  have l1: "sleep_list ?s1 zs"
    by (rule sleep_list_frame [OF w(2)]) (use out(3) in \<open>auto simp: upd_task_apply\<close>)
  from sleep_queue_insert_list [OF l1 out(3)] obtain s2 zs' where s2: "sleep_queue_insert t ?s1 = Some s2"
      "sleep_list s2 zs'" "sched_same ?s1 s2" "set zs' = insert t (set zs)"
    by (auto simp: insert_commute) (metis (no_types, lifting) Un_insert_right list.simps(15) set_append takeWhile_dropWhile_id)
  note fr = sleep_insert_frame [OF s2(1)]
  have same: "sched_same s s2"
    by (rule sched_same_trans [OF sched_same_trans [OF sched_same_set_hw sched_same_set_task] s2(3)]) simp
  have wait: "wait_previous (tasks s2 x) = wait_previous (tasks s x) \<and> wait_next (tasks s2 x) = wait_next (tasks s x) \<and>
      waiting_on (tasks s2 x) = waiting_on (tasks s x)" for x
    using fr by (simp add: upd_task_apply)
  have wq: "wait_queues s2 = wait_queues s" "semaphore_count s2 = semaphore_count s" "mutexes s2 = mutexes s" using fr by simp_all
  have run2: "block_wait_locked c TASK_SLEEPING (eflags (hw s c)) s2 = Some (prev, s')"
    using run cur s2(1) by (simp add: task_sleep_locked_def spin_lock_eq)
  have b2: "busy s2 c t" using busy same by (simp add: busy_def sched_same_def runs_def idle_of_def)
  from sys_park [OF sched_same_inv [OF same si] b2 _ run2] have e: "sched_inv alg holds s'" "waits_same s2 s'"
      "state (tasks s' t) = TASK_SLEEPING" "semaphore_count s' = semaphore_count s2" "mutexes s' = mutexes s2"
      "\<And>x. x \<noteq> t \<Longrightarrow> parked (state (tasks s' x)) = parked (state (tasks s2 x)) \<and>
        (state (tasks s' x) = TASK_BLOCKED) = (state (tasks s2 x) = TASK_BLOCKED) \<and>
        (state (tasks s' x) = TASK_SLEEPING) = (state (tasks s2 x) = TASK_SLEEPING)" by auto
  have "waits_ok s2 ws"
    unfolding waits_ok_def
  proof (intro allI conjI)
    fix q
    show "wait_list s2 q (ws q)"
      by (rule wait_list_frame [OF waits_ok_list [OF w(1)]]) (simp_all add: wait wq)
    show "x \<in> set (ws q) \<longleftrightarrow> waiting_on (tasks s2 x) = Some q" for x
      using waits_ok_member [OF w(1)] wait by simp
  qed
  then have ws': "waits_ok s' ws" by (rule waits_same_waits_ok [OF e(2)])
  have zs'': "sleep_list s' zs'" by (rule waits_same_sleep_list [OF e(2) s2(2)])
  have st: "state (tasks s2 x) = state (tasks s x)" for x using same by (simp add: sched_same_def)
  have wo: "waiting_on (tasks s' x) = waiting_on (tasks s x)" for x using e(2) wait by (simp add: waits_same_def)
  have "parked_ok s' W zs'"
    unfolding parked_ok_def
  proof (intro conjI allI ballI impI)
    fix x
    show "state (tasks s' x) = TASK_BLOCKED" "x \<notin> W" if "waiting_on (tasks s' x) \<noteq> None"
      using w(3) that e(6) [of x] st [of x] out wo [of x] unfolding parked_ok_def by (cases "x = t"; simp)+
    show "state (tasks s' x) = TASK_SLEEPING" "x \<notin> W" if "x \<in> set zs'"
      using w(3) that e(3) e(6) [of x] st [of x] out s2(4) unfolding parked_ok_def by (cases "x = t"; simp)+
    show "parked (state (tasks s' x)) \<longleftrightarrow> waiting_on (tasks s' x) \<noteq> None \<or> x \<in> set zs' \<or> x \<in> W"
      using w(3) e(3) e(6) [of x] st [of x] wo [of x] s2(4) unfolding parked_ok_def by (cases "x = t"; simp)
  qed
  then have "sys_inv alg holds (s', W, F')" using e(1) ws' zs'' unfolding sys_inv_def by blast
  then show ?thesis using e(2,4,5) wq by (simp add: waits_same_def)
qed

lemma sys_expire:
  assumes inv: "sys_inv alg holds (s, W, F)" and take: "sleep_queue_take c now s = (r, s')"
  shows "sys_inv alg holds (s', W \<union> set_option r, F') \<and> semaphore_count s' = semaphore_count s \<and> mutexes s' = mutexes s \<and> wait_queues s' = wait_queues s"
proof -
  let ?s0 = "set_hw c (eflags_update (\<lambda>f. f AND NOT IF_FLAG)) s"
  obtain ws zs where w: "waits_ok ?s0 ws" "sleep_list ?s0 zs" "parked_ok ?s0 W zs" and si: "sched_inv alg holds ?s0"
    using sys_set_hw [OF inv, where F' = F] unfolding sys_inv_def prod.case by metis
  have none: ?thesis if "r = None" "s' = spin_unlock_irqrestore c (eflags (hw s c)) ?s0"
    using that sys_unlock [OF sys_set_hw [OF inv]] by simp
  show ?thesis
  proof (cases zs)
    case Nil
    then have "sleep_head s = None" using w(2) by (simp add: sleep_list_def)
    then show ?thesis by (intro none) (use take in \<open>simp_all add: sleep_queue_take_def spin_lock_eq\<close>)
  next
    case (Cons h xs)
    then have l: "sleep_list ?s0 (h # xs)" using w(2) by simp
    have hd: "sleep_head s = Some h" using l by (simp add: sleep_list_def dll_def)
    show ?thesis
    proof (cases "wake_tick (tasks s h) > now")
      case True
      then show ?thesis by (intro none) (use take hd in \<open>simp_all add: sleep_queue_take_def spin_lock_eq\<close>)
    next
      case False
      from sleep_queue_remove_head_list [OF l] obtain s1 where
          s1: "sleep_queue_remove_head ?s0 = (Some h, s1)" "sleep_list s1 xs" "sched_same ?s0 s1" by blast
      note fr = sleep_remove_frame [OF s1(1)]
      have r: "r = Some h" "s' = spin_unlock_irqrestore c (eflags (hw s c)) s1"
        using take hd False s1(1) by (auto simp: sleep_queue_take_def spin_lock_eq)
      have d: "h \<notin> set xs" using l unfolding sleep_list_def dll_def by simp
      have st: "state (tasks s1 x) = state (tasks s x)" for x using s1(3) by (simp add: sched_same_def)
      have wo: "waiting_on (tasks s1 x) = waiting_on (tasks s x)" for x using fr by simp
      have "waits_ok s1 ws"
        unfolding waits_ok_def
      proof (intro allI conjI)
        fix q
        show "wait_list s1 q (ws q)"
          by (rule wait_list_frame [OF waits_ok_list [OF w(1)]]) (use fr in simp_all)
        show "x \<in> set (ws q) \<longleftrightarrow> waiting_on (tasks s1 x) = Some q" for x
          using waits_ok_member [OF w(1)] wo by simp
      qed
      moreover have "parked_ok s1 (W \<union> {h}) xs"
        unfolding parked_ok_def
      proof (intro conjI allI ballI impI)
        fix x
        show "state (tasks s1 x) = TASK_BLOCKED" "x \<notin> W \<union> {h}" if "waiting_on (tasks s1 x) \<noteq> None"
          using w(3) that st [of x] wo [of x] Cons unfolding parked_ok_def by auto
        show "state (tasks s1 x) = TASK_SLEEPING" "x \<notin> W \<union> {h}" if "x \<in> set xs"
          using w(3) that st [of x] Cons d unfolding parked_ok_def by auto
        show "parked (state (tasks s1 x)) \<longleftrightarrow> waiting_on (tasks s1 x) \<noteq> None \<or> x \<in> set xs \<or> x \<in> W \<union> {h}"
          using w(3) st [of x] wo [of x] Cons unfolding parked_ok_def by auto
      qed
      ultimately have "sys_inv alg holds (s1, W \<union> {h}, F')"
        using sched_same_inv [OF s1(3) si] s1(2) unfolding sys_inv_def by blast
      then show ?thesis using sys_unlock fr r by auto
    qed
  qed
qed

text \<open>The sections of the semaphores and mutexes.\<close>

lemma round_sem:
  assumes inv: "sys_inv alg holds (s, W, F)" and busy: "busy s c t" and run: "semaphore_wait_round c a s = Some (r, prev, s')"
    and ws: "waits_ok s ws"
  shows "sys_inv alg holds (s', W, F') \<and> mutexes s' = mutexes s \<and> (\<forall>b. b \<noteq> a \<longrightarrow> semaphore_count s' b = semaphore_count s b) \<and>
    (if semaphore_count s a = 0
     then r = Again \<and> semaphore_count s' a = 0 \<and> waits_ok s' (ws(a := ws a @ [t]))
     else r = Returns True \<and> semaphore_count s' a = semaphore_count s a - 1 \<and> waits_ok s' ws)"
proof -
  let ?s0 = "set_hw c (eflags_update (\<lambda>f. f AND NOT IF_FLAG)) s"
  have i0: "sys_inv alg holds (?s0, W, F)" by (rule sys_set_hw [OF inv])
  have w0: "waits_ok ?s0 ws" by (rule waits_same_waits_ok [OF waits_same_set_hw ws])
  have b0: "busy ?s0 c t" using busy by (simp add: busy_def runs_def)
  show ?thesis
  proof (cases "semaphore_count s a = 0")
    case True
    then have "wait_queue_block_locked c (Some a) (eflags (hw s c)) ?s0 = Some (prev, s')" "r = Again"
      using run by (auto simp: semaphore_wait_round_def spin_lock_eq split: option.splits)
    with sys_wait [OF i0 b0] w0 True show ?thesis by fastforce
  next
    case False
    let ?s1 = "set_sem a (semaphore_count s a - 1) ?s0"
    have e: "s' = spin_unlock_irqrestore c (eflags (hw s c)) ?s1" "r = Returns True"
      using run False by (auto simp: semaphore_wait_round_def spin_lock_eq)
    have "waits_ok s' ws" unfolding e(1)
      by (rule waits_same_waits_ok [OF waits_same_unlock waits_same_waits_ok [OF set_sem_frame(9) w0]])
    moreover have "sys_inv alg holds (s', W, F')" unfolding e(1)
      by (rule sys_unlock [OF sys_same [OF i0 set_sem_frame(8,9)]])
    ultimately show ?thesis using e False by simp
  qed
qed

lemma round_mutex:
  assumes inv: "sys_inv alg holds (s, W, F)" and busy: "busy s c t" and run: "mutex_lock_round c a t s = Some (r, prev, s')"
    and ws: "waits_ok s ws"
  shows "sys_inv alg holds (s', W, F') \<and> semaphore_count s' = semaphore_count s \<and> (\<forall>b. b \<noteq> a \<longrightarrow> mutexes s' b = mutexes s b) \<and>
    (if locked (mutexes s a) then
       mutexes s' = mutexes s \<and>
       (if owner (mutexes s a) = Some t then r = Returns False \<and> waits_ok s' ws
        else r = Again \<and> waits_ok s' (ws(a := ws a @ [t])))
     else r = Returns True \<and> mutexes s' a = \<lparr>locked = True, owner = Some t\<rparr> \<and> waits_ok s' ws)"
proof -
  let ?s0 = "set_hw c (eflags_update (\<lambda>f. f AND NOT IF_FLAG)) s"
  have i0: "sys_inv alg holds (?s0, W, F)" by (rule sys_set_hw [OF inv])
  have w0: "waits_ok ?s0 ws" by (rule waits_same_waits_ok [OF waits_same_set_hw ws])
  have b0: "busy ?s0 c t" using busy by (simp add: busy_def runs_def)
  consider "locked (mutexes s a)" "owner (mutexes s a) = Some t" | "locked (mutexes s a)" "owner (mutexes s a) \<noteq> Some t"
    | "\<not> locked (mutexes s a)" by blast
  then show ?thesis
  proof cases
    case 1
    then have e: "s' = spin_unlock_irqrestore c (eflags (hw s c)) ?s0" "r = Returns False"
      using run by (auto simp: mutex_lock_round_def spin_lock_eq)
    have "waits_ok s' ws" unfolding e(1) by (rule waits_same_waits_ok [OF waits_same_unlock w0])
    then show ?thesis using 1 e sys_unlock [OF i0] by simp
  next
    case 2
    then have "wait_queue_block_locked c (Some a) (eflags (hw s c)) ?s0 = Some (prev, s')" "r = Again"
      using run by (auto simp: mutex_lock_round_def spin_lock_eq split: option.splits)
    with sys_wait [OF i0 b0] w0 2 show ?thesis by fastforce
  next
    case 3
    let ?s1 = "set_mutex a \<lparr>locked = True, owner = Some t\<rparr> ?s0"
    have e: "s' = spin_unlock_irqrestore c (eflags (hw s c)) ?s1" "r = Returns True"
      using run 3 by (auto simp: mutex_lock_round_def spin_lock_eq)
    have "waits_ok s' ws" unfolding e(1)
      by (rule waits_same_waits_ok [OF waits_same_unlock waits_same_waits_ok [OF set_mutex_frame(9) w0]])
    moreover have "sys_inv alg holds (s', W, F')" unfolding e(1)
      by (rule sys_unlock [OF sys_same [OF i0 set_mutex_frame(8,9)]])
    ultimately show ?thesis using e 3 by simp
  qed
qed

lemma release_sem:
  assumes inv: "sys_inv alg holds (s, W, F)" and run: "semaphore_release c a s = (b, r, s')" and ws: "waits_ok s ws"
  shows "sys_inv alg holds (s', W \<union> set_option r, F') \<and> mutexes s' = mutexes s \<and>
    (\<forall>b. b \<noteq> a \<longrightarrow> semaphore_count s' b = semaphore_count s b) \<and>
    (if semaphore_count s a = SIZE_MAX
     then \<not> b \<and> r = None \<and> semaphore_count s' a = semaphore_count s a \<and> waits_ok s' ws
     else b \<and> r = first_or None (ws a) \<and> semaphore_count s' a = semaphore_count s a + 1 \<and> waits_ok s' (ws(a := tl (ws a))))"
proof -
  let ?s0 = "set_hw c (eflags_update (\<lambda>f. f AND NOT IF_FLAG)) s"
  have i0: "sys_inv alg holds (?s0, W, F)" by (rule sys_set_hw [OF inv])
  have w0: "waits_ok ?s0 ws" by (rule waits_same_waits_ok [OF waits_same_set_hw ws])
  show ?thesis
  proof (cases "semaphore_count s a = SIZE_MAX")
    case True
    then have e: "s' = spin_unlock_irqrestore c (eflags (hw s c)) ?s0" "\<not> b" "r = None"
      using run by (auto simp: semaphore_release_def spin_lock_eq)
    have "waits_ok s' ws" unfolding e(1) by (rule waits_same_waits_ok [OF waits_same_unlock w0])
    then show ?thesis using True e sys_unlock [OF i0] by simp
  next
    case False
    let ?s1 = "set_sem a (semaphore_count s a + 1) ?s0"
    have i1: "sys_inv alg holds (?s1, W, F)" by (rule sys_same [OF i0 set_sem_frame(8,9)])
    have w1: "waits_ok ?s1 ws" by (rule waits_same_waits_ok [OF set_sem_frame(9) w0])
    obtain s2 where pop: "wait_queue_pop_front a ?s1 = (r, s2)" and e: "s' = spin_unlock_irqrestore c (eflags (hw s c)) s2" "b"
      using run False by (auto simp: semaphore_release_def spin_lock_eq wait_queue_pop_locked_def Let_def split: prod.splits)
    note p = sys_pop [OF i1 pop]
    have w2: "r = first_or None (ws a)" "waits_ok s2 (ws(a := tl (ws a)))" using p w1 by blast+
    have "waits_ok s' (ws(a := tl (ws a)))" unfolding e(1) by (rule waits_same_waits_ok [OF waits_same_unlock w2(2)])
    moreover have "sys_inv alg holds (s', W \<union> set_option r, F')" unfolding e(1) by (rule sys_unlock) (use p in blast)
    ultimately show ?thesis using w2(1) e p False by simp
  qed
qed

lemma release_mutex:
  assumes inv: "sys_inv alg holds (s, W, F)" and run: "mutex_release c a t s = (b, r, s')" and ws: "waits_ok s ws"
  shows "sys_inv alg holds (s', W \<union> set_option r, F') \<and> semaphore_count s' = semaphore_count s \<and>
    (\<forall>b. b \<noteq> a \<longrightarrow> mutexes s' b = mutexes s b) \<and>
    (if locked (mutexes s a) \<and> owner (mutexes s a) = Some t
     then b \<and> r = first_or None (ws a) \<and> mutexes s' a = \<lparr>locked = False, owner = None\<rparr> \<and> waits_ok s' (ws(a := tl (ws a)))
     else \<not> b \<and> r = None \<and> mutexes s' = mutexes s \<and> waits_ok s' ws)"
proof -
  let ?s0 = "set_hw c (eflags_update (\<lambda>f. f AND NOT IF_FLAG)) s"
  have i0: "sys_inv alg holds (?s0, W, F)" by (rule sys_set_hw [OF inv])
  have w0: "waits_ok ?s0 ws" by (rule waits_same_waits_ok [OF waits_same_set_hw ws])
  show ?thesis
  proof (cases "locked (mutexes s a) \<and> owner (mutexes s a) = Some t")
    case False
    then have e: "s' = spin_unlock_irqrestore c (eflags (hw s c)) ?s0" "\<not> b" "r = None"
      using run by (auto simp: mutex_release_def spin_lock_eq split: if_splits)
    have "waits_ok s' ws" unfolding e(1) by (rule waits_same_waits_ok [OF waits_same_unlock w0])
    then show ?thesis unfolding if_not_P [OF False] using e sys_unlock [OF i0] by simp
  next
    case True
    let ?s1 = "set_mutex a \<lparr>locked = False, owner = None\<rparr> ?s0"
    have i1: "sys_inv alg holds (?s1, W, F)" by (rule sys_same [OF i0 set_mutex_frame(8,9)])
    have w1: "waits_ok ?s1 ws" by (rule waits_same_waits_ok [OF set_mutex_frame(9) w0])
    obtain s2 where pop: "wait_queue_pop_front a ?s1 = (r, s2)" and e: "s' = spin_unlock_irqrestore c (eflags (hw s c)) s2" "b"
      using run True by (auto simp: mutex_release_def spin_lock_eq wait_queue_pop_locked_def Let_def split: prod.splits)
    note p = sys_pop [OF i1 pop]
    have w2: "r = first_or None (ws a)" "waits_ok s2 (ws(a := tl (ws a)))" using p w1 by blast+
    have "waits_ok s' (ws(a := tl (ws a)))" unfolding e(1) by (rule waits_same_waits_ok [OF waits_same_unlock w2(2)])
    moreover have "sys_inv alg holds (s', W \<union> set_option r, F')" unfolding e(1) by (rule sys_unlock) (use p in blast)
    ultimately show ?thesis using w2(1) e p True by simp
  qed
qed

lemma sys_try_sem:
  assumes inv: "sys_inv alg holds (s, W, F)" and run: "semaphore_try_wait c (Some a) s = (b, s')"
  shows "sys_inv alg holds (s', W, F') \<and> sched_same s s' \<and> waits_same s s' \<and> mutexes s' = mutexes s \<and>
    (\<forall>x. x \<noteq> a \<longrightarrow> semaphore_count s' x = semaphore_count s x) \<and>
    (if semaphore_count s a = 0 then \<not> b \<and> semaphore_count s' a = 0 else b \<and> semaphore_count s' a = semaphore_count s a - 1)"
proof -
  have same: "sched_same s s'" "waits_same s s'"
    using run by (auto simp: semaphore_try_wait_def spin_lock_eq Let_def sched_same_def waits_same_def split: if_splits)
  show ?thesis
    using run sys_same [OF inv same] same
    by (auto simp: semaphore_try_wait_def spin_lock_eq Let_def split: if_splits)
qed

lemma sys_try_mutex:
  assumes inv: "sys_inv alg holds (s, W, F)" and run: "mutex_try_lock c (Some a) s = (b, s')"
  shows "sys_inv alg holds (s', W, F') \<and> waits_same s s' \<and> semaphore_count s' = semaphore_count s \<and>
    (\<forall>x. x \<noteq> a \<longrightarrow> mutexes s' x = mutexes s x) \<and>
    (if b then \<not> locked (mutexes s a) \<and> (\<exists>t. runs s c t \<and> mutexes s' a = \<lparr>locked = True, owner = Some t\<rparr>)
     else mutexes s' a = mutexes s a)"
proof -
  have same: "sched_same s s'" "waits_same s s'"
    using run by (auto simp: mutex_try_lock_def spin_lock_eq Let_def sched_same_def waits_same_def split: if_splits option.splits)
  show ?thesis
    using run sys_same [OF inv same] same
    by (auto simp: mutex_try_lock_def spin_lock_eq Let_def runs_def task_current_def cpu_current_def split: if_splits option.splits)
qed

lemma sys_park_frame:
  assumes "sys_inv alg holds (s, W, F)" "sched_inv alg holds s'" "park_same s s' \<and> parks_same {} s s'"
  shows "sys_inv alg holds (s', W, F') \<and> semaphore_count s' = semaphore_count s \<and> mutexes s' = mutexes s \<and> waits_same s s'"
  using sys_frame [OF assms(1,2) park_waits_same] park_waits_same assms(3) by (auto simp: park_same_def)

theorem sys_step_inv:
  assumes "sys_step (s, W, F) (s', W', F')" "sys_inv alg holds (s, W, F)"
  shows "sys_inv alg holds (s', W', F')"
  using assms(1)
proof (cases rule: sys_step_split)
  case (schedule c previous)
  then show ?thesis using sys_schedule [OF assms(2) sched_same_refl waits_same_refl] by simp
next
  case (yield c previous)
  have "sched_same s (set_cpu c (reschedule_pending_update (\<lambda>_. False)) s)" by (rule sched_same_set_cpu) simp_all
  from sys_schedule [OF assms(2) this park_waits_same [OF park_same_set_cpu]] show ?thesis using yield by simp
next
  case (preempt c flags previous)
  have "sched_same s (set_cpu c (scheduler_preempt_restore_flags_update (\<lambda>_. flags)) s)" by (rule sched_same_set_cpu) simp_all
  from sys_schedule [OF assms(2) this park_waits_same [OF park_same_set_cpu]] show ?thesis using preempt by simp
next
  case (finish t)
  then show ?thesis using sys_inv_F [OF assms(2)] by simp
next
  case (finish_zombie t c)
  then show ?thesis using sys_same [OF assms(2) cleanup_push_frame(1,2)] by simp
next
  case (wake t c)
  then show ?thesis using sys_wake [OF assms(2)] by simp
next
  case (publish t c)
  then show ?thesis
    using sys_park_frame [OF assms(2) task_publish_inv publish_park] sys_inv_sched [OF assms(2)] by auto
next
  case (remove t c)
  then show ?thesis
    using sys_park_frame [OF assms(2) scheduler_remove_inv remove_park] sys_inv_sched [OF assms(2)] by auto
next
  case (tick c)
  then show ?thesis
    using sys_park_frame [OF assms(2) scheduler_tick_inv tick_park] sys_inv_sched [OF assms(2)] by auto
next
  case (ipi c)
  then show ?thesis using sys_same [OF assms(2) sched_same_ipi ipi_frame(1)] by simp
next
  case (exit c)
  then show ?thesis
    using sys_park_frame [OF assms(2) task_exit_mark_inv exit_park] sys_inv_sched [OF assms(2)] by auto
next
  case (wait c t q previous)
  let ?s0 = "set_hw c (eflags_update (\<lambda>f. f AND NOT IF_FLAG)) s"
  have "busy ?s0 c t" using wait by (simp add: busy_def runs_def)
  moreover have "wait_queue_block_locked c (Some q) (eflags (hw s c)) ?s0 = Some (previous, s')"
    using wait by (simp add: wait_queue_block_def spin_lock_eq)
  ultimately show ?thesis using sys_wait [OF sys_set_hw [OF assms(2)]] wait by blast
next
  case (take c q r)
  then obtain s1 where s1: "wait_queue_pop_front q (set_hw c (eflags_update (\<lambda>f. f AND NOT IF_FLAG)) s) = (r, s1)"
      "s' = spin_unlock_irqrestore c (eflags (hw s c)) s1"
    by (auto simp: wait_queue_take_def spin_lock_eq split: prod.splits)
  then show ?thesis using sys_pop [OF sys_set_hw [OF assms(2)] s1(1)] sys_unlock take by blast
next
  case (sem_wait c t a r previous)
  obtain ws where "waits_ok s ws" using assms(2) by (auto simp: sys_inv_def)
  from round_sem [OF assms(2) _ _ this] sem_wait show ?thesis by blast
next
  case (sem_try c a b)
  then show ?thesis using sys_try_sem [OF assms(2)] by blast
next
  case (sem_release c a b r)
  obtain ws where "waits_ok s ws" using assms(2) by (auto simp: sys_inv_def)
  from release_sem [OF assms(2) _ this] sem_release show ?thesis by blast
next
  case (mutex_lock c t a r previous)
  obtain ws where "waits_ok s ws" using assms(2) by (auto simp: sys_inv_def)
  from round_mutex [OF assms(2) _ _ this] mutex_lock show ?thesis by blast
next
  case (mutex_try c a b)
  then show ?thesis using sys_try_mutex [OF assms(2)] by blast
next
  case (mutex_release c t a b r)
  obtain ws where "waits_ok s ws" using assms(2) by (auto simp: sys_inv_def)
  from release_mutex [OF assms(2) _ this] mutex_release show ?thesis by blast
next
  case (sleep c t ms previous)
  then show ?thesis using sys_sleep [OF assms(2)] by blast
next
  case (expire c now r)
  then show ?thesis using sys_expire [OF assms(2)] by blast
qed

theorem sys_reachable_inv:
  assumes "sys_step\<^sup>*\<^sup>* x y" "sys_inv alg holds x"
  shows "sys_inv alg holds y"
  using assms
proof (induction rule: rtranclp_induct)
  case (step y z)
  obtain s W F s' W' F' where "y = (s, W, F)" "z = (s', W', F')" by (cases y; cases z) auto
  then show ?case using sys_step_inv step by blast
qed simp

end

end
