(* ===== verification/Sync.thy ===== *)
theory Sync
  imports Reachable
begin

text \<open>
  Semaphores and mutexes in a running system: what a step of any processor may do to them, and the
  absence of lost wakeups, proved once for every object that hands out permits under the lock of its
  wait queue and interpreted for both.
\<close>

section \<open>What a step does to the objects\<close>

text \<open>The abstract mutex: free, or held by a task.\<close>

definition mutex_free :: mutex_obj where
  "mutex_free = \<lparr>locked = False, owner = None\<rparr>"

definition mutex_held :: "tid \<Rightarrow> mutex_obj" where
  "mutex_held t = \<lparr>locked = True, owner = Some t\<rparr>"

definition mutexes_step :: "'q kernel \<Rightarrow> 'q kernel \<Rightarrow> bool" where
  "mutexes_step s s' \<longleftrightarrow> mutexes s' = mutexes s \<or>
     (\<exists>c t a. runs s c t \<and> \<not> locked (mutexes s a) \<and> mutexes s' = (mutexes s)(a := mutex_held t)) \<or>
     (\<exists>c t a. runs s c t \<and> mutexes s a = mutex_held t \<and> mutexes s' = (mutexes s)(a := mutex_free))"

definition semaphores_step :: "'q kernel \<Rightarrow> 'q kernel \<Rightarrow> bool" where
  "semaphores_step s s' \<longleftrightarrow> semaphore_count s' = semaphore_count s \<or>
     (\<exists>a. semaphore_count s a \<noteq> 0 \<and> semaphore_count s' = (semaphore_count s)(a := semaphore_count s a - 1)) \<or>
     (\<exists>a. semaphore_count s a \<noteq> SIZE_MAX \<and> semaphore_count s' = (semaphore_count s)(a := semaphore_count s a + 1))"

definition objects_step :: "'q kernel \<Rightarrow> 'q kernel \<Rightarrow> bool" where
  "objects_step s s' \<longleftrightarrow> mutexes_step s s' \<and> semaphores_step s s'"

lemma objects_same: "mutexes s' = mutexes s \<Longrightarrow> semaphore_count s' = semaphore_count s \<Longrightarrow> objects_step s s'"
  by (simp add: objects_step_def mutexes_step_def semaphores_step_def)

lemma park_objects: "park_same s s' \<Longrightarrow> objects_step s s'"
  by (rule objects_same) (simp_all add: park_same_def)

lemma fun_upd_pointwise: "g a = x \<Longrightarrow> (\<And>b. b \<noteq> a \<Longrightarrow> g b = f b) \<Longrightarrow> g = f(a := x)"
  by auto

lemma mutex_obj_held: "locked m \<Longrightarrow> owner m = Some t \<Longrightarrow> m = mutex_held t"
  by (cases m) (simp add: mutex_held_def)

lemma busy_runs: "busy s c t \<Longrightarrow> runs s c t"
  by (simp add: busy_def)

context run_queue
begin

lemma schedule_objects:
  assumes "sys_inv alg holds (s, W, F)" "sched_same s s0" "park_same s s0" "schedule_locked c s0 = Some (prev, s')"
  shows "objects_step s s'"
proof -
  have "park_same s0 s'"
    using schedule_locked_inv [OF sched_same_inv [OF assms(2) sys_inv_sched [OF assms(1)]] assms(4)] by blast
  with assms(3) show ?thesis by (intro park_objects) (rule park_same_trans)
qed

lemma round_sem_objects:
  assumes "sys_inv alg holds (s, W, F)" "busy s c t" "semaphore_wait_round c a s = Some (r, prev, s')"
  shows "objects_step s s'"
proof -
  obtain ws where "waits_ok s ws" using assms(1) by (auto simp: sys_inv_def)
  note e = round_sem [OF assms this]
  show ?thesis
  proof (cases "semaphore_count s a = 0")
    case True
    then have "semaphore_count s' = semaphore_count s" using e by (intro ext) (metis (full_types))
    then show ?thesis using e by (intro objects_same) simp_all
  next
    case False
    then have "semaphore_count s' = (semaphore_count s)(a := semaphore_count s a - 1)"
      using e by (intro fun_upd_pointwise) simp_all
    then show ?thesis using e False unfolding objects_step_def mutexes_step_def semaphores_step_def by blast
  qed
qed

lemma release_sem_objects:
  assumes "sys_inv alg holds (s, W, F)" "semaphore_release c a s = (b, r, s')"
  shows "objects_step s s'"
proof -
  obtain ws where "waits_ok s ws" using assms(1) by (auto simp: sys_inv_def)
  note e = release_sem [OF assms this]
  show ?thesis
  proof (cases "semaphore_count s a = SIZE_MAX")
    case True
    then have "semaphore_count s' = semaphore_count s" using e by (intro ext) (metis (full_types))
    then show ?thesis using e by (intro objects_same) simp_all
  next
    case False
    then have "semaphore_count s' = (semaphore_count s)(a := semaphore_count s a + 1)"
      using e by (intro fun_upd_pointwise) simp_all
    then show ?thesis using e False unfolding objects_step_def mutexes_step_def semaphores_step_def by blast
  qed
qed

lemma try_sem_objects:
  assumes "sys_inv alg holds (s, W, F)" "semaphore_try_wait c (Some a) s = (b, s')"
  shows "objects_step s s'"
proof -
  note e = sys_try_sem [OF assms]
  show ?thesis
  proof (cases "semaphore_count s a = 0")
    case True
    then have "semaphore_count s' = semaphore_count s" using e by (intro ext) (metis (full_types))
    then show ?thesis using e by (intro objects_same) simp_all
  next
    case False
    then have "semaphore_count s' = (semaphore_count s)(a := semaphore_count s a - 1)"
      using e by (intro fun_upd_pointwise) simp_all
    then show ?thesis using e False unfolding objects_step_def mutexes_step_def semaphores_step_def by blast
  qed
qed

lemma round_mutex_objects:
  assumes "sys_inv alg holds (s, W, F)" "busy s c t" "mutex_lock_round c a t s = Some (r, prev, s')"
  shows "objects_step s s'"
proof -
  obtain ws where "waits_ok s ws" using assms(1) by (auto simp: sys_inv_def)
  note e = round_mutex [OF assms this]
  show ?thesis
  proof (cases "locked (mutexes s a)")
    case True
    then show ?thesis using e by (intro objects_same) simp_all
  next
    case False
    then have "mutexes s' = (mutexes s)(a := mutex_held t)"
      using e by (intro fun_upd_pointwise) (simp_all add: mutex_held_def)
    then have "mutexes_step s s'" using False busy_runs [OF assms(2)] unfolding mutexes_step_def by blast
    then show ?thesis using e by (simp add: objects_step_def semaphores_step_def)
  qed
qed

lemma try_mutex_objects:
  assumes "sys_inv alg holds (s, W, F)" "mutex_try_lock c (Some a) s = (b, s')"
  shows "objects_step s s'"
proof -
  note e = sys_try_mutex [OF assms]
  show ?thesis
  proof (cases b)
    case True
    then obtain t where t: "runs s c t" "mutexes s' a = mutex_held t" "\<not> locked (mutexes s a)"
      using e by (auto simp: mutex_held_def)
    have "mutexes s' = (mutexes s)(a := mutex_held t)" using e t by (intro fun_upd_pointwise) simp_all
    then have "mutexes_step s s'" using t unfolding mutexes_step_def by blast
    then show ?thesis using e by (simp add: objects_step_def semaphores_step_def)
  next
    case False
    then have "mutexes s' = mutexes s" using e by (intro ext) (metis (full_types))
    then show ?thesis using e by (intro objects_same) simp_all
  qed
qed

lemma release_mutex_objects:
  assumes "sys_inv alg holds (s, W, F)" "busy s c t" "mutex_release c a t s = (b, r, s')"
  shows "objects_step s s'"
proof -
  obtain ws where "waits_ok s ws" using assms(1) by (auto simp: sys_inv_def)
  note e = release_mutex [OF assms(1,3) this]
  show ?thesis
  proof (cases "locked (mutexes s a) \<and> owner (mutexes s a) = Some t")
    case True
    then have "mutexes s' = (mutexes s)(a := mutex_free)"
      using e by (intro fun_upd_pointwise) (simp_all add: mutex_free_def)
    moreover have "mutexes s a = mutex_held t" using True by (intro mutex_obj_held) simp_all
    ultimately have "mutexes_step s s'" using busy_runs [OF assms(2)] unfolding mutexes_step_def by blast
    then show ?thesis using e by (simp add: objects_step_def semaphores_step_def)
  next
    case False
    then show ?thesis using e unfolding if_not_P [OF False] by (intro objects_same) simp_all
  qed
qed

theorem sys_step_objects:
  assumes "sys_step (s, W, F) (s', W', F')" and inv: "sys_inv alg holds (s, W, F)"
  shows "objects_step s s'"
  using assms(1)
proof (cases rule: sys_step_split)
  case (schedule c previous)
  then show ?thesis using schedule_objects [OF inv sched_same_refl park_same_refl] by blast
next
  case (yield c previous)
  have "sched_same s (set_cpu c (reschedule_pending_update (\<lambda>_. False)) s)" by (rule sched_same_set_cpu) simp_all
  from schedule_objects [OF inv this park_same_set_cpu] yield show ?thesis by blast
next
  case (preempt c flags previous)
  have "sched_same s (set_cpu c (scheduler_preempt_restore_flags_update (\<lambda>_. flags)) s)" by (rule sched_same_set_cpu) simp_all
  from schedule_objects [OF inv this park_same_set_cpu] preempt show ?thesis by blast
next
  case (finish t)
  then show ?thesis by (intro objects_same) simp_all
next
  case (finish_zombie t c)
  then show ?thesis by (intro objects_same) (simp_all add: cleanup_push_frame)
next
  case (wake t c)
  then show ?thesis using wake_effect [OF sys_inv_sched [OF inv], of t c] by (intro objects_same) simp_all
next
  case (publish t c)
  then show ?thesis using publish_park [OF sys_inv_sched [OF inv]] park_objects by blast
next
  case (remove t c)
  then show ?thesis using remove_park [OF sys_inv_sched [OF inv]] park_objects by blast
next
  case (tick c)
  then show ?thesis using tick_park park_objects by blast
next
  case (ipi c)
  then show ?thesis by (intro objects_same) (simp_all add: ipi_frame)
next
  case (exit c)
  then show ?thesis using exit_park [OF sys_inv_sched [OF inv]] park_objects by blast
next
  case (wait c t q previous)
  let ?s0 = "set_hw c (eflags_update (\<lambda>f. f AND NOT IF_FLAG)) s"
  have "busy ?s0 c t" using wait by (simp add: busy_def runs_def)
  moreover have "wait_queue_block_locked c (Some q) (eflags (hw s c)) ?s0 = Some (previous, s')"
    using wait by (simp add: wait_queue_block_def spin_lock_eq)
  ultimately show ?thesis using sys_wait [OF sys_set_hw [OF inv]] by (intro objects_same) fastforce+
next
  case (take c q r)
  then obtain s1 where s1: "wait_queue_pop_front q (set_hw c (eflags_update (\<lambda>f. f AND NOT IF_FLAG)) s) = (r, s1)"
      "s' = spin_unlock_irqrestore c (eflags (hw s c)) s1"
    by (auto simp: wait_queue_take_def spin_lock_eq split: prod.splits)
  then show ?thesis using sys_pop [OF sys_set_hw [OF inv] s1(1)] by (intro objects_same) simp_all
next
  case (sem_wait c t a r previous)
  then show ?thesis using round_sem_objects [OF inv] by blast
next
  case (sem_try c a b)
  then show ?thesis using try_sem_objects [OF inv] by blast
next
  case (sem_release c a b r)
  then show ?thesis using release_sem_objects [OF inv] by blast
next
  case (mutex_lock c t a r previous)
  then show ?thesis using round_mutex_objects [OF inv] by blast
next
  case (mutex_try c a b)
  then show ?thesis using try_mutex_objects [OF inv] by blast
next
  case (mutex_release c t a b r)
  then show ?thesis using release_mutex_objects [OF inv] by blast
next
  case (sleep c t ms previous)
  then show ?thesis using sys_sleep [OF inv] by (intro objects_same) blast+
next
  case (expire c now r)
  then show ?thesis using sys_expire [OF inv] by (intro objects_same) blast+
qed

end

section \<open>No lost wakeup\<close>

text \<open>
  An object that hands out permits: a round of its waiting loop takes a permit, fails, or parks the
  caller when there is none; a release produces one permit and takes the oldest waiter off.
\<close>

locale permit_object = run_queue alg holds
  for alg :: "'q scheduler_algorithm" and holds :: "'q \<Rightarrow> task_memory \<Rightarrow> tid list \<Rightarrow> bool" +
  fixes permits :: "'q kernel \<Rightarrow> nat"
    and queue :: nat
    and wait_round :: "cpu_id \<Rightarrow> tid \<Rightarrow> 'q kernel \<Rightarrow> (round_result \<times> tid option \<times> 'q kernel) option"
    and release :: "cpu_id \<Rightarrow> tid \<Rightarrow> 'q kernel \<Rightarrow> bool \<times> tid option \<times> 'q kernel"
  assumes round_law: "sys_inv alg holds (s, W, F) \<Longrightarrow> busy s c t \<Longrightarrow> wait_round c t s = Some (r, prev, s') \<Longrightarrow> waits_ok s ws \<Longrightarrow>
      sys_inv alg holds (s', W, F') \<and>
      (case r of
         Returns True \<Rightarrow> permits s = Suc (permits s') \<and> waits_ok s' ws
       | Returns False \<Rightarrow> permits s = 0 \<and> permits s' = 0 \<and> waits_ok s' ws
       | Again \<Rightarrow> permits s = 0 \<and> permits s' = 0 \<and> waits_ok s' (ws(queue := ws queue @ [t])))"
    and release_law: "sys_inv alg holds (s, W, F) \<Longrightarrow> busy s c t \<Longrightarrow> release c t s = (b, u, s') \<Longrightarrow> waits_ok s ws \<Longrightarrow>
      sys_inv alg holds (s', W \<union> set_option u, F') \<and>
      (if b then permits s' = Suc (permits s) \<and> u = first_or None (ws queue) \<and> waits_ok s' (ws(queue := tl (ws queue)))
       else permits s' = permits s \<and> u = None \<and> waits_ok s' ws)"

text \<open>
  The moves of a system that matter to one object. The last component counts the waiters that a release
  has taken off the queue and that have not started their next round yet.
\<close>

inductive permit_step ::
  "('q kernel \<Rightarrow> nat) \<Rightarrow> nat \<Rightarrow> (cpu_id \<Rightarrow> tid \<Rightarrow> 'q kernel \<Rightarrow> (round_result \<times> tid option \<times> 'q kernel) option) \<Rightarrow>
   (cpu_id \<Rightarrow> tid \<Rightarrow> 'q kernel \<Rightarrow> bool \<times> tid option \<times> 'q kernel) \<Rightarrow> 'q system \<times> nat \<Rightarrow> 'q system \<times> nat \<Rightarrow> bool"
  for permits queue wait_round release where
  first_round: "busy s c t \<Longrightarrow> wait_round c t s = Some (r, prev, s') \<Longrightarrow>
    permit_step permits queue wait_round release ((s, W, F), n) ((s', W, F + left prev), n)"
| next_round: "busy s c t \<Longrightarrow> wait_round c t s = Some (r, prev, s') \<Longrightarrow>
    permit_step permits queue wait_round release ((s, W, F), Suc n) ((s', W, F + left prev), n)"
| release: "busy s c t \<Longrightarrow> release c t s = (b, u, s') \<Longrightarrow>
    permit_step permits queue wait_round release ((s, W, F), n)
      ((s', W \<union> set_option u, F), if u = None then n else Suc n)"
| other: "sys_step (s, W, F) (s', W', F') \<Longrightarrow> permits s' \<le> permits s \<Longrightarrow> wait_queues s' queue = wait_queues s queue \<Longrightarrow>
    permit_step permits queue wait_round release ((s, W, F), n) ((s', W', F'), n)"

lemma waits_ok_head: "waits_ok s ws \<Longrightarrow> wq_head (wait_queues s q) = first_or None (ws q)"
  by (simp add: waits_ok_def wait_list_def dll_def)

text \<open>While a task waits, every free permit has a woken task on its way.\<close>

definition covered ::
  "'q scheduler_algorithm \<Rightarrow> ('q \<Rightarrow> task_memory \<Rightarrow> tid list \<Rightarrow> bool) \<Rightarrow> ('q kernel \<Rightarrow> nat) \<Rightarrow> nat \<Rightarrow> 'q system \<times> nat \<Rightarrow> bool" where
  "covered alg holds permits queue = (\<lambda>((s, W, F), n). sys_inv alg holds (s, W, F) \<and>
     (wq_head (wait_queues s queue) \<noteq> None \<longrightarrow> permits s \<le> n))"

context permit_object
begin

lemma round_covered:
  assumes cov: "covered alg holds permits queue ((s, W, F), m)" and m: "m \<le> Suc n"
    and busy: "busy s c t" and run: "wait_round c t s = Some (r, prev, s')"
  shows "covered alg holds permits queue ((s', W, F'), n)"
proof -
  have inv: "sys_inv alg holds (s, W, F)" and c: "wq_head (wait_queues s queue) \<noteq> None \<longrightarrow> permits s \<le> m"
    using cov by (auto simp: covered_def)
  obtain ws where ws: "waits_ok s ws" using inv by (auto simp: sys_inv_def)
  note law = round_law [OF inv busy run ws, of F']
  have "wq_head (wait_queues s' queue) \<noteq> None \<longrightarrow> permits s' \<le> n"
  proof (cases "r = Returns True")
    case True
    then have "waits_ok s' ws" "permits s = Suc (permits s')" using law by auto
    then show ?thesis using c m waits_ok_head [OF ws] waits_ok_head [of s' ws] by auto
  next
    case False
    then have "permits s' = 0" using law by (cases r) (auto split: bool.splits)
    then show ?thesis by simp
  qed
  then show ?thesis using law by (simp add: covered_def)
qed

lemma release_covered:
  assumes cov: "covered alg holds permits queue ((s, W, F), n)"
    and busy: "busy s c t" and run: "release c t s = (b, r, s')"
  shows "covered alg holds permits queue ((s', W \<union> set_option r, F'), if r = None then n else Suc n)"
proof -
  have inv: "sys_inv alg holds (s, W, F)" and c: "wq_head (wait_queues s queue) \<noteq> None \<longrightarrow> permits s \<le> n"
    using cov by (auto simp: covered_def)
  obtain ws where ws: "waits_ok s ws" using inv by (auto simp: sys_inv_def)
  note law = release_law [OF inv busy run ws, of F']
  have "wq_head (wait_queues s' queue) \<noteq> None \<longrightarrow> permits s' \<le> (if r = None then n else Suc n)"
  proof (cases b)
    case True
    then have e: "waits_ok s' (ws(queue := tl (ws queue)))" "permits s' = Suc (permits s)" "r = first_or None (ws queue)"
      using law by auto
    then show ?thesis using c waits_ok_head [OF ws] waits_ok_head [OF e(1), of queue] by (cases "ws queue") auto
  next
    case False
    then show ?thesis using law c waits_ok_head [OF ws, of queue] waits_ok_head [of s' ws queue] by auto
  qed
  then show ?thesis using law by (simp add: covered_def)
qed

theorem permit_step_covered:
  assumes "permit_step permits queue wait_round release x y" "covered alg holds permits queue x"
  shows "covered alg holds permits queue y"
  using assms
proof (cases rule: permit_step.cases)
  case (other s W F s' W' F' n)
  then show ?thesis using assms(2) sys_step_inv [OF other(3)] by (auto simp: covered_def)
next
  case (release s c t b u s' W F n)
  then show ?thesis using release_covered assms(2) by blast
qed (use assms(2) in \<open>auto intro: round_covered\<close>)

theorem permit_steps_covered:
  assumes "(permit_step permits queue wait_round release)\<^sup>*\<^sup>* x y" "covered alg holds permits queue x"
  shows "covered alg holds permits queue y"
  using assms by (induction rule: rtranclp_induct) (auto intro: permit_step_covered)

end

section \<open>Semaphores and mutexes are such objects\<close>

definition semaphore_permits :: "nat \<Rightarrow> 'q kernel \<Rightarrow> nat" where
  "semaphore_permits a s = unat (semaphore_count s a)"

definition mutex_permits :: "nat \<Rightarrow> 'q kernel \<Rightarrow> nat" where
  "mutex_permits a s = (if locked (mutexes s a) then 0 else 1)"

context run_queue
begin

lemma semaphore_permit_object:
  "permit_object alg holds (semaphore_permits a) a (\<lambda>c t. semaphore_wait_round c a) (\<lambda>c t. semaphore_release c a)"
proof unfold_locales
  fix s W F c t r prev s' ws F'
  assume "sys_inv alg holds (s, W, F)" "busy s c t" "semaphore_wait_round c a s = Some (r, prev, s')" "waits_ok s ws"
  note e = round_sem [OF this, of F']
  show "sys_inv alg holds (s', W, F') \<and>
      (case r of
         Returns True \<Rightarrow> semaphore_permits a s = Suc (semaphore_permits a s') \<and> waits_ok s' ws
       | Returns False \<Rightarrow> semaphore_permits a s = 0 \<and> semaphore_permits a s' = 0 \<and> waits_ok s' ws
       | Again \<Rightarrow> semaphore_permits a s = 0 \<and> semaphore_permits a s' = 0 \<and> waits_ok s' (ws(a := ws a @ [t])))"
  proof (cases "semaphore_count s a = 0")
    case False
    then have "unat (semaphore_count s a) = Suc (unat (semaphore_count s a - 1))" by (rule unat_dec_u32)
    then show ?thesis using e False by (simp add: semaphore_permits_def)
  qed (use e in \<open>simp add: semaphore_permits_def\<close>)
next
  fix s W F c b r s' ws F' and t :: tid
  assume "sys_inv alg holds (s, W, F)" "busy s c t" "semaphore_release c a s = (b, r, s')" "waits_ok s ws"
  note e = release_sem [OF this(1,3,4), of F']
  show "sys_inv alg holds (s', W \<union> set_option r, F') \<and>
      (if b then semaphore_permits a s' = Suc (semaphore_permits a s) \<and> r = first_or None (ws a) \<and> waits_ok s' (ws(a := tl (ws a)))
       else semaphore_permits a s' = semaphore_permits a s \<and> r = None \<and> waits_ok s' ws)"
  proof (cases "semaphore_count s a = SIZE_MAX")
    case False
    then have "unat (semaphore_count s a + 1) = Suc (unat (semaphore_count s a))"
      by (rule unat_inc_not_max)
    then show ?thesis using e False by (auto simp: semaphore_permits_def)
  qed (use e in \<open>auto simp: semaphore_permits_def\<close>)
qed

lemma mutex_permit_object:
  "permit_object alg holds (mutex_permits a) a (\<lambda>c. mutex_lock_round c a) (\<lambda>c. mutex_release c a)"
proof unfold_locales
  fix s W F c t r prev s' ws F'
  assume "sys_inv alg holds (s, W, F)" "busy s c t" "mutex_lock_round c a t s = Some (r, prev, s')" "waits_ok s ws"
  note e = round_mutex [OF this, of F']
  show "sys_inv alg holds (s', W, F') \<and>
      (case r of
         Returns True \<Rightarrow> mutex_permits a s = Suc (mutex_permits a s') \<and> waits_ok s' ws
       | Returns False \<Rightarrow> mutex_permits a s = 0 \<and> mutex_permits a s' = 0 \<and> waits_ok s' ws
       | Again \<Rightarrow> mutex_permits a s = 0 \<and> mutex_permits a s' = 0 \<and> waits_ok s' (ws(a := ws a @ [t])))"
    using e by (auto simp: mutex_permits_def split: if_splits)
next
  fix s W F c t b r s' ws F'
  assume "sys_inv alg holds (s, W, F)" "busy s c t" "mutex_release c a t s = (b, r, s')" "waits_ok s ws"
  note e = release_mutex [OF this(1,3,4), of F']
  show "sys_inv alg holds (s', W \<union> set_option r, F') \<and>
      (if b then mutex_permits a s' = Suc (mutex_permits a s) \<and> r = first_or None (ws a) \<and> waits_ok s' (ws(a := tl (ws a)))
       else mutex_permits a s' = mutex_permits a s \<and> r = None \<and> waits_ok s' ws)"
    using e by (auto simp: mutex_permits_def split: if_splits)
qed

end

interpretation rr_semaphore: permit_object scheduler_round_robin_algorithm rr_holds
  "semaphore_permits a" a "\<lambda>c t. semaphore_wait_round c a" "\<lambda>c t. semaphore_release c a" for a
  by (rule rr.semaphore_permit_object)

interpretation rr_mutex: permit_object scheduler_round_robin_algorithm rr_holds
  "mutex_permits a" a "\<lambda>c. mutex_lock_round c a" "\<lambda>c. mutex_release c a" for a
  by (rule rr.mutex_permit_object)

end
