(* ===== verification/Lifecycle.thy ===== *)
theory Lifecycle
  imports Sync
begin

text \<open>
  Creation of tasks and the start of the tasking subsystem (\<open>kernel/task/task.c\<close>), with the reference
  counts of the address spaces the tasks hold (\<open>kernel/memory/address_space.c\<close>). What \<open>kmalloc\<close>
  returns is an argument; \<open>kfree\<close> and \<open>paging_destroy_user_directory\<close> append to a log.
\<close>

section \<open>References to address spaces\<close>

text \<open>The static \<open>kernel_address_space\<close> is the object at address 0.\<close>

definition kernel_address_space :: nat where "kernel_address_space = 0"

definition set_space :: "nat \<Rightarrow> (address_space_obj \<Rightarrow> address_space_obj) \<Rightarrow> 'q kernel \<Rightarrow> 'q kernel" where
  "set_space a f s = s\<lparr>address_spaces := (address_spaces s)(a := f (address_spaces s a))\<rparr>"

definition kfree_block :: "nat \<Rightarrow> 'q kernel \<Rightarrow> 'q kernel" where
  "kfree_block a s = s\<lparr>kfree_log := a # kfree_log s\<rparr>"

definition address_space_initialize :: "cpu_id \<Rightarrow> 'q kernel \<Rightarrow> bool \<times> 'q kernel" where
  "address_space_initialize c s =
     (let (flags, s) = spin_lock_irqsave c s
      in if address_space_initialized s then (True, spin_unlock_irqrestore c flags s)
         else
           let kernel_directory = kernel_directory_physical s
           in if kernel_directory = 0 \<or> kernel_directory AND (PAGE_SIZE - 1) \<noteq> 0
              then (False, spin_unlock_irqrestore c flags s)
              else
                let s = set_space kernel_address_space
                          (\<lambda>_. \<lparr>page_directory = kernel_directory, reference_count = 1, user_stack_slot_bitmap = 0, kernel_space = True\<rparr>) s
                in (True, spin_unlock_irqrestore c flags (s\<lparr>address_space_initialized := True\<rparr>)))"

definition address_space_kernel :: "'q kernel \<Rightarrow> nat option" where
  "address_space_kernel s = (if \<not> address_space_initialized s then None else Some kernel_address_space)"

text \<open>\<open>block\<close> is the address \<open>kmalloc\<close> returned for the object, \<open>None\<close> for NULL.\<close>

definition address_space_adopt_user :: "cpu_id \<Rightarrow> u32 \<Rightarrow> nat option \<Rightarrow> 'q kernel \<Rightarrow> nat option \<times> 'q kernel" where
  "address_space_adopt_user c directory block s =
     (if \<not> address_space_initialized s then (None, s)
      else
        let kernel_directory = kernel_directory_physical s
        in if kernel_directory = 0 then (None, s)
           else if paging_current_directory c s \<noteq> kernel_directory then (None, s)
           else if directory = 0 \<or> directory = kernel_directory \<or> directory AND (PAGE_SIZE - 1) \<noteq> 0 then (None, s)
           else (case block of
               None \<Rightarrow> (None, s)
             | Some a \<Rightarrow>
                 (Some a, set_space a (\<lambda>_. \<lparr>page_directory = directory, reference_count = 1, user_stack_slot_bitmap = 0, kernel_space = False\<rparr>) s)))"

definition address_space_retain :: "cpu_id \<Rightarrow> nat option \<Rightarrow> 'q kernel \<Rightarrow> bool \<times> 'q kernel" where
  "address_space_retain c space s =
     (case space of
        None \<Rightarrow> (False, s)
      | Some a \<Rightarrow>
          if kernel_space (address_spaces s a) then (True, s)
          else
            let (flags, s) = spin_lock_irqsave c s
            in if reference_count (address_spaces s a) = 0 \<or> reference_count (address_spaces s a) = SIZE_MAX
               then (False, spin_unlock_irqrestore c flags s)
               else
                 let s = set_space a (reference_count_update (\<lambda>n. n + 1)) s
                 in (True, spin_unlock_irqrestore c flags s))"

definition address_space_release :: "cpu_id \<Rightarrow> nat option \<Rightarrow> 'q kernel \<Rightarrow> bool \<times> 'q kernel" where
  "address_space_release c space s =
     (case space of
        None \<Rightarrow> (False, s)
      | Some a \<Rightarrow>
          if kernel_space (address_spaces s a) then (True, s)
          else
            let (flags, s) = spin_lock_irqsave c s
            in if reference_count (address_spaces s a) = 0 then (False, spin_unlock_irqrestore c flags s)
               else if reference_count (address_spaces s a) > 1 then
                 let s = set_space a (reference_count_update (\<lambda>n. n - 1)) s
                 in (True, spin_unlock_irqrestore c flags s)
               else
                 let kernel_directory = kernel_directory_physical s
                 in if kernel_directory = 0 \<or> paging_current_directory c s \<noteq> kernel_directory \<or>
                       page_directory (address_spaces s a) = 0 \<or> page_directory (address_spaces s a) = kernel_directory
                    then (False, spin_unlock_irqrestore c flags s)
                    else
                      let directory = page_directory (address_spaces s a);
                          s = set_space a (reference_count_update (\<lambda>_. 0)) s;
                          s = set_space a (page_directory_update (\<lambda>_. 0)) s;
                          s = s\<lparr>destroyed_directories := directory # destroyed_directories s\<rparr>;
                          s = kfree_block a s
                      in (True, interrupt_restore c flags s))"

definition address_space_is_kernel :: "nat option \<Rightarrow> 'q kernel \<Rightarrow> bool" where
  "address_space_is_kernel space s = (case space of None \<Rightarrow> False | Some a \<Rightarrow> kernel_space (address_spaces s a))"

definition address_space_reference_count :: "nat option \<Rightarrow> 'q kernel \<Rightarrow> u32" where
  "address_space_reference_count space s = (case space of None \<Rightarrow> 0 | Some a \<Rightarrow> reference_count (address_spaces s a))"

section \<open>Allocation of tasks\<close>

definition KERNEL_TASK_STACK_SIZE :: u32 where [machine_consts]: "KERNEL_TASK_STACK_SIZE = 64 * 1024"
definition INITIAL_EFLAGS :: u32 where [machine_consts]: "INITIAL_EFLAGS = 0x002"

text \<open>A \<open>task_t\<close> after \<open>memset\<close>.\<close>

definition zero_task :: task where
  "zero_task = \<lparr>task_id = 0, state = TASK_NEW, policy = SCHED_POLICY_REALTIME, stack_pointer = 0, stack_base = 0,
     stack_size = 0, address_space = None, process = None, runtime_ticks = 0, entry = None, argument = None,
     sched_previous = None, sched_next = None, wait_previous = None, wait_next = None, sleep_previous = None,
     sleep_next = None, wake_tick = 0, waiting_on = None, cleanup_next = None\<rparr>"

text \<open>Six words are pushed: the entry point, EFLAGS and four zero registers.\<close>

definition initialize_new_stack :: "tid option \<Rightarrow> 'q kernel \<Rightarrow> bool \<times> 'q kernel" where
  "initialize_new_stack task s =
     (case task of
        None \<Rightarrow> (False, s)
      | Some t \<Rightarrow>
          let stack_end = (stack_base (tasks s t) + stack_size (tasks s t)) AND NOT 0xF;
              s = s\<lparr>saved_eflags := (saved_eflags s)(t := INITIAL_EFLAGS)\<rparr>
          in (True, set_task t (stack_pointer_update (\<lambda>_. stack_end - 24)) s))"

text \<open>\<open>block\<close> and \<open>stack\<close> are the results of the two \<open>kmalloc\<close> calls, \<open>None\<close> and 0 for NULL.\<close>

definition allocate_task ::
  "cpu_id \<Rightarrow> nat option \<Rightarrow> nat option \<Rightarrow> nat option \<Rightarrow> sched_policy \<Rightarrow> tid option \<Rightarrow> u32 \<Rightarrow> 'q kernel \<Rightarrow> tid option \<times> 'q kernel" where
  "allocate_task c ent arg space p block stack s =
     (if ent = None \<or> space = None then (None, s)
      else if \<not> policy_valid p then (None, s)
      else
        let directory = address_space_page_directory (address_spaces s) space
        in if directory = 0 \<or> directory AND (PAGE_SIZE - 1) \<noteq> 0 then (None, s)
           else
             let (retained, s) = address_space_retain c space s
             in if \<not> retained then (None, s)
                else case block of
                  None \<Rightarrow> (None, snd (address_space_release c space s))
                | Some t \<Rightarrow>
                    let s = set_task t (\<lambda>_. zero_task) s
                    in if stack = 0 then (None, snd (address_space_release c space (kfree_block t s)))
                       else
                         let s = set_task t (task_id_update (\<lambda>_. next_task_id s)) s;
                             s = s\<lparr>next_task_id := next_task_id s + 1\<rparr>;
                             s = set_task t (state_update (\<lambda>_. TASK_NEW)) s;
                             s = set_task t (policy_update (\<lambda>_. p)) s;
                             s = set_task t (stack_base_update (\<lambda>_. stack)) s;
                             s = set_task t (stack_size_update (\<lambda>_. KERNEL_TASK_STACK_SIZE)) s;
                             s = set_task t (address_space_update (\<lambda>_. space)) s;
                             s = set_task t (entry_update (\<lambda>_. ent)) s;
                             s = set_task t (argument_update (\<lambda>_. arg)) s;
                             s = snd (initialize_new_stack (Some t) s);
                             s = s\<lparr>live_task_count := live_task_count s + 1\<rparr>
                         in (Some t, s))"

definition allocate_kernel_task ::
  "cpu_id \<Rightarrow> nat option \<Rightarrow> nat option \<Rightarrow> sched_policy \<Rightarrow> tid option \<Rightarrow> u32 \<Rightarrow> 'q kernel \<Rightarrow> tid option \<times> 'q kernel" where
  "allocate_kernel_task c ent arg p block stack s =
     (case address_space_kernel s of
        None \<Rightarrow> (None, s)
      | Some a \<Rightarrow> allocate_task c ent arg (Some a) p block stack s)"

definition task_create_kernel_with_policy ::
  "cpu_id \<Rightarrow> nat option \<Rightarrow> nat option \<Rightarrow> sched_policy \<Rightarrow> tid option \<Rightarrow> u32 \<Rightarrow> 'q kernel \<Rightarrow> tid option \<times> 'q kernel" where
  "task_create_kernel_with_policy c ent arg p block stack s =
     (case address_space_kernel s of
        None \<Rightarrow> (None, s)
      | Some a \<Rightarrow>
          (case allocate_task c ent arg (Some a) p block stack s of
             (None, s) \<Rightarrow> (None, s)
           | (Some t, s) \<Rightarrow> (Some t, scheduler_make_ready c (Some t) s)))"

definition task_create_kernel ::
  "cpu_id \<Rightarrow> nat option \<Rightarrow> nat option \<Rightarrow> tid option \<Rightarrow> u32 \<Rightarrow> 'q kernel \<Rightarrow> tid option \<times> 'q kernel" where
  "task_create_kernel c ent arg block stack s =
     task_create_kernel_with_policy c ent arg SCHED_POLICY_NORMAL block stack s"

section \<open>Start of the subsystem\<close>

text \<open>The two entry points the subsystem itself passes to \<open>allocate_kernel_task\<close>.\<close>

definition idle_thread :: nat where "idle_thread = 1"
definition task_reaper_thread :: nat where "task_reaper_thread = 2"

text \<open>The bootstrap context of a processor: the code that is running already.\<close>

definition bootstrap_task :: "u32 \<Rightarrow> nat option \<Rightarrow> task" where
  "bootstrap_task n space = zero_task\<lparr>task_id := n, state := TASK_RUNNING, policy := SCHED_POLICY_NORMAL, address_space := space\<rparr>"

text \<open>\<open>None\<close> is \<open>task_halt_forever\<close>. The four last arguments are the results of \<open>kmalloc\<close> for the idle
  task and the reaper.\<close>

definition task_initialize ::
  "cpu_id \<Rightarrow> tid option \<Rightarrow> u32 \<Rightarrow> tid option \<Rightarrow> u32 \<Rightarrow> 'q kernel \<Rightarrow> 'q kernel option" where
  "task_initialize c idle_block idle_stack reaper_block reaper_stack s =
     (if cpu_current c s = None then None
      else case task_bootstrap_for_cpu c of
        None \<Rightarrow> None
      | Some b \<Rightarrow>
          if address_space_kernel s = None then None
          else
            let s = set_task b (\<lambda>_. bootstrap_task 0 (address_space_kernel s)) s;
                s = set_cpu c (current_task_update (\<lambda>_. Some b)) s;
                s = s\<lparr>live_task_count := 1, cleanup_head := None, cleanup_tail := None, cleanup_pending := 0,
                      cleanup_total_reaped := 0\<rparr>;
                s = semaphore_initialize (Some cleanup_semaphore) 0 s
            in case allocate_kernel_task c (Some idle_thread) None SCHED_POLICY_BACKGROUND idle_block idle_stack s of
                 (None, s) \<Rightarrow> None
               | (Some idle, s) \<Rightarrow>
                   let s = set_task idle (state_update (\<lambda>_. TASK_READY)) s;
                       s = scheduler_set_idle_task c (Some idle) s
                   in (case allocate_kernel_task c (Some task_reaper_thread) None SCHED_POLICY_NORMAL reaper_block reaper_stack s of
                         (None, s) \<Rightarrow> None
                       | (Some r, s) \<Rightarrow> Some (scheduler_make_ready c (Some r) (s\<lparr>reaper_task := Some r\<rparr>))))"

definition task_initialize_cpu :: "cpu_id \<Rightarrow> tid option \<Rightarrow> u32 \<Rightarrow> 'q kernel \<Rightarrow> bool \<times> 'q kernel" where
  "task_initialize_cpu c idle_block idle_stack s =
     (if cpu_current c s = None then (False, s)
      else case task_bootstrap_for_cpu c of
        None \<Rightarrow> (False, s)
      | Some b \<Rightarrow>
          let n = next_task_id s;
              s = s\<lparr>next_task_id := next_task_id s + 1\<rparr>
          in if address_space_kernel s = None then (False, set_task b (\<lambda>_. bootstrap_task n None) s)
             else
               let s = set_task b (\<lambda>_. bootstrap_task n (address_space_kernel s)) s;
                   s = set_cpu c (current_task_update (\<lambda>_. Some b)) s;
                   s = s\<lparr>live_task_count := live_task_count s + 1\<rparr>
               in case allocate_kernel_task c (Some idle_thread) None SCHED_POLICY_BACKGROUND idle_block idle_stack s of
                    (None, s) \<Rightarrow> (False, s)
                  | (Some idle, s) \<Rightarrow>
                      let s = set_task idle (state_update (\<lambda>_. TASK_READY)) s;
                          s = set_cpu c (idle_task_update (\<lambda>_. Some idle)) s
                      in (True, set_cpu c (reschedule_pending_update (\<lambda>_. False)) s))"

section \<open>The subsystem starts in the invariant\<close>

text \<open>The machine before \<open>scheduler_initialize\<close>: one processor, no task, empty queues.\<close>

definition power_on :: "round_robin_state kernel \<Rightarrow> bool" where
  "power_on s \<longleftrightarrow> cpu_count s = 1 \<and> address_space_initialized s \<and>
     (\<forall>t. state (tasks s t) = TASK_NEW \<and> policy_valid (policy (tasks s t)) \<and> waiting_on (tasks s t) = None) \<and>
     (\<forall>q. wait_queues s q = \<lparr>wq_head = None, wq_tail = None, wq_count = 0\<rparr>) \<and>
     sleep_head s = None \<and> sleep_tail s = None \<and>
     kernel_space (address_spaces s kernel_address_space) \<and>
     page_directory (address_spaces s kernel_address_space) \<noteq> 0 \<and>
     page_directory (address_spaces s kernel_address_space) AND (PAGE_SIZE - 1) = 0"

text \<open>What \<open>scheduler_initialize\<close> leaves: every band bound to round robin, with an empty queue.\<close>

definition bands_empty :: "round_robin_state kernel \<Rightarrow> bool" where
  "bands_empty s \<longleftrightarrow> (\<forall>p. policy_valid p \<longrightarrow> algorithm (policy_slots s p) = Some scheduler_round_robin_algorithm \<and>
     (\<exists>q. algorithm_state (policy_slots s p) = Some q \<and> head q = None \<and> tail q = None))"

lemma policy_valid_cases:
  "policy_valid p \<longleftrightarrow> p = SCHED_POLICY_REALTIME \<or> p = SCHED_POLICY_INTERACTIVE \<or> p = SCHED_POLICY_NORMAL \<or> p = SCHED_POLICY_BACKGROUND"
  by (cases p) (simp_all add: policy_valid_def)

definition rr_fresh :: round_robin_state where
  "rr_fresh = \<lparr>head = None, tail = None, quantum_ticks = RR_DEFAULT_QUANTUM_TICKS, elapsed_ticks = 0\<rparr>"

lemma bind_fresh:
  assumes "scheduler_initialized s" "policy_valid p" "algorithm (policy_slots s p) = None" "block \<noteq> 0"
  shows "scheduler_bind_algorithm p (Some scheduler_round_robin_algorithm) block s =
    (True, s\<lparr>policy_slots := (policy_slots s)(p :=
      \<lparr>algorithm = Some scheduler_round_robin_algorithm, algorithm_state = Some rr_fresh\<rparr>)\<rparr>)"
  using assms by (simp add: scheduler_bind_algorithm_def rr_table rr_create_def rr_fresh_def)

lemma scheduler_initialize_slots:
  assumes "\<And>i. i < 4 \<Longrightarrow> block i \<noteq> 0"
  shows "scheduler_initialize block s =
      s\<lparr>policy_slots := policy_slots (scheduler_initialize block s), scheduler_initialized := True\<rparr> \<and>
    bands_empty (scheduler_initialize block s)"
proof -
  have b: "block 0 \<noteq> 0" "block 1 \<noteq> 0" "block 2 \<noteq> 0" "block 3 \<noteq> 0" using assms by simp_all
  let ?f = "\<lambda>s p. s\<lparr>policy_slots := (policy_slots s)(p :=
      \<lparr>algorithm = Some scheduler_round_robin_algorithm, algorithm_state = Some rr_fresh\<rparr>)\<rparr>"
  let ?s0 = "s\<lparr>policy_slots := (\<lambda>p. if policy_index p < policy_index SCHED_POLICY_COUNT
      then \<lparr>algorithm = None, algorithm_state = None\<rparr> else policy_slots s p), scheduler_initialized := True\<rparr>"
  have "scheduler_initialize block s = ?f (?f (?f (?f ?s0 SCHED_POLICY_REALTIME) SCHED_POLICY_INTERACTIVE)
      SCHED_POLICY_NORMAL) SCHED_POLICY_BACKGROUND"
    using b by (simp add: scheduler_initialize_def bind_fresh policy_valid_cases)
  moreover from this have "bands_empty (scheduler_initialize block s)"
    by (auto simp: bands_empty_def policy_valid_cases rr_fresh_def)
  ultimately show ?thesis by simp
qed

text \<open>The state before the first task is made ready.\<close>

lemma idle_system_inv:
  assumes "cpu_count s = 1" "bands_empty s"
    and cpu: "current_task (cpus s 0) = Some b" "idle_task (cpus s 0) = Some i" "b \<noteq> i"
    and b: "state (tasks s b) = TASK_RUNNING" "\<not> task_managed (tasks s) b"
    and i: "state (tasks s i) = TASK_READY" "task_managed (tasks s) i"
    and other: "\<And>t. t \<noteq> b \<Longrightarrow> t \<noteq> i \<Longrightarrow> state (tasks s t) = TASK_NEW"
    and valid: "\<And>t. policy_valid (policy (tasks s t))" and waits: "\<And>t. waiting_on (tasks s t) = None"
    and queues: "\<And>q. wait_queues s q = \<lparr>wq_head = None, wq_tail = None, wq_count = 0\<rparr>"
    and sleep: "sleep_head s = None" "sleep_tail s = None"
  shows "sys_inv scheduler_round_robin_algorithm rr_holds (s, {}, {#})"
proof -
  have runs: "runs s c t \<longleftrightarrow> c = 0 \<and> t = b" for c t using assms(1) cpu by (auto simp: runs_def)
  have idle: "idle_of s t \<longleftrightarrow> t = i" for t using assms(1) cpu by (auto simp: idle_of_def)
  have "slots_hold scheduler_round_robin_algorithm rr_holds s (\<lambda>_. [])"
    using assms(2) by (auto simp: slots_hold_def bands_empty_def rr_holds_def)
  moreover have "ready_queues s (\<lambda>_. [])"
    using b(1) i(1) other by (auto simp: ready_queues_def idle) (metis task_state.distinct(1,11))
  moreover have "cpus_ok s"
    unfolding cpus_ok_def runs idle
  proof (intro conjI allI impI)
    fix t assume "state (tasks s t) = TASK_RUNNING \<and> task_managed (tasks s) t \<and> t \<noteq> i"
    then show "\<exists>c. c = 0 \<and> t = b" using other b(2) by (metis task_state.distinct(3))
  qed (use assms(1) cpu b i valid in auto)
  ultimately have sched: "sched_inv scheduler_round_robin_algorithm rr_holds s"
    by (auto simp: sched_inv_def queued_def)
  have np: "\<not> parked (state (tasks s t))" for t
    using other [of t] b i by (cases "t = b"; cases "t = i") auto
  have "waits_ok s (\<lambda>_. [])" using queues waits by (simp add: waits_ok_def wait_list_def)
  moreover have "sleep_list s []" using sleep by (simp add: sleep_list_def)
  moreover have "parked_ok s {} []" using waits np by (simp add: parked_ok_def)
  ultimately show ?thesis using sched unfolding sys_inv_def prod.case by blast
qed

text \<open>The task that a successful allocation in the kernel address space produces.\<close>

definition new_kernel_task :: "u32 \<Rightarrow> sched_policy \<Rightarrow> nat \<Rightarrow> nat option \<Rightarrow> u32 \<Rightarrow> task" where
  "new_kernel_task n p e arg stack = zero_task\<lparr>task_id := n, policy := p, stack_base := stack,
     stack_size := KERNEL_TASK_STACK_SIZE, address_space := Some kernel_address_space, entry := Some e, argument := arg,
     stack_pointer := ((stack + KERNEL_TASK_STACK_SIZE) AND NOT 0xF) - 24\<rparr>"

lemma new_kernel_task_fields [simp]:
  "state (new_kernel_task n p e arg stack) = TASK_NEW" "policy (new_kernel_task n p e arg stack) = p"
  "stack_base (new_kernel_task n p e arg stack) = stack" "stack_size (new_kernel_task n p e arg stack) = KERNEL_TASK_STACK_SIZE"
  "waiting_on (new_kernel_task n p e arg stack) = None"
  by (simp_all add: new_kernel_task_def zero_task_def)

lemma allocate_kernel_task_run:
  assumes "address_space_initialized s" "kernel_space (address_spaces s kernel_address_space)"
    and "page_directory (address_spaces s kernel_address_space) \<noteq> 0"
    and "page_directory (address_spaces s kernel_address_space) AND (PAGE_SIZE - 1) = 0"
    and "policy_valid p" "stack \<noteq> 0"
  shows "allocate_kernel_task c (Some e) arg p (Some t) stack s =
      (Some t, s\<lparr>next_task_id := next_task_id s + 1, saved_eflags := (saved_eflags s)(t := INITIAL_EFLAGS),
        tasks := (tasks s)(t := new_kernel_task (next_task_id s) p e arg stack), live_task_count := live_task_count s + 1\<rparr>)"
  using assms
  by (simp add: allocate_kernel_task_def allocate_task_def address_space_kernel_def address_space_page_directory_def
      address_space_retain_def initialize_new_stack_def set_task_def upd_task_def zero_task_def new_kernel_task_def Let_def)

theorem task_initialize_inv:
  assumes on: "power_on s0" and blocks: "\<And>n. n < 4 \<Longrightarrow> block n \<noteq> 0"
    and alloc: "i \<noteq> 0" "r \<noteq> 0" "i \<noteq> r" "istack \<noteq> 0" "rstack \<noteq> 0"
  shows "\<exists>s. task_initialize 0 (Some i) istack (Some r) rstack (scheduler_initialize block s0) = Some s \<and>
    sys_inv scheduler_round_robin_algorithm rr_holds (s, {}, {#})"
proof -
  let ?s = "scheduler_initialize block s0"
  have eq: "?s = s0\<lparr>policy_slots := policy_slots ?s, scheduler_initialized := True\<rparr>" and bands: "bands_empty ?s"
    using scheduler_initialize_slots blocks by blast+
  have f: "cpu_count ?s = 1" "address_space_initialized ?s" "tasks ?s = tasks s0" "wait_queues ?s = wait_queues s0"
    "sleep_head ?s = None" "sleep_tail ?s = None" "address_spaces ?s = address_spaces s0"
    using on by (subst eq; simp add: power_on_def)+
  define b where "b = bootstrap_task 0 (Some kernel_address_space)"
  define ti where "ti = new_kernel_task (next_task_id ?s) SCHED_POLICY_BACKGROUND idle_thread None istack"
  define tr where "tr = new_kernel_task (next_task_id ?s + 1) SCHED_POLICY_NORMAL task_reaper_thread None rstack"
  have space: "kernel_space (address_spaces s0 kernel_address_space)"
    "page_directory (address_spaces s0 kernel_address_space) \<noteq> 0"
    "page_directory (address_spaces s0 kernel_address_space) AND (PAGE_SIZE - 1) = 0"
    using on by (simp_all add: power_on_def)
  obtain s1 where run: "task_initialize 0 (Some i) istack (Some r) rstack ?s = Some (scheduler_make_ready 0 (Some r) s1)"
    and s1: "tasks s1 = (tasks s0)(0 := b, i := ti\<lparr>state := TASK_READY\<rparr>, r := tr)"
      "cpu_count s1 = 1" "policy_slots s1 = policy_slots ?s" "sleep_head s1 = None" "sleep_tail s1 = None"
      "wait_queues s1 = (wait_queues s0)(cleanup_semaphore := \<lparr>wq_head = None, wq_tail = None, wq_count = 0\<rparr>)"
      "current_task (cpus s1 0) = Some 0" "idle_task (cpus s1 0) = Some i"
    using f space alloc
    by (simp add: task_initialize_def cpu_current_def task_bootstrap_for_cpu_def SMP_MAX_CPUS_def address_space_kernel_def
        allocate_kernel_task_run policy_valid_def semaphore_initialize_def wait_queue_initialize_def set_sem_def set_wq_def
        set_task_def set_cpu_def upd_task_def scheduler_set_idle_task_def b_def ti_def tr_def Let_def)
  have "sys_inv scheduler_round_robin_algorithm rr_holds (s1, {}, {#})"
  proof (rule idle_system_inv [of s1 0 i])
    show "bands_empty s1" using bands s1(3) by (simp add: bands_empty_def)
    show "policy_valid (policy (tasks s1 t))" for t
      using on by (simp add: s1(1) power_on_def b_def bootstrap_task_def ti_def tr_def policy_valid_cases)
    show "waiting_on (tasks s1 t) = None" for t
      using on by (simp add: s1(1) power_on_def b_def bootstrap_task_def zero_task_def ti_def tr_def)
    show "state (tasks s1 t) = TASK_NEW" if "t \<noteq> 0" "t \<noteq> i" for t
      using on that by (simp add: s1(1) power_on_def tr_def)
    show "\<not> task_managed (tasks s1) 0" "state (tasks s1 0) = TASK_RUNNING"
      using alloc by (simp_all add: s1(1) task_managed_def b_def bootstrap_task_def zero_task_def)
    show "task_managed (tasks s1) i"
      using alloc by (simp add: s1(1) task_managed_def ti_def KERNEL_TASK_STACK_SIZE_def)
  qed (use on alloc s1 in \<open>simp_all add: power_on_def\<close>)
  moreover have "\<not> idle_of s1 r" using s1(2,8) alloc by (simp add: idle_of_def)
  ultimately have "sys_inv scheduler_round_robin_algorithm rr_holds (task_publish 0 (Some r) s1, {}, {#})"
    using rr.sys_step_inv sys_step.publish by blast
  moreover have "task_publish 0 (Some r) s1 = scheduler_make_ready 0 (Some r) s1"
    by (simp add: task_publish_def s1(1) tr_def)
  ultimately show ?thesis using run by simp
qed

end
