(* ===== verification/Choice.thy ===== *)
theory Choice
  imports Lifecycle
begin

text \<open>
  Which task the scheduler runs next, and on which registers: the choice of \<open>scheduler_schedule\<close> for
  algorithms that keep arrival order, and the processor state after a switch.
\<close>

section \<open>The steps of a schedule change tasks and slots only\<close>

lemma same_rest_calls [simp]:
  "same_rest s (call_enqueue a p t s)" "same_rest s (call_dequeue a p t s)" "same_rest s (snd (call_pick_next a p s))"
  by (simp_all add: call_enqueue_def call_dequeue_def call_pick_next_def split: prod.split)

lemma same_rest_ready: "same_rest s (ready_and_enqueue a p t s)"
  unfolding ready_and_enqueue_def Let_def
  by (blast intro: same_rest_trans [OF _ same_rest_calls(1)] same_rest_trans [OF _ same_rest_set_task] same_rest_refl)

lemma same_rest_requeue: "same_rest s (requeue_current c cpu current s)"
  by (simp add: requeue_current_def same_rest_ready split: option.split)

lemma same_rest_loop: "pick_next_loop ps s = (r, s') \<Longrightarrow> same_rest s s'"
proof (induction ps arbitrary: s)
  case (Cons p ps)
  show ?case
  proof (cases "slot_algorithm p s")
    case None
    then show ?thesis using Cons by simp
  next
    case (Some a)
    obtain u s1 where c: "call_pick_next a p s = (u, s1)" by fastforce
    then have "same_rest s s1" using same_rest_calls(3) [of s a p] by simp
    then show ?thesis using Cons Some c by (cases u) (auto intro: same_rest_trans)
  qed
qed simp

lemma same_rest_pick: "scheduler_pick_next c s = (r, s') \<Longrightarrow> same_rest s s'"
  by (auto simp: scheduler_pick_next_def split: prod.splits option.splits dest: same_rest_loop)

lemma same_rest_notify: "same_rest s (scheduler_notify_switch_in c t s)"
  by (simp add: scheduler_notify_switch_in_def Let_def split: option.split)

text \<open>The selected task becomes the current one.\<close>

lemma schedule_locked_current:
  assumes t: "runs s c t" and run: "schedule_locked c s = Some (prev, s')"
    and pick: "scheduler_pick_next c (requeue_current c (cpus s c) (Some t)
        (set_hw c (eflags_update (\<lambda>f. f AND NOT IF_FLAG)) s)) = (Some n, s2)"
  shows "current_task (cpus s' c) = Some n"
proof -
  let ?s0 = "set_hw c (eflags_update (\<lambda>f. f AND NOT IF_FLAG)) s"
  let ?s3 = "scheduler_notify_switch_in c (Some n) (set_task n (state_update (\<lambda>_. TASK_RUNNING)) s2)"
  have c: "c < cpu_count s" and cur: "cpu_current c s = Some (cpus s c)" "task_current c s = Some t"
    using t by (simp_all add: runs_def cpu_current_def task_current_def)
  have "same_rest ?s0 ?s3"
    by (rule same_rest_trans [OF same_rest_trans [OF same_rest_requeue same_rest_pick [OF pick]]
          same_rest_trans [OF same_rest_set_task same_rest_notify]])
  note f = same_rest_fields [OF this]
  show ?thesis
  proof (cases "n = t")
    case True
    then obtain s4 s5 where s4: "scheduler_update_kernel_entry_stack c (Some n) ?s3 = Some s4"
      and s5: "scheduler_update_address_space c (Some n) s4 = Some s5"
      and s': "s' = spin_unlock_irqrestore c (eflags (hw s c)) (set_cpu c (reschedule_pending_update (\<lambda>_. False)) s5)"
      using run by (auto simp: schedule_locked_def cur spin_lock_eq pick Let_def split: option.splits)
    then show ?thesis
      using entry_stack_cpus [OF s4] address_space_cpus [OF s5] f(1) t True by (simp add: runs_def)
  next
    case False
    let ?s4 = "schedule_switch_flags c (eflags (hw s c)) (set_cpu c (previous_task_update (\<lambda>_. Some t)) ?s3)"
    have sw: "switch_to c t n ?s4 = Some (prev, s')"
      using run False by (simp add: schedule_locked_def cur spin_lock_eq pick Let_def)
    have "cpu_count ?s4 = cpu_count s" by (simp add: schedule_switch_flags_def Let_def f)
    then show ?thesis using switch_to_effect [OF sw] c by (simp add: sched_same_def)
  qed
qed

section \<open>First come, first served within the most urgent band\<close>

text \<open>The queues after the running task has been put back.\<close>

definition requeued :: "'q kernel \<Rightarrow> tid \<Rightarrow> (sched_policy \<Rightarrow> tid list) \<Rightarrow> sched_policy \<Rightarrow> tid list" where
  "requeued s t qs =
     (if task_managed (tasks s) t \<and> \<not> idle_of s t \<and> state (tasks s t) = TASK_RUNNING
      then qs(policy (tasks s t) := qs (policy (tasks s t)) @ [t]) else qs)"

definition first_band :: "(sched_policy \<Rightarrow> tid list) \<Rightarrow> sched_policy list \<Rightarrow> tid option" where
  "first_band qs ps = (case find (\<lambda>p. qs p \<noteq> []) ps of None \<Rightarrow> None | Some p \<Rightarrow> Some (hd (qs p)))"

context fifo_run_queue
begin

lemma call_enqueue_last:
  assumes "slots_hold alg holds s qs" "policy_valid p" and out: "\<And>p'. policy_valid p' \<Longrightarrow> t \<notin> set (qs p')"
  shows "slots_hold alg holds (call_enqueue alg p t s) (qs(p := qs p @ [t]))"
proof -
  obtain q where q: "algorithm_state (policy_slots s p) = Some q" "holds q (tasks s) (qs p)"
    using assms(1,2) by (auto simp: slots_hold_def)
  from enqueue_last [OF q(2) out [OF assms(2)]] obtain q' ts' where e:
      "the (enqueue alg) (Some q) (Some t) (tasks s) = (Some q', ts')" "holds q' ts' (qs p @ [t])"
      "links_only (insert t (set (qs p))) (tasks s) ts'" by blast
  have "slots_hold alg holds (set_slot_state p (Some q') (s\<lparr>tasks := ts'\<rparr>)) (qs(p := qs p @ [t]))"
  proof (rule slots_hold_update [OF assms(1,2) e(2,3)])
    fix p' assume p': "policy_valid p'" "p' \<noteq> p"
    show "set (qs p') \<inter> (insert t (set (qs p)) \<union> set (qs p @ [t])) = {}"
      using slots_hold_disjoint [OF assms(1) p'(1) assms(2) p'(2)] out [OF p'(1)] by auto
  qed
  then show ?thesis using q(1) e(1) by (simp add: call_enqueue_def)
qed

lemma call_pick_first:
  assumes "slots_hold alg holds s qs" "policy_valid p"
  shows "fst (call_pick_next alg p s) = first_or None (qs p) \<and>
    (qs p = [] \<longrightarrow> slots_hold alg holds (snd (call_pick_next alg p s)) qs)"
proof (cases "qs p")
  case Nil
  then show ?thesis using call_pick_hold [OF assms] by (auto split: option.splits simp: fun_upd_idem)
next
  case (Cons x xs)
  obtain q where q: "algorithm_state (policy_slots s p) = Some q" "holds q (tasks s) (x # xs)"
    using assms Cons by (auto simp: slots_hold_def)
  then show ?thesis using pick_first [OF q(2)] Cons by (auto simp: call_pick_next_def)
qed

lemma pick_loop_first:
  assumes "slots_hold alg holds s qs" "\<forall>p \<in> set ps. policy_valid p"
  shows "fst (pick_next_loop ps s) = first_band qs ps"
  using assms
proof (induction ps arbitrary: s)
  case (Cons p ps)
  have p: "policy_valid p" and ps: "\<forall>p \<in> set ps. policy_valid p" using Cons.prems(2) by simp_all
  have sl: "slot_algorithm p s = Some alg" by (rule slots_hold_slot [OF Cons.prems(1) p])
  note c = call_pick_first [OF Cons.prems(1) p]
  show ?case
  proof (cases "qs p")
    case Nil
    then have "call_pick_next alg p s = (None, snd (call_pick_next alg p s))" using c by (simp add: prod_eq_iff)
    moreover have "fst (pick_next_loop ps (snd (call_pick_next alg p s))) = first_band qs ps"
      by (rule Cons.IH) (use c Nil ps in auto)
    ultimately show ?thesis using sl Nil by (auto simp: first_band_def split: prod.splits)
  next
    case (Cons x xs)
    then show ?thesis using sl c by (auto simp: first_band_def split: prod.splits)
  qed
qed (simp add: first_band_def)

lemma requeue_last:
  assumes q: "queued alg holds s qs" and pol: "policy_valid (policy (tasks s t))" and c: "c < cpu_count s"
    and idle: "idle_of s t \<Longrightarrow> idle_task (cpus s c) = Some t"
  shows "slots_hold alg holds (requeue_current c (cpus s c) (Some t) s) (requeued s t qs)"
proof -
  have i: "Some t = idle_task (cpus s c) \<longleftrightarrow> idle_of s t" using idle c unfolding idle_of_def by metis
  have sh: "slots_hold alg holds s qs" using q by (simp add: queued_def)
  show ?thesis
  proof (cases "task_managed (tasks s) t \<and> \<not> idle_of s t \<and> state (tasks s t) = TASK_RUNNING")
    case True
    have out: "t \<notin> set (qs p)" if "policy_valid p" for p
      using q that True by (auto simp: queued_def ready_queues_def)
    let ?s = "set_task t (sched_next_update (\<lambda>_. None))
        (set_task t (sched_previous_update (\<lambda>_. None)) (set_task t (state_update (\<lambda>_. TASK_READY)) s))"
    have "slots_hold alg holds ?s qs"
    proof (rule slots_hold_frame [OF sh])
      fix p x assume "policy_valid p" "x \<in> set (qs p)"
      then have "x \<noteq> t" using out by auto
      then show "sched_previous (tasks ?s x) = sched_previous (tasks s x) \<and> sched_next (tasks ?s x) = sched_next (tasks s x)"
        by simp
    qed simp
    from call_enqueue_last [OF this pol out] True
    have "slots_hold alg holds (ready_and_enqueue alg (policy (tasks s t)) t s) (requeued s t qs)"
      by (simp add: ready_and_enqueue_def requeued_def Let_def)
    moreover have "requeue_current c (cpus s c) (Some t) s = ready_and_enqueue alg (policy (tasks s t)) t s"
      using True i queued_slot [OF q pol] by (simp add: requeue_current_def)
    ultimately show ?thesis by simp
  next
    case False
    then have "requeue_current c (cpus s c) (Some t) s = s" using i by (auto simp: requeue_current_def)
    then show ?thesis using sh unfolding requeued_def if_not_P [OF False] by simp
  qed
qed

theorem schedule_choice:
  assumes q: "queued alg holds s qs" and ok: "cpus_ok s" and t: "runs s c t" and run: "schedule_locked c s = Some (prev, s')"
  shows "current_task (cpus s' c) =
    (case first_band (requeued s t qs) policy_order of None \<Rightarrow> idle_task (cpus s c) | Some n \<Rightarrow> Some n)"
proof -
  let ?s0 = "set_hw c (eflags_update (\<lambda>f. f AND NOT IF_FLAG)) s"
  let ?s1 = "requeue_current c (cpus s c) (Some t) ?s0"
  have c: "c < cpu_count s" using t by (simp add: runs_def)
  have q0: "queued alg holds ?s0 qs" by (rule sched_same_queued [OF sched_same_set_hw q])
  have ok0: "cpus_ok ?s0" using ok by (simp add: sched_same_cpus_ok [OF sched_same_set_hw])
  have t0: "runs ?s0 c t" using t by (simp add: runs_def)
  have idle: "idle_task (cpus ?s0 c) = Some t" if "idle_of ?s0 t"
    using that ok0 t0 unfolding idle_of_def cpus_ok_def by (metis option.inject)
  have sh: "slots_hold alg holds ?s1 (requeued s t qs)"
    using requeue_last [OF q0 cpus_ok_policy [OF ok0] _ idle] c by (simp add: requeued_def del: if_split cong: if_cong)
  have loop: "fst (pick_next_loop policy_order ?s1) = first_band (requeued s t qs) policy_order"
    by (rule pick_loop_first [OF sh]) (simp add: policy_order_valid)
  obtain i where i: "idle_task (cpus s c) = Some i" using ok c unfolding cpus_ok_def by blast
  obtain r s2 where l: "pick_next_loop policy_order ?s1 = (r, s2)" by fastforce
  have "same_rest ?s0 s2" by (rule same_rest_trans [OF same_rest_requeue same_rest_loop [OF l]])
  note f = same_rest_fields [OF this]
  have "scheduler_pick_next c ?s1 = (Some (case r of None \<Rightarrow> i | Some n \<Rightarrow> n), s2)"
    using l c i by (auto simp: scheduler_pick_next_def scheduler_idle_task_def cpu_current_def f split: option.split)
  from schedule_locked_current [OF t run this] show ?thesis using loop l i by (auto split: option.splits)
qed

end

section \<open>Registers after a switch\<close>

text \<open>Processor \<open>c\<close> is set up for task \<open>n\<close>: its page directory is loaded and interrupts from user mode land
  on its own kernel stack.\<close>

definition set_up_for :: "'q kernel \<Rightarrow> cpu_id \<Rightarrow> tid \<Rightarrow> bool" where
  "set_up_for s c n \<longleftrightarrow>
     address_space_page_directory (address_spaces s) (address_space (tasks s n)) \<noteq> 0 \<and>
     paging_current_directory c s = address_space_page_directory (address_spaces s) (address_space (tasks s n)) \<and>
     (task_kernel_stack_top (tasks s) (Some n) \<noteq> 0 \<longrightarrow> esp0 (hw s c) = task_kernel_stack_top (tasks s) (Some n))"

lemma aligned_page_frame: "(d :: u32) AND (PAGE_SIZE - 1) = 0 \<Longrightarrow> d AND 0xFFFFF000 = d"
proof -
  assume "d AND (PAGE_SIZE - 1) = 0"
  then have 0: "d AND 0xFFF = 0" by (simp add: PAGE_SIZE_def)
  have "(0xFFF :: u32) OR 0xFFFFF000 = - 1" by (simp add: minus_1_eq_mask mask_eq_exp_minus_1)
  then have "d = d AND (0xFFF OR 0xFFFFF000)" by (simp only: bit.conj_one_right)
  also have "\<dots> = (d AND 0xFFF) OR (d AND 0xFFFFF000)" by (rule bit.conj_disj_distrib)
  finally show ?thesis using 0 by simp
qed

lemma entry_stack_arch:
  assumes "scheduler_update_kernel_entry_stack c (Some n) s = Some s'"
  shows "(task_kernel_stack_top (tasks s) (Some n) \<noteq> 0 \<longrightarrow> esp0 (hw s' c) = task_kernel_stack_top (tasks s) (Some n)) \<and>
    tasks s' = tasks s \<and> address_spaces s' = address_spaces s \<and> cpu_count s' = cpu_count s"
  using assms
  by (auto simp: scheduler_update_kernel_entry_stack_def gdt_set_current_kernel_stack_def gdt_set_kernel_stack_def Let_def
      split: if_splits option.splits prod.splits bool.splits)

lemma address_space_arch:
  assumes "scheduler_update_address_space c (Some n) s = Some s'"
  shows "address_space_page_directory (address_spaces s) (address_space (tasks s n)) \<noteq> 0 \<and>
    paging_current_directory c s' = address_space_page_directory (address_spaces s) (address_space (tasks s n)) \<and>
    esp0 (hw s' c) = esp0 (hw s c) \<and> tasks s' = tasks s \<and> address_spaces s' = address_spaces s \<and> cpu_count s' = cpu_count s"
  using assms
  by (auto simp: scheduler_update_address_space_def paging_switch_directory_def paging_current_directory_def Let_def
      aligned_page_frame split: if_splits option.splits prod.splits bool.splits)

text \<open>What follows the installation keeps it.\<close>

lemma set_up_for_frame:
  assumes "set_up_for s c n" "address_spaces s' = address_spaces s" "cr3 (hw s' c) = cr3 (hw s c)" "esp0 (hw s' c) = esp0 (hw s c)"
    and "address_space (tasks s' n) = address_space (tasks s n)" "stack_base (tasks s' n) = stack_base (tasks s n)"
      "stack_size (tasks s' n) = stack_size (tasks s n)"
  shows "set_up_for s' c n"
  using assms by (simp add: set_up_for_def paging_current_directory_def task_kernel_stack_top_def)

lemma install_arch:
  assumes "scheduler_update_kernel_entry_stack c (Some n) s = Some s4" "scheduler_update_address_space c (Some n) s4 = Some s5"
  shows "set_up_for s5 c n"
  using entry_stack_arch [OF assms(1)] address_space_arch [OF assms(2)] by (simp add: set_up_for_def)

lemma unlock_hw [simp]:
  "cr3 (hw (spin_unlock_irqrestore c flags s) c') = cr3 (hw s c')" "esp0 (hw (spin_unlock_irqrestore c flags s) c') = esp0 (hw s c')"
  by (auto simp: spin_unlock_irqrestore_def interrupt_restore_def)

lemma switch_to_arch:
  assumes "switch_to c t n s = Some (prev, s')" "c < cpu_count s"
  shows "set_up_for s' c n"
proof -
  let ?s2 = "set_cpu c (current_task_update (\<lambda>_. Some n)) (set_cpu c (scheduler_switch_lock_held_update (\<lambda>_. True)) s)"
  have cur: "task_internal_set_current c (Some n) (set_cpu c (scheduler_switch_lock_held_update (\<lambda>_. True)) s) = ?s2"
    using assms(2) by (simp add: task_internal_set_current_def cpu_current_def)
  obtain s3 where s3: "scheduler_update_kernel_entry_stack c (Some n) ?s2 = Some s3"
    using assms(1) by (auto simp: switch_to_def cur Let_def split: option.splits)
  obtain s4 where s4: "scheduler_update_address_space c (Some n) s3 = Some s4"
    using assms(1) s3 by (auto simp: switch_to_def cur Let_def split: option.splits)
  let ?s5 = "arch_context_switch c t n (set_cpu c (reschedule_pending_update (\<lambda>_. False)) s4)"
  have fin: "finish_switch_handoff c ?s5 = (prev, s')"
    using assms(1) s3 s4 by (simp add: switch_to_def cur Let_def)
  have "set_up_for s4 c n" by (rule install_arch [OF s3 s4])
  then have "set_up_for ?s5 c n"
    by (rule set_up_for_frame) (simp_all add: arch_context_switch_def Let_def upd_task_apply)
  then show ?thesis
    by (rule set_up_for_frame)
       (use fin in \<open>auto simp: finish_switch_handoff_def Let_def split: option.splits if_splits\<close>)
qed

lemma schedule_locked_arch:
  assumes t: "runs s c t" and run: "schedule_locked c s = Some (prev, s')" and n: "runs s' c n"
  shows "set_up_for s' c n"
proof -
  let ?s0 = "set_hw c (eflags_update (\<lambda>f. f AND NOT IF_FLAG)) s"
  have c: "c < cpu_count s" and cur: "cpu_current c s = Some (cpus s c)" "task_current c s = Some t"
    using t by (simp_all add: runs_def cpu_current_def task_current_def)
  obtain m s2 where "scheduler_pick_next c (requeue_current c (cpus s c) (Some t) ?s0) = (m, s2)" by fastforce
  then have pick: "scheduler_pick_next c (requeue_current c (cpus s c) (Some t) ?s0) = (m, s2)" .
  define m' where "m' = (if m = None then idle_task (cpus s c) else m)"
  obtain u where u: "m' = Some u"
    using run by (cases m') (auto simp: schedule_locked_def cur spin_lock_eq pick m'_def Let_def split: if_splits)
  let ?s3 = "scheduler_notify_switch_in c (Some u) (set_task u (state_update (\<lambda>_. TASK_RUNNING)) s2)"
  have "same_rest ?s0 ?s3"
    by (rule same_rest_trans [OF same_rest_trans [OF same_rest_requeue same_rest_pick [OF pick]]
          same_rest_trans [OF same_rest_set_task same_rest_notify]])
  note f = same_rest_fields [OF this]
  show ?thesis
  proof (cases "u = t")
    case True
    then obtain s4 s5 where s4: "scheduler_update_kernel_entry_stack c (Some u) ?s3 = Some s4"
      and s5: "scheduler_update_address_space c (Some u) s4 = Some s5"
      and s': "s' = spin_unlock_irqrestore c (eflags (hw s c)) (set_cpu c (reschedule_pending_update (\<lambda>_. False)) s5)"
      using run u unfolding m'_def
      by (auto simp: schedule_locked_def cur spin_lock_eq pick Let_def split: option.splits if_splits)
    have "current_task (cpus s' c) = Some u"
      using entry_stack_cpus [OF s4] address_space_cpus [OF s5] f(1) t True s' by (simp add: runs_def)
    then have "u = n" using n by (simp add: runs_def)
    moreover have "set_up_for s' c u"
      unfolding s' by (rule set_up_for_frame [OF install_arch [OF s4 s5]]) (simp_all add: spin_unlock_irqrestore_def interrupt_restore_def)
    ultimately show ?thesis by simp
  next
    case False
    let ?s4 = "schedule_switch_flags c (eflags (hw s c)) (set_cpu c (previous_task_update (\<lambda>_. Some t)) ?s3)"
    have sw: "switch_to c t u ?s4 = Some (prev, s')"
      using run False u unfolding m'_def
      by (auto simp: schedule_locked_def cur spin_lock_eq pick Let_def split: if_splits option.splits)
    have c4: "c < cpu_count ?s4" using c by (simp add: schedule_switch_flags_def Let_def f)
    have "current_task (cpus s' c) = Some u" using switch_to_effect [OF sw c4] by (simp add: sched_same_def)
    then have "u = n" using n by (simp add: runs_def)
    then show ?thesis using switch_to_arch [OF sw c4] by simp
  qed
qed

end
