(* ===== verification/Wakeups.thy ===== *)
theory Wakeups
  imports Choice
begin

text \<open>
  The two loops that wake tasks until a queue is exhausted, \<open>wait_queue_wake_all\<close> and
  \<open>sleep_queue_tick\<close>: in a system that satisfies its invariant they return, having woken exactly the
  waiters, or the expired sleepers.
\<close>

context run_queue
begin

text \<open>Waking a task in the set of taken tasks makes it READY and touches no other state.\<close>

lemma wake_taken:
  assumes inv: "sys_inv alg holds (s, insert t W, F)"
  shows "state (tasks (scheduler_wake c (Some t) s) x) = (if x = t then TASK_READY else state (tasks s x))"
    "waits_same s (scheduler_wake c (Some t) s)"
    "wake_tick (tasks (scheduler_wake c (Some t) s) x) = wake_tick (tasks s x)"
proof -
  have "parked (state (tasks s t))" using inv by (auto simp: sys_inv_def parked_ok_def)
  then have pk: "state (tasks s t) = TASK_BLOCKED \<or> state (tasks s t) = TASK_SLEEPING" by (simp add: parked_def)
  note e = wake_effect [OF sys_inv_sched [OF inv], of t c]
  have lo: "links_only UNIV (upd_task t (state_update (\<lambda>_. TASK_READY)) (tasks s)) (tasks (scheduler_wake c (Some t) s))"
    using e pk by simp
  note f = links_only_fields [OF lo]
  show "state (tasks (scheduler_wake c (Some t) s) x) = (if x = t then TASK_READY else state (tasks s x))"
    "wake_tick (tasks (scheduler_wake c (Some t) s) x) = wake_tick (tasks s x)"
    by (simp_all add: f upd_task_apply)
  show "waits_same s (scheduler_wake c (Some t) s)"
    using e by (simp add: waits_same_def f upd_task_apply)
qed

lemma take_list:
  assumes inv: "sys_inv alg holds (s, W, F)" and ws: "waits_ok s ws" and take: "wait_queue_take c q s = (r, s')"
  shows "r = first_or None (ws q) \<and> waits_ok s' (ws(q := tl (ws q))) \<and> sys_inv alg holds (s', W \<union> set_option r, F) \<and>
    (\<forall>x. state (tasks s' x) = state (tasks s x))"
proof -
  let ?s0 = "set_hw c (eflags_update (\<lambda>f. f AND NOT IF_FLAG)) s"
  have w0: "waits_ok ?s0 ws" by (rule waits_same_waits_ok [OF waits_same_set_hw ws])
  obtain s1 where s1: "wait_queue_pop_front q ?s0 = (r, s1)" "s' = spin_unlock_irqrestore c (eflags (hw s c)) s1"
    using take by (auto simp: wait_queue_take_def spin_lock_eq split: prod.splits)
  have "sched_same ?s0 s1" using waits_ok_leave [OF w0 s1(1)] by (simp add: wait_change_def)
  then have "state (tasks s' x) = state (tasks s x)" for x by (simp add: s1(2) sched_same_def)
  moreover have "sys_inv alg holds (s', W \<union> set_option r, F)" if "sys_inv alg holds (s, W, F)"
    using sys_step_inv [OF sys_step.take [OF take] that] .
  ultimately show ?thesis
    using sys_pop [OF sys_set_hw [OF inv] s1(1)] w0 waits_same_waits_ok [OF waits_same_unlock] inv s1(2) by blast
qed

lemma wake_all_run:
  "sys_inv alg holds (s, W, F) \<Longrightarrow> waits_ok s ws \<Longrightarrow>
    \<exists>s'. wake_all_loop c q n s = Some (n + of_nat (length (ws q)), s') \<and> sys_inv alg holds (s', W, F) \<and>
      waits_ok s' (ws(q := [])) \<and>
      (\<forall>x. state (tasks s' x) = (if x \<in> set (ws q) then TASK_READY else state (tasks s x)))"
proof (induction "ws q" arbitrary: s ws n)
  case Nil
  obtain r s1 where take: "wait_queue_take c q s = (r, s1)" by fastforce
  note t = take_list [OF Nil.prems take]
  have "r = None" "ws(q := tl (ws q)) = ws(q := [])" using t Nil.hyps by (simp_all add: Nil.hyps [symmetric])
  moreover have "wake_all_loop c q n s = Some (n, s1)" using take calculation(1) by (subst wake_all_loop.simps) simp
  moreover have "waits_ok s1 (ws(q := []))" using t calculation(2) by metis
  moreover have "sys_inv alg holds (s1, W, F)" using t calculation(1) by simp
  moreover have "n + of_nat (length (ws q)) = n" "set (ws q) = {}" using Nil.hyps [symmetric] by simp_all
  moreover have "\<forall>x. state (tasks s1 x) = state (tasks s x)" using t by blast
  ultimately show ?case by (intro exI [of _ s1]) (simp only: if_False empty_iff simp_thms)
next
  case (Cons x xs)
  obtain r s1 where take: "wait_queue_take c q s = (r, s1)" by fastforce
  note t = take_list [OF Cons.prems take]
  have wq: "ws q = x # xs" using Cons.hyps(2) by simp
  have r: "r = Some x" and w1: "waits_ok s1 (ws(q := xs))" and i1: "sys_inv alg holds (s1, insert x W, F)"
    using t wq by auto
  have xW: "x \<notin> W"
  proof -
    have "waiting_on (tasks s x) = Some q" using waits_ok_member [OF Cons.prems(2), of x q] wq by simp
    then show ?thesis using Cons.prems(1) by (auto simp: sys_inv_def parked_ok_def)
  qed
  let ?s2 = "scheduler_wake c (Some x) s1"
  have i2: "sys_inv alg holds (?s2, W, F)" using sys_wake [OF i1, of x c] xW by simp
  have w2: "waits_ok ?s2 (ws(q := xs))" by (rule waits_same_waits_ok [OF wake_taken(2) [OF i1] w1])
  from Cons.hyps(1) [of "ws(q := xs)" ?s2 "n + 1"] i2 w2 obtain s' where s':
      "wake_all_loop c q (n + 1) ?s2 = Some (n + 1 + of_nat (length xs), s')" "sys_inv alg holds (s', W, F)"
      "waits_ok s' (ws(q := []))" "\<And>y. state (tasks s' y) = (if y \<in> set xs then TASK_READY else state (tasks ?s2 y))"
    by auto
  have run: "wake_all_loop c q n s = Some (n + 1 + of_nat (length xs), s')"
    using take r s'(1) by (subst wake_all_loop.simps) simp
  have "state (tasks s' y) = (if y \<in> set (ws q) then TASK_READY else state (tasks s y))" for y
    using s'(4) wake_taken(1) [OF i1] t wq by auto
  moreover have "n + 1 + of_nat (length xs) = n + of_nat (length (ws q))" using wq by simp
  ultimately show ?case using run s'(2,3) by auto
qed

text \<open>The sleep queue.\<close>

lemma sleep_take_none:
  assumes "sleep_list s xs" "dropWhile (due (tasks s) now) xs = xs"
  shows "\<exists>s1. sleep_queue_take c now s = (None, s1) \<and> s1 = spin_unlock_irqrestore c (eflags (hw s c)) (set_hw c (eflags_update (\<lambda>f. f AND NOT IF_FLAG)) s)"
proof (cases xs)
  case Nil
  then have "sleep_head s = None" using assms(1) by (simp add: sleep_list_def)
  then show ?thesis by (simp add: sleep_queue_take_def spin_lock_eq)
next
  case (Cons h hs)
  then have "sleep_head s = Some h" using assms(1) by (simp add: sleep_list_def dll_def)
  moreover have "wake_tick (tasks s h) > now"
    using assms(2) Cons by (auto simp: due_def split: if_splits dest: arg_cong [of _ _ length])
       (metis impossible_Cons length_dropWhile_le not_le)
  ultimately show ?thesis by (simp add: sleep_queue_take_def spin_lock_eq)
qed

lemma sleep_take_some:
  assumes "sleep_list s (h # xs)" "due (tasks s) now h"
  shows "\<exists>s1. sleep_queue_take c now s = (Some h, s1) \<and> sleep_list s1 xs \<and>
    (\<forall>y. state (tasks s1 y) = state (tasks s y) \<and> wake_tick (tasks s1 y) = wake_tick (tasks s y))"
proof -
  let ?s0 = "set_hw c (eflags_update (\<lambda>f. f AND NOT IF_FLAG)) s"
  have l: "sleep_list ?s0 (h # xs)" by (rule waits_same_sleep_list [OF waits_same_set_hw assms(1)])
  have hd: "sleep_head s = Some h" using assms(1) by (simp add: sleep_list_def dll_def)
  from sleep_queue_remove_head_list [OF l] obtain s1 where
      s1: "sleep_queue_remove_head ?s0 = (Some h, s1)" "sleep_list s1 xs" "sched_same ?s0 s1"
        "\<And>y. wake_tick (tasks s1 y) = wake_tick (tasks s y)" by auto
  have "sleep_queue_take c now s = (Some h, spin_unlock_irqrestore c (eflags (hw s c)) s1)"
    using hd s1(1) assms(2) by (simp add: sleep_queue_take_def spin_lock_eq due_def not_less [symmetric])
  moreover have "sleep_list (spin_unlock_irqrestore c (eflags (hw s c)) s1) xs"
    by (rule waits_same_sleep_list [OF waits_same_unlock s1(2)])
  ultimately show ?thesis using s1(3,4) by (simp add: sched_same_def)
qed

lemma sleep_tick_run:
  "sys_inv alg holds (s, W, F) \<Longrightarrow> sleep_list s zs \<Longrightarrow>
    \<exists>s'. sleep_queue_tick c now s = Some s' \<and> sys_inv alg holds (s', W, F) \<and>
      sleep_list s' (dropWhile (due (tasks s) now) zs) \<and>
      (\<forall>x. state (tasks s' x) = (if x \<in> set (takeWhile (due (tasks s) now) zs) then TASK_READY else state (tasks s x)))"
proof (induction zs arbitrary: s)
  case Nil
  obtain s1 where take: "sleep_queue_take c now s = (None, s1)"
      and s1: "s1 = spin_unlock_irqrestore c (eflags (hw s c)) (set_hw c (eflags_update (\<lambda>f. f AND NOT IF_FLAG)) s)"
    using sleep_take_none [OF Nil.prems(2)] by auto
  have "sleep_queue_tick c now s = Some s1" using take by (subst sleep_queue_tick.simps) simp
  moreover have "sys_inv alg holds (s1, W, F)" unfolding s1 by (rule sys_unlock [OF sys_set_hw [OF Nil.prems(1)]])
  moreover have "sleep_list s1 []" unfolding s1
    by (rule waits_same_sleep_list [OF waits_same_unlock waits_same_sleep_list [OF waits_same_set_hw Nil.prems(2)]])
  ultimately show ?case by (simp add: s1)
next
  case (Cons h zs)
  show ?case
  proof (cases "due (tasks s) now h")
    case False
    then obtain s1 where take: "sleep_queue_take c now s = (None, s1)"
        and s1: "s1 = spin_unlock_irqrestore c (eflags (hw s c)) (set_hw c (eflags_update (\<lambda>f. f AND NOT IF_FLAG)) s)"
      using sleep_take_none [OF Cons.prems(2)] by auto
    have "sleep_queue_tick c now s = Some s1" using take by (subst sleep_queue_tick.simps) simp
    moreover have "sys_inv alg holds (s1, W, F)" unfolding s1 by (rule sys_unlock [OF sys_set_hw [OF Cons.prems(1)]])
    moreover have "sleep_list s1 (h # zs)" unfolding s1
      by (rule waits_same_sleep_list [OF waits_same_unlock waits_same_sleep_list [OF waits_same_set_hw Cons.prems(2)]])
    ultimately show ?thesis using False by (simp add: s1)
  next
    case True
    obtain s1 where s1: "sleep_queue_take c now s = (Some h, s1)" "sleep_list s1 zs"
        "\<And>y. state (tasks s1 y) = state (tasks s y)" "\<And>y. wake_tick (tasks s1 y) = wake_tick (tasks s y)"
      using sleep_take_some [OF Cons.prems(2) True] by blast
    have i1: "sys_inv alg holds (s1, insert h W, F)"
      using sys_step_inv [OF sys_step.expire [OF s1(1)] Cons.prems(1)] by simp
    let ?s2 = "scheduler_wake c (Some h) s1"
    have l2: "sleep_list ?s2 zs" by (rule waits_same_sleep_list [OF wake_taken(2) [OF i1] s1(2)])
    have d: "due (tasks ?s2) now = due (tasks s) now" using wake_taken(3) [OF i1] s1(4) by (simp add: due_def fun_eq_iff)
    have hW: "h \<notin> W"
    proof -
      obtain ys where ys: "sleep_list s ys" "parked_ok s W ys" using Cons.prems(1) by (auto simp: sys_inv_def)
      have "sleep_head s = Some h" using Cons.prems(2) by (simp add: sleep_list_def dll_def)
      then have "h \<in> set ys" using ys(1) by (cases ys) (auto simp: sleep_list_def dll_def)
      then show ?thesis using ys(2) by (simp add: parked_ok_def)
    qed
    have i2: "sys_inv alg holds (?s2, W, F)" using sys_wake [OF i1, of h c] hW by simp
    from Cons.IH [OF i2 l2] obtain s' where s': "sleep_queue_tick c now ?s2 = Some s'" "sys_inv alg holds (s', W, F)"
        "sleep_list s' (dropWhile (due (tasks s) now) zs)"
        "\<And>x. state (tasks s' x) = (if x \<in> set (takeWhile (due (tasks s) now) zs) then TASK_READY else state (tasks ?s2 x))"
      unfolding d by blast
    have "sleep_queue_tick c now s = Some s'" using s1(1) s'(1) by (subst sleep_queue_tick.simps) simp
    moreover have "state (tasks s' x) = (if x \<in> set (takeWhile (due (tasks s) now) (h # zs)) then TASK_READY else state (tasks s x))" for x
      using s'(4) wake_taken(1) [OF i1] s1(3) True by auto
    ultimately show ?thesis using s'(2,3) True by auto
  qed
qed

end

end
