(* ===== verification/Sample.thy ===== *)
theory Sample
  imports Wakeups
begin

text \<open>
  A concrete machine for the examples: two processors, processor 0 runs task 5, processor 1 its idle
  task 11, task 6 waits in the NORMAL band, and 10 is the idle task of processor 0.
\<close>

definition blank_cpu :: cpu_local where
  "blank_cpu = \<lparr>apic_id = 0, online = True, current_task = None, idle_task = None, previous_task = None,
     reschedule_pending = False, preemption_enabled = True, scheduler_switch_flags = 0,
     scheduler_switch_lock_held = False, scheduler_ticks = 0, idle_ticks = 0, scheduler_preempt_restore_flags = 0\<rparr>"

definition sample_task :: "u32 \<Rightarrow> sched_policy \<Rightarrow> task_state \<Rightarrow> task" where
  "sample_task n p st = zero_task\<lparr>task_id := n, policy := p, state := st, stack_base := 0xD0000000 + n * 0x10000,
     stack_size := KERNEL_TASK_STACK_SIZE, address_space := Some 0, stack_pointer := 0xD000FFE8 + n * 0x10000\<rparr>"

definition sample_slot :: "round_robin_state \<Rightarrow> round_robin_state policy_slot" where
  "sample_slot q = \<lparr>algorithm = Some scheduler_round_robin_algorithm, algorithm_state = Some q\<rparr>"

definition empty_rr :: round_robin_state where
  "empty_rr = \<lparr>head = None, tail = None, quantum_ticks = 5, elapsed_ticks = 0\<rparr>"

definition sample_kernel :: "round_robin_state kernel" where
  "sample_kernel = \<lparr>
     tasks = (\<lambda>_. zero_task)(5 := sample_task 5 SCHED_POLICY_NORMAL TASK_RUNNING,
       6 := sample_task 6 SCHED_POLICY_NORMAL TASK_READY, 10 := sample_task 10 SCHED_POLICY_BACKGROUND TASK_READY,
       11 := sample_task 11 SCHED_POLICY_BACKGROUND TASK_RUNNING),
     policy_slots = (\<lambda>_. sample_slot empty_rr)(SCHED_POLICY_NORMAL := sample_slot (empty_rr\<lparr>head := Some 6, tail := Some 6\<rparr>)),
     scheduler_initialized = True, released_states = [], cpu_count = 2,
     cpus = (\<lambda>_. blank_cpu)(0 := blank_cpu\<lparr>current_task := Some 5, idle_task := Some 10\<rparr>,
       1 := blank_cpu\<lparr>apic_id := 1, current_task := Some 11, idle_task := Some 11\<rparr>),
     hw = (\<lambda>_. \<lparr>eflags = 0x202, esp = 0xD005FF00, cr3 = 0x00400000, esp0 = 0\<rparr>), saved_eflags = (\<lambda>_. 0x202),
     lapic_present = True, ipi_pending = (\<lambda>_. False), kernel_directory_physical = 0x00400000,
     address_space_initialized = True,
     address_spaces = (\<lambda>_. \<lparr>page_directory = 0x00400000, reference_count = 1, user_stack_slot_bitmap = 0, kernel_space = True\<rparr>),
     destroyed_directories = [], kfree_log = [],
     wait_queues = (\<lambda>_. \<lparr>wq_head = None, wq_tail = None, wq_count = 0\<rparr>), semaphore_count = (\<lambda>_. 0),
     mutexes = (\<lambda>_. \<lparr>locked = False, owner = None\<rparr>), sleep_head = None, sleep_tail = None, system_ticks = 0,
     system_timer_frequency = 1000, cleanup_head = None, cleanup_tail = None, cleanup_pending = 0,
     cleanup_total_reaped = 0, next_task_id = 12, live_task_count = 4, reaper_task = None\<rparr>"

definition sample_queues :: "sched_policy \<Rightarrow> tid list" where
  "sample_queues = (\<lambda>_. [])(SCHED_POLICY_NORMAL := [6])"

lemmas sample_defs = sample_kernel_def sample_task_def zero_task_def sample_slot_def empty_rr_def blank_cpu_def sample_queues_def

lemma sample_runs: "runs sample_kernel c t \<longleftrightarrow> c = 0 \<and> t = 5 \<or> c = 1 \<and> t = 11"
  by (auto simp: runs_def sample_defs less_2_cases_iff)

lemma sample_idle: "idle_of sample_kernel t \<longleftrightarrow> t = 10 \<or> t = 11"
  by (auto simp: idle_of_def sample_defs less_2_cases_iff)

lemma sample_state: "state (tasks sample_kernel t) =
    (if t = 5 \<or> t = 11 then TASK_RUNNING else if t = 6 \<or> t = 10 then TASK_READY else TASK_NEW)"
  by (simp add: sample_defs)

lemma sample_policy: "policy (tasks sample_kernel t) =
    (if t = 5 \<or> t = 6 then SCHED_POLICY_NORMAL else if t = 10 \<or> t = 11 then SCHED_POLICY_BACKGROUND else SCHED_POLICY_REALTIME)"
  by (simp add: sample_defs)

lemma sample_queued: "queued scheduler_round_robin_algorithm rr_holds sample_kernel sample_queues"
proof -
  have "slots_hold scheduler_round_robin_algorithm rr_holds sample_kernel sample_queues"
    by (auto simp: slots_hold_def policy_valid_cases sample_defs rr_holds_def dll_def)
  moreover have "ready_queues sample_kernel sample_queues"
    unfolding ready_queues_def sample_state sample_policy sample_idle
    by (auto simp: policy_valid_cases sample_queues_def split: if_splits)
  ultimately show ?thesis by (simp add: queued_def)
qed

lemma sample_managed: "task_managed (tasks sample_kernel) t \<longleftrightarrow> t \<in> {5, 6, 10, 11}"
  by (simp add: task_managed_def sample_defs KERNEL_TASK_STACK_SIZE_def)

lemma sample_cpus_ok: "cpus_ok sample_kernel"
proof -
  have n: "cpu_count sample_kernel = 2" and i: "idle_task (cpus sample_kernel c) = (if c = 0 then Some 10 else if c = 1 then Some 11 else None)" for c
    by (simp_all add: sample_defs)
  have "policy_valid (policy (tasks sample_kernel t))" for t by (simp add: sample_policy policy_valid_cases)
  then show ?thesis
    unfolding cpus_ok_def sample_runs sample_idle sample_state sample_managed n i
    by (auto simp: less_2_cases_iff)
qed

lemma sample_inv: "sys_inv scheduler_round_robin_algorithm rr_holds (sample_kernel, {}, {#})"
proof -
  have "sched_inv scheduler_round_robin_algorithm rr_holds sample_kernel"
    using sample_queued sample_cpus_ok by (auto simp: sched_inv_def)
  moreover have "waits_ok sample_kernel (\<lambda>_. [])" by (simp add: waits_ok_def wait_list_def sample_defs)
  moreover have "sleep_list sample_kernel []" by (simp add: sleep_list_def sample_defs)
  moreover have "parked_ok sample_kernel {} []" by (simp add: parked_ok_def sample_state) (simp add: sample_defs)
  ultimately show ?thesis unfolding sys_inv_def prod.case by blast
qed

lemma sample_busy: "busy sample_kernel 0 5"
  by (simp add: busy_def sample_runs sample_state sample_idle)

end
