(* ===== verification/Progress.thy ===== *)
theory Progress
  imports Sample
begin

text \<open>
  Scheduling returns: the \<open>cli; hlt\<close> loops of \<open>scheduler_schedule\<close> and of the blocking calls are not
  reached in a system that satisfies its invariant and whose tasks have page directories.
\<close>

section \<open>What a switch needs\<close>

definition has_space :: "'q kernel \<Rightarrow> tid \<Rightarrow> bool" where
  "has_space s t \<longleftrightarrow> address_space (tasks s t) \<noteq> None \<and>
     address_space_page_directory (address_spaces s) (address_space (tasks s t)) \<noteq> 0 \<and>
     address_space_page_directory (address_spaces s) (address_space (tasks s t)) AND (PAGE_SIZE - 1) = 0"

definition startable :: "'q kernel \<Rightarrow> bool" where
  "startable s \<longleftrightarrow> cpu_count s \<le> SMP_MAX_CPUS \<and>
     (\<forall>t. state (tasks s t) \<in> {TASK_READY, TASK_RUNNING} \<longrightarrow> has_space s t)"

lemma has_space_frame:
  assumes "has_space s t" "address_spaces s' = address_spaces s" "address_space (tasks s' t) = address_space (tasks s t)"
  shows "has_space s' t"
  using assms by (simp add: has_space_def)

lemma entry_stack_returns:
  assumes "cpu_count s \<le> SMP_MAX_CPUS" "c < cpu_count s"
  shows "\<exists>s'. scheduler_update_kernel_entry_stack c (Some n) s = Some s' \<and> address_spaces s' = address_spaces s \<and> tasks s' = tasks s"
proof (cases "task_kernel_stack_top (tasks s) (Some n) = 0")
  case True
  then show ?thesis using assms by (simp add: scheduler_update_kernel_entry_stack_def)
next
  case False
  have "c < SMP_MAX_CPUS" using assms by simp
  then have "scheduler_update_kernel_entry_stack c (Some n) s = Some (set_hw c (esp0_update (\<lambda>_. task_kernel_stack_top (tasks s) (Some n))) s)"
    using False assms(2) by (simp add: scheduler_update_kernel_entry_stack_def gdt_set_current_kernel_stack_def gdt_set_kernel_stack_def cpu_current_def)
  then show ?thesis by simp
qed

lemma address_space_returns: "has_space s n \<Longrightarrow> \<exists>s'. scheduler_update_address_space c (Some n) s = Some s'"
  by (auto simp: has_space_def scheduler_update_address_space_def paging_switch_directory_def Let_def)

lemma install_returns:
  assumes "cpu_count s \<le> SMP_MAX_CPUS" "c < cpu_count s" "has_space s n"
  obtains s4 s5 where "scheduler_update_kernel_entry_stack c (Some n) s = Some s4" "scheduler_update_address_space c (Some n) s4 = Some s5"
proof -
  obtain s4 where s4: "scheduler_update_kernel_entry_stack c (Some n) s = Some s4" "address_spaces s4 = address_spaces s" "tasks s4 = tasks s"
    using entry_stack_returns [OF assms(1,2)] by blast
  have "has_space s4 n" by (rule has_space_frame [OF assms(3) s4(2)]) (simp add: s4(3))
  then show thesis using that s4(1) address_space_returns by blast
qed

lemma switch_to_returns:
  assumes "cpu_count s \<le> SMP_MAX_CPUS" "c < cpu_count s" "has_space s n"
  shows "\<exists>r. switch_to c t n s = Some r"
proof -
  let ?s2 = "set_cpu c (current_task_update (\<lambda>_. Some n)) (set_cpu c (scheduler_switch_lock_held_update (\<lambda>_. True)) s)"
  have cur: "task_internal_set_current c (Some n) (set_cpu c (scheduler_switch_lock_held_update (\<lambda>_. True)) s) = ?s2"
    using assms(2) by (simp add: task_internal_set_current_def cpu_current_def)
  have "has_space ?s2 n" using assms(3) by (rule has_space_frame) simp_all
  then obtain s4 s5 where "scheduler_update_kernel_entry_stack c (Some n) ?s2 = Some s4" "scheduler_update_address_space c (Some n) s4 = Some s5"
    using install_returns [of ?s2 c n] assms(1,2) by auto
  then show ?thesis by (simp add: switch_to_def cur Let_def)
qed

lemma notify_tasks [simp]: "tasks (scheduler_notify_switch_in c t s) = tasks s"
  by (simp add: scheduler_notify_switch_in_def Let_def split: option.split)

context run_queue
begin

lemma picked_has_space:
  assumes st: "startable s" and ok: "cpus_ok s" and rest: "same_rest s s1"
    and lo: "links_only UNIV (upd_task t (state_update (\<lambda>_. u)) (tasks s)) (tasks s1)"
    and u: "u = TASK_READY \<Longrightarrow> state (tasks s t) \<in> {TASK_READY, TASK_RUNNING}"
    and q: "queued alg holds s1 qs" and c: "c < cpu_count s" "idle_task (cpus s c) = Some i"
  shows "\<exists>n s2. scheduler_pick_next c s1 = (Some n, s2) \<and> (n = i \<or> state (tasks s1 n) = TASK_READY) \<and>
    has_space (scheduler_notify_switch_in c (Some n) (set_task n (state_update (\<lambda>_. TASK_RUNNING)) s2)) n \<and>
    cpu_count (scheduler_notify_switch_in c (Some n) (set_task n (state_update (\<lambda>_. TASK_RUNNING)) s2)) = cpu_count s"
proof -
  note f = same_rest_fields [OF rest]
  have c1: "c < cpu_count s1" "idle_task (cpus s1 c) = Some i" using c by (simp_all add: f)
  from pick_queued [OF q c1] obtain n s2 where p: "scheduler_pick_next c s1 = (Some n, s2)" "same_rest s1 s2"
      "links_only UNIV (tasks s1) (tasks s2)" "n = i \<or> state (tasks s1 n) = TASK_READY" by blast
  let ?s3 = "scheduler_notify_switch_in c (Some n) (set_task n (state_update (\<lambda>_. TASK_RUNNING)) s2)"
  have "same_rest s2 ?s3" by (rule same_rest_trans [OF same_rest_set_task same_rest_notify])
  then have "same_rest s ?s3" by (rule same_rest_trans [OF same_rest_trans [OF rest p(2)]])
  note r = same_rest_fields [OF this]
  have "idle_of s i" using c by (auto simp: idle_of_def)
  then have "state (tasks s n) \<in> {TASK_READY, TASK_RUNNING}"
    using p(4) cpus_ok_idle [OF ok, of i] u by (auto simp: links_only_fields [OF lo] upd_task_apply split: if_splits)
  then have "has_space s n" using st unfolding startable_def by blast
  then have "has_space ?s3 n"
    by (rule has_space_frame) (simp_all add: r upd_task_apply links_only_fields [OF p(3)] links_only_fields [OF lo])
  then show ?thesis using p(1,4) r(2) by blast
qed

theorem schedule_returns:
  assumes inv: "sched_inv alg holds s" and st: "startable s"
  shows "\<exists>prev s'. schedule_locked c s = Some (prev, s')"
proof (cases "c < cpu_count s")
  case False
  then show ?thesis by (simp add: schedule_locked_def cpu_current_def)
next
  case c: True
  obtain qs where q: "queued alg holds s qs" and ok: "cpus_ok s" using inv by (auto simp: sched_inv_def)
  obtain t where t: "runs s c t" using cpus_ok_current [OF ok c] by blast
  let ?s0 = "set_hw c (eflags_update (\<lambda>f. f AND NOT IF_FLAG)) s"
  have q0: "queued alg holds ?s0 qs" by (rule sched_same_queued [OF sched_same_set_hw q])
  have ok0: "cpus_ok ?s0" and t0: "runs ?s0 c t"
    using ok t by (simp_all add: runs_def sched_same_cpus_ok [OF sched_same_set_hw])
  have idle: "idle_task (cpus ?s0 c) = Some t" if "idle_of ?s0 t"
    using that ok0 t0 unfolding idle_of_def cpus_ok_def by (metis option.inject)
  let ?s1 = "requeue_current c (cpus s c) (Some t) ?s0"
  obtain qs1 u where r: "queued alg holds ?s1 qs1" "same_rest ?s0 ?s1"
      "links_only UNIV (upd_task t (state_update (\<lambda>_. u)) (tasks ?s0)) (tasks ?s1)"
      "u = (if task_managed (tasks ?s0) t \<and> \<not> idle_of ?s0 t \<and> state (tasks ?s0 t) = TASK_RUNNING then TASK_READY else state (tasks ?s0 t))"
    using requeue_queued [OF q0 cpus_ok_policy [OF ok0] _ idle] c by auto
  obtain i where i: "idle_task (cpus ?s0 c) = Some i" using ok0 c unfolding cpus_ok_def by auto
  have st0: "startable ?s0" and n0: "cpu_count s \<le> SMP_MAX_CPUS" using st by (simp_all add: startable_def has_space_def)
  have u: "u = TASK_READY \<Longrightarrow> state (tasks ?s0 t) \<in> {TASK_READY, TASK_RUNNING}" using r(4) by (auto split: if_splits)
  from picked_has_space [OF st0 ok0 r(2,3) u r(1) _ i] c obtain n s2 where
      p: "scheduler_pick_next c ?s1 = (Some n, s2)"
      "has_space (scheduler_notify_switch_in c (Some n) (set_task n (state_update (\<lambda>_. TASK_RUNNING)) s2)) n"
      "cpu_count (scheduler_notify_switch_in c (Some n) (set_task n (state_update (\<lambda>_. TASK_RUNNING)) s2)) = cpu_count s" by auto
  let ?s3 = "scheduler_notify_switch_in c (Some n) (set_task n (state_update (\<lambda>_. TASK_RUNNING)) s2)"
  have c3: "c < cpu_count ?s3" using p(3) c by simp
  have cur: "cpu_current c s = Some (cpus s c)" "task_current c s = Some t"
    using c t by (simp_all add: cpu_current_def task_current_def runs_def)
  show ?thesis
  proof (cases "n = t")
    case True
    have "cpu_count ?s3 \<le> SMP_MAX_CPUS" using n0 p(3) by simp
    from install_returns [OF this c3 p(2)] obtain s4 s5 where "scheduler_update_kernel_entry_stack c (Some n) ?s3 = Some s4"
        "scheduler_update_address_space c (Some n) s4 = Some s5" .
    then show ?thesis using True by (simp add: schedule_locked_def cur spin_lock_eq p(1) Let_def)
  next
    case False
    let ?s4 = "schedule_switch_flags c (eflags (hw s c)) (set_cpu c (previous_task_update (\<lambda>_. Some t)) ?s3)"
    have "has_space ?s4 n" by (rule has_space_frame [OF p(2)]) (simp_all add: schedule_switch_flags_def Let_def)
    moreover have "c < cpu_count ?s4" "cpu_count ?s4 \<le> SMP_MAX_CPUS" using c3 p(3) n0 by (simp_all add: schedule_switch_flags_def Let_def)
    ultimately have "\<exists>r. switch_to c t n ?s4 = Some r" by (intro switch_to_returns)
    then show ?thesis using False by (simp add: schedule_locked_def cur spin_lock_eq p(1) Let_def split_paired_Ex)
  qed
qed

theorem block_returns:
  assumes inv: "sched_inv alg holds s" and st: "startable s" and busy: "busy s c t"
  shows "\<exists>prev s'. block_wait_locked c bs flags s = Some (prev, s')"
proof (cases "bs \<noteq> TASK_BLOCKED \<and> bs \<noteq> TASK_SLEEPING")
  case True
  then show ?thesis by (simp add: block_wait_locked_def)
next
  case bs: False
  obtain qs where q: "queued alg holds s qs" and ok: "cpus_ok s" using inv by (auto simp: sched_inv_def)
  have t: "runs s c t" and tr: "state (tasks s t) = TASK_RUNNING" and ti: "\<not> idle_of s t" using busy by (simp_all add: busy_def)
  have c: "c < cpu_count s" using t by (simp add: runs_def)
  have cur: "cpu_current c s = Some (cpus s c)" "task_current c s = Some t"
    using c t by (simp_all add: cpu_current_def task_current_def runs_def)
  let ?s0 = "set_hw c (eflags_update (\<lambda>f. f AND NOT IF_FLAG)) s"
  let ?s1 = "set_task t (state_update (\<lambda>_. bs)) ?s0"
  have q0: "queued alg holds ?s0 qs" by (rule sched_same_queued [OF sched_same_set_hw q])
  have q1: "queued alg holds ?s1 qs"
  proof -
    have "slots_hold alg holds ?s1 qs"
      by (rule slots_hold_frame [of ?s0]) (use q0 in \<open>simp_all add: queued_def upd_task_apply\<close>)
    moreover have "ready_queues ?s1 qs"
      using q0 tr bs by (auto simp: queued_def ready_queues_def upd_task_apply idle_of_def)
    ultimately show ?thesis by (simp add: queued_def)
  qed
  obtain i where i: "idle_task (cpus ?s0 c) = Some i" using ok c unfolding cpus_ok_def by auto
  have lo: "links_only UNIV (upd_task t (state_update (\<lambda>_. bs)) (tasks ?s0)) (tasks ?s1)" by simp
  have st0: "startable ?s0" and n0: "cpu_count s \<le> SMP_MAX_CPUS" using st by (simp_all add: startable_def has_space_def)
  have ok0: "cpus_ok ?s0" using ok by (simp add: sched_same_cpus_ok [OF sched_same_set_hw])
  have u: "bs = TASK_READY \<Longrightarrow> state (tasks ?s0 t) \<in> {TASK_READY, TASK_RUNNING}" using bs by auto
  from picked_has_space [OF st0 ok0 same_rest_set_task lo u q1 _ i] c obtain n s2 where
      p: "scheduler_pick_next c ?s1 = (Some n, s2)" "n = i \<or> state (tasks ?s1 n) = TASK_READY"
      "has_space (scheduler_notify_switch_in c (Some n) (set_task n (state_update (\<lambda>_. TASK_RUNNING)) s2)) n"
      "cpu_count (scheduler_notify_switch_in c (Some n) (set_task n (state_update (\<lambda>_. TASK_RUNNING)) s2)) = cpu_count s" by auto
  have nt: "n \<noteq> t"
  proof
    assume "n = t"
    moreover have "idle_of s i" using i c by (auto simp: idle_of_def)
    ultimately show False using p(2) ti bs by (auto simp: upd_task_apply)
  qed
  let ?s3 = "scheduler_notify_switch_in c (Some n) (set_task n (state_update (\<lambda>_. TASK_RUNNING)) s2)"
  let ?s4 = "set_cpu c (scheduler_switch_flags_update (\<lambda>_. flags)) (set_cpu c (previous_task_update (\<lambda>_. Some t)) ?s3)"
  have "has_space ?s4 n" by (rule has_space_frame [OF p(3)]) simp_all
  moreover have "c < cpu_count ?s4" "cpu_count ?s4 \<le> SMP_MAX_CPUS" using p(4) c n0 by simp_all
  ultimately have "\<exists>r. switch_to c t n ?s4 = Some r" by (intro switch_to_returns)
  then show ?thesis using nt bs tr by (simp add: block_wait_locked_def cur spin_lock_eq p(1) Let_def split_paired_Ex)
qed

text \<open>The calls that wait, in the state of a task that is not yet in any queue.\<close>

lemma queued_block_returns:
  assumes "sys_inv alg holds (s, W, F)" "startable s" "busy s c t" "sched_same s s1" "address_spaces s1 = address_spaces s"
    and "\<And>x. address_space (tasks s1 x) = address_space (tasks s x)"
  shows "\<exists>prev s'. block_wait_locked c bs flags s1 = Some (prev, s')"
proof (rule block_returns)
  show "sched_inv alg holds s1" by (rule sched_same_inv [OF assms(4) sys_inv_sched [OF assms(1)]])
  show "startable s1" using assms(2,4,5,6) by (simp add: startable_def has_space_def sched_same_def)
  show "busy s1 c t" using assms(3,4) by (simp add: busy_def sched_same_def runs_def idle_of_def)
qed

lemma push_back_space [simp]:
  "address_space (tasks (wait_queue_push_back q t s) x) = address_space (tasks s x)"
  "address_spaces (wait_queue_push_back q t s) = address_spaces s"
  by (auto simp: wait_queue_push_back_def Let_def upd_task_apply set_wq_def split: option.split)

lemma wait_locked_returns:
  assumes "sys_inv alg holds (s, W, F)" "startable s" "busy s c t"
  shows "\<exists>prev s'. wait_queue_block_locked c (Some q) flags s = Some (prev, s')"
proof -
  obtain ws zs where w: "waits_ok s ws" "parked_ok s W zs" using assms(1) by (auto simp: sys_inv_def)
  have out: "waiting_on (tasks s t) = None" using parked_ok_busy [OF w(2) assms(3)] by simp
  have cur: "task_current c s = Some t" using assms(3) by (auto simp: busy_def runs_def task_current_def cpu_current_def)
  have "sched_same s (wait_queue_push_back q t (set_task t (waiting_on_update (\<lambda>_. Some q)) s))"
    using waits_ok_join [OF w(1) out refl] unfolding wait_change_def by blast
  from queued_block_returns [OF assms this, where bs = TASK_BLOCKED and flags = flags] show ?thesis
    using cur out by (simp add: wait_queue_block_locked_def upd_task_apply)
qed

lemma disabled_state:
  assumes "sys_inv alg holds (s, W, F)" "startable s" "busy s c t"
  shows "sys_inv alg holds (set_hw c f s, W, F)" "startable (set_hw c f s)" "busy (set_hw c f s) c t"
  using sys_set_hw [OF assms(1)] assms(2,3) by (simp_all add: startable_def has_space_def busy_def runs_def)

lemma sleep_locked_returns:
  assumes "sys_inv alg holds (s, W, F)" "startable s" "busy s c t"
  shows "\<exists>prev s'. task_sleep_locked c ms s = Some (prev, s')"
proof -
  let ?s0 = "set_hw c (eflags_update (\<lambda>f. f AND NOT IF_FLAG)) s"
  let ?s1 = "set_task t (wake_tick_update (\<lambda>_. sleep_deadline ms ?s0)) ?s0"
  note d = disabled_state [OF assms, of "eflags_update (\<lambda>f. f AND NOT IF_FLAG)"]
  obtain ws zs where w: "sleep_list ?s0 zs" "parked_ok ?s0 W zs" using d(1) by (auto simp: sys_inv_def)
  have out: "t \<notin> set zs" using parked_ok_busy [OF w(2) d(3)] by simp
  have cur: "task_current c ?s0 = Some t" using assms(3) by (auto simp: busy_def runs_def task_current_def cpu_current_def)
  have "sleep_list ?s1 zs" by (rule sleep_list_frame [OF w(1)]) (use out in \<open>auto simp: upd_task_apply\<close>)
  from sleep_queue_insert_list [OF this out] obtain s2 where s2: "sleep_queue_insert t ?s1 = Some s2" "sched_same ?s1 s2" by blast
  have "sched_same ?s0 ?s1" by (simp add: sched_same_def upd_task_apply)
  from sched_same_trans [OF this s2(2)] have "sched_same ?s0 s2" .
  moreover have "address_spaces s2 = address_spaces ?s0" "address_space (tasks s2 x) = address_space (tasks ?s0 x)" for x
    using s2(1) by (auto simp: sleep_queue_insert_def Let_def upd_task_apply split: option.splits)
  ultimately show ?thesis
    using queued_block_returns [OF d, of s2 TASK_SLEEPING "eflags (hw s c)"] s2(1) cur
    by (simp add: task_sleep_locked_def spin_lock_eq Let_def)
qed

theorem blocking_returns:
  assumes "sys_inv alg holds (s, W, F)" "startable s" "busy s c t"
  shows "(\<exists>r. wait_queue_block c (Some q) s = Some r) \<and> (\<exists>r. semaphore_wait_round c a s = Some r) \<and>
    (\<exists>r. mutex_lock_round c a t s = Some r) \<and> (\<exists>r. task_sleep_locked c ms s = Some r)"
proof -
  note d = disabled_state [OF assms, of "eflags_update (\<lambda>f. f AND NOT IF_FLAG)"]
  note w = wait_locked_returns [OF d, of q "eflags (hw s c)"] wait_locked_returns [OF d, of a "eflags (hw s c)"]
  show ?thesis
    using w sleep_locked_returns [OF assms, of ms]
    by (auto simp: wait_queue_block_def semaphore_wait_round_def mutex_lock_round_def spin_lock_eq Let_def)
qed

end

lemma sample_startable: "startable sample_kernel"
  unfolding startable_def sample_state has_space_def
  by (simp add: sample_defs address_space_page_directory_def SMP_MAX_CPUS_def PAGE_SIZE_def)

end
