(* ===== verification/SchedProps.thy ===== *)
theory SchedProps
  imports Sample
begin

text \<open>
  The properties of the tasking subsystem with round robin in every band, each with a run of the
  machine that starts from \<open>task_initialize\<close>.
\<close>

section \<open>A machine\<close>

definition power_kernel :: "round_robin_state kernel" where
  "power_kernel = \<lparr>tasks = (\<lambda>_. zero_task), policy_slots = (\<lambda>_. \<lparr>algorithm = None, algorithm_state = None\<rparr>),
     scheduler_initialized = False, released_states = [], cpu_count = 1, cpus = (\<lambda>_. blank_cpu),
     hw = (\<lambda>_. \<lparr>eflags = 0x202, esp = 0xC0100000, cr3 = 0x00400000, esp0 = 0\<rparr>), saved_eflags = (\<lambda>_. 0),
     lapic_present = False, ipi_pending = (\<lambda>_. False), kernel_directory_physical = 0x00400000,
     address_space_initialized = True,
     address_spaces = (\<lambda>_. \<lparr>page_directory = 0x00400000, reference_count = 1, user_stack_slot_bitmap = 0, kernel_space = True\<rparr>),
     destroyed_directories = [], kfree_log = [],
     wait_queues = (\<lambda>_. \<lparr>wq_head = None, wq_tail = None, wq_count = 0\<rparr>), semaphore_count = (\<lambda>_. 0),
     mutexes = (\<lambda>_. \<lparr>locked = False, owner = None\<rparr>), sleep_head = None, sleep_tail = None, system_ticks = 0,
     system_timer_frequency = 1000, cleanup_head = None, cleanup_tail = None, cleanup_pending = 0,
     cleanup_total_reaped = 0, next_task_id = 1, live_task_count = 0, reaper_task = None\<rparr>"

definition start_kernel :: "round_robin_state kernel option" where
  "start_kernel = task_initialize 0 (Some 100) 0xD0010000 (Some 101) 0xD0030000
     (scheduler_initialize (\<lambda>i. 0xD0000000 + of_nat i * 32) power_kernel)"

definition boot_kernel :: "round_robin_state kernel" where
  "boot_kernel = the start_kernel"

lemma power_kernel_on: "power_on power_kernel"
  by (simp add: power_on_def power_kernel_def zero_task_def policy_valid_def PAGE_SIZE_def)

lemma less_4_cases: "(n :: nat) < 4 \<Longrightarrow> n = 0 \<or> n = 1 \<or> n = 2 \<or> n = 3"
  by arith

lemma boot_blocks: "n < 4 \<Longrightarrow> (0xD0000000 + of_nat n * 32 :: u32) \<noteq> 0"
  using less_4_cases [of n] by auto

lemma boot_run:
  "start_kernel = Some boot_kernel" "sys_inv scheduler_round_robin_algorithm rr_holds (boot_kernel, {}, {#})"
proof -
  obtain s where "start_kernel = Some s" "sys_inv scheduler_round_robin_algorithm rr_holds (s, {}, {#})"
    using task_initialize_inv [where block = "\<lambda>i. 0xD0000000 + of_nat i * 32" and i = 100 and r = 101 and istack = "0xD0010000" and rstack = "0xD0030000",
        OF power_kernel_on boot_blocks]
    by (auto simp: start_kernel_def)
  moreover from this(1) have "boot_kernel = s" by (metis boot_kernel_def option.sel)
  ultimately show "start_kernel = Some boot_kernel" "sys_inv scheduler_round_robin_algorithm rr_holds (boot_kernel, {}, {#})"
    by metis+
qed

lemma boot_tick: "sys_step\<^sup>*\<^sup>* (boot_kernel, {}, {#}) (scheduler_tick 0 boot_kernel, {}, {#})"
  by (rule r_into_rtranclp, rule sys_step.tick)

section \<open>Start and reachable states\<close>





text \<open>Claim C14. No task is lost while it waits: in every reachable state a BLOCKED or SLEEPING task
  stands in exactly one place, either in the wait queue it names and in no other, or in the sleep
  queue, or with a processor that has taken it off a queue and is about to wake it.\<close>

theorem reachable_parked_once:
  assumes "sys_inv scheduler_round_robin_algorithm rr_holds x" and "sys_step\<^sup>*\<^sup>* x (s, W, F)"
  shows "\<exists>ws zs. (\<forall>q. wait_list s q (ws q)) \<and> sleep_list s zs \<and>
    (\<forall>t. (state (tasks s t) = TASK_BLOCKED \<or> state (tasks s t) = TASK_SLEEPING) =
      ((\<exists>q. t \<in> set (ws q)) \<or> t \<in> set zs \<or> t \<in> W)) \<and>
    (\<forall>t q q'. t \<in> set (ws q) \<and> t \<in> set (ws q') \<longrightarrow> q = q') \<and>
    (\<forall>t q. t \<in> set (ws q) \<longrightarrow> t \<notin> set zs \<and> t \<notin> W) \<and> set zs \<inter> W = {}"
proof -
  obtain ws zs where w: "waits_ok s ws" "sleep_list s zs" "parked_ok s W zs"
    using rr.sys_reachable_inv [OF assms(2,1)] by (auto simp: sys_inv_def)
  have m: "t \<in> set (ws q) \<longleftrightarrow> waiting_on (tasks s t) = Some q" for t q using waits_ok_member [OF w(1)] .
  have "(state (tasks s t) = TASK_BLOCKED \<or> state (tasks s t) = TASK_SLEEPING) =
      ((\<exists>q. t \<in> set (ws q)) \<or> t \<in> set zs \<or> t \<in> W)" for t
    using w(3) unfolding parked_ok_def parked_def m by auto
  moreover have "t \<notin> set zs \<and> t \<notin> W" if "t \<in> set (ws q)" for t q
    using w(3) that unfolding parked_ok_def m by force
  moreover have "set zs \<inter> W = {}" using w(3) unfolding parked_ok_def by blast
  moreover have "\<forall>q. wait_list s q (ws q)" using w(1) by (simp add: waits_ok_def)
  ultimately show ?thesis using w(2) m by (intro exI [of _ ws] exI [of _ zs]) auto
qed

theorem reachable_parked_once_witness:
  "\<exists>ws zs. (\<forall>q. wait_list (scheduler_tick 0 boot_kernel) q (ws q)) \<and> sleep_list (scheduler_tick 0 boot_kernel) zs \<and>
    (\<forall>t. (state (tasks (scheduler_tick 0 boot_kernel) t) = TASK_BLOCKED \<or>
        state (tasks (scheduler_tick 0 boot_kernel) t) = TASK_SLEEPING) = ((\<exists>q. t \<in> set (ws q)) \<or> t \<in> set zs))"
  using reachable_parked_once [OF boot_run(2) boot_tick] by auto

end
