(* ===== verification/SyncProps.thy ===== *)
theory SyncProps
  imports Progress SchedProps
begin

text \<open>
  The properties of dispatching, of semaphores, mutexes and wait queues and of the timer, with round
  robin in every band.
\<close>

section \<open>States of the sample machine\<close>

lemma sample_current: "runs sample_kernel 0 5"
  by (simp add: sample_runs)

text \<open>Task 5 waits in queue 3.\<close>

lemma sample_wait:
  obtains previous s where "wait_queue_block 0 (Some 3) sample_kernel = Some (previous, s)"
    "sys_inv scheduler_round_robin_algorithm rr_holds (s, {}, {#})" "waits_ok s ((\<lambda>_. [])(3 := [5]))"
proof -
  obtain previous s where run: "wait_queue_block 0 (Some 3) sample_kernel = Some (previous, s)"
    using rr.blocking_returns [OF sample_inv sample_startable sample_busy, of 3] by fastforce
  let ?s0 = "set_hw 0 (eflags_update (\<lambda>f. f AND NOT IF_FLAG)) sample_kernel"
  have "wait_queue_block_locked 0 (Some 3) (eflags (hw sample_kernel 0)) ?s0 = Some (previous, s)"
    using run by (simp add: wait_queue_block_def spin_lock_eq)
  note w = rr.sys_wait [OF rr.disabled_state(1,3) [OF sample_inv sample_startable sample_busy] this, where F' = "{#}"]
  have "waits_ok sample_kernel (\<lambda>_. [])" by (simp add: waits_ok_def wait_list_def sample_defs)
  then have "waits_ok ?s0 (\<lambda>_. [])" by (rule waits_same_waits_ok [OF waits_same_set_hw])
  then have "waits_ok s ((\<lambda>_. [])(3 := [] @ [5]))" using w by blast
  then show thesis using that run w by simp
qed

section \<open>Dispatching\<close>

lemma schedule_locked_count:
  assumes "schedule_locked c s = Some (previous, s')" "runs s c t"
  shows "cpu_count s' = cpu_count s"
proof -
  let ?s0 = "set_hw c (eflags_update (\<lambda>f. f AND NOT IF_FLAG)) s"
  have cur: "cpu_current c s = Some (cpus s c)" "task_current c s = Some t"
    using assms(2) by (simp_all add: runs_def cpu_current_def task_current_def)
  obtain m s2 where pick: "scheduler_pick_next c (requeue_current c (cpus s c) (Some t) ?s0) = (m, s2)"
    using prod.exhaust by blast
  have n: "cpu_count s2 = cpu_count s"
    using same_rest_fields(2) [OF same_rest_trans [OF same_rest_requeue same_rest_pick [OF pick]]] by simp
  have n3: "cpu_count (scheduler_notify_switch_in c (Some u) (set_task u f s2)) = cpu_count s" for u f
    using same_rest_fields(2) [OF same_rest_notify [of "set_task u f s2" c "Some u"]] n by simp
  have c: "c < cpu_count s" using assms(2) by (simp add: runs_def)
  define m' where "m' = (if m = None then idle_task (cpus s c) else m)"
  obtain u where u: "m' = Some u"
    using assms(1) by (cases m') (auto simp: schedule_locked_def cur spin_lock_eq pick m'_def Let_def split: if_splits)
  let ?s3 = "scheduler_notify_switch_in c (Some u) (set_task u (state_update (\<lambda>_. TASK_RUNNING)) s2)"
  show ?thesis
  proof (cases "u = t")
    case True
    then obtain s4 s5 where s4: "scheduler_update_kernel_entry_stack c (Some u) ?s3 = Some s4"
      and s5: "scheduler_update_address_space c (Some u) s4 = Some s5"
      and s': "s' = spin_unlock_irqrestore c (eflags (hw s c)) (set_cpu c (reschedule_pending_update (\<lambda>_. False)) s5)"
      using assms(1) u unfolding m'_def
      by (auto simp: schedule_locked_def cur spin_lock_eq pick Let_def split: option.splits if_splits)
    then show ?thesis using entry_stack_arch [OF s4] address_space_arch [OF s5] n3 by simp
  next
    case False
    let ?s4 = "schedule_switch_flags c (eflags (hw s c)) (set_cpu c (previous_task_update (\<lambda>_. Some t)) ?s3)"
    have sw: "switch_to c t u ?s4 = Some (previous, s')"
      using assms(1) False u unfolding m'_def
      by (auto simp: schedule_locked_def cur spin_lock_eq pick Let_def split: if_splits option.splits)
    have "cpu_count ?s4 = cpu_count s" by (simp add: schedule_switch_flags_def Let_def n3)
    then show ?thesis using switch_to_effect [OF sw] c by (simp add: sched_same_def)
  qed
qed

text \<open>Claim C8. Scheduling always returns and runs the right task on the right registers: on a processor
  that runs \<open>t\<close>, \<open>scheduler_schedule\<close> puts \<open>t\<close> at the end of its band if it can go on, gives the
  processor to the head of the most urgent band that is not empty, or to the processor's idle task when
  all are empty, and leaves the processor with that task's page directory and kernel stack.\<close>

theorem schedule_runs_first_of_best_band:
  assumes inv: "sys_inv scheduler_round_robin_algorithm rr_holds (s, W, F)" and st: "startable s" and t: "runs s c t"
  shows "\<exists>qs previous s' n. queued scheduler_round_robin_algorithm rr_holds s qs \<and>
    schedule_locked c s = Some (previous, s') \<and> runs s' c n \<and> set_up_for s' c n \<and>
    Some n = (case first_band (requeued s t qs) policy_order of None \<Rightarrow> idle_task (cpus s c) | Some m \<Rightarrow> Some m)"
proof -
  have si: "sched_inv scheduler_round_robin_algorithm rr_holds s" using inv by (rule sys_inv_sched)
  then obtain qs where q: "queued scheduler_round_robin_algorithm rr_holds s qs" and ok: "cpus_ok s" by (auto simp: sched_inv_def)
  obtain previous s' where run: "schedule_locked c s = Some (previous, s')" using rr.schedule_returns [OF si st] by blast
  note choice = rr.schedule_choice [OF q ok t run]
  have "c < cpu_count s'" using schedule_locked_count [OF run t] t by (simp add: runs_def)
  moreover have "cpus_ok s'" using rr.schedule_locked_inv [OF si run] by (simp add: sched_inv_def)
  ultimately obtain n where n: "runs s' c n" using cpus_ok_current by blast
  then show ?thesis using q run choice schedule_locked_arch [OF t run n] by (auto simp: runs_def)
qed

theorem schedule_runs_first_of_best_band_witness:
  "\<exists>previous s' n. schedule_locked 0 sample_kernel = Some (previous, s') \<and> runs s' 0 n \<and> set_up_for s' 0 n"
  using schedule_runs_first_of_best_band [OF sample_inv sample_startable sample_current] by blast



section \<open>Mutexes and semaphores\<close>

text \<open>Claim C4. Mutual exclusion: whatever step any processor takes in a reachable state, a free mutex
  is acquired only by a task that runs, a held mutex is released only by its owner while that task
  runs, its owner never changes otherwise, and only one mutex changes per step.\<close>

theorem mutex_exclusive:
  assumes "sys_inv scheduler_round_robin_algorithm rr_holds x" and "sys_step\<^sup>*\<^sup>* x (s, W, F)" and "sys_step (s, W, F) (s', W', F')"
  shows "mutexes s' = mutexes s \<or>
    (\<exists>c t a. runs s c t \<and> \<not> locked (mutexes s a) \<and> mutexes s' = (mutexes s)(a := \<lparr>locked = True, owner = Some t\<rparr>)) \<or>
    (\<exists>c t a. runs s c t \<and> mutexes s a = \<lparr>locked = True, owner = Some t\<rparr> \<and> mutexes s' = (mutexes s)(a := \<lparr>locked = False, owner = None\<rparr>))"
  using rr.sys_step_objects [OF assms(3) rr.sys_reachable_inv [OF assms(2,1)]]
  by (simp add: objects_step_def mutexes_step_def mutex_held_def mutex_free_def)

lemma sample_try_lock: "\<exists>s. mutex_try_lock 0 (Some 4) sample_kernel = (True, s)"
  by (simp add: mutex_try_lock_def task_current_def cpu_current_def spin_lock_eq sample_defs)

theorem mutex_exclusive_witness:
  "\<exists>s. mutex_try_lock 0 (Some 4) sample_kernel = (True, s) \<and>
    (mutexes s = mutexes sample_kernel \<or>
     (\<exists>c t a. runs sample_kernel c t \<and> mutexes s = (mutexes sample_kernel)(a := \<lparr>locked = True, owner = Some t\<rparr>)))"
proof -
  obtain s where s: "mutex_try_lock 0 (Some 4) sample_kernel = (True, s)" using sample_try_lock by blast
  have none: "\<not> locked (mutexes sample_kernel a)" for a by (simp add: sample_defs)
  show ?thesis
    using mutex_exclusive [OF sample_inv rtranclp.rtrancl_refl sys_step.mutex_try [OF s]] s none
    by (metis mutex_obj.select_convs(1))
qed

text \<open>A semaphore counts: in every step from a reachable state at most one semaphore changes,
  by taking one permit from a positive count or by adding one to a count below the maximum; the count
  never wraps in either direction.\<close>

theorem semaphore_counts:
  assumes "sys_inv scheduler_round_robin_algorithm rr_holds x" and "sys_step\<^sup>*\<^sup>* x (s, W, F)" and "sys_step (s, W, F) (s', W', F')"
  shows "semaphore_count s' = semaphore_count s \<or>
    (\<exists>a n. unat (semaphore_count s a) = Suc (unat n) \<and> semaphore_count s' = (semaphore_count s)(a := n)) \<or>
    (\<exists>a n. unat n = Suc (unat (semaphore_count s a)) \<and> semaphore_count s' = (semaphore_count s)(a := n))"
proof -
  have "semaphores_step s s'"
    using rr.sys_step_objects [OF assms(3) rr.sys_reachable_inv [OF assms(2,1)]] by (simp add: objects_step_def)
  then show ?thesis unfolding semaphores_step_def using unat_dec_u32 unat_inc_not_max by blast
qed

theorem semaphore_counts_witness:
  "\<exists>r u s. semaphore_release 0 4 sample_kernel = (r, u, s) \<and>
    (semaphore_count s = semaphore_count sample_kernel \<or>
     (\<exists>a n. unat n = Suc 0 \<and> semaphore_count s = (semaphore_count sample_kernel)(a := n)))"
proof -
  obtain r u s where s: "semaphore_release 0 4 sample_kernel = (r, u, s)" using prod_cases3 by blast
  have z: "semaphore_count sample_kernel a = 0" for a by (simp add: sample_defs)
  show ?thesis
    using semaphore_counts [OF sample_inv rtranclp.rtrancl_refl sys_step.sem_release [OF s]] s by (auto simp: z)
qed


lemma sample_sem_wait:
  obtains previous s where "semaphore_wait_round 0 3 sample_kernel = Some (Again, previous, s)" "wq_head (wait_queues s 3) = Some 5"
proof -
  obtain r previous s where run: "semaphore_wait_round 0 3 sample_kernel = Some (r, previous, s)"
    using rr.blocking_returns [OF sample_inv sample_startable sample_busy, of 3 3] by fastforce
  have w: "waits_ok sample_kernel (\<lambda>_. [])" by (simp add: waits_ok_def wait_list_def sample_defs)
  have z: "semaphore_count sample_kernel a = 0" for a by (simp add: sample_defs)
  have "r = Again" "waits_ok s ((\<lambda>_. [])(3 := [5]))"
    using rr.round_sem [OF sample_inv sample_busy run w, where F' = "{#}"] z by simp_all
  then show thesis using that run waits_ok_head [of s _ 3] by simp
qed


text \<open>Claim C23. No wakeup of a mutex is lost: while some task waits for the mutex, it is held, or a task
  that an unlock has taken off the queue has not run its next round yet.\<close>

theorem mutex_no_lost_wakeup:
  assumes "sys_inv scheduler_round_robin_algorithm rr_holds (s0, W0, F0)"
    and "wq_head (wait_queues s0 a) = None \<or> locked (mutexes s0 a)"
    and "(permit_step (mutex_permits a) a (\<lambda>c. mutex_lock_round c a) (\<lambda>c. mutex_release c a))\<^sup>*\<^sup>*
      ((s0, W0, F0), n0) ((s, W, F), n)"
    and "wq_head (wait_queues s a) \<noteq> None"
  shows "locked (mutexes s a) \<or> 0 < n"
proof -
  have "covered scheduler_round_robin_algorithm rr_holds (mutex_permits a) a ((s0, W0, F0), n0)"
    using assms(1,2) by (auto simp: covered_def mutex_permits_def)
  from rr_mutex.permit_steps_covered [OF assms(3) this] show ?thesis
    using assms(4) by (auto simp: covered_def mutex_permits_def split: if_splits)
qed

definition sample_locked :: "round_robin_state kernel" where
  "sample_locked = sample_kernel\<lparr>mutexes := (mutexes sample_kernel)(3 := \<lparr>locked = True, owner = Some 6\<rparr>)\<rparr>"

lemma sample_locked_inv:
  "sys_inv scheduler_round_robin_algorithm rr_holds (sample_locked, {}, {#})" "startable sample_locked" "busy sample_locked 0 5"
proof -
  have same: "sched_same sample_kernel sample_locked" by (simp add: sched_same_def sample_locked_def)
  have "waits_same sample_kernel sample_locked" by (simp add: waits_same_def sample_locked_def)
  then show "sys_inv scheduler_round_robin_algorithm rr_holds (sample_locked, {}, {#})"
    using rr.sys_same [OF sample_inv same] by simp
  show "startable sample_locked" using sample_startable by (simp add: startable_def has_space_def sample_locked_def)
  show "busy sample_locked 0 5" using sample_busy same by (simp add: busy_def sched_same_def runs_def idle_of_def)
qed

theorem mutex_no_lost_wakeup_witness:
  "\<exists>previous s. mutex_lock_round 0 3 5 sample_locked = Some (Again, previous, s) \<and>
    wq_head (wait_queues s 3) = Some 5 \<and> locked (mutexes s 3)"
proof -
  obtain r previous s where run: "mutex_lock_round 0 3 5 sample_locked = Some (r, previous, s)"
    using rr.blocking_returns [OF sample_locked_inv] by fastforce
  have w: "waits_ok sample_locked (\<lambda>_. [])" by (simp add: waits_ok_def wait_list_def sample_locked_def sample_defs)
  have m: "mutexes sample_locked 3 = \<lparr>locked = True, owner = Some 6\<rparr>" by (simp add: sample_locked_def)
  have r: "r = Again" "waits_ok s ((\<lambda>_. [])(3 := [5]))"
    using rr.round_mutex [OF sample_locked_inv(1,3) run w, where F' = "{#}"] m by simp_all
  then have h: "wq_head (wait_queues s 3) = Some 5" using waits_ok_head [of s _ 3] by simp
  have step: "permit_step (mutex_permits 3) 3 (\<lambda>c. mutex_lock_round c 3) (\<lambda>c. mutex_release c 3)
      ((sample_locked, {}, {#}), 0) ((s, {}, {#} + left previous), 0)"
    by (rule permit_step.first_round [OF sample_locked_inv(3), where r = r]) (rule run)
  then have steps: "(permit_step (mutex_permits 3) 3 (\<lambda>c. mutex_lock_round c 3) (\<lambda>c. mutex_release c 3))\<^sup>*\<^sup>*
      ((sample_locked, {}, {#}), 0) ((s, {}, {#} + left previous), 0)"
    by (rule r_into_rtranclp [where r = "permit_step (mutex_permits 3) 3 (\<lambda>c. mutex_lock_round c 3) (\<lambda>c. mutex_release c 3)"])
  have "locked (mutexes s 3) \<or> 0 < (0 :: nat)"
    using mutex_no_lost_wakeup [OF sample_locked_inv(1) _ steps] h m by simp
  then show ?thesis using run r h by auto
qed

section \<open>Waking all\<close>

text \<open>Claim C27. \<open>wait_queue_wake_all\<close> returns, with the number of waiters, after making exactly the
  tasks of the queue READY; the queue is empty then, and no other wait queue has changed.\<close>

theorem wake_all_wakes_exactly_the_waiters:
  assumes inv: "sys_inv scheduler_round_robin_algorithm rr_holds (s, W, F)" and ws: "waits_ok s ws"
  shows "\<exists>s'. wait_queue_wake_all c (Some q) s = Some (of_nat (length (ws q)), s') \<and>
    sys_inv scheduler_round_robin_algorithm rr_holds (s', W, F) \<and> waits_ok s' (ws(q := [])) \<and>
    (\<forall>x. state (tasks s' x) = (if x \<in> set (ws q) then TASK_READY else state (tasks s x)))"
  using rr.wake_all_run [OF inv ws, of c q 0] by (simp add: wait_queue_wake_all_def)

theorem wake_all_wakes_exactly_the_waiters_witness:
  "\<exists>s previous s'. wait_queue_block 0 (Some 3) sample_kernel = Some (previous, s) \<and>
    wait_queue_wake_all 1 (Some 3) s = Some (1, s') \<and> state (tasks s' 5) = TASK_READY"
proof -
  obtain previous s where s: "wait_queue_block 0 (Some 3) sample_kernel = Some (previous, s)"
    "sys_inv scheduler_round_robin_algorithm rr_holds (s, {}, {#})" "waits_ok s ((\<lambda>_. [])(3 := [5]))" by (rule sample_wait)
  show ?thesis using wake_all_wakes_exactly_the_waiters [OF s(2,3), of 1 3] s(1) by auto
qed

end
