(* ===== verification/TimerProps.thy ===== *)
theory TimerProps
  imports SyncProps
begin

text \<open>
  The properties of time: conversion between milliseconds and ticks, the sleep queue under the timer
  interrupt and processor accounting.
\<close>

section \<open>The sleep queue\<close>

lemma sorted_due: "sorted (map (\<lambda>x. wake_tick (ts x)) zs) \<Longrightarrow> set (takeWhile (due ts now) zs) = {x \<in> set zs. wake_tick (ts x) \<le> now}"
  by (induction zs) (auto simp: due_def)

lemma sorted_later: "sorted (map (\<lambda>x. wake_tick (ts x)) zs) \<Longrightarrow> dropWhile (due ts now) zs = filter (\<lambda>x. now < wake_tick (ts x)) zs"
proof (induction zs)
  case (Cons z zs)
  show ?case
  proof (cases "due ts now z")
    case False
    then have "now < wake_tick (ts x)" if "x \<in> set (z # zs)" for x using that Cons.prems by (auto simp: due_def)
    then have "filter (\<lambda>x. now < wake_tick (ts x)) (z # zs) = z # zs" by (simp add: filter_id_conv)
    then show ?thesis using False by simp
  qed (use Cons in \<open>auto simp: due_def\<close>)
qed simp

text \<open>Claim C28. The timer interrupt wakes exactly the sleepers whose time has come: its loop over the
  sleep queue returns, every task of the queue with a wake tick up to the current tick is READY after
  it and no other task has changed its state, and the later sleepers stay queued in their order.\<close>

theorem sleep_tick_wakes_exactly_the_due:
  assumes inv: "sys_inv scheduler_round_robin_algorithm rr_holds (s, W, F)" and zs: "sleep_list s zs"
  shows "\<exists>s'. sleep_queue_tick c now s = Some s' \<and> sys_inv scheduler_round_robin_algorithm rr_holds (s', W, F) \<and>
    sleep_list s' (filter (\<lambda>x. now < wake_tick (tasks s x)) zs) \<and>
    (\<forall>x. state (tasks s' x) = (if x \<in> set zs \<and> wake_tick (tasks s x) \<le> now then TASK_READY else state (tasks s x)))"
proof -
  have "sorted (map (\<lambda>x. wake_tick (tasks s x)) zs)" using zs by (simp add: sleep_list_def)
  note e = sorted_due [OF this, of now] sorted_later [OF this, of now]
  from rr.sleep_tick_run [OF inv zs, of c now] show ?thesis unfolding e by simp
qed

text \<open>A machine on which task 5 sleeps until tick 10.\<close>

lemma sample_sleep:
  obtains previous s zs where "task_sleep_locked 0 10 sample_kernel = Some (previous, s)"
    "sys_inv scheduler_round_robin_algorithm rr_holds (s, {}, {#})" "sleep_list s zs"
proof -
  obtain previous s where run: "task_sleep_locked 0 10 sample_kernel = Some (previous, s)"
    using rr.blocking_returns [OF sample_inv sample_startable sample_busy] by fastforce
  have i: "sys_inv scheduler_round_robin_algorithm rr_holds (s, {}, {#})"
    using rr.sys_sleep [OF sample_inv sample_busy run] by simp
  then obtain zs where "sleep_list s zs" by (auto simp: sys_inv_def)
  then show thesis using that run i by blast
qed

theorem sleep_tick_wakes_exactly_the_due_witness:
  "\<exists>previous s zs s'. task_sleep_locked 0 10 sample_kernel = Some (previous, s) \<and> sleep_list s zs \<and>
    sleep_queue_tick 0 10 s = Some s' \<and> sleep_list s' (filter (\<lambda>x. 10 < wake_tick (tasks s x)) zs)"
proof -
  obtain previous s zs where s: "task_sleep_locked 0 10 sample_kernel = Some (previous, s)"
    "sys_inv scheduler_round_robin_algorithm rr_holds (s, {}, {#})" "sleep_list s zs" by (rule sample_sleep)
  show ?thesis using sleep_tick_wakes_exactly_the_due [OF s(2,3), of 0 10] s(1,3) by blast
qed

text \<open>A task that goes to sleep is queued behind every sleeper with the same or an earlier
  wake tick and before every later one, so the queue stays sorted and serves equal deadlines first
  come, first served; the search terminates.\<close>

theorem sleep_queue_insert_sorted:
  assumes zs: "sleep_list s zs" and t: "t \<notin> set zs"
  shows "\<exists>s'. sleep_queue_insert t s = Some s' \<and>
    sleep_list s' (filter (\<lambda>x. wake_tick (tasks s x) \<le> wake_tick (tasks s t)) zs @ t #
                   filter (\<lambda>x. wake_tick (tasks s t) < wake_tick (tasks s x)) zs)"
proof -
  have srt: "sorted (map (\<lambda>x. wake_tick (tasks s x)) zs)" using zs by (simp add: sleep_list_def)
  have "takeWhile (due (tasks s) d) zs = filter (\<lambda>x. wake_tick (tasks s x) \<le> d) zs" for d
    using srt by (induction zs) (auto simp: due_def eq_commute [of "[]"] filter_empty_conv dest: order.trans)
  then show ?thesis using sleep_queue_insert_list [OF zs t] sorted_later [OF srt] by auto
qed

theorem sleep_queue_insert_sorted_witness:
  "\<exists>s. sleep_queue_insert 5 sample_kernel = Some s \<and> sleep_list s [5]"
proof -
  have "sleep_list sample_kernel []" by (simp add: sleep_list_def sample_defs)
  from sleep_queue_insert_sorted [OF this, of 5] show ?thesis by simp
qed

section \<open>Time\<close>

text \<open>Sleeping never ends early: for a timer that runs at 1 Hz to 4 GHz and a duration whose
  tick count fits 64 bits, the ticks of a duration are the exact quotient rounded up, so the uptime
  that the timer shows after these many ticks is at least the duration.\<close>

theorem sleep_never_early:
  assumes f: "0 < unat (system_timer_frequency s)"
    and fits: "(unat ms div 1000) * unat (system_timer_frequency s) + unat (system_timer_frequency s) < 18446744073709551616"
    and ticks: "system_ticks s' = timer_ms_to_ticks ms s" "system_timer_frequency s' = system_timer_frequency s"
    and up: "(unat (system_ticks s') div unat (system_timer_frequency s)) * 1000 + 1000 < 18446744073709551616"
  shows "unat (timer_ms_to_ticks ms s) = (unat ms * unat (system_timer_frequency s) + 999) div 1000 \<and>
    unat ms \<le> unat (timer_uptime_ms s')"
proof -
  let ?f = "unat (system_timer_frequency s)" and ?m = "unat ms"
  note t = timer_ms_to_ticks_unat [OF f fits]
  have "unat (timer_uptime_ms s') = unat (system_ticks s') * 1000 div unat (system_timer_frequency s')"
    by (rule timer_uptime_unat) (use f up ticks in simp_all)
  then have u: "unat (timer_uptime_ms s') = ((?m * ?f + 999) div 1000) * 1000 div ?f" using t ticks by simp
  have "?m * ?f + 999 < ((?m * ?f + 999) div 1000) * 1000 + 1000"
    using div_mult_mod_eq [of "?m * ?f + 999" 1000] mod_less_divisor [of 1000 "?m * ?f + 999"] by linarith
  then have "?m * ?f \<le> ((?m * ?f + 999) div 1000) * 1000" by linarith
  then have "?m * ?f div ?f \<le> ((?m * ?f + 999) div 1000) * 1000 div ?f" by (rule div_le_mono)
  then show ?thesis using t u f by simp
qed

theorem sleep_never_early_witness:
  "unat (timer_ms_to_ticks 10 sample_kernel) = 10"
  using sleep_never_early [of sample_kernel 10 "sample_kernel\<lparr>system_ticks := timer_ms_to_ticks 10 sample_kernel\<rparr>"]
  by (simp add: sample_kernel_def timer_ms_to_ticks_def timer_frequency_def)

section \<open>Processor accounting\<close>

lemma busy_share:
  assumes c: "cpu_get i s = Some cpu" and t: "scheduler_ticks cpu \<noteq> 0"
    and le: "idle_ticks cpu \<le> scheduler_ticks cpu" and fits: "unat (scheduler_ticks cpu) - unat (idle_ticks cpu) \<le> 42949672"
  shows "unat (cpu_utilization_percent i s) = (unat (scheduler_ticks cpu) - unat (idle_ticks cpu)) * 100 div unat (scheduler_ticks cpu)"
proof -
  have d: "unat (scheduler_ticks cpu - idle_ticks cpu) = unat (scheduler_ticks cpu) - unat (idle_ticks cpu)"
    using le by (simp add: unat_sub_u32 word_le_nat_alt)
  have "unat ((scheduler_ticks cpu - idle_ticks cpu) * 100) = (unat (scheduler_ticks cpu) - unat (idle_ticks cpu)) * 100"
    using fits by (subst unat_mult_u32) (simp_all add: d)
  then show ?thesis using c t le by (simp add: cpu_utilization_percent_def Let_def u32_div_unat not_less [symmetric])
qed

text \<open>While a processor has been busy for at most 42949672 ticks, its utilization is the exact
  share of its busy ticks in percent, rounded down, and at most 100. The bound is sharp: at one busy tick
  more the product wraps, and a processor that never idled is reported at 0 percent.\<close>

theorem utilization_exact_until_wrap:
  "(\<forall>i s cpu. cpu_get i s = Some cpu \<and> scheduler_ticks cpu \<noteq> 0 \<and> idle_ticks cpu \<le> scheduler_ticks cpu \<and>
      unat (scheduler_ticks cpu) - unat (idle_ticks cpu) \<le> 42949672 \<longrightarrow>
      unat (cpu_utilization_percent i s) =
        (unat (scheduler_ticks cpu) - unat (idle_ticks cpu)) * 100 div unat (scheduler_ticks cpu) \<and>
      unat (cpu_utilization_percent i s) \<le> 100) \<and>
   (\<forall>i s cpu. cpu_get i s = Some cpu \<and> scheduler_ticks cpu = 42949673 \<and> idle_ticks cpu = 0 \<longrightarrow> cpu_utilization_percent i s = 0)"
proof (intro conjI allI impI; (elim conjE)?)
  fix i and s :: "'q kernel" and cpu
  assume a: "cpu_get i s = Some cpu" "scheduler_ticks cpu \<noteq> 0" "idle_ticks cpu \<le> scheduler_ticks cpu"
    "unat (scheduler_ticks cpu) - unat (idle_ticks cpu) \<le> 42949672"
  note u = busy_share [OF a]
  show "unat (cpu_utilization_percent i s) =
      (unat (scheduler_ticks cpu) - unat (idle_ticks cpu)) * 100 div unat (scheduler_ticks cpu)" by (rule u)
  have "(unat (scheduler_ticks cpu) - unat (idle_ticks cpu)) * 100 div unat (scheduler_ticks cpu) \<le>
      unat (scheduler_ticks cpu) * 100 div unat (scheduler_ticks cpu)" by (intro div_le_mono mult_le_mono1) simp
  then show "unat (cpu_utilization_percent i s) \<le> 100"
    using u a(2) by (simp add: unat_eq_0 [symmetric] del: unat_eq_0)
next
  fix i and s :: "'q kernel" and cpu
  assume "cpu_get i s = Some cpu" "scheduler_ticks cpu = 42949673" "idle_ticks cpu = 0"
  then show "cpu_utilization_percent i s = 0" by (simp add: cpu_utilization_percent_def Let_def)
qed

definition loaded_kernel :: "u32 \<Rightarrow> u32 \<Rightarrow> round_robin_state kernel" where
  "loaded_kernel all idle = sample_kernel\<lparr>cpus := (\<lambda>_. blank_cpu\<lparr>scheduler_ticks := all, idle_ticks := idle\<rparr>)\<rparr>"

theorem utilization_exact_until_wrap_witness:
  "unat (cpu_utilization_percent 0 (loaded_kernel 8 6)) = 25 \<and> cpu_utilization_percent 0 (loaded_kernel 42949673 0) = 0"
  using utilization_exact_until_wrap
    [THEN conjunct1, THEN spec, of 0, THEN spec, of "loaded_kernel 8 6", THEN spec, of "blank_cpu\<lparr>scheduler_ticks := 8, idle_ticks := 6\<rparr>"]
    utilization_exact_until_wrap
    [THEN conjunct2, THEN spec, of 0, THEN spec, of "loaded_kernel 42949673 0", THEN spec, of "blank_cpu\<lparr>scheduler_ticks := 42949673, idle_ticks := 0\<rparr>"]
  by (simp add: cpu_get_def loaded_kernel_def sample_kernel_def)

end
