(* ===== verification/Paging.thy ===== *)
theory Paging
  imports Pmm
begin

text \<open>
  The two-level page tables of \<open>kernel/memory/paging.c\<close>. Physical memory is a map from word addresses to
  words; the code reaches the tables through the recursive entry of the page directory, so every read
  and write here goes through the translation of the memory management unit, and a page fault is
  \<open>None\<close>. The translation cache is not modelled (\<open>invlpg\<close> and reloading CR3 have no effect on the model), the
  sections under \<open>paging_lock\<close> are atomic, and the machine is one processor with its CR3.
\<close>

section \<open>The machine\<close>

definition PAGE_PRESENT :: u32 where [machine_consts]: "PAGE_PRESENT = 0x001"
definition PAGE_WRITABLE :: u32 where [machine_consts]: "PAGE_WRITABLE = 0x002"
definition PAGE_USER :: u32 where [machine_consts]: "PAGE_USER = 0x004"
definition PAGE_FRAME :: u32 where [machine_consts]: "PAGE_FRAME = 0xFFFFF000"
definition PAGE_MAP_FLAGS :: u32 where [machine_consts]: "PAGE_MAP_FLAGS = 0x002 OR 0x004 OR 0x008 OR 0x010 OR 0x100"
definition RECURSIVE_DIRECTORY_INDEX :: u32 where [machine_consts]: "RECURSIVE_DIRECTORY_INDEX = 1023"
definition RECURSIVE_TABLES_BASE :: u32 where [machine_consts]: "RECURSIVE_TABLES_BASE = 0xFFC00000"
definition RECURSIVE_DIRECTORY_BASE :: u32 where [machine_consts]: "RECURSIVE_DIRECTORY_BASE = 0xFFFFF000"
definition PAGE_DIRECTORY_SCRATCH_ADDRESS :: u32 where [machine_consts]: "PAGE_DIRECTORY_SCRATCH_ADDRESS = 0xE0000000"
definition PAGE_DIRECTORY_SCRATCH_INDEX :: u32 where [machine_consts]: "PAGE_DIRECTORY_SCRATCH_INDEX = 0x380"

record paging_state =
  frames :: pmm
  physical_memory :: "u32 \<Rightarrow> u32"
  directory_register :: u32
  kernel_directory :: u32

definition is_page_aligned :: "u32 \<Rightarrow> bool" where
  "is_page_aligned address \<longleftrightarrow> address AND (PAGE_SIZE - 1) = 0"

definition page_directory_index :: "u32 \<Rightarrow> u32" where
  "page_directory_index virtual_address = drop_bit 22 virtual_address AND 0x3FF"

definition page_table_index :: "u32 \<Rightarrow> u32" where
  "page_table_index virtual_address = drop_bit 12 virtual_address AND 0x3FF"

text \<open>What the hardware does on an access: CR3, directory entry, table entry.\<close>

definition translate :: "paging_state \<Rightarrow> u32 \<Rightarrow> u32 option" where
  "translate s va =
     (let pde = physical_memory s ((directory_register s AND PAGE_FRAME) + page_directory_index va * 4)
      in if pde AND PAGE_PRESENT = 0 then None
         else
           let pte = physical_memory s ((pde AND PAGE_FRAME) + page_table_index va * 4)
           in if pte AND PAGE_PRESENT = 0 then None
              else Some ((pte AND PAGE_FRAME) + (va AND (PAGE_SIZE - 1))))"

definition read_word :: "u32 \<Rightarrow> paging_state \<Rightarrow> u32 option" where
  "read_word va s = map_option (physical_memory s) (translate s va)"

definition write_word :: "u32 \<Rightarrow> u32 \<Rightarrow> paging_state \<Rightarrow> paging_state option" where
  "write_word va w s =
     map_option (\<lambda>a. s\<lparr>physical_memory := (physical_memory s)(a := w)\<rparr>) (translate s va)"

text \<open>\<open>memset(p, 0, PAGE_SIZE)\<close>, word by word.\<close>

primrec clear_words :: "u32 \<Rightarrow> nat \<Rightarrow> paging_state \<Rightarrow> paging_state option" where
  "clear_words p 0 s = Some s"
| "clear_words p (Suc n) s = clear_words p n s \<bind> write_word (p + of_nat n * 4) 0"

definition recursive_page_directory :: u32 where
  "recursive_page_directory = RECURSIVE_DIRECTORY_BASE"

definition recursive_page_table :: "u32 \<Rightarrow> u32" where
  "recursive_page_table directory_index = RECURSIVE_TABLES_BASE + directory_index * PAGE_SIZE"

definition current_directory :: "paging_state \<Rightarrow> u32" where
  "current_directory s = directory_register s AND PAGE_FRAME"

definition switch_directory :: "u32 \<Rightarrow> paging_state \<Rightarrow> bool \<times> paging_state" where
  "switch_directory directory_physical s =
     (if \<not> is_page_aligned directory_physical then (False, s)
      else if directory_physical = 0 then (False, s)
      else (True, s\<lparr>directory_register := directory_physical\<rparr>))"

text \<open>\<open>pmm_allocate_frame\<close> and \<open>pmm_free_frame\<close> on this machine.\<close>

definition take_frame :: "paging_state \<Rightarrow> u32 \<times> paging_state" where
  "take_frame s = (let (a, f) = pmm_allocate_frame (frames s) in (a, s\<lparr>frames := f\<rparr>))"

definition give_frame :: "u32 \<Rightarrow> paging_state \<Rightarrow> paging_state" where
  "give_frame a s = s\<lparr>frames := pmm_free_frame a (frames s)\<rparr>"

section \<open>Mapping\<close>

text \<open>The two ways to the page table: a new one, or the old one with wider rights.\<close>

definition map_page_table :: "u32 \<Rightarrow> u32 \<Rightarrow> paging_state \<Rightarrow> (bool \<times> paging_state) option" where
  "map_page_table directory_index flags s =
     do {
       directory_entry \<leftarrow> read_word (recursive_page_directory + directory_index * 4) s;
       if directory_entry AND PAGE_PRESENT = 0 then
         let (table_frame, s) = take_frame s
         in if table_frame = 0 then Some (False, s)
            else
              let directory_flags = PAGE_PRESENT OR PAGE_WRITABLE;
                  directory_flags = (if flags AND PAGE_USER \<noteq> 0 then directory_flags OR PAGE_USER else directory_flags)
              in do {
                s \<leftarrow> write_word (recursive_page_directory + directory_index * 4) ((table_frame AND PAGE_FRAME) OR directory_flags) s;
                s \<leftarrow> clear_words (recursive_page_table directory_index) 1024 s;
                Some (True, s)
              }
       else
         let directory_entry = (if flags AND PAGE_USER \<noteq> 0 then directory_entry OR PAGE_USER else directory_entry)
         in do {
           s \<leftarrow> write_word (recursive_page_directory + directory_index * 4) (directory_entry OR PAGE_WRITABLE) s;
           Some (True, s)
         }
     }"

definition paging_map_page :: "u32 \<Rightarrow> u32 \<Rightarrow> u32 \<Rightarrow> paging_state \<Rightarrow> (bool \<times> paging_state) option" where
  "paging_map_page virtual_address physical_address flags s =
     (if \<not> is_page_aligned virtual_address then Some (False, s)
      else if \<not> is_page_aligned physical_address then Some (False, s)
      else
        let directory_index = page_directory_index virtual_address;
            table_index = page_table_index virtual_address
        in if directory_index = RECURSIVE_DIRECTORY_INDEX then Some (False, s)
           else do {
             (ok, s) \<leftarrow> map_page_table directory_index flags s;
             if \<not> ok then Some (False, s)
             else do {
               page_entry \<leftarrow> read_word (recursive_page_table directory_index + table_index * 4) s;
               if page_entry AND PAGE_PRESENT \<noteq> 0 then Some (False, s)
               else do {
                 s \<leftarrow> write_word (recursive_page_table directory_index + table_index * 4)
                        ((physical_address AND PAGE_FRAME) OR PAGE_PRESENT OR (flags AND PAGE_MAP_FLAGS)) s;
                 Some (True, s)
               }
             }
           })"

definition paging_unmap_page :: "u32 \<Rightarrow> bool \<Rightarrow> paging_state \<Rightarrow> (bool \<times> paging_state) option" where
  "paging_unmap_page virtual_address release_frame s =
     (if \<not> is_page_aligned virtual_address then Some (False, s)
      else
        let directory_index = page_directory_index virtual_address;
            table_index = page_table_index virtual_address
        in if directory_index = RECURSIVE_DIRECTORY_INDEX then Some (False, s)
           else do {
             directory_entry \<leftarrow> read_word (recursive_page_directory + directory_index * 4) s;
             if directory_entry AND PAGE_PRESENT = 0 then Some (False, s)
             else do {
               page_entry \<leftarrow> read_word (recursive_page_table directory_index + table_index * 4) s;
               if page_entry AND PAGE_PRESENT = 0 then Some (False, s)
               else do {
                 s \<leftarrow> write_word (recursive_page_table directory_index + table_index * 4) 0 s;
                 Some (True, if release_frame then give_frame (page_entry AND PAGE_FRAME) s else s)
               }
             }
           })"

section \<open>Queries\<close>

text \<open>\<open>Some (directory entry, table entry)\<close> when both are present: the walk the queries share.\<close>

definition walk :: "u32 \<Rightarrow> paging_state \<Rightarrow> (u32 \<times> u32) option option" where
  "walk virtual_address s =
     do {
       directory_entry \<leftarrow> read_word (recursive_page_directory + page_directory_index virtual_address * 4) s;
       if directory_entry AND PAGE_PRESENT = 0 then Some None
       else do {
         page_entry \<leftarrow> read_word (recursive_page_table (page_directory_index virtual_address)
                        + page_table_index virtual_address * 4) s;
         Some (if page_entry AND PAGE_PRESENT = 0 then None else Some (directory_entry, page_entry))
       }
     }"

definition paging_get_physical_address :: "u32 \<Rightarrow> paging_state \<Rightarrow> u32 option option" where
  "paging_get_physical_address virtual_address s =
     (if page_directory_index virtual_address = RECURSIVE_DIRECTORY_INDEX then Some None
      else map_option (map_option (\<lambda>(directory_entry, page_entry).
             (page_entry AND PAGE_FRAME) + (virtual_address AND (PAGE_SIZE - 1)))) (walk virtual_address s))"

definition paging_is_mapped :: "u32 \<Rightarrow> paging_state \<Rightarrow> bool option" where
  "paging_is_mapped virtual_address s =
     (if page_directory_index virtual_address = RECURSIVE_DIRECTORY_INDEX then Some False
      else map_option (\<lambda>r. r \<noteq> None) (walk virtual_address s))"

definition effective_flags :: "u32 \<Rightarrow> u32 \<Rightarrow> u32" where
  "effective_flags directory_entry page_entry =
     (let effective = PAGE_PRESENT;
          effective = (if directory_entry AND PAGE_USER \<noteq> 0 \<and> page_entry AND PAGE_USER \<noteq> 0
                       then effective OR PAGE_USER else effective)
      in if directory_entry AND PAGE_WRITABLE \<noteq> 0 \<and> page_entry AND PAGE_WRITABLE \<noteq> 0
         then effective OR PAGE_WRITABLE else effective)"

definition paging_get_effective_flags :: "u32 \<Rightarrow> paging_state \<Rightarrow> u32 option option" where
  "paging_get_effective_flags virtual_address s =
     (if page_directory_index virtual_address = RECURSIVE_DIRECTORY_INDEX then Some None
      else map_option (map_option (\<lambda>(directory_entry, page_entry). effective_flags directory_entry page_entry))
             (walk virtual_address s))"

section \<open>Kernel page tables\<close>

definition paging_ensure_kernel_page_table :: "u32 \<Rightarrow> paging_state \<Rightarrow> (bool \<times> paging_state) option" where
  "paging_ensure_kernel_page_table virtual_address s =
     (if current_directory s \<noteq> kernel_directory s then Some (False, s)
      else
        let directory_index = page_directory_index virtual_address
        in if directory_index = RECURSIVE_DIRECTORY_INDEX \<or> directory_index = PAGE_DIRECTORY_SCRATCH_INDEX
           then Some (False, s)
           else do {
             directory_entry \<leftarrow> read_word (recursive_page_directory + directory_index * 4) s;
             if directory_entry AND PAGE_PRESENT \<noteq> 0 then Some (directory_entry AND PAGE_USER = 0, s)
             else
               let (table_frame, s) = take_frame s
               in if table_frame = 0 then Some (False, s)
                  else do {
                    s \<leftarrow> write_word (recursive_page_directory + directory_index * 4)
                           ((table_frame AND PAGE_FRAME) OR PAGE_PRESENT OR PAGE_WRITABLE) s;
                    s \<leftarrow> clear_words (recursive_page_table directory_index) 1024 s;
                    Some (True, s)
                  }
           })"

text \<open>The loop of \<open>paging_identity_map_range\<close>; its counter leaves it at \<open>last\<close>.\<close>

partial_function (option) identity_map_loop :: "u32 \<Rightarrow> u32 \<Rightarrow> u32 \<Rightarrow> paging_state \<Rightarrow> (bool \<times> paging_state) option" where
  "identity_map_loop page last_page flags s =
     do {
       mapped \<leftarrow> paging_is_mapped page s;
       (ok, s) \<leftarrow> (if mapped then Some (True, s) else paging_map_page page page flags s);
       if \<not> ok then Some (False, s)
       else if page = last_page then Some (True, s)
       else if page > SIZE_MAX - PAGE_SIZE then Some (False, s)
       else identity_map_loop (page + PAGE_SIZE) last_page flags s
     }"

definition paging_identity_map_range :: "u32 \<Rightarrow> u32 \<Rightarrow> u32 \<Rightarrow> paging_state \<Rightarrow> (bool \<times> paging_state) option" where
  "paging_identity_map_range physical_address len flags s =
     (if len = 0 then Some (True, s)
      else if physical_address > SIZE_MAX - (len - 1) then Some (False, s)
      else
        let start = physical_address AND NOT (PAGE_SIZE - 1);
            last_page = (physical_address + len - 1) AND NOT (PAGE_SIZE - 1)
        in identity_map_loop start last_page flags s)"

section \<open>Other address spaces\<close>

definition paging_map_page_in_directory ::
  "u32 \<Rightarrow> u32 \<Rightarrow> u32 \<Rightarrow> u32 \<Rightarrow> paging_state \<Rightarrow> (bool \<times> paging_state) option" where
  "paging_map_page_in_directory directory_physical virtual_address physical_address flags s =
     (if directory_physical = 0 then Some (False, s)
      else if \<not> is_page_aligned directory_physical \<or> \<not> is_page_aligned virtual_address \<or> \<not> is_page_aligned physical_address
      then Some (False, s)
      else if kernel_directory s = 0 \<or> current_directory s \<noteq> kernel_directory s then Some (False, s)
      else if directory_physical = kernel_directory s then paging_map_page virtual_address physical_address flags s
      else
        let directory_index = page_directory_index virtual_address
        in if directory_index = RECURSIVE_DIRECTORY_INDEX \<or> directory_index = PAGE_DIRECTORY_SCRATCH_INDEX
           then Some (False, s)
           else (case switch_directory directory_physical s of
               (False, s) \<Rightarrow> Some (False, s)
             | (True, s) \<Rightarrow> do {
                 (mapped, s) \<leftarrow> paging_map_page virtual_address physical_address flags s;
                 (case switch_directory (kernel_directory s) s of
                    (False, s) \<Rightarrow> None
                  | (True, s) \<Rightarrow> Some (mapped, s))
               }))"

text \<open>The loop that copies the shared entries into the new directory.\<close>

primrec copy_entries :: "nat \<Rightarrow> paging_state \<Rightarrow> paging_state option" where
  "copy_entries 0 s = Some s"
| "copy_entries (Suc i) s =
     do {
       s \<leftarrow> copy_entries i s;
       if of_nat i = RECURSIVE_DIRECTORY_INDEX \<or> of_nat i = PAGE_DIRECTORY_SCRATCH_INDEX then Some s
       else do {
         e \<leftarrow> read_word (recursive_page_directory + of_nat i * 4) s;
         if e AND PAGE_PRESENT = 0 \<or> e AND PAGE_USER \<noteq> 0 then Some s
         else write_word (PAGE_DIRECTORY_SCRATCH_ADDRESS + of_nat i * 4) e s
       }
     }"

text \<open>\<open>None\<close> inside is the result \<open>false\<close>, otherwise the value stored through the pointer.\<close>

definition paging_create_user_directory :: "paging_state \<Rightarrow> (u32 option \<times> paging_state) option" where
  "paging_create_user_directory s =
     (let (frame, s) = take_frame s
      in if frame = 0 then Some (None, s)
         else do {
           (ok, s) \<leftarrow> paging_map_page PAGE_DIRECTORY_SCRATCH_ADDRESS frame PAGE_WRITABLE s;
           if \<not> ok then Some (None, give_frame frame s)
           else do {
             s \<leftarrow> clear_words PAGE_DIRECTORY_SCRATCH_ADDRESS 1024 s;
             s \<leftarrow> copy_entries 1024 s;
             s \<leftarrow> write_word (PAGE_DIRECTORY_SCRATCH_ADDRESS + RECURSIVE_DIRECTORY_INDEX * 4)
                    ((frame AND PAGE_FRAME) OR PAGE_PRESENT OR PAGE_WRITABLE) s;
             (ok, s) \<leftarrow> paging_unmap_page PAGE_DIRECTORY_SCRATCH_ADDRESS False s;
             if \<not> ok then Some (None, give_frame frame s) else Some (Some frame, s)
           }
         })"

definition paging_share_kernel_pde :: "u32 \<Rightarrow> u32 \<Rightarrow> paging_state \<Rightarrow> (bool \<times> paging_state) option" where
  "paging_share_kernel_pde directory_physical virtual_address s =
     (if directory_physical = 0 then Some (False, s)
      else if \<not> is_page_aligned directory_physical then Some (False, s)
      else if current_directory s \<noteq> kernel_directory s then Some (False, s)
      else
        let directory_index = page_directory_index virtual_address
        in if directory_index = RECURSIVE_DIRECTORY_INDEX \<or> directory_index = PAGE_DIRECTORY_SCRATCH_INDEX
           then Some (False, s)
           else do {
             kernel_entry \<leftarrow> read_word (recursive_page_directory + directory_index * 4) s;
             if kernel_entry AND PAGE_PRESENT = 0 then Some (False, s)
             else if kernel_entry AND PAGE_USER \<noteq> 0 then Some (False, s)
             else do {
               (ok, s) \<leftarrow> paging_map_page PAGE_DIRECTORY_SCRATCH_ADDRESS directory_physical PAGE_WRITABLE s;
               if \<not> ok then Some (False, s)
               else do {
                 target \<leftarrow> read_word (PAGE_DIRECTORY_SCRATCH_ADDRESS + directory_index * 4) s;
                 if target AND PAGE_PRESENT \<noteq> 0 \<and> target AND PAGE_USER \<noteq> 0 then do {
                   (ok, s) \<leftarrow> paging_unmap_page PAGE_DIRECTORY_SCRATCH_ADDRESS False s;
                   Some (False, s)
                 }
                 else do {
                   s \<leftarrow> write_word (PAGE_DIRECTORY_SCRATCH_ADDRESS + directory_index * 4) kernel_entry s;
                   paging_unmap_page PAGE_DIRECTORY_SCRATCH_ADDRESS False s
                 }
               }
             }
           })"

text \<open>The two nested loops of \<open>paging_destroy_user_directory\<close>, in the target address space.\<close>

primrec free_table_pages :: "u32 \<Rightarrow> nat \<Rightarrow> paging_state \<Rightarrow> paging_state option" where
  "free_table_pages page_table 0 s = Some s"
| "free_table_pages page_table (Suc j) s =
     do {
       s \<leftarrow> free_table_pages page_table j s;
       page_entry \<leftarrow> read_word (page_table + of_nat j * 4) s;
       if page_entry AND PAGE_PRESENT = 0 then Some s
       else do {
         s \<leftarrow> write_word (page_table + of_nat j * 4) 0 s;
         Some (give_frame (page_entry AND PAGE_FRAME) s)
       }
     }"

primrec free_user_tables :: "nat \<Rightarrow> paging_state \<Rightarrow> paging_state option" where
  "free_user_tables 0 s = Some s"
| "free_user_tables (Suc i) s =
     do {
       s \<leftarrow> free_user_tables i s;
       if of_nat i = RECURSIVE_DIRECTORY_INDEX \<or> of_nat i = PAGE_DIRECTORY_SCRATCH_INDEX then Some s
       else do {
         e \<leftarrow> read_word (recursive_page_directory + of_nat i * 4) s;
         if e AND PAGE_PRESENT = 0 \<or> e AND PAGE_USER = 0 then Some s
         else do {
           s \<leftarrow> free_table_pages (recursive_page_table (of_nat i)) 1024 s;
           s \<leftarrow> write_word (recursive_page_directory + of_nat i * 4) 0 s;
           Some (give_frame (e AND PAGE_FRAME) s)
         }
       }
     }"

definition paging_destroy_user_directory :: "u32 \<Rightarrow> paging_state \<Rightarrow> paging_state option" where
  "paging_destroy_user_directory directory_physical s =
     (if directory_physical = 0 then Some s
      else if \<not> is_page_aligned directory_physical then Some s
      else if kernel_directory s = 0 then Some s
      else if directory_physical = kernel_directory s then Some s
      else if current_directory s \<noteq> kernel_directory s then Some s
      else (case switch_directory directory_physical s of
          (False, s) \<Rightarrow> Some s
        | (True, s) \<Rightarrow> do {
            s \<leftarrow> free_user_tables 1024 s;
            (case switch_directory (kernel_directory s) s of
               (False, s) \<Rightarrow> None
             | (True, s) \<Rightarrow> Some (give_frame directory_physical s))
          }))"

end
