(* ===== verification/PageTables.thy ===== *)
theory PageTables
  imports Paging
begin

text \<open>
  The page tables as a function from directory and table index to an entry: what the recursive mapping
  reaches, and how mapping and unmapping act on that function.
\<close>

section \<open>Words in frames\<close>

lemma aligned_iff: "is_page_aligned a \<longleftrightarrow> unat a mod 4096 = 0"
proof -
  have "unat (a AND 4095) = unat a mod 4096" by (rule and_low_mask_unat)
  moreover have "a AND 4095 = 0 \<longleftrightarrow> unat (a AND 4095) = 0" by (simp add: unat_eq_0)
  ultimately show ?thesis by (simp add: is_page_aligned_def PAGE_SIZE_def)
qed

lemma frame_unat: "unat (a AND PAGE_FRAME) = unat a - unat a mod 4096"
proof -
  have "PAGE_FRAME = - 4096" by (simp add: PAGE_FRAME_def eq_neg_iff_add_eq_0)
  then show ?thesis using and_not_mask_unat [of a] by simp
qed

lemma frame_aligned [simp]: "unat (a AND PAGE_FRAME) mod 4096 = 0"
  by (simp add: frame_unat minus_mod_eq_mult_div)

lemma frame_of_aligned: "unat a mod 4096 = 0 \<Longrightarrow> a AND PAGE_FRAME = a"
  by (simp add: u32_eq_iff frame_unat)

lemma frame_idem [simp]: "a AND PAGE_FRAME AND PAGE_FRAME = a AND PAGE_FRAME"
  by (simp add: and.assoc)

lemma slot_unat: "unat (f :: u32) mod 4096 = 0 \<Longrightarrow> unat (i :: u32) < 1024 \<Longrightarrow> unat (f + i * 4) = unat f + 4 * unat i"
proof -
  assume f: "unat f mod 4096 = 0" and i: "unat i < 1024"
  have m: "unat (i * 4) = 4 * unat i" using i by (subst unat_mult_u32) simp_all
  have "unat f < 4096 * 1048576" using unat_u32_bound [of f] by simp
  then have "unat f div 4096 < 1048576" by (simp add: less_mult_imp_div_less)
  then have "unat f div 4096 \<le> 1048575" by simp
  then have "unat f \<le> 4294963200" using div_mult_mod_eq [of "unat f" 4096] f by simp
  then show ?thesis using m i by (subst unat_add_u32) simp_all
qed

lemma slot_eq:
  assumes "unat (f :: u32) mod 4096 = 0" "unat (g :: u32) mod 4096 = 0" "unat (i :: u32) < 1024" "unat (j :: u32) < 1024"
  shows "f + i * 4 = g + j * 4 \<longleftrightarrow> f = g \<and> i = j"
proof
  assume "f + i * 4 = g + j * 4"
  then have "unat f + 4 * unat i = unat g + 4 * unat j" using slot_unat assms by metis
  then have e: "unat f + 4 * unat i = unat g + 4 * unat j" .
  obtain a where a: "unat f = 4096 * a" using assms(1) by (auto simp: mod_eq_0_iff_dvd dvd_def)
  obtain b where b: "unat g = 4096 * b" using assms(2) by (auto simp: mod_eq_0_iff_dvd dvd_def)
  have m: "(4096 * x + 4 * y) div 4096 = x" "(4096 * x + 4 * y) mod 4096 = 4 * y" if "y < 1024" for x y :: nat using that by auto
  have "4096 * a + 4 * unat i = 4096 * b + 4 * unat j" using e a b by simp
  then have "a = b" "4 * unat i = 4 * unat j" using m [OF assms(3), of a] m [OF assms(4), of b] by metis+
  then have "a = b" "unat i = unat j" by simp_all
  then show "f = g \<and> i = j" using a b by (simp add: u32_eq_iff)
qed simp

section \<open>Indices of addresses\<close>

lemma low_ten: "(a :: u32) AND 0x3FF = a mod 1024"
  using take_bit_eq_mask [of 10 a] by (simp add: mask_eq_decr_exp take_bit_eq_mod)

lemma directory_index_unat: "unat (page_directory_index a) = unat a div 4194304"
proof -
  have "unat (drop_bit 22 a) = unat a div 4194304" by (simp add: drop_bit_eq_div u32_div_unat)
  moreover have "unat a div 4194304 < 1024" using unat_u32_bound [of a] by (simp add: less_mult_imp_div_less)
  ultimately show ?thesis by (simp add: page_directory_index_def low_ten u32_mod_unat)
qed

lemma table_index_unat: "unat (page_table_index a) = unat a div 4096 mod 1024"
proof -
  have "unat (drop_bit 12 a) = unat a div 4096" by (simp add: drop_bit_eq_div u32_div_unat)
  then show ?thesis by (simp add: page_table_index_def low_ten u32_mod_unat)
qed

lemma index_bounds [simp]: "unat (page_directory_index a) < 1024" "unat (page_table_index a) < 1024"
proof -
  show "unat (page_directory_index a) < 1024" unfolding directory_index_unat
    using unat_u32_bound [of a] by (simp add: less_mult_imp_div_less)
qed (simp add: table_index_unat)

lemma page_of_indices: "unat a div 4096 = 1024 * unat (page_directory_index a) + unat (page_table_index a)"
proof -
  have "unat a div 4194304 = unat a div 4096 div 1024" by (simp add: div_mult2_eq [symmetric])
  then show ?thesis by (simp add: directory_index_unat table_index_unat)
qed

lemma same_page:
  "page_directory_index a = page_directory_index b \<and> page_table_index a = page_table_index b \<longleftrightarrow> unat a div 4096 = unat b div 4096"
proof -
  have u: "1024 * x + y = 1024 * x' + y' \<longleftrightarrow> x = x' \<and> y = y'" if y: "y < 1024" "y' < 1024" for x y x' y' :: nat
  proof -
    have m: "(1024 * x + y) div 1024 = x" "(1024 * x + y) mod 1024 = y" if "y < 1024" for x y :: nat using that by auto
    show ?thesis using m [OF y(1), of x] m [OF y(2), of x'] by metis
  qed
  show ?thesis unfolding page_of_indices u [OF index_bounds(2) index_bounds(2)] u32_eq_iff ..
qed

lemma aligned_page_eq: "is_page_aligned a \<Longrightarrow> is_page_aligned b \<Longrightarrow> unat a div 4096 = unat b div 4096 \<Longrightarrow> a = b"
  unfolding aligned_iff u32_eq_iff by (metis add.right_neutral div_mult_mod_eq)

section \<open>The recursive mapping\<close>

definition pde :: "paging_state \<Rightarrow> u32 \<Rightarrow> u32" where
  "pde s i = physical_memory s (current_directory s + i * 4)"

definition table_of :: "paging_state \<Rightarrow> u32 \<Rightarrow> u32" where
  "table_of s i = pde s i AND PAGE_FRAME"

definition present :: "u32 \<Rightarrow> bool" where
  "present e \<longleftrightarrow> e AND PAGE_PRESENT \<noteq> 0"

text \<open>The entry under both indices; the empty entry when there is no table.\<close>

definition page_entry :: "paging_state \<Rightarrow> u32 \<Rightarrow> u32 \<Rightarrow> u32" where
  "page_entry s i j = (if present (pde s i) then physical_memory s (table_of s i + j * 4) else 0)"

definition recursive_ok :: "paging_state \<Rightarrow> bool" where
  "recursive_ok s \<longleftrightarrow> present (pde s 1023) \<and> table_of s 1023 = current_directory s"

definition paging_ok :: "paging_state \<Rightarrow> bool" where
  "paging_ok s \<longleftrightarrow> recursive_ok s \<and> current_directory s \<notin> pmm_free_frames (frames s) \<and>
     (\<forall>i. unat i < 1023 \<and> present (pde s i) \<longrightarrow> table_of s i \<noteq> current_directory s \<and> table_of s i \<notin> pmm_free_frames (frames s)) \<and>
     (\<forall>i j. unat i < 1023 \<and> unat j < 1023 \<and> i \<noteq> j \<and> present (pde s i) \<and> present (pde s j) \<longrightarrow> table_of s i \<noteq> table_of s j)"

lemma not_present_0 [simp]: "\<not> present 0"
  by (simp add: present_def)

lemma directory_aligned [simp]: "unat (current_directory s) mod 4096 = 0" "unat (table_of s i) mod 4096 = 0"
  by (simp_all add: current_directory_def table_of_def)

lemma recursive_indices:
  assumes "unat i < 1024" "unat j < 1024"
  shows "page_directory_index (recursive_page_table i + j * 4) = 1023" "page_table_index (recursive_page_table i + j * 4) = i"
    "(recursive_page_table i + j * 4) AND (PAGE_SIZE - 1) = j * 4"
proof -
  have "unat (i * 4096) = unat i * 4096" using assms by (subst unat_mult_u32) simp_all
  then have t: "unat (recursive_page_table i) = 4290772992 + unat i * 4096"
    using assms by (simp add: recursive_page_table_def RECURSIVE_TABLES_BASE_def PAGE_SIZE_def unat_add_u32)
  have "unat (recursive_page_table i) mod 4096 = 0" unfolding t by presburger
  then have u: "unat (recursive_page_table i + j * 4) = 4290772992 + unat i * 4096 + 4 * unat j"
    using slot_unat assms t by simp
  show "page_directory_index (recursive_page_table i + j * 4) = 1023"
    unfolding u32_eq_iff directory_index_unat u using assms by simp
  have d: "(4290772992 + unat i * 4096 + 4 * unat j) div 4096 = 1047552 + unat i" using assms by simp
  show "page_table_index (recursive_page_table i + j * 4) = i"
  proof -
    have "(1047552 + unat i) mod 1024 = unat i" using assms(1) mod_add_eq [of 1047552 1024 "unat i"] by simp
    then show ?thesis unfolding u32_eq_iff table_index_unat u d .
  qed
  have "unat (j * 4) = 4 * unat j" using assms by (subst unat_mult_u32) simp_all
  then show "(recursive_page_table i + j * 4) AND (PAGE_SIZE - 1) = j * 4"
  proof -
    have "4290772992 + unat i * 4096 + 4 * unat j = 4096 * (1047552 + unat i) + 4 * unat j" by simp
    then have "(4290772992 + unat i * 4096 + 4 * unat j) mod 4096 = 4 * unat j" using assms(2) by (simp only: mod_mult_self4) simp
    then show ?thesis using \<open>unat (j * 4) = 4 * unat j\<close> by (simp add: u32_eq_iff PAGE_SIZE_def and_low_mask_unat u)
  qed
qed

lemma recursive_directory_is_table: "recursive_page_directory = recursive_page_table 1023"
  by (simp add: recursive_page_directory_def recursive_page_table_def machine_consts)

lemma translate_table:
  assumes "recursive_ok s" "unat i < 1024" "unat j < 1024"
  shows "translate s (recursive_page_table i + j * 4) = (if present (pde s i) then Some (table_of s i + j * 4) else None)"
  using assms(1) recursive_indices [OF assms(2,3)]
  by (auto simp: translate_def recursive_ok_def present_def table_of_def pde_def current_directory_def Let_def)

lemma translate_directory:
  assumes "recursive_ok s" "unat i < 1024"
  shows "translate s (recursive_page_directory + i * 4) = Some (current_directory s + i * 4)"
  using translate_table [OF assms(1) _ assms(2), of 1023] assms(1)
  by (simp add: recursive_directory_is_table recursive_ok_def)

lemma read_pde: "recursive_ok s \<Longrightarrow> unat i < 1024 \<Longrightarrow> read_word (recursive_page_directory + i * 4) s = Some (pde s i)"
  by (simp add: read_word_def translate_directory pde_def)

lemma read_pte: "recursive_ok s \<Longrightarrow> unat i < 1024 \<Longrightarrow> unat j < 1024 \<Longrightarrow> present (pde s i) \<Longrightarrow>
    read_word (recursive_page_table i + j * 4) s = Some (page_entry s i j)"
  by (simp add: read_word_def translate_table page_entry_def)

text \<open>Stores, as updates of the memory.\<close>

definition store :: "u32 \<Rightarrow> u32 \<Rightarrow> paging_state \<Rightarrow> paging_state" where
  "store a w s = s\<lparr>physical_memory := (physical_memory s)(a := w)\<rparr>"

lemma store_frame [simp]:
  "current_directory (store a w s) = current_directory s" "frames (store a w s) = frames s"
  "directory_register (store a w s) = directory_register s" "kernel_directory (store a w s) = kernel_directory s"
  "physical_memory (store a w s) = (physical_memory s)(a := w)"
  by (simp_all add: store_def current_directory_def)

lemma write_pde: "recursive_ok s \<Longrightarrow> unat i < 1024 \<Longrightarrow>
    write_word (recursive_page_directory + i * 4) w s = Some (store (current_directory s + i * 4) w s)"
  by (simp add: write_word_def translate_directory store_def)

lemma write_pte: "recursive_ok s \<Longrightarrow> unat i < 1024 \<Longrightarrow> unat j < 1024 \<Longrightarrow> present (pde s i) \<Longrightarrow>
    write_word (recursive_page_table i + j * 4) w s = Some (store (table_of s i + j * 4) w s)"
  by (simp add: write_word_def translate_table store_def)

lemma pde_store_pde: "unat i < 1024 \<Longrightarrow> unat k < 1024 \<Longrightarrow>
    pde (store (current_directory s + i * 4) w s) k = (if k = i then w else pde s k)"
  using slot_eq [of "current_directory s" "current_directory s" k i] by (auto simp: pde_def)

lemma pde_store_table: "unat f mod 4096 = 0 \<Longrightarrow> f \<noteq> current_directory s \<Longrightarrow> unat j < 1024 \<Longrightarrow> unat k < 1024 \<Longrightarrow>
    pde (store (f + j * 4) w s) k = pde s k"
  using slot_eq [of "current_directory s" f k j] by (auto simp: pde_def)

text \<open>Clearing a table.\<close>

lemma clear_table:
  assumes "recursive_ok s" "unat i < 1024" "present (pde s i)" "table_of s i \<noteq> current_directory s" "n \<le> 1024"
  shows "\<exists>s'. clear_words (recursive_page_table i) n s = Some s' \<and>
    s' = s\<lparr>physical_memory := physical_memory s'\<rparr> \<and>
    (\<forall>a. physical_memory s' a = (if \<exists>j < n. a = table_of s i + of_nat j * 4 then 0 else physical_memory s a))"
  using assms(5)
proof (induction n)
  case 0
  show ?case by simp
next
  case (Suc n)
  then obtain s1 where s1: "clear_words (recursive_page_table i) n s = Some s1" "s1 = s\<lparr>physical_memory := physical_memory s1\<rparr>"
      "\<And>a. physical_memory s1 a = (if \<exists>j < n. a = table_of s i + of_nat j * 4 then 0 else physical_memory s a)"
    by auto
  have nu: "unat (of_nat m :: u32) < 1024" if "m \<le> n" for m using that Suc.prems by (simp add: u32_of_nat_unat)
  have d: "current_directory s1 = current_directory s" unfolding current_directory_def by (subst s1(2)) simp
  have p: "pde s1 k = pde s k" if "unat k < 1024" for k
  proof -
    have "current_directory s + k * 4 \<noteq> table_of s i + of_nat j * 4" if "j < n" for j
      using slot_eq [of "current_directory s" "table_of s i" k "of_nat j"] assms(4) \<open>unat k < 1024\<close> nu [of j] that by auto
    then show ?thesis by (auto simp: pde_def d s1(3))
  qed
  have r: "recursive_ok s1" using assms(1) by (simp add: recursive_ok_def p d table_of_def)
  have t: "table_of s1 i = table_of s i" using assms(2) by (simp add: table_of_def p)
  have "write_word (recursive_page_table i + of_nat n * 4) 0 s1 = Some (store (table_of s i + of_nat n * 4) 0 s1)"
    using write_pte [OF r assms(2) nu [of n]] assms(2,3) p t by simp
  then have "clear_words (recursive_page_table i) (Suc n) s = Some (store (table_of s i + of_nat n * 4) 0 s1)" using s1(1) by simp
  moreover have "store (table_of s i + of_nat n * 4) 0 s1 = s\<lparr>physical_memory := physical_memory (store (table_of s i + of_nat n * 4) 0 s1)\<rparr>"
    by (subst s1(2)) (simp add: store_def)
  moreover have "physical_memory (store (table_of s i + of_nat n * 4) 0 s1) a =
      (if \<exists>j < Suc n. a = table_of s i + of_nat j * 4 then 0 else physical_memory s a)" for a
    by (auto simp: s1(3) less_Suc_eq)
  ultimately show ?case by blast
qed

section \<open>Bits of entries\<close>

lemma flag_bits [simp]:
  "PAGE_PRESENT AND PAGE_FRAME = 0" "PAGE_WRITABLE AND PAGE_FRAME = 0" "PAGE_USER AND PAGE_FRAME = 0"
  "PAGE_MAP_FLAGS AND PAGE_FRAME = 0" "PAGE_PRESENT AND PAGE_PRESENT = PAGE_PRESENT" "PAGE_PRESENT \<noteq> 0" "PAGE_USER \<noteq> 0" "PAGE_WRITABLE \<noteq> 0"
  "PAGE_WRITABLE AND PAGE_PRESENT = 0" "PAGE_USER AND PAGE_PRESENT = 0" "PAGE_MAP_FLAGS AND PAGE_PRESENT = 0"
  "PAGE_PRESENT AND PAGE_USER = 0" "PAGE_WRITABLE AND PAGE_USER = 0" "PAGE_PRESENT AND PAGE_WRITABLE = 0" "PAGE_USER AND PAGE_WRITABLE = 0"
  "PAGE_MAP_FLAGS AND PAGE_USER = PAGE_USER" "PAGE_MAP_FLAGS AND PAGE_WRITABLE = PAGE_WRITABLE"
  by (simp_all add: machine_consts)

lemma frame_no_flags [simp]:
  "(a AND PAGE_FRAME) AND PAGE_PRESENT = 0" "(a AND PAGE_FRAME) AND PAGE_USER = 0" "(a AND PAGE_FRAME) AND PAGE_WRITABLE = 0"
  by (simp_all add: and.assoc and.commute [of PAGE_FRAME])

lemma map_flags_frame [simp]: "(fl AND PAGE_MAP_FLAGS) AND PAGE_FRAME = 0" "(fl AND PAGE_MAP_FLAGS) AND PAGE_PRESENT = 0"
  by (simp_all add: and.assoc)

lemma map_flags_rights [simp]:
  "(fl AND PAGE_MAP_FLAGS) AND PAGE_USER = fl AND PAGE_USER" "(fl AND PAGE_MAP_FLAGS) AND PAGE_WRITABLE = fl AND PAGE_WRITABLE"
  by (simp_all add: and.assoc)

lemma or_and: "((a :: u32) OR b) AND m = (a AND m) OR (b AND m)"
  by (rule bit.conj_disj_distrib2)

lemma or_zero: "(a :: u32) OR b = 0 \<longleftrightarrow> a = 0 \<and> b = 0"
  by (simp add: word_zero_bits bit_or_iff) blast

section \<open>Frames\<close>

lemma take_frame_cases:
  obtains (full) "take_frame s = (0, s)" "pmm_free_frames (frames s) = {}"
  | (frame) a f where "take_frame s = (a, s\<lparr>frames := f\<rparr>)" "a \<noteq> 0" "unat a mod 4096 = 0" "a \<in> pmm_free_frames (frames s)"
      "pmm_free_frames f = pmm_free_frames (frames s) - {a}"
proof -
  obtain a f where al: "pmm_allocate_frame (frames s) = (a, f)" by fastforce
  show thesis
  proof (cases "a = 0")
    case True
    then have "f = frames s \<and> pmm_free_frames (frames s) = {}" using pmm.alloc_zero al by blast
    moreover have "s\<lparr>frames := frames s\<rparr> = s" by simp
    ultimately show ?thesis using full al True by (simp add: take_frame_def)
  next
    case False
    then show ?thesis using frame al pmm.alloc_frame [OF al False] pmm.alloc_valid [OF al False] by (simp add: take_frame_def)
  qed
qed

lemma frames_update [simp]:
  "current_directory (s\<lparr>frames := f\<rparr>) = current_directory s" "pde (s\<lparr>frames := f\<rparr>) i = pde s i"
  "page_entry (s\<lparr>frames := f\<rparr>) i j = page_entry s i j" "table_of (s\<lparr>frames := f\<rparr>) i = table_of s i"
  "recursive_ok (s\<lparr>frames := f\<rparr>) = recursive_ok s"
  by (simp_all add: current_directory_def pde_def page_entry_def table_of_def recursive_ok_def)

lemma give_frame_simps [simp]:
  "current_directory (give_frame a s) = current_directory s" "pde (give_frame a s) i = pde s i"
  "page_entry (give_frame a s) i j = page_entry s i j" "table_of (give_frame a s) i = table_of s i"
  "recursive_ok (give_frame a s) = recursive_ok s" "physical_memory (give_frame a s) = physical_memory s"
  "directory_register (give_frame a s) = directory_register s" "kernel_directory (give_frame a s) = kernel_directory s"
  by (simp_all add: give_frame_def)

text \<open>What an operation on the current address space leaves alone: the registers, and the memory of frames
  that are in use for something else than its tables.\<close>

definition paging_same :: "paging_state \<Rightarrow> paging_state \<Rightarrow> bool" where
  "paging_same s s' \<longleftrightarrow> directory_register s' = directory_register s \<and> kernel_directory s' = kernel_directory s \<and>
     (\<forall>n. unat n < 1023 \<and> present (pde s' n) \<longrightarrow> table_of s' n \<in> pmm_free_frames (frames s) \<or>
        present (pde s n) \<and> table_of s' n = table_of s n) \<and>
     (\<forall>f j. unat f mod 4096 = 0 \<and> unat j < 1024 \<and> f \<notin> pmm_free_frames (frames s) \<and> f \<noteq> current_directory s \<and>
        (\<forall>i. unat i < 1023 \<and> present (pde s i) \<longrightarrow> f \<noteq> table_of s i) \<longrightarrow>
        physical_memory s' (f + j * 4) = physical_memory s (f + j * 4))"

lemma paging_same_directory: "paging_same s s' \<Longrightarrow> current_directory s' = current_directory s"
  by (simp add: paging_same_def current_directory_def)

lemma paging_okD:
  assumes "paging_ok s"
  shows "recursive_ok s" "current_directory s \<notin> pmm_free_frames (frames s)"
    "unat i < 1023 \<Longrightarrow> present (pde s i) \<Longrightarrow> table_of s i \<noteq> current_directory s"
    "unat i < 1023 \<Longrightarrow> present (pde s i) \<Longrightarrow> table_of s i \<notin> pmm_free_frames (frames s)"
    "unat i < 1023 \<Longrightarrow> unat j < 1023 \<Longrightarrow> i \<noteq> j \<Longrightarrow> present (pde s i) \<Longrightarrow> present (pde s j) \<Longrightarrow> table_of s i \<noteq> table_of s j"
  using assms unfolding paging_ok_def by blast+

lemma paging_ok_cong:
  assumes "paging_ok s" "recursive_ok s'" "current_directory s' = current_directory s"
    and "pmm_free_frames (frames s') \<subseteq> pmm_free_frames (frames s)"
    and "\<And>n. unat n < 1023 \<Longrightarrow> present (pde s' n) = present (pde s n) \<and> table_of s' n = table_of s n"
  shows "paging_ok s'"
  unfolding paging_ok_def
proof (intro conjI allI impI)
  fix i j assume "unat i < 1023 \<and> unat j < 1023 \<and> i \<noteq> j \<and> present (pde s' i) \<and> present (pde s' j)"
  then show "table_of s' i \<noteq> table_of s' j" using paging_okD(5) [OF assms(1), of i j] assms(5) by metis
next
  fix i assume i: "unat i < 1023 \<and> present (pde s' i)"
  show "table_of s' i \<noteq> current_directory s'" using i paging_okD(3) [OF assms(1), of i] assms(3,5) by metis
  show "table_of s' i \<notin> pmm_free_frames (frames s')" using i paging_okD(4) [OF assms(1), of i] assms(4,5) by (metis subsetD)
qed (use assms paging_okD(2) [OF assms(1)] in auto)

definition table_rights :: "u32 \<Rightarrow> u32" where
  "table_rights flags = (if flags AND PAGE_USER \<noteq> 0 then PAGE_WRITABLE OR PAGE_USER else PAGE_WRITABLE)"

lemma table_rights_bits [simp]:
  "table_rights fl AND PAGE_FRAME = 0" "table_rights fl AND PAGE_PRESENT = 0" "table_rights fl AND PAGE_WRITABLE = PAGE_WRITABLE"
  "table_rights fl AND PAGE_USER = (if fl AND PAGE_USER \<noteq> 0 then PAGE_USER else 0)"
  by (simp_all add: table_rights_def or_and)

text \<open>The directory entry gets wider rights; no table entry changes.\<close>

lemma map_page_table_effect:
  assumes ok: "paging_ok s" and i: "unat i < 1023"
  shows "\<exists>b s'. map_page_table i fl s = Some (b, s') \<and> paging_ok s' \<and> paging_same s s' \<and>
    pmm_free_frames (frames s') \<subseteq> pmm_free_frames (frames s) \<and>
    (\<forall>k j. unat k < 1023 \<and> unat j < 1024 \<longrightarrow> page_entry s' k j = page_entry s k j) \<and>
    (\<forall>k. unat k < 1024 \<and> k \<noteq> i \<longrightarrow> pde s' k = pde s k) \<and>
    (if b then \<exists>f. pde s' i = f OR PAGE_PRESENT OR table_rights fl \<and> f AND PAGE_USER = (if present (pde s i) then pde s i AND PAGE_USER else 0)
     else s' = s \<and> \<not> present (pde s i) \<and> pmm_free_frames (frames s) = {})"
proof -
  note k = paging_okD [OF ok]
  have i': "unat i < 1024" using i by simp
  have read: "read_word (recursive_page_directory + i * 4) s = Some (pde s i)" by (rule read_pde [OF k(1) i'])
  show ?thesis
  proof (cases "present (pde s i)")
    case True
    let ?e = "pde s i OR table_rights fl"
    let ?s = "store (current_directory s + i * 4) ?e s"
    have run: "map_page_table i fl s = Some (True, ?s)"
      using True write_pde [OF k(1) i'] by (simp add: map_page_table_def read present_def table_rights_def or.assoc or.commute [of PAGE_USER])
    have pd: "pde ?s n = (if n = i then ?e else pde s n)" if "unat n < 1024" for n by (rule pde_store_pde [OF i' that])
    have tb: "table_of ?s n = table_of s n" if "unat n < 1024" for n using pd [OF that] by (simp add: table_of_def or_and)
    have pr: "present (pde ?s n) = present (pde s n)" if "unat n < 1024" for n
      using pd [OF that] True by (simp add: present_def or_and or_zero)
    have ni: "i \<noteq> 1023" using i by auto
    have "recursive_ok ?s" using k(1) ni by (simp add: recursive_ok_def pr tb)
    moreover have "present (pde ?s n) = present (pde s n) \<and> table_of ?s n = table_of s n" if "unat n < 1023" for n
      using that by (intro conjI pr tb) simp_all
    ultimately have "paging_ok ?s" by (intro paging_ok_cong [OF ok]) simp_all
    moreover have "page_entry ?s n j = page_entry s n j" if "unat n < 1023" "unat j < 1024" for n j
    proof (cases "present (pde s n)")
      case True
      then have "table_of s n + j * 4 \<noteq> current_directory s + i * 4"
        using slot_eq [of "table_of s n" "current_directory s" j i] k(3) [OF that(1)] that(2) i' by auto
      then show ?thesis using that by (simp add: page_entry_def pr tb)
    qed (use that in \<open>simp add: page_entry_def pr\<close>)
    moreover have "paging_same s ?s"
      unfolding paging_same_def using slot_eq [of _ "current_directory s" _ i] i' pr tb by auto
    moreover have "?e = pde s i OR PAGE_PRESENT OR table_rights fl"
    proof -
      have "pde s i OR PAGE_PRESENT = pde s i"
        using True unfolding present_def PAGE_PRESENT_def by (intro bit_word_eqI) (auto simp: bit_simps word_zero_bits bit_1_iff)
      then show ?thesis by (metis or.assoc)
    qed
    ultimately show ?thesis
      using run True pd i' by (intro exI [of _ True] exI [of _ ?s]) (auto intro!: exI [of _ "pde s i"])
  next
    case False
    show ?thesis
    proof (cases rule: take_frame_cases [of s])
      case full
      then have "map_page_table i fl s = Some (False, s)" using False by (simp add: map_page_table_def read present_def)
      then show ?thesis using ok full False by (auto simp: paging_same_def)
    next
      case (frame a f)
      let ?s0 = "s\<lparr>frames := f\<rparr>"
      let ?e = "a OR PAGE_PRESENT OR table_rights fl"
      let ?s1 = "store (current_directory s + i * 4) ?e ?s0"
      have af: "a AND PAGE_FRAME = a" by (rule frame_of_aligned [OF frame(3)])
      have aD: "a \<noteq> current_directory s" using frame(4) k(2) by auto
      have w1: "write_word (recursive_page_directory + i * 4) ?e ?s0 = Some ?s1"
        using write_pde [of ?s0 i ?e] k(1) i' by simp
      have pd1: "pde ?s1 n = (if n = i then ?e else pde s n)" if "unat n < 1024" for n
        using pde_store_pde [of i n ?s0 ?e] i' that by simp
      have ni: "i \<noteq> 1023" using i by auto
      have r1: "recursive_ok ?s1" using k(1) ni by (simp add: recursive_ok_def table_of_def pd1)
      have t1: "table_of ?s1 i = a" using af i' by (simp add: table_of_def pd1 or_and)
      have p1: "present (pde ?s1 i)" using i' by (simp add: pd1 present_def or_and or_zero)
      from clear_table [OF r1 i' p1, of 1024] obtain s2 where s2: "clear_words (recursive_page_table i) 1024 ?s1 = Some s2"
          "s2 = ?s1\<lparr>physical_memory := physical_memory s2\<rparr>"
          "\<And>x. physical_memory s2 x = (if \<exists>j < 1024. x = a + of_nat j * 4 then 0 else physical_memory ?s1 x)"
        using aD t1 by auto
      have regs: "frames s2 = f" "directory_register s2 = directory_register s" "kernel_directory s2 = kernel_directory s"
        by (subst s2(2), simp)+
      then have d2: "current_directory s2 = current_directory s" by (simp add: current_directory_def)
      have nu: "unat (of_nat m :: u32) < 1024" if "m < 1024" for m using that by (simp add: u32_of_nat_unat)
      have m2: "physical_memory s2 (g + j * 4) = (if g = a then 0 else physical_memory ?s1 (g + j * 4))"
        if "unat g mod 4096 = 0" "unat j < 1024" for g j
      proof -
        have "(\<exists>n < 1024. g + j * 4 = a + of_nat n * 4) \<longleftrightarrow> g = a"
        proof
          assume "\<exists>n < 1024. g + j * 4 = a + of_nat n * 4"
          then show "g = a" using slot_eq [OF that(1) frame(3) that(2) nu] by auto
        next
          assume "g = a"
          then show "\<exists>n < 1024. g + j * 4 = a + of_nat n * 4" using that(2) by (intro exI [of _ "unat j"]) simp
        qed
        then show ?thesis by (simp add: s2(3))
      qed
      have pd2: "pde s2 n = (if n = i then ?e else pde s n)" if "unat n < 1024" for n
        using m2 [of "current_directory s" n] aD that pd1 [OF that] by (simp add: pde_def d2)
      have pr2: "present (pde s2 n) = (n = i \<or> present (pde s n))" if "unat n < 1024" for n
        using pd2 [OF that] by (simp add: present_def or_and or_zero)
      have t2: "table_of s2 n = (if n = i then a else table_of s n)" if "unat n < 1024" for n
        using pd2 [OF that] af by (simp add: table_of_def or_and)
      have run: "map_page_table i fl s = Some (True, s2)"
        using False w1 s2(1) frame(1,2) af
        by (simp add: map_page_table_def read present_def table_rights_def or.assoc split: if_splits)
      have "recursive_ok s2" using k(1) ni by (simp add: recursive_ok_def pr2 t2 d2)
      moreover have "table_of s2 n \<noteq> table_of s2 m" if "unat n < 1023" "unat m < 1023" "n \<noteq> m" "present (pde s2 n)" "present (pde s2 m)" for n m
      proof -
        have "unat n < 1024" "unat m < 1024" using that by simp_all
        then show ?thesis using that k(4) [of n] k(4) [of m] k(5) [of n m] frame(4) by (auto simp: pr2 t2)
      qed
      moreover have "table_of s2 n \<noteq> current_directory s \<and> table_of s2 n \<notin> pmm_free_frames f" if "unat n < 1023" "present (pde s2 n)" for n
      proof -
        have "unat n < 1024" using that by simp
        then show ?thesis using that k(3) [of n] k(4) [of n] frame(4,5) aD by (auto simp: pr2 t2)
      qed
      ultimately have ok2: "paging_ok s2" using k(2) frame(5) unfolding paging_ok_def regs d2 by blast
      have "page_entry s2 n j = page_entry s n j" if "unat n < 1023" "unat j < 1024" for n j
      proof -
        have n: "unat n < 1024" using that by simp
        show ?thesis
        proof (cases "n = i")
          case True
          then show ?thesis using False m2 [of a j] frame(3) that(2) n by (simp add: page_entry_def pr2 t2)
        next
          case ni: False
          show ?thesis
          proof (cases "present (pde s n)")
            case True
            then have "table_of s n \<noteq> a" "table_of s n \<noteq> current_directory s" using k(3,4) that(1) frame(4) by metis+
            then show ?thesis
              using ni True m2 [of "table_of s n" j] slot_eq [of "table_of s n" "current_directory s" j i] that(2) i' n
              by (simp add: page_entry_def pr2 t2)
          qed (use ni n in \<open>simp add: page_entry_def pr2\<close>)
        qed
      qed
      moreover have "paging_same s s2"
        unfolding paging_same_def regs
      proof (intro conjI refl allI impI; elim conjE)
        fix n assume "unat n < 1023" "present (pde s2 n)"
        then show "table_of s2 n \<in> pmm_free_frames (frames s) \<or> present (pde s n) \<and> table_of s2 n = table_of s n"
          using frame(4) by (auto simp: pr2 t2)
      next
        fix g j :: u32
        assume g: "unat g mod 4096 = 0" "unat j < 1024" "g \<notin> pmm_free_frames (frames s)" "g \<noteq> current_directory s"
        then have "g \<noteq> a" using frame(4) by auto
        then show "physical_memory s2 (g + j * 4) = physical_memory s (g + j * 4)"
          using m2 [OF g(1,2)] slot_eq [of g "current_directory s" j i] g i' by simp
      qed
      moreover have "a AND PAGE_USER = 0"
        using frame_no_flags(2) [of a] unfolding af .
      ultimately show ?thesis
        using run ok2 regs frame(5) False pd2 i' by (intro exI [of _ True] exI [of _ s2]) (auto intro!: exI [of _ a])
    qed
  qed
qed

section \<open>Mapping and unmapping a page\<close>

lemma paging_same_tables: "paging_same s s' \<Longrightarrow> unat n < 1023 \<Longrightarrow> present (pde s' n) \<Longrightarrow>
    table_of s' n \<in> pmm_free_frames (frames s) \<or> present (pde s n) \<and> table_of s' n = table_of s n"
  unfolding paging_same_def by blast

lemma paging_same_memory: "paging_same s s' \<Longrightarrow> unat f mod 4096 = 0 \<Longrightarrow> unat j < 1024 \<Longrightarrow> f \<notin> pmm_free_frames (frames s) \<Longrightarrow>
    f \<noteq> current_directory s \<Longrightarrow> (\<And>i. unat i < 1023 \<Longrightarrow> present (pde s i) \<Longrightarrow> f \<noteq> table_of s i) \<Longrightarrow>
    physical_memory s' (f + j * 4) = physical_memory s (f + j * 4)"
  by (auto simp: paging_same_def)

lemma paging_same_trans:
  assumes a: "paging_same s s1" and b: "paging_same s1 s2" and sub: "pmm_free_frames (frames s1) \<subseteq> pmm_free_frames (frames s)"
  shows "paging_same s s2"
  unfolding paging_same_def
proof (intro conjI allI impI; (elim conjE)?)
  fix f j :: u32
  assume f: "unat f mod 4096 = 0" "unat j < 1024" "f \<notin> pmm_free_frames (frames s)" "f \<noteq> current_directory s"
    "\<forall>i. unat i < 1023 \<and> present (pde s i) \<longrightarrow> f \<noteq> table_of s i"
  have "f \<noteq> table_of s1 n" if "unat n < 1023" "present (pde s1 n)" for n
    using paging_same_tables [OF a that] f(3,5) that(1) by metis
  then have "physical_memory s2 (f + j * 4) = physical_memory s1 (f + j * 4)"
    using f sub paging_same_directory [OF a] by (intro paging_same_memory [OF b]) auto
  then show "physical_memory s2 (f + j * 4) = physical_memory s (f + j * 4)"
    using paging_same_memory [OF a f(1,2)] f by metis
next
  fix n assume n: "unat n < 1023" "present (pde s2 n)"
  then show "table_of s2 n \<in> pmm_free_frames (frames s) \<or> present (pde s n) \<and> table_of s2 n = table_of s n"
    using paging_same_tables [OF b n] paging_same_tables [OF a n(1)] sub by auto
qed (use a b in \<open>simp_all add: paging_same_def\<close>)

text \<open>Writing one entry of a table.\<close>

lemma store_entry:
  assumes ok: "paging_ok s" and i: "unat i < 1023" "present (pde s i)" and j: "unat j < 1024"
  shows "paging_ok (store (table_of s i + j * 4) w s)" "paging_same s (store (table_of s i + j * 4) w s)"
    "unat k < 1024 \<Longrightarrow> pde (store (table_of s i + j * 4) w s) k = pde s k"
    "unat k < 1023 \<Longrightarrow> unat l < 1024 \<Longrightarrow>
      page_entry (store (table_of s i + j * 4) w s) k l = (if k = i \<and> l = j then w else page_entry s k l)"
proof -
  note k = paging_okD [OF ok]
  let ?s = "store (table_of s i + j * 4) w s"
  have pd: "pde ?s n = pde s n" if "unat n < 1024" for n
    by (rule pde_store_table) (use k(3) [OF i] j that in simp_all)
  then show "unat k < 1024 \<Longrightarrow> pde ?s k = pde s k" .
  have tb: "table_of ?s n = table_of s n" if "unat n < 1024" for n using pd [OF that] by (simp add: table_of_def)
  have "recursive_ok ?s" using k(1) by (simp add: recursive_ok_def pd tb)
  then show "paging_ok ?s" by (rule paging_ok_cong [OF ok]) (simp_all add: pd tb)
  show "paging_same s ?s"
    unfolding paging_same_def using slot_eq [of _ "table_of s i" _ j] i j pd tb by auto
  assume kl: "unat k < 1023" "unat l < 1024"
  show "page_entry ?s k l = (if k = i \<and> l = j then w else page_entry s k l)"
    using slot_eq [of "table_of s k" "table_of s i" l j] kl j i k(5) [of k i] by (auto simp: page_entry_def pd tb)
qed

definition mapped_entry :: "u32 \<Rightarrow> u32 \<Rightarrow> u32" where
  "mapped_entry pa fl = (pa AND PAGE_FRAME) OR PAGE_PRESENT OR (fl AND PAGE_MAP_FLAGS)"

lemma index_1023: "a \<noteq> RECURSIVE_DIRECTORY_INDEX \<Longrightarrow> unat a < 1024 \<Longrightarrow> unat a < 1023"
proof -
  assume "a \<noteq> RECURSIVE_DIRECTORY_INDEX" and b: "unat a < 1024"
  then have "unat a \<noteq> 1023" by (auto simp: RECURSIVE_DIRECTORY_INDEX_def u32_eq_iff)
  then show ?thesis using b by simp
qed

lemma mapped_entry_bits [simp]:
  "present (mapped_entry pa fl)" "mapped_entry pa fl AND PAGE_FRAME = pa AND PAGE_FRAME"
  "mapped_entry pa fl AND PAGE_USER = fl AND PAGE_USER" "mapped_entry pa fl AND PAGE_WRITABLE = fl AND PAGE_WRITABLE"
  by (simp_all add: mapped_entry_def present_def or_and or_zero)

text \<open>Why a mapping can be refused.\<close>

definition map_refused :: "u32 \<Rightarrow> u32 \<Rightarrow> paging_state \<Rightarrow> bool" where
  "map_refused va pa s \<longleftrightarrow> \<not> is_page_aligned va \<or> \<not> is_page_aligned pa \<or> page_directory_index va = RECURSIVE_DIRECTORY_INDEX \<or>
     present (page_entry s (page_directory_index va) (page_table_index va)) \<or>
     \<not> present (pde s (page_directory_index va)) \<and> pmm_free_frames (frames s) = {}"

lemma paging_map_page_effect:
  assumes ok: "paging_ok s"
  shows "\<exists>b s'. paging_map_page va pa fl s = Some (b, s') \<and> paging_ok s' \<and> paging_same s s' \<and>
    pmm_free_frames (frames s') \<subseteq> pmm_free_frames (frames s) \<and> b = (\<not> map_refused va pa s) \<and>
    (\<forall>k l. unat k < 1023 \<and> unat l < 1024 \<longrightarrow> page_entry s' k l =
       (if b \<and> k = page_directory_index va \<and> l = page_table_index va then mapped_entry pa fl else page_entry s k l)) \<and>
    (\<forall>k. unat k < 1024 \<and> k \<noteq> page_directory_index va \<longrightarrow> pde s' k = pde s k) \<and>
    (b \<longrightarrow> (\<exists>f. pde s' (page_directory_index va) = f OR PAGE_PRESENT OR table_rights fl \<and>
       f AND PAGE_USER = (if present (pde s (page_directory_index va)) then pde s (page_directory_index va) AND PAGE_USER else 0)))"
proof -
  let ?i = "page_directory_index va" and ?j = "page_table_index va"
  consider "\<not> is_page_aligned va \<or> \<not> is_page_aligned pa \<or> ?i = RECURSIVE_DIRECTORY_INDEX"
    | "is_page_aligned va" "is_page_aligned pa" "?i \<noteq> RECURSIVE_DIRECTORY_INDEX" by blast
  then show ?thesis
  proof cases
    case 1
    then have "paging_map_page va pa fl s = Some (False, s)" "map_refused va pa s"
      by (auto simp: paging_map_page_def map_refused_def Let_def)
    then show ?thesis using ok by (auto simp: paging_same_def)
  next
    case 2
    have i: "unat ?i < 1023" by (rule index_1023 [OF 2(3)]) simp
    from map_page_table_effect [OF ok i, of fl] obtain b s1 where
        s1: "map_page_table ?i fl s = Some (b, s1)" "paging_ok s1" "paging_same s s1"
          "pmm_free_frames (frames s1) \<subseteq> pmm_free_frames (frames s)"
          "\<And>k j. unat k < 1023 \<Longrightarrow> unat j < 1024 \<Longrightarrow> page_entry s1 k j = page_entry s k j"
          "\<And>k. unat k < 1024 \<Longrightarrow> k \<noteq> ?i \<Longrightarrow> pde s1 k = pde s k"
        and b: "if b then \<exists>f. pde s1 ?i = f OR PAGE_PRESENT OR table_rights fl \<and> f AND PAGE_USER = (if present (pde s ?i) then pde s ?i AND PAGE_USER else 0)
          else s1 = s \<and> \<not> present (pde s ?i) \<and> pmm_free_frames (frames s) = {}"
      by blast
    show ?thesis
    proof (cases b)
      case False
      then have "paging_map_page va pa fl s = Some (False, s)" "map_refused va pa s"
        using 2 s1(1) b by (simp_all add: paging_map_page_def map_refused_def)
      then show ?thesis using ok by (auto simp: paging_same_def)
    next
      case True
      then have p: "present (pde s1 ?i)" using b by (auto simp: present_def or_and or_zero)
      have j: "unat ?j < 1024" by simp
      have i': "unat ?i < 1024" by simp
      have rd: "read_word (recursive_page_table ?i + ?j * 4) s1 = Some (page_entry s ?i ?j)"
        using read_pte [OF paging_okD(1) [OF s1(2)] i' j p] s1(5) [OF i j] by simp
      show ?thesis
      proof (cases "present (page_entry s ?i ?j)")
        case True
        then have "paging_map_page va pa fl s = Some (False, s1)" "map_refused va pa s"
          using 2 s1(1) rd \<open>b\<close> by (simp_all add: paging_map_page_def map_refused_def present_def)
        then show ?thesis using s1 by auto
      next
        case False
        let ?s = "store (table_of s1 ?i + ?j * 4) (mapped_entry pa fl) s1"
        note e = store_entry [OF s1(2) i p j, where w = "mapped_entry pa fl"]
        have w: "write_word (recursive_page_table ?i + ?j * 4) (mapped_entry pa fl) s1 = Some ?s"
          by (rule write_pte [OF paging_okD(1) [OF s1(2)] i' j p])
        have run: "paging_map_page va pa fl s = Some (True, ?s)"
          using 2 s1(1) rd w False \<open>b\<close> by (simp add: paging_map_page_def present_def mapped_entry_def)
        have nr: "\<not> map_refused va pa s"
        proof
          assume "map_refused va pa s"
          then have "\<not> present (pde s ?i)" "pmm_free_frames (frames s) = {}" using 2 False by (auto simp: map_refused_def)
          then show False using s1(3,4) p i paging_same_tables [OF s1(3) i p] by simp
        qed
        have "paging_same s ?s" by (rule paging_same_trans [OF s1(3) e(2) s1(4)])
        moreover have "\<exists>f. pde ?s ?i = f OR PAGE_PRESENT OR table_rights fl \<and> f AND PAGE_USER = (if present (pde s ?i) then pde s ?i AND PAGE_USER else 0)"
          using b \<open>b\<close> e(3) [OF i'] by auto
        ultimately show ?thesis
          using run nr e(1,3,4) s1(4-6) by (intro exI [of _ True] exI [of _ ?s]) auto
      qed
    qed
  qed
qed

lemma paging_unmap_page_effect:
  assumes ok: "paging_ok s"
  shows "\<exists>b s' s1. paging_unmap_page va rel s = Some (b, s') \<and> paging_ok s1 \<and> paging_same s s1 \<and> frames s1 = frames s \<and>
    b = (is_page_aligned va \<and> page_directory_index va \<noteq> RECURSIVE_DIRECTORY_INDEX \<and>
         present (page_entry s (page_directory_index va) (page_table_index va))) \<and>
    s' = (if b \<and> rel then give_frame (page_entry s (page_directory_index va) (page_table_index va) AND PAGE_FRAME) s1 else s1) \<and>
    (\<forall>k l. unat k < 1023 \<and> unat l < 1024 \<longrightarrow> page_entry s1 k l =
       (if b \<and> k = page_directory_index va \<and> l = page_table_index va then 0 else page_entry s k l)) \<and>
    (\<forall>k. unat k < 1024 \<longrightarrow> pde s1 k = pde s k)"
proof -
  let ?i = "page_directory_index va" and ?j = "page_table_index va"
  have same: "paging_same s s" by (simp add: paging_same_def)
  show ?thesis
  proof (cases "is_page_aligned va \<and> ?i \<noteq> RECURSIVE_DIRECTORY_INDEX")
    case False
    then have "paging_unmap_page va rel s = Some (False, s)" by (auto simp: paging_unmap_page_def Let_def)
    then show ?thesis using ok same False by auto
  next
    case True
    have i: "unat ?i < 1023" by (rule index_1023) (use True in simp_all)
    have i': "unat ?i < 1024" and j: "unat ?j < 1024" by simp_all
    note r = paging_okD(1) [OF ok]
    have rd: "read_word (recursive_page_directory + ?i * 4) s = Some (pde s ?i)" by (rule read_pde [OF r i'])
    show ?thesis
    proof (cases "present (page_entry s ?i ?j)")
      case False
      have "paging_unmap_page va rel s = Some (False, s)"
        using True False rd read_pte [OF r i' j] by (cases "present (pde s ?i)") (simp_all add: paging_unmap_page_def present_def)
      then show ?thesis using ok same False by auto
    next
      case pe: True
      then have p: "present (pde s ?i)" by (auto simp: page_entry_def split: if_splits)
      note e = store_entry [OF ok i p j, where w = 0]
      have "paging_unmap_page va rel s = Some (True, if rel then give_frame (page_entry s ?i ?j AND PAGE_FRAME) (store (table_of s ?i + ?j * 4) 0 s)
          else store (table_of s ?i + ?j * 4) 0 s)"
        using True pe p rd read_pte [OF r i' j p] write_pte [OF r i' j p] by (simp add: paging_unmap_page_def present_def Let_def)
      then show ?thesis
        using e pe True
        by (intro exI [of _ True] exI [of _ "if rel then give_frame (page_entry s ?i ?j AND PAGE_FRAME) (store (table_of s ?i + ?j * 4) 0 s)
            else store (table_of s ?i + ?j * 4) 0 s"] exI [of _ "store (table_of s ?i + ?j * 4) 0 s"]) simp
    qed
  qed
qed

lemma walk_entry:
  assumes "recursive_ok s"
  shows "walk va s = Some (if present (page_entry s (page_directory_index va) (page_table_index va))
    then Some (pde s (page_directory_index va), page_entry s (page_directory_index va) (page_table_index va)) else None)"
  using read_pde [OF assms, of "page_directory_index va"] read_pte [OF assms, of "page_directory_index va" "page_table_index va"]
  by (cases "present (pde s (page_directory_index va))") (auto simp: walk_def present_def page_entry_def)

end
