(* ===== verification/Usercopy.thy ===== *)
theory Usercopy
  imports PageTables
begin

text \<open>
  Copies between the kernel and user memory (\<open>kernel/memory/usercopy.c\<close>). The bytes of the current
  address space are a function from virtual addresses; the permissions are those of the page tables.
\<close>

section \<open>The code\<close>

text \<open>The endless loop of \<open>user_range_accessible\<close>.\<close>

partial_function (option) user_range_loop :: "u32 \<Rightarrow> u32 \<Rightarrow> bool \<Rightarrow> paging_state \<Rightarrow> bool option" where
  "user_range_loop page last_page writable s =
     do {
       r \<leftarrow> paging_get_effective_flags page s;
       case r of
         None \<Rightarrow> Some False
       | Some flags \<Rightarrow>
           if flags AND PAGE_USER = 0 then Some False
           else if writable \<and> flags AND PAGE_WRITABLE = 0 then Some False
           else if page = last_page then Some True
           else if page > SIZE_MAX - PAGE_SIZE then Some False
           else user_range_loop (page + PAGE_SIZE) last_page writable s
     }"

definition user_range_accessible :: "u32 \<Rightarrow> u32 \<Rightarrow> bool \<Rightarrow> paging_state \<Rightarrow> bool option" where
  "user_range_accessible address len writable s =
     (if len = 0 then Some True
      else if address > SIZE_MAX - (len - 1) then Some False
      else
        let last = address + len - 1;
            page = address AND NOT (PAGE_SIZE - 1);
            last_page = last AND NOT (PAGE_SIZE - 1)
        in user_range_loop page last_page writable s)"

type_synonym bytes_at = "u32 \<Rightarrow> u8"

primrec memcpy :: "u32 \<Rightarrow> u32 \<Rightarrow> nat \<Rightarrow> bytes_at \<Rightarrow> bytes_at" where
  "memcpy dst src 0 m = m"
| "memcpy dst src (Suc n) m = (memcpy dst src n m)(dst + of_nat n := memcpy dst src n m (src + of_nat n))"

text \<open>Address 0 is the null pointer.\<close>

definition copy_from_user :: "u32 \<Rightarrow> u32 \<Rightarrow> u32 \<Rightarrow> paging_state \<Rightarrow> bytes_at \<Rightarrow> (bool \<times> bytes_at) option" where
  "copy_from_user kernel_destination user_source len s m =
     (if len = 0 then Some (True, m)
      else if kernel_destination = 0 \<or> user_source = 0 then Some (False, m)
      else do {
        ok \<leftarrow> user_range_accessible user_source len False s;
        Some (if \<not> ok then (False, m) else (True, memcpy kernel_destination user_source (unat len) m))
      })"

definition copy_to_user :: "u32 \<Rightarrow> u32 \<Rightarrow> u32 \<Rightarrow> paging_state \<Rightarrow> bytes_at \<Rightarrow> (bool \<times> bytes_at) option" where
  "copy_to_user user_destination kernel_source len s m =
     (if len = 0 then Some (True, m)
      else if user_destination = 0 \<or> kernel_source = 0 then Some (False, m)
      else do {
        ok \<leftarrow> user_range_accessible user_destination len True s;
        Some (if \<not> ok then (False, m) else (True, memcpy user_destination kernel_source (unat len) m))
      })"

section \<open>What a user program may access\<close>

text \<open>The rights of user mode on the page of an address: both levels present and open to the user, and
  writable at both levels for a write.\<close>

definition user_may :: "bool \<Rightarrow> paging_state \<Rightarrow> u32 \<Rightarrow> bool" where
  "user_may writable s a \<longleftrightarrow>
     (let d = pde s (page_directory_index a); e = page_entry s (page_directory_index a) (page_table_index a)
      in page_directory_index a \<noteq> RECURSIVE_DIRECTORY_INDEX \<and> present e \<and> d AND PAGE_USER \<noteq> 0 \<and> e AND PAGE_USER \<noteq> 0 \<and>
         (writable \<longrightarrow> d AND PAGE_WRITABLE \<noteq> 0 \<and> e AND PAGE_WRITABLE \<noteq> 0))"

lemma effective_flags_bits:
  "effective_flags d e AND PAGE_USER \<noteq> 0 \<longleftrightarrow> d AND PAGE_USER \<noteq> 0 \<and> e AND PAGE_USER \<noteq> 0"
  "effective_flags d e AND PAGE_WRITABLE \<noteq> 0 \<longleftrightarrow> d AND PAGE_WRITABLE \<noteq> 0 \<and> e AND PAGE_WRITABLE \<noteq> 0"
  by (simp_all add: effective_flags_def Let_def or_and)

lemma user_may_page: "unat a div 4096 = unat b div 4096 \<Longrightarrow> user_may w s a = user_may w s b"
  using same_page [of a b] by (simp add: user_may_def)

lemma flags_user_may:
  assumes "recursive_ok s"
  shows "\<exists>r. paging_get_effective_flags a s = Some r \<and>
    (user_may w s a \<longleftrightarrow> (\<exists>f. r = Some f \<and> f AND PAGE_USER \<noteq> 0 \<and> (w \<longrightarrow> f AND PAGE_WRITABLE \<noteq> 0)))"
  using effective_flags_bits
  by (auto simp: paging_get_effective_flags_def walk_entry [OF assms] user_may_def Let_def)

lemma user_range_loop_step:
  assumes "recursive_ok s"
  shows "user_range_loop page last_page w s =
    (if \<not> user_may w s page then Some False else if page = last_page then Some True
     else if page > SIZE_MAX - PAGE_SIZE then Some False else user_range_loop (page + PAGE_SIZE) last_page w s)"
proof -
  obtain r where "paging_get_effective_flags page s = Some r"
    "user_may w s page \<longleftrightarrow> (\<exists>f. r = Some f \<and> f AND PAGE_USER \<noteq> 0 \<and> (w \<longrightarrow> f AND PAGE_WRITABLE \<noteq> 0))"
    using flags_user_may [OF assms, of page w] by blast
  then show ?thesis by (subst user_range_loop.simps) (auto split: option.split)
qed

lemma user_range_loop_result:
  assumes r: "recursive_ok s"
  shows "unat page = 4096 * p \<Longrightarrow> unat last_page = 4096 * (p + n) \<Longrightarrow>
    user_range_loop page last_page w s = Some (\<forall>a. p \<le> unat a div 4096 \<and> unat a div 4096 \<le> p + n \<longrightarrow> user_may w s a)"
proof (induction n arbitrary: page p)
  case 0
  then have "page = last_page" by (simp add: u32_eq_iff)
  moreover have "user_may w s a = user_may w s page" if "unat a div 4096 = p" for a
    by (rule user_may_page) (use 0 that in simp)
  moreover have "unat page div 4096 = p" using 0 by simp
  ultimately have "(\<forall>a. p \<le> unat a div 4096 \<and> unat a div 4096 \<le> p + 0 \<longrightarrow> user_may w s a) = user_may w s page"
    by (metis add_0_right le_antisym order_refl)
  moreover have "user_range_loop page last_page w s = Some (user_may w s page)"
    using \<open>page = last_page\<close> by (subst user_range_loop_step [OF r]) simp
  ultimately show ?case by simp
next
  case (Suc n)
  have ne: "page \<noteq> last_page" using Suc.prems by auto
  have "unat last_page < 4294967296" by simp
  then have up: "unat page + 4096 < 4294967296" using Suc.prems by simp
  have "unat (SIZE_MAX - PAGE_SIZE) = 4294963199" by (simp add: machine_consts)
  then have le: "\<not> page > SIZE_MAX - PAGE_SIZE" using up Suc.prems unfolding word_less_nat_alt by simp
  have nx: "unat (page + PAGE_SIZE) = 4096 * Suc p" using up Suc.prems by (subst unat_add_u32) (simp_all add: PAGE_SIZE_def)
  have here: "user_may w s a = user_may w s page" if "unat a div 4096 = p" for a
    by (rule user_may_page) (use Suc.prems that in simp)
  have "user_range_loop page last_page w s = (if \<not> user_may w s page then Some False
      else Some (\<forall>a. Suc p \<le> unat a div 4096 \<and> unat a div 4096 \<le> Suc p + n \<longrightarrow> user_may w s a))"
    using Suc.IH [OF nx] Suc.prems(2) ne le by (subst user_range_loop_step [OF r]) simp
  moreover have "(\<forall>a. p \<le> unat a div 4096 \<and> unat a div 4096 \<le> p + Suc n \<longrightarrow> user_may w s a) \<longleftrightarrow>
      user_may w s page \<and> (\<forall>a. Suc p \<le> unat a div 4096 \<and> unat a div 4096 \<le> Suc p + n \<longrightarrow> user_may w s a)"
  proof -
    have "unat page div 4096 = p" using Suc.prems by simp
    show ?thesis (is "?L = (_ \<and> ?R)")
    proof (intro iffI conjI)
      assume L: ?L
      then show "user_may w s page" using \<open>unat page div 4096 = p\<close> by (metis le_add1 le_refl)
      show ?R
      proof (intro allI impI)
        fix a :: u32 assume "Suc p \<le> unat a div 4096 \<and> unat a div 4096 \<le> Suc p + n"
        then have "p \<le> unat a div 4096 \<and> unat a div 4096 \<le> p + Suc n" by simp
        then show "user_may w s a" using L by blast
      qed
    next
      assume R: "user_may w s page \<and> ?R"
      show ?L
      proof (intro allI impI)
        fix a :: u32 assume a: "p \<le> unat a div 4096 \<and> unat a div 4096 \<le> p + Suc n"
        show "user_may w s a"
        proof (cases "unat a div 4096 = p")
          case False
          then have "Suc p \<le> unat a div 4096 \<and> unat a div 4096 \<le> Suc p + n" using a by simp
          then show ?thesis using R by blast
        qed (use here R in blast)
      qed
    qed
  qed
  ultimately show ?case by (cases "user_may w s page") (simp_all only: if_True if_False simp_thms)
qed

theorem user_range_exact:
  assumes r: "recursive_ok s"
  shows "user_range_accessible address len w s =
    Some (len = 0 \<or> unat address + unat len \<le> 4294967296 \<and> (\<forall>n < unat len. user_may w s (address + of_nat n)))"
proof (cases "len = 0 \<or> address > SIZE_MAX - (len - 1)")
  case True
  moreover have "\<not> unat address + unat len \<le> 4294967296" if "len \<noteq> 0" "address > SIZE_MAX - (len - 1)"
  proof -
    have "unat len = Suc (unat (len - 1))" using unat_dec_u32 [OF that(1)] .
    moreover have "unat (SIZE_MAX - (len - 1)) = 4294967295 - unat (len - 1)"
      using unat_u32_le [of "len - 1"] by (subst unat_sub_u32) (simp_all add: SIZE_MAX_def)
    ultimately show ?thesis using that(2) unfolding word_less_nat_alt by simp
  qed
  ultimately show ?thesis by (auto simp: user_range_accessible_def)
next
  case False
  then have l0: "len \<noteq> 0" and le: "unat address \<le> unat (SIZE_MAX - (len - 1))" by (simp_all add: word_le_nat_alt not_less)
  have l: "unat len = Suc (unat (len - 1))" by (rule unat_dec_u32 [OF l0])
  have "unat (SIZE_MAX - (len - 1)) = 4294967295 - unat (len - 1)"
    using unat_u32_le [of "len - 1"] by (subst unat_sub_u32) (simp_all add: SIZE_MAX_def)
  then have fits: "unat address + unat len \<le> 4294967296" using le l unat_u32_le [of "len - 1"] by linarith
  have last: "unat (address + len - 1) = unat address + unat len - 1"
  proof -
    have "address + len - 1 = address + (len - 1)" by simp
    then show ?thesis using fits l by (simp only:) (subst unat_add_u32, simp_all)
  qed
  let ?p = "unat address div 4096" and ?q = "(unat address + unat len - 1) div 4096"
  have pq: "?p \<le> ?q" using l by (intro div_le_mono) simp
  have pages: "unat (address AND NOT (PAGE_SIZE - 1)) = 4096 * ?p" "unat ((address + len - 1) AND NOT (PAGE_SIZE - 1)) = 4096 * (?p + (?q - ?p))"
    using pq by (simp_all add: PAGE_SIZE_def and_not_mask_unat last minus_mod_eq_mult_div)
  have "user_range_accessible address len w s = Some (\<forall>a. ?p \<le> unat a div 4096 \<and> unat a div 4096 \<le> ?p + (?q - ?p) \<longrightarrow> user_may w s a)"
    using False user_range_loop_result [OF r pages] by (simp add: user_range_accessible_def Let_def)
  moreover have "(\<forall>a. ?p \<le> unat a div 4096 \<and> unat a div 4096 \<le> ?q \<longrightarrow> user_may w s a) \<longleftrightarrow>
      (\<forall>n < unat len. user_may w s (address + of_nat n))" (is "?L \<longleftrightarrow> ?R")
  proof
    assume ?L
    show ?R
    proof (intro allI impI)
      fix n assume n: "n < unat len"
      have n32: "n < 4294967296" using n unat_u32_bound [of len] by linarith
      then have "unat (address + of_nat n) = unat address + n" using n fits by (subst unat_add_u32) (simp_all add: u32_of_nat_unat)
      moreover have "?p \<le> (unat address + n) div 4096" "(unat address + n) div 4096 \<le> ?q" using n by (auto intro: div_le_mono)
      ultimately show "user_may w s (address + of_nat n)" using \<open>?L\<close> by simp
    qed
  next
    assume ?R
    show ?L
    proof (intro allI impI)
      fix a :: u32 assume a: "?p \<le> unat a div 4096 \<and> unat a div 4096 \<le> ?q"
      let ?b = "max (unat address) (4096 * (unat a div 4096))"
      define n where "n = ?b - unat address"
      have nb: "unat address + n = ?b" unfolding n_def by simp
      have b: "?b div 4096 = unat a div 4096"
      proof (cases "unat address \<le> 4096 * (unat a div 4096)")
        case False
        then have "unat a div 4096 \<le> ?p" by (metis div_le_mono nat_le_linear nonzero_mult_div_cancel_left zero_neq_numeral)
        then show ?thesis using False a by simp
      qed simp
      have "4096 * (unat a div 4096) \<le> 4096 * ?q" using a by simp
      also have "\<dots> \<le> unat address + unat len - 1" by simp
      finally have "?b < unat address + unat len" using l by auto
      then have n: "n < unat len" using nb by linarith
      have n32: "n < 4294967296" using n unat_u32_bound [of len] by linarith
      then have "unat (address + of_nat n) = unat address + n" using n fits by (subst unat_add_u32) (simp_all add: u32_of_nat_unat)
      then have "unat (address + of_nat n) div 4096 = unat a div 4096" using b nb by simp
      then show "user_may w s a" using \<open>?R\<close> n user_may_page by blast
    qed
  qed
  ultimately show ?thesis using l0 fits pq by simp
qed

lemma memcpy_outside: "(\<And>i. i < n \<Longrightarrow> a \<noteq> dst + of_nat i) \<Longrightarrow> memcpy dst src n m a = m a"
  by (induction n) auto

lemma memcpy_inside:
  assumes "n < 4294967296" "\<And>i j. i < n \<Longrightarrow> j < n \<Longrightarrow> dst + of_nat i \<noteq> src + of_nat j" "i < n"
  shows "memcpy dst src n m (dst + of_nat i) = m (src + of_nat i)"
  using assms
proof (induction n)
  case (Suc n)
  have src: "memcpy dst src n m (src + of_nat n) = m (src + of_nat n)"
    by (rule memcpy_outside) (use Suc.prems(2) [THEN not_sym] in auto)
  show ?case
  proof (cases "i = n")
    case False
    have "(of_nat i :: u32) \<noteq> of_nat n"
    proof
      assume "(of_nat i :: u32) = of_nat n"
      then have "unat (of_nat i :: u32) = unat (of_nat n :: u32)" by simp
      then show False using Suc.prems(1,3) False by (simp add: u32_of_nat_unat)
    qed
    then show ?thesis using Suc False by simp
  qed (use src in simp)
qed simp

end
