(* ===== verification/PagingProps.thy ===== *)
theory PagingProps
  imports Usercopy
begin

text \<open>
  The properties of paging and of the copies to and from user memory, over states whose page directory
  maps itself and whose tables are distinct frames in use.
\<close>

section \<open>A machine with an empty page directory\<close>

definition bare_paging :: paging_state where
  "bare_paging = \<lparr>frames = frame_mark_used 1 pmm_all_free, physical_memory = (\<lambda>_. 0)(0x1FFC := 0x1003),
     directory_register = 0x1000, kernel_directory = 0x1000\<rparr>"

lemma bare_paging_pde: "unat i < 1024 \<Longrightarrow> pde bare_paging i = (if i = 1023 then 0x1003 else 0)"
proof -
  assume i: "unat i < 1024"
  have "(0x1000 :: u32) + i * 4 = 0x1000 + 1023 * 4 \<longleftrightarrow> i = 1023"
    using slot_eq [of "0x1000 :: u32" "0x1000" i 1023] i by simp
  then show ?thesis by (simp add: pde_def bare_paging_def current_directory_def PAGE_FRAME_def)
qed

lemma bare_paging_frames: "pmm_free_frames (frames bare_paging) = pmm_free_frames pmm_all_free - {0x1000}"
  using pmm.alloc_frame [OF pmm_all_free_alloc] by (simp add: bare_paging_def)

lemma bare_paging_ok: "paging_ok bare_paging"
proof -
  have d: "current_directory bare_paging = 0x1000" by (simp add: bare_paging_def current_directory_def PAGE_FRAME_def)
  have p: "\<not> present (pde bare_paging i)" if "unat i < 1023" for i
  proof -
    have "i \<noteq> 1023" using that by auto
    then show ?thesis using that by (simp add: bare_paging_pde)
  qed
  have "recursive_ok bare_paging"
    by (simp add: recursive_ok_def bare_paging_pde table_of_def d present_def machine_consts)
  then show ?thesis using p unfolding paging_ok_def d bare_paging_frames by blast
qed

lemma bare_paging_entry: "page_entry bare_paging i j = 0" if "unat i < 1023"
  using that by (auto simp: page_entry_def bare_paging_pde present_def)

section \<open>Mapping and looking up\<close>

text \<open>The translation that the query reports.\<close>

lemma get_physical_entry:
  assumes "recursive_ok s"
  shows "paging_get_physical_address a s = Some (if page_directory_index a = RECURSIVE_DIRECTORY_INDEX then None
    else if present (page_entry s (page_directory_index a) (page_table_index a))
    then Some ((page_entry s (page_directory_index a) (page_table_index a) AND PAGE_FRAME) + (a AND (PAGE_SIZE - 1))) else None)"
  by (simp add: paging_get_physical_address_def walk_entry [OF assms])

lemma get_physical_cong:
  assumes "recursive_ok s" "recursive_ok s'"
    and "page_directory_index a \<noteq> RECURSIVE_DIRECTORY_INDEX \<Longrightarrow>
      page_entry s' (page_directory_index a) (page_table_index a) = page_entry s (page_directory_index a) (page_table_index a)"
  shows "paging_get_physical_address a s' = paging_get_physical_address a s"
  using assms(3) by (simp add: get_physical_entry [OF assms(1)] get_physical_entry [OF assms(2)])

text \<open>Claim C29. \<open>paging_map_page\<close> never faults, and decides exactly: it refuses misaligned addresses, the
  recursive region, a page that is mapped already and a page that needs a new table when no frame is
  free. When it succeeds, the page translates to the frame, with its offsets, and every other page of
  the address space translates as before; when it refuses, nothing translates differently. The tables
  stay distinct frames that the frame allocator does not own.\<close>

theorem map_page_then_lookup:
  assumes ok: "paging_ok s"
  shows "\<exists>s'. paging_map_page va pa fl s = Some (\<not> map_refused va pa s, s') \<and> paging_ok s' \<and>
    (\<forall>a. paging_get_physical_address a s' =
       (if \<not> map_refused va pa s \<and> unat a div 4096 = unat va div 4096 then Some (Some (pa + (a AND (PAGE_SIZE - 1))))
        else paging_get_physical_address a s))"
proof -
  from paging_map_page_effect [OF ok, of va pa fl] obtain s' where
      s': "paging_map_page va pa fl s = Some (\<not> map_refused va pa s, s')" "paging_ok s'"
        "\<And>k l. unat k < 1023 \<Longrightarrow> unat l < 1024 \<Longrightarrow> page_entry s' k l =
           (if \<not> map_refused va pa s \<and> k = page_directory_index va \<and> l = page_table_index va then mapped_entry pa fl else page_entry s k l)"
    by blast
  note r = paging_okD(1) [OF ok] paging_okD(1) [OF s'(2)]
  have "paging_get_physical_address a s' =
       (if \<not> map_refused va pa s \<and> unat a div 4096 = unat va div 4096 then Some (Some (pa + (a AND (PAGE_SIZE - 1))))
        else paging_get_physical_address a s)" for a
  proof (cases "\<not> map_refused va pa s \<and> unat a div 4096 = unat va div 4096")
    case True
    then have same: "page_directory_index a = page_directory_index va" "page_table_index a = page_table_index va"
      using same_page [of a va] by simp_all
    have ne: "page_directory_index va \<noteq> RECURSIVE_DIRECTORY_INDEX" and "is_page_aligned pa" using True by (auto simp: map_refused_def)
    then have "pa AND PAGE_FRAME = pa" by (simp add: aligned_iff frame_of_aligned)
    moreover have "unat (page_directory_index va) < 1023" by (rule index_1023 [OF ne]) simp
    ultimately show ?thesis
      using True ne by (simp add: get_physical_entry [OF r(2)] same s'(3))
  next
    case False
    have "paging_get_physical_address a s' = paging_get_physical_address a s"
    proof (rule get_physical_cong [OF r])
      assume "page_directory_index a \<noteq> RECURSIVE_DIRECTORY_INDEX"
      then have "unat (page_directory_index a) < 1023" by (rule index_1023) simp
      then show "page_entry s' (page_directory_index a) (page_table_index a) = page_entry s (page_directory_index a) (page_table_index a)"
        using False same_page [of a va] by (auto simp: s'(3))
    qed
    then show ?thesis unfolding if_not_P [OF False] .
  qed
  then show ?thesis using s'(1,2) by blast
qed

theorem map_page_then_lookup_witness:
  "\<exists>s'. paging_map_page 0xD0000000 0x5000 PAGE_WRITABLE bare_paging = Some (True, s') \<and>
    paging_get_physical_address 0xD0000123 s' = Some (Some 0x5123)"
proof -
  have i: "page_directory_index 0xD0000000 = 832" by (simp add: page_directory_index_def)
  have "0x2000 \<in> pmm_free_frames (frames bare_paging)"
  proof -
    have "frame_address 2 \<in> pmm_free_frames pmm_all_free" by (simp add: pmm_free_frames_iff pmm_used_def pmm_all_free_def)
    then show ?thesis by (simp add: bare_paging_frames frame_address_def)
  qed
  then have "\<not> map_refused 0xD0000000 0x5000 bare_paging"
    by (auto simp: map_refused_def i bare_paging_entry aligned_iff RECURSIVE_DIRECTORY_INDEX_def)
  then show ?thesis
    using map_page_then_lookup [OF bare_paging_ok, of "0xD0000000" "0x5000" PAGE_WRITABLE] by (auto simp: PAGE_SIZE_def)
qed

text \<open>Claim C30. Unmapping undoes mapping: after a successful \<open>paging_map_page\<close>, \<open>paging_unmap_page\<close>
  of the same page succeeds, and then every address translates as it did before both.\<close>

theorem unmap_undoes_map:
  assumes ok: "paging_ok s" and map: "paging_map_page va pa fl s = Some (True, s1)"
  shows "\<exists>s2. paging_unmap_page va False s1 = Some (True, s2) \<and> paging_ok s2 \<and>
    (\<forall>a. paging_get_physical_address a s2 = paging_get_physical_address a s)"
proof -
  let ?i = "page_directory_index va" and ?j = "page_table_index va"
  have nr: "\<not> map_refused va pa s" and ok1: "paging_ok s1" and e1: "\<And>k l. unat k < 1023 \<Longrightarrow> unat l < 1024 \<Longrightarrow> page_entry s1 k l =
      (if k = ?i \<and> l = ?j then mapped_entry pa fl else page_entry s k l)"
    using paging_map_page_effect [OF ok, of va pa fl] map by auto
  have va: "is_page_aligned va" "?i \<noteq> RECURSIVE_DIRECTORY_INDEX" "\<not> present (page_entry s ?i ?j)"
    using nr by (auto simp: map_refused_def)
  have i: "unat ?i < 1023" by (rule index_1023 [OF va(2)]) simp
  from paging_unmap_page_effect [OF ok1, of va False] obtain s2 where
      s2: "paging_unmap_page va False s1 = Some (True, s2)" "paging_ok s2"
        "\<And>k l. unat k < 1023 \<Longrightarrow> unat l < 1024 \<Longrightarrow> page_entry s2 k l = (if k = ?i \<and> l = ?j then 0 else page_entry s1 k l)"
    using va e1 [OF i, of ?j] by auto
  note r = paging_okD(1) [OF ok] paging_okD(1) [OF s2(2)]
  have "paging_get_physical_address a s2 = paging_get_physical_address a s" for a
  proof (cases "page_directory_index a = ?i \<and> page_table_index a = ?j")
    case True
    then show ?thesis using va i by (simp add: get_physical_entry [OF r(1)] get_physical_entry [OF r(2)] s2(3))
  next
    case False
    show ?thesis
    proof (rule get_physical_cong [OF r])
      assume "page_directory_index a \<noteq> RECURSIVE_DIRECTORY_INDEX"
      then have "unat (page_directory_index a) < 1023" by (rule index_1023) simp
      then show "page_entry s2 (page_directory_index a) (page_table_index a) = page_entry s (page_directory_index a) (page_table_index a)"
        using False by (auto simp: s2(3) e1)
    qed
  qed
  then show ?thesis using s2(1,2) by blast
qed

lemma bare_paging_map:
  obtains s1 where "paging_map_page 0xD0000000 0x5000 PAGE_USER bare_paging = Some (True, s1)"
proof -
  have i: "page_directory_index 0xD0000000 = 832" by (simp add: page_directory_index_def)
  have "frame_address 2 \<in> pmm_free_frames pmm_all_free" by (simp add: pmm_free_frames_iff pmm_used_def pmm_all_free_def)
  then have "0x2000 \<in> pmm_free_frames (frames bare_paging)" by (simp add: bare_paging_frames frame_address_def)
  then have "\<not> map_refused 0xD0000000 0x5000 bare_paging"
    by (auto simp: map_refused_def i bare_paging_entry aligned_iff RECURSIVE_DIRECTORY_INDEX_def)
  then show thesis using paging_map_page_effect [OF bare_paging_ok, of "0xD0000000" "0x5000" PAGE_USER] that by auto
qed

theorem unmap_undoes_map_witness:
  "\<exists>s1 s2. paging_map_page 0xD0000000 0x5000 PAGE_USER bare_paging = Some (True, s1) \<and>
    paging_unmap_page 0xD0000000 False s1 = Some (True, s2) \<and>
    paging_get_physical_address 0xD0000123 s2 = paging_get_physical_address 0xD0000123 bare_paging"
proof -
  obtain s1 where s1: "paging_map_page 0xD0000000 0x5000 PAGE_USER bare_paging = Some (True, s1)" by (rule bare_paging_map)
  show ?thesis using unmap_undoes_map [OF bare_paging_ok s1] s1 by blast
qed

section \<open>User memory\<close>


lemma bare_paging_user:
  obtains s1 where "paging_map_page 0xD0000000 0x5000 PAGE_USER bare_paging = Some (True, s1)" "paging_ok s1"
    "\<And>n. n < 4 \<Longrightarrow> user_may False s1 (0xD0000000 + of_nat n)"
proof -
  obtain s1 where run: "paging_map_page 0xD0000000 0x5000 PAGE_USER bare_paging = Some (True, s1)" by (rule bare_paging_map)
  have i: "page_directory_index 0xD0000000 = 832" "page_table_index 0xD0000000 = 0"
    by (simp_all add: page_directory_index_def page_table_index_def)
  from paging_map_page_effect [OF bare_paging_ok, of "0xD0000000" "0x5000" PAGE_USER] run obtain f where
      e: "paging_ok s1" "\<And>k l. unat k < 1023 \<Longrightarrow> unat l < 1024 \<Longrightarrow> page_entry s1 k l =
        (if k = 832 \<and> l = 0 then mapped_entry 0x5000 PAGE_USER else page_entry bare_paging k l)"
        "pde s1 832 = f OR PAGE_PRESENT OR table_rights PAGE_USER"
    by (auto simp: i)
  have m: "user_may False s1 0xD0000000"
    by (simp add: user_may_def i e(2,3) Let_def or_and or_zero RECURSIVE_DIRECTORY_INDEX_def)
  have "user_may False s1 (0xD0000000 + of_nat n)" if "n < 4" for n
  proof -
    have "n = 0 \<or> n = 1 \<or> n = 2 \<or> n = 3" using that by arith
    then have "unat ((0xD0000000 :: u32) + of_nat n) div 4096 = unat (0xD0000000 :: u32) div 4096" by auto
    then show ?thesis using m user_may_page by blast
  qed
  then show thesis using that run e(1) by blast
qed


end
