(* ===== verification/UserDirectory.thy ===== *)
theory UserDirectory
  imports PagingProps
begin

text \<open>
  Building the page directory of a new address space through the scratch page, and what the two address
  spaces share.
\<close>

section \<open>Memory of a mapped page\<close>

lemma translate_entry:
  "translate s va = (if present (page_entry s (page_directory_index va) (page_table_index va))
    then Some ((page_entry s (page_directory_index va) (page_table_index va) AND PAGE_FRAME) + (va AND (PAGE_SIZE - 1))) else None)"
  by (simp add: translate_def page_entry_def present_def pde_def table_of_def current_directory_def Let_def)

lemma scratch_indices:
  assumes "unat j < 1024"
  shows "page_directory_index (PAGE_DIRECTORY_SCRATCH_ADDRESS + j * 4) = PAGE_DIRECTORY_SCRATCH_INDEX"
    "page_table_index (PAGE_DIRECTORY_SCRATCH_ADDRESS + j * 4) = 0"
    "(PAGE_DIRECTORY_SCRATCH_ADDRESS + j * 4) AND (PAGE_SIZE - 1) = j * 4"
proof -
  have u: "unat (PAGE_DIRECTORY_SCRATCH_ADDRESS + j * 4) = 3758096384 + 4 * unat j"
    using slot_unat [of PAGE_DIRECTORY_SCRATCH_ADDRESS j] assms by (simp add: PAGE_DIRECTORY_SCRATCH_ADDRESS_def)
  have d: "(3758096384 + 4 * unat j) div 4194304 = 896" "(3758096384 + 4 * unat j) div 4096 = 917504" "(3758096384 + 4 * unat j) mod 4096 = 4 * unat j"
  proof -
    have e: "3758096384 + 4 * unat j = 4096 * 917504 + 4 * unat j" by simp
    show "(3758096384 + 4 * unat j) mod 4096 = 4 * unat j" using assms unfolding e mod_mult_self4 by simp
  qed (use assms in auto)
  show "page_directory_index (PAGE_DIRECTORY_SCRATCH_ADDRESS + j * 4) = PAGE_DIRECTORY_SCRATCH_INDEX"
    "page_table_index (PAGE_DIRECTORY_SCRATCH_ADDRESS + j * 4) = 0"
    unfolding u32_eq_iff directory_index_unat table_index_unat u d by (simp_all add: PAGE_DIRECTORY_SCRATCH_INDEX_def)
  have "unat (j * 4) = 4 * unat j" using assms by (subst unat_mult_u32) simp_all
  then show "(PAGE_DIRECTORY_SCRATCH_ADDRESS + j * 4) AND (PAGE_SIZE - 1) = j * 4"
    by (simp add: u32_eq_iff PAGE_SIZE_def and_low_mask_unat u d)
qed

text \<open>A frame that is no table of the current address space.\<close>

definition data_frame :: "paging_state \<Rightarrow> u32 \<Rightarrow> bool" where
  "data_frame s f \<longleftrightarrow> unat f mod 4096 = 0 \<and> f \<noteq> current_directory s \<and>
     (\<forall>i. unat i < 1023 \<and> present (pde s i) \<longrightarrow> table_of s i \<noteq> f)"

lemma store_data:
  assumes ok: "paging_ok s" and f: "data_frame s f" and j: "unat j < 1024"
  shows "paging_ok (store (f + j * 4) w s)" "data_frame (store (f + j * 4) w s) f"
    "unat k < 1024 \<Longrightarrow> pde (store (f + j * 4) w s) k = pde s k"
    "unat k < 1023 \<Longrightarrow> unat l < 1024 \<Longrightarrow> page_entry (store (f + j * 4) w s) k l = page_entry s k l"
proof -
  have f': "unat f mod 4096 = 0" "f \<noteq> current_directory s" "\<And>i. unat i < 1023 \<Longrightarrow> present (pde s i) \<Longrightarrow> table_of s i \<noteq> f"
    using f by (auto simp: data_frame_def)
  have pd: "pde (store (f + j * 4) w s) k = pde s k" if "unat k < 1024" for k
    by (rule pde_store_table [OF f'(1,2) j that])
  then show "unat k < 1024 \<Longrightarrow> pde (store (f + j * 4) w s) k = pde s k" .
  have tb: "table_of (store (f + j * 4) w s) k = table_of s k" if "unat k < 1024" for k using pd [OF that] by (simp add: table_of_def)
  have "recursive_ok (store (f + j * 4) w s)" using paging_okD(1) [OF ok] by (simp add: recursive_ok_def pd tb)
  then show "paging_ok (store (f + j * 4) w s)" by (rule paging_ok_cong [OF ok]) (simp_all add: pd tb)
  have "present (pde (store (f + j * 4) w s) k) = present (pde s k) \<and> table_of (store (f + j * 4) w s) k = table_of s k" if "unat k < 1023" for k
    using that by (intro conjI arg_cong [of _ _ present] pd tb) simp_all
  then show "data_frame (store (f + j * 4) w s) f" using f' by (auto simp: data_frame_def)
  assume kl: "unat k < 1023" "unat l < 1024"
  then show "page_entry (store (f + j * 4) w s) k l = page_entry s k l"
    using slot_eq [of "table_of s k" f l j] f' j by (auto simp: page_entry_def pd tb)
qed

text \<open>The state while the scratch page shows frame \<open>f\<close>.\<close>

definition scratch_shows :: "paging_state \<Rightarrow> u32 \<Rightarrow> bool" where
  "scratch_shows s f \<longleftrightarrow> paging_ok s \<and> data_frame s f \<and> present (page_entry s PAGE_DIRECTORY_SCRATCH_INDEX 0) \<and>
     page_entry s PAGE_DIRECTORY_SCRATCH_INDEX 0 AND PAGE_FRAME = f"

text \<open>Two states of that kind that differ in the memory of the frame only.\<close>

definition scratch_same :: "u32 \<Rightarrow> paging_state \<Rightarrow> paging_state \<Rightarrow> bool" where
  "scratch_same f s s' \<longleftrightarrow> scratch_shows s' f \<and> frames s' = frames s \<and> directory_register s' = directory_register s \<and>
     kernel_directory s' = kernel_directory s \<and> (\<forall>k. unat k < 1024 \<longrightarrow> pde s' k = pde s k) \<and>
     (\<forall>k l. unat k < 1023 \<and> unat l < 1024 \<longrightarrow> page_entry s' k l = page_entry s k l)"

lemma scratch_write:
  assumes sh: "scratch_shows s f" and j: "unat j < 1024"
  shows "write_word (PAGE_DIRECTORY_SCRATCH_ADDRESS + j * 4) w s = Some (store (f + j * 4) w s)"
    "scratch_same f s (store (f + j * 4) w s)"
proof -
  have s: "paging_ok s" "data_frame s f" using sh by (auto simp: scratch_shows_def)
  show "write_word (PAGE_DIRECTORY_SCRATCH_ADDRESS + j * 4) w s = Some (store (f + j * 4) w s)"
    using sh by (simp add: write_word_def translate_entry scratch_indices [OF j] scratch_shows_def store_def)
  have "unat PAGE_DIRECTORY_SCRATCH_INDEX < 1023" "unat (0 :: u32) < 1024" by (simp_all add: PAGE_DIRECTORY_SCRATCH_INDEX_def)
  then show "scratch_same f s (store (f + j * 4) w s)"
    using store_data [OF s j] sh by (simp add: scratch_same_def scratch_shows_def)
qed

lemma scratch_same_refl: "scratch_shows s f \<Longrightarrow> scratch_same f s s"
  by (simp add: scratch_same_def)

lemma scratch_same_trans: "scratch_same f s s1 \<Longrightarrow> scratch_same f s1 s2 \<Longrightarrow> scratch_same f s s2"
  by (simp add: scratch_same_def)

lemma slot_below: "n < 1024 \<Longrightarrow> unat (of_nat n :: u32) = n"
  by (simp add: u32_of_nat_unat)

lemma scratch_clear:
  assumes sh: "scratch_shows s f" and n: "n \<le> 1024"
  shows "\<exists>s'. clear_words PAGE_DIRECTORY_SCRATCH_ADDRESS n s = Some s' \<and> scratch_same f s s' \<and>
    (\<forall>i. unat i < n \<longrightarrow> physical_memory s' (f + i * 4) = 0)"
  using n
proof (induction n)
  case 0
  show ?case using scratch_same_refl [OF sh] by simp
next
  case (Suc n)
  then obtain s1 where s1: "clear_words PAGE_DIRECTORY_SCRATCH_ADDRESS n s = Some s1" "scratch_same f s s1"
      "\<And>i. unat i < n \<Longrightarrow> physical_memory s1 (f + i * 4) = 0" by auto
  have sh1: "scratch_shows s1 f" and f: "unat f mod 4096 = 0" using s1(2) sh by (auto simp: scratch_same_def scratch_shows_def data_frame_def)
  have nu: "unat (of_nat n :: u32) = n" by (rule slot_below) (use Suc.prems in simp)
  then have nb: "unat (of_nat n :: u32) < 1024" using Suc.prems by simp
  note w = scratch_write [OF sh1 nb, of 0]
  have "physical_memory (store (f + of_nat n * 4) 0 s1) (f + i * 4) = 0" if "unat i < Suc n" for i
  proof (cases "i = of_nat n")
    case False
    then have "unat i < n" using that nu by (metis less_SucE word_unat_eq_iff)
    then show ?thesis using s1(3) by simp
  qed simp
  then show ?case using s1(1) w(1) scratch_same_trans [OF s1(2) w(2)] by auto
qed

text \<open>The entries a new directory takes over.\<close>

definition shared_entry :: "u32 \<Rightarrow> u32 \<Rightarrow> bool" where
  "shared_entry i e \<longleftrightarrow> i \<noteq> RECURSIVE_DIRECTORY_INDEX \<and> i \<noteq> PAGE_DIRECTORY_SCRATCH_INDEX \<and> present e \<and> e AND PAGE_USER = 0"

lemma scratch_copy:
  assumes sh: "scratch_shows s f" and z: "\<And>i. unat i < 1024 \<Longrightarrow> physical_memory s (f + i * 4) = 0" and n: "n \<le> 1024"
  shows "\<exists>s'. copy_entries n s = Some s' \<and> scratch_same f s s' \<and>
    (\<forall>i. unat i < 1024 \<longrightarrow> physical_memory s' (f + i * 4) = (if unat i < n \<and> shared_entry i (pde s i) then pde s i else 0))"
  using n
proof (induction n)
  case 0
  show ?case using scratch_same_refl [OF sh] z by simp
next
  case (Suc n)
  then obtain s1 where s1: "copy_entries n s = Some s1" "scratch_same f s s1"
      "\<And>i. unat i < 1024 \<Longrightarrow> physical_memory s1 (f + i * 4) = (if unat i < n \<and> shared_entry i (pde s i) then pde s i else 0)" by auto
  have sh1: "scratch_shows s1 f" and f: "unat f mod 4096 = 0" using s1(2) sh by (auto simp: scratch_same_def scratch_shows_def data_frame_def)
  have nu: "unat (of_nat n :: u32) = n" by (rule slot_below) (use Suc.prems in simp)
  then have nb: "unat (of_nat n :: u32) < 1024" using Suc.prems by simp
  have r1: "recursive_ok s1" using sh1 by (simp add: scratch_shows_def paging_okD(1))
  have rd: "read_word (recursive_page_directory + of_nat n * 4) s1 = Some (pde s (of_nat n))"
    using read_pde [OF r1 nb] s1(2) nb by (simp add: scratch_same_def)
  have lt: "unat i < Suc n \<longleftrightarrow> i = of_nat n \<or> unat i < n" for i :: u32
    using nu by (metis less_Suc_eq word_unat_eq_iff)
  show ?case
  proof (cases "shared_entry (of_nat n) (pde s (of_nat n))")
    case False
    then have "copy_entries (Suc n) s = Some s1"
      using s1(1) rd by (auto simp: shared_entry_def present_def)
    then show ?thesis using s1(2,3) False by (auto simp: lt)
  next
    case True
    note w = scratch_write [OF sh1 nb, of "pde s (of_nat n)"]
    have "copy_entries (Suc n) s = Some (store (f + of_nat n * 4) (pde s (of_nat n)) s1)"
      using s1(1) rd w(1) True by (auto simp: shared_entry_def present_def)
    moreover have "physical_memory (store (f + of_nat n * 4) (pde s (of_nat n)) s1) (f + i * 4) =
        (if unat i < Suc n \<and> shared_entry i (pde s i) then pde s i else 0)" if "unat i < 1024" for i
    proof (cases "i = of_nat n")
      case False
      then have "f + i * 4 \<noteq> f + of_nat n * 4" using slot_eq [OF f f that nb] by simp
      then show ?thesis using s1(3) [OF that] False by (simp add: lt)
    qed (use True lt in auto)
    ultimately show ?thesis using scratch_same_trans [OF s1(2) w(2)] by blast
  qed
qed

section \<open>The new directory\<close>

lemma data_frame_not_table:
  assumes "paging_ok s" "f \<in> pmm_free_frames (frames s)"
  shows "data_frame s f"
  using assms pmm.frame_valid [OF assms(2)] paging_okD(2,4) [OF assms(1)] unfolding data_frame_def by blast

lemma take_frame_ok: "paging_ok s \<Longrightarrow> pmm_free_frames f \<subseteq> pmm_free_frames (frames s) \<Longrightarrow> paging_ok (s\<lparr>frames := f\<rparr>)"
  by (rule paging_ok_cong) (simp_all add: paging_okD(1))

lemma give_frame_ok:
  assumes "paging_ok s" "data_frame s f"
  shows "paging_ok (give_frame f s)"
proof -
  have "pmm_free_frames (frames (give_frame f s)) \<subseteq> insert f (pmm_free_frames (frames s))"
  proof (cases "f \<noteq> 0 \<and> f < MAX_PHYSICAL_MEMORY")
    case True
    then show ?thesis using assms(2) pmm.release_frame [of f "frames s"] by (simp add: give_frame_def data_frame_def)
  next
    case False
    then have "pmm_free_frame f (frames s) = frames s" by (auto simp: pmm_free_frame_def not_less)
    then show ?thesis by (auto simp: give_frame_def)
  qed
  then show ?thesis
    using assms paging_okD [OF assms(1)] unfolding paging_ok_def data_frame_def give_frame_simps by blast
qed

text \<open>The new address space: no user page, the kernel's tables shared, itself as its recursive table.\<close>

definition fresh_space :: "paging_state \<Rightarrow> paging_state \<Rightarrow> bool" where
  "fresh_space s t \<longleftrightarrow> recursive_ok t \<and>
     (\<forall>i. unat i < 1023 \<longrightarrow> pde t i = (if shared_entry i (pde s i) then pde s i else 0)) \<and>
     (\<forall>w a. \<not> user_may w t a) \<and>
     (\<forall>a. shared_entry (page_directory_index a) (pde s (page_directory_index a)) \<longrightarrow>
        paging_get_physical_address a t = paging_get_physical_address a s)"

lemma fresh_spaceI:
  assumes ok: "paging_ok s" and d: "unat d mod 4096 = 0" and mem: "\<And>i. unat i < 1024 \<Longrightarrow> physical_memory t (d + i * 4) =
      (if i = RECURSIVE_DIRECTORY_INDEX then d OR PAGE_PRESENT OR PAGE_WRITABLE else if shared_entry i (pde s i) then pde s i else 0)"
    and reg: "directory_register t = d"
    and tab: "\<And>i j. unat i < 1023 \<Longrightarrow> unat j < 1024 \<Longrightarrow> shared_entry i (pde s i) \<Longrightarrow> physical_memory t (table_of s i + j * 4) = page_entry s i j"
  shows "fresh_space s t"
proof -
  have df: "d AND PAGE_FRAME = d" by (rule frame_of_aligned [OF d])
  have cd: "current_directory t = d" by (simp add: current_directory_def reg df)
  have pd: "pde t i = (if i = RECURSIVE_DIRECTORY_INDEX then d OR PAGE_PRESENT OR PAGE_WRITABLE else if shared_entry i (pde s i) then pde s i else 0)"
    if "unat i < 1024" for i using mem [OF that] by (simp add: pde_def cd)
  have r: "recursive_ok t"
    using pd [of 1023] by (simp add: recursive_ok_def RECURSIVE_DIRECTORY_INDEX_def present_def table_of_def cd or_and or_zero df)
  have below: "i \<noteq> RECURSIVE_DIRECTORY_INDEX" if "unat i < 1023" for i using that by (auto simp: RECURSIVE_DIRECTORY_INDEX_def)
  have pd': "pde t i = (if shared_entry i (pde s i) then pde s i else 0)" if "unat i < 1023" for i
    using pd [of i] below [OF that] that by simp
  have pe: "page_entry t i j = page_entry s i j" if "unat i < 1023" "unat j < 1024" "shared_entry i (pde s i)" for i j
    using tab [OF that] pd' [OF that(1)] that(3) by (simp add: page_entry_def table_of_def shared_entry_def)
  have "\<not> user_may w t a" for w a
  proof
    assume u: "user_may w t a"
    then have ne: "page_directory_index a \<noteq> RECURSIVE_DIRECTORY_INDEX" by (simp add: user_may_def Let_def)
    have "unat (page_directory_index a) < 1023" by (rule index_1023 [OF ne]) simp
    from pd' [OF this] show False using u by (auto simp: user_may_def Let_def shared_entry_def page_entry_def split: if_splits)
  qed
  moreover have "paging_get_physical_address a t = paging_get_physical_address a s"
    if a: "shared_entry (page_directory_index a) (pde s (page_directory_index a))" for a
  proof (rule get_physical_cong [OF paging_okD(1) [OF ok] r])
    assume ne: "page_directory_index a \<noteq> RECURSIVE_DIRECTORY_INDEX"
    have "unat (page_directory_index a) < 1023" by (rule index_1023 [OF ne]) simp
    then show "page_entry t (page_directory_index a) (page_table_index a) = page_entry s (page_directory_index a) (page_table_index a)"
      using pe a by simp
  qed
  ultimately show ?thesis using r pd' unfolding fresh_space_def by blast
qed

text \<open>Claim C13. A new address space is isolated: \<open>paging_create_user_directory\<close> leaves the translation of
  the current address space and its tables intact, and the directory it returns is a frame that was free.
  After loading it, no address is accessible from user mode, every supervisor directory entry of the
  kernel is shared, so every kernel address translates as before (the scratch region apart), and the
  directory maps itself.\<close>

theorem create_user_directory_isolated:
  assumes ok: "paging_ok s" and scratch: "\<not> present (page_entry s PAGE_DIRECTORY_SCRATCH_INDEX 0)"
  shows "\<exists>r s'. paging_create_user_directory s = Some (r, s') \<and> paging_ok s' \<and>
    (\<forall>a. paging_get_physical_address a s' = paging_get_physical_address a s) \<and>
    (\<forall>d. r = Some d \<longrightarrow> d \<in> pmm_free_frames (frames s) \<and> d \<notin> pmm_free_frames (frames s') \<and>
       fresh_space s (s'\<lparr>directory_register := d\<rparr>))"
proof (cases rule: take_frame_cases [of s])
  case full
  then show ?thesis using ok by (simp add: paging_create_user_directory_def)
next
  case (frame a f)
  let ?s0 = "s\<lparr>frames := f\<rparr>" and ?X = PAGE_DIRECTORY_SCRATCH_INDEX and ?A = PAGE_DIRECTORY_SCRATCH_ADDRESS
  have r: "recursive_ok s" using ok by (rule paging_okD(1))
  have ok0: "paging_ok ?s0" by (rule take_frame_ok [OF ok]) (use frame(5) in blast)
  have X: "page_directory_index ?A = ?X" "page_table_index ?A = 0" "unat ?X < 1023" "?X \<noteq> RECURSIVE_DIRECTORY_INDEX"
    using scratch_indices [of 0] by (simp_all add: PAGE_DIRECTORY_SCRATCH_INDEX_def RECURSIVE_DIRECTORY_INDEX_def)
  from paging_map_page_effect [OF ok0, of ?A a PAGE_WRITABLE] obtain b s1 where
      run1: "paging_map_page ?A a PAGE_WRITABLE ?s0 = Some (b, s1)" and ok1: "paging_ok s1" and same1: "paging_same ?s0 s1"
        and fr1: "pmm_free_frames (frames s1) \<subseteq> pmm_free_frames f"
        and e1: "\<And>k l. unat k < 1023 \<Longrightarrow> unat l < 1024 \<Longrightarrow> page_entry s1 k l =
          (if b \<and> k = ?X \<and> l = 0 then mapped_entry a PAGE_WRITABLE else page_entry s k l)"
        and pd1: "\<And>k. unat k < 1024 \<Longrightarrow> k \<noteq> ?X \<Longrightarrow> pde s1 k = pde s k"
    by (auto simp: X)
  have df0: "data_frame s a" by (rule data_frame_not_table [OF ok frame(4)])
  have df1: "data_frame s1 a"
    unfolding data_frame_def
  proof (intro conjI allI impI)
    show "a \<noteq> current_directory s1" using df0 paging_same_directory [OF same1] by (simp add: data_frame_def)
    fix i assume i: "unat i < 1023 \<and> present (pde s1 i)"
    then have "table_of s1 i \<in> pmm_free_frames f \<or> present (pde s i) \<and> table_of s1 i = table_of s i"
      using paging_same_tables [OF same1, of i] by simp
    then show "table_of s1 i \<noteq> a" using frame(5) df0 i by (auto simp: data_frame_def)
  qed (rule frame(3))
  note r1 = paging_okD(1) [OF ok1]
  show ?thesis
  proof (cases b)
    case False
    have "paging_get_physical_address x (give_frame a s1) = paging_get_physical_address x s" for x
    proof (rule get_physical_cong [OF r])
      assume "page_directory_index x \<noteq> RECURSIVE_DIRECTORY_INDEX"
      then have "unat (page_directory_index x) < 1023" by (rule index_1023) simp
      then show "page_entry (give_frame a s1) (page_directory_index x) (page_table_index x) = page_entry s (page_directory_index x) (page_table_index x)"
        using False by (simp add: e1)
    qed (simp add: r1)
    then show ?thesis
      using frame(1,2) run1 False give_frame_ok [OF ok1 df1] by (simp add: paging_create_user_directory_def)
  next
    case True
    have af: "a AND PAGE_FRAME = a" by (rule frame_of_aligned [OF frame(3)])
    have sh1: "scratch_shows s1 a"
      using ok1 df1 e1 [OF X(3), of 0] True af by (simp add: scratch_shows_def)
    from scratch_clear [OF sh1, of 1024] obtain s2 where s2: "clear_words ?A 1024 s1 = Some s2" "scratch_same a s1 s2"
        "\<And>i. unat i < 1024 \<Longrightarrow> physical_memory s2 (a + i * 4) = 0" by auto
    have sh2: "scratch_shows s2 a" using s2(2) by (simp add: scratch_same_def)
    from scratch_copy [OF sh2 s2(3), of 1024] obtain s3 where s3: "copy_entries 1024 s2 = Some s3" "scratch_same a s2 s3"
        "\<And>i. unat i < 1024 \<Longrightarrow> physical_memory s3 (a + i * 4) = (if shared_entry i (pde s2 i) then pde s2 i else 0)" by auto
    have sh3: "scratch_shows s3 a" using s3(2) by (simp add: scratch_same_def)
    have rb: "unat RECURSIVE_DIRECTORY_INDEX < 1024" by (simp add: RECURSIVE_DIRECTORY_INDEX_def)
    define e where "e = a OR PAGE_PRESENT OR PAGE_WRITABLE"
    define s4 where "s4 = store (a + RECURSIVE_DIRECTORY_INDEX * 4) e s3"
    note w = scratch_write [OF sh3 rb, of e, folded s4_def]
    have same14: "scratch_same a s1 s4" using scratch_same_trans [OF scratch_same_trans [OF s2(2) s3(2)] w(2)] .
    then have ok4: "paging_ok s4" and df4: "data_frame s4 a" and regs4: "frames s4 = frames s1" "directory_register s4 = directory_register s1"
        and e4: "\<And>k l. unat k < 1023 \<Longrightarrow> unat l < 1024 \<Longrightarrow> page_entry s4 k l = page_entry s1 k l"
        and pd4: "\<And>k. unat k < 1024 \<Longrightarrow> pde s4 k = pde s1 k"
      by (simp_all add: scratch_same_def scratch_shows_def)
    have shared: "shared_entry i (pde s2 i) = shared_entry i (pde s i)" "shared_entry i (pde s i) \<Longrightarrow> pde s2 i = pde s i" if "unat i < 1024" for i
      using s2(2) pd1 [OF that] that by (auto simp: scratch_same_def shared_entry_def)
    have m4: "physical_memory s4 (a + i * 4) = (if i = RECURSIVE_DIRECTORY_INDEX then e else if shared_entry i (pde s i) then pde s i else 0)"
      if "unat i < 1024" for i
      using s3(3) [OF that] slot_eq [OF frame(3) frame(3) that rb] shared [OF that] by (simp add: s4_def)
    have aligned: "is_page_aligned ?A" by (simp add: aligned_iff PAGE_DIRECTORY_SCRATCH_ADDRESS_def)
    from paging_unmap_page_effect [OF ok4, of ?A False] obtain s5 where
        s5: "paging_unmap_page ?A False s4 = Some (True, s5)" "paging_ok s5" "paging_same s4 s5" "frames s5 = frames s4"
          "\<And>k l. unat k < 1023 \<Longrightarrow> unat l < 1024 \<Longrightarrow> page_entry s5 k l = (if k = ?X \<and> l = 0 then 0 else page_entry s4 k l)"
          "\<And>k. unat k < 1024 \<Longrightarrow> pde s5 k = pde s4 k"
      using aligned X e4 [OF X(3), of 0] e1 [OF X(3), of 0] True by auto
    have run: "paging_create_user_directory s = Some (Some a, s5)"
      using frame(1,2) run1 True s2(1) s3(1) w(1) s5(1) af by (simp add: paging_create_user_directory_def e_def)
    have lookups: "paging_get_physical_address x s5 = paging_get_physical_address x s" for x
    proof (cases "page_directory_index x = ?X \<and> page_table_index x = 0")
      case True
      then show ?thesis using scratch X s5(5) [OF X(3), of 0]
        by (simp add: get_physical_entry [OF r] get_physical_entry [OF paging_okD(1) [OF s5(2)]])
    next
      case False
      show ?thesis
      proof (rule get_physical_cong [OF r paging_okD(1) [OF s5(2)]])
        assume "page_directory_index x \<noteq> RECURSIVE_DIRECTORY_INDEX"
        then have "unat (page_directory_index x) < 1023" by (rule index_1023) simp
        then show "page_entry s5 (page_directory_index x) (page_table_index x) = page_entry s (page_directory_index x) (page_table_index x)"
          using False s5(5) e4 e1 by auto
      qed
    qed
    have a5: "a \<notin> pmm_free_frames (frames s5)" using s5(4) regs4 fr1 frame(5) by auto
    have "physical_memory s5 (a + i * 4) = physical_memory s4 (a + i * 4)" if "unat i < 1024" for i
      using a5 s5(4) df4 that by (intro paging_same_memory [OF s5(3)]) (auto simp: data_frame_def)
    then have m5: "physical_memory s5 (a + i * 4) = (if i = RECURSIVE_DIRECTORY_INDEX then a OR PAGE_PRESENT OR PAGE_WRITABLE
        else if shared_entry i (pde s i) then pde s i else 0)" if "unat i < 1024" for i
      using m4 [OF that] that by (simp add: e_def)
    have tab: "physical_memory s5 (table_of s i + j * 4) = page_entry s i j"
      if "unat i < 1023" "unat j < 1024" "shared_entry i (pde s i)" for i j
    proof -
      have i: "unat i < 1024" "i \<noteq> ?X" using that by (auto simp: shared_entry_def)
      have "pde s5 i = pde s i" using s5(6) pd4 pd1 i by simp
      moreover have "page_entry s5 i j = page_entry s i j" using s5(5) e4 e1 that(1,2) i by simp
      ultimately show ?thesis using that(3) by (simp add: page_entry_def table_of_def shared_entry_def)
    qed
    have "fresh_space s (s5\<lparr>directory_register := a\<rparr>)"
      by (rule fresh_spaceI [OF ok frame(3)]) (use m5 tab in simp_all)
    then show ?thesis using run s5(2) lookups a5 frame(4) by blast
  qed
qed

lemma bare_scratch: "\<not> present (page_entry bare_paging PAGE_DIRECTORY_SCRATCH_INDEX 0)"
  by (simp add: bare_paging_entry PAGE_DIRECTORY_SCRATCH_INDEX_def)

theorem create_user_directory_isolated_witness:
  "\<exists>r s'. paging_create_user_directory bare_paging = Some (r, s') \<and> paging_ok s' \<and>
    (\<forall>d. r = Some d \<longrightarrow> \<not> user_may False (s'\<lparr>directory_register := d\<rparr>) 0x400000)"
  using create_user_directory_isolated [OF bare_paging_ok bare_scratch] unfolding fresh_space_def by blast

end
