(* ===== verification/Heap.thy ===== *)
theory Heap
  imports PageTables
begin

text \<open>
  The kernel heap of \<open>kernel/memory/heap.c\<close>: a doubly linked list of headers that tile the mapped part
  of the heap region, first fit with splitting, eager merging, growth by whole pages. Headers and payload
  bytes are two maps over virtual addresses: the model does not let a payload write forge a header. A
  page fault and a walk that does not end are \<open>None\<close>; the sections under \<open>heap_lock\<close> are atomic.
\<close>

section \<open>State\<close>

definition KERNEL_HEAP_START :: u32 where [machine_consts]: "KERNEL_HEAP_START = 0xD0000000"
definition KERNEL_HEAP_LIMIT :: u32 where [machine_consts]: "KERNEL_HEAP_LIMIT = 0xE0000000"
definition HEAP_INITIAL_PAGES :: u32 where [machine_consts]: "HEAP_INITIAL_PAGES = 4"
definition HEAP_MINIMUM_EXPANSION :: u32 where [machine_consts]: "HEAP_MINIMUM_EXPANSION = 4"
definition HEAP_ALIGNMENT :: u32 where [machine_consts]: "HEAP_ALIGNMENT = 16"
definition HEAP_BLOCK_MAGIC :: u32 where [machine_consts]: "HEAP_BLOCK_MAGIC = 0x48454150"
definition HEAP_MINIMUM_PAYLOAD :: u32 where [machine_consts]: "HEAP_MINIMUM_PAYLOAD = 16"

text \<open>17 bytes of fields, rounded up to the alignment of 16.\<close>

definition sizeof_heap_block :: u32 where [machine_consts]: "sizeof_heap_block = 32"

record heap_block =
  block_size :: u32
  block_previous :: "u32 option"
  block_next :: "u32 option"
  block_magic :: u32
  block_free :: bool

definition zero_block :: heap_block where
  "zero_block = \<lparr>block_size = 0, block_previous = None, block_next = None, block_magic = 0, block_free = False\<rparr>"

record heap =
  paging :: paging_state
  headers :: "u32 \<Rightarrow> heap_block"
  payload :: "u32 \<Rightarrow> u8"
  heap_first_block :: "u32 option"
  heap_last_block :: "u32 option"
  heap_mapped_end :: u32
  heap_initialized :: bool

definition set_header :: "u32 \<Rightarrow> (heap_block \<Rightarrow> heap_block) \<Rightarrow> heap \<Rightarrow> heap" where
  "set_header b f h = h\<lparr>headers := (headers h)(b := f (headers h b))\<rparr>"

text \<open>\<open>memset(start, 0, n)\<close> over memory that may hold headers.\<close>

definition zero_range :: "u32 \<Rightarrow> u32 \<Rightarrow> heap \<Rightarrow> heap" where
  "zero_range start n h =
     h\<lparr>headers := (\<lambda>a. if start \<le> a \<and> unat a < unat start + unat n then zero_block else headers h a),
       payload := (\<lambda>a. if start \<le> a \<and> unat a < unat start + unat n then 0 else payload h a)\<rparr>"

section \<open>Helpers\<close>

definition align_up_size :: "u32 \<Rightarrow> u32 \<Rightarrow> u32" where
  "align_up_size n alignment =
     (let mask = alignment - 1
      in if n > SIZE_MAX - mask then 0 else (n + mask) AND NOT mask)"

definition pages_for_size :: "u32 \<Rightarrow> u32" where
  "pages_for_size n = (if n > SIZE_MAX - (PAGE_SIZE - 1) then 0 else (n + PAGE_SIZE - 1) div PAGE_SIZE)"

definition heap_pointer_is_inside :: "u32 \<Rightarrow> heap \<Rightarrow> bool" where
  "heap_pointer_is_inside address h \<longleftrightarrow> address \<ge> KERNEL_HEAP_START \<and> address < heap_mapped_end h"

text \<open>A null pointer is \<open>None\<close>.\<close>

definition heap_block_from_pointer :: "u32 option \<Rightarrow> heap \<Rightarrow> u32 option" where
  "heap_block_from_pointer pointer h =
     (case pointer of
        None \<Rightarrow> None
      | Some p \<Rightarrow>
          if \<not> heap_pointer_is_inside p h then None
          else if p < KERNEL_HEAP_START + sizeof_heap_block then None
          else
            let block = p - sizeof_heap_block
            in if \<not> heap_pointer_is_inside block h then None
               else if block_magic (headers h block) \<noteq> HEAP_BLOCK_MAGIC then None
               else Some block)"

section \<open>Page mapping\<close>

text \<open>\<open>todo\<close> pages are left; the result is the number of pages mapped.\<close>

fun map_pages_loop :: "u32 \<Rightarrow> u32 \<Rightarrow> nat \<Rightarrow> paging_state \<Rightarrow> (u32 \<times> paging_state) option" where
  "map_pages_loop start mapped_pages 0 s = Some (mapped_pages, s)"
| "map_pages_loop start mapped_pages (Suc todo) s =
     (let virtual_address = start + mapped_pages * PAGE_SIZE;
          (physical_address, s) = take_frame s
      in if physical_address = 0 then Some (mapped_pages, s)
         else do {
           (ok, s) \<leftarrow> paging_map_page virtual_address physical_address PAGE_WRITABLE s;
           if \<not> ok then Some (mapped_pages, give_frame physical_address s)
           else map_pages_loop start (mapped_pages + 1) todo s
         })"

fun unmap_pages_loop :: "u32 \<Rightarrow> u32 \<Rightarrow> nat \<Rightarrow> paging_state \<Rightarrow> paging_state option" where
  "unmap_pages_loop start i 0 s = Some s"
| "unmap_pages_loop start i (Suc todo) s =
     do {
       (ok, s) \<leftarrow> paging_unmap_page (start + i * PAGE_SIZE) True s;
       unmap_pages_loop start (i + 1) todo s
     }"

definition heap_map_pages :: "u32 \<Rightarrow> u32 \<Rightarrow> paging_state \<Rightarrow> (bool \<times> paging_state) option" where
  "heap_map_pages start page_count s =
     do {
       (mapped_pages, s) \<leftarrow> map_pages_loop start 0 (unat page_count) s;
       if mapped_pages = page_count then Some (True, s)
       else do {
         s \<leftarrow> unmap_pages_loop start 0 (unat mapped_pages) s;
         Some (False, s)
       }
     }"

text \<open>
  The second half of \<open>heap_expand\<close>: the new pages are cleared and join the block list, in the last block
  when it is free.
\<close>

definition heap_append_space :: "u32 \<Rightarrow> heap \<Rightarrow> heap" where
  "heap_append_space expansion_size h =
     (let expansion_start = heap_mapped_end h;
          h = zero_range expansion_start expansion_size h;
          h = h\<lparr>heap_mapped_end := heap_mapped_end h + expansion_size\<rparr>
      in case heap_last_block h of
           Some l \<Rightarrow>
             if block_free (headers h l)
             then set_header l (block_size_update (\<lambda>n. n + expansion_size)) h
             else
               let h = set_header expansion_start (\<lambda>_. \<lparr>block_size = expansion_size - sizeof_heap_block,
                         block_previous = Some l, block_next = None, block_magic = HEAP_BLOCK_MAGIC, block_free = True\<rparr>) h;
                   h = set_header l (block_next_update (\<lambda>_. Some expansion_start)) h
               in h\<lparr>heap_last_block := Some expansion_start\<rparr>
         | None \<Rightarrow>
             let h = set_header expansion_start (\<lambda>_. \<lparr>block_size = expansion_size - sizeof_heap_block,
                       block_previous = None, block_next = None, block_magic = HEAP_BLOCK_MAGIC, block_free = True\<rparr>) h
             in h\<lparr>heap_first_block := Some expansion_start, heap_last_block := Some expansion_start\<rparr>)"

definition heap_expand :: "u32 \<Rightarrow> heap \<Rightarrow> (bool \<times> heap) option" where
  "heap_expand minimum_payload h =
     (if minimum_payload > SIZE_MAX - sizeof_heap_block then Some (False, h)
      else
        let required_bytes = sizeof_heap_block + minimum_payload;
            page_count = pages_for_size required_bytes
        in if page_count = 0 then Some (False, h)
           else
             let page_count = (if page_count < HEAP_MINIMUM_EXPANSION then HEAP_MINIMUM_EXPANSION else page_count)
             in if page_count > SIZE_MAX div PAGE_SIZE then Some (False, h)
                else
                  let expansion_size = page_count * PAGE_SIZE
                  in if heap_mapped_end h > KERNEL_HEAP_LIMIT then Some (False, h)
                     else if expansion_size > KERNEL_HEAP_LIMIT - heap_mapped_end h then Some (False, h)
                     else do {
                       (ok, s) \<leftarrow> heap_map_pages (heap_mapped_end h) page_count (paging h);
                       Some (if ok then (True, heap_append_space expansion_size (h\<lparr>paging := s\<rparr>)) else (False, h\<lparr>paging := s\<rparr>))
                     })"

section \<open>Block list\<close>

partial_function (option) find_free_loop :: "(u32 \<Rightarrow> heap_block) \<Rightarrow> u32 \<Rightarrow> u32 option \<Rightarrow> u32 option option" where
  "find_free_loop hs requested_size block =
     (case block of
        None \<Rightarrow> Some None
      | Some b \<Rightarrow>
          if block_free (hs b) \<and> block_size (hs b) \<ge> requested_size then Some (Some b)
          else find_free_loop hs requested_size (block_next (hs b)))"

definition heap_find_free_block :: "u32 \<Rightarrow> heap \<Rightarrow> u32 option option" where
  "heap_find_free_block requested_size h = find_free_loop (headers h) requested_size (heap_first_block h)"

definition heap_split_block :: "u32 \<Rightarrow> u32 \<Rightarrow> heap \<Rightarrow> heap" where
  "heap_split_block block requested_size h =
     (let minimum_remainder = sizeof_heap_block + HEAP_MINIMUM_PAYLOAD
      in if block_size (headers h block) < requested_size then h
         else
           let remaining = block_size (headers h block) - requested_size
           in if remaining < minimum_remainder then h
              else
                let new_block = block + sizeof_heap_block + requested_size;
                    h = set_header new_block (\<lambda>_. \<lparr>block_size = remaining - sizeof_heap_block, block_previous = Some block,
                          block_next = block_next (headers h block), block_magic = HEAP_BLOCK_MAGIC, block_free = True\<rparr>) h;
                    h = (case block_next (headers h new_block) of
                           Some n \<Rightarrow> set_header n (block_previous_update (\<lambda>_. Some new_block)) h
                         | None \<Rightarrow> h\<lparr>heap_last_block := Some new_block\<rparr>);
                    h = set_header block (block_size_update (\<lambda>_. requested_size)) h
                in set_header block (block_next_update (\<lambda>_. Some new_block)) h)"

definition heap_merge_with_next :: "u32 \<Rightarrow> heap \<Rightarrow> heap" where
  "heap_merge_with_next block h =
     (case block_next (headers h block) of
        None \<Rightarrow> h
      | Some n \<Rightarrow>
          if \<not> block_free (headers h n) then h
          else if n \<noteq> block + sizeof_heap_block + block_size (headers h block) then h
          else
            let h = set_header block (block_size_update (\<lambda>x. x + (sizeof_heap_block + block_size (headers h n)))) h;
                h = set_header block (block_next_update (\<lambda>_. block_next (headers h n))) h;
                h = (case block_next (headers h block) of
                       Some m \<Rightarrow> set_header m (block_previous_update (\<lambda>_. Some block)) h
                     | None \<Rightarrow> h\<lparr>heap_last_block := Some block\<rparr>)
            in set_header n (\<lambda>_. zero_block) h)"

section \<open>Allocation under the lock\<close>

definition heap_allocate_unlocked :: "u32 \<Rightarrow> heap \<Rightarrow> (u32 option \<times> heap) option" where
  "heap_allocate_unlocked n h =
     (if \<not> heap_initialized h then Some (None, h)
      else if n = 0 then Some (None, h)
      else
        let aligned_size = align_up_size n HEAP_ALIGNMENT
        in if aligned_size = 0 then Some (None, h)
           else do {
             found \<leftarrow> heap_find_free_block aligned_size h;
             (found, h) \<leftarrow> (case found of
                Some b \<Rightarrow> Some (Some b, h)
              | None \<Rightarrow> do {
                  (ok, h) \<leftarrow> heap_expand aligned_size h;
                  if \<not> ok then Some (None, h)
                  else do { found \<leftarrow> heap_find_free_block aligned_size h; Some (found, h) }
                });
             (case found of
                None \<Rightarrow> Some (None, h)
              | Some block \<Rightarrow>
                  let h = heap_split_block block aligned_size h;
                      h = set_header block (block_free_update (\<lambda>_. False)) h
                  in Some (Some (block + sizeof_heap_block), h))
           })"

definition heap_free_unlocked :: "u32 option \<Rightarrow> heap \<Rightarrow> heap" where
  "heap_free_unlocked pointer h =
     (case heap_block_from_pointer pointer h of
        None \<Rightarrow> h
      | Some block \<Rightarrow>
          if block_free (headers h block) then h
          else
            let h = set_header block (block_free_update (\<lambda>_. True)) h;
                h = heap_merge_with_next block h
            in case block_previous (headers h block) of
                 Some p \<Rightarrow> if block_free (headers h p) then heap_merge_with_next p h else h
               | None \<Rightarrow> h)"

primrec copy_bytes :: "u32 \<Rightarrow> u32 \<Rightarrow> nat \<Rightarrow> (u32 \<Rightarrow> u8) \<Rightarrow> (u32 \<Rightarrow> u8)" where
  "copy_bytes dst src 0 m = m"
| "copy_bytes dst src (Suc n) m = (copy_bytes dst src n m)(dst + of_nat n := copy_bytes dst src n m (src + of_nat n))"

definition heap_reallocate_unlocked :: "u32 option \<Rightarrow> u32 \<Rightarrow> heap \<Rightarrow> (u32 option \<times> heap) option" where
  "heap_reallocate_unlocked pointer new_size h =
     (case pointer of
        None \<Rightarrow> heap_allocate_unlocked new_size h
      | Some p \<Rightarrow>
          if new_size = 0 then Some (None, heap_free_unlocked pointer h)
          else (case heap_block_from_pointer pointer h of
              None \<Rightarrow> Some (None, h)
            | Some block \<Rightarrow>
                if block_free (headers h block) then Some (None, h)
                else
                  let aligned_size = align_up_size new_size HEAP_ALIGNMENT
                  in if aligned_size = 0 then Some (None, h)
                     else if block_size (headers h block) \<ge> aligned_size then
                       Some (pointer, heap_split_block block aligned_size h)
                     else
                       let grows = (case block_next (headers h block) of
                                      None \<Rightarrow> False
                                    | Some n \<Rightarrow> block_free (headers h n) \<and>
                                        block_size (headers h block) + sizeof_heap_block + block_size (headers h n) \<ge> aligned_size)
                       in if grows then
                            let h = heap_merge_with_next block h;
                                h = heap_split_block block aligned_size h
                            in Some (pointer, set_header block (block_free_update (\<lambda>_. False)) h)
                          else do {
                            (replacement, h') \<leftarrow> heap_allocate_unlocked new_size h;
                            (case replacement of
                               None \<Rightarrow> Some (None, h')
                             | Some r \<Rightarrow>
                                 let copy_size = (if block_size (headers h' block) < new_size then block_size (headers h' block) else new_size);
                                     h' = h'\<lparr>payload := copy_bytes r p (unat copy_size) (payload h')\<rparr>
                                 in Some (Some r, heap_free_unlocked pointer h'))
                          }))"

section \<open>Initialisation and the public operations\<close>

text \<open>One supervisor page table for each 4 MiB of the region.\<close>

partial_function (option) heap_tables_loop :: "u32 \<Rightarrow> paging_state \<Rightarrow> (bool \<times> paging_state) option" where
  "heap_tables_loop address s =
     (if address < KERNEL_HEAP_LIMIT then do {
        (ok, s) \<leftarrow> paging_ensure_kernel_page_table address s;
        if \<not> ok then Some (False, s) else heap_tables_loop (address + PAGE_SIZE * 1024) s
      }
      else Some (True, s))"

definition heap_initialize :: "heap \<Rightarrow> heap option" where
  "heap_initialize h =
     (if heap_initialized h then Some h
      else
        let h = h\<lparr>heap_first_block := None, heap_last_block := None, heap_mapped_end := KERNEL_HEAP_START\<rparr>
        in do {
          (ok, s) \<leftarrow> heap_tables_loop KERNEL_HEAP_START (paging h);
          if \<not> ok then Some (h\<lparr>paging := s\<rparr>)
          else
            let initial_size = HEAP_INITIAL_PAGES * PAGE_SIZE
            in do {
              (ok, s) \<leftarrow> heap_map_pages KERNEL_HEAP_START HEAP_INITIAL_PAGES s;
              let h = h\<lparr>paging := s\<rparr> in
              if \<not> ok then Some h
              else
                let h = zero_range KERNEL_HEAP_START initial_size h;
                    h = h\<lparr>heap_mapped_end := KERNEL_HEAP_START + initial_size, heap_first_block := Some KERNEL_HEAP_START\<rparr>;
                    h = set_header KERNEL_HEAP_START (\<lambda>_. \<lparr>block_size = initial_size - sizeof_heap_block,
                          block_previous = None, block_next = None, block_magic = HEAP_BLOCK_MAGIC, block_free = True\<rparr>) h
                in Some (h\<lparr>heap_last_block := Some KERNEL_HEAP_START, heap_initialized := True\<rparr>)
            }
        })"

definition kmalloc :: "u32 \<Rightarrow> heap \<Rightarrow> (u32 option \<times> heap) option" where
  "kmalloc n h = (if n = 0 then Some (None, h) else heap_allocate_unlocked n h)"

definition kcalloc :: "u32 \<Rightarrow> u32 \<Rightarrow> heap \<Rightarrow> (u32 option \<times> heap) option" where
  "kcalloc count n h =
     (if count = 0 \<or> n = 0 then Some (None, h)
      else if count > SIZE_MAX div n then Some (None, h)
      else
        let total_size = count * n
        in do {
          (pointer, h) \<leftarrow> kmalloc total_size h;
          Some (case pointer of
             None \<Rightarrow> (None, h)
           | Some p \<Rightarrow> (Some p, h\<lparr>payload := (\<lambda>a. if p \<le> a \<and> unat a < unat p + unat total_size then 0 else payload h a)\<rparr>))
        })"

definition krealloc :: "u32 option \<Rightarrow> u32 \<Rightarrow> heap \<Rightarrow> (u32 option \<times> heap) option" where
  "krealloc pointer new_size h = heap_reallocate_unlocked pointer new_size h"

definition kfree :: "u32 option \<Rightarrow> heap \<Rightarrow> heap" where
  "kfree pointer h = (if pointer = None then h else heap_free_unlocked pointer h)"

end
