(* ===== verification/HeapPages.thy ===== *)
theory HeapPages
  imports Heap UserDirectory
begin

text \<open>
  Growing the heap by pages: mapping a run of pages never faults, and leaves the page tables consistent
  whether it succeeds or rolls back.
\<close>

section \<open>Mapping a frame that was just taken\<close>

text \<open>A page that shows a frame of its own.\<close>

definition held :: "paging_state \<Rightarrow> u32 \<Rightarrow> bool" where
  "held s va \<longleftrightarrow> (\<exists>a. page_entry s (page_directory_index va) (page_table_index va) = mapped_entry a PAGE_WRITABLE \<and>
     data_frame s a \<and> a \<notin> pmm_free_frames (frames s))"

lemma map_data_frame:
  assumes "paging_same s s1" "data_frame s a" "a \<notin> pmm_free_frames (frames s)"
  shows "data_frame s1 a"
  unfolding data_frame_def
proof (intro conjI allI impI)
  show "unat a mod 4096 = 0" using assms(2) by (simp add: data_frame_def)
  show "a \<noteq> current_directory s1" using assms(2) paging_same_directory [OF assms(1)] by (simp add: data_frame_def)
  fix i assume i: "unat i < 1023 \<and> present (pde s1 i)"
  then have "table_of s1 i \<in> pmm_free_frames (frames s) \<or> present (pde s i) \<and> table_of s1 i = table_of s i"
    using paging_same_tables [OF assms(1), of i] by blast
  then show "table_of s1 i \<noteq> a" using assms(2,3) i by (auto simp: data_frame_def)
qed

lemma below_limit_index:
  assumes "unat va < 3758096384"
  shows "page_directory_index va \<noteq> RECURSIVE_DIRECTORY_INDEX" "unat (page_directory_index va) < 1023"
proof -
  have "unat (page_directory_index va) < 896" unfolding directory_index_unat using assms by (simp add: less_mult_imp_div_less)
  then show "unat (page_directory_index va) < 1023" "page_directory_index va \<noteq> RECURSIVE_DIRECTORY_INDEX"
    by (auto simp: RECURSIVE_DIRECTORY_INDEX_def)
qed

lemma give_frame_free: "unat f mod 4096 = 0 \<Longrightarrow> pmm_free_frames (frames (give_frame f s)) \<subseteq> insert f (pmm_free_frames (frames s))"
proof (cases "f \<noteq> 0 \<and> f < MAX_PHYSICAL_MEMORY")
  case False
  then have "pmm_free_frame f (frames s) = frames s" by (auto simp: pmm_free_frame_def not_less)
  then show ?thesis by (auto simp: give_frame_def)
qed (use pmm.release_frame [of f "frames s"] in \<open>simp add: give_frame_def\<close>)

lemma data_frame_give [simp]: "data_frame (give_frame f s) a = data_frame s a"
  by (simp add: data_frame_def)

lemma data_frame_frames [simp]: "data_frame (s\<lparr>frames := f\<rparr>) a = data_frame s a"
  by (simp add: data_frame_def)

text \<open>One turn of the mapping loop: the page holds a new frame, or nothing has changed.\<close>

lemma map_new_page:
  assumes ok: "paging_ok s" and va: "unat va < 3758096384" and al: "is_page_aligned va"
    and take: "take_frame s = (a, s0)" "a \<noteq> 0"
  obtains (mapped) s1 where "paging_map_page va a PAGE_WRITABLE s0 = Some (True, s1)" "paging_ok s1" "held s1 va"
      "\<And>v. held s v \<Longrightarrow> unat v div 4096 \<noteq> unat va div 4096 \<Longrightarrow> unat v < 3758096384 \<Longrightarrow> held s1 v"
      "\<And>k l. unat k < 1023 \<Longrightarrow> unat l < 1024 \<Longrightarrow> \<not> (k = page_directory_index va \<and> l = page_table_index va) \<Longrightarrow>
        page_entry s1 k l = page_entry s k l"
  | (refused) s1 where "paging_map_page va a PAGE_WRITABLE s0 = Some (False, s1)" "paging_ok (give_frame a s1)"
      "\<And>v. held s v \<Longrightarrow> unat v < 3758096384 \<Longrightarrow> held (give_frame a s1) v"
      "\<And>k l. unat k < 1023 \<Longrightarrow> unat l < 1024 \<Longrightarrow> page_entry (give_frame a s1) k l = page_entry s k l"
proof -
  obtain f where f: "s0 = s\<lparr>frames := f\<rparr>" "unat a mod 4096 = 0" "a \<in> pmm_free_frames (frames s)"
      "pmm_free_frames f = pmm_free_frames (frames s) - {a}"
    using take by (cases rule: take_frame_cases [of s]) auto
  have ok0: "paging_ok s0" unfolding f(1) by (rule take_frame_ok [OF ok]) (use f(4) in blast)
  from paging_map_page_effect [OF ok0, of va a PAGE_WRITABLE] obtain b s1 where
      run: "paging_map_page va a PAGE_WRITABLE s0 = Some (b, s1)" and ok1: "paging_ok s1" and same: "paging_same s0 s1"
        and fr: "pmm_free_frames (frames s1) \<subseteq> pmm_free_frames f"
        and e: "\<And>k l. unat k < 1023 \<Longrightarrow> unat l < 1024 \<Longrightarrow> page_entry s1 k l =
          (if b \<and> k = page_directory_index va \<and> l = page_table_index va then mapped_entry a PAGE_WRITABLE else page_entry s k l)"
    by (auto simp: f(1))
  have dsame: "data_frame s0 x = data_frame s x" for x by (simp add: f(1) data_frame_def)
  have da: "data_frame s1 a"
    by (rule map_data_frame [OF same]) (use data_frame_not_table [OF ok f(3)] f(4) in \<open>simp_all add: dsame f(1)\<close>)
  have keep: "data_frame s1 x \<and> x \<notin> pmm_free_frames (frames s1) \<and> x \<noteq> a" if "data_frame s x" "x \<notin> pmm_free_frames (frames s)" for x
  proof -
    have "data_frame s1 x" by (rule map_data_frame [OF same]) (use that f(4) in \<open>simp_all add: dsame f(1)\<close>)
    then show ?thesis using that fr f(3,4) by auto
  qed
  show thesis
  proof (cases b)
    case True
    show thesis
    proof (rule mapped [of s1])
      show "held s1 va"
        using e [OF below_limit_index(2) [OF va] index_bounds(2) [of va]] da fr f(4) True by (auto simp: held_def)
      fix v assume v: "held s v" "unat v div 4096 \<noteq> unat va div 4096" "unat v < 3758096384"
      then obtain x where x: "page_entry s (page_directory_index v) (page_table_index v) = mapped_entry x PAGE_WRITABLE"
          "data_frame s x" "x \<notin> pmm_free_frames (frames s)" by (auto simp: held_def)
      have "page_entry s1 (page_directory_index v) (page_table_index v) = mapped_entry x PAGE_WRITABLE"
        using e [OF below_limit_index(2) [OF v(3)] index_bounds(2) [of v]] same_page [of v va] v(2) x(1) by auto
      then show "held s1 v" using keep [OF x(2,3)] by (auto simp: held_def)
    qed (use run ok1 True e in auto)
  next
    case False
    show thesis
    proof (rule refused [of s1])
      show "paging_ok (give_frame a s1)" by (rule give_frame_ok [OF ok1 da])
      fix v assume v: "held s v" "unat v < 3758096384"
      then obtain x where x: "page_entry s (page_directory_index v) (page_table_index v) = mapped_entry x PAGE_WRITABLE"
          "data_frame s x" "x \<notin> pmm_free_frames (frames s)" by (auto simp: held_def)
      have "x \<notin> pmm_free_frames (frames (give_frame a s1))" using give_frame_free [OF f(2), of s1] keep [OF x(2,3)] by auto
      then show "held (give_frame a s1) v"
        using e [OF below_limit_index(2) [OF v(2)] index_bounds(2) [of v]] keep [OF x(2,3)] x(1) False by (auto simp: held_def)
    qed (use run False e in auto)
  qed
qed

section \<open>Runs of pages\<close>

lemma page_unat:
  assumes "unat (start :: u32) + 4096 * n \<le> 3758096384" "i < n"
  shows "unat (start + of_nat i * PAGE_SIZE) = unat start + 4096 * i"
proof -
  have i: "4096 * i < 4294967296" using assms by linarith
  then have "unat (of_nat i * PAGE_SIZE) = i * 4096"
    by (subst unat_mult_u32) (simp_all add: PAGE_SIZE_def u32_of_nat_unat)
  then show ?thesis using assms by (subst unat_add_u32) simp_all
qed

lemma page_facts:
  assumes "unat (start :: u32) mod 4096 = 0" "unat start + 4096 * n \<le> 3758096384" "i < n"
  shows "is_page_aligned (start + of_nat i * PAGE_SIZE)" "unat (start + of_nat i * PAGE_SIZE) < 3758096384"
    "unat (start + of_nat i * PAGE_SIZE) div 4096 = unat start div 4096 + i"
  using page_unat [OF assms(2,3)] assms by (simp_all add: aligned_iff)

lemma map_pages_loop_effect:
  assumes al: "unat (start :: u32) mod 4096 = 0"
  shows "paging_ok s \<Longrightarrow> unat start + 4096 * (k + todo) \<le> 3758096384 \<Longrightarrow>
    (\<And>i. i < k \<Longrightarrow> held s (start + of_nat i * PAGE_SIZE)) \<Longrightarrow>
    \<exists>m s'. map_pages_loop start (of_nat k) todo s = Some (of_nat m, s') \<and> k \<le> m \<and> m \<le> k + todo \<and> paging_ok s' \<and>
      (\<forall>i < m. held s' (start + of_nat i * PAGE_SIZE)) \<and>
      (\<forall>v. unat v < 3758096384 \<and> \<not> (unat start div 4096 \<le> unat v div 4096 \<and> unat v div 4096 < unat start div 4096 + m) \<longrightarrow>
         page_entry s' (page_directory_index v) (page_table_index v) = page_entry s (page_directory_index v) (page_table_index v))"
proof (induction todo arbitrary: k s)
  case 0
  then show ?case by (intro exI [of _ k] exI [of _ s]) simp
next
  case (Suc todo)
  let ?va = "start + of_nat k * PAGE_SIZE"
  have b: "unat start + 4096 * (k + Suc todo) \<le> 3758096384" using Suc.prems(2) .
  have kk: "k < k + Suc todo" by simp
  note va = page_facts [OF al b kk]
  show ?case
  proof (cases rule: take_frame_cases [of s])
    case full
    then show ?thesis using Suc.prems by (intro exI [of _ k] exI [of _ s]) simp
  next
    case (frame a f)
    show ?thesis
    proof (cases rule: map_new_page [OF Suc.prems(1) va(2,1) frame(1,2), case_names mapped refused])
      case (mapped s1)
      have h1: "held s1 (start + of_nat i * PAGE_SIZE)" if "i < Suc k" for i
      proof (cases "i = k")
        case False
        then have i: "i < k" "i < k + Suc todo" using that by simp_all
        show ?thesis using page_facts(2,3) [OF al b i(2)] va(3) i(1) by (intro mapped(4) Suc.prems(3)) simp_all
      qed (use mapped(3) in simp)
      have "unat start + 4096 * (Suc k + todo) \<le> 3758096384" using b by simp
      from Suc.IH [OF mapped(2) this h1] obtain m s' where m: "map_pages_loop start (of_nat (Suc k)) todo s1 = Some (of_nat m, s')"
          "Suc k \<le> m" "m \<le> Suc k + todo" "paging_ok s'" "\<forall>i < m. held s' (start + of_nat i * PAGE_SIZE)"
          "\<And>v. unat v < 3758096384 \<Longrightarrow> \<not> (unat start div 4096 \<le> unat v div 4096 \<and> unat v div 4096 < unat start div 4096 + m) \<Longrightarrow>
            page_entry s' (page_directory_index v) (page_table_index v) = page_entry s1 (page_directory_index v) (page_table_index v)"
        by blast
      have run: "map_pages_loop start (of_nat k) (Suc todo) s = Some (of_nat m, s')"
        using frame(1,2) mapped(1) m(1) by (simp add: add.commute)
      have "page_entry s' (page_directory_index v) (page_table_index v) = page_entry s (page_directory_index v) (page_table_index v)"
        if v: "unat v < 3758096384" "\<not> (unat start div 4096 \<le> unat v div 4096 \<and> unat v div 4096 < unat start div 4096 + m)" for v
      proof -
        have "unat v div 4096 \<noteq> unat ?va div 4096" using v(2) m(2) va(3) by auto
        then have "\<not> (page_directory_index v = page_directory_index ?va \<and> page_table_index v = page_table_index ?va)"
          using same_page [of v ?va] by simp
        then show ?thesis using mapped(5) [OF below_limit_index(2) [OF v(1)] index_bounds(2) [of v]] m(6) [OF v] by simp
      qed
      then show ?thesis using run m(2-5) by (intro exI [of _ m] exI [of _ s']) simp
    next
      case (refused s1)
      have "held (give_frame a s1) (start + of_nat i * PAGE_SIZE)" if "i < k" for i
      proof -
        have "i < k + Suc todo" using that by simp
        then show ?thesis using page_facts(2) [OF al b] by (intro refused(3) Suc.prems(3) that) simp
      qed
      then show ?thesis
        using frame(1,2) refused(1,2) refused(4) [OF below_limit_index(2) index_bounds(2)]
        by (intro exI [of _ k] exI [of _ "give_frame a s1"]) simp
    qed
  qed
qed

definition shows_data :: "paging_state \<Rightarrow> u32 \<Rightarrow> bool" where
  "shows_data s va \<longleftrightarrow> (\<exists>a. page_entry s (page_directory_index va) (page_table_index va) = mapped_entry a PAGE_WRITABLE \<and> data_frame s a)"

lemma held_shows: "held s va \<Longrightarrow> shows_data s va"
  by (auto simp: held_def shows_data_def)

lemma unmap_held:
  assumes ok: "paging_ok s" and h: "shows_data s va" and va: "unat va < 3758096384" "is_page_aligned va"
  obtains s' where "paging_unmap_page va True s = Some (True, s')" "paging_ok s'"
    "\<And>v. unat v < 3758096384 \<Longrightarrow> unat v div 4096 \<noteq> unat va div 4096 \<Longrightarrow>
      page_entry s' (page_directory_index v) (page_table_index v) = page_entry s (page_directory_index v) (page_table_index v)"
    "\<And>v. shows_data s v \<Longrightarrow> unat v < 3758096384 \<Longrightarrow> unat v div 4096 \<noteq> unat va div 4096 \<Longrightarrow> shows_data s' v"
proof -
  obtain a where a: "page_entry s (page_directory_index va) (page_table_index va) = mapped_entry a PAGE_WRITABLE" "data_frame s a"
    using h by (auto simp: shows_data_def)
  have af: "a AND PAGE_FRAME = a" using a(2) by (simp add: data_frame_def frame_of_aligned)
  from paging_unmap_page_effect [OF ok, of va True] obtain s1 where
      s1: "paging_unmap_page va True s = Some (True, give_frame a s1)" "paging_ok s1" "paging_same s s1" "frames s1 = frames s"
        "\<And>k l. unat k < 1023 \<Longrightarrow> unat l < 1024 \<Longrightarrow> page_entry s1 k l =
           (if k = page_directory_index va \<and> l = page_table_index va then 0 else page_entry s k l)"
        "\<And>k. unat k < 1024 \<Longrightarrow> pde s1 k = pde s k"
    using a(1) af va(2) below_limit_index(1) [OF va(1)] by auto
  have pt: "present (pde s1 k) = present (pde s k) \<and> table_of s1 k = table_of s k" if "unat k < 1023" for k
    using s1(6) [of k] that by (simp add: table_of_def)
  have d: "data_frame s1 x = data_frame s x" for x
    using pt paging_same_directory [OF s1(3)] by (auto simp: data_frame_def)
  have e: "page_entry (give_frame a s1) (page_directory_index v) (page_table_index v) = page_entry s (page_directory_index v) (page_table_index v)"
    if "unat v < 3758096384" "unat v div 4096 \<noteq> unat va div 4096" for v
    using s1(5) [OF below_limit_index(2) [OF that(1)] index_bounds(2) [of v]] same_page [of v va] that(2) by auto
  show thesis
    by (rule that [OF s1(1)]) (use give_frame_ok [OF s1(2)] a(2) d e in \<open>auto simp: shows_data_def\<close>)
qed

lemma unmap_pages_loop_effect:
  assumes al: "unat (start :: u32) mod 4096 = 0"
  shows "paging_ok s \<Longrightarrow> unat start + 4096 * (k + todo) \<le> 3758096384 \<Longrightarrow>
    (\<And>i. k \<le> i \<Longrightarrow> i < k + todo \<Longrightarrow> shows_data s (start + of_nat i * PAGE_SIZE)) \<Longrightarrow>
    \<exists>s'. unmap_pages_loop start (of_nat k) todo s = Some s' \<and> paging_ok s' \<and>
      (\<forall>v. unat v < 3758096384 \<and> \<not> (unat start div 4096 + k \<le> unat v div 4096 \<and> unat v div 4096 < unat start div 4096 + k + todo) \<longrightarrow>
         page_entry s' (page_directory_index v) (page_table_index v) = page_entry s (page_directory_index v) (page_table_index v))"
proof (induction todo arbitrary: k s)
  case (Suc todo)
  let ?va = "start + of_nat k * PAGE_SIZE"
  have kk: "k < k + Suc todo" by simp
  note va = page_facts [OF al Suc.prems(2) kk]
  obtain s1 where s1: "paging_unmap_page ?va True s = Some (True, s1)" "paging_ok s1"
      "\<And>v. unat v < 3758096384 \<Longrightarrow> unat v div 4096 \<noteq> unat ?va div 4096 \<Longrightarrow>
        page_entry s1 (page_directory_index v) (page_table_index v) = page_entry s (page_directory_index v) (page_table_index v)"
      "\<And>v. shows_data s v \<Longrightarrow> unat v < 3758096384 \<Longrightarrow> unat v div 4096 \<noteq> unat ?va div 4096 \<Longrightarrow> shows_data s1 v"
    using unmap_held [OF Suc.prems(1) Suc.prems(3) [OF order_refl kk] va(2,1)] by blast
  have h1: "shows_data s1 (start + of_nat i * PAGE_SIZE)" if i: "Suc k \<le> i" "i < Suc k + todo" for i
  proof -
    have i': "i < k + Suc todo" using i by simp
    show ?thesis using page_facts(2,3) [OF al Suc.prems(2) i'] va(3) i by (intro s1(4) Suc.prems(3)) simp_all
  qed
  have "unat start + 4096 * (Suc k + todo) \<le> 3758096384" using Suc.prems(2) by simp
  from Suc.IH [OF s1(2) this h1] obtain s' where s': "unmap_pages_loop start (of_nat (Suc k)) todo s1 = Some s'" "paging_ok s'"
      "\<And>v. unat v < 3758096384 \<Longrightarrow> \<not> (unat start div 4096 + Suc k \<le> unat v div 4096 \<and> unat v div 4096 < unat start div 4096 + Suc k + todo) \<Longrightarrow>
        page_entry s' (page_directory_index v) (page_table_index v) = page_entry s1 (page_directory_index v) (page_table_index v)"
    by blast
  have "unmap_pages_loop start (of_nat k) (Suc todo) s = Some s'" using s1(1) s'(1) by (simp add: add.commute)
  moreover have "page_entry s' (page_directory_index v) (page_table_index v) = page_entry s (page_directory_index v) (page_table_index v)"
    if "unat v < 3758096384" "\<not> (unat start div 4096 + k \<le> unat v div 4096 \<and> unat v div 4096 < unat start div 4096 + k + Suc todo)" for v
    using s1(3) [of v] s'(3) [of v] that va(3) by auto
  ultimately show ?case using s'(2) by blast
qed simp

text \<open>The pages below \<open>stop\<close> and above the start of the heap hold frames.\<close>

definition pages_present :: "paging_state \<Rightarrow> nat \<Rightarrow> nat \<Rightarrow> bool" where
  "pages_present s start stop \<longleftrightarrow> (\<forall>v. start \<le> unat v \<and> unat v < stop \<longrightarrow>
     present (page_entry s (page_directory_index v) (page_table_index v)))"

theorem heap_map_pages_effect:
  assumes ok: "paging_ok s" and al: "unat start mod 4096 = 0" and fits: "unat start + 4096 * unat n \<le> 3758096384"
    and old: "pages_present s lo (unat start)"
  shows "\<exists>b s'. heap_map_pages start n s = Some (b, s') \<and> paging_ok s' \<and>
    pages_present s' lo (if b then unat start + 4096 * unat n else unat start)"
proof -
  have "unat start + 4096 * (0 + unat n) \<le> 3758096384" using fits by simp
  from map_pages_loop_effect [OF al ok this] obtain m s1 where
      s1: "map_pages_loop start 0 (unat n) s = Some (of_nat m, s1)" "m \<le> unat n" "paging_ok s1"
        "\<And>i. i < m \<Longrightarrow> held s1 (start + of_nat i * PAGE_SIZE)"
        "\<And>v. unat v < 3758096384 \<Longrightarrow> \<not> (unat start div 4096 \<le> unat v div 4096 \<and> unat v div 4096 < unat start div 4096 + m) \<Longrightarrow>
           page_entry s1 (page_directory_index v) (page_table_index v) = page_entry s (page_directory_index v) (page_table_index v)"
    by auto
  have start: "unat start = 4096 * (unat start div 4096)" using al div_mult_mod_eq [of "unat start" 4096] by simp
  have m32: "unat (of_nat m :: u32) = m" using s1(2) unat_u32_bound [of n] by (intro u32_of_nat_unat) linarith
  have below: "unat v div 4096 < unat start div 4096" if "unat v < unat start" for v :: u32
    using that start by (simp add: less_mult_imp_div_less)
  have pre: "present (page_entry s1 (page_directory_index v) (page_table_index v))" if "lo \<le> unat v" "unat v < unat start" for v
    using s1(5) [of v] below [OF that(2)] old that fits unfolding pages_present_def by simp
  show ?thesis
  proof (cases "of_nat m = n")
    case True
    then have mn: "m = unat n" using m32 by simp
    have "present (page_entry s1 (page_directory_index v) (page_table_index v))" if v: "unat start \<le> unat v" "unat v < unat start + 4096 * unat n" for v
    proof -
      define i where "i = unat v div 4096 - unat start div 4096"
      have le: "unat start div 4096 \<le> unat v div 4096" using v(1) by (rule div_le_mono)
      have "unat v div 4096 < unat start div 4096 + m" using v(2) start mn by (simp add: less_mult_imp_div_less)
      then have i: "i < m" "unat v div 4096 = unat start div 4096 + i" using le unfolding i_def by auto
      have "unat start + 4096 * m \<le> 3758096384" using fits mn by simp
      from page_facts(3) [OF al this i(1)] have "page_directory_index v = page_directory_index (start + of_nat i * PAGE_SIZE) \<and>
          page_table_index v = page_table_index (start + of_nat i * PAGE_SIZE)"
        using i(2) same_page by metis
      then show ?thesis using s1(4) [OF i(1)] by (auto simp: held_def)
    qed
    then have "pages_present s1 lo (unat start + 4096 * unat n)"
      using pre unfolding pages_present_def by (meson not_less)
    moreover have "heap_map_pages start n s = Some (True, s1)" using s1(1) True by (simp add: heap_map_pages_def)
    ultimately show ?thesis using s1(3) by (intro exI [of _ True] exI [of _ s1]) simp
  next
    case False
    have b: "unat start + 4096 * (0 + m) \<le> 3758096384" using fits s1(2) by simp
    from unmap_pages_loop_effect [OF al s1(3) b] obtain s2 where s2: "unmap_pages_loop start 0 m s1 = Some s2" "paging_ok s2"
        "\<And>v. unat v < 3758096384 \<Longrightarrow> \<not> (unat start div 4096 \<le> unat v div 4096 \<and> unat v div 4096 < unat start div 4096 + m) \<Longrightarrow>
           page_entry s2 (page_directory_index v) (page_table_index v) = page_entry s1 (page_directory_index v) (page_table_index v)"
      using held_shows [OF s1(4)] by auto
    have "present (page_entry s2 (page_directory_index v) (page_table_index v))" if "lo \<le> unat v" "unat v < unat start" for v
      using s2(3) [of v] below [OF that(2)] pre [OF that] that fits by simp
    moreover have "heap_map_pages start n s = Some (False, s2)" using s1(1) s2(1) False m32 by (simp add: heap_map_pages_def)
    ultimately show ?thesis using s2(2) by (intro exI [of _ False] exI [of _ s2]) (simp add: pages_present_def)
  qed
qed

end
