(* ===== verification/HeapInv.thy ===== *)
theory HeapInv
  imports HeapPages
begin

text \<open>
  The block list as an abstract sequence of cells (address, payload size, free or not) and the
  operations of the heap as functions on that sequence.
\<close>

section \<open>Links of a list that grows and shrinks behind an element\<close>

lemma dll_insert_after:
  assumes "dll p n h t (xs @ b # ys)" "x \<notin> set (xs @ b # ys)"
  shows "dll (set_link (n b) (Some x) (p(x := Some b))) (n(x := n b, b := Some x)) h
           (if n b = None then Some x else t) (xs @ b # x # ys)"
proof -
  from assms have d: "distinct xs" "distinct ys" "b \<notin> set xs" "b \<notin> set ys" "set xs \<inter> set ys = {}"
      "x \<notin> set xs" "x \<notin> set ys" "x \<noteq> b" "t = last_or None (xs @ b # ys)" "h = first_or None (xs @ b # ys)"
      "dls p n None xs (Some b)" "dls p n (Some b) ys None" and l: "p b = last_or None xs" "n b = first_or None ys"
    by (auto simp: dll_def)
  have nb: "n b \<noteq> Some b" "n b \<noteq> Some x" using l(2) d(4,7) by simp_all
  have out: "n b = None \<or> the (n b) \<notin> set xs" using l(2) d(5) by (cases ys) auto
  have "dls (set_link (n b) (Some x) (p(x := Some b))) (n(x := n b, b := Some x)) None xs (Some b)"
    using d(3,6,11) out by simp
  moreover have "dls (set_link (n b) (Some x) (p(x := Some b))) (n(x := n b, b := Some x)) (Some x) ys None"
  proof -
    have "dls (set_link (first_or None ys) (Some x) (p(x := Some b))) n (Some x) ys None"
      by (rule dls_set_first) (use d(2,7,12) in simp_all)
    then show ?thesis using l(2) d(4,7) by simp
  qed
  moreover have "(if n b = None then Some x else t) = last_or None (xs @ b # x # ys)"
    using d(9) l(2) by (cases ys) simp_all
  moreover have "set_link (n b) (Some x) (p(x := Some b)) b = p b" using nb d(8) by simp
  moreover have "set_link (n b) (Some x) (p(x := Some b)) x = Some b" using nb by simp
  ultimately show ?thesis using d l by (auto simp: dll_def)
qed

lemma dll_remove_after:
  assumes "dll p n h t (xs @ b # x # ys)"
  shows "dll ((set_link (n x) (Some b) p)(x := None)) (n(b := n x, x := None)) h
           (if n x = None then Some b else t) (xs @ b # ys)"
proof -
  from assms have d: "distinct xs" "distinct ys" "b \<notin> set xs" "b \<notin> set ys" "set xs \<inter> set ys = {}"
      "x \<notin> set xs" "x \<notin> set ys" "x \<noteq> b" "t = last_or None (xs @ b # x # ys)" "h = first_or None (xs @ b # ys)"
      "dls p n None xs (Some b)" "dls p n (Some x) ys None" and l: "p b = last_or None xs" "n x = first_or None ys"
    by (auto simp: dll_def)
  have nx: "n x \<noteq> Some b" "n x \<noteq> Some x" using l(2) d(4,7) by simp_all
  have out: "n x = None \<or> the (n x) \<notin> set xs" using l(2) d(5) by (cases ys) auto
  have "dls ((set_link (n x) (Some b) p)(x := None)) (n(b := n x, x := None)) None xs (Some b)"
    using d(3,6,11) out by simp
  moreover have "dls ((set_link (n x) (Some b) p)(x := None)) (n(b := n x, x := None)) (Some b) ys None"
  proof -
    have "dls (set_link (first_or None ys) (Some b) p) n (Some b) ys None"
      by (rule dls_set_first) (use d(2,12) in simp_all)
    then show ?thesis using l(2) d(4,7) by simp
  qed
  moreover have "(if n x = None then Some b else t) = last_or None (xs @ b # ys)"
    using d(9) l(2) by (cases ys) simp_all
  moreover have "((set_link (n x) (Some b) p)(x := None)) b = p b" using nx d(8) by simp
  ultimately show ?thesis using d l by (auto simp: dll_def)
qed

section \<open>Cells\<close>

type_synonym cell = "nat \<times> nat \<times> bool"

definition cell_of :: "(u32 \<Rightarrow> heap_block) \<Rightarrow> u32 \<Rightarrow> cell" where
  "cell_of hs b = (unat b, unat (block_size (hs b)), block_free (hs b))"

lemma map_cell_other [simp]: "b \<notin> set zs \<Longrightarrow> map (cell_of (hs(b := v))) zs = map (cell_of hs) zs"
  by (rule map_cong) (auto simp: cell_of_def)

text \<open>Cells fill the space from \<open>p\<close> to \<open>q\<close>, each with its header of 32 bytes.\<close>

fun tiles :: "nat \<Rightarrow> cell list \<Rightarrow> nat \<Rightarrow> bool" where
  "tiles p [] q \<longleftrightarrow> p = q"
| "tiles p ((a, n, f) # cs) q \<longleftrightarrow> a = p \<and> n mod 16 = 0 \<and> 16 \<le> n \<and> tiles (p + 32 + n) cs q"

lemma tiles_append: "tiles p (cs @ ds) q \<longleftrightarrow> (\<exists>m. tiles p cs m \<and> tiles m ds q)"
  by (induction p cs q rule: tiles.induct) auto

lemma tiles_le: "tiles p cs q \<Longrightarrow> p \<le> q"
  by (induction p cs q rule: tiles.induct) auto

lemma tiles_bounds: "tiles p cs q \<Longrightarrow> (a, n, f) \<in> set cs \<Longrightarrow> p \<le> a \<and> a + 32 + n \<le> q \<and> n mod 16 = 0 \<and> 16 \<le> n"
  by (induction p cs q rule: tiles.induct) (auto dest: tiles_le)

lemma tiles_start: "tiles p cs q \<Longrightarrow> p mod 16 = 0 \<Longrightarrow> (a, n, f) \<in> set cs \<Longrightarrow> a mod 16 = 0"
proof (induction p cs q rule: tiles.induct)
  case (2 p a' n' f' cs q)
  have "(p + 32 + n') mod 16 = 0" using 2 by (simp add: mod_add_eq [symmetric])
  then show ?case using 2 by auto
qed simp

lemma tiles_apart:
  assumes "tiles p cs q" "(a, n, f) \<in> set cs" "(a', n', f') \<in> set cs"
  shows "(a, n, f) = (a', n', f') \<or> a + 32 + n \<le> a' \<or> a' + 32 + n' \<le> a"
  using assms
proof (induction p cs q rule: tiles.induct)
  case (2 p x m g cs q)
  have "y \<in> set cs \<Longrightarrow> p + 32 + m \<le> fst y" for y using 2(2) tiles_bounds [of "p + 32 + m" cs q "fst y" "fst (snd y)" "snd (snd y)"] by simp
  then show ?case using 2 by force
qed simp

definition heap_list :: "heap \<Rightarrow> u32 list \<Rightarrow> bool" where
  "heap_list h bs \<longleftrightarrow>
     dll (block_previous \<circ> headers h) (block_next \<circ> headers h) (heap_first_block h) (heap_last_block h) bs \<and>
     tiles (unat KERNEL_HEAP_START) (map (cell_of (headers h)) bs) (unat (heap_mapped_end h)) \<and>
     (\<forall>a. a \<in> set bs \<longleftrightarrow> block_magic (headers h a) = HEAP_BLOCK_MAGIC) \<and>
     unat (heap_mapped_end h) \<le> unat KERNEL_HEAP_LIMIT"

definition cells :: "heap \<Rightarrow> u32 list \<Rightarrow> cell list" where
  "cells h bs = map (cell_of (headers h)) bs"

text \<open>What the list operations leave alone.\<close>

definition heap_same :: "heap \<Rightarrow> heap \<Rightarrow> bool" where
  "heap_same h h' \<longleftrightarrow> paging h' = paging h \<and> payload h' = payload h \<and> heap_mapped_end h' = heap_mapped_end h \<and>
     heap_initialized h' = heap_initialized h"

lemma heap_same_refl [simp]: "heap_same h h"
  by (simp add: heap_same_def)

lemma heap_same_trans [trans]: "heap_same h h' \<Longrightarrow> heap_same h' h'' \<Longrightarrow> heap_same h h''"
  by (simp add: heap_same_def)

lemma set_header_simps [simp]:
  "headers (set_header b f h) = (headers h)(b := f (headers h b))" "heap_same h (set_header b f h)"
  "heap_first_block (set_header b f h) = heap_first_block h" "heap_last_block (set_header b f h) = heap_last_block h"
  "heap_mapped_end (set_header b f h) = heap_mapped_end h" "paging (set_header b f h) = paging h"
  "payload (set_header b f h) = payload h" "heap_initialized (set_header b f h) = heap_initialized h"
  by (simp_all add: set_header_def heap_same_def)

lemma heap_list_cell:
  assumes "heap_list h (xs @ b # ys)"
  shows "208 * 16777216 \<le> unat b" "unat b + 32 + unat (block_size (headers h b)) \<le> unat (heap_mapped_end h)"
    "unat (block_size (headers h b)) mod 16 = 0" "16 \<le> unat (block_size (headers h b))" "unat b mod 16 = 0"
proof -
  have t: "tiles (unat KERNEL_HEAP_START) (map (cell_of (headers h)) (xs @ b # ys)) (unat (heap_mapped_end h))"
    using assms by (simp only: heap_list_def)
  have m: "(unat b, unat (block_size (headers h b)), block_free (headers h b)) \<in> set (map (cell_of (headers h)) (xs @ b # ys))"
    by (simp add: cell_of_def)
  show "208 * 16777216 \<le> unat b" "unat b + 32 + unat (block_size (headers h b)) \<le> unat (heap_mapped_end h)"
    "unat (block_size (headers h b)) mod 16 = 0" "16 \<le> unat (block_size (headers h b))" "unat b mod 16 = 0"
    using tiles_bounds [OF t m] tiles_start [OF t _ m] by (simp_all add: KERNEL_HEAP_START_def)
qed

text \<open>Changing the free flag of a block.\<close>

lemma heap_list_set_free:
  assumes "heap_list h (xs @ b # ys)"
  shows "heap_list (set_header b (block_free_update (\<lambda>_. v)) h) (xs @ b # ys)"
    "cells (set_header b (block_free_update (\<lambda>_. v)) h) (xs @ b # ys) =
      cells h xs @ (unat b, unat (block_size (headers h b)), v) # cells h ys"
proof -
  let ?h = "set_header b (block_free_update (\<lambda>_. v)) h"
  have d: "b \<notin> set xs" "b \<notin> set ys" using assms by (auto simp: heap_list_def dll_def)
  have l: "block_previous \<circ> headers ?h = block_previous \<circ> headers h" "block_next \<circ> headers ?h = block_next \<circ> headers h"
    by auto
  have cb: "cell_of (headers ?h) b = (unat b, unat (block_size (headers h b)), v)" by (simp add: cell_of_def)
  have m: "map (cell_of (headers ?h)) (xs @ b # ys) =
      map (cell_of (headers h)) xs @ (unat b, unat (block_size (headers h b)), v) # map (cell_of (headers h)) ys"
    using d cb by simp
  have t: "tiles (unat KERNEL_HEAP_START) (map (cell_of (headers h)) (xs @ b # ys)) (unat (heap_mapped_end h))"
    using assms by (simp only: heap_list_def)
  then have "tiles (unat KERNEL_HEAP_START) (map (cell_of (headers ?h)) (xs @ b # ys)) (unat (heap_mapped_end ?h))"
    unfolding m by (auto simp: tiles_append cell_of_def simp del: map_cell_other)
  then show "heap_list ?h (xs @ b # ys)"
    using assms unfolding heap_list_def l by auto
  show "cells ?h (xs @ b # ys) = cells h xs @ (unat b, unat (block_size (headers h b)), v) # cells h ys"
    unfolding cells_def by (rule m)
qed

section \<open>Splitting\<close>

text \<open>A cell cut to \<open>m\<close> bytes.\<close>

definition carve :: "nat \<Rightarrow> cell \<Rightarrow> cell list" where
  "carve m = (\<lambda>(a, n, f). if m + 48 \<le> n then [(a, m, f), (a + 32 + m, n - m - 32, True)] else [(a, n, f)])"

lemma heap_split_refines:
  assumes l: "heap_list h (xs @ b # ys)" and m: "unat m mod 16 = 0" "16 \<le> unat m" "unat m \<le> unat (block_size (headers h b))"
  shows "\<exists>zs. heap_list (heap_split_block b m h) (xs @ b # zs @ ys) \<and> heap_same h (heap_split_block b m h) \<and>
    cells (heap_split_block b m h) (xs @ b # zs @ ys) = cells h xs @ carve (unat m) (cell_of (headers h) b) @ cells h ys \<and>
    (\<forall>a \<in> set (xs @ ys). block_free (headers (heap_split_block b m h) a) = block_free (headers h a) \<and>
       block_size (headers (heap_split_block b m h) a) = block_size (headers h a))"
proof (cases "unat m + 48 \<le> unat (block_size (headers h b))")
  case False
  let ?n = "block_size (headers h b)"
  have "unat (?n - m) = unat ?n - unat m" using m(3) by (simp add: unat_sub_u32)
  then have "?n - m < 48" using False by (simp add: word_less_nat_alt)
  then have "heap_split_block b m h = h"
    using m(3) by (simp add: heap_split_block_def machine_consts word_less_nat_alt Let_def)
  then show ?thesis using l False by (intro exI [of _ "[]"]) (simp add: cells_def carve_def cell_of_def)
next
  case True
  let ?hs = "headers h"
  let ?n = "block_size (?hs b)"
  let ?c = "b + sizeof_heap_block + m"
  note cell = heap_list_cell [OF l]
  have lim: "unat (heap_mapped_end h) \<le> 3758096384" using l by (simp add: heap_list_def KERNEL_HEAP_LIMIT_def)
  have dl: "dll (block_previous \<circ> ?hs) (block_next \<circ> ?hs) (heap_first_block h) (heap_last_block h) (xs @ b # ys)"
    and ti: "tiles (unat KERNEL_HEAP_START) (map (cell_of ?hs) (xs @ b # ys)) (unat (heap_mapped_end h))"
    and ma: "\<And>a. a \<in> set (xs @ b # ys) \<longleftrightarrow> block_magic (?hs a) = HEAP_BLOCK_MAGIC"
    using l by (auto simp: heap_list_def)
  have c: "unat ?c = unat b + 32 + unat m"
  proof -
    have "unat (b + sizeof_heap_block) = unat b + 32" using cell(2) lim by (subst unat_add_u32) (simp_all add: sizeof_heap_block_def)
    then show ?thesis using cell(2) lim m(3) by (subst unat_add_u32) simp_all
  qed
  have rem: "unat (?n - m) = unat ?n - unat m" using m(3) by (simp add: unat_sub_u32)
  then have ge: "\<not> ?n < m" "\<not> ?n - m < sizeof_heap_block + HEAP_MINIMUM_PAYLOAD"
    using m(3) True by (simp_all add: word_less_nat_alt machine_consts)
  have rest: "unat (?n - m - sizeof_heap_block) = unat ?n - unat m - 32"
    using rem True by (subst unat_sub_u32) (simp_all add: sizeof_heap_block_def)
  have out: "?c \<notin> set (xs @ b # ys)"
  proof
    assume "?c \<in> set (xs @ b # ys)"
    then have one: "(unat ?c, unat (block_size (?hs ?c)), block_free (?hs ?c)) \<in> set (map (cell_of ?hs) (xs @ b # ys))"
      unfolding set_map by (rule image_eqI [rotated]) (simp add: cell_of_def)
    have two: "(unat b, unat ?n, block_free (?hs b)) \<in> set (map (cell_of ?hs) (xs @ b # ys))" by (simp add: cell_of_def)
    show False using tiles_apart [OF ti one two] unfolding prod.inject c using True by linarith
  qed
  have d: "b \<notin> set xs" "b \<notin> set ys" "?c \<noteq> b" "?c \<notin> set xs" "?c \<notin> set ys" using dl out by (auto simp: dll_def)
  have nx: "block_next (?hs b) = first_or None ys" using dll_links [OF dl] by simp
  have nxb: "block_next (?hs b) \<noteq> Some b" "block_next (?hs b) \<noteq> Some ?c" using nx d by simp_all
  define h' where "h' = heap_split_block b m h"
  have hd: "headers h' = (\<lambda>a. if a = b then (?hs b)\<lparr>block_size := m, block_next := Some ?c\<rparr>
      else if a = ?c then \<lparr>block_size = ?n - m - sizeof_heap_block, block_previous = Some b, block_next = block_next (?hs b),
          block_magic = HEAP_BLOCK_MAGIC, block_free = True\<rparr>
      else if block_next (?hs b) = Some a then (?hs a)\<lparr>block_previous := Some ?c\<rparr> else ?hs a)"
    and ends: "heap_first_block h' = heap_first_block h" "heap_last_block h' = (if block_next (?hs b) = None then Some ?c else heap_last_block h)"
    and same: "heap_same h h'"
    unfolding h'_def heap_split_block_def using ge d(3) nxb
    by (auto simp: Let_def heap_same_def fun_eq_iff split: option.split)
  have pv: "block_previous \<circ> headers h' = set_link (block_next (?hs b)) (Some ?c) ((block_previous \<circ> ?hs)(?c := Some b))"
    using d(3) nxb by (cases "block_next (?hs b)") (auto simp: hd fun_eq_iff)
  have nt: "block_next \<circ> headers h' = (block_next \<circ> ?hs)(?c := block_next (?hs b), b := Some ?c)"
    using d(3) by (auto simp: hd fun_eq_iff)
  have dl': "dll (block_previous \<circ> headers h') (block_next \<circ> headers h') (heap_first_block h') (heap_last_block h') (xs @ b # ?c # ys)"
    using dll_insert_after [OF dl out] by (simp add: pv nt ends)
  have keep: "cell_of (headers h') a = cell_of ?hs a" if "a \<in> set (xs @ ys)" for a
    using that d by (auto simp: hd cell_of_def)
  then have maps: "map (cell_of (headers h')) xs = map (cell_of ?hs) xs" "map (cell_of (headers h')) ys = map (cell_of ?hs) ys" by simp_all
  have cb: "cell_of (headers h') b = (unat b, unat m, block_free (?hs b))"
    "cell_of (headers h') ?c = (unat b + 32 + unat m, unat ?n - unat m - 32, True)"
    using d(3) c rest by (simp_all add: hd cell_of_def)
  have n16: "(unat ?n - unat m - 32) mod 16 = 0" 
  proof -
    have "16 dvd unat ?n - unat m - 32" using cell(3) m(1) by (intro dvd_diff_nat) (simp_all add: dvd_eq_mod_eq_0)
    then show ?thesis by simp
  qed
  have "tiles (unat KERNEL_HEAP_START) (map (cell_of (headers h')) (xs @ b # ?c # ys)) (unat (heap_mapped_end h'))"
  proof -
    obtain p where p: "tiles (unat KERNEL_HEAP_START) (map (cell_of ?hs) xs) p" "tiles p (map (cell_of ?hs) (b # ys)) (unat (heap_mapped_end h))"
      using ti by (auto simp: tiles_append)
    have pb: "p = unat b" and t: "tiles (unat b + 32 + unat ?n) (map (cell_of ?hs) ys) (unat (heap_mapped_end h))"
      using p(2) by (simp_all add: cell_of_def)
    have "unat b + 32 + unat m + 32 + (unat ?n - unat m - 32) = unat b + 32 + unat ?n" using True by simp
    then have "tiles (unat b) ((unat b, unat m, block_free (?hs b)) # (unat b + 32 + unat m, unat ?n - unat m - 32, True) #
        map (cell_of ?hs) ys) (unat (heap_mapped_end h))"
      using t m n16 True by (simp add: ac_simps)
    then have "tiles (unat b) (map (cell_of (headers h')) (b # ?c # ys)) (unat (heap_mapped_end h))"
      unfolding list.map maps cb .
    then show ?thesis using p(1) pb same unfolding map_append tiles_append maps by (auto simp: heap_same_def)
  qed
  moreover have "a \<in> set (xs @ b # ?c # ys) \<longleftrightarrow> block_magic (headers h' a) = HEAP_BLOCK_MAGIC" for a
    using ma [of a] d by (auto simp: hd)
  ultimately have "heap_list h' (xs @ b # [?c] @ ys)" using dl' same l by (simp add: heap_list_def heap_same_def)
  moreover have "cells h' (xs @ b # [?c] @ ys) = cells h xs @ carve (unat m) (cell_of ?hs b) @ cells h ys"
    using maps cb True by (simp add: cells_def carve_def cell_of_def)
  moreover have "\<forall>a \<in> set (xs @ ys). block_free (headers h' a) = block_free (?hs a) \<and> block_size (headers h' a) = block_size (?hs a)"
    using d by (auto simp: hd)
  ultimately show ?thesis using same unfolding h'_def [symmetric] by blast
qed

section \<open>Merging\<close>

lemma heap_merge_idle:
  assumes "heap_list h (xs @ b # ys)" "case ys of [] \<Rightarrow> True | c # _ \<Rightarrow> \<not> block_free (headers h c)"
  shows "heap_merge_with_next b h = h"
proof -
  have "dll (block_previous \<circ> headers h) (block_next \<circ> headers h) (heap_first_block h) (heap_last_block h) (xs @ b # ys)"
    using assms(1) by (simp add: heap_list_def)
  from dll_links [OF this] have "block_next (headers h b) = first_or None ys" by simp
  then show ?thesis using assms(2) by (cases ys) (simp_all add: heap_merge_with_next_def)
qed

lemma heap_merge_absorbs:
  assumes l: "heap_list h (xs @ b # c # ys)" and f: "block_free (headers h c)"
  shows "heap_list (heap_merge_with_next b h) (xs @ b # ys)" "heap_same h (heap_merge_with_next b h)"
    "cells (heap_merge_with_next b h) (xs @ b # ys) =
      cells h xs @ (unat b, unat (block_size (headers h b)) + 32 + unat (block_size (headers h c)), block_free (headers h b)) # cells h ys"
    "a \<noteq> c \<Longrightarrow> block_free (headers (heap_merge_with_next b h) a) = block_free (headers h a)"
proof -
  let ?hs = "headers h"
  let ?n = "block_size (?hs b)" and ?k = "block_size (?hs c)"
  have dl: "dll (block_previous \<circ> ?hs) (block_next \<circ> ?hs) (heap_first_block h) (heap_last_block h) (xs @ b # c # ys)"
    and ti: "tiles (unat KERNEL_HEAP_START) (map (cell_of ?hs) (xs @ b # c # ys)) (unat (heap_mapped_end h))"
    and ma: "\<And>a. a \<in> set (xs @ b # c # ys) \<longleftrightarrow> block_magic (?hs a) = HEAP_BLOCK_MAGIC"
    and lim: "unat (heap_mapped_end h) \<le> 3758096384"
    using l by (auto simp: heap_list_def KERNEL_HEAP_LIMIT_def)
  obtain p where p: "tiles (unat KERNEL_HEAP_START) (map (cell_of ?hs) xs) p"
      "tiles p (map (cell_of ?hs) (b # c # ys)) (unat (heap_mapped_end h))"
    using ti by (auto simp: tiles_append)
  have pb: "p = unat b" "unat c = unat b + 32 + unat ?n" "unat ?n mod 16 = 0" "16 \<le> unat ?n" "unat ?k mod 16 = 0" "16 \<le> unat ?k"
      "tiles (unat b + 32 + unat ?n + 32 + unat ?k) (map (cell_of ?hs) ys) (unat (heap_mapped_end h))"
    using p(2) by (simp_all add: cell_of_def)
  have fit: "unat b + 32 + unat ?n + 32 + unat ?k \<le> unat (heap_mapped_end h)" using tiles_le [OF pb(7)] .
  have c: "c = b + sizeof_heap_block + ?n"
  proof -
    have "unat (b + sizeof_heap_block) = unat b + 32" using fit lim by (subst unat_add_u32) (simp_all add: sizeof_heap_block_def)
    then have "unat (b + sizeof_heap_block + ?n) = unat c" using fit lim pb(2) by (subst unat_add_u32) simp_all
    then show ?thesis using word_unat_eq_iff by metis
  qed
  have sz: "unat (?n + (sizeof_heap_block + ?k)) = unat ?n + 32 + unat ?k"
  proof -
    have "unat (sizeof_heap_block + ?k) = 32 + unat ?k" using fit lim by (subst unat_add_u32) (simp_all add: sizeof_heap_block_def)
    then show ?thesis using fit lim by (subst unat_add_u32) simp_all
  qed
  have d: "b \<notin> set xs" "b \<notin> set ys" "c \<noteq> b" "c \<notin> set xs" "c \<notin> set ys" using dl by (auto simp: dll_def)
  have "block_next (?hs b) = Some c" "block_next (?hs c) = first_or None ys" using dll_links [OF dl]
    dll_links [of _ _ _ _ "xs @ [b]" c ys] dl by simp_all
  note nx = this
  have nxc: "block_next (?hs c) \<noteq> Some b" "block_next (?hs c) \<noteq> Some c" using nx d by simp_all
  define h' where "h' = heap_merge_with_next b h"
  have "heap_merge_with_next b h = (let h1 = set_header b (block_size_update (\<lambda>x. x + (sizeof_heap_block + ?k))) h;
      h2 = set_header b (block_next_update (\<lambda>_. block_next (?hs c))) h1;
      h3 = (case block_next (?hs c) of Some m \<Rightarrow> set_header m (block_previous_update (\<lambda>_. Some b)) h2
              | None \<Rightarrow> h2\<lparr>heap_last_block := Some b\<rparr>) in set_header c (\<lambda>_. zero_block) h3)"
    unfolding heap_merge_with_next_def nx(1) using f d(3) by (simp add: Let_def c [symmetric] split: option.split)
  note eq = this
  have hd: "headers h' = (\<lambda>a. if a = c then zero_block
      else if a = b then (?hs b)\<lparr>block_size := ?n + (sizeof_heap_block + ?k), block_next := block_next (?hs c)\<rparr>
      else if block_next (?hs c) = Some a then (?hs a)\<lparr>block_previous := Some b\<rparr> else ?hs a)"
    and ends: "heap_first_block h' = heap_first_block h" "heap_last_block h' = (if block_next (?hs c) = None then Some b else heap_last_block h)"
    and same: "heap_same h h'"
    unfolding h'_def eq using d(3) nxc
    by (auto simp: Let_def heap_same_def fun_eq_iff split: option.split)
  have pv: "block_previous \<circ> headers h' = (set_link (block_next (?hs c)) (Some b) (block_previous \<circ> ?hs))(c := None)"
    using d(3) nxc by (cases "block_next (?hs c)") (auto simp: hd fun_eq_iff zero_block_def)
  have nt: "block_next \<circ> headers h' = (block_next \<circ> ?hs)(b := block_next (?hs c), c := None)"
    using d(3) by (auto simp: hd fun_eq_iff zero_block_def)
  have dl': "dll (block_previous \<circ> headers h') (block_next \<circ> headers h') (heap_first_block h') (heap_last_block h') (xs @ b # ys)"
    using dll_remove_after [OF dl] by (simp add: pv nt ends)
  have keep: "cell_of (headers h') a = cell_of ?hs a" if "a \<in> set (xs @ ys)" for a
    using that d by (auto simp: hd cell_of_def)
  then have maps: "map (cell_of (headers h')) xs = map (cell_of ?hs) xs" "map (cell_of (headers h')) ys = map (cell_of ?hs) ys" by simp_all
  have cb: "cell_of (headers h') b = (unat b, unat ?n + 32 + unat ?k, block_free (?hs b))"
    using d(3) sz by (simp add: hd cell_of_def)
  have "tiles (unat KERNEL_HEAP_START) (map (cell_of (headers h')) (xs @ b # ys)) (unat (heap_mapped_end h'))"
  proof -
    have "(unat ?n + 32 + unat ?k) mod 16 = 0"
    proof -
      have "16 dvd unat ?n + 32 + unat ?k" using pb(3,5) by (intro dvd_add) (simp_all add: dvd_eq_mod_eq_0)
      then show ?thesis by simp
    qed
    then have "tiles (unat b) ((unat b, unat ?n + 32 + unat ?k, block_free (?hs b)) # map (cell_of ?hs) ys) (unat (heap_mapped_end h))"
      using pb(4,7) by (simp add: ac_simps)
    then have "tiles (unat b) (map (cell_of (headers h')) (b # ys)) (unat (heap_mapped_end h))" unfolding list.map maps cb .
    then show ?thesis using p(1) pb(1) same unfolding map_append tiles_append maps by (auto simp: heap_same_def)
  qed
  moreover have "a \<in> set (xs @ b # ys) \<longleftrightarrow> block_magic (headers h' a) = HEAP_BLOCK_MAGIC" for a
    using ma [of a] d by (auto simp: hd zero_block_def HEAP_BLOCK_MAGIC_def)
  ultimately show "heap_list (heap_merge_with_next b h) (xs @ b # ys)"
    using dl' same l unfolding h'_def [symmetric] by (simp add: heap_list_def heap_same_def)
  show "heap_same h (heap_merge_with_next b h)" using same unfolding h'_def .
  show "cells (heap_merge_with_next b h) (xs @ b # ys) = cells h xs @ (unat b, unat ?n + 32 + unat ?k, block_free (?hs b)) # cells h ys"
    using maps cb unfolding h'_def [symmetric] by (simp add: cells_def)
  show "a \<noteq> c \<Longrightarrow> block_free (headers (heap_merge_with_next b h) a) = block_free (?hs a)"
    unfolding h'_def [symmetric] by (simp add: hd)
qed

end
