(* ===== verification/HeapSpec.thy ===== *)
theory HeapSpec
  imports HeapInv
begin

text \<open>
  The specification of the heap on sequences of cells: first fit with splitting, growth at the end,
  release with merging. The operations of \<open>Heap\<close> are shown to refine it.
\<close>

section \<open>First fit\<close>

fun place :: "nat \<Rightarrow> cell list \<Rightarrow> (nat \<times> cell list) option" where
  "place m [] = None"
| "place m ((a, n, f) # cs) =
     (if f \<and> m \<le> n
      then Some (a, (if m + 48 \<le> n then [(a, m, False), (a + 32 + m, n - m - 32, True)] else [(a, n, False)]) @ cs)
      else map_option (map_prod id ((#) (a, n, f))) (place m cs))"

definition fits :: "nat \<Rightarrow> cell \<Rightarrow> bool" where
  "fits m c \<longleftrightarrow> snd (snd c) \<and> m \<le> fst (snd c)"

lemma place_skip:
  "\<forall>c \<in> set xs. \<not> fits m c \<Longrightarrow> place m (xs @ ys) = map_option (map_prod id ((@) xs)) (place m ys)"
  by (induction xs; cases "place m ys") (auto simp: fits_def map_prod_def id_def)

lemma place_None_iff: "place m cs = None \<longleftrightarrow> (\<forall>c \<in> set cs. \<not> fits m c)"
proof (induction cs)
  case (Cons c cs)
  then show ?case by (cases c) (auto simp: fits_def)
qed simp

lemma place_someE:
  assumes "place m cs = Some (p, ds)"
  obtains xs n ys where "cs = xs @ (p, n, True) # ys" "m \<le> n" "\<forall>c \<in> set xs. \<not> fits m c"
    "ds = xs @ (if m + 48 \<le> n then [(p, m, False), (p + 32 + m, n - m - 32, True)] else [(p, n, False)]) @ ys"
  using assms
proof (induction cs arbitrary: ds thesis)
  case (Cons c cs)
  obtain a n f where c: "c = (a, n, f)" by (cases c)
  show ?case
  proof (cases "f \<and> m \<le> n")
    case True
    then show ?thesis using Cons.prems c by (intro Cons.prems(1) [of "[]" n cs]) (auto split: if_splits)
  next
    case False
    then obtain es where "place m cs = Some (p, es)" "ds = (a, n, f) # es" using Cons.prems(2) c by auto
    moreover from Cons.IH [OF _ this(1)] obtain xs k ys where "cs = xs @ (p, k, True) # ys" "m \<le> k" "\<forall>c \<in> set xs. \<not> fits m c"
        "es = xs @ (if m + 48 \<le> k then [(p, m, False), (p + 32 + m, k - m - 32, True)] else [(p, k, False)]) @ ys" by blast
    ultimately show ?thesis using False c by (intro Cons.prems(1) [of "c # xs" k ys]) (auto simp: fits_def)
  qed
qed simp

lemma find_free_loop_run:
  "dls p (block_next \<circ> hs) pr bs None \<Longrightarrow>
   find_free_loop hs m (first_or None bs) = Some (List.find (\<lambda>b. block_free (hs b) \<and> m \<le> block_size (hs b)) bs)"
proof (induction bs arbitrary: pr)
  case (Cons b bs)
  then have "block_next (hs b) = first_or None bs" "dls p (block_next \<circ> hs) (Some b) bs None" by (simp_all add: comp_def)
  then show ?case using Cons.IH by (subst find_free_loop.simps) (simp add: comp_def)
qed (simp add: find_free_loop.simps)

lemma heap_find_run:
  assumes "heap_list h bs"
  shows "heap_find_free_block m h = Some (List.find (\<lambda>b. block_free (headers h b) \<and> m \<le> block_size (headers h b)) bs)"
  unfolding heap_find_free_block_def using assms find_free_loop_run [of _ "headers h" None bs m]
  by (auto simp: heap_list_def dll_def)

lemma fits_cell [simp]: "fits (unat m) (cell_of hs b) \<longleftrightarrow> block_free (hs b) \<and> m \<le> block_size (hs b)"
  by (simp add: fits_def cell_of_def word_le_nat_alt)

lemma find_split:
  "List.find P bs = Some b \<Longrightarrow> \<exists>xs ys. bs = xs @ b # ys \<and> P b \<and> (\<forall>x \<in> set xs. \<not> P x)"
  unfolding find_Some_iff
proof (elim exE conjE)
  fix i assume i: "i < length bs" "P (bs ! i)" "b = bs ! i" "\<forall>j < i. \<not> P (bs ! j)"
  have "bs = take i bs @ b # drop (Suc i) bs" using i(1,3) by (simp add: id_take_nth_drop)
  moreover have "\<forall>x \<in> set (take i bs). \<not> P x" using i(1,4) by (auto simp: in_set_conv_nth)
  ultimately show ?thesis using i(2,3) by blast
qed

definition allocate_block :: "u32 \<Rightarrow> u32 \<Rightarrow> heap \<Rightarrow> heap" where
  "allocate_block b m h = set_header b (block_free_update (\<lambda>_. False)) (heap_split_block b m h)"

lemma heap_place:
  assumes l: "heap_list h bs" and m: "unat m mod 16 = 0" "16 \<le> unat m"
    and f: "List.find (\<lambda>b. block_free (headers h b) \<and> m \<le> block_size (headers h b)) bs = Some b"
  shows "\<exists>bs'. heap_list (allocate_block b m h) bs' \<and> heap_same h (allocate_block b m h) \<and>
    place (unat m) (cells h bs) = Some (unat b, cells (allocate_block b m h) bs')"
proof -
  from find_split [OF f] obtain xs ys where bs: "bs = xs @ b # ys" "block_free (headers h b)" "m \<le> block_size (headers h b)"
      "\<forall>x \<in> set xs. \<not> (block_free (headers h x) \<and> m \<le> block_size (headers h x))" by blast
  have skip: "\<forall>c \<in> set (cells h xs). \<not> fits (unat m) c" using bs(4) by (auto simp: cells_def)
  let ?n = "unat (block_size (headers h b))" and ?h = "heap_split_block b m h"
  have mn: "unat m \<le> ?n" using bs(3) by (simp add: word_le_nat_alt)
  from heap_split_refines [OF l [unfolded bs(1)] m mn] obtain zs where z: "heap_list ?h (xs @ b # zs @ ys)" "heap_same h ?h"
      "cells ?h (xs @ b # zs @ ys) = cells h xs @ carve (unat m) (cell_of (headers h) b) @ cells h ys" by blast
  have len: "length (cells h' bs) = length bs" for h' bs by (simp add: cells_def)
  have "cells ?h xs = cells h xs \<and> cells ?h (b # zs) = carve (unat m) (cell_of (headers h) b) \<and> cells ?h ys = cells h ys"
  proof -
    have "cells ?h xs @ cells ?h (b # zs) @ cells ?h ys = cells h xs @ carve (unat m) (cell_of (headers h) b) @ cells h ys"
      using z(3) by (simp add: cells_def)
    moreover have "cells ?h xs = cells h xs" using calculation len [of ?h xs] len [of h xs] by (metis append_eq_append_conv)
    ultimately show ?thesis using len [of ?h ys] len [of h ys] by (metis append_eq_append_conv)
  qed
  note parts = this
  have c: "cells (allocate_block b m h) (xs @ b # zs @ ys) = cells h xs @ (unat b, unat (block_size (headers ?h b)), False) # cells ?h zs @ cells h ys"
    unfolding allocate_block_def heap_list_set_free(2) [OF z(1)] using parts by (simp add: cells_def)
  have "(unat b, unat (block_size (headers ?h b)), False) # cells ?h zs =
      (if unat m + 48 \<le> ?n then [(unat b, unat m, False), (unat b + 32 + unat m, ?n - unat m - 32, True)] else [(unat b, ?n, False)])"
    using parts by (auto simp: cells_def carve_def cell_of_def split: if_splits)
  then have "place (unat m) (cells h bs) = Some (unat b, cells (allocate_block b m h) (xs @ b # zs @ ys))"
    unfolding c using mn bs(2) skip unfolding bs(1) by (simp add: cells_def place_skip) (simp add: cell_of_def)
  moreover have "heap_same h (allocate_block b m h)" unfolding allocate_block_def by (rule heap_same_trans [OF z(2)]) simp
  ultimately show ?thesis using heap_list_set_free(1) [OF z(1)] unfolding allocate_block_def by blast
qed

lemma heap_place_none:
  assumes "List.find (\<lambda>b. block_free (headers h b) \<and> m \<le> block_size (headers h b)) bs = None"
  shows "place (unat m) (cells h bs) = None"
  using assms by (auto simp: place_None_iff cells_def find_None_iff)

section \<open>Growth\<close>

definition heap_ok :: "heap \<Rightarrow> u32 list \<Rightarrow> bool" where
  "heap_ok h bs \<longleftrightarrow> heap_list h bs \<and> heap_initialized h \<and> unat (heap_mapped_end h) mod 4096 = 0 \<and>
     KERNEL_HEAP_START < heap_mapped_end h \<and> paging_ok (paging h) \<and>
     pages_present (paging h) (unat KERNEL_HEAP_START) (unat (heap_mapped_end h))"

lemma heap_ok_same: "heap_ok h bs \<Longrightarrow> heap_same h h' \<Longrightarrow> heap_list h' bs' \<Longrightarrow> heap_ok h' bs'"
  by (simp add: heap_ok_def heap_same_def)

lemma heap_ok_list: "heap_ok h bs \<Longrightarrow> heap_list h bs"
  by (simp add: heap_ok_def)

lemma heap_ok_last:
  assumes "heap_ok h bs"
  obtains xs l where "bs = xs @ [l]" "heap_last_block h = Some l"
    "unat l + 32 + unat (block_size (headers h l)) = unat (heap_mapped_end h)"
proof -
  have t: "tiles (unat KERNEL_HEAP_START) (map (cell_of (headers h)) bs) (unat (heap_mapped_end h))"
    and d: "dll (block_previous \<circ> headers h) (block_next \<circ> headers h) (heap_first_block h) (heap_last_block h) bs"
    using assms by (simp_all only: heap_ok_def heap_list_def)
  have "bs \<noteq> []" using assms t by (auto simp: heap_ok_def word_less_nat_alt)
  then obtain xs l where bs: "bs = xs @ [l]" by (metis rev_exhaust)
  have "unat l + 32 + unat (block_size (headers h l)) = unat (heap_mapped_end h)"
    using t unfolding bs by (auto simp: tiles_append cell_of_def)
  then show thesis using that [of xs l] bs dll_head_tail [OF d] by simp
qed

text \<open>The bytes that an expansion for a payload of \<open>m\<close> bytes adds: whole pages, four at least.\<close>

definition growth :: "nat \<Rightarrow> nat" where
  "growth m = 4096 * max 4 ((m + 4127) div 4096)"

lemma growth_room: "m + 32 \<le> growth m"
proof -
  have "m + 4127 = 4096 * ((m + 4127) div 4096) + (m + 4127) mod 4096" by simp
  moreover have "(m + 4127) mod 4096 \<le> 4095" by (simp add: less_Suc_eq_le [symmetric])
  moreover have "4096 * ((m + 4127) div 4096) \<le> growth m" by (simp add: growth_def)
  ultimately show ?thesis by linarith
qed

text \<open>New space at \<open>e\<close> extends a free cell at the end of the sequence, or becomes a cell of its own.\<close>

definition grow :: "nat \<Rightarrow> nat \<Rightarrow> cell list \<Rightarrow> cell list" where
  "grow e k cs = (case rev cs of
     (a, n, True) # rs \<Rightarrow> rev rs @ [(a, n + k, True)]
   | _ \<Rightarrow> cs @ [(e, k - 32, True)])"

lemma grow_append: "grow e k (xs @ [(a, n, f)]) = (if f then xs @ [(a, n + k, True)] else xs @ [(a, n, f), (e, k - 32, True)])"
  by (simp add: grow_def)

definition expand_request :: "u32 \<Rightarrow> u32 \<Rightarrow> u32 option" where
  "expand_request m e =
     (if m > SIZE_MAX - sizeof_heap_block \<or> pages_for_size (sizeof_heap_block + m) = 0 then None
      else
        let n = (if pages_for_size (sizeof_heap_block + m) < HEAP_MINIMUM_EXPANSION then HEAP_MINIMUM_EXPANSION
                 else pages_for_size (sizeof_heap_block + m))
        in if n > SIZE_MAX div PAGE_SIZE \<or> e > KERNEL_HEAP_LIMIT \<or> n * PAGE_SIZE > KERNEL_HEAP_LIMIT - e then None else Some n)"

lemma heap_expand_steps:
  "heap_expand m h = (case expand_request m (heap_mapped_end h) of
     None \<Rightarrow> Some (False, h)
   | Some n \<Rightarrow> do {
       (ok, s) \<leftarrow> heap_map_pages (heap_mapped_end h) n (paging h);
       Some (if ok then (True, heap_append_space (n * PAGE_SIZE) (h\<lparr>paging := s\<rparr>)) else (False, h\<lparr>paging := s\<rparr>))
     })"
  unfolding heap_expand_def expand_request_def
  by (simp add: Let_def)

lemma expand_pages:
  assumes "\<not> m > SIZE_MAX - sizeof_heap_block" "pages_for_size (sizeof_heap_block + m) \<noteq> 0"
  shows "unat (pages_for_size (sizeof_heap_block + m)) = (unat m + 4127) div 4096"
proof -
  have "unat (sizeof_heap_block + m) = 32 + unat m"
    using assms(1) by (subst unat_add_u32) (simp_all add: sizeof_heap_block_def SIZE_MAX_def word_less_nat_alt)
  moreover from assms(2) have "\<not> sizeof_heap_block + m > SIZE_MAX - (PAGE_SIZE - 1)" by (auto simp: pages_for_size_def)
  ultimately have "unat (sizeof_heap_block + m + PAGE_SIZE - 1) = unat m + 4127"
    and "pages_for_size (sizeof_heap_block + m) = (sizeof_heap_block + m + PAGE_SIZE - 1) div PAGE_SIZE"
    using unat_add_u32 [of "sizeof_heap_block + m" 4095]
    by (simp_all add: pages_for_size_def SIZE_MAX_def PAGE_SIZE_def word_less_nat_alt add_diff_eq [symmetric])
  then show ?thesis by (simp add: unat_div PAGE_SIZE_def)
qed

lemma expand_request_bound:
  assumes "expand_request m e = Some n"
  shows "4096 * unat n = growth (unat m)" "unat e + growth (unat m) \<le> unat KERNEL_HEAP_LIMIT" "unat (n * PAGE_SIZE) = growth (unat m)"
proof -
  let ?k = "pages_for_size (sizeof_heap_block + m)"
  have k: "unat ?k = (unat m + 4127) div 4096" and n: "n = (if ?k < HEAP_MINIMUM_EXPANSION then HEAP_MINIMUM_EXPANSION else ?k)"
    and r: "\<not> n > SIZE_MAX div PAGE_SIZE" "\<not> e > KERNEL_HEAP_LIMIT" "\<not> n * PAGE_SIZE > KERNEL_HEAP_LIMIT - e"
    using assms expand_pages [of m] by (auto simp: expand_request_def Let_def split: if_splits)
  show g: "4096 * unat n = growth (unat m)"
    using k unfolding n growth_def by (simp add: HEAP_MINIMUM_EXPANSION_def word_less_nat_alt max_def)
  have "unat n \<le> 1048575" using r(1) by (simp add: word_less_nat_alt SIZE_MAX_def PAGE_SIZE_def unat_div)
  then show u: "unat (n * PAGE_SIZE) = growth (unat m)" using g by (subst unat_mult_u32) (simp_all add: PAGE_SIZE_def)
  show "unat e + growth (unat m) \<le> unat KERNEL_HEAP_LIMIT"
    using r(2,3) u by (simp add: word_less_nat_alt unat_sub_u32)
qed

lemma zero_range_simps [simp]:
  "paging (zero_range e k h) = paging h" "heap_first_block (zero_range e k h) = heap_first_block h"
  "heap_last_block (zero_range e k h) = heap_last_block h" "heap_mapped_end (zero_range e k h) = heap_mapped_end h"
  "heap_initialized (zero_range e k h) = heap_initialized h"
  by (simp_all add: zero_range_def)

lemma heap_append_grows:
  assumes l: "heap_list h bs" and bs: "bs = xs @ [b]" and k: "unat k mod 4096 = 0" "4096 \<le> unat k"
    and room: "unat (heap_mapped_end h) + unat k \<le> unat KERNEL_HEAP_LIMIT"
  shows "\<exists>bs'. heap_list (heap_append_space k h) bs' \<and> cells (heap_append_space k h) bs' = grow (unat (heap_mapped_end h)) (unat k) (cells h bs)"
proof -
  let ?e = "heap_mapped_end h" and ?hs = "headers h"
  let ?n = "block_size (?hs b)"
  have dl: "dll (block_previous \<circ> ?hs) (block_next \<circ> ?hs) (heap_first_block h) (heap_last_block h) (xs @ [b])"
    and ti: "tiles (unat KERNEL_HEAP_START) (map (cell_of ?hs) (xs @ [b])) (unat ?e)"
    and ma: "\<And>a. a \<in> set (xs @ [b]) \<longleftrightarrow> block_magic (?hs a) = HEAP_BLOCK_MAGIC"
    using l by (simp_all add: heap_list_def bs)
  have lb: "heap_last_block h = Some b" using dll_head_tail [OF dl] by simp
  have tb: "tiles (unat KERNEL_HEAP_START) (map (cell_of ?hs) xs) (unat b)" "unat b + 32 + unat ?n = unat ?e"
      "unat ?n mod 16 = 0" "16 \<le> unat ?n"
    using ti by (auto simp: tiles_append cell_of_def)
  have below: "unat a < unat ?e" if "a \<in> set (xs @ [b])" for a
    using that tb(2) tiles_bounds [OF tb(1), of "unat a" "unat (block_size (?hs a))" "block_free (?hs a)"]
    by (auto simp: cell_of_def)
  have d: "b \<notin> set xs" "?e \<notin> set (xs @ [b])" "?e \<noteq> b" using dl below by (auto simp: dll_def)
  have ek: "unat (?e + k) = unat ?e + unat k" using room by (subst unat_add_u32) (simp_all add: KERNEL_HEAP_LIMIT_def)
  have k16: "unat k mod 16 = 0" using k(1) mod_mod_cancel [of 16 4096 "unat k"] by simp
  define hz where "hz = zero_range ?e k h"
  have hz: "headers hz a = (if unat ?e \<le> unat a \<and> unat a < unat ?e + unat k then zero_block else ?hs a)" for a
    by (simp add: hz_def zero_range_def word_le_nat_alt)
  have old: "headers hz a = ?hs a" if "a \<in> set (xs @ [b])" for a using below [OF that] by (simp add: hz)
  have mz: "block_magic (headers hz a) = HEAP_BLOCK_MAGIC \<longleftrightarrow> a \<in> set (xs @ [b])" for a
    using ma [of a] below [of a] by (auto simp: hz zero_block_def HEAP_BLOCK_MAGIC_def)
  have hzl: "heap_last_block hz = Some b" by (simp add: hz_def lb)
  define h' where "h' = heap_append_space k h"
  have en: "heap_mapped_end h' = ?e + k" "heap_first_block h' = heap_first_block h"
    unfolding h'_def using lb by (simp_all add: heap_append_space_def Let_def)
  show ?thesis
  proof (cases "block_free (?hs b)")
    case True
    have hd: "headers h' = (headers hz)(b := block_size_update (\<lambda>n. n + k) (?hs b))" and la: "heap_last_block h' = Some b"
      unfolding h'_def using True old [of b] hzl lb by (simp_all add: heap_append_space_def Let_def hz_def [symmetric])
    have "dll (block_previous \<circ> headers h') (block_next \<circ> headers h') (heap_first_block h') (heap_last_block h') (xs @ [b])"
      unfolding en la
      by (subst dll_cong [where p = "block_previous \<circ> ?hs" and n = "block_next \<circ> ?hs"]) (use dl old lb in \<open>auto simp: hd\<close>)
    moreover have maps: "map (cell_of (headers h')) xs = map (cell_of ?hs) xs" using d(1) old by (auto simp: hd cell_of_def)
    moreover have "unat (?n + k) = unat ?n + unat k" using tb(2) room by (subst unat_add_u32) (simp_all add: KERNEL_HEAP_LIMIT_def)
    then have cb: "cell_of (headers h') b = (unat b, unat ?n + unat k, True)" using True by (simp add: hd cell_of_def)
    moreover have "tiles (unat KERNEL_HEAP_START) (map (cell_of (headers h')) (xs @ [b])) (unat (heap_mapped_end h'))"
    proof -
      have "16 dvd unat ?n + unat k" using tb(3) k16 by (intro dvd_add) (simp_all add: dvd_eq_mod_eq_0)
      then have "tiles (unat b) [(unat b, unat ?n + unat k, True)] (unat ?e + unat k)" using tb(2,4) by simp
      then show ?thesis using tb(1) unfolding en ek map_append tiles_append maps list.map cb by blast
    qed
    moreover have "a \<in> set (xs @ [b]) \<longleftrightarrow> block_magic (headers h' a) = HEAP_BLOCK_MAGIC" for a
      using mz [of a] ma [of b] by (auto simp: hd)
    ultimately have "heap_list h' (xs @ [b])" using room by (simp only: heap_list_def en ek) simp
    moreover have "cells h' (xs @ [b]) = grow (unat ?e) (unat k) (cells h bs)"
      using maps cb True by (simp add: cells_def bs cell_of_def grow_append)
    ultimately show ?thesis unfolding h'_def by blast
  next
    case False
    have hd: "headers h' = (\<lambda>a. if a = b then (?hs b)\<lparr>block_next := Some ?e\<rparr>
        else if a = ?e then \<lparr>block_size = k - sizeof_heap_block, block_previous = Some b, block_next = None,
          block_magic = HEAP_BLOCK_MAGIC, block_free = True\<rparr> else headers hz a)" and la: "heap_last_block h' = Some ?e"
      unfolding h'_def using False old [of b] hzl lb d(3)
      by (auto simp: heap_append_space_def Let_def hz_def [symmetric] fun_eq_iff)
    have "dll ((block_previous \<circ> ?hs)(?e := Some b)) (set_link (Some b) (Some ?e) ((block_next \<circ> ?hs)(?e := None))) (heap_first_block h)
        (Some ?e) ((xs @ [b]) @ [?e])"
      using dll_push_back [OF dl d(2)] unfolding lb by simp
    then have "dll (block_previous \<circ> headers h') (block_next \<circ> headers h') (heap_first_block h') (heap_last_block h') ((xs @ [b]) @ [?e])"
      unfolding en la
      by (subst dll_cong [where p = "(block_previous \<circ> ?hs)(?e := Some b)" and n = "set_link (Some b) (Some ?e) ((block_next \<circ> ?hs)(?e := None))"])
        (use old d in \<open>auto simp: hd\<close>)
    moreover have maps: "map (cell_of (headers h')) xs = map (cell_of ?hs) xs" using d old by (auto simp: hd cell_of_def)
    moreover have "unat (k - sizeof_heap_block) = unat k - 32" using k(2) by (subst unat_sub_u32) (simp_all add: sizeof_heap_block_def)
    then have cb: "cell_of (headers h') b = (unat b, unat ?n, False)" "cell_of (headers h') ?e = (unat ?e, unat k - 32, True)"
      using False d(3) by (simp_all add: hd cell_of_def)
    moreover have "tiles (unat KERNEL_HEAP_START) (map (cell_of (headers h')) ((xs @ [b]) @ [?e])) (unat (heap_mapped_end h'))"
    proof -
      have "16 dvd unat k - 32" using k16 by (intro dvd_diff_nat) (simp_all add: dvd_eq_mod_eq_0)
      then have "tiles (unat b) [(unat b, unat ?n, False), (unat ?e, unat k - 32, True)] (unat ?e + unat k)" using tb k(2) by simp
      then show ?thesis using tb(1) unfolding en ek append_assoc append_Cons append_Nil map_append tiles_append maps list.map cb by blast
    qed
    moreover have "a \<in> set ((xs @ [b]) @ [?e]) \<longleftrightarrow> block_magic (headers h' a) = HEAP_BLOCK_MAGIC" for a
      using mz [of a] ma [of b] d by (auto simp: hd)
    ultimately have "heap_list h' ((xs @ [b]) @ [?e])" using room by (simp only: heap_list_def en ek) simp
    moreover have "cells h' ((xs @ [b]) @ [?e]) = grow (unat ?e) (unat k) (cells h bs)"
      using maps cb False by (simp add: cells_def bs cell_of_def grow_append)
    ultimately show ?thesis unfolding h'_def by blast
  qed
qed

lemma heap_append_other:
  "paging (heap_append_space k h) = paging h" "heap_initialized (heap_append_space k h) = heap_initialized h"
  "heap_mapped_end (heap_append_space k h) = heap_mapped_end h + k"
  "unat a < unat (heap_mapped_end h) \<Longrightarrow> payload (heap_append_space k h) a = payload h a"
  by (auto simp: heap_append_space_def Let_def zero_range_def set_header_def word_le_nat_alt split: option.split)

lemma cells_append: "cells h (xs @ ys) = cells h xs @ cells h ys"
  by (simp add: cells_def)

lemma cells_Cons: "cells h (x # xs) = (unat x, unat (block_size (headers h x)), block_free (headers h x)) # cells h xs"
  by (simp add: cells_def cell_of_def)

lemma cells_Nil [simp]: "cells h [] = []"
  by (simp add: cells_def)

lemma length_cells [simp]: "length (cells h xs) = length xs"
  by (simp add: cells_def)

lemma cells_prefix:
  assumes "cells h' (xs @ ys) = cells h xs @ zs"
  shows "cells h' xs = cells h xs" "cells h' ys = zs"
  using assms by (simp_all add: cells_append append_eq_append_conv)

lemma heap_expand_cases:
  assumes ok: "heap_ok h bs"
  obtains (refused) s' where "heap_expand m h = Some (False, h\<lparr>paging := s'\<rparr>)" "heap_ok (h\<lparr>paging := s'\<rparr>) bs"
  | (grown) h' bs' where "heap_expand m h = Some (True, h')" "heap_ok h' bs'"
      "cells h' bs' = grow (unat (heap_mapped_end h)) (growth (unat m)) (cells h bs)"
      "\<And>a. unat a < unat (heap_mapped_end h) \<Longrightarrow> payload h' a = payload h a"
      "unat (heap_mapped_end h') = unat (heap_mapped_end h) + growth (unat m)"
proof (cases "expand_request m (heap_mapped_end h)")
  case None
  then show thesis using refused [of "paging h"] ok by (simp add: heap_expand_steps)
next
  case (Some n)
  let ?e = "heap_mapped_end h"
  note b = expand_request_bound [OF Some]
  have hok: "heap_list h bs" "unat ?e mod 4096 = 0" "KERNEL_HEAP_START < ?e" "paging_ok (paging h)"
      "pages_present (paging h) (unat KERNEL_HEAP_START) (unat ?e)" "heap_initialized h"
    using ok by (simp_all add: heap_ok_def)
  have list: "heap_list (h\<lparr>paging := s\<rparr>) bs" for s using hok(1) by (simp add: heap_list_def)
  have cl: "cells (h\<lparr>paging := s\<rparr>) bs = cells h bs" for s by (simp add: cells_def)
  have "unat ?e + 4096 * unat n \<le> 3758096384" using b(1,2) by (simp add: KERNEL_HEAP_LIMIT_def)
  from heap_map_pages_effect [OF hok(4,2) this hok(5)] obtain g s where
      run: "heap_map_pages ?e n (paging h) = Some (g, s)" and s: "paging_ok s"
        "pages_present s (unat KERNEL_HEAP_START) (if g then unat ?e + 4096 * unat n else unat ?e)" by blast
  show thesis
  proof (cases g)
    case False
    show thesis
      by (rule refused [of s]) (use False run Some list hok s in \<open>simp_all add: heap_expand_steps heap_ok_def\<close>)
  next
    case True
    obtain xs l where bs: "bs = xs @ [l]" using ok by (rule heap_ok_last)
    let ?h = "heap_append_space (n * PAGE_SIZE) (h\<lparr>paging := s\<rparr>)"
    have k: "unat (n * PAGE_SIZE) mod 4096 = 0" "4096 \<le> unat (n * PAGE_SIZE)" unfolding b(3) growth_def by simp_all
    have "unat (heap_mapped_end (h\<lparr>paging := s\<rparr>)) + unat (n * PAGE_SIZE) \<le> unat KERNEL_HEAP_LIMIT" using b(2,3) by simp
    from heap_append_grows [OF list bs k this] obtain bs' where bs': "heap_list ?h bs'"
        "cells ?h bs' = grow (unat ?e) (growth (unat m)) (cells h bs)" unfolding b(3) cl by auto
    have e: "unat (?e + n * PAGE_SIZE) = unat ?e + growth (unat m)" using b(2,3) by (subst unat_add_u32) (simp_all add: KERNEL_HEAP_LIMIT_def)
    have "unat (?e + n * PAGE_SIZE) mod 4096 = 0" using e hok(2) k(1) b(3) by (simp add: mod_add_eq [symmetric])
    moreover have "KERNEL_HEAP_START < ?e + n * PAGE_SIZE" using hok(3) e by (simp add: word_less_nat_alt)
    ultimately have "heap_ok ?h bs'"
      using bs'(1) s True hok(6) e b(1) by (simp add: heap_ok_def heap_append_other)
    moreover have "payload ?h a = payload h a" if "unat a < unat ?e" for a
      using heap_append_other(4) [of a "h\<lparr>paging := s\<rparr>"] that by simp
    ultimately show thesis
      using grown [of ?h bs'] bs'(2) run Some True e by (simp add: heap_expand_steps heap_append_other)
  qed
qed

lemma place_grow: "place m (grow e (growth m) cs) \<noteq> None"
proof -
  have "\<exists>c \<in> set (grow e (growth m) cs). fits m c"
  proof (cases cs rule: rev_cases)
    case Nil
    then show ?thesis using growth_room [of m] by (auto simp: grow_def fits_def)
  next
    case (snoc xs c)
    obtain a n f where "c = (a, n, f)" by (cases c)
    then show ?thesis using growth_room [of m] unfolding snoc by (auto simp: grow_append fits_def)
  qed
  then show ?thesis by (auto simp: place_None_iff)
qed

section \<open>Release\<close>

text \<open>A cell takes in the free cell behind it.\<close>

fun join :: "cell list \<Rightarrow> cell list" where
  "join ((a, n, f) # (b, k, True) # cs) = (a, n + 32 + k, f) # cs"
| "join cs = cs"

text \<open>The cell at \<open>a\<close> becomes free and joins its neighbours.\<close>

fun release :: "nat \<Rightarrow> cell list \<Rightarrow> cell list" where
  "release a [] = []"
| "release a ((b, n, f) # cs) =
     (if b = a then join ((b, n, True) # cs)
      else if f \<and> cs \<noteq> [] \<and> fst (hd cs) = a then join ((b, n, f) # release a cs)
      else (b, n, f) # release a cs)"

lemma release_split:
  assumes "a \<notin> fst ` set xs"
  shows "release a (xs @ (a, n, f) # ys) =
    (if xs \<noteq> [] \<and> snd (snd (last xs)) then butlast xs @ join (last xs # join ((a, n, True) # ys)) else xs @ join ((a, n, True) # ys))"
  using assms
proof (induction xs)
  case (Cons x xs)
  obtain b k g where x: "x = (b, k, g)" by (cases x)
  have "xs = [] \<or> fst (hd (xs @ (a, n, f) # ys)) \<noteq> a" using Cons.prems by (cases xs) force+
  then show ?case using Cons x by auto
qed simp

lemma heap_merge_joins:
  assumes "heap_list h (xs @ b # ys)"
  shows "\<exists>ys'. heap_list (heap_merge_with_next b h) (xs @ b # ys') \<and> heap_same h (heap_merge_with_next b h) \<and>
    cells (heap_merge_with_next b h) (xs @ b # ys') = cells h xs @ join (cells h (b # ys))"
proof (cases "\<exists>c zs. ys = c # zs \<and> block_free (headers h c)")
  case True
  then obtain c zs where ys: "ys = c # zs" "block_free (headers h c)" by blast
  note m = heap_merge_absorbs [OF assms [unfolded ys(1)] ys(2)]
  show ?thesis using m(1-3) ys by (intro exI [of _ zs]) (simp add: cells_Cons)
next
  case False
  then have "join (cells h (b # ys)) = cells h (b # ys)" by (cases ys) (auto simp: cells_Cons)
  moreover have "heap_merge_with_next b h = h" using heap_merge_idle [OF assms] False by (cases ys) auto
  ultimately show ?thesis using assms by (intro exI [of _ ys]) (simp add: cells_append)
qed

definition free_block :: "u32 \<Rightarrow> heap \<Rightarrow> heap" where
  "free_block b h =
     (let h = set_header b (block_free_update (\<lambda>_. True)) h;
          h = heap_merge_with_next b h
      in case block_previous (headers h b) of
           Some p \<Rightarrow> if block_free (headers h p) then heap_merge_with_next p h else h
         | None \<Rightarrow> h)"

lemma heap_free_steps:
  "heap_free_unlocked pointer h = (case heap_block_from_pointer pointer h of
     None \<Rightarrow> h | Some b \<Rightarrow> if block_free (headers h b) then h else free_block b h)"
  by (simp add: heap_free_unlocked_def free_block_def Let_def split: option.split)

lemma free_block_refines:
  assumes l: "heap_list h (xs @ b # ys)"
  shows "\<exists>bs'. heap_list (free_block b h) bs' \<and> heap_same h (free_block b h) \<and>
    cells (free_block b h) bs' = release (unat b) (cells h (xs @ b # ys))"
proof -
  let ?h1 = "set_header b (block_free_update (\<lambda>_. True)) h"
  let ?h2 = "heap_merge_with_next b ?h1"
  let ?t = "join ((unat b, unat (block_size (headers h b)), True) # cells h ys)"
  have b: "unat b \<notin> fst ` set (cells h xs)"
  proof -
    have "b \<notin> set xs" using l by (simp add: heap_list_def dll_def)
    then show ?thesis by (auto simp: cells_def cell_of_def dest: word_unat_eq_iff [THEN iffD2])
  qed
  from heap_list_set_free(2) [OF l, of True] have c1: "cells ?h1 xs = cells h xs" "cells ?h1 (b # ys) = (unat b, unat (block_size (headers h b)), True) # cells h ys"
    by (rule cells_prefix)+
  from heap_merge_joins [OF heap_list_set_free(1) [OF l, of True]] obtain ys2 where
      h2: "heap_list ?h2 (xs @ b # ys2)" "heap_same ?h1 ?h2" and c: "cells ?h2 (xs @ b # ys2) = cells h xs @ ?t"
    unfolding c1 by blast
  have c2: "cells ?h2 xs = cells h xs" "cells ?h2 (b # ys2) = ?t" by (rule cells_prefix [OF c])+
  have same: "heap_same h ?h2" using heap_same_trans [OF _ h2(2)] by simp
  have prev: "block_previous (headers ?h2 b) = last_or None xs"
    using h2(1) dll_links [of "block_previous \<circ> headers ?h2"] unfolding heap_list_def by force
  show ?thesis
  proof (cases "\<exists>ws p. xs = ws @ [p] \<and> block_free (headers h p)")
    case True
    then obtain ws p where xs: "xs = ws @ [p]" "block_free (headers h p)" by blast
    have cp: "cells ?h2 ws = cells h ws" "cells ?h2 [p] = cells h [p]"
      using c2(1) unfolding xs by (simp_all add: cells_append)
    have "free_block b h = heap_merge_with_next p ?h2"
      using prev xs cp(2) by (simp add: free_block_def Let_def cells_Cons)
    moreover have "heap_list ?h2 (ws @ p # b # ys2)" using h2(1) xs by simp
    from heap_merge_joins [OF this] obtain zs where "heap_list (heap_merge_with_next p ?h2) (ws @ p # zs)"
        "heap_same ?h2 (heap_merge_with_next p ?h2)"
        "cells (heap_merge_with_next p ?h2) (ws @ p # zs) = cells h ws @ join (cells h [p] @ ?t)"
      using cp c2(2) cells_append [of ?h2 "[p]" "b # ys2"] by auto
    moreover have "release (unat b) (cells h (xs @ b # ys)) = cells h ws @ join (cells h [p] @ ?t)"
      unfolding cells_append cells_Cons release_split [OF b] unfolding xs using xs(2) by (simp add: cells_append cells_Cons)
    ultimately show ?thesis using heap_same_trans [OF same] by metis
  next
    case False
    have "free_block b h = ?h2"
    proof (cases xs rule: rev_cases)
      case Nil
      then show ?thesis using prev by (simp add: free_block_def Let_def)
    next
      case (snoc ws p)
      then have "cells ?h2 [p] = cells h [p]" using c2(1) by (simp add: cells_append)
      then show ?thesis using prev snoc False by (auto simp: free_block_def Let_def cells_Cons)
    qed
    moreover have "release (unat b) (cells h (xs @ b # ys)) = cells h xs @ ?t"
      unfolding cells_append cells_Cons release_split [OF b] using False by (cases xs rule: rev_cases) (auto simp: cells_append cells_Cons)
    ultimately show ?thesis using h2(1) same c by metis
  qed
qed

lemma heap_block_from_pointer_run:
  assumes ok: "heap_list h bs"
  shows "heap_block_from_pointer (Some p) h = (if p - sizeof_heap_block \<in> set bs then Some (p - sizeof_heap_block) else None)"
proof (cases "p - sizeof_heap_block \<in> set bs")
  case True
  then obtain xs ys where bs: "bs = xs @ (p - sizeof_heap_block) # ys" by (meson split_list)
  note c = heap_list_cell [OF ok [unfolded bs]]
  have lim: "unat (heap_mapped_end h) \<le> 3758096384" using ok by (simp add: heap_list_def KERNEL_HEAP_LIMIT_def)
  have "unat (p - sizeof_heap_block + sizeof_heap_block) = unat (p - sizeof_heap_block) + 32"
    using c(2) lim by (subst unat_add_u32) (simp_all add: sizeof_heap_block_def)
  then have p: "unat p = unat (p - sizeof_heap_block) + 32" by simp
  have "block_magic (headers h (p - sizeof_heap_block)) = HEAP_BLOCK_MAGIC" using ok True by (simp add: heap_list_def)
  then show ?thesis using True c(1,2,4) p
    by (simp add: heap_block_from_pointer_def heap_pointer_is_inside_def KERNEL_HEAP_START_def word_le_nat_alt word_less_nat_alt Let_def
        sizeof_heap_block_def)
next
  case False
  then have "block_magic (headers h (p - sizeof_heap_block)) \<noteq> HEAP_BLOCK_MAGIC" using ok by (auto simp: heap_list_def)
  then show ?thesis using False by (simp add: heap_block_from_pointer_def Let_def)
qed

section \<open>Allocation\<close>

definition allocate_spec :: "nat \<Rightarrow> nat \<Rightarrow> bool \<Rightarrow> cell list \<Rightarrow> (nat \<times> cell list) option" where
  "allocate_spec m e room cs = (case place m cs of
     Some r \<Rightarrow> Some r
   | None \<Rightarrow> if room then place m (grow e (growth m) cs) else None)"

definition can_grow :: "u32 \<Rightarrow> heap \<Rightarrow> bool" where
  "can_grow m h \<longleftrightarrow> (\<exists>h'. heap_expand m h = Some (True, h'))"

definition round16 :: "u32 \<Rightarrow> nat" where
  "round16 n = 16 * ((unat n + 15) div 16)"

lemma and_not_15_unat: "unat ((a :: u32) AND NOT 15) = unat a - unat a mod 16"
proof -
  have "(a AND NOT 15) + (a AND 15) = (a AND NOT 15) OR (a AND 15)"
    by (rule disjunctive_add_eq_or) (simp add: and.assoc and.left_commute)
  also have "\<dots> = a"
    by (simp only: bit.conj_disj_distrib [symmetric]) simp
  finally have "a AND NOT 15 = a - (a AND 15)" by (simp only: eq_diff_eq)
  moreover have "a AND 15 = a mod 16"
    using take_bit_eq_mask [of 4 a] by (simp add: mask_eq_decr_exp take_bit_eq_mod)
  ultimately show ?thesis by (simp add: unat_sub_u32 u32_mod_unat)
qed

lemma align_up_size_16:
  "n > SIZE_MAX - 15 \<Longrightarrow> align_up_size n HEAP_ALIGNMENT = 0"
  "\<not> n > SIZE_MAX - 15 \<Longrightarrow> unat (align_up_size n HEAP_ALIGNMENT) = round16 n"
proof -
  show "n > SIZE_MAX - 15 \<Longrightarrow> align_up_size n HEAP_ALIGNMENT = 0"
    by (simp add: align_up_size_def HEAP_ALIGNMENT_def Let_def)
  assume n: "\<not> n > SIZE_MAX - 15"
  then have "unat (n + 15) = unat n + 15" by (subst unat_add_u32) (simp_all add: SIZE_MAX_def word_less_nat_alt)
  moreover have "align_up_size n HEAP_ALIGNMENT = (n + 15) AND NOT 15" using n by (simp add: align_up_size_def HEAP_ALIGNMENT_def Let_def)
  moreover have "x - x mod 16 = 16 * (x div 16)" for x :: nat by (simp add: minus_mod_eq_mult_div)
  ultimately show "unat (align_up_size n HEAP_ALIGNMENT) = round16 n" by (simp only: and_not_15_unat round16_def)
qed

lemma round16_facts: "round16 n mod 16 = 0" "n \<noteq> 0 \<Longrightarrow> 16 \<le> round16 n" "unat n \<le> round16 n"
proof -
  show "round16 n mod 16 = 0" by (simp add: round16_def)
  have "unat n + 15 = 16 * ((unat n + 15) div 16) + (unat n + 15) mod 16" by simp
  moreover have "(unat n + 15) mod 16 \<le> 15" by (simp add: less_Suc_eq_le [symmetric])
  ultimately show "unat n \<le> round16 n" unfolding round16_def by linarith
  assume "n \<noteq> 0"
  then have "1 \<le> unat n" by (simp add: Suc_le_eq unat_gt_0)
  then have "1 \<le> (unat n + 15) div 16" by simp
  then show "16 \<le> round16 n" by (simp add: round16_def)
qed

lemma allocate_run:
  assumes ok: "heap_ok h bs" and n: "n \<noteq> 0" "\<not> n > SIZE_MAX - 15" and m: "m = align_up_size n HEAP_ALIGNMENT"
  shows "\<exists>r h' bs'. heap_allocate_unlocked n h = Some (r, h') \<and> heap_ok h' bs' \<and>
    (case allocate_spec (round16 n) (unat (heap_mapped_end h)) (can_grow m h) (cells h bs) of
       None \<Rightarrow> r = None \<and> cells h' bs' = cells h bs
     | Some (a, cs) \<Rightarrow> r = Some (of_nat (a + 32)) \<and> cells h' bs' = cs) \<and>
    (\<forall>a. unat a < unat (heap_mapped_end h) \<longrightarrow> payload h' a = payload h a) \<and>
    unat (heap_mapped_end h) \<le> unat (heap_mapped_end h')"
proof -
  have mr: "unat m = round16 n" unfolding m by (rule align_up_size_16(2) [OF n(2)])
  have m16: "unat m mod 16 = 0" "16 \<le> unat m" unfolding mr using round16_facts n(1) by simp_all
  have m0: "m \<noteq> 0" using m16(2) by auto
  have i: "heap_initialized h" and l: "heap_list h bs" using ok by (simp_all add: heap_ok_def)
  let ?P = "\<lambda>h b. block_free (headers h b) \<and> m \<le> block_size (headers h b)"
  have run: "heap_allocate_unlocked n h = (case List.find (?P h) bs of
      Some b \<Rightarrow> Some (Some (b + sizeof_heap_block), allocate_block b m h)
    | None \<Rightarrow> do {
        (ok, h') \<leftarrow> heap_expand m h;
        if \<not> ok then Some (None, h')
        else do { found \<leftarrow> heap_find_free_block m h';
          Some (case found of None \<Rightarrow> (None, h') | Some b \<Rightarrow> (Some (b + sizeof_heap_block), allocate_block b m h')) } })"
    using i n(1) m0 unfolding heap_allocate_unlocked_def m [symmetric] Let_def heap_find_run [OF l]
    by (auto simp: allocate_block_def Let_def split: option.split bind_split intro!: arg_cong2 [where f = Option.bind] ext)
  have plus: "b + sizeof_heap_block = of_nat (unat b + 32)" for b :: u32 by (simp add: sizeof_heap_block_def)
  show ?thesis
  proof (cases "List.find (?P h) bs")
    case (Some b)
    from heap_place [OF l m16 Some] obtain bs' where bs': "heap_list (allocate_block b m h) bs'" "heap_same h (allocate_block b m h)"
        "place (round16 n) (cells h bs) = Some (unat b, cells (allocate_block b m h) bs')" unfolding mr by blast
    have "heap_allocate_unlocked n h = Some (Some (of_nat (unat b + 32)), allocate_block b m h)" unfolding run Some plus by simp
    then show ?thesis
      using bs' heap_ok_same [OF ok bs'(2,1)]
      by (intro exI [of _ "Some (of_nat (unat b + 32))"] exI [of _ "allocate_block b m h"] exI [of _ bs'])
        (simp add: allocate_spec_def heap_same_def)
  next
    case None
    note np = heap_place_none [OF None, unfolded mr]
    show ?thesis
    proof (cases rule: heap_expand_cases [OF ok, of m, case_names refused grown])
      case (refused s)
      have "heap_allocate_unlocked n h = Some (None, h\<lparr>paging := s\<rparr>)" unfolding run None using refused(1) by simp
      then show ?thesis
        using refused np by (intro exI [of _ None] exI [of _ "h\<lparr>paging := s\<rparr>"] exI [of _ bs])
          (simp add: allocate_spec_def can_grow_def cells_def)
    next
      case (grown h1 bs1)
      note l1 = heap_ok_list [OF grown(2)]
      have g: "place (round16 n) (cells h1 bs1) \<noteq> None" unfolding grown(3) mr by (rule place_grow)
      then obtain b where b: "List.find (?P h1) bs1 = Some b" 
        using heap_place_none [of h1 m bs1] g unfolding mr by (cases "List.find (?P h1) bs1") auto
      from heap_place [OF l1 m16 b] obtain bs' where bs': "heap_list (allocate_block b m h1) bs'" "heap_same h1 (allocate_block b m h1)"
          "place (round16 n) (cells h1 bs1) = Some (unat b, cells (allocate_block b m h1) bs')" unfolding mr by blast
      have "heap_allocate_unlocked n h = Some (Some (of_nat (unat b + 32)), allocate_block b m h1)"
        unfolding run None using grown(1) heap_find_run [OF l1, of m] b by (simp add: plus)
      moreover have "can_grow m h" using grown(1) by (auto simp: can_grow_def)
      ultimately show ?thesis
        using bs' heap_ok_same [OF grown(2) bs'(2,1)] np grown(3-5)
        by (intro exI [of _ "Some (of_nat (unat b + 32))"] exI [of _ "allocate_block b m h1"] exI [of _ bs'])
          (simp add: allocate_spec_def heap_same_def mr)
    qed
  qed
qed

end
