(* ===== verification/HeapLive.thy ===== *)
theory HeapLive
  imports HeapSpec
begin

text \<open>
  The allocations that the cells of the heap stand for, and how placing, growing and releasing change them.
\<close>

section \<open>Live allocations\<close>

text \<open>Payload address and size of the cells in use.\<close>

definition live :: "cell list \<Rightarrow> (nat \<times> nat) set" where
  "live cs = {(a + 32, n) | a n. (a, n, False) \<in> set cs}"

lemma live_simps [simp]:
  "live [] = {}" "live ((a, n, True) # cs) = live cs" "live ((a, n, False) # cs) = insert (a + 32, n) (live cs)"
  "live (xs @ ys) = live xs \<union> live ys"
  by (auto simp: live_def)

lemma live_Cons: "live (c # cs) = live [c] \<union> live cs"
  using live_simps(4) [of "[c]" cs] by simp

lemma live_place:
  assumes "place m cs = Some (a, ds)"
  obtains k where "m \<le> k" "k < m + 48" "live ds = insert (a + 32, k) (live cs)" "(a, k, False) \<in> set ds"
  using assms
proof (rule place_someE)
  fix xs n ys
  assume c: "cs = xs @ (a, n, True) # ys" "m \<le> n"
    "ds = xs @ (if m + 48 \<le> n then [(a, m, False), (a + 32 + m, n - m - 32, True)] else [(a, n, False)]) @ ys"
  show thesis
    by (rule that [of "if m + 48 \<le> n then m else n"]) (use c in auto)
qed

lemma live_grow [simp]: "live (grow e k cs) = live cs"
proof (cases cs rule: rev_cases)
  case (snoc xs c)
  obtain a n f where "c = (a, n, f)" by (cases c)
  then show ?thesis by (simp add: snoc grow_append)
qed (simp add: grow_def)

lemma live_join: "live (join ((a, n, True) # cs)) = live cs"
  by (cases "(a, n, True) # cs" rule: join.cases) auto

lemma live_join_Cons: "live (join ((b, k, True) # join ((a, n, True) # cs))) = live cs"
proof -
  obtain m ds where j: "join ((a, n, True) # cs) = (a, m, True) # ds" "live ds = live cs"
    by (cases "(a, n, True) # cs" rule: join.cases) auto
  show ?thesis unfolding j(1) using j(2) by simp
qed

lemma live_release:
  assumes "a \<notin> fst ` set xs" "(a + 32, n) \<notin> live xs \<union> live ys"
  shows "live (release a (xs @ (a, n, False) # ys)) = live (xs @ (a, n, False) # ys) - {(a + 32, n)}"
proof (cases "xs \<noteq> [] \<and> snd (snd (last xs))")
  case True
  then obtain b k where l: "last xs = (b, k, True)" by (cases "last xs") auto
  have "live xs = live (butlast xs) \<union> live [last xs]" using True live_simps(4) [of "butlast xs" "[last xs]"] by simp
  then show ?thesis unfolding release_split [OF assms(1)] using True assms(2) by (auto simp: live_join_Cons l)
next
  case False
  then show ?thesis unfolding release_split [OF assms(1)] using assms(2) by (auto simp: live_join)
qed

text \<open>In a heap, the cells in use are the blocks in use.\<close>

lemma live_cells: "live (cells h bs) = {(unat b + 32, unat (block_size (headers h b))) | b. b \<in> set bs \<and> \<not> block_free (headers h b)}"
  by (auto simp: live_def cells_def cell_of_def)

lemma heap_list_tiles: "heap_list h bs \<Longrightarrow> tiles (unat KERNEL_HEAP_START) (cells h bs) (unat (heap_mapped_end h))"
  by (simp add: heap_list_def cells_def)

lemma live_bounds:
  assumes "heap_list h bs" "(p, k) \<in> live (cells h bs)"
  shows "unat KERNEL_HEAP_START + 32 \<le> p" "p + k \<le> unat (heap_mapped_end h)" "p + k \<le> unat KERNEL_HEAP_LIMIT" "p mod 16 = 0" "k mod 16 = 0" "16 \<le> k"
proof -
  from assms(2) obtain a where a: "p = a + 32" "(a, k, False) \<in> set (cells h bs)" by (auto simp: live_def)
  note t = heap_list_tiles [OF assms(1)]
  have s: "unat KERNEL_HEAP_START mod 16 = 0" by (simp add: KERNEL_HEAP_START_def)
  note b = tiles_bounds [OF t a(2)]
  show "unat KERNEL_HEAP_START + 32 \<le> p" "p + k \<le> unat (heap_mapped_end h)" "k mod 16 = 0" "16 \<le> k" using b a(1) by simp_all
  then show "p + k \<le> unat KERNEL_HEAP_LIMIT" using assms(1) by (simp add: heap_list_def)
  show "p mod 16 = 0" using tiles_start [OF t s a(2)] a(1) by (simp add: mod_add_eq [symmetric])
qed

lemma live_apart:
  assumes "heap_list h bs" "(p, k) \<in> live (cells h bs)" "(q, j) \<in> live (cells h bs)"
  shows "(p, k) = (q, j) \<or> p + k + 32 \<le> q \<or> q + j + 32 \<le> p"
proof -
  from assms obtain a b where a: "p = a + 32" "(a, k, False) \<in> set (cells h bs)" "q = b + 32" "(b, j, False) \<in> set (cells h bs)"
    by (auto simp: live_def)
  show ?thesis using tiles_apart [OF heap_list_tiles [OF assms(1)] a(2,4)] a(1,3) by auto
qed

lemma live_split:
  assumes "heap_list h bs" "(p, k) \<in> live (cells h bs)"
  obtains xs b ys where "bs = xs @ b # ys" "b \<notin> set xs" "b \<notin> set ys" "\<not> block_free (headers h b)" "unat b + 32 = p"
    "unat (block_size (headers h b)) = k" "of_nat p - sizeof_heap_block = b"
proof -
  from assms(2) obtain b where b: "b \<in> set bs" "\<not> block_free (headers h b)" "p = unat b + 32" "k = unat (block_size (headers h b))"
    by (auto simp: live_cells)
  from b(1) obtain xs ys where bs: "bs = xs @ b # ys" by (meson split_list)
  have "distinct bs" using assms(1) by (simp add: heap_list_def dll_def)
  then show thesis using that [of xs b ys] bs b by (simp add: sizeof_heap_block_def)
qed

lemma heap_list_distinct: "heap_list h bs \<Longrightarrow> distinct bs"
  by (simp add: heap_list_def dll_def)

lemma release_live:
  assumes l: "heap_list h (xs @ b # ys)" and f: "\<not> block_free (headers h b)"
  shows "live (release (unat b) (cells h (xs @ b # ys))) = live (cells h (xs @ b # ys)) - {(unat b + 32, unat (block_size (headers h b)))}"
proof -
  have d: "b \<notin> set xs" "b \<notin> set ys" using heap_list_distinct [OF l] by auto
  have "unat b \<notin> fst ` set (cells h xs)" using d(1) by (auto simp: cells_def cell_of_def dest: word_unat_eq_iff [THEN iffD2])
  moreover have "(unat b + 32, unat (block_size (headers h b))) \<notin> live (cells h xs) \<union> live (cells h ys)"
    using d by (auto simp: live_cells dest: word_unat_eq_iff [THEN iffD2])
  ultimately show ?thesis unfolding cells_append cells_Cons using live_release f by simp
qed

lemma kfree_live:
  assumes ok: "heap_ok h bs" and p: "(p, k) \<in> live (cells h bs)"
  shows "\<exists>bs'. heap_ok (kfree (Some (of_nat p)) h) bs' \<and> heap_same h (kfree (Some (of_nat p)) h) \<and>
    cells (kfree (Some (of_nat p)) h) bs' = release (p - 32) (cells h bs) \<and>
    live (cells (kfree (Some (of_nat p)) h) bs') = live (cells h bs) - {(p, k)}"
proof -
  note l = heap_ok_list [OF ok]
  from live_split [OF l p] obtain xs b ys where b: "bs = xs @ b # ys" "\<not> block_free (headers h b)" "unat b + 32 = p"
      "unat (block_size (headers h b)) = k" "of_nat p - sizeof_heap_block = b" by metis
  have "heap_block_from_pointer (Some (of_nat p)) h = Some b"
    using heap_block_from_pointer_run [OF l, of "of_nat p"] b(1,5) by simp
  then have run: "kfree (Some (of_nat p)) h = free_block b h" using b(2) by (simp add: kfree_def heap_free_steps)
  from free_block_refines [OF l [unfolded b(1)]] obtain bs' where
      bs': "heap_list (free_block b h) bs'" "heap_same h (free_block b h)" "cells (free_block b h) bs' = release (unat b) (cells h bs)"
    unfolding b(1) by blast
  have "p - 32 = unat b" using b(3) by simp
  then show ?thesis
    using bs' heap_ok_same [OF ok bs'(2,1)] release_live [OF l [unfolded b(1)] b(2)] unfolding run b(1,3,4) by metis
qed

lemma bad_pointer:
  assumes l: "heap_list h bs" and p: "\<forall>k. (unat p, k) \<notin> live (cells h bs)"
  shows "heap_block_from_pointer (Some p) h = None \<or> (\<exists>b. heap_block_from_pointer (Some p) h = Some b \<and> block_free (headers h b))"
proof (cases "p - sizeof_heap_block \<in> set bs")
  case True
  let ?b = "p - sizeof_heap_block"
  obtain xs ys where bs: "bs = xs @ ?b # ys" using True by (meson split_list)
  have "unat (heap_mapped_end h) \<le> 3758096384" using l by (simp add: heap_list_def KERNEL_HEAP_LIMIT_def)
  then have "unat (?b + sizeof_heap_block) = unat ?b + 32"
    using heap_list_cell(2) [OF l [unfolded bs]] by (subst unat_add_u32) (simp_all add: sizeof_heap_block_def)
  then have "unat p = unat ?b + 32" by simp
  then have "block_free (headers h ?b)" using p True by (auto simp: live_cells)
  then show ?thesis using heap_block_from_pointer_run [OF l, of p] True by simp
qed (use heap_block_from_pointer_run [OF l, of p] in simp)

section \<open>Merged heaps\<close>

text \<open>No two free cells are neighbours.\<close>

fun coalesced :: "cell list \<Rightarrow> bool" where
  "coalesced ((a, n, f) # (b, k, g) # cs) \<longleftrightarrow> \<not> (f \<and> g) \<and> coalesced ((b, k, g) # cs)"
| "coalesced cs \<longleftrightarrow> True"

lemma coalesced_Cons: "coalesced (c # cs) \<longleftrightarrow> (cs \<noteq> [] \<longrightarrow> \<not> (snd (snd c) \<and> snd (snd (hd cs)))) \<and> coalesced cs"
proof (cases cs)
  case (Cons d ds)
  then show ?thesis by (cases c; cases d) auto
qed (cases c; simp)

lemma coalesced_append: "coalesced (xs @ ys) \<longleftrightarrow>
   coalesced xs \<and> coalesced ys \<and> (xs \<noteq> [] \<and> ys \<noteq> [] \<longrightarrow> \<not> (snd (snd (last xs)) \<and> snd (snd (hd ys))))"
  by (induction xs) (auto simp: coalesced_Cons hd_append)

lemma place_coalesced:
  assumes "coalesced cs" "place m cs = Some (a, ds)"
  shows "coalesced ds"
  using assms(2)
proof (rule place_someE)
  fix xs n ys
  assume c: "cs = xs @ (a, n, True) # ys"
    "ds = xs @ (if m + 48 \<le> n then [(a, m, False), (a + 32 + m, n - m - 32, True)] else [(a, n, False)]) @ ys"
  show ?thesis using assms(1) unfolding c by (auto simp: coalesced_append coalesced_Cons)
qed

lemma grow_coalesced:
  assumes "coalesced cs"
  shows "coalesced (grow e k cs)"
proof (cases cs rule: rev_cases)
  case (snoc xs c)
  obtain a n f where "c = (a, n, f)" by (cases c)
  then show ?thesis using assms by (auto simp: snoc grow_append coalesced_append coalesced_Cons)
qed (simp add: grow_def)

lemma join_coalesced:
  assumes "coalesced cs"
  shows "coalesced (join ((a, n, True) # cs))" "\<exists>k. hd (join ((a, n, True) # cs)) = (a, k, True)" "join ((a, n, True) # cs) \<noteq> []"
  using assms by (cases "(a, n, True) # cs" rule: join.cases; auto simp: coalesced_Cons)+

lemma release_coalesced:
  assumes c: "coalesced (xs @ (a, n, False) # ys)" and a: "a \<notin> fst ` set xs"
  shows "coalesced (release a (xs @ (a, n, False) # ys))"
proof -
  have ys: "coalesced ys" and xs: "coalesced xs" using c by (auto simp: coalesced_append coalesced_Cons)
  obtain m ds where j: "join ((a, n, True) # ys) = (a, m, True) # ds"
    using join_coalesced(2,3) [OF ys, of a n] by (metis list.collapse)
  have t: "coalesced ((a, m, True) # ds)" using join_coalesced(1) [OF ys, of a n] j by simp
  show ?thesis
  proof (cases "xs \<noteq> [] \<and> snd (snd (last xs))")
    case True
    then obtain b k where l: "last xs = (b, k, True)" by (cases "last xs") auto
    have b: "coalesced (butlast xs @ [(b, k, True)])" using xs True l by (metis append_butlast_last_id)
    show ?thesis unfolding release_split [OF a] l j using True b t
      by (auto simp: coalesced_append coalesced_Cons l)
  next
    case False
    then show ?thesis unfolding release_split [OF a] j using xs t by (auto simp: coalesced_append)
  qed
qed

text \<open>Releasing what was just placed gives the sequence back.\<close>

lemma release_place:
  assumes c: "coalesced cs" and p: "place m cs = Some (a, ds)" and d: "distinct (map fst cs)"
  shows "release a ds = cs"
  using p
proof (rule place_someE)
  fix xs n ys
  assume e: "cs = xs @ (a, n, True) # ys" "m \<le> n"
    "ds = xs @ (if m + 48 \<le> n then [(a, m, False), (a + 32 + m, n - m - 32, True)] else [(a, n, False)]) @ ys"
  have a: "a \<notin> fst ` set xs" using d unfolding e(1) by auto
  have last: "\<not> (xs \<noteq> [] \<and> snd (snd (last xs)))" using c unfolding e(1) by (auto simp: coalesced_append)
  have idle: "join ((a, n, True) # ys) = (a, n, True) # ys"
    using c unfolding e(1) by (cases "(a, n, True) # ys" rule: join.cases) (auto simp: coalesced_append)
  show ?thesis unfolding e(1,3) using release_split [OF a] last idle by auto
qed

lemma place_new:
  assumes "place m cs = Some (a, ds)" "distinct (map fst ds)"
  shows "(a + 32, k) \<notin> live cs"
  using assms(1)
proof (rule place_someE)
  fix xs n ys
  assume c: "cs = xs @ (a, n, True) # ys"
    "ds = xs @ (if m + 48 \<le> n then [(a, m, False), (a + 32 + m, n - m - 32, True)] else [(a, n, False)]) @ ys"
  have "a \<notin> fst ` set xs" "a \<notin> fst ` set ys" using assms(2) unfolding c(2) by (auto split: if_splits)
  then show ?thesis unfolding c(1) by (force simp: live_def)
qed

lemma cells_distinct: "heap_list h bs \<Longrightarrow> distinct (map fst (cells h bs))"
  using heap_list_distinct [of h bs]
  by (auto simp: cells_def cell_of_def distinct_map comp_def inj_on_def dest: word_unat_eq_iff [THEN iffD2])

section \<open>Requests\<close>

text \<open>What the specification answers to a request of \<open>n\<close> bytes.\<close>

definition request_spec :: "u32 \<Rightarrow> heap \<Rightarrow> cell list \<Rightarrow> (nat \<times> cell list) option" where
  "request_spec n h cs =
     (if n = 0 \<or> n > SIZE_MAX - 15 then None
      else allocate_spec (round16 n) (unat (heap_mapped_end h)) (can_grow (align_up_size n HEAP_ALIGNMENT) h) cs)"

lemma kmalloc_run:
  assumes ok: "heap_ok h bs"
  shows "\<exists>r h' bs'. kmalloc n h = Some (r, h') \<and> heap_ok h' bs' \<and>
    (case request_spec n h (cells h bs) of
       None \<Rightarrow> r = None \<and> cells h' bs' = cells h bs
     | Some (a, cs) \<Rightarrow> r = Some (of_nat (a + 32)) \<and> cells h' bs' = cs) \<and>
    (\<forall>a. unat a < unat (heap_mapped_end h) \<longrightarrow> payload h' a = payload h a) \<and>
    unat (heap_mapped_end h) \<le> unat (heap_mapped_end h')"
proof (cases "n = 0 \<or> n > SIZE_MAX - 15")
  case True
  then have "heap_allocate_unlocked n h = Some (None, h)"
    using align_up_size_16(1) [of n] by (auto simp: heap_allocate_unlocked_def Let_def)
  then show ?thesis using ok True by (intro exI [of _ None] exI [of _ h] exI [of _ bs]) (simp add: kmalloc_def request_spec_def)
next
  case False
  then show ?thesis using allocate_run [OF ok _ _ refl, of n] by (simp add: kmalloc_def request_spec_def)
qed

lemma request_spec_cases:
  assumes "request_spec n h cs = Some (a, ds)"
  obtains gs where "place (round16 n) gs = Some (a, ds)" "live gs = live cs" "coalesced cs \<Longrightarrow> coalesced gs" "n \<noteq> 0"
proof -
  have n: "n \<noteq> 0" using assms by (auto simp: request_spec_def split: if_splits)
  show thesis
    using assms n that [of cs] that [OF _ live_grow grow_coalesced]
    by (auto simp: request_spec_def allocate_spec_def split: if_splits option.splits)
qed

lemma kmalloc_apart:
  assumes ok: "heap_ok h bs" and run: "kmalloc n h = Some (Some p, h')"
  shows "\<exists>k bs'. heap_ok h' bs' \<and> live (cells h' bs') = insert (unat p, k) (live (cells h bs)) \<and> unat n \<le> k \<and>
    unat p mod 16 = 0 \<and> unat KERNEL_HEAP_START + 32 \<le> unat p \<and> unat p + k \<le> unat (heap_mapped_end h') \<and>
    (\<forall>(q, j) \<in> live (cells h bs). (unat p + k + 32 \<le> q \<or> q + j + 32 \<le> unat p) \<and>
      (\<forall>i < j. payload h' (of_nat (q + i)) = payload h (of_nat (q + i))))"
proof -
  from kmalloc_run [OF ok, of n] run obtain bs' where h': "heap_ok h' bs'"
      "case request_spec n h (cells h bs) of None \<Rightarrow> Some p = None \<and> cells h' bs' = cells h bs
       | Some (a, cs) \<Rightarrow> Some p = Some (of_nat (a + 32)) \<and> cells h' bs' = cs"
      "\<forall>a. unat a < unat (heap_mapped_end h) \<longrightarrow> payload h' a = payload h a" by auto
  then obtain a where a: "request_spec n h (cells h bs) = Some (a, cells h' bs')" "p = of_nat (a + 32)"
    by (auto split: option.splits)
  from a(1) obtain gs where g: "place (round16 n) gs = Some (a, cells h' bs')" "live gs = live (cells h bs)" "n \<noteq> 0"
    by (rule request_spec_cases)
  from g(1) obtain k where k: "round16 n \<le> k" "live (cells h' bs') = insert (a + 32, k) (live (cells h bs))"
    unfolding g(2) [symmetric] by (rule live_place)
  note l = heap_ok_list [OF ok] and l' = heap_ok_list [OF h'(1)]
  have new: "(a + 32, k) \<in> live (cells h' bs')" using k(2) by simp
  note b = live_bounds [OF l' new]
  have p: "unat p = a + 32" unfolding a(2) using b(3) by (intro u32_of_nat_unat) (simp add: KERNEL_HEAP_LIMIT_def)
  have "(a + 32 + k + 32 \<le> q \<or> q + j + 32 \<le> a + 32) \<and> (\<forall>i < j. payload h' (of_nat (q + i)) = payload h (of_nat (q + i)))"
    if q: "(q, j) \<in> live (cells h bs)" for q j
  proof -
    have q': "(q, j) \<in> live (cells h' bs')" using q k(2) by simp
    note bq = live_bounds [OF l q]
    have "unat (of_nat (q + i) :: u32) < unat (heap_mapped_end h)" if "i < j" for i
      using that bq(2,3) by (subst u32_of_nat_unat) (simp_all add: KERNEL_HEAP_LIMIT_def)
    then have "\<forall>i < j. payload h' (of_nat (q + i)) = payload h (of_nat (q + i))" using h'(3) by blast
    moreover have "(a + 32, k) \<noteq> (q, j)"
      using place_new [OF g(1) cells_distinct [OF l'], of k] q unfolding g(2) by auto
    ultimately show ?thesis using live_apart [OF l' new q'] by auto
  qed
  then show ?thesis
    using h'(1) k b round16_facts(3) [of n] unfolding p by (intro exI [of _ k] exI [of _ bs']) auto
qed

section \<open>Reallocation\<close>

lemma copy_bytes_run:
  assumes "unat dst + N \<le> 4294967296" "unat src + N \<le> 4294967296" "unat dst + N \<le> unat src \<or> unat src + N \<le> unat dst"
  shows "n \<le> N \<Longrightarrow> copy_bytes dst src n m a =
    (if unat dst \<le> unat a \<and> unat a < unat dst + n then m (of_nat (unat src + (unat a - unat dst))) else m a)"
proof (induction n arbitrary: a)
  case (Suc n)
  have d: "unat (dst + of_nat n) = unat dst + n" "unat (src + of_nat n) = unat src + n"
    using Suc.prems assms by (simp_all add: unat_add_u32 u32_of_nat_unat)
  have s: "\<not> (unat dst \<le> unat src + n \<and> unat src + n < unat dst + n)" using assms(3) Suc.prems by auto
  have IH: "copy_bytes dst src n m b = (if unat dst \<le> unat b \<and> unat b < unat dst + n then m (of_nat (unat src + (unat b - unat dst))) else m b)" for b
    using Suc by simp
  show ?case
  proof (cases "a = dst + of_nat n")
    case True
    then have c: "copy_bytes dst src (Suc n) m a = m (src + of_nat n)" using IH [of "src + of_nat n", unfolded d(2) if_not_P [OF s]] by simp
    have "src + of_nat n = of_nat (unat src + (unat a - unat dst))" using True d(1) by simp
    moreover have "unat dst \<le> unat a \<and> unat a < unat dst + Suc n" using True d(1) by simp
    ultimately show ?thesis using c by (simp only: if_True simp_thms)
  next
    case False
    then have "unat a \<noteq> unat dst + n" using d(1) by (metis word_unat_eq_iff)
    then show ?thesis using False IH [of a] by auto
  qed
qed auto

lemma live_carve: "live (carve m (a, k, False)) = {(a + 32, if m + 48 \<le> k then m else k)}"
  by (simp add: carve_def)

text \<open>A block cut in place, after it took in the next one or not.\<close>

lemma split_live:
  assumes ok: "heap_ok h (xs @ b # ys)" and f: "\<not> block_free (headers h b)"
    and m: "unat m mod 16 = 0" "16 \<le> unat m" "unat m \<le> unat (block_size (headers h b))"
  obtains bs' j where "heap_ok (heap_split_block b m h) bs'" "unat m \<le> j"
    "live (cells (heap_split_block b m h) bs') = insert (unat b + 32, j) (live (cells h xs) \<union> live (cells h ys))"
    "heap_same h (heap_split_block b m h)"
    "\<not> block_free (headers (heap_split_block b m h) b)"
proof -
  let ?h = "heap_split_block b m h"
  from heap_split_refines [OF heap_ok_list [OF ok] m] obtain zs where z: "heap_list ?h (xs @ b # zs @ ys)" "heap_same h ?h"
      "cells ?h (xs @ b # zs @ ys) = cells h xs @ carve (unat m) (cell_of (headers h) b) @ cells h ys" by blast
  have "cells ?h (b # zs @ ys) = carve (unat m) (cell_of (headers h) b) @ cells h ys" using cells_prefix(2) [OF z(3)] .
  then have nf: "\<not> block_free (headers ?h b)" using f by (auto simp: cells_Cons carve_def cell_of_def split: if_splits)
  let ?k = "unat (block_size (headers h b))"
  show thesis
  proof (rule that [OF heap_ok_same [OF ok z(2,1)] _ _ z(2) nf])
    show "unat m \<le> (if unat m + 48 \<le> ?k then unat m else ?k)" using m(3) by simp
    show "live (cells ?h (xs @ b # zs @ ys)) = insert (unat b + 32, if unat m + 48 \<le> ?k then unat m else ?k) (live (cells h xs) \<union> live (cells h ys))"
      unfolding z(3) using f by (simp add: cell_of_def live_carve)
  qed
qed

lemma set_used_idle: "\<not> block_free (headers h b) \<Longrightarrow> set_header b (block_free_update (\<lambda>_. False)) h = h"
proof -
  assume f: "\<not> block_free (headers h b)"
  have "block_free_update (\<lambda>_. False) (headers h b) = headers h b" using f by (cases "headers h b") simp
  then show ?thesis by (simp add: set_header_def)
qed

lemma live_others:
  assumes l: "heap_list h (xs @ b # ys)"
  shows "live (cells h (xs @ b # ys)) - {(unat b + 32, unat (block_size (headers h b)))} = live (cells h xs) \<union> live (cells h ys)"
proof -
  have d: "b \<notin> set xs" "b \<notin> set ys" using heap_list_distinct [OF l] by auto
  then show ?thesis by (auto simp: live_cells dest: word_unat_eq_iff [THEN iffD2])
qed

text \<open>What a reallocation of the allocation of \<open>k\<close> bytes at \<open>p\<close> to \<open>n\<close> bytes does.\<close>

definition moved :: "u32 \<Rightarrow> nat \<Rightarrow> u32 \<Rightarrow> heap \<Rightarrow> cell list \<Rightarrow> u32 option \<Rightarrow> heap \<Rightarrow> cell list \<Rightarrow> bool" where
  "moved p k n h cs r h' cs' \<longleftrightarrow>
     (case r of
        None \<Rightarrow> live cs' = live cs \<and> (\<forall>i < k. payload h' (of_nat (unat p + i)) = payload h (of_nat (unat p + i)))
      | Some q \<Rightarrow> \<exists>j. unat n \<le> j \<and> live cs' = insert (unat q, j) (live cs - {(unat p, k)}) \<and>
          (\<forall>i < min k (unat n). payload h' (of_nat (unat q + i)) = payload h (of_nat (unat p + i)))) \<and>
     (\<forall>(q, j) \<in> live cs - {(unat p, k)}. \<forall>i < j. payload h' (of_nat (q + i)) = payload h (of_nat (q + i)))"

lemma moved_in_place:
  assumes "payload h' = payload h" "unat n \<le> j" "live cs' = insert (unat p, j) (live cs - {(unat p, k)})"
  shows "moved p k n h cs (Some p) h' cs'"
  using assms by (auto simp: moved_def)

lemma kmalloc_keeps:
  assumes ok: "heap_ok h bs" and run: "kmalloc n h = Some (r, h1)" and q: "(q, j) \<in> live (cells h bs)" "i < j"
  shows "payload h1 (of_nat (q + i)) = payload h (of_nat (q + i))"
proof -
  have "unat (of_nat (q + i) :: u32) < unat (heap_mapped_end h)"
    using q(2) live_bounds(2,3) [OF heap_ok_list [OF ok] q(1)] by (subst u32_of_nat_unat) (simp_all add: KERNEL_HEAP_LIMIT_def)
  moreover have "\<forall>a. unat a < unat (heap_mapped_end h) \<longrightarrow> payload h1 a = payload h a"
    using kmalloc_run [OF ok, of n] run by auto
  ultimately show ?thesis by blast
qed

lemma absorb_live:
  assumes ok: "heap_ok h (xs @ b # c # zs)" and f: "\<not> block_free (headers h b)" "block_free (headers h c)"
    and m: "unat m mod 16 = 0" "16 \<le> unat m"
    and room: "m \<le> block_size (headers h b) + sizeof_heap_block + block_size (headers h c)"
  obtains bs' j where "heap_ok (heap_split_block b m (heap_merge_with_next b h)) bs'" "unat m \<le> j"
    "live (cells (heap_split_block b m (heap_merge_with_next b h)) bs') = insert (unat b + 32, j) (live (cells h xs) \<union> live (cells h zs))"
    "payload (heap_split_block b m (heap_merge_with_next b h)) = payload h"
    "\<not> block_free (headers (heap_split_block b m (heap_merge_with_next b h)) b)"
proof -
  let ?h = "heap_merge_with_next b h"
  note a = heap_merge_absorbs [OF heap_ok_list [OF ok] f(2)]
  have ok2: "heap_ok ?h (xs @ b # zs)" by (rule heap_ok_same [OF ok a(2,1)])
  have c2: "cells ?h xs = cells h xs"
      "cells ?h (b # zs) = (unat b, unat (block_size (headers h b)) + 32 + unat (block_size (headers h c)), False) # cells h zs"
    using cells_prefix [OF a(3)] f(1) by simp_all
  then have sz: "unat (block_size (headers ?h b)) = unat (block_size (headers h b)) + 32 + unat (block_size (headers h c))"
      "\<not> block_free (headers ?h b)" "cells ?h zs = cells h zs" by (simp_all add: cells_Cons)
  have "unat (block_size (headers ?h b)) \<le> 3758096384"
    using live_bounds(3) [OF heap_ok_list [OF ok2], of "unat b + 32" "unat (block_size (headers ?h b))"] sz(2)
    by (simp add: cells_append cells_Cons KERNEL_HEAP_LIMIT_def)
  then have "unat (block_size (headers h b) + sizeof_heap_block + block_size (headers h c)) = unat (block_size (headers ?h b))"
    unfolding sz(1) by (simp add: unat_add_u32 sizeof_heap_block_def)
  then have "unat m \<le> unat (block_size (headers ?h b))" using room by (simp add: word_le_nat_alt)
  from split_live [OF ok2 sz(2) m this] obtain bs' j where
      "heap_ok (heap_split_block b m ?h) bs'" "unat m \<le> j"
      "live (cells (heap_split_block b m ?h) bs') = insert (unat b + 32, j) (live (cells h xs) \<union> live (cells h zs))"
      "heap_same ?h (heap_split_block b m ?h)" "\<not> block_free (headers (heap_split_block b m ?h) b)"
    unfolding c2(1) sz(3) by blast
  then show thesis using that a(2) by (simp add: heap_same_def)
qed

lemma realloc_moves:
  assumes ok: "heap_ok h bs" and p: "(unat p, k) \<in> live (cells h bs)" and run: "kmalloc n h = Some (Some q, h1)"
    and c: "unat c = min k (unat n)" and h2: "h2 = h1\<lparr>payload := copy_bytes q p (unat c) (payload h1)\<rparr>"
  shows "\<exists>bs3. heap_ok (kfree (Some p) h2) bs3 \<and> moved p k n h (cells h bs) (Some q) (kfree (Some p) h2) (cells (kfree (Some p) h2) bs3)"
proof -
  note l = heap_ok_list [OF ok] and old = kmalloc_keeps [OF ok run]
  from kmalloc_apart [OF ok run] obtain j bs2 where a: "heap_ok h1 bs2"
      "live (cells h1 bs2) = insert (unat q, j) (live (cells h bs))" "unat n \<le> j"
      "\<forall>(q', j') \<in> live (cells h bs). (unat q + j + 32 \<le> q' \<or> q' + j' + 32 \<le> unat q) \<and>
        (\<forall>i < j'. payload h1 (of_nat (q' + i)) = payload h (of_nat (q' + i)))" by blast
  have away: "unat q + j + 32 \<le> q' \<or> q' + j' + 32 \<le> unat q" if "(q', j') \<in> live (cells h bs)" for q' j'
    using bspec [OF a(4) that] by simp
  note pq = away [OF p]
  note l1 = heap_ok_list [OF a(1)]
  have p1: "(unat p, k) \<in> live (cells h1 bs2)" using p a(2) by simp
  have ok2: "heap_ok h2 bs2" "cells h2 bs2 = cells h1 bs2"
    using a(1) by (simp_all add: h2 heap_ok_def heap_list_def cells_def)
  have p2: "(unat p, k) \<in> live (cells h2 bs2)" using p1 ok2(2) by simp
  from kfree_live [OF ok2(1) p2] obtain bs3 where h3: "heap_ok (kfree (Some p) h2) bs3" "heap_same h2 (kfree (Some p) h2)"
      "live (cells (kfree (Some p) h2) bs3) = live (cells h1 bs2) - {(unat p, k)}" unfolding ok2(2) by auto
  note bp = live_bounds [OF l1 p1]
  have qj: "(unat q, j) \<in> live (cells h1 bs2)" using a(2) by simp
  note bq = live_bounds [OF l1 qj]
  have copy: "copy_bytes q p (unat c) (payload h1) x =
      (if unat q \<le> unat x \<and> unat x < unat q + unat c then payload h1 (of_nat (unat p + (unat x - unat q))) else payload h1 x)" for x
    by (rule copy_bytes_run [where N = "unat c"]) (use bp(3) bq(3) a(3) pq c in \<open>auto simp: KERNEL_HEAP_LIMIT_def\<close>)
  have pl: "payload (kfree (Some p) h2) = copy_bytes q p (unat c) (payload h1)" using h3(2) by (simp add: heap_same_def h2)
  have "payload (kfree (Some p) h2) (of_nat (unat q + i)) = payload h (of_nat (unat p + i))" if i: "i < min k (unat n)" for i
  proof -
    have u: "unat (of_nat (unat q + i) :: u32) = unat q + i"
      using i a(3) bq(3) by (subst u32_of_nat_unat) (auto simp: KERNEL_HEAP_LIMIT_def)
    show ?thesis unfolding pl copy u using i c old [OF p, of i] by simp
  qed
  moreover have "payload (kfree (Some p) h2) (of_nat (q' + i)) = payload h (of_nat (q' + i))"
    if q': "(q', j') \<in> live (cells h bs)" "i < j'" for q' j' i
  proof -
    have u: "unat (of_nat (q' + i) :: u32) = q' + i"
      using q'(2) live_bounds(3) [OF l q'(1)] by (subst u32_of_nat_unat) (simp_all add: KERNEL_HEAP_LIMIT_def)
    have nb: "\<not> (unat q \<le> q' + i \<and> q' + i < unat q + unat c)" using away [OF q'(1)] a(3) q'(2) c by auto
    show ?thesis unfolding pl copy u if_not_P [OF nb] by (rule old [OF q'])
  qed
  moreover have "live (cells (kfree (Some p) h2) bs3) = insert (unat q, j) (live (cells h bs) - {(unat p, k)})"
    unfolding h3(3) a(2) using pq bp(6) by auto
  ultimately have "moved p k n h (cells h bs) (Some q) (kfree (Some p) h2) (cells (kfree (Some p) h2) bs3)"
    unfolding moved_def option.case using a(3) by blast
  then show ?thesis using h3(1) by blast
qed

lemma krealloc_run:
  assumes ok: "heap_ok h bs" and p: "(unat p, k) \<in> live (cells h bs)" and n: "n \<noteq> 0"
  shows "\<exists>r h' bs'. krealloc (Some p) n h = Some (r, h') \<and> heap_ok h' bs' \<and> moved p k n h (cells h bs) r h' (cells h' bs')"
proof -
  note l = heap_ok_list [OF ok]
  from live_split [OF l p] obtain xs b ys where b: "bs = xs @ b # ys" "\<not> block_free (headers h b)" "unat b + 32 = unat p"
      "unat (block_size (headers h b)) = k" "of_nat (unat p) - sizeof_heap_block = b" by metis
  have ptr: "heap_block_from_pointer (Some p) h = Some b"
    using heap_block_from_pointer_run [OF l, of p] b(5) unfolding b(1) by simp
  have others: "live (cells h bs) - {(unat p, k)} = live (cells h xs) \<union> live (cells h ys)"
    using live_others [OF l [unfolded b(1)]] unfolding b(1,3,4) .
  let ?m = "align_up_size n HEAP_ALIGNMENT"
  show ?thesis
  proof (cases "n > SIZE_MAX - 15")
    case True
    then have "krealloc (Some p) n h = Some (None, h)"
      using align_up_size_16(1) [of n] b(2) n ptr by (simp add: krealloc_def heap_reallocate_unlocked_def Let_def)
    then show ?thesis using ok by (intro exI [of _ None] exI [of _ h] exI [of _ bs]) (simp add: moved_def)
  next
    case False
    have mr: "unat ?m = round16 n" by (rule align_up_size_16(2) [OF False])
    have m16: "unat ?m mod 16 = 0" "16 \<le> unat ?m" "unat n \<le> unat ?m" unfolding mr using round16_facts n by simp_all
    have m0: "?m \<noteq> 0" using m16(2) by auto
    show ?thesis
    proof (cases "?m \<le> block_size (headers h b)")
      case True
      have run: "krealloc (Some p) n h = Some (Some p, heap_split_block b ?m h)"
        using True m0 b(2) n ptr by (simp add: krealloc_def heap_reallocate_unlocked_def Let_def)
      have "unat ?m \<le> unat (block_size (headers h b))" using True by (simp add: word_le_nat_alt)
      from split_live [OF ok [unfolded b(1)] b(2) m16(1,2) this] obtain bs' j where
          s: "heap_ok (heap_split_block b ?m h) bs'" "unat ?m \<le> j"
            "live (cells (heap_split_block b ?m h) bs') = insert (unat p, j) (live (cells h bs) - {(unat p, k)})"
            "heap_same h (heap_split_block b ?m h)" unfolding others b(3) by metis
      have "moved p k n h (cells h bs) (Some p) (heap_split_block b ?m h) (cells (heap_split_block b ?m h) bs')"
        by (rule moved_in_place [OF _ _ s(3)]) (use s(2,4) m16(3) in \<open>simp_all add: heap_same_def\<close>)
      then show ?thesis using run s(1) by blast
    next
      case small: False
      let ?grows = "case block_next (headers h b) of None \<Rightarrow> False
        | Some c \<Rightarrow> block_free (headers h c) \<and> block_size (headers h b) + sizeof_heap_block + block_size (headers h c) \<ge> ?m"
      have nx: "block_next (headers h b) = first_or None ys"
        using l dll_links [of "block_previous \<circ> headers h"] unfolding heap_list_def b(1) by force
      show ?thesis
      proof (cases ?grows)
        case True
        then obtain c zs where c: "ys = c # zs" "block_free (headers h c)"
            "block_size (headers h b) + sizeof_heap_block + block_size (headers h c) \<ge> ?m"
          using nx by (cases ys) auto
        from absorb_live [OF ok [unfolded b(1) c(1)] b(2) c(2) m16(1,2) c(3)] obtain bs' j where
            s: "heap_ok (heap_split_block b ?m (heap_merge_with_next b h)) bs'" "unat ?m \<le> j"
              "live (cells (heap_split_block b ?m (heap_merge_with_next b h)) bs') = insert (unat p, j) (live (cells h bs) - {(unat p, k)})"
              "payload (heap_split_block b ?m (heap_merge_with_next b h)) = payload h"
              "\<not> block_free (headers (heap_split_block b ?m (heap_merge_with_next b h)) b)"
          using c(2) unfolding others b(3) unfolding c(1) cells_Cons by (metis live_simps(2))
        have run: "krealloc (Some p) n h = Some (Some p, heap_split_block b ?m (heap_merge_with_next b h))"
          using True small m0 b(2) n ptr set_used_idle [OF s(5)]
          by (simp add: krealloc_def heap_reallocate_unlocked_def Let_def)
        have "moved p k n h (cells h bs) (Some p) (heap_split_block b ?m (heap_merge_with_next b h))
            (cells (heap_split_block b ?m (heap_merge_with_next b h)) bs')"
          by (rule moved_in_place [OF s(4) _ s(3)]) (use s(2) m16(3) in simp)
        then show ?thesis using run s(1) by blast
      next
        case False
        from kmalloc_run [OF ok, of n] obtain r h1 bs1 where h1: "kmalloc n h = Some (r, h1)" "heap_ok h1 bs1"
            "case request_spec n h (cells h bs) of None \<Rightarrow> r = None \<and> cells h1 bs1 = cells h bs
             | Some (a, cs) \<Rightarrow> r = Some (of_nat (a + 32)) \<and> cells h1 bs1 = cs"
            "\<forall>a. unat a < unat (heap_mapped_end h) \<longrightarrow> payload h1 a = payload h a" by blast
        have alloc: "heap_allocate_unlocked n h = Some (r, h1)" using h1(1) n by (simp add: kmalloc_def)
        note old = kmalloc_keeps [OF ok h1(1)]
        show ?thesis
        proof (cases r)
          case None
          have "krealloc (Some p) n h = Some (None, h1)"
            using False small m0 b(2) n ptr alloc None by (simp add: krealloc_def heap_reallocate_unlocked_def Let_def)
          moreover have "live (cells h1 bs1) = live (cells h bs)" using h1(3) None by (auto split: option.splits)
          then have "moved p k n h (cells h bs) None h1 (cells h1 bs1)"
            unfolding moved_def option.case using old [OF p] old by blast
          ultimately show ?thesis using h1(2) by blast
        next
          case (Some q)
          from kmalloc_apart [OF ok h1(1) [unfolded Some]] obtain bs2 where a: "heap_ok h1 bs2" "(unat p, k) \<in> live (cells h1 bs2)"
            using p by blast
          have b1: "unat (block_size (headers h1 b)) = k" using live_split [OF heap_ok_list [OF a(1)] a(2)] b(5) by metis
          define c where "c = (if block_size (headers h1 b) < n then block_size (headers h1 b) else n)"
          have "unat c = min k (unat n)" unfolding c_def using b1 by (simp add: word_less_nat_alt min_def)
          note realloc_moves [OF ok p h1(1) [unfolded Some] this refl]
          moreover have "krealloc (Some p) n h = Some (Some q, kfree (Some p) (h1\<lparr>payload := copy_bytes q p (unat c) (payload h1)\<rparr>))"
            using False small m0 b(2) n ptr alloc Some
            by (simp add: krealloc_def heap_reallocate_unlocked_def Let_def kfree_def c_def)
          ultimately show ?thesis by blast
        qed
      qed
    qed
  qed
qed

end
