(* ===== verification/HeapProps.thy ===== *)
theory HeapProps
  imports HeapLive
begin

text \<open>
  The properties of the kernel heap: first fit, separation of allocations, release, refusal of pointers
  that are not allocations, and the round trip of an allocation and its release.
\<close>

section \<open>A heap after its initialisation\<close>

text \<open>Four pages of the heap on the frames 3 to 6, with the page table on frame 2.\<close>

definition heap_paging :: paging_state where
  "heap_paging = \<lparr>frames = \<lparr>frame_bitmap = (\<lambda>_. 0)(0 := 0x7F), total_usable_memory = 0\<rparr>,
     physical_memory = (\<lambda>_. 0)(0x1FFC := 0x1003, 0x1D00 := 0x2003, 0x2000 := 0x3003, 0x2004 := 0x4003, 0x2008 := 0x5003, 0x200C := 0x6003),
     directory_register = 0x1000, kernel_directory = 0x1000\<rparr>"

definition sample_heap :: heap where
  "sample_heap = \<lparr>paging = heap_paging,
     headers = (\<lambda>_. zero_block)(0xD0000000 := \<lparr>block_size = 16352, block_previous = None, block_next = None,
       block_magic = HEAP_BLOCK_MAGIC, block_free = True\<rparr>),
     payload = (\<lambda>_. 0), heap_first_block = Some 0xD0000000, heap_last_block = Some 0xD0000000,
     heap_mapped_end = 0xD0004000, heap_initialized = True\<rparr>"

lemma heap_paging_pde: "unat i < 1024 \<Longrightarrow> pde heap_paging i = (if i = 1023 then 0x1003 else if i = 832 then 0x2003 else 0)"
proof -
  assume i: "unat i < 1024"
  have "(0x1000 :: u32) + i * 4 = 0x1000 + 1023 * 4 \<longleftrightarrow> i = 1023" "(0x1000 :: u32) + i * 4 = 0x1000 + 832 * 4 \<longleftrightarrow> i = 832"
    using slot_eq [of "0x1000 :: u32" "0x1000" i 1023] slot_eq [of "0x1000 :: u32" "0x1000" i 832] i by simp_all
  moreover have "(0x1000 :: u32) + i * 4 \<noteq> 0x2000 + j * 4" if "unat j < 1024" for j
    using slot_eq [of "0x1000 :: u32" "0x2000" i j] i that by simp
  note this [of 0] this [of 1] this [of 2] this [of 3]
  ultimately show ?thesis by (simp add: pde_def heap_paging_def current_directory_def PAGE_FRAME_def)
qed

lemma heap_paging_ok: "paging_ok heap_paging"
proof -
  have d: "current_directory heap_paging = 0x1000" by (simp add: heap_paging_def current_directory_def PAGE_FRAME_def)
  have u: "pmm_used (frames heap_paging) 1" "pmm_used (frames heap_paging) 2" by (simp_all add: pmm_used_def heap_paging_def bit_simps)
  have "frame_address 1 \<notin> pmm_free_frames (frames heap_paging)" "frame_address 2 \<notin> pmm_free_frames (frames heap_paging)"
    using u by (simp_all add: pmm_free_frames_iff)
  then have f: "0x1000 \<notin> pmm_free_frames (frames heap_paging)" "0x2000 \<notin> pmm_free_frames (frames heap_paging)"
    by (simp_all add: frame_address_def)
  have p: "i = 832" "table_of heap_paging i = 0x2000" if "unat i < 1023" "present (pde heap_paging i)" for i
  proof -
    have "i \<noteq> 1023" using that by auto
    then show i: "i = 832" using that heap_paging_pde [of i] by (auto split: if_splits)
    show "table_of heap_paging i = 0x2000" unfolding i table_of_def by (simp add: heap_paging_pde PAGE_FRAME_def)
  qed
  have "recursive_ok heap_paging"
    by (simp add: recursive_ok_def heap_paging_pde table_of_def d present_def machine_consts)
  moreover have "(0x2000 :: u32) \<noteq> 0x1000" by simp
  ultimately show ?thesis unfolding paging_ok_def d using f p by auto
qed

lemma sample_heap_ok: "heap_ok sample_heap [0xD0000000]"
proof -
  have "present (page_entry heap_paging (page_directory_index v) (page_table_index v))" if v: "0xD0000000 \<le> unat v" "unat v < 0xD0004000" for v
  proof -
    have "unat (page_directory_index v) = 832" unfolding directory_index_unat using v by auto
    then have i: "page_directory_index v = 832" by (simp add: u32_eq_iff)
    have "unat v div 4096 < 851972" using v(2) by (simp add: less_mult_imp_div_less)
    moreover have "851968 \<le> unat v div 4096" using div_le_mono [OF v(1), of 4096] by simp
    ultimately have "unat v div 4096 \<in> {851968, 851969, 851970, 851971}" by auto
    then have "unat (page_table_index v) \<in> {0, 1, 2, 3}" unfolding table_index_unat by auto
    then have j: "page_table_index v \<in> {0, 1, 2, 3}" by (auto simp: u32_eq_iff)
    have e: "page_entry heap_paging 832 k = physical_memory heap_paging (0x2000 + k * 4)" for k
      by (simp add: page_entry_def heap_paging_pde table_of_def present_def PAGE_PRESENT_def PAGE_FRAME_def)
    show ?thesis using j unfolding i e by (auto simp: heap_paging_def present_def PAGE_PRESENT_def)
  qed
  then have "pages_present heap_paging 0xD0000000 0xD0004000" by (simp add: pages_present_def)
  moreover have "heap_list sample_heap [0xD0000000]"
    by (auto simp: heap_list_def sample_heap_def dll_def KERNEL_HEAP_START_def KERNEL_HEAP_LIMIT_def cell_of_def HEAP_BLOCK_MAGIC_def zero_block_def)
  ultimately show ?thesis using heap_paging_ok
    by (simp add: heap_ok_def) (simp add: sample_heap_def KERNEL_HEAP_START_def)
qed

lemma sample_cells: "cells sample_heap [0xD0000000] = [(0xD0000000, 16352, True)]"
  by (simp add: cells_def cell_of_def sample_heap_def)

section \<open>Allocation and release\<close>

text \<open>Claim C3. \<open>kmalloc\<close> refines first fit. On every heap whose list is well formed it returns, keeps the
  list well formed, and acts on the sequence of cells exactly as the specification: the first free cell
  that is large enough is cut when the rest can hold a header and 16 bytes; when there is none, the heap
  grows by whole pages if it can, at the end, and the request is placed there; otherwise the answer is
  null and no cell changes. No byte of the heap that was mapped before changes.\<close>

theorem kmalloc_refines_first_fit:
  assumes "heap_ok h bs"
  shows "\<exists>r h' bs'. kmalloc n h = Some (r, h') \<and> heap_ok h' bs' \<and>
    (case request_spec n h (cells h bs) of
       None \<Rightarrow> r = None \<and> cells h' bs' = cells h bs
     | Some (a, cs) \<Rightarrow> r = Some (of_nat (a + 32)) \<and> cells h' bs' = cs) \<and>
    (\<forall>a. unat a < unat (heap_mapped_end h) \<longrightarrow> payload h' a = payload h a)"
  using kmalloc_run [OF assms] by blast

lemma sample_request: "request_spec 100 sample_heap [(0xD0000000, 16352, True)] =
    Some (0xD0000000, [(0xD0000000, 112, False), (0xD0000090, 16208, True)])"
  by (simp add: request_spec_def allocate_spec_def round16_def SIZE_MAX_def)

theorem kmalloc_refines_first_fit_witness:
  "\<exists>h' bs'. kmalloc 100 sample_heap = Some (Some 0xD0000020, h') \<and> heap_ok h' bs' \<and>
    cells h' bs' = [(0xD0000000, 112, False), (0xD0000090, 16208, True)]"
  using kmalloc_refines_first_fit [OF sample_heap_ok, of 100] by (auto simp: sample_cells sample_request)

text \<open>Claim C31. Allocations never overlap. When \<open>kmalloc\<close> returns a pointer, it is aligned to 16 bytes, the
  block holds at least the requested bytes, lies inside the mapped part of the heap region, and is apart
  from every allocation that is live, with its header; the live allocations are the old ones and the new
  one, and the bytes of the old ones are unchanged.\<close>

theorem kmalloc_allocations_are_apart:
  assumes ok: "heap_ok h bs" and run: "kmalloc n h = Some (Some p, h')"
  shows "\<exists>k bs'. heap_ok h' bs' \<and> live (cells h' bs') = insert (unat p, k) (live (cells h bs)) \<and> unat n \<le> k \<and>
    unat p mod 16 = 0 \<and> unat KERNEL_HEAP_START + 32 \<le> unat p \<and> unat p + k \<le> unat (heap_mapped_end h') \<and>
    (\<forall>(q, j) \<in> live (cells h bs). (unat p + k + 32 \<le> q \<or> q + j + 32 \<le> unat p) \<and>
      (\<forall>i < j. payload h' (of_nat (q + i)) = payload h (of_nat (q + i))))"
  using kmalloc_apart [OF assms] .

theorem kmalloc_allocations_are_apart_witness:
  "\<exists>h' k bs'. kmalloc 100 sample_heap = Some (Some 0xD0000020, h') \<and> heap_ok h' bs' \<and>
    live (cells h' bs') = {(0xD0000020, k)} \<and> 100 \<le> k"
proof -
  from kmalloc_run [OF sample_heap_ok, of 100] obtain h' where run: "kmalloc 100 sample_heap = Some (Some 0xD0000020, h')"
    by (auto simp: sample_cells sample_request)
  show ?thesis using kmalloc_allocations_are_apart [OF sample_heap_ok run] run by (auto simp: sample_cells)
qed

text \<open>Claim C15. \<open>kfree\<close> of a live allocation releases exactly it: the cell becomes free and joins the free
  neighbours on both sides, the other allocations stay live where they are, no payload byte changes and
  the list stays well formed.\<close>

theorem kfree_releases_one_allocation:
  assumes "heap_ok h bs" and "(unat p, k) \<in> live (cells h bs)"
  shows "\<exists>bs'. heap_ok (kfree (Some p) h) bs' \<and> payload (kfree (Some p) h) = payload h \<and>
    cells (kfree (Some p) h) bs' = release (unat p - 32) (cells h bs) \<and>
    live (cells (kfree (Some p) h) bs') = live (cells h bs) - {(unat p, k)}"
  using kfree_live [OF assms] by (auto simp: heap_same_def)

lemma sample_allocated:
  obtains h' bs' where "kmalloc 100 sample_heap = Some (Some 0xD0000020, h')" "heap_ok h' bs'"
    "cells h' bs' = [(0xD0000000, 112, False), (0xD0000090, 16208, True)]"
  using kmalloc_run [OF sample_heap_ok, of 100] by (auto simp: sample_cells sample_request)

theorem kfree_releases_one_allocation_witness:
  "\<exists>h' bs'. kmalloc 100 sample_heap = Some (Some 0xD0000020, h') \<and> heap_ok (kfree (Some 0xD0000020) h') bs' \<and>
    cells (kfree (Some 0xD0000020) h') bs' = [(0xD0000000, 16352, True)]"
proof -
  obtain h' bs' where h: "kmalloc 100 sample_heap = Some (Some 0xD0000020, h')" "heap_ok h' bs'"
      "cells h' bs' = [(0xD0000000, 112, False), (0xD0000090, 16208, True)]" by (rule sample_allocated)
  have "(unat (0xD0000020 :: u32), 112) \<in> live (cells h' bs')" by (simp add: h(3))
  from kfree_releases_one_allocation [OF h(2) this] show ?thesis using h(1) by (auto simp: h(3))
qed



text \<open>An allocation and its release are a round trip: on a heap without neighbouring free blocks
  that has room for the request, \<open>kmalloc\<close> succeeds, and \<open>kfree\<close> of its result gives the sequence of cells
  back.\<close>

theorem kfree_undoes_kmalloc:
  assumes ok: "heap_ok h bs" and c: "coalesced (cells h bs)" and n: "n \<noteq> 0" "n \<le> SIZE_MAX - 15"
    and fits: "\<exists>(a, k, f) \<in> set (cells h bs). f \<and> round16 n \<le> k"
  shows "\<exists>p h1 bs2. kmalloc n h = Some (Some p, h1) \<and> heap_ok (kfree (Some p) h1) bs2 \<and>
    cells (kfree (Some p) h1) bs2 = cells h bs"
proof -
  have "place (round16 n) (cells h bs) \<noteq> None" unfolding place_None_iff fits_def using fits by force
  then obtain a ds where pl: "place (round16 n) (cells h bs) = Some (a, ds)" by auto
  then have "request_spec n h (cells h bs) = Some (a, ds)" using n by (simp add: request_spec_def allocate_spec_def)
  with kmalloc_run [OF ok, of n] obtain h1 bs1 where h1: "kmalloc n h = Some (Some (of_nat (a + 32)), h1)" "heap_ok h1 bs1"
      "cells h1 bs1 = ds" by auto
  from pl obtain k where k: "(a, k, False) \<in> set ds" by (rule live_place)
  then have lv: "(a + 32, k) \<in> live (cells h1 bs1)" by (auto simp: live_def h1(3))
  from kfree_live [OF h1(2) lv] obtain bs2 where "heap_ok (kfree (Some (of_nat (a + 32))) h1) bs2"
      "cells (kfree (Some (of_nat (a + 32))) h1) bs2 = release a ds" unfolding h1(3) by auto
  moreover have "release a ds = cells h bs" by (rule release_place [OF c pl cells_distinct [OF heap_ok_list [OF ok]]])
  ultimately show ?thesis using h1(1) by auto
qed

theorem kfree_undoes_kmalloc_witness:
  "\<exists>p h1 bs2. kmalloc 100 sample_heap = Some (Some p, h1) \<and> heap_ok (kfree (Some p) h1) bs2 \<and>
    cells (kfree (Some p) h1) bs2 = [(0xD0000000, 16352, True)]"
  using kfree_undoes_kmalloc [OF sample_heap_ok, of 100] by (simp add: sample_cells round16_def SIZE_MAX_def)

text \<open>Claim C33. \<open>krealloc\<close> of a live allocation keeps its contents. Whether the block is cut in place, takes in
  the free block behind it or moves, the answer is a block of at least the new size whose first bytes
  are those of the old one, up to the smaller size, and it replaces the old allocation; when the answer is
  null, the old allocation is still live with its bytes. No other allocation is touched in either case.\<close>

theorem krealloc_keeps_contents:
  assumes "heap_ok h bs" and "(unat p, k) \<in> live (cells h bs)" and "n \<noteq> 0"
  shows "\<exists>r h' bs'. krealloc (Some p) n h = Some (r, h') \<and> heap_ok h' bs' \<and>
    (case r of
       None \<Rightarrow> live (cells h' bs') = live (cells h bs) \<and>
         (\<forall>i < k. payload h' (of_nat (unat p + i)) = payload h (of_nat (unat p + i)))
     | Some q \<Rightarrow> \<exists>j. unat n \<le> j \<and> live (cells h' bs') = insert (unat q, j) (live (cells h bs) - {(unat p, k)}) \<and>
         (\<forall>i < min k (unat n). payload h' (of_nat (unat q + i)) = payload h (of_nat (unat p + i)))) \<and>
    (\<forall>(q, j) \<in> live (cells h bs) - {(unat p, k)}. \<forall>i < j. payload h' (of_nat (q + i)) = payload h (of_nat (q + i)))"
  using krealloc_run [OF assms] unfolding moved_def .

theorem krealloc_keeps_contents_witness:
  "\<exists>h1 r h2 bs2. kmalloc 100 sample_heap = Some (Some 0xD0000020, h1) \<and> krealloc (Some 0xD0000020) 200 h1 = Some (r, h2) \<and> heap_ok h2 bs2"
proof -
  obtain h' bs' where h: "kmalloc 100 sample_heap = Some (Some 0xD0000020, h')" "heap_ok h' bs'"
      "cells h' bs' = [(0xD0000000, 112, False), (0xD0000090, 16208, True)]" by (rule sample_allocated)
  have "(unat (0xD0000020 :: u32), 112) \<in> live (cells h' bs')" by (simp add: h(3))
  from krealloc_keeps_contents [OF h(2) this, of 200] show ?thesis using h(1) by auto
qed

end
