(* ===== verification/HeapBoot.thy ===== *)
theory HeapBoot
  imports HeapProps
begin

text \<open>
  The initialisation of the heap: the page tables of the whole region, the first four pages, one free block.
\<close>

section \<open>The page tables of the heap region\<close>

lemma ensure_kernel_table_effect:
  assumes ok: "paging_ok s" and k: "current_directory s = kernel_directory s"
    and i: "unat (page_directory_index va) < 1023" "page_directory_index va \<noteq> PAGE_DIRECTORY_SCRATCH_INDEX"
  shows "\<exists>b s'. paging_ensure_kernel_page_table va s = Some (b, s') \<and> paging_ok s' \<and> current_directory s' = kernel_directory s' \<and>
    (\<forall>k. unat k < 1024 \<and> present (pde s k) \<longrightarrow> present (pde s' k)) \<and> (b \<longrightarrow> present (pde s' (page_directory_index va)))"
proof -
  let ?i = "page_directory_index va"
  have ni: "?i \<noteq> RECURSIVE_DIRECTORY_INDEX" using i(1) by (auto simp: RECURSIVE_DIRECTORY_INDEX_def)
  have read: "read_word (recursive_page_directory + ?i * 4) s = Some (pde s ?i)"
    by (rule read_pde [OF paging_okD(1) [OF ok]]) simp
  show ?thesis
  proof (cases "present (pde s ?i)")
    case True
    then have "paging_ensure_kernel_page_table va s = Some (pde s ?i AND PAGE_USER = 0, s)"
      using k i(2) ni read by (simp add: paging_ensure_kernel_page_table_def present_def)
    then show ?thesis using ok k True by blast
  next
    case False
    then have run: "paging_ensure_kernel_page_table va s = map_page_table ?i 0 s"
      using k i(2) ni by (simp add: paging_ensure_kernel_page_table_def map_page_table_def read present_def or.assoc Let_def split: prod.split)
    from map_page_table_effect [OF ok i(1), of 0] obtain b s' where s': "map_page_table ?i 0 s = Some (b, s')" "paging_ok s'" "paging_same s s'"
        "\<forall>k. unat k < 1024 \<and> k \<noteq> ?i \<longrightarrow> pde s' k = pde s k"
        "if b then \<exists>f. pde s' ?i = f OR PAGE_PRESENT OR table_rights 0 \<and> f AND PAGE_USER = (if present (pde s ?i) then pde s ?i AND PAGE_USER else 0)
         else s' = s \<and> \<not> present (pde s ?i) \<and> pmm_free_frames (frames s) = {}" by blast
    have "b \<longrightarrow> present (pde s' ?i)" using s'(5) by (auto simp: present_def or_and or_zero)
    moreover have "present (pde s' n)" if "unat n < 1024" "present (pde s n)" for n using s'(4) that False by (cases "n = ?i") auto
    moreover have "current_directory s' = kernel_directory s'" using paging_same_directory [OF s'(3)] s'(3) k by (simp add: paging_same_def)
    ultimately show ?thesis using s'(1,2) run by auto
  qed
qed

definition region_page :: "nat \<Rightarrow> u32" where
  "region_page d = of_nat (3758096384 - d * 4194304)"

lemma region_page_facts:
  assumes "d \<le> 64"
  shows "unat (region_page d) = 3758096384 - d * 4194304" "unat (page_directory_index (region_page d)) = 896 - d"
proof -
  show u: "unat (region_page d) = 3758096384 - d * 4194304" unfolding region_page_def by (subst u32_of_nat_unat) simp_all
  have "3758096384 - d * 4194304 = (896 - d) * 4194304" using assms by (simp add: diff_mult_distrib)
  then show "unat (page_directory_index (region_page d)) = 896 - d" by (simp add: directory_index_unat u)
qed

lemma heap_tables_loop_effect:
  "d \<le> 64 \<Longrightarrow> paging_ok s \<Longrightarrow> current_directory s = kernel_directory s \<Longrightarrow>
    \<exists>b s'. heap_tables_loop (region_page d) s = Some (b, s') \<and> paging_ok s' \<and>
      (\<forall>k. unat k < 1024 \<and> present (pde s k) \<longrightarrow> present (pde s' k)) \<and>
      (b \<longrightarrow> (\<forall>k. 896 - d \<le> unat k \<and> unat k < 896 \<longrightarrow> present (pde s' k)))"
proof (induction d arbitrary: s)
  case 0
  have "\<not> region_page 0 < KERNEL_HEAP_LIMIT" by (simp add: region_page_def KERNEL_HEAP_LIMIT_def)
  then have "heap_tables_loop (region_page 0) s = Some (True, s)" by (subst heap_tables_loop.simps) simp
  moreover have "\<forall>k. 896 - 0 \<le> unat k \<and> unat k < 896 \<longrightarrow> present (pde s k)" by (intro allI impI) linarith
  ultimately show ?case using 0 by blast
next
  case (Suc d)
  let ?a = "region_page (Suc d)"
  note f = region_page_facts [OF Suc.prems(1)]
  have lt: "?a < KERNEL_HEAP_LIMIT" using f(1) by (simp add: word_less_nat_alt KERNEL_HEAP_LIMIT_def)
  have nx: "?a + PAGE_SIZE * 1024 = region_page d"
  proof -
    have "unat (?a + 4194304) = unat (region_page d)"
      using f(1) region_page_facts(1) [of d] Suc.prems(1) by (subst unat_add_u32) simp_all
    then show ?thesis by (simp add: PAGE_SIZE_def u32_eq_iff)
  qed
  have i: "unat (page_directory_index ?a) < 1023" "page_directory_index ?a \<noteq> PAGE_DIRECTORY_SCRATCH_INDEX"
    using f(2) by (auto simp: PAGE_DIRECTORY_SCRATCH_INDEX_def)
  from ensure_kernel_table_effect [OF Suc.prems(2,3) i] obtain b s1 where
      s1: "paging_ensure_kernel_page_table ?a s = Some (b, s1)" "paging_ok s1" "current_directory s1 = kernel_directory s1"
        "\<And>k. unat k < 1024 \<Longrightarrow> present (pde s k) \<Longrightarrow> present (pde s1 k)" "b \<longrightarrow> present (pde s1 (page_directory_index ?a))" by blast
  show ?case
  proof (cases b)
    case False
    then have "heap_tables_loop ?a s = Some (False, s1)" using s1(1) lt by (subst heap_tables_loop.simps) simp
    then show ?thesis using s1 by auto
  next
    case True
    have "d \<le> 64" using Suc.prems(1) by simp
    from Suc.IH [OF this s1(2,3)] obtain c s' where s': "heap_tables_loop (region_page d) s1 = Some (c, s')" "paging_ok s'"
        "\<And>k. unat k < 1024 \<Longrightarrow> present (pde s1 k) \<Longrightarrow> present (pde s' k)"
        "c \<longrightarrow> (\<forall>k. 896 - d \<le> unat k \<and> unat k < 896 \<longrightarrow> present (pde s' k))" by blast
    have run: "heap_tables_loop ?a s = Some (c, s')" using s1(1) True lt s'(1) nx by (subst heap_tables_loop.simps) simp
    have "present (pde s' k)" if "c" "896 - Suc d \<le> unat k" "unat k < 896" for k
    proof (cases "unat k = 896 - Suc d")
      case True
      then have "k = page_directory_index ?a" using f(2) by (simp add: u32_eq_iff)
      then show ?thesis using s1(5) s'(3) [of k] \<open>b\<close> that(3) by auto
    qed (use s'(4) that Suc.prems(1) in auto)
    then show ?thesis using run s'(2,3) s1(4) by auto
  qed
qed

section \<open>The first block\<close>

definition first_block :: "paging_state \<Rightarrow> heap \<Rightarrow> heap" where
  "first_block s h =
     (let h = zero_range KERNEL_HEAP_START (HEAP_INITIAL_PAGES * PAGE_SIZE) (h\<lparr>heap_first_block := None, heap_last_block := None,
            heap_mapped_end := KERNEL_HEAP_START, paging := s\<rparr>);
          h = h\<lparr>heap_mapped_end := KERNEL_HEAP_START + HEAP_INITIAL_PAGES * PAGE_SIZE, heap_first_block := Some KERNEL_HEAP_START\<rparr>;
          h = set_header KERNEL_HEAP_START (\<lambda>_. \<lparr>block_size = HEAP_INITIAL_PAGES * PAGE_SIZE - sizeof_heap_block,
                block_previous = None, block_next = None, block_magic = HEAP_BLOCK_MAGIC, block_free = True\<rparr>) h
      in h\<lparr>heap_last_block := Some KERNEL_HEAP_START, heap_initialized := True\<rparr>)"

lemma first_block_ok:
  assumes "\<forall>a. block_magic (headers h a) \<noteq> HEAP_BLOCK_MAGIC" "paging_ok s" "pages_present s 0xD0000000 0xD0004000"
  shows "heap_ok (first_block s h) [KERNEL_HEAP_START]" "cells (first_block s h) [KERNEL_HEAP_START] = [(0xD0000000, 16352, True)]"
    "heap_initialized (first_block s h)"
proof -
  let ?h = "first_block s h"
  have f: "paging ?h = s" "heap_mapped_end ?h = 0xD0004000" "heap_first_block ?h = Some KERNEL_HEAP_START" "heap_last_block ?h = Some KERNEL_HEAP_START"
    "heap_initialized ?h"
    by (simp_all add: first_block_def Let_def HEAP_INITIAL_PAGES_def PAGE_SIZE_def KERNEL_HEAP_START_def)
  have b: "headers ?h KERNEL_HEAP_START = \<lparr>block_size = 16352, block_previous = None, block_next = None, block_magic = HEAP_BLOCK_MAGIC, block_free = True\<rparr>"
    by (simp add: first_block_def Let_def HEAP_INITIAL_PAGES_def PAGE_SIZE_def sizeof_heap_block_def)
  have m: "block_magic (headers ?h a) = HEAP_BLOCK_MAGIC \<longleftrightarrow> a = KERNEL_HEAP_START" for a
    using assms(1) by (simp add: first_block_def Let_def zero_range_def zero_block_def HEAP_BLOCK_MAGIC_def)
  have c: "cell_of (headers ?h) KERNEL_HEAP_START = (0xD0000000, 16352, True)"
    unfolding cell_of_def b by (simp add: KERNEL_HEAP_START_def)
  show "cells ?h [KERNEL_HEAP_START] = [(0xD0000000, 16352, True)]" by (simp add: cells_def c)
  have "heap_list ?h [KERNEL_HEAP_START]"
    unfolding heap_list_def using m by (simp add: f b dll_def c) (simp add: KERNEL_HEAP_START_def KERNEL_HEAP_LIMIT_def)
  then show "heap_ok ?h [KERNEL_HEAP_START]" using assms(2,3) unfolding heap_ok_def f by (simp add: KERNEL_HEAP_START_def f)
  show "heap_initialized ?h" by (rule f(5))
qed


definition boot_heap :: heap where
  "boot_heap = \<lparr>paging = bare_paging, headers = (\<lambda>_. zero_block), payload = (\<lambda>_. 0), heap_first_block = None,
     heap_last_block = None, heap_mapped_end = 0, heap_initialized = False\<rparr>"


end
