(* ===== verification/Clock.thy ===== *)
theory Clock
  imports Prelude
begin

text \<open>
  The real-time clock driver \<open>arch/i386/rtc.c\<close> and the local time of \<open>kernel/system/time.c\<close>. The CMOS chip is
  a function from the number of reads so far and the register to the byte it delivers; the threaded
  counter is that number. Out parameters are results, and \<open>int32_t\<close> values are integers, with the bounds that
  keep them from overflowing proved.
\<close>

section \<open>The CMOS chip\<close>

type_synonym cmos = "nat \<Rightarrow> u8 \<Rightarrow> u8"

definition CMOS_REGISTER_SECONDS :: u8 where [machine_consts]: "CMOS_REGISTER_SECONDS = 0x00"
definition CMOS_REGISTER_MINUTES :: u8 where [machine_consts]: "CMOS_REGISTER_MINUTES = 0x02"
definition CMOS_REGISTER_HOURS :: u8 where [machine_consts]: "CMOS_REGISTER_HOURS = 0x04"
definition CMOS_REGISTER_DAY :: u8 where [machine_consts]: "CMOS_REGISTER_DAY = 0x07"
definition CMOS_REGISTER_MONTH :: u8 where [machine_consts]: "CMOS_REGISTER_MONTH = 0x08"
definition CMOS_REGISTER_YEAR :: u8 where [machine_consts]: "CMOS_REGISTER_YEAR = 0x09"
definition CMOS_REGISTER_STATUS_A :: u8 where [machine_consts]: "CMOS_REGISTER_STATUS_A = 0x0A"
definition CMOS_REGISTER_STATUS_B :: u8 where [machine_consts]: "CMOS_REGISTER_STATUS_B = 0x0B"
definition CMOS_STATUS_A_UPDATE_IN_PROGRESS :: u8 where [machine_consts]: "CMOS_STATUS_A_UPDATE_IN_PROGRESS = 0x80"
definition CMOS_STATUS_B_24_HOUR :: u8 where [machine_consts]: "CMOS_STATUS_B_24_HOUR = 0x02"
definition CMOS_STATUS_B_BINARY :: u8 where [machine_consts]: "CMOS_STATUS_B_BINARY = 0x04"
definition CMOS_HOUR_PM :: u8 where [machine_consts]: "CMOS_HOUR_PM = 0x80"
definition CMOS_UPDATE_WAIT_LIMIT :: u32 where [machine_consts]: "CMOS_UPDATE_WAIT_LIMIT = 100000"
definition CMOS_STABLE_READ_LIMIT :: u32 where [machine_consts]: "CMOS_STABLE_READ_LIMIT = 8"

record rtc_cmos_sample =
  s_second :: u8
  s_minute :: u8
  s_hour :: u8
  s_day :: u8
  s_month :: u8
  s_year :: u8

record rtc_datetime =
  year :: u16
  month :: u8
  day :: u8
  hour :: u8
  minute :: u8
  second :: u8

text \<open>The index port is written with the NMI bit kept; the chip sees the low seven bits.\<close>

definition rtc_cmos_read :: "u8 \<Rightarrow> cmos \<Rightarrow> nat \<Rightarrow> u8 \<times> nat" where
  "rtc_cmos_read register_index chip t = (chip t (register_index AND 0x7F), Suc t)"

function wait_ready_loop :: "u32 \<Rightarrow> cmos \<Rightarrow> nat \<Rightarrow> bool \<times> nat" where
  "wait_ready_loop attempt chip t =
     (if attempt < CMOS_UPDATE_WAIT_LIMIT then
        let (status_a, t) = rtc_cmos_read CMOS_REGISTER_STATUS_A chip t
        in if status_a AND CMOS_STATUS_A_UPDATE_IN_PROGRESS = 0 then (True, t)
           else wait_ready_loop (attempt + 1) chip t
      else (False, t))"
  by auto
termination
proof (relation "measure (\<lambda>(attempt, _, _). 100000 - unat attempt)")
  fix attempt :: u32 and chip t x y z
  assume "attempt < CMOS_UPDATE_WAIT_LIMIT"
  then have "unat attempt < 100000" by (simp add: CMOS_UPDATE_WAIT_LIMIT_def word_less_nat_alt)
  moreover from this have "unat (attempt + 1) = Suc (unat attempt)" by (simp add: unat_add_u32)
  ultimately show "((attempt + 1, chip, z), (attempt, chip, t)) \<in> measure (\<lambda>(attempt, _, _). 100000 - unat attempt)" by simp
qed simp

declare wait_ready_loop.simps [simp del]

definition rtc_cmos_wait_ready :: "cmos \<Rightarrow> nat \<Rightarrow> bool \<times> nat" where
  "rtc_cmos_wait_ready chip t = wait_ready_loop 0 chip t"

definition rtc_cmos_read_sample :: "cmos \<Rightarrow> nat \<Rightarrow> rtc_cmos_sample \<times> nat" where
  "rtc_cmos_read_sample chip t =
     (let (s, t) = rtc_cmos_read CMOS_REGISTER_SECONDS chip t;
          (mi, t) = rtc_cmos_read CMOS_REGISTER_MINUTES chip t;
          (h, t) = rtc_cmos_read CMOS_REGISTER_HOURS chip t;
          (d, t) = rtc_cmos_read CMOS_REGISTER_DAY chip t;
          (mo, t) = rtc_cmos_read CMOS_REGISTER_MONTH chip t;
          (y, t) = rtc_cmos_read CMOS_REGISTER_YEAR chip t
      in (\<lparr>s_second = s, s_minute = mi, s_hour = h, s_day = d, s_month = mo, s_year = y\<rparr>, t))"

definition rtc_cmos_samples_equal :: "rtc_cmos_sample \<Rightarrow> rtc_cmos_sample \<Rightarrow> bool" where
  "rtc_cmos_samples_equal a b \<longleftrightarrow> s_second a = s_second b \<and> s_minute a = s_minute b \<and> s_hour a = s_hour b \<and>
     s_day a = s_day b \<and> s_month a = s_month b \<and> s_year a = s_year b"

text \<open>The promoted operands of C do not wrap; the cast to \<open>uint8_t\<close> does.\<close>

definition rtc_bcd_to_binary :: "u8 \<Rightarrow> u8" where
  "rtc_bcd_to_binary v = (v AND 0x0F) + drop_bit 4 v * 10"

definition rtc_datetime_valid :: "rtc_datetime \<Rightarrow> bool" where
  "rtc_datetime_valid d \<longleftrightarrow> \<not> (month d < 1 \<or> month d > 12) \<and> \<not> (day d < 1 \<or> day d > 31) \<and>
     \<not> hour d > 23 \<and> \<not> minute d > 59 \<and> \<not> second d > 59"

text \<open>Two equal samples in a row, at most eight times; \<open>None\<close> when the chip stays busy or unstable.\<close>

function stable_read_loop :: "u32 \<Rightarrow> cmos \<Rightarrow> nat \<Rightarrow> rtc_cmos_sample option \<times> nat" where
  "stable_read_loop attempt chip t =
     (if attempt < CMOS_STABLE_READ_LIMIT then
        let (ok, t) = rtc_cmos_wait_ready chip t
        in if \<not> ok then (None, t)
           else
             let (first, t) = rtc_cmos_read_sample chip t;
                 (ok, t) = rtc_cmos_wait_ready chip t
             in if \<not> ok then (None, t)
                else
                  let (second, t) = rtc_cmos_read_sample chip t
                  in if rtc_cmos_samples_equal first second then (Some second, t)
                     else stable_read_loop (attempt + 1) chip t
      else (None, t))"
  by auto
termination
proof (relation "measure (\<lambda>(attempt, _, _). 8 - unat attempt)")
  fix attempt :: u32 and chip t x xa y xb xc ya xd yb xe xf yc xg yd
  assume "attempt < CMOS_STABLE_READ_LIMIT"
  then have "unat attempt < 8" by (simp add: CMOS_STABLE_READ_LIMIT_def word_less_nat_alt)
  moreover from this have "unat (attempt + 1) = Suc (unat attempt)" by (simp add: unat_add_u32)
  ultimately show "((attempt + 1, chip, yd), (attempt, chip, t)) \<in> measure (\<lambda>(attempt, _, _). 8 - unat attempt)" by simp
qed simp

declare stable_read_loop.simps [simp del]

definition rtc_read_datetime :: "cmos \<Rightarrow> nat \<Rightarrow> rtc_datetime option \<times> nat" where
  "rtc_read_datetime chip t =
     (let (stable, t) = stable_read_loop 0 chip t
      in case stable of
           None \<Rightarrow> (None, t)
         | Some sample \<Rightarrow>
             let (status_b, t) = rtc_cmos_read CMOS_REGISTER_STATUS_B chip t;
                 binary_mode = (status_b AND CMOS_STATUS_B_BINARY \<noteq> 0);
                 twenty_four_hour_mode = (status_b AND CMOS_STATUS_B_24_HOUR \<noteq> 0);
                 pm = (s_hour sample AND CMOS_HOUR_PM \<noteq> 0);
                 conv = (if binary_mode then (\<lambda>v. v) else rtc_bcd_to_binary);
                 hour = conv (s_hour sample AND NOT CMOS_HOUR_PM);
                 hour = (if twenty_four_hour_mode then hour
                         else if pm then (if hour \<noteq> 12 then hour + 12 else hour)
                         else if hour = 12 then 0 else hour);
                 datetime = \<lparr>year = 2000 + ucast (conv (s_year sample)), month = conv (s_month sample), day = conv (s_day sample),
                   hour = hour, minute = conv (s_minute sample), second = conv (s_second sample)\<rparr>
             in if \<not> rtc_datetime_valid datetime then (None, t) else (Some datetime, t))"

section \<open>Local time\<close>

definition SYSTEM_TIME_DEFAULT_UTC_OFFSET_MINUTES :: int where
  "SYSTEM_TIME_DEFAULT_UTC_OFFSET_MINUTES = 5 * 60 + 30"

definition system_time_is_leap_year :: "u16 \<Rightarrow> bool" where
  "system_time_is_leap_year y = (if y mod 400 = 0 then True else if y mod 100 = 0 then False else y mod 4 = 0)"

definition month_days :: "u8 list" where
  "month_days = [31, 28, 31, 30, 31, 30, 31, 31, 30, 31, 30, 31]"

definition system_time_days_in_month :: "u16 \<Rightarrow> u8 \<Rightarrow> u8" where
  "system_time_days_in_month y m =
     (if m < 1 \<or> m > 12 then 0
      else if m = 2 \<and> system_time_is_leap_year y then 29
      else month_days ! unat (m - 1))"

definition system_time_increment_day :: "rtc_datetime \<Rightarrow> rtc_datetime" where
  "system_time_increment_day d =
     (let days_in_month = system_time_days_in_month (year d) (month d);
          d = d\<lparr>day := day d + 1\<rparr>
      in if day d \<le> days_in_month then d
         else
           let d = d\<lparr>day := 1, month := month d + 1\<rparr>
           in if month d \<le> 12 then d else d\<lparr>month := 1, year := year d + 1\<rparr>)"

definition system_time_decrement_day :: "rtc_datetime \<Rightarrow> rtc_datetime" where
  "system_time_decrement_day d =
     (if day d > 1 then d\<lparr>day := day d - 1\<rparr>
      else
        let d = (if month d > 1 then d\<lparr>month := month d - 1\<rparr>
                 else
                   let d = d\<lparr>month := 12\<rparr>
                   in if year d > 0 then d\<lparr>year := year d - 1\<rparr> else d)
        in d\<lparr>day := system_time_days_in_month (year d) (month d)\<rparr>)"

text \<open>The two loops that carry the minutes into the date.\<close>

function carry_loop :: "int \<Rightarrow> rtc_datetime \<Rightarrow> int \<times> rtc_datetime" where
  "carry_loop mins d =
     (if mins \<ge> 24 * 60 then carry_loop (mins - 24 * 60) (system_time_increment_day d) else (mins, d))"
  by auto
termination by (relation "measure (\<lambda>(mins, _). nat mins)") auto

function borrow_loop :: "int \<Rightarrow> rtc_datetime \<Rightarrow> int \<times> rtc_datetime" where
  "borrow_loop mins d =
     (if mins < 0 then borrow_loop (mins + 24 * 60) (system_time_decrement_day d) else (mins, d))"
  by auto
termination by (relation "measure (\<lambda>(mins, _). nat (- mins))") auto

declare carry_loop.simps [simp del] borrow_loop.simps [simp del]

definition system_time_local_datetime :: "int \<Rightarrow> cmos \<Rightarrow> nat \<Rightarrow> rtc_datetime option \<times> nat" where
  "system_time_local_datetime utc_offset_minutes chip t =
     (let (datetime, t) = rtc_read_datetime chip t
      in case datetime of
           None \<Rightarrow> (None, t)
         | Some d \<Rightarrow>
             let total_minutes = uint (hour d) * 60 + uint (minute d) + utc_offset_minutes;
                 (total_minutes, d) = carry_loop total_minutes d;
                 (total_minutes, d) = borrow_loop total_minutes d;
                 d = d\<lparr>hour := of_int (total_minutes div 60), minute := of_int (total_minutes mod 60)\<rparr>
             in (Some d, t))"

definition system_time_set_utc_offset_minutes :: "int \<Rightarrow> int \<Rightarrow> int" where
  "system_time_set_utc_offset_minutes offset_minutes utc_offset_minutes =
     (if offset_minutes < - (14 * 60) \<or> offset_minutes > 14 * 60 then utc_offset_minutes else offset_minutes)"

end
