(* ===== verification/ClockProps.thy ===== *)
theory ClockProps
  imports Clock
begin

text \<open>
  Local time against a reference calendar: days are counted one by one from the year 0 of the Gregorian
  rules, and the local date is the one that many minutes later or earlier.
\<close>

section \<open>The reference calendar\<close>

definition leap :: "nat \<Rightarrow> bool" where
  "leap y \<longleftrightarrow> 4 dvd y \<and> (\<not> 100 dvd y \<or> 400 dvd y)"

definition month_length :: "nat \<Rightarrow> nat \<Rightarrow> nat" where
  "month_length y m = (if m = 2 then if leap y then 29 else 28 else if m \<in> {4, 6, 9, 11} then 30 else 31)"

text \<open>Days before a year, and before a month of a year.\<close>

primrec days_before_year :: "nat \<Rightarrow> nat" where
  "days_before_year 0 = 0"
| "days_before_year (Suc y) = days_before_year y + (if leap y then 366 else 365)"

primrec days_before_month :: "nat \<Rightarrow> nat \<Rightarrow> nat" where
  "days_before_month y 0 = 0"
| "days_before_month y (Suc m) = days_before_month y m + (if m = 0 then 0 else month_length y m)"

definition day_number :: "rtc_datetime \<Rightarrow> nat" where
  "day_number d = days_before_year (unat (year d)) + days_before_month (unat (year d)) (unat (month d)) + unat (day d)"

definition date_ok :: "rtc_datetime \<Rightarrow> bool" where
  "date_ok d \<longleftrightarrow> 1 \<le> unat (month d) \<and> unat (month d) \<le> 12 \<and> 1 \<le> unat (day d) \<and>
     unat (day d) \<le> month_length (unat (year d)) (unat (month d))"

definition time_ok :: "rtc_datetime \<Rightarrow> bool" where
  "time_ok d \<longleftrightarrow> unat (hour d) < 24 \<and> unat (minute d) < 60 \<and> unat (second d) < 60"

text \<open>Minutes since the start of the calendar.\<close>

definition minute_number :: "rtc_datetime \<Rightarrow> int" where
  "minute_number d = int (day_number d) * 1440 + int (unat (hour d)) * 60 + int (unat (minute d))"

section \<open>Single days\<close>

lemma leap_year: "system_time_is_leap_year y \<longleftrightarrow> leap (unat y)"
proof -
  have m: "y mod n = 0 \<longleftrightarrow> unat n dvd unat y" for n :: u16
    by (simp add: word_unat_eq_iff unat_mod dvd_eq_mod_eq_0)
  have "unat (400 :: u16) = 400" "unat (100 :: u16) = 100" "unat (4 :: u16) = 4" by simp_all
  moreover have "400 dvd unat y \<Longrightarrow> 4 dvd unat y" by (rule dvd_trans [of 4 400]) simp_all
  ultimately show ?thesis unfolding system_time_is_leap_year_def m leap_def by auto
qed

lemma month_cases:
  assumes "1 \<le> unat (m :: u8)" "unat m \<le> 12"
  shows "m \<in> {1, 2, 3, 4, 5, 6, 7, 8, 9, 10, 11, 12}"
proof -
  have "unat m \<in> set [1..<13]" using assms by auto
  then show ?thesis by (auto simp: upt_rec word_unat_eq_iff)
qed

lemma days_in_month:
  assumes "1 \<le> unat m" "unat m \<le> 12"
  shows "unat (system_time_days_in_month y m) = month_length (unat y) (unat m)"
  using month_cases [OF assms]
  by (auto simp: system_time_days_in_month_def month_length_def leap_year month_days_def)

lemma month_length_bounds: "28 \<le> month_length y m" "month_length y m \<le> 31"
  by (simp_all add: month_length_def)

lemma year_length: "days_before_month y 13 = (if leap y then 366 else 365)"
  by (simp add: numeral_eq_Suc month_length_def)

lemma inc_u8: "unat (x :: u8) < 255 \<Longrightarrow> unat (x + 1) = unat x + 1"
  by (simp add: unat_word_ariths)

lemma dec_u8: "1 \<le> unat (x :: u8) \<Longrightarrow> unat (x - 1) = unat x - 1"
  by (simp add: unat_sub word_le_nat_alt)

lemma increment_day:
  assumes ok: "date_ok d" and y: "unat (year d) < 65535"
  shows "date_ok (system_time_increment_day d)" "day_number (system_time_increment_day d) = day_number d + 1"
proof -
  let ?y = "unat (year d)" and ?m = "unat (month d)"
  have m: "1 \<le> ?m" "?m \<le> 12" "1 \<le> unat (day d)" "unat (day d) \<le> month_length ?y ?m" using ok by (simp_all add: date_ok_def)
  have dm: "unat (system_time_days_in_month (year d) (month d)) = month_length ?y ?m" by (rule days_in_month [OF m(1,2)])
  have d1: "unat (day d + 1) = unat (day d) + 1" using m(4) month_length_bounds(2) [of ?y ?m] by (intro inc_u8) linarith
  have m1: "unat (month d + 1) = ?m + 1" using m(2) by (intro inc_u8) simp
  have y1: "unat (year d + 1) = ?y + 1" using y by (simp add: unat_word_ariths)
  have "date_ok (system_time_increment_day d) \<and> day_number (system_time_increment_day d) = day_number d + 1"
  proof (cases "unat (day d) < month_length ?y ?m")
    case True
    then show ?thesis using m d1 dm by (simp add: system_time_increment_day_def Let_def date_ok_def day_number_def word_le_nat_alt)
  next
    case last: False
    then have len: "unat (day d) = month_length ?y ?m" using m(4) by simp
    show ?thesis
    proof (cases "?m < 12")
      case True
      then show ?thesis using m d1 m1 dm len month_length_bounds(1) [of ?y "Suc ?m"]
        by (simp add: system_time_increment_day_def Let_def date_ok_def day_number_def word_le_nat_alt)
    next
      case False
      then have m12: "?m = 12" using m(2) by simp
      have "days_before_month ?y 12 + month_length ?y 12 = (if leap ?y then 366 else 365)"
        using year_length [of ?y] by (simp add: eval_nat_numeral)
      then show ?thesis using m d1 m1 y1 dm len m12 month_length_bounds(1) [of "Suc ?y" 1]
        by (simp add: system_time_increment_day_def Let_def date_ok_def day_number_def word_le_nat_alt)
    qed
  qed
  then show "date_ok (system_time_increment_day d)" "day_number (system_time_increment_day d) = day_number d + 1" by simp_all
qed

lemma decrement_day:
  assumes ok: "date_ok d" and y: "0 < unat (year d)"
  shows "date_ok (system_time_decrement_day d)" "day_number (system_time_decrement_day d) + 1 = day_number d"
proof -
  let ?y = "unat (year d)" and ?m = "unat (month d)"
  have m: "1 \<le> ?m" "?m \<le> 12" "1 \<le> unat (day d)" "unat (day d) \<le> month_length ?y ?m" using ok by (simp_all add: date_ok_def)
  have d1: "unat (day d - 1) = unat (day d) - 1" by (rule dec_u8 [OF m(3)])
  have m1: "unat (month d - 1) = ?m - 1" by (rule dec_u8 [OF m(1)])
  have y1: "unat (year d - 1) = ?y - 1" using y by (simp add: unat_sub word_le_nat_alt)
  have "date_ok (system_time_decrement_day d) \<and> day_number (system_time_decrement_day d) + 1 = day_number d"
  proof (cases "1 < unat (day d)")
    case True
    then show ?thesis using m d1 by (auto simp: system_time_decrement_day_def Let_def date_ok_def day_number_def word_less_nat_alt)
  next
    case first: False
    show ?thesis
    proof (cases "1 < ?m")
      case True
      have dm: "unat (system_time_days_in_month (year d) (month d - 1)) = month_length ?y (?m - 1)"
        using days_in_month [of "month d - 1" "year d"] m1 True m(2) by simp
      obtain k where k: "?m = Suc (Suc k)" using True by (metis Suc_lessE less_imp_Suc_add add_Suc_right One_nat_def)
      have "unat (day d) = 1" using first m(3) by linarith
      then show ?thesis using True m(2) m1 dm k month_length_bounds(1) [of ?y "Suc k"]
        by (simp add: system_time_decrement_day_def Let_def date_ok_def day_number_def word_less_nat_alt)
    next
      case False
      then have m1': "?m = 1" using m(1) by simp
      have dm: "unat (system_time_days_in_month (year d - 1) 12) = month_length (?y - 1) 12"
        using days_in_month [of 12 "year d - 1"] y1 by simp
      obtain k where k: "?y = Suc k" using y by (metis gr0_implies_Suc)
      have "days_before_month k 12 + month_length k 12 = (if leap k then 366 else 365)"
        using year_length [of k] by (simp add: eval_nat_numeral)
      moreover have "unat (day d) = 1" using first m(3) by linarith
      ultimately show ?thesis using m1' dm y1 k y month_length_bounds(1) [of k 12]
        by (simp add: system_time_decrement_day_def Let_def date_ok_def day_number_def word_less_nat_alt)
    qed
  qed
  then show "date_ok (system_time_decrement_day d)" "day_number (system_time_decrement_day d) + 1 = day_number d" by simp_all
qed

section \<open>Carrying minutes\<close>

lemma day_keeps_time [simp]:
  "hour (system_time_increment_day d) = hour d" "minute (system_time_increment_day d) = minute d" "second (system_time_increment_day d) = second d"
  "hour (system_time_decrement_day d) = hour d" "minute (system_time_decrement_day d) = minute d" "second (system_time_decrement_day d) = second d"
  by (simp_all add: system_time_increment_day_def system_time_decrement_day_def Let_def)

text \<open>What the two loops leave: the same number of minutes, less than a day of them apart from the date.\<close>

lemma carry_borrow:
  assumes ok: "date_ok d" and y: "0 < unat (year d)" "unat (year d) < 65535" and m: "- 1440 \<le> m" "m < 2880"
  shows "\<exists>m' d'. (let (mins, d) = carry_loop m d in borrow_loop mins d) = (m', d') \<and> 0 \<le> m' \<and> m' < 1440 \<and> date_ok d' \<and>
    int (day_number d') * 1440 + m' = int (day_number d) * 1440 + m \<and> second d' = second d"
proof -
  consider "m < 0" | "0 \<le> m" "m < 1440" | "1440 \<le> m" by linarith
  then show ?thesis
  proof cases
    case 1
    have "carry_loop m d = (m, d)" using 1 by (subst carry_loop.simps) simp
    moreover have "borrow_loop m d = (m + 1440, system_time_decrement_day d)"
      using 1 m(1) by (subst borrow_loop.simps, subst borrow_loop.simps) simp
    ultimately show ?thesis using decrement_day [OF ok y(1)] 1 m(1)
      by (intro exI [of _ "m + 1440"] exI [of _ "system_time_decrement_day d"]) (simp flip: of_nat_Suc)
  next
    case 2
    have "carry_loop m d = (m, d)" using 2 by (subst carry_loop.simps) simp
    moreover have "borrow_loop m d = (m, d)" using 2 by (subst borrow_loop.simps) simp
    ultimately show ?thesis using ok 2 by simp
  next
    case 3
    have "carry_loop m d = (m - 1440, system_time_increment_day d)"
      using 3 m(2) by (subst carry_loop.simps, subst carry_loop.simps) simp
    moreover have "borrow_loop (m - 1440) (system_time_increment_day d) = (m - 1440, system_time_increment_day d)"
      using 3 by (subst borrow_loop.simps) simp
    ultimately show ?thesis using increment_day [OF ok y(2)] 3 m(2)
      by (intro exI [of _ "m - 1440"] exI [of _ "system_time_increment_day d"]) simp
  qed
qed

lemma rtc_year:
  assumes "rtc_read_datetime chip t = (Some d, t')"
  shows "2000 \<le> unat (year d)" "unat (year d) \<le> 2255" "time_ok d"
proof -
  have y: "unat (2000 + ucast (v :: u8) :: u16) = 2000 + unat v" for v
  proof -
    have "unat (ucast v :: u16) = unat v" 
    proof -
      have "unat v < 2 ^ LENGTH(8)" by (rule unsigned_less)
      then have "unat v < 2 ^ 16" by simp
      then show ?thesis by (simp add: unsigned_ucast_eq take_bit_nat_eq_self)
    qed
    moreover have "unat v < 2 ^ LENGTH(8)" by (rule unsigned_less)
    ultimately show ?thesis by (simp add: unat_word_ariths)
  qed
  have b: "unat v \<le> 255" for v :: u8
  proof -
    have "unat v < 2 ^ LENGTH(8)" by (rule unsigned_less)
    then show ?thesis by simp
  qed
  show "2000 \<le> unat (year d)" "unat (year d) \<le> 2255" "time_ok d"
    using assms b by (auto simp: rtc_read_datetime_def Let_def y rtc_datetime_valid_def time_ok_def word_less_nat_alt not_less word_le_nat_alt
        split: option.splits prod.splits if_splits)
qed

text \<open>Claim C18. Local time is exact. When the clock delivers a date of the calendar, the local date and time
  is the one that is the offset in minutes later, counted on a reference calendar that adds the days up
  one by one, for every offset that can be set; it is again a date of the calendar and a time of day, and
  the seconds are those of the clock.\<close>

theorem local_datetime_exact:
  assumes clock: "rtc_read_datetime chip t = (Some utc, t')" and utc: "date_ok utc"
    and offset: "- 840 \<le> offset" "offset \<le> 840"
  shows "\<exists>loc. system_time_local_datetime offset chip t = (Some loc, t') \<and> date_ok loc \<and> time_ok loc \<and>
    minute_number loc = minute_number utc + offset \<and> second loc = second utc"
proof -
  note y = rtc_year [OF clock]
  have h: "unat (hour utc) < 24" "unat (minute utc) < 60" "unat (second utc) < 60" using y(3) by (simp_all add: time_ok_def)
  let ?m = "uint (hour utc) * 60 + uint (minute utc) + offset"
  have mi: "?m = int (unat (hour utc)) * 60 + int (unat (minute utc)) + offset" by simp
  have m: "- 1440 \<le> ?m" "?m < 2880" unfolding mi using h offset by linarith+
  have "0 < unat (year utc)" "unat (year utc) < 65535" using y by simp_all
  from carry_borrow [OF utc this m] obtain m' d' where d: "(let (mins, d) = carry_loop ?m utc in borrow_loop mins d) = (m', d')"
      "0 \<le> m'" "m' < 1440" "date_ok d'" "int (day_number d') * 1440 + m' = int (day_number utc) * 1440 + ?m" "second d' = second utc" by blast
  let ?loc = "d'\<lparr>hour := of_int (m' div 60), minute := of_int (m' mod 60)\<rparr>"
  have run: "system_time_local_datetime offset chip t = (Some ?loc, t')"
    using clock d(1) by (auto simp: system_time_local_datetime_def Let_def split: prod.splits)
  have u: "unat (of_int x :: u8) = nat x" if "0 \<le> x" "x < 256" for x
    using that by (simp add: unsigned_of_int take_bit_int_eq_self)
  have hm: "unat (of_int (m' div 60) :: u8) = nat (m' div 60)" "unat (of_int (m' mod 60) :: u8) = nat (m' mod 60)"
    using d(2,3) by (intro u; simp)+
  have nd: "day_number ?loc = day_number d'" by (simp add: day_number_def)
  have "m' div 60 < 24" using d(3) by simp
  then have "time_ok ?loc" using hm d(2,6) h(3) by (simp add: time_ok_def nat_less_iff)
  moreover have "minute_number ?loc = minute_number utc + offset"
  proof -
    have "0 \<le> m' div 60" "0 \<le> m' mod 60" using d(2) by (simp_all add: pos_imp_zdiv_nonneg_iff)
    then show ?thesis using d(2,5) hm div_mult_mod_eq [of m' 60] by (simp add: minute_number_def nd)
  qed
  moreover have "date_ok ?loc" using d(4) by (simp add: date_ok_def)
  ultimately show ?thesis using run d(6) by (intro exI [of _ ?loc]) simp
qed

text \<open>A chip that shows 2023-12-31 20:15:30 in BCD and 24-hour mode.\<close>

definition new_year_chip :: cmos where
  "new_year_chip t r = (if r = 0x00 then 0x30 else if r = 0x02 then 0x15 else if r = 0x04 then 0x20 else if r = 0x07 then 0x31
     else if r = 0x08 then 0x12 else if r = 0x09 then 0x23 else if r = 0x0B then 0x02 else 0)"

lemma new_year_read: "rtc_read_datetime new_year_chip 0 =
    (Some \<lparr>year = 2023, month = 12, day = 31, hour = 20, minute = 15, second = 30\<rparr>, 15)"
proof -
  have w: "rtc_cmos_wait_ready new_year_chip t = (True, Suc t)" for t
    unfolding rtc_cmos_wait_ready_def by (subst wait_ready_loop.simps) (simp add: rtc_cmos_read_def new_year_chip_def machine_consts)
  have s: "rtc_cmos_read_sample new_year_chip t =
      (\<lparr>s_second = 0x30, s_minute = 0x15, s_hour = 0x20, s_day = 0x31, s_month = 0x12, s_year = 0x23\<rparr>, t + 6)" for t
    by (simp add: rtc_cmos_read_sample_def rtc_cmos_read_def new_year_chip_def machine_consts)
  have "stable_read_loop 0 new_year_chip 0 =
      (Some \<lparr>s_second = 0x30, s_minute = 0x15, s_hour = 0x20, s_day = 0x31, s_month = 0x12, s_year = 0x23\<rparr>, 14)"
    by (subst stable_read_loop.simps) (simp add: w s machine_consts rtc_cmos_samples_equal_def)
  then show ?thesis
    by (simp add: rtc_read_datetime_def rtc_cmos_read_def new_year_chip_def machine_consts rtc_bcd_to_binary_def rtc_datetime_valid_def)
qed

theorem local_datetime_exact_witness:
  "\<exists>loc. system_time_local_datetime 330 new_year_chip 0 = (Some loc, 15) \<and> date_ok loc \<and> second loc = 30"
proof -
  have "date_ok \<lparr>year = 2023, month = 12, day = 31, hour = 20, minute = 15, second = 30\<rparr>"
    by (simp add: date_ok_def month_length_def)
  from local_datetime_exact [OF new_year_read this, of 330] show ?thesis by auto
qed

end
