(* ===== verification/LineInput.thy ===== *)
theory LineInput
  imports Prelude
begin

text \<open>
  The line editor \<open>kernel/input/keyboard_line.c\<close>. The answers of \<open>keyboard_wait_character\<close> are a list, \<open>None\<close>
  for a failed wait; when the list is used up the task stays blocked, and the result is \<open>None\<close>. The
  buffer is a map from indices to characters, and the terminal is the list of characters put to it.
\<close>

section \<open>The editor\<close>

definition line_character_is_printable :: "char \<Rightarrow> bool" where
  "line_character_is_printable c \<longleftrightarrow> of_char c \<ge> (0x20 :: nat) \<and> of_char c \<le> (0x7E :: nat)"

record line_state =
  line_buffer :: "nat \<Rightarrow> char"
  line_position :: u32
  line_output :: "char list"

definition newline :: char where "newline = CHR 0x0A"
definition backspace :: char where "backspace = CHR 0x08"
definition nul :: char where "nul = CHR 0x00"

definition terminate_line :: "line_state \<Rightarrow> line_state" where
  "terminate_line s = s\<lparr>line_buffer := (line_buffer s)(unat (line_position s) := nul)\<rparr>"

definition put_echo :: "bool \<Rightarrow> char \<Rightarrow> line_state \<Rightarrow> line_state" where
  "put_echo echo c s = (if echo then s\<lparr>line_output := line_output s @ [c]\<rparr> else s)"

fun read_line_loop :: "char option list \<Rightarrow> u32 \<Rightarrow> bool \<Rightarrow> line_state \<Rightarrow> (bool \<times> line_state \<times> char option list) option" where
  "read_line_loop [] capacity echo s = None"
| "read_line_loop (None # cs) capacity echo s = Some (False, terminate_line s, cs)"
| "read_line_loop (Some c # cs) capacity echo s =
     (if c = newline then Some (True, put_echo echo newline (terminate_line s), cs)
      else if c = backspace then
        (if line_position s = 0 then read_line_loop cs capacity echo s
         else
           let s = terminate_line (s\<lparr>line_position := line_position s - 1\<rparr>)
           in read_line_loop cs capacity echo (put_echo echo backspace s))
      else if \<not> line_character_is_printable c then read_line_loop cs capacity echo s
      else if line_position s \<ge> capacity - 1 then read_line_loop cs capacity echo s
      else
        let s = s\<lparr>line_buffer := (line_buffer s)(unat (line_position s) := c), line_position := line_position s + 1\<rparr>;
            s = terminate_line s
        in read_line_loop cs capacity echo (put_echo echo c s))"

text \<open>The length that is reported is the final position.\<close>

definition keyboard_read_line :: "(nat \<Rightarrow> char) option \<Rightarrow> u32 \<Rightarrow> bool \<Rightarrow> char option list \<Rightarrow>
    (bool \<times> line_state option \<times> char option list) option" where
  "keyboard_read_line buffer capacity echo input =
     (case buffer of
        None \<Rightarrow> Some (False, None, input)
      | Some b \<Rightarrow>
          if capacity = 0 then Some (False, None, input)
          else do {
            (ok, s, rest) \<leftarrow> read_line_loop input capacity echo \<lparr>line_buffer = b(0 := nul), line_position = 0, line_output = []\<rparr>;
            Some (ok, Some s, rest)
          })"

section \<open>What a line is\<close>

text \<open>The line as a list: printable characters while there is room for the terminator, backspace takes the
  last one off, everything else is ignored; \<open>None\<close> while no answer ends the line.\<close>

fun edit :: "nat \<Rightarrow> char list \<Rightarrow> char option list \<Rightarrow> (bool \<times> char list) option" where
  "edit room line [] = None"
| "edit room line (None # cs) = Some (False, line)"
| "edit room line (Some c # cs) =
     (if c = newline then Some (True, line)
      else if c = backspace then edit room (butlast line) cs
      else if line_character_is_printable c \<and> length line < room then edit room (line @ [c]) cs
      else edit room line cs)"

definition holds_line :: "(nat \<Rightarrow> char) \<Rightarrow> (nat \<Rightarrow> char) \<Rightarrow> nat \<Rightarrow> line_state \<Rightarrow> char list \<Rightarrow> bool" where
  "holds_line b0 b room s line \<longleftrightarrow> unat (line_position s) = length line \<and> length line \<le> room \<and>
     (\<forall>i < length line. b i = line ! i) \<and> b (length line) = nul \<and> (\<forall>i > room. b i = b0 i)"

lemma holds_line_cong: "holds_line b0 b room s line \<Longrightarrow> line_position s' = line_position s \<Longrightarrow> holds_line b0 b room s' line"
  by (simp add: holds_line_def)

text \<open>The editor computes that line, keeps it terminated in the buffer and never writes behind the buffer.\<close>

lemma read_line_edits:
  assumes "capacity \<noteq> 0" "holds_line b0 (line_buffer s) (unat capacity - 1) s line"
  shows "case edit (unat capacity - 1) line input of
      None \<Rightarrow> read_line_loop input capacity echo s = None
    | Some (ok, final) \<Rightarrow> \<exists>s' rest. read_line_loop input capacity echo s = Some (ok, s', rest) \<and>
        holds_line b0 (line_buffer s') (unat capacity - 1) s' final"
  using assms(2)
proof (induction input arbitrary: s line)
  case (Cons a input)
  have cap: "unat (capacity - 1) = unat capacity - 1" using assms(1) by (simp add: unat_sub word_le_nat_alt Suc_le_eq unat_gt_0)
  note h = Cons.prems [unfolded holds_line_def]
  have stop: "holds_line b0 (line_buffer (put_echo e c (terminate_line s))) (unat capacity - 1) (put_echo e c (terminate_line s)) line" for e c
    using Cons.prems by (auto simp: holds_line_def put_echo_def terminate_line_def)
  show ?case
  proof (cases a)
    case None
    then show ?thesis using stop [of False] by (simp add: put_echo_def)
  next
    case (Some c)
    consider "c = newline" | "c = backspace" "line = []" | "c = backspace" "line \<noteq> []"
      | "c \<noteq> newline" "c \<noteq> backspace" "\<not> (line_character_is_printable c \<and> length line < unat capacity - 1)"
      | "c \<noteq> newline" "c \<noteq> backspace" "line_character_is_printable c" "length line < unat capacity - 1" by blast
    then show ?thesis
    proof cases
      case 1
      then show ?thesis using stop [of echo newline] Some by simp
    next
      case 2
      then have "line_position s = 0" using h by (simp add: unat_eq_0)
      then have "read_line_loop (a # input) capacity echo s = read_line_loop input capacity echo s"
        "edit (unat capacity - 1) line (a # input) = edit (unat capacity - 1) line input"
        using 2 Some by (simp_all add: newline_def backspace_def)
      then show ?thesis using Cons.IH [OF Cons.prems] by (simp only:)
    next
      case 3
      then have p: "line_position s \<noteq> 0" using h by (auto simp: unat_eq_0)
      then have "unat (line_position s - 1) = length line - 1" using unat_dec_u32 [OF p] h by simp
      then have "holds_line b0 (line_buffer (put_echo echo backspace (terminate_line (s\<lparr>line_position := line_position s - 1\<rparr>))))
          (unat capacity - 1) (put_echo echo backspace (terminate_line (s\<lparr>line_position := line_position s - 1\<rparr>))) (butlast line)"
        using h 3(2) by (auto simp: holds_line_def put_echo_def terminate_line_def nth_butlast)
      note Cons.IH [OF this]
      moreover have "read_line_loop (a # input) capacity echo s = read_line_loop input capacity echo
          (put_echo echo backspace (terminate_line (s\<lparr>line_position := line_position s - 1\<rparr>)))"
        "edit (unat capacity - 1) line (a # input) = edit (unat capacity - 1) (butlast line) input"
        using 3 p Some by (simp_all add: newline_def backspace_def Let_def)
      ultimately show ?thesis by (simp only:)
    next
      case 4
      then have "\<not> line_character_is_printable c \<or> line_position s \<ge> capacity - 1" using h cap by (auto simp: word_le_nat_alt)
      then have "read_line_loop (a # input) capacity echo s = read_line_loop input capacity echo s"
        "edit (unat capacity - 1) line (a # input) = edit (unat capacity - 1) line input"
        using 4 Some by auto
      then show ?thesis using Cons.IH [OF Cons.prems] by (simp only:)
    next
      case 5
      have lt: "\<not> line_position s \<ge> capacity - 1" using h cap 5(4) by (simp add: word_le_nat_alt)
      have "unat (line_position s) = length line" using h by simp
      then have "unat (line_position s) < 4294967295" using 5(4) unat_u32_bound [of capacity] by linarith
      then have p1: "unat (line_position s + 1) = length line + 1" using h by (simp add: unat_add_u32)
      let ?s = "terminate_line (s\<lparr>line_buffer := (line_buffer s)(unat (line_position s) := c), line_position := line_position s + 1\<rparr>)"
      have "holds_line b0 (line_buffer (put_echo echo c ?s)) (unat capacity - 1) (put_echo echo c ?s) (line @ [c])"
        using h 5(4) p1 by (auto simp: holds_line_def put_echo_def terminate_line_def nth_append)
      note Cons.IH [OF this]
      moreover have "read_line_loop (a # input) capacity echo s = read_line_loop input capacity echo (put_echo echo c ?s)"
        "edit (unat capacity - 1) line (a # input) = edit (unat capacity - 1) (line @ [c]) input"
        using 5 lt Some by (simp_all add: Let_def)
      ultimately show ?thesis by (simp only:)
    qed
  qed
qed simp

theorem keyboard_read_line_edits:
  assumes "capacity \<noteq> 0"
  shows "case edit (unat capacity - 1) [] input of
      None \<Rightarrow> keyboard_read_line (Some b) capacity echo input = None
    | Some (ok, line) \<Rightarrow> \<exists>s rest. keyboard_read_line (Some b) capacity echo input = Some (ok, Some s, rest) \<and>
        holds_line b (line_buffer s) (unat capacity - 1) s line"
proof -
  have "holds_line b (b(0 := nul)) (unat capacity - 1) \<lparr>line_buffer = b(0 := nul), line_position = 0, line_output = []\<rparr> []"
    by (simp add: holds_line_def)
  from read_line_edits [OF assms, of b "\<lparr>line_buffer = b(0 := nul), line_position = 0, line_output = []\<rparr>" "[]" input echo] this
  show ?thesis using assms by (auto simp: keyboard_read_line_def split: option.splits)
qed

end
