(* ===== verification/Vfs.thy ===== *)
theory Vfs
  imports Heap
begin

text \<open>
  The virtual file system of \<open>kernel/fs/vfs.c\<close>: path names, vnodes with reference counts, open files on the
  kernel heap. A file system is a table of operations that act on the whole state; the argument \<open>D\<close> gives
  the table behind the \<open>ops\<close> pointer of a vnode. Out parameters are results, so their NULL tests do not
  appear; a page fault, a call through NULL and a heap walk that does not end are \<open>None\<close>.
\<close>

section \<open>Vnodes, files and operation tables\<close>

datatype vnode_type = VNODE_REGULAR | VNODE_DIRECTORY | VNODE_CHAR_DEVICE | VNODE_BLOCK_DEVICE | VNODE_SYMLINK

type_synonym vid = nat

record vfs_dirent =
  dirent_inode :: u64
  dirent_type :: vnode_type
  dirent_name :: string

record ('o, 'p) vnode =
  vnode_type :: vnode_type
  inode :: u64
  vnode_size :: u64
  private_data :: "'p option"
  vnode_ops :: "'o option"
  ref_count :: u32

record file_t =
  file_vnode :: "vid option"
  file_offset :: u32
  file_flags :: u32

record ('o, 'p, 'w) vfs =
  vnodes :: "vid \<Rightarrow> ('o, 'p) vnode"
  vfs_root :: "vid option"
  files :: "u32 \<Rightarrow> file_t"
  kheap :: heap
  fs_data :: 'w

text \<open>A missing operation is a NULL function pointer.\<close>

record ('o, 'p, 'w) fs_ops =
  op_lookup :: "(vid \<Rightarrow> string \<Rightarrow> ('o, 'p, 'w) vfs \<Rightarrow> (int \<times> vid option \<times> ('o, 'p, 'w) vfs) option) option"
  op_readdir :: "(vid \<Rightarrow> u32 \<Rightarrow> ('o, 'p, 'w) vfs \<Rightarrow> (int \<times> vfs_dirent \<times> u32 \<times> ('o, 'p, 'w) vfs) option) option"
  op_create :: "(vid \<Rightarrow> string \<Rightarrow> ('o, 'p, 'w) vfs \<Rightarrow> (int \<times> vid option \<times> ('o, 'p, 'w) vfs) option) option"
  op_mkdir :: "(vid \<Rightarrow> string \<Rightarrow> ('o, 'p, 'w) vfs \<Rightarrow> (int \<times> vid option \<times> ('o, 'p, 'w) vfs) option) option"
  op_read :: "(vid \<Rightarrow> u32 \<Rightarrow> u32 \<Rightarrow> ('o, 'p, 'w) vfs \<Rightarrow> (int \<times> u8 list \<times> ('o, 'p, 'w) vfs) option) option"
  op_write :: "(vid \<Rightarrow> u32 \<Rightarrow> u8 list \<Rightarrow> ('o, 'p, 'w) vfs \<Rightarrow> (int \<times> u32 \<times> ('o, 'p, 'w) vfs) option) option"
  op_truncate :: "(vid \<Rightarrow> u32 \<Rightarrow> ('o, 'p, 'w) vfs \<Rightarrow> (int \<times> ('o, 'p, 'w) vfs) option) option"

definition no_ops :: "('o, 'p, 'w) fs_ops" where
  "no_ops = \<lparr>op_lookup = None, op_readdir = None, op_create = None, op_mkdir = None, op_read = None, op_write = None, op_truncate = None\<rparr>"

text \<open>The table of a vnode; without one every operation is missing.\<close>

definition ops_of :: "('o \<Rightarrow> ('o, 'p, 'w) fs_ops) \<Rightarrow> vid \<Rightarrow> ('o, 'p, 'w) vfs \<Rightarrow> ('o, 'p, 'w) fs_ops" where
  "ops_of D v s = (case vnode_ops (vnodes s v) of None \<Rightarrow> no_ops | Some k \<Rightarrow> D k)"

definition VFS_OPEN_READ :: u32 where [machine_consts]: "VFS_OPEN_READ = 0x0001"
definition VFS_OPEN_WRITE :: u32 where [machine_consts]: "VFS_OPEN_WRITE = 0x0002"
definition VFS_OPEN_APPEND :: u32 where [machine_consts]: "VFS_OPEN_APPEND = 0x0004"
definition VFS_OPEN_CREATE :: u32 where [machine_consts]: "VFS_OPEN_CREATE = 0x0008"
definition VFS_OPEN_TRUNC :: u32 where [machine_consts]: "VFS_OPEN_TRUNC = 0x0010"
definition sizeof_file :: u32 where [machine_consts]: "sizeof_file = 12"

definition set_vnode :: "vid \<Rightarrow> (('o, 'p) vnode \<Rightarrow> ('o, 'p) vnode) \<Rightarrow> ('o, 'p, 'w) vfs \<Rightarrow> ('o, 'p, 'w) vfs" where
  "set_vnode v f s = s\<lparr>vnodes := (vnodes s)(v := f (vnodes s v))\<rparr>"

definition set_file :: "u32 \<Rightarrow> (file_t \<Rightarrow> file_t) \<Rightarrow> ('o, 'p, 'w) vfs \<Rightarrow> ('o, 'p, 'w) vfs" where
  "set_file a f s = s\<lparr>files := (files s)(a := f (files s a))\<rparr>"

definition vnode_ref :: "vid option \<Rightarrow> ('o, 'p, 'w) vfs \<Rightarrow> ('o, 'p, 'w) vfs" where
  "vnode_ref node s = (case node of None \<Rightarrow> s | Some v \<Rightarrow> set_vnode v (ref_count_update (\<lambda>n. n + 1)) s)"

definition vnode_unref :: "vid option \<Rightarrow> ('o, 'p, 'w) vfs \<Rightarrow> ('o, 'p, 'w) vfs" where
  "vnode_unref node s = (case node of None \<Rightarrow> s | Some v \<Rightarrow> set_vnode v (ref_count_update (\<lambda>n. n - 1)) s)"

definition vfs_initialize :: "('o, 'p, 'w) vfs \<Rightarrow> ('o, 'p, 'w) vfs" where
  "vfs_initialize s = s\<lparr>vfs_root := None\<rparr>"

definition vfs_set_root :: "vid option \<Rightarrow> ('o, 'p, 'w) vfs \<Rightarrow> bool \<times> ('o, 'p, 'w) vfs" where
  "vfs_set_root root s =
     (case root of
        None \<Rightarrow> (False, s)
      | Some r \<Rightarrow>
          if vnode_type (vnodes s r) \<noteq> VNODE_DIRECTORY then (False, s)
          else if vfs_root s \<noteq> None then (False, s)
          else (True, (vnode_ref root s)\<lparr>vfs_root := root\<rparr>))"

section \<open>Path names\<close>

text \<open>A C string is the list of its characters before the terminator.\<close>

definition slash :: char where "slash = CHR ''/''"

fun copy_component :: "nat \<Rightarrow> string \<Rightarrow> string \<Rightarrow> (string \<times> string) option" where
  "copy_component component_size component [] = Some (component, [])"
| "copy_component component_size component (c # path) =
     (if c = slash then Some (component, c # path)
      else if length component + 1 \<ge> component_size then None
      else copy_component component_size (component @ [c]) path)"

text \<open>The component and the rest of the path.\<close>

definition vfs_next_component :: "string \<Rightarrow> nat \<Rightarrow> (string \<times> string) option" where
  "vfs_next_component path component_size =
     (let path = dropWhile (\<lambda>c. c = slash) path
      in if path = [] then Some ([], []) else copy_component component_size [] path)"

lemma copy_component_rest: "copy_component n acc path = Some (name, rest) \<Longrightarrow> length rest \<le> length path \<and> length name + length rest = length acc + length path"
  by (induction n acc path rule: copy_component.induct) (auto split: if_splits)

lemma vfs_next_component_shorter:
  assumes "vfs_next_component path n = Some (name, rest)" "name \<noteq> []"
  shows "length rest < length path"
proof -
  let ?p = "dropWhile (\<lambda>c. c = slash) path"
  have "copy_component n [] ?p = Some (name, rest)" using assms by (auto simp: vfs_next_component_def Let_def split: if_splits)
  from copy_component_rest [OF this] have "length name + length rest = length ?p" by simp
  moreover have "length ?p \<le> length path" by (rule length_dropWhile_le)
  ultimately show ?thesis using assms(2) by (cases name) simp_all
qed

section \<open>Walking the tree\<close>

text \<open>\<open>lookup\<close> through the table of a directory, with the tests that both walks share: \<open>Some None\<close> is \<open>-1\<close>.\<close>

function lookup_loop :: "('o \<Rightarrow> ('o, 'p, 'w) fs_ops) \<Rightarrow> string \<Rightarrow> vid \<Rightarrow> ('o, 'p, 'w) vfs \<Rightarrow> (vid option \<times> ('o, 'p, 'w) vfs) option" where
  "lookup_loop D cursor current s =
     (case vfs_next_component cursor 256 of
        None \<Rightarrow> Some (None, vnode_unref (Some current) s)
      | Some (component, cursor) \<Rightarrow>
          if component = [] then Some (Some current, s)
          else if vnode_type (vnodes s current) \<noteq> VNODE_DIRECTORY then Some (None, vnode_unref (Some current) s)
          else (case op_lookup (ops_of D current s) of
              None \<Rightarrow> Some (None, vnode_unref (Some current) s)
            | Some f \<Rightarrow> do {
                (r, result, s) \<leftarrow> f current component s;
                if r \<noteq> 0 then Some (None, vnode_unref (Some current) s)
                else (case result of
                    None \<Rightarrow> Some (None, vnode_unref (Some current) s)
                  | Some n \<Rightarrow> lookup_loop D cursor n (vnode_unref (Some current) s))
              }))"
  by auto
termination
  by (relation "measure (\<lambda>(D, cursor, current, s). length cursor)") (auto intro: vfs_next_component_shorter)

declare lookup_loop.simps [simp del]

definition vfs_lookup :: "('o \<Rightarrow> ('o, 'p, 'w) fs_ops) \<Rightarrow> string option \<Rightarrow> ('o, 'p, 'w) vfs \<Rightarrow> (vid option \<times> ('o, 'p, 'w) vfs) option" where
  "vfs_lookup D path s =
     (case path of
        None \<Rightarrow> Some (None, s)
      | Some p \<Rightarrow>
          (case vfs_root s of
             None \<Rightarrow> Some (None, s)
           | Some root \<Rightarrow>
               if p = [] \<or> hd p \<noteq> slash then Some (None, s)
               else
                 let s = vnode_ref (Some root) s
                 in if tl p = [] then Some (Some root, s) else lookup_loop D p root s))"

text \<open>The walk to the directory of the last component; its current vnode may be NULL, when there is no root.\<close>

function parent_loop :: "('o \<Rightarrow> ('o, 'p, 'w) fs_ops) \<Rightarrow> string \<Rightarrow> nat \<Rightarrow> vid option \<Rightarrow> ('o, 'p, 'w) vfs \<Rightarrow>
    ((vid option \<times> string) option \<times> ('o, 'p, 'w) vfs) option" where
  "parent_loop D cursor name_size current s =
     (case vfs_next_component cursor 256 of
        None \<Rightarrow> Some (None, vnode_unref current s)
      | Some (component, cursor) \<Rightarrow>
          if component = [] then Some (None, vnode_unref current s)
          else (case vfs_next_component cursor 256 of
              None \<Rightarrow> Some (None, vnode_unref current s)
            | Some (next_component, _) \<Rightarrow>
                if next_component = [] then
                  (if length component + 1 > name_size then Some (None, vnode_unref current s)
                   else Some (Some (current, component), s))
                else (case current of
                    None \<Rightarrow> None
                  | Some c \<Rightarrow>
                      if vnode_type (vnodes s c) \<noteq> VNODE_DIRECTORY then Some (None, vnode_unref current s)
                      else (case op_lookup (ops_of D c s) of
                          None \<Rightarrow> Some (None, vnode_unref current s)
                        | Some f \<Rightarrow> do {
                            (r, result, s) \<leftarrow> f c component s;
                            if r \<noteq> 0 then Some (None, vnode_unref current s)
                            else parent_loop D cursor name_size result (vnode_unref current s)
                          }))))"
  by auto
termination
  by (relation "measure (\<lambda>(D, cursor, n, current, s). length cursor)") (auto intro: vfs_next_component_shorter)

declare parent_loop.simps [simp del]

definition vfs_lookup_parent :: "('o \<Rightarrow> ('o, 'p, 'w) fs_ops) \<Rightarrow> string option \<Rightarrow> nat \<Rightarrow> ('o, 'p, 'w) vfs \<Rightarrow>
    ((vid option \<times> string) option \<times> ('o, 'p, 'w) vfs) option" where
  "vfs_lookup_parent D path name_size s =
     (case path of
        None \<Rightarrow> Some (None, s)
      | Some p \<Rightarrow>
          if name_size = 0 then Some (None, s)
          else if p = [] \<or> hd p \<noteq> slash then Some (None, s)
          else parent_loop D p name_size (vfs_root s) (vnode_ref (vfs_root s) s))"

section \<open>Opening\<close>

text \<open>The branch of \<open>vfs_open\<close> for a path that does not resolve: \<open>parent->type\<close> of a NULL parent is undefined.\<close>

definition create_missing :: "('o \<Rightarrow> ('o, 'p, 'w) fs_ops) \<Rightarrow> string option \<Rightarrow> u32 \<Rightarrow> ('o, 'p, 'w) vfs \<Rightarrow> (vid option \<times> ('o, 'p, 'w) vfs) option" where
  "create_missing D path flags s =
     (if flags AND VFS_OPEN_CREATE = 0 then Some (None, s)
      else do {
        (parent, s) \<leftarrow> vfs_lookup_parent D path 256 s;
        (case parent of
           None \<Rightarrow> Some (None, s)
         | Some (None, name) \<Rightarrow> None
         | Some (Some p, name) \<Rightarrow>
             if vnode_type (vnodes s p) \<noteq> VNODE_DIRECTORY then Some (None, vnode_unref (Some p) s)
             else (case op_create (ops_of D p s) of
                 None \<Rightarrow> Some (None, vnode_unref (Some p) s)
               | Some f \<Rightarrow> do {
                   (create_result, node, s) \<leftarrow> f p name s;
                   let s = vnode_unref (Some p) s;
                   Some (if create_result \<noteq> 0 then None else node, s)
                 }))
      })"

definition vfs_open :: "('o \<Rightarrow> ('o, 'p, 'w) fs_ops) \<Rightarrow> string option \<Rightarrow> u32 \<Rightarrow> ('o, 'p, 'w) vfs \<Rightarrow> (u32 option \<times> ('o, 'p, 'w) vfs) option" where
  "vfs_open D path flags s =
     (if path = None then Some (None, s)
      else do {
        (node, s) \<leftarrow> vfs_lookup D path s;
        (node, s) \<leftarrow> (if node = None then create_missing D path flags s else Some (node, s));
        (case node of
           None \<Rightarrow> Some (None, s)
         | Some v \<Rightarrow>
             if vnode_type (vnodes s v) = VNODE_DIRECTORY \<and>
                (flags AND VFS_OPEN_READ = 0 \<or>
                 flags AND (VFS_OPEN_WRITE OR VFS_OPEN_APPEND OR VFS_OPEN_CREATE OR VFS_OPEN_TRUNC) \<noteq> 0)
             then Some (None, vnode_unref node s)
             else if vnode_type (vnodes s v) \<noteq> VNODE_DIRECTORY \<and> vnode_type (vnodes s v) \<noteq> VNODE_REGULAR
             then Some (None, vnode_unref node s)
             else do {
               (ok, s) \<leftarrow> (if flags AND VFS_OPEN_TRUNC \<noteq> 0 then
                   (if flags AND VFS_OPEN_WRITE = 0 then Some (False, s)
                    else (case op_truncate (ops_of D v s) of
                        None \<Rightarrow> Some (False, s)
                      | Some f \<Rightarrow> do { (r, s) \<leftarrow> f v 0 s; Some (r = 0, s) }))
                 else Some (True, s));
               if \<not> ok then Some (None, vnode_unref node s)
               else do {
                 (file, h) \<leftarrow> kmalloc sizeof_file (kheap s);
                 let s = s\<lparr>kheap := h\<rparr>;
                 Some (case file of
                    None \<Rightarrow> (None, vnode_unref node s)
                  | Some a \<Rightarrow> (Some a, set_file a (\<lambda>_. \<lparr>file_vnode = node, file_offset = 0, file_flags = flags\<rparr>) s))
               }
             })
      })"

definition vfs_mkdir :: "('o \<Rightarrow> ('o, 'p, 'w) fs_ops) \<Rightarrow> string option \<Rightarrow> ('o, 'p, 'w) vfs \<Rightarrow> (bool \<times> ('o, 'p, 'w) vfs) option" where
  "vfs_mkdir D path s =
     (case path of
        None \<Rightarrow> Some (False, s)
      | Some p \<Rightarrow>
          if p = [] \<or> hd p \<noteq> slash then Some (False, s)
          else do {
            (existing, s) \<leftarrow> vfs_lookup D path s;
            if existing \<noteq> None then Some (False, vnode_unref existing s)
            else do {
              (parent, s) \<leftarrow> vfs_lookup_parent D path 256 s;
              (case parent of
                 None \<Rightarrow> Some (False, s)
               | Some (None, name) \<Rightarrow> Some (False, s)
               | Some (Some q, name) \<Rightarrow>
                   if vnode_type (vnodes s q) \<noteq> VNODE_DIRECTORY then Some (False, vnode_unref (Some q) s)
                   else (case op_mkdir (ops_of D q s) of
                       None \<Rightarrow> Some (False, vnode_unref (Some q) s)
                     | Some f \<Rightarrow>
                         if name = [] then Some (False, vnode_unref (Some q) s)
                         else do {
                           (result, created, s) \<leftarrow> f q name s;
                           let s = vnode_unref (Some q) s;
                           Some (if result \<noteq> 0 \<or> created = None then (False, s) else (True, vnode_unref created s))
                         }))
            }
          })"

section \<open>Reading, writing, seeking\<close>

text \<open>The file argument may be NULL; the integer is the return value, the list is what was read.\<close>

definition vfs_read :: "('o \<Rightarrow> ('o, 'p, 'w) fs_ops) \<Rightarrow> u32 option \<Rightarrow> u32 \<Rightarrow> ('o, 'p, 'w) vfs \<Rightarrow> (int \<times> u8 list \<times> ('o, 'p, 'w) vfs) option" where
  "vfs_read D file n s =
     (case file of
        None \<Rightarrow> Some (- 1, [], s)
      | Some a \<Rightarrow>
          if file_flags (files s a) AND VFS_OPEN_READ = 0 then Some (- 1, [], s)
          else (case file_vnode (files s a) of
              None \<Rightarrow> Some (- 1, [], s)
            | Some node \<Rightarrow>
                (case op_read (ops_of D node s) of
                   None \<Rightarrow> Some (- 1, [], s)
                 | Some f \<Rightarrow> do {
                     (result, bytes, s) \<leftarrow> f node (file_offset (files s a)) n s;
                     if result \<noteq> 0 then Some (result, [], s)
                     else Some (0, bytes, set_file a (file_offset_update (\<lambda>x. x + of_nat (length bytes))) s)
                   })))"

definition vfs_write :: "('o \<Rightarrow> ('o, 'p, 'w) fs_ops) \<Rightarrow> u32 option \<Rightarrow> u8 list \<Rightarrow> ('o, 'p, 'w) vfs \<Rightarrow> (int \<times> u32 \<times> ('o, 'p, 'w) vfs) option" where
  "vfs_write D file bytes s =
     (case file of
        None \<Rightarrow> Some (- 1, 0, s)
      | Some a \<Rightarrow>
          if file_flags (files s a) AND VFS_OPEN_WRITE = 0 then Some (- 1, 0, s)
          else (case file_vnode (files s a) of
              None \<Rightarrow> Some (- 1, 0, s)
            | Some node \<Rightarrow>
                (case op_write (ops_of D node s) of
                   None \<Rightarrow> Some (- 1, 0, s)
                 | Some f \<Rightarrow>
                     let s = (if file_flags (files s a) AND VFS_OPEN_APPEND \<noteq> 0
                              then set_file a (file_offset_update (\<lambda>_. ucast (vnode_size (vnodes s node)))) s else s)
                     in do {
                       (result, count, s) \<leftarrow> f node (file_offset (files s a)) bytes s;
                       if result \<noteq> 0 then Some (result, 0, s)
                       else Some (0, count, set_file a (file_offset_update (\<lambda>x. x + count)) s)
                     })))"

definition vfs_readdir :: "('o \<Rightarrow> ('o, 'p, 'w) fs_ops) \<Rightarrow> u32 option \<Rightarrow> ('o, 'p, 'w) vfs \<Rightarrow> (int \<times> vfs_dirent option \<times> ('o, 'p, 'w) vfs) option" where
  "vfs_readdir D file s =
     (case file of
        None \<Rightarrow> Some (- 1, None, s)
      | Some a \<Rightarrow>
          if file_flags (files s a) AND VFS_OPEN_READ = 0 then Some (- 1, None, s)
          else (case file_vnode (files s a) of
              None \<Rightarrow> Some (- 1, None, s)
            | Some node \<Rightarrow>
                if vnode_type (vnodes s node) \<noteq> VNODE_DIRECTORY then Some (- 1, None, s)
                else (case op_readdir (ops_of D node s) of
                    None \<Rightarrow> Some (- 1, None, s)
                  | Some f \<Rightarrow> do {
                      (result, entry, next_offset, s) \<leftarrow> f node (file_offset (files s a)) s;
                      if result < 0 then Some (- 1, Some entry, s)
                      else if next_offset < file_offset (files s a) then Some (- 1, Some entry, s)
                      else Some (result, Some entry, set_file a (file_offset_update (\<lambda>_. next_offset)) s)
                    })))"

definition vfs_close :: "u32 option \<Rightarrow> ('o, 'p, 'w) vfs \<Rightarrow> ('o, 'p, 'w) vfs" where
  "vfs_close file s =
     (case file of
        None \<Rightarrow> s
      | Some a \<Rightarrow>
          let s = vnode_unref (file_vnode (files s a)) s
          in s\<lparr>kheap := kfree file (kheap s)\<rparr>)"

text \<open>\<open>int64_t\<close> values are 64-bit words, read as signed.\<close>

definition VFS_SEEK_SET :: int where [machine_consts]: "VFS_SEEK_SET = 0"
definition VFS_SEEK_CUR :: int where [machine_consts]: "VFS_SEEK_CUR = 1"
definition VFS_SEEK_END :: int where [machine_consts]: "VFS_SEEK_END = 2"
definition INT64_MAX :: u64 where [machine_consts]: "INT64_MAX = 0x7FFFFFFFFFFFFFFF"
definition INT64_MIN :: u64 where [machine_consts]: "INT64_MIN = 0x8000000000000000"

definition vfs_seek :: "u32 option \<Rightarrow> u64 \<Rightarrow> int \<Rightarrow> ('o, 'p, 'w) vfs \<Rightarrow> u32 option \<times> ('o, 'p, 'w) vfs" where
  "vfs_seek file offset whence s =
     (case file of
        None \<Rightarrow> (None, s)
      | Some a \<Rightarrow>
          (case file_vnode (files s a) of
             None \<Rightarrow> (None, s)
           | Some node \<Rightarrow>
               let base = (if whence = VFS_SEEK_SET then Some 0
                           else if whence = VFS_SEEK_CUR then Some (ucast (file_offset (files s a)))
                           else if whence = VFS_SEEK_END then
                             (if vnode_size (vnodes s node) > ucast SIZE_MAX then None else Some (vnode_size (vnodes s node)))
                           else None)
               in case base of
                    None \<Rightarrow> (None, s)
                  | Some b \<Rightarrow>
                      if sint offset > 0 \<and> sint b > sint (INT64_MAX - offset) \<or> sint offset < 0 \<and> sint b < sint (INT64_MIN - offset)
                      then (None, s)
                      else
                        let position = b + offset
                        in if sint position < 0 then (None, s)
                           else if position > ucast SIZE_MAX then (None, s)
                           else
                             let s = set_file a (file_offset_update (\<lambda>_. ucast position)) s
                             in (Some (file_offset (files s a)), s)))"

end
