(* ===== verification/Fd.thy ===== *)
theory Fd
  imports Vfs
begin

text \<open>
  File descriptors, \<open>kernel/fs/fd.c\<close>: a table of 64 slots of which 3 to 63 are used. The sections under \<open>fd_lock\<close>
  are atomic, and a descriptor is not closed while another operation on it runs.
\<close>

definition KERNEL_FD_FIRST :: int where [machine_consts]: "KERNEL_FD_FIRST = 3"
definition KERNEL_FD_MAX :: int where [machine_consts]: "KERNEL_FD_MAX = 64"
definition KERNEL_FD_READ :: u32 where [machine_consts]: "KERNEL_FD_READ = 1"
definition KERNEL_FD_WRITE :: u32 where [machine_consts]: "KERNEL_FD_WRITE = 2"
definition KERNEL_FD_APPEND :: u32 where [machine_consts]: "KERNEL_FD_APPEND = 4"
definition KERNEL_FD_CREATE :: u32 where [machine_consts]: "KERNEL_FD_CREATE = 8"
definition KERNEL_FD_TRUNC :: u32 where [machine_consts]: "KERNEL_FD_TRUNC = 16"
definition KERNEL_FD_SEEK_SET :: int where [machine_consts]: "KERNEL_FD_SEEK_SET = 0"
definition KERNEL_FD_SEEK_CUR :: int where [machine_consts]: "KERNEL_FD_SEEK_CUR = 1"
definition KERNEL_FD_SEEK_END :: int where [machine_consts]: "KERNEL_FD_SEEK_END = 2"

record ('o, 'p, 'w) fds =
  fd_table :: "nat \<Rightarrow> u32 option"
  fd_vfs :: "('o, 'p, 'w) vfs"

definition kernel_fd_valid :: "int \<Rightarrow> bool" where
  "kernel_fd_valid fd \<longleftrightarrow> fd \<ge> KERNEL_FD_FIRST \<and> fd < KERNEL_FD_MAX"

text \<open>The flags that reach the file system; \<open>None\<close> for the combinations that are refused.\<close>

definition open_flags :: "u32 \<Rightarrow> u32 option" where
  "open_flags flags =
     (let vfs_flags = 0;
          vfs_flags = (if flags AND KERNEL_FD_READ \<noteq> 0 then vfs_flags OR VFS_OPEN_READ else vfs_flags);
          vfs_flags = (if flags AND KERNEL_FD_WRITE \<noteq> 0 then vfs_flags OR VFS_OPEN_WRITE else vfs_flags)
      in if flags AND KERNEL_FD_APPEND \<noteq> 0 \<and> flags AND KERNEL_FD_WRITE = 0 then None
         else if flags AND KERNEL_FD_CREATE \<noteq> 0 \<and> flags AND KERNEL_FD_WRITE = 0 then None
         else if flags AND KERNEL_FD_TRUNC \<noteq> 0 \<and> flags AND KERNEL_FD_WRITE = 0 then None
         else
           let vfs_flags = (if flags AND KERNEL_FD_APPEND \<noteq> 0 then vfs_flags OR VFS_OPEN_APPEND else vfs_flags);
               vfs_flags = (if flags AND KERNEL_FD_CREATE \<noteq> 0 then vfs_flags OR VFS_OPEN_CREATE else vfs_flags);
               vfs_flags = (if flags AND KERNEL_FD_TRUNC \<noteq> 0 then vfs_flags OR VFS_OPEN_TRUNC else vfs_flags)
           in if vfs_flags = 0 then None else Some vfs_flags)"

function free_slot_loop :: "int \<Rightarrow> (nat \<Rightarrow> u32 option) \<Rightarrow> int option" where
  "free_slot_loop fd table =
     (if fd < KERNEL_FD_MAX then (if table (nat fd) = None then Some fd else free_slot_loop (fd + 1) table) else None)"
  by auto
termination by (relation "measure (\<lambda>(fd, _). nat (64 - fd))") (auto simp: KERNEL_FD_MAX_def)

declare free_slot_loop.simps [simp del]

definition kernel_fd_open :: "('o \<Rightarrow> ('o, 'p, 'w) fs_ops) \<Rightarrow> string option \<Rightarrow> u32 \<Rightarrow> ('o, 'p, 'w) fds \<Rightarrow> (int \<times> ('o, 'p, 'w) fds) option" where
  "kernel_fd_open D path flags s =
     (if path = None then Some (- 1, s)
      else (case open_flags flags of
          None \<Rightarrow> Some (- 1, s)
        | Some vfs_flags \<Rightarrow> do {
            (file, v) \<leftarrow> vfs_open D path vfs_flags (fd_vfs s);
            let s = s\<lparr>fd_vfs := v\<rparr>;
            Some (if file = None then (- 1, s)
                  else (case free_slot_loop KERNEL_FD_FIRST (fd_table s) of
                      Some fd \<Rightarrow> (fd, s\<lparr>fd_table := (fd_table s)(nat fd := file)\<rparr>)
                    | None \<Rightarrow> (- 1, s\<lparr>fd_vfs := vfs_close file (fd_vfs s)\<rparr>)))
          }))"

definition kernel_fd_read :: "('o \<Rightarrow> ('o, 'p, 'w) fs_ops) \<Rightarrow> int \<Rightarrow> u32 \<Rightarrow> ('o, 'p, 'w) fds \<Rightarrow> (int \<times> u8 list \<times> ('o, 'p, 'w) fds) option" where
  "kernel_fd_read D fd n s =
     (if \<not> kernel_fd_valid fd then Some (- 1, [], s)
      else
        let file = fd_table s (nat fd)
        in if file = None then Some (- 1, [], s)
           else do { (r, bytes, v) \<leftarrow> vfs_read D file n (fd_vfs s); Some (r, bytes, s\<lparr>fd_vfs := v\<rparr>) })"

definition kernel_fd_readdir :: "('o \<Rightarrow> ('o, 'p, 'w) fs_ops) \<Rightarrow> int \<Rightarrow> ('o, 'p, 'w) fds \<Rightarrow> (int \<times> vfs_dirent option \<times> ('o, 'p, 'w) fds) option" where
  "kernel_fd_readdir D fd s =
     (if \<not> kernel_fd_valid fd then Some (- 1, None, s)
      else
        let file = fd_table s (nat fd)
        in if file = None then Some (- 1, None, s)
           else do { (r, entry, v) \<leftarrow> vfs_readdir D file (fd_vfs s); Some (r, entry, s\<lparr>fd_vfs := v\<rparr>) })"

definition kernel_fd_write :: "('o \<Rightarrow> ('o, 'p, 'w) fs_ops) \<Rightarrow> int \<Rightarrow> u8 list \<Rightarrow> ('o, 'p, 'w) fds \<Rightarrow> (int \<times> u32 \<times> ('o, 'p, 'w) fds) option" where
  "kernel_fd_write D fd bytes s =
     (if \<not> kernel_fd_valid fd then Some (- 1, 0, s)
      else
        let file = fd_table s (nat fd)
        in if file = None then Some (- 1, 0, s)
           else do { (r, count, v) \<leftarrow> vfs_write D file bytes (fd_vfs s); Some (r, count, s\<lparr>fd_vfs := v\<rparr>) })"

definition kernel_fd_close :: "int \<Rightarrow> ('o, 'p, 'w) fds \<Rightarrow> int \<times> ('o, 'p, 'w) fds" where
  "kernel_fd_close fd s =
     (if \<not> kernel_fd_valid fd then (- 1, s)
      else
        let file = fd_table s (nat fd)
        in if file = None then (- 1, s)
           else
             let s = s\<lparr>fd_table := (fd_table s)(nat fd := None)\<rparr>
             in (0, s\<lparr>fd_vfs := vfs_close file (fd_vfs s)\<rparr>))"

definition kernel_fd_seek :: "int \<Rightarrow> u64 \<Rightarrow> int \<Rightarrow> ('o, 'p, 'w) fds \<Rightarrow> u32 option \<times> ('o, 'p, 'w) fds" where
  "kernel_fd_seek fd offset whence s =
     (if \<not> kernel_fd_valid fd then (None, s)
      else
        let file = fd_table s (nat fd)
        in if file = None then (None, s)
           else
             let vfs_whence = (if whence = KERNEL_FD_SEEK_SET then Some VFS_SEEK_SET
                               else if whence = KERNEL_FD_SEEK_CUR then Some VFS_SEEK_CUR
                               else if whence = KERNEL_FD_SEEK_END then Some VFS_SEEK_END else None)
             in case vfs_whence of
                  None \<Rightarrow> (None, s)
                | Some w \<Rightarrow> let (r, v) = vfs_seek file offset w (fd_vfs s) in (r, s\<lparr>fd_vfs := v\<rparr>))"

end
