(* ===== verification/Ramfs.thy ===== *)
theory Ramfs
  imports Vfs
begin

text \<open>
  The memory file system of \<open>kernel/fs/ramfs.c\<close>, a provider of the operation tables of \<open>Vfs\<close>: static nodes
  with a name, their bytes and their children. The private data of a vnode is the number of its node.
\<close>

section \<open>Nodes and operations\<close>

datatype ramfs_ops = Ramfs_Directory_Ops | Ramfs_File_Ops

record ramfs_node =
  ram_name :: string
  ram_vnode :: vid
  ram_data :: "u8 list"
  ram_children :: "nat list"

type_synonym ramfs = "(ramfs_ops, nat, nat \<Rightarrow> ramfs_node) vfs"

text \<open>\<open>strcmp\<close> of the library, on the characters before the terminators.\<close>

fun strcmp :: "string \<Rightarrow> string \<Rightarrow> int" where
  "strcmp [] [] = 0"
| "strcmp [] (b # bs) = - of_char b"
| "strcmp (a # as) [] = of_char a"
| "strcmp (a # as) (b # bs) = (if a = b then strcmp as bs else of_char a - of_char b)"

fun ramfs_lookup_loop :: "nat list \<Rightarrow> string \<Rightarrow> ramfs \<Rightarrow> int \<times> vid option \<times> ramfs" where
  "ramfs_lookup_loop [] name s = (- 1, None, s)"
| "ramfs_lookup_loop (child # children) name s =
     (let c = fs_data s child
      in if strcmp (ram_name c) name = 0 then (0, Some (ram_vnode c), vnode_ref (Some (ram_vnode c)) s)
         else ramfs_lookup_loop children name s)"

definition ramfs_lookup :: "vid \<Rightarrow> string \<Rightarrow> ramfs \<Rightarrow> (int \<times> vid option \<times> ramfs) option" where
  "ramfs_lookup directory name s =
     (case private_data (vnodes s directory) of
        None \<Rightarrow> Some (- 1, None, s)
      | Some directory_node \<Rightarrow> Some (ramfs_lookup_loop (ram_children (fs_data s directory_node)) name s))"

definition ramfs_read :: "vid \<Rightarrow> u32 \<Rightarrow> u32 \<Rightarrow> ramfs \<Rightarrow> (int \<times> u8 list \<times> ramfs) option" where
  "ramfs_read node offset n s =
     (case private_data (vnodes s node) of
        None \<Rightarrow> Some (- 1, [], s)
      | Some ram_node \<Rightarrow>
          let data = ram_data (fs_data s ram_node)
          in if unat offset \<ge> length data then Some (0, [], s)
             else
               let available = length data - unat offset;
                   count = (if unat n < available then unat n else available)
               in Some (0, take count (drop (unat offset) data), s))"

definition ramfs_table :: "ramfs_ops \<Rightarrow> (ramfs_ops, nat, nat \<Rightarrow> ramfs_node) fs_ops" where
  "ramfs_table k = (case k of
     Ramfs_Directory_Ops \<Rightarrow> no_ops\<lparr>op_lookup := Some ramfs_lookup\<rparr>
   | Ramfs_File_Ops \<Rightarrow> no_ops\<lparr>op_read := Some ramfs_read\<rparr>)"

section \<open>The static tree\<close>

definition bytes_of :: "string \<Rightarrow> u8 list" where
  "bytes_of s = map of_char s"

definition hello_data :: "u8 list" where
  "hello_data = bytes_of (''Hello from VFS'' @ [CHR 0x0A])"

definition config_data :: "u8 list" where
  "config_data = bytes_of (''host=myos'' @ [CHR 0x0A] @ ''smp=yes'' @ [CHR 0x0A])"

text \<open>Node and vnode 0 is the root, 1 \<open>hello.txt\<close>, 2 \<open>etc\<close>, 3 \<open>config\<close>.\<close>

definition ramfs_nodes :: "nat \<Rightarrow> ramfs_node" where
  "ramfs_nodes i =
     (if i = 0 then \<lparr>ram_name = ''/'', ram_vnode = 0, ram_data = [], ram_children = [1, 2]\<rparr>
      else if i = 1 then \<lparr>ram_name = ''hello.txt'', ram_vnode = 1, ram_data = hello_data, ram_children = []\<rparr>
      else if i = 2 then \<lparr>ram_name = ''etc'', ram_vnode = 2, ram_data = [], ram_children = [3]\<rparr>
      else \<lparr>ram_name = ''config'', ram_vnode = 3, ram_data = config_data, ram_children = []\<rparr>)"

definition ramfs_vnodes :: "vid \<Rightarrow> (ramfs_ops, nat) vnode" where
  "ramfs_vnodes v =
     (if v = 0 then \<lparr>vnode_type = VNODE_DIRECTORY, inode = 1, vnode_size = 0, private_data = None, vnode_ops = Some Ramfs_Directory_Ops, ref_count = 0\<rparr>
      else if v = 1 then \<lparr>vnode_type = VNODE_REGULAR, inode = 2, vnode_size = of_nat (length hello_data), private_data = None, vnode_ops = Some Ramfs_File_Ops, ref_count = 0\<rparr>
      else if v = 2 then \<lparr>vnode_type = VNODE_DIRECTORY, inode = 4, vnode_size = 0, private_data = None, vnode_ops = Some Ramfs_Directory_Ops, ref_count = 0\<rparr>
      else \<lparr>vnode_type = VNODE_REGULAR, inode = 3, vnode_size = of_nat (length config_data), private_data = None, vnode_ops = Some Ramfs_File_Ops, ref_count = 0\<rparr>)"

text \<open>The machine with the static objects of the file, before \<open>ramfs_initialize\<close>.\<close>

definition ramfs_static :: "heap \<Rightarrow> ramfs" where
  "ramfs_static h = \<lparr>vnodes = ramfs_vnodes, vfs_root = None, files = (\<lambda>_. \<lparr>file_vnode = None, file_offset = 0, file_flags = 0\<rparr>),
     kheap = h, fs_data = ramfs_nodes\<rparr>"

definition connect :: "nat \<Rightarrow> ramfs \<Rightarrow> ramfs" where
  "connect i s = set_vnode (ram_vnode (fs_data s i)) (private_data_update (\<lambda>_. Some i)) s"

definition ramfs_initialize :: "ramfs \<Rightarrow> bool \<times> ramfs" where
  "ramfs_initialize s =
     (let s = connect 0 s;
          s = fold connect (ram_children (fs_data s 0)) s;
          s = fold connect (ram_children (fs_data s 2)) s
      in vfs_set_root (Some (ram_vnode (fs_data s 0))) s)"

lemma of_char_zero: "of_char c = (0 :: int) \<longleftrightarrow> c = CHR 0x00"
  using of_char_eq_iff [of c "CHR 0x00", where ?'a = int] by simp

lemma strcmp_0_iff:
  assumes "CHR 0x00 \<notin> set a" "CHR 0x00 \<notin> set b"
  shows "strcmp a b = 0 \<longleftrightarrow> a = b"
  using assms by (induction a b rule: strcmp.induct) (auto simp: of_char_zero)

end
