(* ===== verification/VfsSpec.thy ===== *)
theory VfsSpec
  imports Vfs
begin

text \<open>
  Path resolution: the names of a path, the walk of a tree along them, the contract of a file system, and
  the proof that \<open>vfs_lookup\<close> walks every file system that keeps the contract, with exact reference counts.
\<close>

section \<open>The names of a path\<close>

text \<open>The pieces between the slashes; the names are the pieces that are not empty.\<close>

fun pieces :: "string \<Rightarrow> string list" where
  "pieces [] = [[]]"
| "pieces (c # cs) = (if c = slash then [] # pieces cs else (c # hd (pieces cs)) # tl (pieces cs))"

definition names :: "string \<Rightarrow> string list" where
  "names p = filter (\<lambda>n. n \<noteq> []) (pieces p)"

lemma pieces_nonempty [simp]: "pieces p \<noteq> []"
  by (cases p) auto

lemma copy_component_run:
  "copy_component n acc p = (if hd (pieces p) = [] \<or> length acc + length (hd (pieces p)) < n
     then Some (acc @ hd (pieces p), drop (length (hd (pieces p))) p) else None)"
  by (induction p arbitrary: acc) auto

lemma names_rest: "names (drop (length (hd (pieces p))) p) = filter (\<lambda>n. n \<noteq> []) (tl (pieces p))"
  by (induction p) (auto simp: names_def)

lemma names_skip: "names (dropWhile (\<lambda>c. c = slash) p) = names p"
  by (induction p) (auto simp: names_def)

lemma next_component_run:
  "vfs_next_component p 256 = (case names p of
     [] \<Rightarrow> Some ([], [])
   | n # ns \<Rightarrow> if length n < 256 then Some (n, drop (length n) (dropWhile (\<lambda>c. c = slash) p)) else None)"
  "names p = n # ns \<Longrightarrow> names (drop (length n) (dropWhile (\<lambda>c. c = slash) p)) = ns"
proof -
  let ?q = "dropWhile (\<lambda>c. c = slash) p"
  have q: "names ?q = names p" by (rule names_skip)
  have cases_q: "?q = [] \<or> (\<exists>c cs. ?q = c # cs \<and> c \<noteq> slash)"
    using hd_dropWhile [of "\<lambda>c. c = slash" p] by (cases ?q) auto
  show "names p = n # ns \<Longrightarrow> names (drop (length n) ?q) = ns"
  proof -
    assume n: "names p = n # ns"
    have "names [] = []" by (simp add: names_def)
    then have "?q \<noteq> []" using q n by (metis list.distinct(1))
    then obtain c cs where c: "?q = c # cs" "c \<noteq> slash" using cases_q by auto
    then have "names ?q = hd (pieces ?q) # filter (\<lambda>n. n \<noteq> []) (tl (pieces ?q))" by (simp add: names_def)
    then show ?thesis using names_rest [of ?q] n q by simp
  qed
  show "vfs_next_component p 256 = (case names p of [] \<Rightarrow> Some ([], [])
     | n # ns \<Rightarrow> if length n < 256 then Some (n, drop (length n) ?q) else None)"
  proof (cases "?q = []")
    case True
    have "names [] = []" by (simp add: names_def)
    then have "names p = []" using q True by metis
    then show ?thesis using True by (simp add: vfs_next_component_def)
  next
    case False
    then obtain c cs where c: "?q = c # cs" "c \<noteq> slash" using cases_q by auto
    then have "names p = hd (pieces ?q) # filter (\<lambda>n. n \<noteq> []) (tl (pieces ?q))" using q by (simp add: names_def)
    moreover have "hd (pieces ?q) \<noteq> []" using c by simp
    ultimately show ?thesis using False by (simp add: vfs_next_component_def Let_def copy_component_run)
  qed
qed

lemma pieces_chars: "n \<in> set (pieces p) \<Longrightarrow> set n \<subseteq> set p"
proof (induction p arbitrary: n)
  case (Cons c p)
  have "hd (pieces p) \<in> set (pieces p)" "set (tl (pieces p)) \<subseteq> set (pieces p)"
    by (simp, metis pieces_nonempty list.collapse set_subset_Cons)
  then show ?case using Cons.IH [of "hd (pieces p)"] Cons.IH [of n] Cons.prems by (auto split: if_splits)
qed simp

lemma names_chars: "n \<in> set (names p) \<Longrightarrow> set n \<subseteq> set p"
  using pieces_chars by (auto simp: names_def)

section \<open>Walking a tree\<close>

fun walk_names :: "(vid \<Rightarrow> bool) \<Rightarrow> (vid \<Rightarrow> string \<Rightarrow> vid option) \<Rightarrow> vid \<Rightarrow> string list \<Rightarrow> vid option" where
  "walk_names dir tree v [] = Some v"
| "walk_names dir tree v (n # ns) =
     (if length n < 256 \<and> dir v then (case tree v n of None \<Rightarrow> None | Some w \<Rightarrow> walk_names dir tree w ns) else None)"

text \<open>What a lookup may change: anything but the types, the reference counts and the root.\<close>

definition kept :: "('o, 'p, 'w) vfs \<Rightarrow> ('o, 'p, 'w) vfs \<Rightarrow> bool" where
  "kept s s' \<longleftrightarrow> vfs_root s' = vfs_root s \<and>
     (\<forall>v. vnode_type (vnodes s' v) = vnode_type (vnodes s v) \<and> ref_count (vnodes s' v) = ref_count (vnodes s v))"

definition is_dir :: "('o, 'p, 'w) vfs \<Rightarrow> vid \<Rightarrow> bool" where
  "is_dir s v \<longleftrightarrow> vnode_type (vnodes s v) = VNODE_DIRECTORY"

lemma kept_refl [simp]: "kept s s"
  by (simp add: kept_def)

lemma kept_trans [trans]: "kept s s' \<Longrightarrow> kept s' s'' \<Longrightarrow> kept s s''"
  by (simp add: kept_def)

lemma kept_dir: "kept s s' \<Longrightarrow> is_dir s' = is_dir s"
  by (simp add: kept_def is_dir_def fun_eq_iff)

lemma kept_ref: "kept s s' \<Longrightarrow> kept (vnode_ref v s) (vnode_ref v s')"
  by (auto simp: kept_def vnode_ref_def set_vnode_def split: option.split)

lemma kept_unref: "kept s s' \<Longrightarrow> kept (vnode_unref v s) (vnode_unref v s')"
  by (auto simp: kept_def vnode_unref_def set_vnode_def split: option.split)

lemma ref_dir [simp]: "is_dir (vnode_ref v s) = is_dir s" "is_dir (vnode_unref v s) = is_dir s"
  by (auto simp: is_dir_def vnode_ref_def vnode_unref_def set_vnode_def fun_eq_iff split: option.split)

lemma unref_ref: "kept (vnode_unref v (vnode_ref v s)) s"
  by (auto simp: kept_def vnode_ref_def vnode_unref_def set_vnode_def split: option.split)

lemma ref_swap: "kept (vnode_unref (Some v) (vnode_ref (Some w) (vnode_ref (Some v) s))) (vnode_ref (Some w) s)"
  by (auto simp: kept_def vnode_ref_def vnode_unref_def set_vnode_def)

lemma dropped: "kept (vnode_ref (Some v) s0) s \<Longrightarrow> kept s0 (vnode_unref (Some v) s)"
  using kept_unref [of "vnode_ref (Some v) s0" s "Some v"] unref_ref [of "Some v" s0] by (simp add: kept_def)

lemma stepped: "kept (vnode_ref (Some v) s0) s \<Longrightarrow> kept (vnode_ref (Some w) s) s1 \<Longrightarrow> kept (vnode_ref (Some w) s0) (vnode_unref (Some v) s1)"
  using kept_unref [OF kept_trans [OF kept_ref [of _ s "Some w"]], of "vnode_ref (Some v) s0" s1 "Some v"] ref_swap [of v w s0] by (simp add: kept_def)

text \<open>
  The contract of a file system: in a good state every directory can be searched; a search finds what the
  tree has under the name and takes a reference to it, or fails and takes none; and the tree does not
  depend on the reference counts.
\<close>

locale file_system =
  fixes D :: "'o \<Rightarrow> ('o, 'p, 'w) fs_ops"
    and tree :: "('o, 'p, 'w) vfs \<Rightarrow> vid \<Rightarrow> string \<Rightarrow> vid option"
    and good :: "('o, 'p, 'w) vfs \<Rightarrow> bool"
  assumes search: "good s \<Longrightarrow> is_dir s d \<Longrightarrow> \<exists>f. op_lookup (ops_of D d s) = Some f"
    and found: "good s \<Longrightarrow> is_dir s d \<Longrightarrow> op_lookup (ops_of D d s) = Some f \<Longrightarrow> CHR 0x00 \<notin> set n \<Longrightarrow> tree s d n = Some w \<Longrightarrow>
      \<exists>s'. f d n s = Some (0, Some w, s') \<and> kept (vnode_ref (Some w) s) s' \<and> good s' \<and> tree s' = tree s"
    and missing: "good s \<Longrightarrow> is_dir s d \<Longrightarrow> op_lookup (ops_of D d s) = Some f \<Longrightarrow> CHR 0x00 \<notin> set n \<Longrightarrow> tree s d n = None \<Longrightarrow>
      \<exists>r x s'. f d n s = Some (r, x, s') \<and> r \<noteq> 0 \<and> kept s s' \<and> good s' \<and> tree s' = tree s"
    and counted: "good s \<Longrightarrow> good (vnode_ref v s) \<and> tree (vnode_ref v s) = tree s"
      "good s \<Longrightarrow> good (vnode_unref v s) \<and> tree (vnode_unref v s) = tree s"
begin

lemma lookup_loop_walks:
  assumes "good s" "kept (vnode_ref (Some v) s0) s" "\<forall>n \<in> set (names cursor). CHR 0x00 \<notin> set n"
  shows "\<exists>s'. lookup_loop D cursor v s = Some (walk_names (is_dir s) (tree s) v (names cursor), s') \<and>
    kept (vnode_ref (walk_names (is_dir s) (tree s) v (names cursor)) s0) s' \<and> good s' \<and> tree s' = tree s"
  using assms
proof (induction "names cursor" arbitrary: cursor v s)
  case Nil
  then have "lookup_loop D cursor v s = Some (Some v, s)" by (subst lookup_loop.simps) (simp add: next_component_run(1) flip: Nil.hyps)
  then show ?case using Nil.prems by (simp flip: Nil.hyps)
next
  case (Cons n ns)
  let ?rest = "drop (length n) (dropWhile (\<lambda>c. c = slash) cursor)"
  have ns: "names ?rest = ns" by (rule next_component_run(2)) (simp flip: Cons.hyps(2))
  have "n \<in> set (names cursor)" by (simp flip: Cons.hyps(2))
  then have n0: "n \<noteq> []" by (simp add: names_def)
  have nx: "vfs_next_component cursor 256 = (if length n < 256 then Some (n, ?rest) else None)"
    by (simp add: next_component_run(1) flip: Cons.hyps(2))
  have fail: "kept (vnode_ref None s0) (vnode_unref (Some v) s'') \<and> good (vnode_unref (Some v) s'') \<and> tree (vnode_unref (Some v) s'') = tree s"
    if "kept s s''" "good s''" "tree s'' = tree s" for s''
  proof -
    have "kept (vnode_unref (Some v) (vnode_ref (Some v) s0)) (vnode_unref (Some v) s'')"
      by (rule kept_unref [OF kept_trans [OF Cons.prems(2) that(1)]])
    moreover have "kept s0 (vnode_unref (Some v) (vnode_ref (Some v) s0))" using unref_ref [of "Some v" s0] by (simp add: kept_def)
    ultimately show ?thesis using counted(2) [OF that(2)] that(3) kept_trans by (auto simp: vnode_ref_def)
  qed
  have nul: "CHR 0x00 \<notin> set n" "\<forall>n \<in> set (names ?rest). CHR 0x00 \<notin> set n"
    using Cons.prems(3) unfolding ns by (simp_all flip: Cons.hyps(2))
  show ?case
  proof (cases "length n < 256 \<and> is_dir s v")
    case False
    then have "lookup_loop D cursor v s = Some (None, vnode_unref (Some v) s)"
      using n0 by (subst lookup_loop.simps) (auto simp: nx is_dir_def)
    then show ?thesis using fail [of s] Cons.prems(1) False by (auto simp flip: Cons.hyps(2))
  next
    case True
    obtain f where f: "op_lookup (ops_of D v s) = Some f" using search Cons.prems(1) True by blast
    show ?thesis
    proof (cases "tree s v n")
      case None
      from missing [OF Cons.prems(1) _ f nul(1) None] True obtain r x s1 where s1: "f v n s = Some (r, x, s1)" "r \<noteq> 0" "kept s s1" "good s1" "tree s1 = tree s"
        by auto
      have "lookup_loop D cursor v s = Some (None, vnode_unref (Some v) s1)"
        using n0 True f s1(1,2) by (subst lookup_loop.simps) (simp add: nx is_dir_def)
      then show ?thesis using fail [OF s1(3-5)] True None by (auto simp flip: Cons.hyps(2))
    next
      case (Some w)
      from found [OF Cons.prems(1) _ f nul(1) Some] True obtain s1 where s1: "f v n s = Some (0, Some w, s1)" "kept (vnode_ref (Some w) s) s1" "good s1" "tree s1 = tree s"
        by auto
      let ?s2 = "vnode_unref (Some v) s1"
      have "kept (vnode_ref (Some w) (vnode_ref (Some v) s0)) s1" by (rule kept_trans [OF kept_ref [OF Cons.prems(2)] s1(2)])
      then have k: "kept (vnode_ref (Some w) s0) ?s2"
        using kept_unref [of _ s1 "Some v"] ref_swap [of v w s0] by (metis kept_def)
      have g: "good ?s2" "tree ?s2 = tree s" using counted(2) [OF s1(3)] s1(4) by simp_all
      have d: "is_dir ?s2 = is_dir s" using kept_dir [OF s1(2)] by simp
      from Cons.hyps(1) [OF ns [symmetric] g(1) k nul(2)] obtain s' where s': "lookup_loop D ?rest w ?s2 = Some (walk_names (is_dir s) (tree s) w ns, s')"
          "kept (vnode_ref (walk_names (is_dir s) (tree s) w ns) s0) s'" "good s'" "tree s' = tree s" unfolding d g(2) ns by auto
      have "lookup_loop D cursor v s = lookup_loop D ?rest w ?s2"
        using n0 True f s1(1) by (subst lookup_loop.simps) (simp add: nx is_dir_def)
      then show ?thesis using s' True Some by (auto simp flip: Cons.hyps(2))
    qed
  qed
qed

lemma vfs_lookup_walks:
  assumes "good s" "vfs_root s = Some root" "p \<noteq> []" "hd p = slash" "CHR 0x00 \<notin> set p"
  shows "\<exists>s'. vfs_lookup D (Some p) s = Some (walk_names (is_dir s) (tree s) root (names p), s') \<and>
    kept (vnode_ref (walk_names (is_dir s) (tree s) root (names p)) s) s' \<and> good s' \<and> tree s' = tree s"
proof (cases "tl p = []")
  case True
  then have "names p = []" using assms(3,4) by (cases p) (simp_all add: names_def)
  then show ?thesis using assms True counted(1) [OF assms(1)] by (simp add: vfs_lookup_def)
next
  case False
  have "good (vnode_ref (Some root) s)" "tree (vnode_ref (Some root) s) = tree s" using counted(1) [OF assms(1)] by simp_all
  moreover have "\<forall>n \<in> set (names p). CHR 0x00 \<notin> set n" using names_chars [of _ p] assms(5) by blast
  ultimately show ?thesis using lookup_loop_walks [of "vnode_ref (Some root) s" root s p] assms False by (simp add: vfs_lookup_def)
qed

text \<open>The walk to the parent takes one reference to it, or none when it fails.\<close>

lemma parent_loop_keeps:
  assumes "good s" "kept (vnode_ref (Some v) s0) s" "\<forall>n \<in> set (names cursor). CHR 0x00 \<notin> set n"
  shows "\<exists>r s'. parent_loop D cursor sz (Some v) s = Some (r, s') \<and> good s' \<and> tree s' = tree s \<and>
    (case r of None \<Rightarrow> kept s0 s' | Some (w, n) \<Rightarrow> \<exists>q. w = Some q \<and> kept (vnode_ref (Some q) s0) s')"
  using assms
proof (induction "names cursor" arbitrary: cursor v s)
  case Nil
  have "vfs_next_component cursor 256 = Some ([], [])" by (simp add: next_component_run(1) flip: Nil.hyps)
  then have run: "parent_loop D cursor sz (Some v) s = Some (None, vnode_unref (Some v) s)" by (subst parent_loop.simps) simp
  have "kept s0 (vnode_unref (Some v) s)" by (rule dropped [OF Nil.prems(2)])
  then show ?case using run counted(2) [OF Nil.prems(1)] by simp
next
  case (Cons n ns)
  let ?rest = "drop (length n) (dropWhile (\<lambda>c. c = slash) cursor)"
  have ns: "names ?rest = ns" by (rule next_component_run(2)) (simp flip: Cons.hyps(2))
  have "n \<in> set (names cursor)" by (simp flip: Cons.hyps(2))
  then have n0: "n \<noteq> []" by (simp add: names_def)
  have nx: "vfs_next_component cursor 256 = (if length n < 256 then Some (n, ?rest) else None)"
    by (simp add: next_component_run(1) flip: Cons.hyps(2))
  have nul: "CHR 0x00 \<notin> set n" "\<forall>n \<in> set (names ?rest). CHR 0x00 \<notin> set n"
    using Cons.prems(3) unfolding ns by (simp_all flip: Cons.hyps(2))
  have fail: "\<exists>r s'. Some (None, vnode_unref (Some v) s'') = Some (r, s') \<and> good s' \<and> tree s' = tree s \<and>
      (case r of None \<Rightarrow> kept s0 s' | Some (w, n) \<Rightarrow> \<exists>q. w = Some q \<and> kept (vnode_ref (Some q) s0) s')"
    if "kept s s''" "good s''" "tree s'' = tree s" for s''
    using dropped [OF kept_trans [OF Cons.prems(2) that(1)]] counted(2) [OF that(2)] that(3) by simp
  show ?case
  proof (cases "length n < 256 \<and> vfs_next_component ?rest 256 \<noteq> None")
    case False
    then have "parent_loop D cursor sz (Some v) s = Some (None, vnode_unref (Some v) s)"
      using n0 by (subst parent_loop.simps) (auto simp: nx simp del: not_None_eq)
    then show ?thesis using fail [of s] Cons.prems(1) by simp
  next
    case True
    then obtain m r2 where m: "vfs_next_component ?rest 256 = Some (m, r2)" by auto
    show ?thesis
    proof (cases "m = []")
      case True
      then have "parent_loop D cursor sz (Some v) s =
          (if length n + 1 > sz then Some (None, vnode_unref (Some v) s) else Some (Some (Some v, n), s))"
        using n0 m \<open>length n < 256 \<and> _\<close> by (subst parent_loop.simps) (simp add: nx)
      then show ?thesis using fail [of s] Cons.prems(1,2) by auto
    next
      case more: False
      show ?thesis
      proof (cases "is_dir s v")
        case False
        then have "parent_loop D cursor sz (Some v) s = Some (None, vnode_unref (Some v) s)"
          using n0 m more True by (subst parent_loop.simps) (simp add: nx is_dir_def)
        then show ?thesis using fail [of s] Cons.prems(1) by simp
      next
        case dir: True
        obtain f where f: "op_lookup (ops_of D v s) = Some f" using search Cons.prems(1) dir by blast
        show ?thesis
        proof (cases "tree s v n")
          case None
          from missing [OF Cons.prems(1) dir f nul(1) None] obtain r x s1 where s1: "f v n s = Some (r, x, s1)" "r \<noteq> 0" "kept s s1" "good s1" "tree s1 = tree s"
            by auto
          have "parent_loop D cursor sz (Some v) s = Some (None, vnode_unref (Some v) s1)"
            using n0 m more True dir f s1(1,2) by (subst parent_loop.simps) (simp add: nx is_dir_def)
          then show ?thesis using fail [OF s1(3-5)] by simp
        next
          case (Some w)
          from found [OF Cons.prems(1) dir f nul(1) Some] obtain s1 where s1: "f v n s = Some (0, Some w, s1)" "kept (vnode_ref (Some w) s) s1" "good s1" "tree s1 = tree s"
            by auto
          let ?s2 = "vnode_unref (Some v) s1"
          have k: "kept (vnode_ref (Some w) s0) ?s2" by (rule stepped [OF Cons.prems(2) s1(2)])
          have g: "good ?s2" "tree ?s2 = tree s" using counted(2) [OF s1(3)] s1(4) by simp_all
          have "parent_loop D cursor sz (Some v) s = parent_loop D ?rest sz (Some w) ?s2"
            using n0 m more True dir f s1(1) by (subst parent_loop.simps) (simp add: nx is_dir_def)
          then show ?thesis using Cons.hyps(1) [OF ns [symmetric] g(1) k nul(2)] g(2) by simp
        qed
      qed
    qed
  qed
qed

lemma vfs_lookup_parent_keeps:
  assumes "good s" "vfs_root s = Some root" "CHR 0x00 \<notin> set p"
  shows "\<exists>r s'. vfs_lookup_parent D (Some p) sz s = Some (r, s') \<and> good s' \<and> tree s' = tree s \<and>
    (case r of None \<Rightarrow> kept s s' | Some (w, n) \<Rightarrow> \<exists>q. w = Some q \<and> kept (vnode_ref (Some q) s) s')"
proof (cases "sz = 0 \<or> p = [] \<or> hd p \<noteq> slash")
  case True
  then show ?thesis using assms(1) by (auto simp: vfs_lookup_parent_def)
next
  case False
  have "\<forall>n \<in> set (names p). CHR 0x00 \<notin> set n" using names_chars [of _ p] assms(3) by blast
  then show ?thesis using parent_loop_keeps [of "vnode_ref (Some root) s" root s p sz] counted(1) [OF assms(1)] assms(2) False
    by (auto simp: vfs_lookup_parent_def)
qed

end

end
