(* ===== verification/RamfsProps.thy ===== *)
theory RamfsProps
  imports Ramfs VfsSpec
begin

text \<open>
  The memory file system keeps the contract of file systems, and path resolution on it.
\<close>

definition ramfs_tree :: "vid \<Rightarrow> string \<Rightarrow> vid option" where
  "ramfs_tree v n = (if v = 0 \<and> n = ''hello.txt'' then Some 1 else if v = 0 \<and> n = ''etc'' then Some 2
     else if v = 2 \<and> n = ''config'' then Some 3 else None)"

text \<open>The static nodes, connected; the reference counts are free.\<close>

definition ramfs_ok :: "ramfs \<Rightarrow> bool" where
  "ramfs_ok s \<longleftrightarrow> fs_data s = ramfs_nodes \<and>
     (\<forall>v. vnode_type (vnodes s v) = vnode_type (ramfs_vnodes v) \<and> vnode_ops (vnodes s v) = vnode_ops (ramfs_vnodes v) \<and>
        vnode_size (vnodes s v) = vnode_size (ramfs_vnodes v)) \<and>
     (\<forall>v \<le> 3. private_data (vnodes s v) = Some v)"

lemma ramfs_ok_ref: "ramfs_ok s \<Longrightarrow> ramfs_ok (vnode_ref v s)" "ramfs_ok s \<Longrightarrow> ramfs_ok (vnode_unref v s)"
  by (auto simp: ramfs_ok_def vnode_ref_def vnode_unref_def set_vnode_def split: option.split)

lemma ramfs_dirs: "ramfs_ok s \<Longrightarrow> is_dir s d \<longleftrightarrow> d = 0 \<or> d = 2"
  by (simp add: ramfs_ok_def is_dir_def ramfs_vnodes_def)

lemma ramfs_dir_ops: "ramfs_ok s \<Longrightarrow> is_dir s d \<Longrightarrow> op_lookup (ops_of ramfs_table d s) = Some ramfs_lookup"
  by (auto simp: ramfs_dirs) (simp_all add: ramfs_ok_def ops_of_def ramfs_vnodes_def ramfs_table_def)

lemma ramfs_names: "strcmp (ram_name (ramfs_nodes i)) n = 0 \<longleftrightarrow> ram_name (ramfs_nodes i) = n" if "CHR 0x00 \<notin> set n"
  using that by (intro strcmp_0_iff) (simp_all add: ramfs_nodes_def)

lemma ramfs_lookup_run:
  assumes "ramfs_ok s" "is_dir s d" "CHR 0x00 \<notin> set n"
  shows "ramfs_lookup d n s = Some (case ramfs_tree d n of None \<Rightarrow> (- 1, None, s) | Some w \<Rightarrow> (0, Some w, vnode_ref (Some w) s))"
proof -
  have p: "private_data (vnodes s d) = Some d" using assms(1,2) by (auto simp: ramfs_dirs) (simp_all add: ramfs_ok_def)
  have f: "fs_data s = ramfs_nodes" using assms(1) by (simp add: ramfs_ok_def)
  have d: "d = 0 \<or> d = 2" using assms(1,2) by (simp add: ramfs_dirs)
  have c: "ram_children (ramfs_nodes 0) = [1, 2]" "ram_children (ramfs_nodes 2) = [3]" by (simp_all add: ramfs_nodes_def)
  have r: "ram_name (ramfs_nodes 1) = ''hello.txt''" "ram_name (ramfs_nodes 2) = ''etc''" "ram_name (ramfs_nodes 3) = ''config''"
    "ram_vnode (ramfs_nodes 1) = 1" "ram_vnode (ramfs_nodes 2) = 2" "ram_vnode (ramfs_nodes 3) = 3"
    by (simp_all add: ramfs_nodes_def)
  note e = ramfs_names [OF assms(3), of 1, unfolded r] ramfs_names [OF assms(3), of 2, unfolded r] ramfs_names [OF assms(3), of 3, unfolded r]
  show ?thesis using d
  proof
    assume "d = 0"
    then show ?thesis unfolding ramfs_lookup_def p option.case f
      by (simp only: c ramfs_lookup_loop.simps f Let_def r e) (auto simp: ramfs_tree_def)
  next
    assume "d = 2"
    then show ?thesis unfolding ramfs_lookup_def p option.case f
      by (simp only: c ramfs_lookup_loop.simps f Let_def r e) (auto simp: ramfs_tree_def)
  qed
qed

text \<open>A lookup touches neither the heap nor the open files, whatever they are.\<close>

definition ramfs_good :: "heap \<times> (u32 \<Rightarrow> file_t) \<Rightarrow> ramfs \<Rightarrow> bool" where
  "ramfs_good fr s \<longleftrightarrow> ramfs_ok s \<and> (kheap s, files s) = fr"

lemma ramfs_good_ref: "ramfs_good fr s \<Longrightarrow> ramfs_good fr (vnode_ref v s)" "ramfs_good fr s \<Longrightarrow> ramfs_good fr (vnode_unref v s)"
  using ramfs_ok_ref [of s v] by (auto simp: ramfs_good_def vnode_ref_def vnode_unref_def set_vnode_def split: option.split)

interpretation ramfs: file_system ramfs_table "\<lambda>_. ramfs_tree" "ramfs_good fr" for fr
proof unfold_locales
  fix s d f n w assume s: "ramfs_good fr s" "is_dir s d" "op_lookup (ops_of ramfs_table d s) = Some f" "CHR 0x00 \<notin> set n"
  have ok: "ramfs_ok s" using s(1) by (simp add: ramfs_good_def)
  have f: "f = ramfs_lookup" using s(3) ramfs_dir_ops [OF ok s(2)] by simp
  show "ramfs_tree d n = Some w \<Longrightarrow> \<exists>s'. f d n s = Some (0, Some w, s') \<and> kept (vnode_ref (Some w) s) s' \<and> ramfs_good fr s' \<and> ramfs_tree = ramfs_tree"
    using ramfs_lookup_run [OF ok s(2,4)] ramfs_good_ref(1) [OF s(1)] unfolding f by simp
  show "ramfs_tree d n = None \<Longrightarrow> \<exists>r x s'. f d n s = Some (r, x, s') \<and> r \<noteq> 0 \<and> kept s s' \<and> ramfs_good fr s' \<and> ramfs_tree = ramfs_tree"
    using ramfs_lookup_run [OF ok s(2,4)] s(1) unfolding f by simp
qed (use ramfs_dir_ops ramfs_good_ref in \<open>auto simp: ramfs_good_def\<close>)

text \<open>Claim C35. Path resolution. On the connected memory file system \<open>vfs_lookup\<close> returns for every absolute
  path, and its answer is the walk of the tree along the names between the slashes, repeated and
  trailing slashes ignored and names of 256 characters refused; it takes exactly one reference to the
  vnode it returns, and none at all when it fails, half way down or not.\<close>

theorem vfs_lookup_walks_the_tree:
  assumes "ramfs_ok s" and "vfs_root s = Some root" and "p \<noteq> []" and "hd p = slash" and "CHR 0x00 \<notin> set p"
  shows "\<exists>s'. vfs_lookup ramfs_table (Some p) s = Some (walk_names (is_dir s) ramfs_tree root (names p), s') \<and> ramfs_ok s' \<and>
    (\<forall>v. ref_count (vnodes s' v) = ref_count (vnodes s v) + (if walk_names (is_dir s) ramfs_tree root (names p) = Some v then 1 else 0))"
  using ramfs.vfs_lookup_walks [of "(kheap s, files s)", OF _ assms(2-5)] assms(1)
  by (auto simp: ramfs_good_def kept_def vnode_ref_def set_vnode_def split: option.splits)

lemma ramfs_initialize_ok:
  obtains s where "ramfs_initialize (ramfs_static h) = (True, s)" "ramfs_ok s" "vfs_root s = Some 0" "kheap s = h"
proof -
  have "fst (ramfs_initialize (ramfs_static h)) \<and> ramfs_ok (snd (ramfs_initialize (ramfs_static h))) \<and>
      vfs_root (snd (ramfs_initialize (ramfs_static h))) = Some 0 \<and> kheap (snd (ramfs_initialize (ramfs_static h))) = h"
    by (auto simp: ramfs_initialize_def ramfs_static_def connect_def set_vnode_def ramfs_nodes_def ramfs_vnodes_def vfs_set_root_def
        vnode_ref_def ramfs_ok_def)
  then show thesis using that by (metis prod.collapse)
qed

theorem vfs_lookup_walks_the_tree_witness:
  "\<exists>s s'. ramfs_initialize (ramfs_static undefined) = (True, s) \<and> vfs_lookup ramfs_table (Some ''/etc//config'') s = Some (Some 3, s')"
proof -
  obtain s where s: "ramfs_initialize (ramfs_static undefined) = (True, s)" "ramfs_ok s" "vfs_root s = Some 0" by (rule ramfs_initialize_ok)
  have n: "names ''/etc//config'' = [''etc'', ''config'']" by (simp add: names_def slash_def)
  have "walk_names (is_dir s) ramfs_tree 0 (names ''/etc//config'') = Some 3"
    unfolding n using s(2) by (simp add: ramfs_dirs ramfs_tree_def)
  then show ?thesis using vfs_lookup_walks_the_tree [OF s(2,3), of "''/etc//config''"] s(1) by (auto simp: slash_def)
qed

end
