(* ===== verification/FdProps.thy ===== *)
theory FdProps
  imports Fd RamfsProps HeapProps
begin

text \<open>
  The descriptor table over the memory file system and the kernel heap: the contract of an allocator, the
  heap as its provider, and the type invariant of the table under every sequence of calls.
\<close>

section \<open>The contract of an allocator\<close>

text \<open>A request always returns; what it returns was not owned before; a release gives up one allocation.\<close>

locale allocator =
  fixes alloc :: "u32 \<Rightarrow> 'h \<Rightarrow> (u32 option \<times> 'h) option"
    and release :: "u32 option \<Rightarrow> 'h \<Rightarrow> 'h"
    and ok :: "'h \<Rightarrow> bool"
    and owned :: "'h \<Rightarrow> u32 set"
  assumes alloc_new: "ok h \<Longrightarrow> \<exists>r h'. alloc n h = Some (r, h') \<and> ok h' \<and>
      (case r of None \<Rightarrow> owned h' = owned h | Some p \<Rightarrow> p \<notin> owned h \<and> owned h' = insert p (owned h))"
    and release_owned: "ok h \<Longrightarrow> p \<in> owned h \<Longrightarrow> ok (release (Some p) h) \<and> owned (release (Some p) h) = owned h - {p}"
begin

lemma release_new:
  assumes "ok h" "alloc n h = Some (Some p, h')"
  shows "ok (release (Some p) h') \<and> owned (release (Some p) h') = owned h"
  using alloc_new [OF assms(1), of n] release_owned [of h' p] assms(2) by auto

lemma release_keeps:
  assumes "ok h" "P \<subseteq> owned h" "p \<in> P"
  shows "ok (release (Some p) h) \<and> P - {p} \<subseteq> owned (release (Some p) h)"
  using release_owned [of h p] assms by auto

lemma alloc_keeps:
  assumes "ok h" "P \<subseteq> owned h" "alloc n h = Some (Some p, h')"
  shows "ok h' \<and> p \<notin> P \<and> insert p P \<subseteq> owned h'"
  using alloc_new [OF assms(1), of n] assms(2,3) by auto

end

text \<open>The allocations of the kernel heap are the payload addresses of its blocks in use.\<close>

definition heap_good :: "heap \<Rightarrow> bool" where
  "heap_good h \<longleftrightarrow> (\<exists>bs. heap_ok h bs)"

definition heap_owned :: "heap \<Rightarrow> u32 set" where
  "heap_owned h = {p. \<exists>b. block_magic (headers h b) = HEAP_BLOCK_MAGIC \<and> \<not> block_free (headers h b) \<and> unat p = unat b + 32}"

lemma heap_owned_live: "heap_ok h bs \<Longrightarrow> heap_owned h = {p. \<exists>k. (unat p, k) \<in> live (cells h bs)}"
  by (auto simp: heap_owned_def live_cells heap_ok_def heap_list_def)

lemma live_once: "heap_ok h bs \<Longrightarrow> (p, k) \<in> live (cells h bs) \<Longrightarrow> (p, j) \<in> live (cells h bs) \<Longrightarrow> j = k"
  using live_apart [of h bs p k p j] by (simp add: heap_ok_list)

interpretation kernel_heap: allocator kmalloc kfree heap_good heap_owned
proof unfold_locales
  fix h :: heap and n :: u32
  assume "heap_good h"
  then obtain bs where ok: "heap_ok h bs" by (auto simp: heap_good_def)
  from kmalloc_run [OF ok, of n] obtain r h' bs' where run: "kmalloc n h = Some (r, h')" and ok': "heap_ok h' bs'" and
    r: "case request_spec n h (cells h bs) of None \<Rightarrow> r = None \<and> cells h' bs' = cells h bs
        | Some (a, cs) \<Rightarrow> r = Some (of_nat (a + 32)) \<and> cells h' bs' = cs" by blast
  have "case r of None \<Rightarrow> heap_owned h' = heap_owned h | Some p \<Rightarrow> p \<notin> heap_owned h \<and> heap_owned h' = insert p (heap_owned h)"
  proof (cases r)
    case None
    then have "cells h' bs' = cells h bs" using r by (auto split: option.splits)
    then show ?thesis using None by (simp add: heap_owned_live [OF ok] heap_owned_live [OF ok'])
  next
    case (Some p)
    from kmalloc_apart [OF ok run [unfolded Some]] obtain k bs'' where k: "heap_ok h' bs''"
        "live (cells h' bs'') = insert (unat p, k) (live (cells h bs))" and
        apart: "\<forall>(q, j) \<in> live (cells h bs). (unat p + k + 32 \<le> q \<or> q + j + 32 \<le> unat p) \<and>
          (\<forall>i < j. payload h' (of_nat (q + i)) = payload h (of_nat (q + i)))" by (elim exE conjE) (rule that)
    have "(unat p, j) \<notin> live (cells h bs)" for j using apart by fastforce
    then have "p \<notin> heap_owned h" by (simp add: heap_owned_live [OF ok])
    moreover have "heap_owned h' = insert p (heap_owned h)"
      unfolding heap_owned_live [OF ok] heap_owned_live [OF k(1)] k(2) by (auto simp: word_unat_eq_iff)
    ultimately show ?thesis using Some by simp
  qed
  then show "\<exists>r h'. kmalloc n h = Some (r, h') \<and> heap_good h' \<and>
      (case r of None \<Rightarrow> heap_owned h' = heap_owned h | Some p \<Rightarrow> p \<notin> heap_owned h \<and> heap_owned h' = insert p (heap_owned h))"
    using run ok' by (auto simp: heap_good_def)
next
  fix h :: heap and p :: u32
  assume "heap_good h" and p: "p \<in> heap_owned h"
  then obtain bs where ok: "heap_ok h bs" by (auto simp: heap_good_def)
  from p obtain k where k: "(unat p, k) \<in> live (cells h bs)" by (auto simp: heap_owned_live [OF ok])
  from kfree_live [OF ok k] obtain bs' where bs': "heap_ok (kfree (Some p) h) bs'"
      "live (cells (kfree (Some p) h) bs') = live (cells h bs) - {(unat p, k)}" by auto
  have "heap_owned (kfree (Some p) h) = heap_owned h - {p}"
    unfolding heap_owned_live [OF ok] heap_owned_live [OF bs'(1)] bs'(2) using live_once [OF ok k] by (auto simp: word_unat_eq_iff)
  then show "heap_good (kfree (Some p) h) \<and> heap_owned (kfree (Some p) h) = heap_owned h - {p}"
    using bs'(1) by (auto simp: heap_good_def)
qed

section \<open>Opening and closing a file\<close>

lemma vnode_ref_rest [simp]:
  "files (vnode_ref v s) = files s" "kheap (vnode_ref v s) = kheap s" "vfs_root (vnode_ref v s) = vfs_root s"
  "files (vnode_unref v s) = files s" "kheap (vnode_unref v s) = kheap s" "vfs_root (vnode_unref v s) = vfs_root s"
  by (simp_all add: vnode_ref_def vnode_unref_def set_vnode_def split: option.split)

lemma kept_same: "vnodes s' = vnodes s \<Longrightarrow> vfs_root s' = vfs_root s \<Longrightarrow> kept s s'"
  by (simp add: kept_def)

lemma kept_dropped: "kept (vnode_ref v s) s' \<Longrightarrow> kept s (vnode_unref v s')"
  by (cases v) (simp add: vnode_ref_def vnode_unref_def, simp add: dropped)

lemma ramfs_lookup_keeps:
  assumes "ramfs_good fr s" "vfs_root s = Some root" "CHR 0x00 \<notin> set p"
  shows "\<exists>r s'. vfs_lookup ramfs_table (Some p) s = Some (r, s') \<and> kept (vnode_ref r s) s' \<and> ramfs_good fr s'"
proof (cases "p = [] \<or> hd p \<noteq> slash")
  case True
  then show ?thesis using assms by (auto simp: vfs_lookup_def vnode_ref_def)
next
  case False
  then show ?thesis using ramfs.vfs_lookup_walks [OF assms(1,2) _ _ assms(3)] by blast
qed

text \<open>The memory file system creates nothing.\<close>

lemma ramfs_create_missing:
  assumes "ramfs_good fr s" "vfs_root s = Some root" "CHR 0x00 \<notin> set p"
  shows "\<exists>s'. create_missing ramfs_table (Some p) flags s = Some (None, s') \<and> kept s s' \<and> ramfs_good fr s'"
proof (cases "flags AND VFS_OPEN_CREATE = 0")
  case True
  then show ?thesis using assms(1) by (simp add: create_missing_def)
next
  case False
  from ramfs.vfs_lookup_parent_keeps [OF assms, of 256] obtain r s' where
    run: "vfs_lookup_parent ramfs_table (Some p) 256 s = Some (r, s')" and g: "ramfs_good fr s'" and
    k: "case r of None \<Rightarrow> kept s s' | Some (w, n) \<Rightarrow> \<exists>q. w = Some q \<and> kept (vnode_ref (Some q) s) s'" by blast
  have op: "op_create (ops_of ramfs_table q s') = None" for q
    by (simp add: ops_of_def ramfs_table_def no_ops_def split: option.split ramfs_ops.split)
  show ?thesis
  proof (cases r)
    case None
    then show ?thesis using False run g k by (simp add: create_missing_def)
  next
    case (Some wn)
    then obtain q n where q: "r = Some (Some q, n)" "kept (vnode_ref (Some q) s) s'" using k by (cases wn) auto
    then have "create_missing ramfs_table (Some p) flags s = Some (None, vnode_unref (Some q) s')"
      using False run by (simp add: create_missing_def op)
    then show ?thesis using dropped [OF q(2)] ramfs_good_ref(2) [OF g] by simp
  qed
qed

definition opened :: "u32 option \<Rightarrow> ramfs \<Rightarrow> ramfs \<Rightarrow> bool" where
  "opened file s s' \<longleftrightarrow> ramfs_ok s' \<and> heap_good (kheap s') \<and> vfs_root s' = vfs_root s \<and>
     (case file of
        None \<Rightarrow> kept s s' \<and> files s' = files s \<and> heap_owned (kheap s') = heap_owned (kheap s)
      | Some a \<Rightarrow> \<exists>v flags. kept (vnode_ref (Some v) s) s' \<and> files s' = (files s)(a := \<lparr>file_vnode = Some v, file_offset = 0, file_flags = flags\<rparr>) \<and>
          a \<notin> heap_owned (kheap s) \<and> heap_owned (kheap s') = insert a (heap_owned (kheap s)))"

lemma kept_root: "kept s s' \<Longrightarrow> vfs_root s' = vfs_root s"
  by (simp add: kept_def)

lemma ramfs_open:
  assumes s: "ramfs_ok s" "heap_good (kheap s)" "vfs_root s = Some root" "CHR 0x00 \<notin> set p"
  shows "\<exists>r s'. vfs_open ramfs_table (Some p) flags s = Some (r, s') \<and> opened r s s'"
proof -
  let ?fr = "(kheap s, files s)"
  have g: "ramfs_good ?fr s" using s(1) by (simp add: ramfs_good_def)
  have none: "opened None s s'" if "kept s s'" "ramfs_good ?fr s'" for s'
    using that s(2) kept_root [OF that(1)] by (simp add: opened_def ramfs_good_def)
  from ramfs_lookup_keeps [OF g s(3,4)] obtain r s1 where s1: "vfs_lookup ramfs_table (Some p) s = Some (r, s1)"
      "kept (vnode_ref r s) s1" "ramfs_good ?fr s1" by blast
  show ?thesis
  proof (cases r)
    case None
    then have k: "kept s s1" using s1(2) by (simp add: vnode_ref_def)
    have "vfs_root s1 = Some root" using kept_root [OF k] s(3) by simp
    from ramfs_create_missing [OF s1(3) this s(4), of flags] obtain s2 where s2:
        "create_missing ramfs_table (Some p) flags s1 = Some (None, s2)" "kept s1 s2" "ramfs_good ?fr s2" by blast
    then have "vfs_open ramfs_table (Some p) flags s = Some (None, s2)"
      using s1(1) None by (simp add: vfs_open_def)
    then show ?thesis using none [OF kept_trans [OF k s2(2)] s2(3)] by blast
  next
    case (Some v)
    have fail: "opened None s (vnode_unref (Some v) s1)"
      using none [OF kept_dropped [OF s1(2)]] ramfs_good_ref(2) [OF s1(3)] Some by simp
    have op: "op_truncate (ops_of ramfs_table v s1) = None"
      by (simp add: ops_of_def ramfs_table_def no_ops_def split: option.split ramfs_ops.split)
    have h: "heap_good (kheap s1)" "kheap s1 = kheap s" "files s1 = files s" "ramfs_ok s1" using s(2) s1(3) by (simp_all add: ramfs_good_def)
    from kernel_heap.alloc_new [OF h(1), of sizeof_file] obtain a h' where a: "kmalloc sizeof_file (kheap s1) = Some (a, h')" "heap_good h'"
        "case a of None \<Rightarrow> heap_owned h' = heap_owned (kheap s) | Some a \<Rightarrow> a \<notin> heap_owned (kheap s) \<and> heap_owned h' = insert a (heap_owned (kheap s))"
      unfolding h(2) by auto
    let ?s2 = "s1\<lparr>kheap := h'\<rparr>"
    let ?fin = "case a of None \<Rightarrow> (None, vnode_unref (Some v) ?s2)
      | Some a \<Rightarrow> (Some a, set_file a (\<lambda>_. \<lparr>file_vnode = Some v, file_offset = 0, file_flags = flags\<rparr>) ?s2)"
    have k2: "kept (vnode_ref (Some v) s) ?s2" "ramfs_ok ?s2" using s1(2) h(4) Some by (simp_all add: kept_def ramfs_ok_def)
    have fin: "opened (fst ?fin) s (snd ?fin)"
    proof (cases a)
      case None
      have "kept s (vnode_unref (Some v) ?s2)" "ramfs_ok (vnode_unref (Some v) ?s2)" using dropped [OF k2(1)] ramfs_ok_ref(2) [OF k2(2)] by simp_all
      then show ?thesis using None a(2,3) h(3) kept_root [OF k2(1)] by (simp add: opened_def)
    next
      case (Some b)
      have "kept (vnode_ref (Some v) s) (set_file b f ?s2)" "ramfs_ok (set_file b f ?s2)" for f
        using k2 by (simp_all add: kept_def ramfs_ok_def set_file_def)
      moreover have "kheap (set_file b f ?s2) = h'" "vfs_root (set_file b f ?s2) = vfs_root s1"
          "files (set_file b f ?s2) = (files s)(b := f (files s b))" for f using h(3) by (simp_all add: set_file_def)
      ultimately show ?thesis using Some a(2,3) kept_root [OF k2(1)]
        unfolding opened_def by (simp del: fun_upd_apply) (intro exI [of _ v] conjI exI [of _ flags], simp_all)
    qed
    have "vfs_open ramfs_table (Some p) flags s = Some (None, vnode_unref (Some v) s1) \<or>
        vfs_open ramfs_table (Some p) flags s = Some ?fin"
      unfolding vfs_open_def using s1(1) Some
      by (cases "flags AND VFS_OPEN_TRUNC = 0") (simp_all add: op a(1) Let_def)
    then show ?thesis
    proof
      assume "vfs_open ramfs_table (Some p) flags s = Some ?fin"
      then have "vfs_open ramfs_table (Some p) flags s = Some (fst ?fin, snd ?fin)" by simp
      then show ?thesis using fin by blast
    qed (use fail in blast)
  qed
qed

section \<open>The table\<close>

type_synonym ramfds = "(ramfs_ops, nat, nat \<Rightarrow> ramfs_node) fds"

definition on_vnode :: "ramfds \<Rightarrow> vid \<Rightarrow> nat set" where
  "on_vnode s v = {i. \<exists>a. fd_table s i = Some a \<and> file_vnode (files (fd_vfs s) a) = Some v}"

text \<open>
  Every used slot is one of 3 to 63 and holds an open file of its own, an allocation of the heap, on a
  vnode; and a vnode has as many references as descriptors, one more when it is the root.
\<close>

definition fds_ok :: "ramfds \<Rightarrow> bool" where
  "fds_ok s \<longleftrightarrow> ramfs_ok (fd_vfs s) \<and> heap_good (kheap (fd_vfs s)) \<and> vfs_root (fd_vfs s) \<noteq> None \<and>
     (\<forall>i a. fd_table s i = Some a \<longrightarrow> 3 \<le> i \<and> i < 64 \<and> a \<in> heap_owned (kheap (fd_vfs s)) \<and> file_vnode (files (fd_vfs s) a) \<noteq> None) \<and>
     (\<forall>i j a. fd_table s i = Some a \<longrightarrow> fd_table s j = Some a \<longrightarrow> i = j) \<and>
     (\<forall>v. ref_count (vnodes (fd_vfs s) v) = of_nat (card (on_vnode s v)) + (if vfs_root (fd_vfs s) = Some v then 1 else 0))"

lemma fds_ok_slot:
  assumes "fds_ok s" "fd_table s i = Some a"
  obtains w where "3 \<le> i" "i < 64" "a \<in> heap_owned (kheap (fd_vfs s))" "file_vnode (files (fd_vfs s) a) = Some w"
    "\<And>j. fd_table s j = Some a \<Longrightarrow> j = i"
proof -
  have "3 \<le> i \<and> i < 64 \<and> a \<in> heap_owned (kheap (fd_vfs s)) \<and> file_vnode (files (fd_vfs s) a) \<noteq> None"
    using assms unfolding fds_ok_def by blast
  moreover have "fd_table s j = Some a \<Longrightarrow> j = i" for j using assms unfolding fds_ok_def by blast
  ultimately show thesis using that by blast
qed

lemma on_vnode_finite: "fds_ok s \<Longrightarrow> finite (on_vnode s v)"
  by (rule finite_subset [of _ "{3..<64}"]) (auto simp: fds_ok_def on_vnode_def)

text \<open>Operations that leave the vnodes, the heap and the vnode of every file alone.\<close>

definition same_files :: "ramfs \<Rightarrow> ramfs \<Rightarrow> bool" where
  "same_files s s' \<longleftrightarrow> vnodes s' = vnodes s \<and> vfs_root s' = vfs_root s \<and> kheap s' = kheap s \<and> fs_data s' = fs_data s \<and>
     (\<forall>a. file_vnode (files s' a) = file_vnode (files s a))"

lemma same_files_refl [simp]: "same_files s s"
  by (simp add: same_files_def)

lemma same_files_set [simp]: "same_files s (set_file a (file_offset_update f) s)"
  by (simp add: same_files_def set_file_def)

lemma fds_ok_same: "fds_ok s \<Longrightarrow> same_files (fd_vfs s) v \<Longrightarrow> fds_ok (s\<lparr>fd_vfs := v\<rparr>)"
  by (simp add: fds_ok_def same_files_def on_vnode_def ramfs_ok_def)

lemma ramfs_read_same: "\<exists>r bytes s'. vfs_read ramfs_table file n s = Some (r, bytes, s') \<and> same_files s s'"
  by (auto simp: vfs_read_def ops_of_def ramfs_table_def no_ops_def ramfs_read_def Let_def split: option.split ramfs_ops.split)

lemma ramfs_write_same: "\<exists>r count s'. vfs_write ramfs_table file bytes s = Some (r, count, s') \<and> same_files s s'"
  by (auto simp: vfs_write_def ops_of_def ramfs_table_def no_ops_def split: option.split ramfs_ops.split)

lemma ramfs_readdir_same: "\<exists>r entry s'. vfs_readdir ramfs_table file s = Some (r, entry, s') \<and> same_files s s'"
  by (auto simp: vfs_readdir_def ops_of_def ramfs_table_def no_ops_def split: option.split ramfs_ops.split)

lemma seek_same: "same_files s (snd (vfs_seek file offset whence s))"
  by (auto simp: vfs_seek_def Let_def split: option.split)

lemma free_slot_Some:
  "free_slot_loop fd t = Some i \<Longrightarrow> fd \<le> i \<and> i < 64 \<and> t (nat i) = None"
proof (induction fd t rule: free_slot_loop.induct)
  case (1 fd t)
  show ?case using 1(2) 1(1) by (subst (asm) free_slot_loop.simps) (auto simp: KERNEL_FD_MAX_def split: if_splits)
qed

lemma fds_ok_open:
  assumes ok: "fds_ok s" and o: "opened (Some a) (fd_vfs s) v" and i: "3 \<le> i" "i < 64" "fd_table s i = None"
  shows "fds_ok (s\<lparr>fd_vfs := v, fd_table := (fd_table s)(i := Some a)\<rparr>)"
proof -
  let ?s = "s\<lparr>fd_vfs := v, fd_table := (fd_table s)(i := Some a)\<rparr>"
  from o obtain w flags where v: "kept (vnode_ref (Some w) (fd_vfs s)) v" and
      f: "files v = (files (fd_vfs s))(a := \<lparr>file_vnode = Some w, file_offset = 0, file_flags = flags\<rparr>)"
      "a \<notin> heap_owned (kheap (fd_vfs s))" "heap_owned (kheap v) = insert a (heap_owned (kheap (fd_vfs s)))" and
      g: "ramfs_ok v" "heap_good (kheap v)" "vfs_root v = vfs_root (fd_vfs s)" by (auto simp: opened_def)
  have new: "fd_table s j \<noteq> Some a" for j using ok f(2) by (auto simp: fds_ok_def)
  have on: "on_vnode ?s x = (if x = w then insert i (on_vnode s x) else on_vnode s x)" for x
  proof (rule set_eqI)
    fix j
    show "j \<in> on_vnode ?s x \<longleftrightarrow> j \<in> (if x = w then insert i (on_vnode s x) else on_vnode s x)"
      using new [of j] i(3) by (cases "fd_table s j"; cases "j = i") (auto simp: on_vnode_def f(1))
  qed
  have "i \<notin> on_vnode s w" using i(3) by (simp add: on_vnode_def)
  then have card: "of_nat (card (on_vnode ?s x)) = (of_nat (card (on_vnode s x)) + (if x = w then 1 else 0) :: u32)" for x
    using on_vnode_finite [OF ok, of w] by (simp add: on)
  have refs: "ref_count (vnodes v x) = ref_count (vnodes (fd_vfs s) x) + (if x = w then 1 else 0)" for x
    using v by (simp add: kept_def vnode_ref_def set_vnode_def)
  have old: "ref_count (vnodes (fd_vfs s) x) = of_nat (card (on_vnode s x)) + (if vfs_root (fd_vfs s) = Some x then 1 else 0)" for x
    using ok by (simp add: fds_ok_def)
  have slots: "3 \<le> j \<and> j < 64 \<and> b \<in> heap_owned (kheap v) \<and> file_vnode (files v b) \<noteq> None" if "((fd_table s)(i := Some a)) j = Some b" for j b
  proof (cases "j = i")
    case True
    then show ?thesis using that i(1,2) by (simp add: f(1,3))
  next
    case False
    then have "fd_table s j = Some b" using that by simp
    from fds_ok_slot [OF ok this] show ?thesis by (auto simp: f(1,3))
  qed
  have inj: "j = k" if "((fd_table s)(i := Some a)) j = Some b" "((fd_table s)(i := Some a)) k = Some b" for j k b
  proof (cases "b = a")
    case True
    then show ?thesis using that new by (metis fun_upd_apply)
  next
    case False
    then have "fd_table s j = Some b" "fd_table s k = Some b" using that by (auto split: if_splits)
    then show ?thesis using fds_ok_slot [OF ok] by metis
  qed
  have "vfs_root (fd_vfs s) \<noteq> None" using ok by (simp add: fds_ok_def)
  then show ?thesis unfolding fds_ok_def using slots inj g card by (simp add: refs old del: not_None_eq fun_upd_apply)
qed

lemma fds_ok_close:
  assumes ok: "fds_ok s" and a: "fd_table s i = Some a"
  shows "fds_ok (s\<lparr>fd_table := (fd_table s)(i := None), fd_vfs := vfs_close (Some a) (fd_vfs s)\<rparr>)"
proof -
  let ?v = "fd_vfs s" let ?s = "s\<lparr>fd_table := (fd_table s)(i := None), fd_vfs := vfs_close (Some a) ?v\<rparr>"
  from ok a obtain w where w: "file_vnode (files ?v a) = Some w" "a \<in> heap_owned (kheap ?v)" and
    once: "\<And>j. fd_table s j = Some a \<Longrightarrow> j = i" by (rule fds_ok_slot) blast
  have own: "a \<in> heap_owned (kheap ?v)" "heap_good (kheap ?v)" using ok w(2) by (simp_all add: fds_ok_def)
  have c: "vfs_close (Some a) ?v = (vnode_unref (Some w) ?v)\<lparr>kheap := kfree (Some a) (kheap ?v)\<rparr>"
    by (simp add: vfs_close_def w)
  note fr = kernel_heap.release_owned [OF own(2,1)]
  have on: "on_vnode ?s x = (if x = w then on_vnode s x - {i} else on_vnode s x)" for x
    using a w by (auto simp: on_vnode_def c)
  have i: "i \<in> on_vnode s w" using a w by (simp add: on_vnode_def)
  have "card (on_vnode s w) = Suc (card (on_vnode s w - {i}))" by (rule card.remove [OF on_vnode_finite [OF ok] i])
  then have card: "of_nat (card (on_vnode ?s x)) = (of_nat (card (on_vnode s x)) - (if x = w then 1 else 0) :: u32)" for x
    by (simp add: on)
  have refs: "ref_count (vnodes (vfs_close (Some a) ?v) x) = ref_count (vnodes ?v x) - (if x = w then 1 else 0)" for x
    by (simp add: c vnode_unref_def set_vnode_def)
  have rest: "files (vfs_close (Some a) ?v) = files ?v" "vfs_root (vfs_close (Some a) ?v) = vfs_root ?v"
      "kheap (vfs_close (Some a) ?v) = kfree (Some a) (kheap ?v)" by (simp_all add: c)
  have rok: "ramfs_ok (vfs_close (Some a) ?v)" using ramfs_ok_ref(2) [of ?v "Some w"] ok by (simp add: c fds_ok_def ramfs_ok_def)
  show ?thesis using ok once fr rok card refs unfolding fds_ok_def by (auto simp: rest split: if_splits)
qed

lemma fds_ok_none: "fds_ok s \<Longrightarrow> opened None (fd_vfs s) v \<Longrightarrow> fds_ok (s\<lparr>fd_vfs := v\<rparr>)"
  by (simp add: fds_ok_def opened_def kept_def on_vnode_def)

text \<open>A file opened while every slot is taken is closed again.\<close>

lemma opened_closed:
  assumes "opened (Some a) s v"
  shows "opened None s ((vfs_close (Some a) v)\<lparr>files := files s\<rparr>) \<and> (\<forall>b \<noteq> a. files (vfs_close (Some a) v) b = files s b)"
proof -
  from assms obtain w flags where v: "kept (vnode_ref (Some w) s) v" and
      f: "files v = (files s)(a := \<lparr>file_vnode = Some w, file_offset = 0, file_flags = flags\<rparr>)"
      "a \<notin> heap_owned (kheap s)" "heap_owned (kheap v) = insert a (heap_owned (kheap s))" and
      g: "ramfs_ok v" "heap_good (kheap v)" by (auto simp: opened_def)
  have c: "vfs_close (Some a) v = (vnode_unref (Some w) v)\<lparr>kheap := kfree (Some a) (kheap v)\<rparr>"
    by (simp add: vfs_close_def f(1))
  have "heap_good (kfree (Some a) (kheap v)) \<and> heap_owned (kfree (Some a) (kheap v)) = heap_owned (kheap s)"
    using kernel_heap.release_owned [OF g(2), of a] f(2,3) by auto
  moreover have "kept s (vfs_close (Some a) v)" using dropped [OF v] by (simp add: c kept_def)
  moreover have "ramfs_ok (vfs_close (Some a) v)" using ramfs_ok_ref(2) [OF g(1), of "Some w"] by (simp add: c ramfs_ok_def)
  ultimately show ?thesis using kept_root [of s "vfs_close (Some a) v"]
    by (simp add: opened_def ramfs_ok_def kept_def c f(1))
qed

section \<open>Sequences of calls\<close>

datatype fd_call = Open "string option" u32 | Read int u32 | Readdir int | Write int "u8 list" | Seek int u64 int | Close int

definition fd_call :: "fd_call \<Rightarrow> ramfds \<Rightarrow> ramfds option" where
  "fd_call c s = (case c of
     Open path flags \<Rightarrow> map_option snd (kernel_fd_open ramfs_table path flags s)
   | Read fd n \<Rightarrow> map_option (\<lambda>(_, _, s). s) (kernel_fd_read ramfs_table fd n s)
   | Readdir fd \<Rightarrow> map_option (\<lambda>(_, _, s). s) (kernel_fd_readdir ramfs_table fd s)
   | Write fd bytes \<Rightarrow> map_option (\<lambda>(_, _, s). s) (kernel_fd_write ramfs_table fd bytes s)
   | Seek fd offset whence \<Rightarrow> Some (snd (kernel_fd_seek fd offset whence s))
   | Close fd \<Rightarrow> Some (snd (kernel_fd_close fd s)))"

fun fd_calls :: "fd_call list \<Rightarrow> ramfds \<Rightarrow> ramfds option" where
  "fd_calls [] s = Some s"
| "fd_calls (c # cs) s = Option.bind (fd_call c s) (fd_calls cs)"

text \<open>The path of an open is a C string.\<close>

definition c_path :: "fd_call \<Rightarrow> bool" where
  "c_path c = (case c of Open (Some p) _ \<Rightarrow> CHR 0x00 \<notin> set p | _ \<Rightarrow> True)"

lemma fds_ok_files:
  assumes ok: "fds_ok (s\<lparr>fd_vfs := v\<rparr>)" and f: "\<forall>i b. fd_table s i = Some b \<longrightarrow> f b = files v b"
  shows "fds_ok (s\<lparr>fd_vfs := v\<lparr>files := f\<rparr>\<rparr>)"
proof -
  have "on_vnode (s\<lparr>fd_vfs := v\<lparr>files := f\<rparr>\<rparr>) = on_vnode (s\<lparr>fd_vfs := v\<rparr>)"
    using f by (auto simp: on_vnode_def fun_eq_iff)
  then show ?thesis using ok f by (simp add: fds_ok_def ramfs_ok_def)
qed

lemma open_call:
  assumes ok: "fds_ok s" and c: "c_path (Open path flags)"
  shows "\<exists>s'. fd_call (Open path flags) s = Some s' \<and> fds_ok s'"
proof (cases "path = None \<or> open_flags flags = None")
  case True
  then show ?thesis using ok by (auto simp: fd_call_def kernel_fd_open_def split: option.split)
next
  case False
  then obtain p f where p: "path = Some p" "open_flags flags = Some f" by auto
  obtain root where root: "vfs_root (fd_vfs s) = Some root" using ok by (auto simp: fds_ok_def)
  from ramfs_open [OF _ _ root, of p f] ok c obtain r v where
    run: "vfs_open ramfs_table (Some p) f (fd_vfs s) = Some (r, v)" and o: "opened r (fd_vfs s) v"
    by (auto simp: fds_ok_def c_path_def p(1))
  show ?thesis
  proof (cases r)
    case None
    then show ?thesis using run p fds_ok_none [OF ok] o by (simp add: fd_call_def kernel_fd_open_def)
  next
    case (Some a)
    show ?thesis
    proof (cases "free_slot_loop KERNEL_FD_FIRST (fd_table s)")
      case None
      let ?v = "vfs_close (Some a) v"
      have "fds_ok (s\<lparr>fd_vfs := ?v\<lparr>files := files (fd_vfs s)\<rparr>\<rparr>)"
        using opened_closed [of a "fd_vfs s" v] o Some fds_ok_none [OF ok] by simp
      moreover have "a \<notin> heap_owned (kheap (fd_vfs s))" using o Some by (simp add: opened_def) blast
      then have "fd_table s i \<noteq> Some a" for i using fds_ok_slot [OF ok] by metis
      moreover have "\<forall>b \<noteq> a. files ?v b = files (fd_vfs s) b" using opened_closed [of a "fd_vfs s" v] o Some by simp
      ultimately have "fds_ok (s\<lparr>fd_vfs := ?v\<rparr>)"
        using fds_ok_files [of "?v\<lparr>files := files (fd_vfs s)\<rparr>" s "files ?v"] by fastforce
      then show ?thesis using run p Some None by (simp add: fd_call_def kernel_fd_open_def)
    next
      case slot: (Some fd)
      from free_slot_Some [OF slot] have "3 \<le> nat fd" "nat fd < 64" "fd_table s (nat fd) = None" by (auto simp: KERNEL_FD_FIRST_def)
      from fds_ok_open [OF ok _ this] o Some have "fds_ok (s\<lparr>fd_vfs := v, fd_table := (fd_table s)(nat fd := Some a)\<rparr>)" by simp
      then show ?thesis using run p Some slot by (simp add: fd_call_def kernel_fd_open_def)
    qed
  qed
qed

lemma fd_call_ok:
  assumes ok: "fds_ok s" and c: "c_path c"
  shows "\<exists>s'. fd_call c s = Some s' \<and> fds_ok s'"
proof (cases c)
  case (Open path flags)
  then show ?thesis using open_call [OF ok] c by simp
next
  case (Read fd n)
  from ramfs_read_same [of "fd_table s (nat fd)" n "fd_vfs s"] show ?thesis
    using ok fds_ok_same [OF ok] by (auto simp: Read fd_call_def kernel_fd_read_def Let_def)
next
  case (Readdir fd)
  from ramfs_readdir_same [of "fd_table s (nat fd)" "fd_vfs s"] show ?thesis
    using ok fds_ok_same [OF ok] by (auto simp: Readdir fd_call_def kernel_fd_readdir_def Let_def)
next
  case (Write fd bytes)
  from ramfs_write_same [of "fd_table s (nat fd)" bytes "fd_vfs s"] show ?thesis
    using ok fds_ok_same [OF ok] by (auto simp: Write fd_call_def kernel_fd_write_def Let_def)
next
  case (Seek fd offset whence)
  have "fds_ok (snd (kernel_fd_seek fd offset whence s))"
    using ok fds_ok_same [OF ok seek_same] by (auto simp: kernel_fd_seek_def Let_def split: option.split prod.split) (metis snd_conv)+
  then show ?thesis by (simp add: Seek fd_call_def)
next
  case (Close fd)
  have "fds_ok (snd (kernel_fd_close fd s))"
    using ok fds_ok_close [OF ok] by (auto simp: kernel_fd_close_def Let_def)
  then show ?thesis by (simp add: Close fd_call_def)
qed

lemma fd_calls_ok: "fds_ok s \<Longrightarrow> \<forall>c \<in> set cs. c_path c \<Longrightarrow> \<exists>s'. fd_calls cs s = Some s' \<and> fds_ok s'"
proof (induction cs arbitrary: s)
  case (Cons c cs)
  from fd_call_ok [OF Cons.prems(1), of c] Cons.prems(2) obtain s' where "fd_call c s = Some s'" "fds_ok s'" by auto
  then show ?case using Cons.IH [of s'] Cons.prems(2) by simp
qed simp

definition no_fds :: "ramfs \<Rightarrow> ramfds" where
  "no_fds v = \<lparr>fd_table = (\<lambda>_. None), fd_vfs = v\<rparr>"

lemma no_fds_ok:
  assumes "heap_ok h bs"
  shows "\<exists>v. ramfs_initialize (ramfs_static h) = (True, v) \<and> fds_ok (no_fds v)"
proof -
  obtain v where v: "ramfs_initialize (ramfs_static h) = (True, v)" "ramfs_ok v" "vfs_root v = Some 0" "kheap v = h" by (rule ramfs_initialize_ok)
  have "ref_count (vnodes (snd (ramfs_initialize (ramfs_static h))) w) = (if w = 0 then 1 else 0)" for w
    by (simp add: ramfs_initialize_def ramfs_static_def connect_def set_vnode_def ramfs_nodes_def ramfs_vnodes_def vfs_set_root_def
        vnode_ref_def)
  then have "ref_count (vnodes v w) = (if w = 0 then 1 else 0)" for w by (simp add: v(1))
  then have "fds_ok (no_fds v)" using v(2-4) assms by (auto simp: fds_ok_def no_fds_def on_vnode_def heap_good_def)
  then show ?thesis using v(1) by blast
qed

text \<open>Claim C7. The type of the descriptor table. After the boot of the memory file system on any well-formed
  heap, every sequence of opens (of any path and flags), reads, writes, directory reads, seeks and
  closes, failing calls included, returns, and leaves a table whose used slots lie between 3 and 63 and
  hold distinct open files, each an allocation of the kernel heap that is still in use and each on a
  vnode; and every vnode has exactly as many references as descriptors, one more when it is the root.\<close>

theorem descriptor_table_typed:
  assumes "heap_ok h bs" and "ramfs_initialize (ramfs_static h) = (True, v)" and "\<forall>c \<in> set calls. c_path c"
  shows "\<exists>s. fd_calls calls (no_fds v) = Some s \<and> fds_ok s"
  using fd_calls_ok [of "no_fds v" calls] no_fds_ok [OF assms(1)] assms(2,3) by auto

theorem descriptor_table_typed_witness:
  "\<exists>v s. ramfs_initialize (ramfs_static sample_heap) = (True, v) \<and>
     fd_calls [Open (Some ''/hello.txt'') 1, Open (Some ''/etc'') 1, Read 3 5, Open (Some ''/missing'') 11, Close 3, Close 3] (no_fds v) = Some s \<and>
     fds_ok s"
proof -
  obtain v where v: "ramfs_initialize (ramfs_static sample_heap) = (True, v)" by (rule ramfs_initialize_ok)
  from descriptor_table_typed [OF sample_heap_ok v,
      of "[Open (Some ''/hello.txt'') 1, Open (Some ''/etc'') 1, Read 3 5, Open (Some ''/missing'') 11, Close 3, Close 3]"]
  show ?thesis using v by (auto simp: c_path_def)
qed

end
