(* ===== verification/Bytes.thy ===== *)
theory Bytes
  imports Block
begin

text \<open>
  Byte buffers of packed structures: the little-endian fields that \<open>Block\<close> does not need, their encoding,
  and copying into a buffer.
\<close>

definition le16 :: "u8 list \<Rightarrow> nat \<Rightarrow> u16" where
  "le16 bs off = ucast (byte_at bs off) OR push_bit 8 (ucast (byte_at bs (off + 1)))"

definition b16 :: "u16 \<Rightarrow> u8 list" where
  "b16 w = [ucast w, ucast (drop_bit 8 w)]"

definition b32 :: "u32 \<Rightarrow> u8 list" where
  "b32 w = [ucast w, ucast (drop_bit 8 w), ucast (drop_bit 16 w), ucast (drop_bit 24 w)]"

definition bytes_from :: "u8 list \<Rightarrow> nat \<Rightarrow> nat \<Rightarrow> u8 list" where
  "bytes_from bs off n = map (\<lambda>i. byte_at bs (off + i)) [0..<n]"

text \<open>\<open>memcpy\<close> into a buffer.\<close>

definition put_bytes :: "u8 list \<Rightarrow> nat \<Rightarrow> u8 list \<Rightarrow> u8 list" where
  "put_bytes bytes off buf = take off buf @ bytes @ drop (off + length bytes) buf"

lemma length_b [simp]: "length (b16 w) = 2" "length (b32 v) = 4"
  by (simp_all add: b16_def b32_def)

lemma length_put_bytes [simp]: "off + length bytes \<le> length buf \<Longrightarrow> length (put_bytes bytes off buf) = length buf"
  by (simp add: put_bytes_def)

text \<open>Round trips: a field read back from its encoding, wherever the encoding stands.\<close>

lemma byte_at_append: "byte_at (xs @ ys) i = (if i < length xs then byte_at xs i else byte_at ys (i - length xs))"
  by (auto simp: byte_at_def nth_append)

lemma le_append:
  "off + 4 \<le> length xs \<Longrightarrow> le32 (xs @ ys) off = le32 xs off" "length xs \<le> off \<Longrightarrow> le32 (xs @ ys) off = le32 ys (off - length xs)"
  "off + 2 \<le> length xs \<Longrightarrow> le16 (xs @ ys) off = le16 xs off" "length xs \<le> off \<Longrightarrow> le16 (xs @ ys) off = le16 ys (off - length xs)"
  by (simp_all add: le32_def le16_def byte_at_append Suc_diff_le)

lemma le16_b16 [simp]: "le16 (b16 w) 0 = w"
proof -
  have "le16 (b16 w) 0 = ucast (ucast w :: u8) OR push_bit 8 (ucast (ucast (drop_bit 8 w) :: u8))"
    by (simp add: le16_def b16_def byte_at_def)
  also have "\<dots> = w"
    by (rule bit_word_eqI) (auto simp: bit_simps)
  finally show ?thesis .
qed

lemma le32_b32 [simp]: "le32 (b32 w) 0 = w"
proof -
  have "le32 (b32 w) 0 = ucast (ucast w :: u8) OR push_bit 8 (ucast (ucast (drop_bit 8 w) :: u8)) OR
      push_bit 16 (ucast (ucast (drop_bit 16 w) :: u8)) OR push_bit 24 (ucast (ucast (drop_bit 24 w) :: u8))"
    by (simp add: le32_def b32_def byte_at_def)
  also have "\<dots> = w"
  proof (rule bit_word_eqI)
    fix n :: nat
    assume "n < LENGTH(32)"
    then show "bit (ucast (ucast w :: u8) OR push_bit 8 (ucast (ucast (drop_bit 8 w) :: u8)) OR
      push_bit 16 (ucast (ucast (drop_bit 16 w) :: u8)) OR push_bit 24 (ucast (ucast (drop_bit 24 w) :: u8)) :: u32) n = bit w n"
      by (cases "n < 8"; cases "n < 16"; cases "n < 24") (auto simp: bit_simps)
  qed
  finally show ?thesis .
qed

end
