(* ===== verification/Ext2.thy ===== *)
theory Ext2
  imports Bytes Vfs
begin

text \<open>
  The on-disk structures of \<open>kernel/fs/ext2.c\<close> and the layer that reads and writes them through a block
  device: superblock, blocks, group descriptors, inodes, and the allocation of inodes and blocks. The
  packed structs are records with the byte layout written out. A division by zero, a shift by 32 or more
  and an access outside a local buffer are \<open>None\<close>; pointers to locals and members are never NULL.
\<close>

section \<open>Buffers and divisions\<close>

text \<open>\<open>uint8_t block[4096]\<close>\<close>

definition block_buffer :: "u8 list" where
  "block_buffer = replicate 4096 0"

definition checked_div :: "u32 \<Rightarrow> u32 \<Rightarrow> u32 option" where
  "checked_div a b = (if b = 0 then None else Some (a div b))"

definition checked_mod :: "u32 \<Rightarrow> u32 \<Rightarrow> u32 option" where
  "checked_mod a b = (if b = 0 then None else Some (a mod b))"

section \<open>The structs\<close>

definition EXT2_ROOT_INODE :: u32 where [machine_consts]: "EXT2_ROOT_INODE = 2"
definition EXT2_S_IFMT :: u16 where [machine_consts]: "EXT2_S_IFMT = 0xF000"
definition EXT2_S_IFDIR :: u16 where [machine_consts]: "EXT2_S_IFDIR = 0x4000"
definition EXT2_S_IFREG :: u16 where [machine_consts]: "EXT2_S_IFREG = 0x8000"
definition EXT2_FT_REG_FILE :: u8 where [machine_consts]: "EXT2_FT_REG_FILE = 1"
definition EXT2_FT_DIR :: u8 where [machine_consts]: "EXT2_FT_DIR = 2"

record ext2_superblock =
  inode_count :: u32
  block_count :: u32
  reserved_block_count :: u32
  free_block_count :: u32
  free_inode_count :: u32
  first_data_block :: u32
  log_block_size :: u32
  log_fragment_size :: u32
  blocks_per_group :: u32
  fragments_per_group :: u32
  inodes_per_group :: u32
  mount_time :: u32
  write_time :: u32
  mount_count :: u16
  max_mount_count :: u16
  magic :: u16
  fs_state :: u16
  fs_errors :: u16
  minor_revision :: u16
  last_check :: u32
  check_interval :: u32
  creator_os :: u32
  revision_level :: u32
  default_uid :: u16
  default_gid :: u16
  first_non_reserved_inode :: u32
  inode_size :: u16
  block_group_number :: u16

definition sizeof_superblock :: nat where "sizeof_superblock = 92"

definition superblock_of :: "u8 list \<Rightarrow> ext2_superblock" where
  "superblock_of bs =
     \<lparr>inode_count = le32 bs 0, block_count = le32 bs 4, reserved_block_count = le32 bs 8, free_block_count = le32 bs 12,
      free_inode_count = le32 bs 16, first_data_block = le32 bs 20, log_block_size = le32 bs 24, log_fragment_size = le32 bs 28,
      blocks_per_group = le32 bs 32, fragments_per_group = le32 bs 36, inodes_per_group = le32 bs 40, mount_time = le32 bs 44,
      write_time = le32 bs 48, mount_count = le16 bs 52, max_mount_count = le16 bs 54, magic = le16 bs 56, fs_state = le16 bs 58,
      fs_errors = le16 bs 60, minor_revision = le16 bs 62, last_check = le32 bs 64, check_interval = le32 bs 68, creator_os = le32 bs 72,
      revision_level = le32 bs 76, default_uid = le16 bs 80, default_gid = le16 bs 82, first_non_reserved_inode = le32 bs 84,
      inode_size = le16 bs 88, block_group_number = le16 bs 90\<rparr>"

definition superblock_bytes :: "ext2_superblock \<Rightarrow> u8 list" where
  "superblock_bytes sb =
     concat [b32 (inode_count sb), b32 (block_count sb), b32 (reserved_block_count sb), b32 (free_block_count sb),
       b32 (free_inode_count sb), b32 (first_data_block sb), b32 (log_block_size sb), b32 (log_fragment_size sb),
       b32 (blocks_per_group sb), b32 (fragments_per_group sb), b32 (inodes_per_group sb), b32 (mount_time sb), b32 (write_time sb),
       b16 (mount_count sb), b16 (max_mount_count sb), b16 (magic sb), b16 (fs_state sb), b16 (fs_errors sb), b16 (minor_revision sb),
       b32 (last_check sb), b32 (check_interval sb), b32 (creator_os sb), b32 (revision_level sb), b16 (default_uid sb), b16 (default_gid sb),
       b32 (first_non_reserved_inode sb), b16 (inode_size sb), b16 (block_group_number sb)]"

record ext2_group_descriptor =
  block_bitmap :: u32
  inode_bitmap :: u32
  inode_table :: u32
  free_blocks_count :: u16
  free_inodes_count :: u16
  used_dirs_count :: u16
  gd_pad :: u16
  gd_reserved :: "u8 list"

definition sizeof_group_descriptor :: u32 where [machine_consts]: "sizeof_group_descriptor = 32"

definition group_descriptor_of :: "u8 list \<Rightarrow> nat \<Rightarrow> ext2_group_descriptor" where
  "group_descriptor_of bs off =
     \<lparr>block_bitmap = le32 bs off, inode_bitmap = le32 bs (off + 4), inode_table = le32 bs (off + 8), free_blocks_count = le16 bs (off + 12),
      free_inodes_count = le16 bs (off + 14), used_dirs_count = le16 bs (off + 16), gd_pad = le16 bs (off + 18),
      gd_reserved = bytes_from bs (off + 20) 12\<rparr>"

definition group_descriptor_bytes :: "ext2_group_descriptor \<Rightarrow> u8 list" where
  "group_descriptor_bytes d =
     concat [b32 (block_bitmap d), b32 (inode_bitmap d), b32 (inode_table d), b16 (free_blocks_count d), b16 (free_inodes_count d),
       b16 (used_dirs_count d), b16 (gd_pad d), gd_reserved d]"

record ext2_inode =
  mode :: u16
  uid :: u16
  size_low :: u32
  access_time :: u32
  creation_time :: u32
  modification_time :: u32
  deletion_time :: u32
  gid :: u16
  link_count :: u16
  inode_sectors :: u32
  inode_flags :: u32
  os_specific1 :: u32
  blocks :: "u32 list"
  generation :: u32
  file_ac1 :: u32
  size_high :: u32
  fragment_address :: u32
  os_specific2 :: "u8 list"

definition sizeof_inode :: u32 where [machine_consts]: "sizeof_inode = 128"

definition inode_of :: "u8 list \<Rightarrow> nat \<Rightarrow> ext2_inode" where
  "inode_of bs off =
     \<lparr>mode = le16 bs off, uid = le16 bs (off + 2), size_low = le32 bs (off + 4), access_time = le32 bs (off + 8),
      creation_time = le32 bs (off + 12), modification_time = le32 bs (off + 16), deletion_time = le32 bs (off + 20),
      gid = le16 bs (off + 24), link_count = le16 bs (off + 26), inode_sectors = le32 bs (off + 28), inode_flags = le32 bs (off + 32),
      os_specific1 = le32 bs (off + 36), blocks = map (\<lambda>i. le32 bs (off + 40 + 4 * i)) [0..<15], generation = le32 bs (off + 100),
      file_ac1 = le32 bs (off + 104), size_high = le32 bs (off + 108), fragment_address = le32 bs (off + 112),
      os_specific2 = bytes_from bs (off + 116) 12\<rparr>"

definition inode_bytes :: "ext2_inode \<Rightarrow> u8 list" where
  "inode_bytes i =
     concat [b16 (mode i), b16 (uid i), b32 (size_low i), b32 (access_time i), b32 (creation_time i), b32 (modification_time i),
       b32 (deletion_time i), b16 (gid i), b16 (link_count i), b32 (inode_sectors i), b32 (inode_flags i), b32 (os_specific1 i),
       concat (map b32 (blocks i)), b32 (generation i), b32 (file_ac1 i), b32 (size_high i), b32 (fragment_address i), os_specific2 i]"

record 's ext2_fs =
  fs_device :: "'s block_device option"
  superblock :: ext2_superblock
  root_vnode :: vid

definition is_directory :: "ext2_inode \<Rightarrow> bool" where
  "is_directory i \<longleftrightarrow> mode i AND EXT2_S_IFMT = EXT2_S_IFDIR"

definition is_regular :: "ext2_inode \<Rightarrow> bool" where
  "is_regular i \<longleftrightarrow> mode i AND EXT2_S_IFMT = EXT2_S_IFREG"

section \<open>Blocks\<close>

text \<open>\<open>1024u << log_block_size\<close>\<close>

definition block_size_of :: "ext2_superblock \<Rightarrow> u32 option" where
  "block_size_of sb = (if log_block_size sb < 32 then Some (push_bit (unat (log_block_size sb)) 1024) else None)"

text \<open>The driver fills the first \<open>n\<close> bytes of the buffer.\<close>

definition read_into :: "'s block_device option \<Rightarrow> u64 \<Rightarrow> u32 \<Rightarrow> nat \<Rightarrow> u8 list \<Rightarrow> 's \<Rightarrow> bool \<times> u8 list \<times> 's" where
  "read_into device lba count n buffer s =
     (let (r, b, s) = block_read device lba count (Some (take n buffer)) s
      in (r = 0, (case b of None \<Rightarrow> buffer | Some b \<Rightarrow> b @ drop n buffer), s))"

definition ext2_read_block :: "'s block_device option \<Rightarrow> u32 \<Rightarrow> u32 \<Rightarrow> u8 list \<Rightarrow> 's \<Rightarrow> (bool \<times> u8 list \<times> 's) option" where
  "ext2_read_block device bsize block_number buffer s =
     (case device of
        None \<Rightarrow> Some (False, buffer, s)
      | Some d \<Rightarrow>
          if bsize = 0 then Some (False, buffer, s)
          else do {
            rest \<leftarrow> checked_mod bsize (bd_sector_size d);
            if rest \<noteq> 0 then Some (False, buffer, s)
            else
              let sectors_per_block = bsize div bd_sector_size d;
                  lba = ucast block_number * ucast sectors_per_block
              in Some (read_into device lba sectors_per_block (unat bsize) buffer s)
          })"

definition ext2_write_block :: "'s block_device option \<Rightarrow> u32 \<Rightarrow> u32 \<Rightarrow> u8 list \<Rightarrow> 's \<Rightarrow> (bool \<times> 's) option" where
  "ext2_write_block device bsize block_number buffer s =
     (case device of
        None \<Rightarrow> Some (False, s)
      | Some d \<Rightarrow>
          if bd_write d = None then Some (False, s)
          else if bsize = 0 then Some (False, s)
          else do {
            rest \<leftarrow> checked_mod bsize (bd_sector_size d);
            if rest \<noteq> 0 then Some (False, s)
            else
              let sectors_per_block = bsize div bd_sector_size d;
                  lba = ucast block_number * ucast sectors_per_block;
                  (r, s) = block_write device lba sectors_per_block (Some (take (unat bsize) buffer)) s
              in Some (r = 0, s)
          })"

section \<open>The superblock\<close>

definition ext2_read_superblock :: "'s block_device option \<Rightarrow> ext2_superblock \<Rightarrow> 's \<Rightarrow> bool \<times> ext2_superblock \<times> 's" where
  "ext2_read_superblock device sb s =
     (case device of
        None \<Rightarrow> (False, sb, s)
      | Some d \<Rightarrow>
          if bd_sector_size d \<noteq> 512 then (False, sb, s)
          else
            let (ok, buffer, s) = read_into device 2 2 1024 (replicate 1024 0) s
            in if \<not> ok then (False, sb, s)
               else
                 let sb = superblock_of buffer
                 in if magic sb \<noteq> 0xEF53 then (False, sb, s) else (True, sb, s))"

definition ext2_write_superblock :: "'s block_device option \<Rightarrow> ext2_superblock \<Rightarrow> 's \<Rightarrow> bool \<times> 's" where
  "ext2_write_superblock device sb s =
     (case device of
        None \<Rightarrow> (False, s)
      | Some d \<Rightarrow>
          if bd_write d = None then (False, s)
          else
            let (ok, buffer, s) = read_into device 2 2 1024 (replicate 1024 0) s
            in if \<not> ok then (False, s)
               else
                 let (r, s) = block_write device 2 2 (Some (put_bytes (superblock_bytes sb) 0 buffer)) s
                 in (r = 0, s))"

section \<open>Group descriptors\<close>

text \<open>The block and the index of a descriptor; \<open>None\<close> when the code answers false.\<close>

definition descriptor_place :: "u32 \<Rightarrow> ext2_superblock \<Rightarrow> u32 \<Rightarrow> (u32 \<times> u32) option" where
  "descriptor_place bsize sb grp =
     (let descriptors_per_block = bsize div sizeof_group_descriptor
      in if descriptors_per_block = 0 then None
         else if bsize > 4096 then None
         else Some (first_data_block sb + 1 + grp div descriptors_per_block, grp mod descriptors_per_block))"

definition ext2_read_group_descriptor ::
  "'s block_device option \<Rightarrow> ext2_superblock \<Rightarrow> u32 \<Rightarrow> 's \<Rightarrow> (ext2_group_descriptor option \<times> 's) option" where
  "ext2_read_group_descriptor device sb grp s =
     (if device = None then Some (None, s)
      else do {
        bsize \<leftarrow> block_size_of sb;
        (case descriptor_place bsize sb grp of
           None \<Rightarrow> Some (None, s)
         | Some (descriptor_block, descriptor_index) \<Rightarrow> do {
             (ok, b, s) \<leftarrow> ext2_read_block device bsize descriptor_block block_buffer s;
             Some (if \<not> ok then None
                   else Some (group_descriptor_of b (unat descriptor_index * unat sizeof_group_descriptor)), s)
           })
      })"

definition ext2_write_group_descriptor ::
  "'s block_device option \<Rightarrow> ext2_superblock \<Rightarrow> u32 \<Rightarrow> ext2_group_descriptor \<Rightarrow> 's \<Rightarrow> (bool \<times> 's) option" where
  "ext2_write_group_descriptor device sb grp descriptor s =
     (if device = None then Some (False, s)
      else do {
        bsize \<leftarrow> block_size_of sb;
        (case descriptor_place bsize sb grp of
           None \<Rightarrow> Some (False, s)
         | Some (descriptor_block, descriptor_index) \<Rightarrow> do {
             (ok, b, s) \<leftarrow> ext2_read_block device bsize descriptor_block block_buffer s;
             if \<not> ok then Some (False, s)
             else ext2_write_block device bsize descriptor_block
                    (put_bytes (group_descriptor_bytes descriptor) (unat descriptor_index * unat sizeof_group_descriptor) b) s
           })
      })"

section \<open>Inodes\<close>

text \<open>The block and the offset of inode \<open>index\<close> of a group, when \<open>room\<close> bytes fit there.\<close>

definition inode_place ::
  "'s block_device option \<Rightarrow> ext2_superblock \<Rightarrow> u32 \<Rightarrow> u32 \<Rightarrow> u32 \<Rightarrow> u32 \<Rightarrow> 's \<Rightarrow> ((u32 \<times> u32) option \<times> 's) option" where
  "inode_place device sb bsize grp index room s =
     do {
       (descriptor, s) \<leftarrow> ext2_read_group_descriptor device sb grp s;
       (case descriptor of
          None \<Rightarrow> Some (None, s)
        | Some d \<Rightarrow>
            let byte_offset = (ucast index * ucast (inode_size sb) :: u64);
                block_number = inode_table d + ucast (byte_offset div ucast bsize);
                offset_in_block = ucast (byte_offset mod ucast bsize)
            in if ucast offset_in_block + ucast room > (ucast bsize :: u64) then Some (None, s)
               else Some (Some (block_number, offset_in_block), s))
     }"

definition ext2_read_inode :: "'s block_device option \<Rightarrow> ext2_superblock \<Rightarrow> u32 \<Rightarrow> 's \<Rightarrow> (ext2_inode option \<times> 's) option" where
  "ext2_read_inode device sb inode_number s =
     (if device = None then Some (None, s)
      else if inode_number = 0 \<or> inode_number > inode_count sb then Some (None, s)
      else do {
        bsize \<leftarrow> block_size_of sb;
        let inode_index = inode_number - 1;
        grp \<leftarrow> checked_div inode_index (inodes_per_group sb);
        let index_in_group = ucast (ucast (inode_index mod inodes_per_group sb) :: u16);
        (place, s) \<leftarrow> inode_place device sb bsize grp index_in_group sizeof_inode s;
        (case place of
           None \<Rightarrow> Some (None, s)
         | Some (block_number, offset_in_block) \<Rightarrow>
             if bsize > 4096 then Some (None, s)
             else do {
               (ok, b, s) \<leftarrow> ext2_read_block device bsize block_number block_buffer s;
               Some (if \<not> ok then None else Some (inode_of b (unat offset_in_block)), s)
             })
      })"

definition ext2_write_inode :: "'s block_device option \<Rightarrow> ext2_superblock \<Rightarrow> u32 \<Rightarrow> ext2_inode \<Rightarrow> 's \<Rightarrow> (bool \<times> 's) option" where
  "ext2_write_inode device sb inode_number ino s =
     (if device = None then Some (False, s)
      else if inode_number = 0 \<or> inode_number > inode_count sb then Some (False, s)
      else do {
        bsize \<leftarrow> block_size_of sb;
        if bsize > 4096 then Some (False, s)
        else do {
          let inode_index = inode_number - 1;
          grp \<leftarrow> checked_div inode_index (inodes_per_group sb);
          let index_in_group = inode_index mod inodes_per_group sb;
          (place, s) \<leftarrow> inode_place device sb bsize grp index_in_group sizeof_inode s;
          (case place of
             None \<Rightarrow> Some (False, s)
           | Some (block_number, offset_in_block) \<Rightarrow> do {
               (ok, b, s) \<leftarrow> ext2_read_block device bsize block_number block_buffer s;
               if \<not> ok then Some (False, s)
               else ext2_write_block device bsize block_number (put_bytes (inode_bytes ino) (unat offset_in_block) b) s
             })
        }
      })"

definition ext2_initialize_new_inode :: "'s ext2_fs \<Rightarrow> u32 \<Rightarrow> u16 \<Rightarrow> 's \<Rightarrow> (bool \<times> 's) option" where
  "ext2_initialize_new_inode fs inode_number m s =
     (let sb = superblock fs
      in if fs_device fs = None then Some (False, s)
         else if inode_number = 0 \<or> inode_number > inode_count sb then Some (False, s)
         else do {
           bsize \<leftarrow> block_size_of sb;
           if bsize = 0 \<or> bsize > 4096 then Some (False, s)
           else if ucast (inode_size sb) < sizeof_inode \<or> ucast (inode_size sb) > bsize then Some (False, s)
           else do {
             let inode_index = inode_number - 1;
             grp \<leftarrow> checked_div inode_index (inodes_per_group sb);
             let index_in_group = inode_index mod inodes_per_group sb;
             (place, s) \<leftarrow> inode_place (fs_device fs) sb bsize grp index_in_group (ucast (inode_size sb)) s;
             (case place of
                None \<Rightarrow> Some (False, s)
              | Some (block_number, offset_in_block) \<Rightarrow> do {
                  (ok, b, s) \<leftarrow> ext2_read_block (fs_device fs) bsize block_number block_buffer s;
                  if \<not> ok then Some (False, s)
                  else
                    let off = unat offset_in_block;
                        b = put_bytes (replicate (unat (inode_size sb)) 0) off b;
                        ino = (inode_of b off)\<lparr>mode := m, uid := 0, gid := 0, size_low := 0, size_high := 0, link_count := 0, inode_sectors := 0\<rparr>
                    in ext2_write_block (fs_device fs) bsize block_number (put_bytes (inode_bytes ino) off b) s
                })
           }
         })"

section \<open>Allocating inodes\<close>

text \<open>Bit \<open>bit\<close> of a bitmap in a local buffer of 4096 bytes.\<close>

definition bit_mask :: "u32 \<Rightarrow> u8" where
  "bit_mask i = push_bit (unat (i mod 8)) 1"

definition bitmap_get :: "u8 list \<Rightarrow> u32 \<Rightarrow> bool option" where
  "bitmap_get bitmap i = (if i div 8 \<ge> 4096 then None else Some (byte_at bitmap (unat (i div 8)) AND bit_mask i \<noteq> 0))"

definition bitmap_set :: "u8 list \<Rightarrow> u32 \<Rightarrow> u8 list" where
  "bitmap_set bitmap i = put_bytes [byte_at bitmap (unat (i div 8)) OR bit_mask i] (unat (i div 8)) bitmap"

definition bitmap_clear :: "u8 list \<Rightarrow> u32 \<Rightarrow> u8 list" where
  "bitmap_clear bitmap i = put_bytes [byte_at bitmap (unat (i div 8)) AND NOT (bit_mask i)] (unat (i div 8)) bitmap"

definition first_usable_inode :: "ext2_superblock \<Rightarrow> u32" where
  "first_usable_inode sb = (if revision_level sb = 0 then 11 else first_non_reserved_inode sb)"

text \<open>The first clear bit of a group whose inode is not reserved.\<close>

function free_inode_bit :: "ext2_superblock \<Rightarrow> u8 list \<Rightarrow> u32 \<Rightarrow> u32 \<Rightarrow> u32 \<Rightarrow> u32 option option" where
  "free_inode_bit sb bitmap first_inode_index inodes_in_group i =
     (if i < inodes_in_group then
        if first_inode_index + i + 1 < first_usable_inode sb then free_inode_bit sb bitmap first_inode_index inodes_in_group (i + 1)
        else do {
          used \<leftarrow> bitmap_get bitmap i;
          if used then free_inode_bit sb bitmap first_inode_index inodes_in_group (i + 1) else Some (Some i)
        }
      else Some None)"
  by auto
termination
  by (relation "measure (\<lambda>(_, _, _, n, i). unat n - unat i)") (auto simp: word_less_nat_alt unat_inc_u32)

declare free_inode_bit.simps [simp del]

text \<open>The bit is marked and the counters follow, each write after the last one succeeded.\<close>

definition claim_inode :: "'s ext2_fs \<Rightarrow> u16 \<Rightarrow> u32 \<Rightarrow> u32 \<Rightarrow> ext2_group_descriptor \<Rightarrow> u8 list \<Rightarrow> u32 \<Rightarrow> u32 \<Rightarrow> 's \<Rightarrow>
    (u32 option \<times> 's ext2_fs \<times> 's) option" where
  "claim_inode fs m bsize grp descriptor bitmap i candidate s =
     do {
       (ok, s) \<leftarrow> ext2_initialize_new_inode fs candidate m s;
       if \<not> ok then Some (None, fs, s)
       else do {
         (ok, s) \<leftarrow> ext2_write_block (fs_device fs) bsize (inode_bitmap descriptor) (bitmap_set bitmap i) s;
         if \<not> ok then Some (None, fs, s)
         else do {
           let descriptor = descriptor\<lparr>free_inodes_count := free_inodes_count descriptor - 1\<rparr>;
           (ok, s) \<leftarrow> ext2_write_group_descriptor (fs_device fs) (superblock fs) grp descriptor s;
           if \<not> ok then Some (None, fs, s)
           else
             let sb = superblock fs;
                 fs = fs\<lparr>superblock := sb\<lparr>free_inode_count := free_inode_count sb - 1\<rparr>\<rparr>;
                 (ok, s) = ext2_write_superblock (fs_device fs) (superblock fs) s
             in Some (if \<not> ok then None else Some candidate, fs, s)
         }
       }
     }"

function inode_group_loop :: "u16 \<Rightarrow> u32 \<Rightarrow> u32 \<Rightarrow> u32 \<Rightarrow> 's ext2_fs \<Rightarrow> 's \<Rightarrow> (u32 option \<times> 's ext2_fs \<times> 's) option" where
  "inode_group_loop m bsize group_count grp fs s =
     (if grp < group_count then
        do {
          let sb = superblock fs;
          (descriptor, s) \<leftarrow> ext2_read_group_descriptor (fs_device fs) sb grp s;
          (case descriptor of
             None \<Rightarrow> Some (None, fs, s)
           | Some d \<Rightarrow>
               if free_inodes_count d = 0 then inode_group_loop m bsize group_count (grp + 1) fs s
               else do {
                 (ok, bitmap, s) \<leftarrow> ext2_read_block (fs_device fs) bsize (inode_bitmap d) block_buffer s;
                 if \<not> ok then Some (None, fs, s)
                 else do {
                   let first_inode_index = grp * inodes_per_group sb;
                   let inodes_in_group = (if first_inode_index + inodes_per_group sb > inode_count sb
                                          then inode_count sb - first_inode_index else inodes_per_group sb);
                   found \<leftarrow> free_inode_bit sb bitmap first_inode_index inodes_in_group 0;
                   (case found of
                      None \<Rightarrow> inode_group_loop m bsize group_count (grp + 1) fs s
                    | Some i \<Rightarrow> claim_inode fs m bsize grp d bitmap i (first_inode_index + i + 1) s)
                 }
               })
        }
      else Some (None, fs, s))"
  by auto
termination
  by (relation "measure (\<lambda>(_, _, n, i, _). unat n - unat i)") (auto simp: word_less_nat_alt unat_inc_u32)

declare inode_group_loop.simps [simp del]

definition ext2_allocate_inode_with_mode :: "'s ext2_fs \<Rightarrow> u16 \<Rightarrow> 's \<Rightarrow> (u32 option \<times> 's ext2_fs \<times> 's) option" where
  "ext2_allocate_inode_with_mode fs m s =
     (let sb = superblock fs
      in if fs_device fs = None then Some (None, fs, s)
         else if inode_count sb = 0 \<or> inodes_per_group sb = 0 \<or> free_inode_count sb = 0 then Some (None, fs, s)
         else do {
           bsize \<leftarrow> block_size_of sb;
           if bsize = 0 \<or> bsize > 4096 then Some (None, fs, s)
           else inode_group_loop m bsize ((inode_count sb + inodes_per_group sb - 1) div inodes_per_group sb) 0 fs s
         })"

definition ext2_allocate_inode :: "'s ext2_fs \<Rightarrow> 's \<Rightarrow> (u32 option \<times> 's ext2_fs \<times> 's) option" where
  "ext2_allocate_inode fs s = ext2_allocate_inode_with_mode fs (EXT2_S_IFREG OR 0x1A4) s"

end
