(* ===== verification/Ext2Map.thy ===== *)
theory Ext2Map
  imports Ext2
begin

text \<open>
  From the blocks of a file to the blocks of the disk, \<open>kernel/fs/ext2.c\<close>: the cache of indirect tables, the
  mapping with and without allocation, the allocation of blocks through a context that defers the writes,
  and reading a file. An indirect table is kept as its bytes, entry \<open>i\<close> at byte \<open>4 * i\<close>.
\<close>

section \<open>The cache of indirect tables\<close>

text \<open>The four fields of the struct with the prefix \<open>single_\<close>, \<open>double_root_\<close> or \<open>double_leaf_\<close>.\<close>

record table_slot =
  slot_valid :: bool
  slot_dirty :: bool
  slot_number :: u32
  slot_entries :: "u8 list"

record ext2_block_cache =
  single :: table_slot
  double_root :: table_slot
  double_leaf :: table_slot

definition empty_slot :: table_slot where
  "empty_slot = \<lparr>slot_valid = False, slot_dirty = False, slot_number = 0, slot_entries = replicate 4096 0\<rparr>"

definition empty_cache :: ext2_block_cache where
  "empty_cache = \<lparr>single = empty_slot, double_root = empty_slot, double_leaf = empty_slot\<rparr>"

definition table_entry :: "table_slot \<Rightarrow> u32 \<Rightarrow> u32" where
  "table_entry t i = le32 (slot_entries t) (4 * unat i)"

definition set_table_entry :: "u32 \<Rightarrow> u32 \<Rightarrow> table_slot \<Rightarrow> table_slot" where
  "set_table_entry i v t = t\<lparr>slot_entries := put_bytes (b32 v) (4 * unat i) (slot_entries t)\<rparr>"

definition clear_table_entries :: "u32 \<Rightarrow> table_slot \<Rightarrow> table_slot" where
  "clear_table_entries bsize t = t\<lparr>slot_entries := put_bytes (replicate (unat bsize) 0) 0 (slot_entries t)\<rparr>"

text \<open>A failed read may leave other bytes in the table under its old number.\<close>

definition load_table :: "'s block_device option \<Rightarrow> u32 \<Rightarrow> u32 \<Rightarrow> table_slot \<Rightarrow> 's \<Rightarrow> (bool \<times> table_slot \<times> 's) option" where
  "load_table device bsize number t s =
     do {
       (ok, b, s) \<leftarrow> ext2_read_block device bsize number (slot_entries t) s;
       let t = t\<lparr>slot_entries := b\<rparr>;
       Some (if ok then (True, t\<lparr>slot_number := number, slot_valid := True\<rparr>, s) else (False, t, s))
     }"

definition flush_table :: "'s block_device option \<Rightarrow> u32 \<Rightarrow> table_slot \<Rightarrow> 's \<Rightarrow> (bool \<times> table_slot \<times> 's) option" where
  "flush_table device bsize t s =
     (if slot_valid t \<and> slot_dirty t then
        do {
          (ok, s) \<leftarrow> ext2_write_block device bsize (slot_number t) (slot_entries t) s;
          Some (if ok then (True, t\<lparr>slot_dirty := False\<rparr>, s) else (False, t, s))
        }
      else Some (True, t, s))"

definition ext2_flush_block_cache :: "'s ext2_fs \<Rightarrow> ext2_block_cache \<Rightarrow> 's \<Rightarrow> (bool \<times> ext2_block_cache \<times> 's) option" where
  "ext2_flush_block_cache fs cache s =
     do {
       bsize \<leftarrow> block_size_of (superblock fs);
       (ok, t, s) \<leftarrow> flush_table (fs_device fs) bsize (single cache) s;
       let cache = cache\<lparr>single := t\<rparr>;
       if \<not> ok then Some (False, cache, s)
       else do {
         (ok, t, s) \<leftarrow> flush_table (fs_device fs) bsize (double_leaf cache) s;
         let cache = cache\<lparr>double_leaf := t\<rparr>;
         if \<not> ok then Some (False, cache, s)
         else do {
           (ok, t, s) \<leftarrow> flush_table (fs_device fs) bsize (double_root cache) s;
           Some (ok, cache\<lparr>double_root := t\<rparr>, s)
         }
       }
     }"

section \<open>Mapping without allocation\<close>

definition single_data_block ::
  "'s block_device option \<Rightarrow> u32 \<Rightarrow> ext2_inode \<Rightarrow> u32 \<Rightarrow> ext2_block_cache \<Rightarrow> 's \<Rightarrow> (u32 option \<times> ext2_block_cache \<times> 's) option" where
  "single_data_block device bsize ino index cache s =
     (let indirect_block = blocks ino ! 12
      in if indirect_block = 0 then Some (Some 0, cache, s)
         else do {
           (ok, t, s) \<leftarrow> (if \<not> slot_valid (single cache) \<or> slot_number (single cache) \<noteq> indirect_block
                          then load_table device bsize indirect_block (single cache) s else Some (True, single cache, s));
           let cache = cache\<lparr>single := t\<rparr>;
           Some (if ok then Some (table_entry t index) else None, cache, s)
         })"

definition double_data_block ::
  "'s block_device option \<Rightarrow> u32 \<Rightarrow> ext2_inode \<Rightarrow> u32 \<Rightarrow> u32 \<Rightarrow> ext2_block_cache \<Rightarrow> 's \<Rightarrow> (u32 option \<times> ext2_block_cache \<times> 's) option" where
  "double_data_block device bsize ino first_level_index second_level_index cache s =
     (let root_block = blocks ino ! 13
      in if root_block = 0 then Some (Some 0, cache, s)
         else do {
           (ok, cache, s) \<leftarrow> (if \<not> slot_valid (double_root cache) \<or> slot_number (double_root cache) \<noteq> root_block
             then do {
               (ok, t, s) \<leftarrow> load_table device bsize root_block (double_root cache) s;
               let cache = cache\<lparr>double_root := t\<rparr>;
               Some (ok, if ok then cache\<lparr>double_leaf := (double_leaf cache)\<lparr>slot_valid := False\<rparr>\<rparr> else cache, s)
             }
             else Some (True, cache, s));
           if \<not> ok then Some (None, cache, s)
           else
             let leaf_block = table_entry (double_root cache) first_level_index
             in if leaf_block = 0 then Some (Some 0, cache, s)
                else do {
                  (ok, t, s) \<leftarrow> (if \<not> slot_valid (double_leaf cache) \<or> slot_number (double_leaf cache) \<noteq> leaf_block
                                 then load_table device bsize leaf_block (double_leaf cache) s else Some (True, double_leaf cache, s));
                  let cache = cache\<lparr>double_leaf := t\<rparr>;
                  Some (if ok then Some (table_entry t second_level_index) else None, cache, s)
                }
         })"

definition ext2_get_data_block ::
  "'s block_device option \<Rightarrow> ext2_superblock \<Rightarrow> ext2_inode \<Rightarrow> u32 \<Rightarrow> ext2_block_cache \<Rightarrow> 's \<Rightarrow>
    (u32 option \<times> ext2_block_cache \<times> 's) option" where
  "ext2_get_data_block device sb ino logical_block cache s =
     (if device = None then Some (None, cache, s)
      else if logical_block < 12 then Some (Some (blocks ino ! unat logical_block), cache, s)
      else do {
        bsize \<leftarrow> block_size_of sb;
        if bsize > 4096 then Some (None, cache, s)
        else
          let entries_per_block = bsize div 4
          in if entries_per_block = 0 then Some (None, cache, s)
             else
               let index = logical_block - 12
               in if index < entries_per_block then single_data_block device bsize ino index cache s
                  else
                    let index = index - entries_per_block;
                        double_capacity = ucast entries_per_block * ucast entries_per_block :: u64
                    in if ucast index < double_capacity
                       then double_data_block device bsize ino (index div entries_per_block) (index mod entries_per_block) cache s
                       else Some (None, cache, s)
      })"

section \<open>Reading a file\<close>

definition EXT2_MAX_READ_RUN_BLOCKS :: u32 where [machine_consts]: "EXT2_MAX_READ_RUN_BLOCKS = 16"
definition sizeof_block_cache :: u32 where [machine_consts]: "sizeof_block_cache = 12312"

text \<open>How many of the next blocks follow each other on the disk; \<open>None\<close> when the mapping fails.\<close>

function read_run_loop ::
  "'s block_device option \<Rightarrow> ext2_superblock \<Rightarrow> ext2_inode \<Rightarrow> u32 \<Rightarrow> u32 \<Rightarrow> u32 \<Rightarrow> u32 \<Rightarrow> ext2_block_cache \<Rightarrow> 's \<Rightarrow>
    (u32 option \<times> ext2_block_cache \<times> 's) option" where
  "read_run_loop device sb ino logical_block block_number max_blocks run_blocks cache s =
     (if run_blocks < max_blocks then
        do {
          (n, cache, s) \<leftarrow> ext2_get_data_block device sb ino (logical_block + run_blocks) cache s;
          (case n of
             None \<Rightarrow> Some (None, cache, s)
           | Some next_block_number \<Rightarrow>
               if next_block_number = 0 then Some (Some run_blocks, cache, s)
               else if next_block_number \<noteq> block_number + run_blocks then Some (Some run_blocks, cache, s)
               else read_run_loop device sb ino logical_block block_number max_blocks (run_blocks + 1) cache s)
        }
      else Some (Some run_blocks, cache, s))"
  by auto
termination
  by (relation "measure (\<lambda>(_, _, _, _, _, n, i, _). unat n - unat i)") (auto simp: word_less_nat_alt unat_inc_u32)

declare read_run_loop.simps [simp del]

text \<open>\<open>total\<close> bytes have been read so far, \<open>acc\<close>; the result is \<open>None\<close> for a failure.\<close>

partial_function (option) read_file_loop ::
  "'s block_device option \<Rightarrow> ext2_superblock \<Rightarrow> ext2_inode \<Rightarrow> u32 \<Rightarrow> u32 \<Rightarrow> u32 \<Rightarrow> u32 \<Rightarrow> u8 list \<Rightarrow> ext2_block_cache \<Rightarrow> 's \<Rightarrow>
    ((u32 \<times> u8 list) option \<times> ext2_block_cache \<times> 's) option" where
  "read_file_loop device sb ino bsize offset wanted done_bytes acc cache s =
     (if done_bytes < wanted then
        do {
          let file_offset = offset + done_bytes;
          logical_block \<leftarrow> checked_div file_offset bsize;
          let offset_in_block = file_offset mod bsize;
          (n, cache, s) \<leftarrow> ext2_get_data_block device sb ino logical_block cache s;
          (case n of
             None \<Rightarrow> Some (None, cache, s)
           | Some block_number \<Rightarrow>
               if block_number = 0 then Some (Some (done_bytes, acc), cache, s)
               else
                 let remaining = wanted - done_bytes
                 in if offset_in_block = 0 \<and> remaining \<ge> bsize then
                      do {
                        let max_blocks = remaining div bsize;
                        let max_blocks = (if max_blocks > EXT2_MAX_READ_RUN_BLOCKS then EXT2_MAX_READ_RUN_BLOCKS else max_blocks);
                        (run, cache, s) \<leftarrow> read_run_loop device sb ino logical_block block_number max_blocks 1 cache s;
                        (case (run, device) of
                           (Some run_blocks, Some d) \<Rightarrow> do {
                             sectors_per_block \<leftarrow> checked_div bsize (bd_sector_size d);
                             let lba = ucast block_number * ucast sectors_per_block;
                             let len = run_blocks * bsize;
                             let (ok, b, s) = read_into device lba (run_blocks * sectors_per_block) (unat len) (replicate (unat len) 0) s;
                             if \<not> ok then Some (None, cache, s)
                             else read_file_loop device sb ino bsize offset wanted (done_bytes + len) (acc @ b) cache s
                           }
                         | _ \<Rightarrow> Some (None, cache, s))
                      }
                    else
                      do {
                        (ok, b, s) \<leftarrow> ext2_read_block device bsize block_number block_buffer s;
                        if \<not> ok then Some (None, cache, s)
                        else
                          let chunk = bsize - offset_in_block;
                              chunk = (if chunk > remaining then remaining else chunk)
                          in read_file_loop device sb ino bsize offset wanted (done_bytes + chunk)
                               (acc @ bytes_from b (unat offset_in_block) (unat chunk)) cache s
                      })
        }
      else Some (Some (done_bytes, acc), cache, s))"

text \<open>The bytes read, and their count.\<close>

definition ext2_read_file_cached ::
  "'s block_device option \<Rightarrow> ext2_superblock \<Rightarrow> ext2_inode \<Rightarrow> u32 \<Rightarrow> u32 \<Rightarrow> ext2_block_cache \<Rightarrow> 's \<Rightarrow>
    ((u32 \<times> u8 list) option \<times> ext2_block_cache \<times> 's) option" where
  "ext2_read_file_cached device sb ino offset buffer_size cache s =
     (if device = None then Some (None, cache, s)
      else if \<not> is_regular ino then Some (None, cache, s)
      else do {
        bsize \<leftarrow> block_size_of sb;
        if bsize > 4096 then Some (None, cache, s)
        else if offset \<ge> size_low ino then Some (Some (0, []), cache, s)
        else
          let available = size_low ino - offset;
              wanted = (if buffer_size < available then buffer_size else available)
          in read_file_loop device sb ino bsize offset wanted 0 [] cache s
      })"

text \<open>The heap is part of the state.\<close>

definition ext2_read_file ::
  "'s block_device option \<Rightarrow> ext2_superblock \<Rightarrow> ext2_inode \<Rightarrow> u32 \<Rightarrow> u32 \<Rightarrow> heap \<times> 's \<Rightarrow> ((u32 \<times> u8 list) option \<times> heap \<times> 's) option" where
  "ext2_read_file device sb ino offset buffer_size hs =
     (if device = None then Some (None, hs)
      else do {
        (cache, h) \<leftarrow> kmalloc sizeof_block_cache (fst hs);
        (case cache of
           None \<Rightarrow> Some (None, h, snd hs)
         | Some a \<Rightarrow> do {
             (result, _, s) \<leftarrow> ext2_read_file_cached device sb ino offset buffer_size empty_cache (snd hs);
             Some (result, kfree (Some a) h, s)
           })
      })"

end
