(* ===== verification/Ext2Read.thy ===== *)
theory Ext2Read
  imports Ext2Map
begin

text \<open>
  Reading a file through the cache of indirect tables, with runs of consecutive blocks in one transfer,
  equals cutting the bytes out of the blocks that the inode maps.
\<close>

section \<open>Blocks of a disk image\<close>

text \<open>Block \<open>n\<close> of a disk with the sectors \<open>content\<close>, for blocks of \<open>k\<close> bytes.\<close>

definition disk_block :: "(nat \<Rightarrow> u8 list) \<Rightarrow> nat \<Rightarrow> u32 \<Rightarrow> u8 list" where
  "disk_block content k n = concat (map content [unat n * (k div 512)..<unat n * (k div 512) + k div 512])"

definition inside :: "'s block_device \<Rightarrow> nat \<Rightarrow> u32 \<Rightarrow> bool" where
  "inside d k n \<longleftrightarrow> (unat n + 1) * (k div 512) \<le> unat (bd_sector_count d)"

definition block_size_ok :: "u32 \<Rightarrow> bool" where
  "block_size_ok bsize \<longleftrightarrow> unat bsize mod 512 = 0 \<and> 0 < unat bsize \<and> unat bsize \<le> 4096"

lemma concat_sectors: "\<forall>i. length (content i) = 512 \<Longrightarrow> length (concat (map content xs)) = 512 * length xs"
  by (induction xs) auto

lemma length_disk_block:
  assumes "disk_serves d content" "k mod 512 = 0"
  shows "length (disk_block content k n) = k"
  using assms by (auto simp: disk_block_def disk_serves_def concat_sectors)

lemma block_size_sectors:
  assumes "block_size_ok bsize"
  shows "unat (bsize div 512) = unat bsize div 512" "bsize mod 512 = 0" "0 < unat bsize div 512" "unat bsize div 512 \<le> 8"
    "unat bsize = 512 * (unat bsize div 512)"
proof -
  show "unat (bsize div 512) = unat bsize div 512" by (simp add: u32_div_unat)
  have "unat (bsize mod 512) = 0" using assms by (simp add: block_size_ok_def u32_mod_unat)
  then show "bsize mod 512 = 0" by (simp add: unat_eq_0)
  show "unat bsize = 512 * (unat bsize div 512)" "0 < unat bsize div 512" "unat bsize div 512 \<le> 8"
    using assms by (auto simp: block_size_ok_def)
qed

text \<open>A transfer of \<open>r\<close> blocks from block \<open>n\<close> on.\<close>

lemma read_into_serves:
  assumes d: "disk_serves d content" and lba: "unat lba + unat count \<le> unat (bd_sector_count d)" and c: "count \<noteq> 0"
    and k: "k = 512 * unat count" "k \<le> length buf"
  shows "read_into (Some d) lba count k buf s =
    (True, concat (map content [unat lba..<unat lba + unat count]) @ drop k buf, s)"
proof -
  obtain rd where rd: "bd_read d = Some rd"
      "\<And>lba count b s. unat lba + unat count \<le> unat (bd_sector_count d) \<Longrightarrow>
          rd lba count b s = (0, concat (map content [unat lba..<unat lba + unat count]), s)"
      and ss: "bd_sector_size d = 512"
    using d unfolding disk_serves_def by metis
  have "block_read (Some d) lba count (Some b) s = (0, Some (concat (map content [unat lba..<unat lba + unat count])), s)" for b
    using c rd(1) rd(2) [OF lba] ss lba by (simp add: block_read_eq)
  then show ?thesis by (simp add: read_into_def)
qed

lemma block_lba:
  assumes "block_size_ok bsize"
  shows "unat (ucast (n :: u32) * ucast (bsize div 512) :: u64) = unat n * (unat bsize div 512)"
proof -
  note b = block_size_sectors [OF assms]
  have "unat n * (unat bsize div 512) \<le> 4294967295 * 8" by (intro mult_le_mono unat_u32_le b(4))
  then show ?thesis by (subst unat_mult_u64) (simp_all add: unat_ucast_u64 b(1))
qed

lemma ext2_read_block_serves:
  assumes d: "disk_serves d content" and b: "block_size_ok bsize" and i: "inside d (unat bsize) n" and l: "unat bsize \<le> length buf"
  shows "ext2_read_block (Some d) bsize n buf s = Some (True, disk_block content (unat bsize) n @ drop (unat bsize) buf, s)"
proof -
  note bs = block_size_sectors [OF b]
  have ss: "bd_sector_size d = 512" using d by (simp add: disk_serves_def)
  have "bsize \<noteq> 0" "bsize div 512 \<noteq> 0" using b bs(1,3) by (auto simp: block_size_ok_def)
  moreover have "read_into (Some d) (ucast n * ucast (bsize div 512)) (bsize div 512) (unat bsize) buf s =
      (True, disk_block content (unat bsize) n @ drop (unat bsize) buf, s)"
    using i bs(1,5) \<open>bsize div 512 \<noteq> 0\<close> l
    by (subst read_into_serves [OF d]) (simp_all add: block_lba [OF b] inside_def disk_block_def)
  ultimately show ?thesis using bs(2) by (simp add: ext2_read_block_def ss checked_mod_def)
qed

section \<open>The reference mapping\<close>

definition entry_of :: "u8 list \<Rightarrow> nat \<Rightarrow> u32" where
  "entry_of b i = le32 b (4 * i)"

text \<open>The block behind logical block \<open>l\<close>, 0 for a hole, \<open>None\<close> beyond the double-indirect blocks.\<close>

definition file_block :: "(u32 \<Rightarrow> u8 list) \<Rightarrow> nat \<Rightarrow> ext2_inode \<Rightarrow> nat \<Rightarrow> u32 option" where
  "file_block blk n ino l =
     (if l < 12 then Some (blocks ino ! l)
      else if l - 12 < n then Some (if blocks ino ! 12 = 0 then 0 else entry_of (blk (blocks ino ! 12)) (l - 12))
      else if l - 12 - n < n * n then
        let k = l - 12 - n;
            leaf = (if blocks ino ! 13 = 0 then 0 else entry_of (blk (blocks ino ! 13)) (k div n))
        in Some (if leaf = 0 then 0 else entry_of (blk leaf) (k mod n))
      else None)"

definition tables_inside :: "'s block_device \<Rightarrow> (nat \<Rightarrow> u8 list) \<Rightarrow> nat \<Rightarrow> ext2_inode \<Rightarrow> bool" where
  "tables_inside d content k ino \<longleftrightarrow>
     (blocks ino ! 12 \<noteq> 0 \<longrightarrow> inside d k (blocks ino ! 12)) \<and>
     (blocks ino ! 13 \<noteq> 0 \<longrightarrow> inside d k (blocks ino ! 13) \<and>
        (\<forall>i < k div 4. let leaf = entry_of (disk_block content k (blocks ino ! 13)) i in leaf \<noteq> 0 \<longrightarrow> inside d k leaf))"

text \<open>Every valid table of the cache shows the block of its number.\<close>

definition slot_shows :: "(nat \<Rightarrow> u8 list) \<Rightarrow> nat \<Rightarrow> table_slot \<Rightarrow> bool" where
  "slot_shows content k t \<longleftrightarrow> k \<le> length (slot_entries t) \<and>
     (slot_valid t \<longrightarrow> take k (slot_entries t) = disk_block content k (slot_number t))"

definition cache_shows :: "(nat \<Rightarrow> u8 list) \<Rightarrow> nat \<Rightarrow> ext2_block_cache \<Rightarrow> bool" where
  "cache_shows content k c \<longleftrightarrow> slot_shows content k (single c) \<and> slot_shows content k (double_root c) \<and> slot_shows content k (double_leaf c)"

lemma empty_cache_shows: "k \<le> 4096 \<Longrightarrow> cache_shows content k empty_cache"
  by (simp add: cache_shows_def slot_shows_def empty_cache_def empty_slot_def)

lemma byte_at_take: "i < n \<Longrightarrow> byte_at (take n bs) i = byte_at bs i"
  by (simp add: byte_at_def)

lemma table_entry_shows:
  assumes "slot_shows content k t" "slot_valid t" "4 * unat i + 3 < k"
  shows "table_entry t i = entry_of (disk_block content k (slot_number t)) (unat i)"
proof -
  have "entry_of (disk_block content k (slot_number t)) (unat i) = le32 (take k (slot_entries t)) (4 * unat i)"
    using assms(1,2) by (simp add: entry_of_def slot_shows_def)
  also have "\<dots> = le32 (slot_entries t) (4 * unat i)" using assms(3) by (simp add: le32_def byte_at_take)
  finally show ?thesis by (simp add: table_entry_def)
qed

lemma load_table_serves:
  assumes "disk_serves d content" "block_size_ok bsize" "inside d (unat bsize) n" "slot_shows content (unat bsize) t"
  shows "\<exists>t'. load_table (Some d) bsize n t s = Some (True, t', s) \<and> slot_shows content (unat bsize) t' \<and> slot_valid t' \<and> slot_number t' = n"
proof -
  have l: "unat bsize \<le> length (slot_entries t)" using assms(4) by (simp add: slot_shows_def)
  have "length (disk_block content (unat bsize) n) = unat bsize"
    using assms(2) by (intro length_disk_block [OF assms(1)]) (simp add: block_size_ok_def)
  then show ?thesis
    unfolding load_table_def ext2_read_block_serves [OF assms(1-3) l] using l by (simp add: slot_shows_def Let_def)
qed

text \<open>A slot that is loaded unless it already holds the table.\<close>

lemma cached_table:
  assumes "disk_serves d content" "block_size_ok bsize" "inside d (unat bsize) n" "slot_shows content (unat bsize) t"
  shows "\<exists>t'. (if \<not> slot_valid t \<or> slot_number t \<noteq> n then load_table (Some d) bsize n t s else Some (True, t, s)) = Some (True, t', s) \<and>
    slot_shows content (unat bsize) t' \<and> slot_valid t' \<and> slot_number t' = n"
  using load_table_serves [OF assms] assms(4) by auto

lemma single_serves:
  assumes d: "disk_serves d content" "block_size_ok bsize" "tables_inside d content (unat bsize) ino" "cache_shows content (unat bsize) c"
    and i: "unat i < unat bsize div 4"
  shows "\<exists>c'. single_data_block (Some d) bsize ino i c s =
      Some (Some (if blocks ino ! 12 = 0 then 0 else entry_of (disk_block content (unat bsize) (blocks ino ! 12)) (unat i)), c', s) \<and>
    cache_shows content (unat bsize) c'"
proof (cases "blocks ino ! 12 = 0")
  case True
  then show ?thesis using d(4) by (simp add: single_data_block_def)
next
  case False
  let ?n = "blocks ino ! 12"
  have "inside d (unat bsize) ?n" "slot_shows content (unat bsize) (single c)" using False d(3,4) by (simp_all add: tables_inside_def cache_shows_def)
  from cached_table [OF d(1,2) this] obtain t where t:
      "(if \<not> slot_valid (single c) \<or> slot_number (single c) \<noteq> ?n then load_table (Some d) bsize ?n (single c) s else Some (True, single c, s)) = Some (True, t, s)"
      "slot_shows content (unat bsize) t" "slot_valid t" "slot_number t = ?n" by blast
  have "4 * unat i + 3 < unat bsize" using i by linarith
  then have "table_entry t i = entry_of (disk_block content (unat bsize) ?n) (unat i)" using table_entry_shows [OF t(2,3)] t(4) by simp
  then show ?thesis using False d(4) t(2) unfolding single_data_block_def Let_def t(1) by (simp add: cache_shows_def)
qed

lemma double_serves:
  assumes d: "disk_serves d content" "block_size_ok bsize" "tables_inside d content (unat bsize) ino" "cache_shows content (unat bsize) c"
    and i: "unat i < unat bsize div 4" and j: "unat j < unat bsize div 4"
  shows "\<exists>c'. double_data_block (Some d) bsize ino i j c s =
      Some (Some (let leaf = (if blocks ino ! 13 = 0 then 0 else entry_of (disk_block content (unat bsize) (blocks ino ! 13)) (unat i))
        in if leaf = 0 then 0 else entry_of (disk_block content (unat bsize) leaf) (unat j)), c', s) \<and>
    cache_shows content (unat bsize) c'"
proof (cases "blocks ino ! 13 = 0")
  case True
  then show ?thesis using d(4) by (simp add: double_data_block_def)
next
  case False
  let ?n = "blocks ino ! 13" let ?K = "unat bsize"
  let ?leaf = "entry_of (disk_block content ?K ?n) (unat i)"
  have sh: "inside d ?K ?n" "slot_shows content ?K (double_root c)" using False d(3,4) by (simp_all add: tables_inside_def cache_shows_def)
  let ?first = "if \<not> slot_valid (double_root c) \<or> slot_number (double_root c) \<noteq> ?n
     then do {
       (ok, t, s) \<leftarrow> load_table (Some d) bsize ?n (double_root c) s;
       let cache = c\<lparr>double_root := t\<rparr>;
       Some (ok, if ok then cache\<lparr>double_leaf := (double_leaf cache)\<lparr>slot_valid := False\<rparr>\<rparr> else cache, s)
     }
     else Some (True, c, s)"
  have "\<exists>c1. ?first = Some (True, c1, s) \<and> cache_shows content ?K c1 \<and> slot_valid (double_root c1) \<and> slot_number (double_root c1) = ?n"
  proof (cases "\<not> slot_valid (double_root c) \<or> slot_number (double_root c) \<noteq> ?n")
    case True
    from load_table_serves [OF d(1,2) sh] obtain t where t: "load_table (Some d) bsize ?n (double_root c) s = Some (True, t, s)"
        "slot_shows content ?K t" "slot_valid t" "slot_number t = ?n" by blast
    then show ?thesis using True d(4) by (simp add: cache_shows_def slot_shows_def)
  next
    case False
    then show ?thesis using d(4) by simp
  qed
  then obtain c1 where c1: "?first = Some (True, c1, s)" "cache_shows content ?K c1" "slot_valid (double_root c1)" "slot_number (double_root c1) = ?n" by blast
  have "4 * unat i + 3 < ?K" using i by linarith
  then have leaf: "table_entry (double_root c1) i = ?leaf"
    using table_entry_shows [of content ?K "double_root c1"] c1(2-4) by (simp add: cache_shows_def)
  let ?L = "table_entry (double_root c1) i"
  show ?thesis
  proof (cases "?leaf = 0")
    case True
    then show ?thesis using False c1(2) unfolding double_data_block_def Let_def c1(1) [unfolded Let_def] by (simp add: leaf)
  next
    case nz: False
    have "inside d ?K ?leaf" "slot_shows content ?K (double_leaf c1)"
      using nz False d(3) i c1(2) by (auto simp: tables_inside_def cache_shows_def Let_def)
    from cached_table [OF d(1,2) this [folded leaf]] obtain t where t:
        "(if \<not> slot_valid (double_leaf c1) \<or> slot_number (double_leaf c1) \<noteq> ?L then load_table (Some d) bsize ?L (double_leaf c1) s
          else Some (True, double_leaf c1, s)) = Some (True, t, s)" "slot_shows content ?K t" "slot_valid t" "slot_number t = ?L" by blast
    have "4 * unat j + 3 < ?K" using j by linarith
    then have "table_entry t j = entry_of (disk_block content ?K ?leaf) (unat j)" using table_entry_shows [OF t(2,3)] t(4) leaf by simp
    then show ?thesis using False nz [folded leaf] c1(2) t(1,2) leaf [symmetric]
      unfolding double_data_block_def Let_def c1(1) [unfolded Let_def] by (simp add: cache_shows_def split del: if_split)
  qed
qed

lemma ext2_get_data_block_serves:
  assumes d: "disk_serves d content" "block_size_of sb = Some bsize" "block_size_ok bsize" "tables_inside d content (unat bsize) ino"
      "cache_shows content (unat bsize) c"
    and f: "file_block (disk_block content (unat bsize)) (unat bsize div 4) ino (unat l) = Some p"
  shows "\<exists>c'. ext2_get_data_block (Some d) sb ino l c s = Some (Some p, c', s) \<and> cache_shows content (unat bsize) c'"
proof (cases "l < 12")
  case True
  then have "unat l < 12" by (simp add: word_less_nat_alt)
  then show ?thesis using True f d(5) by (simp add: ext2_get_data_block_def file_block_def)
next
  case False
  let ?K = "unat bsize" let ?e = "bsize div 4" let ?i = "l - 12"
  have l: "12 \<le> unat l" "unat ?i = unat l - 12" using False by (simp_all add: word_le_nat_alt not_less unat_sub_u32)
  have K: "0 < ?K" "?K \<le> 4096" "512 \<le> ?K" using d(3) by (auto simp: block_size_ok_def)
  then have "bsize \<le> 4096" by (simp add: word_le_nat_alt)
  have e: "unat ?e = ?K div 4" "?K div 4 \<le> 1024" "128 \<le> ?K div 4" using K by (auto simp: u32_div_unat)
  then have "?e \<noteq> 0" by auto
  note run = ext2_get_data_block_def [of "Some d" sb ino l c s]
  show ?thesis
  proof (cases "?i < ?e")
    case True
    then have i: "unat l - 12 < ?K div 4" using l(2) e(1) by (simp add: word_less_nat_alt)
    then have "p = (if blocks ino ! 12 = 0 then 0 else entry_of (disk_block content ?K (blocks ino ! 12)) (unat ?i))"
      using f l by (auto simp: file_block_def)
    moreover have "unat ?i < ?K div 4" using i l(2) by simp
    ultimately have "\<exists>c'. single_data_block (Some d) bsize ino ?i c s = Some (Some p, c', s) \<and> cache_shows content ?K c'"
      using single_serves [OF d(1,3-5), of ?i s] by simp
    then show ?thesis using True False d(2) \<open>bsize \<le> 4096\<close> \<open>?e \<noteq> 0\<close> by (simp add: run Let_def linorder_not_le [symmetric] del: not_le)
  next
    case nd: False
    let ?x = "?i - ?e"
    have x: "unat ?x = unat l - 12 - ?K div 4" "\<not> unat l - 12 < ?K div 4"
      using nd l(2) e(1) by (simp_all add: unat_sub_u32 word_le_nat_alt not_less)
    then have cap: "unat l - 12 - ?K div 4 < ?K div 4 * (?K div 4)" using f l by (auto simp: file_block_def split: if_splits)
    have sq: "?K div 4 * (?K div 4) \<le> 1024 * 1024" by (intro mult_le_mono e(2))
    have "unat (ucast ?e * ucast ?e :: u64) = ?K div 4 * (?K div 4)"
      using sq by (subst unat_mult_u64) (simp_all add: unat_ucast_u64 e(1))
    then have in_cap: "ucast ?x < (ucast ?e * ucast ?e :: u64)" using cap x(1) by (simp add: word_less_nat_alt unat_ucast_u64)
    have ij: "unat (?x div ?e) = (unat l - 12 - ?K div 4) div (?K div 4)" "unat (?x mod ?e) = (unat l - 12 - ?K div 4) mod (?K div 4)"
      by (simp_all add: u32_div_unat u32_mod_unat x(1) e(1))
    have "unat (?x div ?e) < ?K div 4" "unat (?x mod ?e) < ?K div 4"
      unfolding ij using cap e(3) by (simp_all add: less_mult_imp_div_less)
    from double_serves [OF d(1,3-5) this, of s] have "\<exists>c'. double_data_block (Some d) bsize ino (?x div ?e) (?x mod ?e) c s = Some (Some p, c', s) \<and>
        cache_shows content ?K c'"
      using f l x(2) cap unfolding ij by (simp add: file_block_def Let_def del: diff_diff_left)
    then show ?thesis using nd False d(2) \<open>bsize \<le> 4096\<close> \<open>?e \<noteq> 0\<close> in_cap by (simp add: run Let_def linorder_not_le [symmetric] del: not_le)
  qed
qed

section \<open>The contents of a file\<close>

definition block_of :: "(nat \<Rightarrow> u8 list) \<Rightarrow> nat \<Rightarrow> ext2_inode \<Rightarrow> nat \<Rightarrow> u32 option" where
  "block_of content k ino l = file_block (disk_block content k) (k div 4) ino l"

definition block_count_of :: "nat \<Rightarrow> ext2_inode \<Rightarrow> nat" where
  "block_count_of k ino = (unat (size_low ino) + (k - 1)) div k"

text \<open>Every block of the file is mapped to a block of the disk: no holes, nothing beyond the double-indirect blocks.\<close>

definition dense :: "'s block_device \<Rightarrow> (nat \<Rightarrow> u8 list) \<Rightarrow> nat \<Rightarrow> ext2_inode \<Rightarrow> bool" where
  "dense d content k ino \<longleftrightarrow>
     (\<forall>l < block_count_of k ino. \<exists>p. block_of content k ino l = Some p \<and> p \<noteq> 0 \<and> inside d k p)"

definition data_of :: "(nat \<Rightarrow> u8 list) \<Rightarrow> nat \<Rightarrow> ext2_inode \<Rightarrow> u8 list" where
  "data_of content k ino = concat (map (\<lambda>l. disk_block content k (the (block_of content k ino l))) [0..<block_count_of k ino])"

definition file_content :: "(nat \<Rightarrow> u8 list) \<Rightarrow> nat \<Rightarrow> ext2_inode \<Rightarrow> u8 list" where
  "file_content content k ino = take (unat (size_low ino)) (data_of content k ino)"

lemma length_concat_blocks: "\<forall>i. length (f i) = k \<Longrightarrow> length (concat (map f xs)) = length xs * k"
  by (induction xs) auto

lemma drop_blocks:
  assumes "\<forall>i. length (f i) = k" "l \<le> n"
  shows "drop (l * k) (concat (map f [0..<n])) = concat (map f [l..<n])"
proof -
  have "[0..<n] = [0..<l] @ [l..<n]" using assms(2) by (metis le_add_diff_inverse upt_add_eq_append zero_le)
  moreover have "length (concat (map f [0..<l])) = l * k" using length_concat_blocks [OF assms(1), of "[0..<l]"] by simp
  ultimately show ?thesis by simp
qed

lemma take_blocks:
  assumes "\<forall>i. length (f i) = k" "l + r \<le> n"
  shows "take (r * k) (concat (map f [l..<n])) = concat (map f [l..<l + r])"
proof -
  have "[l..<n] = [l..<l + r] @ [l + r..<n]" using assms(2) by (metis le_add_diff_inverse upt_add_eq_append le_add1)
  moreover have "length (concat (map f [l..<l + r])) = r * k" using length_concat_blocks [OF assms(1), of "[l..<l + r]"] by simp
  ultimately show ?thesis by simp
qed

lemma block_slice:
  assumes f: "\<forall>i. length (f i) = k" and l: "l < n" "off + m \<le> k"
  shows "take m (drop (l * k + off) (concat (map f [0..<n]))) = take m (drop off (f l))"
proof -
  have "drop (l * k + off) (concat (map f [0..<n])) = drop off (drop (l * k) (concat (map f [0..<n])))" by (simp add: add.commute)
  also have "\<dots> = drop off (concat (map f [l..<n]))" using drop_blocks [OF f, of l n] l(1) by simp
  also have "\<dots> = drop off (f l) @ concat (map f [Suc l..<n])" using l f by (simp add: upt_conv_Cons)
  finally show ?thesis using l(2) f by simp
qed

lemma bytes_from_slice: "off + n \<le> length b \<Longrightarrow> bytes_from b off n = take n (drop off b)"
  by (rule nth_equalityI) (auto simp: bytes_from_def byte_at_def)

text \<open>Consecutive blocks are one range of sectors.\<close>

lemma run_sectors:
  assumes "\<forall>i < r. unat (p i) = b + i"
  shows "concat (map content [b * m..<b * m + r * m]) =
    concat (map (\<lambda>i. concat (map content [unat (p i) * m..<unat (p i) * m + m])) [0..<r])"
  using assms
proof (induction r)
  case (Suc r)
  have "[b * m..<b * m + Suc r * m] = [b * m..<b * m + r * m] @ [b * m + r * m..<b * m + r * m + m]"
  proof -
    have "b * m + Suc r * m = (b * m + r * m) + m" by simp
    then show ?thesis using upt_add_eq_append [of "b * m" "b * m + r * m" m] by (simp only: le_add1)
  qed
  moreover have "unat (p r) * m = b * m + r * m" using Suc.prems by (simp add: algebra_simps)
  ultimately show ?case using Suc by simp
qed simp

section \<open>The loops\<close>

lemma read_run_serves:
  assumes d: "disk_serves d content" "block_size_of sb = Some bsize" "block_size_ok bsize" "tables_inside d content (unat bsize) ino"
    and dense: "dense d content (unat bsize) ino" and small: "block_count_of (unat bsize) ino < 4294967296"
    and m: "unat l + unat m \<le> block_count_of (unat bsize) ino"
  shows "cache_shows content (unat bsize) c \<Longrightarrow> unat r \<le> unat m \<Longrightarrow>
      \<forall>i < unat r. unat (the (block_of content (unat bsize) ino (unat l + i))) = unat b + i \<Longrightarrow> 0 < unat r \<Longrightarrow>
    \<exists>r' c'. read_run_loop (Some d) sb ino l b m r c s = Some (Some r', c', s) \<and> cache_shows content (unat bsize) c' \<and>
      0 < unat r' \<and> unat r' \<le> unat m \<and>
      (\<forall>i < unat r'. unat (the (block_of content (unat bsize) ino (unat l + i))) = unat b + i)"
proof (induction "unat m - unat r" arbitrary: r c rule: less_induct)
  case less
  let ?K = "unat bsize"
  show ?case
  proof (cases "r < m")
    case False
    then show ?thesis using less.prems by (subst read_run_loop.simps) auto
  next
    case True
    then have rm: "unat r < unat m" by (simp add: word_less_nat_alt)
    have lr: "unat (l + r) = unat l + unat r" using rm m small by (intro unat_add_u32) linarith
    obtain p where p: "block_of content ?K ino (unat l + unat r) = Some p" "p \<noteq> 0"
      using dense rm m unfolding dense_def by (meson add_less_cancel_left less_le_trans)
    from ext2_get_data_block_serves [OF d less.prems(1), of "l + r" p s] p(1) obtain c' where
      c': "ext2_get_data_block (Some d) sb ino (l + r) c s = Some (Some p, c', s)" "cache_shows content ?K c'"
      unfolding lr block_of_def by blast
    show ?thesis
    proof (cases "p = b + r")
      case False
      then have "read_run_loop (Some d) sb ino l b m r c s = Some (Some r, c', s)"
        using True p(2) c'(1) by (subst read_run_loop.simps) simp
      then show ?thesis using c'(2) less.prems by blast
    next
      case eq: True
      have run: "read_run_loop (Some d) sb ino l b m r c s = read_run_loop (Some d) sb ino l b m (r + 1) c' s"
        using True p(2) c'(1) eq by (subst read_run_loop.simps) simp
      have r1: "unat (r + 1) = Suc (unat r)" using rm by (rule unat_inc_u32)
      have "unat b + unat r < 4294967296"
      proof (rule ccontr)
        assume "\<not> ?thesis"
        moreover have "unat (the (block_of content ?K ino (unat l + (unat r - 1)))) = unat b + (unat r - 1)"
          by (rule less.prems(3) [rule_format]) (use less.prems(4) in linarith)
        moreover have "unat (the (block_of content ?K ino (unat l + (unat r - 1)))) < 4294967296" by simp
        ultimately have "unat b + unat r = 4294967296" using less.prems(4) by linarith
        then have "unat (b + r) = 0" by (simp add: unat_word_ariths)
        then show False using p(2) eq by (simp add: unat_eq_0)
      qed
      then have pu: "unat p = unat b + unat r" unfolding eq by (rule unat_add_u32)
      have "\<forall>i < unat (r + 1). unat (the (block_of content ?K ino (unat l + i))) = unat b + i"
        using less.prems(3) p(1) pu by (simp add: r1 less_Suc_eq)
      then show ?thesis using less.hyps [of "r + 1" c'] rm c'(2) r1 unfolding run by simp
    qed
  qed
qed

lemma block_count_bounds:
  assumes "512 \<le> k"
  shows "block_count_of k ino < 4294967296" "fo < unat (size_low ino) \<Longrightarrow> fo div k < block_count_of k ino"
    "(l + m) * k \<le> unat (size_low ino) \<Longrightarrow> l + m \<le> block_count_of k ino"
proof -
  let ?n = "unat (size_low ino)"
  have "(?n + (k - 1)) div k \<le> (?n + k) div k" by (intro div_le_mono) simp
  also have "\<dots> = ?n div k + 1" using assms by (subst div_add_self2) simp_all
  also have "\<dots> \<le> ?n div 512 + 1" using assms by (intro add_right_mono div_le_mono2) simp_all
  also have "\<dots> < 4294967296" using unat_u32_bound [of "size_low ino"] by linarith
  finally show "block_count_of k ino < 4294967296" by (simp add: block_count_of_def)
  show "fo div k < block_count_of k ino" if "fo < ?n"
  proof -
    have "fo div k + 1 = (fo + k) div k" using assms by (subst div_add_self2) simp_all
    also have "\<dots> \<le> (?n + (k - 1)) div k" using that assms by (intro div_le_mono) linarith
    finally show ?thesis by (simp add: block_count_of_def)
  qed
  show "l + m \<le> block_count_of k ino" if "(l + m) * k \<le> ?n"
  proof -
    have "l + m = (l + m) * k div k" using assms by simp
    also have "\<dots> \<le> (?n + (k - 1)) div k" using that by (intro div_le_mono) linarith
    finally show ?thesis by (simp add: block_count_of_def)
  qed
qed

text \<open>One transfer of consecutive blocks.\<close>

lemma read_consecutive:
  assumes d: "disk_serves d content" and b: "block_size_ok bsize" and i: "inside d (unat bsize) (p (unat r - 1))"
    and p: "\<forall>i < unat r. unat (p i) = unat (n :: u32) + i" and r: "0 < unat r" "unat r \<le> 16"
  shows "read_into (Some d) (ucast n * ucast (bsize div 512)) (r * (bsize div 512)) (unat (r * bsize)) (replicate (unat (r * bsize)) 0) s =
      (True, concat (map (\<lambda>i. disk_block content (unat bsize) (p i)) [0..<unat r]), s)"
    and "unat (r * bsize) = unat r * unat bsize"
proof -
  note bs = block_size_sectors [OF b]
  let ?m = "unat bsize div 512"
  have m: "unat r * ?m \<le> 16 * 8" by (intro mult_le_mono r(2) bs(4))
  have c: "unat (r * (bsize div 512)) = unat r * ?m" using m by (subst unat_mult_u32) (simp_all add: bs(1))
  have "unat r * unat bsize = 512 * (unat r * ?m)" using bs(5) by simp
  then have "unat r * unat bsize < 4294967296" using m by linarith
  then show len: "unat (r * bsize) = unat r * unat bsize" by (rule unat_mult_u32)
  have "unat (p (unat r - 1)) + 1 = unat n + unat r" using p r(1) by simp
  then have "(unat n + unat r) * ?m \<le> unat (bd_sector_count d)" using i by (simp add: inside_def)
  then have lim: "unat (ucast n * ucast (bsize div 512) :: u64) + unat (r * (bsize div 512)) \<le> unat (bd_sector_count d)"
    by (simp add: block_lba [OF b] c add_mult_distrib)
  have "0 < unat (r * (bsize div 512))" using r(1) bs(3) c by simp
  then have nz: "r * (bsize div 512) \<noteq> 0" by auto
  have k: "unat (r * bsize) = 512 * unat (r * (bsize div 512))" using bs(5) unfolding len c by simp
  show "read_into (Some d) (ucast n * ucast (bsize div 512)) (r * (bsize div 512)) (unat (r * bsize)) (replicate (unat (r * bsize)) 0) s =
      (True, concat (map (\<lambda>i. disk_block content (unat bsize) (p i)) [0..<unat r]), s)"
    unfolding read_into_serves [OF d lim nz k, of "replicate (unat (r * bsize)) 0", simplified]
    using run_sectors [OF p, of content ?m] by (simp add: block_lba [OF b] c disk_block_def)
qed

lemma read_file_serves:
  assumes d: "disk_serves d content" "block_size_of sb = Some bsize" "block_size_ok bsize" "tables_inside d content (unat bsize) ino"
    and dense: "dense d content (unat bsize) ino" and w: "unat offset + unat w \<le> unat (size_low ino)"
  shows "cache_shows content (unat bsize) c \<Longrightarrow> unat t \<le> unat w \<Longrightarrow>
    \<exists>c'. read_file_loop (Some d) sb ino bsize offset w t acc c s =
        Some (Some (w, acc @ take (unat w - unat t) (drop (unat offset + unat t) (data_of content (unat bsize) ino))), c', s) \<and>
      cache_shows content (unat bsize) c'"
proof (induction "unat w - unat t" arbitrary: t acc c rule: less_induct)
  case less
  let ?K = "unat bsize" let ?nb = "block_count_of ?K ino"
  let ?f = "\<lambda>l. disk_block content ?K (the (block_of content ?K ino l))"
  let ?data = "data_of content ?K ino"
  have data: "?data = concat (map ?f [0..<?nb])" by (simp add: data_of_def)
  show ?case
  proof (cases "t < w")
    case False
    then have "t = w" using less.prems(2) by (simp add: word_le_nat_alt word_less_nat_alt word_unat_eq_iff)
    then show ?thesis using less.prems(1) by (subst read_file_loop.simps) simp
  next
    case True
    then have tw: "unat t < unat w" by (simp add: word_less_nat_alt)
    have K: "?K mod 512 = 0" "512 \<le> ?K" "?K \<le> 4096" using d(3) by (auto simp: block_size_ok_def)
    have ss: "bd_sector_size d = 512" using d(1) by (simp add: disk_serves_def)
    have flen: "\<forall>i. length (?f i) = ?K" using length_disk_block [OF d(1) K(1)] by simp
    note nb = block_count_bounds [OF K(2), where ino = ino]
    let ?fo = "offset + t" let ?l = "?fo div bsize" let ?off = "?fo mod bsize" let ?rem = "w - t"
    have fo: "unat ?fo = unat offset + unat t" using w tw unat_u32_bound [of "size_low ino"] by (intro unat_add_u32) linarith
    have l: "unat ?l = unat ?fo div ?K" "unat ?off = unat ?fo mod ?K" by (simp_all add: u32_div_unat u32_mod_unat)
    have lnb: "unat ?l < ?nb" unfolding l fo using nb(2) w tw by simp
    have split: "unat ?l * ?K + unat ?off = unat ?fo" unfolding l by simp
    have rem: "unat ?rem = unat w - unat t" using tw by (simp add: unat_sub_u32)
    have bz: "bsize \<noteq> 0" using K(2) by auto
    obtain p where p: "block_of content ?K ino (unat ?l) = Some p" "p \<noteq> 0" "inside d ?K p" using dense lnb unfolding dense_def by blast
    from ext2_get_data_block_serves [OF d less.prems(1), of ?l p s] p(1) obtain c1 where
      c1: "ext2_get_data_block (Some d) sb ino ?l c s = Some (Some p, c1, s)" "cache_shows content ?K c1" unfolding block_of_def by blast
    have step: "\<exists>c'. read_file_loop (Some d) sb ino bsize offset w t acc c s =
          Some (Some (w, acc @ take (unat w - unat t) (drop (unat offset + unat t) ?data)), c', s) \<and> cache_shows content ?K c'"
      if "read_file_loop (Some d) sb ino bsize offset w t acc c s = read_file_loop (Some d) sb ino bsize offset w (t + n) (acc @ b) c2 s"
        "cache_shows content ?K c2" "0 < unat n" "unat n \<le> unat ?rem" "b = take (unat n) (drop (unat ?fo) ?data)" for n b c2
    proof -
      have tn: "unat (t + n) = unat t + unat n" using that(4) rem tw unat_u32_bound [of w] by (intro unat_add_u32) linarith
      then have "unat w - unat (t + n) < unat w - unat t" "unat (t + n) \<le> unat w" using that(3,4) rem tw by simp_all
      note IH = less.hyps [OF this(1) that(2) this(2), of "acc @ b"]
      have sum: "unat w - unat t = unat n + (unat w - unat (t + n))" using tn that(4) rem tw by linarith
      have off: "unat offset + unat (t + n) = unat n + unat ?fo" using tn fo by linarith
      then have "acc @ take (unat w - unat t) (drop (unat offset + unat t) ?data) =
          (acc @ b) @ take (unat w - unat (t + n)) (drop (unat offset + unat (t + n)) ?data)"
        unfolding that(5) off sum fo [symmetric] by (simp only: take_add drop_drop append_assoc)
      then show ?thesis using IH unfolding that(1) by simp
    qed
    show ?thesis
    proof (cases "?off = 0 \<and> ?rem \<ge> bsize")
      case True
      let ?mx = "if ?rem div bsize > EXT2_MAX_READ_RUN_BLOCKS then EXT2_MAX_READ_RUN_BLOCKS else ?rem div bsize"
      have "?K \<le> unat ?rem" using True by (simp add: word_le_nat_alt)
      then have "?K div ?K \<le> unat ?rem div ?K" by (rule div_le_mono)
      then have mx: "1 \<le> unat ?mx" "unat ?mx \<le> 16" "unat ?mx \<le> unat ?rem div ?K"
        using K(2) by (auto simp: EXT2_MAX_READ_RUN_BLOCKS_def word_less_nat_alt u32_div_unat)
      have "unat ?mx * ?K \<le> unat ?rem" using mx(3) by (meson div_times_less_eq_dividend le_trans mult_le_mono1)
      then have mxK: "unat ?mx * ?K \<le> unat ?rem" .
      have "(unat ?l + unat ?mx) * ?K \<le> unat (size_low ino)"
        using mxK split True fo rem w tw by (simp add: add_mult_distrib)
      then have fits: "unat ?l + unat ?mx \<le> ?nb" by (rule nb(3))
      have "\<forall>i < unat (1 :: u32). unat (the (block_of content ?K ino (unat ?l + i))) = unat p + i" using p(1) by simp
      moreover have "unat (1 :: u32) \<le> unat ?mx" "0 < unat (1 :: u32)" using mx(1) by simp_all
      ultimately have "\<exists>r' c'. read_run_loop (Some d) sb ino ?l p ?mx 1 c1 s = Some (Some r', c', s) \<and> cache_shows content ?K c' \<and>
          0 < unat r' \<and> unat r' \<le> unat ?mx \<and> (\<forall>i < unat r'. unat (the (block_of content ?K ino (unat ?l + i))) = unat p + i)"
        by (intro read_run_serves [OF d dense nb(1) fits c1(2)])
      then obtain r c2 where
        r: "read_run_loop (Some d) sb ino ?l p ?mx 1 c1 s = Some (Some r, c2, s)" "cache_shows content ?K c2" "0 < unat r" "unat r \<le> unat ?mx"
          "\<forall>i < unat r. unat (the (block_of content ?K ino (unat ?l + i))) = unat p + i" by blast
      have "\<exists>q. block_of content ?K ino (unat ?l + (unat r - 1)) = Some q \<and> q \<noteq> 0 \<and> inside d ?K q"
        using dense r(3,4) fits unfolding dense_def by simp
      then have ins: "inside d ?K (the (block_of content ?K ino (unat ?l + (unat r - 1))))" by auto
      have r16: "unat r \<le> 16" using r(4) mx(2) by linarith
      note tr = read_consecutive [OF d(1,3), where p = "\<lambda>i. the (block_of content ?K ino (unat ?l + i))", OF ins r(5) r(3) r16]
      let ?b = "concat (map (\<lambda>i. disk_block content ?K (the (block_of content ?K ino (unat ?l + i)))) [0..<unat r])"
      have nz: "bsize div 512 \<noteq> 0 \<or> True" by simp
      have "read_file_loop (Some d) sb ino bsize offset w t acc c s =
          read_file_loop (Some d) sb ino bsize offset w (t + r * bsize) (acc @ ?b) c2 s"
        using \<open>t < w\<close> True p(2) bz c1(1) r(1)
        by (subst read_file_loop.simps) (simp add: checked_div_def ss tr(1) Let_def split del: if_split)
      moreover have "0 < unat (r * bsize)" using r(3) K(2) unfolding tr(2) by simp
      moreover have "unat (r * bsize) \<le> unat ?rem" unfolding tr(2) using mxK r(4) by (meson le_trans mult_le_mono1)
      moreover have "?b = take (unat (r * bsize)) (drop (unat ?fo) ?data)"
      proof -
        have "unat ?fo = unat ?l * ?K" using split True by simp
        then have "drop (unat ?fo) ?data = concat (map ?f [unat ?l..<?nb])" using drop_blocks [OF flen, of "unat ?l" ?nb] lnb unfolding data by simp
        moreover have "take (unat r * ?K) (concat (map ?f [unat ?l..<?nb])) = concat (map ?f [unat ?l..<unat ?l + unat r])"
          using take_blocks [OF flen, of "unat ?l" "unat r" ?nb] r(4) fits by simp
        moreover have "map ?f [unat ?l..<unat ?l + unat r] = map (\<lambda>i. ?f (unat ?l + i)) [0..<unat r]"
          by (rule nth_equalityI) simp_all
        ultimately show ?thesis by (simp add: tr(2))
      qed
      ultimately show ?thesis using step r(2) by blast
    next
      case False
      let ?ch = "if bsize - ?off > ?rem then ?rem else bsize - ?off"
      have offK: "unat ?off < ?K" unfolding l using K(2) by simp
      then have sub: "unat (bsize - ?off) = ?K - unat ?off" by (simp add: unat_sub_u32)
      have ch: "0 < unat ?ch" "unat ?ch \<le> unat ?rem" "unat ?off + unat ?ch \<le> ?K"
        using sub offK rem tw by (auto simp: word_less_nat_alt)
      have rd: "ext2_read_block (Some d) bsize p block_buffer s = Some (True, disk_block content ?K p @ drop ?K block_buffer, s)"
        using K(3) by (intro ext2_read_block_serves [OF d(1,3) p(3)]) (simp add: block_buffer_def)
      let ?b = "bytes_from (disk_block content ?K p @ drop ?K block_buffer) (unat ?off) (unat ?ch)"
      have "read_file_loop (Some d) sb ino bsize offset w t acc c s =
          read_file_loop (Some d) sb ino bsize offset w (t + ?ch) (acc @ ?b) c1 s"
        using \<open>t < w\<close> p(2) bz c1(1)
        by (subst read_file_loop.simps) (simp add: checked_div_def rd Let_def if_not_P [OF False] split del: if_split)
      moreover have "?b = take (unat ?ch) (drop (unat ?fo) ?data)"
      proof -
        have "?b = take (unat ?ch) (drop (unat ?off) (disk_block content ?K p))"
          using ch(3) length_disk_block [OF d(1) K(1)] by (subst bytes_from_slice) simp_all
        also have "\<dots> = take (unat ?ch) (drop (unat ?l * ?K + unat ?off) ?data)"
          using block_slice [OF flen lnb ch(3)] p(1) by (simp add: data)
        finally show ?thesis unfolding split .
      qed
      ultimately show ?thesis using step c1(2) ch(1,2) by blast
    qed
  qed
qed

section \<open>Reading\<close>

lemma block_size_run:
  assumes "log_block_size sb \<le> 2"
  shows "block_size_of sb = Some (push_bit (unat (log_block_size sb)) 1024)"
    "block_size_ok (push_bit (unat (log_block_size sb)) 1024)"
    "unat (push_bit (unat (log_block_size sb)) 1024 :: u32) = 1024 * 2 ^ unat (log_block_size sb)"
proof -
  have "unat (log_block_size sb) \<le> 2" using assms by (simp add: word_le_nat_alt)
  then have "unat (log_block_size sb) \<in> {0, 1, 2}" by auto
  then show "block_size_ok (push_bit (unat (log_block_size sb)) 1024)"
    "unat (push_bit (unat (log_block_size sb)) 1024 :: u32) = 1024 * 2 ^ unat (log_block_size sb)"
    by (auto simp: block_size_ok_def push_bit_eq_mult)
  have "log_block_size sb < 32" using assms by (simp add: word_le_nat_alt word_less_nat_alt)
  then show "block_size_of sb = Some (push_bit (unat (log_block_size sb)) 1024)" by (simp add: block_size_of_def)
qed

lemma length_data:
  assumes "disk_serves d content" "512 dvd k" "0 < k"
  shows "unat (size_low ino) \<le> length (data_of content k ino)"
proof -
  have "\<forall>l. length (disk_block content k (the (block_of content k ino l))) = k" using length_disk_block [OF assms(1)] assms(2) by auto
  from length_concat_blocks [OF this, of "[0..<block_count_of k ino]"]
  have l: "length (data_of content k ino) = block_count_of k ino * k" by (simp add: data_of_def)
  have "unat (size_low ino) + (k - 1) < (block_count_of k ino + 1) * k"
    unfolding block_count_of_def using assms(3) dividend_less_div_times [of k "unat (size_low ino) + (k - 1)"] by (simp add: algebra_simps)
  then show ?thesis unfolding l using assms(3) by (simp add: algebra_simps)
qed

text \<open>Claim C6. Reading a file. On a disk that serves its sectors, for blocks of 1, 2 or 4 KiB and a regular file
  whose blocks all lie on the disk, \<open>ext2_read_file_cached\<close> returns for every offset and size, with exactly
  the bytes of the file from the offset on, cut at the size of the request and at the end of the file: the
  indirect tables, their cache in whatever state earlier reads left it, and the transfer of up to 16
  consecutive blocks at once are invisible. The cache shows the disk again afterwards.\<close>

theorem ext2_read_exact:
  assumes "disk_serves d content" and "log_block_size sb \<le> 2" and "k = 1024 * 2 ^ unat (log_block_size sb)"
    and "is_regular ino" and "tables_inside d content k ino" and "dense d content k ino" and "cache_shows content k cache"
  shows "\<exists>cache'. ext2_read_file_cached (Some d) sb ino offset n cache s =
      Some (Some (of_nat (length (take (unat n) (drop (unat offset) (file_content content k ino)))),
          take (unat n) (drop (unat offset) (file_content content k ino))), cache', s) \<and>
    cache_shows content k cache'"
proof -
  let ?b = "push_bit (unat (log_block_size sb)) 1024 :: u32"
  note b = block_size_run [OF assms(2)]
  have k: "unat ?b = k" using b(3) assms(3) by simp
  have le: "?b \<le> 4096" using b(2) by (simp add: block_size_ok_def word_le_nat_alt)
  have kd: "512 dvd k" "0 < k" using b(2) by (auto simp: block_size_ok_def k)
  note len = length_data [OF assms(1) kd, of ino]
  show ?thesis
  proof (cases "offset \<ge> size_low ino")
    case True
    then have "unat (size_low ino) \<le> unat offset" by (simp add: word_le_nat_alt)
    then have "drop (unat offset) (file_content content k ino) = []" by (simp add: file_content_def)
    then show ?thesis using assms(4,7) b(1) le True by (simp add: ext2_read_file_cached_def)
  next
    case False
    let ?av = "size_low ino - offset" let ?w = "if n < ?av then n else ?av"
    have o: "unat offset < unat (size_low ino)" using False by (simp add: word_le_nat_alt not_le)
    then have av: "unat ?av = unat (size_low ino) - unat offset" by (simp add: unat_sub_u32)
    have w: "unat ?w = min (unat n) (unat (size_low ino) - unat offset)" unfolding av [symmetric] by (simp add: word_less_nat_alt min_def)
    then have "unat offset + unat ?w \<le> unat (size_low ino)" using o by simp
    from read_file_serves [OF assms(1) b(1,2) _ _ this, of cache 0 "[]" s] assms(5-7) obtain cache' where
      run: "read_file_loop (Some d) sb ino ?b offset ?w 0 [] cache s = Some (Some (?w, take (unat ?w) (drop (unat offset) (data_of content k ino))), cache', s)"
        "cache_shows content k cache'" unfolding k by auto
    have eq: "take (unat n) (drop (unat offset) (file_content content k ino)) = take (unat ?w) (drop (unat offset) (data_of content k ino))"
      unfolding w file_content_def by (simp add: drop_take min.commute)
    have "unat offset + unat ?w \<le> length (data_of content k ino)" using w o len by simp
    then have "length (take (unat n) (drop (unat offset) (file_content content k ino))) = unat ?w" unfolding eq by simp
    moreover have "\<not> 4096 < ?b" using le by simp
    ultimately show ?thesis using assms(4) b(1) False run unfolding eq
      by (simp add: ext2_read_file_cached_def Let_def split del: if_split)
  qed
qed

definition striped_disk :: "unit block_device" where
  "striped_disk = \<lparr>bd_name = ''stripes'', bd_sector_size = 512, bd_sector_count = 64,
     bd_read = Some (\<lambda>lba n b s. (0, concat (map (\<lambda>i. replicate 512 (of_nat i)) [unat lba..<unat lba + unat n]), s)), bd_write = None\<rparr>"

definition small_inode :: ext2_inode where
  "small_inode = (inode_of [] 0)\<lparr>mode := 0x81A4, size_low := 2500, blocks := [3, 4, 7, 0, 0, 0, 0, 0, 0, 0, 0, 0, 0, 0, 0]\<rparr>"

theorem ext2_read_exact_witness:
  "\<exists>cache'. ext2_read_file_cached (Some striped_disk) (superblock_of []) small_inode 1000 2000 empty_cache () =
     Some (Some (1500, replicate 24 7 @ replicate 512 8 @ replicate 512 9 @ replicate 452 14), cache', ())"
proof -
  let ?c = "\<lambda>i. replicate 512 (of_nat i)"
  have d: "disk_serves striped_disk ?c" by (simp add: disk_serves_def striped_disk_def)
  have sb: "log_block_size (superblock_of []) = 0" by (simp add: superblock_of_def le32_def byte_at_def)
  have n: "block_count_of 1024 small_inode = 3" by (simp add: block_count_of_def small_inode_def)
  have b: "block_of ?c 1024 small_inode 0 = Some 3" "block_of ?c 1024 small_inode 1 = Some 4" "block_of ?c 1024 small_inode 2 = Some 7"
    by (simp_all add: block_of_def file_block_def small_inode_def)
  have b2: "block_of ?c 1024 small_inode (Suc (Suc 0)) = Some 7" using b(3) by (simp add: numeral_2_eq_2)
  have "dense striped_disk ?c 1024 small_inode"
    unfolding dense_def n
  proof (intro allI impI)
    fix l :: nat
    assume "l < 3"
    then have "l = 0 \<or> l = 1 \<or> l = 2" by linarith
    then show "\<exists>p. block_of ?c 1024 small_inode l = Some p \<and> p \<noteq> 0 \<and> inside striped_disk 1024 p"
      using b by (elim disjE) (simp_all add: inside_def striped_disk_def)
  qed
  moreover have "is_regular small_inode" by (simp add: is_regular_def small_inode_def EXT2_S_IFMT_def EXT2_S_IFREG_def)
  moreover have "tables_inside striped_disk ?c 1024 small_inode" by (simp add: tables_inside_def small_inode_def)
  moreover have "file_content ?c 1024 small_inode = replicate 512 6 @ replicate 512 7 @ replicate 512 8 @ replicate 512 9 @ replicate 452 14"
    using b b2 by (simp add: file_content_def data_of_def n upt_rec disk_block_def) (simp add: small_inode_def)
  ultimately show ?thesis
    using ext2_read_exact [OF d, of "superblock_of []" 1024 small_inode empty_cache 1000 2000 "()"] empty_cache_shows [of 1024 ?c]
    by (simp add: sb) blast
qed

end
