(* ===== verification/Ext2Alloc.thy ===== *)
theory Ext2Alloc
  imports Ext2Map
begin

text \<open>
  Allocating and freeing the blocks of an ext2 volume, \<open>kernel/fs/ext2.c\<close>: the allocation context that keeps
  one group's bitmap and descriptor in memory, and the mapping that allocates the missing blocks and
  tables of a file.
\<close>

section \<open>The allocation context\<close>

record ext2_allocation_context =
  group_loaded :: bool
  ctx_group :: u32
  ctx_descriptor :: ext2_group_descriptor
  ctx_bitmap :: "u8 list"
  ctx_dirty :: bool
  allocated_blocks :: u32

text \<open>\<open>memset(&allocation, 0, sizeof(allocation))\<close>; the \<open>fs\<close> pointer is an argument.\<close>

definition empty_context :: ext2_allocation_context where
  "empty_context = \<lparr>group_loaded = False, ctx_group = 0, ctx_descriptor = group_descriptor_of [] 0, ctx_bitmap = block_buffer,
     ctx_dirty = False, allocated_blocks = 0\<rparr>"

definition ext2_flush_allocation_context :: "'s ext2_fs \<Rightarrow> ext2_allocation_context \<Rightarrow> 's \<Rightarrow> (bool \<times> ext2_allocation_context \<times> 's) option" where
  "ext2_flush_allocation_context fs ctx s =
     (if \<not> group_loaded ctx \<or> \<not> ctx_dirty ctx then Some (True, ctx, s)
      else do {
        bsize \<leftarrow> block_size_of (superblock fs);
        (ok, s) \<leftarrow> ext2_write_block (fs_device fs) bsize (block_bitmap (ctx_descriptor ctx)) (ctx_bitmap ctx) s;
        if \<not> ok then Some (False, ctx, s)
        else do {
          (ok, s) \<leftarrow> ext2_write_group_descriptor (fs_device fs) (superblock fs) (ctx_group ctx) (ctx_descriptor ctx) s;
          Some (if ok then (True, ctx\<lparr>ctx_dirty := False\<rparr>, s) else (False, ctx, s))
        }
      })"

definition ext2_free_block :: "'s ext2_fs \<Rightarrow> u32 \<Rightarrow> 's \<Rightarrow> (bool \<times> 's ext2_fs \<times> 's) option" where
  "ext2_free_block fs block_number s =
     (let sb = superblock fs
      in if fs_device fs = None \<or> block_number = 0 then Some (False, fs, s)
         else do {
           bsize \<leftarrow> block_size_of sb;
           if bsize = 0 \<or> bsize > 4096 \<or> blocks_per_group sb = 0 then Some (False, fs, s)
           else if block_number < first_data_block sb \<or> block_number \<ge> block_count sb then Some (False, fs, s)
           else do {
             let relative = block_number - first_data_block sb;
             let grp = relative div blocks_per_group sb;
             let i = relative mod blocks_per_group sb;
             (descriptor, s) \<leftarrow> ext2_read_group_descriptor (fs_device fs) sb grp s;
             (case descriptor of
                None \<Rightarrow> Some (False, fs, s)
              | Some d \<Rightarrow> do {
                  (ok, bitmap, s) \<leftarrow> ext2_read_block (fs_device fs) bsize (block_bitmap d) block_buffer s;
                  if \<not> ok then Some (False, fs, s)
                  else do {
                    used \<leftarrow> bitmap_get bitmap i;
                    if \<not> used then Some (False, fs, s)
                    else do {
                      (ok, s) \<leftarrow> ext2_write_block (fs_device fs) bsize (block_bitmap d) (bitmap_clear bitmap i) s;
                      if \<not> ok then Some (False, fs, s)
                      else do {
                        (ok, s) \<leftarrow> ext2_write_group_descriptor (fs_device fs) sb grp
                                     (d\<lparr>free_blocks_count := free_blocks_count d + 1\<rparr>) s;
                        if \<not> ok then Some (False, fs, s)
                        else
                          let fs = fs\<lparr>superblock := sb\<lparr>free_block_count := free_block_count sb + 1\<rparr>\<rparr>;
                              (ok, s) = ext2_write_superblock (fs_device fs) (superblock fs) s
                          in Some (ok, fs, s)
                      }
                    }
                  }
                })
           }
         })"

section \<open>Allocating a block\<close>

text \<open>The first clear bit below \<open>n\<close>.\<close>

function free_block_bit :: "u8 list \<Rightarrow> u32 \<Rightarrow> u32 \<Rightarrow> u32 option option" where
  "free_block_bit bitmap n i =
     (if i < n then do { used \<leftarrow> bitmap_get bitmap i; if used then free_block_bit bitmap n (i + 1) else Some (Some i) }
      else Some None)"
  by auto
termination
  by (relation "measure (\<lambda>(_, n, i). unat n - unat i)") (auto simp: word_less_nat_alt unat_inc_u32)

declare free_block_bit.simps [simp del]

datatype load_result = Load_Failed | Group_Empty | Group_Loaded

text \<open>The descriptor and the bitmap of a group, after the pending ones are written.\<close>

definition load_group :: "'s ext2_fs \<Rightarrow> u32 \<Rightarrow> u32 \<Rightarrow> ext2_allocation_context \<Rightarrow> 's \<Rightarrow>
    (load_result \<times> ext2_allocation_context \<times> 's) option" where
  "load_group fs bsize grp ctx s =
     (if \<not> group_loaded ctx \<or> ctx_group ctx \<noteq> grp then
        do {
          (ok, ctx, s) \<leftarrow> ext2_flush_allocation_context fs ctx s;
          if \<not> ok then Some (Load_Failed, ctx, s)
          else do {
            (descriptor, s) \<leftarrow> ext2_read_group_descriptor (fs_device fs) (superblock fs) grp s;
            (case descriptor of
               None \<Rightarrow> Some (Load_Failed, ctx, s)
             | Some d \<Rightarrow>
                 let ctx = ctx\<lparr>ctx_descriptor := d\<rparr>
                 in if free_blocks_count d = 0 then Some (Group_Empty, ctx\<lparr>group_loaded := False\<rparr>, s)
                    else do {
                      (ok, b, s) \<leftarrow> ext2_read_block (fs_device fs) bsize (block_bitmap d) (ctx_bitmap ctx) s;
                      let ctx = ctx\<lparr>ctx_bitmap := b\<rparr>;
                      Some (if \<not> ok then (Load_Failed, ctx, s)
                            else (Group_Loaded, ctx\<lparr>ctx_group := grp, group_loaded := True, ctx_dirty := False\<rparr>, s))
                    })
          }
        }
      else Some (Group_Loaded, ctx, s))"

definition group_first_block :: "ext2_superblock \<Rightarrow> u32 \<Rightarrow> u32" where
  "group_first_block sb grp = first_data_block sb + grp * blocks_per_group sb"

definition blocks_in_group :: "ext2_superblock \<Rightarrow> u32 \<Rightarrow> u32" where
  "blocks_in_group sb grp =
     (if group_first_block sb grp + blocks_per_group sb > block_count sb then block_count sb - group_first_block sb grp
      else blocks_per_group sb)"

text \<open>Bit \<open>i\<close> of the loaded group is taken, in memory only.\<close>

definition claim_block :: "u32 \<Rightarrow> 's ext2_fs \<Rightarrow> ext2_allocation_context \<Rightarrow> 's ext2_fs \<times> ext2_allocation_context" where
  "claim_block i fs ctx =
     (let d = ctx_descriptor ctx; sb = superblock fs
      in (fs\<lparr>superblock := sb\<lparr>free_block_count := free_block_count sb - 1\<rparr>\<rparr>,
          ctx\<lparr>ctx_bitmap := bitmap_set (ctx_bitmap ctx) i, ctx_descriptor := d\<lparr>free_blocks_count := free_blocks_count d - 1\<rparr>,
              allocated_blocks := allocated_blocks ctx + 1, ctx_dirty := True\<rparr>))"

function block_group_loop :: "u32 \<Rightarrow> u32 \<Rightarrow> u32 \<Rightarrow> 's ext2_fs \<Rightarrow> ext2_allocation_context \<Rightarrow> 's \<Rightarrow>
    (u32 option \<times> 's ext2_fs \<times> ext2_allocation_context \<times> 's) option" where
  "block_group_loop bsize group_count grp fs ctx s =
     (if grp < group_count then
        do {
          (loaded, ctx, s) \<leftarrow> load_group fs bsize grp ctx s;
          (case loaded of
             Load_Failed \<Rightarrow> Some (None, fs, ctx, s)
           | Group_Empty \<Rightarrow> block_group_loop bsize group_count (grp + 1) fs ctx s
           | Group_Loaded \<Rightarrow> do {
               found \<leftarrow> free_block_bit (ctx_bitmap ctx) (blocks_in_group (superblock fs) grp) 0;
               (case found of
                  Some i \<Rightarrow>
                    let allocated_block = group_first_block (superblock fs) grp + i; (fs, ctx) = claim_block i fs ctx
                    in Some (Some allocated_block, fs, ctx, s)
                | None \<Rightarrow> do {
                    (ok, ctx, s) \<leftarrow> ext2_flush_allocation_context fs ctx s;
                    if \<not> ok then Some (None, fs, ctx, s)
                    else block_group_loop bsize group_count (grp + 1) fs (ctx\<lparr>group_loaded := False\<rparr>) s
                  })
             })
        }
      else Some (None, fs, ctx, s))"
  by auto
termination
  by (relation "measure (\<lambda>(_, n, i, _). unat n - unat i)") (auto simp: word_less_nat_alt unat_inc_u32)

declare block_group_loop.simps [simp del]

definition ext2_allocate_block :: "'s ext2_fs \<Rightarrow> ext2_allocation_context \<Rightarrow> 's \<Rightarrow>
    (u32 option \<times> 's ext2_fs \<times> ext2_allocation_context \<times> 's) option" where
  "ext2_allocate_block fs ctx s =
     (let sb = superblock fs
      in do {
        bsize \<leftarrow> block_size_of sb;
        if bsize = 0 \<or> bsize > 4096 then Some (None, fs, ctx, s)
        else if free_block_count sb = 0 then Some (None, fs, ctx, s)
        else do {
          let data_blocks = block_count sb - first_data_block sb;
          group_count \<leftarrow> checked_div (data_blocks + blocks_per_group sb - 1) (blocks_per_group sb);
          block_group_loop bsize group_count 0 fs ctx s
        }
      })"

section \<open>Mapping with allocation\<close>

text \<open>What a write works on: the volume, the inode and the table cache of the vnode, the context, the disk.\<close>

record 's ext2_job =
  job_fs :: "'s ext2_fs"
  job_inode :: ext2_inode
  job_cache :: ext2_block_cache
  job_context :: ext2_allocation_context
  job_disk :: 's

text \<open>A new block, counted in the sectors of the inode once it is linked; block 0 is a failure.\<close>

definition new_block :: "'s ext2_job \<Rightarrow> (u32 option \<times> 's ext2_job) option" where
  "new_block j =
     do {
       (n, fs, ctx, s) \<leftarrow> ext2_allocate_block (job_fs j) (job_context j) (job_disk j);
       Some (if n = Some 0 then None else n, j\<lparr>job_fs := fs, job_context := ctx, job_disk := s\<rparr>)
     }"

definition set_inode_block :: "nat \<Rightarrow> u32 \<Rightarrow> 's ext2_job \<Rightarrow> 's ext2_job" where
  "set_inode_block i b j = j\<lparr>job_inode := (job_inode j)\<lparr>blocks := (blocks (job_inode j))[i := b]\<rparr>\<rparr>"

definition add_sectors :: "u32 \<Rightarrow> 's ext2_job \<Rightarrow> 's ext2_job" where
  "add_sectors n j = j\<lparr>job_inode := (job_inode j)\<lparr>inode_sectors := inode_sectors (job_inode j) + n\<rparr>\<rparr>"

definition set_single :: "table_slot \<Rightarrow> 's ext2_job \<Rightarrow> 's ext2_job" where
  "set_single t j = j\<lparr>job_cache := (job_cache j)\<lparr>single := t\<rparr>\<rparr>"

definition set_root :: "table_slot \<Rightarrow> 's ext2_job \<Rightarrow> 's ext2_job" where
  "set_root t j = j\<lparr>job_cache := (job_cache j)\<lparr>double_root := t\<rparr>\<rparr>"

definition set_leaf :: "table_slot \<Rightarrow> 's ext2_job \<Rightarrow> 's ext2_job" where
  "set_leaf t j = j\<lparr>job_cache := (job_cache j)\<lparr>double_leaf := t\<rparr>\<rparr>"

text \<open>A table that was just allocated: cleared, cached and dirty.\<close>

definition new_table :: "u32 \<Rightarrow> u32 \<Rightarrow> table_slot \<Rightarrow> table_slot" where
  "new_table bsize number t = (clear_table_entries bsize t)\<lparr>slot_number := number, slot_valid := True, slot_dirty := True\<rparr>"

definition direct_block :: "u32 \<Rightarrow> u32 \<Rightarrow> 's ext2_job \<Rightarrow> (u32 option \<times> 's ext2_job) option" where
  "direct_block sectors_per_block l j =
     (if blocks (job_inode j) ! unat l = 0 then do {
        (n, j) \<leftarrow> new_block j;
        Some (case n of None \<Rightarrow> (None, j) | Some b \<Rightarrow> (Some b, add_sectors sectors_per_block (set_inode_block (unat l) b j)))
      }
      else Some (Some (blocks (job_inode j) ! unat l), j))"

definition single_table :: "u32 \<Rightarrow> u32 \<Rightarrow> 's ext2_job \<Rightarrow> (bool \<times> 's ext2_job) option" where
  "single_table bsize sectors_per_block j =
     (let indirect_block = blocks (job_inode j) ! 12; t = single (job_cache j)
      in if indirect_block = 0 then do {
           (n, j) \<leftarrow> new_block j;
           Some (case n of None \<Rightarrow> (False, j)
             | Some b \<Rightarrow> (True, set_single (new_table bsize b t) (add_sectors sectors_per_block (set_inode_block 12 b j))))
         }
         else if \<not> slot_valid t \<or> slot_number t \<noteq> indirect_block then do {
           (ok, t, s) \<leftarrow> load_table (fs_device (job_fs j)) bsize indirect_block t (job_disk j);
           Some (ok, set_single (if ok then t\<lparr>slot_dirty := False\<rparr> else t) (j\<lparr>job_disk := s\<rparr>))
         }
         else Some (True, j))"

definition single_block :: "u32 \<Rightarrow> u32 \<Rightarrow> u32 \<Rightarrow> 's ext2_job \<Rightarrow> (u32 option \<times> 's ext2_job) option" where
  "single_block bsize sectors_per_block index j =
     do {
       (ok, j) \<leftarrow> single_table bsize sectors_per_block j;
       if \<not> ok then Some (None, j)
       else
         let e = table_entry (single (job_cache j)) index
         in if e = 0 then do {
              (n, j) \<leftarrow> new_block j;
              Some (case n of None \<Rightarrow> (None, j)
                | Some b \<Rightarrow> (Some b, add_sectors sectors_per_block
                    (set_single ((set_table_entry index b (single (job_cache j)))\<lparr>slot_dirty := True\<rparr>) j)))
            }
            else Some (Some e, j)
     }"

definition root_table :: "u32 \<Rightarrow> u32 \<Rightarrow> 's ext2_job \<Rightarrow> (bool \<times> 's ext2_job) option" where
  "root_table bsize sectors_per_block j =
     (let root_block = blocks (job_inode j) ! 13; t = double_root (job_cache j);
          no_leaf = (\<lambda>j. set_leaf ((double_leaf (job_cache j))\<lparr>slot_valid := False, slot_dirty := False\<rparr>) j)
      in if root_block = 0 then do {
           (n, j) \<leftarrow> new_block j;
           Some (case n of None \<Rightarrow> (False, j)
             | Some b \<Rightarrow> (True, no_leaf (set_root (new_table bsize b t) (add_sectors sectors_per_block (set_inode_block 13 b j)))))
         }
         else if \<not> slot_valid t \<or> slot_number t \<noteq> root_block then do {
           (ok, t, s) \<leftarrow> load_table (fs_device (job_fs j)) bsize root_block t (job_disk j);
           let j = j\<lparr>job_disk := s\<rparr>;
           Some (ok, if ok then no_leaf (set_root (t\<lparr>slot_dirty := False\<rparr>) j) else set_root t j)
         }
         else Some (True, j))"

text \<open>The cache holds one leaf: a dirty one is written before its place is taken.\<close>

definition save_leaf :: "u32 \<Rightarrow> 's ext2_job \<Rightarrow> (bool \<times> 's ext2_job) option" where
  "save_leaf bsize j =
     do {
       (ok, t, s) \<leftarrow> flush_table (fs_device (job_fs j)) bsize (double_leaf (job_cache j)) (job_disk j);
       Some (ok, set_leaf t (j\<lparr>job_disk := s\<rparr>))
     }"

definition leaf_table :: "u32 \<Rightarrow> u32 \<Rightarrow> u32 \<Rightarrow> 's ext2_job \<Rightarrow> (bool \<times> 's ext2_job) option" where
  "leaf_table bsize sectors_per_block root_index j =
     (let leaf_block = table_entry (double_root (job_cache j)) root_index
      in if leaf_block = 0 then do {
           (ok, j) \<leftarrow> save_leaf bsize j;
           if \<not> ok then Some (False, j)
           else do {
             (n, j) \<leftarrow> new_block j;
             Some (case n of None \<Rightarrow> (False, j)
               | Some b \<Rightarrow>
                   let j = set_root ((set_table_entry root_index b (double_root (job_cache j)))\<lparr>slot_dirty := True\<rparr>) j
                   in (True, set_leaf (new_table bsize b (double_leaf (job_cache j))) (add_sectors sectors_per_block j)))
           }
         }
         else if \<not> slot_valid (double_leaf (job_cache j)) \<or> slot_number (double_leaf (job_cache j)) \<noteq> leaf_block then do {
           (ok, j) \<leftarrow> save_leaf bsize j;
           if \<not> ok then Some (False, j)
           else do {
             (ok, t, s) \<leftarrow> load_table (fs_device (job_fs j)) bsize leaf_block (double_leaf (job_cache j)) (job_disk j);
             Some (ok, set_leaf (if ok then t\<lparr>slot_dirty := False\<rparr> else t) (j\<lparr>job_disk := s\<rparr>))
           }
         }
         else Some (True, j))"

definition double_block :: "u32 \<Rightarrow> u32 \<Rightarrow> u32 \<Rightarrow> u32 \<Rightarrow> 's ext2_job \<Rightarrow> (u32 option \<times> 's ext2_job) option" where
  "double_block bsize sectors_per_block root_index leaf_index j =
     do {
       (ok, j) \<leftarrow> root_table bsize sectors_per_block j;
       if \<not> ok then Some (None, j)
       else do {
         (ok, j) \<leftarrow> leaf_table bsize sectors_per_block root_index j;
         if \<not> ok then Some (None, j)
         else
           let e = table_entry (double_leaf (job_cache j)) leaf_index
           in if e = 0 then do {
                (n, j) \<leftarrow> new_block j;
                Some (case n of None \<Rightarrow> (None, j)
                  | Some b \<Rightarrow> (Some b, add_sectors sectors_per_block
                      (set_leaf ((set_table_entry leaf_index b (double_leaf (job_cache j)))\<lparr>slot_dirty := True\<rparr>) j)))
              }
              else Some (Some e, j)
       }
     }"

definition ext2_get_or_allocate_data_block :: "u32 \<Rightarrow> 's ext2_job \<Rightarrow> (u32 option \<times> 's ext2_job) option" where
  "ext2_get_or_allocate_data_block logical_block j =
     (case fs_device (job_fs j) of
        None \<Rightarrow> Some (None, j)
      | Some d \<Rightarrow> do {
          bsize \<leftarrow> block_size_of (superblock (job_fs j));
          if bsize = 0 \<or> bsize > 4096 then Some (None, j)
          else if bd_sector_size d = 0 \<or> bsize mod bd_sector_size d \<noteq> 0 then Some (None, j)
          else
            let entries_per_block = bsize div 4; sectors_per_block = bsize div bd_sector_size d
            in if entries_per_block = 0 then Some (None, j)
               else if logical_block < 12 then direct_block sectors_per_block logical_block j
               else
                 let index = logical_block - 12
                 in if index < entries_per_block then single_block bsize sectors_per_block index j
                    else
                      let index = index - entries_per_block;
                          double_capacity = ucast entries_per_block * ucast entries_per_block :: u64
                      in if ucast index \<ge> double_capacity then Some (None, j)
                         else double_block bsize sectors_per_block (index div entries_per_block) (index mod entries_per_block) j
        })"

end
