(* ===== verification/Ext2Dir.thy ===== *)
theory Ext2Dir
  imports Ext2
begin

text \<open>
  Directories of an ext2 volume, \<open>kernel/fs/ext2.c\<close>: the entries of a block, the search for a name, and the
  publication of a new child. A header that does not lie inside the block is read beyond the data that
  the disk gave, which is undefined (\<open>None\<close>). The names are C strings, lists of their characters.
\<close>

section \<open>Entries\<close>

definition entry_inode :: "u8 list \<Rightarrow> nat \<Rightarrow> u32" where "entry_inode b off = le32 b off"
definition record_length :: "u8 list \<Rightarrow> nat \<Rightarrow> u16" where "record_length b off = le16 b (off + 4)"
definition name_length :: "u8 list \<Rightarrow> nat \<Rightarrow> u8" where "name_length b off = byte_at b (off + 6)"
definition file_type :: "u8 list \<Rightarrow> nat \<Rightarrow> u8" where "file_type b off = byte_at b (off + 7)"
definition entry_name :: "u8 list \<Rightarrow> nat \<Rightarrow> u8 list" where "entry_name b off = bytes_from b (off + 8) (unat (name_length b off))"

definition name_bytes :: "string \<Rightarrow> u8 list" where
  "name_bytes name = map of_char name"

definition entry_bytes :: "u32 \<Rightarrow> u16 \<Rightarrow> u8 \<Rightarrow> string \<Rightarrow> u8 list" where
  "entry_bytes i len t name = b32 i @ b16 len @ [of_nat (length name), t] @ name_bytes name"

definition ext2_directory_entry_size :: "u8 \<Rightarrow> u16" where
  "ext2_directory_entry_size n = (8 + ucast n + 3) AND NOT 3"

text \<open>The tests that every walk over the entries makes.\<close>

definition entry_sound :: "nat \<Rightarrow> u8 list \<Rightarrow> nat \<Rightarrow> bool option" where
  "entry_sound bsize b off =
     (if off + 6 > bsize then None
      else Some (\<not> (record_length b off < 8) \<and> \<not> (off + unat (record_length b off) > bsize) \<and>
                 \<not> (unat (name_length b off) > unat (record_length b off) - 8)))"

lemma entry_sound_step: "entry_sound bsize b off = Some True \<Longrightarrow> off < bsize \<Longrightarrow> bsize - (off + unat (record_length b off)) < bsize - off"
  by (auto simp: entry_sound_def word_less_nat_alt split: if_splits)

definition entry_names :: "u8 list \<Rightarrow> nat \<Rightarrow> string \<Rightarrow> bool" where
  "entry_names b off name \<longleftrightarrow> entry_inode b off \<noteq> 0 \<and> unat (name_length b off) = length name \<and> entry_name b off = name_bytes name"

section \<open>Listing\<close>

text \<open>What is printed for every used entry.\<close>

function list_entries :: "nat \<Rightarrow> u8 list \<Rightarrow> nat \<Rightarrow> (u32 \<times> u8 \<times> u8 list) list \<Rightarrow> (bool \<times> (u32 \<times> u8 \<times> u8 list) list) option" where
  "list_entries bsize b off out =
     (if off < bsize then
        (case entry_sound bsize b off of
           None \<Rightarrow> None
         | Some False \<Rightarrow> Some (False, out)
         | Some True \<Rightarrow>
             list_entries bsize b (off + unat (record_length b off))
               (if entry_inode b off \<noteq> 0 then out @ [(entry_inode b off, file_type b off, entry_name b off)] else out))
      else Some (True, out))"
  by auto
termination
  by (relation "measure (\<lambda>(n, _, off, _). n - off)") (auto intro: entry_sound_step)

declare list_entries.simps [simp del]

definition ext2_list_directory ::
  "'s block_device option \<Rightarrow> ext2_superblock \<Rightarrow> ext2_inode \<Rightarrow> 's \<Rightarrow> (bool \<times> (u32 \<times> u8 \<times> u8 list) list \<times> 's) option" where
  "ext2_list_directory device sb directory s =
     (if device = None then Some (False, [], s)
      else if \<not> is_directory directory then Some (False, [], s)
      else do {
        bsize \<leftarrow> block_size_of sb;
        if bsize > 4096 then Some (False, [], s)
        else
          let block_number = blocks directory ! 0
          in if block_number = 0 then Some (False, [], s)
             else do {
               (ok, b, s) \<leftarrow> ext2_read_block device bsize block_number block_buffer s;
               if \<not> ok then Some (False, [], s)
               else do { (ok, out) \<leftarrow> list_entries (unat bsize) b 0 []; Some (ok, out, s) }
             }
      })"

section \<open>Searching\<close>

datatype search_result = Corrupt | Absent | Present u32

function search_entries :: "nat \<Rightarrow> u8 list \<Rightarrow> string \<Rightarrow> nat \<Rightarrow> search_result option" where
  "search_entries bsize b name off =
     (if off < bsize then
        (case entry_sound bsize b off of
           None \<Rightarrow> None
         | Some False \<Rightarrow> Some Corrupt
         | Some True \<Rightarrow>
             if entry_names b off name then Some (Present (entry_inode b off))
             else search_entries bsize b name (off + unat (record_length b off)))
      else Some Absent)"
  by auto
termination
  by (relation "measure (\<lambda>(n, _, _, off). n - off)") (auto intro: entry_sound_step)

declare search_entries.simps [simp del]

text \<open>The loop over the direct blocks.\<close>

fun lookup_blocks :: "'s block_device option \<Rightarrow> u32 \<Rightarrow> string \<Rightarrow> u32 list \<Rightarrow> 's \<Rightarrow> (u32 option \<times> 's) option" where
  "lookup_blocks device bsize name [] s = Some (None, s)"
| "lookup_blocks device bsize name (block_number # rest) s =
     (if block_number = 0 then lookup_blocks device bsize name rest s
      else do {
        (ok, b, s) \<leftarrow> ext2_read_block device bsize block_number block_buffer s;
        if \<not> ok then Some (None, s)
        else do {
          r \<leftarrow> search_entries (unat bsize) b name 0;
          (case r of
             Corrupt \<Rightarrow> Some (None, s)
           | Present i \<Rightarrow> Some (Some i, s)
           | Absent \<Rightarrow> lookup_blocks device bsize name rest s)
        }
      })"

definition ext2_lookup :: "'s block_device option \<Rightarrow> ext2_superblock \<Rightarrow> ext2_inode \<Rightarrow> string \<Rightarrow> 's \<Rightarrow> (u32 option \<times> 's) option" where
  "ext2_lookup device sb directory name s =
     (if device = None then Some (None, s)
      else if \<not> is_directory directory then Some (None, s)
      else do {
        bsize \<leftarrow> block_size_of sb;
        if bsize > 4096 then Some (None, s) else lookup_blocks device bsize name (take 12 (blocks directory)) s
      })"

section \<open>Linking a new child\<close>

datatype room_result = Refused | No_Room | Room "u8 list"

text \<open>The block with the new entry, in an unused record or in the slack of a live one.\<close>

function find_room :: "nat \<Rightarrow> u8 list \<Rightarrow> string \<Rightarrow> u32 \<Rightarrow> u8 \<Rightarrow> nat \<Rightarrow> room_result option" where
  "find_room bsize b name inode_number t off =
     (if off < bsize then
        (case entry_sound bsize b off of
           None \<Rightarrow> None
         | Some False \<Rightarrow> Some Refused
         | Some True \<Rightarrow>
             let needed = ext2_directory_entry_size (of_nat (length name));
                 len = record_length b off;
                 actual = ext2_directory_entry_size (name_length b off)
             in if entry_names b off name then Some Refused
                else if entry_inode b off = 0 \<and> len \<ge> needed then Some (Room (put_bytes (entry_bytes inode_number len t name) off b))
                else if entry_inode b off \<noteq> 0 \<and> unat len \<ge> unat actual + unat needed then
                  Some (Room (put_bytes (entry_bytes inode_number (len - actual) t name) (off + unat actual)
                                (put_bytes (b16 actual) (off + 4) b)))
                else find_room bsize b name inode_number t (off + unat len))
      else Some No_Room)"
  by auto
termination
  by (relation "measure (\<lambda>(n, _, _, _, _, off). n - off)") (auto intro: entry_sound_step)

declare find_room.simps [simp del]

text \<open>The child gets its links, a child directory gives its parent one, then the block is written; a failure
  takes the links back.\<close>

definition publish_child :: "'s ext2_fs \<Rightarrow> u32 \<Rightarrow> u32 \<Rightarrow> ext2_inode \<Rightarrow> u32 \<Rightarrow> ext2_inode \<Rightarrow> u8 \<Rightarrow> u16 \<Rightarrow> u32 \<Rightarrow> u8 list \<Rightarrow> 's \<Rightarrow> (bool \<times> 's) option" where
  "publish_child fs bsize directory_inode_number directory inode_number child t child_link_count block_number b s =
     (let dev = fs_device fs; sb = superblock fs;
          take_back = (\<lambda>s. do { (_, s) \<leftarrow> ext2_write_inode dev sb inode_number (child\<lparr>link_count := 0\<rparr>) s; Some (False, s) })
      in do {
        (ok, s) \<leftarrow> ext2_write_inode dev sb inode_number (child\<lparr>link_count := child_link_count\<rparr>) s;
        if \<not> ok then Some (False, s)
        else if t = EXT2_FT_DIR \<and> link_count directory = 0xFFFF then take_back s
        else do {
          (ok, s) \<leftarrow> (if t = EXT2_FT_DIR
                      then ext2_write_inode dev sb directory_inode_number (directory\<lparr>link_count := link_count directory + 1\<rparr>) s
                      else Some (True, s));
          if \<not> ok then take_back s
          else do {
            (ok, s) \<leftarrow> ext2_write_block dev bsize block_number b s;
            if ok then Some (True, s)
            else do {
              (_, s) \<leftarrow> (if t = EXT2_FT_DIR then ext2_write_inode dev sb directory_inode_number directory s else Some (True, s));
              take_back s
            }
          }
        }
      })"

fun link_blocks :: "'s ext2_fs \<Rightarrow> u32 \<Rightarrow> u32 \<Rightarrow> ext2_inode \<Rightarrow> string \<Rightarrow> u32 \<Rightarrow> ext2_inode \<Rightarrow> u8 \<Rightarrow> u16 \<Rightarrow> u32 list \<Rightarrow> 's \<Rightarrow> (bool \<times> 's) option" where
  "link_blocks fs bsize dn directory name inode_number child t n [] s = Some (False, s)"
| "link_blocks fs bsize dn directory name inode_number child t n (block_number # rest) s =
     (if block_number = 0 then link_blocks fs bsize dn directory name inode_number child t n rest s
      else do {
        (ok, b, s) \<leftarrow> ext2_read_block (fs_device fs) bsize block_number block_buffer s;
        if \<not> ok then Some (False, s)
        else do {
          r \<leftarrow> find_room (unat bsize) b name inode_number t 0;
          (case r of
             Refused \<Rightarrow> Some (False, s)
           | No_Room \<Rightarrow> link_blocks fs bsize dn directory name inode_number child t n rest s
           | Room b \<Rightarrow> publish_child fs bsize dn directory inode_number child t n block_number b s)
        }
      })"

definition ext2_link_new_child :: "'s ext2_fs \<Rightarrow> u32 \<Rightarrow> string \<Rightarrow> u32 \<Rightarrow> u8 \<Rightarrow> u16 \<Rightarrow> 's \<Rightarrow> (bool \<times> 's) option" where
  "ext2_link_new_child fs directory_inode_number name inode_number t child_link_count s =
     (if fs_device fs = None then Some (False, s)
      else if t \<noteq> EXT2_FT_REG_FILE \<and> t \<noteq> EXT2_FT_DIR then Some (False, s)
      else if length name = 0 \<or> length name > 255 then Some (False, s)
      else do {
        (directory, s) \<leftarrow> ext2_read_inode (fs_device fs) (superblock fs) directory_inode_number s;
        (case directory of
           None \<Rightarrow> Some (False, s)
         | Some directory \<Rightarrow>
             if \<not> is_directory directory then Some (False, s)
             else do {
               (child, s) \<leftarrow> ext2_read_inode (fs_device fs) (superblock fs) inode_number s;
               (case child of
                  None \<Rightarrow> Some (False, s)
                | Some child \<Rightarrow>
                    if t = EXT2_FT_REG_FILE \<and> \<not> is_regular child then Some (False, s)
                    else if t \<noteq> EXT2_FT_REG_FILE \<and> \<not> is_directory child then Some (False, s)
                    else if link_count child \<noteq> 0 then Some (False, s)
                    else do {
                      bsize \<leftarrow> block_size_of (superblock fs);
                      if bsize = 0 \<or> bsize > 4096 then Some (False, s)
                      else link_blocks fs bsize directory_inode_number directory name inode_number child t child_link_count
                             (take 12 (blocks directory)) s
                    })
             })
      })"

definition ext2_link_new_regular_file :: "'s ext2_fs \<Rightarrow> u32 \<Rightarrow> string \<Rightarrow> u32 \<Rightarrow> 's \<Rightarrow> (bool \<times> 's) option" where
  "ext2_link_new_regular_file fs directory_inode_number name inode_number s =
     ext2_link_new_child fs directory_inode_number name inode_number EXT2_FT_REG_FILE 1 s"

end
