(* ===== verification/Ext2Vnode.thy ===== *)
theory Ext2Vnode
  imports Ext2Alloc Ext2Dir
begin

text \<open>
  The vnode operations of \<open>kernel/fs/ext2.c\<close>, a provider of the operation tables of \<open>Vfs\<close>, and mounting. The
  private data of a vnode is the address of its \<open>ext2_vnode_data_t\<close> on the heap; the vnode that a lookup
  allocates is numbered by its address. Out parameters of a failed call have no meaning.
\<close>

section \<open>The state\<close>

record ext2_vnode_data =
  data_fs :: "nat option"
  data_inode_number :: u32
  data_inode :: ext2_inode
  data_cache :: "u32 option"

record 's ext2_world =
  volumes :: "nat \<Rightarrow> 's ext2_fs"
  vnode_data :: "u32 \<Rightarrow> ext2_vnode_data"
  caches :: "u32 \<Rightarrow> ext2_block_cache"
  disk :: 's

datatype ext2_ops = Ext2_Directory_Ops | Ext2_File_Ops

type_synonym 's ext2 = "(ext2_ops, u32, 's ext2_world) vfs"

definition sizeof_vnode :: u32 where [machine_consts]: "sizeof_vnode = 32"
definition sizeof_vnode_data :: u32 where [machine_consts]: "sizeof_vnode_data = 140"

definition set_disk :: "'s \<Rightarrow> 's ext2 \<Rightarrow> 's ext2" where
  "set_disk d s = s\<lparr>fs_data := (fs_data s)\<lparr>disk := d\<rparr>\<rparr>"

definition set_volume :: "nat \<Rightarrow> 's ext2_fs \<Rightarrow> 's ext2 \<Rightarrow> 's ext2" where
  "set_volume i fs s = s\<lparr>fs_data := (fs_data s)\<lparr>volumes := (volumes (fs_data s))(i := fs)\<rparr>\<rparr>"

definition set_data :: "u32 \<Rightarrow> ext2_vnode_data \<Rightarrow> 's ext2 \<Rightarrow> 's ext2" where
  "set_data a d s = s\<lparr>fs_data := (fs_data s)\<lparr>vnode_data := (vnode_data (fs_data s))(a := d)\<rparr>\<rparr>"

definition set_cache :: "u32 \<Rightarrow> ext2_block_cache \<Rightarrow> 's ext2 \<Rightarrow> 's ext2" where
  "set_cache a c s = s\<lparr>fs_data := (fs_data s)\<lparr>caches := (caches (fs_data s))(a := c)\<rparr>\<rparr>"

text \<open>The data of a vnode and its volume, when neither pointer is NULL.\<close>

definition volume_of :: "vid \<Rightarrow> 's ext2 \<Rightarrow> (u32 \<times> nat) option" where
  "volume_of v s =
     (case private_data (vnodes s v) of
        None \<Rightarrow> None
      | Some a \<Rightarrow> map_option (\<lambda>i. (a, i)) (data_fs (vnode_data (fs_data s) a)))"

definition alloc :: "u32 \<Rightarrow> 's ext2 \<Rightarrow> (u32 option \<times> 's ext2) option" where
  "alloc n s = do { (a, h) \<leftarrow> kmalloc n (kheap s); Some (a, s\<lparr>kheap := h\<rparr>) }"

definition release_heap :: "u32 option \<Rightarrow> 's ext2 \<Rightarrow> 's ext2" where
  "release_heap a s = s\<lparr>kheap := kfree a (kheap s)\<rparr>"

section \<open>Lookup\<close>

definition ext2_vnode_lookup :: "vid \<Rightarrow> string \<Rightarrow> 's ext2 \<Rightarrow> (int \<times> vid option \<times> 's ext2) option" where
  "ext2_vnode_lookup directory name s =
     (case volume_of directory s of
        None \<Rightarrow> Some (- 1, None, s)
      | Some (dir_data, i) \<Rightarrow> do {
          let fs = volumes (fs_data s) i;
          (n, d) \<leftarrow> ext2_lookup (fs_device fs) (superblock fs) (data_inode (vnode_data (fs_data s) dir_data)) name (disk (fs_data s));
          let s = set_disk d s;
          (case n of
             None \<Rightarrow> Some (- 1, None, s)
           | Some inode_number \<Rightarrow> do {
               (ino, d) \<leftarrow> ext2_read_inode (fs_device fs) (superblock fs) inode_number (disk (fs_data s));
               let s = set_disk d s;
               (case ino of
                  None \<Rightarrow> Some (- 1, None, s)
                | Some ino \<Rightarrow> do {
                    (node, s) \<leftarrow> alloc sizeof_vnode s;
                    (case node of
                       None \<Rightarrow> Some (- 1, None, s)
                     | Some a \<Rightarrow> do {
                         (data, s) \<leftarrow> alloc sizeof_vnode_data s;
                         Some (case data of
                            None \<Rightarrow> (- 1, None, release_heap node s)
                          | Some b \<Rightarrow>
                              let s = set_data b \<lparr>data_fs = Some i, data_inode_number = inode_number, data_inode = ino, data_cache = None\<rparr> s
                              in if is_directory ino then
                                   (0, Some (unat a), set_vnode (unat a) (\<lambda>_. \<lparr>vnode_type = VNODE_DIRECTORY, inode = ucast inode_number,
                                      vnode_size = ucast (size_low ino), private_data = Some b, vnode_ops = Some Ext2_Directory_Ops, ref_count = 1\<rparr>) s)
                                 else if is_regular ino then
                                   (0, Some (unat a), set_vnode (unat a) (\<lambda>_. \<lparr>vnode_type = VNODE_REGULAR, inode = ucast inode_number,
                                      vnode_size = ucast (size_low ino), private_data = Some b, vnode_ops = Some Ext2_File_Ops, ref_count = 1\<rparr>) s)
                                 else (- 1, None, release_heap node (release_heap data s)))
                       })
                  })
             })
        })"

section \<open>Reading a directory\<close>

definition no_dirent :: vfs_dirent where
  "no_dirent = \<lparr>dirent_inode = 0, dirent_type = VNODE_REGULAR, dirent_name = []\<rparr>"

text \<open>The type from the entry, or from the inode when the entry does not say.\<close>

definition dirent_kind :: "'s ext2_fs \<Rightarrow> u8 \<Rightarrow> u32 \<Rightarrow> 's \<Rightarrow> (vnode_type option \<times> 's) option" where
  "dirent_kind fs t inode_number d =
     (if t = EXT2_FT_DIR then Some (Some VNODE_DIRECTORY, d)
      else if t = EXT2_FT_REG_FILE then Some (Some VNODE_REGULAR, d)
      else do {
        (child, d) \<leftarrow> ext2_read_inode (fs_device fs) (superblock fs) inode_number d;
        Some (case child of
           None \<Rightarrow> None
         | Some c \<Rightarrow> if is_directory c then Some VNODE_DIRECTORY else if is_regular c then Some VNODE_REGULAR else None, d)
      })"

partial_function (option) readdir_loop ::
  "'s ext2_fs \<Rightarrow> ext2_inode \<Rightarrow> u32 \<Rightarrow> u32 \<Rightarrow> 's \<Rightarrow> (int \<times> vfs_dirent \<times> u32 \<times> 's) option" where
  "readdir_loop fs ino bsize offset d =
     (if offset < size_low ino then
        let logical_block = offset div bsize
        in if logical_block \<ge> 12 then Some (- 1, no_dirent, 0, d)
           else
             let offset_in_block = offset mod bsize; block_number = blocks ino ! unat logical_block
             in if block_number = 0 then
                  let following = (logical_block + 1) * bsize
                  in if following \<le> offset then Some (- 1, no_dirent, 0, d) else readdir_loop fs ino bsize following d
                else do {
                  (ok, b, d) \<leftarrow> ext2_read_block (fs_device fs) bsize block_number block_buffer d;
                  let off = unat offset_in_block;
                  if \<not> ok \<or> off + 8 > unat bsize then Some (- 1, no_dirent, 0, d)
                  else do {
                    sound \<leftarrow> entry_sound (unat bsize) b off;
                    if \<not> sound then Some (- 1, no_dirent, 0, d)
                    else
                      let following_offset = offset + ucast (record_length b off)
                      in if following_offset \<le> offset then Some (- 1, no_dirent, 0, d)
                         else if following_offset > size_low ino then Some (- 1, no_dirent, 0, d)
                         else if entry_inode b off = 0 then readdir_loop fs ino bsize following_offset d
                         else do {
                           (t, d) \<leftarrow> dirent_kind fs (file_type b off) (entry_inode b off) d;
                           Some (case t of
                              None \<Rightarrow> (- 1, no_dirent, 0, d)
                            | Some t \<Rightarrow> (1, \<lparr>dirent_inode = ucast (entry_inode b off), dirent_type = t,
                                           dirent_name = takeWhile (\<lambda>c. c \<noteq> CHR 0x00) (map (\<lambda>w. char_of (unat w)) (entry_name b off))\<rparr>, following_offset, d))
                         }
                  }
                }
      else Some (0, no_dirent, size_low ino, d))"

definition ext2_vnode_readdir :: "vid \<Rightarrow> u32 \<Rightarrow> 's ext2 \<Rightarrow> (int \<times> vfs_dirent \<times> u32 \<times> 's ext2) option" where
  "ext2_vnode_readdir directory offset s =
     (if vnode_type (vnodes s directory) \<noteq> VNODE_DIRECTORY then Some (- 1, no_dirent, 0, s)
      else (case volume_of directory s of
          None \<Rightarrow> Some (- 1, no_dirent, 0, s)
        | Some (a, i) \<Rightarrow>
            let fs = volumes (fs_data s) i; ino = data_inode (vnode_data (fs_data s) a)
            in if fs_device fs = None then Some (- 1, no_dirent, 0, s)
               else if \<not> is_directory ino then Some (- 1, no_dirent, 0, s)
               else do {
                 bsize \<leftarrow> block_size_of (superblock fs);
                 if bsize = 0 \<or> bsize > 4096 then Some (- 1, no_dirent, 0, s)
                 else do {
                   (r, entry, next_offset, d) \<leftarrow> readdir_loop fs ino bsize offset (disk (fs_data s));
                   Some (r, entry, next_offset, set_disk d s)
                 }
               }))"

section \<open>Reading and writing a file\<close>

text \<open>The cache of a vnode, allocated on first use: its address and the state.\<close>

definition ensure_cache :: "u32 \<Rightarrow> 's ext2 \<Rightarrow> (u32 option \<times> 's ext2) option" where
  "ensure_cache a s =
     (let data = vnode_data (fs_data s) a
      in case data_cache data of
           Some c \<Rightarrow> Some (Some c, s)
         | None \<Rightarrow> do {
             (c, s) \<leftarrow> alloc sizeof_block_cache s;
             Some (case c of None \<Rightarrow> (None, s)
               | Some p \<Rightarrow> (Some p, set_cache p empty_cache (set_data a (data\<lparr>data_cache := Some p\<rparr>) s)))
           })"

definition ext2_vnode_read :: "vid \<Rightarrow> u32 \<Rightarrow> u32 \<Rightarrow> 's ext2 \<Rightarrow> (int \<times> u8 list \<times> 's ext2) option" where
  "ext2_vnode_read node offset n s =
     (case volume_of node s of
        None \<Rightarrow> Some (- 1, [], s)
      | Some (a, i) \<Rightarrow> do {
          (cache, s) \<leftarrow> ensure_cache a s;
          (case cache of
             None \<Rightarrow> Some (- 1, [], s)
           | Some c \<Rightarrow> do {
               let fs = volumes (fs_data s) i;
               (r, cache, d) \<leftarrow> ext2_read_file_cached (fs_device fs) (superblock fs) (data_inode (vnode_data (fs_data s) a))
                                  offset n (caches (fs_data s) c) (disk (fs_data s));
               let s = set_disk d (set_cache c cache s);
               Some (case r of None \<Rightarrow> (- 1, [], s) | Some (_, bytes) \<Rightarrow> (0, bytes, s))
             })
        })"

text \<open>\<open>total\<close> bytes of \<open>bytes\<close> have been written so far.\<close>

partial_function (option) write_loop :: "u32 \<Rightarrow> u32 \<Rightarrow> u8 list \<Rightarrow> u32 \<Rightarrow> 's ext2_job \<Rightarrow> (bool \<times> 's ext2_job) option" where
  "write_loop bsize offset bytes written j =
     (if written < of_nat (length bytes) then
        do {
          let file_offset = offset + written;
          let logical_block = file_offset div bsize;
          let offset_in_block = file_offset mod bsize;
          let remaining = of_nat (length bytes) - written;
          let chunk = bsize - offset_in_block;
          let chunk = (if chunk > remaining then remaining else chunk);
          let fs = job_fs j;
          (old, cache, d) \<leftarrow> ext2_get_data_block (fs_device fs) (superblock fs) (job_inode j) logical_block (job_cache j) (job_disk j);
          let j = j\<lparr>job_cache := cache, job_disk := d\<rparr>;
          (case old of
             None \<Rightarrow> Some (False, j)
           | Some old_block_number \<Rightarrow> do {
               (n, j) \<leftarrow> ext2_get_or_allocate_data_block logical_block j;
               (case n of
                  None \<Rightarrow> Some (False, j)
                | Some block_number \<Rightarrow>
                    if block_number = 0 then Some (False, j)
                    else
                      let piece = take (unat chunk) (drop (unat written) bytes)
                      in do {
                        (ok, b, d) \<leftarrow> (if offset_in_block = 0 \<and> chunk = bsize then Some (True, piece, job_disk j)
                                       else if old_block_number = 0 then Some (True, replicate (unat bsize) 0, job_disk j)
                                       else ext2_read_block (fs_device (job_fs j)) bsize block_number block_buffer (job_disk j));
                        let j = j\<lparr>job_disk := d\<rparr>;
                        if \<not> ok then Some (False, j)
                        else do {
                          let b = (if offset_in_block = 0 \<and> chunk = bsize then b else put_bytes piece (unat offset_in_block) b);
                          (ok, d) \<leftarrow> ext2_write_block (fs_device (job_fs j)) bsize block_number b (job_disk j);
                          let j = j\<lparr>job_disk := d\<rparr>;
                          if \<not> ok then Some (False, j) else write_loop bsize offset bytes (written + chunk) j
                        }
                      })
             })
        }
      else Some (True, j))"

text \<open>The deferred metadata: tables, bitmap and descriptor, superblock, inode.\<close>

definition commit_write :: "u32 \<Rightarrow> 's ext2_job \<Rightarrow> (bool \<times> 's ext2_job) option" where
  "commit_write inode_number j =
     do {
       (ok, cache, d) \<leftarrow> ext2_flush_block_cache (job_fs j) (job_cache j) (job_disk j);
       let j = j\<lparr>job_cache := cache, job_disk := d\<rparr>;
       if \<not> ok then Some (False, j)
       else do {
         (ok, ctx, d) \<leftarrow> ext2_flush_allocation_context (job_fs j) (job_context j) (job_disk j);
         let j = j\<lparr>job_context := ctx, job_disk := d\<rparr>;
         if \<not> ok then Some (False, j)
         else
           let (ok, d) = (if allocated_blocks (job_context j) > 0
                          then ext2_write_superblock (fs_device (job_fs j)) (superblock (job_fs j)) (job_disk j) else (True, job_disk j));
               j = j\<lparr>job_disk := d\<rparr>
           in if \<not> ok then Some (False, j)
              else do {
                (ok, d) \<leftarrow> ext2_write_inode (fs_device (job_fs j)) (superblock (job_fs j)) inode_number (job_inode j) (job_disk j);
                Some (ok, j\<lparr>job_disk := d\<rparr>)
              }
       }
     }"

text \<open>What a job changed goes back to the volume, the vnode data, the cache and the disk; the context is a local.\<close>

definition put_job :: "nat \<Rightarrow> u32 \<Rightarrow> u32 \<Rightarrow> 's ext2_job \<Rightarrow> 's ext2 \<Rightarrow> 's ext2" where
  "put_job i a c j s =
     set_disk (job_disk j) (set_cache c (job_cache j)
       (set_data a ((vnode_data (fs_data s) a)\<lparr>data_inode := job_inode j\<rparr>) (set_volume i (job_fs j) s)))"

definition supported_bytes :: "u32 \<Rightarrow> u64" where
  "supported_bytes bsize = (let e = ucast (bsize div 4) :: u64 in (12 + e + e * e) * ucast bsize)"

definition ext2_vnode_write :: "vid \<Rightarrow> u32 \<Rightarrow> u8 list \<Rightarrow> 's ext2 \<Rightarrow> (int \<times> u32 \<times> 's ext2) option" where
  "ext2_vnode_write node offset bytes s =
     (case volume_of node s of
        None \<Rightarrow> Some (- 1, 0, s)
      | Some (a, i) \<Rightarrow>
          let fs = volumes (fs_data s) i; data = vnode_data (fs_data s) a; n = of_nat (length bytes) :: u32
          in case fs_device fs of
               None \<Rightarrow> Some (- 1, 0, s)
             | Some dev \<Rightarrow>
                 if bd_write dev = None then Some (- 1, 0, s)
                 else if n = 0 then Some (0, 0, s)
                 else if offset > size_low (data_inode data) then Some (- 1, 0, s)
                 else if n > SIZE_MAX - offset then Some (- 1, 0, s)
                 else do {
                   let end_offset = offset + n;
                   bsize \<leftarrow> block_size_of (superblock fs);
                   if bsize = 0 \<or> bsize > 4096 then Some (- 1, 0, s)
                   else if bd_sector_size dev = 0 \<or> bsize mod bd_sector_size dev \<noteq> 0 then Some (- 1, 0, s)
                   else if bsize div 4 = 0 then Some (- 1, 0, s)
                   else if ucast end_offset > supported_bytes bsize then Some (- 1, 0, s)
                   else do {
                     (cache, s) \<leftarrow> ensure_cache a s;
                     (case cache of
                        None \<Rightarrow> Some (- 1, 0, s)
                      | Some c \<Rightarrow> do {
                          let j = \<lparr>job_fs = fs, job_inode = data_inode data, job_cache = caches (fs_data s) c, job_context = empty_context,
                                   job_disk = disk (fs_data s)\<rparr>;
                          (ok, j) \<leftarrow> write_loop bsize offset bytes 0 j;
                          if \<not> ok then Some (- 1, 0, put_job i a c j s)
                          else do {
                            let ino = job_inode j;
                            let j = (if end_offset > size_low ino then j\<lparr>job_inode := ino\<lparr>size_low := end_offset\<rparr>\<rparr> else j);
                            (ok, j) \<leftarrow> commit_write (data_inode_number data) j;
                            let s = put_job i a c j s;
                            Some (if \<not> ok then (- 1, 0, s)
                                  else (0, n, set_vnode node (vnode_size_update (\<lambda>_. ucast (size_low (job_inode j)))) s))
                          }
                        })
                   }
                 })"

section \<open>Truncating\<close>

text \<open>The volume and the disk after freeing the blocks of a table, holes skipped.\<close>

fun free_entries :: "u32 list \<Rightarrow> 's ext2_fs \<Rightarrow> 's \<Rightarrow> (bool \<times> 's ext2_fs \<times> 's) option" where
  "free_entries [] fs d = Some (True, fs, d)"
| "free_entries (n # ns) fs d =
     (if n = 0 then free_entries ns fs d
      else do {
        (ok, fs, d) \<leftarrow> ext2_free_block fs n d;
        if \<not> ok then Some (False, fs, d) else free_entries ns fs d
      })"

definition table_numbers :: "u32 \<Rightarrow> u8 list \<Rightarrow> u32 list" where
  "table_numbers bsize b = map (\<lambda>i. le32 b (4 * i)) [0..<unat (bsize div 4)]"

text \<open>The direct blocks; each is cleared in the inode as soon as it is free.\<close>

fun free_direct :: "nat list \<Rightarrow> 's ext2_fs \<Rightarrow> ext2_inode \<Rightarrow> 's \<Rightarrow> (bool \<times> 's ext2_fs \<times> ext2_inode \<times> 's) option" where
  "free_direct [] fs ino d = Some (True, fs, ino, d)"
| "free_direct (i # is) fs ino d =
     (if blocks ino ! i = 0 then free_direct is fs ino d
      else do {
        (ok, fs, d) \<leftarrow> ext2_free_block fs (blocks ino ! i) d;
        if \<not> ok then Some (False, fs, ino, d) else free_direct is fs (ino\<lparr>blocks := (blocks ino)[i := 0]\<rparr>) d
      })"

definition free_single :: "u32 \<Rightarrow> 's ext2_fs \<Rightarrow> ext2_inode \<Rightarrow> 's \<Rightarrow> (bool \<times> 's ext2_fs \<times> ext2_inode \<times> 's) option" where
  "free_single bsize fs ino d =
     (let n = blocks ino ! 12
      in if n = 0 then Some (True, fs, ino, d)
         else do {
           (ok, b, d) \<leftarrow> ext2_read_block (fs_device fs) bsize n block_buffer d;
           if \<not> ok then Some (False, fs, ino, d)
           else do {
             (ok, fs, d) \<leftarrow> free_entries (table_numbers bsize b) fs d;
             if \<not> ok then Some (False, fs, ino, d)
             else do {
               (ok, fs, d) \<leftarrow> ext2_free_block fs n d;
               Some (ok, fs, if ok then ino\<lparr>blocks := (blocks ino)[12 := 0]\<rparr> else ino, d)
             }
           }
         })"

fun free_leaves :: "u32 \<Rightarrow> u32 list \<Rightarrow> 's ext2_fs \<Rightarrow> 's \<Rightarrow> (bool \<times> 's ext2_fs \<times> 's) option" where
  "free_leaves bsize [] fs d = Some (True, fs, d)"
| "free_leaves bsize (n # ns) fs d =
     (if n = 0 then free_leaves bsize ns fs d
      else do {
        (ok, b, d) \<leftarrow> ext2_read_block (fs_device fs) bsize n block_buffer d;
        if \<not> ok then Some (False, fs, d)
        else do {
          (ok, fs, d) \<leftarrow> free_entries (table_numbers bsize b) fs d;
          if \<not> ok then Some (False, fs, d)
          else do {
            (ok, fs, d) \<leftarrow> ext2_free_block fs n d;
            if \<not> ok then Some (False, fs, d) else free_leaves bsize ns fs d
          }
        }
      })"

definition free_double :: "u32 \<Rightarrow> 's ext2_fs \<Rightarrow> ext2_inode \<Rightarrow> 's \<Rightarrow> (bool \<times> 's ext2_fs \<times> ext2_inode \<times> 's) option" where
  "free_double bsize fs ino d =
     (let n = blocks ino ! 13
      in if n = 0 then Some (True, fs, ino, d)
         else do {
           (ok, b, d) \<leftarrow> ext2_read_block (fs_device fs) bsize n block_buffer d;
           if \<not> ok then Some (False, fs, ino, d)
           else do {
             (ok, fs, d) \<leftarrow> free_leaves bsize (table_numbers bsize b) fs d;
             if \<not> ok then Some (False, fs, ino, d)
             else do {
               (ok, fs, d) \<leftarrow> ext2_free_block fs n d;
               Some (ok, fs, if ok then ino\<lparr>blocks := (blocks ino)[13 := 0]\<rparr> else ino, d)
             }
           }
         })"

definition free_file_blocks :: "u32 \<Rightarrow> 's ext2_fs \<Rightarrow> ext2_inode \<Rightarrow> 's \<Rightarrow> (bool \<times> 's ext2_fs \<times> ext2_inode \<times> 's) option" where
  "free_file_blocks bsize fs ino d =
     do {
       (ok, fs, ino, d) \<leftarrow> free_direct [0..<12] fs ino d;
       if \<not> ok then Some (False, fs, ino, d)
       else do {
         (ok, fs, ino, d) \<leftarrow> free_single bsize fs ino d;
         if \<not> ok then Some (False, fs, ino, d) else free_double bsize fs ino d
       }
     }"

text \<open>The failures after the three buffers were allocated do not free them.\<close>

definition ext2_vnode_truncate :: "vid \<Rightarrow> u32 \<Rightarrow> 's ext2 \<Rightarrow> (int \<times> 's ext2) option" where
  "ext2_vnode_truncate node n s =
     (if n \<noteq> 0 then Some (- 1, s)
      else if vnode_type (vnodes s node) \<noteq> VNODE_REGULAR then Some (- 1, s)
      else (case volume_of node s of
          None \<Rightarrow> Some (- 1, s)
        | Some (a, i) \<Rightarrow> do {
            let fs = volumes (fs_data s) i;
            bsize \<leftarrow> block_size_of (superblock fs);
            if bsize = 0 \<or> bsize > 4096 then Some (- 1, s)
            else if bsize div 4 = 0 then Some (- 1, s)
            else do {
              (p, s) \<leftarrow> alloc bsize s;
              (q, s) \<leftarrow> alloc bsize s;
              (r, s) \<leftarrow> alloc bsize s;
              let release_all = (\<lambda>s. release_heap r (release_heap q (release_heap p s)));
              if p = None \<or> q = None \<or> r = None then Some (- 1, release_all s)
              else do {
                let data = vnode_data (fs_data s) a;
                (ok, fs, ino, d) \<leftarrow> free_file_blocks bsize fs (data_inode data) (disk (fs_data s));
                let put = (\<lambda>ino s. set_data a (data\<lparr>data_inode := ino\<rparr>) (set_volume i fs (set_disk d s)));
                if \<not> ok \<or> blocks ino ! 14 \<noteq> 0 then Some (- 1, put ino s)
                else do {
                  let ino = ino\<lparr>size_low := 0, size_high := 0, inode_sectors := 0\<rparr>;
                  let s = put ino s;
                  (ok, d) \<leftarrow> ext2_write_inode (fs_device fs) (superblock fs) (data_inode_number data) ino (disk (fs_data s));
                  let s = set_disk d s;
                  if \<not> ok then Some (- 1, s)
                  else
                    let s = set_vnode node (vnode_size_update (\<lambda>_. 0)) s;
                        s = (case data_cache data of None \<Rightarrow> s | Some c \<Rightarrow> set_cache c empty_cache s)
                    in Some (0, release_all s)
                }
              }
            }
          }))"

section \<open>Creating\<close>

definition ext2_vnode_create :: "vid \<Rightarrow> string \<Rightarrow> 's ext2 \<Rightarrow> (int \<times> vid option \<times> 's ext2) option" where
  "ext2_vnode_create directory name s =
     (if vnode_type (vnodes s directory) \<noteq> VNODE_DIRECTORY then Some (- 1, None, s)
      else (case volume_of directory s of
          None \<Rightarrow> Some (- 1, None, s)
        | Some (a, i) \<Rightarrow> do {
            (r, existing, s) \<leftarrow> ext2_vnode_lookup directory name s;
            if r = 0 then Some (- 1, None, vnode_unref existing s)
            else do {
              (n, fs, d) \<leftarrow> ext2_allocate_inode (volumes (fs_data s) i) (disk (fs_data s));
              let s = set_disk d (set_volume i fs s);
              (case n of
                 None \<Rightarrow> Some (- 1, None, s)
               | Some inode_number \<Rightarrow> do {
                   (ok, d) \<leftarrow> ext2_link_new_regular_file fs (data_inode_number (vnode_data (fs_data s) a)) name inode_number (disk (fs_data s));
                   let s = set_disk d s;
                   if \<not> ok then Some (- 1, None, s) else ext2_vnode_lookup directory name s
                 })
            }
          }))"

text \<open>The first block of a new directory: ``.'' and ``..''.\<close>

definition new_directory_block :: "u32 \<Rightarrow> u32 \<Rightarrow> u32 \<Rightarrow> u8 list" where
  "new_directory_block bsize inode_number parent_number =
     (let dot_size = ext2_directory_entry_size 1
      in put_bytes (entry_bytes parent_number (ucast (bsize - ucast dot_size)) EXT2_FT_DIR ''..'') (unat dot_size)
           (put_bytes (entry_bytes inode_number dot_size EXT2_FT_DIR ''.'') 0 (replicate (unat bsize) 0)))"

text \<open>One block for the directory, on the disk before the inode refers to it; \<open>None\<close> when that fails.\<close>

definition allocate_directory_block :: "'s ext2_fs \<Rightarrow> 's \<Rightarrow> (u32 option \<times> 's ext2_fs \<times> 's) option" where
  "allocate_directory_block fs d =
     do {
       (n, fs, ctx, d) \<leftarrow> ext2_allocate_block fs empty_context d;
       if n = None \<or> n = Some 0 then Some (None, fs, d)
       else do {
         (ok, ctx, d) \<leftarrow> ext2_flush_allocation_context fs ctx d;
         if \<not> ok then Some (None, fs, d)
         else
           let (ok, d) = (if allocated_blocks ctx > 0 then ext2_write_superblock (fs_device fs) (superblock fs) d else (True, d))
           in Some (if ok then n else None, fs, d)
       }
     }"

text \<open>The child's inode and its group's directory count; \<open>Some (d, grp)\<close> when both were written.\<close>

definition write_directory :: "'s ext2_fs \<Rightarrow> u32 \<Rightarrow> u32 \<Rightarrow> u32 \<Rightarrow> u32 \<Rightarrow> ext2_inode \<Rightarrow> 's \<Rightarrow>
    ((ext2_group_descriptor \<times> u32) option \<times> 's ext2_fs \<times> 's) option" where
  "write_directory fs bsize inode_number parent_number directory_block child d =
     do {
       (ok, d) \<leftarrow> ext2_write_block (fs_device fs) bsize directory_block (new_directory_block bsize inode_number parent_number) d;
       if \<not> ok then do { (_, fs, d) \<leftarrow> ext2_free_block fs directory_block d; Some (None, fs, d) }
       else do {
         sectors \<leftarrow> (case fs_device fs of None \<Rightarrow> None | Some dev \<Rightarrow> checked_div bsize (bd_sector_size dev));
         let child = child\<lparr>mode := EXT2_S_IFDIR OR 0x1ED, size_low := bsize, size_high := 0, link_count := 0,
                        blocks := (blocks child)[0 := directory_block], inode_sectors := sectors\<rparr>;
         (ok, d) \<leftarrow> ext2_write_inode (fs_device fs) (superblock fs) inode_number child d;
         if \<not> ok then do { (_, fs, d) \<leftarrow> ext2_free_block fs directory_block d; Some (None, fs, d) }
         else do {
           grp \<leftarrow> checked_div (inode_number - 1) (inodes_per_group (superblock fs));
           (descriptor, d) \<leftarrow> ext2_read_group_descriptor (fs_device fs) (superblock fs) grp d;
           (case descriptor of
              None \<Rightarrow> Some (None, fs, d)
            | Some g \<Rightarrow>
                if used_dirs_count g = 0xFFFF then Some (None, fs, d)
                else do {
                  let g = g\<lparr>used_dirs_count := used_dirs_count g + 1\<rparr>;
                  (ok, d) \<leftarrow> ext2_write_group_descriptor (fs_device fs) (superblock fs) grp g d;
                  Some (if ok then Some (g, grp) else None, fs, d)
                })
         }
       }
     }"

text \<open>Everything of \<open>mkdir\<close> that works on the volume: the new inode, its block, and the entry in the parent.\<close>

definition make_directory :: "'s ext2_fs \<Rightarrow> u32 \<Rightarrow> string \<Rightarrow> 's \<Rightarrow> (bool \<times> 's ext2_fs \<times> 's) option" where
  "make_directory fs parent_number name d =
     do {
       (n, fs, d) \<leftarrow> ext2_allocate_inode_with_mode fs (EXT2_S_IFDIR OR 0x1ED) d;
       (case n of
          None \<Rightarrow> Some (False, fs, d)
        | Some inode_number \<Rightarrow> do {
            (child, d) \<leftarrow> ext2_read_inode (fs_device fs) (superblock fs) inode_number d;
            (case child of
               None \<Rightarrow> Some (False, fs, d)
             | Some child \<Rightarrow> do {
                 bsize \<leftarrow> block_size_of (superblock fs);
                 if bsize = 0 \<or> bsize > 4096 \<or>
                    (case fs_device fs of None \<Rightarrow> True | Some dev \<Rightarrow> bd_sector_size dev = 0 \<or> bsize mod bd_sector_size dev \<noteq> 0)
                 then Some (False, fs, d)
                 else do {
                   (b, fs, d) \<leftarrow> allocate_directory_block fs d;
                   (case b of
                      None \<Rightarrow> Some (False, fs, d)
                    | Some directory_block \<Rightarrow> do {
                        (r, fs, d) \<leftarrow> write_directory fs bsize inode_number parent_number directory_block child d;
                        (case r of
                           None \<Rightarrow> Some (False, fs, d)
                         | Some (g, grp) \<Rightarrow> do {
                             (ok, d) \<leftarrow> ext2_link_new_child fs parent_number name inode_number EXT2_FT_DIR 2 d;
                             if ok then Some (True, fs, d)
                             else if used_dirs_count g > 0 then do {
                               (_, d) \<leftarrow> ext2_write_group_descriptor (fs_device fs) (superblock fs) grp
                                          (g\<lparr>used_dirs_count := used_dirs_count g - 1\<rparr>) d;
                               Some (False, fs, d)
                             }
                             else Some (False, fs, d)
                           })
                      })
                 }
               })
          })
     }"

definition ext2_vnode_mkdir :: "vid \<Rightarrow> string \<Rightarrow> 's ext2 \<Rightarrow> (int \<times> vid option \<times> 's ext2) option" where
  "ext2_vnode_mkdir directory name s =
     (if vnode_type (vnodes s directory) \<noteq> VNODE_DIRECTORY then Some (- 1, None, s)
      else if length name = 0 \<or> length name > 255 then Some (- 1, None, s)
      else if name = ''.'' \<or> name = ''..'' then Some (- 1, None, s)
      else (case volume_of directory s of
          None \<Rightarrow> Some (- 1, None, s)
        | Some (a, i) \<Rightarrow> do {
            (r, existing, s) \<leftarrow> ext2_vnode_lookup directory name s;
            if r = 0 then Some (- 1, None, vnode_unref existing s)
            else do {
              (ok, fs, d) \<leftarrow> make_directory (volumes (fs_data s) i) (data_inode_number (vnode_data (fs_data s) a)) name (disk (fs_data s));
              let s = set_disk d (set_volume i fs s);
              if \<not> ok then Some (- 1, None, s) else ext2_vnode_lookup directory name s
            }
          }))"

section \<open>Mounting\<close>

definition ext2_table :: "ext2_ops \<Rightarrow> (ext2_ops, u32, 's ext2_world) fs_ops" where
  "ext2_table k = (case k of
     Ext2_Directory_Ops \<Rightarrow> no_ops\<lparr>op_lookup := Some ext2_vnode_lookup, op_readdir := Some ext2_vnode_readdir,
       op_create := Some ext2_vnode_create, op_mkdir := Some ext2_vnode_mkdir\<rparr>
   | Ext2_File_Ops \<Rightarrow> no_ops\<lparr>op_read := Some ext2_vnode_read, op_write := Some ext2_vnode_write, op_truncate := Some ext2_vnode_truncate\<rparr>)"

text \<open>The volume \<open>i\<close> is the \<open>fs\<close> argument.\<close>

definition ext2_mount :: "'s block_device option \<Rightarrow> nat \<Rightarrow> 's ext2 \<Rightarrow> (bool \<times> 's ext2) option" where
  "ext2_mount device i s =
     (if device = None then Some (False, s)
      else
        let fs = volumes (fs_data s) i;
            (ok, sb, d) = ext2_read_superblock device (superblock fs) (disk (fs_data s));
            fs = fs\<lparr>superblock := sb\<rparr>;
            s = set_disk d (set_volume i fs s)
        in if \<not> ok then Some (False, s)
           else do {
             let fs = fs\<lparr>fs_device := device\<rparr>;
             let s = set_volume i fs s;
             (root, d) \<leftarrow> ext2_read_inode device sb EXT2_ROOT_INODE (disk (fs_data s));
             let s = set_disk d s;
             (case root of
                None \<Rightarrow> Some (False, s)
              | Some root_inode \<Rightarrow>
                  if \<not> is_directory root_inode then Some (False, s)
                  else do {
                    (data, s) \<leftarrow> alloc sizeof_vnode_data s;
                    Some (case data of
                       None \<Rightarrow> (False, s)
                     | Some a \<Rightarrow>
                         (True, set_vnode (root_vnode fs) (\<lambda>_. \<lparr>vnode_type = VNODE_DIRECTORY, inode = ucast EXT2_ROOT_INODE,
                              vnode_size = ucast (size_low root_inode), private_data = Some a, vnode_ops = Some Ext2_Directory_Ops, ref_count = 0\<rparr>)
                            (set_data a \<lparr>data_fs = Some i, data_inode_number = EXT2_ROOT_INODE, data_inode = root_inode, data_cache = None\<rparr> s)))
                  })
           })"

end
