(* ===== verification/Elf.thy ===== *)
theory Elf
  imports Paging Bytes
begin

text \<open>
  Loading an ELF32 executable into a fresh address space, \<open>kernel/process/elf.c\<close>, and the one-page images of
  \<open>kernel/process/user_image.c\<close>. Frames are filled through a supervisor page at a scratch address of the
  current address space. A page fault and the endless halts of the code are \<open>None\<close>.
\<close>

section \<open>The file\<close>

definition ELF_USER_LIMIT :: u32 where [machine_consts]: "ELF_USER_LIMIT = 0xC0000000"
definition ELF_PAGE_SCRATCH_ADDRESS :: u32 where [machine_consts]: "ELF_PAGE_SCRATCH_ADDRESS = 0xE0000000"
definition ELF_USER_MAX_ARGS :: u32 where [machine_consts]: "ELF_USER_MAX_ARGS = 16"
definition ELF_USER_MAX_ARG_LENGTH :: u32 where [machine_consts]: "ELF_USER_MAX_ARG_LENGTH = 256"
definition ELF_PROGRAM_LOAD :: u32 where [machine_consts]: "ELF_PROGRAM_LOAD = 1"
definition ELF_PROGRAM_FLAG_EXECUTE :: u32 where [machine_consts]: "ELF_PROGRAM_FLAG_EXECUTE = 1"
definition ELF_PROGRAM_FLAG_WRITE :: u32 where [machine_consts]: "ELF_PROGRAM_FLAG_WRITE = 2"
definition sizeof_elf_header :: u32 where [machine_consts]: "sizeof_elf_header = 52"
definition sizeof_program_header :: u32 where [machine_consts]: "sizeof_program_header = 32"

record elf_header =
  e_type :: u16
  e_machine :: u16
  e_version :: u32
  e_entry :: u32
  program_header_offset :: u32
  e_header_size :: u16
  program_header_entry_size :: u16
  program_header_count :: u16

definition elf_header_of :: "u8 list \<Rightarrow> elf_header" where
  "elf_header_of bs =
     \<lparr>e_type = le16 bs 16, e_machine = le16 bs 18, e_version = le32 bs 20, e_entry = le32 bs 24, program_header_offset = le32 bs 28,
      e_header_size = le16 bs 40, program_header_entry_size = le16 bs 42, program_header_count = le16 bs 44\<rparr>"

record program_header =
  p_type :: u32
  p_offset :: u32
  p_vaddr :: u32
  p_filesz :: u32
  p_memsz :: u32
  p_flags :: u32
  p_align :: u32

definition program_header_of :: "u8 list \<Rightarrow> nat \<Rightarrow> program_header" where
  "program_header_of bs off =
     \<lparr>p_type = le32 bs off, p_offset = le32 bs (off + 4), p_vaddr = le32 bs (off + 8), p_filesz = le32 bs (off + 16),
      p_memsz = le32 bs (off + 20), p_flags = le32 bs (off + 24), p_align = le32 bs (off + 28)\<rparr>"

definition file_range_valid :: "u32 \<Rightarrow> u32 \<Rightarrow> u32 \<Rightarrow> bool" where
  "file_range_valid offset len file_size = (if offset > file_size then False else len \<le> file_size - offset)"

definition page_align_down :: "u32 \<Rightarrow> u32" where
  "page_align_down address = address AND NOT (PAGE_SIZE - 1)"

text \<open>A string is what the memory holds from its address on.\<close>

definition bounded_string_length :: "(nat \<Rightarrow> u8) option \<Rightarrow> u32 \<Rightarrow> nat option" where
  "bounded_string_length str maximum =
     (case str of
        None \<Rightarrow> None
      | Some f \<Rightarrow> if maximum = 0 then None else List.find (\<lambda>i. f i = 0) [0..<unat maximum])"

definition elf_identification_ok :: "u8 list \<Rightarrow> bool" where
  "elf_identification_ok bs \<longleftrightarrow> take 7 bs = [0x7F, 0x45, 0x4C, 0x46, 1, 1, 1]"

definition elf_header_ok :: "elf_header \<Rightarrow> bool" where
  "elf_header_ok h \<longleftrightarrow>
     \<not> (e_type h \<noteq> 2 \<or> e_machine h \<noteq> 3 \<or> e_version h \<noteq> 1) \<and>
     \<not> (ucast (e_header_size h) \<noteq> sizeof_elf_header \<or> ucast (program_header_entry_size h) \<noteq> sizeof_program_header \<or> program_header_count h = 0)"

section \<open>Filling frames\<close>

text \<open>One byte of the little-endian word that the memory management unit finds.\<close>

definition write_byte :: "u32 \<Rightarrow> u8 \<Rightarrow> paging_state \<Rightarrow> paging_state option" where
  "write_byte va b s =
     do {
       a \<leftarrow> translate s va;
       let k = 8 * unat (a AND 3);
       let w = physical_memory s (a AND NOT 3);
       Some (s\<lparr>physical_memory := (physical_memory s)(a AND NOT 3 := (w AND NOT (push_bit k 0xFF)) OR push_bit k (ucast b))\<rparr>)
     }"

fun write_bytes :: "u32 \<Rightarrow> u8 list \<Rightarrow> paging_state \<Rightarrow> paging_state option" where
  "write_bytes va [] s = Some s"
| "write_bytes va (b # bs) s = write_byte va b s \<bind> write_bytes (va + 1) bs"

text \<open>A frame, mapped at the scratch address and cleared; 0 when there is none or the mapping fails.\<close>

definition scratch_frame :: "paging_state \<Rightarrow> (u32 \<times> paging_state) option" where
  "scratch_frame s =
     (let (frame, s) = take_frame s
      in if frame = 0 then Some (0, s)
         else do {
           (ok, s) \<leftarrow> paging_map_page ELF_PAGE_SCRATCH_ADDRESS frame PAGE_WRITABLE s;
           if \<not> ok then Some (0, give_frame frame s)
           else do { s \<leftarrow> clear_words ELF_PAGE_SCRATCH_ADDRESS 1024 s; Some (frame, s) }
         })"

text \<open>The scratch page goes; if it cannot, the processor halts.\<close>

definition drop_scratch :: "paging_state \<Rightarrow> paging_state option" where
  "drop_scratch s = do { (ok, s) \<leftarrow> paging_unmap_page ELF_PAGE_SCRATCH_ADDRESS False s; if ok then Some s else None }"

text \<open>The part of the file that lies on a page: destination offset and bytes.\<close>

definition page_bytes :: "u32 \<Rightarrow> u8 list \<Rightarrow> program_header \<Rightarrow> u32 \<times> u8 list" where
  "page_bytes virtual_page file_data segment =
     (let page_start = ucast virtual_page :: u64;
          page_end = page_start + ucast PAGE_SIZE;
          file_virtual_start = ucast (p_vaddr segment);
          file_virtual_end = file_virtual_start + ucast (p_filesz segment);
          copy_start = (if page_start > file_virtual_start then page_start else file_virtual_start);
          copy_end = (if page_end < file_virtual_end then page_end else file_virtual_end)
      in if copy_start < copy_end then
           (ucast (copy_start - page_start),
            bytes_from file_data (unat (p_offset segment + ucast (copy_start - file_virtual_start))) (unat (copy_end - copy_start)))
         else (0, []))"

definition populate_segment_page :: "u32 \<Rightarrow> u32 \<Rightarrow> u8 list \<Rightarrow> program_header \<Rightarrow> paging_state \<Rightarrow> (bool \<times> paging_state) option" where
  "populate_segment_page directory virtual_page file_data segment s =
     do {
       (frame, s) \<leftarrow> scratch_frame s;
       if frame = 0 then Some (False, s)
       else do {
         let (destination_offset, bytes) = page_bytes virtual_page file_data segment;
         s \<leftarrow> write_bytes (ELF_PAGE_SCRATCH_ADDRESS + destination_offset) bytes s;
         s \<leftarrow> drop_scratch s;
         let mapping_flags = (if p_flags segment AND ELF_PROGRAM_FLAG_WRITE \<noteq> 0 then PAGE_USER OR PAGE_WRITABLE else PAGE_USER);
         (ok, s) \<leftarrow> paging_map_page_in_directory directory virtual_page frame mapping_flags s;
         Some (if ok then (True, s) else (False, give_frame frame s))
       }
     }"

section \<open>Segments\<close>

definition segment_alignment_ok :: "program_header \<Rightarrow> bool" where
  "segment_alignment_ok segment \<longleftrightarrow>
     (let alignment = p_align segment
      in alignment > 1 \<longrightarrow> alignment AND (alignment - 1) = 0 \<and>
           p_offset segment AND (alignment - 1) = p_vaddr segment AND (alignment - 1))"

definition segment_ok :: "u32 \<Rightarrow> program_header \<Rightarrow> bool" where
  "segment_ok file_size segment \<longleftrightarrow>
     (let memory_start = ucast (p_vaddr segment) :: u64; memory_end = memory_start + ucast (p_memsz segment)
      in \<not> (p_filesz segment > p_memsz segment) \<and> file_range_valid (p_offset segment) (p_filesz segment) file_size \<and>
         \<not> (memory_start = 0 \<or> memory_end \<le> memory_start \<or> memory_end > ucast ELF_USER_LIMIT) \<and> segment_alignment_ok segment)"

partial_function (option) populate_loop :: "u32 \<Rightarrow> u64 \<Rightarrow> u64 \<Rightarrow> u8 list \<Rightarrow> program_header \<Rightarrow> paging_state \<Rightarrow> (bool \<times> paging_state) option" where
  "populate_loop directory page final_page_end file_data segment s =
     (if page < final_page_end then
        do {
          (ok, s) \<leftarrow> populate_segment_page directory (ucast page) file_data segment s;
          if \<not> ok then Some (False, s) else populate_loop directory (page + ucast PAGE_SIZE) final_page_end file_data segment s
        }
      else Some (True, s))"

definition load_segment :: "u32 \<Rightarrow> u8 list \<Rightarrow> program_header \<Rightarrow> paging_state \<Rightarrow> (bool \<times> paging_state) option" where
  "load_segment directory file_data segment s =
     (if p_memsz segment = 0 then Some (True, s)
      else if \<not> segment_ok (of_nat (length file_data)) segment then Some (False, s)
      else
        let memory_end = ucast (p_vaddr segment) + ucast (p_memsz segment) :: u64;
            first_page = page_align_down (p_vaddr segment);
            final_page_end = (memory_end + ucast (PAGE_SIZE - 1)) AND NOT (ucast (PAGE_SIZE - 1))
        in populate_loop directory (ucast first_page) final_page_end file_data segment s)"

section \<open>The stack\<close>

definition stack_range_ok :: "u32 \<Rightarrow> u32 \<Rightarrow> bool" where
  "stack_range_ok stack_address stack_top \<longleftrightarrow>
     is_page_aligned stack_address \<and> is_page_aligned stack_top \<and>
     \<not> (stack_address = 0 \<or> stack_address \<ge> ELF_USER_LIMIT \<or> stack_top > ELF_USER_LIMIT \<or> stack_top \<le> stack_address) \<and>
     is_page_aligned (stack_top - stack_address) \<and> (stack_top - stack_address) div PAGE_SIZE \<noteq> 0"

text \<open>The lengths of the arguments, when each ends within its bound.\<close>

definition argument_lengths :: "u32 \<Rightarrow> (nat \<Rightarrow> (nat \<Rightarrow> u8) option) option \<Rightarrow> nat list option" where
  "argument_lengths argc argv =
     (case argv of
        None \<Rightarrow> None
      | Some args \<Rightarrow>
          if argc = 0 \<or> argc > ELF_USER_MAX_ARGS then None
          else those (map (\<lambda>i. bounded_string_length (args i) ELF_USER_MAX_ARG_LENGTH) [0..<unat argc]))"

text \<open>One cleared frame per page; the result is the frame of the last page, \<open>None\<close> for a failure.\<close>

partial_function (option) stack_loop :: "u32 \<Rightarrow> u32 \<Rightarrow> u32 \<Rightarrow> u32 \<Rightarrow> paging_state \<Rightarrow> (u32 option \<times> paging_state) option" where
  "stack_loop directory virtual_page stack_top top_stack_frame s =
     (if virtual_page < stack_top then
        do {
          (frame, s) \<leftarrow> scratch_frame s;
          if frame = 0 then Some (None, s)
          else do {
            s \<leftarrow> drop_scratch s;
            (ok, s) \<leftarrow> paging_map_page_in_directory directory virtual_page frame (PAGE_USER OR PAGE_WRITABLE) s;
            if \<not> ok then Some (None, give_frame frame s)
            else stack_loop directory (virtual_page + PAGE_SIZE) stack_top
                   (if virtual_page = stack_top - PAGE_SIZE then frame else top_stack_frame) s
          }
        }
      else Some (Some top_stack_frame, s))"

text \<open>The strings, copied downward from the top; each item is the index and the length of an argument. The
  result is the stack pointer and the addresses by increasing index, \<open>None\<close> when they do not fit.\<close>

fun copy_arguments :: "u32 \<Rightarrow> (nat \<Rightarrow> (nat \<Rightarrow> u8) option) \<Rightarrow> (nat \<times> nat) list \<Rightarrow> u32 \<Rightarrow> u32 list \<Rightarrow> paging_state \<Rightarrow>
    ((u32 \<times> u32 list) option \<times> paging_state) option" where
  "copy_arguments bottom args [] stack_pointer addresses s = Some (Some (stack_pointer, addresses), s)"
| "copy_arguments bottom args ((i, len) # rest) stack_pointer addresses s =
     (let length_with_nul = of_nat (len + 1)
      in if stack_pointer < bottom + length_with_nul then Some (None, s)
         else
           let stack_pointer = stack_pointer - length_with_nul;
               bytes = (case args i of None \<Rightarrow> [] | Some f \<Rightarrow> map f [0..<len + 1])
           in do {
             s \<leftarrow> write_bytes (ELF_PAGE_SCRATCH_ADDRESS + (stack_pointer - bottom)) bytes s;
             copy_arguments bottom args rest stack_pointer (stack_pointer # addresses) s
           })"

fun write_words :: "u32 \<Rightarrow> u32 list \<Rightarrow> paging_state \<Rightarrow> paging_state option" where
  "write_words va [] s = Some s"
| "write_words va (w # ws) s = write_word va w s \<bind> write_words (va + 4) ws"

text \<open>Strings, then the table \<open>argc, argv[0], \<dots>, NULL\<close>; the result is the initial stack pointer.\<close>

definition build_arguments :: "u32 \<Rightarrow> u32 \<Rightarrow> (nat \<Rightarrow> (nat \<Rightarrow> u8) option) \<Rightarrow> nat list \<Rightarrow> paging_state \<Rightarrow> (u32 option \<times> paging_state) option" where
  "build_arguments stack_top argc args lengths s =
     (let bottom = stack_top - PAGE_SIZE
      in do {
        (copied, s) \<leftarrow> copy_arguments bottom args (rev (zip [0..<unat argc] lengths)) stack_top [] s;
        (case copied of
           None \<Rightarrow> Some (None, s)
         | Some (stack_pointer, addresses) \<Rightarrow>
             let stack_pointer = stack_pointer AND NOT 3; table_size = (argc + 2) * 4
             in if stack_pointer < bottom + table_size then Some (None, s)
                else
                  let stack_pointer = stack_pointer - table_size
                  in do {
                    s \<leftarrow> write_words (ELF_PAGE_SCRATCH_ADDRESS + (stack_pointer - bottom)) ([argc] @ addresses @ [0]) s;
                    Some (Some stack_pointer, s)
                  })
      })"

definition map_user_stack ::
  "u32 \<Rightarrow> u32 \<Rightarrow> u32 \<Rightarrow> u32 \<Rightarrow> (nat \<Rightarrow> (nat \<Rightarrow> u8) option) option \<Rightarrow> paging_state \<Rightarrow> (u32 option \<times> paging_state) option" where
  "map_user_stack directory stack_address stack_top argc argv s =
     (if \<not> stack_range_ok stack_address stack_top then Some (None, s)
      else (case (argument_lengths argc argv, argv) of
          (Some lengths, Some args) \<Rightarrow> do {
            (top, s) \<leftarrow> stack_loop directory stack_address stack_top 0 s;
            (case top of
               None \<Rightarrow> Some (None, s)
             | Some top_stack_frame \<Rightarrow>
                 if top_stack_frame = 0 then Some (None, s)
                 else do {
                   (ok, s) \<leftarrow> paging_map_page ELF_PAGE_SCRATCH_ADDRESS top_stack_frame PAGE_WRITABLE s;
                   if \<not> ok then Some (None, s)
                   else do {
                     (sp, s) \<leftarrow> build_arguments stack_top argc args lengths s;
                     (case sp of
                        None \<Rightarrow> do { (_, s) \<leftarrow> paging_unmap_page ELF_PAGE_SCRATCH_ADDRESS False s; Some (None, s) }
                      | Some p \<Rightarrow> do { s \<leftarrow> drop_scratch s; Some (Some p, s) })
                   }
                 })
          }
        | _ \<Rightarrow> Some (None, s)))"

section \<open>The image\<close>

record user_image =
  image_directory :: u32
  image_entry :: u32
  image_stack_top :: u32

text \<open>The loop over the program headers; the result says whether a segment was loaded and whether the entry
  lies in an executable one, \<open>None\<close> for a failure.\<close>

fun segments_loop :: "u32 \<Rightarrow> u8 list \<Rightarrow> u32 \<Rightarrow> program_header list \<Rightarrow> bool \<Rightarrow> bool \<Rightarrow> paging_state \<Rightarrow> ((bool \<times> bool) option \<times> paging_state) option" where
  "segments_loop directory file_data entry [] found_loadable entry_executable s = Some (Some (found_loadable, entry_executable), s)"
| "segments_loop directory file_data entry (segment # rest) found_loadable entry_executable s =
     (if p_type segment \<noteq> ELF_PROGRAM_LOAD \<or> p_memsz segment = 0
      then segments_loop directory file_data entry rest found_loadable entry_executable s
      else
        let segment_start = ucast (p_vaddr segment) :: u64;
            segment_end = segment_start + ucast (p_memsz segment);
            here = p_flags segment AND ELF_PROGRAM_FLAG_EXECUTE \<noteq> 0 \<and> ucast entry \<ge> segment_start \<and> ucast entry < segment_end
        in do {
          (ok, s) \<leftarrow> load_segment directory file_data segment s;
          if \<not> ok then Some (None, s)
          else segments_loop directory file_data entry rest True (entry_executable \<or> here) s
        })"

definition program_headers :: "u8 list \<Rightarrow> elf_header \<Rightarrow> program_header list" where
  "program_headers file_data h =
     map (\<lambda>i. program_header_of file_data (unat (program_header_offset h) + i * unat sizeof_program_header)) [0..<unat (program_header_count h)]"

definition program_table_ok :: "u32 \<Rightarrow> elf_header \<Rightarrow> bool" where
  "program_table_ok file_size h \<longleftrightarrow>
     \<not> (program_header_offset h > file_size) \<and>
     \<not> (ucast (program_header_count h) > (file_size - program_header_offset h) div sizeof_program_header)"

definition elf_load_user_image ::
  "u8 list option \<Rightarrow> u32 \<Rightarrow> u32 \<Rightarrow> u32 \<Rightarrow> (nat \<Rightarrow> (nat \<Rightarrow> u8) option) option \<Rightarrow> paging_state \<Rightarrow> (user_image option \<times> paging_state) option" where
  "elf_load_user_image file stack_address stack_top argc argv s =
     (case file of
        None \<Rightarrow> Some (None, s)
      | Some file_data \<Rightarrow>
          let file_size = of_nat (length file_data) :: u32; h = elf_header_of file_data
          in if file_size < sizeof_elf_header then Some (None, s)
             else if current_directory s \<noteq> kernel_directory s then Some (None, s)
             else if \<not> elf_identification_ok file_data then Some (None, s)
             else if \<not> elf_header_ok h then Some (None, s)
             else if \<not> program_table_ok file_size h then Some (None, s)
             else do {
               (d, s) \<leftarrow> paging_create_user_directory s;
               (case d of
                  None \<Rightarrow> Some (None, s)
                | Some directory \<Rightarrow> do {
                    let give_up = (\<lambda>s. do { s \<leftarrow> paging_destroy_user_directory directory s; Some (None, s) });
                    (r, s) \<leftarrow> segments_loop directory file_data (e_entry h) (program_headers file_data h) False False s;
                    (case r of
                       None \<Rightarrow> give_up s
                     | Some (found_loadable, entry_executable) \<Rightarrow>
                         if \<not> found_loadable then give_up s
                         else if \<not> entry_executable then give_up s
                         else do {
                           (sp, s) \<leftarrow> map_user_stack directory stack_address stack_top argc argv s;
                           (case sp of
                              None \<Rightarrow> give_up s
                            | Some p \<Rightarrow>
                                if current_directory s \<noteq> kernel_directory s then None
                                else Some (Some \<lparr>image_directory = directory, image_entry = e_entry h, image_stack_top = p\<rparr>, s))
                         })
                  })
             })"

section \<open>One-page images\<close>

text \<open>The image argument is overwritten as soon as the pointers are not NULL; \<open>None\<close> is \<open>false\<close>.\<close>

definition USER_IMAGE_COPY_ADDRESS :: u32 where "USER_IMAGE_COPY_ADDRESS = 0xE0000000"

definition user_image_prepare_single_page :: "u8 list option \<Rightarrow> u32 \<Rightarrow> u32 \<Rightarrow> u32 \<Rightarrow> paging_state \<Rightarrow> (user_image option \<times> paging_state) option" where
  "user_image_prepare_single_page code_source code_address stack_address stack_top s =
     (case code_source of
        None \<Rightarrow> Some (None, s)
      | Some code \<Rightarrow>
          if \<not> is_page_aligned code_address then Some (None, s)
          else if \<not> is_page_aligned stack_address then Some (None, s)
          else if stack_top \<noteq> stack_address + PAGE_SIZE then Some (None, s)
          else if kernel_directory s = 0 \<or> current_directory s \<noteq> kernel_directory s then Some (None, s)
          else do {
            (d, s) \<leftarrow> paging_create_user_directory s;
            (case d of
               None \<Rightarrow> Some (None, s)
             | Some directory \<Rightarrow>
                 let give_up = (\<lambda>s. do { s \<leftarrow> paging_destroy_user_directory directory s; Some (None, s) });
                     (code_frame, s) = take_frame s
                 in if code_frame = 0 then give_up s
                    else do {
                      (ok, s) \<leftarrow> paging_map_page USER_IMAGE_COPY_ADDRESS code_frame PAGE_WRITABLE s;
                      if \<not> ok then give_up (give_frame code_frame s)
                      else do {
                        s \<leftarrow> write_bytes USER_IMAGE_COPY_ADDRESS (bytes_from code 0 (unat PAGE_SIZE)) s;
                        (ok, s) \<leftarrow> paging_unmap_page USER_IMAGE_COPY_ADDRESS False s;
                        if \<not> ok then None else do {
                        (ok, s) \<leftarrow> paging_map_page_in_directory directory code_address code_frame PAGE_USER s;
                        if \<not> ok then give_up (give_frame code_frame s)
                        else
                          let (stack_frame, s) = take_frame s
                          in if stack_frame = 0 then give_up s
                             else do {
                               (ok, s) \<leftarrow> paging_map_page_in_directory directory stack_address stack_frame (PAGE_USER OR PAGE_WRITABLE) s;
                               if \<not> ok then give_up (give_frame stack_frame s)
                               else if current_directory s \<noteq> kernel_directory s then None
                               else Some (Some \<lparr>image_directory = directory, image_entry = code_address, image_stack_top = stack_top\<rparr>, s)
                             }
                        }
                      }
                    })
          })"

definition user_image_detach_directory :: "user_image option \<Rightarrow> u32 \<times> user_image option" where
  "user_image_detach_directory img =
     (case img of None \<Rightarrow> (0, None) | Some i \<Rightarrow> (image_directory i, Some (i\<lparr>image_directory := 0\<rparr>)))"

definition user_image_destroy :: "user_image option \<Rightarrow> paging_state \<Rightarrow> (user_image option \<times> paging_state) option" where
  "user_image_destroy img s =
     (case img of
        None \<Rightarrow> Some (None, s)
      | Some i \<Rightarrow>
          if image_directory i = 0 then Some (img, s)
          else do {
            s \<leftarrow> paging_destroy_user_directory (image_directory i) s;
            Some (Some \<lparr>image_directory = 0, image_entry = 0, image_stack_top = 0\<rparr>, s)
          })"

end
