(* ===== verification/UserStacks.thy ===== *)
theory UserStacks
  imports Tasks Paging
begin

text \<open>
  The stacks of user threads, \<open>kernel/memory/address_space.c\<close>: 32 slots below 3 GiB, one bit each in the
  address space object, a guard page under every stack, and the construction of a stack from cleared
  frames. A section under the lock of an address space is atomic; the object that an operation works on is
  its argument, and the updated object is part of the result.
\<close>

section \<open>Slots\<close>

definition ADDRESS_SPACE_USER_STACK_SIZE :: u32 where [machine_consts]: "ADDRESS_SPACE_USER_STACK_SIZE = 1024 * 1024"
definition ADDRESS_SPACE_USER_STACK_GUARD_SIZE :: u32 where [machine_consts]: "ADDRESS_SPACE_USER_STACK_GUARD_SIZE = 4096"
definition ADDRESS_SPACE_USER_STACK_SLOT_COUNT :: u32 where [machine_consts]: "ADDRESS_SPACE_USER_STACK_SLOT_COUNT = 32"
definition ADDRESS_SPACE_USER_STACK_REGION_TOP :: u32 where [machine_consts]: "ADDRESS_SPACE_USER_STACK_REGION_TOP = 0xC0000000"

record address_space_user_stack_slot =
  slot_index :: u32
  slot_stack_bottom :: u32
  slot_stack_top :: u32
  slot_guard_bottom :: u32
  slot_guard_top :: u32

record address_space_user_stack = address_space_user_stack_slot +
  mapped_page_count :: u32

definition address_space_user_stack_from_slot :: "address_space_user_stack_slot \<Rightarrow> address_space_user_stack" where
  "address_space_user_stack_from_slot slot =
     address_space_user_stack_slot.extend slot (address_space_user_stack.fields 0)"

definition address_space_describe_user_stack_slot :: "u32 \<Rightarrow> address_space_user_stack_slot option" where
  "address_space_describe_user_stack_slot index =
     (if index \<ge> ADDRESS_SPACE_USER_STACK_SLOT_COUNT then None
      else if ADDRESS_SPACE_USER_STACK_SIZE AND (PAGE_SIZE - 1) \<noteq> 0 \<or> ADDRESS_SPACE_USER_STACK_GUARD_SIZE AND (PAGE_SIZE - 1) \<noteq> 0
      then None
      else
        let slot_span = ADDRESS_SPACE_USER_STACK_SIZE + ADDRESS_SPACE_USER_STACK_GUARD_SIZE;
            offset = index * slot_span
        in if offset \<ge> ADDRESS_SPACE_USER_STACK_REGION_TOP then None
           else
             let stack_top = ADDRESS_SPACE_USER_STACK_REGION_TOP - offset
             in if stack_top < ADDRESS_SPACE_USER_STACK_SIZE then None
                else
                  let stack_bottom = stack_top - ADDRESS_SPACE_USER_STACK_SIZE
                  in if stack_bottom < ADDRESS_SPACE_USER_STACK_GUARD_SIZE then None
                     else Some \<lparr>slot_index = index, slot_stack_bottom = stack_bottom, slot_stack_top = stack_top,
                                slot_guard_bottom = stack_bottom - ADDRESS_SPACE_USER_STACK_GUARD_SIZE, slot_guard_top = stack_bottom\<rparr>)"

definition address_space_user_stack_slot_mask :: "u32 \<Rightarrow> u32" where
  "address_space_user_stack_slot_mask index = push_bit (unat index) 1"

section \<open>Reservation\<close>

text \<open>\<open>None\<close> for a NULL address space; the result is the slot, \<open>None\<close> for \<open>false\<close>.\<close>

definition address_space_user_stack_slot_reserve_index ::
  "address_space_obj option \<Rightarrow> u32 \<Rightarrow> address_space_user_stack_slot option \<times> address_space_obj option" where
  "address_space_user_stack_slot_reserve_index space index =
     (case space of
        None \<Rightarrow> (None, space)
      | Some a \<Rightarrow>
          if kernel_space a then (None, space)
          else if index \<ge> ADDRESS_SPACE_USER_STACK_SLOT_COUNT then (None, space)
          else (case address_space_describe_user_stack_slot index of
              None \<Rightarrow> (None, space)
            | Some description \<Rightarrow>
                let mask = address_space_user_stack_slot_mask index
                in if reference_count a = 0 then (None, space)
                   else if user_stack_slot_bitmap a AND mask \<noteq> 0 then (None, space)
                   else (Some description, Some (a\<lparr>user_stack_slot_bitmap := user_stack_slot_bitmap a OR mask\<rparr>))))"

function reserve_slot_loop :: "u32 \<Rightarrow> address_space_obj \<Rightarrow> address_space_user_stack_slot option \<times> address_space_obj" where
  "reserve_slot_loop index a =
     (if index < ADDRESS_SPACE_USER_STACK_SLOT_COUNT then
        let mask = address_space_user_stack_slot_mask index
        in if user_stack_slot_bitmap a AND mask \<noteq> 0 then reserve_slot_loop (index + 1) a
           else (case address_space_describe_user_stack_slot index of
               None \<Rightarrow> (None, a)
             | Some description \<Rightarrow> (Some description, a\<lparr>user_stack_slot_bitmap := user_stack_slot_bitmap a OR mask\<rparr>))
      else (None, a))"
  by auto
termination
  by (relation "measure (\<lambda>(i, _). 32 - unat i)")
    (auto simp: word_less_nat_alt ADDRESS_SPACE_USER_STACK_SLOT_COUNT_def unat_inc_u32 [where n = 32, simplified])

declare reserve_slot_loop.simps [simp del]

definition address_space_user_stack_slot_reserve ::
  "address_space_obj option \<Rightarrow> address_space_user_stack_slot option \<times> address_space_obj option" where
  "address_space_user_stack_slot_reserve space =
     (case space of
        None \<Rightarrow> (None, space)
      | Some a \<Rightarrow>
          if kernel_space a then (None, space)
          else if reference_count a = 0 then (None, space)
          else let (r, a) = reserve_slot_loop 0 a in (r, Some a))"

definition address_space_user_stack_slot_release :: "address_space_obj option \<Rightarrow> u32 \<Rightarrow> bool \<times> address_space_obj option" where
  "address_space_user_stack_slot_release space index =
     (case space of
        None \<Rightarrow> (False, space)
      | Some a \<Rightarrow>
          if kernel_space a then (False, space)
          else if index \<ge> ADDRESS_SPACE_USER_STACK_SLOT_COUNT then (False, space)
          else
            let mask = address_space_user_stack_slot_mask index
            in if reference_count a = 0 then (False, space)
               else if user_stack_slot_bitmap a AND mask = 0 then (False, space)
               else (True, Some (a\<lparr>user_stack_slot_bitmap := user_stack_slot_bitmap a AND NOT mask\<rparr>)))"

function count_slots_loop :: "u32 \<Rightarrow> u32 \<Rightarrow> u32 \<Rightarrow> u32" where
  "count_slots_loop bitmap index n =
     (if index < ADDRESS_SPACE_USER_STACK_SLOT_COUNT then
        count_slots_loop bitmap (index + 1) (if bitmap AND address_space_user_stack_slot_mask index \<noteq> 0 then n + 1 else n)
      else n)"
  by auto
termination
  by (relation "measure (\<lambda>(_, i, _). 32 - unat i)")
    (auto simp: word_less_nat_alt ADDRESS_SPACE_USER_STACK_SLOT_COUNT_def unat_inc_u32 [where n = 32, simplified])

declare count_slots_loop.simps [simp del]

definition address_space_user_stack_slot_reserved_count :: "address_space_obj option \<Rightarrow> u32" where
  "address_space_user_stack_slot_reserved_count space =
     (case space of
        None \<Rightarrow> 0
      | Some a \<Rightarrow>
          if kernel_space a then 0 else if reference_count a = 0 then 0
          else count_slots_loop (user_stack_slot_bitmap a) 0 0)"

definition address_space_user_stack_register_existing ::
  "address_space_obj option \<Rightarrow> u32 \<Rightarrow> address_space_user_stack option \<times> address_space_obj option" where
  "address_space_user_stack_register_existing space index =
     (case address_space_user_stack_slot_reserve_index space index of
        (None, space) \<Rightarrow> (None, space)
      | (Some slot, space) \<Rightarrow>
          (Some ((address_space_user_stack_from_slot slot)\<lparr>mapped_page_count := ADDRESS_SPACE_USER_STACK_SIZE div PAGE_SIZE\<rparr>), space))"

section \<open>Stacks with frames\<close>

definition ADDRESS_SPACE_STACK_SCRATCH_ADDRESS :: u32 where [machine_consts]: "ADDRESS_SPACE_STACK_SCRATCH_ADDRESS = 0xE1000000"

text \<open>The halt when the scratch page cannot be unmapped is \<open>None\<close>.\<close>

definition address_space_map_zeroed_user_stack_page :: "u32 \<Rightarrow> u32 \<Rightarrow> paging_state \<Rightarrow> (bool \<times> paging_state) option" where
  "address_space_map_zeroed_user_stack_page directory virtual_address s =
     (if directory = 0 then Some (False, s)
      else if virtual_address AND (PAGE_SIZE - 1) \<noteq> 0 then Some (False, s)
      else
        let (frame, s) = take_frame s
        in if frame = 0 then Some (False, s)
           else do {
             (ok, s) \<leftarrow> paging_map_page ADDRESS_SPACE_STACK_SCRATCH_ADDRESS frame PAGE_WRITABLE s;
             if \<not> ok then Some (False, give_frame frame s)
             else do {
               s \<leftarrow> clear_words ADDRESS_SPACE_STACK_SCRATCH_ADDRESS 1024 s;
               (ok, s) \<leftarrow> paging_unmap_page ADDRESS_SPACE_STACK_SCRATCH_ADDRESS False s;
               if \<not> ok then None
               else do {
                 (ok, s) \<leftarrow> paging_map_page_in_directory directory virtual_address frame (PAGE_USER OR PAGE_WRITABLE) s;
                 Some (if ok then (True, s) else (False, give_frame frame s))
               }
             }
           })"

partial_function (option) map_stack_loop :: "u32 \<Rightarrow> u32 \<Rightarrow> u32 \<Rightarrow> u32 \<Rightarrow> paging_state \<Rightarrow> (bool \<times> u32 \<times> paging_state) option" where
  "map_stack_loop directory virtual_page stack_top mapped_pages s =
     (if virtual_page < stack_top then
        do {
          (ok, s) \<leftarrow> address_space_map_zeroed_user_stack_page directory virtual_page s;
          if \<not> ok then Some (False, mapped_pages, s)
          else map_stack_loop directory (virtual_page + PAGE_SIZE) stack_top (mapped_pages + 1) s
        }
      else Some (True, mapped_pages, s))"

text \<open>The result says whether the call succeeded and gives the stack once its slot is reserved; a failure after
  that keeps the slot and the pages mapped so far.\<close>

definition address_space_user_stack_create ::
  "address_space_obj option \<Rightarrow> paging_state \<Rightarrow> ((bool \<times> address_space_user_stack option) \<times> address_space_obj option \<times> paging_state) option" where
  "address_space_user_stack_create space s =
     (case space of
        None \<Rightarrow> Some ((False, None), space, s)
      | Some a \<Rightarrow>
          if kernel_space a then Some ((False, None), space, s)
          else if kernel_directory s = 0 \<or> current_directory s \<noteq> kernel_directory s then Some ((False, None), space, s)
          else if page_directory a = 0 \<or> page_directory a = kernel_directory s then Some ((False, None), space, s)
          else (case address_space_user_stack_slot_reserve space of
              (None, space) \<Rightarrow> Some ((False, None), space, s)
            | (Some slot, space) \<Rightarrow> do {
                let stack = address_space_user_stack_from_slot slot;
                (ok, mapped_pages, s) \<leftarrow> map_stack_loop (page_directory a) (slot_stack_bottom slot) (slot_stack_top slot) 0 s;
                let stack = stack\<lparr>mapped_page_count := mapped_pages\<rparr>;
                Some ((ok \<and> mapped_pages = ADDRESS_SPACE_USER_STACK_SIZE div PAGE_SIZE, Some stack), space, s)
              }))"

end
