(* ===== verification/StackProps.thy ===== *)
theory StackProps
  imports UserStacks
begin

text \<open>
  The stack slots of an address space never overlap: what a reservation picks, and the ranges of two slots.
\<close>

lemma slot_mask_bit: "n < 32 \<Longrightarrow> b AND address_space_user_stack_slot_mask n \<noteq> 0 \<longleftrightarrow> bit b (unat n)"
proof -
  assume "n < 32"
  then have n: "unat n < 32" by (simp add: word_less_nat_alt)
  have "b AND push_bit (unat n) 1 \<noteq> 0 \<longleftrightarrow> bit b (unat n)"
    using n by (auto simp: word_zero_bits bit_simps)
  then show ?thesis by (simp add: address_space_user_stack_slot_mask_def)
qed

lemma slot_mask_set: "n < 32 \<Longrightarrow> bit (b OR address_space_user_stack_slot_mask n) j \<longleftrightarrow> bit b j \<or> j = unat n"
  by (auto simp: address_space_user_stack_slot_mask_def bit_simps word_less_nat_alt)

lemma slot_mask_clear: "n < 32 \<Longrightarrow> bit (b AND NOT (address_space_user_stack_slot_mask n)) j \<longleftrightarrow> bit b j \<and> j \<noteq> unat n"
  by (auto simp: address_space_user_stack_slot_mask_def bit_simps word_less_nat_alt dest: bit_imp_le_length)

section \<open>The ranges\<close>

definition slot_top :: "nat \<Rightarrow> nat" where
  "slot_top n = 0xC0000000 - n * 0x101000"

lemma describe_slot:
  assumes "index < 32"
  shows "\<exists>slot. address_space_describe_user_stack_slot index = Some slot \<and> slot_index slot = index \<and>
     unat (slot_stack_top slot) = slot_top (unat index) \<and> unat (slot_stack_bottom slot) = slot_top (unat index) - 0x100000 \<and>
     slot_guard_top slot = slot_stack_bottom slot \<and> unat (slot_guard_bottom slot) = slot_top (unat index) - 0x101000"
proof -
  have n: "unat index < 32" using assms by (simp add: word_less_nat_alt)
  have o: "unat (index * 0x101000) = unat index * 0x101000" using n by (simp add: unat_mult_u32)
  have top: "slot_top (unat index) = 0xC0000000 - unat index * 0x101000" by (simp add: slot_top_def)
  have small: "unat index * 0x101000 \<le> 31 * 0x101000" using n by simp
  have t: "unat (0xC0000000 - index * 0x101000) = 0xC0000000 - unat index * 0x101000"
    using o small by (simp add: unat_sub_u32)
  have b: "unat (0xBFF00000 - index * 0x101000) = 0xBFF00000 - unat index * 0x101000"
    using o small by (simp add: unat_sub_u32)
  have g: "unat (0xBFEFF000 - index * 0x101000) = 0xBFEFF000 - unat index * 0x101000"
    using o small by (simp add: unat_sub_u32)
  have "\<not> 0xC0000000 \<le> index * 0x101000" "\<not> 0xC0000000 - index * 0x101000 < 0x100000" "\<not> 0xBFF00000 - index * 0x101000 < 0x1000"
    using o t b small by (simp_all add: word_less_nat_alt word_le_nat_alt)
  then show ?thesis
    using assms t b g top by (simp add: address_space_describe_user_stack_slot_def machine_consts Let_def not_le)
qed

lemma slot_tops_apart: "i < j \<Longrightarrow> j < 32 \<Longrightarrow> slot_top j + 0x101000 \<le> slot_top i"
  by (simp add: slot_top_def)

section \<open>Reservation\<close>

lemma all_from_Suc: "P n \<Longrightarrow> (\<forall>j. Suc n \<le> j \<and> j < m \<longrightarrow> P j) = (\<forall>j. n \<le> j \<and> j < m \<longrightarrow> P j)" for n m :: nat
  by (metis Suc_le_eq le_eq_less_or_eq)

lemma reserve_slot_loop_spec:
  assumes "unat index \<le> 32"
  shows "case reserve_slot_loop index a of
      (None, b) \<Rightarrow> b = a \<and> (\<forall>j. unat index \<le> j \<and> j < 32 \<longrightarrow> bit (user_stack_slot_bitmap a) j)
    | (Some slot, b) \<Rightarrow> \<exists>i < 32. unat index \<le> unat i \<and> address_space_describe_user_stack_slot i = Some slot \<and>
        \<not> bit (user_stack_slot_bitmap a) (unat i) \<and> (\<forall>j. unat index \<le> j \<and> j < unat i \<longrightarrow> bit (user_stack_slot_bitmap a) j) \<and>
        b = a\<lparr>user_stack_slot_bitmap := user_stack_slot_bitmap a OR address_space_user_stack_slot_mask i\<rparr>"
  using assms
proof (induction index a rule: reserve_slot_loop.induct)
  case (1 index a)
  show ?case
  proof (cases "index < 32")
    case False
    then have "unat index = 32" using 1 by (simp add: word_less_nat_alt)
    then show ?thesis using False by (subst reserve_slot_loop.simps) (simp add: machine_consts not_less [symmetric])
  next
    case i: True
    then have n: "unat index < 32" "unat (index + 1) = Suc (unat index)"
      using unat_inc_u32 [of index 32] by (simp_all add: word_less_nat_alt)
    show ?thesis
    proof (cases "bit (user_stack_slot_bitmap a) (unat index)")
      case used: True
      have "reserve_slot_loop index a = reserve_slot_loop (index + 1) a"
        using i used by (subst reserve_slot_loop.simps) (simp add: machine_consts slot_mask_bit)
      moreover have "case reserve_slot_loop (index + 1) a of
          (None, b) \<Rightarrow> b = a \<and> (\<forall>j. unat (index + 1) \<le> j \<and> j < 32 \<longrightarrow> bit (user_stack_slot_bitmap a) j)
        | (Some slot, b) \<Rightarrow> \<exists>i < 32. unat (index + 1) \<le> unat i \<and> address_space_describe_user_stack_slot i = Some slot \<and>
            \<not> bit (user_stack_slot_bitmap a) (unat i) \<and> (\<forall>j. unat (index + 1) \<le> j \<and> j < unat i \<longrightarrow> bit (user_stack_slot_bitmap a) j) \<and>
            b = a\<lparr>user_stack_slot_bitmap := user_stack_slot_bitmap a OR address_space_user_stack_slot_mask i\<rparr>"
        using 1(1) i used n by (simp add: machine_consts slot_mask_bit)
      ultimately show ?thesis
        using all_from_Suc [of "bit (user_stack_slot_bitmap a)", OF used] n(2)
        by (auto simp only: split: prod.splits option.splits)
    next
      case free: False
      obtain slot where slot: "address_space_describe_user_stack_slot index = Some slot" using describe_slot [OF i] by blast
      have "reserve_slot_loop index a =
          (Some slot, a\<lparr>user_stack_slot_bitmap := user_stack_slot_bitmap a OR address_space_user_stack_slot_mask index\<rparr>)"
        using i free slot slot_mask_bit [OF i, of "user_stack_slot_bitmap a"]
        by (subst reserve_slot_loop.simps) (simp add: machine_consts Let_def)
      then show ?thesis using i free slot by (auto intro!: exI [of _ index])
    qed
  qed
qed

lemma count_slots_loop_card:
  assumes "unat index \<le> 32" "unat n \<le> unat index"
  shows "unat (count_slots_loop bitmap index n) = unat n + card {j. unat index \<le> j \<and> j < 32 \<and> bit bitmap j}"
  using assms
proof (induction bitmap index n rule: count_slots_loop.induct)
  case (1 bitmap index n)
  show ?case
  proof (cases "index < 32")
    case False
    then have "unat index = 32" using 1 by (simp add: word_less_nat_alt)
    then show ?thesis using False by (subst count_slots_loop.simps) (simp add: machine_consts)
  next
    case i: True
    then have k: "unat index < 32" "unat (index + 1) = Suc (unat index)"
      using unat_inc_u32 [of index 32] by (simp_all add: word_less_nat_alt)
    have m: "unat (n + 1) = Suc (unat n)" using unat_inc_u32 [of n 32] k 1(3) by simp
    have split: "{j. unat index \<le> j \<and> j < 32 \<and> bit bitmap j} =
        (if bit bitmap (unat index) then insert (unat index) {j. unat (index + 1) \<le> j \<and> j < 32 \<and> bit bitmap j}
         else {j. unat (index + 1) \<le> j \<and> j < 32 \<and> bit bitmap j})"
      using k by (auto simp: le_less Suc_le_eq)
    have fin: "finite {j. unat (index + 1) \<le> j \<and> j < 32 \<and> bit bitmap j}" by simp
    show ?thesis
    proof (cases "bit bitmap (unat index)")
      case True
      then have "count_slots_loop bitmap index n = count_slots_loop bitmap (index + 1) (n + 1)"
        using i by (subst count_slots_loop.simps) (simp add: machine_consts slot_mask_bit)
      then show ?thesis using 1(1) True i k m fin 1(3) split by (simp add: machine_consts slot_mask_bit)
    next
      case False
      then have "count_slots_loop bitmap index n = count_slots_loop bitmap (index + 1) n"
        using i slot_mask_bit [OF i, of bitmap] by (subst count_slots_loop.simps) (simp add: machine_consts)
      then show ?thesis using 1(1) False i k 1(3) split slot_mask_bit [OF i, of bitmap] by (simp add: machine_consts)
    qed
  qed
qed

section \<open>The property\<close>

text \<open>Claim C38. A reservation takes the lowest free slot of the address space, fails only when all 32 are taken, and is
  counted. Its stack of 1 MiB and the guard page under it lie below 3 GiB and apart from the stack and the
  guard of every slot that was reserved before.\<close>

theorem user_stack_slots_apart:
  assumes "\<not> kernel_space a" "reference_count a \<noteq> 0"
  shows "case address_space_user_stack_slot_reserve (Some a) of
      (None, b) \<Rightarrow> b = Some a \<and> address_space_user_stack_slot_reserved_count (Some a) = 32
    | (Some slot, b) \<Rightarrow>
        \<not> bit (user_stack_slot_bitmap a) (unat (slot_index slot)) \<and>
        (\<forall>j < unat (slot_index slot). bit (user_stack_slot_bitmap a) j) \<and>
        b = Some (a\<lparr>user_stack_slot_bitmap := user_stack_slot_bitmap a OR push_bit (unat (slot_index slot)) 1\<rparr>) \<and>
        unat (address_space_user_stack_slot_reserved_count b) = unat (address_space_user_stack_slot_reserved_count (Some a)) + 1 \<and>
        unat (slot_guard_bottom slot) + 0x1000 = unat (slot_guard_top slot) \<and> slot_guard_top slot = slot_stack_bottom slot \<and>
        unat (slot_stack_bottom slot) + 0x100000 = unat (slot_stack_top slot) \<and> unat (slot_stack_top slot) \<le> 0xC0000000 \<and>
        (\<forall>i other. address_space_describe_user_stack_slot i = Some other \<and> bit (user_stack_slot_bitmap a) (unat i) \<longrightarrow>
           slot_stack_top other \<le> slot_guard_bottom slot \<or> slot_stack_top slot \<le> slot_guard_bottom other)"
proof -
  have count: "unat (address_space_user_stack_slot_reserved_count (Some (a\<lparr>user_stack_slot_bitmap := m\<rparr>))) = card {j. j < 32 \<and> bit m j}" for m
    using assms count_slots_loop_card [of 0 0 m] by (simp add: address_space_user_stack_slot_reserved_count_def)
  have own: "a = a\<lparr>user_stack_slot_bitmap := user_stack_slot_bitmap a\<rparr>" by simp
  obtain r b where r: "reserve_slot_loop 0 a = (r, b)" by fastforce
  then have reserve: "address_space_user_stack_slot_reserve (Some a) = (r, Some b)"
    using assms by (simp add: address_space_user_stack_slot_reserve_def)
  show ?thesis
  proof (cases r)
    case None
    then have all: "b = a" "\<forall>j < 32. bit (user_stack_slot_bitmap a) j" using reserve_slot_loop_spec [of 0 a] r by auto
    then have "{j. j < 32 \<and> bit (user_stack_slot_bitmap a) j} = {..<32}" by auto
    then have "address_space_user_stack_slot_reserved_count (Some a) = 32"
      using count [of "user_stack_slot_bitmap a"] by (simp add: u32_eq_iff)
    then show ?thesis using reserve None all by simp
  next
    case (Some slot)
    then obtain i where i: "i < 32" "address_space_describe_user_stack_slot i = Some slot" "\<not> bit (user_stack_slot_bitmap a) (unat i)"
        "\<forall>j < unat i. bit (user_stack_slot_bitmap a) j"
        "b = a\<lparr>user_stack_slot_bitmap := user_stack_slot_bitmap a OR address_space_user_stack_slot_mask i\<rparr>"
      using reserve_slot_loop_spec [of 0 a] r by auto
    have n: "unat i < 32" using i(1) by (simp add: word_less_nat_alt)
    have shape: "slot_index slot = i" "unat (slot_stack_top slot) = slot_top (unat i)" "unat (slot_stack_bottom slot) = slot_top (unat i) - 0x100000"
        "slot_guard_top slot = slot_stack_bottom slot" "unat (slot_guard_bottom slot) = slot_top (unat i) - 0x101000"
      using describe_slot [OF i(1)] i(2) by auto
    have "{j. j < 32 \<and> bit (user_stack_slot_bitmap a OR address_space_user_stack_slot_mask i) j} =
        insert (unat i) {j. j < 32 \<and> bit (user_stack_slot_bitmap a) j}"
      using slot_mask_set [OF i(1)] n by auto
    then have counted: "unat (address_space_user_stack_slot_reserved_count (Some b)) = unat (address_space_user_stack_slot_reserved_count (Some a)) + 1"
      using count [of "user_stack_slot_bitmap a OR address_space_user_stack_slot_mask i"] count [of "user_stack_slot_bitmap a"] i(3,5) by simp
    have apart: "slot_stack_top other \<le> slot_guard_bottom slot \<or> slot_stack_top slot \<le> slot_guard_bottom other"
      if o: "address_space_describe_user_stack_slot k = Some other" "bit (user_stack_slot_bitmap a) (unat k)" for k other
    proof -
      have k: "k < 32" using o(1) by (simp add: address_space_describe_user_stack_slot_def machine_consts not_le split: if_splits)
      have kn: "unat k < 32" using k by (simp add: word_less_nat_alt)
      have other: "unat (slot_stack_top other) = slot_top (unat k)" "unat (slot_guard_bottom other) = slot_top (unat k) - 0x101000"
        using describe_slot [OF k] o(1) by auto
      have "unat k \<noteq> unat i" using o(2) i(3) by auto
      then show ?thesis
        using slot_tops_apart [of "unat k" "unat i"] slot_tops_apart [of "unat i" "unat k"] n kn shape other
        by (auto simp: word_le_nat_alt nat_neq_iff)
    qed
    have low: "slot_top (unat i) \<ge> 0x101000" "slot_top (unat i) \<le> 0xC0000000" using n by (simp_all add: slot_top_def)
    show ?thesis
      using reserve Some i shape low counted apart
      by (auto simp: address_space_user_stack_slot_mask_def)
  qed
qed

theorem user_stack_slots_apart_witness:
  "address_space_user_stack_slot_reserve
     (Some \<lparr>page_directory = 0x5000, reference_count = 1, user_stack_slot_bitmap = 0b1011, kernel_space = False\<rparr>) =
   (Some \<lparr>slot_index = 2, slot_stack_bottom = 0xBFCFE000, slot_stack_top = 0xBFDFE000, slot_guard_bottom = 0xBFCFD000, slot_guard_top = 0xBFCFE000\<rparr>,
    Some \<lparr>page_directory = 0x5000, reference_count = 1, user_stack_slot_bitmap = 0b1111, kernel_space = False\<rparr>) \<and>
   unat (address_space_user_stack_slot_reserved_count
     (Some \<lparr>page_directory = 0x5000, reference_count = 1, user_stack_slot_bitmap = 0b1111, kernel_space = False\<rparr>)) = 4"
proof -
  let ?a = "\<lparr>page_directory = 0x5000, reference_count = 1, user_stack_slot_bitmap = 0b1011, kernel_space = False\<rparr>"
  have reserve: "address_space_user_stack_slot_reserve (Some ?a) =
     (Some \<lparr>slot_index = 2, slot_stack_bottom = 0xBFCFE000, slot_stack_top = 0xBFDFE000, slot_guard_bottom = 0xBFCFD000, slot_guard_top = 0xBFCFE000\<rparr>,
      Some (?a\<lparr>user_stack_slot_bitmap := 0b1111\<rparr>))"
    by code_simp
  have three: "address_space_user_stack_slot_reserved_count (Some ?a) = 3" by code_simp
  show ?thesis using user_stack_slots_apart [of ?a] reserve three by simp
qed

end
