(* ===== verification/Process.thy ===== *)
theory Process
  imports Lifecycle Vfs
begin

text \<open>
  Processes, \<open>kernel/process/process.c\<close>: the registry with its identifiers and reference counts, the links by
  which a parent owns its children, thread and handle accounting, and the working directory. A section
  under a lock is atomic and an operation runs without others between its sections; \<open>kernel_panic\<close> and an
  endless list are \<open>None\<close>. The static \<open>kernel_process\<close> is the object at address 0, below every address that
  \<open>kmalloc\<close> returns.
\<close>

section \<open>The objects\<close>

datatype process_state_t = PROCESS_NEW | PROCESS_RUNNING | PROCESS_EXITING | PROCESS_ZOMBIE | PROCESS_DEAD

datatype process_termination_reason =
  PROCESS_TERMINATION_NONE | PROCESS_TERMINATION_NORMAL | PROCESS_TERMINATION_KILLED | PROCESS_TERMINATION_FAULT

definition PROCESS_ID_INVALID :: u32 where [machine_consts]: "PROCESS_ID_INVALID = 0"
definition PROCESS_HANDLE_INVALID :: u32 where [machine_consts]: "PROCESS_HANDLE_INVALID = 0"
definition PROCESS_STANDARD_HANDLE_COUNT :: nat where [machine_consts]: "PROCESS_STANDARD_HANDLE_COUNT = 3"
definition PROCESS_MAX_HANDLES :: nat where [machine_consts]: "PROCESS_MAX_HANDLES = 64"
definition PROCESS_PATH_MAX :: u32 where [machine_consts]: "PROCESS_PATH_MAX = 256"

record process_accounting =
  process_ticks :: u64
  peak_threads :: u32
  current_handles :: u32
  peak_handles :: u32

record process_t =
  pid :: u32
  parent_pid :: u32
  references :: u32
  immortal :: bool
  process_status :: process_state_t
  termination_reason :: process_termination_reason
  exit_status :: int
  process_space :: "nat option"
  live_threads :: u32
  accounting :: process_accounting
  children :: "u32 option"
  child_count :: u32
  handles :: "bool list"
  registry_previous :: "u32 option"
  registry_next :: "u32 option"
  cwd :: string

record process_child_link =
  link_child :: "u32 option"
  link_previous :: "u32 option"
  link_next :: "u32 option"

definition sizeof_process :: u32 where [machine_consts]: "sizeof_process = 396"
definition sizeof_child_link :: u32 where [machine_consts]: "sizeof_child_link = 12"

record 'q process_system =
  procs :: "u32 \<Rightarrow> process_t"
  child_links :: "u32 \<Rightarrow> process_child_link"
  process_registry_head :: "u32 option"
  next_process_id :: u32
  live_processes :: u32
  live_handles :: u32
  process_system_initialized :: bool
  process_heap :: heap
  process_kernel :: "'q kernel"

definition kernel_process :: u32 where "kernel_process = 0"

definition set_process :: "u32 \<Rightarrow> (process_t \<Rightarrow> process_t) \<Rightarrow> 'q process_system \<Rightarrow> 'q process_system" where
  "set_process p f s = s\<lparr>procs := (procs s)(p := f (procs s p))\<rparr>"

definition set_child_link :: "u32 \<Rightarrow> (process_child_link \<Rightarrow> process_child_link) \<Rightarrow> 'q process_system \<Rightarrow> 'q process_system" where
  "set_child_link l f s = s\<lparr>child_links := (child_links s)(l := f (child_links s l))\<rparr>"

definition process_kmalloc :: "u32 \<Rightarrow> 'q process_system \<Rightarrow> (u32 option \<times> 'q process_system) option" where
  "process_kmalloc n s = do { (a, h) \<leftarrow> kmalloc n (process_heap s); Some (a, s\<lparr>process_heap := h\<rparr>) }"

definition process_kfree :: "u32 option \<Rightarrow> 'q process_system \<Rightarrow> 'q process_system" where
  "process_kfree a s = s\<lparr>process_heap := kfree a (process_heap s)\<rparr>"

definition retain_space :: "cpu_id \<Rightarrow> nat option \<Rightarrow> 'q process_system \<Rightarrow> bool \<times> 'q process_system" where
  "retain_space c space s = (let (ok, k) = address_space_retain c space (process_kernel s) in (ok, s\<lparr>process_kernel := k\<rparr>))"

definition release_space :: "cpu_id \<Rightarrow> nat option \<Rightarrow> 'q process_system \<Rightarrow> bool \<times> 'q process_system" where
  "release_space c space s = (let (ok, k) = address_space_release c space (process_kernel s) in (ok, s\<lparr>process_kernel := k\<rparr>))"

section \<open>The registry\<close>

definition process_registry_insert_locked :: "u32 \<Rightarrow> 'q process_system \<Rightarrow> 'q process_system" where
  "process_registry_insert_locked p s =
     (let s = set_process p (registry_previous_update (\<lambda>_. None)) s;
          s = set_process p (registry_next_update (\<lambda>_. process_registry_head s)) s;
          s = (case process_registry_head s of None \<Rightarrow> s | Some h \<Rightarrow> set_process h (registry_previous_update (\<lambda>_. Some p)) s)
      in s\<lparr>process_registry_head := Some p\<rparr>)"

definition process_registry_remove_locked :: "u32 \<Rightarrow> 'q process_system \<Rightarrow> 'q process_system" where
  "process_registry_remove_locked p s =
     (let s = (case registry_previous (procs s p) of
                 Some q \<Rightarrow> set_process q (registry_next_update (\<lambda>_. registry_next (procs s p))) s
               | None \<Rightarrow> s\<lparr>process_registry_head := registry_next (procs s p)\<rparr>);
          s = (case registry_next (procs s p) of
                 Some q \<Rightarrow> set_process q (registry_previous_update (\<lambda>_. registry_previous (procs s p))) s
               | None \<Rightarrow> s);
          s = set_process p (registry_previous_update (\<lambda>_. None)) s
      in set_process p (registry_next_update (\<lambda>_. None)) s)"

partial_function (option) find_process_loop :: "u32 \<Rightarrow> u32 option \<Rightarrow> 'q process_system \<Rightarrow> u32 option option" where
  "find_process_loop n at s =
     (case at of
        None \<Rightarrow> Some None
      | Some p \<Rightarrow> if pid (procs s p) = n then Some (Some p) else find_process_loop n (registry_next (procs s p)) s)"

definition process_registry_find_locked :: "u32 \<Rightarrow> 'q process_system \<Rightarrow> u32 option option" where
  "process_registry_find_locked n s =
     (if n = PROCESS_ID_INVALID then Some None else find_process_loop n (process_registry_head s) s)"

section \<open>Paths\<close>

text \<open>A C string in a buffer is the list of its characters. \<open>..\<close> cuts the last name off, but not the root.\<close>

function cut_name :: "string \<Rightarrow> string" where
  "cut_name buffer = (if length buffer > 1 \<and> last buffer \<noteq> slash then cut_name (butlast buffer) else buffer)"
  by auto
termination
  by (relation "measure length") auto

declare cut_name.simps [simp del]

definition parent_path :: "string \<Rightarrow> string" where
  "parent_path buffer = (let buffer = cut_name buffer in if length buffer > 1 then butlast buffer else buffer)"

text \<open>The loop over the components; \<open>None\<close> when the result does not fit.\<close>

function path_loop :: "u32 \<Rightarrow> string \<Rightarrow> string \<Rightarrow> string option" where
  "path_loop capacity buffer path =
     (let cursor = dropWhile (\<lambda>c. c = slash) path
      in if cursor = [] then Some buffer
         else
           let component = takeWhile (\<lambda>c. c \<noteq> slash) cursor; cursor = dropWhile (\<lambda>c. c \<noteq> slash) cursor
           in if component = ''.'' then path_loop capacity buffer cursor
              else if component = ''..'' then path_loop capacity (parent_path buffer) cursor
              else
                let separator_length = (if length buffer > 1 then 1 else 0)
                in if length buffer + separator_length + length component + 1 > unat capacity then None
                   else path_loop capacity (buffer @ (if length buffer > 1 then [slash] else []) @ component) cursor)"
  by auto

lemma path_loop_shorter:
  assumes "dropWhile (\<lambda>c. c = slash) path \<noteq> []"
  shows "length (dropWhile (\<lambda>c. c \<noteq> slash) (dropWhile (\<lambda>c. c = slash) path)) < length path"
proof -
  have "hd (dropWhile (\<lambda>c. c = slash) path) \<noteq> slash" using hd_dropWhile [OF assms] by simp
  then have "length (dropWhile (\<lambda>c. c \<noteq> slash) (dropWhile (\<lambda>c. c = slash) path)) < length (dropWhile (\<lambda>c. c = slash) path)"
    using assms length_dropWhile_le [of "\<lambda>c. c \<noteq> slash" "tl (dropWhile (\<lambda>c. c = slash) path)"]
    by (cases "dropWhile (\<lambda>c. c = slash) path") auto
  then show ?thesis using length_dropWhile_le [of "\<lambda>c. c = slash" path] by linarith
qed

termination path_loop
  by (relation "measure (\<lambda>(_, _, path). length path)") (auto intro: path_loop_shorter)

declare path_loop.simps [simp del]

definition process_path_apply :: "string \<Rightarrow> u32 \<Rightarrow> string option \<Rightarrow> string option" where
  "process_path_apply buffer capacity path =
     (case path of
        None \<Rightarrow> None
      | Some p \<Rightarrow> if capacity < 2 then None else path_loop capacity buffer p)"

definition process_get_cwd :: "u32 option \<Rightarrow> u32 \<Rightarrow> 'q process_system \<Rightarrow> string option" where
  "process_get_cwd proc capacity s =
     (case proc of
        None \<Rightarrow> None
      | Some p \<Rightarrow>
          if capacity = 0 then None
          else if length (cwd (procs s p)) + 1 > unat capacity then None
          else Some (cwd (procs s p)))"

definition process_resolve_path :: "u32 option \<Rightarrow> string option \<Rightarrow> u32 \<Rightarrow> 'q process_system \<Rightarrow> string option" where
  "process_resolve_path proc path capacity s =
     (case (proc, path) of
        (Some p, Some str) \<Rightarrow>
          if str = [] \<or> capacity < 2 then None
          else if hd str = slash then process_path_apply [slash] capacity path
          else (case process_get_cwd proc capacity s of
              None \<Rightarrow> None
            | Some buffer \<Rightarrow> if buffer = [] \<or> hd buffer \<noteq> slash then None else process_path_apply buffer capacity path)
      | _ \<Rightarrow> None)"

definition process_set_cwd :: "u32 option \<Rightarrow> string option \<Rightarrow> 'q process_system \<Rightarrow> bool \<times> 'q process_system" where
  "process_set_cwd proc path s =
     (case (proc, path) of
        (Some p, Some str) \<Rightarrow>
          if str = [] \<or> hd str \<noteq> slash then (False, s)
          else (case process_resolve_path proc path PROCESS_PATH_MAX s of
              None \<Rightarrow> (False, s)
            | Some canonical \<Rightarrow> (True, set_process p (cwd_update (\<lambda>_. canonical)) s))
      | _ \<Rightarrow> (False, s))"

section \<open>References\<close>

definition process_retain :: "u32 option \<Rightarrow> 'q process_system \<Rightarrow> bool \<times> 'q process_system" where
  "process_retain proc s =
     (case proc of
        None \<Rightarrow> (False, s)
      | Some p \<Rightarrow>
          if immortal (procs s p) then (True, s)
          else if references (procs s p) = 0 \<or> process_status (procs s p) = PROCESS_DEAD then (False, s)
          else (True, set_process p (references_update (\<lambda>n. n + 1)) s))"

text \<open>The last reference takes the process out of the registry, then gives back what it owns.\<close>

definition process_release :: "cpu_id \<Rightarrow> u32 option \<Rightarrow> 'q process_system \<Rightarrow> 'q process_system option" where
  "process_release c proc s =
     (case proc of
        None \<Rightarrow> Some s
      | Some p \<Rightarrow>
          if immortal (procs s p) then Some s
          else if references (procs s p) = 0 then None
          else
            let s = set_process p (references_update (\<lambda>n. n - 1)) s
            in if references (procs s p) \<noteq> 0 then Some s
               else
                 let s = process_registry_remove_locked p s
                 in if live_processes s = 0 then None
                    else
                      let s = s\<lparr>live_processes := live_processes s - 1\<rparr>
                      in if current_handles (accounting (procs s p)) > live_handles s then None
                         else
                           let s = s\<lparr>live_handles := live_handles s - current_handles (accounting (procs s p))\<rparr>;
                               s = set_process p (process_status_update (\<lambda>_. PROCESS_DEAD)) s;
                               space = process_space (procs s p);
                               s = set_process p (process_space_update (\<lambda>_. None)) s;
                               (ok, s) = (if space \<noteq> None then release_space c space s else (True, s))
                           in if \<not> ok then None
                              else if children (procs s p) \<noteq> None \<or> child_count (procs s p) \<noteq> 0 then None
                              else Some (process_kfree proc s))"

definition process_acquire_by_id :: "u32 \<Rightarrow> 'q process_system \<Rightarrow> (u32 option \<times> 'q process_system) option" where
  "process_acquire_by_id n s =
     (if n = PROCESS_ID_INVALID then Some (None, s)
      else do {
        found \<leftarrow> process_registry_find_locked n s;
        Some (case found of
           None \<Rightarrow> (None, s)
         | Some p \<Rightarrow>
             if process_status (procs s p) = PROCESS_DEAD then (None, s)
             else if immortal (procs s p) then (Some p, s)
             else if references (procs s p) = 0 then (None, s)
             else (Some p, set_process p (references_update (\<lambda>n. n + 1)) s))
      })"

section \<open>Accessors\<close>

definition process_id :: "u32 option \<Rightarrow> 'q process_system \<Rightarrow> u32" where
  "process_id proc s = (case proc of None \<Rightarrow> PROCESS_ID_INVALID | Some p \<Rightarrow> pid (procs s p))"

definition process_parent_id :: "u32 option \<Rightarrow> 'q process_system \<Rightarrow> u32" where
  "process_parent_id proc s = (case proc of None \<Rightarrow> PROCESS_ID_INVALID | Some p \<Rightarrow> parent_pid (procs s p))"

definition process_state :: "u32 option \<Rightarrow> 'q process_system \<Rightarrow> process_state_t" where
  "process_state proc s = (case proc of None \<Rightarrow> PROCESS_DEAD | Some p \<Rightarrow> process_status (procs s p))"

definition process_address_space :: "u32 option \<Rightarrow> 'q process_system \<Rightarrow> nat option" where
  "process_address_space proc s = (case proc of None \<Rightarrow> None | Some p \<Rightarrow> process_space (procs s p))"

definition process_thread_count :: "u32 option \<Rightarrow> 'q process_system \<Rightarrow> u32" where
  "process_thread_count proc s = (case proc of None \<Rightarrow> 0 | Some p \<Rightarrow> live_threads (procs s p))"

definition process_child_count :: "u32 option \<Rightarrow> 'q process_system \<Rightarrow> u32" where
  "process_child_count proc s = (case proc of None \<Rightarrow> 0 | Some p \<Rightarrow> child_count (procs s p))"

definition process_live_count :: "'q process_system \<Rightarrow> u32" where
  "process_live_count s = live_processes s"

definition process_handle_live_count :: "'q process_system \<Rightarrow> u32" where
  "process_handle_live_count s = live_handles s"

section \<open>Threads\<close>

definition process_thread_attach :: "u32 option \<Rightarrow> 'q process_system \<Rightarrow> bool \<times> 'q process_system" where
  "process_thread_attach proc s =
     (case proc of
        None \<Rightarrow> (False, s)
      | Some p \<Rightarrow>
          if process_status (procs s p) \<noteq> PROCESS_NEW \<and> process_status (procs s p) \<noteq> PROCESS_RUNNING then (False, s)
          else
            let s = set_process p (live_threads_update (\<lambda>n. n + 1)) s;
                n = live_threads (procs s p);
                s = (if n > peak_threads (accounting (procs s p))
                     then set_process p (accounting_update (peak_threads_update (\<lambda>_. n))) s else s)
            in (True, set_process p (process_status_update (\<lambda>_. PROCESS_RUNNING)) s))"

definition process_thread_detach :: "u32 option \<Rightarrow> 'q process_system \<Rightarrow> 'q process_system option" where
  "process_thread_detach proc s =
     (case proc of
        None \<Rightarrow> Some s
      | Some p \<Rightarrow>
          if live_threads (procs s p) = 0 then None
          else
            let s = set_process p (live_threads_update (\<lambda>n. n - 1)) s
            in Some (if live_threads (procs s p) = 0 \<and>
                        (process_status (procs s p) = PROCESS_RUNNING \<or> process_status (procs s p) = PROCESS_EXITING)
                     then
                       let s = set_process p (process_status_update (\<lambda>_. PROCESS_ZOMBIE)) s
                       in if termination_reason (procs s p) = PROCESS_TERMINATION_NONE
                          then set_process p (termination_reason_update (\<lambda>_. PROCESS_TERMINATION_NORMAL)) s else s
                     else s))"

definition process_account_runtime :: "u32 option \<Rightarrow> u64 \<Rightarrow> 'q process_system \<Rightarrow> 'q process_system" where
  "process_account_runtime proc ticks s =
     (case proc of
        None \<Rightarrow> s
      | Some p \<Rightarrow> if ticks = 0 then s else set_process p (accounting_update (process_ticks_update (\<lambda>n. n + ticks))) s)"

definition process_set_exit_status :: "u32 option \<Rightarrow> int \<Rightarrow> 'q process_system \<Rightarrow> bool \<times> 'q process_system" where
  "process_set_exit_status proc status s =
     (case proc of
        None \<Rightarrow> (False, s)
      | Some p \<Rightarrow>
          if process_status (procs s p) = PROCESS_DEAD then (False, s)
          else
            let s = set_process p (exit_status_update (\<lambda>_. status)) s
            in (True, set_process p (termination_reason_update (\<lambda>_. PROCESS_TERMINATION_NORMAL)) s))"

section \<open>Snapshots\<close>

record process_info =
  info_id :: u32
  info_parent_id :: u32
  info_state :: process_state_t
  info_reason :: process_termination_reason
  info_exit_status :: int
  info_thread_count :: u32
  info_handle_count :: u32
  info_ticks :: u64
  info_page_directory :: u32

definition process_snapshot :: "u32 option \<Rightarrow> 'q process_system \<Rightarrow> process_info option" where
  "process_snapshot proc s =
     (case proc of
        None \<Rightarrow> None
      | Some p \<Rightarrow> let pr = procs s p in
          Some \<lparr>info_id = pid pr, info_parent_id = parent_pid pr, info_state = process_status pr, info_reason = termination_reason pr,
                info_exit_status = exit_status pr, info_thread_count = live_threads pr, info_handle_count = current_handles (accounting pr),
                info_ticks = process_ticks (accounting pr),
                info_page_directory = (if process_space pr \<noteq> None
                  then address_space_page_directory (address_spaces (process_kernel s)) (process_space pr) else 0)\<rparr>)"

definition process_snapshot_by_id :: "cpu_id \<Rightarrow> u32 \<Rightarrow> 'q process_system \<Rightarrow> (process_info option \<times> 'q process_system) option" where
  "process_snapshot_by_id c n s =
     do {
       (proc, s) \<leftarrow> process_acquire_by_id n s;
       if proc = None then Some (None, s)
       else do {
         let result = process_snapshot proc s;
         s \<leftarrow> process_release c proc s;
         Some (result, s)
       }
     }"

section \<open>Handles\<close>

text \<open>The first free handle at or after \<open>i\<close>.\<close>

function free_handle_loop :: "bool list \<Rightarrow> nat \<Rightarrow> nat option" where
  "free_handle_loop hs i =
     (if i < PROCESS_MAX_HANDLES then if \<not> hs ! i then Some i else free_handle_loop hs (i + 1) else None)"
  by auto
termination
  by (relation "measure (\<lambda>(_, i). PROCESS_MAX_HANDLES - i)") auto

declare free_handle_loop.simps [simp del]

definition process_handle_open :: "u32 option \<Rightarrow> 'q process_system \<Rightarrow> u32 \<times> 'q process_system" where
  "process_handle_open proc s =
     (case proc of
        None \<Rightarrow> (PROCESS_HANDLE_INVALID, s)
      | Some p \<Rightarrow>
          if process_status (procs s p) = PROCESS_DEAD \<or> process_status (procs s p) = PROCESS_ZOMBIE then (PROCESS_HANDLE_INVALID, s)
          else (case free_handle_loop (handles (procs s p)) PROCESS_STANDARD_HANDLE_COUNT of
              None \<Rightarrow> (PROCESS_HANDLE_INVALID, s)
            | Some i \<Rightarrow>
                let s = set_process p (handles_update (\<lambda>hs. hs[i := True])) s;
                    s = set_process p (accounting_update (current_handles_update (\<lambda>n. n + 1))) s;
                    n = current_handles (accounting (procs s p));
                    s = (if n > peak_handles (accounting (procs s p))
                         then set_process p (accounting_update (peak_handles_update (\<lambda>_. n))) s else s);
                    s = s\<lparr>live_handles := live_handles s + 1\<rparr>
                in (of_nat (i + 1), s)))"

definition process_handle_close :: "u32 option \<Rightarrow> u32 \<Rightarrow> 'q process_system \<Rightarrow> (bool \<times> 'q process_system) option" where
  "process_handle_close proc handle s =
     (case proc of
        None \<Rightarrow> Some (False, s)
      | Some p \<Rightarrow>
          if handle = PROCESS_HANDLE_INVALID \<or> unat handle > PROCESS_MAX_HANDLES then Some (False, s)
          else
            let index = unat (handle - 1)
            in if \<not> handles (procs s p) ! index then Some (False, s)
               else
                 let s = set_process p (handles_update (\<lambda>hs. hs[index := False])) s
                 in if current_handles (accounting (procs s p)) = 0 then None
                    else
                      let s = set_process p (accounting_update (current_handles_update (\<lambda>n. n - 1))) s
                      in if live_handles s = 0 then None
                         else Some (True, s\<lparr>live_handles := live_handles s - 1\<rparr>))"

section \<open>Children\<close>

partial_function (option) has_child_loop :: "u32 \<Rightarrow> u32 option \<Rightarrow> 'q process_system \<Rightarrow> bool option" where
  "has_child_loop child at s =
     (case at of
        None \<Rightarrow> Some False
      | Some l \<Rightarrow>
          if link_child (child_links s l) = Some child \<or> process_id (link_child (child_links s l)) s = process_id (Some child) s
          then Some True else has_child_loop child (link_next (child_links s l)) s)"

partial_function (option) find_child_loop :: "u32 \<Rightarrow> u32 option \<Rightarrow> 'q process_system \<Rightarrow> u32 option option" where
  "find_child_loop n at s =
     (case at of
        None \<Rightarrow> Some None
      | Some l \<Rightarrow>
          if process_id (link_child (child_links s l)) s = n then Some (Some l)
          else find_child_loop n (link_next (child_links s l)) s)"

definition process_add_child :: "cpu_id \<Rightarrow> u32 option \<Rightarrow> u32 option \<Rightarrow> 'q process_system \<Rightarrow> (bool \<times> 'q process_system) option" where
  "process_add_child c parent child s =
     (case (parent, child) of
        (Some p, Some k) \<Rightarrow>
          if p = k then Some (False, s)
          else if process_id parent s = PROCESS_ID_INVALID \<or> process_parent_id child s \<noteq> process_id parent s then Some (False, s)
          else do {
            (link, s) \<leftarrow> process_kmalloc sizeof_child_link s;
            (case link of
               None \<Rightarrow> Some (False, s)
             | Some l \<Rightarrow> do {
                 let s = set_child_link l (\<lambda>_. \<lparr>link_child = None, link_previous = None, link_next = None\<rparr>) s;
                 let (retained, s) = process_retain child s;
                 if \<not> retained then Some (False, process_kfree link s)
                 else do {
                   let s = set_child_link l (link_child_update (\<lambda>_. child)) s;
                   let give_up = (\<lambda>s. do { s \<leftarrow> process_release c child s; Some (False, process_kfree link s) });
                   if process_status (procs s p) = PROCESS_EXITING \<or> process_status (procs s p) = PROCESS_ZOMBIE \<or>
                      process_status (procs s p) = PROCESS_DEAD then give_up s
                   else do {
                     duplicate \<leftarrow> has_child_loop k (children (procs s p)) s;
                     if duplicate then give_up s
                     else
                       let s = set_child_link l (link_previous_update (\<lambda>_. None)) s;
                           s = set_child_link l (link_next_update (\<lambda>_. children (procs s p))) s;
                           s = (case children (procs s p) of
                                  None \<Rightarrow> s | Some h \<Rightarrow> set_child_link h (link_previous_update (\<lambda>_. link)) s);
                           s = set_process p (children_update (\<lambda>_. link)) s
                       in Some (True, set_process p (child_count_update (\<lambda>n. n + 1)) s)
                   }
                 }
               })
          }
      | _ \<Rightarrow> Some (False, s))"

text \<open>Taking a link out of its list; the count is tested after the pointers are set.\<close>

definition unlink_child :: "u32 \<Rightarrow> u32 \<Rightarrow> 'q process_system \<Rightarrow> 'q process_system option" where
  "unlink_child p l s =
     (let s = (case link_previous (child_links s l) of
                 Some q \<Rightarrow> set_child_link q (link_next_update (\<lambda>_. link_next (child_links s l))) s
               | None \<Rightarrow> set_process p (children_update (\<lambda>_. link_next (child_links s l))) s);
          s = (case link_next (child_links s l) of
                 Some q \<Rightarrow> set_child_link q (link_previous_update (\<lambda>_. link_previous (child_links s l))) s
               | None \<Rightarrow> s)
      in if child_count (procs s p) = 0 then None
         else
           let s = set_process p (child_count_update (\<lambda>n. n - 1)) s;
               s = set_child_link l (link_previous_update (\<lambda>_. None)) s
           in Some (set_child_link l (link_next_update (\<lambda>_. None)) s))"

definition process_remove_child :: "cpu_id \<Rightarrow> u32 option \<Rightarrow> u32 \<Rightarrow> 'q process_system \<Rightarrow> (bool \<times> 'q process_system) option" where
  "process_remove_child c parent child_id s =
     (case parent of
        None \<Rightarrow> Some (False, s)
      | Some p \<Rightarrow>
          if child_id = PROCESS_ID_INVALID then Some (False, s)
          else do {
            removed \<leftarrow> find_child_loop child_id (children (procs s p)) s;
            (case removed of
               None \<Rightarrow> Some (False, s)
             | Some l \<Rightarrow> do {
                 s \<leftarrow> unlink_child p l s;
                 s \<leftarrow> process_release c (link_child (child_links s l)) s;
                 Some (True, process_kfree removed s)
               })
          })"

definition process_acquire_zombie_child :: "cpu_id \<Rightarrow> u32 option \<Rightarrow> u32 \<Rightarrow> 'q process_system \<Rightarrow> (u32 option \<times> 'q process_system) option" where
  "process_acquire_zombie_child c parent child_id s =
     (case parent of
        None \<Rightarrow> Some (None, s)
      | Some p \<Rightarrow>
          if child_id = PROCESS_ID_INVALID then Some (None, s)
          else do {
            found \<leftarrow> find_child_loop child_id (children (procs s p)) s;
            (case found of
               None \<Rightarrow> Some (None, s)
             | Some l \<Rightarrow>
                 let child = link_child (child_links s l); (retained, s) = process_retain child s
                 in if \<not> retained then Some (None, s)
                    else if process_state child s \<noteq> PROCESS_ZOMBIE then do { s \<leftarrow> process_release c child s; Some (None, s) }
                    else Some (child, s))
          })"

text \<open>The exit status of the collected child, \<open>None\<close> for \<open>false\<close>.\<close>

definition process_waitpid :: "cpu_id \<Rightarrow> u32 option \<Rightarrow> u32 \<Rightarrow> 'q process_system \<Rightarrow> (int option \<times> 'q process_system) option" where
  "process_waitpid c parent child_pid s =
     (case parent of
        None \<Rightarrow> Some (None, s)
      | Some p \<Rightarrow>
          if child_pid = PROCESS_ID_INVALID then Some (None, s)
          else do {
            removed \<leftarrow> find_child_loop child_pid (children (procs s p)) s;
            (case removed of
               None \<Rightarrow> Some (None, s)
             | Some l \<Rightarrow>
                 (case link_child (child_links s l) of
                    None \<Rightarrow> Some (None, s)
                  | Some k \<Rightarrow>
                      if process_status (procs s k) \<noteq> PROCESS_ZOMBIE then Some (None, s)
                      else do {
                        let child_status = exit_status (procs s k);
                        s \<leftarrow> unlink_child p l s;
                        s \<leftarrow> process_release c (link_child (child_links s l)) s;
                        let s = set_child_link l (link_child_update (\<lambda>_. None)) s;
                        Some (Some child_status, process_kfree removed s)
                      }))
          })"

section \<open>Initialisation and creation\<close>

definition empty_process :: process_t where
  "empty_process =
     \<lparr>pid = 0, parent_pid = 0, references = 0, immortal = False, process_status = PROCESS_NEW, termination_reason = PROCESS_TERMINATION_NONE,
      exit_status = 0, process_space = None, live_threads = 0,
      accounting = \<lparr>process_ticks = 0, peak_threads = 0, current_handles = 0, peak_handles = 0\<rparr>, children = None, child_count = 0,
      handles = replicate PROCESS_MAX_HANDLES False, registry_previous = None, registry_next = None, cwd = []\<rparr>"

definition process_initialize :: "'q process_system \<Rightarrow> 'q process_system option" where
  "process_initialize s =
     (if process_system_initialized s then Some s
      else (case address_space_kernel (process_kernel s) of
          None \<Rightarrow> None
        | Some space \<Rightarrow>
            let s = set_process kernel_process (\<lambda>_. empty_process\<lparr>cwd := [slash], pid := 1, parent_pid := PROCESS_ID_INVALID, references := 1,
                      immortal := True, process_status := PROCESS_RUNNING, process_space := Some space,
                      handles := replicate PROCESS_STANDARD_HANDLE_COUNT True @ replicate (PROCESS_MAX_HANDLES - PROCESS_STANDARD_HANDLE_COUNT) False,
                      accounting := \<lparr>process_ticks = 0, peak_threads = 0, current_handles = of_nat PROCESS_STANDARD_HANDLE_COUNT,
                        peak_handles = of_nat PROCESS_STANDARD_HANDLE_COUNT\<rparr>\<rparr>) s;
                s = process_registry_insert_locked kernel_process s
            in Some (s\<lparr>live_processes := 1, live_handles := of_nat PROCESS_STANDARD_HANDLE_COUNT, next_process_id := 2,
                       process_system_initialized := True\<rparr>)))"

text \<open>A new process at the address \<open>p\<close>, registered under the next identifier.\<close>

definition register_process :: "u32 \<Rightarrow> 'q process_system \<Rightarrow> 'q process_system" where
  "register_process p s =
     (let s = set_process p (pid_update (\<lambda>_. next_process_id s)) s;
          s = s\<lparr>next_process_id := next_process_id s + 1\<rparr>;
          s = process_registry_insert_locked p s
      in s\<lparr>live_processes := live_processes s + 1\<rparr>)"

text \<open>Attaching to the parent: its working directory is inherited, and it becomes the owner of a reference.\<close>

definition attach_to_parent :: "cpu_id \<Rightarrow> u32 \<Rightarrow> u32 \<Rightarrow> 'q process_system \<Rightarrow> (u32 option \<times> 'q process_system) option" where
  "attach_to_parent c p n s =
     do {
       (parent, s) \<leftarrow> process_acquire_by_id n s;
       if parent = None then do { s \<leftarrow> process_release c (Some p) s; Some (None, s) }
       else do {
         let give_up = (\<lambda>s. do { s \<leftarrow> process_release c parent s; s \<leftarrow> process_release c (Some p) s; Some (None, s) });
         let (inherited, s) = (case process_get_cwd parent PROCESS_PATH_MAX s of
                                 None \<Rightarrow> (False, s) | Some path \<Rightarrow> process_set_cwd (Some p) (Some path) s);
         if \<not> inherited then give_up s
         else do {
           (added, s) \<leftarrow> process_add_child c parent (Some p) s;
           if \<not> added then give_up s
           else do { s \<leftarrow> process_release c parent s; Some (Some p, s) }
         }
       }
     }"

definition process_create :: "cpu_id \<Rightarrow> nat option \<Rightarrow> u32 \<Rightarrow> 'q process_system \<Rightarrow> (u32 option \<times> 'q process_system) option" where
  "process_create c space n s =
     (if space = None then Some (None, s)
      else
        let (retained, s) = retain_space c space s
        in if \<not> retained then Some (None, s)
           else do {
             (proc, s) \<leftarrow> process_kmalloc sizeof_process s;
             (case proc of
                None \<Rightarrow> Some (None, snd (release_space c space s))
              | Some p \<Rightarrow>
                  let s = set_process p (\<lambda>_. empty_process\<lparr>parent_pid := n, references := 1, process_space := space, cwd := [slash]\<rparr>) s
                  in if \<not> process_system_initialized s then Some (None, process_kfree proc (snd (release_space c space s)))
                     else if next_process_id s = PROCESS_ID_INVALID then None
                     else
                       let s = register_process p s
                       in if n \<noteq> PROCESS_ID_INVALID then attach_to_parent c p n s else Some (proc, s))
           })"

end
