(* ===== verification/ProcessPath.thy ===== *)
theory ProcessPath
  imports Process VfsSpec
begin

text \<open>
  Canonical paths: a canonical path is the root followed by names, and resolving a path folds its names over
  that list.
\<close>

section \<open>Canonical paths as lists of names\<close>

definition proper_name :: "string \<Rightarrow> bool" where
  "proper_name n \<longleftrightarrow> n \<noteq> [] \<and> slash \<notin> set n \<and> n \<noteq> ''.'' \<and> n \<noteq> ''..''"

definition path_of :: "string list \<Rightarrow> string" where
  "path_of ns = (if ns = [] then [slash] else concat (map (\<lambda>n. slash # n) ns))"

text \<open>What one name of a path does to the names before it.\<close>

definition enter :: "string list \<Rightarrow> string \<Rightarrow> string list" where
  "enter ns n = (if n = ''.'' then ns else if n = ''..'' then butlast ns else ns @ [n])"

lemma path_of_snoc: "path_of (ns @ [n]) = concat (map (\<lambda>n. slash # n) ns) @ slash # n"
  by (simp add: path_of_def)

lemma path_of_extend: "path_of (ns @ [n]) = (if ns = [] then [] else path_of ns) @ slash # n"
  by (simp add: path_of_def)

lemma path_of_length: "(\<forall>n \<in> set ns. n \<noteq> []) \<Longrightarrow> length (path_of ns) > 1 \<longleftrightarrow> ns \<noteq> []"
  by (cases ns) (auto simp: path_of_def)

lemma path_of_hd [simp]: "path_of ns \<noteq> []" "hd (path_of ns) = slash"
  by (cases ns; simp add: path_of_def)+

lemma names_cons_slash [simp]: "names (slash # p) = names p"
  by (simp add: names_def)

lemma pieces_name: "slash \<notin> set n \<Longrightarrow> pieces n = [n]"
  by (induction n) auto

lemma pieces_name_append: "slash \<notin> set n \<Longrightarrow> pieces (n @ slash # p) = n # pieces p"
  by (induction n) auto

lemma names_concat:
  "(\<forall>n \<in> set ns. n \<noteq> [] \<and> slash \<notin> set n) \<Longrightarrow> names (concat (map (\<lambda>n. slash # n) ns)) = ns"
proof (induction ns)
  case (Cons n ns)
  show ?case
  proof (cases ns)
    case Nil
    then show ?thesis using Cons.prems by (simp add: names_def pieces_name)
  next
    case (Cons m ms)
    have "names (n @ slash # m @ concat (map (\<lambda>n. slash # n) ms)) = n # names (slash # m @ concat (map (\<lambda>n. slash # n) ms))"
      using Cons.prems by (simp add: names_def pieces_name_append)
    then show ?thesis using Cons Cons.IH Cons.prems by simp
  qed
qed (simp add: names_def)

lemma names_path_of: "(\<forall>n \<in> set ns. n \<noteq> [] \<and> slash \<notin> set n) \<Longrightarrow> names (path_of ns) = ns"
  using names_concat [of ns] by (cases ns) (auto simp: path_of_def names_def)

lemma piece_no_slash: "n \<in> set (pieces p) \<Longrightarrow> slash \<notin> set n"
proof (induction p arbitrary: n)
  case (Cons c p)
  have "hd (pieces p) \<in> set (pieces p)" "set (tl (pieces p)) \<subseteq> set (pieces p)"
    by (simp, metis pieces_nonempty list.collapse set_subset_Cons)
  then show ?case using Cons.IH [of "hd (pieces p)"] Cons.IH [of n] Cons.prems by (auto split: if_splits)
qed simp

lemma names_good: "n \<in> set (names p) \<Longrightarrow> n \<noteq> [] \<and> slash \<notin> set n"
  using piece_no_slash by (auto simp: names_def)

lemma enter_proper: "\<forall>n \<in> set ns. proper_name n \<Longrightarrow> n \<noteq> [] \<Longrightarrow> slash \<notin> set n \<Longrightarrow> \<forall>m \<in> set (enter ns n). proper_name m"
  by (auto simp: enter_def proper_name_def dest: in_set_butlastD)

lemma foldl_enter_proper:
  "\<forall>n \<in> set ns. proper_name n \<Longrightarrow> \<forall>n \<in> set ms. n \<noteq> [] \<and> slash \<notin> set n \<Longrightarrow> \<forall>n \<in> set (foldl enter ns ms). proper_name n"
proof (induction ms arbitrary: ns)
  case (Cons m ms)
  then show ?case using enter_proper [of ns m] by simp
qed simp

lemma foldl_enter_id: "\<forall>n \<in> set ms. proper_name n \<Longrightarrow> foldl enter ns ms = ns @ ms"
  by (induction ms arbitrary: ns) (auto simp: enter_def proper_name_def)

section \<open>The loop of \<open>process_path_apply\<close>\<close>

lemma cut_name_run: "slash \<notin> set n \<Longrightarrow> cut_name (b @ slash # n) = b @ [slash]"
proof (induction n rule: rev_induct)
  case Nil
  then show ?case by (subst cut_name.simps) simp
next
  case (snoc c n)
  then have "cut_name (b @ slash # n @ [c]) = cut_name (b @ slash # n)"
    by (subst cut_name.simps) (auto simp: butlast_append)
  then show ?case using snoc by simp
qed

lemma parent_path_run:
  assumes "\<forall>n \<in> set ns. n \<noteq> [] \<and> slash \<notin> set n"
  shows "parent_path (path_of ns) = path_of (butlast ns)"
proof (cases ns rule: rev_cases)
  case Nil
  have "cut_name [slash] = [slash]" by (subst cut_name.simps) simp
  then show ?thesis using Nil by (simp add: parent_path_def path_of_def)
next
  case (snoc ms n)
  then have "cut_name (path_of ns) = concat (map (\<lambda>n. slash # n) ms) @ [slash]"
    using assms cut_name_run [of n "concat (map (\<lambda>n. slash # n) ms)"] by (simp add: path_of_snoc)
  then show ?thesis using snoc by (cases ms) (simp_all add: parent_path_def path_of_def butlast_append)
qed

lemma takeWhile_piece: "takeWhile (\<lambda>c. c \<noteq> slash) p = hd (pieces p)"
  by (induction p) auto

lemma dropWhile_piece: "dropWhile (\<lambda>c. c \<noteq> slash) p = drop (length (hd (pieces p))) p"
  by (induction p) auto

lemma first_name:
  assumes "dropWhile (\<lambda>c. c = slash) p \<noteq> []"
  shows "names p = takeWhile (\<lambda>c. c \<noteq> slash) (dropWhile (\<lambda>c. c = slash) p) #
     names (dropWhile (\<lambda>c. c \<noteq> slash) (dropWhile (\<lambda>c. c = slash) p))"
proof -
  let ?q = "dropWhile (\<lambda>c. c = slash) p"
  have "hd ?q \<noteq> slash" using hd_dropWhile [OF assms] by simp
  then have "hd (pieces ?q) \<noteq> []" using assms by (cases ?q) auto
  then have "names ?q = hd (pieces ?q) # filter (\<lambda>n. n \<noteq> []) (tl (pieces ?q))"
    by (cases "pieces ?q") (simp_all add: names_def)
  then show ?thesis using names_rest [of ?q] names_skip [of p] by (simp add: takeWhile_piece dropWhile_piece)
qed

text \<open>The names are entered one by one, and every intermediate path must fit.\<close>

fun enter_all :: "u32 \<Rightarrow> string list \<Rightarrow> string list \<Rightarrow> string list option" where
  "enter_all capacity ns [] = Some ns"
| "enter_all capacity ns (m # ms) =
     (if length (path_of (enter ns m)) < unat capacity then enter_all capacity (enter ns m) ms else None)"

lemma path_of_butlast_le: "length (path_of (butlast ns)) \<le> length (path_of ns)"
proof (cases ns rule: rev_cases)
  case (snoc ms n)
  then show ?thesis by (simp add: path_of_extend split: if_splits) (simp add: path_of_def)
qed simp

lemma path_loop_run:
  assumes "\<forall>n \<in> set ns. proper_name n" "length (path_of ns) < unat capacity"
  shows "path_loop capacity (path_of ns) p = map_option path_of (enter_all capacity ns (names p))"
  using assms
proof (induction "length p" arbitrary: p ns rule: less_induct)
  case less
  let ?q = "dropWhile (\<lambda>c. c = slash) p"
  let ?m = "takeWhile (\<lambda>c. c \<noteq> slash) ?q"
  let ?r = "dropWhile (\<lambda>c. c \<noteq> slash) ?q"
  show ?case
  proof (cases "?q = []")
    case True
    have "names p = names ?q" by (rule names_skip [symmetric])
    also have "\<dots> = []" unfolding True by (simp add: names_def)
    finally show ?thesis using True by (subst path_loop.simps) simp
  next
    case False
    have n: "names p = ?m # names ?r" by (rule first_name [OF False])
    have m: "?m \<noteq> []" "slash \<notin> set ?m" using names_good [of ?m p] n by auto
    have good: "\<forall>n \<in> set ns. n \<noteq> [] \<and> slash \<notin> set n" using less.prems(1) by (simp add: proper_name_def)
    have IH: "length (path_of (enter ns ?m)) < unat capacity \<Longrightarrow>
        path_loop capacity (path_of (enter ns ?m)) ?r = map_option path_of (enter_all capacity (enter ns ?m) (names ?r))"
      using less.hyps [OF path_loop_shorter [OF False]] enter_proper [OF less.prems(1) m] by blast
    have long: "length (path_of ns) > 1 \<longleftrightarrow> ns \<noteq> []" using path_of_length [of ns] good by simp
    have short: "length (path_of (butlast ns)) < unat capacity" using path_of_butlast_le [of ns] less.prems(2) by linarith
    consider "?m = ''.''" | "?m = ''..''" | "?m \<noteq> ''.''" "?m \<noteq> ''..''" by blast
    then show ?thesis
    proof cases
      case 1
      then have "path_loop capacity (path_of ns) p = path_loop capacity (path_of ns) ?r"
        by (subst path_loop.simps) (simp add: Let_def False del: dropWhile_eq_Nil_conv)
      then show ?thesis using IH 1 less.prems(2) unfolding n by (simp add: enter_def)
    next
      case 2
      then have "path_loop capacity (path_of ns) p = path_loop capacity (path_of (butlast ns)) ?r"
        using parent_path_run [OF good] by (subst path_loop.simps) (simp add: Let_def False del: dropWhile_eq_Nil_conv)
      then show ?thesis using IH 2 short unfolding n by (simp add: enter_def)
    next
      case 3
      have e: "enter ns ?m = ns @ [?m]" using 3 by (simp add: enter_def)
      have b: "path_of ns @ (if length (path_of ns) > 1 then [slash] else []) @ ?m = path_of (ns @ [?m])"
        using long by (simp add: path_of_extend) (simp add: path_of_def)
      have l: "length (path_of ns) + (if length (path_of ns) > 1 then 1 else 0) + length ?m + 1 > unat capacity \<longleftrightarrow>
          \<not> length (path_of (ns @ [?m])) < unat capacity"
        unfolding b [symmetric] by auto
      have "path_loop capacity (path_of ns) p = (if length (path_of (ns @ [?m])) < unat capacity
          then path_loop capacity (path_of (ns @ [?m])) ?r else None)"
        using 3 b l by (subst path_loop.simps) (simp add: Let_def False del: dropWhile_eq_Nil_conv)
      then show ?thesis using IH unfolding n enter_all.simps e by simp
    qed
  qed
qed

lemma ball_from_1: "(\<forall>k \<in> {1..Suc n}. P k) \<longleftrightarrow> P 1 \<and> (\<forall>k \<in> {1..n}. P (Suc k))"
proof -
  have "{1..Suc n} = insert 1 (Suc ` {1..n})" by (simp add: image_Suc_atLeastAtMost) auto
  then show ?thesis by (simp del: image_Suc_atLeastAtMost)
qed

lemma enter_all_fits:
  "enter_all capacity ns ms =
     (if \<forall>k \<in> {1..length ms}. length (path_of (foldl enter ns (take k ms))) < unat capacity then Some (foldl enter ns ms) else None)"
proof (induction ms arbitrary: ns)
  case (Cons m ms)
  have "(\<forall>k \<in> {1..length (m # ms)}. length (path_of (foldl enter ns (take k (m # ms)))) < unat capacity) \<longleftrightarrow>
      length (path_of (enter ns m)) < unat capacity \<and>
      (\<forall>k \<in> {1..length ms}. length (path_of (foldl enter (enter ns m) (take k ms))) < unat capacity)"
    unfolding length_Cons ball_from_1 by simp
  then show ?case using Cons.IH [of "enter ns m"] by (simp del: length_Cons)
qed simp

section \<open>The property\<close>

definition cwd_ok :: "string \<Rightarrow> bool" where
  "cwd_ok path \<longleftrightarrow> (\<forall>n \<in> set (names path). proper_name n) \<and> path = path_of (names path) \<and> length path < 256"

lemma resolve_run:
  assumes "cwd_ok (cwd (procs s p))" "q \<noteq> []" "2 \<le> unat n" "st = (if hd q = slash then [] else names (cwd (procs s p)))"
  shows "process_resolve_path (Some p) (Some q) n s =
      (if \<forall>k \<le> length (names q). length (path_of (foldl enter st (take k (names q)))) < unat n
       then Some (path_of (foldl enter st (names q))) else None)"
proof -
  have n': "\<not> n < 2" "n \<noteq> 0" using assms(3) by (auto simp: word_less_nat_alt)
  have proper: "\<forall>m \<in> set st. proper_name m" using assms(1,4) by (simp add: cwd_ok_def)
  have start: "process_resolve_path (Some p) (Some q) n s = (if length (path_of st) < unat n then path_loop n (path_of st) q else None)"
  proof (cases "hd q = slash")
    case True
    then show ?thesis using assms n' by (simp add: process_resolve_path_def process_path_apply_def path_of_def)
  next
    case False
    then have "path_of st = cwd (procs s p)" using assms(1,4) by (simp add: cwd_ok_def)
    then show ?thesis using assms(2) n' False path_of_hd [of st]
      by (auto simp: process_resolve_path_def process_path_apply_def process_get_cwd_def simp del: path_of_hd)
  qed
  have split: "(\<forall>k \<le> length (names q). P k) \<longleftrightarrow> P 0 \<and> (\<forall>k \<in> {1..length (names q)}. P k)" for P
    by (metis One_nat_def atLeastAtMost_iff le0 not_less_eq_eq le_zero_eq)
  show ?thesis
    using path_loop_run [OF proper, of n q] enter_all_fits [of n st "names q"] unfolding start split by auto
qed

text \<open>A canonical path resolves to itself.\<close>

lemma resolve_same:
  assumes "cwd_ok (cwd (procs s p))" "\<forall>m \<in> set ms. proper_name m" "length (path_of ms) < unat n" "2 \<le> unat n"
  shows "process_resolve_path (Some p) (Some (path_of ms)) n s = Some (path_of ms)"
proof -
  have names: "names (path_of ms) = ms" using assms(2) by (intro names_path_of) (simp add: proper_name_def)
  have whole: "foldl enter [] (take k ms) = take k ms" for k
    using assms(2) foldl_enter_id [of "take k ms" "[]"] by (auto dest: in_set_takeD)
  have grow: "length (path_of (take k ms)) \<le> length (path_of ms)" for k
  proof -
    have "length (path_of xs) \<le> length (path_of (xs @ ys))" for xs ys :: "string list"
      by (cases xs; cases ys) (simp_all add: path_of_def)
    then show ?thesis using append_take_drop_id [of k ms] by metis
  qed
  show ?thesis
    unfolding resolve_run [OF assms(1) path_of_hd(1) assms(4) refl] path_of_hd(2) names if_True whole
    using assms(3) grow foldl_enter_id [OF assms(2), of "[]"] by (auto simp: whole intro: le_less_trans)
qed

lemma set_cwd_same:
  assumes "cwd_ok (cwd (procs s p))" "cwd_ok r"
  shows "process_set_cwd (Some p) (Some r) s = (True, set_process p (cwd_update (\<lambda>_. r)) s)"
proof -
  have r: "\<forall>m \<in> set (names r). proper_name m" "path_of (names r) = r" "length r < unat PROCESS_PATH_MAX" "2 \<le> unat PROCESS_PATH_MAX"
    using assms(2) by (auto simp: cwd_ok_def PROCESS_PATH_MAX_def)
  have "process_resolve_path (Some p) (Some r) PROCESS_PATH_MAX s = Some r"
    using resolve_same [OF assms(1) r(1) _ r(4)] r(2,3) by simp
  moreover have "r \<noteq> []" "hd r = slash" using r(2) path_of_hd [of "names r"] by simp_all
  ultimately show ?thesis by (simp add: process_set_cwd_def)
qed

lemma resolve_ok:
  assumes cwd: "cwd_ok (cwd (procs s p))" and "path \<noteq> []" "process_resolve_path (Some p) (Some path) PROCESS_PATH_MAX s = Some r"
  shows "cwd_ok r"
proof -
  define start where "start = (if hd path = slash then [] else names (cwd (procs s p)))"
  have two: "2 \<le> unat PROCESS_PATH_MAX" "unat PROCESS_PATH_MAX = 256" by (simp_all add: PROCESS_PATH_MAX_def)
  have canonical: "\<forall>m \<in> set (foldl enter start (names path)). proper_name m"
    using cwd by (intro foldl_enter_proper) (auto simp: start_def cwd_ok_def dest: names_good)
  have "r = path_of (foldl enter start (names path))" "length r < 256"
    using assms(3) resolve_run [OF cwd assms(2) two(1) start_def] two(2) by (auto split: if_splits dest: spec [of _ "length (names path)"])
  then show ?thesis
    using canonical names_path_of [of "foldl enter start (names path)"] by (simp add: cwd_ok_def proper_name_def)
qed

text \<open>Claim C37. Resolving a path against the canonical working directory of a process gives the canonical path of the
  names that remain when the names of the path are entered one by one, starting from the working directory or, for an
  absolute path, from the root; it fails exactly when the buffer is too small for the working directory or for one of
  the intermediate paths. The result is canonical, so that resolving it again changes nothing and setting it as the
  working directory succeeds and keeps the working directory canonical.\<close>

theorem resolve_path_canonical:
  assumes "cwd_ok (cwd (procs s p))" "path \<noteq> []" "capacity \<ge> 2"
  defines "start \<equiv> if hd path = slash then [] else names (cwd (procs s p))"
  shows "process_resolve_path (Some p) (Some path) capacity s =
      (if \<forall>k \<le> length (names path). length (path_of (foldl enter start (take k (names path)))) < unat capacity
       then Some (path_of (foldl enter start (names path))) else None) \<and>
    (\<forall>r. process_resolve_path (Some p) (Some path) capacity s = Some r \<longrightarrow>
       process_resolve_path (Some p) (Some r) capacity s = Some r \<and>
       (length r < 256 \<longrightarrow> (\<exists>s'. process_set_cwd (Some p) (Some r) s = (True, s') \<and> cwd (procs s' p) = r \<and> cwd_ok r)))"
proof -
  have two: "2 \<le> unat capacity" using assms(3) by (simp add: word_le_nat_alt)
  have canonical: "\<forall>m \<in> set (foldl enter start (names path)). proper_name m"
    using assms(1) by (intro foldl_enter_proper) (auto simp: start_def cwd_ok_def dest: names_good)
  show ?thesis
  proof (intro conjI allI impI)
    show resolved: "process_resolve_path (Some p) (Some path) capacity s =
        (if \<forall>k \<le> length (names path). length (path_of (foldl enter start (take k (names path)))) < unat capacity
         then Some (path_of (foldl enter start (names path))) else None)"
      by (rule resolve_run [OF assms(1,2) two]) (simp add: start_def)
    fix r
    assume r: "process_resolve_path (Some p) (Some path) capacity s = Some r"
    then have r': "r = path_of (foldl enter start (names path))" "length r < unat capacity"
      using resolved by (auto split: if_splits dest: spec [of _ "length (names path)"])
    then show "process_resolve_path (Some p) (Some r) capacity s = Some r" using resolve_same [OF assms(1) canonical _ two] by simp
    assume short: "length r < 256"
    then have "cwd_ok r"
      using canonical names_path_of [of "foldl enter start (names path)"] unfolding r'(1) by (simp add: cwd_ok_def proper_name_def)
    then show "\<exists>s'. process_set_cwd (Some p) (Some r) s = (True, s') \<and> cwd (procs s' p) = r \<and> cwd_ok r"
      using set_cwd_same [OF assms(1)] by (simp add: set_process_def)
  qed
qed

end
