(* ===== verification/ProcessInv.thy ===== *)
theory ProcessInv
  imports ProcessPath FdProps
begin

text \<open>
  The ownership of processes: who holds references, which objects the registry and the child links reach, and
  the sums that the counters stand for. \<open>ext\<close> counts the references to a process that are held outside of the child
  links (creators, tasks, lookups), \<open>sext\<close> those to an address space that are held outside of the processes.
\<close>

section \<open>The invariant\<close>

text \<open>The processes of the registry, and for each process its child links in order.\<close>

definition reg_ok :: "'q process_system \<Rightarrow> u32 list \<Rightarrow> bool" where
  "reg_ok s reg \<longleftrightarrow>
     dll (\<lambda>p. registry_previous (procs s p)) (\<lambda>p. registry_next (procs s p)) (process_registry_head s) (last_or None reg) reg \<and>
     kernel_process \<in> set reg \<and> unat (live_processes s) = length reg \<and> inj_on (\<lambda>p. pid (procs s p)) (set reg) \<and>
     (\<forall>p \<in> set reg. pid (procs s p) \<noteq> 0 \<and> (next_process_id s = 0 \<or> pid (procs s p) < next_process_id s))"

definition kid_ok :: "'q process_system \<Rightarrow> u32 list \<Rightarrow> u32 \<Rightarrow> u32 list \<Rightarrow> bool" where
  "kid_ok s reg p ls \<longleftrightarrow>
     dll (\<lambda>l. link_previous (child_links s l)) (\<lambda>l. link_next (child_links s l)) (children (procs s p)) (last_or None ls) ls \<and>
     unat (child_count (procs s p)) = length ls \<and> inj_on (\<lambda>l. link_child (child_links s l)) (set ls) \<and>
     (\<forall>l \<in> set ls. \<exists>k \<in> set reg. link_child (child_links s l) = Some k \<and> k \<noteq> p \<and> parent_pid (procs s k) = pid (procs s p))"

definition kids_ok :: "'q process_system \<Rightarrow> u32 list \<Rightarrow> (u32 \<Rightarrow> u32 list) \<Rightarrow> bool" where
  "kids_ok s reg kids \<longleftrightarrow> (\<forall>p \<in> set reg. kid_ok s reg p (kids p)) \<and>
     (\<forall>p \<in> set reg. \<forall>q \<in> set reg. p \<noteq> q \<longrightarrow> set (kids p) \<inter> set (kids q) = {})"

definition owned_child :: "'q process_system \<Rightarrow> u32 list \<Rightarrow> (u32 \<Rightarrow> u32 list) \<Rightarrow> u32 \<Rightarrow> bool" where
  "owned_child s reg kids k \<longleftrightarrow> (\<exists>p \<in> set reg. \<exists>l \<in> set (kids p). link_child (child_links s l) = Some k)"

definition refs_ok :: "(u32 \<Rightarrow> nat) \<Rightarrow> 'q process_system \<Rightarrow> u32 list \<Rightarrow> (u32 \<Rightarrow> u32 list) \<Rightarrow> bool" where
  "refs_ok ext s reg kids \<longleftrightarrow>
     (\<forall>p \<in> set reg. (immortal (procs s p) \<longleftrightarrow> p = kernel_process) \<and> process_status (procs s p) \<noteq> PROCESS_DEAD \<and>
        (p \<noteq> kernel_process \<longrightarrow> references (procs s p) \<noteq> 0 \<and>
           unat (references (procs s p)) = ext p + of_bool (owned_child s reg kids p)))"

definition memory_ok :: "'q process_system \<Rightarrow> u32 list \<Rightarrow> (u32 \<Rightarrow> u32 list) \<Rightarrow> bool" where
  "memory_ok s reg kids \<longleftrightarrow> heap_good (process_heap s) \<and> set reg - {kernel_process} \<subseteq> heap_owned (process_heap s) \<and>
     (\<forall>p \<in> set reg. set (kids p) \<subseteq> heap_owned (process_heap s) \<and> set (kids p) \<inter> set reg = {})"

definition handles_ok :: "'q process_system \<Rightarrow> u32 list \<Rightarrow> bool" where
  "handles_ok s reg \<longleftrightarrow>
     (\<forall>p \<in> set reg. length (handles (procs s p)) = 64 \<and>
        unat (current_handles (accounting (procs s p))) = length (filter id (handles (procs s p)))) \<and>
     unat (live_handles s) = (\<Sum>p \<in> set reg. unat (current_handles (accounting (procs s p))))"

definition space_users :: "'q process_system \<Rightarrow> u32 list \<Rightarrow> nat \<Rightarrow> u32 set" where
  "space_users s reg a = {p \<in> set reg. process_space (procs s p) = Some a}"

definition spaces_ok :: "cpu_id \<Rightarrow> (nat \<Rightarrow> nat) \<Rightarrow> 'q process_system \<Rightarrow> u32 list \<Rightarrow> bool" where
  "spaces_ok c sext s reg \<longleftrightarrow>
     (let k = process_kernel s
      in kernel_directory_physical k \<noteq> 0 \<and> paging_current_directory c k = kernel_directory_physical k \<and>
         (\<forall>p \<in> set reg. process_space (procs s p) \<noteq> None) \<and>
         (\<forall>a. \<not> kernel_space (address_spaces k a) \<longrightarrow>
            unat (reference_count (address_spaces k a)) = sext a + card (space_users s reg a) \<and>
            (reference_count (address_spaces k a) \<noteq> 0 \<longrightarrow>
               page_directory (address_spaces k a) \<noteq> 0 \<and> page_directory (address_spaces k a) \<noteq> kernel_directory_physical k)))"

text \<open>All but the counts of the references.\<close>

definition proc_core :: "cpu_id \<Rightarrow> (nat \<Rightarrow> nat) \<Rightarrow> 'q process_system \<Rightarrow> u32 list \<Rightarrow> (u32 \<Rightarrow> u32 list) \<Rightarrow> bool" where
  "proc_core c sext s reg kids \<longleftrightarrow>
     process_system_initialized s \<and> reg_ok s reg \<and> kids_ok s reg kids \<and> memory_ok s reg kids \<and>
     handles_ok s reg \<and> spaces_ok c sext s reg \<and> (\<forall>p \<in> set reg. cwd_ok (cwd (procs s p)))"

definition proc_inv :: "cpu_id \<Rightarrow> (u32 \<Rightarrow> nat) \<Rightarrow> (nat \<Rightarrow> nat) \<Rightarrow> 'q process_system \<Rightarrow> u32 list \<Rightarrow> (u32 \<Rightarrow> u32 list) \<Rightarrow> bool" where
  "proc_inv c ext sext s reg kids \<longleftrightarrow> proc_core c sext s reg kids \<and> refs_ok ext s reg kids"

lemmas proc_parts = reg_ok_def kids_ok_def kid_ok_def refs_ok_def memory_ok_def handles_ok_def spaces_ok_def

section \<open>What the operations do to the fields\<close>

lemma set_process_fields [simp]:
  "procs (set_process p f s) = (procs s)(p := f (procs s p))"
  "child_links (set_process p f s) = child_links s" "process_registry_head (set_process p f s) = process_registry_head s"
  "next_process_id (set_process p f s) = next_process_id s" "live_processes (set_process p f s) = live_processes s"
  "live_handles (set_process p f s) = live_handles s" "process_system_initialized (set_process p f s) = process_system_initialized s"
  "process_heap (set_process p f s) = process_heap s" "process_kernel (set_process p f s) = process_kernel s"
  by (simp_all add: set_process_def)

lemma set_child_link_fields [simp]:
  "procs (set_child_link l g s) = procs s" "child_links (set_child_link l g s) = (child_links s)(l := g (child_links s l))"
  "process_registry_head (set_child_link l g s) = process_registry_head s"
  "next_process_id (set_child_link l g s) = next_process_id s" "live_processes (set_child_link l g s) = live_processes s"
  "live_handles (set_child_link l g s) = live_handles s" "process_system_initialized (set_child_link l g s) = process_system_initialized s"
  "process_heap (set_child_link l g s) = process_heap s" "process_kernel (set_child_link l g s) = process_kernel s"
  by (simp_all add: set_child_link_def)

text \<open>The fields of a process that \<open>proc_core\<close> reads, but for the working directory.\<close>

definition process_key :: "process_t \<Rightarrow> (u32 \<times> u32) \<times> (nat option \<times> u32 option \<times> u32 \<times> bool list \<times> u32) \<times> (u32 option \<times> u32 option)" where
  "process_key pr = ((pid pr, parent_pid pr),
     (process_space pr, children pr, child_count pr, handles pr, current_handles (accounting pr)), (registry_previous pr, registry_next pr))"

lemma proc_core_frame:
  assumes "proc_core c sext s reg kids" "\<forall>p \<in> set reg. process_key (procs s' p) = process_key (procs s p) \<and> cwd_ok (cwd (procs s' p))"
    and "\<forall>p \<in> set reg. \<forall>l \<in> set (kids p). child_links s' l = child_links s l"
    and "process_registry_head s' = process_registry_head s" "next_process_id s' = next_process_id s" "live_processes s' = live_processes s"
    and "live_handles s' = live_handles s" "process_system_initialized s' = process_system_initialized s"
    and "process_kernel s' = process_kernel s"
    and "heap_good (process_heap s')" "set reg - {kernel_process} \<union> (\<Union>p \<in> set reg. set (kids p)) \<subseteq> heap_owned (process_heap s')"
  shows "proc_core c sext s' reg kids"
proof -
  have same: "pid (procs s' p) = pid (procs s p)" "parent_pid (procs s' p) = parent_pid (procs s p)"
      "process_space (procs s' p) = process_space (procs s p)" "children (procs s' p) = children (procs s p)"
      "child_count (procs s' p) = child_count (procs s p)" "handles (procs s' p) = handles (procs s p)"
      "current_handles (accounting (procs s' p)) = current_handles (accounting (procs s p))"
      "registry_previous (procs s' p) = registry_previous (procs s p)" "registry_next (procs s' p) = registry_next (procs s p)"
    if "p \<in> set reg" for p
    using assms(2) that by (simp_all add: process_key_def)
  have reg: "reg_ok s' reg"
  proof -
    have "dll (\<lambda>p. registry_previous (procs s' p)) (\<lambda>p. registry_next (procs s' p)) (process_registry_head s) (last_or None reg) reg"
      using assms(1) dll_cong [of reg "\<lambda>p. registry_previous (procs s' p)" "\<lambda>p. registry_previous (procs s p)"
          "\<lambda>p. registry_next (procs s' p)" "\<lambda>p. registry_next (procs s p)"] same by (simp add: proc_core_def reg_ok_def)
    moreover have "inj_on (\<lambda>p. pid (procs s' p)) (set reg) = inj_on (\<lambda>p. pid (procs s p)) (set reg)"
      by (rule inj_on_cong) (simp add: same)
    ultimately show ?thesis using assms(1,4-6) same by (simp add: proc_core_def reg_ok_def)
  qed
  have kid: "kid_ok s' reg p (kids p)" if p: "p \<in> set reg" for p
  proof -
    have k: "kid_ok s reg p (kids p)" using assms(1) p by (simp add: proc_core_def kids_ok_def)
    have links: "child_links s' l = child_links s l" if "l \<in> set (kids p)" for l using assms(3) p that by blast
    have "dll (\<lambda>l. link_previous (child_links s' l)) (\<lambda>l. link_next (child_links s' l)) (children (procs s p)) (last_or None (kids p)) (kids p)"
      using k dll_cong [of "kids p" "\<lambda>l. link_previous (child_links s' l)" "\<lambda>l. link_previous (child_links s l)"
          "\<lambda>l. link_next (child_links s' l)" "\<lambda>l. link_next (child_links s l)"] links by (simp add: kid_ok_def)
    moreover have "inj_on (\<lambda>l. link_child (child_links s' l)) (set (kids p)) = inj_on (\<lambda>l. link_child (child_links s l)) (set (kids p))"
      by (rule inj_on_cong) (simp add: links)
    ultimately show ?thesis using k links same p by (auto simp: kid_ok_def)
  qed
  have "space_users s' reg a = space_users s reg a" for a using same by (auto simp: space_users_def)
  then have spaces: "spaces_ok c sext s' reg" using assms(1,9) same by (simp add: proc_core_def spaces_ok_def)
  have "handles_ok s' reg" using assms(1,7) same by (simp add: proc_core_def handles_ok_def)
  then show ?thesis
    using assms reg kid spaces same by (simp add: proc_core_def kids_ok_def memory_ok_def UN_subset_iff)
qed

section \<open>The loops\<close>

lemma find_process_run:
  assumes "dls (\<lambda>p. registry_previous (procs s p)) (\<lambda>p. registry_next (procs s p)) pr xs None"
  shows "find_process_loop n (first_or None xs) s = Some (find (\<lambda>p. pid (procs s p) = n) xs)"
  using assms by (induction xs arbitrary: pr) (subst find_process_loop.simps, fastforce)+

lemma has_child_run:
  assumes "dls (\<lambda>l. link_previous (child_links s l)) (\<lambda>l. link_next (child_links s l)) pr ls None"
  shows "has_child_loop k (first_or None ls) s =
     Some (\<exists>l \<in> set ls. link_child (child_links s l) = Some k \<or> process_id (link_child (child_links s l)) s = process_id (Some k) s)"
  using assms by (induction ls arbitrary: pr) (subst has_child_loop.simps, fastforce)+

lemma find_child_run:
  assumes "dls (\<lambda>l. link_previous (child_links s l)) (\<lambda>l. link_next (child_links s l)) pr ls None"
  shows "find_child_loop n (first_or None ls) s = Some (find (\<lambda>l. process_id (link_child (child_links s l)) s = n) ls)"
  using assms by (induction ls arbitrary: pr) (subst find_child_loop.simps, fastforce)+

section \<open>Taking a reference\<close>

lemma proc_parts_of:
  assumes "proc_inv c ext sext s reg kids"
  shows "proc_core c sext s reg kids" "refs_ok ext s reg kids" "reg_ok s reg" "kids_ok s reg kids" "memory_ok s reg kids"
    "handles_ok s reg" "spaces_ok c sext s reg" "\<forall>p \<in> set reg. cwd_ok (cwd (procs s p))" "process_system_initialized s"
    "kernel_process \<in> set reg" "distinct reg"
  using assms by (simp_all add: proc_inv_def proc_core_def reg_ok_def dll_def)

lemma proc_inv_update:
  assumes "proc_core c sext s reg kids" "refs_ok ext' (set_process p f s) reg kids"
    and "\<And>pr. process_key (f pr) = process_key pr" "\<And>pr. cwd (f pr) = cwd pr"
  shows "proc_inv c ext' sext (set_process p f s) reg kids"
proof -
  have m: "memory_ok s reg kids" "\<forall>p \<in> set reg. cwd_ok (cwd (procs s p))" using assms(1) by (simp_all add: proc_core_def)
  have "proc_core c sext (set_process p f s) reg kids"
    using m assms(3,4) by (intro proc_core_frame [OF assms(1)]) (auto simp: memory_ok_def)
  then show ?thesis using assms(2) by (simp add: proc_inv_def)
qed

lemma owned_child_same [simp]:
  "owned_child (set_process p f s) reg kids k = owned_child s reg kids k"
  by (simp add: owned_child_def)

lemma refs_ok_set:
  assumes "refs_ok ext s reg kids" "p \<noteq> kernel_process" "v \<noteq> 0" "unat v = n + of_bool (owned_child s reg kids p)"
  shows "refs_ok (ext(p := n)) (set_process p (references_update (\<lambda>_. v)) s) reg kids"
  using assms by (auto simp: refs_ok_def)

lemma set_references: "set_process p (references_update f) s = set_process p (references_update (\<lambda>_. f (references (procs s p)))) s"
  by (cases "procs s p") (simp add: set_process_def)

lemma process_retain_run:
  assumes "proc_inv c ext sext s reg kids" "p \<in> set reg" "ext p < 4294967294"
  shows "\<exists>s'. process_retain (Some p) s = (True, s') \<and> proc_inv c (ext(p := ext p + 1)) sext s' reg kids \<and>
     s' = (if p = kernel_process then s else set_process p (references_update (\<lambda>n. n + 1)) s)"
proof (cases "p = kernel_process")
  case True
  have "refs_ok (ext(p := ext p + 1)) s reg kids" using proc_parts_of(2) [OF assms(1)] True by (auto simp: refs_ok_def)
  then show ?thesis using True assms(1,2) by (auto simp: process_retain_def proc_inv_def refs_ok_def)
next
  case False
  note r = proc_parts_of(2) [OF assms(1)]
  have p: "\<not> immortal (procs s p)" "references (procs s p) \<noteq> 0" "process_status (procs s p) \<noteq> PROCESS_DEAD"
      "unat (references (procs s p)) = ext p + of_bool (owned_child s reg kids p)"
    using r assms(2) False by (auto simp: refs_ok_def)
  have n: "unat (references (procs s p) + 1) = Suc (unat (references (procs s p)))"
    using p(4) assms(3) by (intro unat_inc_not_max) (auto simp: SIZE_MAX_def of_bool_def split: if_splits)
  have "refs_ok (ext(p := ext p + 1)) (set_process p (references_update (\<lambda>n. n + 1)) s) reg kids"
    unfolding set_references [of p "\<lambda>n. n + 1"] using n p(4) False r
    by (intro refs_ok_set) (auto simp: u32_eq_iff)
  then have "proc_inv c (ext(p := ext p + 1)) sext (set_process p (references_update (\<lambda>n. n + 1)) s) reg kids"
    by (rule proc_inv_update [OF proc_parts_of(1) [OF assms(1)]]) (simp_all add: process_key_def)
  then show ?thesis using p False by (simp add: process_retain_def)
qed

end
