(* ===== verification/ProcessRelease.thy ===== *)
theory ProcessRelease
  imports ProcessInv
begin

text \<open>
  Giving references back: what a release of an address space does to its count, and what the last release of
  a process does to the registry and to the counters.
\<close>

section \<open>Address spaces\<close>

definition spaces_same :: "cpu_id \<Rightarrow> 'q kernel \<Rightarrow> 'q kernel \<Rightarrow> bool" where
  "spaces_same c k k' \<longleftrightarrow> kernel_directory_physical k' = kernel_directory_physical k \<and>
     paging_current_directory c k' = paging_current_directory c k"

lemma irq_spaces [simp]:
  "address_spaces (snd (spin_lock_irqsave c k)) = address_spaces k" "address_spaces (spin_unlock_irqrestore c f k) = address_spaces k"
  "address_spaces (interrupt_restore c f k) = address_spaces k"
  "spaces_same c k (snd (spin_lock_irqsave c k))" "spaces_same c k (spin_unlock_irqrestore c f k)" "spaces_same c k (interrupt_restore c f k)"
  by (simp_all add: spin_lock_irqsave_def spin_unlock_irqrestore_def interrupt_save_disable_def interrupt_restore_def set_hw_def
    spaces_same_def paging_current_directory_def)

lemma address_space_retain_run:
  assumes "\<not> kernel_space (address_spaces k a) \<Longrightarrow> reference_count (address_spaces k a) \<noteq> 0 \<and> reference_count (address_spaces k a) \<noteq> SIZE_MAX"
  shows "\<exists>k'. address_space_retain c (Some a) k = (True, k') \<and> spaces_same c k k' \<and>
     address_spaces k' = (if kernel_space (address_spaces k a) then address_spaces k
       else (address_spaces k)(a := (address_spaces k a)\<lparr>reference_count := reference_count (address_spaces k a) + 1\<rparr>))"
  using assms
  by (auto simp: address_space_retain_def spin_lock_irqsave_def spin_unlock_irqrestore_def interrupt_save_disable_def interrupt_restore_def
    set_hw_def set_space_def spaces_same_def paging_current_directory_def Let_def)

lemma address_space_release_run:
  assumes "\<not> kernel_space (address_spaces k a) \<Longrightarrow> reference_count (address_spaces k a) \<noteq> 0 \<and>
      page_directory (address_spaces k a) \<noteq> 0 \<and> page_directory (address_spaces k a) \<noteq> kernel_directory_physical k"
    and "kernel_directory_physical k \<noteq> 0" "paging_current_directory c k = kernel_directory_physical k"
  shows "\<exists>k'. address_space_release c (Some a) k = (True, k') \<and> spaces_same c k k' \<and>
     address_spaces k' = (if kernel_space (address_spaces k a) then address_spaces k
       else (address_spaces k)(a := (address_spaces k a)\<lparr>reference_count := reference_count (address_spaces k a) - 1,
         page_directory := if reference_count (address_spaces k a) = 1 then 0 else page_directory (address_spaces k a)\<rparr>))"
proof (cases "kernel_space (address_spaces k a)")
  case True
  then show ?thesis by (simp add: address_space_release_def spaces_same_def)
next
  case False
  note r = assms(1) [OF False]
  have one: "(1 :: u32) < reference_count (address_spaces k a) \<longleftrightarrow> reference_count (address_spaces k a) \<noteq> 1"
    using r by (metis linorder_neqE not_less_iff_gr_or_eq word_gt_0 word_less_1 word_neq_0_conv)
  show ?thesis
  proof (cases "reference_count (address_spaces k a) = 1")
    case True
    then show ?thesis using False r assms(2,3)
      by (simp add: address_space_release_def spin_lock_irqsave_def interrupt_save_disable_def interrupt_restore_def
        set_hw_def set_space_def spaces_same_def paging_current_directory_def kfree_block_def Let_def)
  next
    case many: False
    then show ?thesis using False r one
      by (cases "address_spaces k a") (simp add: address_space_release_def spin_lock_irqsave_def spin_unlock_irqrestore_def interrupt_save_disable_def interrupt_restore_def
        set_hw_def set_space_def spaces_same_def paging_current_directory_def Let_def)
  qed
qed

section \<open>A reference that is not the last one\<close>

lemma process_release_more:
  assumes "proc_inv c ext sext s reg kids" "p \<in> set reg" "p \<noteq> kernel_process" "ext p \<noteq> 0" "references (procs s p) \<noteq> 1"
  shows "process_release c (Some p) s = Some (set_process p (references_update (\<lambda>n. n - 1)) s) \<and>
     proc_inv c (ext(p := ext p - 1)) sext (set_process p (references_update (\<lambda>n. n - 1)) s) reg kids"
proof -
  note r = proc_parts_of(2) [OF assms(1)]
  have p: "\<not> immortal (procs s p)" "references (procs s p) \<noteq> 0"
      "unat (references (procs s p)) = ext p + of_bool (owned_child s reg kids p)"
    using r assms(2,3) by (auto simp: refs_ok_def)
  have n: "unat (references (procs s p)) = Suc (unat (references (procs s p) - 1))" by (rule unat_dec_u32 [OF p(2)])
  have more: "references (procs s p) - 1 \<noteq> 0" using assms(5) by simp
  have "refs_ok (ext(p := ext p - 1)) (set_process p (references_update (\<lambda>n. n - 1)) s) reg kids"
    unfolding set_references [of p "\<lambda>n. n - 1"] using n p(3) assms(3,4) r more
    by (intro refs_ok_set) auto
  then have "proc_inv c (ext(p := ext p - 1)) sext (set_process p (references_update (\<lambda>n. n - 1)) s) reg kids"
    by (rule proc_inv_update [OF proc_parts_of(1) [OF assms(1)]]) (simp_all add: process_key_def)
  then show ?thesis using p more by (simp add: process_release_def Let_def)
qed

section \<open>The last reference\<close>

text \<open>Everything but the registry links is as before.\<close>

definition links_changed :: "'q process_system \<Rightarrow> 'q process_system \<Rightarrow> bool" where
  "links_changed s s' \<longleftrightarrow> (\<forall>q. \<exists>a b. procs s' q = (procs s q)\<lparr>registry_previous := a, registry_next := b\<rparr>) \<and>
     child_links s' = child_links s \<and> next_process_id s' = next_process_id s \<and> live_processes s' = live_processes s \<and>
     live_handles s' = live_handles s \<and> process_system_initialized s' = process_system_initialized s \<and>
     process_heap s' = process_heap s \<and> process_kernel s' = process_kernel s"

lemma links_changedD: "links_changed s s' \<Longrightarrow> \<exists>a b. procs s' q = (procs s q)\<lparr>registry_previous := a, registry_next := b\<rparr>"
  by (simp add: links_changed_def)

lemma links_changed_refl: "links_changed s s"
  unfolding links_changed_def by (intro conjI allI refl) (metis process_t.surjective process_t.update_convs(14,15))

lemma update_previous: "registry_previous_update f (pr\<lparr>registry_previous := a, registry_next := b\<rparr>) = pr\<lparr>registry_previous := f a, registry_next := b\<rparr>"
  by (cases pr) simp

lemma update_next: "registry_next_update f (pr\<lparr>registry_previous := a, registry_next := b\<rparr>) = pr\<lparr>registry_previous := a, registry_next := f b\<rparr>"
  by (cases pr) simp

lemma links_changed_previous: "links_changed s s' \<Longrightarrow> links_changed s (set_process p (registry_previous_update f) s')"
proof -
  assume l: "links_changed s s'"
  have "\<exists>a b. procs (set_process p (registry_previous_update f) s') q = (procs s q)\<lparr>registry_previous := a, registry_next := b\<rparr>" for q
  proof -
    obtain a b where "procs s' q = (procs s q)\<lparr>registry_previous := a, registry_next := b\<rparr>" using links_changedD [OF l] by blast
    then show ?thesis
      by (cases "q = p") (simp only: set_process_fields fun_upd_same update_previous, blast, simp, blast)
  qed
  then show ?thesis using l by (simp add: links_changed_def del: set_process_fields(1))
qed

lemma links_changed_next: "links_changed s s' \<Longrightarrow> links_changed s (set_process p (registry_next_update f) s')"
proof -
  assume l: "links_changed s s'"
  have "\<exists>a b. procs (set_process p (registry_next_update f) s') q = (procs s q)\<lparr>registry_previous := a, registry_next := b\<rparr>" for q
  proof -
    obtain a b where "procs s' q = (procs s q)\<lparr>registry_previous := a, registry_next := b\<rparr>" using links_changedD [OF l] by blast
    then show ?thesis
      by (cases "q = p") (simp only: set_process_fields fun_upd_same update_next, blast, simp, blast)
  qed
  then show ?thesis using l by (simp add: links_changed_def del: set_process_fields(1))
qed

lemma links_changed_head: "links_changed s s' \<Longrightarrow> links_changed s (s'\<lparr>process_registry_head := h\<rparr>)"
  by (simp add: links_changed_def)

lemma links_changed_fields:
  assumes "links_changed s s'"
  shows "pid (procs s' q) = pid (procs s q)" "parent_pid (procs s' q) = parent_pid (procs s q)"
    "references (procs s' q) = references (procs s q)" "immortal (procs s' q) = immortal (procs s q)"
    "process_status (procs s' q) = process_status (procs s q)" "process_space (procs s' q) = process_space (procs s q)"
    "children (procs s' q) = children (procs s q)" "child_count (procs s' q) = child_count (procs s q)"
    "handles (procs s' q) = handles (procs s q)" "accounting (procs s' q) = accounting (procs s q)" "cwd (procs s' q) = cwd (procs s q)"
    "exit_status (procs s' q) = exit_status (procs s q)" "live_threads (procs s' q) = live_threads (procs s q)"
proof -
  obtain a b where "procs s' q = (procs s q)\<lparr>registry_previous := a, registry_next := b\<rparr>" using links_changedD [OF assms] by blast
  then show "pid (procs s' q) = pid (procs s q)" "parent_pid (procs s' q) = parent_pid (procs s q)"
    "references (procs s' q) = references (procs s q)" "immortal (procs s' q) = immortal (procs s q)"
    "process_status (procs s' q) = process_status (procs s q)" "process_space (procs s' q) = process_space (procs s q)"
    "children (procs s' q) = children (procs s q)" "child_count (procs s' q) = child_count (procs s q)"
    "handles (procs s' q) = handles (procs s q)" "accounting (procs s' q) = accounting (procs s q)" "cwd (procs s' q) = cwd (procs s q)"
    "exit_status (procs s' q) = exit_status (procs s q)" "live_threads (procs s' q) = live_threads (procs s q)"
    by simp_all
qed

lemma registry_remove_links: "links_changed s (process_registry_remove_locked p s)"
  by (auto simp: process_registry_remove_locked_def Let_def
    intro!: links_changed_next links_changed_previous links_changed_head links_changed_refl split: option.split)

lemma registry_remove_list:
  assumes "dll (\<lambda>p. registry_previous (procs s p)) (\<lambda>p. registry_next (procs s p)) (process_registry_head s) (last_or None reg) reg"
    and "p \<in> set reg"
  defines "s' \<equiv> process_registry_remove_locked p s"
  shows "dll (\<lambda>p. registry_previous (procs s' p)) (\<lambda>p. registry_next (procs s' p)) (process_registry_head s')
     (last_or None (removeAll p reg)) (removeAll p reg)"
proof -
  obtain xs ys where reg: "reg = xs @ p # ys" using assms(2) by (meson split_list)
  have d: "distinct reg" using assms(1) by (rule dll_distinct)
  then have rest: "removeAll p reg = xs @ ys" using reg by simp
  let ?P = "\<lambda>p. registry_previous (procs s p)" and ?N = "\<lambda>p. registry_next (procs s p)"
  have links: "?P p = last_or None xs" "?N p = first_or None ys"
    using assms(1) unfolding reg by (simp_all add: dll_def)
  have own: "?P p \<noteq> Some p" "?N p \<noteq> Some p" "?P p \<noteq> ?N p \<or> ?P p = None"
  proof -
    have px: "q \<in> set xs" if "?P p = Some q" for q using that links last_or_Some_in by metis
    have nx: "q \<in> set ys" if "?N p = Some q" for q using that links first_or_Some_in by metis
    show "?P p \<noteq> Some p" "?N p \<noteq> Some p" using px nx d reg by auto
    show "?P p \<noteq> ?N p \<or> ?P p = None" using px nx d reg by (cases "?P p") auto
  qed
  have f1: "(\<lambda>q. registry_previous (procs s' q)) = (set_link (?N p) (?P p) ?P)(p := None)"
    using own by (auto simp: s'_def process_registry_remove_locked_def Let_def fun_eq_iff split: option.split)
  have f2: "(\<lambda>q. registry_next (procs s' q)) = (set_link (?P p) (?N p) ?N)(p := None)"
    using own by (auto simp: s'_def process_registry_remove_locked_def Let_def fun_eq_iff split: option.split)
  have f3: "process_registry_head s' = (if ?P p = None then ?N p else process_registry_head s)"
    by (auto simp: s'_def process_registry_remove_locked_def Let_def split: option.split)
  have f4: "(if ?N p = None then ?P p else last_or None reg) = last_or None (xs @ ys)"
    using links reg by (cases ys) simp_all
  show ?thesis
    using dll_unlink [OF assms(1) [unfolded reg]] unfolding f1 f2 f3 rest reg [symmetric] f4 .
qed

lemma children_none: "kid_ok s reg p ls \<Longrightarrow> children (procs s p) = None \<and> child_count (procs s p) = 0 \<longleftrightarrow> ls = []"
  by (auto simp: kid_ok_def dll_def u32_eq_iff)

lemma current_handles_le:
  assumes "handles_ok s reg" "p \<in> set reg"
  shows "unat (current_handles (accounting (procs s p))) \<le> unat (live_handles s)"
  using assms sum_nonneg_leq_bound [of "set reg"] member_le_sum [of p "set reg" "\<lambda>p. unat (current_handles (accounting (procs s p)))"]
  by (simp add: handles_ok_def)

text \<open>What is left when the process \<open>p\<close> has gone from the registry.\<close>

lemma proc_inv_without:
  assumes inv: "proc_inv c ext sext s reg kids" and p: "p \<in> set reg" "p \<noteq> kernel_process"
    and alone: "\<not> owned_child s reg kids p" and no_kids: "kids p = []" and space: "process_space (procs s p) = Some a"
    and list: "dll (\<lambda>q. registry_previous (procs s' q)) (\<lambda>q. registry_next (procs s' q)) (process_registry_head s')
      (last_or None (removeAll p reg)) (removeAll p reg)"
    and others: "\<And>q. q \<noteq> p \<Longrightarrow> \<exists>x y. procs s' q = (procs s q)\<lparr>registry_previous := x, registry_next := y\<rparr>"
    and fields: "child_links s' = child_links s" "next_process_id s' = next_process_id s" "live_processes s' = live_processes s - 1"
      "live_handles s' = live_handles s - current_handles (accounting (procs s p))"
      "process_system_initialized s' = process_system_initialized s" "process_heap s' = kfree (Some p) (process_heap s)"
    and spaces: "spaces_same c (process_kernel s) (process_kernel s')"
      "address_spaces (process_kernel s') = (if kernel_space (address_spaces (process_kernel s) a) then address_spaces (process_kernel s)
         else (address_spaces (process_kernel s))(a := (address_spaces (process_kernel s) a)\<lparr>reference_count := reference_count (address_spaces (process_kernel s) a) - 1,
           page_directory := if reference_count (address_spaces (process_kernel s) a) = 1 then 0 else page_directory (address_spaces (process_kernel s) a)\<rparr>))"
  shows "proc_inv c (ext(p := 0)) sext s' (removeAll p reg) kids"
proof -
  note parts = proc_parts_of [OF inv]
  have same: "pid (procs s' q) = pid (procs s q)" "parent_pid (procs s' q) = parent_pid (procs s q)"
      "references (procs s' q) = references (procs s q)" "immortal (procs s' q) = immortal (procs s q)"
      "process_status (procs s' q) = process_status (procs s q)" "process_space (procs s' q) = process_space (procs s q)"
      "children (procs s' q) = children (procs s q)" "child_count (procs s' q) = child_count (procs s q)"
      "handles (procs s' q) = handles (procs s q)" "accounting (procs s' q) = accounting (procs s q)" "cwd (procs s' q) = cwd (procs s q)"
    if q: "q \<noteq> p" for q
  proof -
    obtain x y where "procs s' q = (procs s q)\<lparr>registry_previous := x, registry_next := y\<rparr>" using others [OF q] by blast
    then show "pid (procs s' q) = pid (procs s q)" "parent_pid (procs s' q) = parent_pid (procs s q)"
      "references (procs s' q) = references (procs s q)" "immortal (procs s' q) = immortal (procs s q)"
      "process_status (procs s' q) = process_status (procs s q)" "process_space (procs s' q) = process_space (procs s q)"
      "children (procs s' q) = children (procs s q)" "child_count (procs s' q) = child_count (procs s q)"
      "handles (procs s' q) = handles (procs s q)" "accounting (procs s' q) = accounting (procs s q)" "cwd (procs s' q) = cwd (procs s q)"
      by simp_all
  qed
  have d: "distinct reg" by (rule parts(11))
  have rest: "set (removeAll p reg) = set reg - {p}" by simp
  have reg: "reg_ok s' (removeAll p reg)"
  proof -
    have len: "length reg = Suc (length (removeAll p reg))"
      using d p(1) length_remove1 [of p reg] by (simp add: distinct_remove1_removeAll) (metis Suc_pred length_pos_if_in_set)
    have "unat (live_processes s) = length reg" using parts(3) by (simp add: reg_ok_def)
    then have "unat (live_processes s') = length (removeAll p reg)"
      using len fields(3) unat_dec_u32 [of "live_processes s"] by (auto simp: u32_eq_iff)
    moreover have "inj_on (\<lambda>q. pid (procs s' q)) (set reg - {p})"
      using parts(3) same(1) by (auto simp: reg_ok_def inj_on_def)
    ultimately show ?thesis using parts(3) p(2) list fields(2) same(1) unfolding reg_ok_def rest by auto
  qed
  have kid: "kid_ok s' (removeAll p reg) q (kids q)" if q: "q \<in> set reg" "q \<noteq> p" for q
  proof -
    have k: "kid_ok s reg q (kids q)" using parts(4) q(1) by (simp add: kids_ok_def)
    have "\<exists>k \<in> set reg - {p}. link_child (child_links s l) = Some k \<and> k \<noteq> q \<and> parent_pid (procs s' k) = pid (procs s' q)" if l: "l \<in> set (kids q)" for l
    proof -
      obtain k where k: "k \<in> set reg" "link_child (child_links s l) = Some k" "k \<noteq> q" "parent_pid (procs s k) = pid (procs s q)"
        using k l by (auto simp: kid_ok_def)
      moreover have "k \<noteq> p" using alone k q(1) l by (auto simp: owned_child_def)
      ultimately show ?thesis using same q(2) by auto
    qed
    then show ?thesis using k q same fields(1) by (auto simp: kid_ok_def)
  qed
  have kids: "kids_ok s' (removeAll p reg) kids" using parts(4) kid by (auto simp: kids_ok_def)
  have owned: "owned_child s' (removeAll p reg) kids k \<longleftrightarrow> owned_child s reg kids k" for k
    using fields(1) no_kids by (auto simp: owned_child_def)
  have refs: "refs_ok (ext(p := 0)) s' (removeAll p reg) kids"
    using parts(2) same owned by (auto simp: refs_ok_def)
  have "p \<in> heap_owned (process_heap s)" "heap_good (process_heap s)" using parts(5) p by (auto simp: memory_ok_def)
  note freed = kernel_heap.release_owned [OF this(2,1)]
  have "p \<notin> set (kids q)" if "q \<in> set reg" for q using parts(5) p(1) that by (auto simp: memory_ok_def)
  then have memory: "memory_ok s' (removeAll p reg) kids"
    using parts(5) freed fields(6) unfolding memory_ok_def rest by auto
  have handles: "handles_ok s' (removeAll p reg)"
  proof -
    have "unat (live_handles s') = unat (live_handles s) - unat (current_handles (accounting (procs s p)))"
      using fields(4) current_handles_le [OF parts(6) p(1)] by (simp add: unat_sub_u32)
    also have "\<dots> = (\<Sum>q \<in> set reg - {p}. unat (current_handles (accounting (procs s q))))"
      using parts(6) p(1) sum_diff1_nat [of "\<lambda>q. unat (current_handles (accounting (procs s q)))" "set reg" p] by (simp add: handles_ok_def)
    also have "\<dots> = (\<Sum>q \<in> set reg - {p}. unat (current_handles (accounting (procs s' q))))"
      by (rule sum.cong) (simp_all add: same)
    finally show ?thesis using parts(6) same unfolding handles_ok_def rest by simp
  qed
  have users: "space_users s' (removeAll p reg) b = space_users s reg b - {p}" for b using same by (auto simp: space_users_def)
  have here: "p \<in> space_users s reg a" using p(1) space by (simp add: space_users_def)
  have fin: "finite (space_users s reg b)" for b by (simp add: space_users_def)
  have there: "p \<notin> space_users s reg b" if "b \<noteq> a" for b using that space by (simp add: space_users_def)
  let ?k = "process_kernel s" and ?k' = "process_kernel s'"
  have counted: "unat (reference_count (address_spaces ?k' b)) = sext b + card (space_users s reg b - {p}) \<and>
      (reference_count (address_spaces ?k' b) \<noteq> 0 \<longrightarrow> page_directory (address_spaces ?k' b) \<noteq> 0 \<and>
         page_directory (address_spaces ?k' b) \<noteq> kernel_directory_physical ?k)" if b: "\<not> kernel_space (address_spaces ?k' b)" for b
  proof (cases "b = a \<and> \<not> kernel_space (address_spaces ?k a)")
    case True
    then have n: "unat (reference_count (address_spaces ?k a)) = sext a + card (space_users s reg a)"
        "reference_count (address_spaces ?k a) \<noteq> 0 \<longrightarrow>
           page_directory (address_spaces ?k a) \<noteq> 0 \<and> page_directory (address_spaces ?k a) \<noteq> kernel_directory_physical ?k"
      using parts(7) by (auto simp: spaces_ok_def Let_def)
    have one: "card (space_users s reg a) = Suc (card (space_users s reg a - {p}))" by (rule card.remove [OF fin here])
    then have pos: "reference_count (address_spaces ?k a) \<noteq> 0" using n(1) by auto
    have e: "address_spaces ?k' b = (address_spaces ?k a)\<lparr>reference_count := reference_count (address_spaces ?k a) - 1,
        page_directory := if reference_count (address_spaces ?k a) = 1 then 0 else page_directory (address_spaces ?k a)\<rparr>"
      using True spaces(2) by simp
    have "unat (reference_count (address_spaces ?k a) - 1) = sext b + card (space_users s reg b - {p})"
      unfolding conjunct1 [OF True] using n(1) one unat_dec_u32 [OF pos] by linarith
    moreover have "reference_count (address_spaces ?k a) \<noteq> 1" if "reference_count (address_spaces ?k a) - 1 \<noteq> 0" using that by auto
    ultimately show ?thesis using n(2) pos unfolding e by simp
  next
    case False
    then have "address_spaces ?k' b = address_spaces ?k b" using spaces(2) by auto
    moreover have "space_users s reg b - {p} = space_users s reg b"
      using False b there [of b] calculation by (cases "b = a") auto
    ultimately show ?thesis using parts(7) b by (simp add: spaces_ok_def Let_def)
  qed
  have spaces': "spaces_ok c sext s' (removeAll p reg)"
    using parts(7) same counted spaces(1) unfolding spaces_ok_def users Let_def spaces_same_def rest by auto
  show ?thesis
    using reg kids refs memory handles spaces' parts(8,9) fields(5) same by (simp add: proc_inv_def proc_core_def)
qed

text \<open>The state in which the resources of \<open>p\<close> are given back.\<close>

definition unregistered :: "u32 \<Rightarrow> 'q process_system \<Rightarrow> 'q process_system" where
  "unregistered p s =
     (let s2 = process_registry_remove_locked p (set_process p (references_update (\<lambda>n. n - 1)) s);
          s3 = s2\<lparr>live_processes := live_processes s2 - 1, live_handles := live_handles s2 - current_handles (accounting (procs s2 p))\<rparr>
      in set_process p (\<lambda>pr. pr\<lparr>process_status := PROCESS_DEAD, process_space := None\<rparr>) s3)"

lemma unregistered_fields:
  "child_links (unregistered p s) = child_links s" "next_process_id (unregistered p s) = next_process_id s"
  "live_processes (unregistered p s) = live_processes s - 1"
  "live_handles (unregistered p s) = live_handles s - current_handles (accounting (procs s p))"
  "process_system_initialized (unregistered p s) = process_system_initialized s"
  "process_heap (unregistered p s) = process_heap s" "process_kernel (unregistered p s) = process_kernel s"
  "children (procs (unregistered p s) p) = children (procs s p)" "child_count (procs (unregistered p s) p) = child_count (procs s p)"
  "q \<noteq> p \<Longrightarrow> \<exists>x y. procs (unregistered p s) q = (procs s q)\<lparr>registry_previous := x, registry_next := y\<rparr>"
proof -
  have l: "links_changed (set_process p (references_update (\<lambda>n. n - 1)) s)
      (process_registry_remove_locked p (set_process p (references_update (\<lambda>n. n - 1)) s))"
    by (rule registry_remove_links)
  note f = links_changed_fields [OF l]
  note l' = l [unfolded links_changed_def]
  show "child_links (unregistered p s) = child_links s" "next_process_id (unregistered p s) = next_process_id s"
    "live_processes (unregistered p s) = live_processes s - 1"
    "live_handles (unregistered p s) = live_handles s - current_handles (accounting (procs s p))"
    "process_system_initialized (unregistered p s) = process_system_initialized s"
    "process_heap (unregistered p s) = process_heap s" "process_kernel (unregistered p s) = process_kernel s"
    "children (procs (unregistered p s) p) = children (procs s p)" "child_count (procs (unregistered p s) p) = child_count (procs s p)"
    using l' f by (simp_all add: unregistered_def Let_def)
  show "\<exists>x y. procs (unregistered p s) q = (procs s q)\<lparr>registry_previous := x, registry_next := y\<rparr>" if "q \<noteq> p"
    using links_changedD [OF l, of q] that by (simp add: unregistered_def Let_def)
qed

lemma unregistered_list:
  assumes "dll (\<lambda>p. registry_previous (procs s p)) (\<lambda>p. registry_next (procs s p)) (process_registry_head s) (last_or None reg) reg"
    and "p \<in> set reg"
  shows "dll (\<lambda>q. registry_previous (procs (unregistered p s) q)) (\<lambda>q. registry_next (procs (unregistered p s) q))
     (process_registry_head (unregistered p s)) (last_or None (removeAll p reg)) (removeAll p reg)"
proof -
  let ?s1 = "set_process p (references_update (\<lambda>n. n - 1)) s"
  have one: "(\<lambda>q. registry_previous (procs ?s1 q)) = (\<lambda>q. registry_previous (procs s q))"
      "(\<lambda>q. registry_next (procs ?s1 q)) = (\<lambda>q. registry_next (procs s q))" "process_registry_head ?s1 = process_registry_head s"
    by auto
  have "dll (\<lambda>q. registry_previous (procs (process_registry_remove_locked p ?s1) q)) (\<lambda>q. registry_next (procs (process_registry_remove_locked p ?s1) q))
     (process_registry_head (process_registry_remove_locked p ?s1)) (last_or None (removeAll p reg)) (removeAll p reg)"
    by (rule registry_remove_list [OF _ assms(2)]) (use assms(1) one in simp)
  moreover have "(\<lambda>q. registry_previous (procs (unregistered p s) q)) = (\<lambda>q. registry_previous (procs (process_registry_remove_locked p ?s1) q))"
      "(\<lambda>q. registry_next (procs (unregistered p s) q)) = (\<lambda>q. registry_next (procs (process_registry_remove_locked p ?s1) q))"
      "process_registry_head (unregistered p s) = process_registry_head (process_registry_remove_locked p ?s1)"
    by (auto simp: unregistered_def Let_def)
  ultimately show ?thesis by simp
qed

lemma process_release_final:
  assumes "\<not> immortal (procs s p)" "references (procs s p) = 1" "live_processes s \<noteq> 0"
    and "\<not> current_handles (accounting (procs s p)) > live_handles s" "process_space (procs s p) = Some a"
  shows "process_release c (Some p) s =
     (let (ok, s') = release_space c (Some a) (unregistered p s)
      in if \<not> ok then None
         else if children (procs s' p) \<noteq> None \<or> child_count (procs s' p) \<noteq> 0 then None else Some (process_kfree (Some p) s'))"
proof -
  obtain t where t: "process_registry_remove_locked p (set_process p (references_update (\<lambda>n. n - 1)) s) = t" by blast
  have l: "links_changed (set_process p (references_update (\<lambda>n. n - 1)) s) t"
    unfolding t [symmetric] by (rule registry_remove_links)
  have f: "accounting (procs t p) = accounting (procs s p)" "process_space (procs t p) = process_space (procs s p)"
      "live_processes t = live_processes s" "live_handles t = live_handles s"
    using links_changed_fields(6,10) [OF l, of p] l by (simp_all add: links_changed_def)
  have u: "set_process p (process_space_update (\<lambda>_. None)) (set_process p (process_status_update (\<lambda>_. PROCESS_DEAD)) t') =
      set_process p (\<lambda>pr. pr\<lparr>process_status := PROCESS_DEAD, process_space := None\<rparr>) t'" for t' :: "'q process_system"
    by (simp add: set_process_def)
  have zero: "references (procs (set_process p (references_update (\<lambda>n. n - 1)) s) p) = 0" using assms(2) by simp
  show ?thesis
    using assms f
    by (simp only: process_release_def unregistered_def Let_def u t option.case zero if_False if_True simp_thms) simp
qed

lemma process_release_last:
  assumes inv: "proc_inv c ext sext s reg kids" and p: "p \<in> set reg" "p \<noteq> kernel_process"
    and r: "ext p \<noteq> 0" "references (procs s p) = 1"
  shows "kids p \<noteq> [] \<Longrightarrow> process_release c (Some p) s = None"
    and "kids p = [] \<Longrightarrow> \<exists>s'. process_release c (Some p) s = Some s' \<and> proc_inv c (ext(p := 0)) sext s' (removeAll p reg) kids \<and>
      child_links s' = child_links s \<and> process_heap s' = kfree (Some p) (process_heap s) \<and>
      (\<forall>q. q \<noteq> p \<longrightarrow> (\<exists>x y. procs s' q = (procs s q)\<lparr>registry_previous := x, registry_next := y\<rparr>))"
proof -
  note parts = proc_parts_of [OF inv]
  note rp = parts(2) [unfolded refs_ok_def, THEN bspec, OF p(1)]
  have "1 = ext p + of_bool (owned_child s reg kids p)" using rp p(2) unfolding r(2) by simp
  then have alone: "\<not> owned_child s reg kids p" using r(1) by (cases "owned_child s reg kids p") simp_all
  have mortal: "\<not> immortal (procs s p)" using rp p(2) by blast
  obtain a where a: "process_space (procs s p) = Some a" using parts(7) p(1) by (auto simp: spaces_ok_def Let_def)
  have n: "live_processes s \<noteq> 0" using parts(3) p(1) by (auto simp: reg_ok_def)
  have h: "\<not> current_handles (accounting (procs s p)) > live_handles s"
    using current_handles_le [OF parts(6) p(1)] by (simp add: not_less word_le_nat_alt)
  have here: "p \<in> space_users s reg a" using p(1) a by (simp add: space_users_def)
  have used: "reference_count (address_spaces (process_kernel s) a) \<noteq> 0 \<and> page_directory (address_spaces (process_kernel s) a) \<noteq> 0 \<and>
      page_directory (address_spaces (process_kernel s) a) \<noteq> kernel_directory_physical (process_kernel s)"
    if u: "\<not> kernel_space (address_spaces (process_kernel s) a)"
  proof -
    have "card (space_users s reg a) \<noteq> 0" using here by (auto simp: space_users_def)
    then show ?thesis using parts(7) u by (auto simp: spaces_ok_def Let_def)
  qed
  obtain k' where k: "address_space_release c (Some a) (process_kernel s) = (True, k')" "spaces_same c (process_kernel s) k'"
      "address_spaces k' = (if kernel_space (address_spaces (process_kernel s) a) then address_spaces (process_kernel s)
         else (address_spaces (process_kernel s))(a := (address_spaces (process_kernel s) a)\<lparr>reference_count := reference_count (address_spaces (process_kernel s) a) - 1,
           page_directory := if reference_count (address_spaces (process_kernel s) a) = 1 then 0 else page_directory (address_spaces (process_kernel s) a)\<rparr>))"
    using address_space_release_run [of "process_kernel s" a c] used parts(7) by (auto simp: spaces_ok_def Let_def)
  let ?s' = "process_kfree (Some p) ((unregistered p s)\<lparr>process_kernel := k'\<rparr>)"
  have run: "process_release c (Some p) s = (if children (procs s p) \<noteq> None \<or> child_count (procs s p) \<noteq> 0 then None else Some ?s')"
    unfolding process_release_final [OF mortal r(2) n h a]
    by (simp add: release_space_def unregistered_fields k(1))
  have list: "children (procs s p) = None \<and> child_count (procs s p) = 0 \<longleftrightarrow> kids p = []"
    using children_none [of s reg p "kids p"] parts(4) p(1) by (simp add: kids_ok_def)
  show "kids p \<noteq> [] \<Longrightarrow> process_release c (Some p) s = None" using run list by auto
  assume none: "kids p = []"
  have others: "\<And>q. q \<noteq> p \<Longrightarrow> \<exists>x y. procs ?s' q = (procs s q)\<lparr>registry_previous := x, registry_next := y\<rparr>"
    using unregistered_fields(10) by (simp add: process_kfree_def)
  have "proc_inv c (ext(p := 0)) sext ?s' (removeAll p reg) kids"
    by (rule proc_inv_without [OF inv p alone none a _ others])
      (use unregistered_list [of s reg p] parts(3) p(1) k(2,3) in \<open>simp_all add: process_kfree_def unregistered_fields reg_ok_def\<close>)
  then show "\<exists>s'. process_release c (Some p) s = Some s' \<and> proc_inv c (ext(p := 0)) sext s' (removeAll p reg) kids \<and>
      child_links s' = child_links s \<and> process_heap s' = kfree (Some p) (process_heap s) \<and>
      (\<forall>q. q \<noteq> p \<longrightarrow> (\<exists>x y. procs s' q = (procs s q)\<lparr>registry_previous := x, registry_next := y\<rparr>))"
    using run list none others by (auto simp: process_kfree_def unregistered_fields)
qed

end
