(* ===== verification/ProcessFamily.thy ===== *)
theory ProcessFamily
  imports ProcessRelease
begin

text \<open>
  Looking processes up, and the child links: unlinking a child turns the reference of its parent into one of
  the caller, who then releases it.
\<close>

section \<open>Lookup\<close>

lemma process_acquire_run:
  assumes inv: "proc_inv c ext sext s reg kids" and n: "n \<noteq> 0"
  shows "\<forall>p \<in> set reg. pid (procs s p) \<noteq> n \<Longrightarrow> process_acquire_by_id n s = Some (None, s)"
    and "p \<in> set reg \<Longrightarrow> pid (procs s p) = n \<Longrightarrow> ext p < 4294967294 \<Longrightarrow>
      \<exists>s'. process_acquire_by_id n s = Some (Some p, s') \<and> proc_inv c (ext(p := ext p + 1)) sext s' reg kids \<and>
        s' = (if p = kernel_process then s else set_process p (references_update (\<lambda>n. n + 1)) s)"
proof -
  note parts = proc_parts_of [OF inv]
  have "process_registry_head s = first_or None reg"
    "dls (\<lambda>p. registry_previous (procs s p)) (\<lambda>p. registry_next (procs s p)) None reg None"
    using parts(3) by (auto simp: reg_ok_def dll_def)
  then have found: "process_registry_find_locked n s = Some (find (\<lambda>p. pid (procs s p) = n) reg)"
    using find_process_run [of s None reg n] n by (simp add: process_registry_find_locked_def PROCESS_ID_INVALID_def)
  show "process_acquire_by_id n s = Some (None, s)" if none: "\<forall>p \<in> set reg. pid (procs s p) \<noteq> n"
  proof -
    have "find (\<lambda>p. pid (procs s p) = n) reg = None" using none by (simp add: find_None_iff)
    then show ?thesis using found n by (simp add: process_acquire_by_id_def PROCESS_ID_INVALID_def)
  qed
  assume p: "p \<in> set reg" "pid (procs s p) = n" and small: "ext p < 4294967294"
  have the: "find (\<lambda>p. pid (procs s p) = n) reg = Some p"
  proof (cases "find (\<lambda>p. pid (procs s p) = n) reg")
    case None
    then show ?thesis using p by (auto simp: find_None_iff)
  next
    case (Some q)
    then have "q \<in> set reg" "pid (procs s q) = n" by (auto simp: find_Some_iff)
    then show ?thesis using Some p parts(3) by (auto simp: reg_ok_def inj_on_def)
  qed
  obtain s' where s': "process_retain (Some p) s = (True, s')" "proc_inv c (ext(p := ext p + 1)) sext s' reg kids"
      "s' = (if p = kernel_process then s else set_process p (references_update (\<lambda>n. n + 1)) s)"
    using process_retain_run [of c ext sext s reg kids p] inv p small by blast
  note rp = parts(2) [unfolded refs_ok_def, THEN bspec, OF p(1)]
  have "process_acquire_by_id n s = Some (Some p, s')"
    using found the n rp s'(1) by (auto simp: process_acquire_by_id_def PROCESS_ID_INVALID_def process_retain_def split: if_splits)
  then show "\<exists>s'. process_acquire_by_id n s = Some (Some p, s') \<and> proc_inv c (ext(p := ext p + 1)) sext s' reg kids \<and>
      s' = (if p = kernel_process then s else set_process p (references_update (\<lambda>n. n + 1)) s)"
    using s'(2,3) by blast
qed

section \<open>Unlinking a child\<close>

lemma kid_of:
  assumes "kids_ok s reg kids" "p \<in> set reg" "l \<in> set (kids p)"
  obtains k where "link_child (child_links s l) = Some k" "k \<in> set reg" "k \<noteq> p" "parent_pid (procs s k) = pid (procs s p)"
  using assms unfolding kids_ok_def kid_ok_def by metis

lemma one_link:
  assumes "kids_ok s reg kids" "reg_ok s reg" "p \<in> set reg" "q \<in> set reg" "l \<in> set (kids p)" "m \<in> set (kids q)"
    and "link_child (child_links s l) = link_child (child_links s m)"
  shows "p = q \<and> l = m"
proof -
  obtain k where k: "link_child (child_links s l) = Some k" "parent_pid (procs s k) = pid (procs s p)"
    using kid_of [OF assms(1,3,5)] by metis
  obtain j where j: "link_child (child_links s m) = Some j" "parent_pid (procs s j) = pid (procs s q)"
    using kid_of [OF assms(1,4,6)] by metis
  have "pid (procs s p) = pid (procs s q)" using k j assms(7) by simp
  then have pq: "p = q" using assms(2-4) by (auto simp: reg_ok_def inj_on_def)
  moreover have "inj_on (\<lambda>l. link_child (child_links s l)) (set (kids p))" using assms(1,3) by (simp add: kids_ok_def kid_ok_def)
  ultimately show ?thesis using assms(5-7) by (auto simp: inj_on_def)
qed

lemma unlink_child_run:
  assumes inv: "proc_inv c ext sext s reg kids" and p: "p \<in> set reg" and l: "l \<in> set (kids p)" and k: "link_child (child_links s l) = Some k"
  shows "\<exists>s'. unlink_child p l s = Some s' \<and> proc_inv c (ext(k := ext k + 1)) sext s' reg (kids(p := removeAll l (kids p))) \<and>
     (\<exists>x y. procs s' = (procs s)(p := (procs s p)\<lparr>children := x, child_count := y\<rparr>)) \<and> process_heap s' = process_heap s \<and>
     (\<forall>m. link_child (child_links s' m) = link_child (child_links s m))"
proof -
  note parts = proc_parts_of [OF inv]
  have kp: "kid_ok s reg p (kids p)" using parts(4) p by (simp add: kids_ok_def)
  obtain xs ys where ls: "kids p = xs @ l # ys" using l by (meson split_list)
  let ?P = "\<lambda>l. link_previous (child_links s l)" and ?N = "\<lambda>l. link_next (child_links s l)"
  have list: "dll ?P ?N (children (procs s p)) (last_or None (xs @ l # ys)) (xs @ l # ys)"
    using kp unfolding ls [symmetric] by (simp add: kid_ok_def)
  have d: "distinct (xs @ l # ys)" using list by (rule dll_distinct)
  have links: "?P l = last_or None xs" "?N l = first_or None ys" using list by (simp_all add: dll_def)
  have px: "m \<in> set xs" if "?P l = Some m" for m using that links last_or_Some_in by metis
  have nx: "m \<in> set ys" if "?N l = Some m" for m using that links first_or_Some_in by metis
  have own: "?P l \<noteq> Some l" "?N l \<noteq> Some l" "?P l \<noteq> ?N l \<or> ?P l = None"
  proof -
    show "?P l \<noteq> Some l" "?N l \<noteq> Some l" using px nx d by auto
    show "?P l \<noteq> ?N l \<or> ?P l = None" using px nx d by (cases "?P l") auto
  qed
  have count: "child_count (procs s p) \<noteq> 0" "unat (child_count (procs s p)) = Suc (length (xs @ ys))"
    using kp ls by (auto simp: kid_ok_def)
  define s' where "s' = the (unlink_child p l s)"
  have run: "unlink_child p l s = Some s'" and
    procs: "procs s' = (procs s)(p := (procs s p)\<lparr>children := if ?P l = None then ?N l else children (procs s p),
      child_count := child_count (procs s p) - 1\<rparr>)" and
    prevs: "(\<lambda>m. link_previous (child_links s' m)) = (set_link (?N l) (?P l) ?P)(l := None)" and
    nexts: "(\<lambda>m. link_next (child_links s' m)) = (set_link (?P l) (?N l) ?N)(l := None)" and
    chil: "\<And>m. link_child (child_links s' m) = link_child (child_links s m)" and
    rest: "process_registry_head s' = process_registry_head s" "next_process_id s' = next_process_id s" "live_processes s' = live_processes s"
      "live_handles s' = live_handles s" "process_system_initialized s' = process_system_initialized s"
      "process_heap s' = process_heap s" "process_kernel s' = process_kernel s"
    using own count(1) unfolding s'_def
    by (auto simp: unlink_child_def Let_def fun_eq_iff split: option.split)
  have outside: "child_links s' m = child_links s m" if "m \<notin> set (kids p)" for m
  proof -
    have "m \<noteq> l" "?P l \<noteq> Some m" "?N l \<noteq> Some m" using that px nx unfolding ls by auto
    then show ?thesis using own count(1) unfolding s'_def by (auto simp: unlink_child_def Let_def split: option.split)
  qed
  have fields: "pid (procs s' q) = pid (procs s q)" "parent_pid (procs s' q) = parent_pid (procs s q)"
      "references (procs s' q) = references (procs s q)" "immortal (procs s' q) = immortal (procs s q)"
      "process_status (procs s' q) = process_status (procs s q)" "process_space (procs s' q) = process_space (procs s q)"
      "handles (procs s' q) = handles (procs s q)" "accounting (procs s' q) = accounting (procs s q)" "cwd (procs s' q) = cwd (procs s q)"
      "registry_previous (procs s' q) = registry_previous (procs s q)" "registry_next (procs s' q) = registry_next (procs s q)" for q
    by (simp_all add: procs)
  have removed: "removeAll l (kids p) = xs @ ys" using d unfolding ls by simp
  have kid_p: "kid_ok s' reg p (xs @ ys)"
  proof -
    have "(if ?N l = None then ?P l else last_or None (xs @ l # ys)) = last_or None (xs @ ys)"
      using links by (cases ys) simp_all
    then have "dll (\<lambda>m. link_previous (child_links s' m)) (\<lambda>m. link_next (child_links s' m)) (children (procs s' p)) (last_or None (xs @ ys)) (xs @ ys)"
      using dll_unlink [OF list] unfolding prevs nexts procs by simp
    moreover have "unat (child_count (procs s' p)) = length (xs @ ys)"
      using count unat_dec_u32 [OF count(1)] by (simp add: procs)
    ultimately show ?thesis using kp unfolding kid_ok_def chil fields ls by auto
  qed
  have kid_q: "kid_ok s' reg q (kids q)" if q: "q \<in> set reg" "q \<noteq> p" for q
  proof -
    have kq: "kid_ok s reg q (kids q)" using parts(4) q(1) by (simp add: kids_ok_def)
    have "set (kids q) \<inter> set (kids p) = {}" using parts(4) q p by (simp add: kids_ok_def)
    then have "child_links s' m = child_links s m" if "m \<in> set (kids q)" for m using outside [of m] that by blast
    then have "dll (\<lambda>m. link_previous (child_links s' m)) (\<lambda>m. link_next (child_links s' m)) (children (procs s q)) (last_or None (kids q)) (kids q)"
      using kq dll_cong [of "kids q" "\<lambda>l. link_previous (child_links s' l)" ?P "\<lambda>l. link_next (child_links s' l)" ?N]
      by (simp add: kid_ok_def)
    then show ?thesis using kq q(2) unfolding kid_ok_def chil fields by (simp add: procs)
  qed
  have kids: "kids_ok s' reg (kids(p := removeAll l (kids p)))"
  proof -
    have "kid_ok s' reg q ((kids(p := removeAll l (kids p))) q)" if "q \<in> set reg" for q
      using that kid_p kid_q by (simp add: removed)
    moreover have "set ((kids(p := removeAll l (kids p))) q) \<subseteq> set (kids q)" for q by auto
    ultimately show ?thesis using parts(4) unfolding kids_ok_def by blast
  qed
  have owned: "owned_child s' reg (kids(p := removeAll l (kids p))) j \<longleftrightarrow> owned_child s reg kids j \<and> j \<noteq> k" for j
  proof
    assume "owned_child s' reg (kids(p := removeAll l (kids p))) j"
    then obtain q m where m: "q \<in> set reg" "m \<in> set ((kids(p := removeAll l (kids p))) q)" "link_child (child_links s m) = Some j"
      unfolding owned_child_def chil by blast
    then have mk: "m \<in> set (kids q)" "q = p \<Longrightarrow> m \<noteq> l" by (auto split: if_splits)
    have "j \<noteq> k"
    proof
      assume "j = k"
      then have "p = q \<and> l = m" using one_link [OF parts(4,3) p m(1) l mk(1)] k m(3) by simp
      then show False using mk(2) by simp
    qed
    then show "owned_child s reg kids j \<and> j \<noteq> k" using m mk by (auto simp: owned_child_def)
  next
    assume "owned_child s reg kids j \<and> j \<noteq> k"
    then obtain q m where m: "q \<in> set reg" "m \<in> set (kids q)" "link_child (child_links s m) = Some j" "j \<noteq> k"
      by (auto simp: owned_child_def)
    then have "m \<noteq> l" using k by auto
    then show "owned_child s' reg (kids(p := removeAll l (kids p))) j"
      using m unfolding owned_child_def chil by (intro bexI [of _ q] bexI [of _ m]) auto
  qed
  have own_k: "owned_child s reg kids k" using p l k by (auto simp: owned_child_def)
  have refs: "refs_ok (ext(k := ext k + 1)) s' reg (kids(p := removeAll l (kids p)))"
    using parts(2) own_k unfolding refs_ok_def owned fields by auto
  have regs: "reg_ok s' reg" using parts(3) unfolding reg_ok_def fields rest .
  have "handles_ok s' reg" using parts(6) unfolding handles_ok_def fields rest .
  moreover have "spaces_ok c sext s' reg" using parts(7) unfolding spaces_ok_def space_users_def fields rest .
  moreover have "memory_ok s' reg (kids(p := removeAll l (kids p)))"
    using parts(5) unfolding memory_ok_def rest by auto
  ultimately have "proc_inv c (ext(k := ext k + 1)) sext s' reg (kids(p := removeAll l (kids p)))"
    using regs kids refs parts(8,9) rest(5) unfolding proc_inv_def proc_core_def fields by simp
  then show ?thesis using run procs rest(6) chil by blast
qed

end
