(* ===== verification/ProcessWait.thy ===== *)
theory ProcessWait
  imports ProcessFamily
begin

text \<open>
  Giving up a reference in every case, and the collection of a child that has ended.
\<close>

section \<open>Giving up a reference\<close>

lemma process_release_run:
  assumes inv: "proc_inv c ext sext s reg kids" and p: "p \<in> set reg" and e: "ext p \<noteq> 0"
  shows "p \<noteq> kernel_process \<Longrightarrow> references (procs s p) = 1 \<Longrightarrow> kids p \<noteq> [] \<Longrightarrow> process_release c (Some p) s = None"
    and "p = kernel_process \<or> references (procs s p) \<noteq> 1 \<or> kids p = [] \<Longrightarrow>
      \<exists>s'. process_release c (Some p) s = Some s' \<and>
        proc_inv c (ext(p := ext p - 1)) sext s' (if p \<noteq> kernel_process \<and> references (procs s p) = 1 then removeAll p reg else reg) kids \<and>
        child_links s' = child_links s \<and> heap_owned (process_heap s) - {p} \<subseteq> heap_owned (process_heap s') \<and>
        (\<forall>q. q = p \<and> references (procs s p) = 1 \<or> pid (procs s' q) = pid (procs s q))"
proof -
  note parts = proc_parts_of [OF inv]
  show "process_release c (Some p) s = None" if "p \<noteq> kernel_process" "references (procs s p) = 1" "kids p \<noteq> []"
    using process_release_last(1) [OF inv p that(1) e that(2,3)] .
  assume ok: "p = kernel_process \<or> references (procs s p) \<noteq> 1 \<or> kids p = []"
  consider (kernel) "p = kernel_process" | (more) "p \<noteq> kernel_process" "references (procs s p) \<noteq> 1"
    | (last) "p \<noteq> kernel_process" "references (procs s p) = 1" "kids p = []" using ok by blast
  then show "\<exists>s'. process_release c (Some p) s = Some s' \<and>
        proc_inv c (ext(p := ext p - 1)) sext s' (if p \<noteq> kernel_process \<and> references (procs s p) = 1 then removeAll p reg else reg) kids \<and>
        child_links s' = child_links s \<and> heap_owned (process_heap s) - {p} \<subseteq> heap_owned (process_heap s') \<and>
        (\<forall>q. q = p \<and> references (procs s p) = 1 \<or> pid (procs s' q) = pid (procs s q))"
  proof cases
    case kernel
    have "refs_ok (ext(p := ext p - 1)) s reg kids" using parts(2) kernel by (auto simp: refs_ok_def)
    then show ?thesis using kernel parts(1,2) p by (auto simp: process_release_def proc_inv_def refs_ok_def)
  next
    case more
    note run = process_release_more [OF inv p more(1) e more(2)]
    then show ?thesis using more by auto
  next
    case last
    obtain s' where s': "process_release c (Some p) s = Some s'" "proc_inv c (ext(p := 0)) sext s' (removeAll p reg) kids"
        "child_links s' = child_links s" "process_heap s' = kfree (Some p) (process_heap s)"
        "\<forall>q. q \<noteq> p \<longrightarrow> (\<exists>x y. procs s' q = (procs s q)\<lparr>registry_previous := x, registry_next := y\<rparr>)"
      using process_release_last(2) [OF inv p last(1) e last(2,3)] by blast
    note rp = parts(2) [unfolded refs_ok_def, THEN bspec, OF p]
    have "1 = ext p + of_bool (owned_child s reg kids p)" using rp last(1) unfolding last(2) by simp
    then have "ext p = 1" using e by (cases "owned_child s reg kids p") simp_all
    moreover have "pid (procs s' q) = pid (procs s q)" if "q \<noteq> p" for q
      using s'(5) [rule_format, OF that] by auto
    moreover have "heap_owned (process_heap s') = heap_owned (process_heap s) - {p}"
      unfolding s'(4) using parts(5) p last(1) by (intro conjunct2 [OF kernel_heap.release_owned]) (auto simp: memory_ok_def)
    ultimately show ?thesis using s'(1-3) last by auto
  qed
qed

text \<open>A link that no process has in its list is given back to the heap.\<close>

lemma proc_inv_free_link:
  assumes inv: "proc_inv c ext sext s reg kids" and l: "l \<in> heap_owned (process_heap s)" "l \<notin> set reg"
    and free: "\<forall>q \<in> set reg. l \<notin> set (kids q)"
  shows "proc_inv c ext sext (process_kfree (Some l) (set_child_link l f s)) reg kids"
proof -
  note parts = proc_parts_of [OF inv]
  have good: "heap_good (process_heap s)" using parts(5) by (simp add: memory_ok_def)
  note freed = kernel_heap.release_owned [OF good l(1)]
  have "proc_core c sext (process_kfree (Some l) (set_child_link l f s)) reg kids"
    by (rule proc_core_frame [OF parts(1)])
      (use parts(5,8) freed free l(2) in \<open>auto simp: process_kfree_def memory_ok_def\<close>)
  moreover have "owned_child (process_kfree (Some l) (set_child_link l f s)) reg kids k = owned_child s reg kids k" for k
    unfolding owned_child_def
    by (intro bex_cong refl) (use free in \<open>auto simp: process_kfree_def\<close>)
  then have "refs_ok ext (process_kfree (Some l) (set_child_link l f s)) reg kids"
    using parts(2) unfolding refs_ok_def by (simp add: process_kfree_def)
  ultimately show ?thesis by (simp add: proc_inv_def)
qed

section \<open>Collecting a child\<close>

text \<open>The link of the child with the identifier \<open>n\<close>, as the search of the child list finds it.\<close>

lemma find_child_in:
  assumes inv: "proc_inv c ext sext s reg kids" and p: "p \<in> set reg"
  shows "find_child_loop n (children (procs s p)) s = Some (find (\<lambda>l. process_id (link_child (child_links s l)) s = n) (kids p))"
proof -
  have "kid_ok s reg p (kids p)" using proc_parts_of(4) [OF inv] p by (simp add: kids_ok_def)
  then show ?thesis using find_child_run [of s None "kids p" n] by (simp add: kid_ok_def dll_def)
qed

lemma find_child_none:
  assumes "proc_inv c ext sext s reg kids" "p \<in> set reg"
    and "\<And>l k. l \<in> set (kids p) \<Longrightarrow> link_child (child_links s l) = Some k \<Longrightarrow> pid (procs s k) \<noteq> n"
  shows "find_child_loop n (children (procs s p)) s = Some None"
proof -
  have "process_id (link_child (child_links s l)) s \<noteq> n" if l: "l \<in> set (kids p)" for l
    using kid_of [OF proc_parts_of(4) [OF assms(1)] assms(2) l] assms(3) [OF l] by (metis process_id_def option.simps(5))
  then show ?thesis unfolding find_child_in [OF assms(1,2)] by (auto simp: find_None_iff)
qed

lemma find_child_some:
  assumes inv: "proc_inv c ext sext s reg kids" and p: "p \<in> set reg"
    and l: "l \<in> set (kids p)" "link_child (child_links s l) = Some k"
  shows "find_child_loop (pid (procs s k)) (children (procs s p)) s = Some (Some l)"
proof -
  note parts = proc_parts_of [OF inv]
  have k: "k \<in> set reg" using kid_of [OF parts(4) p l(1)] l(2) by (metis option.inject)
  have "find (\<lambda>l. process_id (link_child (child_links s l)) s = pid (procs s k)) (kids p) = Some l"
  proof (cases "find (\<lambda>l. process_id (link_child (child_links s l)) s = pid (procs s k)) (kids p)")
    case None
    then show ?thesis using l by (auto simp: find_None_iff process_id_def)
  next
    case (Some m)
    then have m: "m \<in> set (kids p)" "process_id (link_child (child_links s m)) s = pid (procs s k)" by (auto simp: find_Some_iff)
    then obtain j where j: "link_child (child_links s m) = Some j" "j \<in> set reg" using kid_of [OF parts(4) p] by metis
    then have "j = k" using m(2) k parts(3) by (auto simp: process_id_def reg_ok_def inj_on_def)
    then show ?thesis using Some one_link [OF parts(4,3) p p m(1) l(1)] j l(2) by simp
  qed
  then show ?thesis unfolding find_child_in [OF inv p] by simp
qed

lemma waitpid_nothing:
  assumes inv: "proc_inv c ext sext s reg kids" and p: "p \<in> set reg"
    and none: "\<And>l k. l \<in> set (kids p) \<Longrightarrow> link_child (child_links s l) = Some k \<Longrightarrow> pid (procs s k) = n \<Longrightarrow>
      process_status (procs s k) \<noteq> PROCESS_ZOMBIE"
  shows "process_waitpid c (Some p) n s = Some (None, s)"
proof (cases "\<exists>l \<in> set (kids p). \<exists>k. link_child (child_links s l) = Some k \<and> pid (procs s k) = n")
  case True
  then obtain l k where lk: "l \<in> set (kids p)" "link_child (child_links s l) = Some k" "pid (procs s k) = n" by blast
  have "find_child_loop n (children (procs s p)) s = Some (Some l)"
    using find_child_some [OF inv p lk(1,2)] lk(3) by simp
  then show ?thesis using lk(2) none [OF lk] by (simp add: process_waitpid_def)
next
  case False
  then have "find_child_loop n (children (procs s p)) s = Some None"
    by (intro find_child_none [OF inv p]) blast
  then show ?thesis by (simp add: process_waitpid_def)
qed

lemma waitpid_zombie:
  assumes inv: "proc_inv c ext sext s reg kids" and p: "p \<in> set reg" and n: "pid (procs s k) \<noteq> 0"
    and l: "l \<in> set (kids p)" and k: "link_child (child_links s l) = Some k" and zombie: "process_status (procs s k) = PROCESS_ZOMBIE"
  shows "if k \<noteq> kernel_process \<and> references (procs s k) = 1 \<and> kids k \<noteq> [] then process_waitpid c (Some p) (pid (procs s k)) s = None
     else \<exists>s'. process_waitpid c (Some p) (pid (procs s k)) s = Some (Some (exit_status (procs s k)), s') \<and>
       proc_inv c ext sext s' (if k \<noteq> kernel_process \<and> references (procs s k) = 1 then removeAll k reg else reg)
         (kids(p := removeAll l (kids p))) \<and>
       l \<notin> heap_owned (process_heap s') \<and> process_waitpid c (Some p) (pid (procs s k)) s' = Some (None, s')"
proof -
  note parts = proc_parts_of [OF inv]
  let ?kids = "kids(p := removeAll l (kids p))" and ?n = "pid (procs s k)"
  have k': "k \<in> set reg" "k \<noteq> p" using kid_of [OF parts(4) p l] k by (metis option.inject)+
  obtain s1 x y where s1: "unlink_child p l s = Some s1" "proc_inv c (ext(k := ext k + 1)) sext s1 reg ?kids"
      "procs s1 = (procs s)(p := (procs s p)\<lparr>children := x, child_count := y\<rparr>)" "process_heap s1 = process_heap s"
      "\<forall>m. link_child (child_links s1 m) = link_child (child_links s m)"
    using unlink_child_run [OF inv p l k] by blast
  have same: "references (procs s1 k) = references (procs s k)" "?kids k = kids k" using s1(3) k'(2) by simp_all
  have run: "process_waitpid c (Some p) ?n s = do {
      t \<leftarrow> process_release c (Some k) s1;
      Some (Some (exit_status (procs s k)), process_kfree (Some l) (set_child_link l (link_child_update (\<lambda>_. None)) t)) }"
    using find_child_some [OF inv p l k] k n zombie s1(1,5) by (simp add: process_waitpid_def PROCESS_ID_INVALID_def)
  have e: "(ext(k := ext k + 1)) k \<noteq> 0" by simp
  note rel = process_release_run [OF s1(2) k'(1) e, unfolded same]
  show ?thesis
  proof (cases "k \<noteq> kernel_process \<and> references (procs s k) = 1 \<and> kids k \<noteq> []")
    case True
    then have "process_release c (Some k) s1 = None" by (intro rel(1)) simp_all
    then show ?thesis unfolding if_P [OF True] run by simp
  next
    case False
    let ?reg = "if k \<noteq> kernel_process \<and> references (procs s k) = 1 then removeAll k reg else reg"
    have not_last: "k = kernel_process \<or> references (procs s k) \<noteq> 1 \<or> kids k = []" using False by blast
    have restored: "(ext(k := ext k + 1))(k := (ext(k := ext k + 1)) k - 1) = ext" by auto
    obtain t where t: "process_release c (Some k) s1 = Some t" "proc_inv c ext sext t ?reg ?kids" "child_links t = child_links s1"
        "heap_owned (process_heap s) - {k} \<subseteq> heap_owned (process_heap t)"
        "\<forall>q. q = k \<and> references (procs s k) = 1 \<or> pid (procs t q) = pid (procs s1 q)"
      using rel(2) [OF not_last] unfolding s1(4) restored by blast
    let ?s' = "process_kfree (Some l) (set_child_link l (link_child_update (\<lambda>_. None)) t)"
    have mem: "l \<in> heap_owned (process_heap s)" "l \<notin> set reg" using parts(5) p l by (auto simp: memory_ok_def)
    have lt: "l \<in> heap_owned (process_heap t)" "l \<notin> set ?reg" using mem t(4) k'(1) by auto
    have gone: "\<forall>q \<in> set ?reg. l \<notin> set (?kids q)"
      using parts(4) p l by (auto simp: kids_ok_def split: if_splits)
    have inv': "proc_inv c ext sext ?s' ?reg ?kids" by (rule proc_inv_free_link [OF t(2) lt gone])
    have good: "heap_good (process_heap t)" using proc_parts_of(5) [OF t(2)] by (simp add: memory_ok_def)
    have freed: "l \<notin> heap_owned (process_heap ?s')"
      using kernel_heap.release_owned [OF good lt(1)] by (simp add: process_kfree_def)
    have again: "process_waitpid c (Some p) ?n ?s' = Some (None, ?s')"
    proof (rule waitpid_nothing [OF inv'])
      show "p \<in> set ?reg" using p k'(2) by simp
      fix m j
      assume m: "m \<in> set (?kids p)" "link_child (child_links ?s' m) = Some j" "pid (procs ?s' j) = ?n"
      have m': "m \<in> set (kids p)" "m \<noteq> l" "link_child (child_links s m) = Some j"
        using m(1,2) t(3) s1(5) by (auto simp: process_kfree_def)
      have "j \<noteq> k" using one_link [OF parts(4,3) p p m'(1) l] m' k by auto
      moreover have "j \<in> set reg" using kid_of [OF parts(4) p m'(1)] m'(3) by (metis option.inject)
      moreover have "pid (procs s j) = ?n"
      proof -
        have "pid (procs t j) = ?n" using m(3) by (simp add: process_kfree_def)
        then have "pid (procs s1 j) = ?n" using t(5) [rule_format, of j] \<open>j \<noteq> k\<close> by simp
        then show ?thesis using s1(3) by (simp split: if_splits)
      qed
      ultimately have False using k'(1) parts(3) by (auto simp: reg_ok_def inj_on_def)
      then show "process_status (procs ?s' j) \<noteq> PROCESS_ZOMBIE" ..
    qed
    show ?thesis unfolding if_not_P [OF False] run using t(1) inv' freed again by auto
  qed
qed

text \<open>Claim C16. A parent that waits for a child gets the exit status the child left, and gets it once: with no
  child of that identifier, or one that still runs, nothing changes; with a child that has ended, its link is
  taken out and freed, the reference of the parent is given up (the last one takes the child out of the registry and
  frees it), the ownership invariant holds with the same references outside, and waiting again finds nothing. The one
  exception is a child that would be freed while it still owns children itself: the kernel panics there.\<close>

theorem waitpid_collects_once:
  assumes inv: "proc_inv c ext sext s reg kids" and p: "p \<in> set reg" and n: "n \<noteq> 0"
  shows "((\<forall>l \<in> set (kids p). \<forall>k. link_child (child_links s l) = Some k \<and> pid (procs s k) = n \<longrightarrow>
        process_status (procs s k) \<noteq> PROCESS_ZOMBIE) \<longrightarrow> process_waitpid c (Some p) n s = Some (None, s)) \<and>
    (\<forall>l \<in> set (kids p). \<forall>k. link_child (child_links s l) = Some k \<and> pid (procs s k) = n \<and> process_status (procs s k) = PROCESS_ZOMBIE \<longrightarrow>
      (if k \<noteq> kernel_process \<and> references (procs s k) = 1 \<and> kids k \<noteq> [] then process_waitpid c (Some p) n s = None
       else \<exists>s'. process_waitpid c (Some p) n s = Some (Some (exit_status (procs s k)), s') \<and>
         proc_inv c ext sext s' (if k \<noteq> kernel_process \<and> references (procs s k) = 1 then removeAll k reg else reg)
           (kids(p := removeAll l (kids p))) \<and>
         l \<notin> heap_owned (process_heap s') \<and> process_waitpid c (Some p) n s' = Some (None, s')))"
proof (intro conjI impI ballI allI)
  show "process_waitpid c (Some p) n s = Some (None, s)"
    if "\<forall>l \<in> set (kids p). \<forall>k. link_child (child_links s l) = Some k \<and> pid (procs s k) = n \<longrightarrow> process_status (procs s k) \<noteq> PROCESS_ZOMBIE"
    by (rule waitpid_nothing [OF inv p]) (use that in blast)
next
  fix l k
  assume "l \<in> set (kids p)" "link_child (child_links s l) = Some k \<and> pid (procs s k) = n \<and> process_status (procs s k) = PROCESS_ZOMBIE"
  then show "if k \<noteq> kernel_process \<and> references (procs s k) = 1 \<and> kids k \<noteq> [] then process_waitpid c (Some p) n s = None
       else \<exists>s'. process_waitpid c (Some p) n s = Some (Some (exit_status (procs s k)), s') \<and>
         proc_inv c ext sext s' (if k \<noteq> kernel_process \<and> references (procs s k) = 1 then removeAll k reg else reg)
           (kids(p := removeAll l (kids p))) \<and>
         l \<notin> heap_owned (process_heap s') \<and> process_waitpid c (Some p) n s' = Some (None, s')"
    using waitpid_zombie [OF inv p _ , of k l] n by blast
qed

end
