(* ===== verification/ProcessCreate.thy ===== *)
theory ProcessCreate
  imports ProcessWait
begin

text \<open>
  Creation: the reference to the address space, the place in the registry, and the link in the list of
  the parent. A creation that fails gives everything back.
\<close>

section \<open>Counts outside of the registry\<close>

lemma proc_inv_cong: "(\<And>p. p \<in> set reg \<Longrightarrow> ext p = ext' p) \<Longrightarrow> proc_inv c ext sext s reg kids = proc_inv c ext' sext s reg kids"
  by (auto simp: proc_inv_def refs_ok_def)

text \<open>Taking a reference and giving it up again.\<close>

lemma process_release_not_last:
  assumes inv: "proc_inv c ext sext s reg kids" and p: "p \<in> set reg" and e: "ext p \<noteq> 0"
    and more: "ext p \<noteq> 1 \<or> owned_child s reg kids p"
  shows "\<exists>s'. process_release c (Some p) s = Some s' \<and> proc_inv c (ext(p := ext p - 1)) sext s' reg kids \<and>
     s' = (if p = kernel_process then s else set_process p (references_update (\<lambda>n. n - 1)) s)"
proof (cases "p = kernel_process")
  case True
  have "refs_ok (ext(p := ext p - 1)) s reg kids" using proc_parts_of(2) [OF inv] True by (auto simp: refs_ok_def)
  then show ?thesis using True inv p by (auto simp: process_release_def proc_inv_def refs_ok_def)
next
  case False
  have "unat (references (procs s p)) = ext p + of_bool (owned_child s reg kids p)"
    using proc_parts_of(2) [OF inv] p False by (auto simp: refs_ok_def)
  then have "unat (references (procs s p)) \<noteq> 1" using e more by auto
  then have "references (procs s p) \<noteq> 1" by auto
  then show ?thesis using process_release_more [OF inv p False e] False by auto
qed

section \<open>The reference to the address space\<close>

definition space_free :: "'q kernel \<Rightarrow> nat \<Rightarrow> bool" where
  "space_free k a \<longleftrightarrow> kernel_space (address_spaces k a) \<or>
     reference_count (address_spaces k a) \<noteq> 0 \<and> reference_count (address_spaces k a) \<noteq> SIZE_MAX"

lemma retain_space_run:
  assumes inv: "proc_inv c ext sext s reg kids" and a: "space_free (process_kernel s) a"
  shows "\<exists>k. retain_space c (Some a) s = (True, s\<lparr>process_kernel := k\<rparr>) \<and>
     proc_inv c ext (sext(a := sext a + 1)) (s\<lparr>process_kernel := k\<rparr>) reg kids"
proof -
  note parts = proc_parts_of [OF inv]
  let ?k = "process_kernel s"
  obtain k where k: "address_space_retain c (Some a) ?k = (True, k)" "spaces_same c ?k k"
      "address_spaces k = (if kernel_space (address_spaces ?k a) then address_spaces ?k
         else (address_spaces ?k)(a := (address_spaces ?k a)\<lparr>reference_count := reference_count (address_spaces ?k a) + 1\<rparr>))"
    using address_space_retain_run [of ?k a c] a by (auto simp: space_free_def)
  let ?s' = "s\<lparr>process_kernel := k\<rparr>"
  have "unat (reference_count (address_spaces ?k a) + 1) = Suc (unat (reference_count (address_spaces ?k a)))"
    if "\<not> kernel_space (address_spaces ?k a)" using a that by (intro unat_inc_not_max) (simp add: space_free_def)
  then have "spaces_ok c (sext(a := sext a + 1)) ?s' reg"
    using parts(7) a k(2,3) by (auto simp: spaces_ok_def Let_def spaces_same_def space_users_def space_free_def)
  then have "proc_inv c ext (sext(a := sext a + 1)) ?s' reg kids"
    using parts by (simp add: proc_inv_def proc_core_def reg_ok_def kids_ok_def kid_ok_def memory_ok_def handles_ok_def refs_ok_def owned_child_def)
  then show ?thesis using k(1) by (auto simp: retain_space_def)
qed

lemma release_space_run:
  assumes inv: "proc_inv c ext (sext(a := sext a + 1)) s reg kids"
  shows "\<exists>s'. release_space c (Some a) s = (True, s') \<and> proc_inv c ext sext s' reg kids \<and> process_heap s' = process_heap s"
proof -
  note parts = proc_parts_of [OF inv]
  let ?k = "process_kernel s"
  have used: "reference_count (address_spaces ?k a) \<noteq> 0 \<and> page_directory (address_spaces ?k a) \<noteq> 0 \<and>
      page_directory (address_spaces ?k a) \<noteq> kernel_directory_physical ?k" if "\<not> kernel_space (address_spaces ?k a)"
  proof -
    have "unat (reference_count (address_spaces ?k a)) \<noteq> 0" using parts(7) that by (auto simp: spaces_ok_def Let_def)
    then show ?thesis using parts(7) that by (auto simp: spaces_ok_def Let_def)
  qed
  obtain k where k: "address_space_release c (Some a) ?k = (True, k)" "spaces_same c ?k k"
      "address_spaces k = (if kernel_space (address_spaces ?k a) then address_spaces ?k
         else (address_spaces ?k)(a := (address_spaces ?k a)\<lparr>reference_count := reference_count (address_spaces ?k a) - 1,
           page_directory := if reference_count (address_spaces ?k a) = 1 then 0 else page_directory (address_spaces ?k a)\<rparr>))"
    using address_space_release_run [of ?k a c] used parts(7) by (auto simp: spaces_ok_def Let_def)
  let ?s' = "s\<lparr>process_kernel := k\<rparr>"
  have dec: "unat (reference_count (address_spaces ?k a)) = Suc (unat (reference_count (address_spaces ?k a) - 1))"
    if "\<not> kernel_space (address_spaces ?k a)" using used [OF that] by (intro unat_dec_u32) simp
  have "spaces_ok c sext ?s' reg"
    unfolding spaces_ok_def Let_def
  proof (intro conjI allI impI)
    fix b
    assume b: "\<not> kernel_space (address_spaces (process_kernel ?s') b)"
    show "unat (reference_count (address_spaces (process_kernel ?s') b)) = sext b + card (space_users ?s' reg b)"
      using parts(7) dec b k(3) by (auto simp: spaces_ok_def Let_def space_users_def split: if_splits)
    assume "reference_count (address_spaces (process_kernel ?s') b) \<noteq> 0"
    then show "page_directory (address_spaces (process_kernel ?s') b) \<noteq> 0"
      "page_directory (address_spaces (process_kernel ?s') b) \<noteq> kernel_directory_physical (process_kernel ?s')"
      using parts(7) used b k(2,3) by (auto simp: spaces_ok_def Let_def spaces_same_def split: if_splits)
  qed (use parts(7) k(2) in \<open>auto simp: spaces_ok_def Let_def spaces_same_def\<close>)
  then have "proc_inv c ext sext ?s' reg kids"
    using parts by (simp add: proc_inv_def proc_core_def reg_ok_def kids_ok_def kid_ok_def memory_ok_def handles_ok_def refs_ok_def owned_child_def)
  then show ?thesis using k(1) by (auto simp: release_space_def)
qed

section \<open>Allocation\<close>

lemma owned_not_kernel: "kernel_process \<notin> heap_owned h"
  by (auto simp: heap_owned_def kernel_process_def)

lemma process_kmalloc_run:
  assumes inv: "proc_inv c ext sext s reg kids"
  shows "\<exists>r h. process_kmalloc n s = Some (r, s\<lparr>process_heap := h\<rparr>) \<and> proc_inv c ext sext (s\<lparr>process_heap := h\<rparr>) reg kids \<and>
     (case r of None \<Rightarrow> True | Some p \<Rightarrow> p \<in> heap_owned h \<and> p \<notin> set reg \<and> (\<forall>q \<in> set reg. p \<notin> set (kids q)))"
proof -
  note parts = proc_parts_of [OF inv]
  have good: "heap_good (process_heap s)" using parts(5) by (simp add: memory_ok_def)
  obtain r h where h: "kmalloc n (process_heap s) = Some (r, h)" "heap_good h"
      "case r of None \<Rightarrow> heap_owned h = heap_owned (process_heap s)
       | Some p \<Rightarrow> p \<notin> heap_owned (process_heap s) \<and> heap_owned h = insert p (heap_owned (process_heap s))"
    using kernel_heap.alloc_new [OF good] by blast
  have grown: "heap_owned (process_heap s) \<subseteq> heap_owned h" using h(3) by (auto split: option.splits)
  have owned: "set reg - {kernel_process} \<union> (\<Union>p \<in> set reg. set (kids p)) \<subseteq> heap_owned h"
    using parts(5) grown unfolding memory_ok_def by blast
  have "proc_core c sext (s\<lparr>process_heap := h\<rparr>) reg kids"
    by (rule proc_core_frame [OF parts(1)]) (use parts(8) h(2) owned in \<open>simp_all add: memory_ok_def\<close>)
  then have "proc_inv c ext sext (s\<lparr>process_heap := h\<rparr>) reg kids"
    using parts(2) by (simp add: proc_inv_def refs_ok_def owned_child_def)
  moreover have "p \<in> heap_owned h \<and> p \<notin> set reg \<and> (\<forall>q \<in> set reg. p \<notin> set (kids q))" if r: "r = Some p" for p
  proof -
    have p: "p \<notin> heap_owned (process_heap s)" "p \<in> heap_owned h" using h(3) r by auto
    have "p \<noteq> kernel_process" using p(2) owned_not_kernel by metis
    then show ?thesis using parts(5) p by (auto simp: memory_ok_def)
  qed
  ultimately show ?thesis using h(1) by (auto simp: process_kmalloc_def split: option.split)
qed

section \<open>The place in the registry\<close>

definition new_process :: "u32 \<Rightarrow> nat \<Rightarrow> process_t" where
  "new_process n a = empty_process\<lparr>parent_pid := n, references := 1, process_space := Some a, cwd := [slash]\<rparr>"

lemma new_process_fields [simp]:
  "pid (new_process n a) = 0" "parent_pid (new_process n a) = n" "references (new_process n a) = 1" "\<not> immortal (new_process n a)"
  "process_status (new_process n a) = PROCESS_NEW" "process_space (new_process n a) = Some a" "children (new_process n a) = None"
  "child_count (new_process n a) = 0" "handles (new_process n a) = replicate 64 False" "current_handles (accounting (new_process n a)) = 0"
  "cwd (new_process n a) = [slash]"
  by (simp_all add: new_process_def empty_process_def PROCESS_MAX_HANDLES_def)

lemma register_fields:
  assumes "procs s p = new_process n a" "process_registry_head s \<noteq> Some p"
  defines "s' \<equiv> register_process p s"
  shows "child_links s' = child_links s" "process_registry_head s' = Some p" "next_process_id s' = next_process_id s + 1"
    "live_processes s' = live_processes s + 1" "live_handles s' = live_handles s" "process_heap s' = process_heap s"
    "process_system_initialized s' = process_system_initialized s" "process_kernel s' = process_kernel s"
    "\<exists>x y. procs s' p = (new_process n a)\<lparr>pid := next_process_id s, registry_previous := x, registry_next := y\<rparr>"
    "q \<noteq> p \<Longrightarrow> \<exists>x. procs s' q = (procs s q)\<lparr>registry_previous := x\<rparr>"
    "(\<lambda>q. registry_previous (procs s' q)) = (set_link (process_registry_head s) (Some p) (\<lambda>q. registry_previous (procs s q)))(p := None)"
    "(\<lambda>q. registry_next (procs s' q)) = (\<lambda>q. registry_next (procs s q))(p := process_registry_head s)"
proof -
  have upd: "registry_previous_update (\<lambda>_. x) pr = pr\<lparr>registry_previous := x\<rparr>" for x and pr :: process_t by simp
  have same: "\<exists>x. pr = pr\<lparr>registry_previous := x\<rparr>" for pr :: process_t by (rule exI [of _ "registry_previous pr"]) (cases pr, simp)
  show "child_links s' = child_links s" "process_registry_head s' = Some p" "next_process_id s' = next_process_id s + 1"
    "live_processes s' = live_processes s + 1" "live_handles s' = live_handles s" "process_heap s' = process_heap s"
    "process_system_initialized s' = process_system_initialized s" "process_kernel s' = process_kernel s"
    by (simp_all add: s'_def register_process_def process_registry_insert_locked_def Let_def split: option.split)
  show "\<exists>x y. procs s' p = (new_process n a)\<lparr>pid := next_process_id s, registry_previous := x, registry_next := y\<rparr>"
    using assms(1,2)
    by (auto simp: s'_def register_process_def process_registry_insert_locked_def Let_def split: option.split)
  show "\<exists>x. procs s' q = (procs s q)\<lparr>registry_previous := x\<rparr>" if "q \<noteq> p"
    using that assms(2) same
    by (auto simp: s'_def register_process_def process_registry_insert_locked_def Let_def split: option.split)
  show "(\<lambda>q. registry_previous (procs s' q)) = (set_link (process_registry_head s) (Some p) (\<lambda>q. registry_previous (procs s q)))(p := None)"
    "(\<lambda>q. registry_next (procs s' q)) = (\<lambda>q. registry_next (procs s q))(p := process_registry_head s)"
    using assms(2)
    by (auto simp: s'_def register_process_def process_registry_insert_locked_def Let_def fun_eq_iff set_link_def split: option.split)
qed

lemma owned_list_small:
  assumes "set xs - {kernel_process} \<subseteq> heap_owned h" "distinct xs"
  shows "length xs < 4294967295"
proof -
  have "1 \<notin> heap_owned h" "2 \<notin> heap_owned h" by (auto simp: heap_owned_def)
  then have "set xs \<subseteq> UNIV - {1, 2 :: u32}" using assms(1) by (auto simp: kernel_process_def)
  then have "card (set xs) \<le> card (UNIV - {1, 2 :: u32})" by (rule card_mono [rotated]) simp
  also have "\<dots> = 4294967294" by (subst card_Diff_subset) (simp_all add: card_word)
  finally show ?thesis using assms(2) by (simp add: distinct_card)
qed

lemma below_next: "x \<le> n \<Longrightarrow> n + 1 = 0 \<or> x < (n + 1 :: u32)"
proof (cases "n = SIZE_MAX")
  case False
  assume "x \<le> n"
  then show ?thesis using unat_inc_not_max [OF False] by (simp add: word_less_nat_alt word_le_nat_alt)
qed (simp add: SIZE_MAX_def)

lemma register_run:
  assumes inv: "proc_inv c ext (sext(a := sext a + 1)) s reg kids" and new: "procs s p = new_process n a"
    and p: "p \<in> heap_owned (process_heap s)" "p \<notin> set reg" "\<forall>q \<in> set reg. p \<notin> set (kids q)" and id: "next_process_id s \<noteq> 0"
  shows "proc_inv c (ext(p := 1)) sext (register_process p s) (p # reg) (kids(p := []))"
proof -
  note parts = proc_parts_of [OF inv]
  define s' where "s' = register_process p s"
  have list: "dll (\<lambda>q. registry_previous (procs s q)) (\<lambda>q. registry_next (procs s q)) (process_registry_head s) (last_or None reg) reg"
    using parts(3) by (simp add: reg_ok_def)
  have not_head: "process_registry_head s \<noteq> Some p" using dll_head_tail [OF list] p(2) by (metis first_or_Some_in)
  note rest = register_fields(1-8) [OF new not_head, folded s'_def] and mine = register_fields(9) [OF new not_head, folded s'_def]
    and others = register_fields(10) [OF new not_head, folded s'_def] and links = register_fields(11,12) [OF new not_head, folded s'_def]
  have same: "pid (procs s' q) = pid (procs s q)" "parent_pid (procs s' q) = parent_pid (procs s q)"
      "references (procs s' q) = references (procs s q)" "immortal (procs s' q) = immortal (procs s q)"
      "process_status (procs s' q) = process_status (procs s q)" "process_space (procs s' q) = process_space (procs s q)"
      "children (procs s' q) = children (procs s q)" "child_count (procs s' q) = child_count (procs s q)"
      "handles (procs s' q) = handles (procs s q)" "accounting (procs s' q) = accounting (procs s q)" "cwd (procs s' q) = cwd (procs s q)"
    if q: "q \<in> set reg" for q
  proof -
    have "q \<noteq> p" using q p(2) by blast
    then obtain x where "procs s' q = (procs s q)\<lparr>registry_previous := x\<rparr>" using others by blast
    then show "pid (procs s' q) = pid (procs s q)" "parent_pid (procs s' q) = parent_pid (procs s q)"
      "references (procs s' q) = references (procs s q)" "immortal (procs s' q) = immortal (procs s q)"
      "process_status (procs s' q) = process_status (procs s q)" "process_space (procs s' q) = process_space (procs s q)"
      "children (procs s' q) = children (procs s q)" "child_count (procs s' q) = child_count (procs s q)"
      "handles (procs s' q) = handles (procs s q)" "accounting (procs s' q) = accounting (procs s q)" "cwd (procs s' q) = cwd (procs s q)"
      by simp_all
  qed
  have own: "pid (procs s' p) = next_process_id s" "references (procs s' p) = 1" "\<not> immortal (procs s' p)"
      "process_status (procs s' p) = PROCESS_NEW" "process_space (procs s' p) = Some a" "children (procs s' p) = None" "child_count (procs s' p) = 0"
      "handles (procs s' p) = replicate 64 False" "current_handles (accounting (procs s' p)) = 0" "cwd (procs s' p) = [slash]"
    using mine by auto
  have reg: "reg_ok s' (p # reg)"
  proof -
    have "dll (\<lambda>q. registry_previous (procs s' q)) (\<lambda>q. registry_next (procs s' q)) (Some p) (last_or None (p # reg)) (p # reg)"
      using list p(2) unfolding links by (auto simp: dll_def dls_set_first)
    moreover have "unat (live_processes s') = length (p # reg)"
      using parts(3,5) owned_list_small [of reg "process_heap s"] parts(11) rest(4) by (simp add: reg_ok_def memory_ok_def unat_add_u32)
    moreover have "pid (procs s q) \<noteq> next_process_id s" if "q \<in> set reg" for q using parts(3) that id by (auto simp: reg_ok_def)
    then have "inj_on (\<lambda>q. pid (procs s' q)) (set (p # reg))" using parts(3) same(1) own(1) p(2) by (auto simp: reg_ok_def inj_on_def)
    moreover have "next_process_id s + 1 = 0 \<or> x < next_process_id s + 1" if "x \<le> next_process_id s" for x
      using that by (rule below_next)
    ultimately show ?thesis using parts(3) id same(1) own(1) rest(2,3) unfolding reg_ok_def by auto
  qed
  have kid: "kid_ok s' (p # reg) q (kids q)" if q: "q \<in> set reg" for q
  proof -
    have k: "kid_ok s reg q (kids q)" using parts(4) q by (simp add: kids_ok_def)
    then show ?thesis using q same rest(1) by (fastforce simp: kid_ok_def)
  qed
  have "kid_ok s' (p # reg) p []" using own by (simp add: kid_ok_def)
  then have kids: "kids_ok s' (p # reg) (kids(p := []))" using parts(4) kid p(2) by (auto simp: kids_ok_def)
  have owned: "owned_child s' (p # reg) (kids(p := [])) k \<longleftrightarrow> owned_child s reg kids k" for k
    using p(2) rest(1) by (auto simp: owned_child_def)
  have "\<not> owned_child s reg kids p"
  proof
    assume "owned_child s reg kids p"
    then obtain q l where "q \<in> set reg" "l \<in> set (kids q)" "link_child (child_links s l) = Some p" by (auto simp: owned_child_def)
    then show False using kid_of [OF parts(4)] p(2) by (metis option.inject)
  qed
  moreover have "p \<noteq> kernel_process" using p(2) parts(10) by blast
  ultimately have refs: "refs_ok (ext(p := 1)) s' (p # reg) (kids(p := []))"
    using parts(2) same own owned p(2) by (auto simp: refs_ok_def)
  have memory: "memory_ok s' (p # reg) (kids(p := []))"
    using parts(5) p rest(6) unfolding memory_ok_def by auto
  have handles: "handles_ok s' (p # reg)"
    using parts(6,11) same own p(2) rest(5) by (simp add: handles_ok_def)
  have users: "space_users s' (p # reg) b = (if b = a then insert p (space_users s reg b) else space_users s reg b)" for b
    using same own(5) by (auto simp: space_users_def)
  have "p \<notin> space_users s reg a" "finite (space_users s reg a)" using p(2) by (auto simp: space_users_def)
  then have card: "sext b + card (space_users s' (p # reg) b) = (sext(a := sext a + 1)) b + card (space_users s reg b)" for b
    unfolding users by simp
  have spaces: "spaces_ok c sext s' (p # reg)"
    using parts(7) same own rest(8) unfolding spaces_ok_def Let_def card by auto
  have "cwd_ok [slash]" by (simp add: cwd_ok_def path_of_def names_def)
  then show ?thesis
    using reg kids refs memory handles spaces parts(8,9) same own rest(7) unfolding s'_def [symmetric] by (simp add: proc_inv_def proc_core_def)
qed

section \<open>The link in the list of the parent\<close>

definition link_first :: "u32 \<Rightarrow> u32 \<Rightarrow> 'q process_system \<Rightarrow> 'q process_system" where
  "link_first p l s =
     (let s = set_child_link l (link_previous_update (\<lambda>_. None)) s;
          s = set_child_link l (link_next_update (\<lambda>_. children (procs s p))) s;
          s = (case children (procs s p) of None \<Rightarrow> s | Some h \<Rightarrow> set_child_link h (link_previous_update (\<lambda>_. Some l)) s);
          s = set_process p (children_update (\<lambda>_. Some l)) s
      in set_process p (child_count_update (\<lambda>n. n + 1)) s)"

lemma link_first_fields:
  assumes "children (procs s q) \<noteq> Some l"
  defines "s' \<equiv> link_first q l s"
  shows "procs s' = (procs s)(q := (procs s q)\<lparr>children := Some l, child_count := child_count (procs s q) + 1\<rparr>)"
    "process_registry_head s' = process_registry_head s" "next_process_id s' = next_process_id s" "live_processes s' = live_processes s"
    "live_handles s' = live_handles s" "process_heap s' = process_heap s" "process_system_initialized s' = process_system_initialized s"
    "process_kernel s' = process_kernel s" "link_child (child_links s' m) = link_child (child_links s m)"
    "(\<lambda>m. link_previous (child_links s' m)) = (set_link (children (procs s q)) (Some l) (\<lambda>m. link_previous (child_links s m)))(l := None)"
    "(\<lambda>m. link_next (child_links s' m)) = (\<lambda>m. link_next (child_links s m))(l := children (procs s q))"
  using assms(1)
  by (auto simp: s'_def link_first_def Let_def fun_eq_iff set_link_def split: option.split)

lemma link_first_run:
  assumes inv: "proc_inv c (ext(p := ext p + 1)) sext s reg kids" and p: "p \<in> set reg" and q: "q \<in> set reg" "q \<noteq> p"
    and parent: "parent_pid (procs s p) = pid (procs s q)" and child: "link_child (child_links s l) = Some p"
    and l: "l \<in> heap_owned (process_heap s)" "l \<notin> set reg" "\<forall>q \<in> set reg. l \<notin> set (kids q)"
    and alone: "\<not> owned_child s reg kids p"
  shows "proc_inv c ext sext (link_first q l s) reg (kids(q := l # kids q)) \<and>
     (\<forall>k. owned_child (link_first q l s) reg (kids(q := l # kids q)) k \<longleftrightarrow> owned_child s reg kids k \<or> k = p)"
proof -
  note parts = proc_parts_of [OF inv]
  define s' where "s' = link_first q l s"
  have kq: "kid_ok s reg q (kids q)" using parts(4) q by (simp add: kids_ok_def)
  then have list: "dll (\<lambda>l. link_previous (child_links s l)) (\<lambda>l. link_next (child_links s l)) (children (procs s q)) (last_or None (kids q)) (kids q)"
    by (simp add: kid_ok_def)
  have fresh: "l \<notin> set (kids q)" using l(3) q(1) by blast
  have head: "children (procs s q) \<noteq> Some l" using dll_head_tail [OF list] fresh by (metis first_or_Some_in)
  note f = link_first_fields [OF head, folded s'_def]
  have fields: "pid (procs s' r) = pid (procs s r)" "parent_pid (procs s' r) = parent_pid (procs s r)"
      "references (procs s' r) = references (procs s r)" "immortal (procs s' r) = immortal (procs s r)"
      "process_status (procs s' r) = process_status (procs s r)" "process_space (procs s' r) = process_space (procs s r)"
      "handles (procs s' r) = handles (procs s r)" "accounting (procs s' r) = accounting (procs s r)" "cwd (procs s' r) = cwd (procs s r)"
      "registry_previous (procs s' r) = registry_previous (procs s r)" "registry_next (procs s' r) = registry_next (procs s r)" for r
    by (simp_all add: f(1))
  have small: "length (kids q) < 4294967295"
    using parts(5) q(1) dll_distinct [OF list] by (intro owned_list_small [of _ "process_heap s"]) (auto simp: memory_ok_def)
  have kid_q: "kid_ok s' reg q (l # kids q)"
  proof -
    have "dll (\<lambda>m. link_previous (child_links s' m)) (\<lambda>m. link_next (child_links s' m)) (Some l) (last_or None (l # kids q)) (l # kids q)"
      using list fresh unfolding f(10,11) by (auto simp: dll_def dls_set_first)
    moreover have "unat (child_count (procs s q) + 1) = Suc (length (kids q))"
      using kq small by (simp add: kid_ok_def unat_add_u32)
    moreover have "link_child (child_links s m) \<noteq> Some p" if "m \<in> set (kids q)" for m using alone q(1) that by (auto simp: owned_child_def)
    then have "inj_on (\<lambda>m. link_child (child_links s m)) (set (l # kids q))"
      using kq child fresh by (auto simp: kid_ok_def inj_on_def)
    ultimately show ?thesis using kq p q(2) parent child unfolding kid_ok_def f(9) fields by (auto simp: f(1))
  qed
  have kid_r: "kid_ok s' reg r (kids r)" if r: "r \<in> set reg" "r \<noteq> q" for r
  proof -
    have kr: "kid_ok s reg r (kids r)" using parts(4) r(1) by (simp add: kids_ok_def)
    have "m \<noteq> l \<and> children (procs s q) \<noteq> Some m" if m: "m \<in> set (kids r)" for m
    proof -
      have "m \<notin> set (kids q)" using parts(4) r q(1) m by (auto simp: kids_ok_def)
      then show ?thesis using l(3) r(1) m dll_head_tail [OF list] by (metis first_or_Some_in)
    qed
    then have out: "link_previous (child_links s' m) = link_previous (child_links s m) \<and> link_next (child_links s' m) = link_next (child_links s m)"
      if "m \<in> set (kids r)" for m
      using that fun_cong [OF f(10), of m] fun_cong [OF f(11), of m] by auto
    have "dll (\<lambda>m. link_previous (child_links s' m)) (\<lambda>m. link_next (child_links s' m)) (children (procs s r)) (last_or None (kids r)) (kids r)"
      using kr dll_cong [of "kids r" "\<lambda>m. link_previous (child_links s' m)" "\<lambda>m. link_previous (child_links s m)"
        "\<lambda>m. link_next (child_links s' m)" "\<lambda>m. link_next (child_links s m)"] out by (simp add: kid_ok_def)
    then show ?thesis using kr r(2) unfolding kid_ok_def f(9) fields by (simp add: f(1))
  qed
  have kids: "kids_ok s' reg (kids(q := l # kids q))"
    using parts(4) l(3) kid_q kid_r unfolding kids_ok_def by auto
  have owned: "owned_child s' reg (kids(q := l # kids q)) k \<longleftrightarrow> owned_child s reg kids k \<or> k = p" for k
    using q(1) child unfolding owned_child_def f(9) by auto
  have refs: "refs_ok ext s' reg (kids(q := l # kids q))"
    using parts(2) alone unfolding refs_ok_def owned fields by auto
  have regs: "reg_ok s' reg" using parts(3) unfolding reg_ok_def fields f(2-4) .
  have "handles_ok s' reg" using parts(6) unfolding handles_ok_def fields f(5) .
  moreover have "spaces_ok c sext s' reg" using parts(7) unfolding spaces_ok_def space_users_def fields f(8) .
  moreover have "memory_ok s' reg (kids(q := l # kids q))" using parts(5) l q(1) unfolding memory_ok_def f(6) by auto
  ultimately have "proc_inv c ext sext s' reg (kids(q := l # kids q))"
    using regs kids refs parts(8,9) unfolding proc_inv_def proc_core_def fields f(7) by simp
  then show ?thesis using owned unfolding s'_def by blast
qed

lemma proc_inv_set_link:
  assumes inv: "proc_inv c ext sext s reg kids" and free: "\<forall>q \<in> set reg. l \<notin> set (kids q)"
  shows "proc_inv c ext sext (set_child_link l f s) reg kids"
proof -
  note parts = proc_parts_of [OF inv]
  have "proc_core c sext (set_child_link l f s) reg kids"
    by (rule proc_core_frame [OF parts(1)]) (use parts(5,8) free in \<open>auto simp: memory_ok_def\<close>)
  moreover have "owned_child (set_child_link l f s) reg kids k = owned_child s reg kids k" for k
    unfolding owned_child_def by (intro bex_cong refl) (use free in auto)
  then have "refs_ok ext (set_child_link l f s) reg kids" using parts(2) unfolding refs_ok_def by simp
  ultimately show ?thesis by (simp add: proc_inv_def)
qed

text \<open>What the parts of a creation keep of every process.\<close>

definition same_names :: "'q process_system \<Rightarrow> 'q process_system \<Rightarrow> bool" where
  "same_names s s' \<longleftrightarrow> (\<forall>r. pid (procs s' r) = pid (procs s r) \<and> parent_pid (procs s' r) = parent_pid (procs s r) \<and>
     cwd (procs s' r) = cwd (procs s r))"

lemma same_names_trans: "same_names s t \<Longrightarrow> same_names t u \<Longrightarrow> same_names s u"
  by (simp add: same_names_def)

lemma kid_ok_head: "kid_ok s reg q ls \<Longrightarrow> l \<notin> set ls \<Longrightarrow> children (procs s q) \<noteq> Some l"
  unfolding kid_ok_def dll_def using first_or_Some_in [of ls l] by auto

lemma add_child_run:
  assumes inv: "proc_inv c ext sext s reg kids" and p: "p \<in> set reg" and q: "q \<in> set reg" "q \<noteq> p"
    and parent: "parent_pid (procs s p) = pid (procs s q)" and e: "ext p \<noteq> 0" "ext p < 4294967294"
  shows "\<exists>ok s' kids'. process_add_child c (Some q) (Some p) s = Some (ok, s') \<and> same_names s s' \<and> proc_inv c ext sext s' reg kids' \<and>
     (\<forall>k. owned_child s' reg kids' k \<longleftrightarrow> owned_child s reg kids k \<or> ok \<and> k = p) \<and>
     (if ok then \<exists>l. kids' = kids(q := l # kids q) \<and> link_child (child_links s' l) = Some p else kids' = kids)"
proof -
  note parts = proc_parts_of [OF inv]
  have ids: "process_id (Some q) t \<noteq> 0 \<and> process_parent_id (Some p) t = process_id (Some q) t" if "same_names s t" for t
    using parts(3) q(1) parent that by (auto simp: reg_ok_def process_id_def process_parent_id_def same_names_def)
  obtain r h where r: "process_kmalloc sizeof_child_link s = Some (r, s\<lparr>process_heap := h\<rparr>)"
      "proc_inv c ext sext (s\<lparr>process_heap := h\<rparr>) reg kids"
      "case r of None \<Rightarrow> True | Some l \<Rightarrow> l \<in> heap_owned h \<and> l \<notin> set reg \<and> (\<forall>q \<in> set reg. l \<notin> set (kids q))"
    using process_kmalloc_run [OF inv, of sizeof_child_link] by blast
  have start: "process_add_child c (Some q) (Some p) s = do { (link, s) \<leftarrow> Some (r, s\<lparr>process_heap := h\<rparr>);
      (case link of None \<Rightarrow> Some (False, s) | Some l \<Rightarrow> do {
         let s = set_child_link l (\<lambda>_. \<lparr>link_child = None, link_previous = None, link_next = None\<rparr>) s;
         let (retained, s) = process_retain (Some p) s;
         if \<not> retained then Some (False, process_kfree link s)
         else do {
           let s = set_child_link l (link_child_update (\<lambda>_. Some p)) s;
           let give_up = (\<lambda>s. do { s \<leftarrow> process_release c (Some p) s; Some (False, process_kfree link s) });
           if process_status (procs s q) = PROCESS_EXITING \<or> process_status (procs s q) = PROCESS_ZOMBIE \<or>
              process_status (procs s q) = PROCESS_DEAD then give_up s
           else do {
             duplicate \<leftarrow> has_child_loop p (children (procs s q)) s;
             if duplicate then give_up s else Some (True, link_first q l s) }}})}"
    using ids [of s] q(2) r(1)
    unfolding process_add_child_def link_first_def Let_def PROCESS_ID_INVALID_def same_names_def by (cases r) simp_all
  show ?thesis
  proof (cases r)
    case None
    then have "process_add_child c (Some q) (Some p) s = Some (False, s\<lparr>process_heap := h\<rparr>)" unfolding start by simp
    then show ?thesis using r(2) by (intro exI [of _ False] exI [of _ "s\<lparr>process_heap := h\<rparr>"] exI [of _ kids]) (simp add: same_names_def owned_child_def)
  next
    case (Some l)
    then have l: "l \<in> heap_owned h" "l \<notin> set reg" "\<forall>q \<in> set reg. l \<notin> set (kids q)" using r(3) by auto
    let ?s2 = "set_child_link l (\<lambda>_. \<lparr>link_child = None, link_previous = None, link_next = None\<rparr>) (s\<lparr>process_heap := h\<rparr>)"
    have inv2: "proc_inv c ext sext ?s2 reg kids" by (rule proc_inv_set_link [OF r(2) l(3)])
    obtain s3 where s3: "process_retain (Some p) ?s2 = (True, s3)" "proc_inv c (ext(p := ext p + 1)) sext s3 reg kids"
        "s3 = (if p = kernel_process then ?s2 else set_process p (references_update (\<lambda>n. n + 1)) ?s2)"
      using process_retain_run [OF inv2 p e(2)] by blast
    let ?s4 = "set_child_link l (link_child_update (\<lambda>_. Some p)) s3"
    have inv4: "proc_inv c (ext(p := ext p + 1)) sext ?s4 reg kids" by (rule proc_inv_set_link [OF s3(2) l(3)])
    have names4: "same_names s ?s4" using s3(3) by (auto simp: same_names_def)
    have heap4: "process_heap ?s4 = h" using s3(3) by simp
    have owned4: "owned_child ?s4 reg kids k = owned_child s reg kids k" for k
      unfolding owned_child_def by (intro bex_cong refl) (use s3(3) l(3) in auto)
    let ?give_up = "do { t \<leftarrow> process_release c (Some p) ?s4; Some (False, process_kfree (Some l) t) }"
    have "\<exists>t. process_release c (Some p) ?s4 = Some t \<and> proc_inv c ((ext(p := ext p + 1))(p := (ext(p := ext p + 1)) p - 1)) sext t reg kids \<and>
        t = (if p = kernel_process then ?s4 else set_process p (references_update (\<lambda>n. n - 1)) ?s4)"
      by (rule process_release_not_last [OF inv4 p]) (use e(1) in auto)
    moreover have "(ext(p := ext p + 1))(p := (ext(p := ext p + 1)) p - 1) = ext" by auto
    ultimately obtain t where t: "process_release c (Some p) ?s4 = Some t" "proc_inv c ext sext t reg kids"
        "t = (if p = kernel_process then ?s4 else set_process p (references_update (\<lambda>n. n - 1)) ?s4)"
      by metis
    have "proc_inv c ext sext (process_kfree (Some l) (set_child_link l id t)) reg kids"
      by (rule proc_inv_free_link [OF t(2) _ l(2,3)]) (use t(3) heap4 l(1) in auto)
    moreover have "set_child_link l id t = t" by (simp add: set_child_link_def)
    moreover have "same_names s (process_kfree (Some l) t)" using t(3) names4 by (auto simp: same_names_def process_kfree_def)
    ultimately have give_up: "?give_up = Some (False, process_kfree (Some l) t)"
        "proc_inv c ext sext (process_kfree (Some l) t) reg kids" "same_names s (process_kfree (Some l) t)"
      using t(1) by simp_all
    have owned_t: "owned_child (process_kfree (Some l) t) reg kids k = owned_child s reg kids k" for k
      unfolding owned4 [symmetric] using t(3) by (simp add: owned_child_def process_kfree_def)
    let ?ending = "process_status (procs ?s4 q) = PROCESS_EXITING \<or> process_status (procs ?s4 q) = PROCESS_ZOMBIE \<or>
        process_status (procs ?s4 q) = PROCESS_DEAD"
    let ?dup = "\<exists>m \<in> set (kids q). link_child (child_links ?s4 m) = Some p \<or> process_id (link_child (child_links ?s4 m)) ?s4 = process_id (Some p) ?s4"
    have "kid_ok ?s4 reg q (kids q)" using proc_parts_of(4) [OF inv4] q(1) by (simp add: kids_ok_def)
    then have dup: "has_child_loop p (children (procs ?s4 q)) ?s4 = Some ?dup"
      using has_child_run [of ?s4 None "kids q" p] by (simp add: kid_ok_def dll_def)
    have run: "process_add_child c (Some q) (Some p) s = (if ?ending \<or> ?dup then ?give_up else Some (True, link_first q l ?s4))"
      unfolding start Some using s3(1) dup by (simp add: Let_def)
    show ?thesis
    proof (cases "?ending \<or> ?dup")
      case True
      then show ?thesis unfolding run if_P [OF True] give_up(1) using give_up(2,3) owned_t
        by (intro exI [of _ False] exI [of _ "process_kfree (Some l) t"] exI [of _ kids]) simp
    next
      case False
      have alone: "\<not> owned_child ?s4 reg kids p"
      proof
        assume "owned_child ?s4 reg kids p"
        then obtain u m where u: "u \<in> set reg" "m \<in> set (kids u)" "link_child (child_links ?s4 m) = Some p" by (auto simp: owned_child_def)
        then have "pid (procs ?s4 u) = parent_pid (procs ?s4 p)" using kid_of [OF proc_parts_of(4) [OF inv4] u(1,2)] by (metis option.inject)
        then have "pid (procs s u) = pid (procs s q)" using parent names4 by (simp add: same_names_def)
        then have "u = q" using u(1) q(1) parts(3) by (auto simp: reg_ok_def inj_on_def)
        then show False using u False by blast
      qed
      have parent4: "parent_pid (procs ?s4 p) = pid (procs ?s4 q)" using parent names4 by (simp add: same_names_def)
      have l4: "l \<in> heap_owned (process_heap ?s4)" using l(1) heap4 by simp
      have finished: "proc_inv c ext sext (link_first q l ?s4) reg (kids(q := l # kids q)) \<and>
          (\<forall>k. owned_child (link_first q l ?s4) reg (kids(q := l # kids q)) k \<longleftrightarrow> owned_child ?s4 reg kids k \<or> k = p)"
        by (rule link_first_run [OF inv4 p q parent4 _ l4 l(2,3) alone]) simp
      have head: "children (procs ?s4 q) \<noteq> Some l"
        using kid_ok_head [OF \<open>kid_ok ?s4 reg q (kids q)\<close>] l(3) q(1) by blast
      have "same_names ?s4 (link_first q l ?s4)" unfolding same_names_def link_first_fields(1) [OF head] by simp
      then have "same_names s (link_first q l ?s4)" using names4 same_names_trans by blast
      moreover have "link_child (child_links (link_first q l ?s4) l) = Some p" unfolding link_first_fields(9) [OF head] by simp
      ultimately show ?thesis unfolding run if_not_P [OF False] using finished unfolding owned4
        by (intro exI [of _ True] exI [of _ "link_first q l ?s4"] exI [of _ "kids(q := l # kids q)"]) auto
    qed
  qed
qed

end
