(* ===== verification/ProcessTree.thy ===== *)
theory ProcessTree
  imports ProcessCreate
begin

text \<open>
  Creation as a whole: it either adds one process, linked to its parent, or leaves every ownership as it was.
\<close>

section \<open>Attaching a new process\<close>

lemma release_only:
  assumes inv: "proc_inv c ext sext s reg kids" and p: "p \<in> set reg" "p \<noteq> kernel_process"
    and e: "ext p = 1" "\<not> owned_child s reg kids p" "kids p = []"
  shows "\<exists>s'. process_release c (Some p) s = Some s' \<and> proc_inv c (ext(p := 0)) sext s' (removeAll p reg) kids"
proof -
  have "unat (references (procs s p)) = 1" using proc_parts_of(2) [OF inv] p e by (auto simp: refs_ok_def)
  then have "references (procs s p) = 1" by (simp add: u32_eq_iff)
  then show ?thesis using process_release_last(2) [OF inv p] e by auto
qed

text \<open>A reference that was taken on a process that somebody holds is never the last one.\<close>

lemma release_held:
  assumes inv: "proc_inv c (ext(q := ext q + 1)) sext s reg kids" and q: "q \<in> set reg"
    and held: "q = kernel_process \<or> ext q \<noteq> 0 \<or> owned_child s reg kids q"
  shows "\<exists>s'. process_release c (Some q) s = Some s' \<and> proc_inv c ext sext s' reg kids \<and>
     s' = (if q = kernel_process then s else set_process q (references_update (\<lambda>n. n - 1)) s)"
proof (cases "q = kernel_process")
  case True
  have "refs_ok ext s reg kids" using proc_parts_of(2) [OF inv] True by (auto simp: refs_ok_def)
  then show ?thesis using True inv q by (auto simp: process_release_def proc_inv_def refs_ok_def)
next
  case False
  have restored: "(ext(q := ext q + 1))(q := (ext(q := ext q + 1)) q - 1) = ext" by auto
  show ?thesis
    using process_release_not_last [OF inv q] held False unfolding restored by auto
qed

lemma held_before:
  assumes "refs_ok ext s reg kids" "q \<in> set reg"
  shows "q = kernel_process \<or> ext q \<noteq> 0 \<or> owned_child s reg kids q"
  using bspec [OF assms(1) [unfolded refs_ok_def] assms(2)] by (cases "owned_child s reg kids q") (auto simp: u32_eq_iff)

lemma proc_inv_cwd:
  assumes inv: "proc_inv c ext sext s reg kids" and path: "cwd_ok path"
  shows "proc_inv c ext sext (set_process p (cwd_update (\<lambda>_. path)) s) reg kids"
proof -
  note parts = proc_parts_of [OF inv]
  have owned: "set reg - {kernel_process} \<union> (\<Union>p \<in> set reg. set (kids p)) \<subseteq> heap_owned (process_heap s)"
    using parts(5) unfolding memory_ok_def by blast
  have "proc_core c sext (set_process p (cwd_update (\<lambda>_. path)) s) reg kids"
    by (rule proc_core_frame [OF parts(1)]) (use parts(5,8) owned path in \<open>simp_all add: memory_ok_def process_key_def\<close>)
  then show ?thesis using parts(2) by (auto simp: proc_inv_def refs_ok_def)
qed

lemma attach_run:
  fixes s :: "'q process_system"
  assumes inv: "proc_inv c ext sext s reg kids" and p: "p \<in> set reg" "p \<noteq> kernel_process"
    and e: "ext p = 1" "\<not> owned_child s reg kids p" "kids p = []"
    and parent: "parent_pid (procs s p) = n" "n \<noteq> 0" and small: "\<forall>r. ext r < 4294967294"
  shows "\<exists>r s'. attach_to_parent c p n s = Some (r, s') \<and>
     (case r of
        None \<Rightarrow> proc_inv c (ext(p := 0)) sext s' (removeAll p reg) kids
      | Some p' \<Rightarrow> p' = p \<and> (\<exists>q \<in> set reg. \<exists>l. q \<noteq> p \<and> pid (procs s q) = n \<and> proc_inv c ext sext s' reg (kids(q := l # kids q)) \<and>
          link_child (child_links s' l) = Some p \<and> cwd (procs s' p) = cwd (procs s q) \<and> pid (procs s' p) = pid (procs s p)))"
proof (cases "\<exists>q \<in> set reg. pid (procs s q) = n")
  case False
  then have "process_acquire_by_id n s = Some (None, s)" using process_acquire_run(1) [OF inv parent(2)] by blast
  moreover obtain s' where "process_release c (Some p) s = Some s'" "proc_inv c (ext(p := 0)) sext s' (removeAll p reg) kids"
    using release_only [OF inv p e] by blast
  ultimately show ?thesis by (auto simp: attach_to_parent_def)
next
  case True
  then obtain q where q: "q \<in> set reg" "pid (procs s q) = n" by blast
  obtain s1 where s1: "process_acquire_by_id n s = Some (Some q, s1)" "proc_inv c (ext(q := ext q + 1)) sext s1 reg kids"
      "s1 = (if q = kernel_process then s else set_process q (references_update (\<lambda>n. n + 1)) s)"
    using process_acquire_run(2) [OF inv parent(2) q] small by blast
  have cwds: "\<forall>r \<in> set reg. cwd_ok (cwd (procs s r))" using proc_parts_of(8) [OF inv] .
  have get: "process_get_cwd (Some q) PROCESS_PATH_MAX s1 = Some (cwd (procs s q))"
    using cwds q(1) s1(3) by (auto simp: process_get_cwd_def PROCESS_PATH_MAX_def cwd_ok_def)
  let ?path = "cwd (procs s q)"
  let ?s2 = "set_process p (cwd_update (\<lambda>_. ?path)) s1"
  have "cwd_ok (cwd (procs s1 p))" using cwds p(1) s1(3) by auto
  then have set: "process_set_cwd (Some p) (Some ?path) s1 = (True, ?s2)" using cwds q(1) by (intro set_cwd_same) auto
  have inv2: "proc_inv c (ext(q := ext q + 1)) sext ?s2 reg kids" using cwds q(1) by (intro proc_inv_cwd [OF s1(2)]) auto
  have names2: "pid (procs ?s2 r) = pid (procs s r) \<and> parent_pid (procs ?s2 r) = parent_pid (procs s r)" for r using s1(3) by auto
  have owned2: "owned_child ?s2 reg kids k = owned_child s reg kids k" for k using s1(3) by simp
  define give_up where "give_up t = do { t \<leftarrow> process_release c (Some q) t; t \<leftarrow> process_release c (Some p) t; Some (None :: u32 option, t) }"
    for t :: "'q process_system"
  have run: "attach_to_parent c p n s = do { (added, t) \<leftarrow> process_add_child c (Some q) (Some p) ?s2;
      if \<not> added then give_up t else do { t \<leftarrow> process_release c (Some q) t; Some (Some p, t) }}"
    using s1(1) get set unfolding give_up_def by (simp add: attach_to_parent_def Let_def)
  have undo: "\<exists>s'. give_up t = Some (None, s') \<and> proc_inv c (ext(p := 0)) sext s' (removeAll p reg) kids"
    if t: "proc_inv c (ext(q := ext q + 1)) sext t reg kids" "\<And>k. owned_child t reg kids k = owned_child s reg kids k" for t
  proof -
    obtain u where u: "process_release c (Some q) t = Some u" "proc_inv c ext sext u reg kids"
        "u = (if q = kernel_process then t else set_process q (references_update (\<lambda>n. n - 1)) t)"
      using release_held [OF t(1) q(1)] held_before [OF proc_parts_of(2) [OF inv] q(1)] t(2) by blast
    have "\<not> owned_child u reg kids p" using u(3) t(2) e(2) by simp
    then show ?thesis using release_only [OF u(2) p e(1) _ e(3)] u(1) by (auto simp: give_up_def)
  qed
  show ?thesis
  proof (cases "q = p")
    case True
    then have "process_add_child c (Some q) (Some p) ?s2 = Some (False, ?s2)" by (simp add: process_add_child_def)
    then show ?thesis using undo [OF inv2 owned2] unfolding run by auto
  next
    case False
    have par: "parent_pid (procs ?s2 p) = pid (procs ?s2 q)" using names2 [of p] names2 [of q] False parent(1) q(2) by simp
    obtain ok t kids' where t: "process_add_child c (Some q) (Some p) ?s2 = Some (ok, t)" "same_names ?s2 t"
        "proc_inv c (ext(q := ext q + 1)) sext t reg kids'"
        "\<forall>k. owned_child t reg kids' k \<longleftrightarrow> owned_child ?s2 reg kids k \<or> ok \<and> k = p"
        "if ok then \<exists>l. kids' = kids(q := l # kids q) \<and> link_child (child_links t l) = Some p else kids' = kids"
      using add_child_run [OF inv2 p(1) q(1) False par] False e(1) by auto
    show ?thesis
    proof (cases ok)
      case no: False
      then have "\<exists>s'. give_up t = Some (None, s') \<and> proc_inv c (ext(p := 0)) sext s' (removeAll p reg) kids"
        using t(3-5) owned2 by (intro undo) auto
      then show ?thesis using t(1) no unfolding run by auto
    next
      case yes: True
      then obtain l where l: "kids' = kids(q := l # kids q)" "link_child (child_links t l) = Some p" using t(5) by auto
      have "q = kernel_process \<or> ext q \<noteq> 0 \<or> owned_child t reg kids' q"
        using held_before [OF proc_parts_of(2) [OF inv] q(1)] t(4) owned2 by blast
      then obtain u where u: "process_release c (Some q) t = Some u" "proc_inv c ext sext u reg kids'"
          "u = (if q = kernel_process then t else set_process q (references_update (\<lambda>n. n - 1)) t)"
        using release_held [OF t(3) q(1)] by blast
      have "cwd (procs u p) = ?path" "pid (procs u p) = pid (procs s p)"
        using u(3) t(2) False names2 by (simp_all add: same_names_def)
      moreover have "link_child (child_links u l) = Some p" using u(3) l(2) by simp
      ultimately show ?thesis using t(1) yes u(1,2) l(1) False q unfolding run by auto
    qed
  qed
qed

lemma kids_cong:
  assumes "\<And>p. p \<in> set reg \<Longrightarrow> kids p = kids' p"
  shows "proc_inv c ext sext s reg kids = proc_inv c ext sext s reg kids'"
  using assms by (simp add: proc_inv_def proc_core_def kids_ok_def memory_ok_def refs_ok_def owned_child_def)

section \<open>Creating a process\<close>

lemma create_run:
  assumes inv: "proc_inv c ext sext s reg kids" and a: "space_free (process_kernel s) a" and id: "next_process_id s \<noteq> 0"
    and small: "\<forall>r. ext r < 4294967294"
  shows "\<exists>r s'. process_create c (Some a) n s = Some (r, s') \<and>
     (case r of
        None \<Rightarrow> proc_inv c ext sext s' reg kids
      | Some p \<Rightarrow> p \<notin> set reg \<and> pid (procs s' p) = next_process_id s \<and>
          (if n = 0 then proc_inv c (ext(p := 1)) sext s' (p # reg) (kids(p := []))
           else \<exists>q \<in> set reg. \<exists>l. pid (procs s q) = n \<and> proc_inv c (ext(p := 1)) sext s' (p # reg) (kids(p := [], q := l # kids q)) \<and>
             link_child (child_links s' l) = Some p \<and> cwd (procs s' p) = cwd (procs s q)))"
proof -
  let ?sext = "sext(a := sext a + 1)"
  obtain k where k: "retain_space c (Some a) s = (True, s\<lparr>process_kernel := k\<rparr>)"
      "proc_inv c ext ?sext (s\<lparr>process_kernel := k\<rparr>) reg kids"
    using retain_space_run [OF inv a] by blast
  let ?s1 = "s\<lparr>process_kernel := k\<rparr>"
  obtain r h where r: "process_kmalloc sizeof_process ?s1 = Some (r, ?s1\<lparr>process_heap := h\<rparr>)"
      "proc_inv c ext ?sext (?s1\<lparr>process_heap := h\<rparr>) reg kids"
      "case r of None \<Rightarrow> True | Some p \<Rightarrow> p \<in> heap_owned h \<and> p \<notin> set reg \<and> (\<forall>q \<in> set reg. p \<notin> set (kids q))"
    using process_kmalloc_run [OF k(2), of sizeof_process] by blast
  let ?s2 = "?s1\<lparr>process_heap := h\<rparr>"
  have init: "process_system_initialized s" using proc_parts_of(9) [OF inv] .
  show ?thesis
  proof (cases r)
    case None
    obtain s' where "release_space c (Some a) ?s2 = (True, s')" "proc_inv c ext sext s' reg kids"
      using release_space_run [OF r(2)] by blast
    then show ?thesis using k(1) r(1) None by (simp add: process_create_def)
  next
    case (Some p)
    then have p: "p \<in> heap_owned h" "p \<notin> set reg" "\<forall>q \<in> set reg. p \<notin> set (kids q)" using r(3) by auto
    let ?s3 = "set_process p (\<lambda>_. new_process n a) ?s2"
    note parts = proc_parts_of [OF r(2)]
    have owned: "set reg - {kernel_process} \<union> (\<Union>p \<in> set reg. set (kids p)) \<subseteq> heap_owned (process_heap ?s2)"
      using parts(5) unfolding memory_ok_def by blast
    have others: "procs ?s3 q = procs ?s2 q" if "q \<in> set reg" for q using that p(2) by auto
    have "proc_core c ?sext ?s3 reg kids"
      by (rule proc_core_frame [OF parts(1)]) (use parts(5,8) owned others in \<open>simp_all add: memory_ok_def\<close>)
    then have inv3: "proc_inv c ext ?sext ?s3 reg kids" using parts(2) others by (simp add: proc_inv_def refs_ok_def)
    have id3: "next_process_id ?s3 = next_process_id s" by simp
    have inv4: "proc_inv c (ext(p := 1)) sext (register_process p ?s3) (p # reg) (kids(p := []))"
      by (rule register_run [OF inv3 _ _ p(2,3)]) (use p(1) id in simp_all)
    have head: "process_registry_head ?s3 \<noteq> Some p"
      using parts(3) p(2) first_or_Some_in [of reg p] by (auto simp: reg_ok_def dll_def)
    note f = register_fields [of ?s3 p n a, OF _ head]
    let ?s4 = "register_process p ?s3"
    have own4: "pid (procs ?s4 p) = next_process_id s" "parent_pid (procs ?s4 p) = n"
      using f(9) by auto
    have old4: "pid (procs ?s4 q) = pid (procs s q) \<and> cwd (procs ?s4 q) = cwd (procs s q)" if "q \<in> set reg" for q
    proof -
      have "q \<noteq> p" using that p(2) by blast
      then obtain x where "procs ?s4 q = (procs ?s3 q)\<lparr>registry_previous := x\<rparr>" using f(10) [of q] by auto
      then show ?thesis using \<open>q \<noteq> p\<close> by simp
    qed
    have run: "process_create c (Some a) n s = (if n \<noteq> 0 then attach_to_parent c p n ?s4 else Some (Some p, ?s4))"
      using k(1) r(1) Some init id by (simp add: process_create_def new_process_def PROCESS_ID_INVALID_def Let_def)
    have not_kernel: "p \<noteq> kernel_process" using proc_parts_of(10) [OF inv] p(2) by blast
    show ?thesis
    proof (cases "n = 0")
      case True
      then show ?thesis using run inv4 own4 p(2) by simp
    next
      case False
      have unowned: "\<not> owned_child ?s4 (p # reg) (kids(p := [])) p"
      proof
        assume "owned_child ?s4 (p # reg) (kids(p := [])) p"
        then have "unat (references (procs ?s4 p)) = 2"
          using proc_parts_of(2) [OF inv4] not_kernel by (simp add: refs_ok_def)
        moreover have "references (procs ?s4 p) = 1" using f(9) by auto
        ultimately show False by simp
      qed
      have ex: "\<exists>r' s'. attach_to_parent c p n ?s4 = Some (r', s') \<and>
         (case r' of
            None \<Rightarrow> proc_inv c ((ext(p := 1))(p := 0)) sext s' (removeAll p (p # reg)) (kids(p := []))
          | Some p' \<Rightarrow> p' = p \<and> (\<exists>q \<in> set (p # reg). \<exists>l. q \<noteq> p \<and> pid (procs ?s4 q) = n \<and>
              proc_inv c (ext(p := 1)) sext s' (p # reg) ((kids(p := []))(q := l # (kids(p := [])) q)) \<and>
              link_child (child_links s' l) = Some p \<and> cwd (procs s' p) = cwd (procs ?s4 q) \<and> pid (procs s' p) = pid (procs ?s4 p)))"
        by (rule attach_run [OF inv4]) (use not_kernel unowned own4(2) False small in simp_all)
      then obtain r' s' where t: "attach_to_parent c p n ?s4 = Some (r', s')"
          "case r' of
            None \<Rightarrow> proc_inv c ((ext(p := 1))(p := 0)) sext s' (removeAll p (p # reg)) (kids(p := []))
          | Some p' \<Rightarrow> p' = p \<and> (\<exists>q \<in> set (p # reg). \<exists>l. q \<noteq> p \<and> pid (procs ?s4 q) = n \<and>
              proc_inv c (ext(p := 1)) sext s' (p # reg) ((kids(p := []))(q := l # (kids(p := [])) q)) \<and>
              link_child (child_links s' l) = Some p \<and> cwd (procs s' p) = cwd (procs ?s4 q) \<and> pid (procs s' p) = pid (procs ?s4 p))"
        by blast
      have run': "process_create c (Some a) n s = Some (r', s')" using run False t(1) by simp
      show ?thesis
      proof (cases r')
        case None
        have "removeAll p (p # reg) = reg" using p(2) by simp
        then have "proc_inv c ((ext(p := 1))(p := 0)) sext s' reg (kids(p := []))" using t(2) None by simp
        then have "proc_inv c ext sext s' reg (kids(p := []))" using p(2) by (subst proc_inv_cong [of reg _ "(ext(p := 1))(p := 0)"]) auto
        then have "proc_inv c ext sext s' reg kids" using p(2) by (subst kids_cong [of reg _ "kids(p := [])"]) auto
        then show ?thesis using run' None by simp
      next
        case (Some p')
        then obtain q l where q: "q \<in> set reg" "q \<noteq> p" "pid (procs ?s4 q) = n"
            "proc_inv c (ext(p := 1)) sext s' (p # reg) (kids(p := [], q := l # kids q))"
            "link_child (child_links s' l) = Some p" "cwd (procs s' p) = cwd (procs ?s4 q)" "pid (procs s' p) = pid (procs ?s4 p)" "p' = p"
          using t(2) by auto
        have "pid (procs s q) = n" using old4 [OF q(1)] q(3) by (rule trans [OF sym, OF conjunct1])
        moreover have "cwd (procs s' p) = cwd (procs s q)" using trans [OF q(6) conjunct2 [OF old4 [OF q(1)]]] .
        moreover have "pid (procs s' p) = next_process_id s" using trans [OF q(7) own4(1)] .
        ultimately show ?thesis using run' Some q(1,4,5,8) p(2) False by auto
      qed
    qed
  qed
qed


end
