(* ===== verification/ProcessCalls.thy ===== *)
theory ProcessCalls
  imports ProcessTree
begin

text \<open>
  The calls of the process system as steps of one relation, and the ownership of processes as its invariant.
\<close>

section \<open>Handles\<close>

lemma count_set_bit:
  "i < length hs \<Longrightarrow> \<not> hs ! i \<Longrightarrow> length (filter id (hs[i := True])) = Suc (length (filter id hs))"
  "i < length hs \<Longrightarrow> hs ! i \<Longrightarrow> length (filter id hs) = Suc (length (filter id (hs[i := False])))"
  by (induction hs arbitrary: i; case_tac i; simp)+

lemma free_handle_run:
  "free_handle_loop hs i = Some j \<Longrightarrow> i \<le> j \<and> j < 64 \<and> \<not> hs ! j"
  by (induction hs i rule: free_handle_loop.induct, subst (asm) free_handle_loop.simps)
    (auto simp: PROCESS_MAX_HANDLES_def split: if_splits)

text \<open>A change of the handles of one process, and of the count of all, by the same amount.\<close>

lemma proc_inv_handles:
  fixes s :: "'q process_system"
  assumes inv: "proc_inv c ext sext s reg kids" and p: "p \<in> set reg"
    and handles: "length hs = 64" "unat n = length (filter id hs)"
    and live: "unat v + unat (current_handles (accounting (procs s p))) = unat (live_handles s) + unat n"
    and acc: "current_handles acc = n"
  shows "proc_inv c ext sext ((set_process p (\<lambda>pr. pr\<lparr>handles := hs, accounting := acc\<rparr>) s)\<lparr>live_handles := v\<rparr>) reg kids"
proof -
  note parts = proc_parts_of [OF inv]
  define s' where "s' = (set_process p (\<lambda>pr. pr\<lparr>handles := hs, accounting := acc\<rparr>) s)\<lparr>live_handles := v\<rparr>"
  have fields: "pid (procs s' r) = pid (procs s r)" "parent_pid (procs s' r) = parent_pid (procs s r)"
      "references (procs s' r) = references (procs s r)" "immortal (procs s' r) = immortal (procs s r)"
      "process_status (procs s' r) = process_status (procs s r)" "process_space (procs s' r) = process_space (procs s r)"
      "children (procs s' r) = children (procs s r)" "child_count (procs s' r) = child_count (procs s r)" "cwd (procs s' r) = cwd (procs s r)"
      "registry_previous (procs s' r) = registry_previous (procs s r)" "registry_next (procs s' r) = registry_next (procs s r)" for r
    by (simp_all add: s'_def)
  have rest: "child_links s' = child_links s" "process_registry_head s' = process_registry_head s" "next_process_id s' = next_process_id s"
      "live_processes s' = live_processes s" "process_system_initialized s' = process_system_initialized s"
      "process_heap s' = process_heap s" "process_kernel s' = process_kernel s"
    by (simp_all add: s'_def)
  let ?n = "\<lambda>s q. unat (current_handles (accounting (procs s q)))"
  have "(\<Sum>q \<in> set reg. ?n s' q) = ?n s' p + (\<Sum>q \<in> set reg - {p}. ?n s' q)" using p by (simp add: sum.remove)
  also have "(\<Sum>q \<in> set reg - {p}. ?n s' q) = (\<Sum>q \<in> set reg - {p}. ?n s q)" by (rule sum.cong) (auto simp: s'_def)
  finally have sums: "(\<Sum>q \<in> set reg. ?n s' q) + ?n s p = (\<Sum>q \<in> set reg. ?n s q) + ?n s' p"
    using p by (simp add: sum.remove [of "set reg" p "?n s"])
  have "?n s' p = unat n" "unat (live_handles s') = unat v" using acc by (simp_all add: s'_def)
  moreover have "unat (live_handles s) = (\<Sum>q \<in> set reg. ?n s q)" using parts(6) by (simp add: handles_ok_def)
  ultimately have "unat (live_handles s') = (\<Sum>q \<in> set reg. ?n s' q)" using sums live by linarith
  moreover have "\<forall>q \<in> set reg. length (handles (procs s' q)) = 64 \<and> ?n s' q = length (filter id (handles (procs s' q)))"
    using parts(6) handles acc by (simp add: handles_ok_def s'_def)
  ultimately have "handles_ok s' reg" unfolding handles_ok_def by blast
  moreover have "refs_ok ext s' reg kids" "reg_ok s' reg" "kids_ok s' reg kids" "memory_ok s' reg kids" "spaces_ok c sext s' reg"
    using parts(2-5,7) unfolding reg_ok_def kids_ok_def kid_ok_def memory_ok_def spaces_ok_def space_users_def refs_ok_def owned_child_def fields rest .
  ultimately show ?thesis
    using parts(8,9) unfolding s'_def [symmetric] proc_inv_def proc_core_def fields rest by blast
qed

lemma handle_open_run:
  assumes inv: "proc_inv c ext sext s reg kids" and p: "p \<in> set reg" and room: "live_handles s \<noteq> SIZE_MAX"
  shows "proc_inv c ext sext (snd (process_handle_open (Some p) s)) reg kids"
proof (cases "process_status (procs s p) = PROCESS_DEAD \<or> process_status (procs s p) = PROCESS_ZOMBIE \<or>
    free_handle_loop (handles (procs s p)) PROCESS_STANDARD_HANDLE_COUNT = None")
  case True
  then show ?thesis using inv by (auto simp: process_handle_open_def)
next
  case False
  then obtain i where i: "free_handle_loop (handles (procs s p)) PROCESS_STANDARD_HANDLE_COUNT = Some i" by auto
  note parts = proc_parts_of [OF inv]
  let ?acc = "accounting (procs s p)" and ?hs = "handles (procs s p)"
  have h: "length ?hs = 64" "unat (current_handles ?acc) = length (filter id ?hs)" using parts(6) p by (auto simp: handles_ok_def)
  have j: "i < 64" "\<not> ?hs ! i" using free_handle_run [OF i] by auto
  have live: "unat (live_handles s + 1) = Suc (unat (live_handles s))" by (rule unat_inc_not_max [OF room])
  have "length (filter id ?hs) \<le> 64" using length_filter_le [of id ?hs] h(1) by simp
  then have n: "unat (current_handles ?acc + 1) = Suc (unat (current_handles ?acc))" using h(2) by (intro unat_inc_not_max) (auto simp: SIZE_MAX_def)
  define acc where "acc = (let a = current_handles_update (\<lambda>n. n + 1) ?acc
    in if current_handles a > peak_handles a then a\<lparr>peak_handles := current_handles a\<rparr> else a)"
  have acc: "current_handles acc = current_handles ?acc + 1" by (simp add: acc_def Let_def)
  have "snd (process_handle_open (Some p) s) = (set_process p (\<lambda>pr. pr\<lparr>handles := ?hs[i := True], accounting := acc\<rparr>) s)\<lparr>live_handles := live_handles s + 1\<rparr>"
    using False i by (cases "procs s p") (simp add: process_handle_open_def Let_def acc_def set_process_def)
  then show ?thesis
    using proc_inv_handles [OF inv p _ _ _ acc, of "?hs[i := True]" "live_handles s + 1"] h j live n count_set_bit(1) [of i ?hs] by simp
qed

lemma handle_close_run:
  assumes inv: "proc_inv c ext sext s reg kids" and p: "p \<in> set reg"
  shows "\<exists>ok s'. process_handle_close (Some p) n s = Some (ok, s') \<and> proc_inv c ext sext s' reg kids"
proof (cases "n = PROCESS_HANDLE_INVALID \<or> unat n > PROCESS_MAX_HANDLES \<or> \<not> handles (procs s p) ! unat (n - 1)")
  case True
  then show ?thesis using inv by (auto simp: process_handle_close_def Let_def)
next
  case False
  note parts = proc_parts_of [OF inv]
  let ?acc = "accounting (procs s p)" and ?hs = "handles (procs s p)" and ?i = "unat (n - 1)"
  have h: "length ?hs = 64" "unat (current_handles ?acc) = length (filter id ?hs)" using parts(6) p by (auto simp: handles_ok_def)
  have i: "?i < 64" "?hs ! ?i" using False unat_dec_u32 [of n] by (auto simp: PROCESS_HANDLE_INVALID_def PROCESS_MAX_HANDLES_def)
  have bits: "length (filter id ?hs) = Suc (length (filter id (?hs[?i := False])))" using h(1) i by (intro count_set_bit(2)) auto
  then have pos: "current_handles ?acc \<noteq> 0" using h(2) by auto
  then have live: "live_handles s \<noteq> 0" using current_handles_le [OF parts(6) p] by (auto simp: u32_eq_iff)
  have dec: "unat (current_handles ?acc) = Suc (unat (current_handles ?acc - 1))" "unat (live_handles s) = Suc (unat (live_handles s - 1))"
    using unat_dec_u32 [OF pos] unat_dec_u32 [OF live] by simp_all
  have "process_handle_close (Some p) n s = Some (True, (set_process p (\<lambda>pr. pr\<lparr>handles := ?hs[?i := False],
      accounting := current_handles_update (\<lambda>n. n - 1) ?acc\<rparr>) s)\<lparr>live_handles := live_handles s - 1\<rparr>)"
    using False pos live by (cases "procs s p") (simp add: process_handle_close_def Let_def set_process_def)
  moreover have "proc_inv c ext sext ((set_process p (\<lambda>pr. pr\<lparr>handles := ?hs[?i := False],
      accounting := current_handles_update (\<lambda>n. n - 1) ?acc\<rparr>) s)\<lparr>live_handles := live_handles s - 1\<rparr>) reg kids"
    by (rule proc_inv_handles [OF inv p]) (use h bits dec in simp_all)
  ultimately show ?thesis by blast
qed

section \<open>Threads, exit status and working directory\<close>

text \<open>Calls that change only fields outside of the ownership of one process.\<close>

lemma proc_inv_quiet:
  assumes inv: "proc_inv c ext sext s reg kids" and key: "process_key (f (procs s p)) = process_key (procs s p)"
    and same: "cwd (f (procs s p)) = cwd (procs s p)" "references (f (procs s p)) = references (procs s p)"
      "immortal (f (procs s p)) = immortal (procs s p)" "process_status (f (procs s p)) \<noteq> PROCESS_DEAD"
  shows "proc_inv c ext sext (set_process p f s) reg kids"
proof -
  note parts = proc_parts_of [OF inv]
  have owned: "set reg - {kernel_process} \<union> (\<Union>p \<in> set reg. set (kids p)) \<subseteq> heap_owned (process_heap s)"
    using parts(5) unfolding memory_ok_def by blast
  have "proc_core c sext (set_process p f s) reg kids"
    by (rule proc_core_frame [OF parts(1)]) (use parts(5,8) owned key same in \<open>simp_all add: memory_ok_def\<close>)
  moreover have "refs_ok ext (set_process p f s) reg kids"
    using parts(2) same unfolding refs_ok_def owned_child_same by simp
  ultimately show ?thesis by (simp add: proc_inv_def)
qed

lemma thread_attach_run:
  assumes inv: "proc_inv c ext sext s reg kids" and p: "p \<in> set reg"
  shows "proc_inv c ext sext (snd (process_thread_attach (Some p) s)) reg kids"
proof (cases "process_status (procs s p) \<noteq> PROCESS_NEW \<and> process_status (procs s p) \<noteq> PROCESS_RUNNING")
  case True
  then show ?thesis using inv by (simp add: process_thread_attach_def)
next
  case False
  let ?n = "live_threads (procs s p) + 1"
  have "snd (process_thread_attach (Some p) s) = set_process p (\<lambda>pr. pr\<lparr>live_threads := ?n, process_status := PROCESS_RUNNING,
      accounting := (if ?n > peak_threads (accounting pr) then (accounting pr)\<lparr>peak_threads := ?n\<rparr> else accounting pr)\<rparr>) s"
    using False by (cases "procs s p") (auto simp: process_thread_attach_def Let_def set_process_def)
  then show ?thesis using proc_inv_quiet [OF inv] by (simp add: process_key_def)
qed

lemma thread_detach_run:
  assumes inv: "proc_inv c ext sext s reg kids" and p: "p \<in> set reg" and threads: "live_threads (procs s p) \<noteq> 0"
  shows "\<exists>s'. process_thread_detach (Some p) s = Some s' \<and> proc_inv c ext sext s' reg kids \<and>
     live_threads (procs s' p) = live_threads (procs s p) - 1 \<and>
     (live_threads (procs s p) = 1 \<and> process_status (procs s p) \<in> {PROCESS_RUNNING, PROCESS_EXITING} \<longrightarrow>
        process_status (procs s' p) = PROCESS_ZOMBIE \<and> termination_reason (procs s' p) \<noteq> PROCESS_TERMINATION_NONE)"
proof -
  have dead: "process_status (procs s p) \<noteq> PROCESS_DEAD" using proc_parts_of(2) [OF inv] p by (auto simp: refs_ok_def)
  define ended where "ended \<longleftrightarrow> live_threads (procs s p) = 1 \<and>
    (process_status (procs s p) = PROCESS_RUNNING \<or> process_status (procs s p) = PROCESS_EXITING)"
  define f where "f pr = pr\<lparr>live_threads := live_threads (procs s p) - 1,
      process_status := (if ended then PROCESS_ZOMBIE else process_status (procs s p)),
      termination_reason := (if ended \<and> termination_reason (procs s p) = PROCESS_TERMINATION_NONE
        then PROCESS_TERMINATION_NORMAL else termination_reason (procs s p))\<rparr>" for pr :: process_t
  have one: "live_threads (procs s p) - 1 = 0 \<longleftrightarrow> live_threads (procs s p) = 1" by auto
  have "process_thread_detach (Some p) s = Some (set_process p f s)"
    using threads unfolding ended_def f_def
    by (cases "procs s p") (auto simp: process_thread_detach_def Let_def set_process_def)
  moreover have "proc_inv c ext sext (set_process p f s) reg kids"
    by (rule proc_inv_quiet [OF inv]) (use dead in \<open>simp_all add: f_def process_key_def\<close>)
  ultimately show ?thesis by (auto simp: f_def ended_def)
qed

section \<open>The steps\<close>

text \<open>\<open>ext p\<close> is the number of references that the callers hold on \<open>p\<close>; a caller uses only the processes it holds, and
  gives up only references it has. The kernel process is always there.\<close>

definition held :: "(u32 \<Rightarrow> nat) \<Rightarrow> u32 \<Rightarrow> bool" where
  "held ext p \<longleftrightarrow> p = kernel_process \<or> ext p \<noteq> 0"

inductive process_step :: "cpu_id \<Rightarrow> (u32 \<Rightarrow> nat) \<times> 'q process_system \<Rightarrow> (u32 \<Rightarrow> nat) \<times> 'q process_system \<Rightarrow> bool" for c where
  create: "space_free (process_kernel s) a \<Longrightarrow> next_process_id s \<noteq> 0 \<Longrightarrow> \<forall>r. ext r < 4294967294 \<Longrightarrow>
     process_create c (Some a) n s = Some (r, s') \<Longrightarrow> process_step c (ext, s) (case r of None \<Rightarrow> ext | Some p \<Rightarrow> ext(p := 1), s')"
| acquire: "\<forall>r. ext r < 4294967294 \<Longrightarrow> n \<noteq> 0 \<Longrightarrow> process_acquire_by_id n s = Some (r, s') \<Longrightarrow>
     process_step c (ext, s) (case r of None \<Rightarrow> ext | Some p \<Rightarrow> ext(p := ext p + 1), s')"
| release: "ext p \<noteq> 0 \<Longrightarrow> process_release c (Some p) s = Some s' \<Longrightarrow> process_step c (ext, s) (ext(p := ext p - 1), s')"
| waitpid: "held ext p \<Longrightarrow> n \<noteq> 0 \<Longrightarrow> process_waitpid c (Some p) n s = Some (r, s') \<Longrightarrow> process_step c (ext, s) (ext, s')"
| attach: "held ext p \<Longrightarrow> process_step c (ext, s) (ext, snd (process_thread_attach (Some p) s))"
| detach: "held ext p \<Longrightarrow> process_thread_detach (Some p) s = Some s' \<Longrightarrow> process_step c (ext, s) (ext, s')"
| handle_open: "held ext p \<Longrightarrow> live_handles s \<noteq> SIZE_MAX \<Longrightarrow> process_step c (ext, s) (ext, snd (process_handle_open (Some p) s))"
| handle_close: "held ext p \<Longrightarrow> process_handle_close (Some p) n s = Some (r, s') \<Longrightarrow> process_step c (ext, s) (ext, s')"
| exit_status: "held ext p \<Longrightarrow> process_step c (ext, s) (ext, snd (process_set_exit_status (Some p) v s))"
| runtime: "held ext p \<Longrightarrow> process_step c (ext, s) (ext, process_account_runtime (Some p) ticks s)"
| set_cwd: "held ext p \<Longrightarrow> process_set_cwd (Some p) path s = (r, s') \<Longrightarrow> process_step c (ext, s) (ext, s')"

definition owners_ok :: "cpu_id \<Rightarrow> (nat \<Rightarrow> nat) \<Rightarrow> (u32 \<Rightarrow> nat) \<times> 'q process_system \<Rightarrow> bool" where
  "owners_ok c sext es \<longleftrightarrow> (\<exists>reg kids. proc_inv c (fst es) sext (snd es) reg kids \<and> (\<forall>p. fst es p \<noteq> 0 \<longrightarrow> p \<in> set reg))"

lemma owners_okI: "proc_inv c ext sext s reg kids \<Longrightarrow> (\<And>p. ext p \<noteq> 0 \<Longrightarrow> p \<in> set reg) \<Longrightarrow> owners_ok c sext (ext, s)"
  by (auto simp: owners_ok_def)

lemma references_of:
  assumes "proc_inv c ext sext s reg kids" "p \<in> set reg" "p \<noteq> kernel_process"
  shows "unat (references (procs s p)) = ext p + of_bool (owned_child s reg kids p)"
  using bspec [OF proc_parts_of(2) [OF assms(1), unfolded refs_ok_def] assms(2)] assms(3) by blast

lemma release_step:
  assumes inv: "proc_inv c ext sext s reg kids" and known: "\<And>p. ext p \<noteq> 0 \<Longrightarrow> p \<in> set reg"
    and e: "ext p \<noteq> 0" and run: "process_release c (Some p) s = Some s'"
  shows "owners_ok c sext (ext(p := ext p - 1), s')"
proof -
  have p: "p \<in> set reg" by (rule known [OF e])
  have ok: "p = kernel_process \<or> references (procs s p) \<noteq> 1 \<or> kids p = []"
    using process_release_run(1) [OF inv p e] run by auto
  let ?reg = "if p \<noteq> kernel_process \<and> references (procs s p) = 1 then removeAll p reg else reg"
  have inv': "proc_inv c (ext(p := ext p - 1)) sext s' ?reg kids" using process_release_run(2) [OF inv p e ok] run by auto
  have "ext p = 1" if last: "p \<noteq> kernel_process" "references (procs s p) = 1"
  proof -
    have "1 = ext p + of_bool (owned_child s reg kids p)" using references_of [OF inv p last(1)] unfolding last(2) by simp
    then show ?thesis using e by (cases "owned_child s reg kids p") simp_all
  qed
  then show ?thesis by (intro owners_okI [OF inv']) (use known in \<open>auto split: if_splits\<close>)
qed

lemma waitpid_step:
  assumes inv: "proc_inv c ext sext s reg kids" and known: "\<And>p. ext p \<noteq> 0 \<Longrightarrow> p \<in> set reg"
    and p: "p \<in> set reg" and n: "n \<noteq> 0" and run: "process_waitpid c (Some p) n s = Some (r, s')"
  shows "owners_ok c sext (ext, s')"
proof (cases "\<exists>l \<in> set (kids p). \<exists>k. link_child (child_links s l) = Some k \<and> pid (procs s k) = n \<and> process_status (procs s k) = PROCESS_ZOMBIE")
  case False
  then have "process_waitpid c (Some p) n s = Some (None, s)" by (intro waitpid_nothing [OF inv p]) blast
  then show ?thesis using run known by (auto intro: owners_okI [OF inv])
next
  case True
  then obtain l k where l: "l \<in> set (kids p)" "link_child (child_links s l) = Some k" "pid (procs s k) = n"
      "process_status (procs s k) = PROCESS_ZOMBIE" by blast
  have k: "k \<in> set reg" using kid_of [OF proc_parts_of(4) [OF inv] p l(1)] l(2) by (metis option.inject)
  let ?reg = "if k \<noteq> kernel_process \<and> references (procs s k) = 1 then removeAll k reg else reg"
  have inv': "proc_inv c ext sext s' ?reg (kids(p := removeAll l (kids p)))"
    using waitpid_zombie [OF inv p _ l(1,2,4)] l(3) n run by (auto split: if_splits)
  have "ext k = 0" if last: "k \<noteq> kernel_process" "references (procs s k) = 1"
  proof -
    have "owned_child s reg kids k" using p l(1,2) by (auto simp: owned_child_def)
    then show ?thesis using references_of [OF inv k last(1)] unfolding last(2) by simp
  qed
  then show ?thesis by (intro owners_okI [OF inv']) (use known in \<open>auto split: if_splits\<close>)
qed

lemma set_cwd_run:
  assumes inv: "proc_inv c ext sext s reg kids" and p: "p \<in> set reg" and run: "process_set_cwd (Some p) path s = (r, s')"
  shows "proc_inv c ext sext s' reg kids"
proof (cases "s' = s")
  case False
  have cwd: "cwd_ok (cwd (procs s p))" using proc_parts_of(8) [OF inv] p by blast
  obtain q t where t: "path = Some q" "q \<noteq> []" "process_resolve_path (Some p) (Some q) PROCESS_PATH_MAX s = Some t"
      "s' = set_process p (cwd_update (\<lambda>_. t)) s"
    using run False by (auto simp: process_set_cwd_def split: option.splits if_splits)
  have "cwd_ok t" by (rule resolve_ok [OF cwd t(2) t(3)])
  then show ?thesis using proc_inv_cwd [OF inv] t(4) by simp
qed (use inv in simp)

lemma create_step:
  assumes inv: "proc_inv c ext sext s reg kids" and known: "\<And>p. ext p \<noteq> 0 \<Longrightarrow> p \<in> set reg"
    and a: "space_free (process_kernel s) a" "next_process_id s \<noteq> 0" "\<forall>r. ext r < 4294967294"
    and run: "process_create c (Some a) n s = Some (r, s')"
  shows "owners_ok c sext (case r of None \<Rightarrow> ext | Some p \<Rightarrow> ext(p := 1), s')"
proof (cases r)
  case None
  then have "proc_inv c ext sext s' reg kids" using create_run [OF inv a, of n] run by simp
  then show ?thesis using None known by (simp add: owners_okI)
next
  case (Some p)
  then have "\<exists>kids'. proc_inv c (ext(p := 1)) sext s' (p # reg) kids'" using create_run [OF inv a, of n] run by (auto split: if_splits)
  then show ?thesis using Some known by (auto intro!: owners_okI split: if_splits)
qed

lemma acquire_step:
  assumes inv: "proc_inv c ext sext s reg kids" and known: "\<And>p. ext p \<noteq> 0 \<Longrightarrow> p \<in> set reg"
    and n: "n \<noteq> 0" "\<forall>r. ext r < 4294967294" and run: "process_acquire_by_id n s = Some (r, s')"
  shows "owners_ok c sext (case r of None \<Rightarrow> ext | Some p \<Rightarrow> ext(p := ext p + 1), s')"
proof (cases "\<exists>p \<in> set reg. pid (procs s p) = n")
  case True
  then obtain p where p: "p \<in> set reg" "pid (procs s p) = n" by blast
  then have "r = Some p" "proc_inv c (ext(p := ext p + 1)) sext s' reg kids"
    using process_acquire_run(2) [OF inv n(1) p] n(2) run by auto
  then show ?thesis using known p(1) by (auto intro!: owners_okI split: if_splits)
next
  case False
  then have "r = None" "s' = s" using process_acquire_run(1) [OF inv n(1)] run by auto
  then show ?thesis using known inv by (simp add: owners_okI)
qed

lemma process_step_owners:
  assumes "process_step c x y" "owners_ok c sext x"
  shows "owners_ok c sext y"
proof -
  obtain ext s where x: "x = (ext, s)" by (cases x)
  obtain reg kids where inv: "proc_inv c ext sext s reg kids" and known: "\<And>p. ext p \<noteq> 0 \<Longrightarrow> p \<in> set reg"
    using assms(2) x by (auto simp: owners_ok_def)
  have in_reg: "p \<in> set reg" if "held ext p" for p using that known proc_parts_of(10) [OF inv] by (auto simp: held_def)
  have dead: "process_status (procs s p) \<noteq> PROCESS_DEAD" if "held ext p" for p
    using proc_parts_of(2) [OF inv] in_reg [OF that] by (simp add: refs_ok_def)
  have keep: "owners_ok c sext (ext, t)" if "proc_inv c ext sext t reg kids" for t by (rule owners_okI [OF that known])
  show ?thesis
    using assms(1) unfolding x
  proof (cases rule: process_step.cases)
    case (create a n r s')
    then show ?thesis using create_step [OF inv known] by simp
  next
    case (acquire n r s')
    then show ?thesis using acquire_step [OF inv known] by simp
  next
    case (release p s')
    then show ?thesis using release_step [OF inv known] by simp
  next
    case (waitpid p n r s')
    then show ?thesis using waitpid_step [OF inv known in_reg] by simp
  next
    case (attach p)
    then show ?thesis using keep [OF thread_attach_run [OF inv in_reg]] by simp
  next
    case (detach p s')
    have "live_threads (procs s p) \<noteq> 0" using detach(3) by (auto simp: process_thread_detach_def)
    then have "proc_inv c ext sext s' reg kids" using thread_detach_run [OF inv in_reg [OF detach(2)]] detach(3) by auto
    then show ?thesis using detach(1) keep by blast
  next
    case (handle_open p)
    then show ?thesis using keep [OF handle_open_run [OF inv in_reg]] by simp
  next
    case (handle_close p n r s')
    then have "proc_inv c ext sext s' reg kids" using handle_close_run [OF inv in_reg [OF handle_close(2)], of n] by auto
    then show ?thesis using handle_close(1) keep by blast
  next
    case (exit_status p v)
    have "snd (process_set_exit_status (Some p) v s) =
        set_process p (\<lambda>pr. pr\<lparr>exit_status := v, termination_reason := PROCESS_TERMINATION_NORMAL\<rparr>) s"
      using dead [OF exit_status(2)] by (cases "procs s p") (simp add: process_set_exit_status_def Let_def set_process_def)
    moreover have "proc_inv c ext sext \<dots> reg kids"
      by (rule proc_inv_quiet [OF inv]) (use dead [OF exit_status(2)] in \<open>simp_all add: process_key_def\<close>)
    ultimately have "owners_ok c sext (ext, snd (process_set_exit_status (Some p) v s))" using keep by simp
    then show ?thesis using exit_status(1) by simp
  next
    case (runtime p ticks)
    have "proc_inv c ext sext (process_account_runtime (Some p) ticks s) reg kids"
      using inv proc_inv_quiet [OF inv, of "accounting_update (process_ticks_update (\<lambda>n. n + ticks))" p] dead [OF runtime(2)]
      by (simp add: process_account_runtime_def process_key_def)
    then show ?thesis using runtime(1) keep by blast
  next
    case (set_cwd p path r s')
    have "proc_inv c ext sext s' reg kids" using set_cwd_run [OF inv in_reg [OF set_cwd(2)]] set_cwd(3) by blast
    then show ?thesis using set_cwd(1) keep by blast
  qed
qed

end
