(* ===== verification/ProcessProps.thy ===== *)
theory ProcessProps
  imports ProcessCalls HeapProps Sample
begin

text \<open>
  The boot of the process system, its reachable states, and the examples.
\<close>

section \<open>Boot\<close>

definition process_power_on :: "cpu_id \<Rightarrow> (nat \<Rightarrow> nat) \<Rightarrow> 'q process_system \<Rightarrow> bool" where
  "process_power_on c sext s \<longleftrightarrow>
     \<not> process_system_initialized s \<and> process_registry_head s = None \<and> heap_good (process_heap s) \<and>
     (let k = process_kernel s
      in address_space_initialized k \<and> kernel_directory_physical k \<noteq> 0 \<and> paging_current_directory c k = kernel_directory_physical k \<and>
         kernel_space (address_spaces k kernel_address_space) \<and>
         (\<forall>a. \<not> kernel_space (address_spaces k a) \<longrightarrow> unat (reference_count (address_spaces k a)) = sext a \<and>
            (reference_count (address_spaces k a) \<noteq> 0 \<longrightarrow> page_directory (address_spaces k a) \<noteq> 0 \<and>
               page_directory (address_spaces k a) \<noteq> kernel_directory_physical k)))"

lemma process_boot:
  assumes on: "process_power_on c sext s"
  shows "\<exists>s'. process_initialize s = Some s' \<and> proc_inv c (\<lambda>_. 0) sext s' [kernel_process] (\<lambda>_. []) \<and>
     process_kernel s' = process_kernel s \<and> next_process_id s' = 2 \<and> pid (procs s' kernel_process) = 1"
proof -
  define s' where "s' = the (process_initialize s)"
  have run: "process_initialize s = Some s'"
    using on by (simp add: s'_def process_initialize_def process_power_on_def address_space_kernel_def Let_def)
  have f: "procs s' kernel_process = empty_process\<lparr>cwd := [slash], pid := 1, parent_pid := 0, references := 1,
      immortal := True, process_status := PROCESS_RUNNING, process_space := Some kernel_address_space,
      handles := replicate 3 True @ replicate 61 False,
      accounting := \<lparr>process_ticks = 0, peak_threads = 0, current_handles = 3, peak_handles = 3\<rparr>\<rparr>"
    "process_registry_head s' = Some kernel_process" "next_process_id s' = 2" "live_processes s' = 1" "live_handles s' = 3"
    "process_system_initialized s'" "process_heap s' = process_heap s" "process_kernel s' = process_kernel s"
    using on by (simp_all add: s'_def process_initialize_def process_power_on_def address_space_kernel_def Let_def
      process_registry_insert_locked_def PROCESS_ID_INVALID_def PROCESS_STANDARD_HANDLE_COUNT_def PROCESS_MAX_HANDLES_def empty_process_def)
  have "reg_ok s' [kernel_process]" using f by (simp add: reg_ok_def dll_def empty_process_def)
  moreover have "kids_ok s' [kernel_process] (\<lambda>_. [])" using f by (simp add: kids_ok_def kid_ok_def empty_process_def)
  moreover have "memory_ok s' [kernel_process] (\<lambda>_. [])" using f on by (simp add: memory_ok_def process_power_on_def)
  moreover have "handles_ok s' [kernel_process]" using f by (simp add: handles_ok_def)
  moreover have "spaces_ok c sext s' [kernel_process]"
    using f on by (auto simp: spaces_ok_def process_power_on_def space_users_def Let_def)
  moreover have "refs_ok (\<lambda>_. 0) s' [kernel_process] (\<lambda>_. [])" using f by (simp add: refs_ok_def)
  moreover have "cwd_ok [slash]" by (simp add: cwd_ok_def path_of_def names_def)
  ultimately have "proc_inv c (\<lambda>_. 0) sext s' [kernel_process] (\<lambda>_. [])"
    using f by (simp add: proc_inv_def proc_core_def)
  then show ?thesis using run f by simp
qed

section \<open>Reachable states\<close>

lemma reachable_owners:
  assumes "(process_step c)\<^sup>*\<^sup>* x y" "owners_ok c sext x"
  shows "owners_ok c sext y"
  using assms by (induction rule: rtranclp_induct) (auto intro: process_step_owners)


section \<open>Examples\<close>

definition sample_system :: "heap \<Rightarrow> round_robin_state process_system" where
  "sample_system h = \<lparr>procs = \<lambda>_. empty_process, child_links = \<lambda>_. \<lparr>link_child = None, link_previous = None, link_next = None\<rparr>,
     process_registry_head = None, next_process_id = 0, live_processes = 0, live_handles = 0, process_system_initialized = False,
     process_heap = h, process_kernel = sample_kernel\<rparr>"

lemma sample_system_on: "heap_good h \<Longrightarrow> process_power_on 0 (\<lambda>_. 0) (sample_system h)"
  by (simp add: process_power_on_def sample_system_def sample_kernel_def paging_current_directory_def Let_def)

lemma sample_heap_good: "heap_good sample_heap"
  using sample_heap_ok by (auto simp: heap_good_def)



text \<open>The kernel process with one child, the process 2, that has ended with the status 7.\<close>

definition zombie_system :: "heap \<Rightarrow> round_robin_state process_system" where
  "zombie_system h = (sample_system h)\<lparr>
     procs := (\<lambda>_. empty_process)(
       0 := empty_process\<lparr>pid := 1, references := 1, immortal := True, process_status := PROCESS_RUNNING, process_space := Some 0,
         children := Some 0xD00001D0, child_count := 1, cwd := ''/home/user'', registry_previous := Some 0xD0000020\<rparr>,
       0xD0000020 := empty_process\<lparr>pid := 2, parent_pid := 1, references := 1, process_status := PROCESS_ZOMBIE, exit_status := 7,
         process_space := Some 0, cwd := [slash], registry_next := Some 0\<rparr>),
     child_links := (\<lambda>_. \<lparr>link_child = None, link_previous = None, link_next = None\<rparr>)(
       0xD00001D0 := \<lparr>link_child = Some 0xD0000020, link_previous = None, link_next = None\<rparr>),
     process_registry_head := Some 0xD0000020, next_process_id := 3, live_processes := 2, process_system_initialized := True\<rparr>"

lemma two_blocks: "\<exists>h. heap_good h \<and> {0xD0000020, 0xD00001D0} \<subseteq> heap_owned h"
proof -
  have "request_spec sizeof_process sample_heap [(0xD0000000, 16352, True)] =
      Some (0xD0000000, [(0xD0000000, 400, False), (0xD00001B0, 15920, True)])"
    by (simp add: request_spec_def allocate_spec_def round16_def SIZE_MAX_def sizeof_process_def)
  then obtain h1 bs1 where h1: "heap_ok h1 bs1" "cells h1 bs1 = [(0xD0000000, 400, False), (0xD00001B0, 15920, True)]"
    using kmalloc_run [OF sample_heap_ok, of sizeof_process] by (auto simp: sample_cells)
  have "request_spec sizeof_child_link h1 [(0xD0000000, 400, False), (0xD00001B0, 15920, True)] =
      Some (0xD00001B0, [(0xD0000000, 400, False), (0xD00001B0, 16, False), (0xD00001E0, 15872, True)])"
    by (simp add: request_spec_def allocate_spec_def round16_def SIZE_MAX_def sizeof_child_link_def)
  then obtain h bs where h: "heap_ok h bs" "cells h bs = [(0xD0000000, 400, False), (0xD00001B0, 16, False), (0xD00001E0, 15872, True)]"
    using kmalloc_run [OF h1(1), of sizeof_child_link] by (auto simp: h1(2))
  then have "{0xD0000020, 0xD00001D0} \<subseteq> heap_owned h"
    unfolding heap_owned_live [OF h(1)] h(2) by (auto simp: live_def)
  then show ?thesis using h(1) by (auto simp: heap_good_def)
qed

lemma zombie_system_inv:
  assumes "heap_good h" "{0xD0000020, 0xD00001D0} \<subseteq> heap_owned h"
  shows "proc_inv 0 (\<lambda>_. 0) (\<lambda>_. 0) (zombie_system h) [0xD0000020, 0] ((\<lambda>_. [])(0 := [0xD00001D0]))"
proof -
  let ?s = "zombie_system h" and ?reg = "[0xD0000020, 0] :: u32 list" and ?kids = "(\<lambda>_. [])(0 := [0xD00001D0]) :: u32 \<Rightarrow> u32 list"
  note defs = zombie_system_def sample_system_def empty_process_def kernel_process_def
  have cwd: "names ''/home/user'' = [''home'', ''user'']" by (simp add: names_def slash_def)
  have "reg_ok ?s ?reg" by (simp add: reg_ok_def dll_def defs)
  moreover have "kids_ok ?s ?reg ?kids" by (simp add: kids_ok_def kid_ok_def dll_def defs)
  moreover have "memory_ok ?s ?reg ?kids" using assms by (auto simp: memory_ok_def defs)
  moreover have "handles_ok ?s ?reg" by (simp add: handles_ok_def defs PROCESS_MAX_HANDLES_def)
  moreover have "spaces_ok 0 (\<lambda>_. 0) ?s ?reg"
    by (simp add: spaces_ok_def space_users_def Let_def defs sample_kernel_def paging_current_directory_def)
  moreover have "refs_ok (\<lambda>_. 0) ?s ?reg ?kids" by (simp add: refs_ok_def owned_child_def defs)
  moreover have "cwd_ok ''/home/user''" "cwd_ok [slash]"
    by (simp_all add: cwd_ok_def path_of_def cwd proper_name_def slash_def) (simp add: names_def slash_def)
  ultimately show ?thesis by (simp add: proc_inv_def proc_core_def defs)
qed

theorem waitpid_collects_once_witness:
  "\<exists>h s'. process_waitpid 0 (Some 0) 2 (zombie_system h) = Some (Some 7, s') \<and>
     proc_inv 0 (\<lambda>_. 0) (\<lambda>_. 0) s' [0] (\<lambda>_. []) \<and> process_waitpid 0 (Some 0) 2 s' = Some (None, s')"
proof -
  obtain h where h: "heap_good h" "{0xD0000020, 0xD00001D0} \<subseteq> heap_owned h" using two_blocks by blast
  note inv = zombie_system_inv [OF h]
  let ?s = "zombie_system h"
  have k: "link_child (child_links ?s 0xD00001D0) = Some 0xD0000020" "pid (procs ?s 0xD0000020) = 2"
      "process_status (procs ?s 0xD0000020) = PROCESS_ZOMBIE" "references (procs ?s 0xD0000020) = 1" "exit_status (procs ?s 0xD0000020) = 7"
    by (simp_all add: zombie_system_def)
  have "(0 :: u32) \<in> set [0xD0000020, 0]" "(2 :: u32) \<noteq> 0" by simp_all
  from conjunct2 [OF waitpid_collects_once [OF inv this]] k
  have "\<exists>s'. process_waitpid 0 (Some 0) 2 ?s = Some (Some 7, s') \<and>
      proc_inv 0 (\<lambda>_. 0) (\<lambda>_. 0) s' [0] ((\<lambda>_. [])(0 := [0xD00001D0], 0 := [])) \<and> process_waitpid 0 (Some 0) 2 s' = Some (None, s')"
    by (auto simp: kernel_process_def)
  moreover have "(\<lambda>_. [])(0 := [0xD00001D0], 0 := []) = (\<lambda>_ :: u32. [] :: u32 list)" by auto
  ultimately show ?thesis by metis
qed

theorem resolve_path_canonical_witness:
  "process_resolve_path (Some 0) (Some ''../lib//./x'') 64 (zombie_system sample_heap) = Some ''/home/lib/x'' \<and>
   process_resolve_path (Some 0) (Some ''../lib//./x'') 10 (zombie_system sample_heap) = None"
proof -
  have cwd: "cwd (procs (zombie_system sample_heap) 0) = ''/home/user''" by (simp add: zombie_system_def)
  have ok: "cwd_ok (cwd (procs (zombie_system sample_heap) 0))"
    unfolding cwd by (simp add: cwd_ok_def path_of_def names_def proper_name_def slash_def)
  have names: "names ''../lib//./x'' = [''..'', ''lib'', ''.'', ''x'']" "names ''/home/user'' = [''home'', ''user'']" by (simp_all add: names_def slash_def)
  have four: "(\<forall>k \<le> length [a, b, d, e]. P k) \<longleftrightarrow> P 0 \<and> P 1 \<and> P 2 \<and> P 3 \<and> P (4 :: nat)" for P and a b d e :: string
    by (auto simp: le_Suc_eq numeral_eq_Suc)
  have "process_resolve_path (Some 0) (Some ''../lib//./x'') n (zombie_system sample_heap) =
      (if 11 < unat n then Some ''/home/lib/x'' else None)" if "n \<ge> 2" for n
    using conjunct1 [OF resolve_path_canonical [OF ok, of "''../lib//./x''" n]] that unfolding names cwd four
    by (simp add: enter_def path_of_def numeral_eq_Suc slash_def)
  then show ?thesis by simp
qed

end
