(* ===== verification/Stdio.thy ===== *)
theory Stdio
  imports Fd
begin

text \<open>
  The streams of the C library, \<open>libc/stdio\<close>, in the build that the kernel links: streams over the file descriptors
  of \<open>Fd\<close>, with the terminal behind the descriptors 1 and 2 and the keyboard behind 0. Write buffers are bytes of the
  kernel heap. What has been written to the terminal is a list of bytes, and the answers of the keyboard are a list
  (\<open>None\<close> for an input that fails); when it is empty the call waits for ever, which is the outer \<open>None\<close>, as is
  a fault.
\<close>

section \<open>Streams\<close>

definition EOF :: int where [machine_consts]: "EOF = - 1"
definition IO_READ :: u32 where [machine_consts]: "IO_READ = 1"
definition IO_WRITE :: u32 where [machine_consts]: "IO_WRITE = 2"
definition IO_EOF :: u32 where [machine_consts]: "IO_EOF = 4"
definition IO_ERROR :: u32 where [machine_consts]: "IO_ERROR = 8"
definition IO_BUFFER_OWNED :: u32 where [machine_consts]: "IO_BUFFER_OWNED = 16"
definition IOFBF :: int where [machine_consts]: "IOFBF = 0"
definition IOLBF :: int where [machine_consts]: "IOLBF = 1"
definition IONBF :: int where [machine_consts]: "IONBF = 2"
definition BUFSIZ :: u32 where [machine_consts]: "BUFSIZ = 1024"
definition SEEK_SET :: int where [machine_consts]: "SEEK_SET = 0"
definition SEEK_CUR :: int where [machine_consts]: "SEEK_CUR = 1"
definition SEEK_END :: int where [machine_consts]: "SEEK_END = 2"
definition LONG_MAX :: u32 where [machine_consts]: "LONG_MAX = 0x7FFFFFFF"

record stream =
  stream_fd :: int
  stream_flags :: u32
  pushback :: int
  has_pushback :: bool
  write_buffer :: "u32 option"
  write_buffer_size :: u32
  write_buffer_used :: u32
  buffering_mode :: int

definition sizeof_stream :: u32 where [machine_consts]: "sizeof_stream = 32"

record ('o, 'p, 'w) stdio =
  streams :: "u32 \<Rightarrow> stream"
  stdio_fds :: "('o, 'p, 'w) fds"
  terminal :: "u8 list"
  key_answers :: "char option list"

text \<open>The three static streams, at addresses outside of the heap.\<close>

definition standard_stream :: "int \<Rightarrow> u32 \<Rightarrow> stream" where
  "standard_stream fd flags = \<lparr>stream_fd = fd, stream_flags = flags, pushback = 0, has_pushback = False,
     write_buffer = None, write_buffer_size = 0, write_buffer_used = 0, buffering_mode = IONBF\<rparr>"

definition stdin_stream :: u32 where "stdin_stream = 1"
definition stdout_stream :: u32 where "stdout_stream = 2"
definition stderr_stream :: u32 where "stderr_stream = 3"

definition standard_streams :: "u32 \<Rightarrow> stream" where
  "standard_streams a =
     (if a = stdin_stream then standard_stream 0 IO_READ
      else if a = stdout_stream then standard_stream 1 IO_WRITE
      else standard_stream 2 IO_WRITE)"

definition set_stream :: "u32 \<Rightarrow> (stream \<Rightarrow> stream) \<Rightarrow> ('o, 'p, 'w) stdio \<Rightarrow> ('o, 'p, 'w) stdio" where
  "set_stream f g s = s\<lparr>streams := (streams s)(f := g (streams s f))\<rparr>"

definition stream_error :: "u32 \<Rightarrow> ('o, 'p, 'w) stdio \<Rightarrow> ('o, 'p, 'w) stdio" where
  "stream_error f s = set_stream f (stream_flags_update (\<lambda>x. x OR IO_ERROR)) s"

text \<open>Bytes of the heap.\<close>

definition memory_byte :: "('o, 'p, 'w) stdio \<Rightarrow> u32 \<Rightarrow> u8" where
  "memory_byte s a = payload (kheap (fd_vfs (stdio_fds s))) a"

definition memory_bytes :: "('o, 'p, 'w) stdio \<Rightarrow> u32 \<Rightarrow> nat \<Rightarrow> u8 list" where
  "memory_bytes s a n = map (\<lambda>i. memory_byte s (a + of_nat i)) [0..<n]"

definition set_heap :: "heap \<Rightarrow> ('o, 'p, 'w) stdio \<Rightarrow> ('o, 'p, 'w) stdio" where
  "set_heap h s = s\<lparr>stdio_fds := (stdio_fds s)\<lparr>fd_vfs := (fd_vfs (stdio_fds s))\<lparr>kheap := h\<rparr>\<rparr>\<rparr>"

definition store_byte :: "u32 \<Rightarrow> u8 \<Rightarrow> ('o, 'p, 'w) stdio \<Rightarrow> ('o, 'p, 'w) stdio" where
  "store_byte a b s = (let h = kheap (fd_vfs (stdio_fds s)) in set_heap (h\<lparr>payload := (payload h)(a := b)\<rparr>) s)"

primrec store_bytes :: "u8 list \<Rightarrow> u32 \<Rightarrow> ('o, 'p, 'w) stdio \<Rightarrow> ('o, 'p, 'w) stdio" where
  "store_bytes [] a s = s"
| "store_bytes (b # bs) a s = store_bytes bs (a + 1) (store_byte a b s)"

definition stdio_kmalloc :: "u32 \<Rightarrow> ('o, 'p, 'w) stdio \<Rightarrow> (u32 option \<times> ('o, 'p, 'w) stdio) option" where
  "stdio_kmalloc n s = do { (a, h) \<leftarrow> kmalloc n (kheap (fd_vfs (stdio_fds s))); Some (a, set_heap h s) }"

definition stdio_kfree :: "u32 option \<Rightarrow> ('o, 'p, 'w) stdio \<Rightarrow> ('o, 'p, 'w) stdio" where
  "stdio_kfree a s = set_heap (kfree a (kheap (fd_vfs (stdio_fds s)))) s"

definition terminal_write :: "u8 list \<Rightarrow> ('o, 'p, 'w) stdio \<Rightarrow> ('o, 'p, 'w) stdio" where
  "terminal_write bytes s = s\<lparr>terminal := terminal s @ bytes\<rparr>"

definition keyboard_wait :: "('o, 'p, 'w) stdio \<Rightarrow> (char option \<times> ('o, 'p, 'w) stdio) option" where
  "keyboard_wait s = (case key_answers s of [] \<Rightarrow> None | a # rest \<Rightarrow> Some (a, s\<lparr>key_answers := rest\<rparr>))"

definition stream_write :: "('o \<Rightarrow> ('o, 'p, 'w) fs_ops) \<Rightarrow> int \<Rightarrow> u8 list \<Rightarrow> ('o, 'p, 'w) stdio \<Rightarrow> (int \<times> u32 \<times> ('o, 'p, 'w) stdio) option" where
  "stream_write D fd bytes s =
     do { (r, written, t) \<leftarrow> kernel_fd_write D fd bytes (stdio_fds s); Some (r, written, s\<lparr>stdio_fds := t\<rparr>) }"

section \<open>Output\<close>

text \<open>The loop that hands the buffer to a descriptor: \<open>True\<close> when all of it was taken.\<close>

partial_function (option) flush_loop ::
  "('o \<Rightarrow> ('o, 'p, 'w) fs_ops) \<Rightarrow> u32 \<Rightarrow> u32 \<Rightarrow> u32 \<Rightarrow> ('o, 'p, 'w) stdio \<Rightarrow> (bool \<times> ('o, 'p, 'w) stdio) option" where
  "flush_loop D f buffer offset s =
     (if offset < write_buffer_used (streams s f) then
        do {
          (r, written, s) \<leftarrow> stream_write D (stream_fd (streams s f))
            (memory_bytes s (buffer + offset) (unat (write_buffer_used (streams s f) - offset))) s;
          if r \<noteq> 0 then Some (False, stream_error f s)
          else if written = 0 then Some (False, stream_error f s)
          else flush_loop D f buffer (offset + written) s
        }
      else Some (True, s))"

definition fflush :: "('o \<Rightarrow> ('o, 'p, 'w) fs_ops) \<Rightarrow> u32 option \<Rightarrow> ('o, 'p, 'w) stdio \<Rightarrow> (int \<times> ('o, 'p, 'w) stdio) option" where
  "fflush D stream s =
     (case stream of
        None \<Rightarrow> Some (0, s)
      | Some f \<Rightarrow>
          let st = streams s f
          in if stream_flags st AND IO_WRITE = 0 then Some (EOF, stream_error f s)
             else if write_buffer_used st = 0 then Some (0, s)
             else (case write_buffer st of
                 None \<Rightarrow> None
               | Some buffer \<Rightarrow>
                   if stream_fd st = 1 \<or> stream_fd st = 2 then
                     let s = terminal_write (memory_bytes s buffer (unat (write_buffer_used st))) s
                     in Some (0, set_stream f (write_buffer_used_update (\<lambda>_. 0)) s)
                   else if stream_fd st \<ge> KERNEL_FD_FIRST then do {
                     (ok, s) \<leftarrow> flush_loop D f buffer 0 s;
                     Some (if ok then (0, set_stream f (write_buffer_used_update (\<lambda>_. 0)) s) else (EOF, s))
                   }
                   else Some (EOF, stream_error f s)))"

text \<open>Buffered output: \<open>False\<close> when a flush failed, with the number of bytes consumed.\<close>

partial_function (option) buffer_loop ::
  "('o \<Rightarrow> ('o, 'p, 'w) fs_ops) \<Rightarrow> u32 \<Rightarrow> u8 list \<Rightarrow> u32 \<Rightarrow> u32 \<Rightarrow> ('o, 'p, 'w) stdio \<Rightarrow> (bool \<times> u32 \<times> ('o, 'p, 'w) stdio) option" where
  "buffer_loop D f data total_bytes consumed s =
     (if \<not> consumed < total_bytes then Some (True, consumed, s)
      else do {
        let available = write_buffer_size (streams s f) - write_buffer_used (streams s f);
        (r, s) \<leftarrow> (if available = 0 then fflush D (Some f) s else Some (0, s));
        let available = (if available = 0 then write_buffer_size (streams s f) else available);
        if r = EOF then Some (False, consumed, s)
        else (case write_buffer (streams s f) of
            None \<Rightarrow> None
          | Some buffer \<Rightarrow>
              if buffering_mode (streams s f) = IOLBF then do {
                let c = data ! unat consumed;
                let s = store_byte (buffer + write_buffer_used (streams s f)) c s;
                let s = set_stream f (write_buffer_used_update (\<lambda>n. n + 1)) s;
                let consumed = consumed + 1;
                if c = of_char (CHR 0x0A) \<or> write_buffer_used (streams s f) = write_buffer_size (streams s f) then do {
                  (r, s) \<leftarrow> fflush D (Some f) s;
                  if r = EOF then Some (False, consumed, s) else buffer_loop D f data total_bytes consumed s
                }
                else buffer_loop D f data total_bytes consumed s
              }
              else do {
                let remaining = total_bytes - consumed;
                let chunk = (if remaining < available then remaining else available);
                let s = store_bytes (take (unat chunk) (drop (unat consumed) data)) (buffer + write_buffer_used (streams s f)) s;
                let s = set_stream f (write_buffer_used_update (\<lambda>n. n + chunk)) s;
                buffer_loop D f data total_bytes (consumed + chunk) s
              })
      })"

partial_function (option) direct_loop ::
  "('o \<Rightarrow> ('o, 'p, 'w) fs_ops) \<Rightarrow> u32 \<Rightarrow> u8 list \<Rightarrow> u32 \<Rightarrow> u32 \<Rightarrow> ('o, 'p, 'w) stdio \<Rightarrow> (bool \<times> u32 \<times> ('o, 'p, 'w) stdio) option" where
  "direct_loop D f data total_bytes consumed s =
     (if \<not> consumed < total_bytes then Some (True, consumed, s)
      else do {
        (r, written, s) \<leftarrow> stream_write D (stream_fd (streams s f)) (drop (unat consumed) (take (unat total_bytes) data)) s;
        if r \<noteq> 0 then Some (False, consumed, stream_error f s)
        else if written = 0 then Some (False, consumed, stream_error f s)
        else direct_loop D f data total_bytes (consumed + written) s
      })"

text \<open>\<open>fputc\<close> and \<open>fwrite\<close> call each other: \<open>fputc\<close> uses \<open>fwrite\<close> for a stream with a buffer and for a descriptor
  from 3 on, \<open>fwrite\<close> uses \<open>fputc\<close> for the other streams. The first argument is the \<open>fwrite\<close> that \<open>fputc\<close> uses.\<close>

definition fputc_via ::
  "(u8 list \<Rightarrow> u32 \<Rightarrow> ('o, 'p, 'w) stdio \<Rightarrow> (u32 \<times> ('o, 'p, 'w) stdio) option) \<Rightarrow> int \<Rightarrow> u32 option \<Rightarrow> ('o, 'p, 'w) stdio \<Rightarrow>
   (int \<times> ('o, 'p, 'w) stdio) option" where
  "fputc_via write_one ic stream s =
     (case stream of
        None \<Rightarrow> Some (EOF, s)
      | Some f \<Rightarrow>
          let st = streams s f
          in if stream_flags st AND IO_WRITE = 0 then Some (EOF, stream_error f s)
             else
               let c = (of_int ic :: u8)
               in if write_buffer st \<noteq> None \<and> write_buffer_size st \<noteq> 0 then do {
                    (n, s) \<leftarrow> write_one [c] f s;
                    Some (if n \<noteq> 1 then (EOF, stream_error f s) else (uint c, s))
                  }
                  else if stream_fd st = 1 \<or> stream_fd st = 2 then Some (uint c, terminal_write [c] s)
                  else if stream_fd st \<ge> KERNEL_FD_FIRST then do {
                    (n, s) \<leftarrow> write_one [c] f s;
                    Some (if n \<noteq> 1 then (EOF, stream_error f s) else (uint c, s))
                  }
                  else Some (EOF, stream_error f s))"

text \<open>The elements one after the other; \<open>fputc\<close> never reaches \<open>fwrite\<close> here.\<close>

partial_function (option) element_loop ::
  "u32 \<Rightarrow> u8 list \<Rightarrow> u32 \<Rightarrow> u32 \<Rightarrow> u32 \<Rightarrow> u32 \<Rightarrow> ('o, 'p, 'w) stdio \<Rightarrow> (u32 \<times> ('o, 'p, 'w) stdio) option" where
  "element_loop f data sz nmemb element byte s =
     (if \<not> element < nmemb then Some (element, s)
      else if \<not> byte < sz then element_loop f data sz nmemb (element + 1) 0 s
      else do {
        (r, s) \<leftarrow> fputc_via (\<lambda>_ _ _. None) (uint (data ! unat (element * sz + byte))) (Some f) s;
        if r = EOF then Some (element, s) else element_loop f data sz nmemb element (byte + 1) s
      })"

text \<open>\<open>data\<close> is the object at the pointer; reading beyond it is a fault.\<close>

definition fwrite :: "('o \<Rightarrow> ('o, 'p, 'w) fs_ops) \<Rightarrow> u8 list option \<Rightarrow> u32 \<Rightarrow> u32 \<Rightarrow> u32 option \<Rightarrow> ('o, 'p, 'w) stdio \<Rightarrow>
   (u32 \<times> ('o, 'p, 'w) stdio) option" where
  "fwrite D data sz nmemb stream s =
     (if sz = 0 \<or> nmemb = 0 then Some (0, s)
      else (case (data, stream) of
          (_, None) \<Rightarrow> Some (0, s)
        | (None, Some f) \<Rightarrow> Some (0, stream_error f s)
        | (Some bytes, Some f) \<Rightarrow>
            if stream_flags (streams s f) AND IO_WRITE = 0 then Some (0, stream_error f s)
            else if nmemb > SIZE_MAX div sz then Some (0, stream_error f s)
            else if length bytes < unat (sz * nmemb) then None
            else if write_buffer (streams s f) \<noteq> None \<and> write_buffer_size (streams s f) \<noteq> 0 then do {
              (ok, consumed, s) \<leftarrow> buffer_loop D f bytes (sz * nmemb) 0 s;
              Some (if ok then nmemb else consumed div sz, s)
            }
            else if stream_fd (streams s f) \<ge> KERNEL_FD_FIRST then do {
              (ok, consumed, s) \<leftarrow> direct_loop D f bytes (sz * nmemb) 0 s;
              Some (if ok then nmemb else consumed div sz, s)
            }
            else element_loop f bytes sz nmemb 0 0 s))"

definition fputc :: "('o \<Rightarrow> ('o, 'p, 'w) fs_ops) \<Rightarrow> int \<Rightarrow> u32 option \<Rightarrow> ('o, 'p, 'w) stdio \<Rightarrow> (int \<times> ('o, 'p, 'w) stdio) option" where
  "fputc D ic stream s = fputc_via (\<lambda>bytes f s. fwrite D (Some bytes) 1 1 (Some f) s) ic stream s"

primrec fputs_loop :: "('o \<Rightarrow> ('o, 'p, 'w) fs_ops) \<Rightarrow> string \<Rightarrow> u32 option \<Rightarrow> ('o, 'p, 'w) stdio \<Rightarrow> (int \<times> ('o, 'p, 'w) stdio) option" where
  "fputs_loop D [] stream s = Some (0, s)"
| "fputs_loop D (c # str) stream s =
     do { (r, s) \<leftarrow> fputc D (of_char c) stream s; if r = EOF then Some (EOF, s) else fputs_loop D str stream s }"

definition fputs :: "('o \<Rightarrow> ('o, 'p, 'w) fs_ops) \<Rightarrow> string option \<Rightarrow> u32 option \<Rightarrow> ('o, 'p, 'w) stdio \<Rightarrow> (int \<times> ('o, 'p, 'w) stdio) option" where
  "fputs D str stream s =
     (case (str, stream) of
        (_, None) \<Rightarrow> Some (EOF, s)
      | (None, Some f) \<Rightarrow> Some (EOF, stream_error f s)
      | (Some text, Some f) \<Rightarrow> fputs_loop D text (Some f) s)"

definition puts :: "('o \<Rightarrow> ('o, 'p, 'w) fs_ops) \<Rightarrow> string option \<Rightarrow> ('o, 'p, 'w) stdio \<Rightarrow> (int \<times> ('o, 'p, 'w) stdio) option" where
  "puts D str s =
     do {
       (r, s) \<leftarrow> fputs D str (Some stdout_stream) s;
       if r = EOF then Some (EOF, s)
       else do {
         (r, s) \<leftarrow> fputc D 10 (Some stdout_stream) s;
         Some (if r = EOF then EOF else 0, s)
       }
     }"

definition putchar :: "('o \<Rightarrow> ('o, 'p, 'w) fs_ops) \<Rightarrow> int \<Rightarrow> ('o, 'p, 'w) stdio \<Rightarrow> (int \<times> ('o, 'p, 'w) stdio) option" where
  "putchar D ic s = fputc D ic (Some stdout_stream) s"

end
