(* ===== verification/StdioFiles.thy ===== *)
theory StdioFiles
  imports Stdio
begin

text \<open>
  The input side of the streams, their positions, and opening and closing (\<open>libc/stdio\<close>).
\<close>

section \<open>Input\<close>

definition stream_read :: "('o \<Rightarrow> ('o, 'p, 'w) fs_ops) \<Rightarrow> int \<Rightarrow> u32 \<Rightarrow> ('o, 'p, 'w) stdio \<Rightarrow> (int \<times> u8 list \<times> ('o, 'p, 'w) stdio) option" where
  "stream_read D fd n s = do { (r, bytes, t) \<leftarrow> kernel_fd_read D fd n (stdio_fds s); Some (r, bytes, s\<lparr>stdio_fds := t\<rparr>) }"

definition fgetc :: "('o \<Rightarrow> ('o, 'p, 'w) fs_ops) \<Rightarrow> u32 option \<Rightarrow> ('o, 'p, 'w) stdio \<Rightarrow> (int \<times> ('o, 'p, 'w) stdio) option" where
  "fgetc D stream s =
     (case stream of
        None \<Rightarrow> Some (EOF, s)
      | Some f \<Rightarrow>
          let st = streams s f
          in if stream_flags st AND IO_READ = 0 then Some (EOF, stream_error f s)
             else if has_pushback st then Some (pushback st, set_stream f (has_pushback_update (\<lambda>_. False)) s)
             else if stream_fd st = 0 then do {
               (answer, s) \<leftarrow> keyboard_wait s;
               Some (case answer of None \<Rightarrow> (EOF, stream_error f s) | Some c \<Rightarrow> (of_char c, s))
             }
             else if stream_fd st \<ge> KERNEL_FD_FIRST then do {
               (r, bytes, s) \<leftarrow> stream_read D (stream_fd st) 1 s;
               Some (if r \<noteq> 0 then (EOF, stream_error f s)
                     else (case bytes of
                         [] \<Rightarrow> (EOF, set_stream f (stream_flags_update (\<lambda>x. x OR IO_EOF)) s)
                       | b # _ \<Rightarrow> (uint b, s)))
             }
             else Some (EOF, stream_error f s))"

definition getchar :: "('o \<Rightarrow> ('o, 'p, 'w) fs_ops) \<Rightarrow> ('o, 'p, 'w) stdio \<Rightarrow> (int \<times> ('o, 'p, 'w) stdio) option" where
  "getchar D s = fgetc D (Some stdin_stream) s"

definition ungetc :: "int \<Rightarrow> u32 option \<Rightarrow> ('o, 'p, 'w) stdio \<Rightarrow> int \<times> ('o, 'p, 'w) stdio" where
  "ungetc c stream s =
     (case stream of
        None \<Rightarrow> (EOF, s)
      | Some f \<Rightarrow>
          if c = EOF then (EOF, s)
          else if stream_flags (streams s f) AND IO_READ = 0 then (EOF, stream_error f s)
          else if has_pushback (streams s f) then (EOF, s)
          else (c, set_stream f (\<lambda>st. st\<lparr>pushback := c, has_pushback := True, stream_flags := stream_flags st AND NOT IO_EOF\<rparr>) s))"

text \<open>The bytes that \<open>fread\<close> puts into the destination, with the number of complete elements.\<close>

partial_function (option) read_bytes_loop ::
  "('o \<Rightarrow> ('o, 'p, 'w) fs_ops) \<Rightarrow> u32 \<Rightarrow> u32 \<Rightarrow> u8 list \<Rightarrow> ('o, 'p, 'w) stdio \<Rightarrow> (u8 list \<times> ('o, 'p, 'w) stdio) option" where
  "read_bytes_loop D f total_bytes bytes s =
     (if \<not> length bytes < unat total_bytes then Some (bytes, s)
      else do {
        (c, s) \<leftarrow> fgetc D (Some f) s;
        if c = EOF then Some (bytes, s) else read_bytes_loop D f total_bytes (bytes @ [of_int c]) s
      })"

definition fread :: "('o \<Rightarrow> ('o, 'p, 'w) fs_ops) \<Rightarrow> bool \<Rightarrow> u32 \<Rightarrow> u32 \<Rightarrow> u32 option \<Rightarrow> ('o, 'p, 'w) stdio \<Rightarrow>
   (u32 \<times> u8 list \<times> ('o, 'p, 'w) stdio) option" where
  "fread D destination sz nmemb stream s =
     (if sz = 0 \<or> nmemb = 0 then Some (0, [], s)
      else (case stream of
          None \<Rightarrow> Some (0, [], s)
        | Some f \<Rightarrow>
            if \<not> destination then Some (0, [], s)
            else if stream_flags (streams s f) AND IO_READ = 0 then Some (0, [], stream_error f s)
            else if nmemb > SIZE_MAX div sz then Some (0, [], stream_error f s)
            else
              let total_bytes = sz * nmemb;
                  bytes = (if has_pushback (streams s f) then [of_int (pushback (streams s f))] else []);
                  s = (if has_pushback (streams s f) then set_stream f (has_pushback_update (\<lambda>_. False)) s else s)
              in if bytes \<noteq> [] \<and> total_bytes = 1 then Some (1 div sz, bytes, s)
                 else if stream_fd (streams s f) \<ge> KERNEL_FD_FIRST then do {
                   let remaining = total_bytes - of_nat (length bytes);
                   (r, more, s) \<leftarrow> stream_read D (stream_fd (streams s f)) remaining s;
                   if r \<noteq> 0 then Some (of_nat (length bytes) div sz, bytes, stream_error f s)
                   else if length more > unat remaining then Some (of_nat (length bytes) div sz, bytes, stream_error f s)
                   else
                     let s = (if length more < unat remaining then set_stream f (stream_flags_update (\<lambda>x. x OR IO_EOF)) s else s)
                     in Some (of_nat (length (bytes @ more)) div sz, bytes @ more, s)
                 }
                 else do {
                   (bytes, s) \<leftarrow> read_bytes_loop D f total_bytes bytes s;
                   Some (of_nat (length bytes) div sz, bytes, s)
                 }))"

text \<open>The line that \<open>fgets\<close> stores, \<open>None\<close> for NULL.\<close>

partial_function (option) fgets_loop ::
  "('o \<Rightarrow> ('o, 'p, 'w) fs_ops) \<Rightarrow> u32 \<Rightarrow> int \<Rightarrow> u8 list \<Rightarrow> ('o, 'p, 'w) stdio \<Rightarrow> (u8 list option \<times> ('o, 'p, 'w) stdio) option" where
  "fgets_loop D f sz line s =
     (if \<not> int (length line) < sz - 1 then Some (Some line, s)
      else do {
        (c, s) \<leftarrow> fgetc D (Some f) s;
        if c = EOF then Some (if line = [] then None else Some line, s)
        else if c = 10 then Some (Some (line @ [of_int c]), s)
        else fgets_loop D f sz (line @ [of_int c]) s
      })"

definition fgets :: "('o \<Rightarrow> ('o, 'p, 'w) fs_ops) \<Rightarrow> bool \<Rightarrow> int \<Rightarrow> u32 option \<Rightarrow> ('o, 'p, 'w) stdio \<Rightarrow>
   (u8 list option \<times> ('o, 'p, 'w) stdio) option" where
  "fgets D destination sz stream s =
     (case stream of
        None \<Rightarrow> Some (None, s)
      | Some f \<Rightarrow> if \<not> destination \<or> sz \<le> 0 then Some (None, s) else fgets_loop D f sz [] s)"

section \<open>Flags and position\<close>

definition feof :: "u32 option \<Rightarrow> ('o, 'p, 'w) stdio \<Rightarrow> bool" where
  "feof stream s = (case stream of None \<Rightarrow> False | Some f \<Rightarrow> stream_flags (streams s f) AND IO_EOF \<noteq> 0)"

definition ferror :: "u32 option \<Rightarrow> ('o, 'p, 'w) stdio \<Rightarrow> bool" where
  "ferror stream s = (case stream of None \<Rightarrow> False | Some f \<Rightarrow> stream_flags (streams s f) AND IO_ERROR \<noteq> 0)"

definition clearerr :: "u32 option \<Rightarrow> ('o, 'p, 'w) stdio \<Rightarrow> ('o, 'p, 'w) stdio" where
  "clearerr stream s =
     (case stream of None \<Rightarrow> s | Some f \<Rightarrow> set_stream f (stream_flags_update (\<lambda>x. x AND NOT (IO_EOF OR IO_ERROR))) s)"

definition stream_seek :: "int \<Rightarrow> u64 \<Rightarrow> int \<Rightarrow> ('o, 'p, 'w) stdio \<Rightarrow> u32 option \<times> ('o, 'p, 'w) stdio" where
  "stream_seek fd offset whence s = (let (r, t) = kernel_fd_seek fd offset whence (stdio_fds s) in (r, s\<lparr>stdio_fds := t\<rparr>))"

definition fseek :: "('o \<Rightarrow> ('o, 'p, 'w) fs_ops) \<Rightarrow> u32 option \<Rightarrow> u32 \<Rightarrow> int \<Rightarrow> ('o, 'p, 'w) stdio \<Rightarrow> (int \<times> ('o, 'p, 'w) stdio) option" where
  "fseek D stream offset whence s =
     (case stream of
        None \<Rightarrow> Some (- 1, s)
      | Some f \<Rightarrow>
          if stream_fd (streams s f) < KERNEL_FD_FIRST then Some (- 1, stream_error f s)
          else
            let kernel_whence = (if whence = SEEK_SET then Some KERNEL_FD_SEEK_SET
                                 else if whence = SEEK_CUR then Some KERNEL_FD_SEEK_CUR
                                 else if whence = SEEK_END then Some KERNEL_FD_SEEK_END else None)
            in case kernel_whence of
                 None \<Rightarrow> Some (- 1, stream_error f s)
               | Some w \<Rightarrow> do {
                   let kernel_offset = (scast offset :: u64);
                   let kernel_offset = (if whence = SEEK_CUR \<and> has_pushback (streams s f) then kernel_offset - 1 else kernel_offset);
                   (r, s) \<leftarrow> (if stream_flags (streams s f) AND IO_WRITE \<noteq> 0 \<and> write_buffer_used (streams s f) \<noteq> 0
                              then fflush D (Some f) s else Some (0, s));
                   if r = EOF then Some (- 1, s)
                   else
                     let (pos, s) = stream_seek (stream_fd (streams s f)) kernel_offset w s
                     in Some (if pos = None then (- 1, stream_error f s)
                              else (0, set_stream f (\<lambda>st. st\<lparr>has_pushback := False, pushback := 0,
                                     stream_flags := stream_flags st AND NOT IO_EOF\<rparr>) s))
                 })"

definition ftell :: "u32 option \<Rightarrow> ('o, 'p, 'w) stdio \<Rightarrow> int \<times> ('o, 'p, 'w) stdio" where
  "ftell stream s =
     (case stream of
        None \<Rightarrow> (- 1, s)
      | Some f \<Rightarrow>
          if stream_fd (streams s f) < KERNEL_FD_FIRST then (- 1, stream_error f s)
          else
            let (pos, s) = stream_seek (stream_fd (streams s f)) 0 KERNEL_FD_SEEK_CUR s
            in case pos of
                 None \<Rightarrow> (- 1, stream_error f s)
               | Some pos \<Rightarrow>
                   if write_buffer_used (streams s f) > LONG_MAX - pos then (- 1, stream_error f s)
                   else
                     let pos = pos + write_buffer_used (streams s f)
                     in if has_pushback (streams s f) \<and> pos = 0 then (- 1, stream_error f s)
                        else
                          let pos = (if has_pushback (streams s f) then pos - 1 else pos)
                          in if pos > LONG_MAX then (- 1, stream_error f s) else (uint pos, s))"

definition rewind :: "('o \<Rightarrow> ('o, 'p, 'w) fs_ops) \<Rightarrow> u32 option \<Rightarrow> ('o, 'p, 'w) stdio \<Rightarrow> ('o, 'p, 'w) stdio option" where
  "rewind D stream s =
     (if stream = None then Some s
      else do { (r, s) \<leftarrow> fseek D stream 0 SEEK_SET s; Some (if r = 0 then clearerr stream s else s) })"

section \<open>Opening and closing\<close>

definition setvbuf :: "('o \<Rightarrow> ('o, 'p, 'w) fs_ops) \<Rightarrow> u32 option \<Rightarrow> u32 option \<Rightarrow> int \<Rightarrow> u32 \<Rightarrow> ('o, 'p, 'w) stdio \<Rightarrow>
   (int \<times> ('o, 'p, 'w) stdio) option" where
  "setvbuf D stream buffer mode sz s =
     (case stream of
        None \<Rightarrow> Some (- 1, s)
      | Some f \<Rightarrow>
          if stream_flags (streams s f) AND IO_WRITE = 0 then Some (- 1, s)
          else if mode \<noteq> IOFBF \<and> mode \<noteq> IOLBF \<and> mode \<noteq> IONBF then Some (- 1, s)
          else if mode \<noteq> IONBF \<and> sz = 0 then Some (- 1, s)
          else do {
            (r, s) \<leftarrow> (if write_buffer_used (streams s f) \<noteq> 0 then fflush D (Some f) s else Some (0, s));
            if r = EOF then Some (- 1, s)
            else do {
              (new_buffer, new_buffer_owned, s) \<leftarrow>
                (if mode = IOFBF \<or> mode = IOLBF then
                   if buffer \<noteq> None then Some (buffer, False, s)
                   else do { (a, s) \<leftarrow> stdio_kmalloc sz s; Some (a, True, s) }
                 else Some (None, False, s));
              if (mode = IOFBF \<or> mode = IOLBF) \<and> new_buffer = None then Some (- 1, s)
              else
                let s = (if stream_flags (streams s f) AND IO_BUFFER_OWNED \<noteq> 0 \<and> write_buffer (streams s f) \<noteq> None
                         then stdio_kfree (write_buffer (streams s f)) s else s);
                    s = set_stream f (\<lambda>st. st\<lparr>stream_flags := stream_flags st AND NOT IO_BUFFER_OWNED, write_buffer := new_buffer,
                          write_buffer_size := (if mode = IONBF then 0 else sz), write_buffer_used := 0, buffering_mode := mode\<rparr>) s;
                    s = (if new_buffer_owned then set_stream f (stream_flags_update (\<lambda>x. x OR IO_BUFFER_OWNED)) s else s)
                in Some (0, s)
            }
          })"

text \<open>The flags of the stream and of the descriptor, \<open>None\<close> for a mode that is not known.\<close>

definition fopen_parse_mode :: "string option \<Rightarrow> (u32 \<times> u32) option" where
  "fopen_parse_mode mode =
     (case mode of
        None \<Rightarrow> None
      | Some m \<Rightarrow>
          let plain = (\<lambda>r. m = [r] \<or> m = [r, CHR ''b'']);
              update = (\<lambda>r. m = [r, CHR ''+''] \<or> m = [r, CHR ''b'', CHR ''+''] \<or> m = [r, CHR ''+'', CHR ''b''])
          in if plain (CHR ''r'') then Some (IO_READ, KERNEL_FD_READ)
             else if update (CHR ''r'') then Some (IO_READ OR IO_WRITE, KERNEL_FD_READ OR KERNEL_FD_WRITE)
             else if plain (CHR ''w'') then Some (IO_WRITE, KERNEL_FD_WRITE OR KERNEL_FD_CREATE OR KERNEL_FD_TRUNC)
             else if update (CHR ''w'') then
               Some (IO_READ OR IO_WRITE, KERNEL_FD_READ OR KERNEL_FD_WRITE OR KERNEL_FD_CREATE OR KERNEL_FD_TRUNC)
             else if plain (CHR ''a'') then Some (IO_WRITE, KERNEL_FD_WRITE OR KERNEL_FD_CREATE OR KERNEL_FD_APPEND)
             else if update (CHR ''a'') then
               Some (IO_READ OR IO_WRITE, KERNEL_FD_READ OR KERNEL_FD_WRITE OR KERNEL_FD_CREATE OR KERNEL_FD_APPEND)
             else None)"

definition close_descriptor :: "int \<Rightarrow> ('o, 'p, 'w) stdio \<Rightarrow> int \<times> ('o, 'p, 'w) stdio" where
  "close_descriptor fd s = (let (r, t) = kernel_fd_close fd (stdio_fds s) in (r, s\<lparr>stdio_fds := t\<rparr>))"

definition fopen :: "('o \<Rightarrow> ('o, 'p, 'w) fs_ops) \<Rightarrow> string option \<Rightarrow> string option \<Rightarrow> ('o, 'p, 'w) stdio \<Rightarrow>
   (u32 option \<times> ('o, 'p, 'w) stdio) option" where
  "fopen D path mode s =
     (if path = None \<or> mode = None then Some (None, s)
      else (case fopen_parse_mode mode of
          None \<Rightarrow> Some (None, s)
        | Some (stdio_flags, kernel_flags) \<Rightarrow> do {
            (fd, t) \<leftarrow> kernel_fd_open D path kernel_flags (stdio_fds s);
            let s = s\<lparr>stdio_fds := t\<rparr>;
            if fd < 0 then Some (None, s)
            else do {
              (stream, s) \<leftarrow> stdio_kmalloc sizeof_stream s;
              (case stream of
                 None \<Rightarrow> Some (None, snd (close_descriptor fd s))
               | Some f \<Rightarrow> do {
                   let s = set_stream f (\<lambda>_. standard_stream fd stdio_flags) s;
                   (r, s) \<leftarrow> (if stdio_flags AND IO_WRITE \<noteq> 0 then setvbuf D stream None IOFBF BUFSIZ s else Some (0, s));
                   Some (if r \<noteq> 0 then (None, stdio_kfree stream (snd (close_descriptor fd s))) else (stream, s))
                 })
            }
          }))"

definition fclose :: "('o \<Rightarrow> ('o, 'p, 'w) fs_ops) \<Rightarrow> u32 option \<Rightarrow> ('o, 'p, 'w) stdio \<Rightarrow> (int \<times> ('o, 'p, 'w) stdio) option" where
  "fclose D stream s =
     (case stream of
        None \<Rightarrow> Some (EOF, s)
      | Some f \<Rightarrow>
          if f = stdin_stream \<or> f = stdout_stream \<or> f = stderr_stream then Some (EOF, s)
          else do {
            (r, s) \<leftarrow> fflush D stream s;
            if r = EOF then Some (EOF, s)
            else
              let (result, s) = close_descriptor (stream_fd (streams s f)) s
              in if result \<noteq> 0 then Some (EOF, stream_error f s)
                 else
                   let s = (if stream_flags (streams s f) AND IO_BUFFER_OWNED \<noteq> 0 \<and> write_buffer (streams s f) \<noteq> None
                            then stdio_kfree (write_buffer (streams s f)) s else s)
                   in Some (0, stdio_kfree stream s)
          })"

end
