(* ===== verification/Printf.thy ===== *)
theory Printf
  imports StdioFiles LineInput
begin

text \<open>
  Formatted output, \<open>libc/stdio/printf.c\<close>. A format is the list of its characters before the terminating NUL, and
  the cursor \<open>format + i\<close> is what is left of it. The conversions of floating point numbers (\<open>f e g a\<close>) compute in
  the extended precision of the x87 unit and are left out: reaching one is the outer \<open>None\<close>, like a read past the end of the
  format or an argument of another type than the conversion takes.
\<close>

section \<open>Numbers\<close>

definition digit_table :: "int \<Rightarrow> string" where
  "digit_table base =
     (let digits = (if base = 16 then ''0123456789ABCDEF'' else if base = 17 then ''0123456789abcdef'' else ''0123456789'')
      in digits @ replicate (32 - length digits) nul)"

text \<open>The first loop counts the digits, the second writes them from the last to the first. The callers have refused
  bases below 2.\<close>

function count_digits :: "u64 \<Rightarrow> u64 \<Rightarrow> nat \<Rightarrow> nat" where
  "count_digits base shifter p =
     (let shifter = shifter div base in if shifter \<noteq> 0 \<and> base \<ge> 2 then count_digits base shifter (p + 1) else p + 1)"
  by auto

lemma div_less_u64: "(x :: u64) div b \<noteq> 0 \<Longrightarrow> b \<ge> 2 \<Longrightarrow> unat (x div b) < unat x"
  by (auto simp: unat_div word_le_nat_alt unat_eq_zero [symmetric] intro!: div_less_dividend) (metis div_0 gr0I unat_div unat_eq_zero)

termination count_digits
  by (relation "measure (\<lambda>(_, x, _). unat x)") (auto intro: div_less_u64)

function fill_digits :: "u64 \<Rightarrow> string \<Rightarrow> u64 \<Rightarrow> nat \<Rightarrow> string \<Rightarrow> string" where
  "fill_digits base digit value p b =
     (let b = b[p - 1 := digit ! unat (value mod base)]; value = value div base
      in if value \<noteq> 0 \<and> base \<ge> 2 then fill_digits base digit value (p - 1) b else b)"
  by auto

termination fill_digits
  by (relation "measure (\<lambda>(_, _, x, _, _). unat x)") (auto intro: div_less_u64)

declare count_digits.simps [simp del] fill_digits.simps [simp del]

text \<open>The field: \<open>before\<close> is the sign that stays in front of the zeros.\<close>

definition pad_number :: "string \<Rightarrow> int \<Rightarrow> bool \<Rightarrow> bool \<Rightarrow> bool \<Rightarrow> string" where
  "pad_number b paddingNo justify zeroPad with_sign =
     (let padding = paddingNo - int (length b);
          padding = (if padding < 0 then 0 else padding)
      in if justify then b @ replicate (min (nat padding) (255 - length b)) (CHR '' '')
         else
           let sign = (if with_sign \<and> zeroPad \<and> b \<noteq> [] \<and> (hd b = CHR ''-'' \<or> hd b = CHR ''+'' \<or> hd b = CHR '' '') then [hd b] else []);
               a = sign @ replicate (min (nat padding) (255 - length sign)) (if zeroPad then CHR ''0'' else CHR '' '')
           in a @ take (255 - length a) (drop (length sign) b))"

definition clamp_padding :: "int \<Rightarrow> int" where
  "clamp_padding paddingNo =
     (let paddingNo = (if paddingNo < 0 then 0 else paddingNo) in if paddingNo > 255 then 255 else paddingNo)"

definition number_digits :: "int \<Rightarrow> u64 \<Rightarrow> string \<Rightarrow> string" where
  "number_digits base value sign =
     (let digit = digit_table base;
          base = (of_int (if base = 17 then 16 else base) :: u64);
          p = count_digits base value (length sign);
          b = sign @ replicate (p - length sign) nul
      in fill_digits base digit value p b)"

definition base_refused :: "int \<Rightarrow> bool" where
  "base_refused base \<longleftrightarrow> (let base = (if base = 17 then 16 else base) in base < 2 \<or> base > 16)"

definition int_str :: "u64 \<Rightarrow> int \<Rightarrow> bool \<Rightarrow> bool \<Rightarrow> int \<Rightarrow> bool \<Rightarrow> bool \<Rightarrow> string" where
  "int_str i base plusSignIfNeeded spaceSignIfNeeded paddingNo justify zeroPad =
     (if base_refused base then []
      else
        let paddingNo = clamp_padding paddingNo;
            sign = (if i <s 0 then ''-'' else if plusSignIfNeeded then ''+'' else if spaceSignIfNeeded then '' '' else []);
            value = (if i <s 0 then - (i + 1) + 1 else i)
        in pad_number (number_digits base value sign) paddingNo justify zeroPad True)"

definition uint_str :: "u64 \<Rightarrow> int \<Rightarrow> int \<Rightarrow> bool \<Rightarrow> bool \<Rightarrow> string" where
  "uint_str i base paddingNo justify zeroPad =
     (if base_refused base then []
      else pad_number (number_digits base i []) (clamp_padding paddingNo) justify zeroPad False)"

section \<open>Output\<close>

definition displayCharacter :: "('o \<Rightarrow> ('o, 'p, 'w) fs_ops) \<Rightarrow> u32 \<Rightarrow> char \<Rightarrow> int \<times> ('o, 'p, 'w) stdio \<Rightarrow> (int \<times> ('o, 'p, 'w) stdio) option" where
  "displayCharacter D f c = (\<lambda>(count, s).
     do { (r, s) \<leftarrow> fputc D (of_char c) (Some f) s; Some (if r = EOF then count else count + 1, s) })"

primrec displayString :: "('o \<Rightarrow> ('o, 'p, 'w) fs_ops) \<Rightarrow> u32 \<Rightarrow> string \<Rightarrow> int \<times> ('o, 'p, 'w) stdio \<Rightarrow> (int \<times> ('o, 'p, 'w) stdio) option" where
  "displayString D f [] x = Some x"
| "displayString D f (c # str) x = do { x \<leftarrow> displayCharacter D f c x; displayString D f str x }"

definition displayRepeatedCharacter ::
  "('o \<Rightarrow> ('o, 'p, 'w) fs_ops) \<Rightarrow> u32 \<Rightarrow> char \<Rightarrow> int \<Rightarrow> int \<times> ('o, 'p, 'w) stdio \<Rightarrow> (int \<times> ('o, 'p, 'w) stdio) option" where
  "displayRepeatedCharacter D f c amount x = displayString D f (replicate (nat amount) c) x"

section \<open>Conversion specifications\<close>

record directive =
  leftJustify :: bool
  plusSign :: bool
  altForm :: bool
  spaceNoSign :: bool
  zeroPad :: bool
  lengthSpec :: int
  precisionSpecified :: bool
  precSpec :: int

definition plain_directive :: directive where
  "plain_directive = \<lparr>leftJustify = False, plusSign = False, altForm = False, spaceNoSign = False, zeroPad = False,
     lengthSpec = 0, precisionSpecified = False, precSpec = 0\<rparr>"

text \<open>The character at the cursor, NUL at the end.\<close>

definition at :: "string \<Rightarrow> char" where
  "at fmt = (case fmt of [] \<Rightarrow> nul | c # _ \<Rightarrow> c)"

primrec parse_flags :: "string \<Rightarrow> directive \<Rightarrow> directive \<times> string" where
  "parse_flags [] d = (d, [])"
| "parse_flags (c # fmt) d =
     (if c = CHR ''-'' then parse_flags fmt (d\<lparr>leftJustify := True\<rparr>)
      else if c = CHR ''+'' then parse_flags fmt (d\<lparr>plusSign := True\<rparr>)
      else if c = CHR ''#'' then parse_flags fmt (d\<lparr>altForm := True\<rparr>)
      else if c = CHR '' '' then parse_flags fmt (d\<lparr>spaceNoSign := True\<rparr>)
      else if c = CHR ''0'' then parse_flags fmt (d\<lparr>zeroPad := True\<rparr>)
      else (d, c # fmt))"

definition isdigit :: "char \<Rightarrow> bool" where
  "isdigit c \<longleftrightarrow> (of_char c :: int) \<ge> 48 \<and> (of_char c :: int) \<le> 57"

primrec parse_number :: "string \<Rightarrow> int \<Rightarrow> int \<times> string" where
  "parse_number [] n = (n, [])"
| "parse_number (c # fmt) n =
     (if isdigit c then parse_number fmt (if n \<le> 25 then n * 10 + (of_char c - 48) else 255) else (n, c # fmt))"

text \<open>An argument of the call: a 32-bit value (\<open>int\<close>, \<open>long\<close>, \<open>size_t\<close> and pointers that are printed), a 64-bit value,
  a string (\<open>None\<close> for NULL) or the address that \<open>%n\<close> stores to.\<close>

datatype va_value = Va_Word u32 | Va_Wide u64 | Va_String "string option" | Va_Store u32

fun va_word :: "va_value list \<Rightarrow> (u32 \<times> va_value list) option" where
  "va_word (Va_Word w # args) = Some (w, args)"
| "va_word _ = None"

fun va_wide :: "va_value list \<Rightarrow> (u64 \<times> va_value list) option" where
  "va_wide (Va_Wide w # args) = Some (w, args)"
| "va_wide _ = None"

fun va_string :: "va_value list \<Rightarrow> (string option \<times> va_value list) option" where
  "va_string (Va_String str # args) = Some (str, args)"
| "va_string _ = None"

fun va_store :: "va_value list \<Rightarrow> (u32 \<times> va_value list) option" where
  "va_store (Va_Store a # args) = Some (a, args)"
| "va_store _ = None"

definition parse_width :: "string \<Rightarrow> directive \<Rightarrow> va_value list \<Rightarrow> (directive \<times> string \<times> va_value list) option" where
  "parse_width fmt d args =
     do {
       let (n, fmt) = parse_number fmt 0;
       (d, n, fmt, args) \<leftarrow>
         (if at fmt = CHR ''*'' then do {
            (w, args) \<leftarrow> va_word args;
            let n = sint w;
            Some (if n < 0 then (d\<lparr>leftJustify := True\<rparr>, (if n = - 2147483648 then 255 else - n), tl fmt, args)
                  else (d, n, tl fmt, args))
          }
          else Some (d, n, fmt, args));
       let n = (if n > 255 then 255 else n);
       let d = d\<lparr>lengthSpec := n\<rparr>;
       Some (if leftJustify d then d\<lparr>zeroPad := False\<rparr> else d, fmt, args)
     }"

definition parse_precision :: "string \<Rightarrow> directive \<Rightarrow> va_value list \<Rightarrow> (directive \<times> string \<times> va_value list) option" where
  "parse_precision fmt d args =
     (if at fmt \<noteq> CHR ''.'' then Some (d, fmt, args)
      else do {
        let (n, fmt) = parse_number (tl fmt) 0;
        (specified, n, fmt, args) \<leftarrow>
          (if at fmt = CHR ''*'' then do {
             (w, args) \<leftarrow> va_word args;
             let n = sint w;
             Some (if n < 0 then (False, 0, tl fmt, args) else (True, n, tl fmt, args))
           }
           else Some (True, n, fmt, args));
        Some (d\<lparr>precisionSpecified := specified, precSpec := (if n > 255 then 255 else n)\<rparr>, fmt, args)
      })"

text \<open>\<open>H\<close> is \<open>hh\<close>, \<open>q\<close> is \<open>ll\<close>, NUL is no modifier.\<close>

definition parse_modifier :: "string \<Rightarrow> char \<times> string" where
  "parse_modifier fmt =
     (if at fmt \<in> set ''hljztL'' then
        let c = hd fmt; fmt = tl fmt
        in if c = CHR ''h'' \<and> at fmt = CHR ''h'' then (CHR ''H'', tl fmt)
           else if c = CHR ''l'' \<and> at fmt = CHR ''l'' then (CHR ''q'', tl fmt)
           else (c, fmt)
      else (nul, fmt))"

section \<open>The conversions\<close>

text \<open>The value of a signed conversion, \<open>None\<close> for a modifier that prints nothing.\<close>

definition signed_argument :: "char \<Rightarrow> va_value list \<Rightarrow> (u64 option \<times> va_value list) option" where
  "signed_argument modifier args =
     (if modifier = nul \<or> modifier = CHR ''l'' \<or> modifier = CHR ''z'' \<or> modifier = CHR ''t'' then do { (w, args) \<leftarrow> va_word args; Some (Some (scast w), args) }
      else if modifier = CHR ''H'' then do { (w, args) \<leftarrow> va_word args; Some (Some (scast (ucast w :: u8)), args) }
      else if modifier = CHR ''h'' then do { (w, args) \<leftarrow> va_word args; Some (Some (scast (ucast w :: u16)), args) }
      else if modifier = CHR ''q'' \<or> modifier = CHR ''j'' then do { (w, args) \<leftarrow> va_wide args; Some (Some w, args) }
      else Some (None, args))"

definition unsigned_argument :: "char \<Rightarrow> va_value list \<Rightarrow> (u64 \<times> va_value list) option" where
  "unsigned_argument modifier args =
     (if modifier = nul \<or> modifier = CHR ''l'' \<or> modifier = CHR ''z'' \<or> modifier = CHR ''t'' then do { (w, args) \<leftarrow> va_word args; Some (ucast w, args) }
      else if modifier = CHR ''H'' then do { (w, args) \<leftarrow> va_word args; Some (ucast (ucast w :: u8), args) }
      else if modifier = CHR ''h'' then do { (w, args) \<leftarrow> va_word args; Some (ucast (ucast w :: u16), args) }
      else if modifier = CHR ''q'' \<or> modifier = CHR ''j'' then va_wide args
      else Some (0, args))"

definition print_signed ::
  "('o \<Rightarrow> ('o, 'p, 'w) fs_ops) \<Rightarrow> u32 \<Rightarrow> directive \<Rightarrow> char \<Rightarrow> va_value list \<Rightarrow> int \<times> ('o, 'p, 'w) stdio \<Rightarrow>
   (va_value list \<times> int \<times> ('o, 'p, 'w) stdio) option" where
  "print_signed D f d modifier args x =
     do {
       let zero = (if precisionSpecified d then False else zeroPad d);
       (value, args) \<leftarrow> signed_argument modifier args;
       let text = (case value of None \<Rightarrow> [] | Some i \<Rightarrow>
                     int_str i 10 (plusSign d) (spaceNoSign d) (lengthSpec d) (leftJustify d) zero);
       x \<leftarrow> displayString D f text x;
       Some (args, x)
     }"

text \<open>The part of a string before its trailing spaces.\<close>

definition strip_spaces :: "string \<Rightarrow> string" where
  "strip_spaces str = rev (dropWhile (\<lambda>c. c = CHR '' '') (rev str))"

definition print_unsigned ::
  "('o \<Rightarrow> ('o, 'p, 'w) fs_ops) \<Rightarrow> u32 \<Rightarrow> directive \<Rightarrow> char \<Rightarrow> char \<Rightarrow> va_value list \<Rightarrow> int \<times> ('o, 'p, 'w) stdio \<Rightarrow>
   (va_value list \<times> int \<times> ('o, 'p, 'w) stdio) option" where
  "print_unsigned D f d modifier specifier args x =
     do {
       let base = (if specifier = CHR ''o'' then 8 else if specifier = CHR ''x'' then 17 else if specifier = CHR ''X'' then 16 else 10);
       let zero = (if precisionSpecified d then False else zeroPad d);
       (integer, args) \<leftarrow> unsigned_argument modifier args;
       let prefix = (if altForm d \<and> integer \<noteq> 0 then
                       (if specifier = CHR ''x'' then ''0x'' else if specifier = CHR ''X'' then ''0X'' else if specifier = CHR ''o'' then ''0'' else [])
                     else []);
       let numberWidth = (if prefix \<noteq> [] \<and> lengthSpec d \<ge> int (length prefix) then lengthSpec d - int (length prefix) else lengthSpec d);
       if prefix \<noteq> [] \<and> zero \<and> \<not> leftJustify d then do {
         x \<leftarrow> displayString D f prefix x;
         x \<leftarrow> displayString D f (uint_str integer base numberWidth False True) x;
         Some (args, x)
       }
       else if \<not> leftJustify d then do {
         x \<leftarrow> displayString D f prefix x;
         x \<leftarrow> displayString D f (uint_str integer base numberWidth (leftJustify d) zero) x;
         Some (args, x)
       }
       else do {
         let text = strip_spaces (uint_str integer base numberWidth (leftJustify d) zero);
         x \<leftarrow> displayString D f prefix x;
         x \<leftarrow> displayString D f text x;
         let padding = lengthSpec d - (int (length prefix) + int (length text));
         x \<leftarrow> (if padding > 0 then displayRepeatedCharacter D f (CHR '' '') padding x else Some x);
         Some (args, x)
       }
     }"

definition print_pointer ::
  "('o \<Rightarrow> ('o, 'p, 'w) fs_ops) \<Rightarrow> u32 \<Rightarrow> directive \<Rightarrow> va_value list \<Rightarrow> int \<times> ('o, 'p, 'w) stdio \<Rightarrow>
   (va_value list \<times> int \<times> ('o, 'p, 'w) stdio) option" where
  "print_pointer D f d args x =
     do {
       (value, args) \<leftarrow> va_word args;
       let numberWidth = (if lengthSpec d \<ge> 2 then lengthSpec d - 2 else 0);
       if zeroPad d \<and> \<not> leftJustify d then do {
         x \<leftarrow> displayString D f ''0x'' x;
         x \<leftarrow> displayString D f (uint_str (ucast value) 17 numberWidth False True) x;
         Some (args, x)
       }
       else do {
         let text = uint_str (ucast value) 17 0 False False;
         let padding = lengthSpec d - int (length text) - 2;
         if \<not> leftJustify d then do {
           x \<leftarrow> displayRepeatedCharacter D f (CHR '' '') (if padding < 0 then 0 else padding) x;
           x \<leftarrow> displayString D f ''0x'' x;
           x \<leftarrow> displayString D f text x;
           Some (args, x)
         }
         else do {
           x \<leftarrow> displayString D f ''0x'' x;
           x \<leftarrow> displayString D f text x;
           x \<leftarrow> (if padding > 0 then displayRepeatedCharacter D f (CHR '' '') padding x else Some x);
           Some (args, x)
         }
       }
     }"

definition print_character ::
  "('o \<Rightarrow> ('o, 'p, 'w) fs_ops) \<Rightarrow> u32 \<Rightarrow> directive \<Rightarrow> va_value list \<Rightarrow> int \<times> ('o, 'p, 'w) stdio \<Rightarrow>
   (va_value list \<times> int \<times> ('o, 'p, 'w) stdio) option" where
  "print_character D f d args x =
     do {
       (w, args) \<leftarrow> va_word args;
       let padding = (if lengthSpec d > 1 then lengthSpec d - 1 else 0);
       x \<leftarrow> (if \<not> leftJustify d then displayRepeatedCharacter D f (CHR '' '') padding x else Some x);
       x \<leftarrow> displayCharacter D f (char_of (unat w mod 256)) x;
       x \<leftarrow> (if leftJustify d then displayRepeatedCharacter D f (CHR '' '') padding x else Some x);
       Some (args, x)
     }"

definition print_text ::
  "('o \<Rightarrow> ('o, 'p, 'w) fs_ops) \<Rightarrow> u32 \<Rightarrow> directive \<Rightarrow> va_value list \<Rightarrow> int \<times> ('o, 'p, 'w) stdio \<Rightarrow>
   (va_value list \<times> int \<times> ('o, 'p, 'w) stdio) option" where
  "print_text D f d args x =
     do {
       (str, args) \<leftarrow> va_string args;
       let text = (case str of None \<Rightarrow> ''(null)'' | Some str \<Rightarrow> str);
       let stringLength = (if precisionSpecified d \<and> nat (precSpec d) < length text then nat (precSpec d) else length text);
       let padding = lengthSpec d - int stringLength;
       let padding = (if padding < 0 then 0 else padding);
       x \<leftarrow> (if \<not> leftJustify d then displayRepeatedCharacter D f (CHR '' '') padding x else Some x);
       x \<leftarrow> displayString D f (take stringLength text) x;
       x \<leftarrow> (if leftJustify d then displayRepeatedCharacter D f (CHR '' '') padding x else Some x);
       Some (args, x)
     }"

text \<open>The count so far, stored in the size of the modifier.\<close>

definition store_count :: "char \<Rightarrow> va_value list \<Rightarrow> int \<times> ('o, 'p, 'w) stdio \<Rightarrow> (va_value list \<times> int \<times> ('o, 'p, 'w) stdio) option" where
  "store_count modifier args = (\<lambda>(count, s).
     (let n = (if modifier = CHR ''H'' then 1 else if modifier = CHR ''h'' then 2
               else if modifier = nul \<or> modifier = CHR ''l'' \<or> modifier = CHR ''z'' \<or> modifier = CHR ''t'' then 4
               else if modifier = CHR ''q'' \<or> modifier = CHR ''j'' then 8 else 0 :: nat)
      in if n = 0 then Some (args, count, s)
         else do {
           (a, args) \<leftarrow> va_store args;
           let bytes = map (\<lambda>i. of_int (count div 256 ^ i) :: u8) [0..<n];
           Some (args, count, store_bytes bytes a s)
         }))"

definition convert ::
  "('o \<Rightarrow> ('o, 'p, 'w) fs_ops) \<Rightarrow> u32 \<Rightarrow> directive \<Rightarrow> char \<Rightarrow> char \<Rightarrow> va_value list \<Rightarrow> int \<times> ('o, 'p, 'w) stdio \<Rightarrow>
   (va_value list \<times> int \<times> ('o, 'p, 'w) stdio) option" where
  "convert D f d modifier specifier args x =
     (if specifier = CHR ''%'' then do { x \<leftarrow> displayCharacter D f (CHR ''%'') x; Some (args, x) }
      else if specifier = CHR ''c'' then print_character D f d args x
      else if specifier = CHR ''s'' then print_text D f d args x
      else if specifier = CHR ''d'' \<or> specifier = CHR ''i'' then print_signed D f d modifier args x
      else if specifier \<in> set ''uoxX'' then print_unsigned D f d modifier specifier args x
      else if specifier = CHR ''p'' then print_pointer D f d args x
      else if specifier = CHR ''n'' then store_count modifier args x
      else if specifier \<in> set ''fFeEgGaA'' then None
      else do {
        x \<leftarrow> displayCharacter D f (CHR ''%'') x;
        x \<leftarrow> (if specifier \<noteq> nul then displayCharacter D f specifier x else Some x);
        Some (args, x)
      })"

definition parse_directive :: "string \<Rightarrow> va_value list \<Rightarrow> (directive \<times> char \<times> string \<times> va_value list) option" where
  "parse_directive fmt args =
     do {
       let (d, fmt) = parse_flags fmt plain_directive;
       (d, fmt, args) \<leftarrow> parse_width fmt d args;
       (d, fmt, args) \<leftarrow> parse_precision fmt d args;
       let (modifier, fmt) = parse_modifier fmt;
       Some (d, modifier, fmt, args)
     }"

text \<open>The specifier is the character at the cursor; when it is the terminating NUL, the step of the loop moves the
  cursor past it and the next character is read out of bounds.\<close>

partial_function (option) printf_loop ::
  "('o \<Rightarrow> ('o, 'p, 'w) fs_ops) \<Rightarrow> u32 \<Rightarrow> string \<Rightarrow> va_value list \<Rightarrow> int \<times> ('o, 'p, 'w) stdio \<Rightarrow> (int \<times> ('o, 'p, 'w) stdio) option" where
  "printf_loop D f fmt args x =
     (case fmt of
        [] \<Rightarrow> Some x
      | c # rest \<Rightarrow>
          if c \<noteq> CHR ''%'' then do { x \<leftarrow> displayCharacter D f c x; printf_loop D f rest args x }
          else if rest = [] then displayCharacter D f (CHR ''%'') x
          else do {
            (d, modifier, rest, args) \<leftarrow> parse_directive rest args;
            (args, x) \<leftarrow> convert D f d modifier (at rest) args x;
            if rest = [] then None else printf_loop D f (tl rest) args x
          })"

definition vfprintf ::
  "('o \<Rightarrow> ('o, 'p, 'w) fs_ops) \<Rightarrow> u32 option \<Rightarrow> string option \<Rightarrow> va_value list \<Rightarrow> ('o, 'p, 'w) stdio \<Rightarrow> (int \<times> ('o, 'p, 'w) stdio) option" where
  "vfprintf D stream fmt args s =
     (case (stream, fmt) of
        (Some f, Some str) \<Rightarrow> printf_loop D f str args (0, s)
      | _ \<Rightarrow> Some (- 1, s))"

definition vprintf :: "('o \<Rightarrow> ('o, 'p, 'w) fs_ops) \<Rightarrow> string option \<Rightarrow> va_value list \<Rightarrow> ('o, 'p, 'w) stdio \<Rightarrow> (int \<times> ('o, 'p, 'w) stdio) option" where
  "vprintf D fmt args s = vfprintf D (Some stdout_stream) fmt args s"

definition fprintf :: "('o \<Rightarrow> ('o, 'p, 'w) fs_ops) \<Rightarrow> u32 option \<Rightarrow> string option \<Rightarrow> va_value list \<Rightarrow> ('o, 'p, 'w) stdio \<Rightarrow> (int \<times> ('o, 'p, 'w) stdio) option" where
  "fprintf D stream fmt args s = vfprintf D stream fmt args s"

definition printf :: "('o \<Rightarrow> ('o, 'p, 'w) fs_ops) \<Rightarrow> string option \<Rightarrow> va_value list \<Rightarrow> ('o, 'p, 'w) stdio \<Rightarrow> (int \<times> ('o, 'p, 'w) stdio) option" where
  "printf D fmt args s = vfprintf D (Some stdout_stream) fmt args s"

end
