(* ===== verification/Scanf.thy ===== *)
theory Scanf
  imports Printf
begin

text \<open>
  Formatted input, \<open>libc/stdio/vfscanf.c\<close>. The arguments are the addresses that the conversions store to. A field width
  beyond the range of \<open>int\<close> overflows and is a fault.
\<close>

definition scan_is_space :: "int \<Rightarrow> bool" where
  "scan_is_space c \<longleftrightarrow> c = 32 \<or> c = 9 \<or> c = 12 \<or> c = 10 \<or> c = 13 \<or> c = 11"

definition scan_digit_value :: "int \<Rightarrow> int \<Rightarrow> int" where
  "scan_digit_value c base =
     (let value = (if c \<ge> 48 \<and> c \<le> 57 then Some (c - 48)
                   else if c \<ge> 97 \<and> c \<le> 102 then Some (c - 97 + 10)
                   else if c \<ge> 65 \<and> c \<le> 70 then Some (c - 65 + 10) else None)
      in case value of None \<Rightarrow> - 1 | Some v \<Rightarrow> if v \<ge> base then - 1 else v)"

text \<open>Skipping spaces; the result is \<open>EOF\<close> or 0.\<close>

partial_function (option) scan_skip_space :: "('o \<Rightarrow> ('o, 'p, 'w) fs_ops) \<Rightarrow> u32 \<Rightarrow> ('o, 'p, 'w) stdio \<Rightarrow> (int \<times> ('o, 'p, 'w) stdio) option" where
  "scan_skip_space D f s =
     do {
       (c, s) \<leftarrow> fgetc D (Some f) s;
       if c = EOF then Some (EOF, s)
       else if \<not> scan_is_space c then Some (0, snd (ungetc c (Some f) s))
       else scan_skip_space D f s
     }"

text \<open>The digits of a number: the value, the number of digits and the stream.\<close>

partial_function (option) scan_digits_loop ::
  "('o \<Rightarrow> ('o, 'p, 'w) fs_ops) \<Rightarrow> u32 \<Rightarrow> int \<Rightarrow> int \<Rightarrow> int \<Rightarrow> u32 \<Rightarrow> int \<Rightarrow> ('o, 'p, 'w) stdio \<Rightarrow> (u32 \<times> int \<times> ('o, 'p, 'w) stdio) option" where
  "scan_digits_loop D f base width consumed value digits s =
     (if \<not> (width = 0 \<or> consumed < width) then Some (value, digits, s)
      else do {
        (c, s) \<leftarrow> fgetc D (Some f) s;
        if c = EOF then Some (value, digits, s)
        else
          let digit = scan_digit_value c base
          in if digit < 0 then Some (value, digits, snd (ungetc c (Some f) s))
             else scan_digits_loop D f base width (consumed + 1) (value * of_int base + of_int digit) (digits + 1) s
      })"

definition word_bytes :: "u32 \<Rightarrow> u8 list" where
  "word_bytes w = map (\<lambda>i. ucast (drop_bit (8 * i) w)) [0..<4]"

definition scan_integer ::
  "('o \<Rightarrow> ('o, 'p, 'w) fs_ops) \<Rightarrow> u32 \<Rightarrow> int \<Rightarrow> int \<Rightarrow> va_value list \<Rightarrow> ('o, 'p, 'w) stdio \<Rightarrow> (int \<times> va_value list \<times> ('o, 'p, 'w) stdio) option" where
  "scan_integer D f base width args s =
     do {
       (r, s) \<leftarrow> scan_skip_space D f s;
       if r = EOF then Some (EOF, args, s)
       else do {
         (c, s) \<leftarrow> fgetc D (Some f) s;
         if c = EOF then Some (EOF, args, s)
         else do {
           let sign = (c = 43 \<or> c = 45);
           let negative = (c = 45);
           let s = (if sign then s else snd (ungetc c (Some f) s));
           (value, digits, s) \<leftarrow> scan_digits_loop D f base width (if sign then 1 else 0) 0 0 s;
           if digits = 0 then Some (0, args, s)
           else do {
             (a, args) \<leftarrow> va_store args;
             Some (1, args, store_bytes (word_bytes (if negative then 0 - value else value)) a s)
           }
         }
       }
     }"

text \<open>The characters of a string up to a space, stored one after the other.\<close>

partial_function (option) scan_string_loop ::
  "('o \<Rightarrow> ('o, 'p, 'w) fs_ops) \<Rightarrow> u32 \<Rightarrow> int \<Rightarrow> u32 \<Rightarrow> int \<Rightarrow> ('o, 'p, 'w) stdio \<Rightarrow> (int \<times> ('o, 'p, 'w) stdio) option" where
  "scan_string_loop D f width destination count s =
     (if \<not> (width = 0 \<or> count < width) then Some (count, s)
      else do {
        (c, s) \<leftarrow> fgetc D (Some f) s;
        if c = EOF then Some (count, s)
        else if scan_is_space c then Some (count, snd (ungetc c (Some f) s))
        else scan_string_loop D f width destination (count + 1) (store_byte (destination + of_int count) (of_int c) s)
      })"

definition scan_string ::
  "('o \<Rightarrow> ('o, 'p, 'w) fs_ops) \<Rightarrow> u32 \<Rightarrow> int \<Rightarrow> va_value list \<Rightarrow> ('o, 'p, 'w) stdio \<Rightarrow> (int \<times> va_value list \<times> ('o, 'p, 'w) stdio) option" where
  "scan_string D f width args s =
     do {
       (r, s) \<leftarrow> scan_skip_space D f s;
       if r = EOF then Some (EOF, args, s)
       else do {
         (destination, args) \<leftarrow> va_store args;
         (count, s) \<leftarrow> scan_string_loop D f width destination 0 s;
         Some (if count = 0 then (0, args, s) else (1, args, store_byte (destination + of_int count) 0 s))
       }
     }"

partial_function (option) scan_characters_loop ::
  "('o \<Rightarrow> ('o, 'p, 'w) fs_ops) \<Rightarrow> u32 \<Rightarrow> int \<Rightarrow> u32 \<Rightarrow> int \<Rightarrow> ('o, 'p, 'w) stdio \<Rightarrow> (int \<times> ('o, 'p, 'w) stdio) option" where
  "scan_characters_loop D f wanted destination count s =
     (if \<not> count < wanted then Some (1, s)
      else do {
        (c, s) \<leftarrow> fgetc D (Some f) s;
        if c = EOF then Some (if count = 0 then EOF else 0, s)
        else scan_characters_loop D f wanted destination (count + 1) (store_byte (destination + of_int count) (of_int c) s)
      })"

definition scan_characters ::
  "('o \<Rightarrow> ('o, 'p, 'w) fs_ops) \<Rightarrow> u32 \<Rightarrow> int \<Rightarrow> va_value list \<Rightarrow> ('o, 'p, 'w) stdio \<Rightarrow> (int \<times> va_value list \<times> ('o, 'p, 'w) stdio) option" where
  "scan_characters D f width args s =
     do {
       (destination, args) \<leftarrow> va_store args;
       (r, s) \<leftarrow> scan_characters_loop D f (if width \<noteq> 0 then width else 1) destination 0 s;
       Some (r, args, s)
     }"

primrec scan_width :: "string \<Rightarrow> int \<Rightarrow> (int \<times> string) option" where
  "scan_width [] width = Some (width, [])"
| "scan_width (c # fmt) width =
     (if isdigit c then
        let width = width * 10 + (of_char c - 48) in if width > 2147483647 then None else scan_width fmt width
      else Some (width, c # fmt))"

text \<open>The spaces of the input that a space of the format takes.\<close>

definition scan_spaces :: "('o \<Rightarrow> ('o, 'p, 'w) fs_ops) \<Rightarrow> u32 \<Rightarrow> ('o, 'p, 'w) stdio \<Rightarrow> ('o, 'p, 'w) stdio option" where
  "scan_spaces D f s = do { (_, s) \<leftarrow> scan_skip_space D f s; Some s }"

partial_function (option) scanf_loop ::
  "('o \<Rightarrow> ('o, 'p, 'w) fs_ops) \<Rightarrow> u32 \<Rightarrow> string \<Rightarrow> va_value list \<Rightarrow> int \<Rightarrow> ('o, 'p, 'w) stdio \<Rightarrow> (int \<times> ('o, 'p, 'w) stdio) option" where
  "scanf_loop D f fmt args assignments s =
     (case fmt of
        [] \<Rightarrow> Some (assignments, s)
      | c # rest \<Rightarrow>
          if scan_is_space (of_char c) then do {
            s \<leftarrow> scan_spaces D f s;
            scanf_loop D f (dropWhile (\<lambda>c. scan_is_space (of_char c)) rest) args assignments s
          }
          else if c \<noteq> CHR ''%'' \<or> rest \<noteq> [] \<and> hd rest = CHR ''%'' then do {
            (i, s) \<leftarrow> fgetc D (Some f) s;
            if i = EOF then Some (if assignments \<noteq> 0 then assignments else EOF, s)
            else if i \<noteq> of_char c then Some (assignments, snd (ungetc i (Some f) s))
            else scanf_loop D f (if c \<noteq> CHR ''%'' then rest else tl rest) args assignments s
          }
          else if rest = [] then Some (assignments, s)
          else do {
            (width, rest) \<leftarrow> scan_width rest 0;
            (if rest = [] then Some (assignments, s)
             else if hd rest \<notin> set ''duxcs'' then Some (assignments, s)
             else do {
               (result, args, s) \<leftarrow>
                 (if hd rest = CHR ''d'' \<or> hd rest = CHR ''u'' then scan_integer D f 10 width args s
                  else if hd rest = CHR ''x'' then scan_integer D f 16 width args s
                  else if hd rest = CHR ''c'' then scan_characters D f width args s
                  else scan_string D f width args s);
               if result = EOF then Some (if assignments \<noteq> 0 then assignments else EOF, s)
               else if result = 0 then Some (assignments, s)
               else scanf_loop D f (tl rest) args (assignments + 1) s
             })
          })"

definition vfscanf ::
  "('o \<Rightarrow> ('o, 'p, 'w) fs_ops) \<Rightarrow> u32 option \<Rightarrow> string option \<Rightarrow> va_value list \<Rightarrow> ('o, 'p, 'w) stdio \<Rightarrow> (int \<times> ('o, 'p, 'w) stdio) option" where
  "vfscanf D stream fmt args s =
     (case (stream, fmt) of
        (Some f, Some str) \<Rightarrow> scanf_loop D f str args 0 s
      | _ \<Rightarrow> Some (EOF, s))"

definition fscanf :: "('o \<Rightarrow> ('o, 'p, 'w) fs_ops) \<Rightarrow> u32 option \<Rightarrow> string option \<Rightarrow> va_value list \<Rightarrow> ('o, 'p, 'w) stdio \<Rightarrow> (int \<times> ('o, 'p, 'w) stdio) option" where
  "fscanf D stream fmt args s = vfscanf D stream fmt args s"

definition scanf :: "('o \<Rightarrow> ('o, 'p, 'w) fs_ops) \<Rightarrow> string option \<Rightarrow> va_value list \<Rightarrow> ('o, 'p, 'w) stdio \<Rightarrow> (int \<times> ('o, 'p, 'w) stdio) option" where
  "scanf D fmt args s = vfscanf D (Some stdin_stream) fmt args s"

end
