(* ===== verification/PrintfSpec.thy ===== *)
theory PrintfSpec
  imports Scanf
begin

text \<open>
  Numbers as text: the positional notation of a number, the field that it fills, and the proof that the loops of
  \<open>printf\<close> write exactly that into a buffer of 256 bytes.
\<close>

section \<open>Positional notation\<close>

function digits_of :: "nat \<Rightarrow> nat \<Rightarrow> nat list" where
  "digits_of b n = (if n div b = 0 \<or> b < 2 then [] else digits_of b (n div b)) @ [n mod b]"
  by auto
termination
  by (relation "measure (\<lambda>(_, n). n)") (auto simp: div_greater_zero_iff intro!: div_less_dividend)

declare digits_of.simps [simp del]

lemma digits_of_not_Nil [simp]: "digits_of b n \<noteq> []"
  by (subst digits_of.simps) simp

lemma digits_of_less: "b \<ge> 2 \<Longrightarrow> d \<in> set (digits_of b n) \<Longrightarrow> d < b"
proof (induction b n rule: digits_of.induct)
  case (1 b n)
  have "digits_of b n = (if n div b = 0 then [] else digits_of b (n div b)) @ [n mod b]"
    using 1(2) by (subst digits_of.simps) simp
  then consider "d = n mod b" | "n div b \<noteq> 0" "d \<in> set (digits_of b (n div b))"
    using 1(3) by (auto split: if_splits)
  then show ?case using 1(1) [OF _ 1(2)] 1(2) by cases auto
qed

text \<open>Reading the digits back, from the most significant one.\<close>

definition number_of :: "nat \<Rightarrow> nat list \<Rightarrow> nat" where
  "number_of b ds = foldl (\<lambda>n d. n * b + d) 0 ds"

lemma number_of_digits: "b \<ge> 2 \<Longrightarrow> number_of b (digits_of b n) = n"
proof (induction b n rule: digits_of.induct)
  case (1 b n)
  show ?case
  proof (cases "n div b = 0")
    case True
    then have "n mod b = n" using 1(2) by (simp add: div_eq_0_iff)
    then show ?thesis using True by (subst digits_of.simps) (simp add: number_of_def)
  next
    case False
    then have "number_of b (digits_of b (n div b)) = n div b" using 1 by simp
    then show ?thesis using False 1(2) by (subst digits_of.simps) (simp add: number_of_def)
  qed
qed

lemma digits_of_length: "b \<ge> 2 \<Longrightarrow> n < b ^ k \<Longrightarrow> 0 < k \<Longrightarrow> length (digits_of b n) \<le> k"
proof (induction b n arbitrary: k rule: digits_of.induct)
  case (1 b n)
  show ?case
  proof (cases "n div b = 0")
    case True
    then show ?thesis using 1 by (subst digits_of.simps) simp
  next
    case False
    then have "k \<noteq> 1" using 1(3) by (cases "k = 1") auto
    then obtain j where k: "k = Suc j" "0 < j" using 1(4) by (cases k) auto
    then have "n div b < b ^ j" using 1(3) by (simp add: less_mult_imp_div_less mult.commute)
    then show ?thesis using 1(1) [of j] 1(2) False k by (subst digits_of.simps) simp
  qed
qed

section \<open>The loops\<close>

lemma unat_div_u64: "unat (x div y :: u64) = unat x div unat y"
  by (rule unat_div)

lemma count_digits_run: "base \<ge> 2 \<Longrightarrow> count_digits base x p = p + length (digits_of (unat base) (unat x))"
proof (induction base x p rule: count_digits.induct)
  case (1 base x p)
  have b: "unat base \<ge> 2" using 1(2) by (simp add: word_le_nat_alt)
  have zero: "x div base \<noteq> 0 \<longleftrightarrow> unat x div unat base \<noteq> 0" by (simp add: unat_div_u64 [symmetric] unat_eq_zero)
  show ?case
    using 1 b zero by (subst count_digits.simps, subst digits_of.simps) (simp add: Let_def unat_div_u64)
qed

lemma fill_digits_run:
  "base \<ge> 2 \<Longrightarrow> p = length pre + length (digits_of (unat base) (unat x)) \<Longrightarrow> length junk = length (digits_of (unat base) (unat x)) \<Longrightarrow>
   fill_digits base digit x p (pre @ junk @ rest) = pre @ map (\<lambda>i. digit ! i) (digits_of (unat base) (unat x)) @ rest"
proof (induction base digit x p "pre @ junk @ rest" arbitrary: junk rest rule: fill_digits.induct)
  case (1 base digit x p)
  let ?b = "unat base" and ?n = "unat x"
  have b: "?b \<ge> 2" using 1(2) by (simp add: word_le_nat_alt)
  have zero: "(x div base \<noteq> 0 \<and> base \<ge> 2) \<longleftrightarrow> ?n div ?b \<noteq> 0"
    using 1(2) by (simp add: unat_div_u64 [symmetric] unat_eq_zero)
  define j where "j = butlast junk"
  have junk: "junk = j @ [last junk]" using 1(4) by (cases junk rule: rev_cases) (auto simp: j_def)
  have d: "digits_of ?b ?n = (if ?n div ?b = 0 then [] else digits_of ?b (?n div ?b)) @ [?n mod ?b]"
    using b by (subst digits_of.simps) simp
  have "length junk = Suc (length j)" by (subst junk) simp
  then have lj: "length j = length (if ?n div ?b = 0 then [] else digits_of ?b (?n div ?b))"
    using 1(4) d by simp
  have p: "p - 1 = length pre + length j" using 1(3) lj d by simp
  have buf: "(pre @ junk @ rest)[p - 1 := digit ! unat (x mod base)] = pre @ j @ (digit ! (?n mod ?b)) # rest"
    unfolding p by (subst junk) (simp add: list_update_append unat_mod)
  show ?case
  proof (cases "?n div ?b = 0")
    case True
    have "fill_digits base digit x p (pre @ junk @ rest) = pre @ j @ (digit ! (?n mod ?b)) # rest"
      by (subst fill_digits.simps) (simp only: Let_def buf zero True simp_thms if_False)
    then show ?thesis using True lj d by simp
  next
    case False
    have step: "fill_digits base digit x p (pre @ junk @ rest) =
        fill_digits base digit (x div base) (p - 1) (pre @ j @ (digit ! (?n mod ?b)) # rest)"
      by (subst fill_digits.simps) (simp only: Let_def buf zero False simp_thms if_True)
    have "fill_digits base digit (x div base) (p - 1) (pre @ j @ (digit ! (?n mod ?b)) # rest) =
        pre @ map (\<lambda>i. digit ! i) (digits_of ?b (unat (x div base))) @ (digit ! (?n mod ?b)) # rest"
    proof (rule 1(1) [OF buf [symmetric] refl])
      show "x div base \<noteq> 0 \<and> 2 \<le> base" using zero False by simp
    qed (use 1(2) False lj p in \<open>simp_all add: unat_div_u64\<close>)
    then show ?thesis unfolding step using False d by (simp add: unat_div_u64)
  qed
qed

section \<open>The text of a number\<close>

definition base_value :: "int \<Rightarrow> nat" where
  "base_value base = (if base = 17 then 16 else nat base)"

definition digit_text :: "int \<Rightarrow> nat \<Rightarrow> string" where
  "digit_text base n = map (\<lambda>i. digit_table base ! i) (digits_of (base_value base) n)"

lemma bases: "base \<in> {8, 10, 16, 17} \<Longrightarrow> \<not> base_refused base \<and> base_value base \<ge> 2 \<and> base_value base \<le> 16 \<and>
    unat (of_int (if base = 17 then 16 else base) :: u64) = base_value base"
  by (auto simp: base_refused_def base_value_def)

lemma number_digits_text:
  assumes "base \<in> {8, 10, 16, 17}"
  shows "number_digits base value sign = sign @ digit_text base (unat value)"
proof -
  let ?b = "of_int (if base = 17 then 16 else base) :: u64"
  note b = bases [OF assms]
  then have two: "?b \<ge> 2" by (simp add: word_le_nat_alt)
  have "fill_digits ?b (digit_table base) value (length sign + length (digits_of (unat ?b) (unat value)))
      (sign @ replicate (length (digits_of (unat ?b) (unat value))) nul @ []) =
      sign @ map (\<lambda>i. digit_table base ! i) (digits_of (unat ?b) (unat value)) @ []"
    by (rule fill_digits_run [OF two refl]) simp
  then show ?thesis using b by (simp add: number_digits_def Let_def count_digits_run [OF two] digit_text_def)
qed

lemma digit_text_length: "base \<in> {8, 10, 16, 17} \<Longrightarrow> n < 2 ^ 64 \<Longrightarrow> length (digit_text base n) \<le> 64 \<and> digit_text base n \<noteq> []"
proof -
  assume b: "base \<in> {8, 10, 16, 17}" and n: "n < 2 ^ 64"
  have "(2 :: nat) ^ 64 \<le> base_value base ^ 64" using bases [OF b] by (intro power_mono) auto
  then have "n < base_value base ^ 64" using n by linarith
  then show ?thesis using digits_of_length [of "base_value base" n 64] bases [OF b] by (auto simp: digit_text_def)
qed

lemma digit_table_values:
  "digit_table 8 = ''0123456789'' @ replicate 22 nul"
  "digit_table 10 = ''0123456789'' @ replicate 22 nul"
  "digit_table 16 = ''0123456789ABCDEF'' @ replicate 16 nul"
  "digit_table 17 = ''0123456789abcdef'' @ replicate 16 nul"
  by (simp_all add: digit_table_def)

lemma digit_chars:
  assumes "base \<in> {8, 10, 16, 17}" "i < base_value base"
  shows "digit_table base ! i \<in> set (if base = 17 then ''0123456789abcdef'' else if base = 16 then ''0123456789ABCDEF'' else ''0123456789'')"
proof -
  consider "base = 8" "i < 10" | "base = 10" "i < 10" | "base = 16" "i < 16" | "base = 17" "i < 16"
    using assms by (fastforce simp: base_value_def)
  then show ?thesis
    by cases (simp_all only: digit_table_values nth_append, simp_all add: nth_mem del: set_simps)
qed

text \<open>A field of a given width: the sign, the digits, and the padding in its place.\<close>

definition field_text :: "string \<Rightarrow> string \<Rightarrow> nat \<Rightarrow> bool \<Rightarrow> bool \<Rightarrow> string" where
  "field_text sign digits width left zero =
     (let padding = width - length (sign @ digits)
      in if left then sign @ digits @ replicate padding (CHR '' '')
         else if zero then sign @ replicate padding (CHR ''0'') @ digits
         else replicate padding (CHR '' '') @ sign @ digits)"

lemma field_text_length: "length (field_text sign digits width left zero) = max width (length (sign @ digits))"
  by (auto simp: field_text_def Let_def)

lemma pad_number_field:
  assumes "length (sign @ digits) \<le> 255" "width \<le> 255" "length sign \<le> 1" "digits \<noteq> []"
    "sign = (if with_sign \<and> (hd (sign @ digits) = CHR ''-'' \<or> hd (sign @ digits) = CHR ''+'' \<or> hd (sign @ digits) = CHR '' '')
       then [hd (sign @ digits)] else [])"
  shows "pad_number (sign @ digits) (int width) left zero with_sign = field_text sign digits width left zero"
proof -
  let ?b = "sign @ digits"
  have pad: "min (nat (if int width - int (length ?b) < 0 then 0 else int width - int (length ?b))) (255 - m) = width - length ?b"
    if "m \<le> length ?b" for m using that assms(2) by (auto simp: min_def nat_diff_distrib)
  show ?thesis
  proof (cases left)
    case True
    then show ?thesis by (simp only: pad_number_def field_text_def Let_def if_True pad [OF order_refl] append_assoc)
  next
    case False
    let ?sign = "if with_sign \<and> zero \<and> ?b \<noteq> [] \<and> (hd ?b = CHR ''-'' \<or> hd ?b = CHR ''+'' \<or> hd ?b = CHR '' '') then [hd ?b] else []"
    let ?s = "if with_sign \<and> (hd ?b = CHR ''-'' \<or> hd ?b = CHR ''+'' \<or> hd ?b = CHR '' '') then [hd ?b] else []"
    have "?sign = (if zero then ?s else [])" using assms(4) by simp
    then have sign: "?sign = (if zero then sign else [])" by (simp only: assms(5) [symmetric])
    let ?a = "(if zero then sign else []) @ replicate (width - length ?b) (if zero then CHR ''0'' else CHR '' '')"
    have "length ((if zero then sign else [])) \<le> length ?b" by simp
    note pad = pad [OF this]
    have room: "length (drop (length (if zero then sign else [])) ?b) \<le> 255 - length ?a"
      using assms(1,2) by (cases zero; simp; linarith)
    have "pad_number ?b (int width) left zero with_sign = ?a @ take (255 - length ?a) (drop (length (if zero then sign else [])) ?b)"
      using False by (simp only: pad_number_def Let_def sign pad if_False)
    also have "\<dots> = ?a @ drop (length (if zero then sign else [])) ?b"
      by (simp only: take_all [OF room])
    finally show ?thesis using False by (simp add: field_text_def Let_def)
  qed
qed

lemma clamp_padding_nat: "clamp_padding w = int (min (nat w) 255)"
  by (auto simp: clamp_padding_def Let_def)

lemma digit_text_hd:
  assumes "base \<in> {8, 10, 16, 17}"
  shows "hd (digit_text base n) \<notin> {CHR ''-'', CHR ''+'', CHR '' ''}"
proof -
  have two: "base_value base \<ge> 2" using bases [OF assms] by simp
  obtain d where d: "d \<in> set (digits_of (base_value base) n)" "hd (digit_text base n) = digit_table base ! d"
    by (metis digit_text_def digits_of_not_Nil hd_in_set hd_map)
  show ?thesis using digit_chars [OF assms digits_of_less [OF two d(1)]] d(2) by (auto split: if_splits)
qed

definition sign_text :: "u64 \<Rightarrow> bool \<Rightarrow> bool \<Rightarrow> string" where
  "sign_text i plus_sign blank = (if i <s 0 then ''-'' else if plus_sign then ''+'' else if blank then '' '' else [])"

lemma magnitude: "unat (if i <s 0 then - (i + 1) + 1 else i) = nat \<bar>sint i\<bar>" for i :: u64
proof (cases "i <s 0")
  case True
  have "unat (- i) = nat (- sint i)"
  proof -
    have "uint (of_int (- sint i) :: u64) = (- sint i) mod 2 ^ 64" by (simp only: uint_word_of_int) simp
    then have "uint (- i) = (- sint i) mod 2 ^ 64" by simp
    moreover have "sint i < 0" "sint i \<ge> - (2 ^ 63)" using True sint_ge [of i] by (auto simp: word_sless_alt)
    ultimately have "uint (- i) = - sint i" by simp
    then show ?thesis by (metis unat_eq_nat_uint)
  qed
  then show ?thesis using True by (simp add: word_sless_alt)
next
  case False
  then have pos: "sint i \<ge> 0" by (simp add: word_sless_alt)
  moreover have "sint i < 2 ^ 64" using sint_lt [of i] by simp
  ultimately have "sint i mod 2 ^ 64 = sint i" by (rule mod_pos_pos_trivial)
  moreover have "uint (of_int (sint i) :: u64) = sint i mod 2 ^ 64" by (simp only: uint_word_of_int) simp
  ultimately have "sint i = uint i" by (simp only: of_int_sint scast_id)
  then have "nat \<bar>sint i\<bar> = unat i" using pos by (simp only: unat_eq_nat_uint abs_of_nonneg)
  then show ?thesis using False by (simp only: if_False)
qed

section \<open>What the number routines return\<close>

lemma int_str_text:
  assumes "base \<in> {8, 10, 16, 17}"
  shows "int_str i base plus_sign blank w left zero =
    field_text (sign_text i plus_sign blank) (digit_text base (nat \<bar>sint i\<bar>)) (min (nat w) 255) left zero"
proof -
  let ?sign = "sign_text i plus_sign blank" and ?n = "nat \<bar>sint i\<bar>"
  have n: "?n < 2 ^ 64" using unsigned_less [of "if i <s 0 then - (i + 1) + 1 else i", where ?'a = nat] by (simp only: magnitude [symmetric]) simp
  note digits = digit_text_length [OF assms n]
  have sign: "length ?sign \<le> 1" "?sign = (if True \<and> (hd (?sign @ digit_text base ?n) = CHR ''-'' \<or>
      hd (?sign @ digit_text base ?n) = CHR ''+'' \<or> hd (?sign @ digit_text base ?n) = CHR '' '') then [hd (?sign @ digit_text base ?n)] else [])"
    using digit_text_hd [OF assms, of ?n] by (auto simp: sign_text_def)
  have "int_str i base plus_sign blank w left zero =
      pad_number (number_digits base (if i <s 0 then - (i + 1) + 1 else i) ?sign) (clamp_padding w) left zero True"
    using bases [OF assms] by (simp add: int_str_def sign_text_def Let_def)
  also have "\<dots> = pad_number (?sign @ digit_text base ?n) (int (min (nat w) 255)) left zero True"
    by (simp only: number_digits_text [OF assms] magnitude clamp_padding_nat)
  also have "\<dots> = field_text ?sign (digit_text base ?n) (min (nat w) 255) left zero"
    by (rule pad_number_field) (use digits sign in auto)
  finally show ?thesis .
qed

lemma uint_str_text:
  assumes "base \<in> {8, 10, 16, 17}"
  shows "uint_str i base w left zero = field_text [] (digit_text base (unat i)) (min (nat w) 255) left zero"
proof -
  note digits = digit_text_length [OF assms, of "unat i"]
  have "uint_str i base w left zero = pad_number ([] @ digit_text base (unat i)) (int (min (nat w) 255)) left zero False"
    using bases [OF assms] by (simp add: uint_str_def number_digits_text [OF assms] clamp_padding_nat)
  also have "\<dots> = field_text [] (digit_text base (unat i)) (min (nat w) 255) left zero"
    by (rule pad_number_field) (use digits unsigned_less [of i] in auto)
  finally show ?thesis .
qed

end
