(* ===== verification/StdioOutput.thy ===== *)
theory StdioOutput
  imports PrintfSpec
begin

text \<open>
  Streams on the terminal: what has been delivered is the text on the terminal followed by the bytes that wait in the
  buffer, and every output routine appends its data to it, in each of the three buffering modes.
\<close>

section \<open>Buffers in memory\<close>

lemma memory_byte_store [simp]: "memory_byte (store_byte a b s) x = (if x = a then b else memory_byte s x)"
  by (simp add: memory_byte_def store_byte_def set_heap_def Let_def)

lemma memory_byte_frame [simp]:
  "memory_byte (set_stream f g s) x = memory_byte s x" "memory_byte (terminal_write bs s) x = memory_byte s x"
  "memory_byte (s\<lparr>key_answers := k\<rparr>) x = memory_byte s x"
  by (simp_all add: memory_byte_def set_stream_def terminal_write_def)

lemma memory_bytes_frame [simp]:
  "memory_bytes (set_stream f g s) a n = memory_bytes s a n" "memory_bytes (terminal_write bs s) a n = memory_bytes s a n"
  "memory_bytes (s\<lparr>key_answers := k\<rparr>) a n = memory_bytes s a n"
  by (simp_all add: memory_bytes_def)

lemma memory_bytes_0 [simp]: "memory_bytes s a 0 = []"
  by (simp add: memory_bytes_def)

lemma store_byte_frame [simp]:
  "streams (store_byte a b s) = streams s" "terminal (store_byte a b s) = terminal s" "key_answers (store_byte a b s) = key_answers s"
  by (simp_all add: store_byte_def set_heap_def Let_def)

lemma store_bytes_frame [simp]:
  "streams (store_bytes bs a s) = streams s" "terminal (store_bytes bs a s) = terminal s" "key_answers (store_bytes bs a s) = key_answers s"
  by (induction bs arbitrary: a s) simp_all

lemma offsets_apart: "unat (a :: u32) + n < 2 ^ 32 \<Longrightarrow> i < n \<Longrightarrow> a + of_nat i \<noteq> a + of_nat n"
proof
  assume less: "unat a + n < 2 ^ 32" "i < n" and eq: "a + of_nat i = a + of_nat n"
  have "unat (of_nat i :: u32) = i" "unat (of_nat n :: u32) = n" using less by (simp_all add: unat_of_nat take_bit_nat_eq_self)
  then show False using eq less by simp
qed

lemma memory_bytes_store_byte:
  assumes "unat a + n < 2 ^ 32"
  shows "memory_bytes (store_byte (a + of_nat n) c s) a (Suc n) = memory_bytes s a n @ [c]"
  using offsets_apart [OF assms] by (auto simp: memory_bytes_def)

lemma memory_bytes_store_bytes:
  "unat a + n + length bs \<le> 2 ^ 32 \<Longrightarrow>
   memory_bytes (store_bytes bs (a + of_nat n) s) a (n + length bs) = memory_bytes s a n @ bs"
proof (induction bs arbitrary: n s)
  case (Cons b bs)
  have "memory_bytes (store_bytes bs (a + of_nat (Suc n)) (store_byte (a + of_nat n) b s)) a (Suc n + length bs) =
      memory_bytes (store_byte (a + of_nat n) b s) a (Suc n) @ bs"
    by (rule Cons.IH) (use Cons.prems in simp)
  also have "\<dots> = memory_bytes s a n @ b # bs" using Cons.prems by (simp add: memory_bytes_store_byte)
  finally show ?case by (simp add: add.assoc add.commute [of 1])
qed simp

section \<open>Terminal streams\<close>

definition buffered :: "('o, 'p, 'w) stdio \<Rightarrow> u32 \<Rightarrow> bool" where
  "buffered s f \<longleftrightarrow> write_buffer (streams s f) \<noteq> None \<and> write_buffer_size (streams s f) \<noteq> 0"

definition terminal_stream :: "('o, 'p, 'w) stdio \<Rightarrow> u32 \<Rightarrow> bool" where
  "terminal_stream s f \<longleftrightarrow>
     (let st = streams s f
      in stream_flags st AND IO_WRITE \<noteq> 0 \<and> (stream_fd st = 1 \<or> stream_fd st = 2) \<and>
         (case write_buffer st of
            None \<Rightarrow> write_buffer_used st = 0
          | Some b \<Rightarrow> write_buffer_used st \<le> write_buffer_size st \<and> unat b + unat (write_buffer_size st) \<le> 2 ^ 32))"

definition pending :: "('o, 'p, 'w) stdio \<Rightarrow> u32 \<Rightarrow> u8 list" where
  "pending s f = (case write_buffer (streams s f) of None \<Rightarrow> [] | Some b \<Rightarrow> memory_bytes s b (unat (write_buffer_used (streams s f))))"

definition delivered :: "('o, 'p, 'w) stdio \<Rightarrow> u32 \<Rightarrow> u8 list" where
  "delivered s f = terminal s @ pending s f"

text \<open>What an output routine does to a terminal stream, and what it leaves alone.\<close>

definition appends :: "u32 \<Rightarrow> u8 list \<Rightarrow> ('o, 'p, 'w) stdio \<Rightarrow> ('o, 'p, 'w) stdio \<Rightarrow> bool" where
  "appends f bytes s s' \<longleftrightarrow>
     terminal_stream s' f \<and> delivered s' f = delivered s f @ bytes \<and> key_answers s' = key_answers s \<and>
     (\<exists>u. streams s' = (streams s)(f := (streams s f)\<lparr>write_buffer_used := u\<rparr>))"

lemma stream_same_used: "st\<lparr>write_buffer_used := write_buffer_used st\<rparr> = (st :: stream)"
  by (cases st) simp

lemma stream_used_add: "write_buffer_used_update (\<lambda>n. n + c) st = (st :: stream)\<lparr>write_buffer_used := write_buffer_used st + c\<rparr>"
  by (cases st) simp

lemma appends_refl [simp]: "terminal_stream s f \<Longrightarrow> appends f [] s s"
  by (auto simp: appends_def intro!: exI [of _ "write_buffer_used (streams s f)"] simp: stream_same_used)

lemma appends_trans: "appends f xs s s' \<Longrightarrow> appends f ys s' s'' \<Longrightarrow> appends f (xs @ ys) s s''"
  by (auto simp: appends_def)

lemma appends_stream: "appends f xs s s' \<Longrightarrow> terminal_stream s' f"
  by (simp add: appends_def)

lemma appends_buffered: "appends f xs s s' \<Longrightarrow> buffered s' f = buffered s f"
  by (auto simp: appends_def buffered_def)

lemma appends_buffer: "appends f xs s s' \<Longrightarrow> write_buffer (streams s' f) = write_buffer (streams s f) \<and>
    write_buffer_size (streams s' f) = write_buffer_size (streams s f) \<and> stream_fd (streams s' f) = stream_fd (streams s f)"
  by (auto simp: appends_def)

section \<open>Writing\<close>

text \<open>Without a buffer a byte goes straight to the terminal.\<close>

lemma appends_terminal: "terminal_stream s f \<Longrightarrow> \<not> buffered s f \<Longrightarrow> appends f bs s (terminal_write bs s)"
  apply (auto simp: appends_def buffered_def terminal_stream_def Let_def delivered_def pending_def terminal_write_def
      memory_bytes_def memory_byte_def stream_same_used split: option.splits intro!: exI [of _ "write_buffer_used (streams s f)"])
  done

lemma fflush_appends:
  assumes "terminal_stream s f"
  shows "\<exists>s'. fflush D (Some f) s = Some (0, s') \<and> appends f [] s s' \<and> write_buffer_used (streams s' f) = 0"
proof (cases "write_buffer_used (streams s f) = 0")
  case True
  then show ?thesis using assms by (auto simp: fflush_def Let_def terminal_stream_def)
next
  case False
  then obtain b where b: "write_buffer (streams s f) = Some b"
    using assms by (auto simp: terminal_stream_def Let_def split: option.splits)
  let ?s = "set_stream f (write_buffer_used_update (\<lambda>_. 0)) (terminal_write (memory_bytes s b (unat (write_buffer_used (streams s f)))) s)"
  have "fflush D (Some f) s = Some (0, ?s)"
    using assms b False by (simp add: fflush_def Let_def terminal_stream_def)
  moreover have "appends f [] s ?s"
    using assms b by (auto simp: appends_def terminal_stream_def Let_def delivered_def pending_def set_stream_def terminal_write_def)
  moreover have "write_buffer_used (streams ?s f) = 0" by (simp add: set_stream_def)
  ultimately show ?thesis by blast
qed

text \<open>Bytes that fit into the buffer.\<close>

lemma store_appends:
  assumes "terminal_stream s f" "write_buffer (streams s f) = Some b"
    "unat (write_buffer_used (streams s f)) + length bs \<le> unat (write_buffer_size (streams s f))"
  shows "appends f bs s (set_stream f (write_buffer_used_update (\<lambda>n. n + of_nat (length bs)))
      (store_bytes bs (b + write_buffer_used (streams s f)) s))"
proof -
  let ?used = "write_buffer_used (streams s f)" and ?size = "write_buffer_size (streams s f)"
  have wf: "unat b + unat ?size \<le> 2 ^ 32" using assms(1,2) by (simp add: terminal_stream_def Let_def)
  have size: "unat ?size < 4294967296" by (rule unat_u32_bound)
  have len: "unat (of_nat (length bs) :: u32) = length bs"
    by (rule u32_of_nat_unat) (use assms(3) size in linarith)
  have used: "unat (?used + of_nat (length bs)) = unat ?used + length bs"
    using unat_add_u32 [of ?used "of_nat (length bs)"] assms(3) size unfolding len by linarith
  have "memory_bytes (store_bytes bs (b + of_nat (unat ?used)) s) b (unat ?used + length bs) = memory_bytes s b (unat ?used) @ bs"
    by (rule memory_bytes_store_bytes) (use wf assms(3) in linarith)
  then show ?thesis using assms wf used
    by (auto simp: appends_def terminal_stream_def Let_def delivered_def pending_def set_stream_def terminal_write_def word_le_nat_alt
        memory_bytes_def memory_byte_def stream_used_add)
qed

lemma u32_less_add: "(x :: u32) < y \<Longrightarrow> unat c \<le> unat y - unat x \<Longrightarrow> unat (x + c) = unat x + unat c"
  unfolding word_less_nat_alt by (rule unat_add_u32) (use unat_u32_bound [of y] in linarith)

text \<open>The loop of a buffered stream. It stores at least one byte in every round, so that it ends.\<close>

lemma buffer_loop_appends:
  assumes "terminal_stream s f" "buffered s f" "consumed \<le> tot" "unat tot \<le> length data"
  shows "\<exists>s'. buffer_loop D f data tot consumed s = Some (True, tot, s') \<and>
    appends f (drop (unat consumed) (take (unat tot) data)) s s'"
  using assms
proof (induction "unat tot - unat consumed" arbitrary: consumed s rule: less_induct)
  case less
  note ts = less.prems(1) and bf = less.prems(2)
  show ?case
  proof (cases "consumed < tot")
    case False
    then have "consumed = tot" using less.prems(3) by simp
    then show ?thesis using ts by (subst buffer_loop.simps) simp
  next
    case True
    let ?available = "write_buffer_size (streams s f) - write_buffer_used (streams s f)"
    obtain s1 where s1: "(if ?available = 0 then fflush D (Some f) s else Some (0, s)) = Some (0, s1)" "appends f [] s s1"
        "?available = 0 \<longrightarrow> write_buffer_used (streams s1 f) = 0" "?available \<noteq> 0 \<longrightarrow> s1 = s"
      using fflush_appends [OF ts, of D] ts by (cases "?available = 0") auto
    note ts1 = appends_stream [OF s1(2)] and bf1 = appends_buffered [OF s1(2)] and same = appends_buffer [OF s1(2)]
    obtain b where b: "write_buffer (streams s1 f) = Some b" and size: "write_buffer_size (streams s1 f) \<noteq> 0"
      using bf bf1 by (auto simp: buffered_def)
    define avail where "avail = (if ?available = 0 then write_buffer_size (streams s1 f) else ?available)"
    have used: "unat (write_buffer_used (streams s1 f)) \<le> unat (write_buffer_size (streams s1 f))"
      using ts1 b by (simp add: terminal_stream_def Let_def word_le_nat_alt)
    have room: "avail \<noteq> 0" "unat (write_buffer_used (streams s1 f)) + unat avail = unat (write_buffer_size (streams s1 f))"
      using s1(3,4) used same size by (auto simp: avail_def unat_sub_u32 word_le_nat_alt)
    have continue: "\<exists>s'. buffer_loop D f data tot (consumed + c) s2 = Some (True, tot, s') \<and>
        appends f (drop (unat consumed) (take (unat tot) data)) s s'"
      if s2: "appends f (take (unat c) (drop (unat consumed) data)) s s2" and c: "c \<noteq> 0" "unat c \<le> unat tot - unat consumed" for c s2
    proof -
      have next_consumed: "unat (consumed + c) = unat consumed + unat c" by (rule u32_less_add [OF True c(2)])
      have cpos: "unat c > 0" using c(1) by (simp add: unat_gt_0)
      obtain s' where s': "buffer_loop D f data tot (consumed + c) s2 = Some (True, tot, s')"
          "appends f (drop (unat (consumed + c)) (take (unat tot) data)) s2 s'"
      proof -
        have "unat tot - unat (consumed + c) < unat tot - unat consumed" "consumed + c \<le> tot"
          using c(2) next_consumed True cpos by (simp_all add: word_le_nat_alt word_less_nat_alt)
        then show thesis
          using less.hyps [OF _ appends_stream [OF s2]] appends_buffered [OF s2] bf less.prems(4) that by blast
      qed
      have "take (unat c) (drop (unat consumed) data) @ drop (unat (consumed + c)) (take (unat tot) data) =
          drop (unat consumed) (take (unat tot) data)"
      proof -
        have "take (unat c) (drop (unat consumed) data) = take (unat c) (drop (unat consumed) (take (unat tot) data))"
          using c(2) by (simp add: drop_take min_def)
        then show ?thesis unfolding next_consumed by (metis add.commute append_take_drop_id drop_drop)
      qed
      then show ?thesis using s' appends_trans [OF s2 s'(2)] by auto
    qed
    have one: "take (unat (1 :: u32)) (drop (unat consumed) data) = [data ! unat consumed]"
      using True less.prems(4) by (simp add: word_less_nat_alt take_Suc_conv_app_nth hd_drop_conv_nth take_Suc)
    have fits: "unat (write_buffer_used (streams s1 f)) + n \<le> unat (write_buffer_size (streams s1 f))" if "n \<le> unat avail" for n
      using room(2) that by linarith
    have avail: "unat avail > 0" using room(1) by (simp add: unat_gt_0)
    note unfolded = buffer_loop.simps [of D f data tot consumed s]
    show ?thesis
    proof (cases "buffering_mode (streams s1 f) = IOLBF")
      case line: True
      define c where "c = data ! unat consumed"
      define s2 where "s2 = set_stream f (write_buffer_used_update (\<lambda>n. n + 1)) (store_byte (b + write_buffer_used (streams s1 f)) c s1)"
      have s2: "appends f [c] s1 s2"
        using store_appends [OF ts1 b, of "[c]"] fits [of 1] avail by (simp add: s2_def)
      then have two: "appends f [c] s s2" using appends_trans [OF s1(2) s2] by simp
      have "unat (1 :: u32) \<le> unat tot - unat consumed" using True by (simp add: word_less_nat_alt)
      note continue = continue [of 1, unfolded one, folded c_def, OF _ _ this]
      show ?thesis
      proof (cases "c = of_char (CHR 0x0A) \<or> write_buffer_used (streams s2 f) = write_buffer_size (streams s2 f)")
        case flush: True
        obtain s3 where s3: "fflush D (Some f) s2 = Some (0, s3)" "appends f [] s2 s3"
          using fflush_appends [OF appends_stream [OF s2], of D] by blast
        have "appends f [c] s s3" using appends_trans [OF two s3(2)] by simp
        moreover have "buffer_loop D f data tot consumed s = buffer_loop D f data tot (consumed + 1) s3"
          unfolding unfolded using True s1(1) b line flush s3(1)
          by (simp add: Let_def EOF_def c_def [symmetric] s2_def [symmetric] del: if_split split del: if_split)
        ultimately show ?thesis using continue [of s3] by simp
      next
        case no_flush: False
        have "buffer_loop D f data tot consumed s = buffer_loop D f data tot (consumed + 1) s2"
          unfolding unfolded using True s1(1) b line no_flush
          by (simp add: Let_def EOF_def c_def [symmetric] s2_def [symmetric] del: if_split split del: if_split)
        then show ?thesis using continue [of s2] two by simp
      qed
    next
      case full: False
      define chunk where "chunk = (if tot - consumed < avail then tot - consumed else avail)"
      define bs where "bs = take (unat chunk) (drop (unat consumed) data)"
      define s2 where "s2 = set_stream f (write_buffer_used_update (\<lambda>n. n + chunk)) (store_bytes bs (b + write_buffer_used (streams s1 f)) s1)"
      have remaining: "unat (tot - consumed) = unat tot - unat consumed" using less.prems(3) by (simp add: unat_sub_u32 word_le_nat_alt)
      have chunk: "unat chunk \<le> unat avail" "unat chunk \<le> unat tot - unat consumed" "chunk \<noteq> 0"
        using remaining room(1) True by (auto simp: chunk_def word_less_nat_alt unat_eq_zero [symmetric])
      have "length bs = unat chunk" using chunk(2) less.prems(4) by (auto simp: bs_def)
      then have "appends f bs s1 s2"
        using store_appends [OF ts1 b, of bs] fits [OF chunk(1)] by (simp add: s2_def)
      then have two: "appends f bs s s2" using appends_trans [OF s1(2)] by fastforce
      have "buffer_loop D f data tot consumed s = buffer_loop D f data tot (consumed + chunk) s2"
        unfolding unfolded s2_def bs_def chunk_def avail_def using True s1(1) b full
        by (simp add: Let_def EOF_def del: right_minus_eq split del: if_split)
      then show ?thesis using continue [OF two [unfolded bs_def] chunk(3,2)] by simp
    qed
  qed
qed

lemma uint_not_EOF [simp]: "uint (x :: u8) \<noteq> - 1"
  using uint_ge_0 [of x] by linarith

text \<open>The loop of a stream without a buffer, byte after byte.\<close>

lemma fputc_via_unbuffered:
  assumes "terminal_stream s f" "\<not> buffered s f"
  shows "fputc_via w c (Some f) s = Some (uint (of_int c :: u8), terminal_write [of_int c] s)"
  using assms by (auto simp: fputc_via_def terminal_stream_def buffered_def Let_def)

lemma element_loop_appends:
  assumes "terminal_stream s f" "\<not> buffered s f" "unat sz * unat nmemb < 2 ^ 32" "unat sz * unat nmemb \<le> length data"
    "element = nmemb \<and> byte = 0 \<or> element < nmemb \<and> byte \<le> sz"
  shows "\<exists>s'. element_loop f data sz nmemb element byte s = Some (nmemb, s') \<and>
    appends f (drop (unat element * unat sz + unat byte) (take (unat sz * unat nmemb) data)) s s'"
  using assms
proof (induction "(unat nmemb - unat element) * (unat sz + 1) - unat byte" arbitrary: element byte s rule: less_induct)
  case less
  let ?m = "(unat nmemb - unat element) * (unat sz + 1) - unat byte"
  show ?case
  proof (cases "element < nmemb")
    case False
    then show ?thesis using less.prems by (subst element_loop.simps) (auto simp: mult.commute)
  next
    case True
    then have next_element: "unat (element + 1) = unat element + 1" by (simp add: unat_inc_u32 word_less_nat_alt)
    obtain k where k: "unat nmemb = unat element + Suc k" using True unfolding word_less_nat_alt by (metis less_imp_Suc_add add_Suc_right)
    show ?thesis
    proof (cases "byte < sz")
      case False
      then have byte: "byte = sz" using less.prems(5) True by auto
      have smaller: "(unat nmemb - unat (element + 1)) * (unat sz + 1) - unat (0 :: u32) < ?m"
        unfolding next_element k byte by simp
      have "element + 1 = nmemb \<and> (0 :: u32) = 0 \<or> element + 1 < nmemb \<and> 0 \<le> sz"
        using k next_element by (auto simp: word_less_nat_alt u32_eq_iff)
      then obtain s' where "element_loop f data sz nmemb (element + 1) 0 s = Some (nmemb, s')"
          "appends f (drop (unat (element + 1) * unat sz + unat (0 :: u32)) (take (unat sz * unat nmemb) data)) s s'"
        using less.hyps [OF smaller less.prems(1-4)] by blast
      then show ?thesis using True False byte by (subst element_loop.simps) (simp add: next_element add.commute [of "unat sz"])
    next
      case byte: True
      let ?i = "unat element * unat sz + unat byte"
      have i: "?i < unat sz * unat nmemb"
      proof -
        have "?i < unat element * unat sz + unat sz" using byte by (simp add: word_less_nat_alt)
        also have "\<dots> \<le> unat sz * unat nmemb" unfolding k by (simp add: algebra_simps)
        finally show ?thesis .
      qed
      have index: "unat (element * sz + byte) = ?i"
        using i less.prems(3) by (simp add: unat_add_u32 unat_mult_u32)
      have next_byte: "unat (byte + 1) = unat byte + 1" using byte by (simp add: unat_inc_u32 word_less_nat_alt)
      let ?s = "terminal_write [data ! ?i] s"
      note step = appends_terminal [OF less.prems(1,2), of "[data ! ?i]"]
      have "unat byte < ?m + unat byte" using k byte by (simp add: word_less_nat_alt)
      then have smaller: "(unat nmemb - unat element) * (unat sz + 1) - unat (byte + 1) < ?m" unfolding next_byte by linarith
      have "element = nmemb \<and> byte + 1 = 0 \<or> element < nmemb \<and> byte + 1 \<le> sz"
        using True byte next_byte by (simp add: word_le_nat_alt word_less_nat_alt)
      then obtain s' where s': "element_loop f data sz nmemb element (byte + 1) ?s = Some (nmemb, s')"
          "appends f (drop (unat element * unat sz + unat (byte + 1)) (take (unat sz * unat nmemb) data)) ?s s'"
        using less.hyps [OF smaller appends_stream [OF step]] appends_buffered [OF step] less.prems(2-4) by blast
      have "element_loop f data sz nmemb element byte s = Some (nmemb, s')"
        using True byte s'(1)
        by (subst element_loop.simps) (simp add: fputc_via_unbuffered [OF less.prems(1,2)] index EOF_def)
      moreover have "[data ! ?i] @ drop (unat element * unat sz + unat (byte + 1)) (take (unat sz * unat nmemb) data) =
          drop ?i (take (unat sz * unat nmemb) data)"
        using i less.prems(4) unfolding next_byte by (simp add: Cons_nth_drop_Suc [symmetric])
      ultimately show ?thesis using appends_trans [OF step s'(2)] by auto
    qed
  qed
qed

lemma fwrite_appends:
  assumes "terminal_stream s f" "unat sz * unat nmemb < 2 ^ 32" "unat sz * unat nmemb \<le> length data"
  shows "\<exists>s'. fwrite D (Some data) sz nmemb (Some f) s = Some (if sz = 0 then 0 else nmemb, s') \<and>
    appends f (take (unat sz * unat nmemb) data) s s'"
proof (cases "sz = 0 \<or> nmemb = 0")
  case True
  then show ?thesis using assms(1) by (auto simp: fwrite_def)
next
  case False
  have product: "unat (sz * nmemb) = unat sz * unat nmemb" using assms(2) by (simp add: unat_mult_u32)
  have "unat nmemb \<le> unat (SIZE_MAX div sz)"
  proof -
    have "unat nmemb * unat sz \<le> unat SIZE_MAX" using assms(2) by (simp add: SIZE_MAX_def mult.commute)
    then show ?thesis using False by (simp add: unat_div less_eq_div_iff_mult_less_eq unat_gt_0)
  qed
  then have limit: "\<not> nmemb > SIZE_MAX div sz" by (simp only: word_less_nat_alt not_less)
  have flags: "stream_flags (streams s f) AND IO_WRITE \<noteq> 0" "\<not> stream_fd (streams s f) \<ge> KERNEL_FD_FIRST"
    using assms(1) by (auto simp: terminal_stream_def Let_def KERNEL_FD_FIRST_def)
  show ?thesis
  proof (cases "buffered s f")
    case True
    have "\<exists>s'. buffer_loop D f data (sz * nmemb) 0 s = Some (True, sz * nmemb, s') \<and>
        appends f (drop (unat (0 :: u32)) (take (unat (sz * nmemb)) data)) s s'"
      by (rule buffer_loop_appends [OF assms(1) True]) (simp_all add: product assms(3))
    then show ?thesis using True False flags limit assms(3) by (auto simp: fwrite_def buffered_def product)
  next
    case unbuffered: False
    have "\<exists>s'. element_loop f data sz nmemb 0 0 s = Some (nmemb, s') \<and>
        appends f (drop (unat (0 :: u32) * unat sz + unat (0 :: u32)) (take (unat sz * unat nmemb) data)) s s'"
      by (rule element_loop_appends [OF assms(1) unbuffered assms(2,3)]) (use False in \<open>simp add: word_neq_0_conv\<close>)
    then show ?thesis using unbuffered False flags limit assms(3) by (auto simp: fwrite_def buffered_def product)
  qed
qed

lemma fputc_appends:
  assumes "terminal_stream s f"
  shows "\<exists>s'. fputc D c (Some f) s = Some (uint (of_int c :: u8), s') \<and> appends f [of_int c] s s'"
proof (cases "buffered s f")
  case True
  obtain s' where "fwrite D (Some [of_int c]) 1 1 (Some f) s = Some (1, s')" "appends f [of_int c] s s'"
    using fwrite_appends [OF assms, of 1 1 "[of_int c]" D] by auto
  then show ?thesis using True assms by (auto simp: fputc_def fputc_via_def buffered_def terminal_stream_def Let_def)
next
  case False
  then show ?thesis using appends_terminal [OF assms False] by (auto simp: fputc_def fputc_via_unbuffered [OF assms False])
qed

definition text_bytes :: "string \<Rightarrow> u8 list" where
  "text_bytes = map of_char"

lemma text_bytes_simps [simp]: "text_bytes [] = []" "text_bytes (c # str) = of_char c # text_bytes str"
  "text_bytes (xs @ ys) = text_bytes xs @ text_bytes ys"
  by (simp_all add: text_bytes_def)

lemma displayCharacter_appends:
  assumes "terminal_stream s f"
  shows "\<exists>s'. displayCharacter D f c (n, s) = Some (n + 1, s') \<and> appends f [of_char c] s s'"
  using fputc_appends [OF assms, of D "of_char c"] by (auto simp: displayCharacter_def EOF_def of_int_of_char)

lemma displayString_appends:
  "terminal_stream s f \<Longrightarrow>
   \<exists>s'. displayString D f str (n, s) = Some (n + int (length str), s') \<and> appends f (text_bytes str) s s'"
proof (induction str arbitrary: n s)
  case (Cons c str)
  obtain s1 where s1: "displayCharacter D f c (n, s) = Some (n + 1, s1)" "appends f [of_char c] s s1"
    using displayCharacter_appends [OF Cons.prems] by blast
  obtain s2 where s2: "displayString D f str (n + 1, s1) = Some (n + 1 + int (length str), s2)" "appends f (text_bytes str) s1 s2"
    using Cons.IH [OF appends_stream [OF s1(2)]] by blast
  show ?case using s1(1) s2(1) appends_trans [OF s1(2) s2(2)] by simp
qed simp

end
