(* ===== verification/PrintfProps.thy ===== *)
theory PrintfProps
  imports StdioOutput FdProps
begin

text \<open>
  Formatted output and formatted input together: what the keyboard routines read, the numbers that \<open>printf\<close> prints
  as \<open>scanf\<close> reads them, and the streams at the edges of their contracts.
\<close>

section \<open>Keyboard input\<close>

text \<open>The characters that a keyboard stream will deliver: the one pushed back and the answers of the keyboard.\<close>

definition typed :: "('o, 'p, 'w) stdio \<Rightarrow> u32 \<Rightarrow> int list \<Rightarrow> bool" where
  "typed s f cs \<longleftrightarrow>
     stream_flags (streams s f) AND IO_READ \<noteq> 0 \<and> stream_fd (streams s f) = 0 \<and>
     (\<exists>keys rest. key_answers s = map Some keys @ rest \<and>
        cs = (if has_pushback (streams s f) then [pushback (streams s f)] else []) @ map of_char keys)"

text \<open>A routine consumes \<open>cs\<close> from the keyboard and leaves memory as it is.\<close>

definition reads :: "u32 \<Rightarrow> int list \<Rightarrow> ('o, 'p, 'w) stdio \<Rightarrow> ('o, 'p, 'w) stdio \<Rightarrow> bool" where
  "reads f cs s s' \<longleftrightarrow> typed s' f cs \<and> (\<forall>a. memory_byte s' a = memory_byte s a)"

lemma fgetc_typed:
  assumes "typed s f (c # cs)"
  shows "\<exists>s'. fgetc D (Some f) s = Some (c, s') \<and> reads f cs s s' \<and> \<not> has_pushback (streams s' f)"
proof (cases "has_pushback (streams s f)")
  case True
  then show ?thesis using assms by (auto simp: fgetc_def typed_def reads_def Let_def set_stream_def memory_byte_def)
next
  case False
  then obtain k keys rest where "key_answers s = Some k # map Some keys @ rest" "c = of_char k" "cs = map of_char keys"
    using assms by (auto simp: typed_def)
  then show ?thesis using assms False by (auto simp: fgetc_def typed_def reads_def Let_def keyboard_wait_def memory_byte_def)
qed

lemma ungetc_typed:
  assumes "typed s f cs" "\<not> has_pushback (streams s f)" "c \<noteq> EOF"
  shows "fst (ungetc c (Some f) s) = c \<and> reads f (c # cs) s (snd (ungetc c (Some f) s))"
proof -
  have "(x AND NOT IO_EOF) AND IO_READ = x AND IO_READ" for x :: u32
    by (rule bit_word_eqI) (auto simp: IO_EOF_def IO_READ_def bit_simps)
  then show ?thesis using assms by (auto simp: ungetc_def typed_def reads_def Let_def set_stream_def memory_byte_def)
qed

lemma reads_trans: "reads f xs s s' \<Longrightarrow> reads f ys s' s'' \<Longrightarrow> reads f ys s s''"
  by (simp add: reads_def)

lemma reads_typed: "reads f xs s s' \<Longrightarrow> typed s' f xs"
  by (simp add: reads_def)

text \<open>Looking at the next character.\<close>

lemma peek_typed:
  assumes "typed s f (c # cs)" "c \<noteq> EOF"
  shows "\<exists>s'. fgetc D (Some f) s = Some (c, s') \<and> reads f (c # cs) s (snd (ungetc c (Some f) s'))"
proof -
  obtain s' where s': "fgetc D (Some f) s = Some (c, s')" "reads f cs s s'" "\<not> has_pushback (streams s' f)"
    using fgetc_typed [OF assms(1)] by blast
  then show ?thesis using ungetc_typed [OF reads_typed [OF s'(2)] s'(3) assms(2)] reads_trans [OF s'(2)] by blast
qed

lemma scan_skip_space_typed:
  assumes "typed s f (c # cs)" "c \<noteq> EOF" "\<not> scan_is_space c"
  shows "\<exists>s'. scan_skip_space D f s = Some (0, s') \<and> reads f (c # cs) s s'"
  using peek_typed [OF assms(1,2), of D] assms(2,3) by (subst scan_skip_space.simps) auto

lemma scan_digits_typed:
  "typed s f (ds @ c # cs) \<Longrightarrow> c \<noteq> EOF \<Longrightarrow> scan_digit_value c base < 0 \<Longrightarrow> \<forall>d \<in> set ds. d \<noteq> EOF \<and> \<not> scan_digit_value d base < 0 \<Longrightarrow>
   \<exists>s'. scan_digits_loop D f base 0 consumed value digits s =
       Some (foldl (\<lambda>v d. v * of_int base + of_int (scan_digit_value d base)) value ds, digits + int (length ds), s') \<and>
     reads f (c # cs) s s'"
proof (induction ds arbitrary: s consumed "value" digits)
  case Nil
  then show ?case using peek_typed [of s f c cs D] by (subst scan_digits_loop.simps) auto
next
  case (Cons d ds)
  obtain s1 where s1: "fgetc D (Some f) s = Some (d, s1)" "reads f (ds @ c # cs) s s1"
    using fgetc_typed [of s f d "ds @ c # cs"] Cons.prems(1) by auto
  obtain s2 where s2: "scan_digits_loop D f base 0 (consumed + 1) (value * of_int base + of_int (scan_digit_value d base)) (digits + 1) s1 =
       Some (foldl (\<lambda>v d. v * of_int base + of_int (scan_digit_value d base)) (value * of_int base + of_int (scan_digit_value d base)) ds,
         digits + 1 + int (length ds), s2)" "reads f (c # cs) s1 s2"
    using Cons.IH [OF reads_typed [OF s1(2)]] Cons.prems by fastforce
  show ?case using s1(1) s2(1) reads_trans [OF s1(2) s2(2)] Cons.prems(4) by (subst scan_digits_loop.simps) (simp add: Let_def)
qed

section \<open>Numbers printed and read back\<close>

text \<open>The digits of a base that \<open>scanf\<close> knows, as characters.\<close>

definition scan_base :: "int \<Rightarrow> int" where
  "scan_base base = (if base = 17 then 16 else base)"

lemma scan_digit_table:
  assumes "base \<in> {10, 16, 17}" "i < base_value base"
  shows "scan_digit_value (of_char (digit_table base ! i)) (scan_base base) = int i"
proof -
  have "\<forall>i \<in> set [0..<10]. scan_digit_value (of_char (digit_table 10 ! i)) 10 = int i"
    "\<forall>i \<in> set [0..<16]. scan_digit_value (of_char (digit_table 16 ! i)) 16 = int i"
    "\<forall>i \<in> set [0..<16]. scan_digit_value (of_char (digit_table 17 ! i)) 16 = int i"
    by (simp_all add: upt_rec digit_table_values scan_digit_value_def Let_def)
  then show ?thesis using assms by (auto simp: scan_base_def base_value_def)
qed

lemma not_EOF_char [simp]: "of_char c \<noteq> EOF"
  using of_nat_0_le_iff [of "of_char c", where ?'a = int] by (simp add: EOF_def of_nat_of_char)

lemma scan_digits_text:
  assumes "typed s f (map of_char (digit_text base n) @ 10 # cs)" "base \<in> {10, 16, 17}"
  shows "\<exists>s' digits. scan_digits_loop D f (scan_base base) 0 consumed 0 0 s = Some (of_nat n, digits, s') \<and> digits \<noteq> 0 \<and> reads f (10 # cs) s s'"
proof -
  let ?ds = "digits_of (base_value base) n" and ?c = "\<lambda>i. of_char (digit_table base ! i)"
  have base: "base \<in> {8, 10, 16, 17}" using assms(2) by blast
  have two: "base_value base \<ge> 2" using bases [OF base] by simp
  have chars: "map of_char (digit_text base n) = map ?c ?ds" by (simp add: digit_text_def)
  have each: "scan_digit_value (?c i) (scan_base base) = int i" if "i \<in> set ?ds" for i
    using scan_digit_table [OF assms(2) digits_of_less [OF two that]] .
  have step: "foldl (\<lambda>v d. v * of_int (scan_base base) + of_int (scan_digit_value d (scan_base base))) (of_nat m) (map ?c ds) =
      (of_nat (foldl (\<lambda>n d. n * base_value base + d) m ds) :: u32)" if "set ds \<subseteq> set ?ds" for m ds
    using that
  proof (induction ds arbitrary: m)
    case (Cons d ds)
    have "(of_int (scan_base base) :: u32) = of_nat (base_value base)" using assms(2) by (auto simp: scan_base_def base_value_def)
    then have "of_nat m * of_int (scan_base base) + of_int (scan_digit_value (?c d) (scan_base base)) =
        (of_nat (m * base_value base + d) :: u32)"
      using each [of d] Cons.prems by simp
    then show ?case using Cons.IH [of "m * base_value base + d"] Cons.prems by simp
  qed simp
  have "number_of (base_value base) ?ds = n" by (rule number_of_digits [OF two])
  then have fold: "foldl (\<lambda>v d. v * of_int (scan_base base) + of_int (scan_digit_value d (scan_base base))) 0 (map ?c ?ds) = (of_nat n :: u32)"
    using step [of ?ds 0] by (simp add: number_of_def)
  have "\<forall>d \<in> set (map ?c ?ds). d \<noteq> EOF \<and> \<not> scan_digit_value d (scan_base base) < 0" using each by auto
  moreover have "scan_digit_value 10 (scan_base base) < 0" by (simp add: scan_digit_value_def)
  ultimately show ?thesis
    using scan_digits_typed [OF assms(1) [unfolded chars], of "scan_base base" D consumed 0 0] by (auto simp: fold EOF_def)
qed

lemma sign_text_values: "sign_text i False False = (if sint i < 0 then ''-'' else [])"
  by (simp add: sign_text_def word_sless_alt)

lemma unsigned_text: "field_text [] digits 0 left zero = digits"
  by (simp add: field_text_def)

lemma digit_not_special: "\<not> scan_digit_value c base < 0 \<Longrightarrow> \<not> scan_is_space c \<and> c \<noteq> 43 \<and> c \<noteq> 45"
  by (auto simp: scan_digit_value_def scan_is_space_def split: if_splits)

lemma digit_text_Cons:
  assumes "base \<in> {10, 16, 17}"
  shows "\<exists>c str. digit_text base n = c # str \<and> \<not> scan_digit_value (of_char c) (scan_base base) < 0"
proof -
  have base: "base \<in> {8, 10, 16, 17}" using assms by blast
  then have two: "base_value base \<ge> 2" using bases by blast
  obtain d ds where ds: "digits_of (base_value base) n = d # ds" by (meson digits_of_not_Nil neq_Nil_conv)
  have "d < base_value base" using digits_of_less [OF two, of d n] ds by simp
  then show ?thesis using scan_digit_table [OF assms, of d] by (auto simp: digit_text_def ds)
qed

lemma memory_word_stored: "unat a + 4 \<le> 2 ^ 32 \<Longrightarrow> memory_bytes (store_bytes (word_bytes w) a s) a 4 = word_bytes w"
  using memory_bytes_store_bytes [of a 0 "word_bytes w" s] by (simp add: word_bytes_def)

lemma scan_integer_text:
  assumes "typed s f (map of_char (minus_text @ digit_text base n) @ 10 # cs)" "base \<in> {10, 16, 17}" "minus_text = [] \<or> minus_text = ''-''" "unat a + 4 \<le> 2 ^ 32"
  shows "\<exists>s'. scan_integer D f (scan_base base) 0 (Va_Store a # args) s = Some (1, args, s') \<and>
    memory_bytes s' a 4 = word_bytes (if minus_text = [] then of_nat n else - of_nat n)"
proof -
  define line where "line = map of_char (minus_text @ digit_text base n) @ 10 # cs"
  obtain c rest where c: "line = c # rest" "\<not> scan_is_space c" "c \<noteq> EOF" "c \<noteq> 43" "c = 45 \<longleftrightarrow> minus_text \<noteq> []"
    using assms(3) digit_text_Cons [OF assms(2), of n] digit_not_special by (auto simp: line_def scan_is_space_def EOF_def of_char_def)
  obtain s1 where s1: "scan_skip_space D f s = Some (0, s1)" "typed s1 f (c # rest)"
    using scan_skip_space_typed [OF assms(1) [folded line_def, unfolded c(1)] c(3,2), of D] reads_typed by metis
  obtain s2 where s2: "fgetc D (Some f) s1 = Some (c, s2)" "typed s2 f rest" "\<not> has_pushback (streams s2 f)"
    using fgetc_typed [OF s1(2), of D] reads_typed by blast
  define s3 where "s3 = (if c = 45 then s2 else snd (ungetc c (Some f) s2))"
  have "typed s3 f (map of_char (digit_text base n) @ 10 # cs)"
  proof (cases "c = 45")
    case True
    then have "rest = map of_char (digit_text base n) @ 10 # cs" using c(1,5) assms(3) by (auto simp: line_def)
    then show ?thesis using s2(2) True by (simp add: s3_def)
  next
    case False
    then have "c # rest = map of_char (digit_text base n) @ 10 # cs" using c(1,5) by (simp add: line_def)
    then show ?thesis using ungetc_typed [OF s2(2,3) c(3)] False by (simp add: s3_def reads_def)
  qed
  then obtain s4 digits where s4: "scan_digits_loop D f (scan_base base) 0 (if c = 45 then 1 else 0) 0 0 s3 = Some (of_nat n, digits, s4)" "digits \<noteq> 0"
    using scan_digits_text [OF _ assms(2)] by blast
  have "scan_integer D f (scan_base base) 0 (Va_Store a # args) s =
      Some (1, args, store_bytes (word_bytes (if c = 45 then 0 - of_nat n else of_nat n)) a s4)"
    using c(4) c(3) [unfolded EOF_def] s4 by (simp add: scan_integer_def s1(1) s2(1) c(3) EOF_def s3_def [symmetric] Let_def del: One_nat_def)
  then show ?thesis using memory_word_stored [OF assms(4)] c(5) by auto
qed

text \<open>The text that a plain integer conversion prints.\<close>

definition integer_base :: "char \<Rightarrow> int" where
  "integer_base c = (if c = CHR ''x'' then 17 else if c = CHR ''X'' then 16 else 10)"

definition integer_text :: "char \<Rightarrow> u32 \<Rightarrow> string" where
  "integer_text c w =
     (if c = CHR ''d'' \<or> c = CHR ''i''
      then (if sint w < 0 then ''-'' else []) @ digit_text 10 (nat \<bar>sint w\<bar>)
      else digit_text (integer_base c) (unat w))"

lemma parse_plain: "c \<in> set ''diuxX'' \<Longrightarrow> parse_directive [c] args = Some (plain_directive, nul, [c], args)"
proof -
  have "parse_directive [c] args = Some (plain_directive, nul, [c], args)"
    if c: "c \<notin> set ''-+# 0*.hljztL''" "\<not> isdigit c"
  proof -
    have flags: "parse_flags [c] plain_directive = (plain_directive, [c])" using c by simp
    have width: "parse_width [c] plain_directive args = Some (plain_directive, [c], args)"
      using c by (simp add: parse_width_def at_def) (simp add: plain_directive_def)
    have precision: "parse_precision [c] plain_directive args = Some (plain_directive, [c], args)"
      using c by (simp add: parse_precision_def at_def)
    have modifier: "parse_modifier [c] = (nul, [c])" using c by (simp add: parse_modifier_def at_def)
    show ?thesis by (simp add: parse_directive_def flags width precision modifier del: parse_flags.simps)
  qed
  moreover assume "c \<in> set ''diuxX''"
  then have "c \<notin> set ''-+# 0*.hljztL''" "\<not> isdigit c" by (auto simp: isdigit_def)
  ultimately show ?thesis by blast
qed

lemma printf_loop_plain:
  assumes "c \<in> set ''diuxX''"
  shows "printf_loop D f [CHR ''%'', c] [Va_Word w] x =
    map_option snd (convert D f plain_directive nul c [Va_Word w] x)"
proof -
  have last: "printf_loop D f [] args x = Some x" for args x by (subst printf_loop.simps) simp
  show ?thesis
    by (subst printf_loop.simps) (simp add: parse_plain [OF assms] at_def last map_option_case split: option.split prod.split)
qed

lemma convert_plain:
  assumes "c \<in> set ''diuxX''"
  shows "convert D f plain_directive nul c [Va_Word w] x = map_option (Pair []) (displayString D f (integer_text c w) x)"
proof -
  have "sint (scast w :: u64) = sint w" by (rule sint_up_scast) (simp add: is_up)
  then have "integer_text c w = (if c = CHR ''d'' \<or> c = CHR ''i'' then int_str (scast w) 10 False False 0 False False
      else uint_str (ucast w) (integer_base c) 0 False False)"
    by (auto simp: integer_text_def int_str_text uint_str_text sign_text_values field_text_def integer_base_def unat_ucast_u64)
  note chars = this
  show ?thesis
  proof (cases "c = CHR ''d'' \<or> c = CHR ''i''")
    case True
    then have "convert D f plain_directive nul c [Va_Word w] x = print_signed D f plain_directive nul [Va_Word w] x"
      by (auto simp: convert_def)
    also have "\<dots> = map_option (Pair []) (displayString D f (integer_text c w) x)"
      by (simp add: print_signed_def plain_directive_def signed_argument_def chars True map_option_case split: option.split)
    finally show ?thesis .
  next
    case False
    then have "convert D f plain_directive nul c [Va_Word w] x = print_unsigned D f plain_directive nul c [Va_Word w] x"
      using assms by (auto simp: convert_def)
    also have "\<dots> = map_option (Pair []) (displayString D f (integer_text c w) x)"
      using assms False
      by (simp add: print_unsigned_def plain_directive_def unsigned_argument_def chars Let_def integer_base_def map_option_case split: option.split)
        auto
    finally show ?thesis .
  qed
qed

lemma printf_plain:
  assumes "c \<in> set ''diuxX''" "terminal_stream s stdout_stream"
  shows "\<exists>s'. printf D (Some [CHR ''%'', c]) [Va_Word w] s = Some (int (length (integer_text c w)), s') \<and>
    appends stdout_stream (text_bytes (integer_text c w)) s s'"
  using displayString_appends [OF assms(2), of D "integer_text c w" 0]
  by (auto simp: printf_def vfprintf_def printf_loop_plain [OF assms(1)] convert_plain [OF assms(1)])

lemma scanf_loop_plain:
  assumes "q \<in> set ''dux''"
    "scan_integer D f (if q = CHR ''x'' then 16 else 10) 0 args s = Some (1, args', s')"
  shows "scanf_loop D f [CHR ''%'', q] args n s = Some (n + 1, s')"
proof -
  have last: "scanf_loop D f [] args n s = Some (n, s)" for args n s by (subst scanf_loop.simps) simp
  have "\<not> isdigit q" using assms(1) by (auto simp: isdigit_def)
  then have width: "scan_width [q] 0 = Some (0, [q])" by simp
  show ?thesis
    using assms by (subst scanf_loop.simps) (auto simp: scan_is_space_def width last EOF_def simp del: scan_width.simps)
qed

definition reading :: "char \<Rightarrow> char" where
  "reading c = (if c = CHR ''x'' \<or> c = CHR ''X'' then CHR ''x'' else if c = CHR ''u'' then CHR ''u'' else CHR ''d'')"

definition typed_line :: "('o, 'p, 'w) stdio \<Rightarrow> string \<Rightarrow> bool" where
  "typed_line t str \<longleftrightarrow>
     streams t stdin_stream = standard_stream 0 IO_READ \<and> (\<exists>rest. key_answers t = map Some str @ Some (CHR 0x0A) # rest)"

lemma scanf_plain:
  assumes "c \<in> set ''diuxX''" "unat a + 4 \<le> 2 ^ 32" "typed_line t (integer_text c w)"
  shows "\<exists>t'. scanf D (Some [CHR ''%'', reading c]) [Va_Store a] t = Some (1, t') \<and> memory_bytes t' a 4 = word_bytes w"
proof -
  let ?signed = "c = CHR ''d'' \<or> c = CHR ''i''"
  define n where "n = (if ?signed then nat \<bar>sint w\<bar> else unat w)"
  define minus_text where "minus_text = (if ?signed \<and> sint w < 0 then ''-'' else [])"
  define base where "base = integer_base c"
  have base: "base \<in> {10, 16, 17}" by (simp add: base_def integer_base_def)
  have chars: "integer_text c w = minus_text @ digit_text base n"
    by (auto simp: integer_text_def n_def minus_text_def base_def integer_base_def)
  have "typed t stdin_stream (map of_char (minus_text @ digit_text base n) @ 10 # [])"
    using assms(3) by (auto simp: typed_def typed_line_def standard_stream_def IO_READ_def chars intro!: exI [of _ "integer_text c w @ [CHR 0x0A]"])
  moreover have "minus_text = [] \<or> minus_text = ''-''" by (simp add: minus_text_def)
  ultimately obtain t' where
    t': "scan_integer D stdin_stream (scan_base base) 0 [Va_Store a] t = Some (1, [], t')"
      "memory_bytes t' a 4 = word_bytes (if minus_text = [] then of_nat n else - of_nat n)"
    using scan_integer_text [OF _ base _ assms(2), of t stdin_stream minus_text n "[]" D "[]"] by blast
  have "(if minus_text = [] then of_nat n else - of_nat n) = w"
  proof (cases ?signed)
    case True
    have "of_int (sint w) = w" by simp
    then show ?thesis using True by (auto simp: n_def minus_text_def of_nat_nat)
  next
    case False
    then show ?thesis by (simp add: n_def minus_text_def)
  qed
  moreover have "scanf_loop D stdin_stream [CHR ''%'', reading c] [Va_Store a] 0 t = Some (0 + 1, t')"
    by (rule scanf_loop_plain [where args' = "[]"])
      (use assms(1) t'(1) in \<open>auto simp: reading_def base_def scan_base_def integer_base_def\<close>)
  ultimately show ?thesis using t'(2) by (simp add: scanf_def vfscanf_def)
qed

section \<open>Streams at the edges\<close>

text \<open>A stream that was opened for reading cannot be closed: the flush at the start of \<open>fclose\<close> refuses a stream
  without the write flag, and the descriptor and the memory of the stream stay allocated.\<close>

lemma fclose_read_only:
  assumes "stream_flags (streams s f) AND IO_WRITE = 0" "f \<notin> {stdin_stream, stdout_stream, stderr_stream}"
  shows "\<exists>s'. fclose D (Some f) s = Some (EOF, s') \<and> stdio_fds s' = stdio_fds s"
  using assms by (simp add: fclose_def fflush_def Let_def stream_error_def set_stream_def EOF_def)

lemma fopen_read_only: "fopen_parse_mode (Some ''r'') = Some (IO_READ, KERNEL_FD_READ)"
  by (simp add: fopen_parse_mode_def Let_def)

lemma parse_flags_all: "set fmt \<subseteq> set ''-+# 0'' \<Longrightarrow> snd (parse_flags fmt d) = []"
  by (induction fmt arbitrary: d) auto

lemma parse_no_specifier:
  assumes "set fmt \<subseteq> set ''-+# 0''"
  shows "\<exists>d. parse_directive fmt args = Some (d, nul, [], args)"
proof -
  obtain d where d: "parse_flags fmt plain_directive = (d, [])"
    using parse_flags_all [OF assms] by (metis prod.collapse)
  show ?thesis by (auto simp: parse_directive_def d parse_width_def parse_precision_def parse_modifier_def at_def nul_def Let_def)
qed

section \<open>The properties\<close>

definition sample_stdio :: "ramfs \<Rightarrow> char option list \<Rightarrow> (ramfs_ops, nat, nat \<Rightarrow> ramfs_node) stdio" where
  "sample_stdio v keys = \<lparr>streams = standard_streams, stdio_fds = no_fds v, terminal = [], key_answers = keys\<rparr>"

text \<open>Standard output with a buffer of 8 bytes that is flushed at the end of a line.\<close>

definition sample_buffered :: "ramfs \<Rightarrow> (ramfs_ops, nat, nat \<Rightarrow> ramfs_node) stdio" where
  "sample_buffered v = set_stream stdout_stream
     (\<lambda>st. st\<lparr>write_buffer := Some 0x2000, write_buffer_size := 8, buffering_mode := IOLBF\<rparr>) (sample_stdio v [])"

lemma sample_terminal: "terminal_stream (sample_stdio v keys) stdout_stream" "terminal_stream (sample_buffered v) stdout_stream"
  by (simp_all add: terminal_stream_def sample_stdio_def sample_buffered_def standard_streams_def standard_stream_def stdin_stream_def
      stdout_stream_def IO_WRITE_def set_stream_def)

text \<open>Claim C9. Round trip of numbers through the terminal. What \<open>printf\<close> prints for a word under \<open>%d\<close>,
  \<open>%i\<close>, \<open>%u\<close>, \<open>%x\<close> or \<open>%X\<close> on a standard output in any buffering mode, and returns as its count, is a text such
  that \<open>scanf\<close> with the matching conversion stores the same word, when that text and a new line are typed at the keyboard:
  for every word, the most negative one included.\<close>

theorem printf_scanf_roundtrip:
  assumes "c \<in> set ''diuxX''" "terminal_stream s stdout_stream" "unat a + 4 \<le> 2 ^ 32"
  shows "\<exists>str s'. printf D (Some [CHR ''%'', c]) [Va_Word w] s = Some (int (length str), s') \<and>
      terminal s' @ pending s' stdout_stream = terminal s @ pending s stdout_stream @ map of_char str \<and>
      (\<forall>t. typed_line t str \<longrightarrow>
        (\<exists>t'. scanf D (Some [CHR ''%'', reading c]) [Va_Store a] t = Some (1, t') \<and> memory_bytes t' a 4 = word_bytes w))"
proof -
  obtain s' where "printf D (Some [CHR ''%'', c]) [Va_Word w] s = Some (int (length (integer_text c w)), s')"
      "appends stdout_stream (text_bytes (integer_text c w)) s s'"
    using printf_plain [OF assms(1,2), of D w] by blast
  then show ?thesis using scanf_plain [OF assms(1,3), of _ w D]
    by (intro exI [of _ "integer_text c w"] exI [of _ s']) (simp add: appends_def delivered_def text_bytes_def)
qed

theorem printf_scanf_roundtrip_witness:
  "\<exists>str s'. printf ramfs_table (Some ''%d'') [Va_Word (- 42)] (sample_buffered (ramfs_static sample_heap)) = Some (int (length str), s') \<and>
     (\<exists>t'. scanf ramfs_table (Some ''%d'') [Va_Store 0x3000]
        (sample_stdio (ramfs_static sample_heap) (map Some (str @ [CHR 0x0A]))) = Some (1, t') \<and> memory_bytes t' 0x3000 4 = word_bytes (- 42))"
proof -
  have line: "typed_line (sample_stdio (ramfs_static sample_heap) (map Some (str @ [CHR 0x0A]))) str" for str
    by (auto simp: typed_line_def sample_stdio_def standard_streams_def)
  show ?thesis
    using printf_scanf_roundtrip [of "CHR ''d''", OF _ sample_terminal(2), of "0x3000" ramfs_table "- 42"] line
    by (fastforce simp: reading_def)
qed



text \<open>Claim C19. Output is complete and in order. On a stream of the terminal, unbuffered, line buffered or fully
  buffered, with any buffer size and any bytes already waiting, \<open>fwrite\<close> returns after finitely many rounds with the count of all
  elements; the text on the terminal followed by the bytes that wait has grown by exactly the data; and a following
  \<open>fflush\<close> succeeds and leaves all of it on the terminal.\<close>

theorem terminal_output_complete:
  assumes "terminal_stream s f" "unat sz * unat nmemb < 2 ^ 32" "unat sz * unat nmemb \<le> length data" "sz \<noteq> 0"
  shows "\<exists>s1 s2. fwrite D (Some data) sz nmemb (Some f) s = Some (nmemb, s1) \<and>
      terminal s1 @ pending s1 f = terminal s @ pending s f @ take (unat sz * unat nmemb) data \<and>
      fflush D (Some f) s1 = Some (0, s2) \<and>
      terminal s2 = terminal s @ pending s f @ take (unat sz * unat nmemb) data"
proof -
  obtain s1 where s1: "fwrite D (Some data) sz nmemb (Some f) s = Some (nmemb, s1)" "appends f (take (unat sz * unat nmemb) data) s s1"
    using fwrite_appends [OF assms(1-3), of D] assms(4) by auto
  obtain s2 where s2: "fflush D (Some f) s1 = Some (0, s2)" "appends f [] s1 s2" "write_buffer_used (streams s2 f) = 0"
    using fflush_appends [OF appends_stream [OF s1(2)], of D] by blast
  have "pending s2 f = []" using s2(3) by (simp add: pending_def split: option.split)
  then show ?thesis using s1 s2 by (auto simp: appends_def delivered_def)
qed

theorem terminal_output_complete_witness:
  "\<exists>s1 s2. fwrite ramfs_table (Some (map of_char ''hello, world'')) 3 4 (Some stdout_stream) (sample_buffered (ramfs_static sample_heap)) = Some (4, s1) \<and>
     fflush ramfs_table (Some stdout_stream) s1 = Some (0, s2) \<and> terminal s2 = map of_char ''hello, world''"
proof -
  have "terminal (sample_buffered v) @ pending (sample_buffered v) stdout_stream = []" for v
    by (simp add: sample_buffered_def sample_stdio_def pending_def set_stream_def standard_streams_def standard_stream_def stdin_stream_def stdout_stream_def)
  then show ?thesis
    using terminal_output_complete [OF sample_terminal(2), of 3 4 "map of_char ''hello, world''" ramfs_table "ramfs_static sample_heap"]
    by fastforce
qed

text \<open>A format that ends within a directive. When the flags of a directive run into the end of the format,
  \<open>vfprintf\<close> prints the per cent sign and then steps over the terminating NUL: the next character is read beyond the end of the format, a
  fault, for every output stream of the terminal and every argument list. A single per cent sign at the end is handled.\<close>

theorem truncated_directive_faults:
  assumes "terminal_stream s stdout_stream" "flags \<noteq> []" "set flags \<subseteq> set ''-+# 0''"
  shows "printf D (Some (CHR ''%'' # flags)) args s = None \<and>
    (\<exists>s'. printf D (Some ''%'') args s = Some (1, s') \<and>
       terminal s' @ pending s' stdout_stream = terminal s @ pending s stdout_stream @ [of_char (CHR ''%'')])"
proof -
  obtain s1 where s1: "displayCharacter D stdout_stream (CHR ''%'') (0, s) = Some (1, s1)"
      "appends stdout_stream [of_char (CHR ''%'')] s s1"
    using displayCharacter_appends [OF assms(1), of D "CHR ''%''" 0] by auto
  obtain d where d: "parse_directive flags args = Some (d, nul, [], args)" using parse_no_specifier [OF assms(3)] by blast
  have "convert D stdout_stream d nul nul args (0, s) = Some (args, 1, s1)"
    by (simp add: convert_def s1(1) nul_def)
  then have "printf_loop D stdout_stream (CHR ''%'' # flags) args (0, s) = None"
    using assms(2) by (subst printf_loop.simps) (simp add: d at_def)
  moreover have "printf_loop D stdout_stream ''%'' args (0, s) = Some (1, s1)"
    by (subst printf_loop.simps) (simp add: s1(1))
  ultimately show ?thesis using s1(2) by (simp add: printf_def vfprintf_def appends_def delivered_def)
qed

theorem truncated_directive_faults_witness:
  "printf ramfs_table (Some ''%-'') [] (sample_stdio (ramfs_static sample_heap) []) = None"
  using truncated_directive_faults [OF sample_terminal(1), of "''-''" ramfs_table "[]"] by simp

end
