(* ===== verification/KeyCodes.thy ===== *)
theory KeyCodes
  imports LineInput
begin

text \<open>
  The keys of \<open>include/kernel/keyboard.h\<close> and the tables of \<open>kernel/device/keyboard.c\<close>: from scancodes of set 1 to keys,
  and from keys to characters. The enumeration of the keys is the range of its numbers, as in the array \<open>key_down\<close>.
\<close>

named_theorems key_codes

type_synonym keyboard_key = nat

definition KEY_UNKNOWN :: keyboard_key where [key_codes]: "KEY_UNKNOWN = 0"
definition KEY_ESCAPE :: keyboard_key where [key_codes]: "KEY_ESCAPE = 1"
definition KEY_1 :: keyboard_key where [key_codes]: "KEY_1 = 2"
definition KEY_2 :: keyboard_key where [key_codes]: "KEY_2 = 3"
definition KEY_3 :: keyboard_key where [key_codes]: "KEY_3 = 4"
definition KEY_4 :: keyboard_key where [key_codes]: "KEY_4 = 5"
definition KEY_5 :: keyboard_key where [key_codes]: "KEY_5 = 6"
definition KEY_6 :: keyboard_key where [key_codes]: "KEY_6 = 7"
definition KEY_7 :: keyboard_key where [key_codes]: "KEY_7 = 8"
definition KEY_8 :: keyboard_key where [key_codes]: "KEY_8 = 9"
definition KEY_9 :: keyboard_key where [key_codes]: "KEY_9 = 10"
definition KEY_0 :: keyboard_key where [key_codes]: "KEY_0 = 11"
definition KEY_MINUS :: keyboard_key where [key_codes]: "KEY_MINUS = 12"
definition KEY_EQUALS :: keyboard_key where [key_codes]: "KEY_EQUALS = 13"
definition KEY_BACKSPACE :: keyboard_key where [key_codes]: "KEY_BACKSPACE = 14"
definition KEY_TAB :: keyboard_key where [key_codes]: "KEY_TAB = 15"
definition KEY_Q :: keyboard_key where [key_codes]: "KEY_Q = 16"
definition KEY_W :: keyboard_key where [key_codes]: "KEY_W = 17"
definition KEY_E :: keyboard_key where [key_codes]: "KEY_E = 18"
definition KEY_R :: keyboard_key where [key_codes]: "KEY_R = 19"
definition KEY_T :: keyboard_key where [key_codes]: "KEY_T = 20"
definition KEY_Y :: keyboard_key where [key_codes]: "KEY_Y = 21"
definition KEY_U :: keyboard_key where [key_codes]: "KEY_U = 22"
definition KEY_I :: keyboard_key where [key_codes]: "KEY_I = 23"
definition KEY_O :: keyboard_key where [key_codes]: "KEY_O = 24"
definition KEY_P :: keyboard_key where [key_codes]: "KEY_P = 25"
definition KEY_LEFT_BRACKET :: keyboard_key where [key_codes]: "KEY_LEFT_BRACKET = 26"
definition KEY_RIGHT_BRACKET :: keyboard_key where [key_codes]: "KEY_RIGHT_BRACKET = 27"
definition KEY_ENTER :: keyboard_key where [key_codes]: "KEY_ENTER = 28"
definition KEY_LEFT_CTRL :: keyboard_key where [key_codes]: "KEY_LEFT_CTRL = 29"
definition KEY_A :: keyboard_key where [key_codes]: "KEY_A = 30"
definition KEY_S :: keyboard_key where [key_codes]: "KEY_S = 31"
definition KEY_D :: keyboard_key where [key_codes]: "KEY_D = 32"
definition KEY_F :: keyboard_key where [key_codes]: "KEY_F = 33"
definition KEY_G :: keyboard_key where [key_codes]: "KEY_G = 34"
definition KEY_H :: keyboard_key where [key_codes]: "KEY_H = 35"
definition KEY_J :: keyboard_key where [key_codes]: "KEY_J = 36"
definition KEY_K :: keyboard_key where [key_codes]: "KEY_K = 37"
definition KEY_L :: keyboard_key where [key_codes]: "KEY_L = 38"
definition KEY_SEMICOLON :: keyboard_key where [key_codes]: "KEY_SEMICOLON = 39"
definition KEY_APOSTROPHE :: keyboard_key where [key_codes]: "KEY_APOSTROPHE = 40"
definition KEY_GRAVE :: keyboard_key where [key_codes]: "KEY_GRAVE = 41"
definition KEY_LEFT_SHIFT :: keyboard_key where [key_codes]: "KEY_LEFT_SHIFT = 42"
definition KEY_BACKSLASH :: keyboard_key where [key_codes]: "KEY_BACKSLASH = 43"
definition KEY_Z :: keyboard_key where [key_codes]: "KEY_Z = 44"
definition KEY_X :: keyboard_key where [key_codes]: "KEY_X = 45"
definition KEY_C :: keyboard_key where [key_codes]: "KEY_C = 46"
definition KEY_V :: keyboard_key where [key_codes]: "KEY_V = 47"
definition KEY_B :: keyboard_key where [key_codes]: "KEY_B = 48"
definition KEY_N :: keyboard_key where [key_codes]: "KEY_N = 49"
definition KEY_M :: keyboard_key where [key_codes]: "KEY_M = 50"
definition KEY_COMMA :: keyboard_key where [key_codes]: "KEY_COMMA = 51"
definition KEY_PERIOD :: keyboard_key where [key_codes]: "KEY_PERIOD = 52"
definition KEY_SLASH :: keyboard_key where [key_codes]: "KEY_SLASH = 53"
definition KEY_RIGHT_SHIFT :: keyboard_key where [key_codes]: "KEY_RIGHT_SHIFT = 54"
definition KEY_KP_MULTIPLY :: keyboard_key where [key_codes]: "KEY_KP_MULTIPLY = 55"
definition KEY_LEFT_ALT :: keyboard_key where [key_codes]: "KEY_LEFT_ALT = 56"
definition KEY_SPACE :: keyboard_key where [key_codes]: "KEY_SPACE = 57"
definition KEY_CAPS_LOCK :: keyboard_key where [key_codes]: "KEY_CAPS_LOCK = 58"
definition KEY_F1 :: keyboard_key where [key_codes]: "KEY_F1 = 59"
definition KEY_F2 :: keyboard_key where [key_codes]: "KEY_F2 = 60"
definition KEY_F3 :: keyboard_key where [key_codes]: "KEY_F3 = 61"
definition KEY_F4 :: keyboard_key where [key_codes]: "KEY_F4 = 62"
definition KEY_F5 :: keyboard_key where [key_codes]: "KEY_F5 = 63"
definition KEY_F6 :: keyboard_key where [key_codes]: "KEY_F6 = 64"
definition KEY_F7 :: keyboard_key where [key_codes]: "KEY_F7 = 65"
definition KEY_F8 :: keyboard_key where [key_codes]: "KEY_F8 = 66"
definition KEY_F9 :: keyboard_key where [key_codes]: "KEY_F9 = 67"
definition KEY_F10 :: keyboard_key where [key_codes]: "KEY_F10 = 68"
definition KEY_NUM_LOCK :: keyboard_key where [key_codes]: "KEY_NUM_LOCK = 69"
definition KEY_SCROLL_LOCK :: keyboard_key where [key_codes]: "KEY_SCROLL_LOCK = 70"
definition KEY_KP_7 :: keyboard_key where [key_codes]: "KEY_KP_7 = 71"
definition KEY_KP_8 :: keyboard_key where [key_codes]: "KEY_KP_8 = 72"
definition KEY_KP_9 :: keyboard_key where [key_codes]: "KEY_KP_9 = 73"
definition KEY_KP_MINUS :: keyboard_key where [key_codes]: "KEY_KP_MINUS = 74"
definition KEY_KP_4 :: keyboard_key where [key_codes]: "KEY_KP_4 = 75"
definition KEY_KP_5 :: keyboard_key where [key_codes]: "KEY_KP_5 = 76"
definition KEY_KP_6 :: keyboard_key where [key_codes]: "KEY_KP_6 = 77"
definition KEY_KP_PLUS :: keyboard_key where [key_codes]: "KEY_KP_PLUS = 78"
definition KEY_KP_1 :: keyboard_key where [key_codes]: "KEY_KP_1 = 79"
definition KEY_KP_2 :: keyboard_key where [key_codes]: "KEY_KP_2 = 80"
definition KEY_KP_3 :: keyboard_key where [key_codes]: "KEY_KP_3 = 81"
definition KEY_KP_0 :: keyboard_key where [key_codes]: "KEY_KP_0 = 82"
definition KEY_KP_PERIOD :: keyboard_key where [key_codes]: "KEY_KP_PERIOD = 83"
definition KEY_F11 :: keyboard_key where [key_codes]: "KEY_F11 = 84"
definition KEY_F12 :: keyboard_key where [key_codes]: "KEY_F12 = 85"
definition KEY_KP_ENTER :: keyboard_key where [key_codes]: "KEY_KP_ENTER = 86"
definition KEY_RIGHT_CTRL :: keyboard_key where [key_codes]: "KEY_RIGHT_CTRL = 87"
definition KEY_KP_SLASH :: keyboard_key where [key_codes]: "KEY_KP_SLASH = 88"
definition KEY_RIGHT_ALT :: keyboard_key where [key_codes]: "KEY_RIGHT_ALT = 89"
definition KEY_HOME :: keyboard_key where [key_codes]: "KEY_HOME = 90"
definition KEY_ARROW_UP :: keyboard_key where [key_codes]: "KEY_ARROW_UP = 91"
definition KEY_PAGE_UP :: keyboard_key where [key_codes]: "KEY_PAGE_UP = 92"
definition KEY_ARROW_LEFT :: keyboard_key where [key_codes]: "KEY_ARROW_LEFT = 93"
definition KEY_ARROW_RIGHT :: keyboard_key where [key_codes]: "KEY_ARROW_RIGHT = 94"
definition KEY_END :: keyboard_key where [key_codes]: "KEY_END = 95"
definition KEY_ARROW_DOWN :: keyboard_key where [key_codes]: "KEY_ARROW_DOWN = 96"
definition KEY_PAGE_DOWN :: keyboard_key where [key_codes]: "KEY_PAGE_DOWN = 97"
definition KEY_INSERT :: keyboard_key where [key_codes]: "KEY_INSERT = 98"
definition KEY_DELETE :: keyboard_key where [key_codes]: "KEY_DELETE = 99"
definition KEY_COUNT :: keyboard_key where [key_codes]: "KEY_COUNT = 100"

section \<open>Modifiers and events\<close>

record keyboard_modifiers =
  left_shift :: bool
  right_shift :: bool
  left_ctrl :: bool
  right_ctrl :: bool
  left_alt :: bool
  right_alt :: bool
  caps_lock :: bool

definition no_modifiers :: keyboard_modifiers where
  "no_modifiers = \<lparr>left_shift = False, right_shift = False, left_ctrl = False, right_ctrl = False, left_alt = False,
     right_alt = False, caps_lock = False\<rparr>"

record keyboard_event =
  event_key :: keyboard_key
  event_pressed :: bool
  event_extended :: bool
  event_raw_scancode :: u8
  event_modifiers :: keyboard_modifiers
  event_character :: char

section \<open>Scancodes\<close>

definition normal_keys :: "keyboard_key list" where
  "normal_keys =
     [KEY_UNKNOWN, KEY_ESCAPE, KEY_1, KEY_2, KEY_3, KEY_4, KEY_5, KEY_6, KEY_7, KEY_8, KEY_9, KEY_0, KEY_MINUS,
      KEY_EQUALS, KEY_BACKSPACE, KEY_TAB, KEY_Q, KEY_W, KEY_E, KEY_R, KEY_T, KEY_Y, KEY_U, KEY_I, KEY_O, KEY_P,
      KEY_LEFT_BRACKET, KEY_RIGHT_BRACKET, KEY_ENTER, KEY_LEFT_CTRL, KEY_A, KEY_S, KEY_D, KEY_F, KEY_G, KEY_H, KEY_J,
      KEY_K, KEY_L, KEY_SEMICOLON, KEY_APOSTROPHE, KEY_GRAVE, KEY_LEFT_SHIFT, KEY_BACKSLASH, KEY_Z, KEY_X, KEY_C,
      KEY_V, KEY_B, KEY_N, KEY_M, KEY_COMMA, KEY_PERIOD, KEY_SLASH, KEY_RIGHT_SHIFT, KEY_KP_MULTIPLY, KEY_LEFT_ALT,
      KEY_SPACE, KEY_CAPS_LOCK, KEY_F1, KEY_F2, KEY_F3, KEY_F4, KEY_F5, KEY_F6, KEY_F7, KEY_F8, KEY_F9, KEY_F10,
      KEY_NUM_LOCK, KEY_SCROLL_LOCK, KEY_KP_7, KEY_KP_8, KEY_KP_9, KEY_KP_MINUS, KEY_KP_4, KEY_KP_5, KEY_KP_6,
      KEY_KP_PLUS, KEY_KP_1, KEY_KP_2, KEY_KP_3, KEY_KP_0, KEY_KP_PERIOD, KEY_UNKNOWN, KEY_UNKNOWN, KEY_UNKNOWN,
      KEY_F11, KEY_F12]"

definition decode_normal_key :: "u8 \<Rightarrow> keyboard_key" where
  "decode_normal_key code = (if unat code < length normal_keys then normal_keys ! unat code else KEY_UNKNOWN)"

definition extended_keys :: "(u8 \<times> keyboard_key) list" where
  "extended_keys =
     [(0x1C, KEY_KP_ENTER), (0x1D, KEY_RIGHT_CTRL), (0x35, KEY_KP_SLASH), (0x38, KEY_RIGHT_ALT), (0x47, KEY_HOME),
      (0x48, KEY_ARROW_UP), (0x49, KEY_PAGE_UP), (0x4B, KEY_ARROW_LEFT), (0x4D, KEY_ARROW_RIGHT), (0x4F, KEY_END),
      (0x50, KEY_ARROW_DOWN), (0x51, KEY_PAGE_DOWN), (0x52, KEY_INSERT), (0x53, KEY_DELETE)]"

definition decode_extended_key :: "u8 \<Rightarrow> keyboard_key" where
  "decode_extended_key code = (case map_of extended_keys code of None \<Rightarrow> KEY_UNKNOWN | Some k \<Rightarrow> k)"

section \<open>Characters\<close>

definition shift_active :: "keyboard_modifiers \<Rightarrow> bool" where
  "shift_active m \<longleftrightarrow> left_shift m \<or> right_shift m"

definition letters :: "(keyboard_key \<times> char) list" where
  "letters =
     [(KEY_A, CHR ''a''), (KEY_B, CHR ''b''), (KEY_C, CHR ''c''), (KEY_D, CHR ''d''), (KEY_E, CHR ''e''),
      (KEY_F, CHR ''f''), (KEY_G, CHR ''g''), (KEY_H, CHR ''h''), (KEY_I, CHR ''i''), (KEY_J, CHR ''j''),
      (KEY_K, CHR ''k''), (KEY_L, CHR ''l''), (KEY_M, CHR ''m''), (KEY_N, CHR ''n''), (KEY_O, CHR ''o''),
      (KEY_P, CHR ''p''), (KEY_Q, CHR ''q''), (KEY_R, CHR ''r''), (KEY_S, CHR ''s''), (KEY_T, CHR ''t''),
      (KEY_U, CHR ''u''), (KEY_V, CHR ''v''), (KEY_W, CHR ''w''), (KEY_X, CHR ''x''), (KEY_Y, CHR ''y''),
      (KEY_Z, CHR ''z'')]"

definition keyboard_translate_letter :: "keyboard_key \<Rightarrow> bool \<Rightarrow> char" where
  "keyboard_translate_letter key uppercase =
     (case map_of letters key of
        None \<Rightarrow> nul
      | Some c \<Rightarrow> if uppercase then char_of (of_char c - of_char (CHR ''a'') + of_char (CHR ''A'') :: int) else c)"

text \<open>The other keys with two characters, the one under shift first.\<close>

definition symbols :: "(keyboard_key \<times> char \<times> char) list" where
  "symbols =
     [(KEY_1, (CHR ''!'', CHR ''1'')), (KEY_2, (CHR ''@'', CHR ''2'')), (KEY_3, (CHR ''#'', CHR ''3'')),
      (KEY_4, (CHR ''$'', CHR ''4'')), (KEY_5, (CHR ''%'', CHR ''5'')), (KEY_6, (CHR ''^'', CHR ''6'')),
      (KEY_7, (CHR ''&'', CHR ''7'')), (KEY_8, (CHR ''*'', CHR ''8'')), (KEY_9, (CHR ''('', CHR ''9'')),
      (KEY_0, (CHR '')'', CHR ''0'')), (KEY_MINUS, (CHR ''_'', CHR ''-'')), (KEY_EQUALS, (CHR ''+'', CHR ''='')),
      (KEY_LEFT_BRACKET, (CHR ''{'', CHR ''['')), (KEY_RIGHT_BRACKET, (CHR ''}'', CHR '']'')),
      (KEY_SEMICOLON, (CHR '':'', CHR '';'')), (KEY_APOSTROPHE, (CHR 0x22, CHR 0x27)),
      (KEY_GRAVE, (CHR ''~'', CHR 0x60)), (KEY_BACKSLASH, (CHR ''|'', CHR 0x5C)),
      (KEY_COMMA, (CHR ''<'', CHR '','')), (KEY_PERIOD, (CHR ''>'', CHR ''.'')), (KEY_SLASH, (CHR ''?'', CHR ''/''))]"

definition keyboard_translate_character :: "keyboard_key \<Rightarrow> keyboard_modifiers \<Rightarrow> char" where
  "keyboard_translate_character key m =
     (let shift = shift_active m;
          letter = keyboard_translate_letter key (shift \<noteq> caps_lock m)
      in if letter \<noteq> nul then letter
         else (case map_of symbols key of
             Some (shifted, plain) \<Rightarrow> if shift then shifted else plain
           | None \<Rightarrow>
               if key = KEY_SPACE then CHR '' ''
               else if key = KEY_ENTER \<or> key = KEY_KP_ENTER then CHR 0x0A
               else if key = KEY_TAB then CHR 0x09
               else if key = KEY_BACKSPACE then CHR 0x08 else nul))"

text \<open>The escape sequences of the cursor keys.\<close>

definition terminal_keys :: "(keyboard_key \<times> string) list" where
  "terminal_keys =
     [(KEY_ARROW_UP, ''[A''), (KEY_ARROW_DOWN, ''[B''), (KEY_ARROW_RIGHT, ''[C''), (KEY_ARROW_LEFT, ''[D''),
      (KEY_HOME, ''[H''), (KEY_END, ''[F''), (KEY_DELETE, ''[3~'')]"

section \<open>Names\<close>

definition key_names :: "(keyboard_key \<times> string) list" where
  "key_names =
     [(KEY_ESCAPE, ''ESCAPE''), (KEY_1, ''1''), (KEY_2, ''2''), (KEY_3, ''3''), (KEY_4, ''4''), (KEY_5, ''5''),
      (KEY_6, ''6''), (KEY_7, ''7''), (KEY_8, ''8''), (KEY_9, ''9''), (KEY_0, ''0''), (KEY_MINUS, ''MINUS''),
      (KEY_EQUALS, ''EQUALS''), (KEY_BACKSPACE, ''BACKSPACE''), (KEY_TAB, ''TAB''), (KEY_Q, ''Q''), (KEY_W, ''W''),
      (KEY_E, ''E''), (KEY_R, ''R''), (KEY_T, ''T''), (KEY_Y, ''Y''), (KEY_U, ''U''), (KEY_I, ''I''), (KEY_O, ''O''),
      (KEY_P, ''P''), (KEY_LEFT_BRACKET, ''LEFT_BRACKET''), (KEY_RIGHT_BRACKET, ''RIGHT_BRACKET''),
      (KEY_ENTER, ''ENTER''), (KEY_LEFT_CTRL, ''LEFT_CTRL''), (KEY_A, ''A''), (KEY_S, ''S''), (KEY_D, ''D''),
      (KEY_F, ''F''), (KEY_G, ''G''), (KEY_H, ''H''), (KEY_J, ''J''), (KEY_K, ''K''), (KEY_L, ''L''),
      (KEY_SEMICOLON, ''SEMICOLON''), (KEY_APOSTROPHE, ''APOSTROPHE''), (KEY_GRAVE, ''GRAVE''),
      (KEY_LEFT_SHIFT, ''LEFT_SHIFT''), (KEY_BACKSLASH, ''BACKSLASH''), (KEY_Z, ''Z''), (KEY_X, ''X''),
      (KEY_C, ''C''), (KEY_V, ''V''), (KEY_B, ''B''), (KEY_N, ''N''), (KEY_M, ''M''), (KEY_COMMA, ''COMMA''),
      (KEY_PERIOD, ''PERIOD''), (KEY_SLASH, ''SLASH''), (KEY_RIGHT_SHIFT, ''RIGHT_SHIFT''),
      (KEY_KP_MULTIPLY, ''KP_MULTIPLY''), (KEY_LEFT_ALT, ''LEFT_ALT''), (KEY_SPACE, ''SPACE''),
      (KEY_CAPS_LOCK, ''CAPS_LOCK''), (KEY_F1, ''F1''), (KEY_F2, ''F2''), (KEY_F3, ''F3''), (KEY_F4, ''F4''),
      (KEY_F5, ''F5''), (KEY_F6, ''F6''), (KEY_F7, ''F7''), (KEY_F8, ''F8''), (KEY_F9, ''F9''), (KEY_F10, ''F10''),
      (KEY_NUM_LOCK, ''NUM_LOCK''), (KEY_SCROLL_LOCK, ''SCROLL_LOCK''), (KEY_KP_7, ''KP_7''), (KEY_KP_8, ''KP_8''),
      (KEY_KP_9, ''KP_9''), (KEY_KP_MINUS, ''KP_MINUS''), (KEY_KP_4, ''KP_4''), (KEY_KP_5, ''KP_5''),
      (KEY_KP_6, ''KP_6''), (KEY_KP_PLUS, ''KP_PLUS''), (KEY_KP_1, ''KP_1''), (KEY_KP_2, ''KP_2''),
      (KEY_KP_3, ''KP_3''), (KEY_KP_0, ''KP_0''), (KEY_KP_PERIOD, ''KP_PERIOD''), (KEY_F11, ''F11''),
      (KEY_F12, ''F12''), (KEY_KP_ENTER, ''KP_ENTER''), (KEY_RIGHT_CTRL, ''RIGHT_CTRL''),
      (KEY_KP_SLASH, ''KP_SLASH''), (KEY_RIGHT_ALT, ''RIGHT_ALT''), (KEY_HOME, ''HOME''),
      (KEY_ARROW_UP, ''ARROW_UP''), (KEY_PAGE_UP, ''PAGE_UP''), (KEY_ARROW_LEFT, ''ARROW_LEFT''),
      (KEY_ARROW_RIGHT, ''ARROW_RIGHT''), (KEY_END, ''END''), (KEY_ARROW_DOWN, ''ARROW_DOWN''),
      (KEY_PAGE_DOWN, ''PAGE_DOWN''), (KEY_INSERT, ''INSERT''), (KEY_DELETE, ''DELETE'')]"

definition keyboard_key_name :: "keyboard_key \<Rightarrow> string" where
  "keyboard_key_name key = (case map_of key_names key of None \<Rightarrow> ''UNKNOWN'' | Some n \<Rightarrow> n)"

section \<open>Modifier keys\<close>

definition keyboard_update_modifier_state :: "keyboard_key \<Rightarrow> bool \<Rightarrow> bool \<Rightarrow> keyboard_modifiers \<Rightarrow> keyboard_modifiers" where
  "keyboard_update_modifier_state key pressed was_down m =
     (if key = KEY_LEFT_SHIFT then m\<lparr>left_shift := pressed\<rparr>
      else if key = KEY_RIGHT_SHIFT then m\<lparr>right_shift := pressed\<rparr>
      else if key = KEY_LEFT_CTRL then m\<lparr>left_ctrl := pressed\<rparr>
      else if key = KEY_RIGHT_CTRL then m\<lparr>right_ctrl := pressed\<rparr>
      else if key = KEY_LEFT_ALT then m\<lparr>left_alt := pressed\<rparr>
      else if key = KEY_RIGHT_ALT then m\<lparr>right_alt := pressed\<rparr>
      else if key = KEY_CAPS_LOCK then (if pressed \<and> \<not> was_down then m\<lparr>caps_lock := \<not> caps_lock m\<rparr> else m)
      else m)"

end
