(* ===== verification/Ring.thy ===== *)
theory Ring
  imports Prelude
begin

text \<open>
  The ring buffers of the input drivers: arrays of 128 places with an index to read and one to write, of which 127 can be
  in use, and a count of the elements that found no place. The keyboard has three of them and the graphical interface one.
\<close>

record 'a ring =
  ring_cells :: "u32 \<Rightarrow> 'a"
  ring_read :: u32
  ring_write :: u32
  ring_dropped :: u32

definition ring_next_index :: "u32 \<Rightarrow> u32" where
  "ring_next_index index = (index + 1) AND (128 - 1)"

definition ring_clear :: "'a ring \<Rightarrow> 'a ring" where
  "ring_clear r = r\<lparr>ring_read := 0, ring_write := 0, ring_dropped := 0\<rparr>"

definition ring_push :: "'a \<Rightarrow> 'a ring \<Rightarrow> bool \<times> 'a ring" where
  "ring_push x r =
     (let next_index = ring_next_index (ring_write r)
      in if next_index = ring_read r then (False, r\<lparr>ring_dropped := ring_dropped r + 1\<rparr>)
         else (True, r\<lparr>ring_cells := (ring_cells r)(ring_write r := x), ring_write := next_index\<rparr>))"

definition ring_pop :: "'a ring \<Rightarrow> 'a option \<times> 'a ring" where
  "ring_pop r =
     (if ring_read r = ring_write r then (None, r)
      else (Some (ring_cells r (ring_read r)), r\<lparr>ring_read := ring_next_index (ring_read r)\<rparr>))"

definition ring_pending :: "'a ring \<Rightarrow> u32" where
  "ring_pending r =
     (if ring_write r \<ge> ring_read r then ring_write r - ring_read r else 128 - ring_read r + ring_write r)"

section \<open>The queue that a ring stands for\<close>

definition ring_ok :: "'a ring \<Rightarrow> bool" where
  "ring_ok r \<longleftrightarrow> unat (ring_read r) < 128 \<and> unat (ring_write r) < 128"

definition ring_length :: "'a ring \<Rightarrow> nat" where
  "ring_length r = (unat (ring_write r) + 128 - unat (ring_read r)) mod 128"

definition ring_content :: "'a ring \<Rightarrow> 'a list" where
  "ring_content r = map (\<lambda>i. ring_cells r (of_nat ((unat (ring_read r) + i) mod 128))) [0..<ring_length r]"

lemma ring_content_length [simp]: "length (ring_content r) = ring_length r"
  by (simp add: ring_content_def)

lemma ring_length_less: "ring_length r < 128"
  by (simp add: ring_length_def)

lemma next_index_unat: "unat i < 128 \<Longrightarrow> unat (ring_next_index i) = (unat i + 1) mod 128"
proof -
  assume i: "unat i < 128"
  have "ring_next_index i = take_bit 7 (i + 1)" by (simp add: ring_next_index_def take_bit_eq_mask mask_eq_exp_minus_1)
  then have "unat (ring_next_index i) = unat (i + 1) mod 128" by (simp add: take_bit_eq_mod u32_mod_unat)
  moreover have "unat (i + 1) = unat i + 1" using i by (simp add: unat_add_u32)
  ultimately show ?thesis by simp
qed

lemma mod_128: "x < 256 \<Longrightarrow> (x :: nat) mod 128 = (if x < 128 then x else x - 128)"
  by (simp add: mod_if)

lemma ring_clear_ok [simp]: "ring_ok (ring_clear r)" "ring_content (ring_clear r) = []" "ring_length (ring_clear r) = 0"
  by (simp_all add: ring_clear_def ring_ok_def ring_content_def ring_length_def)

lemma ring_write_at: "ring_ok r \<Longrightarrow> unat (ring_write r) = (unat (ring_read r) + ring_length r) mod 128"
  by (auto simp: ring_ok_def ring_length_def mod_128)

lemma ring_full: "ring_ok r \<Longrightarrow> ring_next_index (ring_write r) = ring_read r \<longleftrightarrow> ring_length r = 127"
  by (auto simp: ring_ok_def ring_length_def u32_eq_iff next_index_unat mod_128)

lemma ring_empty: "ring_ok r \<Longrightarrow> ring_read r = ring_write r \<longleftrightarrow> ring_length r = 0"
  unfolding ring_length_def u32_eq_iff by (subst mod_128) (auto simp: ring_ok_def)

lemma places_apart: "i < n \<Longrightarrow> n < 128 \<Longrightarrow> a < 128 \<Longrightarrow> ((a :: nat) + i) mod 128 \<noteq> (a + n) mod 128"
  by (auto simp: mod_128)

lemma ring_push_full:
  "ring_ok r \<Longrightarrow> ring_length r = 127 \<Longrightarrow> ring_push x r = (False, r\<lparr>ring_dropped := ring_dropped r + 1\<rparr>)"
  by (simp add: ring_push_def Let_def ring_full)

lemma ring_push_room:
  assumes "ring_ok r" "ring_length r \<noteq> 127"
  shows "\<exists>r'. ring_push x r = (True, r') \<and> ring_ok r' \<and> ring_content r' = ring_content r @ [x] \<and>
    ring_length r' = ring_length r + 1 \<and> ring_dropped r' = ring_dropped r"
proof -
  let ?w = "ring_write r" and ?n = "ring_length r"
  let ?r = "r\<lparr>ring_cells := (ring_cells r)(?w := x), ring_write := ring_next_index ?w\<rparr>"
  have ok: "ring_ok ?r" using assms(1) by (simp add: ring_ok_def next_index_unat)
  have n: "?n < 127" using assms(2) ring_length_less [of r] by simp
  have len: "ring_length ?r = ?n + 1"
    using n assms(1) by (auto simp: ring_length_def ring_ok_def next_index_unat mod_128 split: if_splits)
  have w: "?w = of_nat ((unat (ring_read r) + ?n) mod 128)"
    by (simp only: ring_write_at [OF assms(1), symmetric]) simp
  have apart: "of_nat ((unat (ring_read r) + i) mod 128) \<noteq> ?w" if "i < ?n" for i
  proof
    assume "of_nat ((unat (ring_read r) + i) mod 128) = ?w"
    then have "unat (of_nat ((unat (ring_read r) + i) mod 128) :: u32) = (unat (ring_read r) + ?n) mod 128"
      by (simp only: ring_write_at [OF assms(1)])
    moreover have "unat (of_nat ((unat (ring_read r) + i) mod 128) :: u32) = (unat (ring_read r) + i) mod 128"
      by (rule u32_of_nat_unat) (use mod_less_divisor [of 128 "unat (ring_read r) + i"] in linarith)
    ultimately show False using places_apart [OF that, of "unat (ring_read r)"] n assms(1) by (simp add: ring_ok_def)
  qed
  have "ring_content ?r = ring_content r @ [x]"
    unfolding ring_content_def len using apart w [symmetric] by simp
  then show ?thesis using ok len assms by (simp add: ring_push_def Let_def ring_full)
qed

lemma ring_pop_empty: "ring_ok r \<Longrightarrow> ring_length r = 0 \<Longrightarrow> ring_pop r = (None, r)"
  by (simp add: ring_pop_def ring_empty)

lemma ring_pop_element:
  assumes "ring_ok r" "ring_length r \<noteq> 0"
  shows "\<exists>x r'. ring_pop r = (Some x, r') \<and> ring_ok r' \<and> ring_content r = x # ring_content r' \<and>
    ring_length r = ring_length r' + 1 \<and> ring_dropped r' = ring_dropped r"
proof -
  let ?r = "r\<lparr>ring_read := ring_next_index (ring_read r)\<rparr>" and ?a = "unat (ring_read r)"
  have ok: "ring_ok ?r" using assms(1) by (simp add: ring_ok_def next_index_unat)
  have len: "ring_length r = ring_length ?r + 1"
    using assms by (auto simp: ring_length_def ring_ok_def next_index_unat mod_128 split: if_splits)
  have a: "of_nat (?a mod 128) = ring_read r" using assms(1) by (simp add: ring_ok_def)
  have "((?a + 1) mod 128 + i) mod 128 = (?a + Suc i) mod 128" for i by (simp add: mod_simps)
  then have "ring_content r = ring_cells r (ring_read r) # ring_content ?r"
    using assms(1) a by (simp add: ring_content_def len ring_ok_def next_index_unat upt_conv_Cons map_Suc_upt [symmetric]
        del: upt_Suc)
  then show ?thesis using ok len assms by (simp add: ring_pop_def ring_empty)
qed

lemma ring_pending_length: "ring_ok r \<Longrightarrow> unat (ring_pending r) = ring_length r"
  unfolding ring_ok_def ring_length_def ring_pending_def
  by (auto simp: word_le_nat_alt unat_sub_u32 unat_add_u32 mod_if)

end
