(* ===== verification/Keyboard.thy ===== *)
theory Keyboard
  imports KeyCodes Ring Lifecycle
begin

text \<open>
  The keyboard driver \<open>kernel/device/keyboard.c\<close> and the queue of the graphical interface that it feeds,
  \<open>kernel/gui/input.c\<close>: the decoder of scancodes with its modifier state, three rings of its own, and two semaphores
  with one permit for each element of the event ring and of the character ring. The argument \<open>c\<close> is the processor that executes
  an operation; the scancode that the handler of interrupt 1 reads from its port is an argument of the handler.
\<close>

section \<open>State\<close>

datatype gui_input_event_type =
    GUI_INPUT_EVENT_MOUSE_MOVE | GUI_INPUT_EVENT_MOUSE_BUTTON_DOWN | GUI_INPUT_EVENT_MOUSE_BUTTON_UP
  | GUI_INPUT_EVENT_KEY_DOWN | GUI_INPUT_EVENT_KEY_UP

datatype mouse_button = MOUSE_BUTTON_LEFT | MOUSE_BUTTON_RIGHT | MOUSE_BUTTON_MIDDLE

record gui_input_event =
  gui_event_type :: gui_input_event_type
  gui_mouse_x :: u32
  gui_mouse_y :: u32
  gui_mouse_button :: mouse_button
  gui_mouse_buttons :: u8
  gui_key :: keyboard_key
  gui_modifiers :: keyboard_modifiers
  gui_character :: char

record 'q input_system =
  input_kernel :: "'q kernel"
  raw_ring :: "u8 ring"
  event_ring :: "keyboard_event ring"
  character_ring :: "char ring"
  decoder_e0_pending :: bool
  decoder_e1_bytes_remaining :: u8
  key_down :: "keyboard_key \<Rightarrow> bool"
  modifiers :: keyboard_modifiers
  keyboard_initialized :: bool
  keyboard_irq_enabled :: bool
  gui_ring :: "gui_input_event ring"
  gui_input_initialized :: bool
  gui_input_task :: "tid option"

text \<open>The three static semaphores; the object at address 0 is the one of the task clean-up.\<close>

definition event_available :: nat where "event_available = 1"
definition character_available :: nat where "character_available = 2"
definition gui_input_available :: nat where "gui_input_available = 3"

definition signal :: "cpu_id \<Rightarrow> nat \<Rightarrow> 'q input_system \<Rightarrow> 'q input_system" where
  "signal c a s = s\<lparr>input_kernel := snd (semaphore_signal c (Some a) (input_kernel s))\<rparr>"

section \<open>The queue of the graphical interface\<close>

text \<open>A movement of the mouse replaces a movement that is the newest event in the queue.\<close>

definition gui_input_push :: "cpu_id \<Rightarrow> gui_input_event \<Rightarrow> 'q input_system \<Rightarrow> bool \<times> 'q input_system" where
  "gui_input_push c event s =
     (if \<not> gui_input_initialized s then (False, s)
      else
        let r = gui_ring s;
            previous_index = (ring_write r - 1) AND (128 - 1)
        in if gui_event_type event = GUI_INPUT_EVENT_MOUSE_MOVE \<and> ring_read r \<noteq> ring_write r \<and>
              gui_event_type (ring_cells r previous_index) = GUI_INPUT_EVENT_MOUSE_MOVE
           then (True, s\<lparr>gui_ring := r\<lparr>ring_cells := (ring_cells r)(previous_index := event)\<rparr>\<rparr>)
           else
             let (ok, r) = ring_push event r;
                 s = s\<lparr>gui_ring := r\<rparr>
             in (ok, if ok then signal c gui_input_available s else s))"

definition gui_input_pop :: "'q input_system \<Rightarrow> gui_input_event option \<times> 'q input_system" where
  "gui_input_pop s = (let (event, r) = ring_pop (gui_ring s) in (event, s\<lparr>gui_ring := r\<rparr>))"

definition gui_input_alt_active :: "keyboard_modifiers \<Rightarrow> bool" where
  "gui_input_alt_active m \<longleftrightarrow> left_alt m \<or> right_alt m"

definition gui_input_is_global_shortcut :: "keyboard_event \<Rightarrow> bool" where
  "gui_input_is_global_shortcut event \<longleftrightarrow>
     event_key event = KEY_TAB \<and> gui_input_alt_active (event_modifiers event) \<or>
     event_key event = KEY_F4 \<and> gui_input_alt_active (event_modifiers event)"

definition gui_input_filter_keyboard_event :: "cpu_id \<Rightarrow> keyboard_event \<Rightarrow> 'q input_system \<Rightarrow> bool \<times> 'q input_system" where
  "gui_input_filter_keyboard_event c event s =
     (let consumed = gui_input_is_global_shortcut event
      in if \<not> gui_input_initialized s then (consumed, s)
         else
           let gui_event =
                 \<lparr>gui_event_type = (if event_pressed event then GUI_INPUT_EVENT_KEY_DOWN else GUI_INPUT_EVENT_KEY_UP),
                  gui_mouse_x = 0, gui_mouse_y = 0, gui_mouse_button = MOUSE_BUTTON_LEFT, gui_mouse_buttons = 0,
                  gui_key = event_key event, gui_modifiers = event_modifiers event, gui_character = event_character event\<rparr>
           in (consumed, snd (gui_input_push c gui_event s)))"

definition gui_input_publish_mouse ::
  "cpu_id \<Rightarrow> gui_input_event_type \<Rightarrow> u32 \<Rightarrow> u32 \<Rightarrow> mouse_button \<Rightarrow> u8 \<Rightarrow> 'q input_system \<Rightarrow> 'q input_system" where
  "gui_input_publish_mouse c event_type x y button buttons s =
     (if \<not> gui_input_initialized s then s
      else if event_type \<notin> {GUI_INPUT_EVENT_MOUSE_MOVE, GUI_INPUT_EVENT_MOUSE_BUTTON_DOWN, GUI_INPUT_EVENT_MOUSE_BUTTON_UP} then s
      else
        let event = \<lparr>gui_event_type = event_type, gui_mouse_x = x, gui_mouse_y = y, gui_mouse_button = button,
              gui_mouse_buttons = buttons, gui_key = KEY_UNKNOWN, gui_modifiers = no_modifiers, gui_character = nul\<rparr>
        in snd (gui_input_push c event s))"

text \<open>\<open>ent\<close> is the address of \<open>gui_input_thread\<close>; \<open>block\<close> and \<open>stack\<close> are the allocations of the task.\<close>

definition gui_input_initialize :: "cpu_id \<Rightarrow> nat \<Rightarrow> tid option \<Rightarrow> u32 \<Rightarrow> 'q input_system \<Rightarrow> bool \<times> 'q input_system" where
  "gui_input_initialize c ent block stack s =
     (if gui_input_initialized s then (True, s)
      else
        let s = s\<lparr>gui_ring := ring_clear (gui_ring s)\<rparr>;
            s = s\<lparr>input_kernel := semaphore_initialize (Some gui_input_available) 0 (input_kernel s)\<rparr>;
            s = s\<lparr>gui_input_initialized := True\<rparr>;
            (task, k) = task_create_kernel c (Some ent) None block stack (input_kernel s);
            s = s\<lparr>input_kernel := k, gui_input_task := task\<rparr>
        in if task = None then (False, s\<lparr>gui_input_initialized := False\<rparr>) else (True, s))"

section \<open>The rings of the keyboard\<close>

definition keyboard_raw_push :: "u8 \<Rightarrow> 'q input_system \<Rightarrow> 'q input_system" where
  "keyboard_raw_push scancode s = s\<lparr>raw_ring := snd (ring_push scancode (raw_ring s))\<rparr>"

definition keyboard_event_push :: "cpu_id \<Rightarrow> keyboard_event \<Rightarrow> 'q input_system \<Rightarrow> 'q input_system" where
  "keyboard_event_push c event s =
     (let (ok, r) = ring_push event (event_ring s);
          s = s\<lparr>event_ring := r\<rparr>
      in if ok then signal c event_available s else s)"

definition keyboard_character_push :: "cpu_id \<Rightarrow> char \<Rightarrow> 'q input_system \<Rightarrow> 'q input_system" where
  "keyboard_character_push c character s =
     (if character = nul then s
      else
        let (ok, r) = ring_push character (character_ring s);
            s = s\<lparr>character_ring := r\<rparr>
        in if ok then signal c character_available s else s)"

primrec keyboard_character_push_sequence :: "cpu_id \<Rightarrow> string \<Rightarrow> 'q input_system \<Rightarrow> 'q input_system" where
  "keyboard_character_push_sequence c [] s = s"
| "keyboard_character_push_sequence c (x # str) s = keyboard_character_push_sequence c str (keyboard_character_push c x s)"

definition keyboard_publish_terminal_key :: "cpu_id \<Rightarrow> keyboard_key \<Rightarrow> 'q input_system \<Rightarrow> 'q input_system" where
  "keyboard_publish_terminal_key c key s =
     (case map_of terminal_keys key of
        None \<Rightarrow> s
      | Some str \<Rightarrow> keyboard_character_push_sequence c (CHR 0x1B # str) s)"

definition keyboard_event_pop_unlocked :: "'q input_system \<Rightarrow> keyboard_event option \<times> 'q input_system" where
  "keyboard_event_pop_unlocked s = (let (event, r) = ring_pop (event_ring s) in (event, s\<lparr>event_ring := r\<rparr>))"

definition keyboard_character_pop_unlocked :: "'q input_system \<Rightarrow> char option \<times> 'q input_system" where
  "keyboard_character_pop_unlocked s = (let (c, r) = ring_pop (character_ring s) in (c, s\<lparr>character_ring := r\<rparr>))"

section \<open>Interrupt\<close>

text \<open>What a complete scancode does: \<open>code\<close> is its low seven bits. The graphical interface sees the event first.\<close>

definition keyboard_publish_event :: "cpu_id \<Rightarrow> keyboard_event \<Rightarrow> 'q input_system \<Rightarrow> 'q input_system" where
  "keyboard_publish_event c event s =
     (let (consumed, s) = gui_input_filter_keyboard_event c event s
      in if consumed then s
         else
           let s = keyboard_event_push c event s
           in if event_character event \<noteq> nul then keyboard_character_push c (event_character event) s
              else if event_pressed event then keyboard_publish_terminal_key c (event_key event) s else s)"

definition keyboard_key_change :: "cpu_id \<Rightarrow> keyboard_key \<Rightarrow> bool \<Rightarrow> bool \<Rightarrow> u8 \<Rightarrow> 'q input_system \<Rightarrow> 'q input_system" where
  "keyboard_key_change c key pressed extended code s =
     (let was_down = key_down s key;
          s = s\<lparr>key_down := (key_down s)(key := pressed)\<rparr>;
          s = s\<lparr>modifiers := keyboard_update_modifier_state key pressed was_down (modifiers s)\<rparr>;
          event = \<lparr>event_key = key, event_pressed = pressed, event_extended = extended, event_raw_scancode = code,
                   event_modifiers = modifiers s,
                   event_character = (if pressed then keyboard_translate_character key (modifiers s) else nul)\<rparr>
      in keyboard_publish_event c event s)"

definition keyboard_decode_scancode :: "cpu_id \<Rightarrow> u8 \<Rightarrow> 'q input_system \<Rightarrow> 'q input_system" where
  "keyboard_decode_scancode c scancode s =
     (if decoder_e1_bytes_remaining s \<noteq> 0 then s\<lparr>decoder_e1_bytes_remaining := decoder_e1_bytes_remaining s - 1\<rparr>
      else if scancode = 0xE1 then s\<lparr>decoder_e1_bytes_remaining := 5, decoder_e0_pending := False\<rparr>
      else if scancode = 0xE0 then s\<lparr>decoder_e0_pending := True\<rparr>
      else
        let pressed = (scancode AND 0x80 = 0);
            base_code = scancode AND 0x7F;
            extended = decoder_e0_pending s;
            s = s\<lparr>decoder_e0_pending := False\<rparr>;
            key = (if extended then decode_extended_key base_code else decode_normal_key base_code)
        in if key = KEY_UNKNOWN \<or> key \<ge> KEY_COUNT then s
           else keyboard_key_change c key pressed extended base_code s)"

definition keyboard_interrupt_handler :: "cpu_id \<Rightarrow> u8 \<Rightarrow> 'q input_system \<Rightarrow> 'q input_system" where
  "keyboard_interrupt_handler c scancode s = keyboard_decode_scancode c scancode (keyboard_raw_push scancode s)"

section \<open>Initialisation and calls\<close>

text \<open>Registering a handler that is not NULL never fails; the last field stands for the handler and the mask of interrupt 1.\<close>

definition keyboard_initialize :: "'q input_system \<Rightarrow> bool \<times> 'q input_system" where
  "keyboard_initialize s =
     (if keyboard_initialized s then (True, s)
      else
        let s = s\<lparr>raw_ring := ring_clear (raw_ring s), event_ring := ring_clear (event_ring s),
                   character_ring := ring_clear (character_ring s)\<rparr>;
            s = s\<lparr>input_kernel := semaphore_initialize (Some event_available) 0 (input_kernel s)\<rparr>;
            s = s\<lparr>input_kernel := semaphore_initialize (Some character_available) 0 (input_kernel s)\<rparr>;
            s = s\<lparr>decoder_e0_pending := False, decoder_e1_bytes_remaining := 0\<rparr>;
            s = s\<lparr>key_down := (\<lambda>i. if i < KEY_COUNT then False else key_down s i)\<rparr>;
            s = s\<lparr>modifiers := no_modifiers\<rparr>
        in (True, s\<lparr>keyboard_irq_enabled := True, keyboard_initialized := True\<rparr>))"

definition keyboard_read_scancode :: "'q input_system \<Rightarrow> u8 option \<times> 'q input_system" where
  "keyboard_read_scancode s = (let (code, r) = ring_pop (raw_ring s) in (code, s\<lparr>raw_ring := r\<rparr>))"

definition keyboard_pending_scancodes :: "'q input_system \<Rightarrow> u32" where
  "keyboard_pending_scancodes s = ring_pending (raw_ring s)"

definition keyboard_dropped_scancodes :: "'q input_system \<Rightarrow> u32" where
  "keyboard_dropped_scancodes s = ring_dropped (raw_ring s)"

definition keyboard_read_event :: "cpu_id \<Rightarrow> 'q input_system \<Rightarrow> keyboard_event option \<times> 'q input_system" where
  "keyboard_read_event c s =
     (let (ok, k) = semaphore_try_wait c (Some event_available) (input_kernel s);
          s = s\<lparr>input_kernel := k\<rparr>
      in if \<not> ok then (None, s) else keyboard_event_pop_unlocked s)"

definition keyboard_read_character :: "cpu_id \<Rightarrow> 'q input_system \<Rightarrow> char option \<times> 'q input_system" where
  "keyboard_read_character c s =
     (let (ok, k) = semaphore_try_wait c (Some character_available) (input_kernel s);
          s = s\<lparr>input_kernel := k\<rparr>
      in if \<not> ok then (None, s) else keyboard_character_pop_unlocked s)"

text \<open>The blocking calls up to the first return of \<open>semaphore_wait\<close>: \<open>Some\<close> is the result of the call, the inner \<open>None\<close>
  that the task has blocked and will start another round.\<close>

definition keyboard_wait_event ::
  "cpu_id \<Rightarrow> 'q input_system \<Rightarrow> (keyboard_event option option \<times> tid option \<times> 'q input_system) option" where
  "keyboard_wait_event c s =
     (case semaphore_wait c (Some event_available) (input_kernel s) of
        None \<Rightarrow> None
      | Some (Again, previous, k) \<Rightarrow> Some (None, previous, s\<lparr>input_kernel := k\<rparr>)
      | Some (Returns ok, previous, k) \<Rightarrow>
          let s = s\<lparr>input_kernel := k\<rparr>
          in if \<not> ok then Some (Some None, previous, s)
             else let (event, s) = keyboard_event_pop_unlocked s in Some (Some event, previous, s))"

definition keyboard_wait_character ::
  "cpu_id \<Rightarrow> 'q input_system \<Rightarrow> (char option option \<times> tid option \<times> 'q input_system) option" where
  "keyboard_wait_character c s =
     (case semaphore_wait c (Some character_available) (input_kernel s) of
        None \<Rightarrow> None
      | Some (Again, previous, k) \<Rightarrow> Some (None, previous, s\<lparr>input_kernel := k\<rparr>)
      | Some (Returns ok, previous, k) \<Rightarrow>
          let s = s\<lparr>input_kernel := k\<rparr>
          in if \<not> ok then Some (Some None, previous, s)
             else let (x, s) = keyboard_character_pop_unlocked s in Some (Some x, previous, s))"

definition keyboard_pending_events :: "'q input_system \<Rightarrow> u32" where
  "keyboard_pending_events s = semaphore_get_count (Some event_available) (input_kernel s)"

definition keyboard_dropped_events :: "'q input_system \<Rightarrow> u32" where
  "keyboard_dropped_events s = ring_dropped (event_ring s)"

definition keyboard_pending_characters :: "'q input_system \<Rightarrow> u32" where
  "keyboard_pending_characters s = semaphore_get_count (Some character_available) (input_kernel s)"

definition keyboard_dropped_characters :: "'q input_system \<Rightarrow> u32" where
  "keyboard_dropped_characters s = ring_dropped (character_ring s)"

definition keyboard_get_modifiers :: "'q input_system \<Rightarrow> keyboard_modifiers" where
  "keyboard_get_modifiers s = modifiers s"

end
