(* ===== verification/KeyboardInv.thy ===== *)
theory KeyboardInv
  imports Keyboard System
begin

text \<open>
  The rings of the keyboard and their permits: how a signal, a push and a pop change the elements in a ring and the count
  of its semaphore, and the invariant that relates them while readers are on their way from one to the other.
\<close>

section \<open>Semaphores under the rings\<close>

lemma call_enqueue_count [simp]: "semaphore_count (call_enqueue a p t s) = semaphore_count s"
  by (auto simp: call_enqueue_def split: option.split prod.split)

lemma wake_count [simp]: "semaphore_count (scheduler_wake c t s) = semaphore_count s"
  by (auto simp: scheduler_wake_def ready_and_enqueue_def spin_lock_irqsave_def interrupt_save_disable_def Let_def split: option.split)

lemma pop_front_count [simp]: "semaphore_count (snd (wait_queue_pop_front q s)) = semaphore_count s"
  by (auto simp: wait_queue_pop_front_def Let_def split: option.split)

lemma pop_front_pair: "wait_queue_pop_front q s = (t, s') \<Longrightarrow> semaphore_count s' = semaphore_count s"
  by (metis pop_front_count snd_conv)

lemma signal_count:
  "semaphore_count (snd (semaphore_signal c (Some a) s)) =
     (if semaphore_count s a = SIZE_MAX then semaphore_count s else (semaphore_count s)(a := semaphore_count s a + 1))"
  by (auto dest!: pop_front_pair simp: semaphore_signal_def semaphore_release_def wait_queue_pop_locked_def spin_lock_irqsave_def interrupt_save_disable_def
      set_sem_def Let_def split: prod.split)

lemma try_wait_count:
  "semaphore_try_wait c (Some a) s = (ok, s') \<Longrightarrow>
   ok = (semaphore_count s a \<noteq> 0) \<and>
   semaphore_count s' = (if ok then (semaphore_count s)(a := semaphore_count s a - 1) else semaphore_count s)"
  by (auto simp: semaphore_try_wait_def spin_lock_irqsave_def interrupt_save_disable_def set_sem_def Let_def split: if_splits)

lemma wait_count:
  "semaphore_wait c (Some a) s = Some (Returns True, p, s') \<Longrightarrow>
   semaphore_count s a \<noteq> 0 \<and> semaphore_count s' = (semaphore_count s)(a := semaphore_count s a - 1)"
  by (auto simp: semaphore_wait_def semaphore_wait_round_def spin_lock_irqsave_def interrupt_save_disable_def set_sem_def Let_def
      split: if_splits option.splits)

lemma initialize_count [simp]: "semaphore_count (semaphore_initialize (Some a) n s) = (semaphore_count s)(a := n)"
  by (simp add: semaphore_initialize_def wait_queue_initialize_def set_sem_def)

section \<open>One ring and its semaphore\<close>

text \<open>The permits of semaphore \<open>a\<close> and the \<open>n\<close> permits that readers have taken are the elements of the ring.\<close>

definition permits_ok :: "nat \<Rightarrow> 'q kernel \<Rightarrow> 'a ring \<Rightarrow> nat \<Rightarrow> bool" where
  "permits_ok a k r n \<longleftrightarrow> ring_ok r \<and> unat (semaphore_count k a) + n = ring_length r"

lemma permits_push:
  assumes "permits_ok a k r n" "ring_push x r = (ok, r')"
  shows "permits_ok a (if ok then snd (semaphore_signal c (Some a) k) else k) r' n \<and>
    ring_content r' = (if ring_length r = 127 then ring_content r else ring_content r @ [x]) \<and>
    ok = (ring_length r \<noteq> 127) \<and> (\<forall>b. b \<noteq> a \<longrightarrow> semaphore_count (if ok then snd (semaphore_signal c (Some a) k) else k) b = semaphore_count k b)"
proof (cases "ring_length r = 127")
  case True
  then have "ok = False" "r' = r\<lparr>ring_dropped := ring_dropped r + 1\<rparr>"
    using assms ring_push_full [of r x] by (auto simp: permits_ok_def)
  then show ?thesis using assms(1) True by (auto simp: permits_ok_def ring_ok_def ring_length_def ring_content_def)
next
  case False
  then obtain ok: "ok" and r': "ring_ok r'" "ring_content r' = ring_content r @ [x]" "ring_length r' = ring_length r + 1"
    using assms ring_push_room [of r x] by (auto simp: permits_ok_def)
  have small: "unat (semaphore_count k a) < 127" using assms(1) False ring_length_less [of r] by (simp add: permits_ok_def)
  then have "semaphore_count k a \<noteq> SIZE_MAX" by (auto simp: SIZE_MAX_def)
  moreover have "unat (semaphore_count k a + 1) = unat (semaphore_count k a) + 1" using small by (simp add: unat_add_u32)
  ultimately show ?thesis using assms(1) False ok r' by (auto simp: permits_ok_def signal_count)
qed

lemma permits_take:
  assumes "permits_ok a k r n" "semaphore_count k a \<noteq> 0" "semaphore_count k' = (semaphore_count k)(a := semaphore_count k a - 1)"
  shows "permits_ok a k' r (Suc n)"
proof -
  have "unat (semaphore_count k a - 1) + 1 = unat (semaphore_count k a)" using assms(2) by (simp add: unat_dec_u32 unat_gt_0)
  then show ?thesis using assms(1,3) by (simp add: permits_ok_def)
qed

lemma permits_pop:
  assumes "permits_ok a k r (Suc n)"
  shows "\<exists>x r'. ring_pop r = (Some x, r') \<and> permits_ok a k r' n \<and> ring_content r = x # ring_content r'"
  using assms ring_pop_element [of r] by (auto simp: permits_ok_def)

lemma permits_kernel: "semaphore_count k' a = semaphore_count k a \<Longrightarrow> permits_ok a k' r n = permits_ok a k r n"
  by (simp add: permits_ok_def)

section \<open>Frames of the driver\<close>

lemma signal_frame [simp]:
  "raw_ring (signal c a s) = raw_ring s" "event_ring (signal c a s) = event_ring s" "character_ring (signal c a s) = character_ring s"
  "decoder_e0_pending (signal c a s) = decoder_e0_pending s" "decoder_e1_bytes_remaining (signal c a s) = decoder_e1_bytes_remaining s"
  "key_down (signal c a s) = key_down s" "modifiers (signal c a s) = modifiers s" "gui_ring (signal c a s) = gui_ring s"
  "gui_input_initialized (signal c a s) = gui_input_initialized s"
  "input_kernel (signal c a s) = snd (semaphore_signal c (Some a) (input_kernel s))"
  by (simp_all add: signal_def)

text \<open>What the queue of the graphical interface leaves alone: everything that belongs to the keyboard.\<close>

definition keyboard_same :: "'q input_system \<Rightarrow> 'q input_system \<Rightarrow> bool" where
  "keyboard_same s s' \<longleftrightarrow>
     raw_ring s' = raw_ring s \<and> event_ring s' = event_ring s \<and> character_ring s' = character_ring s \<and>
     decoder_e0_pending s' = decoder_e0_pending s \<and> decoder_e1_bytes_remaining s' = decoder_e1_bytes_remaining s \<and>
     key_down s' = key_down s \<and> modifiers s' = modifiers s \<and>
     semaphore_count (input_kernel s') event_available = semaphore_count (input_kernel s) event_available \<and>
     semaphore_count (input_kernel s') character_available = semaphore_count (input_kernel s) character_available"

lemma gui_push_same: "keyboard_same s (snd (gui_input_push c e s))"
  by (auto simp: gui_input_push_def keyboard_same_def Let_def signal_count event_available_def character_available_def
      gui_input_available_def split: prod.split)

lemma gui_filter_same: "keyboard_same s (snd (gui_input_filter_keyboard_event c e s))"
  using gui_push_same by (auto simp: gui_input_filter_keyboard_event_def keyboard_same_def Let_def)

lemma gui_filter_consumed: "fst (gui_input_filter_keyboard_event c e s) = gui_input_is_global_shortcut e"
  by (simp add: gui_input_filter_keyboard_event_def Let_def)

section \<open>The invariant\<close>

definition modifiers_ok :: "(keyboard_key \<Rightarrow> bool) \<Rightarrow> keyboard_modifiers \<Rightarrow> bool" where
  "modifiers_ok down m \<longleftrightarrow>
     left_shift m = down KEY_LEFT_SHIFT \<and> right_shift m = down KEY_RIGHT_SHIFT \<and> left_ctrl m = down KEY_LEFT_CTRL \<and>
     right_ctrl m = down KEY_RIGHT_CTRL \<and> left_alt m = down KEY_LEFT_ALT \<and> right_alt m = down KEY_RIGHT_ALT"

text \<open>\<open>e\<close> and \<open>h\<close> readers hold a permit for an event or a character that they have not yet taken out.\<close>

definition input_ok :: "'q input_system \<Rightarrow> nat \<Rightarrow> nat \<Rightarrow> bool" where
  "input_ok s e h \<longleftrightarrow>
     permits_ok event_available (input_kernel s) (event_ring s) e \<and>
     permits_ok character_available (input_kernel s) (character_ring s) h \<and>
     ring_ok (raw_ring s) \<and> modifiers_ok (key_down s) (modifiers s)"

lemma input_ok_same: "keyboard_same s s' \<Longrightarrow> input_ok s' e h = input_ok s e h"
  by (simp add: keyboard_same_def input_ok_def permits_ok_def)

lemma event_push_ok:
  assumes "input_ok s e h"
  shows "input_ok (keyboard_event_push c ev s) e h \<and>
    ring_content (event_ring (keyboard_event_push c ev s)) =
      (if ring_length (event_ring s) = 127 then ring_content (event_ring s) else ring_content (event_ring s) @ [ev]) \<and>
    character_ring (keyboard_event_push c ev s) = character_ring s"
proof -
  obtain ok r where push: "ring_push ev (event_ring s) = (ok, r)" by fastforce
  from permits_push [OF _ push, of event_available "input_kernel s" e c] assms show ?thesis
    by (auto simp: keyboard_event_push_def Let_def push input_ok_def permits_ok_def event_available_def character_available_def)
qed

lemma character_push_ok:
  assumes "input_ok s e h" "x \<noteq> nul"
  shows "input_ok (keyboard_character_push c x s) e h \<and>
    ring_content (character_ring (keyboard_character_push c x s)) =
      (if ring_length (character_ring s) = 127 then ring_content (character_ring s) else ring_content (character_ring s) @ [x])"
proof -
  obtain ok r where push: "ring_push x (character_ring s) = (ok, r)" by fastforce
  from permits_push [OF _ push, of character_available "input_kernel s" h c] assms show ?thesis
    by (auto simp: keyboard_character_push_def Let_def push input_ok_def permits_ok_def event_available_def character_available_def)
qed

lemma character_push_sequence_ok: "input_ok s e h \<Longrightarrow> input_ok (keyboard_character_push_sequence c str s) e h"
proof (induction str arbitrary: s)
  case (Cons x str)
  then show ?case using character_push_ok [OF Cons.prems] by (cases "x = nul") (simp_all add: keyboard_character_push_def)
qed simp

text \<open>The decoder state of a push is that before it.\<close>

definition decoder_same :: "'q input_system \<Rightarrow> 'q input_system \<Rightarrow> bool" where
  "decoder_same s s' \<longleftrightarrow>
     decoder_e0_pending s' = decoder_e0_pending s \<and> decoder_e1_bytes_remaining s' = decoder_e1_bytes_remaining s \<and>
     key_down s' = key_down s \<and> modifiers s' = modifiers s"

lemma push_decoder_same: "decoder_same s (keyboard_event_push c ev s)" "decoder_same s (keyboard_character_push c x s)"
  by (auto simp: decoder_same_def keyboard_event_push_def keyboard_character_push_def Let_def split: prod.split)

lemma modifier_update_ok:
  "modifiers_ok down m \<Longrightarrow> modifiers_ok (down(key := pressed)) (keyboard_update_modifier_state key pressed was_down m)"
  by (auto simp: modifiers_ok_def keyboard_update_modifier_state_def key_codes)

lemma publish_ok:
  assumes "input_ok s e h"
  shows "input_ok (keyboard_publish_event c ev s) e h"
proof -
  obtain consumed s1 where s1: "gui_input_filter_keyboard_event c ev s = (consumed, s1)" by fastforce
  have ok1: "input_ok s1 e h" using assms gui_filter_same [of s c ev] s1 input_ok_same by fastforce
  have ok2: "input_ok (keyboard_event_push c ev s1) e h" using event_push_ok [OF ok1] by blast
  show ?thesis using ok1 ok2 character_push_ok [OF ok2] character_push_sequence_ok [OF ok2]
    by (auto simp: keyboard_publish_event_def Let_def s1 keyboard_publish_terminal_key_def
        simp del: keyboard_character_push_sequence.simps split: option.split)
qed

lemma key_change_ok:
  assumes "input_ok s e h"
  shows "input_ok (keyboard_key_change c key pressed extended code s) e h"
proof -
  have "input_ok (s\<lparr>key_down := (key_down s)(key := pressed), modifiers := keyboard_update_modifier_state key pressed (key_down s key) (modifiers s)\<rparr>) e h"
    using assms modifier_update_ok by (auto simp: input_ok_def)
  then show ?thesis unfolding keyboard_key_change_def Let_def by (intro publish_ok) simp
qed

lemma raw_push_ok: "input_ok s e h \<Longrightarrow> input_ok (keyboard_raw_push code s) e h"
  using ring_push_room [of "raw_ring s" code] ring_push_full [of "raw_ring s" code]
  by (cases "ring_length (raw_ring s) = 127") (auto simp: input_ok_def keyboard_raw_push_def ring_ok_def)

lemma input_ok_decoder [simp]:
  "input_ok (s\<lparr>decoder_e0_pending := b\<rparr>) e h = input_ok s e h" "input_ok (s\<lparr>decoder_e1_bytes_remaining := n\<rparr>) e h = input_ok s e h"
  by (simp_all add: input_ok_def)

lemma decode_ok: "input_ok s e h \<Longrightarrow> input_ok (keyboard_decode_scancode c code s) e h"
  by (simp add: keyboard_decode_scancode_def Let_def key_change_ok)

lemma interrupt_ok: "input_ok s e h \<Longrightarrow> input_ok (keyboard_interrupt_handler c code s) e h"
  by (simp add: keyboard_interrupt_handler_def decode_ok raw_push_ok)

text \<open>The steps of a running system: interrupts, readers that take a permit and later the element, the mouse and the
  graphical interface, and everything else, which does not touch the two semaphores.\<close>

inductive input_step :: "'q input_system \<times> nat \<times> nat \<Rightarrow> 'q input_system \<times> nat \<times> nat \<Rightarrow> bool" where
  interrupt: "input_step (s, e, h) (keyboard_interrupt_handler c code s, e, h)"
| scancode: "input_step (s, e, h) (snd (keyboard_read_scancode s), e, h)"
| try_event: "semaphore_try_wait c (Some event_available) (input_kernel s) = (True, k) \<Longrightarrow> input_step (s, e, h) (s\<lparr>input_kernel := k\<rparr>, Suc e, h)"
| wait_event: "semaphore_wait c (Some event_available) (input_kernel s) = Some (Returns True, p, k) \<Longrightarrow>
    input_step (s, e, h) (s\<lparr>input_kernel := k\<rparr>, Suc e, h)"
| pop_event: "input_step (s, Suc e, h) (snd (keyboard_event_pop_unlocked s), e, h)"
| try_character: "semaphore_try_wait c (Some character_available) (input_kernel s) = (True, k) \<Longrightarrow>
    input_step (s, e, h) (s\<lparr>input_kernel := k\<rparr>, e, Suc h)"
| wait_character: "semaphore_wait c (Some character_available) (input_kernel s) = Some (Returns True, p, k) \<Longrightarrow>
    input_step (s, e, h) (s\<lparr>input_kernel := k\<rparr>, e, Suc h)"
| pop_character: "input_step (s, e, Suc h) (snd (keyboard_character_pop_unlocked s), e, h)"
| mouse: "input_step (s, e, h) (gui_input_publish_mouse c event_type x y button buttons s, e, h)"
| gui: "input_step (s, e, h) (snd (gui_input_pop s), e, h)"
| other: "semaphore_count k event_available = semaphore_count (input_kernel s) event_available \<Longrightarrow>
    semaphore_count k character_available = semaphore_count (input_kernel s) character_available \<Longrightarrow>
    input_step (s, e, h) (s\<lparr>input_kernel := k\<rparr>, e, h)"

lemma pop_event_ok:
  assumes "input_ok s (Suc e) h"
  shows "\<exists>ev s'. keyboard_event_pop_unlocked s = (Some ev, s') \<and> input_ok s' e h \<and>
    ring_content (event_ring s) = ev # ring_content (event_ring s')"
  using permits_pop [of event_available "input_kernel s" "event_ring s" e] assms
  by (auto simp: input_ok_def keyboard_event_pop_unlocked_def Let_def)

lemma pop_character_ok:
  assumes "input_ok s e (Suc h)"
  shows "\<exists>x s'. keyboard_character_pop_unlocked s = (Some x, s') \<and> input_ok s' e h \<and>
    ring_content (character_ring s) = x # ring_content (character_ring s')"
  using permits_pop [of character_available "input_kernel s" "character_ring s" h] assms
  by (auto simp: input_ok_def keyboard_character_pop_unlocked_def Let_def)

lemma take_event_ok:
  assumes "input_ok s e h" "semaphore_count (input_kernel s) event_available \<noteq> 0"
    "semaphore_count k = (semaphore_count (input_kernel s))(event_available := semaphore_count (input_kernel s) event_available - 1)"
  shows "input_ok (s\<lparr>input_kernel := k\<rparr>) (Suc e) h"
  using assms permits_take [OF _ assms(2,3)] by (auto simp: input_ok_def permits_ok_def event_available_def character_available_def)

lemma take_character_ok:
  assumes "input_ok s e h" "semaphore_count (input_kernel s) character_available \<noteq> 0"
    "semaphore_count k = (semaphore_count (input_kernel s))(character_available := semaphore_count (input_kernel s) character_available - 1)"
  shows "input_ok (s\<lparr>input_kernel := k\<rparr>) e (Suc h)"
  using assms permits_take [OF _ assms(2,3)] by (auto simp: input_ok_def permits_ok_def event_available_def character_available_def)

lemma mouse_same: "keyboard_same s (gui_input_publish_mouse c event_type x y button buttons s)"
  using gui_push_same by (auto simp: gui_input_publish_mouse_def Let_def keyboard_same_def)

lemma input_step_ok:
  assumes "input_step (s, e, h) (s', e', h')" "input_ok s e h"
  shows "input_ok s' e' h'"
  using assms(1)
proof cases
  case (interrupt c code)
  then show ?thesis using assms(2) interrupt_ok by simp
next
  case scancode
  then show ?thesis using assms(2) ring_pop_element [of "raw_ring s"] ring_pop_empty [of "raw_ring s"]
    by (cases "ring_length (raw_ring s) = 0") (auto simp: keyboard_read_scancode_def Let_def input_ok_def)
next
  case (try_event c k)
  then show ?thesis using assms(2) try_wait_count [OF try_event(4)] take_event_ok by fastforce
next
  case (wait_event c p k)
  then show ?thesis using assms(2) wait_count [OF wait_event(4)] take_event_ok by fastforce
next
  case pop_event
  then show ?thesis using assms(2) pop_event_ok [of s e' h] by auto
next
  case (try_character c k)
  then show ?thesis using assms(2) try_wait_count [OF try_character(4)] take_character_ok by fastforce
next
  case (wait_character c p k)
  then show ?thesis using assms(2) wait_count [OF wait_character(4)] take_character_ok by fastforce
next
  case pop_character
  then show ?thesis using assms(2) pop_character_ok [of s e h'] by auto
next
  case (mouse c event_type x y button buttons)
  then show ?thesis using assms(2) by (simp add: input_ok_same [OF mouse_same])
next
  case gui
  then show ?thesis using assms(2) by (simp add: gui_input_pop_def Let_def input_ok_def split: prod.split)
next
  case (other k)
  then show ?thesis using assms(2) by (simp add: input_ok_def permits_ok_def)
qed

lemma input_steps_ok: "input_step\<^sup>*\<^sup>* x y \<Longrightarrow> (case x of (s, e, h) \<Rightarrow> input_ok s e h) \<Longrightarrow> (case y of (s, e, h) \<Rightarrow> input_ok s e h)"
proof (induction rule: rtranclp_induct)
  case (step y z)
  then show ?case using input_step_ok by (cases y; cases z) auto
qed

lemma keyboard_initialize_ok:
  assumes "\<not> keyboard_initialized s"
  shows "input_ok (snd (keyboard_initialize s)) 0 0"
  using assms
  by (simp add: keyboard_initialize_def input_ok_def permits_ok_def modifiers_ok_def no_modifiers_def event_available_def
      character_available_def key_codes)

end
