(* ===== verification/KeyboardProps.thy ===== *)
theory KeyboardProps
  imports KeyboardInv Sample
begin

text \<open>
  Typing: the scancodes that a keyboard sends for a text, what the driver makes of them, and the permits of its readers.
\<close>

section \<open>The scancodes of a text\<close>

lemmas key_tables = normal_keys_def letters_def symbols_def key_codes keyboard_translate_character_def keyboard_translate_letter_def
  shift_active_def no_modifiers_def nul_def

text \<open>Which keys, with or without shift, give which characters.\<close>

definition typing_row :: "nat \<Rightarrow> (char \<times> nat \<times> bool) list" where
  "typing_row i =
     (let key = normal_keys ! i;
          plain = keyboard_translate_character key no_modifiers;
          shifted = keyboard_translate_character key (no_modifiers\<lparr>left_shift := True\<rparr>)
      in (if plain = nul then [] else [(plain, i, False)]) @ (if shifted = nul then [] else [(shifted, i, True)]))"

definition typing_table :: "(char \<times> nat \<times> bool) list" where
  "typing_table = concat (map typing_row [2..<58])"

definition plain_key :: "keyboard_key \<Rightarrow> bool" where
  "plain_key key \<longleftrightarrow> key \<noteq> KEY_UNKNOWN \<and> key < KEY_COUNT \<and> key \<noteq> KEY_LEFT_SHIFT \<and> key \<noteq> KEY_RIGHT_SHIFT \<and> key \<noteq> KEY_LEFT_CTRL \<and>
     key \<noteq> KEY_RIGHT_CTRL \<and> key \<noteq> KEY_LEFT_ALT \<and> key \<noteq> KEY_RIGHT_ALT \<and> key \<noteq> KEY_CAPS_LOCK"

definition row_ok :: "nat \<Rightarrow> bool" where
  "row_ok i \<longleftrightarrow> list_all (\<lambda>(ch, code, shift). code = i \<and> ch \<noteq> nul \<and> plain_key (normal_keys ! i) \<and>
     keyboard_translate_character (normal_keys ! i) (no_modifiers\<lparr>left_shift := shift\<rparr>) = ch) (typing_row i)"

lemma rows_ok: "list_all row_ok [2..<58]"
  by (simp add: row_ok_def typing_row_def plain_key_def key_tables Let_def char_of_def)

lemma typing_table_ok:
  assumes "(ch, code, shift) \<in> set typing_table"
  shows "code < 58 \<and> ch \<noteq> nul \<and> plain_key (normal_keys ! code) \<and>
    keyboard_translate_character (normal_keys ! code) (no_modifiers\<lparr>left_shift := shift\<rparr>) = ch"
proof -
  obtain i where i: "i \<in> set [2..<58]" "(ch, code, shift) \<in> set (typing_row i)" using assms by (auto simp: typing_table_def)
  then have "row_ok i" using rows_ok by (simp only: list_all_iff)
  then show ?thesis using i by (auto simp: row_ok_def list_all_iff)
qed

lemma typing_characters:
  "map fst typing_table = ''1!2@3#4$5%6^7&8*9(0)-_=+'' @ [CHR 0x08] @ [CHR 0x08] @ [CHR 0x09] @ [CHR 0x09] @ ''qQwWeErRtTyYuUiIoOpP[{]}'' @ [CHR 0x0A] @ [CHR 0x0A] @ ''aAsSdDfFgGhHjJkKlL;:'' @ [CHR 0x27] @ [CHR 0x22] @ [CHR 0x60] @ ''~'' @ [CHR 0x5C] @ ''|zZxXcCvVbBnNmM,<.>/?  ''"
  by (simp add: typing_table_def typing_row_def key_tables Let_def char_of_def)

definition typable :: "char \<Rightarrow> bool" where
  "typable ch \<longleftrightarrow> map_of typing_table ch \<noteq> None"

lemma printable_typable: "\<forall>i \<in> set ([8, 9, 10] @ [32..<127]). typable (char_of i)"
proof -
  have "list_all (\<lambda>i. char_of i \<in> set (map fst typing_table)) ([8, 9, 10] @ [32..<127])"
    unfolding typing_characters by (simp add: char_of_def bit_Suc_0_iff)
  then show ?thesis by (simp only: list_all_iff typable_def map_of_eq_None_iff set_map not_not)
qed

text \<open>Make code and break code, inside those of the left shift key where it is needed.\<close>

definition strokes :: "char \<Rightarrow> u8 list" where
  "strokes ch =
     (case map_of typing_table ch of
        None \<Rightarrow> []
      | Some (code, shift) \<Rightarrow>
          let make = of_nat code :: u8 in if shift then [0x2A, make, make OR 0x80, 0xAA] else [make, make OR 0x80])"

definition typing :: "cpu_id \<Rightarrow> u8 list \<Rightarrow> 'q input_system \<Rightarrow> 'q input_system" where
  "typing c codes s = foldl (\<lambda>s code. keyboard_interrupt_handler c code s) s codes"

lemma typing_simps [simp]: "typing c [] s = s" "typing c (x # xs) s = typing c xs (keyboard_interrupt_handler c x s)"
  "typing c (xs @ ys) s = typing c ys (typing c xs s)"
  by (simp_all add: typing_def)

section \<open>One key\<close>

definition ready :: "'q input_system \<Rightarrow> nat \<Rightarrow> nat \<Rightarrow> keyboard_modifiers \<Rightarrow> bool" where
  "ready s e h m \<longleftrightarrow> input_ok s e h \<and> modifiers s = m \<and> \<not> decoder_e0_pending s \<and> decoder_e1_bytes_remaining s = 0"

abbreviation typed_text :: "'q input_system \<Rightarrow> string" where
  "typed_text s \<equiv> ring_content (character_ring s)"

lemma publish_effect:
  assumes "input_ok s e h" "\<not> gui_input_is_global_shortcut ev"
    "event_character ev = nul \<Longrightarrow> event_pressed ev \<Longrightarrow> map_of terminal_keys (event_key ev) = None"
    "event_character ev \<noteq> nul \<Longrightarrow> ring_length (character_ring s) < 127"
  shows "input_ok (keyboard_publish_event c ev s) e h \<and> decoder_same s (keyboard_publish_event c ev s) \<and>
    typed_text (keyboard_publish_event c ev s) = typed_text s @ (if event_character ev = nul then [] else [event_character ev])"
proof -
  obtain s1 where s1: "gui_input_filter_keyboard_event c ev s = (False, s1)"
    using gui_filter_consumed [of c ev s] assms(2) by (metis prod.collapse)
  have same: "keyboard_same s s1" using gui_filter_same [of s c ev] s1 by simp
  have ok1: "input_ok s1 e h" using assms(1) input_ok_same [OF same] by simp
  note ev = event_push_ok [OF ok1, of c ev]
  have chars: "character_ring (keyboard_event_push c ev s1) = character_ring s" using ev same by (simp add: keyboard_same_def)
  have dec: "decoder_same s (keyboard_event_push c ev s1)"
    using same push_decoder_same(1) [of s1 c ev] by (simp add: keyboard_same_def decoder_same_def)
  show ?thesis
  proof (cases "event_character ev = nul")
    case True
    then have "keyboard_publish_event c ev s = keyboard_event_push c ev s1"
      using assms(3) by (simp add: keyboard_publish_event_def s1 keyboard_publish_terminal_key_def Let_def)
    then show ?thesis using ev dec chars True by simp
  next
    case False
    then have "keyboard_publish_event c ev s = keyboard_character_push c (event_character ev) (keyboard_event_push c ev s1)"
      by (simp add: keyboard_publish_event_def s1 Let_def)
    then show ?thesis
      using character_push_ok [of "keyboard_event_push c ev s1" e h "event_character ev" c] ev chars dec assms(4) False
        push_decoder_same(2) [of "keyboard_event_push c ev s1" c "event_character ev"]
      by (simp add: decoder_same_def)
  qed
qed

lemma key_effect:
  fixes s :: "'q input_system"
  assumes "ready s e h m" "code \<noteq> 0xE0" "code \<noteq> 0xE1" "key = decode_normal_key (code AND 0x7F)" "key \<noteq> KEY_UNKNOWN" "key < KEY_COUNT"
    "pressed = (code AND 0x80 = 0)" "m' = keyboard_update_modifier_state key pressed (key_down s key) m" "\<not> left_alt m'" "\<not> right_alt m'"
    "ch = (if pressed then keyboard_translate_character key m' else nul)"
    "ch = nul \<Longrightarrow> pressed \<Longrightarrow> map_of terminal_keys key = None" "ch \<noteq> nul \<Longrightarrow> ring_length (character_ring s) < 127"
  shows "ready (keyboard_interrupt_handler c code s) e h m' \<and>
    typed_text (keyboard_interrupt_handler c code s) = typed_text s @ (if ch = nul then [] else [ch])"
proof -
  define s1 where "s1 = keyboard_raw_push code s"
  have s1: "input_ok s1 e h" "modifiers s1 = m" "\<not> decoder_e0_pending s1" "decoder_e1_bytes_remaining s1 = 0" "key_down s1 = key_down s"
    "character_ring s1 = character_ring s"
    using assms(1) raw_push_ok [of s e h code] by (simp_all add: s1_def ready_def keyboard_raw_push_def)
  define s2 where "s2 = s1\<lparr>decoder_e0_pending := False, key_down := (key_down s)(key := pressed), modifiers := m'\<rparr>"
  define ev where "ev = \<lparr>event_key = key, event_pressed = pressed, event_extended = False, event_raw_scancode = code AND 0x7F,
    event_modifiers = m', event_character = ch\<rparr>"
  have run: "keyboard_interrupt_handler c code s = keyboard_publish_event c ev s2"
    using assms s1 by (simp add: keyboard_interrupt_handler_def keyboard_decode_scancode_def keyboard_key_change_def Let_def s1_def [symmetric]
        s2_def ev_def not_le)
  have ok2: "input_ok s2 e h" using s1(1,2,5) assms(8) modifier_update_ok by (auto simp: s2_def input_ok_def)
  have shortcut: "\<not> gui_input_is_global_shortcut ev"
    using assms(9,10) by (simp add: gui_input_is_global_shortcut_def gui_input_alt_active_def ev_def)
  have "input_ok (keyboard_publish_event c ev s2) e h \<and> decoder_same s2 (keyboard_publish_event c ev s2) \<and>
      typed_text (keyboard_publish_event c ev s2) = typed_text s2 @ (if event_character ev = nul then [] else [event_character ev])"
    by (rule publish_effect [OF ok2 shortcut]) (use assms(12,13) s1(6) in \<open>simp_all add: ev_def s2_def\<close>)
  then show ?thesis using s1(4,6) by (simp add: run ready_def decoder_same_def s2_def ev_def)
qed

section \<open>One character\<close>

definition code_ok :: "nat \<Rightarrow> bool" where
  "code_ok i \<longleftrightarrow> (let w = of_nat i :: u8
     in w AND 0x7F = w \<and> w AND 0x80 = 0 \<and> (w OR 0x80) AND 0x7F = w \<and> (w OR 0x80) AND 0x80 \<noteq> 0 \<and>
        w \<noteq> 0xE0 \<and> w \<noteq> 0xE1 \<and> w OR 0x80 \<noteq> 0xE0 \<and> w OR 0x80 \<noteq> 0xE1 \<and> decode_normal_key w = normal_keys ! i)"

lemma code_ok:
  assumes "i < 58"
  shows "code_ok i"
proof -
  let ?w = "of_nat i :: u8"
  have w: "unat ?w = i" using assms by (simp add: unat_of_nat)
  have small: "n < 7" if "bit ?w n" for n
  proof -
    have "bit (unat ?w) n" using that by (simp add: bit_unsigned_iff)
    moreover have "take_bit 7 (unat ?w) = unat ?w" using assms w by (simp add: take_bit_nat_eq_self)
    ultimately show "n < 7" by (metis bit_take_bit_iff)
  qed
  have low: "bit (0x7F :: u8) n \<longleftrightarrow> n < 7" for n
  proof -
    have m: "(0x7F :: u8) = mask 7" by (simp add: mask_eq_exp_minus_1)
    show ?thesis unfolding m bit_mask_iff by auto
  qed
  have high: "bit (0x80 :: u8) n \<longleftrightarrow> n = 7" for n
  proof -
    have "(0x80 :: u8) = 2 ^ 7" by simp
    then show ?thesis by (simp only: bit_exp_iff) auto
  qed
  have "?w AND 0x7F = ?w" by (rule bit_word_eqI) (simp only: bit_and_iff low, insert small, blast)
  moreover have "?w AND 0x80 = 0" by (rule bit_word_eqI) (simp only: bit_and_iff high bit_0_eq bot_apply bot_bool_def, insert small, blast)
  moreover have low_bits: "(?w OR 0x80) AND 0x7F = ?w"
    by (rule bit_word_eqI) (simp only: bit_and_iff bit_or_iff low high, insert small, blast)
  moreover have "bit ((?w OR 0x80) AND 0x80) 7" by (simp add: bit_and_iff bit_or_iff high)
  then have "(?w OR 0x80) AND 0x80 \<noteq> 0" by auto
  moreover have other: "?w \<noteq> x" if "unat x \<ge> 58" for x using w assms that by auto
  then have "?w \<noteq> 0xE0 \<and> ?w \<noteq> 0xE1" by simp
  moreover have "?w OR 0x80 \<noteq> 0xE0" "?w OR 0x80 \<noteq> 0xE1"
    using low_bits other [of "0x60"] other [of "0x61"] by auto
  moreover have "decode_normal_key ?w = normal_keys ! i" using w assms by (simp add: decode_normal_key_def normal_keys_def)
  ultimately show ?thesis by (simp add: code_ok_def Let_def)
qed

definition shift_modifiers :: "bool \<Rightarrow> keyboard_modifiers" where
  "shift_modifiers shift = no_modifiers\<lparr>left_shift := shift\<rparr>"

lemma plain_modifiers: "plain_key key \<Longrightarrow> keyboard_update_modifier_state key pressed was_down m = m"
  by (simp add: plain_key_def keyboard_update_modifier_state_def)

text \<open>Pressing and releasing the key of a character under its modifiers.\<close>

lemma press_release:
  assumes "ready s e h (shift_modifiers shift)" "(ch, code, shift) \<in> set typing_table" "ring_length (character_ring s) < 127"
  shows "ready (typing c [of_nat code, of_nat code OR 0x80] s) e h (shift_modifiers shift) \<and>
    typed_text (typing c [of_nat code, of_nat code OR 0x80] s) = typed_text s @ [ch]"
proof -
  note row = typing_table_ok [OF assms(2)]
  have code: "code_ok code" using code_ok row by blast
  let ?w = "of_nat code :: u8" and ?key = "normal_keys ! code"
  have alt: "\<not> left_alt (shift_modifiers shift)" "\<not> right_alt (shift_modifiers shift)" by (simp_all add: shift_modifiers_def no_modifiers_def)
  have press: "ready (keyboard_interrupt_handler c ?w s) e h (shift_modifiers shift) \<and>
      typed_text (keyboard_interrupt_handler c ?w s) = typed_text s @ (if ch = nul then [] else [ch])"
    by (rule key_effect [OF assms(1), where key = ?key and pressed = True])
      (use row code alt assms(3) in \<open>simp_all add: code_ok_def Let_def plain_key_def plain_modifiers shift_modifiers_def [symmetric]\<close>)
  have release: "ready (keyboard_interrupt_handler c (?w OR 0x80) (keyboard_interrupt_handler c ?w s)) e h (shift_modifiers shift) \<and>
      typed_text (keyboard_interrupt_handler c (?w OR 0x80) (keyboard_interrupt_handler c ?w s)) =
      typed_text (keyboard_interrupt_handler c ?w s) @ (if nul = nul then [] else [nul])"
    by (rule key_effect [OF conjunct1 [OF press], where key = ?key and pressed = False])
      (use row code alt in \<open>simp_all add: code_ok_def Let_def plain_key_def plain_modifiers\<close>)
  show ?thesis using press release row by simp
qed

lemma shift_key:
  assumes "ready s e h (shift_modifiers (\<not> shift))"
  shows "ready (keyboard_interrupt_handler c (if shift then 0x2A else 0xAA) s) e h (shift_modifiers shift) \<and>
    typed_text (keyboard_interrupt_handler c (if shift then 0x2A else 0xAA) s) = typed_text s @ (if nul = nul then [] else [nul])"
  by (rule key_effect [OF assms, where key = KEY_LEFT_SHIFT and pressed = shift])
    (auto simp: decode_normal_key_def normal_keys_def key_codes keyboard_update_modifier_state_def shift_modifiers_def no_modifiers_def
      keyboard_translate_character_def keyboard_translate_letter_def letters_def symbols_def terminal_keys_def nul_def Let_def)

lemma stroke_effect:
  assumes "ready s e h no_modifiers" "typable ch" "ring_length (character_ring s) < 127"
  shows "ready (typing c (strokes ch) s) e h no_modifiers \<and> typed_text (typing c (strokes ch) s) = typed_text s @ [ch]"
proof -
  obtain code shift where row: "map_of typing_table ch = Some (code, shift)" using assms(2) by (auto simp: typable_def)
  note mem = map_of_SomeD [OF row]
  have none: "shift_modifiers False = no_modifiers" by (simp add: shift_modifiers_def no_modifiers_def)
  show ?thesis
  proof (cases shift)
    case False
    then show ?thesis using press_release [of s e h False ch code c] assms mem row none by (simp add: strokes_def Let_def)
  next
    case True
    let ?s = "keyboard_interrupt_handler c 0x2A s"
    have down: "ready ?s e h (shift_modifiers True)" "typed_text ?s = typed_text s"
      using shift_key [of s e h True c] assms(1) none by simp_all
    then have "ring_length (character_ring ?s) < 127" using assms(3) by (metis ring_content_length)
    then have key: "ready (typing c [of_nat code, of_nat code OR 0x80] ?s) e h (shift_modifiers True)"
        "typed_text (typing c [of_nat code, of_nat code OR 0x80] ?s) = typed_text s @ [ch]"
      using press_release [of ?s e h True ch code c] mem True down by simp_all
    show ?thesis using shift_key [of "typing c [of_nat code, of_nat code OR 0x80] ?s" e h False c] key none row True
      by (simp add: strokes_def Let_def)
  qed
qed

lemma text_effect:
  "ready s e h no_modifiers \<Longrightarrow> \<forall>ch \<in> set str. typable ch \<Longrightarrow> ring_length (character_ring s) + length str \<le> 127 \<Longrightarrow>
   ready (typing c (concat (map strokes str)) s) e h no_modifiers \<and> typed_text (typing c (concat (map strokes str)) s) = typed_text s @ str"
proof (induction str arbitrary: s)
  case (Cons ch str)
  have one: "ready (typing c (strokes ch) s) e h no_modifiers" "typed_text (typing c (strokes ch) s) = typed_text s @ [ch]"
    using stroke_effect [OF Cons.prems(1), of ch c] Cons.prems(2,3) by simp_all
  then have "ring_length (character_ring (typing c (strokes ch) s)) = ring_length (character_ring s) + 1"
    by (metis length_append_singleton ring_content_length Suc_eq_plus1)
  then show ?case using Cons.IH [OF one(1)] Cons.prems one(2) by simp
qed simp

section \<open>Reading\<close>

primrec read_characters :: "cpu_id \<Rightarrow> nat \<Rightarrow> 'q input_system \<Rightarrow> char option list \<times> 'q input_system" where
  "read_characters c 0 s = ([], s)"
| "read_characters c (Suc n) s =
     (let (x, s) = keyboard_read_character c s; (xs, s) = read_characters c n s in (x # xs, s))"

lemma read_character_ok:
  assumes "input_ok s e 0" "typed_text s = x # xs"
  shows "\<exists>s'. keyboard_read_character c s = (Some x, s') \<and> input_ok s' e 0 \<and> typed_text s' = xs"
proof -
  let ?n = "semaphore_count (input_kernel s) character_available"
  have "unat ?n = length (typed_text s)" using assms(1) by (simp add: input_ok_def permits_ok_def)
  then have n: "?n \<noteq> 0" using assms(2) by auto
  obtain ok k where k: "semaphore_try_wait c (Some character_available) (input_kernel s) = (ok, k)" by fastforce
  then have ok: "ok" "semaphore_count k = (semaphore_count (input_kernel s))(character_available := ?n - 1)"
    using try_wait_count [OF k] n by simp_all
  have "input_ok (s\<lparr>input_kernel := k\<rparr>) e (Suc 0)" by (rule take_character_ok [OF assms(1) n ok(2)])
  from pop_character_ok [OF this] show ?thesis using assms(2) ok(1) by (auto simp: keyboard_read_character_def k)
qed

lemma read_characters_ok:
  "input_ok s e 0 \<Longrightarrow> typed_text s = str \<Longrightarrow> fst (read_characters c (length str) s) = map Some str"
proof (induction str arbitrary: s)
  case (Cons x str)
  obtain s' where s': "keyboard_read_character c s = (Some x, s')" "input_ok s' e 0" "typed_text s' = str"
    using read_character_ok [OF Cons.prems] by blast
  show ?case using Cons.IH [OF s'(2,3)] by (simp add: s'(1) Let_def split_beta)
qed simp

section \<open>The newest element of a ring\<close>

lemma previous_index: "unat (w :: u32) < 128 \<Longrightarrow> unat ((w - 1) AND (128 - 1)) = (unat w + 127) mod 128"
proof -
  assume w: "unat w < 128"
  have "(w - 1) AND (128 - 1) = take_bit 7 (w - 1)" by (simp add: take_bit_eq_mask mask_eq_exp_minus_1)
  then have m: "unat ((w - 1) AND (128 - 1)) = unat (w - 1) mod 128" by (simp add: take_bit_eq_mod u32_mod_unat)
  show ?thesis
  proof (cases "w = 0")
    case True
    then show ?thesis unfolding m by (simp add: unsigned_minus_1_eq_mask mask_eq_exp_minus_1)
  next
    case False
    then have "unat (w - 1) = unat w - 1" "unat w > 0" by (simp_all add: unat_dec_u32 unat_gt_0)
    then show ?thesis unfolding m using w by (simp add: mod_128)
  qed
qed

text \<open>Replacing the cell before the index to write replaces the last element.\<close>

lemma ring_replace_last:
  assumes "ring_ok r" "ring_length r \<noteq> 0"
  shows "ring_cells r ((ring_write r - 1) AND (128 - 1)) = last (ring_content r) \<and>
    ring_content (r\<lparr>ring_cells := (ring_cells r)((ring_write r - 1) AND (128 - 1) := x)\<rparr>) = butlast (ring_content r) @ [x]"
proof -
  let ?n = "ring_length r" and ?a = "unat (ring_read r)" and ?p = "(ring_write r - 1) AND (128 - 1)"
  obtain m where m: "?n = Suc m" "m < 127" using assms(2) ring_length_less [of r] by (cases ?n) auto
  have "unat ?p = (?a + m) mod 128"
    using assms(1) m ring_write_at [OF assms(1)] unfolding ring_ok_def
    by (subst previous_index) (auto simp: mod_128 split: if_splits)
  moreover have "unat (of_nat ((?a + m) mod 128) :: u32) = (?a + m) mod 128"
    by (rule u32_of_nat_unat) (use mod_less_divisor [of 128 "?a + m"] in linarith)
  ultimately have p: "?p = of_nat ((?a + m) mod 128)" by (simp only: u32_eq_iff)
  have apart: "of_nat ((?a + i) mod 128) \<noteq> ?p" if "i < m" for i
  proof
    assume "of_nat ((?a + i) mod 128) = ?p"
    then have "unat (of_nat ((?a + i) mod 128) :: u32) = unat (of_nat ((?a + m) mod 128) :: u32)" by (simp only: p)
    moreover have "(?a + k) mod 128 < 4294967296" for k using mod_less_divisor [of 128 "?a + k"] by linarith
    ultimately have "(?a + i) mod 128 = (?a + m) mod 128" by (simp only: u32_of_nat_unat)
    then show False using places_apart [OF that, of ?a] m assms(1) by (simp add: ring_ok_def)
  qed
  have content: "ring_content r = map (\<lambda>i. ring_cells r (of_nat ((?a + i) mod 128))) [0..<m] @ [ring_cells r ?p]"
    by (simp add: ring_content_def m(1) p [symmetric])
  have len: "ring_length (r\<lparr>ring_cells := g\<rparr>) = ring_length r" for g by (simp add: ring_length_def)
  have "ring_content (r\<lparr>ring_cells := (ring_cells r)(?p := x)\<rparr>) = map (\<lambda>i. ring_cells r (of_nat ((?a + i) mod 128))) [0..<m] @ [x]"
    using apart unfolding ring_content_def by (simp add: len m(1) p [symmetric])
  then show ?thesis using content by simp
qed

section \<open>The queue of the graphical interface\<close>

definition is_move :: "gui_input_event \<Rightarrow> bool" where
  "is_move event \<longleftrightarrow> gui_event_type event = GUI_INPUT_EVENT_MOUSE_MOVE"

text \<open>What a queue of 127 places that merges movements of the mouse does.\<close>

definition merged :: "gui_input_event \<Rightarrow> gui_input_event list \<Rightarrow> gui_input_event list" where
  "merged event q =
     (if is_move event \<and> q \<noteq> [] \<and> is_move (last q) then butlast q @ [event]
      else if length q = 127 then q else q @ [event])"

lemma gui_push_merges:
  assumes "permits_ok gui_input_available (input_kernel s) (gui_ring s) n" "gui_input_initialized s" "gui_input_push c event s = (ok, s')"
  shows "permits_ok gui_input_available (input_kernel s') (gui_ring s') n \<and>
    ring_content (gui_ring s') = merged event (ring_content (gui_ring s)) \<and>
    (ok \<longleftrightarrow> is_move event \<and> ring_content (gui_ring s) \<noteq> [] \<and> is_move (last (ring_content (gui_ring s))) \<or>
       length (ring_content (gui_ring s)) \<noteq> 127)"
proof -
  let ?r = "gui_ring s" and ?p = "(ring_write (gui_ring s) - 1) AND (128 - 1)"
  have rok: "ring_ok ?r" using assms(1) by (simp add: permits_ok_def)
  have empty: "ring_content ?r = [] \<longleftrightarrow> ring_read ?r = ring_write ?r" using ring_empty [OF rok] by (metis length_0_conv ring_content_length)
  define merge where "merge \<longleftrightarrow> is_move event \<and> ring_content ?r \<noteq> [] \<and> is_move (last (ring_content ?r))"
  have test: "gui_event_type event = GUI_INPUT_EVENT_MOUSE_MOVE \<and> ring_read ?r \<noteq> ring_write ?r \<and>
      gui_event_type (ring_cells ?r ?p) = GUI_INPUT_EVENT_MOUSE_MOVE \<longleftrightarrow> merge"
    using ring_replace_last [OF rok] ring_empty [OF rok] empty by (auto simp: merge_def is_move_def)
  show ?thesis
  proof (cases merge)
    case True
    then have "ring_length ?r \<noteq> 0" using ring_empty [OF rok] empty by (auto simp: merge_def)
    note replace = ring_replace_last [OF rok this, of event]
    have "ok" "s' = s\<lparr>gui_ring := ?r\<lparr>ring_cells := (ring_cells ?r)(?p := event)\<rparr>\<rparr>"
      using assms(2,3) test True by (simp_all add: gui_input_push_def Let_def)
    moreover have cells: "permits_ok a (input_kernel s) (?r\<lparr>ring_cells := g\<rparr>) n = permits_ok a (input_kernel s) ?r n" for a g
      by (simp add: permits_ok_def ring_ok_def ring_length_def)
    ultimately show ?thesis using True assms(1) replace by (simp add: cells merged_def merge_def)
  next
    case False
    obtain o' r' where push: "ring_push event ?r = (o', r')" by fastforce
    have "ok = o'" "s' = (if o' then signal c gui_input_available (s\<lparr>gui_ring := r'\<rparr>) else s\<lparr>gui_ring := r'\<rparr>)"
      using assms(2,3) test False push by (auto simp: gui_input_push_def Let_def)
    then show ?thesis using permits_push [OF assms(1) push, of c] False by (auto simp: merged_def merge_def)
  qed
qed

lemma gui_pop_oldest:
  assumes "permits_ok gui_input_available (input_kernel s) (gui_ring s) (Suc n)"
  shows "\<exists>event s'. gui_input_pop s = (Some event, s') \<and> permits_ok gui_input_available (input_kernel s') (gui_ring s') n \<and>
    ring_content (gui_ring s) = event # ring_content (gui_ring s')"
  using permits_pop [OF assms] by (auto simp: gui_input_pop_def Let_def)

section \<open>The properties\<close>

definition empty_ring :: "'a \<Rightarrow> 'a ring" where
  "empty_ring x = \<lparr>ring_cells = (\<lambda>_. x), ring_read = 0, ring_write = 0, ring_dropped = 0\<rparr>"

definition blank_event :: keyboard_event where
  "blank_event = \<lparr>event_key = KEY_UNKNOWN, event_pressed = False, event_extended = False, event_raw_scancode = 0,
     event_modifiers = no_modifiers, event_character = nul\<rparr>"

definition sample_move :: "u32 \<Rightarrow> gui_input_event" where
  "sample_move x = \<lparr>gui_event_type = GUI_INPUT_EVENT_MOUSE_MOVE, gui_mouse_x = x, gui_mouse_y = 0,
     gui_mouse_button = MOUSE_BUTTON_LEFT, gui_mouse_buttons = 0, gui_key = KEY_UNKNOWN, gui_modifiers = no_modifiers, gui_character = nul\<rparr>"

definition sample_input :: "round_robin_state input_system" where
  "sample_input = \<lparr>input_kernel = sample_kernel\<lparr>semaphore_count := (\<lambda>_. 0)\<rparr>, raw_ring = empty_ring 0, event_ring = empty_ring blank_event,
     character_ring = empty_ring nul, decoder_e0_pending = False, decoder_e1_bytes_remaining = 0, key_down = (\<lambda>_. False),
     modifiers = no_modifiers, keyboard_initialized = False, keyboard_irq_enabled = False, gui_ring = empty_ring (sample_move 0),
     gui_input_initialized = True, gui_input_task = None\<rparr>"



text \<open>Claim C11. A permit is an element. From the start of the driver on, whatever interrupts arrive and however readers of
  events and of characters interleave between taking a permit of a semaphore and taking out an element: the permits and the
  readers on their way are as many as the elements, at most 127; a reader that got a permit finds an element, the oldest, so that
  the waiting calls never fail after they have waited; and the modifiers of the events are those of the keys that are down.\<close>

theorem permit_finds_element:
  assumes "\<not> keyboard_initialized s0" "input_step\<^sup>*\<^sup>* (snd (keyboard_initialize s0), 0, 0) (s, e, h)"
  shows "unat (keyboard_pending_events s) + e = length (ring_content (event_ring s)) \<and>
    unat (keyboard_pending_characters s) + h = length (ring_content (character_ring s)) \<and>
    length (ring_content (event_ring s)) \<le> 127 \<and> length (ring_content (character_ring s)) \<le> 127 \<and>
    (e > 0 \<longrightarrow> fst (keyboard_event_pop_unlocked s) = Some (hd (ring_content (event_ring s)))) \<and>
    (h > 0 \<longrightarrow> fst (keyboard_character_pop_unlocked s) = Some (hd (ring_content (character_ring s)))) \<and>
    modifiers_ok (key_down s) (keyboard_get_modifiers s)"
proof -
  have ok: "input_ok s e h" using input_steps_ok [OF assms(2)] keyboard_initialize_ok [OF assms(1)] by simp
  have "e > 0 \<longrightarrow> fst (keyboard_event_pop_unlocked s) = Some (hd (ring_content (event_ring s)))"
    using ok pop_event_ok [of s "e - 1" h] by (cases e) auto
  moreover have "h > 0 \<longrightarrow> fst (keyboard_character_pop_unlocked s) = Some (hd (ring_content (character_ring s)))"
    using ok pop_character_ok [of s e "h - 1"] by (cases h) auto
  moreover have "ring_length (event_ring s) \<le> 127" "ring_length (character_ring s) \<le> 127"
    using ring_length_less [of "event_ring s"] ring_length_less [of "character_ring s"] by simp_all
  ultimately show ?thesis using ok
    by (simp add: input_ok_def permits_ok_def keyboard_pending_events_def keyboard_pending_characters_def semaphore_get_count_def keyboard_get_modifiers_def)
qed

theorem permit_finds_element_witness:
  "\<exists>s. unat (keyboard_pending_events s) + 0 = length (ring_content (event_ring (s :: round_robin_state input_system))) \<and>
     s = keyboard_interrupt_handler 0 0x1E (snd (keyboard_initialize sample_input))"
proof -
  have "input_step\<^sup>*\<^sup>* (snd (keyboard_initialize sample_input), 0, 0) (keyboard_interrupt_handler 0 0x1E (snd (keyboard_initialize sample_input)), 0, 0)"
    using input_step.interrupt by (rule r_into_rtranclp)
  moreover have "\<not> keyboard_initialized sample_input" by (simp add: sample_input_def)
  ultimately show ?thesis using permit_finds_element by blast
qed

text \<open>Claim C40. The event queue of the graphical interface. Putting an event into the queue appends it, unless it is a movement
  of the mouse behind another movement, which it replaces, or the queue is full, when it is refused; no other event is lost, merged or
  moved. The permits stay as many as the events, merged ones included, and whoever has a permit takes out the oldest event.\<close>

theorem gui_queue_merges_moves:
  assumes "permits_ok gui_input_available (input_kernel s) (gui_ring s) n" "gui_input_initialized s" "gui_input_push c event s = (ok, s')"
  shows "permits_ok gui_input_available (input_kernel s') (gui_ring s') n \<and>
    ring_content (gui_ring s') = merged event (ring_content (gui_ring s)) \<and>
    (ok \<longleftrightarrow> is_move event \<and> ring_content (gui_ring s) \<noteq> [] \<and> is_move (last (ring_content (gui_ring s))) \<or>
       length (ring_content (gui_ring s)) \<noteq> 127) \<and>
    (n > 0 \<longrightarrow> (\<exists>s''. gui_input_pop s' = (Some (hd (ring_content (gui_ring s'))), s'') \<and>
       ring_content (gui_ring s'') = tl (ring_content (gui_ring s'))))"
  using gui_push_merges [OF assms] gui_pop_oldest [of s' "n - 1"] by (cases n) auto

theorem gui_queue_merges_moves_witness:
  "\<exists>ok s'. gui_input_push 0 (sample_move 7) sample_input = (ok, s') \<and> ring_content (gui_ring s') = [sample_move 7]"
proof -
  have "permits_ok gui_input_available (input_kernel sample_input) (gui_ring sample_input) 0"
    by (simp add: permits_ok_def sample_input_def empty_ring_def ring_ok_def ring_length_def)
  moreover have "gui_input_initialized sample_input" "ring_content (gui_ring sample_input) = []"
    by (simp_all add: sample_input_def empty_ring_def ring_content_def ring_length_def)
  moreover obtain ok s' where push: "gui_input_push 0 (sample_move 7) sample_input = (ok, s')" by fastforce
  ultimately show ?thesis using gui_queue_merges_moves [of sample_input 0 0 "sample_move 7" ok s'] by (auto simp: merged_def)
qed

end
