(* ===== verification/Mouse.thy ===== *)
theory Mouse
  imports Keyboard
begin

text \<open>
  The mouse driver \<open>kernel/device/mouse.c\<close>: the dialogue with the i8042 controller, the decoder of packets of three bytes, and
  the ring of its events. The controller is an argument, four functions on a state of the device: reading and writing its two ports.
\<close>

section \<open>The controller\<close>

record 'd controller =
  ctl_status :: "'d \<Rightarrow> u8 \<times> 'd"
  ctl_read :: "'d \<Rightarrow> u8 \<times> 'd"
  ctl_command :: "u8 \<Rightarrow> 'd \<Rightarrow> 'd"
  ctl_write :: "u8 \<Rightarrow> 'd \<Rightarrow> 'd"

definition I8042_STATUS_OUTPUT_FULL :: u8 where "I8042_STATUS_OUTPUT_FULL = 0x01"
definition I8042_STATUS_INPUT_FULL :: u8 where "I8042_STATUS_INPUT_FULL = 0x02"
definition I8042_STATUS_AUX_DATA :: u8 where "I8042_STATUS_AUX_DATA = 0x20"
definition I8042_COMMAND_READ_CONFIG :: u8 where "I8042_COMMAND_READ_CONFIG = 0x20"
definition I8042_COMMAND_WRITE_CONFIG :: u8 where "I8042_COMMAND_WRITE_CONFIG = 0x60"
definition I8042_COMMAND_ENABLE_AUXILIARY :: u8 where "I8042_COMMAND_ENABLE_AUXILIARY = 0xA8"
definition I8042_COMMAND_WRITE_AUXILIARY :: u8 where "I8042_COMMAND_WRITE_AUXILIARY = 0xD4"
definition I8042_CONFIG_AUX_IRQ_ENABLE :: u8 where "I8042_CONFIG_AUX_IRQ_ENABLE = 0x02"
definition I8042_CONFIG_AUX_DISABLE :: u8 where "I8042_CONFIG_AUX_DISABLE = 0x20"
definition MOUSE_COMMAND_SET_DEFAULTS :: u8 where "MOUSE_COMMAND_SET_DEFAULTS = 0xF6"
definition MOUSE_COMMAND_ENABLE_REPORTING :: u8 where "MOUSE_COMMAND_ENABLE_REPORTING = 0xF4"
definition MOUSE_RESPONSE_ACK :: u8 where "MOUSE_RESPONSE_ACK = 0xFA"
definition I8042_TIMEOUT :: nat where "I8042_TIMEOUT = 100000"

text \<open>Waiting until a bit of the status is set, or clear; the argument is the number of attempts that are left.\<close>

primrec wait_status :: "'d controller \<Rightarrow> u8 \<Rightarrow> bool \<Rightarrow> nat \<Rightarrow> 'd \<Rightarrow> bool \<times> 'd" where
  "wait_status C bits wanted 0 d = (False, d)"
| "wait_status C bits wanted (Suc n) d =
     (let (status, d) = ctl_status C d
      in if (status AND bits \<noteq> 0) = wanted then (True, d) else wait_status C bits wanted n d)"

definition i8042_wait_input_empty :: "'d controller \<Rightarrow> 'd \<Rightarrow> bool \<times> 'd" where
  "i8042_wait_input_empty C d = wait_status C I8042_STATUS_INPUT_FULL False I8042_TIMEOUT d"

definition i8042_wait_output_full :: "'d controller \<Rightarrow> 'd \<Rightarrow> bool \<times> 'd" where
  "i8042_wait_output_full C d = wait_status C I8042_STATUS_OUTPUT_FULL True I8042_TIMEOUT d"

primrec read_auxiliary_loop :: "'d controller \<Rightarrow> nat \<Rightarrow> 'd \<Rightarrow> u8 option \<times> 'd" where
  "read_auxiliary_loop C 0 d = (None, d)"
| "read_auxiliary_loop C (Suc n) d =
     (let (status, d) = ctl_status C d
      in if status AND I8042_STATUS_OUTPUT_FULL = 0 then read_auxiliary_loop C n d
         else if status AND I8042_STATUS_AUX_DATA = 0 then read_auxiliary_loop C n (snd (ctl_read C d))
         else let (x, d) = ctl_read C d in (Some x, d))"

definition i8042_read_auxiliary :: "'d controller \<Rightarrow> 'd \<Rightarrow> u8 option \<times> 'd" where
  "i8042_read_auxiliary C d = read_auxiliary_loop C I8042_TIMEOUT d"

definition i8042_write_command :: "'d controller \<Rightarrow> u8 \<Rightarrow> 'd \<Rightarrow> bool \<times> 'd" where
  "i8042_write_command C command d =
     (let (ok, d) = i8042_wait_input_empty C d in if \<not> ok then (False, d) else (True, ctl_command C command d))"

definition i8042_write_data :: "'d controller \<Rightarrow> u8 \<Rightarrow> 'd \<Rightarrow> bool \<times> 'd" where
  "i8042_write_data C x d =
     (let (ok, d) = i8042_wait_input_empty C d in if \<not> ok then (False, d) else (True, ctl_write C x d))"

primrec flush_output_loop :: "'d controller \<Rightarrow> nat \<Rightarrow> 'd \<Rightarrow> 'd" where
  "flush_output_loop C 0 d = d"
| "flush_output_loop C (Suc n) d =
     (let (status, d) = ctl_status C d
      in if status AND I8042_STATUS_OUTPUT_FULL = 0 then d else flush_output_loop C n (snd (ctl_read C d)))"

definition i8042_flush_output :: "'d controller \<Rightarrow> 'd \<Rightarrow> 'd" where
  "i8042_flush_output C d = flush_output_loop C 256 d"

definition i8042_enable_auxiliary_port :: "'d controller \<Rightarrow> 'd \<Rightarrow> bool \<times> 'd" where
  "i8042_enable_auxiliary_port C d =
     (let (ok, d) = i8042_write_command C I8042_COMMAND_ENABLE_AUXILIARY d
      in if \<not> ok then (False, d)
         else
           let (ok, d) = i8042_write_command C I8042_COMMAND_READ_CONFIG d
           in if \<not> ok then (False, d)
              else
                let (ok, d) = i8042_wait_output_full C d
                in if \<not> ok then (False, d)
                   else
                     let (configuration, d) = ctl_read C d;
                         configuration = configuration OR I8042_CONFIG_AUX_IRQ_ENABLE;
                         configuration = configuration AND NOT I8042_CONFIG_AUX_DISABLE;
                         (ok, d) = i8042_write_command C I8042_COMMAND_WRITE_CONFIG d
                     in if \<not> ok then (False, d) else i8042_write_data C configuration d)"

definition mouse_send_command :: "'d controller \<Rightarrow> u8 \<Rightarrow> 'd \<Rightarrow> bool \<times> 'd" where
  "mouse_send_command C command d =
     (let (ok, d) = i8042_write_command C I8042_COMMAND_WRITE_AUXILIARY d
      in if \<not> ok then (False, d)
         else
           let (ok, d) = i8042_write_data C command d
           in if \<not> ok then (False, d)
              else let (response, d) = i8042_read_auxiliary C d in (response = Some MOUSE_RESPONSE_ACK, d))"

section \<open>State\<close>

datatype mouse_event_type = MOUSE_EVENT_MOVE | MOUSE_EVENT_BUTTON_DOWN | MOUSE_EVENT_BUTTON_UP

record mouse_event =
  mouse_event_type :: mouse_event_type
  mouse_dx :: int
  mouse_dy :: int
  mouse_event_button :: mouse_button
  mouse_event_buttons :: u8

definition MOUSE_BUTTON_MASK_LEFT :: u8 where "MOUSE_BUTTON_MASK_LEFT = 1"
definition MOUSE_BUTTON_MASK_RIGHT :: u8 where "MOUSE_BUTTON_MASK_RIGHT = 2"
definition MOUSE_BUTTON_MASK_MIDDLE :: u8 where "MOUSE_BUTTON_MASK_MIDDLE = 4"
definition MOUSE_PACKET_LEFT :: u8 where "MOUSE_PACKET_LEFT = 0x01"
definition MOUSE_PACKET_RIGHT :: u8 where "MOUSE_PACKET_RIGHT = 0x02"
definition MOUSE_PACKET_MIDDLE :: u8 where "MOUSE_PACKET_MIDDLE = 0x04"
definition MOUSE_PACKET_ALWAYS_ONE :: u8 where "MOUSE_PACKET_ALWAYS_ONE = 0x08"
definition MOUSE_PACKET_X_OVERFLOW :: u8 where "MOUSE_PACKET_X_OVERFLOW = 0x40"
definition MOUSE_PACKET_Y_OVERFLOW :: u8 where "MOUSE_PACKET_Y_OVERFLOW = 0x80"

record 'd mouse_driver =
  mouse_device :: 'd
  mouse_ring :: "mouse_event ring"
  mouse_initialized :: bool
  mouse_handler_registered :: bool
  mouse_irq_unmasked :: bool
  mouse_packet :: "u8 \<times> u8 \<times> u8"
  mouse_packet_index :: u8
  mouse_buttons :: u8
  mouse_packets_received :: u32
  mouse_bad_packets :: u32

section \<open>Packets\<close>

definition mouse_event_push :: "mouse_event \<Rightarrow> 'd mouse_driver \<Rightarrow> 'd mouse_driver" where
  "mouse_event_push event s = s\<lparr>mouse_ring := snd (ring_push event (mouse_ring s))\<rparr>"

definition mouse_publish_button_change :: "mouse_button \<Rightarrow> bool \<Rightarrow> u8 \<Rightarrow> 'd mouse_driver \<Rightarrow> 'd mouse_driver" where
  "mouse_publish_button_change button pressed new_buttons s =
     mouse_event_push \<lparr>mouse_event_type = (if pressed then MOUSE_EVENT_BUTTON_DOWN else MOUSE_EVENT_BUTTON_UP), mouse_dx = 0, mouse_dy = 0,
       mouse_event_button = button, mouse_event_buttons = new_buttons\<rparr> s"

definition mouse_decode_packet :: "'d mouse_driver \<Rightarrow> 'd mouse_driver" where
  "mouse_decode_packet s =
     (let (flags, x, y) = mouse_packet s
      in if flags AND (MOUSE_PACKET_X_OVERFLOW OR MOUSE_PACKET_Y_OVERFLOW) \<noteq> 0 then s\<lparr>mouse_bad_packets := mouse_bad_packets s + 1\<rparr>
         else
           let dx = sint x;
               dy = - sint y;
               new_buttons = (if flags AND MOUSE_PACKET_LEFT \<noteq> 0 then MOUSE_BUTTON_MASK_LEFT else 0);
               new_buttons = (if flags AND MOUSE_PACKET_RIGHT \<noteq> 0 then new_buttons OR MOUSE_BUTTON_MASK_RIGHT else new_buttons);
               new_buttons = (if flags AND MOUSE_PACKET_MIDDLE \<noteq> 0 then new_buttons OR MOUSE_BUTTON_MASK_MIDDLE else new_buttons);
               old_buttons = mouse_buttons s;
               s = s\<lparr>mouse_buttons := new_buttons, mouse_packets_received := mouse_packets_received s + 1\<rparr>;
               s = (if dx \<noteq> 0 \<or> dy \<noteq> 0 then
                      mouse_event_push \<lparr>mouse_event_type = MOUSE_EVENT_MOVE, mouse_dx = dx, mouse_dy = dy,
                        mouse_event_button = MOUSE_BUTTON_LEFT, mouse_event_buttons = new_buttons\<rparr> s
                    else s);
               changed = old_buttons XOR new_buttons;
               s = (if changed AND MOUSE_BUTTON_MASK_LEFT \<noteq> 0 then
                      mouse_publish_button_change MOUSE_BUTTON_LEFT (new_buttons AND MOUSE_BUTTON_MASK_LEFT \<noteq> 0) new_buttons s else s);
               s = (if changed AND MOUSE_BUTTON_MASK_RIGHT \<noteq> 0 then
                      mouse_publish_button_change MOUSE_BUTTON_RIGHT (new_buttons AND MOUSE_BUTTON_MASK_RIGHT \<noteq> 0) new_buttons s else s)
           in if changed AND MOUSE_BUTTON_MASK_MIDDLE \<noteq> 0 then
                mouse_publish_button_change MOUSE_BUTTON_MIDDLE (new_buttons AND MOUSE_BUTTON_MASK_MIDDLE \<noteq> 0) new_buttons s else s)"

text \<open>A byte of the stream: where it goes in the packet, and the packet when it is complete. An index beyond 2 would write out of
  bounds.\<close>

definition set_packet_byte :: "nat \<Rightarrow> u8 \<Rightarrow> u8 \<times> u8 \<times> u8 \<Rightarrow> u8 \<times> u8 \<times> u8" where
  "set_packet_byte i b = (\<lambda>(x, y, z). if i = 0 then (b, y, z) else if i = 1 then (x, b, z) else (x, y, b))"

definition mouse_packet_byte :: "u8 \<Rightarrow> 'd mouse_driver \<Rightarrow> 'd mouse_driver option" where
  "mouse_packet_byte b s =
     (if mouse_packet_index s = 0 \<and> b AND MOUSE_PACKET_ALWAYS_ONE = 0 then Some (s\<lparr>mouse_bad_packets := mouse_bad_packets s + 1\<rparr>)
      else if mouse_packet_index s > 2 then None
      else
        let s = s\<lparr>mouse_packet := set_packet_byte (unat (mouse_packet_index s)) b (mouse_packet s)\<rparr>;
            s = s\<lparr>mouse_packet_index := mouse_packet_index s + 1\<rparr>
        in if mouse_packet_index s < 3 then Some s else Some (mouse_decode_packet (s\<lparr>mouse_packet_index := 0\<rparr>)))"

definition mouse_interrupt_handler :: "'d controller \<Rightarrow> 'd mouse_driver \<Rightarrow> 'd mouse_driver option" where
  "mouse_interrupt_handler C s =
     (let (status, d) = ctl_status C (mouse_device s);
          s = s\<lparr>mouse_device := d\<rparr>
      in if status AND I8042_STATUS_OUTPUT_FULL = 0 then Some s
         else if status AND I8042_STATUS_AUX_DATA = 0 then Some s
         else
           let (b, d) = ctl_read C (mouse_device s)
           in mouse_packet_byte b (s\<lparr>mouse_device := d\<rparr>))"

section \<open>Initialisation and calls\<close>

definition mouse_initialize :: "'d controller \<Rightarrow> 'd mouse_driver \<Rightarrow> bool \<times> 'd mouse_driver" where
  "mouse_initialize C s =
     (if mouse_initialized s then (True, s)
      else
        let s = s\<lparr>mouse_irq_unmasked := False\<rparr>;
            s = s\<lparr>mouse_ring := ring_clear (mouse_ring s), mouse_packet_index := 0, mouse_buttons := 0,
                   mouse_packets_received := 0, mouse_bad_packets := 0\<rparr>;
            s = s\<lparr>mouse_device := i8042_flush_output C (mouse_device s)\<rparr>;
            (ok, d) = i8042_enable_auxiliary_port C (mouse_device s);
            s = s\<lparr>mouse_device := d\<rparr>
        in if \<not> ok then (False, s)
           else
             let s = s\<lparr>mouse_handler_registered := True\<rparr>;
                 (ok, d) = mouse_send_command C MOUSE_COMMAND_SET_DEFAULTS (mouse_device s);
                 s = s\<lparr>mouse_device := d\<rparr>
             in if \<not> ok then (False, s\<lparr>mouse_handler_registered := False\<rparr>)
                else
                  let (ok, d) = mouse_send_command C MOUSE_COMMAND_ENABLE_REPORTING (mouse_device s);
                      s = s\<lparr>mouse_device := d\<rparr>
                  in if \<not> ok then (False, s\<lparr>mouse_handler_registered := False\<rparr>)
                     else (True, s\<lparr>mouse_irq_unmasked := True, mouse_initialized := True\<rparr>))"

definition mouse_is_initialized :: "'d mouse_driver \<Rightarrow> bool" where
  "mouse_is_initialized s = mouse_initialized s"

definition mouse_read_event :: "'d mouse_driver \<Rightarrow> mouse_event option \<times> 'd mouse_driver" where
  "mouse_read_event s = (let (event, r) = ring_pop (mouse_ring s) in (event, s\<lparr>mouse_ring := r\<rparr>))"

definition mouse_pending_events :: "'d mouse_driver \<Rightarrow> u32" where
  "mouse_pending_events s = ring_pending (mouse_ring s)"

definition mouse_dropped_events :: "'d mouse_driver \<Rightarrow> u32" where
  "mouse_dropped_events s = ring_dropped (mouse_ring s)"

definition mouse_get_buttons :: "'d mouse_driver \<Rightarrow> u8" where
  "mouse_get_buttons s = mouse_buttons s"

definition mouse_button_is_down :: "mouse_button \<Rightarrow> 'd mouse_driver \<Rightarrow> bool" where
  "mouse_button_is_down button s =
     (let bits = (case button of MOUSE_BUTTON_LEFT \<Rightarrow> MOUSE_BUTTON_MASK_LEFT | MOUSE_BUTTON_RIGHT \<Rightarrow> MOUSE_BUTTON_MASK_RIGHT
                  | MOUSE_BUTTON_MIDDLE \<Rightarrow> MOUSE_BUTTON_MASK_MIDDLE)
      in mouse_get_buttons s AND bits \<noteq> 0)"

definition mouse_packet_count :: "'d mouse_driver \<Rightarrow> u32" where
  "mouse_packet_count s = mouse_packets_received s"

definition mouse_bad_packet_count :: "'d mouse_driver \<Rightarrow> u32" where
  "mouse_bad_packet_count s = mouse_bad_packets s"

section \<open>What a stream of bytes means\<close>

text \<open>The packets of a stream: a byte that cannot start a packet is skipped.\<close>

fun stream_packets :: "u8 list \<Rightarrow> (u8 \<times> u8 \<times> u8) list" where
  "stream_packets (b # bs) =
     (if b AND 0x08 = 0 then stream_packets bs
      else (case bs of x # y # rest \<Rightarrow> (b, x, y) # stream_packets rest | _ \<Rightarrow> []))"
| "stream_packets [] = []"

definition packet_buttons :: "u8 \<Rightarrow> u8" where
  "packet_buttons flags = flags AND 0x07"

definition button_event :: "mouse_button \<Rightarrow> u8 \<Rightarrow> u8 \<Rightarrow> u8 \<Rightarrow> mouse_event list" where
  "button_event button bits old new =
     (if (old AND bits \<noteq> 0) = (new AND bits \<noteq> 0) then []
      else [\<lparr>mouse_event_type = (if new AND bits \<noteq> 0 then MOUSE_EVENT_BUTTON_DOWN else MOUSE_EVENT_BUTTON_UP), mouse_dx = 0, mouse_dy = 0,
             mouse_event_button = button, mouse_event_buttons = new\<rparr>])"

definition overflow_packet :: "u8 \<times> u8 \<times> u8 \<Rightarrow> bool" where
  "overflow_packet p \<longleftrightarrow> fst p AND 0xC0 \<noteq> 0"

definition packet_events :: "u8 \<Rightarrow> u8 \<times> u8 \<times> u8 \<Rightarrow> mouse_event list" where
  "packet_events old = (\<lambda>(flags, x, y).
     if overflow_packet (flags, x, y) then []
     else
       let new = packet_buttons flags
       in (if x = 0 \<and> y = 0 then []
           else [\<lparr>mouse_event_type = MOUSE_EVENT_MOVE, mouse_dx = sint x, mouse_dy = - sint y, mouse_event_button = MOUSE_BUTTON_LEFT,
                  mouse_event_buttons = new\<rparr>]) @
          button_event MOUSE_BUTTON_LEFT 1 old new @ button_event MOUSE_BUTTON_RIGHT 2 old new @ button_event MOUSE_BUTTON_MIDDLE 4 old new)"

definition buttons_after :: "u8 \<Rightarrow> u8 \<times> u8 \<times> u8 \<Rightarrow> u8" where
  "buttons_after old p = (if overflow_packet p then old else packet_buttons (fst p))"

primrec packets_events :: "u8 \<Rightarrow> (u8 \<times> u8 \<times> u8) list \<Rightarrow> mouse_event list" where
  "packets_events old [] = []"
| "packets_events old (p # ps) = packet_events old p @ packets_events (buttons_after old p) ps"

end
