(* ===== verification/MouseProps.thy ===== *)
theory MouseProps
  imports Mouse
begin

text \<open>
  The mouse: what a stream of bytes from the auxiliary port becomes.
\<close>

section \<open>Full rings\<close>

text \<open>Several events pushed in a row: those beyond the capacity are counted and lost.\<close>

definition push_all :: "'a list \<Rightarrow> 'a ring \<Rightarrow> 'a ring" where
  "push_all xs r = fold (\<lambda>x r. snd (ring_push x r)) xs r"

lemma push_all_simps [simp]:
  "push_all [] r = r" "push_all (x # xs) r = push_all xs (snd (ring_push x r))" "push_all (xs @ ys) r = push_all ys (push_all xs r)"
  by (simp_all add: push_all_def)

definition ring_holds :: "'a list \<Rightarrow> 'a ring \<Rightarrow> bool" where
  "ring_holds xs r \<longleftrightarrow> ring_ok r \<and> ring_content r = take 127 xs \<and> ring_dropped r = of_nat (length xs - 127)"

lemma ring_holds_clear: "ring_holds [] (ring_clear r)"
  by (simp add: ring_holds_def) (simp add: ring_clear_def)

lemma ring_holds_push: "ring_holds xs r \<Longrightarrow> ring_holds (xs @ [x]) (snd (ring_push x r))"
proof (cases "length xs < 127")
  case True
  assume h: "ring_holds xs r"
  then have "ring_length r = length xs" using True ring_content_length [of r] by (simp add: ring_holds_def)
  then have "ring_length r \<noteq> 127" using True by simp
  then show ?thesis using ring_push_room [of r x] h True by (auto simp: ring_holds_def)
next
  case False
  assume h: "ring_holds xs r"
  then have "ring_length r = 127" using False ring_content_length [of r] by (simp add: ring_holds_def)
  then show ?thesis using h False
    by (simp add: ring_holds_def ring_push_full Suc_diff_le)
       (auto simp: ring_ok_def ring_content_def ring_length_def)
qed

lemma ring_holds_push_all: "ring_holds xs r \<Longrightarrow> ring_holds (xs @ ys) (push_all ys r)"
proof (induction ys arbitrary: xs r)
  case (Cons y ys)
  from Cons.IH [OF ring_holds_push [OF Cons.prems]] show ?case by simp
qed simp

section \<open>A packet\<close>

lemmas mouse_bits = MOUSE_BUTTON_MASK_LEFT_def MOUSE_BUTTON_MASK_RIGHT_def MOUSE_BUTTON_MASK_MIDDLE_def MOUSE_PACKET_LEFT_def
  MOUSE_PACKET_RIGHT_def MOUSE_PACKET_MIDDLE_def MOUSE_PACKET_X_OVERFLOW_def MOUSE_PACKET_Y_OVERFLOW_def MOUSE_PACKET_ALWAYS_ONE_def
  I8042_STATUS_OUTPUT_FULL_def I8042_STATUS_AUX_DATA_def

lemma one_bit: "(x :: u8) AND 1 = 0 \<longleftrightarrow> \<not> bit x 0" "x AND 2 = 0 \<longleftrightarrow> \<not> bit x 1" "x AND 4 = 0 \<longleftrightarrow> \<not> bit x 2"
  using and_exp_eq_0_iff_not_bit [of x 0] and_exp_eq_0_iff_not_bit [of x 1] and_exp_eq_0_iff_not_bit [of x 2] by simp_all

lemma low_bits: "(x :: u8) AND 7 = (if bit x 0 then 1 else 0) OR (if bit x 1 then 2 else 0) OR (if bit x 2 then 4 else 0)"
proof (rule bit_word_eqI)
  fix n assume "n < LENGTH(8)"
  then have "n = 0 \<or> n = 1 \<or> n = 2 \<or> n = 3 \<or> n = 4 \<or> n = 5 \<or> n = 6 \<or> n = 7" by auto
  then show "bit (x AND 7) n = bit ((if bit x 0 then 1 else 0) OR (if bit x 1 then 2 else 0) OR (if bit x 2 then 4 else 0) :: u8) n"
    by (elim disjE) (simp_all add: bit_simps bit_numeral_rec)
qed

definition decoder_agrees :: "'d mouse_driver \<Rightarrow> u8 \<Rightarrow> mouse_event list \<Rightarrow> bool" where
  "decoder_agrees s buttons events \<longleftrightarrow> mouse_packet_index s = 0 \<and> mouse_buttons s = buttons \<and> ring_holds events (mouse_ring s)"

lemma push_is_push_all: "mouse_event_push e s = s\<lparr>mouse_ring := push_all [e] (mouse_ring s)\<rparr>"
  by (simp add: mouse_event_push_def)

lemma publish_button:
  "(if (old XOR new) AND m \<noteq> 0 then mouse_publish_button_change b (new AND m \<noteq> 0) new s else s) =
     s\<lparr>mouse_ring := push_all (button_event b m old new) (mouse_ring s)\<rparr>"
  if "m = MOUSE_BUTTON_MASK_LEFT \<or> m = MOUSE_BUTTON_MASK_RIGHT \<or> m = MOUSE_BUTTON_MASK_MIDDLE"
  using that unfolding mouse_bits by (elim disjE)
    (simp_all add: mouse_publish_button_change_def push_is_push_all button_event_def one_bit bit_xor_iff)

lemma decode_packet:
  assumes "mouse_packet s = p" "decoder_agrees s old events"
  shows "decoder_agrees (mouse_decode_packet s) (buttons_after old p) (events @ packet_events old p)"
proof -
  obtain flags x y where p: "p = (flags, x, y)" by (cases p)
  have over: "(flags AND (MOUSE_PACKET_X_OVERFLOW OR MOUSE_PACKET_Y_OVERFLOW) \<noteq> 0) = overflow_packet (flags, x, y)"
    by (simp add: overflow_packet_def mouse_bits)
  show ?thesis
  proof (cases "overflow_packet (flags, x, y)")
    case True
    then show ?thesis using assms over by (simp add: p mouse_decode_packet_def decoder_agrees_def packet_events_def buttons_after_def)
  next
    case False
    define new where "new = packet_buttons flags"
    let ?n1 = "if flags AND MOUSE_PACKET_LEFT \<noteq> 0 then MOUSE_BUTTON_MASK_LEFT else 0"
    let ?n2 = "if flags AND MOUSE_PACKET_RIGHT \<noteq> 0 then ?n1 OR MOUSE_BUTTON_MASK_RIGHT else ?n1"
    have new: "(if flags AND MOUSE_PACKET_MIDDLE \<noteq> 0 then ?n2 OR MOUSE_BUTTON_MASK_MIDDLE else ?n2) = new"
      by (simp add: new_def packet_buttons_def low_bits mouse_bits one_bit)
    note publish = publish_button [OF disjI1 [OF refl]] publish_button [OF disjI2 [OF disjI1 [OF refl]]] publish_button [OF disjI2 [OF disjI2 [OF refl]]]
    have moved: "(sint x \<noteq> 0 \<or> - sint y \<noteq> 0) = (\<not> (x = 0 \<and> y = 0))" by (simp add: signed_eq_0_iff)
    have "mouse_ring (mouse_decode_packet s) = push_all (packet_events old p) (mouse_ring s) \<and> mouse_packet_index (mouse_decode_packet s) = 0 \<and>
        mouse_buttons (mouse_decode_packet s) = new"
      using assms(2) False
      unfolding mouse_decode_packet_def assms(1) p Let_def prod.case over new moved publish
      apply (simp add: decoder_agrees_def packet_events_def new_def [symmetric] push_is_push_all split del: if_split)
      by (auto simp: mouse_bits mouse_event_push_def)
    then show ?thesis using assms False ring_holds_push_all [of events "mouse_ring s" "packet_events old p"]
      by (simp add: decoder_agrees_def p buttons_after_def new_def)
  qed
qed

section \<open>A stream of bytes\<close>

text \<open>The interrupts of a stream: at each, the controller offers the next byte of the auxiliary device.\<close>

definition aux_port :: "u8 \<Rightarrow> 'd controller" where
  "aux_port b = \<lparr>ctl_status = \<lambda>d. (I8042_STATUS_OUTPUT_FULL OR I8042_STATUS_AUX_DATA, d), ctl_read = \<lambda>d. (b, d),
     ctl_command = \<lambda>c d. d, ctl_write = \<lambda>x d. d\<rparr>"

primrec mouse_stream :: "u8 list \<Rightarrow> 'd mouse_driver \<Rightarrow> 'd mouse_driver option" where
  "mouse_stream [] s = Some s"
| "mouse_stream (b # bs) s = (case mouse_interrupt_handler (aux_port b) s of None \<Rightarrow> None | Some s \<Rightarrow> mouse_stream bs s)"

lemma interrupt_byte: "mouse_interrupt_handler (aux_port b) s = mouse_packet_byte b s"
  by (simp add: mouse_interrupt_handler_def aux_port_def Let_def mouse_bits)

lemma skipped_byte:
  "b AND 0x08 = 0 \<Longrightarrow> decoder_agrees s old events \<Longrightarrow>
     \<exists>s'. mouse_packet_byte b s = Some s' \<and> decoder_agrees s' old events"
  by (simp add: mouse_packet_byte_def decoder_agrees_def mouse_bits)

lemma first_bytes:
  assumes "b AND 0x08 \<noteq> 0" "decoder_agrees s old events"
  shows "mouse_stream [b] s = Some (s\<lparr>mouse_packet := set_packet_byte 0 b (mouse_packet s), mouse_packet_index := 1\<rparr>)"
    "mouse_stream [b, x] s = Some (s\<lparr>mouse_packet := set_packet_byte 1 x (set_packet_byte 0 b (mouse_packet s)), mouse_packet_index := 2\<rparr>)"
    "mouse_stream (b # x # y # rest) s = mouse_stream rest (mouse_decode_packet (s\<lparr>mouse_packet := (b, x, y), mouse_packet_index := 0\<rparr>))"
  using assms
  by (simp_all add: interrupt_byte mouse_packet_byte_def decoder_agrees_def mouse_bits Let_def set_packet_byte_def split: prod.splits)

lemma stream_decoded:
  "decoder_agrees s old events \<Longrightarrow>
     \<exists>s'. mouse_stream bs s = Some s' \<and> mouse_buttons s' = foldl buttons_after old (stream_packets bs) \<and>
       ring_holds (events @ packets_events old (stream_packets bs)) (mouse_ring s')"
proof (induction bs arbitrary: s old events rule: stream_packets.induct)
  case (1 b bs)
  show ?case
  proof (cases "b AND 0x08 = 0")
    case True
    then obtain t where "mouse_packet_byte b s = Some t" "decoder_agrees t old events" using skipped_byte 1(3) by blast
    then show ?thesis using 1(1) [OF True] True by (simp add: interrupt_byte)
  next
    case False
    note first = first_bytes [OF False 1(3)]
    show ?thesis
    proof (cases bs)
      case Nil
      then show ?thesis using first(1) False 1(3) by (simp add: decoder_agrees_def)
    next
      case (Cons x ys)
      show ?thesis
      proof (cases ys)
        case Nil
        then show ?thesis using first(2) [of x] Cons False 1(3) by (simp add: decoder_agrees_def)
      next
        case (Cons y rest)
        have "decoder_agrees (mouse_decode_packet (s\<lparr>mouse_packet := (b, x, y), mouse_packet_index := 0\<rparr>))
            (buttons_after old (b, x, y)) (events @ packet_events old (b, x, y))"
          by (rule decode_packet) (use 1(3) in \<open>simp_all add: decoder_agrees_def\<close>)
        from 1(2) [OF False \<open>bs = x # ys\<close> Cons this] show ?thesis
          using first(3) [of x y rest] \<open>bs = x # ys\<close> Cons False by simp
      qed
    qed
  qed
qed (simp add: decoder_agrees_def)

lemma initialized_agrees:
  "\<not> mouse_initialized s \<Longrightarrow> mouse_initialize C s = (True, s') \<Longrightarrow> decoder_agrees s' 0 []"
  by (auto simp: mouse_initialize_def Let_def decoder_agrees_def ring_holds_clear split: if_splits prod.splits)

text \<open>
  A movement of 128 to 255 to the right has the sign bit of its packet clear and no overflow, and its low byte is read as a
  movement to the left: the sign bits (0x10 and 0x20 of the first byte) are not looked at.
\<close>

lemma long_movement_reversed:
  assumes "(b :: u8) AND 0xD8 = 0x08" "128 \<le> uint x"
  shows "\<exists>e. packet_events (packet_buttons b) (b, x, 0) = [e] \<and> mouse_event_type e = MOUSE_EVENT_MOVE \<and> mouse_dx e = uint x - 256"
proof -
  have "b AND 0xC0 = (b AND 0xD8) AND 0xC0" by (simp add: and.assoc)
  then have "\<not> overflow_packet (b, x, 0)" by (simp add: overflow_packet_def assms(1))
  moreover have "uint x div 128 = 1" using assms(2) uint_bounded [of x] by simp
  then have "bit (uint x) 7" by (simp add: bit_iff_odd)
  then have "sint x = uint x - 256" using uint_bounded [of x]
    by (simp add: sint_uint signed_take_bit_eq_take_bit_minus take_bit_int_eq_self)
  ultimately show ?thesis using assms(2) by (auto simp: packet_events_def button_event_def)
qed

section \<open>The property\<close>

text \<open>A controller that is always ready and whose device acknowledges every command.\<close>

definition ready_controller :: "unit controller" where
  "ready_controller = \<lparr>ctl_status = \<lambda>d. (0x21, d), ctl_read = \<lambda>d. (0xFA, d), ctl_command = \<lambda>c d. d, ctl_write = \<lambda>x d. d\<rparr>"

definition idle_mouse :: "unit mouse_driver" where
  "idle_mouse = \<lparr>mouse_device = (), mouse_ring = \<lparr>ring_cells = \<lambda>i. \<lparr>mouse_event_type = MOUSE_EVENT_MOVE, mouse_dx = 0, mouse_dy = 0,
     mouse_event_button = MOUSE_BUTTON_LEFT, mouse_event_buttons = 0\<rparr>, ring_read = 0, ring_write = 0, ring_dropped = 0\<rparr>,
     mouse_initialized = False, mouse_handler_registered = False, mouse_irq_unmasked = False, mouse_packet = (0, 0, 0),
     mouse_packet_index = 0, mouse_buttons = 0, mouse_packets_received = 0, mouse_bad_packets = 0\<rparr>"

lemma timeout_Suc: "I8042_TIMEOUT = Suc 99999"
  by (simp add: I8042_TIMEOUT_def)

lemma ready_steps:
  "wait_status ready_controller I8042_STATUS_INPUT_FULL False (Suc n) d = (True, ())"
  "wait_status ready_controller I8042_STATUS_OUTPUT_FULL True (Suc n) d = (True, ())"
  "read_auxiliary_loop ready_controller (Suc n) d = (Some MOUSE_RESPONSE_ACK, ())"
  by (simp_all add: ready_controller_def I8042_STATUS_INPUT_FULL_def I8042_STATUS_OUTPUT_FULL_def I8042_STATUS_AUX_DATA_def
      MOUSE_RESPONSE_ACK_def)

lemma ready_waits:
  "i8042_wait_input_empty ready_controller d = (True, ())" "i8042_wait_output_full ready_controller d = (True, ())"
  "i8042_read_auxiliary ready_controller d = (Some MOUSE_RESPONSE_ACK, ())"
  by (simp_all only: i8042_wait_input_empty_def i8042_wait_output_full_def i8042_read_auxiliary_def timeout_Suc ready_steps)

lemma ready_commands:
  "i8042_write_command ready_controller c d = (True, ())" "i8042_write_data ready_controller x d = (True, ())"
  "mouse_send_command ready_controller c d = (True, ())"
  by (simp_all add: i8042_write_command_def i8042_write_data_def mouse_send_command_def ready_waits)

lemma ready_enables: "i8042_enable_auxiliary_port ready_controller d = (True, ())"
  by (simp add: i8042_enable_auxiliary_port_def ready_commands ready_waits) (simp add: ready_controller_def Let_def)

lemma idle_mouse_starts: "fst (mouse_initialize ready_controller idle_mouse)"
  by (simp add: mouse_initialize_def ready_enables ready_commands Let_def)



end
