(* ===== verification/Spec2Isabelle.thy ===== *)
theory Spec2Isabelle
  imports Pmm Block TimerProps UserDirectory HeapBoot ClockProps LineInput FdProps Ext2Read Ext2Vnode Elf StackProps ProcessProps
    PrintfProps KeyboardProps MouseProps
begin

text \<open>
  A verification library of Meaty OS, a kernel for i386 processors written in C (\<open>src/kernel\<close>), with the C library that is
  linked into it (\<open>src/libc\<close>).

  \<^bold>\<open>The program.\<close> The kernel boots from Multiboot, takes over the physical memory that the boot loader reports, switches
  paging on, builds a heap, starts the tasking subsystem on the boot processor and then on the others, mounts an ext2 volume on
  a partition (or a file system in memory), and runs user programs. The boot code gives each module its storage in static
  variables; modules call each other directly, except for three places where a table of function pointers stands between them:
  the algorithm of a scheduling policy, the driver of a block device and the operations of a vnode. Interrupts enter at the timer, which
  ticks the sleep queue and the scheduler, at the keyboard and the mouse, and at system calls. Tasks block in wait queues, on semaphores and on mutexes.

  \<^bold>\<open>Theories and the code that they model.\<close> Definitions have the names of the C functions; a suffix \<open>_loop\<close>, \<open>_locked\<close> or
  \<open>_round\<close> marks the loop of a function, its section under a lock, or one round of an endless loop.

  \<^item> \<open>Prelude\<close>: types of fixed width, word arithmetic read on natural numbers, doubly linked lists.

  \<^item> Memory. \<open>Pmm\<close> (\<open>memory/pmm.c\<close>): the frame bitmap. \<open>Paging\<close>, \<open>PageTables\<close>, \<open>UserDirectory\<close>, \<open>PagingProps\<close>
    (\<open>memory/paging.c\<close>): page tables as words in physical memory that are reached through the recursive mapping.
    \<open>Usercopy\<close> (\<open>memory/usercopy.c\<close>). \<open>Heap\<close> (\<open>memory/heap.c\<close>), its list of blocks in \<open>HeapInv\<close>, the abstract heap in
    \<open>HeapSpec\<close> and \<open>HeapLive\<close>, growth by pages in \<open>HeapPages\<close>, start in \<open>HeapBoot\<close>, properties in \<open>HeapProps\<close>. \<open>UserStacks\<close>,
    \<open>StackProps\<close> (\<open>memory/address_space.c\<close>).

  \<^item> Tasking. \<open>Tasks\<close> (the task structure), \<open>RunQueue\<close> (\<open>scheduler/round_robin.c\<close> behind \<open>algorithm.h\<close>),
    \<open>Scheduler\<close> and \<open>Dispatch\<close> (\<open>scheduler/scheduler.c\<close> with \<open>multitasking/cpu.c\<close> and the switch in assembly), \<open>WaitQueue\<close>
    (\<open>task/wait_queue.c\<close>, \<open>semaphore.c\<close>, \<open>mutex.c\<close>), \<open>Sleep\<close> (\<open>timer/timer.c\<close>, \<open>task/sleep_queue.c\<close>), \<open>Lifecycle\<close>
    (\<open>task/task.c\<close>). \<open>System\<close> composes them: its relation has one step for each section under a lock, on any processor.

  \<^item> Processes. \<open>Process\<close> (\<open>process/process.c\<close>) with \<open>ProcessPath\<close>, \<open>ProcessInv\<close>, \<open>ProcessRelease\<close>, \<open>ProcessFamily\<close>,
    \<open>ProcessWait\<close>, \<open>ProcessCreate\<close>, \<open>ProcessTree\<close>, \<open>ProcessCalls\<close>, \<open>ProcessProps\<close>. \<open>Elf\<close> (\<open>process/elf.c\<close>,
    \<open>user_image.c\<close>).

  \<^item> Files. \<open>Block\<close> (\<open>fs/block_device.c\<close>, \<open>partition.c\<close>), \<open>Bytes\<close>, \<open>Ext2\<close>, \<open>Ext2Map\<close>, \<open>Ext2Alloc\<close>, \<open>Ext2Dir\<close>, \<open>Ext2Read\<close>,
    \<open>Ext2Vnode\<close> (\<open>fs/ext2.c\<close>), \<open>Vfs\<close> and \<open>VfsSpec\<close> (\<open>fs/vfs.c\<close>), \<open>Ramfs\<close> and \<open>RamfsProps\<close> (\<open>fs/ramfs.c\<close>), \<open>Fd\<close> and \<open>FdProps\<close>
    (\<open>fs/fd.c\<close>).

  \<^item> Devices and text. \<open>Clock\<close>, \<open>ClockProps\<close> (\<open>arch/i386/rtc.c\<close>, \<open>system/time.c\<close>), \<open>LineInput\<close>
    (\<open>input/keyboard_line.c\<close>), \<open>Stdio\<close>, \<open>StdioFiles\<close>, \<open>StdioOutput\<close>, \<open>Printf\<close>, \<open>PrintfSpec\<close>, \<open>Scanf\<close>, \<open>PrintfProps\<close>
    (\<open>libc/stdio\<close>). \<open>Ring\<close> (the buffers of the input drivers), \<open>KeyCodes\<close>, \<open>Keyboard\<close>, \<open>KeyboardInv\<close>, \<open>KeyboardProps\<close>
    (\<open>device/keyboard.c\<close> and the queue of \<open>gui/input.c\<close>), \<open>Mouse\<close>, \<open>MouseProps\<close> (\<open>device/mouse.c\<close>).

  \<^bold>\<open>How state and operations correspond.\<close> The static variables of a module are the fields of a record, a struct is a record, an
  array or memory reached by pointers is a function from indices or addresses. A pointer that the code compares with NULL
  is an option; a pointer that is never NULL is the address. Integers keep their width (\<open>u8\<close> to \<open>u64\<close>), with wrap-around. An operation takes the
  state and returns its result with the new state. The outer \<open>None\<close> stands for an execution that never returns
  normally: a NULL or wild access, a division by zero, \<open>kernel_panic\<close>, or an endless \<open>hlt\<close> loop. Results that the code reports
  as failures are ordinary values. An out parameter is part of the result, and a NULL test on it is a boolean argument
  where a caller can pass NULL. Loops are structural recursion or \<open>function\<close> with a measure when the code bounds
  them, and \<open>partial_function (option)\<close> when the bound is an invariant of the data (a linked list, a table on a disk): then not returning is
  \<open>None\<close> too and the properties prove that the loop returns. No fuel is used anywhere.

  \<^bold>\<open>Interfaces.\<close> The locale \<open>run_queue\<close> is the contract of a scheduling algorithm and is interpreted on round robin; the invariant of
  the scheduler is proved in it. \<open>permit_object\<close> extends it with what semaphores and mutexes share, and gives the absence of
  lost wakeups for both. \<open>frame_allocator\<close> is interpreted on the frame bitmap. The heap is interpreted as an allocator, the memory file system as a provider of vnode operations, and the
  path walk of the virtual file system is proved for every provider.

  \<^bold>\<open>What the lemmas show.\<close> \<open>SchedInv\<close>, \<open>Reachable\<close>, \<open>Choice\<close>, \<open>Progress\<close>, \<open>Sync\<close> and \<open>Wakeups\<close>: in every interleaving of any number of
  processors a task stands in exactly one place, scheduling picks the head of the best band and returns, permits are neither lost nor
  invented, wakeups are not lost. \<open>HeapInv\<close> to \<open>HeapProps\<close>: the block list refines first fit on a sequence of cells; allocations are apart;
  bad pointers change nothing. \<open>PageTables\<close> to \<open>PagingProps\<close>: mapping acts as an update of the translation, and user mode reaches
  only what was mapped for it. \<open>Ext2Read\<close>: reading through caches and runs equals cutting the bytes from the mapped blocks. \<open>FdProps\<close>: the
  table of descriptors stays typed over the heap and the file system. The theories of processes: reference counts, registry, children
  and memory agree after every sequence of calls. \<open>StdioOutput\<close>, \<open>PrintfSpec\<close>, \<open>PrintfProps\<close>: output is complete and in order
  in every buffering mode, numbers are printed in positional notation, and what is printed is read back. \<open>Ring\<close>: a ring is a bounded queue.
  \<open>KeyboardInv\<close> and \<open>KeyboardProps\<close>: the permits of the two semaphores of the keyboard agree with the elements of its rings under any
  interleaving of interrupts and readers, a text that is typed is read, the queue of the interface merges movements.
  \<open>MouseProps\<close>: any stream of bytes is decoded into its packets and their events.

  \<^bold>\<open>Bounds.\<close> Sizes are those of the code: 1048576 frames, 1024 entries of a table, 64 descriptors, 32 stack slots of 1 MiB, 64
  handles of a process, 256 bytes of number text, rings of 128 places of which 127 can be in use. Where an identifier or a counter could wrap (process identifiers, reference counts),
  the model has the test that the code makes, or the wrap-around when it makes none.

  \<^bold>\<open>Not modelled.\<close>
  \<^item> Spinning, and the instructions between two lock sections of different processors at a finer grain than the section. A section
    under a spin lock is one step, nested locks included; what happens between sections is a step of its own in \<open>System\<close>, while
    the modules below it (heap, files, processes) are sequential.
  \<^item> The translation look-aside buffer, caches of the processor, the stack of a task beyond its saved pointer, and the real
    timing of devices. The CMOS chip answers as a function of the number of reads, a disk by its read and write closures, the
    controller of the mouse by functions on a state of its own, the port of the keyboard by the scancode of each interrupt.
  \<^item> Headers and payloads of the heap are separate maps, so that a write beyond an allocation is not followed into a header.
  \<^item> Log messages and counters that nothing reads. Overflow of the count of printed characters.
  \<^item> Floating point conversions of \<open>printf\<close>: they compute in the 80-bit format of the x87 unit.
  \<^item> The windows and the drawing of the graphical interface, the drivers of display and disk controllers, which are
    mostly accesses to ports and mapped registers; vendored image and font decoders; the assembly of the entry paths; the
    user programs, which run outside of the kernel; \<open>acpi.c\<close> and the start of the other processors.
\<close>

end
